(* ===== verification/Prelude.thy ===== *)
theory Prelude
  imports Complex_Main "HOL-Library.AList" "HOL-Library.Sublist"
begin

text \<open>
  Shared vocabulary of the development: results of fallible Python code, insertion-ordered
  dictionaries, runs of state machines, and the generic lemmas about them that the component
  theories use.

  A Python function that may raise is a function into \<open>'e + 'a\<close>: \<open>Inl\<close> carries the exception
  that leaves the function, \<open>Inr\<close> the returned value.  \<open>rbind\<close> sequences two such computations.
  Clock readings (\<open>time.time()\<close>) are rational numbers of seconds.
\<close>

section \<open>Collections of facts\<close>

named_theorems component_defs \<open>definitions that component proofs unfold together\<close>
named_theorems frame_simps \<open>fields that an operation leaves unchanged\<close>

section \<open>Results\<close>

type_synonym time = rat

definition rbind :: "'e + 'a \<Rightarrow> ('a \<Rightarrow> 'e + 'b) \<Rightarrow> 'e + 'b" where
  "rbind r f = (case r of Inl e \<Rightarrow> Inl e | Inr a \<Rightarrow> f a)"

lemma rbind_simps [simp]:
  "rbind (Inl e) f = Inl e"
  "rbind (Inr a) f = f a"
  by (simp_all add: rbind_def)

lemma rbind_eq_Inr: "rbind r f = Inr b \<longleftrightarrow> (\<exists>a. r = Inr a \<and> f a = Inr b)"
  by (cases r) auto

lemma rbind_eq_Inl: "rbind r f = Inl e \<longleftrightarrow> r = Inl e \<or> (\<exists>a. r = Inr a \<and> f a = Inl e)"
  by (cases r) auto

lemma rbind_assoc: "rbind (rbind r f) g = rbind r (\<lambda>a. rbind (f a) g)"
  by (cases r) auto

definition is_ok :: "'e + 'a \<Rightarrow> bool" where
  "is_ok r = (case r of Inl _ \<Rightarrow> False | Inr _ \<Rightarrow> True)"

lemma is_ok_simps [simp]: "is_ok (Inr a)" "\<not> is_ok (Inl e)"
  by (simp_all add: is_ok_def)

text \<open>
  A list comprehension whose element expression may raise: the first exception leaves the loop.
\<close>

fun map_result :: "('a \<Rightarrow> 'e + 'b) \<Rightarrow> 'a list \<Rightarrow> 'e + 'b list" where
  "map_result f [] = Inr []"
| "map_result f (x # xs) = rbind (f x) (\<lambda>y. rbind (map_result f xs) (\<lambda>ys. Inr (y # ys)))"

lemma map_result_length: "map_result f xs = Inr ys \<Longrightarrow> length ys = length xs"
  by (induction xs arbitrary: ys) (auto simp: rbind_eq_Inr)

lemma map_result_in:
  "map_result f xs = Inr ys \<Longrightarrow> x \<in> set xs \<Longrightarrow> \<exists>y \<in> set ys. f x = Inr y"
  by (induction xs arbitrary: ys) (auto simp: rbind_eq_Inr)

lemma map_result_from:
  "map_result f xs = Inr ys \<Longrightarrow> y \<in> set ys \<Longrightarrow> \<exists>x \<in> set xs. f x = Inr y"
proof (induction xs arbitrary: ys)
  case Nil
  then show ?case by simp
next
  case (Cons x xs)
  then obtain z zs where "f x = Inr z" "map_result f xs = Inr zs" "ys = z # zs"
    by (auto simp: rbind_eq_Inr)
  with Cons show ?case by auto
qed

lemma map_result_eq_map:
  "map_result f xs = Inr ys \<Longrightarrow> (\<And>x y. f x = Inr y \<Longrightarrow> y = g x) \<Longrightarrow> ys = map g xs"
  by (induction xs arbitrary: ys) (auto simp: rbind_eq_Inr)

lemma map_result_total: "(\<And>x. x \<in> set xs \<Longrightarrow> f x = Inr (g x)) \<Longrightarrow> map_result f xs = Inr (map g xs)"
  by (induction xs) auto

text \<open>
  \<open>dict.fromkeys(xs)\<close> and \<open>set\<close>-guarded loops keep the first occurrence of each element.
\<close>

fun first_occurrences :: "'a list \<Rightarrow> 'a list" where
  "first_occurrences [] = []"
| "first_occurrences (x # xs) = x # filter (\<lambda>y. y \<noteq> x) (first_occurrences xs)"

lemma set_first_occurrences [simp]: "set (first_occurrences xs) = set xs"
  by (induction xs) auto

lemma distinct_first_occurrences [simp]: "distinct (first_occurrences xs)"
  by (induction xs) auto

lemma first_occurrences_distinct: "distinct xs \<Longrightarrow> first_occurrences xs = xs"
  by (induction xs) (auto simp: filter_id_conv)

lemma first_occurrences_idem [simp]: "first_occurrences (first_occurrences xs) = first_occurrences xs"
  by (rule first_occurrences_distinct) simp

lemma first_occurrences_Nil_iff [simp]: "first_occurrences xs = [] \<longleftrightarrow> xs = []"
  by (cases xs) auto

lemma length_first_occurrences: "length (first_occurrences xs) \<le> length xs"
  by (induction xs) (auto intro: le_trans[OF length_filter_le])

section \<open>Insertion-ordered dictionaries\<close>

text \<open>
  A \<open>dict\<close> whose iteration order matters is an association list.  \<open>AList.update\<close> keeps the position
  of an existing key and appends a new one, as Python does; \<open>AList.delete\<close> is \<open>pop(key, None)\<close>.
\<close>

definition keys_distinct :: "('k \<times> 'v) list \<Rightarrow> bool" where
  "keys_distinct d \<longleftrightarrow> distinct (map fst d)"

lemma keys_distinct_Nil [simp]: "keys_distinct []"
  by (simp add: keys_distinct_def)

lemma keys_distinct_update [simp]: "keys_distinct d \<Longrightarrow> keys_distinct (AList.update k v d)"
  by (simp add: keys_distinct_def distinct_update)

lemma keys_distinct_delete [simp]: "keys_distinct d \<Longrightarrow> keys_distinct (AList.delete k d)"
  by (simp add: keys_distinct_def distinct_delete)

lemma keys_distinct_filter [simp]: "keys_distinct d \<Longrightarrow> keys_distinct (filter P d)"
  by (simp add: keys_distinct_def distinct_map_filter)

lemma map_of_update [simp]: "map_of (AList.update k v d) = (map_of d)(k \<mapsto> v)"
  by (rule update_conv')

lemma map_of_delete [simp]: "map_of (AList.delete k d) = (map_of d)(k := None)"
  by (simp add: delete_conv')

lemma map_of_in_set: "keys_distinct d \<Longrightarrow> (k, v) \<in> set d \<longleftrightarrow> map_of d k = Some v"
  by (auto simp: keys_distinct_def)

section \<open>Counting\<close>

lemma length_filter_Suc_delete:
  "distinct xs \<Longrightarrow> x \<in> set xs \<Longrightarrow> P x \<Longrightarrow>
   length (filter P xs) = Suc (length (filter P (filter (\<lambda>y. y \<noteq> x) xs)))"
proof (induction xs)
  case Nil
  then show ?case by simp
next
  case (Cons y ys)
  show ?case
  proof (cases "y = x")
    case True
    with Cons.prems have "filter (\<lambda>y. y \<noteq> x) ys = ys" by (auto simp: filter_id_conv)
    with True Cons.prems show ?thesis by simp
  next
    case False
    with Cons show ?thesis by auto
  qed
qed

lemma length_filter_eq_all: "length (filter P xs) = length xs \<longleftrightarrow> (\<forall>x \<in> set xs. P x)"
proof (induction xs)
  case Nil
  then show ?case by simp
next
  case (Cons x xs)
  have "length (filter P xs) \<noteq> Suc (length xs)" using length_filter_le [of P xs] by linarith
  with Cons show ?case by simp
qed

lemma sum_list_nonneg_rat: "(\<And>x. x \<in> set xs \<Longrightarrow> (0::rat) \<le> x) \<Longrightarrow> 0 \<le> sum_list xs"
  by (induction xs) auto

section \<open>State machines\<close>

text \<open>
  A component with state is a deterministic machine: a state type, an event per operation call and
  a step function.  A history of calls is a list of events.  The locale says once that an invariant
  kept by every step holds after every history, and that a monotone observation never decreases.
\<close>

definition run :: "('s \<Rightarrow> 'e \<Rightarrow> 's) \<Rightarrow> 's \<Rightarrow> 'e list \<Rightarrow> 's" where
  "run step s es = foldl step s es"

lemma run_simps [simp]:
  "run step s [] = s"
  "run step s (e # es) = run step (step s e) es"
  by (simp_all add: run_def)

lemma run_append: "run step s (es @ fs) = run step (run step s es) fs"
  by (simp add: run_def)

locale machine =
  fixes step :: "'s \<Rightarrow> 'e \<Rightarrow> 's"
    and inv :: "'s \<Rightarrow> bool"
  assumes inv_step: "inv s \<Longrightarrow> inv (step s e)"
begin

lemma inv_run: "inv s \<Longrightarrow> inv (run step s es)"
proof (induction es arbitrary: s)
  case Nil
  then show ?case by simp
next
  case (Cons e es)
  then show ?case by (simp add: inv_step)
qed

lemma inv_prefix: "inv s \<Longrightarrow> es = fs @ gs \<Longrightarrow> inv (run step s fs)"
  by (simp add: inv_run)

end

locale latched_machine = machine step inv
  for step :: "'s \<Rightarrow> 'e \<Rightarrow> 's" and inv :: "'s \<Rightarrow> bool" +
  fixes latch :: "'s \<Rightarrow> bool" and releases :: "'e \<Rightarrow> bool"
  assumes latch_step: "inv s \<Longrightarrow> latch s \<Longrightarrow> \<not> releases e \<Longrightarrow> latch (step s e)"
begin

lemma latch_run:
  "inv s \<Longrightarrow> latch s \<Longrightarrow> list_all (\<lambda>e. \<not> releases e) es \<Longrightarrow> latch (run step s es)"
proof (induction es arbitrary: s)
  case Nil
  then show ?case by simp
next
  case (Cons e es)
  from Cons.prems have "latch (step s e)" by (auto intro: latch_step)
  moreover from Cons.prems have "inv (step s e)" by (auto intro: inv_step)
  ultimately have "latch (run step (step s e) es)" using Cons.IH Cons.prems by auto
  then show ?case by simp
qed

end

text \<open>
  A machine whose steps only extend the state: \<open>extends\<close> is a preorder, and what held of the
  earlier state can be read off after any history.
\<close>

locale extending_machine = machine step inv
  for step :: "'s \<Rightarrow> 'e \<Rightarrow> 's" and inv :: "'s \<Rightarrow> bool" +
  fixes extends :: "'s \<Rightarrow> 's \<Rightarrow> bool"
  assumes extends_refl: "extends s s"
    and extends_trans: "extends s t \<Longrightarrow> extends t u \<Longrightarrow> extends s u"
    and extends_step: "inv s \<Longrightarrow> extends s (step s e)"
begin

lemma extends_run: "inv s \<Longrightarrow> extends s (run step s es)"
proof (induction es arbitrary: s)
  case Nil
  then show ?case by (simp add: extends_refl)
next
  case (Cons e es)
  then have "extends s (step s e)" and "extends (step s e) (run step (step s e) es)"
    by (auto intro: extends_step inv_step)
  then show ?case by (auto intro: extends_trans)
qed

end

text \<open>
  One-shot resources (an approval permit, a queued occurrence).  \<open>fires s e k\<close> says that call \<open>e\<close> made
  in state \<open>s\<close> uses resource \<open>k\<close>; a used resource is spent and stays spent.  The locale concludes
  that no history uses a resource twice.
\<close>

fun firings :: "('s \<Rightarrow> 'e \<Rightarrow> 's) \<Rightarrow> ('s \<Rightarrow> 'e \<Rightarrow> 'k \<Rightarrow> bool) \<Rightarrow> 's \<Rightarrow> 'e list \<Rightarrow> 'k \<Rightarrow> nat" where
  "firings step fires s [] k = 0"
| "firings step fires s (e # es) k =
     (if fires s e k then 1 else 0) + firings step fires (step s e) es k"

locale at_most_once = machine step inv
  for step :: "'s \<Rightarrow> 'e \<Rightarrow> 's" and inv :: "'s \<Rightarrow> bool" +
  fixes fires :: "'s \<Rightarrow> 'e \<Rightarrow> 'k \<Rightarrow> bool" and spent :: "'s \<Rightarrow> 'k \<Rightarrow> bool"
  assumes fires_not_spent: "inv s \<Longrightarrow> fires s e k \<Longrightarrow> \<not> spent s k"
    and fires_spends: "inv s \<Longrightarrow> fires s e k \<Longrightarrow> spent (step s e) k"
    and spent_step: "inv s \<Longrightarrow> spent s k \<Longrightarrow> spent (step s e) k"
begin

lemma spent_never_fires: "inv s \<Longrightarrow> spent s k \<Longrightarrow> firings step fires s es k = 0"
proof (induction es arbitrary: s)
  case Nil
  then show ?case by simp
next
  case (Cons e es)
  then have "\<not> fires s e k" using fires_not_spent by blast
  moreover have "firings step fires (step s e) es k = 0"
    using Cons by (blast intro: inv_step spent_step)
  ultimately show ?case by simp
qed

lemma firings_le_1: "inv s \<Longrightarrow> firings step fires s es k \<le> 1"
proof (induction es arbitrary: s)
  case Nil
  then show ?case by simp
next
  case (Cons e es)
  show ?case
  proof (cases "fires s e k")
    case True
    then have "firings step fires (step s e) es k = 0"
      using Cons.prems by (blast intro: spent_never_fires inv_step fires_spends)
    with True show ?thesis by simp
  next
    case False
    with Cons show ?thesis by (simp add: inv_step)
  qed
qed

lemma spent_run: "inv s \<Longrightarrow> spent s k \<Longrightarrow> spent (run step s es) k"
  by (induction es arbitrary: s) (auto intro: inv_step spent_step)

end

end
