(* ===== verification/PyValue.thy ===== *)
theory PyValue
  imports Prelude "HOL-Library.Char_ord"
begin

text \<open>
  The Python values that JSON documents decode to, and the built-in operations the code applies to
  them: truth testing, \<open>dict.get\<close>, \<open>isinstance\<close>, \<open>str\<close>, numeric conversion, and the string methods
  \<open>strip\<close>, \<open>lower\<close>, \<open>upper\<close>, \<open>startswith\<close>, \<open>split\<close>.  Text is ASCII: \<open>casefold\<close> and \<open>lower\<close> agree on
  it.  A finite float is the rational number it denotes; rounding of float arithmetic is not
  modelled.
\<close>

section \<open>Values\<close>

datatype pyfloat = FFin rat | FInf | FNegInf | FNan

datatype pyval =
    PNone
  | PBool bool
  | PInt int
  | PFloat pyfloat
  | PStr string
  | PList "pyval list"
  | PDict "(string \<times> pyval) list"

type_synonym pydict = "(string \<times> pyval) list"

text \<open>\<open>bool(v)\<close>, the test of \<open>if v\<close>, \<open>v or w\<close> and \<open>not v\<close>.\<close>

fun truthy :: "pyval \<Rightarrow> bool" where
  "truthy PNone = False"
| "truthy (PBool b) = b"
| "truthy (PInt i) = (i \<noteq> 0)"
| "truthy (PFloat (FFin r)) = (r \<noteq> 0)"
| "truthy (PFloat _) = True"
| "truthy (PStr s) = (s \<noteq> [])"
| "truthy (PList xs) = (xs \<noteq> [])"
| "truthy (PDict d) = (d \<noteq> [])"

definition py_or :: "pyval \<Rightarrow> pyval \<Rightarrow> pyval" where
  "py_or a b = (if truthy a then a else b)"

text \<open>\<open>d.get(k)\<close> and \<open>d.get(k, default)\<close> on a dictionary.\<close>

text \<open>A text, and the empty text for any other value.\<close>

fun text_of :: "pyval \<Rightarrow> string" where
  "text_of (PStr s) = s"
| "text_of _ = ''''"

definition dget_or :: "pydict \<Rightarrow> string \<Rightarrow> pyval \<Rightarrow> pyval" where
  "dget_or d k dflt = (case map_of d k of None \<Rightarrow> dflt | Some v \<Rightarrow> v)"

definition dget :: "pydict \<Rightarrow> string \<Rightarrow> pyval" where
  "dget d k = dget_or d k PNone"

definition dhas :: "pydict \<Rightarrow> string \<Rightarrow> bool" where
  "dhas d k \<longleftrightarrow> map_of d k \<noteq> None"

lemma dget_simps [simp]:
  "dget [] k = PNone"
  "dget ((k', v) # d) k = (if k' = k then v else dget d k)"
  by (auto simp: dget_def dget_or_def)

lemma dget_or_simps [simp]:
  "dget_or [] k dflt = dflt"
  "dget_or ((k', v) # d) k dflt = (if k' = k then v else dget_or d k dflt)"
  by (auto simp: dget_or_def)

lemma dhas_simps [simp]:
  "dhas [] k = False"
  "dhas ((k', v) # d) k = (k' = k \<or> dhas d k)"
  by (auto simp: dhas_def)

lemma dget_update [simp]: "dget (AList.update k v d) k' = (if k' = k then v else dget d k')"
  by (simp add: dget_def dget_or_def)

section \<open>isinstance\<close>

fun is_dict :: "pyval \<Rightarrow> bool" where
  "is_dict (PDict _) = True"
| "is_dict _ = False"

fun is_list :: "pyval \<Rightarrow> bool" where
  "is_list (PList _) = True"
| "is_list _ = False"

fun is_str :: "pyval \<Rightarrow> bool" where
  "is_str (PStr _) = True"
| "is_str _ = False"

fun is_bool :: "pyval \<Rightarrow> bool" where
  "is_bool (PBool _) = True"
| "is_bool _ = False"

text \<open>\<open>isinstance(v, int | float)\<close> holds of booleans too.\<close>

fun is_number :: "pyval \<Rightarrow> bool" where
  "is_number (PBool _) = True"
| "is_number (PInt _) = True"
| "is_number (PFloat _) = True"
| "is_number _ = False"

text \<open>
  \<open>float(v)\<close> on numbers; text is parsed by a parameter where the code needs it.  \<open>None\<close> stands for
  the \<open>TypeError\<close> or \<open>ValueError\<close>.
\<close>

fun num_float :: "pyval \<Rightarrow> pyfloat option" where
  "num_float (PBool b) = Some (FFin (if b then 1 else 0))"
| "num_float (PInt i) = Some (FFin (of_int i))"
| "num_float (PFloat x) = Some x"
| "num_float _ = None"

text \<open>
  \<open>==\<close> on decoded JSON: numbers compare by value across \<open>bool\<close>, \<open>int\<close> and \<open>float\<close>, dictionaries
  regardless of the order of their keys, and \<open>NaN\<close> equals nothing.
\<close>

function (sequential) py_eq :: "pyval \<Rightarrow> pyval \<Rightarrow> bool" where
  "py_eq (PList xs) w =
     (case w of
        PList ys \<Rightarrow> length xs = length ys \<and> list_all (\<lambda>(x, y). py_eq x y) (zip xs ys)
      | _ \<Rightarrow> False)"
| "py_eq (PDict d) w =
     (case w of
        PDict e \<Rightarrow> length d = length e \<and>
          list_all (\<lambda>p. case map_of e (fst p) of None \<Rightarrow> False | Some v \<Rightarrow> py_eq (snd p) v) d
      | _ \<Rightarrow> False)"
| "py_eq PNone w = (w = PNone)"
| "py_eq (PStr s) w = (w = PStr s)"
| "py_eq v w =
     (case (num_float v, num_float w) of
        (Some x, Some y) \<Rightarrow> x = y \<and> x \<noteq> FNan
      | _ \<Rightarrow> False)"
  by pat_completeness auto

lemma size_snd_pydict:
  "(k, v) \<in> set d \<Longrightarrow> size v < Suc (size_list (size_prod (\<lambda>_. 0) size) d)" for v :: pyval
  by (induction d) auto

lemma size_elem_pylist: "x \<in> set xs \<Longrightarrow> size x < Suc (size_list size xs)" for x :: pyval
  by (induction xs) auto

termination py_eq
  by (relation "measure (size \<circ> fst)") (auto simp: size_snd_pydict size_elem_pylist dest: set_zip_leftD)

text \<open>The entries of a value used as a dictionary, and the elements of a value used as a list.\<close>

fun as_dict :: "pyval \<Rightarrow> pydict" where
  "as_dict (PDict d) = d"
| "as_dict _ = []"

fun as_list :: "pyval \<Rightarrow> pyval list" where
  "as_list (PList xs) = xs"
| "as_list _ = []"

section \<open>Strings\<close>

definition py_space :: "char \<Rightarrow> bool" where
  "py_space c \<longleftrightarrow> (let n = (of_char c :: nat) in n = 32 \<or> (9 \<le> n \<and> n \<le> 13) \<or> (28 \<le> n \<and> n \<le> 31))"

definition py_strip :: "string \<Rightarrow> string" where
  "py_strip s = rev (dropWhile py_space (rev (dropWhile py_space s)))"

definition lower_char :: "char \<Rightarrow> char" where
  "lower_char c = (let n = (of_char c :: nat) in if 65 \<le> n \<and> n \<le> 90 then char_of (n + 32) else c)"

definition upper_char :: "char \<Rightarrow> char" where
  "upper_char c = (let n = (of_char c :: nat) in if 97 \<le> n \<and> n \<le> 122 then char_of (n - 32) else c)"

definition py_lower :: "string \<Rightarrow> string" where
  "py_lower s = map lower_char s"

definition py_upper :: "string \<Rightarrow> string" where
  "py_upper s = map upper_char s"

definition starts_with :: "string \<Rightarrow> string \<Rightarrow> bool" where
  "starts_with s p \<longleftrightarrow> take (length p) s = p"

fun contains :: "string \<Rightarrow> string \<Rightarrow> bool" where
  "contains [] sub = (sub = [])"
| "contains (c # s) sub = (starts_with (c # s) sub \<or> contains s sub)"

definition join :: "string \<Rightarrow> string list \<Rightarrow> string" where
  "join sep xs = concat (case xs of [] \<Rightarrow> [] | y # ys \<Rightarrow> y # map (\<lambda>z. sep @ z) ys)"

text \<open>\<open>s.split("/", 1)[-1]\<close> and \<open>s.split("/")[-1]\<close>.\<close>

definition after_first :: "char \<Rightarrow> string \<Rightarrow> string" where
  "after_first c s = (case dropWhile (\<lambda>x. x \<noteq> c) s of [] \<Rightarrow> s | _ # rest \<Rightarrow> rest)"

definition after_last :: "char \<Rightarrow> string \<Rightarrow> string" where
  "after_last c s = rev (takeWhile (\<lambda>x. x \<noteq> c) (rev s))"

text \<open>Decimal rendering of integers, \<open>str(i)\<close>.\<close>

fun nat_digits :: "nat \<Rightarrow> string" where
  "nat_digits n =
     (if n < 10 then [char_of (48 + n)] else nat_digits (n div 10) @ [char_of (48 + n mod 10)])"

declare nat_digits.simps [simp del]

definition int_str :: "int \<Rightarrow> string" where
  "int_str i = (if i < 0 then CHR ''-'' # nat_digits (nat (- i)) else nat_digits (nat i))"

text \<open>
  \<open>str(v)\<close>.  The text of floats and containers is Python's \<open>repr\<close>, which is a parameter \<open>fmt\<close>: the
  code only ever compares such text or shows it.
\<close>

fun py_str :: "(pyval \<Rightarrow> string) \<Rightarrow> pyval \<Rightarrow> string" where
  "py_str fmt PNone = ''None''"
| "py_str fmt (PBool b) = (if b then ''True'' else ''False'')"
| "py_str fmt (PInt i) = int_str i"
| "py_str fmt (PStr s) = s"
| "py_str fmt v = fmt v"

lemma lower_char_idem [simp]: "lower_char (lower_char c) = lower_char c"
  by (simp add: lower_char_def Let_def of_char_of take_bit_eq_mod)

lemma py_lower_idem [simp]: "py_lower (py_lower s) = py_lower s"
  by (simp add: py_lower_def)

lemma dropWhile_head_not: "dropWhile P xs = [] \<or> \<not> P (hd (dropWhile P xs))"
  by (metis hd_dropWhile)

lemma dropWhile_idem_append:
  "(xs = [] \<or> \<not> P (hd xs)) \<Longrightarrow> dropWhile P xs = xs"
  by (cases xs) auto

lemma py_strip_Nil [simp]: "py_strip [] = []"
  by (simp add: py_strip_def)

lemma py_strip_not_space:
  "py_strip s \<noteq> [] \<Longrightarrow> \<not> py_space (last (py_strip s))"
  unfolding py_strip_def
  by (metis hd_dropWhile last_rev rev_is_Nil_conv)

lemma dropWhile_fixed: "\<not> P (hd xs) \<Longrightarrow> dropWhile P xs = xs"
  by (cases xs) auto

lemma py_strip_idem [simp]: "py_strip (py_strip s) = py_strip s"
proof (cases "py_strip s")
  case Nil
  then show ?thesis by simp
next
  case (Cons c t)
  let ?u = "dropWhile py_space s"
  have front: "\<not> py_space (hd (py_strip s))"
  proof -
    obtain k where k: "rev ?u = k @ dropWhile py_space (rev ?u)"
      by (metis takeWhile_dropWhile_id)
    then have "?u = py_strip s @ rev k"
      unfolding py_strip_def by (metis rev_append rev_rev_ident)
    with Cons have "hd (py_strip s) = hd ?u" and "?u \<noteq> []" by simp_all
    then show ?thesis by (metis hd_dropWhile)
  qed
  have rear: "\<not> py_space (hd (rev (py_strip s)))"
    using py_strip_not_space [of s] Cons by (metis hd_rev list.distinct(1))
  have "dropWhile py_space (py_strip s) = py_strip s"
    using front by (rule dropWhile_fixed)
  moreover have "dropWhile py_space (rev (py_strip s)) = rev (py_strip s)"
    using rear by (rule dropWhile_fixed)
  ultimately show ?thesis by (simp add: py_strip_def [of "py_strip s"])
qed

lemma starts_with_self [simp]: "starts_with s s"
  by (simp add: starts_with_def)

lemma starts_with_append [simp]: "starts_with (p @ s) p"
  by (simp add: starts_with_def)

lemma starts_with_Nil [simp]: "starts_with s []"
  by (simp add: starts_with_def)

lemma contains_Nil [simp]: "contains s []"
  by (cases s) auto

lemma contains_append_right: "contains s sub \<Longrightarrow> contains (p @ s) sub"
  by (induction p) auto

lemma starts_with_append_mono: "starts_with s sub \<Longrightarrow> starts_with (s @ t) sub"
  unfolding starts_with_def
  by (metis append_take_drop_id append_assoc append_eq_conv_conj)

lemma contains_append_left: "contains s sub \<Longrightarrow> contains (s @ t) sub"
proof (induction s)
  case Nil
  then show ?case by simp
next
  case (Cons c s)
  then show ?case
    using starts_with_append_mono [of "c # s" sub t] by auto
qed

lemma contains_mid: "contains (p @ sub @ q) sub"
  by (rule contains_append_right, cases sub) (auto simp: starts_with_def)

section \<open>Numbers\<close>

fun is_finite_float :: "pyfloat \<Rightarrow> bool" where
  "is_finite_float (FFin _) = True"
| "is_finite_float _ = False"

text \<open>
  A real number of the program: an \<open>int\<close> or finite \<open>float\<close> that is not a \<open>bool\<close>, the guard
  \<open>isinstance(v, bool) or not isinstance(v, int | float) or not math.isfinite(float(v))\<close> negated.
\<close>

fun finite_number :: "pyval \<Rightarrow> rat option" where
  "finite_number (PInt i) = Some (of_int i)"
| "finite_number (PFloat (FFin r)) = Some r"
| "finite_number _ = None"

text \<open>
  \<open>round(x, 6)\<close> on the exact value of \<open>x\<close>: half a unit rounds to the even neighbour.
\<close>

definition round_half_even :: "rat \<Rightarrow> int" where
  "round_half_even x =
     (let f = floor x; d = x - of_int f in
      if d < 1 / 2 then f else if d > 1 / 2 then f + 1 else if even f then f else f + 1)"

definition round6 :: "rat \<Rightarrow> rat" where
  "round6 x = of_int (round_half_even (x * 1000000)) / 1000000"

lemma round_half_even_bounds:
  "of_int (round_half_even x) \<le> x + 1 / 2 \<and> x - 1 / 2 \<le> of_int (round_half_even x)"
  unfolding round_half_even_def Let_def by (auto; linarith)

lemma round_half_even_int [simp]: "round_half_even (of_int n) = n"
  by (simp add: round_half_even_def)

lemma round_half_even_mono: "x \<le> y \<Longrightarrow> round_half_even x \<le> round_half_even y"
proof (rule ccontr)
  assume le: "x \<le> y" and "\<not> round_half_even x \<le> round_half_even y"
  then have gt: "round_half_even y + 1 \<le> round_half_even x" by simp
  then have "of_int (round_half_even y) + 1 \<le> (of_int (round_half_even x) :: rat)"
    by (metis of_int_1 of_int_add of_int_le_iff)
  with round_half_even_bounds [of x] round_half_even_bounds [of y] le
  have eq: "x = y" by linarith
  with gt show False by simp
qed

lemma round6_mono: "x \<le> y \<Longrightarrow> round6 x \<le> round6 y"
  unfolding round6_def by (simp add: divide_right_mono round_half_even_mono)

lemma round6_error: "\<bar>round6 x - x\<bar> \<le> 1 / 2000000"
proof -
  have "of_int (round_half_even (x * 1000000)) \<le> x * 1000000 + 1 / 2"
    and "x * 1000000 - 1 / 2 \<le> of_int (round_half_even (x * 1000000))"
    using round_half_even_bounds by blast+
  moreover have "round6 x * 1000000 = of_int (round_half_even (x * 1000000))"
    by (simp add: round6_def)
  ultimately show ?thesis unfolding abs_le_iff by linarith
qed

section \<open>Integer conversion\<close>

datatype py_exn =
  TypeError | ValueError | KeyError | AttributeError | IndexError | OverflowError | RuntimeError

definition digit_value :: "char \<Rightarrow> nat option" where
  "digit_value c = (let n = (of_char c :: nat) in if 48 \<le> n \<and> n \<le> 57 then Some (n - 48) else None)"

text \<open>Decimal digits with single underscores between them, as \<open>int(text)\<close> accepts.\<close>

fun read_digits :: "nat \<Rightarrow> string \<Rightarrow> nat option" where
  "read_digits acc [] = Some acc"
| "read_digits acc (c # s) =
     (case digit_value c of
        Some d \<Rightarrow> read_digits (10 * acc + d) s
      | None \<Rightarrow>
          (if c = CHR ''_'' then
             (case s of [] \<Rightarrow> None
              | c' # s' \<Rightarrow>
                  (case digit_value c' of
                     Some d \<Rightarrow> read_digits (10 * acc + d) s' | None \<Rightarrow> None))
           else None))"

definition read_nat :: "string \<Rightarrow> nat option" where
  "read_nat s = (case s of [] \<Rightarrow> None | c # _ \<Rightarrow> if digit_value c = None then None else read_digits 0 s)"

definition read_int :: "string \<Rightarrow> int option" where
  "read_int s =
     (case py_strip s of
        [] \<Rightarrow> None
      | c # t \<Rightarrow>
          (if c = CHR ''-'' then map_option (\<lambda>n. - int n) (read_nat t)
           else if c = CHR ''+'' then map_option int (read_nat t)
           else map_option int (read_nat (c # t))))"

text \<open>\<open>int(v)\<close>: floats truncate towards zero, text is parsed, everything else is a \<open>TypeError\<close>.\<close>

fun py_int :: "pyval \<Rightarrow> py_exn + int" where
  "py_int (PBool b) = Inr (if b then 1 else 0)"
| "py_int (PInt i) = Inr i"
| "py_int (PFloat (FFin r)) = Inr (if r < 0 then - floor (- r) else floor r)"
| "py_int (PFloat FNan) = Inl ValueError"
| "py_int (PFloat _) = Inl OverflowError"
| "py_int (PStr s) = (case read_int s of None \<Rightarrow> Inl ValueError | Some i \<Rightarrow> Inr i)"
| "py_int _ = Inl TypeError"

text \<open>Attribute access on a value that is not a dictionary raises \<open>AttributeError\<close>.\<close>

fun need_dict :: "pyval \<Rightarrow> py_exn + pydict" where
  "need_dict (PDict d) = Inr d"
| "need_dict _ = Inl AttributeError"

text \<open>Iteration: a list yields its elements, a dictionary its keys, text its characters.\<close>

fun py_iter :: "pyval \<Rightarrow> py_exn + pyval list" where
  "py_iter (PList xs) = Inr xs"
| "py_iter (PDict d) = Inr (map (PStr \<circ> fst) d)"
| "py_iter (PStr s) = Inr (map (\<lambda>c. PStr [c]) s)"
| "py_iter _ = Inl TypeError"

end
