(* ===== verification/Json.thy ===== *)
theory Json
  imports PyValue "HOL-Library.Multiset" "HOL-Library.List_Lexorder" "HOL-Library.Char_ord"
begin

text \<open>
  \<open>json.dumps(value, ensure_ascii=False, sort_keys=True, separators=(",", ":"), allow_nan=False)\<close>,
  the canonical text that digests and hash chains are computed over, and the JSON round trip
  \<open>json.loads(json.dumps(value, allow_nan=False))\<close> that takes a snapshot of a value.  The decimal
  text of a finite float is a parameter \<open>ff\<close>.
\<close>

text \<open>Control characters other than the five short escapes become \<open>\u00XX\<close>.\<close>

definition hex_digit :: "nat \<Rightarrow> char" where
  "hex_digit n = (if n < 10 then char_of (48 + n) else char_of (87 + n))"

definition json_escape_char :: "char \<Rightarrow> string" where
  "json_escape_char c =
     (let n = (of_char c :: nat) in
      if n = 34 then [char_of (92::nat), char_of (34::nat)]
      else if n = 92 then [char_of (92::nat), char_of (92::nat)]
      else if n = 10 then [char_of (92::nat), CHR ''n'']
      else if n = 13 then [char_of (92::nat), CHR ''r'']
      else if n = 9 then [char_of (92::nat), CHR ''t'']
      else if n = 8 then [char_of (92::nat), CHR ''b'']
      else if n = 12 then [char_of (92::nat), CHR ''f'']
      else if n < 32 then
        [char_of (92::nat), CHR ''u'', CHR ''0'', CHR ''0'', hex_digit (n div 16), hex_digit (n mod 16)]
      else [c])"

definition json_string :: "string \<Rightarrow> string" where
  "json_string s = [char_of (34::nat)] @ concat (map json_escape_char s) @ [char_of (34::nat)]"

fun json_finite :: "pyval \<Rightarrow> bool" where
  "json_finite (PFloat (FFin _)) = True"
| "json_finite (PFloat _) = False"
| "json_finite (PList xs) = list_all json_finite xs"
| "json_finite (PDict d) = list_all (\<lambda>p. json_finite (snd p)) d"
| "json_finite _ = True"

fun json_text :: "string \<Rightarrow> string \<Rightarrow> (rat \<Rightarrow> string) \<Rightarrow> pyval \<Rightarrow> string" where
  "json_text isep ksep ff PNone = ''null''"
| "json_text isep ksep ff (PBool b) = (if b then ''true'' else ''false'')"
| "json_text isep ksep ff (PInt i) = int_str i"
| "json_text isep ksep ff (PFloat (FFin r)) = ff r"
| "json_text isep ksep ff (PFloat FInf) = ''Infinity''"
| "json_text isep ksep ff (PFloat FNegInf) = ''-Infinity''"
| "json_text isep ksep ff (PFloat FNan) = ''NaN''"
| "json_text isep ksep ff (PStr s) = json_string s"
| "json_text isep ksep ff (PList xs) =
     CHR ''['' # join isep (map (json_text isep ksep ff) xs) @ '']''"
| "json_text isep ksep ff (PDict d) =
     CHR ''{'' # join isep (map (\<lambda>(k, t). json_string k @ ksep @ t)
       (sort_key fst (map (\<lambda>p. (fst p, json_text isep ksep ff (snd p))) d))) @ ''}''"

text \<open>Compact separators, and the default separators of \<open>json.dumps\<close>.\<close>

abbreviation canonical_text :: "(rat \<Rightarrow> string) \<Rightarrow> pyval \<Rightarrow> string" where
  "canonical_text \<equiv> json_text '','' '':''"

abbreviation default_text :: "(rat \<Rightarrow> string) \<Rightarrow> pyval \<Rightarrow> string" where
  "default_text \<equiv> json_text '', '' '': ''"

text \<open>\<open>json.dumps\<close> without \<open>sort_keys\<close>: the keys keep their order.\<close>

fun plain_text :: "(rat \<Rightarrow> string) \<Rightarrow> pyval \<Rightarrow> string" where
  "plain_text ff (PList xs) = CHR ''['' # join '', '' (map (plain_text ff) xs) @ '']''"
| "plain_text ff (PDict d) =
     CHR ''{'' # join '', '' (map (\<lambda>p. json_string (fst p) @ '': '' @ plain_text ff (snd p)) d) @ ''}''"
| "plain_text ff v = default_text ff v"

definition json_dumps :: "(rat \<Rightarrow> string) \<Rightarrow> pyval \<Rightarrow> py_exn + string" where
  "json_dumps ff v = (if json_finite v then Inr (canonical_text ff v) else Inl ValueError)"

text \<open>The round trip copies a value and rejects non-finite floats.\<close>

definition json_copy :: "pyval \<Rightarrow> py_exn + pyval" where
  "json_copy v = (if json_finite v then Inr v else Inl ValueError)"

lemma json_copy_eq: "json_copy v = Inr w \<Longrightarrow> w = v \<and> json_finite w"
  by (simp add: json_copy_def split: if_splits)

lemma json_dumps_ok: "json_finite v \<Longrightarrow> json_dumps ff v = Inr (canonical_text ff v)"
  by (simp add: json_dumps_def)

text \<open>
  \<open>sort_keys\<close>: the canonical text of a dictionary does not depend on the insertion order of its keys.
\<close>

lemma sort_key_eq_of_same_map:
  assumes "distinct (map fst xs)" and "set xs = set ys" and "distinct (map fst ys)"
  shows "sort_key fst xs = sort_key fst ys"
proof (rule sort_key_inj_key_eq)
  have "distinct xs" "distinct ys" using assms by (auto simp: distinct_map)
  with assms(2) show "mset xs = mset (sort_key fst ys)"
    by (simp add: set_eq_iff_mset_eq_distinct)
  show "inj_on fst (set xs)" using assms(1) by (simp add: distinct_map)
  show "sorted (map fst (sort_key fst ys))" by simp
qed

lemma canonical_text_order_independent:
  assumes "keys_distinct d" and "keys_distinct d'" and "set d = set d'"
  shows "canonical_text ff (PDict d) = canonical_text ff (PDict d')"
proof -
  let ?f = "\<lambda>p. (fst p, canonical_text ff (snd p))"
  have "map fst (map ?f d) = map fst d" "map fst (map ?f d') = map fst d'" by simp_all
  then have "sort_key fst (map ?f d) = sort_key fst (map ?f d')"
    using assms by (intro sort_key_eq_of_same_map) (simp_all only: keys_distinct_def set_map)
  then show ?thesis by simp
qed

end
