(* ===== verification/Approval.thy ===== *)
theory Approval
  imports Json
begin

text \<open>
  \<open>agents/approval.py\<close>: the human approval gate.  \<open>ApprovalRequest\<close> and \<open>ActionApprovalPermit\<close>
  objects are shared between dictionaries, and the code compares them with \<open>is\<close>, so the gate keeps
  them in stores addressed by object references (numbers).  A coroutine suspended in
  \<open>_wait_for_request\<close> is recorded in \<open>rq_waiter\<close> of its request; resuming it is a call of its own
  (\<open>finish_wait\<close>, \<open>finish_action_wait\<close>), so other calls interleave with the wait.  Clock readings and
  the UUIDs of tokens and permits are arguments; \<open>sha\<close> is SHA-256 in hexadecimal.
\<close>

section \<open>Data\<close>

text \<open>\<open>APPROVAL_POLICY\<close> and \<open>approval_mode_for_severity\<close>.\<close>

definition APPROVAL_POLICY :: "string \<Rightarrow> string option" where
  "APPROVAL_POLICY =
     [''P0'' \<mapsto> ''manual'', ''P1'' \<mapsto> ''approve'', ''P2'' \<mapsto> ''auto'', ''P3'' \<mapsto> ''auto'']"

definition approval_mode_for_severity :: "string \<Rightarrow> string" where
  "approval_mode_for_severity severity =
     (case APPROVAL_POLICY (py_upper severity) of None \<Rightarrow> ''approve'' | Some m \<Rightarrow> m)"

datatype waiter = PlainWait | ActionWait

record approval_request =
  rq_incident_id :: string
  rq_severity :: string
  rq_summary :: string
  rq_token :: string
  rq_created_at :: time
  rq_decision :: string
  rq_approved_by :: string
  rq_reason :: string
  rq_action :: "pydict option"
  rq_action_digest :: "string option"
  rq_action_summary :: "string option"
  rq_operator_scope :: "pydict option"
  rq_expires_at :: "time option"
  rq_waiter_active :: bool
  rq_event_set :: bool
  rq_waiter :: "waiter option"

text \<open>The dataclass with its defaults.\<close>

definition new_request :: "string \<Rightarrow> string \<Rightarrow> string \<Rightarrow> string \<Rightarrow> time \<Rightarrow> approval_request" where
  "new_request incident severity summary tok now =
     \<lparr>rq_incident_id = incident, rq_severity = severity, rq_summary = summary, rq_token = tok,
      rq_created_at = now, rq_decision = ''pending'', rq_approved_by = '''', rq_reason = '''',
      rq_action = None, rq_action_digest = None, rq_action_summary = None,
      rq_operator_scope = None, rq_expires_at = None, rq_waiter_active = False,
      rq_event_set = False, rq_waiter = None\<rparr>"

record permit =
  pm_permit_id :: string
  pm_incident_id :: string
  pm_action_digest :: "string option"
  pm_approved_by :: string
  pm_issued_at :: time
  pm_expires_at :: "time option"

record gate =
  timeout_seconds :: int
  requests :: "nat \<Rightarrow> approval_request"
  next_request :: nat
  pending_by_incident :: "(string \<times> nat) list"
  pending_by_token :: "string \<Rightarrow> nat option"
  permits :: "nat \<Rightarrow> permit"
  next_permit :: nat
  action_permits :: "string \<Rightarrow> nat option"

definition new_gate :: "int \<Rightarrow> gate" where
  "new_gate timeout =
     \<lparr>timeout_seconds = timeout,
      requests = (\<lambda>_. new_request '''' '''' '''' '''' 0), next_request = 0,
      pending_by_incident = [], pending_by_token = Map.empty,
      permits = (\<lambda>_. \<lparr>pm_permit_id = '''', pm_incident_id = '''', pm_action_digest = None,
                       pm_approved_by = '''', pm_issued_at = 0, pm_expires_at = None\<rparr>),
      next_permit = 0, action_permits = Map.empty\<rparr>"

abbreviation set_request :: "nat \<Rightarrow> approval_request \<Rightarrow> gate \<Rightarrow> gate" where
  "set_request ref r g \<equiv> g\<lparr>requests := (requests g)(ref := r)\<rparr>"

section \<open>Snapshots and digests of actions\<close>

text \<open>
  The two loops of \<open>_action_snapshot\<close>: optional resource identities, then the optional patch.
\<close>

fun snapshot_targets :: "pydict \<Rightarrow> string list \<Rightarrow> pydict \<Rightarrow> py_exn + pydict" where
  "snapshot_targets action [] rec = Inr rec"
| "snapshot_targets action (k # ks) rec =
     (if dhas action k then
        (case dget action k of
           PDict t \<Rightarrow> if t = [] then Inl ValueError
                      else snapshot_targets action ks (AList.update k (PDict t) rec)
         | _ \<Rightarrow> Inl ValueError)
      else snapshot_targets action ks rec)"

definition action_snapshot :: "pydict \<Rightarrow> py_exn + pydict" where
  "action_snapshot action =
     (case dget action ''tool'' of
        PStr tool \<Rightarrow>
          (if tool = [] then Inl ValueError
           else case dget action ''arguments'' of
             PDict args \<Rightarrow>
               rbind (snapshot_targets action [''target'', ''verification_target'']
                       [(''tool'', PStr tool), (''arguments'', PDict args)])
                 (\<lambda>rec.
                   rbind (if dhas action ''patch'' then
                            (let patch = dget action ''patch'' in
                             if (is_list patch \<or> is_dict patch) \<and> truthy patch
                             then Inr (AList.update ''patch'' patch rec) else Inl ValueError)
                          else Inr rec)
                     (\<lambda>rec'. rbind (json_copy (PDict rec')) (\<lambda>v. Inr (as_dict v))))
           | _ \<Rightarrow> Inl TypeError)
      | _ \<Rightarrow> Inl ValueError)"

definition action_digest :: "(rat \<Rightarrow> string) \<Rightarrow> (string \<Rightarrow> string) \<Rightarrow> pydict \<Rightarrow> py_exn + string" where
  "action_digest ff sha action =
     rbind (action_snapshot action)
       (\<lambda>rec. rbind (json_dumps ff (PDict rec)) (\<lambda>text. Inr (sha text)))"

section \<open>Registering and clearing requests\<close>

definition register_request :: "approval_request \<Rightarrow> gate \<Rightarrow> nat \<times> gate" where
  "register_request r g =
     (let ref = next_request g in
      (ref, g\<lparr>requests := (requests g)(ref := r), next_request := Suc ref,
              pending_by_incident := AList.update (rq_incident_id r) ref (pending_by_incident g),
              pending_by_token := (pending_by_token g)(rq_token r \<mapsto> ref)\<rparr>))"

definition clear_request :: "nat \<Rightarrow> gate \<Rightarrow> gate" where
  "clear_request ref g =
     (let r = requests g ref;
          g1 = (if map_of (pending_by_incident g) (rq_incident_id r) = Some ref
                then g\<lparr>pending_by_incident := AList.delete (rq_incident_id r) (pending_by_incident g)\<rparr>
                else g)
      in g1\<lparr>pending_by_token := (pending_by_token g1)(rq_token r := None)\<rparr>)"

definition request :: "time \<Rightarrow> string \<Rightarrow> string \<Rightarrow> string \<Rightarrow> string \<Rightarrow> gate \<Rightarrow> nat \<times> gate" where
  "request now tok incident severity summary g =
     register_request (new_request incident severity summary tok now) g"

text \<open>The action summary shown to the operator.\<close>

definition summary_suffix :: "(rat \<Rightarrow> string) \<Rightarrow> pydict \<Rightarrow> string" where
  "summary_suffix ff rec =
     concat (map (\<lambda>k. if dhas rec k then '' '' @ k @ ''='' @ default_text ff (dget rec k) else '''')
       [''target'', ''verification_target'', ''patch''])"

definition valid_operator_scope :: "pydict \<Rightarrow> bool" where
  "valid_operator_scope scope \<longleftrightarrow>
     set (map fst scope) = {''kube_context'', ''scenario_id''} \<and>
     list_all (\<lambda>(k, v). case v of PStr s \<Rightarrow> py_strip s \<noteq> [] | _ \<Rightarrow> False) scope"

definition request_action ::
  "(rat \<Rightarrow> string) \<Rightarrow> (string \<Rightarrow> string) \<Rightarrow> time \<Rightarrow> string \<Rightarrow> string \<Rightarrow> string \<Rightarrow> pydict \<Rightarrow>
   pydict option \<Rightarrow> gate \<Rightarrow> py_exn + (nat \<times> gate)" where
  "request_action ff sha now tok incident severity action scope g =
     (if map_of (pending_by_incident g) incident \<noteq> None then Inl RuntimeError
      else
        rbind (action_digest ff sha action) (\<lambda>digest.
        rbind (json_dumps ff (PDict (as_dict (dget action ''arguments'')))) (\<lambda>canonical_arguments.
        rbind (action_snapshot action) (\<lambda>action_record.
          let tool = (case dget action ''tool'' of PStr s \<Rightarrow> s | _ \<Rightarrow> '''');
              action_summary = tool @ '' arguments='' @ canonical_arguments
                               @ summary_suffix ff action_record
          in if (case scope of None \<Rightarrow> False | Some s \<Rightarrow> \<not> valid_operator_scope s)
             then Inl ValueError
             else Inr (register_request
               ((new_request incident severity
                   (severity @ '' exact policy action approval: '' @ action_summary) tok now)
                \<lparr>rq_action := Some action_record, rq_action_digest := Some digest,
                 rq_action_summary := Some action_summary, rq_operator_scope := scope,
                 rq_expires_at := Some (now + of_int (timeout_seconds g))\<rparr>) g)))))"

section \<open>Decisions\<close>

datatype callback_result = CallbackError string | CallbackOk string string

definition callback ::
  "time \<Rightarrow> string \<Rightarrow> string \<Rightarrow> string \<Rightarrow> string \<Rightarrow> string option \<Rightarrow> gate \<Rightarrow> callback_result \<times> gate" where
  "callback now tok decision approved_by reason digest g =
     (case pending_by_token g tok of
        None \<Rightarrow> (CallbackError ''unknown_token'', g)
      | Some ref \<Rightarrow>
          let r = requests g ref in
          if rq_decision r \<noteq> ''pending'' then (CallbackError ''already_decided'', g)
          else if (case rq_expires_at r of None \<Rightarrow> False | Some e \<Rightarrow> now > e) then
            (CallbackError ''expired'',
             clear_request ref (set_request ref (r\<lparr>rq_decision := ''timeout'', rq_event_set := True\<rparr>) g))
          else if (case rq_action r of
                     Some action \<Rightarrow> dhas action ''target'' \<and> digest \<noteq> rq_action_digest r
                   | None \<Rightarrow> False)
                  \<or> (digest \<noteq> None \<and> digest \<noteq> rq_action_digest r)
          then (CallbackError ''action_digest_mismatch'', g)
          else
            let normalized = py_strip (py_lower decision); operator_identity = py_strip approved_by in
            if normalized \<noteq> ''approved'' \<and> normalized \<noteq> ''rejected''
            then (CallbackError ''decision must be approved or rejected'', g)
            else if operator_identity = [] then (CallbackError ''approved_by is required'', g)
            else (CallbackOk (rq_incident_id r) normalized,
                  set_request ref (r\<lparr>rq_decision := normalized, rq_approved_by := operator_identity,
                                    rq_reason := reason, rq_event_set := True\<rparr>) g))"

section \<open>Waiting for a decision\<close>

record decision_result =
  dr_status :: string
  dr_incident_id :: string
  dr_approved_by :: string
  dr_reason :: string

definition missing_result :: "string \<Rightarrow> decision_result" where
  "missing_result incident =
     \<lparr>dr_status = ''missing'', dr_incident_id = incident, dr_approved_by = '''', dr_reason = ''''\<rparr>"

text \<open>
  The first half of \<open>_wait_for_request\<close>: an answer at once, or the coroutine is suspended for at
  most the returned number of seconds.
\<close>

datatype begin_result = Answered decision_result | Suspended time

definition begin_wait :: "waiter \<Rightarrow> time \<Rightarrow> nat \<Rightarrow> gate \<Rightarrow> begin_result \<times> gate" where
  "begin_wait w now ref g =
     (let r = requests g ref in
      if rq_waiter_active r then (Answered (missing_result (rq_incident_id r)), g)
      else (Suspended (if rq_decision r = ''pending'' then
                         (case rq_expires_at r of
                            Some e \<Rightarrow> max 0 (e - now) | None \<Rightarrow> of_int (timeout_seconds g))
                       else 0),
            set_request ref (r\<lparr>rq_waiter_active := True, rq_waiter := Some w\<rparr>) g))"

definition wait_for_decision :: "time \<Rightarrow> string \<Rightarrow> gate \<Rightarrow> begin_result \<times> gate" where
  "wait_for_decision now incident g =
     (case map_of (pending_by_incident g) incident of
        None \<Rightarrow> (Answered (missing_result incident), g)
      | Some ref \<Rightarrow>
          if rq_action_digest (requests g ref) \<noteq> None then (Answered (missing_result incident), g)
          else begin_wait PlainWait now ref g)"

definition begin_action_wait :: "time \<Rightarrow> string \<Rightarrow> string \<Rightarrow> gate \<Rightarrow> begin_result \<times> gate" where
  "begin_action_wait now incident request_token g =
     (case map_of (pending_by_incident g) incident of
        None \<Rightarrow> (Answered (missing_result incident), g)
      | Some ref \<Rightarrow>
          let r = requests g ref in
          if rq_token r \<noteq> request_token \<or> rq_action_digest r = None \<or> rq_waiter_active r
          then (Answered (missing_result incident), g)
          else begin_wait ActionWait now ref g)"

text \<open>
  What resumes the coroutine: the event (set with the decision), the deadline, or cancellation.
  \<open>None\<close> means that it is still suspended: the event is not set.
\<close>

datatype wake = Woken | DeadlinePassed | Cancelled
datatype 'a finished = StillWaiting | Raised_Cancelled | Returned 'a

definition finish_wait :: "wake \<Rightarrow> nat \<Rightarrow> gate \<Rightarrow> decision_result finished \<times> gate" where
  "finish_wait wk ref g =
     (let r = requests g ref in
      case wk of
        Cancelled \<Rightarrow> (Raised_Cancelled, clear_request ref (set_request ref (r\<lparr>rq_waiter := None\<rparr>) g))
      | _ \<Rightarrow>
        if wk = Woken \<and> rq_decision r = ''pending'' then (StillWaiting, g)
        else
          let r1 = (if rq_decision r = ''pending'' then r\<lparr>rq_decision := ''timeout''\<rparr> else r);
              r2 = r1\<lparr>rq_waiter := None\<rparr>
          in (Returned \<lparr>dr_status = rq_decision r2, dr_incident_id = rq_incident_id r2,
                        dr_approved_by = rq_approved_by r2, dr_reason = rq_reason r2\<rparr>,
              clear_request ref (set_request ref r2 g)))"

text \<open>The rest of \<open>wait_for_action_decision\<close>: an approved decision issues a permit.\<close>

definition finish_action_wait ::
  "time \<Rightarrow> string \<Rightarrow> wake \<Rightarrow> nat \<Rightarrow> gate \<Rightarrow> (decision_result \<times> nat option) finished \<times> gate" where
  "finish_action_wait now permit_id wk ref g =
     (case finish_wait wk ref g of
        (StillWaiting, g1) \<Rightarrow> (StillWaiting, g1)
      | (Raised_Cancelled, g1) \<Rightarrow> (Raised_Cancelled, g1)
      | (Returned res, g1) \<Rightarrow>
          if dr_status res \<noteq> ''approved'' then (Returned (res, None), g1)
          else if py_strip (dr_approved_by res) = [] then
            (Returned (res\<lparr>dr_status := ''identity_missing''\<rparr>, None), g1)
          else
            let r = requests g1 ref; p = next_permit g1;
                pm = \<lparr>pm_permit_id = permit_id, pm_incident_id = rq_incident_id r,
                      pm_action_digest = rq_action_digest r,
                      pm_approved_by = py_strip (dr_approved_by res), pm_issued_at = now,
                      pm_expires_at = rq_expires_at r\<rparr>
            in (Returned (res, Some p),
                g1\<lparr>permits := (permits g1)(p := pm), next_permit := Suc p,
                   action_permits := (action_permits g1)(permit_id \<mapsto> p)\<rparr>))"

section \<open>Consuming a permit\<close>

text \<open>
  \<open>t1\<close> and \<open>t2\<close> are the two clock readings.  A permit argument is a reference to an issued object,
  or \<open>None\<close> for anything that is not an \<open>ActionApprovalPermit\<close>.
\<close>

definition consume_action_permit ::
  "time \<Rightarrow> time \<Rightarrow> nat option \<Rightarrow> string \<Rightarrow> string \<Rightarrow> gate \<Rightarrow> (py_exn + bool) \<times> gate" where
  "consume_action_permit t1 t2 p incident digest g =
     (case p of
        None \<Rightarrow> (Inr False, g)
      | Some ref \<Rightarrow>
          let pm = permits g ref in
          if action_permits g (pm_permit_id pm) \<noteq> Some ref then (Inr False, g)
          else
            let g1 = g\<lparr>action_permits := (action_permits g)(pm_permit_id pm := None)\<rparr>;
                age = t1 - pm_issued_at pm
            in (if pm_incident_id pm = incident \<and> pm_action_digest pm = Some digest
                   \<and> 0 \<le> age \<and> age \<le> of_int (timeout_seconds g1)
                then (case pm_expires_at pm of None \<Rightarrow> Inl TypeError | Some e \<Rightarrow> Inr (t2 \<le> e))
                else Inr False, g1))"

text \<open>\<open>to_dict\<close> and \<open>pending\<close>.\<close>

definition to_dict :: "approval_request \<Rightarrow> pydict" where
  "to_dict r =
     [(''incident_id'', PStr (rq_incident_id r)), (''severity'', PStr (rq_severity r)),
      (''summary'', PStr (rq_summary r)), (''token'', PStr (rq_token r)),
      (''created_at'', PFloat (FFin (rq_created_at r))), (''decision'', PStr (rq_decision r)),
      (''approved_by'', PStr (rq_approved_by r)), (''reason'', PStr (rq_reason r))]
     @ (case rq_action r of
          None \<Rightarrow> []
        | Some action \<Rightarrow>
            [(''action'', PDict action),
             (''action_digest'', (case rq_action_digest r of None \<Rightarrow> PNone | Some s \<Rightarrow> PStr s)),
             (''action_summary'', (case rq_action_summary r of None \<Rightarrow> PNone | Some s \<Rightarrow> PStr s)),
             (''expires_at'', (case rq_expires_at r of None \<Rightarrow> PNone | Some e \<Rightarrow> PFloat (FFin e)))]
            @ (case rq_operator_scope r of None \<Rightarrow> [] | Some s \<Rightarrow> [(''operator_scope'', PDict s)]))"

definition pending :: "gate \<Rightarrow> pydict list" where
  "pending g = map (\<lambda>(_, ref). to_dict (requests g ref)) (pending_by_incident g)"

section \<open>Histories of calls\<close>

text \<open>
  A suspended coroutine is resumed by \<open>FinishWait\<close> or \<open>FinishActionWait\<close>; resuming a request that no
  coroutine of that kind waits on does nothing.
\<close>

datatype gate_event =
    Request time string string string string
  | RequestAction time string string string pydict "pydict option"
  | Callback time string string string string "string option"
  | BeginWait time string
  | BeginActionWait time string string
  | FinishWait wake nat
  | FinishActionWait time string wake nat
  | Consume time time "nat option" string string

fun gate_step :: "(rat \<Rightarrow> string) \<Rightarrow> (string \<Rightarrow> string) \<Rightarrow> gate \<Rightarrow> gate_event \<Rightarrow> gate" where
  "gate_step ff sha g (Request now tok incident sev summary) =
     snd (request now tok incident sev summary g)"
| "gate_step ff sha g (RequestAction now tok incident sev action scope) =
     (case request_action ff sha now tok incident sev action scope g of Inl _ \<Rightarrow> g | Inr (_, g') \<Rightarrow> g')"
| "gate_step ff sha g (Callback now tok decision who why digest) =
     snd (callback now tok decision who why digest g)"
| "gate_step ff sha g (BeginWait now incident) = snd (wait_for_decision now incident g)"
| "gate_step ff sha g (BeginActionWait now incident tok) = snd (begin_action_wait now incident tok g)"
| "gate_step ff sha g (FinishWait wk ref) =
     (if rq_waiter (requests g ref) = Some PlainWait then snd (finish_wait wk ref g) else g)"
| "gate_step ff sha g (FinishActionWait now pid wk ref) =
     (if rq_waiter (requests g ref) = Some ActionWait then snd (finish_action_wait now pid wk ref g)
      else g)"
| "gate_step ff sha g (Consume t1 t2 p incident digest) =
     snd (consume_action_permit t1 t2 p incident digest g)"

section \<open>Steps only extend the stores\<close>

text \<open>
  The identity of a request (incident, digest, expiry) never changes, and a decision, once made, is
  final together with the approver it names.  An issued permit never changes.
\<close>

definition request_extends :: "approval_request \<Rightarrow> approval_request \<Rightarrow> bool" where
  "request_extends r r' \<longleftrightarrow>
     rq_incident_id r' = rq_incident_id r \<and> rq_action_digest r' = rq_action_digest r \<and>
     rq_action r' = rq_action r \<and> rq_token r' = rq_token r \<and> rq_expires_at r' = rq_expires_at r \<and>
     (rq_decision r \<noteq> ''pending'' \<longrightarrow>
        rq_decision r' = rq_decision r \<and> rq_approved_by r' = rq_approved_by r)"

definition gate_extends :: "gate \<Rightarrow> gate \<Rightarrow> bool" where
  "gate_extends g g' \<longleftrightarrow>
     timeout_seconds g' = timeout_seconds g \<and>
     next_request g \<le> next_request g' \<and> next_permit g \<le> next_permit g' \<and>
     (\<forall>q < next_request g. request_extends (requests g q) (requests g' q)) \<and>
     (\<forall>p < next_permit g. permits g' p = permits g p)"

lemma request_extends_refl [simp]: "request_extends r r"
  by (simp add: request_extends_def)

lemma request_extends_trans:
  "request_extends r s \<Longrightarrow> request_extends s t \<Longrightarrow> request_extends r t"
  unfolding request_extends_def by simp

lemma gate_extends_refl [simp]: "gate_extends g g"
  by (simp add: gate_extends_def)

lemma gate_extends_trans:
  assumes "gate_extends g h" and "gate_extends h k"
  shows "gate_extends g k"
  unfolding gate_extends_def
proof (intro conjI allI impI)
  fix q assume q: "q < next_request g"
  then have "q < next_request h" using assms(1) by (simp add: gate_extends_def)
  with q assms show "request_extends (requests g q) (requests k q)"
    unfolding gate_extends_def by (blast intro: request_extends_trans)
next
  fix p assume p: "p < next_permit g"
  then have "p < next_permit h" using assms(1) by (simp add: gate_extends_def)
  with p assms show "permits k p = permits g p"
    unfolding gate_extends_def by simp
qed (use assms in \<open>simp_all add: gate_extends_def\<close>)

lemma extends_set_request:
  "request_extends (requests g ref) r \<Longrightarrow> gate_extends g (set_request ref r g)"
  by (simp add: gate_extends_def)

lemma extends_register: "gate_extends g (snd (register_request r g))"
  by (simp add: gate_extends_def register_request_def Let_def)

lemma clear_request_stores [frame_simps]:
  "requests (clear_request ref g) = requests g"
  "next_request (clear_request ref g) = next_request g"
  "permits (clear_request ref g) = permits g"
  "next_permit (clear_request ref g) = next_permit g"
  "action_permits (clear_request ref g) = action_permits g"
  "timeout_seconds (clear_request ref g) = timeout_seconds g"
  by (simp_all add: clear_request_def Let_def)

lemma extends_clear: "gate_extends g (clear_request ref g)"
  by (simp add: gate_extends_def frame_simps)

lemma extends_set_clear:
  "request_extends (requests g ref) r \<Longrightarrow> gate_extends g (clear_request ref (set_request ref r g))"
  by (rule gate_extends_trans [OF extends_set_request extends_clear])

lemma extends_request_action:
  "request_action ff sha now tok incident sev action scope g = Inr (ref, g') \<Longrightarrow> gate_extends g g'"
  by (auto simp: request_action_def rbind_eq_Inr Let_def split: if_splits)
    (metis extends_register snd_conv)+

lemma extends_callback: "gate_extends g (snd (callback now tok decision who why digest g))"
  unfolding callback_def Let_def
  by (auto split: option.split
      intro!: extends_set_clear extends_set_request simp: request_extends_def)

lemma extends_begin_wait: "gate_extends g (snd (begin_wait w now ref g))"
  unfolding begin_wait_def Let_def
  by (auto intro!: extends_set_request simp: request_extends_def)

lemma extends_finish_wait: "gate_extends g (snd (finish_wait wk ref g))"
  unfolding finish_wait_def Let_def
  by (cases wk) (auto intro!: extends_set_clear simp: request_extends_def)

lemma extends_finish_action: "gate_extends g (snd (finish_action_wait now pid wk ref g))"
proof -
  obtain res g1 where fin: "finish_wait wk ref g = (res, g1)" by fastforce
  then have one: "gate_extends g g1" using extends_finish_wait [of g wk ref] by simp
  have "gate_extends g1 (snd (finish_action_wait now pid wk ref g))"
    unfolding finish_action_wait_def fin Let_def
    by (auto split: finished.split simp: gate_extends_def)
  with one show ?thesis by (rule gate_extends_trans)
qed

lemma extends_consume: "gate_extends g (snd (consume_action_permit t1 t2 p incident digest g))"
  unfolding consume_action_permit_def Let_def
  by (auto split: option.split simp: gate_extends_def)

lemma gate_step_extends: "gate_extends g (gate_step ff sha g e)"
  by (cases e)
    (auto simp: request_def wait_for_decision_def begin_action_wait_def Let_def
      split: option.split sum.split
      intro: extends_register extends_request_action extends_callback extends_begin_wait
        extends_finish_wait extends_finish_action extends_consume)

section \<open>Invariant\<close>

definition request_ok :: "approval_request \<Rightarrow> bool" where
  "request_ok r \<longleftrightarrow>
     (rq_decision r = ''approved'' \<longrightarrow> py_strip (rq_approved_by r) \<noteq> []) \<and>
     (rq_action_digest r \<noteq> None \<longrightarrow> rq_expires_at r \<noteq> None) \<and>
     (rq_waiter r = Some ActionWait \<longrightarrow> rq_action_digest r \<noteq> None)"

text \<open>A permit stands for a request that an identified operator approved.\<close>

definition permit_backed :: "gate \<Rightarrow> permit \<Rightarrow> bool" where
  "permit_backed g pm \<longleftrightarrow>
     (\<exists>q < next_request g.
        rq_decision (requests g q) = ''approved'' \<and>
        rq_incident_id (requests g q) = pm_incident_id pm \<and>
        rq_action_digest (requests g q) = pm_action_digest pm \<and>
        rq_expires_at (requests g q) = pm_expires_at pm \<and>
        py_strip (rq_approved_by (requests g q)) = pm_approved_by pm) \<and>
     pm_action_digest pm \<noteq> None \<and> pm_expires_at pm \<noteq> None \<and> pm_approved_by pm \<noteq> []"

definition references_valid :: "gate \<Rightarrow> bool" where
  "references_valid g \<longleftrightarrow>
     (\<forall>i q. map_of (pending_by_incident g) i = Some q \<longrightarrow> q < next_request g) \<and>
     (\<forall>t q. pending_by_token g t = Some q \<longrightarrow> q < next_request g) \<and>
     (\<forall>q. rq_waiter (requests g q) \<noteq> None \<longrightarrow> q < next_request g)"

definition gate_inv :: "gate \<Rightarrow> bool" where
  "gate_inv g \<longleftrightarrow>
     (\<forall>q. request_ok (requests g q)) \<and> references_valid g \<and>
     (\<forall>p < next_permit g. permit_backed g (permits g p)) \<and>
     (\<forall>i p. action_permits g i = Some p \<longrightarrow> p < next_permit g \<and> pm_permit_id (permits g p) = i)"

lemma gate_inv_new [simp]: "gate_inv (new_gate timeout)"
  by (simp add: gate_inv_def new_gate_def request_ok_def new_request_def references_valid_def)

lemma permit_backed_extends:
  assumes "gate_extends g g'" and "permit_backed g pm"
  shows "permit_backed g' pm"
proof -
  from assms(2) obtain q where q: "q < next_request g"
    and backed: "rq_decision (requests g q) = ''approved''"
      "rq_incident_id (requests g q) = pm_incident_id pm"
      "rq_action_digest (requests g q) = pm_action_digest pm"
      "rq_expires_at (requests g q) = pm_expires_at pm"
      "py_strip (rq_approved_by (requests g q)) = pm_approved_by pm"
    unfolding permit_backed_def by blast
  from assms(1) q have "request_extends (requests g q) (requests g' q)" and q': "q < next_request g'"
    by (simp_all add: gate_extends_def)
  with backed have "rq_decision (requests g' q) = ''approved'' \<and>
      rq_incident_id (requests g' q) = pm_incident_id pm \<and>
      rq_action_digest (requests g' q) = pm_action_digest pm \<and>
      rq_expires_at (requests g' q) = pm_expires_at pm \<and>
      py_strip (rq_approved_by (requests g' q)) = pm_approved_by pm"
    by (simp add: request_extends_def)
  with q' assms(2) show ?thesis unfolding permit_backed_def by blast
qed

text \<open>
  An operation that leaves the permits alone keeps the invariant when it extends the gate and keeps
  requests and references well formed.
\<close>

lemma gate_inv_intro:
  assumes inv: "gate_inv g" and ext: "gate_extends g g'"
    and ok: "\<And>q. request_ok (requests g' q)" and refs: "references_valid g'"
    and keep: "next_permit g' = next_permit g" "action_permits g' \<subseteq>\<^sub>m action_permits g"
  shows "gate_inv g'"
  unfolding gate_inv_def
proof (intro conjI allI impI)
  fix p assume p: "p < next_permit g'"
  with keep(1) inv have "permit_backed g (permits g p)" by (simp add: gate_inv_def)
  moreover have "permits g' p = permits g p" using ext p keep(1) by (simp add: gate_extends_def)
  ultimately show "permit_backed g' (permits g' p)" using ext by (simp add: permit_backed_extends)
next
  fix i p assume "action_permits g' i = Some p"
  with keep(2) have "action_permits g i = Some p" by (metis domI map_le_def)
  with inv have p: "p < next_permit g" and "pm_permit_id (permits g p) = i"
    by (simp_all add: gate_inv_def)
  with ext keep(1) show "p < next_permit g'" and "pm_permit_id (permits g' p) = i"
    by (simp_all add: gate_extends_def)
qed (use ok refs in blast)+

lemma references_set_request:
  "references_valid g \<Longrightarrow> ref < next_request g \<Longrightarrow> references_valid (set_request ref r g)"
  by (simp add: references_valid_def)

lemma references_set_request_old:
  "references_valid g \<Longrightarrow> rq_waiter r = None \<Longrightarrow> references_valid (set_request ref r g)"
  by (simp add: references_valid_def)

lemma references_clear:
  "references_valid g \<Longrightarrow> references_valid (clear_request ref g)"
  by (auto simp: references_valid_def clear_request_def Let_def)

lemma references_register:
  "references_valid g \<Longrightarrow> references_valid (snd (register_request r g))"
  by (auto simp: references_valid_def register_request_def Let_def less_Suc_eq)

lemma register_request_stores [frame_simps]:
  "requests (snd (register_request r g)) = (requests g)(next_request g := r)"
  "next_permit (snd (register_request r g)) = next_permit g"
  "action_permits (snd (register_request r g)) = action_permits g"
  by (simp_all add: register_request_def Let_def)

lemma gate_inv_register:
  "gate_inv g \<Longrightarrow> request_ok r \<Longrightarrow> gate_inv (snd (register_request r g))"
  by (rule gate_inv_intro [OF _ extends_register])
    (auto simp: references_register gate_inv_def frame_simps)

lemma gate_inv_set:
  assumes "gate_inv g" and "request_extends (requests g ref) r" and "request_ok r"
    and "ref < next_request g \<or> rq_waiter r = None"
  shows "gate_inv (set_request ref r g)" and "gate_inv (clear_request ref (set_request ref r g))"
proof -
  have refs: "references_valid (set_request ref r g)"
    using assms(1,4) by (auto simp: gate_inv_def intro: references_set_request
        references_set_request_old)
  then show "gate_inv (set_request ref r g)"
    using assms by (intro gate_inv_intro [OF assms(1) extends_set_request]) (auto simp: gate_inv_def)
  show "gate_inv (clear_request ref (set_request ref r g))"
    using assms refs by (intro gate_inv_intro [OF assms(1) extends_set_clear])
      (auto simp: gate_inv_def frame_simps references_clear)
qed

lemma gate_inv_request: "gate_inv g \<Longrightarrow> gate_inv (snd (request now tok incident sev summary g))"
  by (simp add: request_def gate_inv_register request_ok_def new_request_def)

lemma gate_inv_request_action:
  assumes "gate_inv g" and "request_action ff sha now tok incident sev action scope g = Inr (ref, g')"
  shows "gate_inv g'"
proof -
  from assms(2) have "\<exists>r. register_request r g = (ref, g') \<and> request_ok r"
    by (clarsimp simp: request_action_def rbind_eq_Inr Let_def split: if_split_asm)
      (intro exI conjI, assumption, simp add: request_ok_def new_request_def)+
  then show ?thesis using gate_inv_register [OF assms(1)] by (metis snd_conv)
qed

lemma gate_inv_callback:
  assumes "gate_inv g" shows "gate_inv (snd (callback now tok decision who why digest g))"
proof (cases "pending_by_token g tok")
  case None
  with assms show ?thesis by (simp add: callback_def)
next
  case (Some ref)
  with assms have ref: "ref < next_request g" and ok: "request_ok (requests g ref)"
    by (simp_all add: gate_inv_def references_valid_def)
  let ?r = "requests g ref"
  have expired: "gate_inv (clear_request ref
      (set_request ref (?r\<lparr>rq_decision := ''timeout'', rq_event_set := True\<rparr>) g))"
    if "rq_decision ?r = ''pending''"
    using assms ok ref that
    by (intro gate_inv_set) (simp_all add: request_extends_def request_ok_def)
  have decided: "gate_inv (set_request ref (?r\<lparr>rq_decision := d, rq_approved_by := py_strip who,
        rq_reason := why, rq_event_set := True\<rparr>) g)"
    if "rq_decision ?r = ''pending''" and "py_strip who \<noteq> []" for d
    using assms ok ref that
    by (intro gate_inv_set) (simp_all add: request_extends_def request_ok_def)
  show ?thesis using assms expired decided by (simp add: callback_def Let_def Some)
qed

lemma gate_inv_begin_wait:
  assumes "gate_inv g" and "ref < next_request g"
    and "w = ActionWait \<longrightarrow> rq_action_digest (requests g ref) \<noteq> None"
  shows "gate_inv (snd (begin_wait w now ref g))"
proof -
  from assms(1) have ok: "request_ok (requests g ref)" by (simp add: gate_inv_def)
  with assms show ?thesis unfolding begin_wait_def Let_def
    by (auto intro!: gate_inv_set simp: request_extends_def request_ok_def)
qed

lemma gate_inv_finish_wait:
  assumes "gate_inv g" shows "gate_inv (snd (finish_wait wk ref g))"
proof -
  from assms have ok: "request_ok (requests g ref)" by (simp add: gate_inv_def)
  with assms show ?thesis unfolding finish_wait_def Let_def
    by (cases wk) (auto intro!: gate_inv_set simp: request_extends_def request_ok_def)
qed

text \<open>What a returned wait says of its request.\<close>

lemma finish_wait_returned:
  assumes "finish_wait wk ref g = (Returned res, g1)" and "dr_status res = ''approved''"
  shows "rq_decision (requests g1 ref) = ''approved''"
    and "dr_approved_by res = rq_approved_by (requests g1 ref)"
    and "rq_incident_id (requests g1 ref) = rq_incident_id (requests g ref)"
    and "rq_action_digest (requests g1 ref) = rq_action_digest (requests g ref)"
    and "next_request g1 = next_request g" and "next_permit g1 = next_permit g"
  using assms unfolding finish_wait_def Let_def
  by (cases wk; auto simp: frame_simps split: if_splits)+

lemma gate_inv_finish_action:
  assumes inv: "gate_inv g" and waits: "rq_waiter (requests g ref) = Some ActionWait"
  shows "gate_inv (snd (finish_action_wait now pid wk ref g))"
proof -
  obtain out g1 where fin: "finish_wait wk ref g = (out, g1)" by fastforce
  with inv have inv1: "gate_inv g1" using gate_inv_finish_wait [of g wk ref] by simp
  show ?thesis
  proof (cases out)
    case (Returned res)
    show ?thesis
    proof (cases "dr_status res = ''approved'' \<and> py_strip (dr_approved_by res) \<noteq> []")
      case False
      with inv1 Returned fin show ?thesis by (auto simp: finish_action_wait_def Let_def)
    next
      case True
      note approved = finish_wait_returned [OF fin [unfolded Returned]] True
      from inv waits have "ref < next_request g" and "rq_action_digest (requests g ref) \<noteq> None"
        by (auto simp: gate_inv_def references_valid_def request_ok_def)
      with approved have ref: "ref < next_request g1" and dig: "rq_action_digest (requests g1 ref) \<noteq> None"
        by simp_all
      from inv1 dig have expiry: "rq_expires_at (requests g1 ref) \<noteq> None"
        by (simp add: gate_inv_def request_ok_def)
      let ?g = "snd (finish_action_wait now pid wk ref g)" and ?p = "next_permit g1"
      have new: "permit_backed ?g (permits ?g ?p)" "next_permit ?g = Suc ?p"
        "action_permits ?g = (action_permits g1)(pid \<mapsto> ?p)" "pm_permit_id (permits ?g ?p) = pid"
        "references_valid ?g" "requests ?g = requests g1"
        using Returned fin True approved ref dig expiry inv1
        by (auto simp: finish_action_wait_def Let_def permit_backed_def gate_inv_def
            references_valid_def)
      have ext: "gate_extends g1 ?g" and same: "\<And>p. p < ?p \<Longrightarrow> permits ?g p = permits g1 p"
        using Returned fin True by (auto simp: finish_action_wait_def Let_def gate_extends_def)
      have "permit_backed ?g (permits ?g p)" if "p < Suc ?p" for p
      proof (cases "p = ?p")
        case False
        with that have "p < ?p" by simp
        with inv1 have "permit_backed g1 (permits g1 p)" by (simp add: gate_inv_def)
        with ext \<open>p < ?p\<close> show ?thesis by (simp add: same permit_backed_extends)
      qed (simp add: new)
      then show ?thesis using inv1 new(2-) same
        by (auto simp: gate_inv_def less_SucI split: if_splits)
    qed
  qed (use inv1 fin in \<open>simp_all add: finish_action_wait_def\<close>)
qed

lemma consume_stores [frame_simps]:
  "requests (snd (consume_action_permit t1 t2 p incident digest g)) = requests g"
  "next_request (snd (consume_action_permit t1 t2 p incident digest g)) = next_request g"
  "pending_by_incident (snd (consume_action_permit t1 t2 p incident digest g)) = pending_by_incident g"
  "pending_by_token (snd (consume_action_permit t1 t2 p incident digest g)) = pending_by_token g"
  "next_permit (snd (consume_action_permit t1 t2 p incident digest g)) = next_permit g"
  "permits (snd (consume_action_permit t1 t2 p incident digest g)) = permits g"
  by (simp_all add: consume_action_permit_def Let_def split: option.split)

lemma consume_permits_shrink:
  "action_permits (snd (consume_action_permit t1 t2 p incident digest g)) \<subseteq>\<^sub>m action_permits g"
  by (simp add: consume_action_permit_def Let_def map_le_def split: option.split)

lemma gate_inv_consume:
  "gate_inv g \<Longrightarrow> gate_inv (snd (consume_action_permit t1 t2 p incident digest g))"
  by (rule gate_inv_intro [OF _ extends_consume])
    (simp_all add: frame_simps consume_permits_shrink gate_inv_def references_valid_def)

lemma gate_inv_step:
  assumes inv: "gate_inv g" shows "gate_inv (gate_step ff sha g e)"
proof (cases e)
  case (BeginWait now incident)
  have "ref < next_request g" if "map_of (pending_by_incident g) incident = Some ref" for ref
    using inv that by (simp add: gate_inv_def references_valid_def)
  then show ?thesis using inv BeginWait
    by (auto simp: wait_for_decision_def split: option.split intro!: gate_inv_begin_wait)
next
  case (BeginActionWait now incident tok)
  have "ref < next_request g" if "map_of (pending_by_incident g) incident = Some ref" for ref
    using inv that by (simp add: gate_inv_def references_valid_def)
  then show ?thesis using inv BeginActionWait
    by (auto simp: begin_action_wait_def Let_def split: option.split intro!: gate_inv_begin_wait)
qed (use inv in \<open>auto intro: gate_inv_request gate_inv_request_action gate_inv_callback
      gate_inv_finish_wait gate_inv_finish_action gate_inv_consume split: sum.split\<close>)

section \<open>One-shot permits\<close>

text \<open>
  A call consumes the permit \<open>p\<close> when it presents it and gets \<open>True\<close>.  An issued permit is spent once
  the table of open permits no longer holds it.
\<close>

fun consumes :: "gate \<Rightarrow> gate_event \<Rightarrow> nat \<Rightarrow> bool" where
  "consumes g (Consume t1 t2 (Some ref) incident digest) p \<longleftrightarrow>
     ref = p \<and> fst (consume_action_permit t1 t2 (Some ref) incident digest g) = Inr True"
| "consumes g _ p \<longleftrightarrow> False"

definition permit_spent :: "gate \<Rightarrow> nat \<Rightarrow> bool" where
  "permit_spent g p \<longleftrightarrow> p < next_permit g \<and> action_permits g (pm_permit_id (permits g p)) \<noteq> Some p"

lemma consume_result:
  assumes "fst (consume_action_permit t1 t2 (Some p) incident digest g) = Inr True"
  shows "action_permits g (pm_permit_id (permits g p)) = Some p"
    and "pm_incident_id (permits g p) = incident" and "pm_action_digest (permits g p) = Some digest"
    and "0 \<le> t1 - pm_issued_at (permits g p)"
    and "t1 - pm_issued_at (permits g p) \<le> of_int (timeout_seconds g)"
    and "\<exists>e. pm_expires_at (permits g p) = Some e \<and> t2 \<le> e"
  using assms
  by (auto simp: consume_action_permit_def Let_def split: if_splits option.splits)

lemma consumes_cases:
  assumes "consumes g e p"
  obtains t1 t2 incident digest where "e = Consume t1 t2 (Some p) incident digest"
    and "action_permits g (pm_permit_id (permits g p)) = Some p"
    and "fst (consume_action_permit t1 t2 (Some p) incident digest g) = Inr True"
  using assms
  by (cases "(g, e, p)" rule: consumes.cases) (auto dest: consume_result(1))

text \<open>No step puts an already issued permit back into the table.\<close>

lemma issued_permit_not_restored:
  assumes "action_permits (gate_step ff sha g e) i = Some p" and "p < next_permit g"
  shows "action_permits g i = Some p"
proof (cases e)
  case (RequestAction now tok incident sev action scope)
  then show ?thesis using assms
    by (auto simp: request_action_def rbind_def Let_def register_request_def split: sum.splits if_splits)
next
  case (Callback now tok decision who why digest)
  have "action_permits (snd (callback now tok decision who why digest g)) = action_permits g"
    by (simp add: callback_def Let_def frame_simps split: option.split)
  with assms Callback show ?thesis by simp
next
  case (FinishActionWait now pid wk ref)
  have same: "action_permits g1 = action_permits g \<and> next_permit g1 = next_permit g"
    if "finish_wait wk ref g = (out, g1)" for out g1
    using that by (cases wk) (auto simp: finish_wait_def Let_def frame_simps split: if_splits)
  show ?thesis using assms same FinishActionWait
    by (auto simp: finish_action_wait_def Let_def split: if_splits prod.splits finished.splits)
next
  case (Consume t1 t2 q incident digest)
  then show ?thesis using assms consume_permits_shrink [of t1 t2 q incident digest g]
    by (auto simp: map_le_def dom_def)
qed (use assms in \<open>auto simp: request_def register_request_def wait_for_decision_def
      begin_action_wait_def begin_wait_def finish_wait_def Let_def frame_simps
      split: option.splits if_splits wake.splits\<close>)

lemma permit_spent_step:
  assumes "permit_spent g p" shows "permit_spent (gate_step ff sha g e) p"
proof -
  have ext: "gate_extends g (gate_step ff sha g e)" by (rule gate_step_extends)
  with assms show ?thesis
    unfolding permit_spent_def gate_extends_def by (metis issued_permit_not_restored less_le_trans)
qed

lemma consuming_spends:
  assumes "gate_inv g" and "consumes g e p" shows "permit_spent (gate_step ff sha g e) p"
proof -
  from assms(2) obtain t1 t2 incident digest
    where e: "e = Consume t1 t2 (Some p) incident digest"
      and stored: "action_permits g (pm_permit_id (permits g p)) = Some p"
    by (rule consumes_cases)
  with assms(1) have "p < next_permit g" by (simp add: gate_inv_def)
  with e stored show ?thesis
    by (simp add: permit_spent_def frame_simps) (simp add: consume_action_permit_def Let_def)
qed

interpretation approval: at_most_once "gate_step ff sha" gate_inv consumes permit_spent
  for ff :: "rat \<Rightarrow> string" and sha :: "string \<Rightarrow> string"
proof unfold_locales
  show "gate_inv s \<Longrightarrow> gate_inv (gate_step ff sha s e)" for s e by (rule gate_inv_step)
  show "consumes s e k \<Longrightarrow> \<not> permit_spent s k" for s e k
    by (auto simp: permit_spent_def elim: consumes_cases)
qed (auto intro: consuming_spends permit_spent_step)

interpretation approval_log: extending_machine "gate_step ff sha" gate_inv gate_extends
  for ff :: "rat \<Rightarrow> string" and sha :: "string \<Rightarrow> string"
  by unfold_locales (auto intro: gate_extends_trans gate_step_extends)

section \<open>Where approvals come from\<close>

lemma callback_approves:
  assumes "rq_decision (requests g q) = ''pending''"
    and "rq_decision (requests (snd (callback now tok decision who why digest g)) q) = ''approved''"
  shows "pending_by_token g tok = Some q \<and> py_strip who \<noteq> [] \<and>
    rq_approved_by (requests (snd (callback now tok decision who why digest g)) q) = py_strip who \<and>
    (\<forall>e. rq_expires_at (requests g q) = Some e \<longrightarrow> now \<le> e) \<and>
    (\<forall>d. digest = Some d \<longrightarrow> rq_action_digest (requests g q) = Some d) \<and>
    (\<forall>action. rq_action (requests g q) = Some action \<longrightarrow> dhas action ''target'' \<longrightarrow>
      digest = rq_action_digest (requests g q))"
  using assms
  by (cases "pending_by_token g tok")
    (auto simp: callback_def Let_def frame_simps split: if_splits option.splits)

lemma only_callback_approves:
  assumes "q < next_request g" and "rq_decision (requests g q) = ''pending''"
    and "rq_decision (requests (gate_step ff sha g e) q) = ''approved''"
  shows "\<exists>now tok decision who why digest. e = Callback now tok decision who why digest"
proof (cases e)
  case (RequestAction now tok incident sev action scope)
  with assms show ?thesis
    by (auto simp: request_action_def rbind_def Let_def register_request_def split: sum.splits if_splits)
next
  case (FinishActionWait now pid wk ref)
  have "requests (snd (finish_action_wait now pid wk ref g)) = requests (snd (finish_wait wk ref g))"
    by (auto simp: finish_action_wait_def Let_def split: prod.split finished.split)
  with assms FinishActionWait show ?thesis
    by (cases wk) (auto simp: finish_wait_def Let_def frame_simps split: if_splits)
next
  case (FinishWait wk ref)
  with assms show ?thesis
    by (cases wk) (auto simp: finish_wait_def Let_def frame_simps split: if_splits)
qed (use assms in \<open>auto simp: request_def register_request_def wait_for_decision_def
      begin_action_wait_def begin_wait_def Let_def frame_simps split: option.splits if_splits\<close>)

section \<open>Properties\<close>

text \<open>
  C3. A permit that the gate accepts for an incident and an action digest, in whatever history of
  calls, stands for a registered request that was approved: for that incident, for exactly that
  digest, by a named operator, not yet expired, and the permit is no older than the timeout.
\<close>

theorem accepted_permit_was_approved:
  assumes "g = run (gate_step ff sha) (new_gate timeout) es"
    and "fst (consume_action_permit t1 t2 (Some p) incident digest g) = Inr True"
  shows "\<exists>q < next_request g.
           rq_decision (requests g q) = ''approved'' \<and>
           rq_incident_id (requests g q) = incident \<and>
           rq_action_digest (requests g q) = Some digest \<and>
           py_strip (rq_approved_by (requests g q)) \<noteq> [] \<and>
           (\<exists>e. rq_expires_at (requests g q) = Some e \<and> t2 \<le> e) \<and>
           0 \<le> t1 - pm_issued_at (permits g p) \<and>
           t1 - pm_issued_at (permits g p) \<le> of_int timeout"
proof -
  have inv: "gate_inv g" and ext: "gate_extends (new_gate timeout) g"
    unfolding assms(1) by (simp_all add: approval.inv_run approval_log.extends_run)
  note result = consume_result [OF assms(2)]
  from inv result(1) have "permit_backed g (permits g p)" by (simp add: gate_inv_def)
  moreover from ext have "timeout_seconds g = timeout" by (simp add: gate_extends_def new_gate_def)
  ultimately show ?thesis using result(2-) unfolding permit_backed_def by auto
qed

text \<open>
  C4. Whatever calls are made, in whatever order, no permit is accepted twice.
\<close>

theorem permit_accepted_at_most_once:
  "firings (gate_step ff sha) consumes (new_gate timeout) es p \<le> 1"
  by (rule approval.firings_le_1) simp

text \<open>
  The first decision on a request is final: no later call changes the decision, the operator it
  names, the incident, the action digest or the expiry.
\<close>

theorem decision_is_final:
  assumes "g = run (gate_step ff sha) (new_gate timeout) es" and "q < next_request g"
    and "rq_decision (requests g q) \<noteq> ''pending''"
  shows "let r = requests g q; r' = requests (run (gate_step ff sha) g fs) q in
         rq_decision r' = rq_decision r \<and> rq_approved_by r' = rq_approved_by r \<and>
         rq_incident_id r' = rq_incident_id r \<and> rq_action_digest r' = rq_action_digest r \<and>
         rq_expires_at r' = rq_expires_at r"
proof -
  have "gate_inv g" unfolding assms(1) by (simp add: approval.inv_run)
  then have "gate_extends g (run (gate_step ff sha) g fs)" by (rule approval_log.extends_run)
  with assms(2,3) show ?thesis by (simp add: gate_extends_def request_extends_def Let_def)
qed

text \<open>
  C17. A pending request becomes approved only by an operator's callback with the request's token,
  that names an operator, arrives before the expiry, and carries the digest of the action when the
  action is a prepared one (it has a target) or when a digest is sent at all.
\<close>

theorem approval_needs_matching_callback:
  assumes "q < next_request g" and "rq_decision (requests g q) = ''pending''"
    and "rq_decision (requests (gate_step ff sha g e) q) = ''approved''"
  shows "\<exists>now tok decision who why digest. e = Callback now tok decision who why digest \<and>
           pending_by_token g tok = Some q \<and> py_strip who \<noteq> [] \<and>
           (\<forall>t. rq_expires_at (requests g q) = Some t \<longrightarrow> now \<le> t) \<and>
           (\<forall>d. digest = Some d \<longrightarrow> rq_action_digest (requests g q) = Some d) \<and>
           (\<forall>action. rq_action (requests g q) = Some action \<longrightarrow> dhas action ''target'' \<longrightarrow>
              digest = rq_action_digest (requests g q))"
proof -
  from only_callback_approves [OF assms] obtain now tok decision who why digest
    where e: "e = Callback now tok decision who why digest" by blast
  from assms(3)
  have "rq_decision (requests (snd (callback now tok decision who why digest g)) q) = ''approved''"
    by (simp only: e gate_step.simps)
  from callback_approves [OF assms(2) this] e show ?thesis by blast
qed

section \<open>Witnesses\<close>

text \<open>
  One approved action: requested at 0 with token \<open>tok\<close>, approved by \<open>ann\<close> at 1, the waiting
  coroutine resumed at 2, the permit presented at 3.
\<close>

definition sample_action :: pydict where
  "sample_action =
     [(''tool'', PStr ''kubectl''), (''arguments'', PDict [(''verb'', PStr ''scale'')])]"

definition sample_calls :: "gate_event list" where
  "sample_calls =
     [RequestAction 0 ''tok'' ''inc'' ''P1'' sample_action None, BeginActionWait 0 ''inc'' ''tok'',
      Callback 1 ''tok'' ''Approved'' '' ann '' '''' None, FinishActionWait 2 ''pid'' Woken 0]"

definition sample_gate :: gate where
  "sample_gate = run (gate_step (\<lambda>_. '''') (\<lambda>_. ''sha'')) (new_gate 300) sample_calls"

theorem accepted_permit_was_approved_witness:
  "\<exists>q < next_request sample_gate. rq_decision (requests sample_gate q) = ''approved''"
proof -
  have "fst (consume_action_permit 3 3 (Some 0) ''inc'' ''sha'' sample_gate) = Inr True"
    by code_simp
  from accepted_permit_was_approved [OF sample_gate_def this] show ?thesis by blast
qed

theorem decision_is_final_witness:
  "rq_decision (requests (run (gate_step (\<lambda>_. '''') (\<lambda>_. ''sha'')) sample_gate
     [Callback 9 ''tok'' ''rejected'' ''bob'' '''' None]) 0) = ''approved''"
proof -
  have "0 < next_request sample_gate" "rq_decision (requests sample_gate 0) = ''approved''"
    by code_simp+
  with decision_is_final [OF sample_gate_def, of 0 "[Callback 9 ''tok'' ''rejected'' ''bob'' '''' None]"]
  show ?thesis by (simp add: Let_def)
qed

text \<open>The gate before the decision.\<close>

definition undecided_gate :: gate where
  "undecided_gate = run (gate_step (\<lambda>_. '''') (\<lambda>_. ''sha'')) (new_gate 300) (take 2 sample_calls)"

theorem approval_needs_matching_callback_witness:
  "\<exists>now tok who decision why digest.
     Callback 1 ''tok'' ''Approved'' '' ann '' '''' None = Callback now tok decision who why digest \<and>
     pending_by_token undecided_gate tok = Some 0 \<and> py_strip who \<noteq> []"
proof -
  have "0 < next_request undecided_gate" "rq_decision (requests undecided_gate 0) = ''pending''"
    "rq_decision (requests (gate_step (\<lambda>_. '''') (\<lambda>_. ''sha'') undecided_gate
       (Callback 1 ''tok'' ''Approved'' '' ann '' '''' None)) 0) = ''approved''"
    by code_simp+
  from approval_needs_matching_callback [OF this] show ?thesis by blast
qed

end
