(* ===== verification/ToolPolicy.thy ===== *)
theory ToolPolicy
  imports Approval
begin

text \<open>
  \<open>agents/tool_policy.py\<close> and the policy checks of \<open>agents/coordinator.py\<close> that every tool call passes:
  which role may call which tool, which calls are cluster mutations, the severity an approval is
  asked for, and the guards on high-impact arguments.  The environment is an argument:
  \<open>operational\<close> is \<open>operational_mode()\<close>, \<open>workload_ns\<close> the value of \<open>ATLASOPS_WORKLOAD_NAMESPACE\<close>
  (\<open>default\<close> when unset).
\<close>

section \<open>Tool sets\<close>

definition triage_tools :: "string set" where
  "triage_tools =
     {''kubectl_get'', ''kubectl_top_pods'', ''alertmanager_list_alerts'', ''promql_query''}"

definition diagnosis_tools :: "string set" where
  "diagnosis_tools =
     {''promql_query'', ''promql_query_range'', ''jaeger_search'', ''jaeger_get_trace'',
      ''kubectl_logs'', ''kubectl_describe'', ''kubectl_get'', ''kubectl_top_pods'',
      ''argocd_list_apps'', ''argocd_app_history'', ''chaos_list_experiments''}"

definition remediation_tools :: "string set" where
  "remediation_tools =
     {''argocd_rollback'', ''kubectl_rollout'', ''kubectl_scale'', ''alertmanager_silence'',
      ''chaos_list_experiments'', ''chaos_stop_experiment'', ''promql_query'', ''kubectl_get'',
      ''kubectl_describe'', ''slack_post_update''}"

definition comms_tools :: "string set" where
  "comms_tools = {''slack_post_update'', ''postmortem_draft''}"

definition ROLE_ALLOWED_TOOLS :: "string \<Rightarrow> string set option" where
  "ROLE_ALLOWED_TOOLS =
     [''triage'' \<mapsto> triage_tools, ''diagnosis'' \<mapsto> diagnosis_tools,
      ''remediation'' \<mapsto> remediation_tools, ''comms'' \<mapsto> comms_tools]"

definition AGENT_EXPOSED_TOOLS :: "string set" where
  "AGENT_EXPOSED_TOOLS = triage_tools \<union> diagnosis_tools \<union> remediation_tools \<union> comms_tools"

definition ADMIN_OR_UNEXPOSED_TOOLS :: "string set" where
  "ADMIN_OR_UNEXPOSED_TOOLS =
     {''argocd_app_get'', ''cloud_monitoring_query'', ''gcloud_logs_read'', ''kubectl_exec'',
      ''kubectl_top_nodes''}"

definition HIGH_RISK_UNEXPOSED_TOOLS :: "string set" where
  "HIGH_RISK_UNEXPOSED_TOOLS = {''kubectl_exec''}"

definition CLUSTER_MUTATING_TOOLS :: "string set" where
  "CLUSTER_MUTATING_TOOLS =
     {''alertmanager_silence'', ''argocd_rollback'', ''chaos_stop_experiment'', ''kubectl_rollout'',
      ''kubectl_scale''}"

definition EXTERNAL_COMMUNICATION_TOOLS :: "string set" where
  "EXTERNAL_COMMUNICATION_TOOLS = {''slack_post_update''}"

definition FILESYSTEM_WRITING_TOOLS :: "string set" where
  "FILESYSTEM_WRITING_TOOLS = {''postmortem_draft'', ''slack_post_update''}"

definition SIDE_EFFECTING_TOOLS :: "string set" where
  "SIDE_EFFECTING_TOOLS =
     CLUSTER_MUTATING_TOOLS \<union> EXTERNAL_COMMUNICATION_TOOLS \<union> FILESYSTEM_WRITING_TOOLS
     \<union> HIGH_RISK_UNEXPOSED_TOOLS"

definition effective_role_tools :: "string \<Rightarrow> bool \<Rightarrow> string set" where
  "effective_role_tools role operational =
     (let tools = (case ROLE_ALLOWED_TOOLS role of None \<Rightarrow> {} | Some ts \<Rightarrow> ts)
      in if operational then tools - FILESYSTEM_WRITING_TOOLS else tools)"

lemmas tool_sets = triage_tools_def diagnosis_tools_def remediation_tools_def comms_tools_def
  AGENT_EXPOSED_TOOLS_def ADMIN_OR_UNEXPOSED_TOOLS_def HIGH_RISK_UNEXPOSED_TOOLS_def
  CLUSTER_MUTATING_TOOLS_def EXTERNAL_COMMUNICATION_TOOLS_def FILESYSTEM_WRITING_TOOLS_def
  SIDE_EFFECTING_TOOLS_def

text \<open>The allowlists of \<open>agents/tools/chaos.py\<close>.\<close>

definition ALLOWED_CHAOS_KINDS :: "string set" where
  "ALLOWED_CHAOS_KINDS =
     {''podchaos'', ''stresschaos'', ''networkchaos'', ''dnschaos'', ''iochaos'', ''timechaos''}"

definition ALLOWED_CHAOS_NAMESPACES :: "string set" where
  "ALLOWED_CHAOS_NAMESPACES = {''chaos-mesh''}"

section \<open>Cluster mutations\<close>

text \<open>A rollout is a mutation only when it is an \<open>undo\<close>.\<close>

definition is_mutating_action :: "(pyval \<Rightarrow> string) \<Rightarrow> string \<Rightarrow> pydict \<Rightarrow> bool" where
  "is_mutating_action fmt tool args =
     (if tool \<notin> CLUSTER_MUTATING_TOOLS then False
      else if tool = ''kubectl_rollout'' then
        py_lower (py_strip (py_str fmt (py_or (dget args ''action'') (PStr '''')))) = ''undo''
      else True)"

section \<open>Severity\<close>

definition extract_severity :: "(pyval \<Rightarrow> string) \<Rightarrow> pyval \<Rightarrow> py_exn + string" where
  "extract_severity fmt user_input =
     (let triage = (case user_input of PDict d \<Rightarrow> dget_or d ''triage'' (PDict []) | _ \<Rightarrow> PDict []) in
      rbind (need_dict triage) (\<lambda>t.
        let sev = py_upper (py_str fmt (dget_or t ''severity'' (PStr '''')))
        in Inr (if sev \<in> {''P0'', ''P1'', ''P2'', ''P3''} then sev else ''UNKNOWN'')))"

definition critical_labels :: "(pyval \<Rightarrow> string) \<Rightarrow> pyval \<Rightarrow> bool" where
  "critical_labels fmt labels =
     (case labels of
        PDict d \<Rightarrow>
          py_lower (py_strip (py_str fmt (py_or (dget d ''severity'') (PStr '''')))) = ''critical''
      | _ \<Rightarrow> False)"

definition alert_label_sets :: "pydict \<Rightarrow> pyval list" where
  "alert_label_sets alert =
     py_or (dget alert ''commonLabels'') (PDict []) #
     (case py_or (dget alert ''alerts'') (PList []) of
        PList items \<Rightarrow>
          map (\<lambda>item. py_or (dget (as_dict item) ''labels'') (PDict [])) (filter is_dict items)
      | _ \<Rightarrow> [])"

definition severity_for_approval ::
  "(pyval \<Rightarrow> string) \<Rightarrow> pyval \<Rightarrow> pydict \<Rightarrow> py_exn + string" where
  "severity_for_approval fmt triage_final alert =
     rbind (extract_severity fmt (PDict [(''triage'', triage_final)])) (\<lambda>severity.
       let critical = list_ex (critical_labels fmt) (alert_label_sets alert)
       in Inr (if critical \<and> severity \<notin> {''P0'', ''P1''} then ''P1'' else severity))"

section \<open>The policy check of a tool call\<close>

text \<open>One constructor per denial message.\<close>

datatype denial =
    ToolNotAllowed string string
  | MutationOutsideRemediation string
  | NamespaceNotAllowed
  | SilenceTooLong
  | ReplicasOutOfRange
  | RollbackNeedsSeverity
  | ChaosKindNotAllowed pyval
  | ChaosNamespaceUnauthorized pyval

definition OPERATIONAL_KUBECTL_READ_TOOLS :: "string set" where
  "OPERATIONAL_KUBECTL_READ_TOOLS =
     {''kubectl_get'', ''kubectl_describe'', ''kubectl_logs'', ''kubectl_top_pods''}"

text \<open>The guards on the arguments of high-impact remediation tools, in the code's order.\<close>

definition silence_guard :: "pydict \<Rightarrow> py_exn + denial option" where
  "silence_guard args =
     rbind (py_int (dget_or args ''duration_minutes'' (PInt 30))) (\<lambda>d.
       Inr (if d > 30 then Some SilenceTooLong else None))"

definition scale_guard :: "pydict \<Rightarrow> py_exn + denial option" where
  "scale_guard args =
     rbind (py_int (dget_or args ''replicas'' (PInt 0))) (\<lambda>n.
       Inr (if n < 0 \<or> n > 20 then Some ReplicasOutOfRange else None))"

definition chaos_guard :: "(pyval \<Rightarrow> string) \<Rightarrow> pydict \<Rightarrow> py_exn + denial option" where
  "chaos_guard fmt args =
     (if py_lower (py_strip (py_str fmt (dget_or args ''kind'' (PStr '''')))) \<notin> ALLOWED_CHAOS_KINDS
      then Inr (Some (ChaosKindNotAllowed (dget args ''kind'')))
      else if py_lower (py_strip (py_str fmt (dget_or args ''namespace'' (PStr ''chaos-mesh''))))
           \<notin> ALLOWED_CHAOS_NAMESPACES
      then Inr (Some (ChaosNamespaceUnauthorized (dget args ''namespace'')))
      else Inr None)"

definition remediation_guard ::
  "(pyval \<Rightarrow> string) \<Rightarrow> string \<Rightarrow> pydict \<Rightarrow> pyval \<Rightarrow> py_exn + denial option" where
  "remediation_guard fmt tool args user_input =
     rbind (extract_severity fmt user_input) (\<lambda>severity.
     rbind (if tool = ''alertmanager_silence'' then silence_guard args else Inr None) (\<lambda>r1.
     if r1 \<noteq> None then Inr r1 else
     rbind (if tool = ''kubectl_scale'' then scale_guard args else Inr None) (\<lambda>r2.
     if r2 \<noteq> None then Inr r2
     else if tool = ''argocd_rollback'' \<and> severity \<in> {''UNKNOWN'', ''P3''}
     then Inr (Some RollbackNeedsSeverity)
     else if tool = ''chaos_stop_experiment'' then chaos_guard fmt args
     else Inr None)))"

definition check_tool_policy ::
  "(pyval \<Rightarrow> string) \<Rightarrow> bool \<Rightarrow> string \<Rightarrow> string \<Rightarrow> string \<Rightarrow> pydict \<Rightarrow> pyval \<Rightarrow>
   py_exn + denial option" where
  "check_tool_policy fmt operational workload_ns role tool args user_input =
     (if tool \<notin> effective_role_tools role operational then Inr (Some (ToolNotAllowed tool role))
      else if role \<noteq> ''remediation'' \<and> tool \<in> CLUSTER_MUTATING_TOOLS
      then Inr (Some (MutationOutsideRemediation tool))
      else if operational \<and> tool \<in> OPERATIONAL_KUBECTL_READ_TOOLS
              \<and> dget args ''namespace'' \<noteq> PStr workload_ns
      then Inr (Some NamespaceNotAllowed)
      else if role = ''remediation'' then remediation_guard fmt tool args user_input
      else Inr None)"

section \<open>Lemmas\<close>

lemma effective_tools_allowed:
  "tool \<in> effective_role_tools role operational \<Longrightarrow>
   \<exists>ts. ROLE_ALLOWED_TOOLS role = Some ts \<and> tool \<in> ts"
  by (cases "ROLE_ALLOWED_TOOLS role") (auto simp: effective_role_tools_def Let_def split: if_splits)

lemma role_tools_cases:
  "ROLE_ALLOWED_TOOLS role = Some ts \<Longrightarrow>
   role = ''triage'' \<and> ts = triage_tools \<or> role = ''diagnosis'' \<and> ts = diagnosis_tools \<or>
   role = ''remediation'' \<and> ts = remediation_tools \<or> role = ''comms'' \<and> ts = comms_tools"
  by (auto simp: ROLE_ALLOWED_TOOLS_def split: if_splits)

lemma extract_severity_values:
  "extract_severity fmt u = Inr s \<Longrightarrow> s \<in> {''P0'', ''P1'', ''P2'', ''P3'', ''UNKNOWN''}"
  by (auto simp: extract_severity_def Let_def rbind_eq_Inr split: if_splits)

lemma remediation_guard_passes:
  assumes "remediation_guard fmt tool args user_input = Inr None"
  shows "tool = ''alertmanager_silence'' \<Longrightarrow>
           \<exists>d. py_int (dget_or args ''duration_minutes'' (PInt 30)) = Inr d \<and> d \<le> 30"
    and "tool = ''kubectl_scale'' \<Longrightarrow>
           \<exists>n. py_int (dget_or args ''replicas'' (PInt 0)) = Inr n \<and> 0 \<le> n \<and> n \<le> 20"
    and "tool = ''argocd_rollback'' \<Longrightarrow>
           \<exists>s. extract_severity fmt user_input = Inr s \<and> s \<in> {''P0'', ''P1'', ''P2''}"
    and "tool = ''chaos_stop_experiment'' \<Longrightarrow> chaos_guard fmt args = Inr None"
  using assms extract_severity_values [of fmt user_input]
  by (auto simp: remediation_guard_def silence_guard_def scale_guard_def rbind_eq_Inr
      split: if_splits)

lemma chaos_guard_passes:
  "chaos_guard fmt args = Inr None \<Longrightarrow>
   py_lower (py_strip (py_str fmt (dget_or args ''kind'' (PStr '''')))) \<in> ALLOWED_CHAOS_KINDS \<and>
   py_lower (py_strip (py_str fmt (dget_or args ''namespace'' (PStr ''chaos-mesh'')))) = ''chaos-mesh''"
  by (auto simp: chaos_guard_def ALLOWED_CHAOS_NAMESPACES_def split: if_splits)

lemma policy_passes_tool:
  "check_tool_policy fmt operational workload_ns role tool args user_input = Inr None \<Longrightarrow>
   tool \<in> effective_role_tools role operational"
  by (auto simp: check_tool_policy_def split: if_splits)

section \<open>Properties\<close>

text \<open>
  C15. A cluster-mutating tool call that passes the policy check is made by the remediation role, and
  its arguments are bounded: a silence lasts at most 30 minutes, a scale asks for 0 to 20 replicas,
  a rollback needs a triage severity P0, P1 or P2, and a chaos experiment is of an allowed kind in
  the \<open>chaos-mesh\<close> namespace.
\<close>

theorem permitted_mutation_is_bounded:
  assumes "check_tool_policy fmt operational workload_ns role tool args user_input = Inr None"
    and "tool \<in> CLUSTER_MUTATING_TOOLS"
  shows "role = ''remediation'' \<and>
    (tool = ''alertmanager_silence'' \<longrightarrow>
       (\<exists>d. py_int (dget_or args ''duration_minutes'' (PInt 30)) = Inr d \<and> d \<le> 30)) \<and>
    (tool = ''kubectl_scale'' \<longrightarrow>
       (\<exists>n. py_int (dget_or args ''replicas'' (PInt 0)) = Inr n \<and> 0 \<le> n \<and> n \<le> 20)) \<and>
    (tool = ''argocd_rollback'' \<longrightarrow>
       (\<exists>s. extract_severity fmt user_input = Inr s \<and> s \<in> {''P0'', ''P1'', ''P2''})) \<and>
    (tool = ''chaos_stop_experiment'' \<longrightarrow>
       py_lower (py_strip (py_str fmt (dget_or args ''kind'' (PStr '''')))) \<in> ALLOWED_CHAOS_KINDS \<and>
       py_lower (py_strip (py_str fmt (dget_or args ''namespace'' (PStr ''chaos-mesh'')))) = ''chaos-mesh'')"
proof -
  from assms have "role = ''remediation''" and "remediation_guard fmt tool args user_input = Inr None"
    by (auto simp: check_tool_policy_def split: if_splits)
  note guard = remediation_guard_passes [OF this(2)]
  note chaos = chaos_guard_passes [OF guard(4)]
  show ?thesis
    by (intro conjI impI \<open>role = ''remediation''\<close> guard(1-3) chaos [THEN conjunct1]
        chaos [THEN conjunct2]) assumption+
qed

theorem permitted_mutation_is_bounded_witness:
  "\<exists>n. py_int (dget_or [(''replicas'', PInt 3)] ''replicas'' (PInt 0)) = Inr n \<and> 0 \<le> n \<and> n \<le> 20"
proof -
  have "check_tool_policy (\<lambda>_. '''') True ''default'' ''remediation'' ''kubectl_scale''
          [(''replicas'', PInt 3)] (PDict []) = Inr None"
    by code_simp
  from permitted_mutation_is_bounded [OF this] show ?thesis
    by (simp add: CLUSTER_MUTATING_TOOLS_def)
qed

text \<open>
  No role, in either mode, is allowed a tool that is registered for administration only; in
  operational mode no role is allowed a tool that writes files.
\<close>

theorem unexposed_tools_never_allowed:
  assumes "check_tool_policy fmt operational workload_ns role tool args user_input = Inr None"
  shows "tool \<in> AGENT_EXPOSED_TOOLS \<and> tool \<notin> ADMIN_OR_UNEXPOSED_TOOLS \<and>
    tool \<notin> HIGH_RISK_UNEXPOSED_TOOLS \<and> (operational \<longrightarrow> tool \<notin> FILESYSTEM_WRITING_TOOLS)"
proof -
  from assms have allowed: "tool \<in> effective_role_tools role operational"
    by (rule policy_passes_tool)
  then obtain ts where "ROLE_ALLOWED_TOOLS role = Some ts" and "tool \<in> ts"
    using effective_tools_allowed by blast
  then have exposed: "tool \<in> AGENT_EXPOSED_TOOLS"
    using role_tools_cases by (auto simp: AGENT_EXPOSED_TOOLS_def)
  have "AGENT_EXPOSED_TOOLS \<inter> ADMIN_OR_UNEXPOSED_TOOLS = {}" by (simp add: tool_sets)
  with exposed allowed show ?thesis
    by (auto simp: effective_role_tools_def Let_def HIGH_RISK_UNEXPOSED_TOOLS_def
        ADMIN_OR_UNEXPOSED_TOOLS_def)
qed

theorem unexposed_tools_never_allowed_witness:
  "''kubectl_get'' \<notin> ADMIN_OR_UNEXPOSED_TOOLS"
proof -
  have "check_tool_policy (\<lambda>_. '''') False ''default'' ''triage'' ''kubectl_get'' [] PNone = Inr None"
    by code_simp
  from unexposed_tools_never_allowed [OF this] show ?thesis by blast
qed

text \<open>
  The severity an approval is asked for never sends an incident with a critical alert label to
  automatic approval, whatever the model's triage says, and a triage without a recognised severity
  is approved by a human too: only a triage of P2 or P3 without any critical label is automatic.
\<close>

theorem critical_or_unknown_never_automatic:
  assumes "severity_for_approval fmt triage_final alert = Inr severity"
    and "approval_mode_for_severity severity = ''auto''"
  shows "\<not> list_ex (critical_labels fmt) (alert_label_sets alert) \<and>
    extract_severity fmt (PDict [(''triage'', triage_final)]) = Inr severity \<and>
    severity \<in> {''P2'', ''P3''}"
proof -
  from assms(1) obtain s where s: "extract_severity fmt (PDict [(''triage'', triage_final)]) = Inr s"
    and sev: "severity = (if list_ex (critical_labels fmt) (alert_label_sets alert) \<and>
                s \<notin> {''P0'', ''P1''} then ''P1'' else s)"
    by (auto simp: severity_for_approval_def rbind_eq_Inr Let_def)
  have modes: "approval_mode_for_severity ''P0'' = ''manual''" "approval_mode_for_severity ''P1'' = ''approve''"
    "approval_mode_for_severity ''UNKNOWN'' = ''approve''"
    by code_simp+
  then have "severity \<notin> {''P0'', ''P1'', ''UNKNOWN''}" using assms(2) by auto
  with sev have "\<not> (list_ex (critical_labels fmt) (alert_label_sets alert) \<and> s \<notin> {''P0'', ''P1''})"
    and eq: "severity = s" by (auto split: if_splits)
  moreover from \<open>severity \<notin> _\<close> eq extract_severity_values [OF s] have "s \<in> {''P2'', ''P3''}" by auto
  ultimately show ?thesis using s by auto
qed

theorem critical_or_unknown_never_automatic_witness:
  "\<not> list_ex (critical_labels (\<lambda>_. '''')) (alert_label_sets [(''commonLabels'', PDict [])])"
proof -
  have "severity_for_approval (\<lambda>_. '''') (PDict [(''severity'', PStr ''p3'')])
          [(''commonLabels'', PDict [])] = Inr ''P3''" "approval_mode_for_severity ''P3'' = ''auto''"
    by code_simp+
  from critical_or_unknown_never_automatic [OF this] show ?thesis by blast
qed

end
