(* ===== verification/Evidence.thy ===== *)
theory Evidence
  imports PyValue
begin

text \<open>
  What may be persisted: the redaction of \<open>agents/evidence_redaction.py\<close>, the size-bounded copy
  \<open>_safe_evidence\<close> of \<open>agents/execution_journal.py\<close>, and the identifiers of
  \<open>agents/incident_history.py\<close>.  The regular expression \<open>_SECRET_KEY\<close> is a case-insensitive search for
  one of finitely many words and is written out; the substitutions of \<open>_SECRET_TEXT\<close> are a parameter
  \<open>scrub\<close>.
\<close>

section \<open>Secret fields\<close>

text \<open>The words that \<open>_SECRET_KEY\<close> matches, with its optional \<open>_\<close> and \<open>-\<close> spelled out.\<close>

definition SECRET_WORDS :: "string list" where
  "SECRET_WORDS =
     [''apikey'', ''api_key'', ''api-key'',
      ''accesstoken'', ''access_token'', ''access-token'',
      ''refreshtoken'', ''refresh_token'', ''refresh-token'',
      ''proxyauthorization'', ''proxy_authorization'', ''proxy-authorization'', ''authorization'',
      ''setcookie'', ''set_cookie'', ''set-cookie'', ''cookie'',
      ''sessiontoken'', ''session_token'', ''session-token'',
      ''sessionid'', ''session_id'', ''session-id'',
      ''token'', ''bearer'', ''password'', ''passwd'', ''secret'', ''credential'',
      ''privatekey'', ''private_key'', ''private-key'']"

definition secret_key :: "string \<Rightarrow> bool" where
  "secret_key key \<longleftrightarrow> list_ex (contains (py_lower key)) SECRET_WORDS"

definition TOKEN_COUNT_FIELDS :: "string set" where
  "TOKEN_COUNT_FIELDS =
     {''max_new_tokens'', ''min_new_tokens'', ''max_tokens'', ''completion_tokens'',
      ''prompt_tokens'', ''total_tokens''}"

text \<open>\<open>type(value) is int\<close> excludes booleans.\<close>

definition evidence_field_is_secret :: "string \<Rightarrow> pyval \<Rightarrow> bool" where
  "evidence_field_is_secret key v \<longleftrightarrow>
     secret_key key \<and> \<not> (key \<in> TOKEN_COUNT_FIELDS \<and> (case v of PInt _ \<Rightarrow> True | _ \<Rightarrow> False))"

text \<open>A dictionary comprehension with a filter on its entries.\<close>

function redact_persisted_evidence :: "(string \<Rightarrow> string) \<Rightarrow> pyval \<Rightarrow> pyval" where
  "redact_persisted_evidence scrub (PDict d) =
     PDict (map (\<lambda>p. (fst p, redact_persisted_evidence scrub (snd p)))
       (filter (\<lambda>p. \<not> evidence_field_is_secret (fst p) (snd p)) d))"
| "redact_persisted_evidence scrub (PList xs) = PList (map (redact_persisted_evidence scrub) xs)"
| "redact_persisted_evidence scrub (PStr s) = PStr (scrub s)"
| "redact_persisted_evidence scrub PNone = PNone"
| "redact_persisted_evidence scrub (PBool b) = PBool b"
| "redact_persisted_evidence scrub (PInt i) = PInt i"
| "redact_persisted_evidence scrub (PFloat x) = PFloat x"
  by pat_completeness auto

termination redact_persisted_evidence
  by (relation "measure (\<lambda>(_, v). size v)") (auto simp: size_snd_pydict size_elem_pylist)

section \<open>Bounded evidence\<close>

definition MAX_EVIDENCE_ITEMS :: nat where "MAX_EVIDENCE_ITEMS = 128"
definition MAX_EVIDENCE_TEXT :: nat where "MAX_EVIDENCE_TEXT = 8192"
definition MAX_EVIDENCE_DEPTH :: nat where "MAX_EVIDENCE_DEPTH = 16"

function safe_evidence :: "(string \<Rightarrow> string) \<Rightarrow> nat \<Rightarrow> pyval \<Rightarrow> pyval" where
  "safe_evidence scrub depth v =
     (if depth > MAX_EVIDENCE_DEPTH then PStr ''[truncated]''
      else case v of
        PDict d \<Rightarrow>
          PDict (map (\<lambda>p. (fst p, safe_evidence scrub (depth + 1) (snd p)))
            (filter (\<lambda>p. \<not> evidence_field_is_secret (fst p) (snd p)) (take MAX_EVIDENCE_ITEMS d)))
      | PList xs \<Rightarrow> PList (map (safe_evidence scrub (depth + 1)) (take MAX_EVIDENCE_ITEMS xs))
      | PStr s \<Rightarrow> PStr (take MAX_EVIDENCE_TEXT (scrub s))
      | _ \<Rightarrow> v)"
  by pat_completeness auto

termination safe_evidence
  by (relation "measure (\<lambda>(_, depth, _). MAX_EVIDENCE_DEPTH + 1 - depth)") auto

declare safe_evidence.simps [simp del]

lemma safe_evidence_cases [simp]:
  "depth > MAX_EVIDENCE_DEPTH \<Longrightarrow> safe_evidence scrub depth v = PStr ''[truncated]''"
  "\<not> depth > MAX_EVIDENCE_DEPTH \<Longrightarrow> safe_evidence scrub depth (PDict d) =
     PDict (map (\<lambda>p. (fst p, safe_evidence scrub (depth + 1) (snd p)))
       (filter (\<lambda>p. \<not> evidence_field_is_secret (fst p) (snd p)) (take MAX_EVIDENCE_ITEMS d)))"
  "\<not> depth > MAX_EVIDENCE_DEPTH \<Longrightarrow> safe_evidence scrub depth (PList xs) =
     PList (map (safe_evidence scrub (depth + 1)) (take MAX_EVIDENCE_ITEMS xs))"
  "\<not> depth > MAX_EVIDENCE_DEPTH \<Longrightarrow> safe_evidence scrub depth (PStr s) =
     PStr (take MAX_EVIDENCE_TEXT (scrub s))"
  "\<not> depth > MAX_EVIDENCE_DEPTH \<Longrightarrow> safe_evidence scrub depth PNone = PNone"
  "\<not> depth > MAX_EVIDENCE_DEPTH \<Longrightarrow> safe_evidence scrub depth (PBool b) = PBool b"
  "\<not> depth > MAX_EVIDENCE_DEPTH \<Longrightarrow> safe_evidence scrub depth (PInt i) = PInt i"
  "\<not> depth > MAX_EVIDENCE_DEPTH \<Longrightarrow> safe_evidence scrub depth (PFloat x) = PFloat x"
  by (subst safe_evidence.simps, simp)+

section \<open>Identifiers\<close>

definition ascii_alnum :: "char \<Rightarrow> bool" where
  "ascii_alnum c \<longleftrightarrow> (let n = (of_char c :: nat) in
     (48 \<le> n \<and> n \<le> 57) \<or> (65 \<le> n \<and> n \<le> 90) \<or> (97 \<le> n \<and> n \<le> 122))"

definition WINDOWS_RESERVED :: "string list" where
  "WINDOWS_RESERVED =
     [''CON'', ''PRN'', ''AUX'', ''NUL''] @
     concat (map (\<lambda>prefix. map (\<lambda>n. prefix @ [char_of (48 + n)]) [1..<10]) [''COM'', ''LPT''])"

definition valid_incident_id :: "pyval \<Rightarrow> bool" where
  "valid_incident_id v =
     (case v of
        PStr s \<Rightarrow>
          s \<noteq> [] \<and> length s \<le> 128 \<and> ascii_alnum (hd s) \<and> last s \<noteq> CHR ''.'' \<and>
          list_all (\<lambda>c. ascii_alnum c \<or> c \<in> set ''._-'') s \<and>
          py_upper (takeWhile (\<lambda>c. c \<noteq> CHR ''.'') s) \<notin> set WINDOWS_RESERVED
      | _ \<Rightarrow> False)"

definition lower_hex :: "char \<Rightarrow> bool" where
  "lower_hex c \<longleftrightarrow> (let n = (of_char c :: nat) in (48 \<le> n \<and> n \<le> 57) \<or> (97 \<le> n \<and> n \<le> 102))"

definition valid_execution_id :: "pyval \<Rightarrow> bool" where
  "valid_execution_id v =
     (case v of PStr s \<Rightarrow> length s = 32 \<and> list_all lower_hex s | _ \<Rightarrow> False)"

section \<open>What survives\<close>

text \<open>No dictionary at any level of the value has a secret field.\<close>

fun no_secret_fields :: "pyval \<Rightarrow> bool" where
  "no_secret_fields (PDict d) =
     list_all (\<lambda>p. \<not> (secret_key (fst p) \<and> fst p \<notin> TOKEN_COUNT_FIELDS) \<and> no_secret_fields (snd p)) d"
| "no_secret_fields (PList xs) = list_all no_secret_fields xs"
| "no_secret_fields _ = True"

text \<open>Nesting depth, and the largest collection and text inside a value.\<close>

fun within_bounds :: "nat \<Rightarrow> nat \<Rightarrow> nat \<Rightarrow> pyval \<Rightarrow> bool" where
  "within_bounds items text depth (PDict d) =
     (length d \<le> items \<and> depth > 0 \<and> list_all (\<lambda>p. within_bounds items text (depth - 1) (snd p)) d)"
| "within_bounds items text depth (PList xs) =
     (length xs \<le> items \<and> depth > 0 \<and> list_all (within_bounds items text (depth - 1)) xs)"
| "within_bounds items text depth (PStr s) = (length s \<le> text)"
| "within_bounds items text depth _ = True"

lemma secret_not_kept:
  "\<not> evidence_field_is_secret k v \<Longrightarrow> \<not> (secret_key k \<and> k \<notin> TOKEN_COUNT_FIELDS)"
  by (auto simp: evidence_field_is_secret_def)

lemma redact_no_secret_fields: "no_secret_fields (redact_persisted_evidence scrub v)"
proof (induction scrub v rule: redact_persisted_evidence.induct)
  case (1 scrub d)
  then show ?case by (auto simp: list_all_iff dest: secret_not_kept)
next
  case (2 scrub xs)
  then show ?case by (simp add: list_all_iff)
qed simp_all

lemma safe_no_secret_fields: "no_secret_fields (safe_evidence scrub depth v)"
proof (induction scrub depth v rule: safe_evidence.induct)
  case (1 scrub depth v)
  show ?case
  proof (cases "depth > MAX_EVIDENCE_DEPTH")
    case True
    then show ?thesis by simp
  next
    case False
    show ?thesis
    proof (cases v)
      case (PList xs)
      with 1(1) [OF False PList] False show ?thesis
        by (simp add: list_all_iff)
    next
      case (PDict d)
      with 1(2) [OF False PDict] False show ?thesis
        by (auto simp: list_all_iff dest: secret_not_kept)
    qed (use False in \<open>simp_all\<close>)
  qed
qed

lemma safe_within_bounds:
  "within_bounds MAX_EVIDENCE_ITEMS MAX_EVIDENCE_TEXT (MAX_EVIDENCE_DEPTH + 1 - depth)
     (safe_evidence scrub depth v)"
proof (induction scrub depth v rule: safe_evidence.induct)
  case (1 scrub depth v)
  show ?case
  proof (cases "depth > MAX_EVIDENCE_DEPTH")
    case True
    then show ?thesis by (simp add: MAX_EVIDENCE_TEXT_def)
  next
    case False
    then have depth: "MAX_EVIDENCE_DEPTH + 1 - depth > 0"
      and next_depth: "MAX_EVIDENCE_DEPTH + 1 - depth - 1 = MAX_EVIDENCE_DEPTH + 1 - (depth + 1)" by simp_all
    show ?thesis
    proof (cases v)
      case (PList xs)
      with 1(1) [OF False PList] False depth show ?thesis
        by (simp add: list_all_iff next_depth del: diff_diff_left)
    next
      case (PDict d)
      let ?kept = "filter (\<lambda>p. \<not> evidence_field_is_secret (fst p) (snd p)) (take MAX_EVIDENCE_ITEMS d)"
      have "length ?kept \<le> length (take MAX_EVIDENCE_ITEMS d)" by (rule length_filter_le)
      then have "length ?kept \<le> MAX_EVIDENCE_ITEMS" by simp
      with PDict 1(2) [OF False PDict] False depth show ?thesis
        by (auto simp: list_all_iff next_depth
            simp del: diff_diff_left)
    qed (use False in \<open>simp_all\<close>)
  qed
qed

section \<open>Properties\<close>

text \<open>
  Whatever evidence is recorded, the persisted copy has no secret field at any level (token counts
  excepted), at most 16 levels of nesting below the record, at most 128 entries in a
  collection and at most 8192 characters in a text; redaction alone removes the secret fields too.
\<close>

theorem persisted_evidence_is_safe:
  "no_secret_fields (safe_evidence scrub 0 v) \<and> no_secret_fields (redact_persisted_evidence scrub v) \<and>
   within_bounds 128 8192 17 (safe_evidence scrub 0 v)"
  using safe_within_bounds [of 0 scrub v]
  by (simp add: safe_no_secret_fields redact_no_secret_fields MAX_EVIDENCE_ITEMS_def
      MAX_EVIDENCE_TEXT_def MAX_EVIDENCE_DEPTH_def)

end
