(* ===== verification/ModelReply.thy ===== *)
theory ModelReply
  imports ToolPolicy Evidence Json "HOL-Library.While_Combinator"
begin

text \<open>
  \<open>agents/coordinator.py\<close>, reading a model's reply: tool calls in their three provider formats, the
  arguments of a call, the extraction of a JSON conclusion from text, the validity of a completion
  response, and the forensic record of a model turn.  \<open>loads\<close> is \<open>json.loads\<close> on text, \<open>None\<close> when it
  raises \<open>JSONDecodeError\<close>; \<open>rp\<close> is \<open>repr\<close> of text.  The content of a message is text or null, as the
  completion API documents.
\<close>

section \<open>Subscripts\<close>

fun py_key :: "pyval \<Rightarrow> string \<Rightarrow> py_exn + pyval" where
  "py_key (PDict d) k = (case map_of d k of None \<Rightarrow> Inl KeyError | Some v \<Rightarrow> Inr v)"
| "py_key _ k = Inl TypeError"

fun py_first :: "pyval \<Rightarrow> py_exn + pyval" where
  "py_first (PList xs) = (case xs of [] \<Rightarrow> Inl IndexError | x # _ \<Rightarrow> Inr x)"
| "py_first (PStr s) = (case s of [] \<Rightarrow> Inl IndexError | c # _ \<Rightarrow> Inr (PStr [c]))"
| "py_first (PDict d) = Inl KeyError"
| "py_first _ = Inl TypeError"

fun py_type_name :: "pyval \<Rightarrow> string" where
  "py_type_name PNone = ''NoneType''"
| "py_type_name (PBool _) = ''bool''"
| "py_type_name (PInt _) = ''int''"
| "py_type_name (PFloat _) = ''float''"
| "py_type_name (PStr _) = ''str''"
| "py_type_name (PList _) = ''list''"
| "py_type_name (PDict _) = ''dict''"

text \<open>A value can be looked up in a set of names unless it is a list or a dictionary.\<close>

fun hashable :: "pyval \<Rightarrow> bool" where
  "hashable (PList _) = False"
| "hashable (PDict _) = False"
| "hashable _ = True"

section \<open>Matching braces\<close>

text \<open>The inner loop of \<open>_try_parse_json\<close>, with its variables; \<open>sc_end\<close> is the position of its break.\<close>

record scan =
  sc_pos :: nat
  sc_depth :: int
  sc_in_string :: bool
  sc_escape :: bool
  sc_end :: "nat option"

definition BACKSLASH :: char where "BACKSLASH = char_of (92::nat)"

definition QUOTE :: char where "QUOTE = char_of (34::nat)"

definition scan_start :: "nat \<Rightarrow> scan" where
  "scan_start i =
     \<lparr>sc_pos = i, sc_depth = 0, sc_in_string = False, sc_escape = False, sc_end = None\<rparr>"

definition scan_more :: "string \<Rightarrow> scan \<Rightarrow> bool" where
  "scan_more content s \<longleftrightarrow> sc_end s = None \<and> sc_pos s < length content"

definition scan_body :: "string \<Rightarrow> scan \<Rightarrow> scan" where
  "scan_body content s =
     (let c = content ! sc_pos s; next = s\<lparr>sc_pos := sc_pos s + 1\<rparr> in
      if sc_escape s then next\<lparr>sc_escape := False\<rparr>
      else if c = BACKSLASH \<and> sc_in_string s then next\<lparr>sc_escape := True\<rparr>
      else if c = QUOTE then next\<lparr>sc_in_string := \<not> sc_in_string s\<rparr>
      else if sc_in_string s then next
      else if c = CHR ''{'' then next\<lparr>sc_depth := sc_depth s + 1\<rparr>
      else if c = CHR ''}'' then
        (if sc_depth s - 1 = 0 then s\<lparr>sc_depth := 0, sc_end := Some (sc_pos s)\<rparr>
         else next\<lparr>sc_depth := sc_depth s - 1\<rparr>)
      else next)"

definition scan_object :: "string \<Rightarrow> nat \<Rightarrow> nat option option" where
  "scan_object content i =
     map_option sc_end (while_option (scan_more content) (scan_body content) (scan_start i))"

text \<open>The same scan over the characters that are left.\<close>

fun close_brace :: "int \<Rightarrow> bool \<Rightarrow> bool \<Rightarrow> nat \<Rightarrow> string \<Rightarrow> nat option" where
  "close_brace depth in_string escaped pos [] = None"
| "close_brace depth in_string escaped pos (c # s) =
     (if escaped then close_brace depth in_string False (pos + 1) s
      else if c = BACKSLASH \<and> in_string then close_brace depth in_string True (pos + 1) s
      else if c = QUOTE then close_brace depth (\<not> in_string) False (pos + 1) s
      else if in_string then close_brace depth True False (pos + 1) s
      else if c = CHR ''{'' then close_brace (depth + 1) False False (pos + 1) s
      else if c = CHR ''}'' then
        (if depth = 1 then Some pos else close_brace (depth - 1) False False (pos + 1) s)
      else close_brace depth False False (pos + 1) s)"

section \<open>The JSON conclusion\<close>

text \<open>The decoded object that starts at a position, when it is not a tool-call fragment.\<close>

definition object_at :: "(string \<Rightarrow> pyval option) \<Rightarrow> string \<Rightarrow> nat \<Rightarrow> py_exn + pydict list" where
  "object_at loads content i =
     (if content ! i \<noteq> CHR ''{'' then Inr []
      else case scan_object content i of
        Some (Some j) \<Rightarrow>
          (case loads (take (j + 1 - i) (drop i content)) of
             Some (PDict obj) \<Rightarrow>
               (if \<not> hashable (dget obj ''name'') then Inl TypeError
                else if dget obj ''name'' \<in> PStr ` AGENT_EXPOSED_TOOLS then Inr [] else Inr [obj])
           | _ \<Rightarrow> Inr [])
      | _ \<Rightarrow> Inr [])"

text \<open>\<open>max(candidates, key=len)\<close>: the first of the longest.\<close>

fun longest :: "pydict \<Rightarrow> pydict list \<Rightarrow> pydict" where
  "longest best [] = best"
| "longest best (d # ds) = longest (if length d > length best then d else best) ds"

definition try_parse_json :: "(string \<Rightarrow> pyval option) \<Rightarrow> string \<Rightarrow> py_exn + pydict" where
  "try_parse_json loads content =
     (if content = [] then Inr []
      else rbind (map_result (object_at loads content) [0..<length content]) (\<lambda>objs.
        case concat objs of
          [] \<Rightarrow> Inr [(''raw'', PStr (take 500 content))]
        | c # cs \<Rightarrow> Inr (longest c cs)))"

section \<open>Tool calls\<close>

definition ROLE_CONCLUSION_KEYS :: "string set" where
  "ROLE_CONCLUSION_KEYS =
     {''outcome'', ''severity'', ''root_cause'', ''slack_posted'', ''proposed_actions'',
      ''executed_actions'', ''actions_taken''}"

definition function_field :: "pydict \<Rightarrow> string \<Rightarrow> py_exn + pyval" where
  "function_field obj k =
     rbind (need_dict (dget_or obj ''function'' (PDict []))) (\<lambda>f. Inr (dget f k))"

definition call_entry :: "pyval \<Rightarrow> pyval \<Rightarrow> string \<Rightarrow> pyval" where
  "call_entry id_value name arguments =
     PDict [(''id'', id_value), (''type'', PStr ''function''),
            (''function'', PDict [(''name'', name), (''arguments'', PStr arguments)])]"

text \<open>From the first opening to the last closing brace; empty when they are the wrong way round.\<close>

definition brace_span :: "string \<Rightarrow> string option" where
  "brace_span content =
     (if CHR ''{'' \<notin> set content \<or> CHR ''}'' \<notin> set content then None
      else let start = length (takeWhile (\<lambda>c. c \<noteq> CHR ''{'') content);
               stop = length content - length (takeWhile (\<lambda>c. c \<noteq> CHR ''}'') (rev content))
           in Some (drop start (take stop content)))"

definition call_arguments :: "(string \<Rightarrow> pyval option) \<Rightarrow> pydict \<Rightarrow> py_exn + pyval" where
  "call_arguments loads obj =
     rbind (if truthy (dget obj ''parameters'') then Inr (dget obj ''parameters'')
            else if truthy (dget obj ''arguments'') then Inr (dget obj ''arguments'')
            else rbind (function_field obj ''arguments'') (\<lambda>v. Inr (py_or v (PDict [])))) (\<lambda>args.
       Inr (case args of
              PStr s \<Rightarrow> (case loads s of Some v \<Rightarrow> v | None \<Rightarrow> PDict [])
            | _ \<Rightarrow> args))"

definition extract_tool_calls_from_content ::
  "(pyval \<Rightarrow> string) \<Rightarrow> (rat \<Rightarrow> string) \<Rightarrow> (string \<Rightarrow> pyval option) \<Rightarrow> string \<Rightarrow> py_exn + pyval list" where
  "extract_tool_calls_from_content fmt ff loads content =
     (case Option.bind (brace_span content) loads of
        Some (PDict obj) \<Rightarrow>
          (if set (map fst obj) \<inter> ROLE_CONCLUSION_KEYS \<noteq> {} then Inr []
           else rbind (if truthy (dget obj ''name'') then Inr (dget obj ''name'')
                       else function_field obj ''name'') (\<lambda>fn_name.
             if \<not> truthy fn_name then Inr []
             else rbind (call_arguments loads obj) (\<lambda>args.
               Inr [call_entry (PStr (''call_'' @ py_str fmt fn_name)) fn_name (plain_text ff args)])))
      | _ \<Rightarrow> Inr [])"

definition normalize_assistant_tool_calls ::
  "(pyval \<Rightarrow> string) \<Rightarrow> (rat \<Rightarrow> string) \<Rightarrow> (string \<Rightarrow> pyval option) \<Rightarrow> pydict \<Rightarrow> py_exn + pyval" where
  "normalize_assistant_tool_calls fmt ff loads msg =
     (if truthy (dget msg ''tool_calls'') then Inr (dget msg ''tool_calls'')
      else
        let function_call = as_dict (dget msg ''function_call'') in
        if truthy (dget function_call ''name'') then
          let arguments = py_or (dget function_call ''arguments'') (PStr ''{}'');
              name = dget function_call ''name''
          in Inr (PList [call_entry
               (PStr (py_str fmt (py_or (dget function_call ''id'') (PStr (''call_'' @ py_str fmt name))))) name
               (case arguments of PStr s \<Rightarrow> s | v \<Rightarrow> plain_text ff v)])
        else rbind (extract_tool_calls_from_content fmt ff loads (text_of (dget msg ''content''))) (\<lambda>cs. Inr (PList cs)))"

text \<open>The arguments of a call, or the text of the error the model is shown.\<close>

definition bad_json_text :: "(pyval \<Rightarrow> string) \<Rightarrow> (string \<Rightarrow> string) \<Rightarrow> string \<Rightarrow> pyval \<Rightarrow> string" where
  "bad_json_text fmt rp fn_name raw =
     ''tool `'' @ fn_name @ ''` arguments are not valid JSON: '' @ rp (take 120 (py_str fmt raw)) @
     ''. Re-issue the tool call with a valid JSON object of arguments.''"

definition parse_tool_arguments ::
  "(pyval \<Rightarrow> string) \<Rightarrow> (string \<Rightarrow> string) \<Rightarrow> (string \<Rightarrow> pyval option) \<Rightarrow> string \<Rightarrow> pyval \<Rightarrow> string + pydict" where
  "parse_tool_arguments fmt rp loads fn_name raw =
     (case raw of
        PNone \<Rightarrow> Inr []
      | PDict d \<Rightarrow> Inr d
      | PStr s \<Rightarrow>
          (if py_strip s = [] then Inr []
           else case loads s of
             None \<Rightarrow> Inl (bad_json_text fmt rp fn_name raw)
           | Some (PDict d) \<Rightarrow> Inr d
           | Some v \<Rightarrow> Inl (''tool `'' @ fn_name @ ''` arguments must be a JSON object, got '' @
                          py_type_name v @ ''.''))
      | _ \<Rightarrow> Inl (bad_json_text fmt rp fn_name raw))"

section \<open>Completion responses\<close>

definition valid_arguments :: "pyval \<Rightarrow> bool" where
  "valid_arguments v \<longleftrightarrow> v = PNone \<or> is_str v \<or> is_dict v"

definition valid_name :: "pyval \<Rightarrow> bool" where
  "valid_name v \<longleftrightarrow> is_str v \<and> v \<noteq> PStr ''''"

definition valid_tool_call :: "pyval \<Rightarrow> bool" where
  "valid_tool_call tool_call \<longleftrightarrow>
     is_dict tool_call \<and> is_str (dget (as_dict tool_call) ''id'') \<and>
     (case dget (as_dict tool_call) ''function'' of
        PDict f \<Rightarrow> valid_name (dget f ''name'') \<and> valid_arguments (dget f ''arguments'')
      | _ \<Rightarrow> False)"

definition valid_message :: "pydict \<Rightarrow> bool" where
  "valid_message message \<longleftrightarrow>
     (dget message ''content'' = PNone \<or> is_str (dget message ''content'')) \<and>
     (case dget message ''tool_calls'' of
        PNone \<Rightarrow> True | PList calls \<Rightarrow> list_all valid_tool_call calls | _ \<Rightarrow> False) \<and>
     (case dget message ''function_call'' of
        PNone \<Rightarrow> True
      | PDict f \<Rightarrow> valid_name (dget f ''name'') \<and> valid_arguments (dget f ''arguments'')
      | _ \<Rightarrow> False)"

definition explicit_completion_response_is_valid :: "pyval \<Rightarrow> bool" where
  "explicit_completion_response_is_valid response \<longleftrightarrow>
     is_dict response \<and> json_finite response \<and>
     (case dget (as_dict response) ''choices'' of
        PList (PDict choice # _) \<Rightarrow>
          (case dget choice ''message'' of PDict message \<Rightarrow> valid_message message | _ \<Rightarrow> False)
      | _ \<Rightarrow> False)"

section \<open>The record of a model turn\<close>

definition MODEL_TURN_TEXT_CAP :: nat where "MODEL_TURN_TEXT_CAP = 2000"

definition native_call :: "pyval \<Rightarrow> py_exn + pyval" where
  "native_call tc =
     rbind (need_dict tc) (\<lambda>t.
     rbind (need_dict (py_or (dget t ''function'') (PDict []))) (\<lambda>f.
       Inr (PDict [(''id'', dget t ''id''), (''name'', dget f ''name''), (''arguments'', dget f ''arguments'')])))"

definition model_turn_record ::
  "string \<Rightarrow> nat \<Rightarrow> pydict \<Rightarrow> pydict \<Rightarrow> nat \<Rightarrow> string list \<Rightarrow> pyval \<Rightarrow> bool \<Rightarrow> py_exn + pydict" where
  "model_turn_record role turn choice raw_msg parsed_count executed_names termination_reason conclusion_present =
     (let text = text_of (dget raw_msg ''content'') in
      rbind (py_iter (py_or (dget raw_msg ''tool_calls'') (PList []))) (\<lambda>tcs.
      rbind (map_result native_call tcs) (\<lambda>native_calls.
        Inr [(''role'', PStr role), (''turn'', PInt (int turn)), (''kind'', PStr ''model_turn''),
             (''assistant_text'', PStr (take MODEL_TURN_TEXT_CAP text)),
             (''assistant_text_truncated'', PBool (length text > MODEL_TURN_TEXT_CAP)),
             (''native_tool_calls'', PList native_calls),
             (''parsed_tool_calls'', PInt (int parsed_count)),
             (''finish_reason'', dget choice ''finish_reason''),
             (''executed_tool_calls'', PList (map PStr executed_names)),
             (''conclusion_present'', PBool conclusion_present),
             (''retry'', PDict [(''triggered'', PBool False), (''reason'', PNone)]),
             (''termination_reason'', termination_reason),
             (''validation_state'', PStr ''received''),
             (''execution_state'', PStr ''not_executed''),
             (''tool_outcomes'', PList [])])))"

section \<open>Records written without a model\<close>

definition remediation_plan_summary :: "(pyval \<Rightarrow> string) \<Rightarrow> pydict \<Rightarrow> pydict \<Rightarrow> string" where
  "remediation_plan_summary fmt triage diagnosis =
     py_str fmt (dget_or triage ''severity'' (PStr ''UNKNOWN'')) @ '' incident; root cause: '' @
     py_str fmt (dget_or diagnosis ''root_cause'' (PStr ''unspecified root cause'')) @ ''; proposal: '' @
     py_str fmt (dget_or diagnosis ''recommended_fix''
       (dget_or diagnosis ''next_action'' (PStr ''apply safe rollback/scale'')))"

definition RUNBOOK :: "string list" where
  "RUNBOOK =
     [''Validate blast radius with kubectl_get, promql_query, and jaeger_search.'',
      ''Review latest Argo CD history for affected app and identify safe rollback target.'',
      ''Apply remediation manually (rollback/scale) using change-management policy.'',
      ''Verify error rate and saturation return to baseline for at least 5 minutes.'',
      ''Document resolution and communicate timeline in comms update.'']"

definition manual_remediation_record :: "(pyval \<Rightarrow> string) \<Rightarrow> string \<Rightarrow> pydict \<Rightarrow> pydict \<Rightarrow> pydict" where
  "manual_remediation_record fmt incident_id triage diagnosis =
     [(''role'', PStr ''remediation''), (''trajectory'', PList []),
      (''final'', PDict
        [(''incident_id'', PStr incident_id), (''mode'', PStr ''manual''), (''status'', PStr ''skipped_execution''),
         (''summary'', PStr (remediation_plan_summary fmt triage diagnosis)),
         (''runbook'', PList (map PStr RUNBOOK))])]"

definition target_mismatch_remediation_record :: "string \<Rightarrow> pydict \<Rightarrow> pydict" where
  "target_mismatch_remediation_record incident_id target_consistency =
     [(''role'', PStr ''remediation''), (''trajectory'', PList []),
      (''final'', PDict
        [(''incident_id'', PStr incident_id), (''status'', PStr ''target_mismatch''),
         (''outcome'', PStr ''escalated''), (''proposed_actions'', PList []), (''executed_actions'', PList []),
         (''actions_taken'', PList []), (''target_consistency'', PDict target_consistency),
         (''summary'', PStr (''Remediation blocked because Triage contradicted the primary alert '' @
                            ''target without supporting observation evidence.''))])]"

definition live_judge_requested :: "string \<Rightarrow> string \<Rightarrow> bool" where
  "live_judge_requested live_judge use_hf_inference =
     (let flag = py_lower (py_strip live_judge) in
      if flag \<in> {''0'', ''false'', ''no'', ''off''} then False
      else if flag \<in> {''1'', ''true'', ''yes'', ''on''} then True
      else py_lower (py_strip use_hf_inference) \<in> {''1'', ''true'', ''yes''})"

section \<open>Identifiers and the stored record\<close>

definition validate_incident_id :: "pyval \<Rightarrow> py_exn + string" where
  "validate_incident_id v =
     (case v of
        PStr s \<Rightarrow>
          (if s = [] \<or> length s > 128 \<or> \<not> ascii_alnum (hd s) \<or> last s = CHR ''.'' \<or>
              list_ex (\<lambda>c. \<not> (ascii_alnum c \<or> c \<in> {CHR ''.'', CHR ''_'', CHR ''-''})) s \<or>
              py_upper (takeWhile (\<lambda>c. c \<noteq> CHR ''.'') s) \<in> set WINDOWS_RESERVED
           then Inl ValueError else Inr s)
      | _ \<Rightarrow> Inl ValueError)"

text \<open>
  \<open>uuid.UUID(hex=s).hex = s\<close>: 32 lowercase hexadecimal digits (other spellings that \<open>UUID\<close> accepts are
  normalised to a different text).
\<close>

definition validate_execution_id :: "pyval \<Rightarrow> py_exn + string" where
  "validate_execution_id v =
     (case v of
        PStr s \<Rightarrow> (if length s = 32 \<and> list_all (\<lambda>c. c \<in> set ''0123456789abcdef'') s
                   then Inr s else Inl ValueError)
      | _ \<Rightarrow> Inl TypeError)"

section \<open>The scan always stops\<close>

lemma scan_body_progress:
  assumes "scan_more content s"
  shows "(case sc_end (scan_body content s) of
            None \<Rightarrow> length content - sc_pos (scan_body content s) < length content - sc_pos s
          | Some j \<Rightarrow> True)"
  using assms by (auto simp: scan_more_def scan_body_def Let_def split: option.splits)

lemma scan_object_stops: "\<exists>r. scan_object content i = Some r"
proof -
  have "\<exists>t. while_option (scan_more content) (scan_body content) (scan_start i) = Some t"
  proof (rule measure_while_option_Some[where P = "\<lambda>_. True" and
          f = "\<lambda>s. case sc_end s of None \<Rightarrow> Suc (length content - sc_pos s) | Some _ \<Rightarrow> 0"])
    show "True \<and> (case sc_end (scan_body content s) of
            None \<Rightarrow> Suc (length content - sc_pos (scan_body content s)) | Some _ \<Rightarrow> 0)
          < (case sc_end s of None \<Rightarrow> Suc (length content - sc_pos s) | Some _ \<Rightarrow> 0)"
      if "True" and "scan_more content s" for s
      using scan_body_progress[OF that(2)] that(2) by (auto simp: scan_more_def split: option.splits)
  qed simp
  then show ?thesis by (auto simp: scan_object_def)
qed

text \<open>One round of the loop is one step of the recursion over the characters that are left.\<close>

definition scan_loop :: "string \<Rightarrow> scan \<Rightarrow> nat option option" where
  "scan_loop content s = map_option sc_end (while_option (scan_more content) (scan_body content) s)"

lemma scan_loop_step:
  "scan_loop content s =
     (if scan_more content s then scan_loop content (scan_body content s) else Some (sc_end s))"
  unfolding scan_loop_def by (subst while_option_unfold) simp

lemma scan_loop_ended: "sc_end s = Some j \<Longrightarrow> scan_loop content s = Some (Some j)"
  by (subst scan_loop_step) (simp add: scan_more_def)

lemma scan_from:
  "scan_loop content \<lparr>sc_pos = i, sc_depth = d, sc_in_string = q, sc_escape = e, sc_end = None\<rparr>
   = Some (close_brace d q e i (drop i content))"
proof (induction "length content - i" arbitrary: i d q e)
  case 0
  then show ?case by (subst scan_loop_step) (simp add: scan_more_def)
next
  case (Suc n)
  then have less: "i < length content" and rest: "drop i content = content ! i # drop (Suc i) content"
    by (auto simp: Cons_nth_drop_Suc)
  have IH: "scan_loop content
      \<lparr>sc_pos = Suc i, sc_depth = d', sc_in_string = q', sc_escape = e', sc_end = None\<rparr>
    = Some (close_brace d' q' e' (Suc i) (drop (Suc i) content))" for d' q' e'
    by (rule Suc.hyps(1)) (use Suc.hyps(2) in simp)
  show ?case
    by (subst scan_loop_step) (use less in \<open>simp add: rest scan_more_def scan_body_def Let_def IH scan_loop_ended\<close>)
qed

lemma scan_object_eq [code]: "scan_object content i = Some (close_brace 0 False False i (drop i content))"
  using scan_from[of content i 0 False False] by (simp add: scan_object_def scan_start_def scan_loop_def)

lemma close_brace_bounds:
  "close_brace d q e i s = Some j \<Longrightarrow> i \<le> j \<and> j < i + length s"
  by (induction d q e i s rule: close_brace.induct) (auto split: if_splits)

lemma close_brace_is_brace:
  "close_brace d q e i s = Some j \<Longrightarrow> s ! (j - i) = CHR ''}''"
proof (induction d q e i s rule: close_brace.induct)
  case (2 depth in_string escaped pos c s)
  have later: "(c # s) ! (j - pos) = s ! (j - (pos + 1))" if "pos + 1 \<le> j"
    using that by (simp add: nth_Cons' )
  show ?case
    using 2 by (auto split: if_splits dest: close_brace_bounds simp: later)
qed simp

section \<open>Lemmas\<close>

lemma object_at_single: "object_at loads content i = Inr ds \<Longrightarrow> ds = [] \<or> (\<exists>d. ds = [d])"
  by (auto simp: object_at_def split: if_splits option.splits pyval.splits)

lemma longest_props:
  "longest best ds \<in> insert best (set ds) \<and> (\<forall>d \<in> insert best (set ds). length d \<le> length (longest best ds))"
proof (induction ds arbitrary: best)
  case (Cons x xs)
  then show ?case
    using Cons[of x] Cons[of best] by (auto simp: not_less split: if_splits intro: le_trans less_imp_le)
qed simp

lemma map_result_Inr: "map_result f xs = Inr ys \<Longrightarrow> list_all2 (\<lambda>x y. f x = Inr y) xs ys"
  by (induction xs arbitrary: ys) (auto simp: rbind_def split: sum.splits)

lemma scan_always_ends:
  "\<exists>r. scan_object content i = Some r \<and>
     (case r of None \<Rightarrow> True | Some j \<Rightarrow> i \<le> j \<and> j < length content \<and> content ! j = CHR ''}'')"
proof (cases "close_brace 0 False False i (drop i content)")
  case None
  then show ?thesis by (simp add: scan_object_eq)
next
  case (Some j)
  have "i \<le> j" and "j < i + length (drop i content)" and "drop i content ! (j - i) = CHR ''}''"
    using close_brace_bounds[OF Some] close_brace_is_brace[OF Some] by auto
  with Some show ?thesis by (cases "i < length content") (auto simp: scan_object_eq)
qed

lemma parsed_objects:
  assumes "try_parse_json loads content = Inr d" and "content \<noteq> []"
  obtains objs where "list_all2 (\<lambda>i ds. object_at loads content i = Inr ds) [0..<length content] objs"
    and "d = (case concat objs of [] \<Rightarrow> [(''raw'', PStr (take 500 content))] | c # cs \<Rightarrow> longest c cs)"
proof -
  obtain objs where objs: "map_result (object_at loads content) [0..<length content] = Inr objs"
    using assms by (auto simp: try_parse_json_def rbind_def split: sum.splits)
  with assms have "d = (case concat objs of [] \<Rightarrow> [(''raw'', PStr (take 500 content))] | c # cs \<Rightarrow> longest c cs)"
    by (cases "concat objs") (simp_all add: try_parse_json_def rbind_def del: concat_eq_Nil_conv)
  with that map_result_Inr[OF objs] show ?thesis by blast
qed

lemma concat_objects:
  assumes "list_all2 (\<lambda>i ds. object_at loads content i = Inr ds) [0..<n] objs"
  shows "d \<in> set (concat objs) \<longleftrightarrow> (\<exists>i < n. object_at loads content i = Inr [d])"
proof -
  have len: "length objs = n" and at: "\<And>i. i < n \<Longrightarrow> object_at loads content i = Inr (objs ! i)"
    using assms by (auto simp: list_all2_conv_all_nth)
  show ?thesis
  proof
    assume "d \<in> set (concat objs)"
    then obtain ds where "ds \<in> set objs" and "d \<in> set ds" by auto
    then obtain i where "i < n" and "d \<in> set (objs ! i)" using len by (metis in_set_conv_nth)
    with at[of i] object_at_single[of loads content i "objs ! i"] show "\<exists>i < n. object_at loads content i = Inr [d]"
      by auto
  next
    assume "\<exists>i < n. object_at loads content i = Inr [d]"
    then obtain i where "i < n" and "objs ! i = [d]" using at by force
    then show "d \<in> set (concat objs)" using len by (force simp: in_set_conv_nth)
  qed
qed

lemma conclusion_longest:
  assumes "try_parse_json loads content = Inr d" and "content \<noteq> []"
  shows "(d = [(''raw'', PStr (take 500 content))] \<and> (\<forall>i < length content. object_at loads content i = Inr [])) \<or>
     ((\<exists>i < length content. object_at loads content i = Inr [d]) \<and>
      (\<forall>i < length content. \<forall>e. object_at loads content i = Inr [e] \<longrightarrow> length e \<le> length d))"
proof -
  obtain objs where objs: "list_all2 (\<lambda>i ds. object_at loads content i = Inr ds) [0..<length content] objs"
    and d: "d = (case concat objs of [] \<Rightarrow> [(''raw'', PStr (take 500 content))] | c # cs \<Rightarrow> longest c cs)"
    using assms by (rule parsed_objects)
  show ?thesis
  proof (cases "concat objs")
    case Nil
    moreover have "object_at loads content i = Inr []" if "i < length content" for i
      using objs that Nil by (auto simp: list_all2_conv_all_nth)
    ultimately show ?thesis unfolding d Nil by simp
  next
    case (Cons c cs)
    have "d \<in> set (concat objs)" and "\<forall>e \<in> set (concat objs). length e \<le> length d"
      using longest_props[of c cs] d Cons by auto
    then show ?thesis using concat_objects[OF objs] by metis
  qed
qed

lemma hex_digits: "c \<in> set ''0123456789abcdef'' \<longleftrightarrow> lower_hex c"
  by (cases c) (auto simp: lower_hex_def Let_def)

lemma validate_incident_id_eq:
  "validate_incident_id v = (if valid_incident_id v then Inr (text_of v) else Inl ValueError)"
  by (cases v) (auto simp: validate_incident_id_def valid_incident_id_def list_ex_iff list_all_iff)

lemma validate_execution_id_eq: "is_ok (validate_execution_id v) \<longleftrightarrow> valid_execution_id v"
  by (cases v) (auto simp: validate_execution_id_def valid_execution_id_def is_ok_def hex_digits
      simp del: list.set cong: list.pred_cong)

lemma extract_calls_raise:
  assumes "Option.bind (brace_span content) loads = Some (PDict obj)"
    and "set (map fst obj) \<inter> ROLE_CONCLUSION_KEYS = {}"
    and "\<not> truthy (dget obj ''name'')" and "\<not> is_dict (dget_or obj ''function'' (PDict []))"
  shows "extract_tool_calls_from_content fmt ff loads content = Inl AttributeError"
  using assms by (cases "dget_or obj ''function'' (PDict [])")
    (auto simp: extract_tool_calls_from_content_def function_field_def rbind_def)

section \<open>Properties\<close>

text \<open>
  The bracket scan that looks for a JSON object in a reply always stops, on any text and from any
  start; when it finds an end, that is a closing brace inside the text, not before the start.
\<close>

theorem bracket_scan_terminates:
  "\<exists>r. scan_object content i = Some r \<and>
     (case r of None \<Rightarrow> True | Some j \<Rightarrow> i \<le> j \<and> j < length content \<and> content ! j = CHR ''}'')"
  by (rule scan_always_ends)

text \<open>
  What is taken as an agent's conclusion is the object with the most keys among all objects that
  start anywhere in the reply and are not tool-call fragments, nested ones included; the raw text stands
  in only when there is none.
\<close>

theorem conclusion_is_the_longest_object:
  assumes "try_parse_json loads content = Inr d" and "content \<noteq> []"
  shows "(d = [(''raw'', PStr (take 500 content))] \<and> (\<forall>i < length content. object_at loads content i = Inr [])) \<or>
     ((\<exists>i < length content. object_at loads content i = Inr [d]) \<and>
      (\<forall>i < length content. \<forall>e. object_at loads content i = Inr [e] \<longrightarrow> length e \<le> length d))"
  using assms by (rule conclusion_longest)

text \<open>A nested object with more keys than the reply's outer one.\<close>

definition nested_reply :: string where
  "nested_reply = ''{x{}}''"

definition nested_loads :: "string \<Rightarrow> pyval option" where
  "nested_loads s =
     (if s = ''{x{}}'' then Some (PDict [(''outer'', PInt 1)])
      else if s = ''{}'' then Some (PDict [(''severity'', PNone), (''note'', PNone)]) else None)"

theorem conclusion_is_the_longest_object_witness:
  "(\<exists>i < length nested_reply. object_at nested_loads nested_reply i = Inr [[(''severity'', PNone), (''note'', PNone)]])"
proof -
  have parsed: "try_parse_json nested_loads nested_reply = Inr [(''severity'', PNone), (''note'', PNone)]"
    by code_simp
  have "nested_reply \<noteq> []" by (simp add: nested_reply_def)
  from conclusion_is_the_longest_object[OF parsed this] show ?thesis by auto
qed

text \<open>
  The coordinator's checks of incident and execution identifiers accept exactly the identifiers
  that the incident history accepts.
\<close>

theorem identifier_checks_agree:
  "validate_incident_id v = (if valid_incident_id v then Inr (text_of v) else Inl ValueError) \<and>
   is_ok (validate_execution_id v) = valid_execution_id v"
  by (simp add: validate_incident_id_eq validate_execution_id_eq)

text \<open>
  A reply whose JSON object has no name and a \<open>function\<close> field that is not an object makes the
  extraction raise \<open>AttributeError\<close>, which its handler does not catch.
\<close>

theorem malformed_function_field_raises:
  assumes "Option.bind (brace_span content) loads = Some (PDict obj)"
    and "set (map fst obj) \<inter> ROLE_CONCLUSION_KEYS = {}"
    and "\<not> truthy (dget obj ''name'')" and "\<not> is_dict (dget_or obj ''function'' (PDict []))"
  shows "extract_tool_calls_from_content fmt ff loads content = Inl AttributeError"
  using assms by (rule extract_calls_raise)

theorem malformed_function_field_raises_witness:
  "extract_tool_calls_from_content (\<lambda>_. '''') (\<lambda>_. '''')
     (\<lambda>_. Some (PDict [(''function'', PStr ''kubectl_get'')])) ''{}'' = Inl AttributeError"
  by (rule malformed_function_field_raises[where obj = "[(''function'', PStr ''kubectl_get'')]"])
    (simp_all add: brace_span_def ROLE_CONCLUSION_KEYS_def dget_def dget_or_def)

end
