(* ===== verification/StepReward.thy ===== *)
theory StepReward
  imports ToolPolicy
begin

text \<open>
  \<open>config/runtime.py\<close>, \<open>StepRewardTracker\<close>: the dense reward of each tool call of one agent run.  Floats
  are the rationals they denote.
\<close>

section \<open>The tracker\<close>

record tracker =
  tk_calls :: "(string \<times> pydict) list"
  tk_success :: nat
  tk_fail :: nat
  tk_rollbacks :: nat
  tk_progress :: rat
  tk_rewards :: "rat list"

definition new_tracker :: tracker where
  "new_tracker =
     \<lparr>tk_calls = [], tk_success = 0, tk_fail = 0, tk_rollbacks = 0, tk_progress = 0, tk_rewards = []\<rparr>"

definition INVESTIGATIVE :: "string set" where
  "INVESTIGATIVE =
     {''promql_query'', ''promql_query_range'', ''jaeger_search'', ''jaeger_get_trace'', ''kubectl_logs'',
      ''kubectl_describe'', ''alertmanager_list_alerts'', ''chaos_list_experiments'', ''gcloud_logs_read'',
      ''cloud_monitoring_query''}"

definition call_resource :: "pydict \<Rightarrow> pyval" where
  "call_resource args = py_or (dget args ''deployment'') (py_or (dget args ''app'') (dget args ''resource''))"

definition detect_rollback :: "(string \<times> pydict) list \<Rightarrow> string \<Rightarrow> pydict \<Rightarrow> bool" where
  "detect_rollback calls tool args \<longleftrightarrow>
     tool \<in> CLUSTER_MUTATING_TOOLS \<and>
     list_ex (\<lambda>(t, a). t = tool \<and> py_eq (call_resource a) (py_or (call_resource args) (PStr ''''))) calls"

text \<open>All recorded calls but the last one.\<close>

definition was_tried :: "(string \<times> pydict) list \<Rightarrow> string \<Rightarrow> pydict \<Rightarrow> bool" where
  "was_tried calls tool args \<longleftrightarrow>
     list_ex (\<lambda>(t, a). t = tool \<and> py_eq (PDict a) (PDict args)) (butlast calls)"

definition call_succeeded :: "pydict \<Rightarrow> bool" where
  "call_succeeded output \<longleftrightarrow> truthy (dget_or output ''success'' (PBool True)) \<and> \<not> dhas output ''error''"

definition base_reward :: "rat \<Rightarrow> bool \<Rightarrow> bool \<Rightarrow> bool \<Rightarrow> rat" where
  "base_reward delta success rollback idempotent_retry =
     (let r = delta * (4 / 5) + (if delta > 0 then 1 / 10 else 0) in
      (if success then r else r / 2) - (if rollback then 1 / 10 else 0)
        + (if idempotent_retry then 1 / 50 else 0))"

definition category_bonus :: "string \<Rightarrow> bool \<Rightarrow> bool \<Rightarrow> bool \<Rightarrow> rat" where
  "category_bonus tool success idempotent_retry tried =
     (if success \<and> tool \<in> INVESTIGATIVE then 1 / 20 else 0)
     + (if success \<and> tool \<in> CLUSTER_MUTATING_TOOLS then 2 / 25 else 0)
     - (if \<not> success \<and> tool \<in> CLUSTER_MUTATING_TOOLS then 2 / 25 else 0)
     - (if \<not> idempotent_retry \<and> tried then 1 / 20 else 0)"

definition record_call :: "string \<Rightarrow> pydict \<Rightarrow> pydict \<Rightarrow> tracker \<Rightarrow> rat \<times> tracker" where
  "record_call tool args output k =
     (let success = call_succeeded output;
          rollback = detect_rollback (tk_calls k) tool args;
          idempotent_retry = success \<and> was_tried (tk_calls k) tool args;
          calls = tk_calls k @ [(tool, args)];
          good = tk_success k + (if success then 1 else 0);
          bad = tk_fail k + (if success then 0 else 1);
          progress = max (of_nat good / of_nat (max (good + bad) 1)) (tk_progress k);
          r = base_reward (progress - tk_progress k) success rollback idempotent_retry
              + category_bonus tool success idempotent_retry (was_tried calls tool args);
          reward = max (- 1 / 2) (min (99 / 100) r)
      in (reward,
          \<lparr>tk_calls = calls, tk_success = good, tk_fail = bad,
           tk_rollbacks = tk_rollbacks k + (if rollback then 1 else 0), tk_progress = progress,
           tk_rewards = tk_rewards k @ [reward]\<rparr>))"

definition round4 :: "rat \<Rightarrow> rat" where
  "round4 x = of_int (round_half_even (x * 10000)) / 10000"

definition tracker_summary :: "tracker \<Rightarrow> pydict" where
  "tracker_summary k =
     [(''success_count'', PInt (int (tk_success k))), (''fail_count'', PInt (int (tk_fail k))),
      (''rollback_count'', PInt (int (tk_rollbacks k))),
      (''partial_progress'', PFloat (FFin (round4 (tk_progress k)))),
      (''dense_reward_total'', PFloat (FFin (round4 (sum_list (tk_rewards k))))),
      (''step_rewards'', PList (map (\<lambda>r. PFloat (FFin (round4 r))) (tk_rewards k)))]"

section \<open>Bounds\<close>

definition tracker_inv :: "tracker \<Rightarrow> bool" where
  "tracker_inv k \<longleftrightarrow>
     0 \<le> tk_progress k \<and> tk_progress k \<le> 1 \<and> length (tk_calls k) = tk_success k + tk_fail k \<and>
     length (tk_rewards k) = length (tk_calls k) \<and>
     (\<forall>r \<in> set (tk_rewards k). - 1 / 2 \<le> r \<and> r \<le> 99 / 100)"

lemma new_tracker_inv: "tracker_inv new_tracker"
  by (simp add: tracker_inv_def new_tracker_def)

lemma record_call_inv:
  assumes "tracker_inv k"
  shows "tracker_inv (snd (record_call tool args output k))"
proof -
  have share: "of_nat good / of_nat (max (good + bad) 1) \<le> (1 :: rat)" for good bad :: nat
  proof -
    have "of_nat good \<le> (of_nat (max (good + bad) 1) :: rat)" by (subst of_nat_le_iff) simp
    moreover have "0 < (of_nat (max (good + bad) 1) :: rat)" by (subst of_nat_0_less_iff) simp
    ultimately show ?thesis by (simp only: divide_le_eq_1_pos)
  qed
  have clamp: "- 1 / 2 \<le> max (- 1 / 2) (min (99 / 100) r)" "max (- 1 / 2) (min (99 / 100) r) \<le> 99 / 100" for r :: rat
    by auto
  show ?thesis
    using assms share clamp unfolding tracker_inv_def record_call_def Let_def snd_conv tracker.simps
    by (intro conjI) (auto simp only: max.bounded_iff le_max_iff_disj set_append Un_iff length_append
        list.set insert_iff empty_iff if_True if_False list.size split: if_splits)
qed

lemma progress_grows: "tk_progress k \<le> tk_progress (snd (record_call tool args output k))"
  by (simp add: record_call_def Let_def)

definition record_calls :: "(string \<times> pydict \<times> pydict) list \<Rightarrow> tracker \<Rightarrow> tracker" where
  "record_calls calls k = foldl (\<lambda>k (tool, args, output). snd (record_call tool args output k)) k calls"

lemma record_calls_inv: "tracker_inv k \<Longrightarrow> tracker_inv (record_calls calls k)"
  unfolding record_calls_def by (induction calls arbitrary: k) (auto simp: record_call_inv)

lemma record_calls_length: "length (tk_calls (record_calls calls k)) = length calls + length (tk_calls k)"
  unfolding record_calls_def by (induction calls arbitrary: k) (auto simp: record_call_def Let_def)

section \<open>Properties\<close>

text \<open>
  After any sequence of recorded calls the tracker holds one reward per call, each between -0.5 and
  0.99, every call is counted once as a success or a failure, and progress lies between 0 and 1.
\<close>

theorem step_rewards_bounded:
  "let k = record_calls calls new_tracker in
     length (tk_rewards k) = length calls \<and> tk_success k + tk_fail k = length calls \<and>
     0 \<le> tk_progress k \<and> tk_progress k \<le> 1 \<and>
     list_all (\<lambda>r. - 1 / 2 \<le> r \<and> r \<le> 99 / 100) (tk_rewards k)"
  using record_calls_inv[OF new_tracker_inv, of calls] record_calls_length[of calls new_tracker]
  by (auto simp: Let_def tracker_inv_def new_tracker_def list_all_iff)

end
