(* ===== verification/ModelContext.thy ===== *)
theory ModelContext
  imports ToolPolicy Evidence Json
begin

text \<open>
  \<open>agents/coordinator.py\<close>, what a model may see of an incident and what the coordinator derives from
  it: removal of evaluation-only fields, the anchors taken from the alert, the tool observations
  handed from one agent to the next, and the check of a reported target against the anchors.  Keys of
  dictionaries are text (the values come from JSON documents).  \<open>fmt\<close> and \<open>ff\<close> are the text of
  containers and floats.
\<close>

section \<open>Evaluation-only fields\<close>

definition MODEL_FORBIDDEN_KEYS :: "string set" where
  "MODEL_FORBIDDEN_KEYS =
     {''benchmark'', ''benchmark_labels'', ''benchmark_truth'', ''expected_checks'',
      ''expected_predicates'', ''expected_remediation'', ''expected_root_cause'', ''ground_truth'',
      ''known_good_runbook'', ''scenario'', ''scenario_id'', ''scenario_name'', ''split'', ''tier'',
      ''verifier_predicates''}"

definition normalise_context_key :: "string \<Rightarrow> string" where
  "normalise_context_key key = py_lower (py_strip key)"

function strip_model_forbidden_context :: "pyval \<Rightarrow> pyval" where
  "strip_model_forbidden_context (PDict d) =
     PDict (map (\<lambda>p. (fst p, strip_model_forbidden_context (snd p)))
       (filter (\<lambda>p. normalise_context_key (fst p) \<notin> MODEL_FORBIDDEN_KEYS) d))"
| "strip_model_forbidden_context (PList xs) = PList (map strip_model_forbidden_context xs)"
| "strip_model_forbidden_context PNone = PNone"
| "strip_model_forbidden_context (PBool b) = PBool b"
| "strip_model_forbidden_context (PInt i) = PInt i"
| "strip_model_forbidden_context (PFloat x) = PFloat x"
| "strip_model_forbidden_context (PStr s) = PStr s"
  by pat_completeness auto

termination strip_model_forbidden_context
  by (relation "measure size") (auto simp: size_snd_pydict size_elem_pylist)

definition model_safe_tool_output :: "(string \<Rightarrow> string) \<Rightarrow> pyval \<Rightarrow> pydict" where
  "model_safe_tool_output scrub output =
     (case redact_persisted_evidence scrub (strip_model_forbidden_context output) of
        PDict safe \<Rightarrow> safe
      | safe \<Rightarrow> [(''value'', safe)])"

definition model_visible_alert :: "pydict option \<Rightarrow> pydict" where
  "model_visible_alert alert =
     as_dict (strip_model_forbidden_context (PDict (case alert of None \<Rightarrow> [] | Some a \<Rightarrow> a)))"

section \<open>Anchors\<close>

text \<open>The first of the keys, in the first of the sources, whose value is not blank.\<close>

fun first_value :: "(pyval \<Rightarrow> string) \<Rightarrow> pydict list \<Rightarrow> string list \<Rightarrow> string" where
  "first_value fmt [] keys = ''''"
| "first_value fmt (source # sources) keys =
     (case find (\<lambda>k. dget source k \<noteq> PNone \<and> py_strip (py_str fmt (dget source k)) \<noteq> []) keys of
        Some k \<Rightarrow> py_strip (py_str fmt (dget source k))
      | None \<Rightarrow> first_value fmt sources keys)"

text \<open>\<open>{**a, **b}\<close>.\<close>

definition dict_merge :: "pydict \<Rightarrow> pydict \<Rightarrow> pydict" where
  "dict_merge a b = fold (\<lambda>(k, v) d. AList.update k v d) b a"

definition build_incident_anchors :: "(pyval \<Rightarrow> string) \<Rightarrow> pydict option \<Rightarrow> int \<Rightarrow> pydict" where
  "build_incident_anchors fmt alert index =
     (let model_alert = model_visible_alert alert;
          common_labels = as_dict (dget model_alert ''commonLabels'');
          alert_items = as_list (dget model_alert ''alerts'');
          first = (if 0 \<le> index \<and> index < int (length alert_items)
                   then as_dict (alert_items ! nat index) else []);
          labels = as_dict (dget first ''labels'');
          annotations = as_dict (dget first ''annotations'');
          namespace = first_value fmt [common_labels, labels] [''namespace'']
      in [(''alert_name'', PStr (first_value fmt [common_labels, labels] [''alertname'', ''alert_name''])),
          (''primary_service'', PStr (first_value fmt [common_labels, labels]
             [''service'', ''deployment'', ''app'', ''workload''])),
          (''namespace'', PStr (if namespace = [] then ''default'' else namespace)),
          (''labels'', PDict (dict_merge labels common_labels)),
          (''original_description'',
             PStr (py_str fmt (py_or (py_or (py_or (dget annotations ''description'')
               (dget annotations ''summary'')) (dget model_alert ''description'')) (PStr ''''))))])"

section \<open>Observations\<close>

definition observation_of :: "pydict \<Rightarrow> pydict" where
  "observation_of entry =
     [(''tool'', dget entry ''tool''), (''args'', dget_or entry ''args'' (PDict [])),
      (''output'', strip_model_forbidden_context (dget entry ''output''))] @
     (if truthy (dget entry ''blocked_by_policy'') then [(''blocked_by_policy'', PBool True)] else []) @
     (if truthy (dget entry ''blocked_by_terminal_error'')
      then [(''blocked_by_terminal_error'', PBool True)] else [])"

definition is_tool_entry :: "pyval \<Rightarrow> bool" where
  "is_tool_entry entry \<longleftrightarrow>
     (case entry of PDict d \<Rightarrow> truthy (dget d ''tool'') \<and> dhas d ''output'' | _ \<Rightarrow> False)"

definition extract_tool_observations :: "pydict option \<Rightarrow> py_exn + pydict list" where
  "extract_tool_observations agent_result =
     (let result = (case agent_result of None \<Rightarrow> [] | Some r \<Rightarrow> r) in
      rbind (py_iter (py_or (dget_or result ''trajectory'' (PList [])) (PList []))) (\<lambda>entries.
        Inr (map (observation_of \<circ> as_dict) (filter is_tool_entry entries))))"

section \<open>Target consistency\<close>

definition nonblank_texts :: "(pyval \<Rightarrow> string) \<Rightarrow> pyval \<Rightarrow> py_exn + string list" where
  "nonblank_texts fmt v =
     rbind (py_iter (py_or v (PList []))) (\<lambda>xs.
       Inr (filter (\<lambda>s. s \<noteq> []) (map (\<lambda>x. py_strip (py_str fmt x)) xs)))"

definition reported_targets :: "(pyval \<Rightarrow> string) \<Rightarrow> pydict \<Rightarrow> py_exn + string list" where
  "reported_targets fmt triage =
     rbind (nonblank_texts fmt (dget triage ''affected_services'')) (\<lambda>affected.
     rbind (nonblank_texts fmt (dget (as_dict (dget triage ''blast_radius'')) ''services'')) (\<lambda>blast.
       Inr (first_occurrences (affected @ blast))))"

definition output_supports :: "(rat \<Rightarrow> string) \<Rightarrow> string list \<Rightarrow> pydict \<Rightarrow> bool" where
  "output_supports ff reported observation \<longleftrightarrow>
     list_ex (\<lambda>target. contains (py_lower (plain_text ff (dget observation ''output''))) (py_lower target))
       reported"

definition validate_target_consistency ::
  "(rat \<Rightarrow> string) \<Rightarrow> (pyval \<Rightarrow> string) \<Rightarrow> pydict \<Rightarrow> pydict option \<Rightarrow> pydict list \<Rightarrow> py_exn + pydict" where
  "validate_target_consistency ff fmt anchors triage_final observations =
     (let primary = py_strip (py_str fmt (py_or (dget anchors ''primary_service'') (PStr ''''))) in
      rbind (reported_targets fmt (case triage_final of None \<Rightarrow> [] | Some t \<Rightarrow> t)) (\<lambda>reported.
        let base = [(''primary_target'', if primary = [] then PNone else PStr primary),
                    (''reported_targets'', PList (map PStr reported)),
                    (''namespace'', dget anchors ''namespace''),
                    (''requires_review'', PBool False)]
        in if primary = [] then Inr (dict_merge base [(''status'', PStr ''no_explicit_primary_target'')])
           else if reported = [] \<or> py_lower primary \<in> py_lower ` set reported
           then Inr (dict_merge base [(''status'', PStr ''primary_target_preserved'')])
           else
             let support = list_ex (output_supports ff reported) observations
             in Inr (dict_merge base
                  [(''status'', PStr (if support then ''mismatch_observed'' else ''mismatch_unsubstantiated'')),
                   (''observed_support'', PBool support), (''requires_review'', PBool (\<not> support))])))"

section \<open>What the model cannot see\<close>

text \<open>No dictionary at any depth has an evaluation-only key, however it is spelled.\<close>

fun no_forbidden_keys :: "pyval \<Rightarrow> bool" where
  "no_forbidden_keys (PDict d) =
     list_all (\<lambda>p. normalise_context_key (fst p) \<notin> MODEL_FORBIDDEN_KEYS \<and> no_forbidden_keys (snd p)) d"
| "no_forbidden_keys (PList xs) = list_all no_forbidden_keys xs"
| "no_forbidden_keys _ = True"

lemma strip_no_forbidden: "no_forbidden_keys (strip_model_forbidden_context v)"
  by (induction v rule: strip_model_forbidden_context.induct) (auto simp: list_all_iff)

lemma strip_keeps_clean: "no_forbidden_keys v \<Longrightarrow> strip_model_forbidden_context v = v"
proof (induction v rule: strip_model_forbidden_context.induct)
  case (1 d)
  then have "filter (\<lambda>p. normalise_context_key (fst p) \<notin> MODEL_FORBIDDEN_KEYS) d = d"
    by (auto simp: list_all_iff filter_id_conv)
  moreover from 1 have "map (\<lambda>p. (fst p, strip_model_forbidden_context (snd p))) d = d"
    by (intro map_idI) (auto simp: list_all_iff filter_id_conv)
  ultimately show ?case by simp
next
  case (2 xs)
  then show ?case by (auto simp: list_all_iff intro: map_idI)
qed simp_all

lemma redact_keeps_clean: "no_forbidden_keys v \<Longrightarrow> no_forbidden_keys (redact_persisted_evidence scrub v)"
  by (induction scrub v rule: redact_persisted_evidence.induct) (auto simp: list_all_iff)

lemma clean_entries: "no_forbidden_keys (PDict d) \<Longrightarrow> no_forbidden_keys (dget d k)"
  by (induction d) auto

lemma no_forbidden_as_dict: "no_forbidden_keys v \<Longrightarrow> no_forbidden_keys (PDict (as_dict v))"
  by (cases v) auto

lemma no_forbidden_as_list: "no_forbidden_keys v \<Longrightarrow> x \<in> set (as_list v) \<Longrightarrow> no_forbidden_keys x"
  by (cases v) (auto simp: list_all_iff)

lemma dict_merge_clean:
  "no_forbidden_keys (PDict a) \<Longrightarrow> no_forbidden_keys (PDict b) \<Longrightarrow> no_forbidden_keys (PDict (dict_merge a b))"
proof (induction b arbitrary: a)
  case Nil
  then show ?case by (simp add: dict_merge_def)
next
  case (Cons p b)
  obtain k v where p: "p = (k, v)" by (cases p)
  have "no_forbidden_keys (PDict (AList.update k v a))"
    using Cons.prems by (induction a) (auto simp: p)
  with Cons show ?case by (simp add: p dict_merge_def)
qed

lemma clean_labels:
  "no_forbidden_keys (PDict (as_dict (dget (as_dict (as_list (dget (model_visible_alert alert) ''alerts'') ! n)) k)))"
  if "n < length (as_list (dget (model_visible_alert alert) ''alerts''))"
proof -
  have "no_forbidden_keys (PDict (model_visible_alert alert))"
    unfolding model_visible_alert_def by (rule no_forbidden_as_dict, rule strip_no_forbidden)
  then have "no_forbidden_keys (dget (model_visible_alert alert) ''alerts'')" by (rule clean_entries)
  from no_forbidden_as_list [OF this nth_mem [OF that]] show ?thesis
    by (intro no_forbidden_as_dict clean_entries)
qed

section \<open>Properties\<close>

text \<open>
  Nothing that only the evaluation may know reaches a model: the visible alert, every tool output,
  the labels among the anchors and the outputs handed on as observations have no evaluation-only key at
  any depth, in whatever case or padding it is written; values without such keys are handed on unchanged.
\<close>

theorem model_never_sees_evaluation_fields:
  "no_forbidden_keys (PDict (model_visible_alert alert)) \<and>
   no_forbidden_keys (PDict (model_safe_tool_output scrub output)) \<and>
   no_forbidden_keys (dget (build_incident_anchors fmt alert index) ''labels'') \<and>
   no_forbidden_keys (dget (observation_of entry) ''output'') \<and>
   (no_forbidden_keys v \<longrightarrow> strip_model_forbidden_context v = v)"
proof (intro conjI impI)
  show alert: "no_forbidden_keys (PDict (model_visible_alert alert))"
    unfolding model_visible_alert_def by (rule no_forbidden_as_dict, rule strip_no_forbidden)
  have out: "no_forbidden_keys (redact_persisted_evidence scrub (strip_model_forbidden_context output))"
    by (rule redact_keeps_clean, rule strip_no_forbidden)
  have plain: "normalise_context_key ''value'' \<notin> MODEL_FORBIDDEN_KEYS"
    by (simp add: normalise_context_key_def py_strip_def py_space_def py_lower_def lower_char_def
        MODEL_FORBIDDEN_KEYS_def)
  show "no_forbidden_keys (PDict (model_safe_tool_output scrub output))"
    using out plain by (auto simp: model_safe_tool_output_def split: pyval.split)
  have common: "no_forbidden_keys (PDict (as_dict (dget (model_visible_alert alert) ''commonLabels'')))"
    using alert by (intro no_forbidden_as_dict clean_entries)
  have "no_forbidden_keys (PDict (as_dict (dget (if 0 \<le> index \<and>
      index < int (length (as_list (dget (model_visible_alert alert) ''alerts'')))
      then as_dict (as_list (dget (model_visible_alert alert) ''alerts'') ! nat index) else []) ''labels'')))"
    using clean_labels [of "nat index" alert "''labels''"] by auto
  from dict_merge_clean [OF this common]
  show "no_forbidden_keys (dget (build_incident_anchors fmt alert index) ''labels'')"
    by (simp add: build_incident_anchors_def Let_def)
  show "no_forbidden_keys (dget (observation_of entry) ''output'')"
    by (simp add: observation_of_def strip_no_forbidden)
  show "strip_model_forbidden_context v = v" if "no_forbidden_keys v"
    using that by (rule strip_keeps_clean)
qed

theorem model_never_sees_evaluation_fields_witness:
  "strip_model_forbidden_context (PDict [(''status'', PStr ''firing'')]) = PDict [(''status'', PStr ''firing'')]"
proof -
  have "no_forbidden_keys (PDict [(''status'', PStr ''firing'')])" by code_simp
  with model_never_sees_evaluation_fields [of None "\<lambda>s. s" PNone "\<lambda>_. ''''" 0 "[]"
      "PDict [(''status'', PStr ''firing'')]"]
  show ?thesis by blast
qed

text \<open>
  The target check sends a remediation to review exactly when the alert names a primary target,
  the triage names other targets only, and no observation mentions any of them.
\<close>

theorem review_iff_unsubstantiated_mismatch:
  assumes "validate_target_consistency ff fmt anchors triage_final observations = Inr result"
    and "primary = py_strip (py_str fmt (py_or (dget anchors ''primary_service'') (PStr '''')))"
    and "reported_targets fmt (case triage_final of None \<Rightarrow> [] | Some t \<Rightarrow> t) = Inr reported"
  shows "truthy (dget result ''requires_review'') \<longleftrightarrow>
    primary \<noteq> [] \<and> reported \<noteq> [] \<and> (\<forall>target \<in> set reported. py_lower target \<noteq> py_lower primary) \<and>
    (\<forall>observation \<in> set observations. \<forall>target \<in> set reported.
       \<not> contains (py_lower (plain_text ff (dget observation ''output''))) (py_lower target))"
proof -
  have support: "list_ex (output_supports ff reported) observations \<longleftrightarrow>
      \<not> (\<forall>observation \<in> set observations. \<forall>target \<in> set reported.
       \<not> contains (py_lower (plain_text ff (dget observation ''output''))) (py_lower target))"
    by (auto simp: list_ex_iff output_supports_def)
  have same: "py_lower primary \<in> py_lower ` set reported \<longleftrightarrow>
      \<not> (\<forall>target \<in> set reported. py_lower target \<noteq> py_lower primary)"
    by (auto simp: image_iff) metis
  show ?thesis
    using assms(1) unfolding validate_target_consistency_def Let_def assms(2) [symmetric] assms(3)
    by (simp add: dict_merge_def same support split: if_splits; auto)
qed

theorem review_iff_unsubstantiated_mismatch_witness:
  "\<exists>result. validate_target_consistency (\<lambda>_. '''') (\<lambda>_. '''') [(''primary_service'', PStr ''cart'')]
      (Some [(''affected_services'', PList [PStr ''ad''])]) [] = Inr result \<and>
    truthy (dget result ''requires_review'')"
proof -
  have "reported_targets (\<lambda>_. '''') [(''affected_services'', PList [PStr ''ad''])] = Inr [''ad'']"
    by code_simp
  moreover have "\<exists>result. validate_target_consistency (\<lambda>_. '''') (\<lambda>_. '''') [(''primary_service'', PStr ''cart'')]
      (Some [(''affected_services'', PList [PStr ''ad''])]) [] = Inr result"
    using calculation by (simp add: validate_target_consistency_def Let_def)
  moreover have "py_lower ''ad'' \<noteq> py_lower ''cart''" "py_strip ''cart'' = ''cart''" by code_simp+
  ultimately show ?thesis
    using review_iff_unsubstantiated_mismatch [of "\<lambda>_. ''''" "\<lambda>_. ''''" "[(''primary_service'', PStr ''cart'')]"
        "Some [(''affected_services'', PList [PStr ''ad''])]" "[]" _ "''cart''" "[''ad'']"]
    by (auto simp: py_or_def)
qed

end
