(* ===== verification/Preconditions.thy ===== *)
theory Preconditions
  imports ModelContext
begin

text \<open>
  \<open>agents/coordinator.py\<close>, the evidence a remediation needs before it acts: rollbacks need observed
  deployment history, a chaos experiment is stopped only when it was observed.  An attribute access on
  a value that is not a dictionary, and an iteration over one that cannot be iterated, leave the check
  with an exception.
\<close>

section \<open>Observed chaos experiments\<close>

definition chaos_key :: "(pyval \<Rightarrow> string) \<Rightarrow> pydict \<Rightarrow> string \<times> string \<times> string" where
  "chaos_key fmt item =
     (py_str fmt (py_or (dget item ''kind'') (PStr '''')), py_str fmt (py_or (dget item ''name'') (PStr '''')),
      py_str fmt (py_or (dget item ''namespace'') (PStr '''')))"

text \<open>The chaos listings among the observations: their status and their experiments.\<close>

fun chaos_listings :: "(pyval \<Rightarrow> string) \<Rightarrow> pydict list \<Rightarrow> py_exn + (string \<times> pydict list) list" where
  "chaos_listings fmt [] = Inr []"
| "chaos_listings fmt (obs # rest) =
     (if dget obs ''tool'' \<noteq> PStr ''chaos_list_experiments'' then chaos_listings fmt rest
      else case py_or (dget obs ''output'') (PDict []) of
        PDict output \<Rightarrow>
          rbind (py_iter (py_or (dget output ''active_experiments'') (PList []))) (\<lambda>items.
          rbind (chaos_listings fmt rest) (\<lambda>more.
            Inr ((py_str fmt (py_or (dget output ''observation_status'') (PStr ''unknown'')),
                  map as_dict (filter is_dict items)) # more)))
      | _ \<Rightarrow> chaos_listings fmt rest)"

text \<open>The loop that keeps the first experiment of each key.\<close>

fun dedupe_by :: "('a \<Rightarrow> 'k) \<Rightarrow> 'k set \<Rightarrow> 'a list \<Rightarrow> 'a list" where
  "dedupe_by key seen [] = []"
| "dedupe_by key seen (x # xs) =
     (if key x \<in> seen then dedupe_by key seen xs else x # dedupe_by key (insert (key x) seen) xs)"

definition listing_ok :: "string \<Rightarrow> bool" where
  "listing_ok status \<longleftrightarrow> status \<in> {''observed'', ''observed_empty''}"

definition chaos_status :: "(string \<times> pydict list) list \<Rightarrow> string" where
  "chaos_status listings =
     (let statuses = map fst listings; active = concat (map snd listings) in
      if statuses \<noteq> [] \<and> list_ex (\<lambda>s. \<not> listing_ok s) statuses then ''unavailable''
      else if active \<noteq> [] then ''observed''
      else if statuses \<noteq> [] \<and> list_all listing_ok statuses then ''observed_empty''
      else ''not_observed'')"

definition chaos_observation :: "(pyval \<Rightarrow> string) \<Rightarrow> pydict list \<Rightarrow> py_exn + pydict" where
  "chaos_observation fmt observations =
     rbind (chaos_listings fmt observations) (\<lambda>listings.
       let deduped = dedupe_by (chaos_key fmt) {} (concat (map snd listings))
       in Inr [(''observation_status'', PStr (chaos_status listings)),
               (''active_experiments'', PList (map PDict deduped)),
               (''count'', PInt (int (length deduped)))])"

section \<open>Runtime evidence\<close>

definition all_runtime_observations :: "pydict \<Rightarrow> pydict list" where
  "all_runtime_observations user_input =
     concat (map (\<lambda>key. map as_dict (filter is_dict (as_list (dget user_input key))))
       [''triage_observations'', ''diagnosis_observations'', ''environment_observations'', ''observations'']) @
     (case dget user_input ''environment_observation'' of
        PDict d \<Rightarrow> [[(''tool'', PStr ''chaos_list_experiments''), (''args'', PDict []), (''output'', PDict d)]]
      | _ \<Rightarrow> [])"

text \<open>\<open>str(d.get(k) or "").strip()\<close>.\<close>

definition text_field :: "(pyval \<Rightarrow> string) \<Rightarrow> pydict \<Rightarrow> string \<Rightarrow> string" where
  "text_field fmt d k = py_strip (py_str fmt (py_or (dget d k) (PStr '''')))"

text \<open>A \<open>kubectl_rollout\<close> observation that shows a history.\<close>

definition rollout_history_shown :: "(pyval \<Rightarrow> string) \<Rightarrow> string \<Rightarrow> pydict \<Rightarrow> py_exn + bool" where
  "rollout_history_shown fmt app obs =
     rbind (need_dict (py_or (dget obs ''args'') (PDict []))) (\<lambda>args.
       Inr (py_lower (text_field fmt args ''action'') = ''history'' \<and>
            after_first CHR ''/'' (text_field fmt args ''resource'') = app \<and>
            (case py_or (dget obs ''output'') (PDict []) of
               PDict output \<Rightarrow> dget output ''success'' = PBool True \<and> text_field fmt output ''stdout'' \<noteq> []
             | _ \<Rightarrow> False)))"

definition history_entry :: "pyval \<Rightarrow> bool" where
  "history_entry item \<longleftrightarrow>
     (case item of PDict d \<Rightarrow> dget d ''id'' \<noteq> PNone \<or> truthy (dget d ''revision'') | _ \<Rightarrow> False)"

text \<open>An \<open>argocd_app_history\<close> observation of the application with at least one entry.\<close>

definition argo_history_shown :: "(pyval \<Rightarrow> string) \<Rightarrow> string \<Rightarrow> pydict \<Rightarrow> py_exn + bool" where
  "argo_history_shown fmt app obs =
     (case py_or (dget obs ''output'') (PDict []) of
        PDict output \<Rightarrow>
          rbind (need_dict (py_or (dget obs ''args'') (PDict []))) (\<lambda>args.
            Inr (text_field fmt args ''app'' = app \<and> dget output ''success'' = PBool True \<and>
                 (case dget output ''history'' of PList items \<Rightarrow> list_ex history_entry items | _ \<Rightarrow> False)))
      | _ \<Rightarrow> Inr False)"

fun positive_evidence_loop :: "(pyval \<Rightarrow> string) \<Rightarrow> string \<Rightarrow> pydict list \<Rightarrow> py_exn + bool" where
  "positive_evidence_loop fmt app [] = Inr False"
| "positive_evidence_loop fmt app (obs # rest) =
     (if dget obs ''tool'' = PStr ''kubectl_rollout''
      then rbind (rollout_history_shown fmt app obs)
             (\<lambda>shown. if shown then Inr True else positive_evidence_loop fmt app rest)
      else if dget obs ''tool'' \<noteq> PStr ''argocd_app_history'' then positive_evidence_loop fmt app rest
      else rbind (argo_history_shown fmt app obs)
             (\<lambda>shown. if shown then Inr True else positive_evidence_loop fmt app rest))"

definition positive_deployment_evidence :: "(pyval \<Rightarrow> string) \<Rightarrow> pydict \<Rightarrow> string \<Rightarrow> py_exn + bool" where
  "positive_deployment_evidence fmt user_input app =
     positive_evidence_loop fmt app (all_runtime_observations user_input)"

definition observed_key :: "(pyval \<Rightarrow> string) \<Rightarrow> pydict \<Rightarrow> string \<times> string \<times> string" where
  "observed_key fmt item =
     (py_lower (py_str fmt (py_or (dget item ''kind'') (PStr ''''))),
      py_str fmt (py_or (dget item ''name'') (PStr '''')),
      py_lower (py_str fmt (py_or (dget item ''namespace'') (PStr ''''))))"

definition expected_key :: "(pyval \<Rightarrow> string) \<Rightarrow> pydict \<Rightarrow> string \<times> string \<times> string" where
  "expected_key fmt args =
     (py_lower (py_str fmt (py_or (dget args ''kind'') (PStr ''''))),
      py_str fmt (py_or (dget args ''name'') (PStr '''')),
      py_lower (py_str fmt (py_or (dget args ''namespace'') (PStr ''chaos-mesh''))))"

fun observed_chaos_loop ::
  "(pyval \<Rightarrow> string) \<Rightarrow> string \<times> string \<times> string \<Rightarrow> pydict list \<Rightarrow> py_exn + bool" where
  "observed_chaos_loop fmt expected [] = Inr False"
| "observed_chaos_loop fmt expected (obs # rest) =
     (if dget obs ''tool'' \<noteq> PStr ''chaos_list_experiments'' then observed_chaos_loop fmt expected rest
      else
        rbind (need_dict (py_or (dget obs ''output'') (PDict []))) (\<lambda>output.
        rbind (py_iter (py_or (dget output ''active_experiments'') (PList []))) (\<lambda>items.
          if list_ex (\<lambda>item. is_dict item \<and> observed_key fmt (as_dict item) = expected) items
          then Inr True else observed_chaos_loop fmt expected rest)))"

definition observed_chaos_resource :: "(pyval \<Rightarrow> string) \<Rightarrow> pydict \<Rightarrow> pydict \<Rightarrow> py_exn + bool" where
  "observed_chaos_resource fmt user_input args =
     observed_chaos_loop fmt (expected_key fmt args) (all_runtime_observations user_input)"

section \<open>The check\<close>

text \<open>The ids and revisions of one history, as text.\<close>

definition item_revisions :: "(pyval \<Rightarrow> string) \<Rightarrow> pyval \<Rightarrow> string list" where
  "item_revisions fmt item =
     (case item of
        PDict d \<Rightarrow> map (py_str fmt) (filter (\<lambda>v. v \<noteq> PNone) [dget d ''id'', dget d ''revision''])
      | _ \<Rightarrow> [])"

fun known_revisions :: "(pyval \<Rightarrow> string) \<Rightarrow> string \<Rightarrow> pydict list \<Rightarrow> py_exn + string list" where
  "known_revisions fmt app [] = Inr []"
| "known_revisions fmt app (obs # rest) =
     (if dget obs ''tool'' \<noteq> PStr ''argocd_app_history'' then known_revisions fmt app rest
      else
        rbind (need_dict (py_or (dget obs ''args'') (PDict []))) (\<lambda>args.
          if text_field fmt args ''app'' \<noteq> app then known_revisions fmt app rest
          else rbind (known_revisions fmt app rest) (\<lambda>more.
            Inr (concat (map (item_revisions fmt)
                  (as_list (dget (as_dict (dget obs ''output'')) ''history''))) @ more))))"

datatype precondition_error = NoDeploymentHistory string | UnknownRevision string | NoChaosObservation

definition preconditions_enforced :: "pydict \<Rightarrow> bool" where
  "preconditions_enforced user_input \<longleftrightarrow>
     (case dget user_input ''_runtime_control'' of
        PDict control \<Rightarrow> truthy (dget control ''enforce_action_preconditions'')
      | _ \<Rightarrow> False)"

definition rollback_target :: "(pyval \<Rightarrow> string) \<Rightarrow> string \<Rightarrow> pydict \<Rightarrow> string" where
  "rollback_target fmt tool args =
     (if tool = ''argocd_rollback'' then text_field fmt args ''app''
      else if tool = ''kubectl_rollout'' \<and> text_field fmt args ''action'' = ''undo''
      then after_first CHR ''/'' (text_field fmt args ''resource'')
      else '''')"

definition check_rollback_evidence ::
  "(pyval \<Rightarrow> string) \<Rightarrow> string \<Rightarrow> pydict \<Rightarrow> pydict \<Rightarrow> py_exn + precondition_error option" where
  "check_rollback_evidence fmt tool args user_input =
     (let app = rollback_target fmt tool args in
      if app = [] then Inr None
      else rbind (positive_deployment_evidence fmt user_input app) (\<lambda>positive.
        if \<not> positive then Inr (Some (NoDeploymentHistory app))
        else if tool \<noteq> ''argocd_rollback'' then Inr None
        else rbind (known_revisions fmt app (all_runtime_observations user_input)) (\<lambda>known.
          Inr (if text_field fmt args ''revision'' \<notin> set known then Some (UnknownRevision app) else None))))"

definition check_remediation_action_preconditions ::
  "(pyval \<Rightarrow> string) \<Rightarrow> string \<Rightarrow> pydict \<Rightarrow> pydict \<Rightarrow> py_exn + precondition_error option" where
  "check_remediation_action_preconditions fmt tool args user_input =
     (if \<not> preconditions_enforced user_input then Inr None
      else rbind (check_rollback_evidence fmt tool args user_input) (\<lambda>problem.
        if problem \<noteq> None then Inr problem
        else if tool = ''chaos_stop_experiment''
        then rbind (observed_chaos_resource fmt user_input args)
               (\<lambda>observed. Inr (if observed then None else Some NoChaosObservation))
        else Inr None))"

section \<open>Terminal errors\<close>

definition TERMINAL_ERROR_CLASSES :: "string set" where
  "TERMINAL_ERROR_CLASSES =
     {''authorization_failed'', ''configuration_error'', ''evidence_precondition'', ''forbidden'',
      ''invalid_action_arguments'', ''invalid_arguments'', ''invalid_revision'', ''not_found'',
      ''safety_block'', ''target_conflict'', ''target_mismatch'', ''terminal_action_blocked''}"

definition terminal_error_class :: "(pyval \<Rightarrow> string) \<Rightarrow> pydict \<Rightarrow> string option" where
  "terminal_error_class fmt output =
     (if dget output ''success'' = PBool True then None
      else
        let error_class = py_lower (text_field fmt output ''error_class'');
            error = py_lower (py_str fmt (py_or (dget output ''error'') (PStr '''')))
        in if error_class \<in> TERMINAL_ERROR_CLASSES then Some error_class
           else if contains error ''invalid revision'' then Some ''invalid_revision''
           else if contains error ''invalid rollout action'' \<or> contains error ''invalid namespace''
           then Some ''invalid_action_arguments''
           else if contains error ''authorization'' \<or> contains error ''forbidden''
           then Some ''authorization_failed''
           else if contains error ''not found''
             \<or> contains error (''doesn'' @ [char_of (39::nat)] @ ''t have a resource type'')
           then Some ''not_found''
           else None)"

text \<open>The identity under which repeated failing actions are blocked.\<close>

definition field_text :: "(pyval \<Rightarrow> string) \<Rightarrow> pydict \<Rightarrow> string \<Rightarrow> string \<Rightarrow> string" where
  "field_text fmt args k dflt = py_str fmt (dget_or args k (PStr dflt))"

definition action_identity :: "(pyval \<Rightarrow> string) \<Rightarrow> string \<Rightarrow> pydict \<Rightarrow> string \<times> string" where
  "action_identity fmt tool args =
     (if tool = ''argocd_rollback'' then (tool, py_lower (text_field fmt args ''app''))
      else if tool = ''kubectl_rollout'' then
        (tool, py_lower (field_text fmt args ''namespace'' ''default'' @ '':'' @ field_text fmt args ''resource'' ''''))
      else if tool = ''kubectl_scale'' then
        (tool, py_lower (field_text fmt args ''namespace'' ''default'' @ '':'' @ field_text fmt args ''deployment'' ''''))
      else if tool = ''chaos_stop_experiment'' then
        (tool, py_lower (field_text fmt args ''kind'' '''' @ '':'' @ field_text fmt args ''namespace'' ''chaos-mesh''
           @ '':'' @ field_text fmt args ''name'' ''''))
      else (tool, tool))"

section \<open>What a passed check means\<close>

lemma positive_evidence_loop_True:
  "positive_evidence_loop fmt app obs = Inr True \<Longrightarrow>
   \<exists>e \<in> set obs.
     dget e ''tool'' = PStr ''kubectl_rollout'' \<and> rollout_history_shown fmt app e = Inr True \<or>
     dget e ''tool'' = PStr ''argocd_app_history'' \<and> argo_history_shown fmt app e = Inr True"
  by (induction obs) (auto simp: rbind_eq_Inr split: if_splits)

lemma observed_chaos_loop_True:
  "observed_chaos_loop fmt expected obs = Inr True \<Longrightarrow>
   \<exists>e \<in> set obs. dget e ''tool'' = PStr ''chaos_list_experiments'' \<and>
     (\<exists>output items. py_or (dget e ''output'') (PDict []) = PDict output \<and>
        py_iter (py_or (dget output ''active_experiments'') (PList [])) = Inr items \<and>
        (\<exists>d. PDict d \<in> set items \<and> observed_key fmt d = expected))"
proof (induction obs)
  case Nil
  then show ?case by simp
next
  case (Cons x obs)
  show ?case
  proof (cases "dget x ''tool'' = PStr ''chaos_list_experiments''")
    case False
    with Cons show ?thesis by auto
  next
    case True
    with Cons.prems obtain "output" items where got: "need_dict (py_or (dget x ''output'') (PDict [])) = Inr output"
      "py_iter (py_or (dget output ''active_experiments'') (PList [])) = Inr items"
      and r: "(if list_ex (\<lambda>item. is_dict item \<and> observed_key fmt (as_dict item) = expected) items
          then Inr True else observed_chaos_loop fmt expected obs) = Inr True"
      by (auto simp: rbind_eq_Inr)
    have "py_or (dget x ''output'') (PDict []) = PDict output" using got(1)
      by (cases "py_or (dget x ''output'') (PDict [])") auto
    moreover have "is_dict item \<Longrightarrow> item = PDict (as_dict item)" for item by (cases item) auto
    ultimately show ?thesis using True got(2) r Cons.IH
      by (auto simp: list_ex_iff split: if_splits) metis
  qed
qed

lemma known_revisions_in:
  "known_revisions fmt app obs = Inr known \<Longrightarrow> r \<in> set known \<Longrightarrow>
   \<exists>e \<in> set obs. dget e ''tool'' = PStr ''argocd_app_history'' \<and>
     (\<exists>args. need_dict (py_or (dget e ''args'') (PDict [])) = Inr args \<and> text_field fmt args ''app'' = app) \<and>
     (\<exists>item \<in> set (as_list (dget (as_dict (dget e ''output'')) ''history'')). r \<in> set (item_revisions fmt item))"
proof (induction obs arbitrary: known)
  case Nil
  then show ?case by simp
next
  case (Cons x obs)
  then show ?case by (auto simp: rbind_eq_Inr split: if_splits; blast)
qed

text \<open>
  An observation of the deployment history of a target, said without the code: a successful rollout
  history of the workload with some output, or a successful history of the application with an entry.
\<close>

definition shows_history :: "(pyval \<Rightarrow> string) \<Rightarrow> string \<Rightarrow> pydict \<Rightarrow> bool" where
  "shows_history fmt app e \<longleftrightarrow>
     (\<exists>args output. dget e ''args'' = PDict args \<and> dget e ''output'' = PDict output \<and>
        dget output ''success'' = PBool True \<and>
        (dget e ''tool'' = PStr ''kubectl_rollout'' \<and> py_lower (text_field fmt args ''action'') = ''history'' \<and>
           after_first CHR ''/'' (text_field fmt args ''resource'') = app \<and> text_field fmt output ''stdout'' \<noteq> [] \<or>
         dget e ''tool'' = PStr ''argocd_app_history'' \<and> text_field fmt args ''app'' = app \<and>
           (\<exists>items d. dget output ''history'' = PList items \<and> PDict d \<in> set items \<and>
              (dget d ''id'' \<noteq> PNone \<or> truthy (dget d ''revision'')))))"

lemma py_or_dict: "py_or v (PDict []) = PDict d \<Longrightarrow> d = [] \<or> v = PDict d"
  by (auto simp: py_or_def split: if_splits)

lemma need_dict_eq: "need_dict v = Inr d \<longleftrightarrow> v = PDict d"
  by (cases v) auto

lemma history_entry_iff:
  "history_entry item \<longleftrightarrow> (\<exists>d. item = PDict d \<and> (dget d ''id'' \<noteq> PNone \<or> truthy (dget d ''revision'')))"
  by (cases item) (simp_all add: history_entry_def)

lemma text_field_empty [simp]: "text_field fmt [] k = []"
  by (simp add: text_field_def py_or_def py_strip_def)

lemma rollout_shown:
  assumes "dget e ''tool'' = PStr ''kubectl_rollout''" and "rollout_history_shown fmt app e = Inr True"
  shows "shows_history fmt app e"
proof -
  from assms(2) obtain args out where a: "py_or (dget e ''args'') (PDict []) = PDict args"
    "py_or (dget e ''output'') (PDict []) = PDict out"
    and facts: "py_lower (text_field fmt args ''action'') = ''history''"
      "after_first CHR ''/'' (text_field fmt args ''resource'') = app" "dget out ''success'' = PBool True"
      "text_field fmt out ''stdout'' \<noteq> []"
    by (auto simp: rollout_history_shown_def need_dict_eq rbind_eq_Inr split: pyval.splits)
  have "args \<noteq> []" "out \<noteq> []" using facts(1,3) by (auto simp: py_lower_def)
  with py_or_dict [OF a(1)] py_or_dict [OF a(2)] facts assms(1) show ?thesis by (auto simp: shows_history_def)
qed

lemma argo_shown:
  assumes "dget e ''tool'' = PStr ''argocd_app_history''" and "argo_history_shown fmt app e = Inr True" and "app \<noteq> []"
  shows "shows_history fmt app e"
proof -
  from assms(2) obtain args out items where a: "py_or (dget e ''args'') (PDict []) = PDict args"
    "py_or (dget e ''output'') (PDict []) = PDict out"
    and facts: "text_field fmt args ''app'' = app" "dget out ''success'' = PBool True"
      "dget out ''history'' = PList items" "list_ex history_entry items"
    by (auto simp: argo_history_shown_def need_dict_eq rbind_eq_Inr split: pyval.splits)
  have "args \<noteq> []" "out \<noteq> []" using facts(1,2) assms(3) by auto
  moreover obtain d where "PDict d \<in> set items" "dget d ''id'' \<noteq> PNone \<or> truthy (dget d ''revision'')"
    using facts(4) by (auto simp: list_ex_iff history_entry_iff)
  ultimately show ?thesis
    using py_or_dict [OF a(1)] py_or_dict [OF a(2)] facts(1-3) assms(1) unfolding shows_history_def by blast
qed

lemma passed_rollback:
  assumes "check_rollback_evidence fmt tool args ui = Inr None" and "rollback_target fmt tool args \<noteq> []"
  shows "\<exists>e \<in> set (all_runtime_observations ui). shows_history fmt (rollback_target fmt tool args) e"
    and "tool = ''argocd_rollback'' \<Longrightarrow>
         \<exists>known. known_revisions fmt (rollback_target fmt tool args) (all_runtime_observations ui) = Inr known \<and>
           text_field fmt args ''revision'' \<in> set known"
proof -
  from assms have "positive_evidence_loop fmt (rollback_target fmt tool args) (all_runtime_observations ui) = Inr True"
    by (auto simp: check_rollback_evidence_def Let_def rbind_eq_Inr positive_deployment_evidence_def
        split: if_splits)
  from positive_evidence_loop_True [OF this]
  show "\<exists>e \<in> set (all_runtime_observations ui). shows_history fmt (rollback_target fmt tool args) e"
    using assms(2) by (elim bexE, intro bexI) (auto intro: rollout_shown argo_shown)
next
  assume "tool = ''argocd_rollback''"
  with assms show "\<exists>known. known_revisions fmt (rollback_target fmt tool args) (all_runtime_observations ui)
      = Inr known \<and> text_field fmt args ''revision'' \<in> set known"
    by (auto simp: check_rollback_evidence_def Let_def rbind_eq_Inr split: if_splits)
qed

text \<open>Chaos listings: the experiments of each, and the loop that removes duplicates.\<close>

lemma dedupe_by_keys:
  "distinct (map key (dedupe_by key seen xs)) \<and>
   set (map key (dedupe_by key seen xs)) = set (map key xs) - seen \<and>
   set (dedupe_by key seen xs) \<subseteq> set xs"
proof (induction xs arbitrary: seen)
  case Nil
  then show ?case by simp
next
  case (Cons x xs)
  show ?case
  proof (cases "key x \<in> seen")
    case True
    with Cons.IH [of seen] show ?thesis by auto
  next
    case False
    with Cons.IH [of "insert (key x) seen"] show ?thesis by auto
  qed
qed

lemma chaos_status_cases:
  "chaos_status ls = ''unavailable'' \<longleftrightarrow> (\<exists>(status, found) \<in> set ls. \<not> listing_ok status)"
  "chaos_status ls = ''observed_empty'' \<longleftrightarrow>
     ls \<noteq> [] \<and> (\<forall>(status, found) \<in> set ls. listing_ok status \<and> found = [])"
  by (auto simp: chaos_status_def Let_def list_ex_iff list_all_iff split: prod.splits)

section \<open>Properties\<close>

text \<open>
  C27. When the run's control asks for the preconditions, an action that passes them has its evidence
  among the observations of this run: an Argo CD rollback whose application is not blank, and an undo of
  a rollout whose resource names a workload, have an observed deployment history of that target; the
  revision such an Argo CD rollback goes to was observed in the application's history; and a chaos
  experiment that is stopped was listed as active under the same kind, name and namespace.  Without that
  control, and for a rollback whose target is blank or an undo that is spelled otherwise, no evidence is
  asked for (lemmas \<open>unenforced_passes\<close>, \<open>blank_target_passes\<close>).
\<close>

theorem passed_action_has_evidence:
  assumes "preconditions_enforced ui"
    and "check_remediation_action_preconditions fmt tool args ui = Inr None"
  shows "(tool = ''argocd_rollback'' \<and> text_field fmt args ''app'' \<noteq> [] \<longrightarrow>
      (\<exists>e \<in> set (all_runtime_observations ui). shows_history fmt (text_field fmt args ''app'') e)) \<and>
    (tool = ''kubectl_rollout'' \<and> text_field fmt args ''action'' = ''undo'' \<and>
     after_first CHR ''/'' (text_field fmt args ''resource'') \<noteq> [] \<longrightarrow>
      (\<exists>e \<in> set (all_runtime_observations ui).
         shows_history fmt (after_first CHR ''/'' (text_field fmt args ''resource'')) e)) \<and>
    (tool = ''argocd_rollback'' \<and> text_field fmt args ''app'' \<noteq> [] \<longrightarrow>
      (\<exists>e \<in> set (all_runtime_observations ui). dget e ''tool'' = PStr ''argocd_app_history'' \<and>
         (\<exists>d. need_dict (py_or (dget e ''args'') (PDict [])) = Inr d \<and>
              text_field fmt d ''app'' = text_field fmt args ''app'') \<and>
         (\<exists>item \<in> set (as_list (dget (as_dict (dget e ''output'')) ''history'')).
              text_field fmt args ''revision'' \<in> set (item_revisions fmt item)))) \<and>
    (tool = ''chaos_stop_experiment'' \<longrightarrow>
      (\<exists>e \<in> set (all_runtime_observations ui). dget e ''tool'' = PStr ''chaos_list_experiments'' \<and>
         (\<exists>d items. py_or (dget e ''output'') (PDict []) = PDict d \<and>
            py_iter (py_or (dget d ''active_experiments'') (PList [])) = Inr items \<and>
            (\<exists>item. PDict item \<in> set items \<and> observed_key fmt item = expected_key fmt args))))"
proof -
  from assms have passed: "check_rollback_evidence fmt tool args ui = Inr None"
    by (auto simp: check_remediation_action_preconditions_def rbind_eq_Inr split: if_splits)
  show ?thesis
  proof (intro conjI impI)
    assume "tool = ''argocd_rollback'' \<and> text_field fmt args ''app'' \<noteq> []"
    with passed_rollback(1) [OF passed]
    show "\<exists>e \<in> set (all_runtime_observations ui). shows_history fmt (text_field fmt args ''app'') e"
      by (simp add: rollback_target_def)
  next
    assume "tool = ''kubectl_rollout'' \<and> text_field fmt args ''action'' = ''undo'' \<and>
      after_first CHR ''/'' (text_field fmt args ''resource'') \<noteq> []"
    with passed_rollback(1) [OF passed]
    show "\<exists>e \<in> set (all_runtime_observations ui).
        shows_history fmt (after_first CHR ''/'' (text_field fmt args ''resource'')) e"
      by (simp add: rollback_target_def)
  next
    assume argo: "tool = ''argocd_rollback'' \<and> text_field fmt args ''app'' \<noteq> []"
    then have target: "rollback_target fmt tool args = text_field fmt args ''app''"
      by (simp add: rollback_target_def)
    with argo have "rollback_target fmt tool args \<noteq> []" by simp
    from passed_rollback(2) [OF passed this] argo target obtain known where
      "known_revisions fmt (text_field fmt args ''app'') (all_runtime_observations ui) = Inr known"
      "text_field fmt args ''revision'' \<in> set known" by auto
    from known_revisions_in [OF this]
    show "\<exists>e \<in> set (all_runtime_observations ui). dget e ''tool'' = PStr ''argocd_app_history'' \<and>
         (\<exists>d. need_dict (py_or (dget e ''args'') (PDict [])) = Inr d \<and>
              text_field fmt d ''app'' = text_field fmt args ''app'') \<and>
         (\<exists>item \<in> set (as_list (dget (as_dict (dget e ''output'')) ''history'')).
              text_field fmt args ''revision'' \<in> set (item_revisions fmt item))" .
  next
    assume "tool = ''chaos_stop_experiment''"
    with assms have "observed_chaos_loop fmt (expected_key fmt args) (all_runtime_observations ui) = Inr True"
      by (auto simp: check_remediation_action_preconditions_def observed_chaos_resource_def rbind_eq_Inr
          split: if_splits)
    from observed_chaos_loop_True [OF this]
    show "\<exists>e \<in> set (all_runtime_observations ui). dget e ''tool'' = PStr ''chaos_list_experiments'' \<and>
         (\<exists>d items. py_or (dget e ''output'') (PDict []) = PDict d \<and>
            py_iter (py_or (dget d ''active_experiments'') (PList [])) = Inr items \<and>
            (\<exists>item. PDict item \<in> set items \<and> observed_key fmt item = expected_key fmt args))" .
  qed
qed

definition sample_evidence :: pydict where
  "sample_evidence =
     [(''_runtime_control'', PDict [(''enforce_action_preconditions'', PBool True)]),
      (''observations'', PList [PDict
        [(''tool'', PStr ''argocd_app_history''), (''args'', PDict [(''app'', PStr ''cart'')]),
         (''output'', PDict [(''success'', PBool True), (''history'', PList [PDict [(''id'', PInt 7)]])])]])]"

theorem passed_action_has_evidence_witness:
  "\<exists>e \<in> set (all_runtime_observations sample_evidence). shows_history (\<lambda>_. '''') ''cart'' e"
proof -
  let ?args = "[(''app'', PStr ''cart''), (''revision'', PInt 7)]"
  have "preconditions_enforced sample_evidence" by code_simp
  moreover have "check_remediation_action_preconditions (\<lambda>_. '''') ''argocd_rollback'' ?args sample_evidence
      = Inr None" by code_simp
  moreover have "text_field (\<lambda>_. '''') ?args ''app'' = ''cart''" by code_simp
  ultimately show ?thesis using passed_action_has_evidence [of sample_evidence "\<lambda>_. ''''" "''argocd_rollback''" ?args] by simp
qed

lemma unenforced_passes: "\<not> preconditions_enforced ui \<Longrightarrow> check_remediation_action_preconditions fmt tool args ui = Inr None"
  by (simp add: check_remediation_action_preconditions_def)

lemma blank_target_passes:
  "rollback_target fmt tool args = [] \<Longrightarrow> tool \<noteq> ''chaos_stop_experiment'' \<Longrightarrow>
   check_remediation_action_preconditions fmt tool args ui = Inr None"
  by (simp add: check_remediation_action_preconditions_def check_rollback_evidence_def)

text \<open>
  The chaos summary is cautious and complete: it says \<open>observed_empty\<close> exactly when some listing was
  made, every listing succeeded and none showed an experiment; it says \<open>unavailable\<close> exactly when some
  listing did not succeed; and it shows each observed experiment once.
\<close>

theorem chaos_summary_is_cautious:
  assumes "chaos_observation fmt observations = Inr summary"
  shows "\<exists>listings deduped. chaos_listings fmt observations = Inr listings \<and>
    (dget summary ''observation_status'' = PStr ''observed_empty'' \<longleftrightarrow>
       listings \<noteq> [] \<and> (\<forall>(status, found) \<in> set listings. listing_ok status \<and> found = [])) \<and>
    (dget summary ''observation_status'' = PStr ''unavailable'' \<longleftrightarrow>
       (\<exists>(status, found) \<in> set listings. \<not> listing_ok status)) \<and>
    dget summary ''active_experiments'' = PList (map PDict deduped) \<and>
    distinct (map (chaos_key fmt) deduped) \<and>
    chaos_key fmt ` set deduped = (\<Union>(status, found) \<in> set listings. chaos_key fmt ` set found)"
proof -
  from assms obtain ls where ls: "chaos_listings fmt observations = Inr ls"
    by (auto simp: chaos_observation_def rbind_eq_Inr)
  let ?deduped = "dedupe_by (chaos_key fmt) {} (concat (map snd ls))"
  note keys = dedupe_by_keys [of "chaos_key fmt" "{}" "concat (map snd ls)"]
  have "chaos_key fmt ` set ?deduped = (\<Union>(status, found) \<in> set ls. chaos_key fmt ` set found)"
  proof -
    have "chaos_key fmt ` set ?deduped = chaos_key fmt ` set (concat (map snd ls))"
      using keys by simp
    also have "\<dots> = (\<Union>(status, found) \<in> set ls. chaos_key fmt ` set found)" by force
    finally show ?thesis .
  qed
  moreover have "distinct (map (chaos_key fmt) ?deduped)" using keys by simp
  moreover from assms ls have "dget summary ''active_experiments'' = PList (map PDict ?deduped)"
    by (auto simp: chaos_observation_def Let_def)
  moreover from assms ls have "dget summary ''observation_status'' = PStr (chaos_status ls)"
    by (auto simp: chaos_observation_def Let_def)
  ultimately show ?thesis using ls chaos_status_cases [of ls] by auto
qed

theorem chaos_summary_is_cautious_witness:
  "\<exists>listings. chaos_listings (\<lambda>_. '''')
     [[(''tool'', PStr ''chaos_list_experiments''), (''output'', PDict [(''observation_status'', PStr ''error'')])]]
     = Inr listings \<and> (\<exists>(status, found) \<in> set listings. \<not> listing_ok status)"
proof -
  have "chaos_observation (\<lambda>_. '''')
      [[(''tool'', PStr ''chaos_list_experiments''), (''output'', PDict [(''observation_status'', PStr ''error'')])]]
    = Inr [(''observation_status'', PStr ''unavailable''), (''active_experiments'', PList []), (''count'', PInt 0)]"
    by code_simp
  from chaos_summary_is_cautious [OF this] show ?thesis by auto
qed

end
