(* ===== verification/CircuitBreaker.thy ===== *)
theory CircuitBreaker
  imports PyValue
begin

text \<open>
  \<open>agents/circuit_breaker.py\<close>: the breaker that stops unsafe or runaway incident automation.  Its
  state is the record \<open>breaker\<close>; an operation takes the clock reading of the call where the code
  reads the clock, and returns the raised \<open>CircuitBreakerTripped\<close> (by reason) together with the new
  state, because \<open>check_before_tool_call\<close> changes the state before it may raise.  Consecutive clock
  readings inside one call are one reading.
\<close>

section \<open>State and operations\<close>

definition DESIGNED_OUTCOMES :: "string set" where
  "DESIGNED_OUTCOMES =
     {''approval_rejected'', ''approval_timeout'', ''manual_runbook'', ''partial_resolution'',
      ''escalation''}"

datatype tripped_reason = BreakerOpen | ConcurrentLimit | ToolCallLimit | HourlyLimit

record breaker =
  max_tool_calls_per_incident :: int
  max_cluster_mutating_actions_per_hour :: int
  max_concurrent_incidents :: int
  consecutive_failure_threshold :: int
  tool_call_count :: "string \<Rightarrow> int option"
  cluster_mutating_actions_this_hour :: int
  active_incidents :: int
  consecutive_failures :: int
  tripped :: bool
  hour_window_start :: time

text \<open>\<open>CircuitBreaker()\<close> with its default limits, constructed at time \<open>now\<close>.\<close>

definition new_breaker :: "time \<Rightarrow> breaker" where
  "new_breaker now =
     \<lparr>max_tool_calls_per_incident = 50, max_cluster_mutating_actions_per_hour = 10,
      max_concurrent_incidents = 5, consecutive_failure_threshold = 3,
      tool_call_count = Map.empty, cluster_mutating_actions_this_hour = 0, active_incidents = 0,
      consecutive_failures = 0, tripped = False, hour_window_start = now\<rparr>"

definition start_incident :: "breaker \<Rightarrow> tripped_reason option \<times> breaker" where
  "start_incident b =
     (if tripped b then (Some BreakerOpen, b)
      else if active_incidents b \<ge> max_concurrent_incidents b then (Some ConcurrentLimit, b)
      else (None, b\<lparr>active_incidents := active_incidents b + 1\<rparr>))"

definition finish_incident :: "string \<Rightarrow> bool \<Rightarrow> string \<Rightarrow> breaker \<Rightarrow> breaker" where
  "finish_incident incident_id resolved reason b =
     (let b1 = b\<lparr>active_incidents := max 0 (active_incidents b - 1),
                 tool_call_count := (tool_call_count b)(incident_id := None)\<rparr>
      in if resolved then b1\<lparr>consecutive_failures := 0\<rparr>
         else if reason \<in> DESIGNED_OUTCOMES then b1
         else let b2 = b1\<lparr>consecutive_failures := consecutive_failures b1 + 1\<rparr>
              in if consecutive_failures b2 \<ge> consecutive_failure_threshold b2
                 then b2\<lparr>tripped := True\<rparr> else b2)"

definition roll_hour_window_if_needed :: "time \<Rightarrow> breaker \<Rightarrow> breaker" where
  "roll_hour_window_if_needed now b =
     (if now - hour_window_start b \<ge> 3600
      then b\<lparr>hour_window_start := now, cluster_mutating_actions_this_hour := 0\<rparr> else b)"

definition check_before_tool_call ::
  "time \<Rightarrow> string \<Rightarrow> bool \<Rightarrow> breaker \<Rightarrow> tripped_reason option \<times> breaker" where
  "check_before_tool_call now incident_id is_cluster_mutating b0 =
     (let b = roll_hour_window_if_needed now b0 in
      if tripped b then (Some BreakerOpen, b)
      else
        let count = (case tool_call_count b incident_id of None \<Rightarrow> 0 | Some c \<Rightarrow> c) in
        if count \<ge> max_tool_calls_per_incident b then (Some ToolCallLimit, b)
        else
          let b1 = b\<lparr>tool_call_count := (tool_call_count b)(incident_id \<mapsto> count + 1)\<rparr> in
          if is_cluster_mutating then
            if cluster_mutating_actions_this_hour b1 \<ge> max_cluster_mutating_actions_per_hour b1
            then (Some HourlyLimit, b1)
            else (None, b1\<lparr>cluster_mutating_actions_this_hour :=
                             cluster_mutating_actions_this_hour b1 + 1\<rparr>)
          else (None, b1))"

text \<open>\<open>status()\<close> rolls the window before it reports; the report is a projection of the state.\<close>

record breaker_status =
  st_tripped :: bool
  st_active_incidents :: int
  st_consecutive_failures :: int
  st_cluster_mutating_actions_this_hour :: int
  st_max_tool_calls_per_incident :: int
  st_max_cluster_mutating_actions_per_hour :: int
  st_max_concurrent_incidents :: int

definition cb_status :: "time \<Rightarrow> breaker \<Rightarrow> breaker_status \<times> breaker" where
  "cb_status now b0 =
     (let b = roll_hour_window_if_needed now b0 in
      (\<lparr>st_tripped = tripped b, st_active_incidents = active_incidents b,
        st_consecutive_failures = consecutive_failures b,
        st_cluster_mutating_actions_this_hour = cluster_mutating_actions_this_hour b,
        st_max_tool_calls_per_incident = max_tool_calls_per_incident b,
        st_max_cluster_mutating_actions_per_hour = max_cluster_mutating_actions_per_hour b,
        st_max_concurrent_incidents = max_concurrent_incidents b\<rparr>, b))"

definition cb_reset :: "time \<Rightarrow> breaker \<Rightarrow> breaker_status \<times> breaker" where
  "cb_reset now b =
     cb_status now
       (b\<lparr>tripped := False, consecutive_failures := 0, cluster_mutating_actions_this_hour := 0,
          hour_window_start := now, tool_call_count := Map.empty, active_incidents := 0\<rparr>)"

definition cb_pause :: "time \<Rightarrow> breaker \<Rightarrow> breaker_status \<times> breaker" where
  "cb_pause now b = cb_status now (b\<lparr>tripped := True\<rparr>)"

definition require_closed :: "breaker \<Rightarrow> tripped_reason option" where
  "require_closed b = (if tripped b then Some BreakerOpen else None)"

section \<open>Histories of calls\<close>

datatype cb_event =
    Start
  | Finish string bool string
  | Check time string bool
  | Status time
  | Reset time
  | Pause time
  | RequireClosed

fun cb_step :: "breaker \<Rightarrow> cb_event \<Rightarrow> breaker" where
  "cb_step b Start = snd (start_incident b)"
| "cb_step b (Finish i r why) = finish_incident i r why b"
| "cb_step b (Check now i m) = snd (check_before_tool_call now i m b)"
| "cb_step b (Status now) = snd (cb_status now b)"
| "cb_step b (Reset now) = snd (cb_reset now b)"
| "cb_step b (Pause now) = snd (cb_pause now b)"
| "cb_step b RequireClosed = b"

text \<open>The exception a call raises, if any.\<close>

fun cb_raises :: "breaker \<Rightarrow> cb_event \<Rightarrow> tripped_reason option" where
  "cb_raises b Start = fst (start_incident b)"
| "cb_raises b (Check now i m) = fst (check_before_tool_call now i m b)"
| "cb_raises b RequireClosed = require_closed b"
| "cb_raises b _ = None"

lemmas cb_defs = start_incident_def finish_incident_def roll_hour_window_if_needed_def
  check_before_tool_call_def cb_status_def cb_reset_def cb_pause_def require_closed_def Let_def

text \<open>No operation changes the four limits.\<close>

definition limits :: "breaker \<Rightarrow> int \<times> int \<times> int \<times> int" where
  "limits b = (max_tool_calls_per_incident b, max_cluster_mutating_actions_per_hour b,
               max_concurrent_incidents b, consecutive_failure_threshold b)"

lemma limits_step [simp]: "limits (cb_step b e) = limits b"
  by (cases e) (simp_all add: cb_defs limits_def)

lemma limits_run [simp]: "limits (run cb_step b es) = limits b"
  by (induction es arbitrary: b) simp_all

section \<open>Invariant\<close>

definition cb_inv :: "breaker \<Rightarrow> bool" where
  "cb_inv b \<longleftrightarrow>
     0 \<le> active_incidents b \<and> active_incidents b \<le> max 0 (max_concurrent_incidents b) \<and>
     0 \<le> cluster_mutating_actions_this_hour b \<and>
     cluster_mutating_actions_this_hour b \<le> max 0 (max_cluster_mutating_actions_per_hour b) \<and>
     (\<forall>i c. tool_call_count b i = Some c \<longrightarrow> 0 < c \<and> c \<le> max_tool_calls_per_incident b) \<and>
     0 \<le> consecutive_failures b \<and> 0 < consecutive_failure_threshold b \<and>
     (\<not> tripped b \<longrightarrow> consecutive_failures b < consecutive_failure_threshold b)"

lemma cb_inv_new [simp]: "cb_inv (new_breaker now)"
  by (simp add: cb_inv_def new_breaker_def)

lemma cb_inv_start: "cb_inv b \<Longrightarrow> cb_inv (snd (start_incident b))"
  by (auto simp: cb_inv_def start_incident_def)

lemma cb_inv_finish: "cb_inv b \<Longrightarrow> cb_inv (finish_incident i r why b)"
  unfolding finish_incident_def Let_def cb_inv_def by auto

lemma cb_inv_roll: "cb_inv b \<Longrightarrow> cb_inv (roll_hour_window_if_needed now b)"
  by (auto simp: cb_inv_def roll_hour_window_if_needed_def)

lemma cb_inv_check_rolled:
  assumes "cb_inv b" and "\<not> tripped b"
    and "c = (case tool_call_count b i of None \<Rightarrow> 0 | Some c \<Rightarrow> c)"
    and "c < max_tool_calls_per_incident b"
  shows "cb_inv (b\<lparr>tool_call_count := (tool_call_count b)(i \<mapsto> c + 1)\<rparr>)"
proof -
  from assms have "0 \<le> c" by (force simp: cb_inv_def split: option.splits)
  with assms show ?thesis by (auto simp: cb_inv_def)
qed

lemma cb_inv_check: "cb_inv b \<Longrightarrow> cb_inv (snd (check_before_tool_call now i m b))"
proof -
  assume inv: "cb_inv b"
  let ?b = "roll_hour_window_if_needed now b"
  let ?c = "case tool_call_count ?b i of None \<Rightarrow> 0 | Some c \<Rightarrow> c"
  let ?b1 = "?b\<lparr>tool_call_count := (tool_call_count ?b)(i \<mapsto> ?c + 1)\<rparr>"
  from inv have rolled: "cb_inv ?b" by (rule cb_inv_roll)
  show ?thesis
  proof (cases "tripped ?b \<or> ?c \<ge> max_tool_calls_per_incident ?b")
    case True
    with rolled show ?thesis by (auto simp: check_before_tool_call_def Let_def)
  next
    case False
    then have b1: "cb_inv ?b1" using cb_inv_check_rolled [OF rolled] by simp
    moreover have
      "cluster_mutating_actions_this_hour ?b1 < max_cluster_mutating_actions_per_hour ?b1 \<Longrightarrow>
       cb_inv (?b1\<lparr>cluster_mutating_actions_this_hour := cluster_mutating_actions_this_hour ?b1 + 1\<rparr>)"
      using b1 by (auto simp: cb_inv_def)
    ultimately show ?thesis using False
      by (auto simp: check_before_tool_call_def Let_def)
  qed
qed

lemma cb_inv_step: "cb_inv b \<Longrightarrow> cb_inv (cb_step b e)"
proof (cases e)
  case (Reset now)
  assume "cb_inv b"
  with Reset show ?thesis
    by (simp add: cb_reset_def cb_status_def Let_def) (rule cb_inv_roll, auto simp: cb_inv_def)
next
  case (Pause now)
  assume "cb_inv b"
  with Pause show ?thesis
    by (simp add: cb_pause_def cb_status_def Let_def) (rule cb_inv_roll, auto simp: cb_inv_def)
qed (auto simp: cb_inv_start cb_inv_finish cb_inv_check cb_inv_roll cb_status_def Let_def)

text \<open>A tripped breaker stays tripped until \<open>reset\<close>.\<close>

fun is_reset :: "cb_event \<Rightarrow> bool" where
  "is_reset (Reset _) = True"
| "is_reset _ = False"

lemma tripped_step: "tripped b \<Longrightarrow> \<not> is_reset e \<Longrightarrow> tripped (cb_step b e)"
  by (cases e) (simp_all add: cb_defs)

interpretation cb: latched_machine cb_step cb_inv tripped is_reset
  by unfold_locales (auto intro: cb_inv_step tripped_step)

section \<open>The hourly quota over a history\<close>

text \<open>
  The allowed mutating calls of a history: those whose check raised nothing.
\<close>

fun allowed_mutations :: "breaker \<Rightarrow> cb_event list \<Rightarrow> nat" where
  "allowed_mutations b [] = 0"
| "allowed_mutations b (e # es) =
     (case e of
        Check now i True \<Rightarrow> (if cb_raises b e = None then 1 else 0)
      | _ \<Rightarrow> 0) + allowed_mutations (cb_step b e) es"

text \<open>A call inside the hour that began at \<open>w\<close>, other than \<open>reset\<close>.\<close>

fun within_window :: "time \<Rightarrow> cb_event \<Rightarrow> bool" where
  "within_window w (Check now _ _) = (now - w < 3600)"
| "within_window w (Status now) = (now - w < 3600)"
| "within_window w (Pause now) = (now - w < 3600)"
| "within_window w (Reset _) = False"
| "within_window w _ = True"

lemma within_window_step:
  assumes "within_window (hour_window_start b) e"
  shows "hour_window_start (cb_step b e) = hour_window_start b"
    and "cluster_mutating_actions_this_hour (cb_step b e) =
         cluster_mutating_actions_this_hour b + int (allowed_mutations b [e])"
  using assms by (cases e; simp add: cb_defs; fail)+

lemma allowed_mutations_Cons:
  "allowed_mutations b (e # es) = allowed_mutations b [e] + allowed_mutations (cb_step b e) es"
  by simp

declare allowed_mutations.simps(2) [simp del]

lemma allowed_mutations_count:
  "list_all (within_window (hour_window_start b)) es \<Longrightarrow>
   cluster_mutating_actions_this_hour (run cb_step b es) =
   cluster_mutating_actions_this_hour b + int (allowed_mutations b es)"
proof (induction es arbitrary: b)
  case Nil
  then show ?case by simp
next
  case (Cons e es)
  note step = within_window_step [of b e]
  from Cons.prems have "list_all (within_window (hour_window_start (cb_step b e))) es"
    and e: "within_window (hour_window_start b) e"
    by (simp_all add: step)
  then have "cluster_mutating_actions_this_hour (run cb_step (cb_step b e) es) =
      cluster_mutating_actions_this_hour (cb_step b e) + int (allowed_mutations (cb_step b e) es)"
    using Cons.IH by blast
  then show ?case
    by (simp add: step(2) [OF e] allowed_mutations_Cons [of b e es])
qed

section \<open>Properties\<close>

text \<open>
  Whatever sequence of calls is made on a freshly constructed breaker, the number of active
  incidents, every incident's tool-call count and the hourly count of cluster mutations stay inside
  their limits, and a breaker that is not tripped has fewer consecutive failures than its threshold.
\<close>

theorem breaker_limits_hold:
  "cb_inv (run cb_step (new_breaker now) es)"
  by (rule cb.inv_run) simp

text \<open>
  C23. Inside one hour window (every clock reading before the window is an hour old, no reset), at
  most \<open>max_cluster_mutating_actions_per_hour\<close> cluster-mutating tool calls are let through, however
  they interleave with other incidents and other operations.
\<close>

theorem hourly_mutation_quota:
  assumes "cb_inv b" and "list_all (within_window (hour_window_start b)) es"
  shows "int (allowed_mutations b es) \<le>
         max 0 (max_cluster_mutating_actions_per_hour b) - cluster_mutating_actions_this_hour b"
proof -
  have inv: "cb_inv (run cb_step b es)" using assms(1) by (rule cb.inv_run)
  have "limits (run cb_step b es) = limits b" by simp
  then have "max_cluster_mutating_actions_per_hour (run cb_step b es) =
      max_cluster_mutating_actions_per_hour b" by (simp add: limits_def)
  with inv allowed_mutations_count [OF assms(2)] show ?thesis
    by (simp add: cb_inv_def)
qed

theorem hourly_mutation_quota_witness:
  "int (allowed_mutations (new_breaker 0) [Check 10 ''i'' True, Start, Check 20 ''i'' True]) \<le> 10"
  using hourly_mutation_quota
    [of "new_breaker 0" "[Check 10 ''i'' True, Start, Check 20 ''i'' True]"]
  by (simp add: new_breaker_def cb_inv_new [unfolded new_breaker_def])

text \<open>
  Once tripped (by failures or by \<open>pause\<close>), the breaker lets no new incident start and no tool
  call through, whatever calls are made, until \<open>reset\<close>.
\<close>

theorem tripped_blocks_until_reset:
  assumes "cb_inv b" and "tripped b" and "list_all (\<lambda>e. \<not> is_reset e) es"
  shows "cb_raises (run cb_step b es) Start = Some BreakerOpen \<and>
         cb_raises (run cb_step b es) (Check now i m) = Some BreakerOpen \<and>
         cb_raises (run cb_step b es) RequireClosed = Some BreakerOpen"
  using cb.latch_run [OF assms] by (simp add: cb_defs)

theorem tripped_blocks_until_reset_witness:
  "cb_raises (run cb_step (snd (cb_pause 1 (new_breaker 0))) [Finish ''i'' True '''', Status 2]) Start
   = Some BreakerOpen"
  by (rule tripped_blocks_until_reset [THEN conjunct1])
    (simp_all add: cb_pause_def cb_status_def Let_def roll_hour_window_if_needed_def new_breaker_def
      cb_inv_def)

definition undesigned_failure :: "bool \<times> string \<Rightarrow> bool" where
  "undesigned_failure f \<longleftrightarrow> \<not> fst f \<and> snd f \<notin> DESIGNED_OUTCOMES"

lemma finish_failures:
  "cb_inv b \<Longrightarrow> \<not> tripped b \<Longrightarrow>
   tripped (finish_incident i r why b) \<longleftrightarrow>
     undesigned_failure (r, why) \<and> consecutive_failures b + 1 = consecutive_failure_threshold b"
  by (auto simp: finish_incident_def Let_def undesigned_failure_def cb_inv_def)

lemma finish_streak:
  "\<not> r \<Longrightarrow> consecutive_failures (finish_incident i r why b) =
     consecutive_failures b + (if undesigned_failure (r, why) then 1 else 0)"
  by (auto simp: finish_incident_def Let_def undesigned_failure_def)

lemma unresolved_run_trips:
  "cb_inv b \<Longrightarrow> \<not> tripped b \<Longrightarrow>
   tripped (run cb_step b (map (\<lambda>(i, why). Finish i False why) fs)) \<longleftrightarrow>
   consecutive_failure_threshold b
     \<le> consecutive_failures b + int (length (filter (\<lambda>(i, why). why \<notin> DESIGNED_OUTCOMES) fs))"
proof (induction fs arbitrary: b)
  case Nil
  then show ?case by (simp add: cb_inv_def)
next
  case (Cons f fs)
  obtain i why where f: "f = (i, why)" by (cases f)
  let ?b = "finish_incident i False why b"
  let ?und = "why \<notin> DESIGNED_OUTCOMES"
  have inv: "cb_inv ?b" using Cons.prems(1) by (rule cb_inv_finish)
  have streak: "consecutive_failures ?b = consecutive_failures b + (if ?und then 1 else 0)"
    using finish_streak [of False i why b] by (simp add: undesigned_failure_def)
  have threshold: "consecutive_failure_threshold ?b = consecutive_failure_threshold b"
    by (simp add: finish_incident_def Let_def)
  show ?case
  proof (cases "tripped ?b")
    case True
    then have "?und" and "consecutive_failures b + 1 = consecutive_failure_threshold b"
      using finish_failures [OF Cons.prems] by (simp_all add: undesigned_failure_def)
    moreover have "tripped (run cb_step ?b (map (\<lambda>(i, why). Finish i False why) fs))"
      by (rule cb.latch_run [OF inv True]) (auto simp: list_all_iff)
    ultimately show ?thesis by (simp add: f)
  next
    case False
    from Cons.IH [OF inv False] show ?thesis by (simp add: f streak threshold add.assoc)
  qed
qed

text \<open>
  Finishing incidents trips the breaker exactly when the streak of unresolved incidents whose
  reason is not a designed human decision reaches the threshold: rejected or timed-out approvals,
  manual runbooks, partial resolutions and escalations neither count nor break the streak.
\<close>

theorem failure_streak_trips_breaker:
  "tripped (run cb_step (new_breaker now) (map (\<lambda>(i, why). Finish i False why) fs)) \<longleftrightarrow>
   length (filter (\<lambda>(i, why). why \<notin> DESIGNED_OUTCOMES) fs) \<ge> 3"
  using unresolved_run_trips [OF cb_inv_new [of now], of fs] by (simp add: new_breaker_def)

end
