(* ===== verification/HashChain.thy ===== *)
theory HashChain
  imports Prelude
begin

text \<open>
  The contract that the audit log and the execution journal share: entries linked by hashes.  An entry
  is good after a given predecessor hash, has a seal (its own hash), and commits to some content; the
  predecessor hash is part of what it commits to.  From this the locale derives how logs grow, and
  that the last seal binds the whole history: two linked logs with the same last seal have the same
  content, unless two of their entries collide.
\<close>

fun linked :: "(string \<Rightarrow> 'e \<Rightarrow> bool) \<Rightarrow> ('e \<Rightarrow> string) \<Rightarrow> string \<Rightarrow> 'e list \<Rightarrow> bool" where
  "linked good seal prev [] \<longleftrightarrow> True"
| "linked good seal prev (e # es) \<longleftrightarrow> good prev e \<and> linked good seal (seal e) es"

fun last_seal :: "('e \<Rightarrow> string) \<Rightarrow> string \<Rightarrow> 'e list \<Rightarrow> string" where
  "last_seal seal prev [] = prev"
| "last_seal seal prev (e # es) = last_seal seal (seal e) es"

lemma last_seal_snoc [simp]: "last_seal seal prev (es @ [e]) = seal e"
  by (induction es arbitrary: prev) simp_all

lemma last_seal_last: "es \<noteq> [] \<Longrightarrow> last_seal seal prev es = seal (last es)"
  by (induction es arbitrary: prev) auto

lemma linked_append:
  "linked good seal prev (es @ fs) \<longleftrightarrow>
     linked good seal prev es \<and> linked good seal (last_seal seal prev es) fs"
  by (induction es arbitrary: prev) simp_all

lemma linked_snoc:
  "linked good seal prev (es @ [e]) \<longleftrightarrow> linked good seal prev es \<and> good (last_seal seal prev es) e"
  by (simp add: linked_append)

locale hash_chain =
  fixes good :: "string \<Rightarrow> 'e \<Rightarrow> bool" and seal :: "'e \<Rightarrow> string" and content :: "'e \<Rightarrow> 'c"
  assumes good_prev: "good p e \<Longrightarrow> good p' e' \<Longrightarrow> content e = content e' \<Longrightarrow> p = p'"
begin

text \<open>Same last seal, hence same content, by induction from the end.\<close>

lemma last_seal_binds:
  assumes "linked good seal start es" and "linked good seal start fs"
    and "last_seal seal start es = last_seal seal start fs"
    and "\<forall>e \<in> set es. \<forall>f \<in> set fs. seal e = seal f \<longrightarrow> content e = content f"
    and "\<forall>e \<in> set es \<union> set fs. seal e \<noteq> start"
  shows "map content es = map content fs"
  using assms
proof (induction es arbitrary: fs rule: rev_induct)
  case Nil
  then show ?case by (cases fs rule: rev_cases) auto
next
  case (snoc e es)
  show ?case
  proof (cases fs rule: rev_cases)
    case Nil
    with snoc.prems show ?thesis by simp
  next
    case (snoc fs' f)
    with snoc.prems(3) have "seal e = seal f" by simp
    with snoc snoc.prems(4) have same: "content e = content f" by simp
    from snoc snoc.prems(1,2) have linked: "linked good seal start es" "linked good seal start fs'"
      and "good (last_seal seal start es) e" "good (last_seal seal start fs') f"
      by (simp_all add: linked_append)
    with same good_prev have "last_seal seal start es = last_seal seal start fs'" by blast
    with snoc.IH [OF linked] snoc.prems(4,5) snoc have "map content es = map content fs'" by auto
    with same snoc show ?thesis by simp
  qed
qed

end

end
