(* ===== verification/AuditLog.thy ===== *)
theory AuditLog
  imports HashChain Json Evidence
begin

text \<open>
  \<open>agents/audit.py\<close>: the append-only audit log.  The log file is the list of its lines; a line that
  \<open>json.loads\<close> accepts is its value, any other line is \<open>Garbled\<close> (writing a value as one line of JSON
  and reading it back gives the value).  \<open>sha\<close> and \<open>hmac\<close> are SHA-256 and HMAC-SHA-256 in hexadecimal,
  \<open>ff\<close> and \<open>fmt\<close> the text of floats and containers, \<open>scrub\<close> the secret-text substitutions.
\<close>

section \<open>State\<close>

datatype log_line = Line pyval | Garbled

record audit_log =
  al_secret :: string
  al_lines :: "log_line list"
  al_last_hash :: string

type_synonym fns = "(rat \<Rightarrow> string) \<times> (pyval \<Rightarrow> string) \<times> (string \<Rightarrow> string) \<times> (string \<Rightarrow> string \<Rightarrow> string)"

text \<open>The first line's hash chain starts from the empty hash.\<close>

definition load_last_hash :: "(pyval \<Rightarrow> string) \<Rightarrow> log_line list \<Rightarrow> py_exn + string" where
  "load_last_hash fmt lines =
     (if lines = [] then Inr ''''
      else case last lines of
        Garbled \<Rightarrow> Inr ''''
      | Line v \<Rightarrow> rbind (need_dict v) (\<lambda>d. Inr (py_str fmt (dget_or d ''entry_hash'' (PStr '''')))))"

definition open_audit_log :: "(pyval \<Rightarrow> string) \<Rightarrow> string \<Rightarrow> log_line list \<Rightarrow> py_exn + audit_log" where
  "open_audit_log fmt secret lines =
     (if py_strip secret = [] then Inl ValueError
      else rbind (load_last_hash fmt lines)
        (\<lambda>h. Inr \<lparr>al_secret = secret, al_lines = lines, al_last_hash = h\<rparr>))"

section \<open>Recording\<close>

text \<open>\<open>round(t, 3)\<close>.\<close>

definition round3 :: "rat \<Rightarrow> rat" where
  "round3 x = of_int (round_half_even (x * 1000)) / 1000"

definition sorted_text :: "(rat \<Rightarrow> string) \<Rightarrow> pydict \<Rightarrow> string" where
  "sorted_text ff d = default_text ff (PDict d)"

record audit_args =
  aa_incident_id :: string
  aa_agent_role :: string
  aa_action_type :: string
  aa_tool_name :: "string option"
  aa_tool_args :: "pydict option"
  aa_result_summary :: string
  aa_approved_by :: string
  aa_policy_check :: string

definition audit_entry :: "fns \<Rightarrow> (string \<Rightarrow> string) \<Rightarrow> time \<Rightarrow> audit_args \<Rightarrow> string \<Rightarrow> pydict" where
  "audit_entry fns scrub now a prev =
     (case fns of (ff, fmt, sha, hmac) \<Rightarrow>
       [(''ts'', PFloat (FFin (round3 now))),
        (''incident_id'', PStr (aa_incident_id a)),
        (''agent_role'', PStr (aa_agent_role a)),
        (''action_type'', PStr (aa_action_type a)),
        (''tool_name'', PStr (case aa_tool_name a of None \<Rightarrow> '''' | Some n \<Rightarrow> n)),
        (''tool_args_hash'',
           PStr (sha (sorted_text ff (case aa_tool_args a of None \<Rightarrow> [] | Some d \<Rightarrow> d)))),
        (''result_summary'', PStr (take 300 (scrub (aa_result_summary a)))),
        (''approved_by'', PStr (aa_approved_by a)),
        (''policy_check'', PStr (aa_policy_check a)),
        (''prev_hash'', PStr prev)])"

definition seal_entry :: "fns \<Rightarrow> string \<Rightarrow> pydict \<Rightarrow> pydict" where
  "seal_entry fns secret entry =
     (case fns of (ff, fmt, sha, hmac) \<Rightarrow>
       (let canonical = sorted_text ff entry; signature = hmac secret canonical
        in entry @ [(''signature'', PStr signature), (''entry_hash'', PStr (sha (canonical @ signature)))]))"

definition audit_record :: "fns \<Rightarrow> (string \<Rightarrow> string) \<Rightarrow> time \<Rightarrow> audit_args \<Rightarrow> audit_log \<Rightarrow> pydict \<times> audit_log" where
  "audit_record fns scrub now a al =
     (let entry = seal_entry fns (al_secret al) (audit_entry fns scrub now a (al_last_hash al))
      in (entry, al\<lparr>al_lines := al_lines al @ [Line (PDict entry)],
                    al_last_hash := (case dget entry ''entry_hash'' of PStr h \<Rightarrow> h | _ \<Rightarrow> '''')\<rparr>))"

section \<open>Reading\<close>

text \<open>\<open>json.loads\<close> of every line; the first line that is not JSON raises.\<close>

fun load_line :: "log_line \<Rightarrow> py_exn + pyval" where
  "load_line (Line v) = Inr v"
| "load_line Garbled = Inl ValueError"

definition audit_tail :: "int \<Rightarrow> int \<Rightarrow> audit_log \<Rightarrow> py_exn + pyval list" where
  "audit_tail limit offset al =
     (if limit \<le> 0 then Inr []
      else if al_lines al = [] then Inr []
      else rbind (map_result load_line (al_lines al)) (\<lambda>entries.
        let page_end = int (length entries) - max 0 offset
        in if page_end \<le> 0 then Inr []
           else Inr (drop (nat (max 0 (page_end - limit))) (take (nat page_end) entries))))"

datatype integrity =
    IntegrityOk nat
  | InvalidJson nat
  | InvalidRecord nat
  | ChainMismatch nat
  | SignatureMismatch nat
  | EntryHashMismatch nat

text \<open>\<open>dict(entry)\<close> without its signature and entry hash, and the two popped texts.\<close>

definition checked_part :: "pydict \<Rightarrow> pydict" where
  "checked_part entry = AList.delete ''entry_hash'' (AList.delete ''signature'' entry)"

definition entry_text :: "(pyval \<Rightarrow> string) \<Rightarrow> string \<Rightarrow> pydict \<Rightarrow> string" where
  "entry_text fmt k entry = py_str fmt (dget_or entry k (PStr ''''))"

fun verify_lines :: "fns \<Rightarrow> string \<Rightarrow> nat \<Rightarrow> string \<Rightarrow> log_line list \<Rightarrow> integrity" where
  "verify_lines fns secret n prev [] = IntegrityOk (n - 1)"
| "verify_lines fns secret n prev (Garbled # ls) = InvalidJson n"
| "verify_lines fns secret n prev (Line v # ls) =
     (case fns of (ff, fmt, sha, hmac) \<Rightarrow>
       (case v of
          PDict entry \<Rightarrow>
            (let canonical = sorted_text ff (checked_part entry);
                 signature = entry_text fmt ''signature'' entry;
                 entry_hash = entry_text fmt ''entry_hash'' entry
             in if dget_or entry ''prev_hash'' (PStr '''') \<noteq> PStr prev then ChainMismatch n
                else if hmac secret canonical \<noteq> signature then SignatureMismatch n
                else if sha (canonical @ signature) \<noteq> entry_hash then EntryHashMismatch n
                else verify_lines fns secret (n + 1) entry_hash ls)
        | _ \<Rightarrow> InvalidRecord n))"

definition verify_integrity :: "fns \<Rightarrow> audit_log \<Rightarrow> integrity" where
  "verify_integrity fns al = verify_lines fns (al_secret al) 1 '''' (al_lines al)"

section \<open>The chain\<close>

text \<open>A good line after the hash \<open>prev\<close>, its hash, and what it commits to.\<close>

definition good_line :: "fns \<Rightarrow> string \<Rightarrow> string \<Rightarrow> log_line \<Rightarrow> bool" where
  "good_line fns secret prev l \<longleftrightarrow>
     (case (fns, l) of ((ff, fmt, sha, hmac), Line (PDict entry)) \<Rightarrow>
        dget_or entry ''prev_hash'' (PStr '''') = PStr prev \<and>
        hmac secret (sorted_text ff (checked_part entry)) = entry_text fmt ''signature'' entry \<and>
        sha (sorted_text ff (checked_part entry) @ entry_text fmt ''signature'' entry)
          = entry_text fmt ''entry_hash'' entry
      | _ \<Rightarrow> False)"

definition line_hash :: "fns \<Rightarrow> log_line \<Rightarrow> string" where
  "line_hash fns l = (case (fns, l) of
     ((ff, fmt, sha, hmac), Line (PDict entry)) \<Rightarrow> entry_text fmt ''entry_hash'' entry | _ \<Rightarrow> '''')"

definition line_content :: "log_line \<Rightarrow> string \<Rightarrow> pyval option" where
  "line_content l =
     (case l of Line (PDict entry) \<Rightarrow> map_of (checked_part entry) | _ \<Rightarrow> Map.empty)"

lemma checked_part_prev [simp]:
  "map_of (checked_part entry) ''prev_hash'' = map_of entry ''prev_hash''"
  by (simp add: checked_part_def)

lemma good_line_entry:
  assumes "good_line fns secret p l"
  obtains e where "l = Line (PDict e)" and "dget_or e ''prev_hash'' (PStr '''') = PStr p"
proof (cases l)
  case (Line v)
  with assms that show thesis by (cases fns; cases v) (auto simp: good_line_def)
qed (use assms in \<open>cases fns, simp add: good_line_def\<close>)

interpretation audit: hash_chain "good_line fns secret" "line_hash fns" line_content
  for fns :: fns and secret :: string
proof unfold_locales
  fix p p' :: string and l l' :: log_line
  assume good: "good_line fns secret p l" "good_line fns secret p' l'" and "line_content l = line_content l'"
  from good(1) obtain e where e: "l = Line (PDict e)" "dget_or e ''prev_hash'' (PStr '''') = PStr p"
    by (rule good_line_entry)
  from good(2) obtain e' where e': "l' = Line (PDict e')" "dget_or e' ''prev_hash'' (PStr '''') = PStr p'"
    by (rule good_line_entry)
  have "map_of e ''prev_hash'' = map_of e' ''prev_hash''"
    using fun_cong [OF \<open>line_content l = line_content l'\<close>, of "''prev_hash''"] e(1) e'(1)
    by (simp add: line_content_def del: fun_upd_apply)
  with e(2) e'(2) show "p = p'" by (simp add: dget_or_def)
qed

text \<open>Verification accepts exactly the linked logs.\<close>

lemma verify_lines_ok:
  "0 < n \<Longrightarrow> verify_lines fns secret n prev ls = IntegrityOk m \<longleftrightarrow>
     m = n - 1 + length ls \<and> linked (good_line fns secret) (line_hash fns) prev ls"
proof (induction fns secret n prev ls rule: verify_lines.induct)
  case (3 fns secret n prev v ls)
  obtain ff fmt sha hmac where fns: "fns = (ff, fmt, sha, hmac)" by (cases fns)
  show ?case
  proof (cases v)
    case (PDict entry)
    with 3 fns show ?thesis by (auto simp: good_line_def line_hash_def Let_def)
  qed (simp_all add: fns good_line_def)
qed (auto simp: good_line_def split: prod.split)

lemma verify_integrity_ok:
  "verify_integrity fns al = IntegrityOk m \<longleftrightarrow>
     m = length (al_lines al) \<and> linked (good_line fns (al_secret al)) (line_hash fns) '''' (al_lines al)"
  using verify_lines_ok [of 1 fns "al_secret al" "''''" "al_lines al" m] by (simp add: verify_integrity_def)

section \<open>Recording extends the chain\<close>

lemma sealed_line:
  assumes "map_of entry ''signature'' = None" and "map_of entry ''entry_hash'' = None"
    and "dget_or entry ''prev_hash'' (PStr '''') = PStr prev"
  shows "good_line fns secret prev (Line (PDict (seal_entry fns secret entry)))"
    and "dget (seal_entry fns secret entry) ''entry_hash''
         = PStr (line_hash fns (Line (PDict (seal_entry fns secret entry))))"
proof -
  obtain ff fmt sha hmac where fns: "fns = (ff, fmt, sha, hmac)" by (cases fns)
  have notin: "\<forall>p \<in> set entry. fst p \<noteq> ''signature'' \<and> fst p \<noteq> ''entry_hash''"
    using assms(1,2) by (force simp: map_of_eq_None_iff)
  then have kept: "AList.delete ''entry_hash'' entry = entry" "AList.delete ''signature'' entry = entry"
    by (auto simp: AList.delete_eq filter_id_conv)
  have "checked_part (entry @ [(''signature'', s), (''entry_hash'', h)]) = entry" for s h
    using kept by (simp add: checked_part_def AList.delete_eq)
  then show "good_line fns secret prev (Line (PDict (seal_entry fns secret entry)))"
    and "dget (seal_entry fns secret entry) ''entry_hash''
         = PStr (line_hash fns (Line (PDict (seal_entry fns secret entry))))"
    using assms
    by (simp_all add: fns seal_entry_def good_line_def line_hash_def entry_text_def dget_def dget_or_def
        Let_def map_add_def split: option.splits)
qed

lemma audit_entry_fields:
  "map_of (audit_entry fns scrub now a prev) ''signature'' = None"
  "map_of (audit_entry fns scrub now a prev) ''entry_hash'' = None"
  "dget_or (audit_entry fns scrub now a prev) ''prev_hash'' (PStr '''') = PStr prev"
  by (cases fns; simp add: audit_entry_def)+

text \<open>A log whose cached hash is the last hash of its lines.\<close>

definition audit_inv :: "fns \<Rightarrow> audit_log \<Rightarrow> bool" where
  "audit_inv fns al \<longleftrightarrow>
     linked (good_line fns (al_secret al)) (line_hash fns) '''' (al_lines al) \<and>
     al_last_hash al = last_seal (line_hash fns) '''' (al_lines al)"

lemma audit_record_inv:
  assumes "audit_inv fns al" shows "audit_inv fns (snd (audit_record fns scrub now a al))"
proof -
  let ?entry = "audit_entry fns scrub now a (al_last_hash al)"
  note sealed = sealed_line [OF audit_entry_fields [of fns scrub now a "al_last_hash al"],
      of fns "al_secret al"]
  show ?thesis using assms sealed
    by (simp add: audit_inv_def audit_record_def Let_def linked_snoc)
qed

definition record_all :: "fns \<Rightarrow> (string \<Rightarrow> string) \<Rightarrow> (time \<times> audit_args) list \<Rightarrow> audit_log \<Rightarrow> audit_log" where
  "record_all fns scrub calls al = foldl (\<lambda>al (now, a). snd (audit_record fns scrub now a al)) al calls"

lemma record_all_inv:
  "audit_inv fns al \<Longrightarrow>
   audit_inv fns (record_all fns scrub calls al) \<and>
   length (al_lines (record_all fns scrub calls al)) = length (al_lines al) + length calls \<and>
   (\<exists>new. al_lines (record_all fns scrub calls al) = al_lines al @ new) \<and>
   al_secret (record_all fns scrub calls al) = al_secret al"
  unfolding record_all_def
proof (induction calls arbitrary: al)
  case Nil
  then show ?case by simp
next
  case (Cons c calls)
  obtain now a where c: "c = (now, a)" by (cases c)
  let ?al = "snd (audit_record fns scrub now a al)"
  have "audit_inv fns ?al" using Cons.prems by (rule audit_record_inv)
  moreover have "al_secret ?al = al_secret al" "\<exists>l. al_lines ?al = al_lines al @ [l]"
    by (simp_all add: audit_record_def Let_def)
  ultimately show ?case using Cons.IH [of ?al] by (auto simp: c)
qed

text \<open>Opening a log that verifies reads the hash of its last line.\<close>

lemma open_verified_inv:
  assumes "open_audit_log fmt secret lines = Inr al" and "fns = (ff, fmt, sha, hmac)"
    and "verify_lines fns secret 1 '''' lines = IntegrityOk m"
  shows "audit_inv fns al \<and> al_lines al = lines \<and> al_secret al = secret"
proof -
  from assms(3) have chain: "linked (good_line fns secret) (line_hash fns) '''' lines"
    using verify_lines_ok [of 1 fns secret "''''" lines m] by simp
  from assms(1) obtain h where h: "load_last_hash fmt lines = Inr h"
    and al: "al = \<lparr>al_secret = secret, al_lines = lines, al_last_hash = h\<rparr>"
    by (auto simp: open_audit_log_def rbind_eq_Inr split: if_splits)
  have "h = last_seal (line_hash fns) '''' lines"
  proof (cases lines rule: rev_cases)
    case Nil
    with h show ?thesis by (simp add: load_last_hash_def)
  next
    case (snoc ls l)
    with chain have "good_line fns secret (last_seal (line_hash fns) '''' ls) l" by (simp add: linked_snoc)
    then obtain e where "l = Line (PDict e)" by (rule good_line_entry)
    with h snoc show ?thesis by (simp add: load_last_hash_def line_hash_def assms(2) entry_text_def)
  qed
  with chain al show ?thesis by (simp add: audit_inv_def)
qed

section \<open>Properties\<close>

text \<open>
  A log that verifies still verifies after it is opened and any number of actions is recorded:
  its entries are all there, followed by one entry for each action.
\<close>

theorem recorded_log_verifies:
  assumes "verify_lines (ff, fmt, sha, hmac) secret 1 '''' lines = IntegrityOk m"
    and "open_audit_log fmt secret lines = Inr al"
  shows "verify_integrity (ff, fmt, sha, hmac) (record_all (ff, fmt, sha, hmac) scrub calls al)
           = IntegrityOk (m + length calls) \<and>
         take m (al_lines (record_all (ff, fmt, sha, hmac) scrub calls al)) = lines"
proof -
  let ?fns = "(ff, fmt, sha, hmac)"
  have m: "m = length lines" using verify_lines_ok [of 1 ?fns secret "''''" lines m] assms(1) by simp
  from open_verified_inv [OF assms(2) refl assms(1)] have inv: "audit_inv ?fns al"
    and al: "al_lines al = lines" "al_secret al = secret" by simp_all
  from record_all_inv [OF inv, of scrub calls] show ?thesis
    by (auto simp: verify_integrity_ok audit_inv_def al m)
qed

theorem recorded_log_verifies_witness:
  "verify_integrity (\<lambda>_. '''', \<lambda>_. '''', \<lambda>s. ''h'' @ s, \<lambda>k s. k @ s)
     (record_all (\<lambda>_. '''', \<lambda>_. '''', \<lambda>s. ''h'' @ s, \<lambda>k s. k @ s) (\<lambda>s. s) []
        \<lparr>al_secret = ''k'', al_lines = [], al_last_hash = ''''\<rparr>) = IntegrityOk 0"
  using recorded_log_verifies [of "\<lambda>_. ''''" "\<lambda>_. ''''" "\<lambda>s. ''h'' @ s" "\<lambda>k s. k @ s" "''k''" "[]" 0
      "\<lparr>al_secret = ''k'', al_lines = [], al_last_hash = ''''\<rparr>" "\<lambda>s. s" "[]"]
  by (simp add: open_audit_log_def load_last_hash_def py_strip_def py_space_def)

text \<open>
  The last hash binds the whole history: two logs that verify under the same secret and end with
  the same hash have, line by line, the same signed fields, unless the hash collides on two of their
  entries (or some entry's hash is empty).
\<close>

theorem last_hash_binds_history:
  assumes "verify_lines fns secret 1 '''' ls = IntegrityOk m"
    and "verify_lines fns secret 1 '''' ls' = IntegrityOk m'"
    and "last_seal (line_hash fns) '''' ls = last_seal (line_hash fns) '''' ls'"
    and "\<forall>l \<in> set ls. \<forall>l' \<in> set ls'. line_hash fns l = line_hash fns l' \<longrightarrow> line_content l = line_content l'"
    and "\<forall>l \<in> set ls \<union> set ls'. line_hash fns l \<noteq> ''''"
  shows "map line_content ls = map line_content ls'"
proof (rule audit.last_seal_binds)
  show "linked (good_line fns secret) (line_hash fns) '''' ls"
    using assms(1) verify_lines_ok [of 1 fns secret "''''" ls m] by simp
  show "linked (good_line fns secret) (line_hash fns) '''' ls'"
    using assms(2) verify_lines_ok [of 1 fns secret "''''" ls' m'] by simp
qed (rule assms)+

text \<open>A log of one entry, and the same log.\<close>

definition one_entry :: log_line where
  "one_entry = Line (PDict (seal_entry (\<lambda>_. '''', \<lambda>_. '''', \<lambda>s. ''h'', \<lambda>k s. k) ''k''
     [(''incident_id'', PStr ''i''), (''prev_hash'', PStr '''')]))"

theorem last_hash_binds_history_witness:
  "map line_content [one_entry] = map line_content [one_entry]"
proof (rule last_hash_binds_history)
  let ?fns = "(\<lambda>_. '''', \<lambda>_. '''', \<lambda>s. ''h'', \<lambda>k s. k) :: fns"
  show "verify_lines ?fns ''k'' 1 '''' [one_entry] = IntegrityOk 1" by code_simp
  show "verify_lines ?fns ''k'' 1 '''' [one_entry] = IntegrityOk 1" by code_simp
  show "\<forall>l \<in> set [one_entry] \<union> set [one_entry]. line_hash ?fns l \<noteq> ''''" by code_simp
qed simp_all

text \<open>
  \<open>tail\<close> shows the newest \<open>limit\<close> entries after skipping the \<open>offset\<close> newest, in chronological
  order; a negative offset counts as zero.
\<close>

theorem tail_is_newest_page:
  assumes "0 < limit" and "map_result load_line (al_lines al) = Inr entries"
  shows "audit_tail limit offset al =
    Inr (rev (take (nat limit) (drop (nat offset) (rev entries))))"
proof -
  have len: "length entries = length (al_lines al)" using assms(2) by (rule map_result_length)
  let ?n = "length entries"
  have page: "rev (take l (drop k (rev entries))) = drop (?n - k - l) (take (?n - k) entries)" for k l
    by (cases "k = 0 \<or> entries = []") (auto simp: drop_rev take_rev min_def)
  have max: "max 0 offset = int (nat offset)" by simp
  show ?thesis
  proof (cases "al_lines al = []")
    case True
    with len show ?thesis using assms(1) by (simp add: audit_tail_def)
  next
    case False
    have "nat (max 0 (int ?n - int (nat offset) - limit)) = ?n - nat offset - nat limit"
      "nat (int ?n - int (nat offset)) = ?n - nat offset" using assms(1) by linarith+
    with False assms page [of "nat limit" "nat offset"] show ?thesis
      by (auto simp: audit_tail_def Let_def max)
  qed
qed

theorem tail_is_newest_page_witness:
  "audit_tail 1 1 \<lparr>al_secret = ''k'', al_lines = [Line (PInt 1), Line (PInt 2)], al_last_hash = ''''\<rparr>
   = Inr [PInt 1]"
  using tail_is_newest_page [of 1 "\<lparr>al_secret = ''k'', al_lines = [Line (PInt 1), Line (PInt 2)],
      al_last_hash = ''''\<rparr>" "[PInt 1, PInt 2]" 1]
  by simp

end
