(* ===== verification/Chaos.thy ===== *)
theory Chaos
  imports ToolPolicy
begin

text \<open>
  \<open>agents/tools/chaos.py\<close>: listing the Chaos Mesh experiments of a cluster and deleting one of them.
  The Kubernetes client is a parameter: a \<open>chaos_api\<close> answers the opening of a client, the reading of
  an object and its deletion.  An operation returns the calls it made of that client, in order, and
  its result.  A resource-bound scope (\<open>stage_a_chaos_scope\<close>) is a record handed to the operation, as
  the context variable hands it in the code.
\<close>

section \<open>Targets\<close>

definition CHAOS_RESOURCE_TYPES :: "string list" where
  "CHAOS_RESOURCE_TYPES =
     [''podchaos'', ''networkchaos'', ''stresschaos'', ''dnschaos'', ''iochaos'', ''timechaos'']"

definition CANONICAL_KINDS :: "(string \<times> string) list" where
  "CANONICAL_KINDS =
     [(''podchaos'', ''PodChaos''), (''stresschaos'', ''StressChaos''), (''networkchaos'', ''NetworkChaos''),
      (''dnschaos'', ''DNSChaos''), (''iochaos'', ''IOChaos''), (''timechaos'', ''TimeChaos'')]"

definition CHAOS_RESOURCE_PLURALS :: "(string \<times> string) list" where
  "CHAOS_RESOURCE_PLURALS =
     [(''podchaos'', ''podchaos''), (''stresschaos'', ''stresschaos''), (''networkchaos'', ''networkchaos''),
      (''dnschaos'', ''dnschaos''), (''iochaos'', ''iochaos''), (''timechaos'', ''timechaos'')]"

text \<open>Both tables are only read at the allowlisted kinds, which are exactly their keys.\<close>

definition table_entry :: "(string \<times> string) list \<Rightarrow> string \<Rightarrow> string" where
  "table_entry table k = (case map_of table k of Some v \<Rightarrow> v | None \<Rightarrow> '''')"

definition canonical_kind :: "string \<Rightarrow> string" where
  "canonical_kind k = table_entry CANONICAL_KINDS k"

definition resource_plural :: "string \<Rightarrow> string" where
  "resource_plural k = table_entry CHAOS_RESOURCE_PLURALS k"

lemma allowed_kinds_are_the_table_keys:
  "set (map fst CANONICAL_KINDS) = ALLOWED_CHAOS_KINDS \<and>
   set (map fst CHAOS_RESOURCE_PLURALS) = ALLOWED_CHAOS_KINDS \<and> set CHAOS_RESOURCE_TYPES = ALLOWED_CHAOS_KINDS"
  by (auto simp: CANONICAL_KINDS_def CHAOS_RESOURCE_PLURALS_def CHAOS_RESOURCE_TYPES_def ALLOWED_CHAOS_KINDS_def)

lemma resource_plural_eq [simp]: "k \<in> ALLOWED_CHAOS_KINDS \<Longrightarrow> resource_plural k = k"
  by (auto simp: ALLOWED_CHAOS_KINDS_def resource_plural_def table_entry_def CHAOS_RESOURCE_PLURALS_def)

text \<open>\<open>[a-z0-9]([-a-z0-9]*[a-z0-9])?\<close>, the whole text.\<close>

definition lower_alnum :: "char \<Rightarrow> bool" where
  "lower_alnum c \<longleftrightarrow> (let n = (of_char c :: nat) in (97 \<le> n \<and> n \<le> 122) \<or> (48 \<le> n \<and> n \<le> 57))"

definition delimited_name :: "char set \<Rightarrow> string \<Rightarrow> bool" where
  "delimited_name inner s \<longleftrightarrow>
     s \<noteq> [] \<and> lower_alnum (hd s) \<and> lower_alnum (last s) \<and> list_all (\<lambda>c. lower_alnum c \<or> c \<in> inner) s"

definition safe_name :: "string \<Rightarrow> bool" where
  "safe_name s \<longleftrightarrow> delimited_name {CHR ''-''} s"

definition control_char :: "char \<Rightarrow> bool" where
  "control_char c \<longleftrightarrow> (let n = (of_char c :: nat) in n < 32 \<or> n = 127)"

definition valid_context :: "pyval \<Rightarrow> bool" where
  "valid_context ctx \<longleftrightarrow>
     (case ctx of
        PNone \<Rightarrow> True
      | PStr s \<Rightarrow> s \<noteq> [] \<and> s = py_strip s \<and> \<not> list_ex control_char s
      | _ \<Rightarrow> False)"

definition validated_chaos_target ::
  "pyval \<Rightarrow> pyval \<Rightarrow> pyval \<Rightarrow> pyval \<Rightarrow> string + (string \<times> string \<times> string)" where
  "validated_chaos_target kind name namespace ctx =
     (case kind of
        PStr k \<Rightarrow>
          (if py_lower (py_strip k) \<notin> ALLOWED_CHAOS_KINDS then Inl ''invalid_chaos_kind''
           else case name of
             PStr n \<Rightarrow>
               (if n \<noteq> py_strip n \<or> length n > 253 \<or> \<not> safe_name n then Inl ''invalid_chaos_name''
                else case namespace of
                  PStr ns \<Rightarrow>
                    (if ns \<notin> ALLOWED_CHAOS_NAMESPACES then Inl ''unauthorized_chaos_namespace''
                     else if \<not> valid_context ctx then Inl ''invalid_kubernetes_context''
                     else Inr (py_lower (py_strip k), n, ns))
                | _ \<Rightarrow> Inl ''unauthorized_chaos_namespace'')
           | _ \<Rightarrow> Inl ''invalid_chaos_name'')
      | _ \<Rightarrow> Inl ''invalid_chaos_kind'')"

definition valid_precondition :: "pyval \<Rightarrow> bool" where
  "valid_precondition v \<longleftrightarrow> (case v of PStr s \<Rightarrow> py_strip s \<noteq> [] \<and> s = py_strip s | _ \<Rightarrow> False)"

lemma validated_target_allowed:
  "validated_chaos_target kind name namespace ctx = Inr (k, n, ns) \<Longrightarrow>
   k \<in> ALLOWED_CHAOS_KINDS \<and> safe_name n \<and> ns = ''chaos-mesh''"
  by (auto simp: validated_chaos_target_def ALLOWED_CHAOS_NAMESPACES_def split: pyval.splits if_splits)

section \<open>The Kubernetes client\<close>

text \<open>
  An exception of the client: its \<open>status\<close> and \<open>reason\<close> attributes (\<open>None\<close> when absent) and its type.
\<close>

record api_fault =
  af_status :: pyval
  af_reason :: pyval
  af_type :: string

record chaos_api =
  ca_open :: "string option \<Rightarrow> api_fault option"
  ca_get :: "string option \<Rightarrow> string \<Rightarrow> string \<Rightarrow> string \<Rightarrow> api_fault + pyval"
  ca_delete :: "string option \<Rightarrow> string \<Rightarrow> string \<Rightarrow> string \<Rightarrow> string \<Rightarrow> string \<Rightarrow> api_fault option"

text \<open>Objects are addressed by plural, namespace and name; a deletion carries uid and resource version.\<close>

datatype chaos_call =
    OpenClient "string option"
  | GetObject string string string
  | BeforeDelete
  | DeleteObject string string string string string
  | CloseClient

fun is_delete :: "chaos_call \<Rightarrow> bool" where
  "is_delete (DeleteObject _ _ _ _ _) = True"
| "is_delete _ = False"

definition kubernetes_error :: "(pyval \<Rightarrow> string) \<Rightarrow> api_fault \<Rightarrow> string" where
  "kubernetes_error fmt e =
     (let reason = (case af_reason e of PStr r \<Rightarrow> r | _ \<Rightarrow> '''') in
      if af_status e \<noteq> PNone
      then ''Kubernetes API request failed ('' @ py_str fmt (af_status e) @ '')'' @
           (if reason \<noteq> [] then '': '' @ reason else '''')
      else if reason \<noteq> [] then ''Kubernetes API request failed: '' @ reason
      else ''Kubernetes API request failed ('' @ af_type e @ '')'')"

text \<open>A body run inside \<open>with _chaos_api_client(...)\<close>: the client is closed however the body ends.\<close>

definition with_client ::
  "chaos_api \<Rightarrow> string option \<Rightarrow> chaos_call list \<times> (api_fault + 'a) \<Rightarrow> chaos_call list \<times> (api_fault + 'a)" where
  "with_client api ctx body =
     (case ca_open api ctx of
        Some e \<Rightarrow> ([OpenClient ctx], Inl e)
      | None \<Rightarrow> (OpenClient ctx # fst body @ [CloseClient], snd body))"

definition failed :: "pydict \<Rightarrow> string \<Rightarrow> pydict" where
  "failed result why = result @ [(''error'', PStr why)]"

section \<open>What an experiment is doing\<close>

text \<open>
  The conditions and records that reach the classification have been checked to be dictionaries whose
  \<open>type\<close>, \<open>status\<close> and \<open>phase\<close> are text.  Conflicting reports of one condition type make it \<open>unknown\<close>.
\<close>

definition folded :: "pydict \<Rightarrow> string \<Rightarrow> string" where
  "folded d k = (case dget d k of PStr s \<Rightarrow> py_lower (py_strip s) | _ \<Rightarrow> '''')"

definition note_condition :: "(string \<times> string) list \<Rightarrow> pyval \<Rightarrow> (string \<times> string) list" where
  "note_condition states condition =
     (let ty = folded (as_dict condition) ''type''; status = folded (as_dict condition) ''status'' in
      AList.update ty
        (case map_of states ty of
           Some previous \<Rightarrow> if previous \<noteq> status then ''unknown'' else status
         | None \<Rightarrow> status) states)"

definition condition_states :: "pyval list \<Rightarrow> (string \<times> string) list" where
  "condition_states conditions = foldl note_condition [] conditions"

definition record_phases :: "pyval list \<Rightarrow> string list" where
  "record_phases records = map (\<lambda>r. folded (as_dict r) ''phase'') records"

definition known_phases :: "string list \<Rightarrow> bool" where
  "known_phases phases \<longleftrightarrow> list_all (\<lambda>p. p \<in> {''injected'', ''not injected''}) phases"

definition chaos_activity_state :: "pyval \<Rightarrow> pyval list \<Rightarrow> pydict \<Rightarrow> string" where
  "chaos_activity_state phase conditions experiment =
     (if phase \<noteq> PNone then ''unknown''
      else
        let states = condition_states conditions; paused = map_of states ''paused'';
            recovered = map_of states ''allrecovered''; records = dget experiment ''containerRecords'';
            phases = record_phases (as_list records)
        in if paused = Some ''true'' then ''inactive''
           else if paused \<noteq> Some ''false'' then ''unknown''
           else if recovered = Some ''true'' then
             (if \<not> is_list records then ''unknown''
              else if \<not> known_phases phases then ''unknown''
              else if ''injected'' \<in> set phases then ''unknown'' else ''inactive'')
           else if recovered \<noteq> Some ''false'' \<or> \<not> is_list records \<or> as_list records = [] then ''unknown''
           else if \<not> known_phases phases then ''unknown''
           else if ''injected'' \<in> set phases then ''active'' else ''unknown'')"

definition text_or_none :: "pyval \<Rightarrow> bool" where
  "text_or_none v \<longleftrightarrow> v = PNone \<or> is_str v"

definition checked_condition :: "pyval \<Rightarrow> bool" where
  "checked_condition c \<longleftrightarrow>
     is_dict c \<and> is_str (dget (as_dict c) ''type'') \<and> is_str (dget (as_dict c) ''status'')"

definition checked_records :: "pyval \<Rightarrow> bool" where
  "checked_records records \<longleftrightarrow>
     records = PNone \<or>
     (is_list records \<and> list_all (\<lambda>r. is_dict r \<and> is_str (dget (as_dict r) ''phase'')) (as_list records))"

definition chaos_activity_for_resource :: "pyval \<Rightarrow> string" where
  "chaos_activity_for_resource resource =
     (case resource of
        PDict r \<Rightarrow>
          (case dget r ''status'' of
             PDict status \<Rightarrow>
               (case (dget_or status ''conditions'' (PList []), dget_or status ''experiment'' (PDict [])) of
                  (PList conditions, PDict experiment) \<Rightarrow>
                    (if \<not> text_or_none (dget experiment ''phase'') then ''unknown''
                     else if \<not> list_all checked_condition conditions then ''unknown''
                     else if \<not> checked_records (dget experiment ''containerRecords'') then ''unknown''
                     else chaos_activity_state (dget experiment ''phase'') conditions experiment)
                | _ \<Rightarrow> ''unknown'')
           | _ \<Rightarrow> ''unknown'')
      | _ \<Rightarrow> ''unknown'')"

text \<open>
  What the conditions say of one type: the status all its reports agree on, or \<open>unknown\<close>.
\<close>

definition reports :: "string \<Rightarrow> pyval list \<Rightarrow> string list" where
  "reports ty conditions =
     map (\<lambda>c. folded (as_dict c) ''status'') (filter (\<lambda>c. folded (as_dict c) ''type'' = ty) conditions)"

lemma reports_snoc:
  "reports ty (cs @ [c]) = reports ty cs @
     (if folded (as_dict c) ''type'' = ty then [folded (as_dict c) ''status''] else [])"
  by (simp add: reports_def)

definition agreed :: "string list \<Rightarrow> string option" where
  "agreed vs = (case vs of [] \<Rightarrow> None | v # rest \<Rightarrow> Some (if list_all (\<lambda>w. w = v) rest then v else ''unknown''))"

lemma agreed_snoc:
  "agreed (vs @ [s]) =
     Some (case agreed vs of Some p \<Rightarrow> if p \<noteq> s then ''unknown'' else s | None \<Rightarrow> s)"
  by (cases vs) (auto simp: agreed_def)

lemma condition_states_agree: "map_of (condition_states cs) ty = agreed (reports ty cs)"
proof (induction cs rule: rev_induct)
  case Nil
  show ?case by (simp add: condition_states_def reports_def agreed_def)
next
  case (snoc c cs)
  then show ?case
    by (auto simp: condition_states_def note_condition_def Let_def reports_snoc agreed_snoc
        simp del: append_assoc split: option.splits)
qed

lemma agreed_eq: "v \<noteq> ''unknown'' \<Longrightarrow> agreed vs = Some v \<longleftrightarrow> vs \<noteq> [] \<and> set vs \<subseteq> {v}"
  by (cases vs) (auto simp: agreed_def list_all_iff)

section \<open>Deleting\<close>

definition delete_call ::
  "chaos_api \<Rightarrow> string option \<Rightarrow> string \<Rightarrow> string \<Rightarrow> string \<Rightarrow> string \<Rightarrow> string \<Rightarrow>
   chaos_call \<times> api_fault option" where
  "delete_call api ctx k n ns uid version =
     (DeleteObject (resource_plural k) ns n uid version, ca_delete api ctx (resource_plural k) ns n uid version)"

definition context_of :: "pyval \<Rightarrow> string option" where
  "context_of ctx = (case ctx of PStr s \<Rightarrow> Some s | _ \<Rightarrow> None)"

definition delete_chaos_with_preconditions ::
  "(pyval \<Rightarrow> string) \<Rightarrow> chaos_api \<Rightarrow> pyval \<Rightarrow> pyval \<Rightarrow> pyval \<Rightarrow> pyval \<Rightarrow> pyval \<Rightarrow> pyval \<Rightarrow>
   chaos_call list \<times> pydict" where
  "delete_chaos_with_preconditions fmt api kind name namespace uid version ctx =
     (case validated_chaos_target kind name namespace ctx of
        Inl why \<Rightarrow> ([], failed [(''success'', PBool False)] why)
      | Inr (k, n, ns) \<Rightarrow>
          if \<not> valid_precondition uid \<or> \<not> valid_precondition version
          then ([], failed [(''success'', PBool False)]
                      ''uid and resource_version are required deletion preconditions'')
          else
            case with_client api (context_of ctx)
                   (case delete_call api (context_of ctx) k n ns (text_of uid) (text_of version) of
                      (call, Some e) \<Rightarrow> ([call], Inl e) | (call, None) \<Rightarrow> ([call], Inr ())) of
              (calls, Inl e) \<Rightarrow>
                (calls, failed [(''success'', PBool False)] (kubernetes_error fmt e) @
                          [(''status_code'', af_status e)])
            | (calls, Inr _) \<Rightarrow>
                (calls,
                 [(''success'', PBool True), (''action'', PStr ''deleted_chaos_experiment''),
                  (''kind'', PStr (canonical_kind k)), (''name'', PStr n), (''namespace'', PStr ns),
                  (''uid'', uid), (''resource_version'', version)]))"

section \<open>The scope that binds a stop to one experiment\<close>

text \<open>
  The hook that runs before a deletion is absent, callable (it may raise), or not callable.
\<close>

datatype hook = NoHook | Hook "api_fault option" | NotCallable

record chaos_scope =
  sc_kind :: string
  sc_name :: string
  sc_namespace :: string
  sc_uid :: string
  sc_context :: string
  sc_hook :: hook
  sc_records :: pyval

definition stage_a_chaos_scope :: "pyval \<Rightarrow> hook \<Rightarrow> string + chaos_scope" where
  "stage_a_chaos_scope identity before_delete =
     (case identity of
        PDict d \<Rightarrow>
          (if \<not> is_str (dget d ''kube_context'') \<or> dget d ''kube_context'' = PStr ''''
           then Inl ''Stage A Chaos identity requires an explicit kube_context''
           else case validated_chaos_target (dget d ''kind'') (dget d ''name'') (dget d ''namespace'')
                       (dget d ''kube_context'') of
             Inl why \<Rightarrow> Inl (''Invalid Stage A Chaos identity: '' @ why)
           | Inr (k, n, ns) \<Rightarrow>
               if \<not> valid_precondition (dget d ''uid'')
               then Inl ''Stage A Chaos identity requires a non-empty uid''
               else if before_delete = NotCallable then Inl ''before_delete must be callable''
               else Inr \<lparr>sc_kind = k, sc_name = n, sc_namespace = ns, sc_uid = text_of (dget d ''uid''),
                         sc_context = text_of (dget d ''kube_context''), sc_hook = before_delete,
                         sc_records = dget d ''container_records''\<rparr>)
      | _ \<Rightarrow> Inl ''Stage A Chaos identity must be an object'')"

section \<open>Stopping an experiment\<close>

definition metadata_of :: "pyval \<Rightarrow> pydict option" where
  "metadata_of resource =
     (case resource of PDict r \<Rightarrow> (case dget r ''metadata'' of PDict m \<Rightarrow> Some m | _ \<Rightarrow> None) | _ \<Rightarrow> None)"

definition observed_records :: "pyval \<Rightarrow> pyval" where
  "observed_records resource =
     dget (as_dict (dget (as_dict (dget (as_dict resource) ''status'')) ''experiment'')) ''containerRecords''"

text \<open>
  What the body of the scoped stop decides after reading the object: a refusal, or the deletion with
  the observed resource version.
\<close>

definition scoped_decision :: "chaos_scope \<Rightarrow> pyval \<Rightarrow> string + string" where
  "scoped_decision sc resource =
     (case metadata_of resource of
        None \<Rightarrow> Inl ''Stage A Chaos UID does not match the bound fault''
      | Some m \<Rightarrow>
          if dget m ''uid'' \<noteq> PStr (sc_uid sc) then Inl ''Stage A Chaos UID does not match the bound fault''
          else if \<not> valid_precondition (dget m ''resourceVersion'')
          then Inl ''Stage A Chaos object has no current resourceVersion''
          else if chaos_activity_for_resource resource \<noteq> ''active''
          then Inl ''Stage A Chaos object is not positively active/injected''
          else if sc_records sc \<noteq> PNone \<and> \<not> py_eq (observed_records resource) (sc_records sc)
          then Inl ''Stage A injected container identity changed''
          else Inr (text_of (dget m ''resourceVersion'')))"

definition scoped_body ::
  "chaos_api \<Rightarrow> chaos_scope \<Rightarrow> chaos_call list \<times> (api_fault + (string + string))" where
  "scoped_body api sc =
     (let k = sc_kind sc; n = sc_name sc; ns = sc_namespace sc; ctx = Some (sc_context sc);
          get = GetObject (resource_plural k) ns n
      in case ca_get api ctx (resource_plural k) ns n of
           Inl e \<Rightarrow> ([get], Inl e)
         | Inr resource \<Rightarrow>
             (case scoped_decision sc resource of
                Inl why \<Rightarrow> ([get], Inr (Inl why))
              | Inr version \<Rightarrow>
                  (case sc_hook sc of
                     Hook (Some e) \<Rightarrow> ([get, BeforeDelete], Inl e)
                   | h \<Rightarrow>
                       (case delete_call api ctx k n ns (sc_uid sc) version of
                          (call, r) \<Rightarrow>
                            (get # (if h = NoHook then [] else [BeforeDelete]) @ [call],
                             case r of Some e \<Rightarrow> Inl e | None \<Rightarrow> Inr (Inr version))))))"

definition stop_result :: "string \<Rightarrow> string \<Rightarrow> string \<Rightarrow> pydict" where
  "stop_result k n ns =
     [(''success'', PBool False), (''action'', PStr ''stopped_chaos_experiment''),
      (''kind'', PStr (canonical_kind k)), (''name'', PStr n), (''namespace'', PStr ns)]"

definition stopped :: "pydict \<Rightarrow> string \<Rightarrow> string \<Rightarrow> pydict" where
  "stopped result uid version =
     AList.update ''success'' (PBool True) result @ [(''uid'', PStr uid), (''resource_version'', PStr version)]"

definition stop_scoped_chaos_experiment ::
  "(pyval \<Rightarrow> string) \<Rightarrow> chaos_api \<Rightarrow> chaos_scope \<Rightarrow> string \<Rightarrow> string \<Rightarrow> string \<Rightarrow> chaos_call list \<times> pydict" where
  "stop_scoped_chaos_experiment fmt api sc k n ns =
     (let result = stop_result k n ns in
      if (k, n, ns) \<noteq> (sc_kind sc, sc_name sc, sc_namespace sc)
      then ([], failed result ''Stage A scope forbids deleting a different Chaos resource'')
      else case with_client api (Some (sc_context sc)) (scoped_body api sc) of
        (calls, Inl e) \<Rightarrow> (calls, failed result (kubernetes_error fmt e))
      | (calls, Inr (Inl why)) \<Rightarrow> (calls, failed result why)
      | (calls, Inr (Inr version)) \<Rightarrow> (calls, stopped result (sc_uid sc) version))"

definition kube_context :: "string option \<Rightarrow> string \<Rightarrow> string option" where
  "kube_context pinned env =
     (case pinned of
        Some c \<Rightarrow> Some c
      | None \<Rightarrow> if py_strip env = [] then None else Some (py_strip env))"

definition stop_decision :: "string \<Rightarrow> string \<Rightarrow> pyval \<Rightarrow> string + (string \<times> string)" where
  "stop_decision n ns resource =
     (case metadata_of resource of
        None \<Rightarrow> Inl ''Chaos API resource identity does not match''
      | Some m \<Rightarrow>
          if dget m ''name'' \<noteq> PStr n \<or> dget m ''namespace'' \<noteq> PStr ns
          then Inl ''Chaos API resource identity does not match''
          else if \<not> valid_precondition (dget m ''uid'') \<or> \<not> valid_precondition (dget m ''resourceVersion'')
          then Inl ''Chaos resource requires UID and resourceVersion''
          else if chaos_activity_for_resource resource \<noteq> ''active''
          then Inl ''Chaos resource is not positively active/injected''
          else Inr (text_of (dget m ''uid''), text_of (dget m ''resourceVersion'')))"

definition stop_body ::
  "chaos_api \<Rightarrow> string option \<Rightarrow> string \<Rightarrow> string \<Rightarrow> string \<Rightarrow>
   chaos_call list \<times> (api_fault + (string + (string \<times> string)))" where
  "stop_body api ctx k n ns =
     (let get = GetObject (resource_plural k) ns n in
      case ca_get api ctx (resource_plural k) ns n of
        Inl e \<Rightarrow> ([get], Inl e)
      | Inr resource \<Rightarrow>
          (case stop_decision n ns resource of
             Inl why \<Rightarrow> ([get], Inr (Inl why))
           | Inr (uid, version) \<Rightarrow>
               (case delete_call api ctx k n ns uid version of
                  (call, Some e) \<Rightarrow> ([get, call], Inl e)
                | (call, None) \<Rightarrow> ([get, call], Inr (Inr (uid, version))))))"

definition chaos_stop_experiment ::
  "(pyval \<Rightarrow> string) \<Rightarrow> chaos_api \<Rightarrow> string option \<Rightarrow> string \<Rightarrow> chaos_scope option \<Rightarrow>
   pyval \<Rightarrow> pyval \<Rightarrow> pyval \<Rightarrow> chaos_call list \<times> pydict" where
  "chaos_stop_experiment fmt api pinned env scope kind name namespace =
     (let k = py_lower (py_strip (py_str fmt (py_or kind (PStr ''''))));
          n = py_strip (py_str fmt (py_or name (PStr '''')));
          ns = py_lower (py_strip (py_str fmt (py_or namespace (PStr ''chaos-mesh''))));
          refuse = (\<lambda>why. ([], failed [(''success'', PBool False)] why))
      in if k \<notin> ALLOWED_CHAOS_KINDS then
           refuse (''Invalid chaos kind '' @ [CHR 0x27] @ py_str fmt kind @ [CHR 0x27] @ ''. Allowed kinds: '' @
             fmt (PList (map PStr [''DNSChaos'', ''IOChaos'', ''NetworkChaos'', ''PodChaos'', ''StressChaos'',
                                   ''TimeChaos''])))
         else if n = [] \<or> \<not> safe_name n then
           refuse (''Invalid chaos resource name '' @ [CHR 0x27] @ py_str fmt name @ [CHR 0x27] @
             ''. Must be a valid DNS-1123 resource name without wildcards or special characters.'')
         else if ns \<notin> ALLOWED_CHAOS_NAMESPACES then
           refuse (''Unauthorized chaos namespace '' @ [CHR 0x27] @ py_str fmt namespace @ [CHR 0x27] @
             ''. Allowed chaos namespaces: '' @ fmt (PList [PStr ''chaos-mesh'']))
         else case scope of
           Some sc \<Rightarrow> stop_scoped_chaos_experiment fmt api sc k n ns
         | None \<Rightarrow>
             let result = stop_result k n ns; ctx = kube_context pinned env in
             case with_client api ctx (stop_body api ctx k n ns) of
               (calls, Inl e) \<Rightarrow> (calls, failed result (kubernetes_error fmt e))
             | (calls, Inr (Inl why)) \<Rightarrow> (calls, failed result why)
             | (calls, Inr (Inr (uid, version))) \<Rightarrow> (calls, stopped result uid version))"

section \<open>Listing\<close>

definition invalid_chaos_observation :: "string \<Rightarrow> pyval list \<Rightarrow> pydict" where
  "invalid_chaos_observation why inventory =
     [(''success'', PBool False), (''observation_status'', PStr ''invalid_response''),
      (''evidence_status'', PStr ''environment_observation_error''), (''active_experiments'', PList []),
      (''inventory'', PList inventory), (''inventory_complete'', PBool False), (''error'', PStr why)]"

definition blank_text :: "pyval \<Rightarrow> bool" where
  "blank_text v \<longleftrightarrow> (case v of PStr s \<Rightarrow> py_strip s = [] | _ \<Rightarrow> True)"

text \<open>\<open>x = d.get(k)\<close> followed by \<open>if x is None: x = default\<close>.\<close>

definition none_to :: "pyval \<Rightarrow> pyval \<Rightarrow> pyval" where
  "none_to dflt v = (if v = PNone then dflt else v)"

definition listed_condition :: "pyval \<Rightarrow> bool" where
  "listed_condition c \<longleftrightarrow>
     is_dict c \<and> \<not> blank_text (dget (as_dict c) ''type'') \<and> is_str (dget (as_dict c) ''status'') \<and>
     folded (as_dict c) ''status'' \<in> {''true'', ''false'', ''unknown''}"

definition listed_record :: "pyval \<Rightarrow> bool" where
  "listed_record r \<longleftrightarrow> is_dict r \<and> \<not> blank_text (dget (as_dict r) ''phase'')"

definition item_identity ::
  "bool \<Rightarrow> pydict \<Rightarrow> string + (pydict \<times> string \<times> string \<times> string)" where
  "item_identity scoped item =
     (case dget item ''metadata'' of
        PDict metadata \<Rightarrow>
          (if blank_text (dget metadata ''name'') \<or> blank_text (dget metadata ''namespace'')
           then Inl ''requires a name and namespace''
           else
             let n = py_strip (text_of (dget metadata ''name''));
                 ns = py_strip (text_of (dget metadata ''namespace''));
                 k = py_strip (text_of (dget item ''kind''))
             in if scoped \<and> ns \<noteq> ''chaos-mesh'' then Inl ''is outside the selected namespace''
                else if blank_text (dget item ''kind'') then Inl ''requires a kind''
                else if py_lower k \<notin> ALLOWED_CHAOS_KINDS then Inl ''has an unsupported kind''
                else Inr (metadata, n, ns, canonical_kind (py_lower k)))
      | _ \<Rightarrow> Inl ''requires object metadata'')"

definition experiment_state :: "pydict \<Rightarrow> string + (pyval list \<times> pydict)" where
  "experiment_state item =
     (case none_to (PDict []) (dget item ''status'') of
        PDict status \<Rightarrow>
          (case none_to (PList []) (dget status ''conditions'') of
             PList conditions \<Rightarrow>
               (if \<not> list_all listed_condition conditions then Inl ''has malformed conditions''
                else case none_to (PDict []) (dget status ''experiment'') of
                  PDict experiment \<Rightarrow>
                    (if \<not> text_or_none (dget experiment ''phase'') then Inl ''has invalid experiment phase''
                     else if \<not> text_or_none (dget experiment ''desiredPhase'')
                     then Inl ''has invalid desired phase''
                     else let records = dget experiment ''containerRecords'' in
                       if records \<noteq> PNone \<and> \<not> is_list records then Inl ''has invalid container records''
                       else if \<not> list_all listed_record (as_list records)
                       then Inl ''has malformed container records''
                       else Inr (conditions, experiment))
                | _ \<Rightarrow> Inl ''has invalid experiment status'')
           | _ \<Rightarrow> Inl ''has invalid conditions'')
      | _ \<Rightarrow> Inl ''has invalid status'')"

definition status_summary :: "pyval list \<Rightarrow> pydict \<Rightarrow> pydict" where
  "status_summary conditions experiment =
     [(''phase'', dget experiment ''phase''), (''conditions'', PList conditions)] @
     (if dget experiment ''desiredPhase'' = PNone then []
      else [(''desired_phase'', dget experiment ''desiredPhase'')]) @
     (if dget experiment ''containerRecords'' = PNone then []
      else [(''container_records'', dget experiment ''containerRecords'')])"

text \<open>One item: what is wrong with it, or its inventory entry and what the experiment is doing.\<close>

definition observe_item :: "bool \<Rightarrow> pyval \<Rightarrow> string + (pyval \<times> string)" where
  "observe_item scoped item =
     (case item of
        PDict it \<Rightarrow>
          rbind (item_identity scoped it) (\<lambda>(metadata, n, ns, kind).
          rbind (experiment_state it) (\<lambda>(conditions, experiment).
            Inr (PDict [(''kind'', PStr kind), (''name'', PStr n), (''namespace'', PStr ns),
                        (''uid'', dget metadata ''uid''),
                        (''resource_version'', dget metadata ''resourceVersion''),
                        (''status'', PDict (status_summary conditions experiment))],
                 chaos_activity_state (dget experiment ''phase'') conditions experiment)))
      | _ \<Rightarrow> Inl ''must be an object'')"

text \<open>
  The loop over the items: a bad item ends it with the inventory collected so far.
\<close>

fun observe_items ::
  "bool \<Rightarrow> nat \<Rightarrow> (pyval \<times> string) list \<Rightarrow> pyval list \<Rightarrow>
   (string \<times> pyval list) + (pyval \<times> string) list" where
  "observe_items scoped index seen [] = Inr seen"
| "observe_items scoped index seen (item # items) =
     (case observe_item scoped item of
        Inl why \<Rightarrow> Inl (''chaos observation item '' @ int_str (int index) @ '' '' @ why, map fst seen)
      | Inr observed \<Rightarrow> observe_items scoped (Suc index) (seen @ [observed]) items)"

definition active_of :: "(pyval \<times> string) list \<Rightarrow> pyval list" where
  "active_of seen = map fst (filter (\<lambda>p. snd p = ''active'') seen)"

definition observation_verdict :: "(pyval \<times> string) list \<Rightarrow> string \<times> string" where
  "observation_verdict seen =
     (if list_ex (\<lambda>p. snd p = ''unknown'') seen then (''unclassified'', ''active_state_unknown'')
      else if seen = [] then (''observed_empty'', ''no_active_experiments'')
      else if active_of seen \<noteq> [] then (''observed'', ''active_experiments'')
      else (''observed'', ''no_active_experiments''))"

definition listing_of :: "bool \<Rightarrow> (pyval \<times> string) list \<Rightarrow> pydict" where
  "listing_of scoped seen =
     [(''success'', PBool True), (''observation_status'', PStr (fst (observation_verdict seen))),
      (''evidence_status'', PStr (snd (observation_verdict seen))),
      (''active_experiments'', PList (active_of seen)), (''inventory'', PList (map fst seen)),
      (''inventory_count'', PInt (int (length seen))), (''inventory_complete'', PBool True),
      (''count'', PInt (int (length (active_of seen))))] @
     (if scoped then [(''namespace_scope'', PStr ''chaos-mesh'')] else [])"

definition list_command :: "bool \<Rightarrow> string list" where
  "list_command scoped =
     [''kubectl'', ''get'', join '','' CHAOS_RESOURCE_TYPES] @
     (if scoped then [''--namespace'', ''chaos-mesh''] else [''-A'']) @ [''-o'', ''json'']"

text \<open>\<open>run\<close> is the \<open>kubectl\<close> wrapper; \<open>scoped\<close> is the operational mode.\<close>

definition chaos_list_experiments ::
  "(string \<Rightarrow> pyval option) \<Rightarrow> (pyval \<Rightarrow> string) \<Rightarrow> (string list \<Rightarrow> pydict) \<Rightarrow> bool \<Rightarrow> pydict" where
  "chaos_list_experiments loads fmt run_command scoped =
     (let result = run_command (list_command scoped) in
      if \<not> truthy (dget result ''success'') then
        [(''success'', PBool False), (''observation_status'', PStr ''unavailable''),
         (''evidence_status'', PStr ''environment_unavailable''), (''active_experiments'', PList []),
         (''inventory'', PList []), (''inventory_complete'', PBool False),
         (''error'', py_or (py_or (dget result ''error'') (dget result ''stderr''))
                       (PStr ''chaos_observation_failed''))]
      else case loads (py_str fmt (py_or (dget result ''stdout'') (PStr ''{}''))) of
        None \<Rightarrow> invalid_chaos_observation ''chaos observation returned invalid JSON'' []
      | Some payload \<Rightarrow>
          (case dget (as_dict payload) ''items'' of
             PList items \<Rightarrow>
               (case observe_items scoped 0 [] items of
                  Inl (why, inventory) \<Rightarrow> invalid_chaos_observation why inventory
                | Inr seen \<Rightarrow> listing_of scoped seen)
           | _ \<Rightarrow> invalid_chaos_observation ''chaos observation requires an items list'' []))"

section \<open>Theorems\<close>

definition all_report :: "string \<Rightarrow> string \<Rightarrow> pyval list \<Rightarrow> bool" where
  "all_report ty v conditions \<longleftrightarrow> reports ty conditions \<noteq> [] \<and> set (reports ty conditions) \<subseteq> {v}"

lemma settled_state: "v \<noteq> ''unknown'' \<Longrightarrow> map_of (condition_states cs) ty = Some v \<longleftrightarrow> all_report ty v cs"
  by (simp add: condition_states_agree agreed_eq all_report_def)

lemma all_report_false_not_true: "all_report ty ''false'' cs \<Longrightarrow> \<not> all_report ty ''true'' cs"
  by (cases "reports ty cs") (auto simp: all_report_def)

text \<open>
  An experiment counts as active exactly when no global phase is reported, every report of \<open>Paused\<close>
  and every report of \<open>AllRecovered\<close> says false (and there is one of each), all container records are
  in a known phase and one of them is injected.
\<close>

theorem active_iff_positively_injected:
  "chaos_activity_state phase cs ex = ''active'' \<longleftrightarrow>
     phase = PNone \<and> all_report ''paused'' ''false'' cs \<and> all_report ''allrecovered'' ''false'' cs \<and>
     (\<exists>records. dget ex ''containerRecords'' = PList records \<and> known_phases (record_phases records) \<and>
        ''injected'' \<in> set (record_phases records))"
  using all_report_false_not_true [of _ cs]
  by (cases "dget ex ''containerRecords''")
     (auto simp: chaos_activity_state_def Let_def settled_state record_phases_def)

lemma not_blank_is_str: "\<not> blank_text v \<Longrightarrow> is_str v"
  by (cases v) (auto simp: blank_text_def)

lemma checked_if_listed:
  "list_all listed_condition cs \<Longrightarrow> list_all checked_condition cs"
  "list_all listed_record rs \<Longrightarrow> list_all (\<lambda>r. is_dict r \<and> is_str (dget (as_dict r) ''phase'')) rs"
  by (auto simp: list_all_iff listed_condition_def checked_condition_def listed_record_def
      dest!: bspec not_blank_is_str)

lemma no_conditions_not_active [simp]: "chaos_activity_state phase [] ex \<noteq> ''active''"
  by (simp add: chaos_activity_state_def condition_states_def)

lemma no_records_not_active: "\<not> is_list (dget ex ''containerRecords'') \<Longrightarrow> chaos_activity_state phase cs ex \<noteq> ''active''"
  by (auto simp: chaos_activity_state_def Let_def)

lemma dget_or_eq_dget: "dget d k \<noteq> PNone \<Longrightarrow> dget_or d k dflt = dget d k"
  by (auto simp: dget_def dget_or_def split: option.splits)

lemma explicit_none: "dget d k = PNone \<Longrightarrow> dget_or d k dflt = PNone \<or> dget_or d k dflt = dflt"
  by (auto simp: dget_def dget_or_def split: option.splits)

lemma listed_activity_agrees:
  assumes "experiment_state item = Inr (cs, ex)"
  shows "chaos_activity_state (dget ex ''phase'') cs ex = ''active'' \<longleftrightarrow>
         chaos_activity_for_resource (PDict item) = ''active''"
proof (cases "dget item ''status''")
  case (PDict st)
  show ?thesis
  proof (cases "dget st ''conditions'' = PNone \<or> dget st ''experiment'' = PNone")
    case True
    with PDict assms explicit_none [of st "''conditions''" "PList []"] explicit_none [of st "''experiment''" "PDict []"]
    show ?thesis
      by (auto simp: experiment_state_def chaos_activity_for_resource_def none_to_def no_records_not_active Let_def
          split: pyval.splits if_splits)
  next
    case False
    with PDict assms dget_or_eq_dget [of st "''conditions''" "PList []"] dget_or_eq_dget [of st "''experiment''" "PDict []"]
    show ?thesis
      by (auto simp: experiment_state_def chaos_activity_for_resource_def none_to_def checked_records_def Let_def
          dest: checked_if_listed split: pyval.splits if_splits)
  qed
qed (use assms in \<open>auto simp: experiment_state_def chaos_activity_for_resource_def none_to_def no_records_not_active split: if_splits\<close>)

lemma observe_items_all:
  "observe_items scoped i seen items = Inr all \<Longrightarrow>
   \<exists>more. all = seen @ more \<and> map_result (observe_item scoped) items = Inr more"
proof (induction items arbitrary: i seen)
  case Nil
  then show ?case by simp
next
  case (Cons item items)
  then obtain obs where "observe_item scoped item = Inr obs"
    and "observe_items scoped (Suc i) (seen @ [obs]) items = Inr all"
    by (auto split: sum.splits)
  with Cons.IH show ?case by fastforce
qed

lemma observed_active:
  "observe_item scoped item = Inr (obs, a) \<Longrightarrow>
   a = ''active'' \<longleftrightarrow> chaos_activity_for_resource item = ''active''"
  by (cases item) (auto simp: observe_item_def rbind_eq_Inr listed_activity_agrees)

lemma active_of_items:
  "map_result (observe_item scoped) items = Inr seen \<Longrightarrow>
   active_of seen =
     map fst (filter (\<lambda>p. chaos_activity_for_resource (snd p) = ''active'') (zip (map fst seen) items))"
proof (induction items arbitrary: seen)
  case Nil
  then show ?case by (simp add: active_of_def)
next
  case (Cons item items)
  then obtain obs a rest where "observe_item scoped item = Inr (obs, a)"
    and "map_result (observe_item scoped) items = Inr rest" and "seen = (obs, a) # rest"
    by (auto simp: rbind_eq_Inr)
  with Cons.IH [of rest] observed_active [of scoped item obs a] show ?case
    by (simp add: active_of_def)
qed

lemma listing_fields:
  "dget (listing_of scoped seen) ''inventory'' = PList (map fst seen)"
  "dget (listing_of scoped seen) ''active_experiments'' = PList (active_of seen)"
  "dget (listing_of scoped seen) ''evidence_status'' = PStr (snd (observation_verdict seen))"
  by (simp_all add: listing_of_def)

lemma successful_listing:
  assumes "dget (chaos_list_experiments loads fmt run_command scoped) ''success'' = PBool True"
  shows "\<exists>payload items seen. loads (py_str fmt (py_or (dget (run_command (list_command scoped)) ''stdout'') (PStr ''{}''))) = Some payload \<and>
    dget (as_dict payload) ''items'' = PList items \<and> map_result (observe_item scoped) items = Inr seen \<and>
    chaos_list_experiments loads fmt run_command scoped = listing_of scoped seen"
  using assms
  by (auto simp: chaos_list_experiments_def Let_def invalid_chaos_observation_def
      dest!: observe_items_all split: if_splits option.splits pyval.splits sum.splits)

lemma quiet_verdict:
  "snd (observation_verdict seen) = ''no_active_experiments'' \<Longrightarrow> active_of seen = []"
  by (auto simp: observation_verdict_def active_of_def split: if_splits)

text \<open>
  A successful listing has one inventory entry per listed item, its active experiments are exactly
  the entries whose item the stop operation would find active, and the answer that nothing is active
  is given only when that is so of every item.
\<close>

theorem listing_shows_exactly_the_active:
  assumes "dget (chaos_list_experiments loads fmt run_command scoped) ''success'' = PBool True"
  shows "\<exists>payload items inventory.
    loads (py_str fmt (py_or (dget (run_command (list_command scoped)) ''stdout'') (PStr ''{}''))) = Some payload \<and>
    dget (as_dict payload) ''items'' = PList items \<and> length inventory = length items \<and>
    dget (chaos_list_experiments loads fmt run_command scoped) ''inventory'' = PList inventory \<and>
    dget (chaos_list_experiments loads fmt run_command scoped) ''active_experiments'' =
      PList (map fst (filter (\<lambda>p. chaos_activity_for_resource (snd p) = ''active'') (zip inventory items))) \<and>
    (dget (chaos_list_experiments loads fmt run_command scoped) ''evidence_status'' =
       PStr ''no_active_experiments'' \<longrightarrow>
     (\<forall>item \<in> set items. chaos_activity_for_resource item \<noteq> ''active''))"
proof -
  from successful_listing [OF assms] obtain payload items seen where
    decoded: "loads (py_str fmt (py_or (dget (run_command (list_command scoped)) ''stdout'') (PStr ''{}''))) = Some payload"
    and items: "dget (as_dict payload) ''items'' = PList items"
    and seen: "map_result (observe_item scoped) items = Inr seen"
    and listing: "chaos_list_experiments loads fmt run_command scoped = listing_of scoped seen" by blast
  have len: "length (map fst seen) = length items" using map_result_length [OF seen] by simp
  have quiet: "\<forall>item \<in> set items. chaos_activity_for_resource item \<noteq> ''active''"
    if "snd (observation_verdict seen) = ''no_active_experiments''"
  proof
    fix item assume "item \<in> set items"
    with map_result_in [OF seen] obtain obs a where "(obs, a) \<in> set seen"
      and "observe_item scoped item = Inr (obs, a)" by fastforce
    with quiet_verdict [OF that] observed_active [of scoped item obs a]
    show "chaos_activity_for_resource item \<noteq> ''active''" by (auto simp: active_of_def filter_empty_conv)
  qed
  show ?thesis
    using decoded items len quiet
    by (intro exI [of _ payload] exI [of _ items] exI [of _ "map fst seen"])
       (simp add: listing listing_fields active_of_items [OF seen])
qed

definition sample_resource :: pyval where
  "sample_resource =
     PDict [(''kind'', PStr ''PodChaos''),
            (''metadata'', PDict [(''name'', PStr ''kill''), (''namespace'', PStr ''chaos-mesh''),
                                  (''uid'', PStr ''u''), (''resourceVersion'', PStr ''7'')]),
            (''status'', PDict [(''conditions'', PList
                 [PDict [(''type'', PStr ''Paused''), (''status'', PStr ''False'')],
                  PDict [(''type'', PStr ''AllRecovered''), (''status'', PStr ''False'')]]),
               (''experiment'', PDict [(''containerRecords'',
                  PList [PDict [(''phase'', PStr ''Injected'')]])])])]"

definition sample_chaos_api :: chaos_api where
  "sample_chaos_api =
     \<lparr>ca_open = (\<lambda>_. None), ca_get = (\<lambda>_ _ _ _. Inr sample_resource), ca_delete = (\<lambda>_ _ _ _ _ _. None)\<rparr>"

lemma listing_shows_exactly_the_active_witness:
  "\<exists>obs. dget (chaos_list_experiments (\<lambda>_. Some (PDict [(''items'', PList [sample_resource])])) (\<lambda>_. '''')
      (\<lambda>_. [(''success'', PBool True)]) True) ''active_experiments'' = PList [obs]"
proof -
  have "dget (chaos_list_experiments (\<lambda>_. Some (PDict [(''items'', PList [sample_resource])])) (\<lambda>_. '''')
      (\<lambda>_. [(''success'', PBool True)]) True) ''success'' = PBool True" by code_simp
  moreover have "chaos_activity_for_resource sample_resource = ''active''" by code_simp
  ultimately show ?thesis
    using listing_shows_exactly_the_active [of "\<lambda>_. Some (PDict [(''items'', PList [sample_resource])])"
        "\<lambda>_. ''''" "\<lambda>_. [(''success'', PBool True)]" True]
    by (auto simp: length_Suc_conv)
qed

lemma with_client_calls:
  "c \<in> set (fst (with_client api ctx body)) \<Longrightarrow> is_delete c \<Longrightarrow> ca_open api ctx = None \<and> c \<in> set (fst body)"
  by (auto simp: with_client_def split: option.splits)

lemma scoped_body_deletes:
  assumes "c \<in> set (fst (scoped_body api sc))" and "is_delete c"
  shows "\<exists>resource version. ca_get api (Some (sc_context sc)) (resource_plural (sc_kind sc)) (sc_namespace sc) (sc_name sc)
        = Inr resource \<and> scoped_decision sc resource = Inr version \<and>
      c = DeleteObject (resource_plural (sc_kind sc)) (sc_namespace sc) (sc_name sc) (sc_uid sc) version"
  using assms
  by (auto simp: scoped_body_def Let_def delete_call_def split: sum.splits hook.splits option.splits if_splits)

lemma stop_body_deletes:
  assumes "c \<in> set (fst (stop_body api ctx k n ns))" and "is_delete c"
  shows "\<exists>resource uid version. ca_get api ctx (resource_plural k) ns n = Inr resource \<and>
      stop_decision n ns resource = Inr (uid, version) \<and> c = DeleteObject (resource_plural k) ns n uid version"
  using assms
  by (auto simp: stop_body_def Let_def delete_call_def split: sum.splits option.splits if_splits)

definition seen_active :: "chaos_api \<Rightarrow> string option \<Rightarrow> chaos_call \<Rightarrow> bool" where
  "seen_active api ctx c \<longleftrightarrow>
     (\<exists>k ns n uid version resource m. c = DeleteObject k ns n uid version \<and>
        k \<in> ALLOWED_CHAOS_KINDS \<and> ns = ''chaos-mesh'' \<and> safe_name n \<and>
        ca_get api ctx k ns n = Inr resource \<and> metadata_of resource = Some m \<and>
        dget m ''uid'' = PStr uid \<and> dget m ''resourceVersion'' = PStr version \<and> py_strip version \<noteq> [] \<and>
        chaos_activity_for_resource resource = ''active'')"

lemma precondition_text: "valid_precondition v \<Longrightarrow> v = PStr (text_of v) \<and> py_strip (text_of v) \<noteq> []"
  by (cases v) (auto simp: valid_precondition_def)

lemma scoped_decision_active:
  "scoped_decision sc resource = Inr version \<Longrightarrow>
   \<exists>m. metadata_of resource = Some m \<and> dget m ''uid'' = PStr (sc_uid sc) \<and>
       dget m ''resourceVersion'' = PStr version \<and> py_strip version \<noteq> [] \<and>
       chaos_activity_for_resource resource = ''active''"
  by (auto simp: scoped_decision_def dest: precondition_text split: option.splits if_splits)

lemma stop_decision_active:
  "stop_decision n ns resource = Inr (uid, version) \<Longrightarrow>
   \<exists>m. metadata_of resource = Some m \<and> dget m ''uid'' = PStr uid \<and>
       dget m ''resourceVersion'' = PStr version \<and> py_strip version \<noteq> [] \<and>
       chaos_activity_for_resource resource = ''active''"
  by (auto simp: stop_decision_def dest: precondition_text split: option.splits if_splits)

lemma stop_scoped_calls:
  "fst (stop_scoped_chaos_experiment fmt api sc k n ns) =
     (if (k, n, ns) \<noteq> (sc_kind sc, sc_name sc, sc_namespace sc) then []
      else fst (with_client api (Some (sc_context sc)) (scoped_body api sc)))"
  by (auto simp: stop_scoped_chaos_experiment_def Let_def split: prod.splits sum.splits)

lemma stop_calls_cases:
  assumes "chaos_stop_experiment fmt api pinned env scope kind name namespace = (calls, r)" and "calls \<noteq> []"
  obtains (scoped) sc k n where "scope = Some sc" "k \<in> ALLOWED_CHAOS_KINDS" "safe_name n"
      "calls = fst (stop_scoped_chaos_experiment fmt api sc k n ''chaos-mesh'')"
    | (free) k n where "scope = None" "k \<in> ALLOWED_CHAOS_KINDS" "safe_name n"
      "calls = fst (with_client api (kube_context pinned env)
                     (stop_body api (kube_context pinned env) k n ''chaos-mesh''))"
  using assms
  by (auto simp: chaos_stop_experiment_def Let_def ALLOWED_CHAOS_NAMESPACES_def
      split: if_splits option.splits prod.splits sum.splits)

lemma with_client_deletes:
  "length (filter is_delete (fst (with_client api ctx body))) \<le> length (filter is_delete (fst body))"
  by (auto simp: with_client_def split: option.splits)

lemma scoped_body_one_delete: "length (filter is_delete (fst (scoped_body api sc))) \<le> 1"
  by (auto simp: scoped_body_def Let_def delete_call_def split: sum.splits hook.splits option.splits)

lemma stop_body_one_delete: "length (filter is_delete (fst (stop_body api ctx k n ns))) \<le> 1"
  by (auto simp: stop_body_def Let_def delete_call_def split: sum.splits option.splits)

text \<open>
  C18. Whatever the arguments, a stop deletes at most one object, and only an allowlisted kind in the
  chaos namespace that it has just read under the same client, found positively injected, and pins by
  the uid and the resource version it read; inside a scope the object is the one the scope is bound to.
\<close>

theorem stop_deletes_only_the_observed_experiment:
  assumes "chaos_stop_experiment fmt api pinned env scope kind name namespace = (calls, r)"
    and "c \<in> set calls" and "is_delete c"
  shows "length (filter is_delete calls) = 1 \<and>
    seen_active api (case scope of None \<Rightarrow> kube_context pinned env | Some sc \<Rightarrow> Some (sc_context sc)) c \<and>
    (\<forall>sc. scope = Some sc \<longrightarrow>
       (\<exists>version. c = DeleteObject (sc_kind sc) (sc_namespace sc) (sc_name sc) (sc_uid sc) version))"
proof -
  from assms(2) have "calls \<noteq> []" by auto
  from assms(2,3) have one: "length (filter is_delete calls) \<noteq> 0" by (auto simp: filter_empty_conv)
  from assms(1) \<open>calls \<noteq> []\<close> show ?thesis
  proof (cases rule: stop_calls_cases)
    case (scoped sc k n)
    with assms(2) have same: "(k, n, ''chaos-mesh'') = (sc_kind sc, sc_name sc, sc_namespace sc)"
      and calls: "calls = fst (with_client api (Some (sc_context sc)) (scoped_body api sc))"
      by (auto simp: stop_scoped_calls split: if_splits)
    from calls assms(2,3) have "c \<in> set (fst (scoped_body api sc))" by (auto dest: with_client_calls)
    from scoped_body_deletes [OF this assms(3)] scoped same obtain resource version where
      read: "ca_get api (Some (sc_context sc)) k ''chaos-mesh'' n = Inr resource"
      and decision: "scoped_decision sc resource = Inr version"
      and c: "c = DeleteObject k ''chaos-mesh'' n (sc_uid sc) version" by auto
    have "length (filter is_delete calls) \<le> 1"
      using with_client_deletes scoped_body_one_delete unfolding calls by (rule le_trans)
    with one have "length (filter is_delete calls) = 1" by linarith
    with scoped_decision_active [OF decision] read c scoped same show ?thesis by (auto simp: seen_active_def)
  next
    case (free k n)
    then have "c \<in> set (fst (stop_body api (kube_context pinned env) k n ''chaos-mesh''))"
      using assms(2,3) by (auto dest: with_client_calls)
    from stop_body_deletes [OF this assms(3)] free obtain resource uid version where
      read: "ca_get api (kube_context pinned env) k ''chaos-mesh'' n = Inr resource"
      and decision: "stop_decision n ''chaos-mesh'' resource = Inr (uid, version)"
      and c: "c = DeleteObject k ''chaos-mesh'' n uid version" by auto
    have "length (filter is_delete calls) \<le> 1"
      using with_client_deletes stop_body_one_delete unfolding free(4) by (rule le_trans)
    with one have "length (filter is_delete calls) = 1" by linarith
    with stop_decision_active [OF decision] read c free show ?thesis by (auto simp: seen_active_def)
  qed
qed

lemma stop_deletes_only_the_observed_experiment_witness:
  "seen_active sample_chaos_api None (DeleteObject ''podchaos'' ''chaos-mesh'' ''kill'' ''u'' ''7'')"
proof -
  have "chaos_stop_experiment (\<lambda>_. '''') sample_chaos_api None '''' None (PStr '' PodChaos'') (PStr ''kill'') (PStr ''chaos-mesh'') =
     ([OpenClient None, GetObject ''podchaos'' ''chaos-mesh'' ''kill'',
       DeleteObject ''podchaos'' ''chaos-mesh'' ''kill'' ''u'' ''7'', CloseClient],
      stopped (stop_result ''podchaos'' ''kill'' ''chaos-mesh'') ''u'' ''7'')" by code_simp
  from stop_deletes_only_the_observed_experiment
    [OF this, of "DeleteObject ''podchaos'' ''chaos-mesh'' ''kill'' ''u'' ''7''"]
  show ?thesis by (simp add: kube_context_def)
qed

end
