(* ===== verification/KubeItems.thy ===== *)
theory KubeItems
  imports PyValue
begin

text \<open>
  \<open>agents/verifier.py\<close>, the data both verification policies share: specifications, check results, the
  catalogue of services, and the parsing of a Kubernetes list response.  \<open>loads\<close> is \<open>json.loads\<close> on
  text (\<open>None\<close> when it raises \<open>ValueError\<close>); \<open>vfmt\<close> holds the texts of containers and floats that
  appear in messages.
\<close>

section \<open>Data\<close>

record vfmt =
  vf_str :: "pyval \<Rightarrow> string"
  vf_general :: "rat \<Rightarrow> string"
  vf_fixed3 :: "rat \<Rightarrow> string"
  vf_fixed4 :: "rat \<Rightarrow> string"
  vf_repr :: "string \<Rightarrow> string"
  vf_exn :: "py_exn \<Rightarrow> string"
  vf_exn_type :: "py_exn \<Rightarrow> string"

record workload =
  wl_name :: string
  wl_kind :: string
  wl_namespace :: string
  wl_min_ready :: int
  wl_min_fraction :: rat

record metric =
  mp_query :: string
  mp_operator :: string
  mp_threshold :: rat
  mp_description :: string

record vspec =
  vs_id :: string
  vs_workloads :: "workload list"
  vs_alerts :: "string list"
  vs_metrics :: "metric list"
  vs_chaos_cleared :: bool
  vs_no_legacy :: "string list"

record check =
  ck_name :: string
  ck_target :: string
  ck_passed :: bool
  ck_required :: bool
  ck_details :: string
  ck_observed :: pyval

record verdict =
  vd_id :: string
  vd_claimed :: bool
  vd_resolved :: bool
  vd_status :: string
  vd_checks :: "check list"
  vd_failed :: "string list"
  vd_metrics :: pydict
  vd_evidence :: "string list"
  vd_false_resolution :: bool
  vd_false_negative :: bool
  vd_error :: "string option"

text \<open>\<open>CheckResult\<close> with its defaults.\<close>

definition mk_check :: "string \<Rightarrow> string \<Rightarrow> bool \<Rightarrow> string \<Rightarrow> pyval \<Rightarrow> check" where
  "mk_check name target passed details observed =
     \<lparr>ck_name = name, ck_target = target, ck_passed = passed, ck_required = True,
      ck_details = details, ck_observed = observed\<rparr>"

abbreviation failing :: "string \<Rightarrow> string \<Rightarrow> string \<Rightarrow> check" where
  "failing name target details \<equiv> mk_check name target False details PNone"

lemma mk_check_simps [simp]:
  "ck_name (mk_check n t p d v) = n"
  "ck_target (mk_check n t p d v) = t"
  "ck_passed (mk_check n t p d v) = p"
  "ck_required (mk_check n t p d v) = True"
  "ck_details (mk_check n t p d v) = d"
  "ck_observed (mk_check n t p d v) = v"
  by (simp_all add: mk_check_def)

definition make_workload :: "string \<Rightarrow> string \<Rightarrow> workload" where
  "make_workload name ns =
     \<lparr>wl_name = name, wl_kind = ''deployment'', wl_namespace = ns, wl_min_ready = 1, wl_min_fraction = 1\<rparr>"

definition ONLINE_BOUTIQUE_SERVICES :: "string set" where
  "ONLINE_BOUTIQUE_SERVICES =
     {''adservice'', ''cartservice'', ''checkoutservice'', ''currencyservice'', ''emailservice'',
      ''frontend'', ''loadgenerator'', ''paymentservice'', ''productcatalogservice'',
      ''recommendationservice'', ''redis-cart'', ''shippingservice''}"

definition OPERATIONAL_AVAILABILITY_ALERT :: string where
  "OPERATIONAL_AVAILABILITY_ALERT = ''AtlasOpsOnlineBoutiqueDeploymentUnavailable''"

section \<open>Kubernetes lists\<close>

text \<open>\<open>not isinstance(v, str) or not v or v != v.strip()\<close>, negated.\<close>

definition clean_text :: "pyval \<Rightarrow> string option" where
  "clean_text v = (case v of PStr s \<Rightarrow> if s \<noteq> [] \<and> py_strip s = s then Some s else None | _ \<Rightarrow> None)"

definition unexpected :: "string option \<Rightarrow> pyval \<Rightarrow> bool" where
  "unexpected expected v \<longleftrightarrow> (case expected of None \<Rightarrow> False | Some e \<Rightarrow> v \<noteq> PStr e)"

definition succeeded :: "pyval \<Rightarrow> bool" where
  "succeeded response \<longleftrightarrow> dget (as_dict response) ''success'' = PBool True"

text \<open>The body of the response: its parsed value, else its output text decoded.\<close>

definition response_body :: "(string \<Rightarrow> pyval option) \<Rightarrow> pydict \<Rightarrow> pyval option" where
  "response_body loads response =
     (let parsed = dget response ''parsed'' in
      if truthy parsed then Some parsed
      else case dget response ''stdout'' of
        PStr text \<Rightarrow> if py_strip text = [] then None else loads text
      | _ \<Rightarrow> None)"

fun check_items ::
  "string option \<Rightarrow> string option \<Rightarrow> nat \<Rightarrow> pyval list \<Rightarrow> string + pydict list" where
  "check_items api kind n [] = Inr []"
| "check_items api kind n (item # items) =
     (let d = as_dict item in
      if clean_text (dget (as_dict (dget d ''metadata'')) ''name'') = None
      then Inl (''Kubernetes resource list item '' @ int_str (int n) @ '' had no valid metadata.name'')
      else if unexpected api (dget d ''apiVersion'')
      then Inl (''Kubernetes resource list item '' @ int_str (int n) @ '' had an unexpected apiVersion'')
      else if unexpected kind (dget d ''kind'')
      then Inl (''Kubernetes resource list item '' @ int_str (int n) @ '' had an unexpected kind'')
      else rbind (check_items api kind (n + 1) items) (\<lambda>ds. Inr (d # ds)))"

definition listed_items ::
  "string option \<Rightarrow> string option \<Rightarrow> string option \<Rightarrow> pydict \<Rightarrow> string + pyval" where
  "listed_items api list_kind kind body =
     (if unexpected api (dget body ''apiVersion'')
      then Inl ''Kubernetes response apiVersion was missing or unexpected''
      else if dhas body ''items'' then
        (if unexpected list_kind (dget body ''kind'')
         then Inl ''Kubernetes response kind was missing or unexpected''
         else Inr (dget body ''items''))
      else if is_dict (dget body ''metadata'') then
        (if unexpected kind (dget body ''kind'')
         then Inl ''Kubernetes object kind was missing or unexpected''
         else Inr (PList [PDict body]))
      else Inl ''Kubernetes response did not contain a resource list'')"

definition parse_kubernetes_items ::
  "(string \<Rightarrow> pyval option) \<Rightarrow> string option \<Rightarrow> string option \<Rightarrow> string option \<Rightarrow> pyval \<Rightarrow>
   string + pydict list" where
  "parse_kubernetes_items loads api list_kind kind response =
     (if \<not> succeeded response then Inl ''Kubernetes query did not return success''
      else case response_body loads (as_dict response) of
        None \<Rightarrow> Inl ''Kubernetes response did not contain parseable JSON''
      | Some (PDict body) \<Rightarrow>
          rbind (listed_items api list_kind kind body) (\<lambda>items.
            case items of
              PList xs \<Rightarrow> check_items api kind 0 xs
            | _ \<Rightarrow> Inl ''Kubernetes resource list items were malformed'')
      | Some _ \<Rightarrow> Inl ''Kubernetes response JSON was not an object'')"

text \<open>The name of an item, which parsing has checked.\<close>

definition item_name :: "pydict \<Rightarrow> pyval" where
  "item_name item = dget (as_dict (dget item ''metadata'')) ''name''"

lemma clean_text_Some: "clean_text v = Some s \<longleftrightarrow> v = PStr s \<and> s \<noteq> [] \<and> py_strip s = s"
  by (cases v) (auto simp: clean_text_def)

lemma check_items_ok:
  "check_items api kind n items = Inr ds \<Longrightarrow>
   ds = map as_dict items \<and>
   (\<forall>d \<in> set ds. (\<exists>s. item_name d = PStr s \<and> s \<noteq> []) \<and>
      \<not> unexpected api (dget d ''apiVersion'') \<and> \<not> unexpected kind (dget d ''kind''))"
proof (induction items arbitrary: n ds)
  case Nil
  then show ?case by simp
next
  case (Cons item items)
  then show ?case
    by (auto simp: Let_def rbind_eq_Inr item_name_def clean_text_Some split: if_splits)
qed

lemma parse_ok:
  assumes "parse_kubernetes_items loads api list_kind kind response = Inr ds"
  shows "succeeded response"
    and "\<forall>d \<in> set ds. (\<exists>s. item_name d = PStr s \<and> s \<noteq> []) \<and>
           \<not> unexpected api (dget d ''apiVersion'') \<and> \<not> unexpected kind (dget d ''kind'')"
proof -
  show "succeeded response"
    using assms by (simp add: parse_kubernetes_items_def split: if_splits)
  with assms obtain body where "response_body loads (as_dict response) = Some body"
    by (auto simp: parse_kubernetes_items_def split: option.splits)
  with assms \<open>succeeded response\<close> obtain items where
    "(case items of PList xs \<Rightarrow> check_items api kind 0 xs
      | _ \<Rightarrow> Inl ''Kubernetes resource list items were malformed'') = Inr ds"
    by (cases body) (auto simp: parse_kubernetes_items_def rbind_eq_Inr)
  then obtain xs where "check_items api kind 0 xs = Inr ds" by (cases items) auto
  from check_items_ok [OF this] show "\<forall>d \<in> set ds. (\<exists>s. item_name d = PStr s \<and> s \<noteq> []) \<and>
           \<not> unexpected api (dget d ''apiVersion'') \<and> \<not> unexpected kind (dget d ''kind'')" by blast
qed

end
