(* ===== verification/ActionExecution.thy ===== *)
theory ActionExecution
  imports Chaos KubeItems Json
begin

text \<open>
  \<open>agents/action_execution.py\<close>: a mutation is prepared against the resource it will change, approved
  as prepared, and executed with the identity of that resource as its precondition.  The Kubernetes
  client is a parameter: \<open>kc_host\<close> is the configured server, \<open>kc_request\<close> answers a request by method,
  path and body.  The environment is a record of the variables the code reads.  \<open>ip_ok\<close> is the check
  of \<open>urllib.parse\<close> that a bracketed host is an IP address.  \<open>json.loads(_json(v))\<close> is the value with
  the keys of its dictionaries sorted.
\<close>

section \<open>Data\<close>

record resource_identity =
  ri_server :: string
  ri_context :: string
  ri_api_version :: string
  ri_kind :: string
  ri_namespace :: string
  ri_name :: string
  ri_uid :: string
  ri_resource_version :: string

record prepared_action =
  pa_tool :: string
  pa_arguments :: pyval
  pa_target :: resource_identity
  pa_patch :: pyval
  pa_verification_target :: "resource_identity option"

record action_env =
  ae_pinned_context :: "string option"
  ae_context :: string
  ae_in_cluster :: bool
  ae_workload_namespace :: string
  ae_argocd_namespace :: string
  ae_argocd_app :: string

text \<open>
  What leaves an operation: a refusal to prepare, a Python exception, or an exception of the client.
\<close>

datatype action_exn = Refused string | PyRaised py_exn | ClientRaised api_fault

record kube_client =
  kc_open :: "string option \<Rightarrow> api_fault option"
  kc_host :: "string option \<Rightarrow> string"
  kc_request :: "string option \<Rightarrow> string \<Rightarrow> string \<Rightarrow> pyval option \<Rightarrow> api_fault + pyval"

definition lift_py :: "py_exn + 'a \<Rightarrow> action_exn + 'a" where
  "lift_py r = (case r of Inl e \<Rightarrow> Inl (PyRaised e) | Inr x \<Rightarrow> Inr x)"

definition lift_client :: "api_fault + 'a \<Rightarrow> action_exn + 'a" where
  "lift_client r = (case r of Inl e \<Rightarrow> Inl (ClientRaised e) | Inr x \<Rightarrow> Inr x)"

lemma lift_eq_Inr [simp]:
  "lift_py r = Inr x \<longleftrightarrow> r = Inr x"
  "lift_client r' = Inr x \<longleftrightarrow> r' = Inr x"
  by (cases r; cases r'; simp add: lift_py_def lift_client_def)+

definition require_that :: "bool \<Rightarrow> string \<Rightarrow> action_exn + unit" where
  "require_that ok why = (if ok then Inr () else Inl (Refused why))"

lemma require_that_Inr [simp]: "require_that ok why = Inr u \<longleftrightarrow> ok"
  by (simp add: require_that_def)

section \<open>Paths\<close>

text \<open>\<open>urllib.parse.quote(text, safe)\<close>.\<close>

definition unreserved :: "char \<Rightarrow> bool" where
  "unreserved c \<longleftrightarrow> (let n = (of_char c :: nat) in
     (65 \<le> n \<and> n \<le> 90) \<or> (97 \<le> n \<and> n \<le> 122) \<or> (48 \<le> n \<and> n \<le> 57) \<or> c \<in> {CHR ''_'', CHR ''.'', CHR ''-'', CHR 0x7E})"

definition hex_upper :: "nat \<Rightarrow> char" where
  "hex_upper n = (if n < 10 then char_of (48 + n) else char_of (55 + n))"

definition quote :: "char set \<Rightarrow> string \<Rightarrow> string" where
  "quote safe s = concat (map (\<lambda>c. if unreserved c \<or> c \<in> safe then [c]
     else let n = (of_char c :: nat) in [CHR 0x25, hex_upper (n div 16), hex_upper (n mod 16)]) s)"

text \<open>\<open>_RESOURCE_PATHS[kind].format(namespace=..., name=...)\<close>; \<open>None\<close> is the \<open>KeyError\<close>.\<close>

definition chaos_plural_of :: "string \<Rightarrow> string option" where
  "chaos_plural_of kind =
     map_option (\<lambda>p. resource_plural (fst p)) (find (\<lambda>p. snd p = kind) CANONICAL_KINDS)"

definition resource_path :: "string \<Rightarrow> string \<Rightarrow> string \<Rightarrow> string option" where
  "resource_path kind namespace name =
     (if kind = ''Deployment''
      then Some (''/apis/apps/v1/namespaces/'' @ namespace @ ''/deployments/'' @ name)
      else if kind = ''Application''
      then Some (''/apis/argoproj.io/v1alpha1/namespaces/'' @ namespace @ ''/applications/'' @ name)
      else map_option (\<lambda>plural.
             ''/apis/chaos-mesh.org/v1alpha1/namespaces/'' @ namespace @ ''/'' @ plural @ ''/'' @ name)
           (chaos_plural_of kind))"

definition identity_path :: "resource_identity \<Rightarrow> string option" where
  "identity_path i = resource_path (ri_kind i) (quote {} (ri_namespace i)) (quote {} (ri_name i))"

section \<open>Server addresses\<close>

text \<open>
  The parts of \<open>urllib.parse.urlsplit\<close> the code reads.
\<close>

record url_parts =
  up_scheme :: string
  up_netloc :: string
  up_query :: string
  up_fragment :: string

definition drop_char :: "nat list \<Rightarrow> string \<Rightarrow> string" where
  "drop_char ns s = filter (\<lambda>c. (of_char c :: nat) \<notin> set ns) s"

definition scheme_char :: "char \<Rightarrow> bool" where
  "scheme_char c \<longleftrightarrow> (let n = (of_char c :: nat) in
     (65 \<le> n \<and> n \<le> 90) \<or> (97 \<le> n \<and> n \<le> 122) \<or> (48 \<le> n \<and> n \<le> 57) \<or> c \<in> {CHR ''+'', CHR ''-'', CHR ''.''})"

definition ascii_letter :: "char \<Rightarrow> bool" where
  "ascii_letter c \<longleftrightarrow> (let n = (of_char c :: nat) in (65 \<le> n \<and> n \<le> 90) \<or> (97 \<le> n \<and> n \<le> 122))"

text \<open>\<open>s.partition(c)\<close>: before, whether the separator occurs, after; and the last occurrence.\<close>

definition partition_char :: "char \<Rightarrow> string \<Rightarrow> string \<times> bool \<times> string" where
  "partition_char c s =
     (case dropWhile (\<lambda>x. x \<noteq> c) s of [] \<Rightarrow> (s, False, []) | _ # rest \<Rightarrow> (takeWhile (\<lambda>x. x \<noteq> c) s, True, rest))"

definition rpartition_char :: "char \<Rightarrow> string \<Rightarrow> string \<times> bool \<times> string" where
  "rpartition_char c s =
     (case partition_char c (rev s) of
        (_, False, _) \<Rightarrow> ([], False, s)
      | (after, True, before) \<Rightarrow> (rev before, True, rev after))"

definition split_scheme :: "string \<Rightarrow> string \<times> string" where
  "split_scheme url =
     (case partition_char (CHR '':'') url of
        (before, found, rest) \<Rightarrow>
          if found \<and> before \<noteq> [] \<and> ascii_letter (hd before) \<and> list_all scheme_char before
          then (py_lower before, rest) else ([], url))"

definition urlsplit :: "(string \<Rightarrow> bool) \<Rightarrow> string \<Rightarrow> py_exn + url_parts" where
  "urlsplit ip_ok text =
     (let url0 = drop_char [9, 10, 13] (dropWhile (\<lambda>c. (of_char c :: nat) \<le> 32) text);
          (scheme, url) = split_scheme url0;
          (netloc, rest) =
            (if take 2 url = ''//''
             then (takeWhile (\<lambda>c. c \<notin> {CHR ''/'', CHR ''?'', CHR ''#''}) (drop 2 url),
                   dropWhile (\<lambda>c. c \<notin> {CHR ''/'', CHR ''?'', CHR ''#''}) (drop 2 url))
             else ([], url));
          (before_fragment, _, fragment) = partition_char (CHR ''#'') rest;
          (_, _, query) = partition_char (CHR ''?'') before_fragment;
          opened = CHR ''['' \<in> set netloc; closed = CHR '']'' \<in> set netloc
      in if opened \<noteq> closed \<or> (opened \<and> \<not> ip_ok netloc) then Inl ValueError
         else Inr \<lparr>up_scheme = scheme, up_netloc = netloc, up_query = query, up_fragment = fragment\<rparr>)"

definition has_userinfo :: "url_parts \<Rightarrow> bool" where
  "has_userinfo u \<longleftrightarrow> CHR ''@'' \<in> set (up_netloc u)"

definition url_hostname :: "url_parts \<Rightarrow> string" where
  "url_hostname u =
     (case rpartition_char (CHR ''@'') (up_netloc u) of
        (_, _, hostinfo) \<Rightarrow>
          (case partition_char (CHR ''['') hostinfo of
             (_, True, bracketed) \<Rightarrow> fst (partition_char (CHR '']'') bracketed)
           | (_, False, _) \<Rightarrow> fst (partition_char (CHR '':'') hostinfo)))"

text \<open>\<open>host.rstrip("/")\<close>.\<close>

definition strip_slashes :: "string \<Rightarrow> string" where
  "strip_slashes s = rev (dropWhile (\<lambda>c. c = CHR ''/'') (rev s))"

definition valid_server :: "(string \<Rightarrow> bool) \<Rightarrow> string \<Rightarrow> py_exn + bool" where
  "valid_server ip_ok server =
     rbind (urlsplit ip_ok server) (\<lambda>u.
       Inr (up_scheme u \<in> {''http'', ''https''} \<and> url_hostname u \<noteq> [] \<and> \<not> has_userinfo u \<and>
            up_query u = [] \<and> up_fragment u = []))"

section \<open>Identities\<close>

function json_sorted :: "pyval \<Rightarrow> pyval" where
  "json_sorted (PList xs) = PList (map json_sorted xs)"
| "json_sorted (PDict d) = PDict (sort_key fst (map (\<lambda>p. (fst p, json_sorted (snd p))) d))"
| "json_sorted PNone = PNone"
| "json_sorted (PBool b) = PBool b"
| "json_sorted (PInt i) = PInt i"
| "json_sorted (PFloat x) = PFloat x"
| "json_sorted (PStr s) = PStr s"
  by pat_completeness auto

termination json_sorted
  by (relation "measure size") (auto simp: size_snd_pydict size_elem_pylist)

text \<open>\<open>json.loads(_json(v))\<close>.\<close>

definition json_round_trip :: "pyval \<Rightarrow> py_exn + pyval" where
  "json_round_trip v = (if json_finite v then Inr (json_sorted v) else Inl ValueError)"

definition nonblank :: "pyval \<Rightarrow> bool" where
  "nonblank v \<longleftrightarrow> (case v of PStr s \<Rightarrow> py_strip s \<noteq> [] | _ \<Rightarrow> False)"

definition identity_of ::
  "(string \<Rightarrow> bool) \<Rightarrow> kube_client \<Rightarrow> string option \<Rightarrow> pyval \<Rightarrow> string \<Rightarrow> string \<Rightarrow> string \<Rightarrow> string \<Rightarrow>
   action_exn + resource_identity" where
  "identity_of ip_ok kc ctx resource kind namespace name api_version =
     (let m = as_dict (dget (as_dict resource) ''metadata''); server = strip_slashes (kc_host kc ctx) in
      rbind (require_that
          (metadata_of resource \<noteq> None \<and>
           dget (as_dict resource) ''kind'' = PStr kind \<and> dget (as_dict resource) ''apiVersion'' = PStr api_version \<and>
           dget m ''name'' = PStr name \<and> dget m ''namespace'' = PStr namespace \<and>
           nonblank (dget m ''uid'') \<and> nonblank (dget m ''resourceVersion''))
          ''Kubernetes response has no matching pinned resource identity'') (\<lambda>_.
      rbind (lift_py (valid_server ip_ok server)) (\<lambda>ok.
      rbind (require_that ok ''Kubernetes server identity is invalid'') (\<lambda>_.
        Inr \<lparr>ri_server = server,
             ri_context = (case ctx of Some c \<Rightarrow> if c = [] then ''in-cluster'' else c | None \<Rightarrow> ''in-cluster''),
             ri_api_version = api_version, ri_kind = kind, ri_namespace = namespace, ri_name = name,
             ri_uid = text_of (dget m ''uid''), ri_resource_version = text_of (dget m ''resourceVersion'')\<rparr>))))"

definition test_op :: "string \<Rightarrow> string \<Rightarrow> pyval" where
  "test_op path v = PDict [(''op'', PStr ''test''), (''path'', PStr path), (''value'', PStr v)]"

definition identity_tests :: "resource_identity \<Rightarrow> pyval list" where
  "identity_tests i =
     [test_op ''/metadata/uid'' (ri_uid i), test_op ''/metadata/resourceVersion'' (ri_resource_version i)]"

text \<open>\<open>[a-z0-9](?:[-a-z0-9.]*[a-z0-9])?\<close>, at most 253 characters.\<close>

definition checked_name :: "pyval \<Rightarrow> action_exn + string" where
  "checked_name v =
     (case v of
        PStr s \<Rightarrow>
          (if length s > 253 \<or> \<not> delimited_name {CHR ''-'', CHR ''.''} s
           then Inl (Refused ''Invalid Kubernetes resource name'') else Inr s)
      | _ \<Rightarrow> Inl (Refused ''Invalid Kubernetes resource name''))"

lemma checked_name_eq: "checked_name v = Inr s \<Longrightarrow> v = PStr s"
  by (auto simp: checked_name_def split: pyval.splits if_splits)

section \<open>The workload an action may touch\<close>

definition workload_target ::
  "(pyval \<Rightarrow> string) \<Rightarrow> action_env \<Rightarrow> pydict \<Rightarrow> action_exn + (string \<times> string)" where
  "workload_target fmt env arguments =
     (let namespace = dget_or arguments ''namespace'' (PStr ''default'');
          given = dget_or arguments ''deployment'' (dget_or arguments ''resource'' (PStr ''''));
          (kind, slash, rest) = partition_char (CHR ''/'') (py_str fmt given)
      in rbind (require_that (\<not> slash \<or> kind \<in> {''deployment'', ''deployments'', ''deploy''})
                  ''Only Deployment mutations are supported operationally'') (\<lambda>_.
         rbind (checked_name (if slash then PStr rest else given)) (\<lambda>name.
         rbind (require_that (namespace = PStr (ae_workload_namespace env) \<and> name \<in> ONLINE_BOUTIQUE_SERVICES)
                  ''Action target is outside the Online Boutique workload scope'') (\<lambda>_.
         rbind (checked_name namespace) (\<lambda>ns. Inr (ns, name))))))"

fun unhashable :: "pyval \<Rightarrow> bool" where
  "unhashable (PList _) = True"
| "unhashable (PDict _) = True"
| "unhashable _ = False"

text \<open>The label sets of the alerts, after the common labels.\<close>

definition item_labels :: "pyval \<Rightarrow> action_exn + pydict" where
  "item_labels item =
     (case dget (as_dict item) ''labels'' of
        PDict labels \<Rightarrow> Inr labels
      | _ \<Rightarrow> Inl (Refused ''Incident workload labels are malformed''))"

definition WORKLOAD_LABELS :: "string list" where
  "WORKLOAD_LABELS = [''deployment'', ''service'', ''app'']"

definition names_workload :: "pydict \<Rightarrow> pydict \<Rightarrow> bool" where
  "names_workload common selected \<longleftrightarrow> list_ex (\<lambda>k. dhas common k \<or> dhas selected k) WORKLOAD_LABELS"

definition label_names :: "pydict \<Rightarrow> action_exn + string list" where
  "label_names selected =
     map_result (\<lambda>k. checked_name (dget selected k)) (filter (dhas selected) WORKLOAD_LABELS)"

definition label_namespaces :: "pydict \<Rightarrow> action_exn + string list" where
  "label_namespaces selected =
     (if dhas selected ''namespace'' then rbind (checked_name (dget selected ''namespace'')) (\<lambda>ns. Inr [ns])
      else Inr [])"

text \<open>One turn of the loop over \<open>enumerate(labels)\<close>; the common labels have index 0.\<close>

definition label_step :: "pydict \<Rightarrow> bool \<times> pydict \<Rightarrow> action_exn + (string list \<times> string list)" where
  "label_step common entry =
     (case entry of (first, selected) \<Rightarrow>
       rbind (label_names selected) (\<lambda>names.
       rbind (label_namespaces selected) (\<lambda>namespaces.
       rbind (require_that (first \<or> (names_workload common selected \<and>
                                     (dhas common ''namespace'' \<or> dhas selected ''namespace'')))
                ''Each incident alert must identify its workload'') (\<lambda>_.
         Inr (names, namespaces)))))"

definition supported_alert :: "pydict \<Rightarrow> pydict list \<Rightarrow> py_exn + bool" where
  "supported_alert common selections =
     (let alertnames = map (\<lambda>d. dget d ''alertname'') (filter (\<lambda>d. dhas d ''alertname'') (common # selections))
      in if list_ex unhashable alertnames then Inl TypeError
         else Inr (alertnames \<noteq> [] \<and> set alertnames \<subseteq> {PStr OPERATIONAL_AVAILABILITY_ALERT} \<and>
                   list_all (\<lambda>d. dhas common ''alertname'' \<or> dhas d ''alertname'') selections))"

definition alert_workload ::
  "(pyval \<Rightarrow> string) \<Rightarrow> action_env \<Rightarrow> pyval \<Rightarrow> action_exn + (string \<times> string)" where
  "alert_workload fmt env alert =
     (case alert of
        PDict a \<Rightarrow>
          (case (dget_or a ''commonLabels'' (PDict []), dget a ''alerts'') of
             (PDict common, PList (item # items)) \<Rightarrow>
               rbind (map_result item_labels (item # items)) (\<lambda>selections.
               rbind (lift_py (supported_alert common selections)) (\<lambda>ok.
               rbind (require_that ok ''Incident has no supported operational recovery policy'') (\<lambda>_.
               rbind (map_result (label_step common) ((True, common) # map (Pair False) selections)) (\<lambda>found.
                 let names = concat (map fst found); namespaces = concat (map snd found) in
                 rbind (require_that (length (first_occurrences names) = 1 \<and>
                                      length (first_occurrences namespaces) = 1)
                          ''Incident workload labels conflict'') (\<lambda>_.
                   workload_target fmt env [(''deployment'', PStr (hd names)),
                                            (''namespace'', PStr (hd namespaces))])))))
           | _ \<Rightarrow> Inl (Refused ''Incident workload labels are missing''))
      | _ \<Rightarrow> Inl (Refused ''An incident alert is required to bind the workload''))"

section \<open>Patches\<close>

definition managed_by_argo :: "pydict \<Rightarrow> py_exn + bool" where
  "managed_by_argo resource =
     rbind (need_dict (py_or (dget resource ''metadata'') (PDict []))) (\<lambda>metadata.
     rbind (need_dict (py_or (dget metadata ''labels'') (PDict []))) (\<lambda>labels.
       if truthy (dget labels ''argocd.argoproj.io/instance'') then Inr True
       else rbind (need_dict (py_or (dget metadata ''annotations'') (PDict []))) (\<lambda>annotations.
         Inr (truthy (dget annotations ''argocd.argoproj.io/tracking-id'')))))"

text \<open>\<open>v[k]\<close> with a text key.\<close>

fun py_item :: "pyval \<Rightarrow> string \<Rightarrow> py_exn + pyval" where
  "py_item (PDict d) k = (case map_of d k of None \<Rightarrow> Inl KeyError | Some v \<Rightarrow> Inr v)"
| "py_item _ k = Inl TypeError"

definition REVISION_KEY :: string where "REVISION_KEY = ''deployment.kubernetes.io/revision''"

fun owned_by :: "pyval \<Rightarrow> pyval list \<Rightarrow> py_exn + bool" where
  "owned_by uid [] = Inr False"
| "owned_by uid (owner # owners) =
     rbind (need_dict owner) (\<lambda>d.
       if py_eq (dget d ''uid'') uid \<and> dget d ''controller'' = PBool True then Inr True
       else owned_by uid owners)"

definition replicaset_candidate :: "pyval \<Rightarrow> int \<Rightarrow> pyval \<Rightarrow> py_exn + (int \<times> pyval) list" where
  "replicaset_candidate uid current item =
     rbind (py_item item ''metadata'') (\<lambda>metadata.
     rbind (need_dict metadata) (\<lambda>m.
     rbind (need_dict (py_or (dget m ''annotations'') (PDict []))) (\<lambda>annotations.
     rbind (py_int (dget_or annotations REVISION_KEY (PStr ''0''))) (\<lambda>revision.
     rbind (py_iter (py_or (dget m ''ownerReferences'') (PList []))) (\<lambda>owners.
     rbind (owned_by uid owners) (\<lambda>owned.
       if owned \<and> 0 < revision \<and> revision < current then
         rbind (py_item metadata ''uid'') (\<lambda>_.
         rbind (py_item item ''spec'') (\<lambda>spec.
         rbind (py_item spec ''template'') (\<lambda>template. Inr [(revision, template)])))
       else Inr []))))))"

definition current_revision :: "pyval \<Rightarrow> py_exn + int" where
  "current_revision deployment =
     rbind (py_item deployment ''metadata'') (\<lambda>metadata.
     rbind (py_item metadata ''annotations'') (\<lambda>annotations.
     rbind (py_item annotations REVISION_KEY) py_int))"

definition replicaset_history :: "pyval \<Rightarrow> pyval \<Rightarrow> py_exn + (int \<times> pyval) list" where
  "replicaset_history deployment replicasets =
     rbind (current_revision deployment) (\<lambda>current.
     rbind (py_item replicasets ''items'') (\<lambda>listed.
     rbind (py_iter listed) (\<lambda>items.
     rbind (py_item deployment ''metadata'') (\<lambda>metadata.
     rbind (py_item metadata ''uid'') (\<lambda>uid.
     rbind (map_result (replicaset_candidate uid current) items) (\<lambda>found. Inr (concat found)))))))"

definition without_hash_label :: "pyval \<Rightarrow> py_exn + pyval" where
  "without_hash_label template =
     (case template of
        PDict t \<Rightarrow>
          (case dget_or t ''metadata'' (PDict []) of
             PDict m \<Rightarrow>
               (case dget_or m ''labels'' (PDict []) of
                  PDict labels \<Rightarrow>
                    Inr (PDict (if dhas m ''labels''
                      then AList.update ''metadata''
                             (PDict (AList.update ''labels'' (PDict (AList.delete ''pod-template-hash'' labels)) m)) t
                      else t))
                | PList _ \<Rightarrow> Inl TypeError
                | _ \<Rightarrow> Inl AttributeError)
           | _ \<Rightarrow> Inl AttributeError)
      | _ \<Rightarrow> Inl AttributeError)"

definition rollback_template ::
  "kube_client \<Rightarrow> string option \<Rightarrow> pyval \<Rightarrow> string \<Rightarrow> action_exn + pyval" where
  "rollback_template kc ctx deployment namespace =
     rbind (lift_client (kc_request kc ctx ''GET''
              (''/apis/apps/v1/namespaces/'' @ quote {CHR ''/''} namespace @ ''/replicasets'') None)) (\<lambda>replicasets.
       case replicaset_history deployment replicasets of
         Inl e \<Rightarrow>
           (if e \<in> {KeyError, TypeError, ValueError}
            then Inl (Refused ''Deployment rollback history is invalid'') else Inl (PyRaised e))
       | Inr candidates \<Rightarrow>
           (case sort_key (\<lambda>c. - fst c) candidates of
              [] \<Rightarrow> Inl (Refused ''No prior owned ReplicaSet template is available'')
            | best # others \<Rightarrow>
                rbind (require_that (others = [] \<or> fst (hd others) \<noteq> fst best)
                         ''Deployment rollback history is ambiguous'') (\<lambda>_.
                lift_py (rbind (json_round_trip (snd best)) without_hash_label))))"

definition git_sha :: "string \<Rightarrow> bool" where
  "git_sha s \<longleftrightarrow> length s = 40 \<and>
     list_all (\<lambda>c. let n = (of_char c :: nat) in (48 \<le> n \<and> n \<le> 57) \<or> (97 \<le> n \<and> n \<le> 102)) s"

definition all_digits :: "string \<Rightarrow> bool" where
  "all_digits s \<longleftrightarrow> s \<noteq> [] \<and> list_all (\<lambda>c. digit_value c \<noteq> None) s"

definition owned_revision :: "pydict \<Rightarrow> pydict \<Rightarrow> py_exn + bool" where
  "owned_revision source target =
     (if \<not> (case dget target ''revision'' of PStr s \<Rightarrow> git_sha s | _ \<Rightarrow> False) then Inr False
      else rbind (need_dict (py_or (dget target ''source'') (PDict []))) (\<lambda>historical.
        Inr (list_all (\<lambda>k. py_eq (dget historical k) (dget source k)) [''repoURL'', ''path''] \<and>
             \<not> truthy (dget target ''sources''))))"

definition argo_ops :: "pydict \<Rightarrow> pyval \<Rightarrow> pyval list" where
  "argo_ops source revision =
     [PDict [(''op'', PStr ''test''), (''path'', PStr ''/spec/source''), (''value'', PDict source)],
      PDict [(''op'', PStr ''replace''), (''path'', PStr ''/spec/source''),
             (''value'', PDict (AList.update ''targetRevision'' revision source))],
      PDict [(''op'', PStr ''add''), (''path'', PStr ''/operation''),
             (''value'', PDict [(''initiatedBy'', PDict [(''username'', PStr ''atlasops'')]),
                (''sync'', PDict [(''revision'', revision), (''prune'', PBool False)])])]]"

definition history_matches :: "(pyval \<Rightarrow> string) \<Rightarrow> string \<Rightarrow> pydict \<Rightarrow> py_exn + pydict list" where
  "history_matches fmt revision resource =
     rbind (need_dict (py_or (dget resource ''status'') (PDict []))) (\<lambda>status.
     rbind (py_iter (py_or (dget status ''history'') (PList []))) (\<lambda>entries.
     rbind (map_result need_dict entries) (\<lambda>ds.
       Inr (filter (\<lambda>d. py_str fmt (dget d ''id'') = revision) ds))))"

definition argo_patch :: "(pyval \<Rightarrow> string) \<Rightarrow> pydict \<Rightarrow> pydict \<Rightarrow> action_exn + pyval list" where
  "argo_patch fmt resource arguments =
     (let revision = py_str fmt (dget_or arguments ''revision'' (PStr '''')) in
      rbind (require_that (all_digits revision) ''Argo rollback requires an observed numeric history ID'') (\<lambda>_.
      rbind (lift_py (need_dict (py_or (dget resource ''spec'') (PDict [])))) (\<lambda>spec.
      rbind (require_that (is_dict (dget spec ''source'') \<and> \<not> truthy (dget spec ''sources'') \<and>
                           \<not> truthy (dget resource ''operation''))
               ''Argo requires one idle, single-source Application'') (\<lambda>_.
      rbind (lift_py (history_matches fmt revision resource)) (\<lambda>found.
        case found of
          [target] \<Rightarrow>
            rbind (lift_py (owned_revision (as_dict (dget spec ''source'')) target)) (\<lambda>ok.
            rbind (require_that ok ''Argo rollback source identity is not the owned Git source'') (\<lambda>_.
              Inr (argo_ops (as_dict (dget spec ''source'')) (dget target ''revision''))))
        | _ \<Rightarrow> Inl (Refused ''Argo history ID is absent or ambiguous''))))))"

section \<open>Preparing\<close>

definition ATOMIC_TOOLS :: "string set" where
  "ATOMIC_TOOLS = {''kubectl_scale'', ''kubectl_rollout'', ''chaos_stop_experiment'', ''argocd_rollback''}"

text \<open>The required and the optional parameters of the registered tool.\<close>

definition tool_signature :: "string \<Rightarrow> string list \<times> string list" where
  "tool_signature tool =
     (if tool = ''kubectl_scale'' then ([''deployment'', ''replicas''], [''namespace''])
      else if tool = ''kubectl_rollout'' then ([''action'', ''resource''], [''namespace''])
      else if tool = ''chaos_stop_experiment'' then ([''kind'', ''name''], [''namespace''])
      else ([''app'', ''revision''], []))"

definition binds :: "string \<Rightarrow> pydict \<Rightarrow> bool" where
  "binds tool arguments \<longleftrightarrow>
     (case tool_signature tool of (required, optional) \<Rightarrow>
        list_all (dhas arguments) required \<and> set (map fst arguments) \<subseteq> set (required @ optional))"

definition action_context :: "action_env \<Rightarrow> action_exn + string option" where
  "action_context env =
     (let ctx = kube_context (ae_pinned_context env) (ae_context env) in
      rbind (require_that (ctx \<noteq> None \<or> ae_in_cluster env)
               ''Operational actions require an explicit Kubernetes context'') (\<lambda>_. Inr ctx))"

text \<open>
  Every kind the code formats a path for is in the table.  Each adapter reads its resource and returns
  the identity and the patch.
\<close>

definition read_resource ::
  "kube_client \<Rightarrow> string option \<Rightarrow> string \<Rightarrow> string \<Rightarrow> string \<Rightarrow> action_exn + pyval" where
  "read_resource kc ctx kind namespace name =
     (case resource_path kind namespace name of
        None \<Rightarrow> Inl (PyRaised KeyError)
      | Some path \<Rightarrow> lift_client (kc_request kc ctx ''GET'' path None))"

definition read_identity ::
  "(string \<Rightarrow> bool) \<Rightarrow> kube_client \<Rightarrow> string option \<Rightarrow> string \<Rightarrow> string \<Rightarrow> string \<Rightarrow> string \<Rightarrow>
   action_exn + (pyval \<times> resource_identity)" where
  "read_identity ip_ok kc ctx kind namespace name api_version =
     rbind (read_resource kc ctx kind namespace name) (\<lambda>resource.
     rbind (identity_of ip_ok kc ctx resource kind namespace name api_version) (\<lambda>i.
       Inr (resource, i)))"

definition deployment_patch ::
  "kube_client \<Rightarrow> string option \<Rightarrow> string \<Rightarrow> pydict \<Rightarrow> pyval \<Rightarrow> string \<Rightarrow> action_exn + pyval" where
  "deployment_patch kc ctx tool arguments resource namespace =
     (if tool = ''kubectl_scale'' then
        (case dget arguments ''replicas'' of
           PInt n \<Rightarrow>
             rbind (require_that (1 \<le> n \<and> n \<le> 20) ''Operational remediation replicas must be 1-20'') (\<lambda>_.
               Inr (PDict [(''op'', PStr ''replace''), (''path'', PStr ''/spec/replicas''), (''value'', PInt n)]))
         | _ \<Rightarrow> Inl (Refused ''Operational remediation replicas must be 1-20''))
      else rbind (rollback_template kc ctx resource namespace) (\<lambda>template.
        Inr (PDict [(''op'', PStr ''replace''), (''path'', PStr ''/spec/template''), (''value'', template)])))"

definition prepare_deployment ::
  "(pyval \<Rightarrow> string) \<Rightarrow> (string \<Rightarrow> bool) \<Rightarrow> kube_client \<Rightarrow> action_env \<Rightarrow> string option \<Rightarrow> string \<Rightarrow> pydict \<Rightarrow>
   (string \<times> string) option \<Rightarrow> action_exn + (resource_identity \<times> pyval)" where
  "prepare_deployment fmt ip_ok kc env ctx tool arguments workload =
     rbind (require_that (tool \<noteq> ''kubectl_rollout'' \<or> dget arguments ''action'' = PStr ''undo'')
              ''Read-only rollout does not require a prepared mutation'') (\<lambda>_.
     rbind (workload_target fmt env arguments) (\<lambda>(namespace, name).
     rbind (require_that (workload = None \<or> workload = Some (namespace, name))
              ''Action target conflicts with the incident workload'') (\<lambda>_.
     rbind (read_identity ip_ok kc ctx ''Deployment'' namespace name ''apps/v1'') (\<lambda>(resource, i).
     rbind (lift_py (managed_by_argo (as_dict resource))) (\<lambda>argo.
     rbind (require_that (\<not> argo) ''Argo-managed workloads require an Application action'') (\<lambda>_.
     rbind (deployment_patch kc ctx tool arguments resource namespace) (\<lambda>operation.
       Inr (i, PList (identity_tests i @ [operation])))))))))"

definition delete_options :: "resource_identity \<Rightarrow> pyval" where
  "delete_options i =
     PDict [(''apiVersion'', PStr ''v1''), (''kind'', PStr ''DeleteOptions''),
            (''preconditions'', PDict [(''uid'', PStr (ri_uid i)),
                                       (''resourceVersion'', PStr (ri_resource_version i))])]"

definition prepare_chaos_stop ::
  "(pyval \<Rightarrow> string) \<Rightarrow> (string \<Rightarrow> bool) \<Rightarrow> kube_client \<Rightarrow> string option \<Rightarrow> pydict \<Rightarrow>
   action_exn + (resource_identity \<times> pyval)" where
  "prepare_chaos_stop fmt ip_ok kc ctx arguments =
     (let kind = py_lower (py_str fmt (dget_or arguments ''kind'' (PStr ''''))) in
      rbind (require_that (kind \<in> ALLOWED_CHAOS_KINDS \<and>
                           dget_or arguments ''namespace'' (PStr ''chaos-mesh'') = PStr ''chaos-mesh'')
               ''Chaos target is outside the cleanup allowlist'') (\<lambda>_.
      rbind (checked_name (dget arguments ''name'')) (\<lambda>name.
      rbind (read_identity ip_ok kc ctx (canonical_kind kind) ''chaos-mesh'' name ''chaos-mesh.org/v1alpha1'')
        (\<lambda>(resource, i).
      rbind (require_that (chaos_activity_for_resource resource = ''active'')
               ''Chaos resource is not positively active/injected'') (\<lambda>_.
        Inr (i, delete_options i))))))"

definition owned_application :: "pydict \<Rightarrow> string \<Rightarrow> py_exn + bool" where
  "owned_application resource workload_namespace =
     rbind (need_dict (py_or (dget resource ''spec'') (PDict []))) (\<lambda>spec.
       if dget spec ''project'' \<noteq> PStr ''atlasops-boutique'' then Inr False
       else rbind (need_dict (py_or (dget spec ''destination'') (PDict []))) (\<lambda>destination.
         if dget destination ''server'' \<noteq> PStr ''https://kubernetes.default.svc'' \<or>
            dget destination ''namespace'' \<noteq> PStr workload_namespace then Inr False
         else rbind (need_dict (py_or (dget spec ''source'') (PDict []))) (\<lambda>source.
           Inr (dget source ''repoURL'' = PStr ''https://github.com/virajchoudhary/AtlasOps.git'' \<and>
                dget source ''path'' = PStr ''infra/local/boutique''))))"

definition prepare_argo_rollback ::
  "(pyval \<Rightarrow> string) \<Rightarrow> (string \<Rightarrow> bool) \<Rightarrow> kube_client \<Rightarrow> action_env \<Rightarrow> string option \<Rightarrow> pydict \<Rightarrow> string \<Rightarrow>
   action_exn + (resource_identity \<times> pyval)" where
  "prepare_argo_rollback fmt ip_ok kc env ctx arguments workload_namespace =
     rbind (checked_name (dget arguments ''app'')) (\<lambda>name.
     rbind (checked_name (PStr (ae_argocd_namespace env))) (\<lambda>namespace.
     rbind (require_that (name = ae_argocd_app env) ''Argo action is outside the owned Application'') (\<lambda>_.
     rbind (read_identity ip_ok kc ctx ''Application'' namespace name ''argoproj.io/v1alpha1'')
       (\<lambda>(resource, i).
     rbind (lift_py (owned_application (as_dict resource) workload_namespace)) (\<lambda>ok.
     rbind (require_that ok ''Argo target is not the owned Application and workload'') (\<lambda>_.
     rbind (argo_patch fmt (as_dict resource) arguments) (\<lambda>operations.
       Inr (i, PList (identity_tests i @ operations)))))))))"

definition prepare_target ::
  "(pyval \<Rightarrow> string) \<Rightarrow> (string \<Rightarrow> bool) \<Rightarrow> kube_client \<Rightarrow> action_env \<Rightarrow> string option \<Rightarrow> string \<Rightarrow> pydict \<Rightarrow>
   (string \<times> string) option \<Rightarrow> action_exn + (resource_identity \<times> pyval)" where
  "prepare_target fmt ip_ok kc env ctx tool arguments workload =
     (if tool = ''kubectl_scale'' \<or> tool = ''kubectl_rollout''
      then prepare_deployment fmt ip_ok kc env ctx tool arguments workload
      else if tool = ''chaos_stop_experiment'' then prepare_chaos_stop fmt ip_ok kc ctx arguments
      else case workload of
        Some (namespace, _) \<Rightarrow> prepare_argo_rollback fmt ip_ok kc env ctx arguments namespace
      | None \<Rightarrow> Inl (PyRaised TypeError))"

text \<open>The workload whose recovery is verified, when the mutated resource is another one.\<close>

definition verification_target_of ::
  "(string \<Rightarrow> bool) \<Rightarrow> kube_client \<Rightarrow> string option \<Rightarrow> resource_identity \<Rightarrow> (string \<times> string) option \<Rightarrow>
   action_exn + resource_identity option" where
  "verification_target_of ip_ok kc ctx i workload =
     (if ri_kind i = ''Deployment'' then Inr None
      else case workload of
        Some (namespace, name) \<Rightarrow>
          rbind (read_identity ip_ok kc ctx ''Deployment'' namespace name ''apps/v1'') (\<lambda>(_, v). Inr (Some v))
      | None \<Rightarrow> Inl (PyRaised TypeError))"

definition prepare_action ::
  "(pyval \<Rightarrow> string) \<Rightarrow> (string \<Rightarrow> bool) \<Rightarrow> kube_client \<Rightarrow> action_env \<Rightarrow> string \<Rightarrow> pydict \<Rightarrow> pyval \<Rightarrow>
   action_exn + prepared_action" where
  "prepare_action fmt ip_ok kc env tool arguments alert =
     rbind (require_that (tool \<in> ATOMIC_TOOLS) ''No atomic operational adapter exists for this mutation'') (\<lambda>_.
     rbind (require_that (binds tool arguments)
              ''Tool arguments do not match the operational action contract'') (\<lambda>_.
     rbind (action_context env) (\<lambda>ctx.
     rbind (if alert = PNone then Inr None
            else rbind (alert_workload fmt env alert) (\<lambda>w. Inr (Some w))) (\<lambda>workload.
     rbind (require_that (tool \<notin> {''chaos_stop_experiment'', ''argocd_rollback''} \<or> workload \<noteq> None)
              ''Incident workload is required for this mutation'') (\<lambda>_.
     rbind (case kc_open kc ctx of Some e \<Rightarrow> Inl (ClientRaised e) | None \<Rightarrow> Inr ()) (\<lambda>_.
     rbind (prepare_target fmt ip_ok kc env ctx tool arguments workload) (\<lambda>(i, patch).
     rbind (verification_target_of ip_ok kc ctx i workload) (\<lambda>verified.
     rbind (lift_py (json_round_trip (PDict arguments))) (\<lambda>arguments_json.
     rbind (lift_py (json_round_trip patch)) (\<lambda>patch_json.
       Inr \<lparr>pa_tool = tool, pa_arguments = arguments_json, pa_target = i, pa_patch = patch_json,
            pa_verification_target = verified\<rparr>))))))))))"

section \<open>Approving and executing\<close>

definition identity_dict :: "resource_identity \<Rightarrow> pydict" where
  "identity_dict i =
     [(''server'', PStr (ri_server i)), (''context'', PStr (ri_context i)),
      (''api_version'', PStr (ri_api_version i)), (''kind'', PStr (ri_kind i)),
      (''namespace'', PStr (ri_namespace i)), (''name'', PStr (ri_name i)), (''uid'', PStr (ri_uid i)),
      (''resource_version'', PStr (ri_resource_version i))]"

definition approval_action :: "prepared_action \<Rightarrow> pydict" where
  "approval_action a =
     [(''tool'', PStr (pa_tool a)), (''arguments'', pa_arguments a),
      (''target'', PDict (identity_dict (pa_target a))), (''patch'', pa_patch a)] @
     (case pa_verification_target a of
        None \<Rightarrow> [] | Some v \<Rightarrow> [(''verification_target'', PDict (identity_dict v))])"

definition prepared_digest :: "(rat \<Rightarrow> string) \<Rightarrow> (string \<Rightarrow> string) \<Rightarrow> prepared_action \<Rightarrow> py_exn + string" where
  "prepared_digest ff sha a = action_digest ff sha (approval_action a)"

definition execution_method :: "prepared_action \<Rightarrow> string" where
  "execution_method a = (if pa_tool a = ''chaos_stop_experiment'' then ''DELETE'' else ''PATCH'')"

definition failed_execution :: "(pyval \<Rightarrow> string) \<Rightarrow> pyval \<Rightarrow> string \<Rightarrow> pydict" where
  "failed_execution fmt status ty =
     [(''success'', PBool False),
      (''error_class'', PStr (if py_eq status (PInt 404) \<or> py_eq status (PInt 409) \<or> py_eq status (PInt 422)
                              then ''target_conflict'' else ''mutation_uncertain'')),
      (''status_code'', status),
      (''error'', PStr (''Atomic Kubernetes action failed ('' @
                   (if truthy status then py_str fmt status else ty) @ '')''))]"

text \<open>
  The requests an execution makes, and its result.  Only the digest, computed after the mutation, is
  outside the handler of exceptions.
\<close>

definition execute_prepared_action ::
  "(pyval \<Rightarrow> string) \<Rightarrow> (rat \<Rightarrow> string) \<Rightarrow> (string \<Rightarrow> string) \<Rightarrow> kube_client \<Rightarrow> prepared_action \<Rightarrow>
   (string \<times> string \<times> pyval) list \<times> (py_exn + pydict)" where
  "execute_prepared_action fmt ff sha kc a =
     (let i = pa_target a; ctx = (if ri_context i = ''in-cluster'' then None else Some (ri_context i)) in
      case kc_open kc ctx of
        Some e \<Rightarrow> ([], Inr (failed_execution fmt (af_status e) (af_type e)))
      | None \<Rightarrow>
          if strip_slashes (kc_host kc ctx) \<noteq> ri_server i then
            ([], Inr [(''success'', PBool False), (''error_class'', PStr ''target_mismatch''),
                      (''error'', PStr ''Kubernetes server changed after preparation'')])
          else case identity_path i of
            None \<Rightarrow> ([], Inr (failed_execution fmt PNone ''KeyError''))
          | Some path \<Rightarrow>
              ([(execution_method a, path, pa_patch a)],
               case kc_request kc ctx (execution_method a) path (Some (pa_patch a)) of
                 Inl e \<Rightarrow> Inr (failed_execution fmt (af_status e) (af_type e))
               | Inr _ \<Rightarrow>
                   rbind (prepared_digest ff sha a) (\<lambda>digest.
                     Inr [(''success'', PBool True), (''action_digest'', PStr digest),
                          (''target'', PDict (identity_dict i)), (''atomic_preconditions'', PBool True)])))"

section \<open>Theorems\<close>

lemma read_identity_observed:
  assumes "read_identity ip_ok kc ctx kind namespace name api_version = Inr (resource, i)"
  shows "ri_kind i = kind \<and> ri_namespace i = namespace \<and> ri_name i = name \<and>
    ri_server i = strip_slashes (kc_host kc ctx) \<and>
    (\<exists>path m. resource_path kind namespace name = Some path \<and>
       kc_request kc ctx ''GET'' path None = Inr resource \<and> metadata_of resource = Some m \<and>
       dget m ''uid'' = PStr (ri_uid i) \<and> dget m ''resourceVersion'' = PStr (ri_resource_version i))"
proof -
  have blank: "nonblank v \<Longrightarrow> v = PStr (text_of v)" for v by (cases v) (auto simp: nonblank_def)
  show ?thesis
    using assms
    by (cases resource)
       (auto simp: read_identity_def read_resource_def identity_of_def Let_def rbind_eq_Inr metadata_of_def
         dest: blank split: option.splits pyval.splits)
qed

lemma json_round_trip_eq: "json_round_trip v = Inr w \<longleftrightarrow> json_finite v \<and> w = json_sorted v"
  by (auto simp: json_round_trip_def)

lemma sorted_test_op: "json_sorted (test_op path v) = test_op path v"
  by (simp add: test_op_def)

lemma workload_target_scope:
  "workload_target fmt env arguments = Inr (ns, name) \<Longrightarrow>
   ns = ae_workload_namespace env \<and> name \<in> ONLINE_BOUTIQUE_SERVICES"
  by (auto simp: workload_target_def Let_def rbind_eq_Inr split: prod.splits dest: checked_name_eq)

definition pinned_patch :: "resource_identity \<Rightarrow> string \<Rightarrow> pyval \<Rightarrow> bool" where
  "pinned_patch i meth patch \<longleftrightarrow>
     (if meth = ''DELETE''
      then patch = json_sorted (delete_options i)
      else \<exists>operations. operations \<noteq> [] \<and> patch = PList (identity_tests i @ operations))"

text \<open>
  The same read off the request: the tests of a JSON patch, or the preconditions of a deletion, name the uid
  and the resource version.
\<close>

definition pins_version :: "resource_identity \<Rightarrow> string \<Rightarrow> pyval \<Rightarrow> bool" where
  "pins_version i meth patch \<longleftrightarrow>
     (if meth = ''DELETE''
      then dget (as_dict (dget (as_dict patch) ''preconditions'')) ''uid'' = PStr (ri_uid i) \<and>
           dget (as_dict (dget (as_dict patch) ''preconditions'')) ''resourceVersion'' = PStr (ri_resource_version i)
      else \<exists>operations. operations \<noteq> [] \<and>
             patch = PList (PDict [(''op'', PStr ''test''), (''path'', PStr ''/metadata/uid''), (''value'', PStr (ri_uid i))] #
                            PDict [(''op'', PStr ''test''), (''path'', PStr ''/metadata/resourceVersion''),
                                   (''value'', PStr (ri_resource_version i))] # operations))"

lemma pinned_pins_version: "pinned_patch i meth patch \<Longrightarrow> pins_version i meth patch"
  by (auto simp: pinned_patch_def pins_version_def delete_options_def identity_tests_def test_op_def)

text \<open>The server answered a read of the resource, and the identity has the uid and version of the answer.\<close>

definition observed_at :: "kube_client \<Rightarrow> string option \<Rightarrow> resource_identity \<Rightarrow> bool" where
  "observed_at kc ctx i \<longleftrightarrow>
     (\<exists>path resource. resource_path (ri_kind i) (ri_namespace i) (ri_name i) = Some path \<and>
        kc_request kc ctx ''GET'' path None = Inr resource \<and>
        dget (as_dict (dget (as_dict resource) ''metadata'')) ''uid'' = PStr (ri_uid i) \<and>
        dget (as_dict (dget (as_dict resource) ''metadata'')) ''resourceVersion'' = PStr (ri_resource_version i))"

lemma read_identity_observed_at:
  "read_identity ip_ok kc ctx kind namespace name api_version = Inr (resource, i) \<Longrightarrow> observed_at kc ctx i"
  by (drule read_identity_observed)
    (fastforce simp: observed_at_def metadata_of_def split: pyval.splits)

lemma prepare_target_observed:
  "prepare_target fmt ip_ok kc env ctx tool arguments workload = Inr (i, patch) \<Longrightarrow> observed_at kc ctx i"
  by (auto simp: prepare_target_def prepare_deployment_def prepare_chaos_stop_def prepare_argo_rollback_def
      rbind_eq_Inr Let_def dest: read_identity_observed_at split: if_splits option.splits)

lemma prepare_deployment_scope:
  assumes "prepare_deployment fmt ip_ok kc env ctx tool arguments workload = Inr (i, patch)"
  shows "ri_kind i = ''Deployment'' \<and> ri_namespace i = ae_workload_namespace env \<and>
    ri_name i \<in> ONLINE_BOUTIQUE_SERVICES \<and> (workload = None \<or> workload = Some (ri_namespace i, ri_name i)) \<and>
    (\<exists>operation. patch = PList (identity_tests i @ [operation]))"
  using assms
  by (auto simp: prepare_deployment_def rbind_eq_Inr dest!: workload_target_scope read_identity_observed)

lemma prepare_chaos_stop_scope:
  assumes "prepare_chaos_stop fmt ip_ok kc ctx arguments = Inr (i, patch)"
  shows "ri_kind i \<in> set (map snd CANONICAL_KINDS) \<and> ri_namespace i = ''chaos-mesh'' \<and> patch = delete_options i"
proof -
  have "k \<in> ALLOWED_CHAOS_KINDS \<Longrightarrow> canonical_kind k \<in> set (map snd CANONICAL_KINDS)" for k
    by (auto simp: ALLOWED_CHAOS_KINDS_def canonical_kind_def table_entry_def CANONICAL_KINDS_def)
  then show ?thesis
    using assms
    by (auto simp: prepare_chaos_stop_def Let_def rbind_eq_Inr dest!: read_identity_observed)
qed

lemma single_case_Inr:
  "(case xs of [x] \<Rightarrow> f x | _ \<Rightarrow> Inl e) = Inr r \<longleftrightarrow> (\<exists>x. xs = [x] \<and> f x = Inr r)"
  by (auto split: list.splits)

lemma argo_patch_nonempty: "argo_patch fmt resource arguments = Inr operations \<Longrightarrow> operations \<noteq> []"
  by (auto simp: argo_patch_def Let_def rbind_eq_Inr argo_ops_def single_case_Inr)

lemma prepare_argo_rollback_scope:
  assumes "prepare_argo_rollback fmt ip_ok kc env ctx arguments namespace = Inr (i, patch)"
  shows "ri_kind i = ''Application'' \<and> ri_namespace i = ae_argocd_namespace env \<and> ri_name i = ae_argocd_app env \<and>
    (\<exists>operations. operations \<noteq> [] \<and> patch = PList (identity_tests i @ operations))"
  using assms
  by (fastforce simp: prepare_argo_rollback_def rbind_eq_Inr dest!: read_identity_observed checked_name_eq argo_patch_nonempty)


lemma prepare_target_pinned:
  assumes "prepare_target fmt ip_ok kc env ctx tool arguments workload = Inr (i, patch)"
    and "tool \<in> ATOMIC_TOOLS"
  shows "if tool = ''chaos_stop_experiment'' then patch = delete_options i
         else \<exists>operations. operations \<noteq> [] \<and> patch = PList (identity_tests i @ operations)"
proof (cases "tool = ''kubectl_scale'' \<or> tool = ''kubectl_rollout''")
  case True
  then have "prepare_deployment fmt ip_ok kc env ctx tool arguments workload = Inr (i, patch)"
    using assms(1) by (simp add: prepare_target_def)
  from prepare_deployment_scope [OF this] True show ?thesis by auto
next
  case False
  with assms show ?thesis
    by (auto simp: prepare_target_def split: if_splits option.splits
        dest: prepare_chaos_stop_scope prepare_argo_rollback_scope)
qed

lemma chaos_kind_not_deployment: "k \<in> set (map snd CANONICAL_KINDS) \<Longrightarrow> k \<noteq> ''Deployment''"
  by (auto simp: CANONICAL_KINDS_def)

lemma prepare_target_kind:
  assumes "prepare_target fmt ip_ok kc env ctx tool arguments workload = Inr (i, patch)"
  shows "if tool = ''kubectl_scale'' \<or> tool = ''kubectl_rollout''
         then ri_kind i = ''Deployment'' \<and> ri_namespace i = ae_workload_namespace env \<and>
              ri_name i \<in> ONLINE_BOUTIQUE_SERVICES \<and> (workload = None \<or> workload = Some (ri_namespace i, ri_name i))
         else ri_kind i \<noteq> ''Deployment''"
proof (cases "tool = ''kubectl_scale'' \<or> tool = ''kubectl_rollout''")
  case True
  then have "prepare_deployment fmt ip_ok kc env ctx tool arguments workload = Inr (i, patch)"
    using assms by (simp add: prepare_target_def)
  from prepare_deployment_scope [OF this] True show ?thesis by auto
next
  case False
  with assms have "ri_kind i \<in> set (map snd CANONICAL_KINDS) \<or> ri_kind i = ''Application''"
    by (auto simp: prepare_target_def split: if_splits option.splits
        dest: prepare_chaos_stop_scope prepare_argo_rollback_scope)
  then have "ri_kind i \<noteq> ''Deployment''" by (elim disjE) (erule chaos_kind_not_deployment, simp)
  with False show ?thesis by simp
qed

lemma alert_workload_scope:
  "alert_workload fmt env alert = Inr (ns, name) \<Longrightarrow>
   ns = ae_workload_namespace env \<and> name \<in> ONLINE_BOUTIQUE_SERVICES"
  by (auto simp: alert_workload_def rbind_eq_Inr Let_def dest: workload_target_scope
      split: pyval.splits list.splits prod.splits)

lemma sorted_pinned:
  "json_sorted (PList (identity_tests i @ operations)) = PList (identity_tests i @ map json_sorted operations)"
  by (simp add: identity_tests_def sorted_test_op)

definition bound_workload :: "prepared_action \<Rightarrow> resource_identity" where
  "bound_workload a = (case pa_verification_target a of None \<Rightarrow> pa_target a | Some v \<Rightarrow> v)"

text \<open>
  C6. A prepared mutation carries, as the precondition of its patch or deletion, the uid and the
  resource version that the server answered when the resource was read in the same context; the workload
  it is bound to was read there too, is a Deployment of the shop in the configured namespace, and is the
  workload of the incident when an alert is given.
\<close>

theorem prepared_change_is_pinned_and_scoped:
  assumes "prepare_action fmt ip_ok kc env tool arguments alert = Inr a"
  shows "pinned_patch (pa_target a) (execution_method a) (pa_patch a) \<and>
    pins_version (pa_target a) (execution_method a) (pa_patch a) \<and>
    (\<exists>ctx. action_context env = Inr ctx \<and> observed_at kc ctx (pa_target a) \<and> observed_at kc ctx (bound_workload a)) \<and>
    ri_kind (bound_workload a) = ''Deployment'' \<and>
    ri_namespace (bound_workload a) = ae_workload_namespace env \<and>
    ri_name (bound_workload a) \<in> ONLINE_BOUTIQUE_SERVICES \<and>
    (alert \<noteq> PNone \<longrightarrow>
       alert_workload fmt env alert = Inr (ri_namespace (bound_workload a), ri_name (bound_workload a)))"
proof -
  from assms obtain ctx workload i patch verified where
    tool: "tool \<in> ATOMIC_TOOLS" "pa_tool a = tool" and ctx: "action_context env = Inr ctx"
    and workload: "(if alert = PNone then Inr None
        else rbind (alert_workload fmt env alert) (\<lambda>w. Inr (Some w))) = Inr workload"
    and bound: "tool \<notin> {''chaos_stop_experiment'', ''argocd_rollback''} \<or> workload \<noteq> None"
    and target: "prepare_target fmt ip_ok kc env ctx tool arguments workload = Inr (i, patch)"
    and verified: "verification_target_of ip_ok kc ctx i workload = Inr verified"
    and parts: "pa_target a = i" "pa_verification_target a = verified" "pa_patch a = json_sorted patch"
    by (auto simp: prepare_action_def rbind_eq_Inr json_round_trip_eq)
  have pinned: "pinned_patch i (execution_method a) (json_sorted patch)"
    using prepare_target_pinned [OF target tool(1)] tool(2)
    by (auto simp: pinned_patch_def execution_method_def sorted_pinned simp del: json_sorted.simps
        split: if_splits)
  note pins = pinned_pins_version [OF pinned]
  note observed = prepare_target_observed [OF target]
  have alert: "alert \<noteq> PNone \<longrightarrow> (\<exists>w. workload = Some w \<and> alert_workload fmt env alert = Inr w)"
    "workload \<noteq> None \<longrightarrow> alert \<noteq> PNone"
    using workload by (auto simp: rbind_eq_Inr split: if_splits)
  have deployment: ?thesis if "ri_kind i = ''Deployment''"
  proof -
    from that prepare_target_kind [OF target] have "ri_namespace i = ae_workload_namespace env"
      "ri_name i \<in> ONLINE_BOUTIQUE_SERVICES" "workload = None \<or> workload = Some (ri_namespace i, ri_name i)"
      by (auto split: if_splits)
    with that verified parts pinned pins observed ctx alert show ?thesis
      by (auto simp: bound_workload_def verification_target_of_def)
  qed
  have other: ?thesis if "ri_kind i \<noteq> ''Deployment''"
  proof -
    from that verified obtain ns n v resource where "workload = Some (ns, n)" "verified = Some v"
      and read: "read_identity ip_ok kc ctx ''Deployment'' ns n ''apps/v1'' = Inr (resource, v)"
      by (auto simp: verification_target_of_def rbind_eq_Inr split: option.splits)
    with read_identity_observed [OF read] read_identity_observed_at [OF read] parts pinned pins observed ctx alert
    show ?thesis by (auto simp: bound_workload_def dest: alert_workload_scope)
  qed
  from deployment other show ?thesis by blast
qed

definition execution_context :: "prepared_action \<Rightarrow> string option" where
  "execution_context a =
     (if ri_context (pa_target a) = ''in-cluster'' then None else Some (ri_context (pa_target a)))"

text \<open>
  C28. An execution sends at most one request, the patch or deletion that was prepared, to the path of the
  prepared resource, and only to the server it was prepared on; it reports success only when the client
  accepted that request, with the digest of the record that was approved.
\<close>

theorem execution_is_the_prepared_request:
  assumes "execute_prepared_action fmt ff sha kc a = (sent, result)"
  shows "(sent = [] \<or>
      strip_slashes (kc_host kc (execution_context a)) = ri_server (pa_target a) \<and>
      (\<exists>path. identity_path (pa_target a) = Some path \<and> sent = [(execution_method a, path, pa_patch a)])) \<and>
    (\<forall>d. result = Inr d \<longrightarrow> dget d ''success'' = PBool True \<longrightarrow>
      (\<exists>path r digest. sent = [(execution_method a, path, pa_patch a)] \<and>
         kc_request kc (execution_context a) (execution_method a) path (Some (pa_patch a)) = Inr r \<and>
         prepared_digest ff sha a = Inr digest \<and> dget d ''action_digest'' = PStr digest))"
proof -
  have refused: "dget (failed_execution fmt status ty) ''success'' \<noteq> PBool True" for status ty
    by (simp add: failed_execution_def)
  show ?thesis
    using assms
    by (auto simp: execute_prepared_action_def execution_context_def Let_def refused rbind_eq_Inr
        split: option.splits sum.splits if_splits)
qed

lemma no_slash_in_name: "checked_name (PStr s) = Inr s' \<Longrightarrow> CHR ''/'' \<notin> set s"
proof
  assume named: "checked_name (PStr s) = Inr s'" and "CHR ''/'' \<in> set s"
  moreover have "\<not> lower_alnum (CHR ''/'')" by code_simp
  ultimately show False
    by (auto simp: checked_name_def delimited_name_def list_all_iff split: if_splits)
qed

lemma partition_char_absent: "c \<notin> set s \<Longrightarrow> partition_char c s = (s, False, [])"
proof -
  assume "c \<notin> set s"
  then have "dropWhile (\<lambda>x. x \<noteq> c) s = []" by (induction s) auto
  then show ?thesis unfolding partition_char_def by (simp only: list.case)
qed

lemma workload_target_of_names:
  assumes "workload_target fmt env [(''deployment'', PStr n), (''namespace'', PStr m)] = Inr (ns, name)"
    and "checked_name v = Inr n"
  shows "ns = m \<and> name = n"
proof -
  from assms(2) have "v = PStr n" by (rule checked_name_eq)
  with assms(2) have "partition_char (CHR ''/'') n = (n, False, [])"
    by (auto intro: partition_char_absent dest: no_slash_in_name)
  with assms(1) show ?thesis
    by (auto simp: workload_target_def rbind_eq_Inr dest: checked_name_eq)
qed

lemma one_element:
  assumes "length (first_occurrences xs) = Suc 0" and "x \<in> set xs"
  shows "x = hd xs"
proof -
  from assms(1) obtain y where "first_occurrences xs = [y]" by (auto simp: length_Suc_conv)
  then have "set xs = {y}" by (metis set_first_occurrences list.set(1) list.set(2))
  with assms(2) show ?thesis by (cases xs) auto
qed

lemma label_step_names:
  assumes "label_step common (first, selected) = Inr (names, namespaces)"
  shows "(\<forall>k \<in> set WORKLOAD_LABELS. dhas selected k \<longrightarrow>
            (\<exists>n \<in> set names. dget selected k = PStr n)) \<and>
         (\<forall>n \<in> set names. \<exists>v. checked_name v = Inr n) \<and>
         (dhas selected ''namespace'' \<longrightarrow> (\<exists>n \<in> set namespaces. dget selected ''namespace'' = PStr n)) \<and>
         (\<not> first \<longrightarrow> names_workload common selected \<and> (dhas common ''namespace'' \<or> dhas selected ''namespace''))"
proof -
  from assms have names: "label_names selected = Inr names" and spaces: "label_namespaces selected = Inr namespaces"
    and last: "\<not> first \<longrightarrow> names_workload common selected \<and> (dhas common ''namespace'' \<or> dhas selected ''namespace'')"
    by (auto simp: label_step_def rbind_eq_Inr)
  from names have found: "map_result (\<lambda>k. checked_name (dget selected k)) (filter (dhas selected) WORKLOAD_LABELS) = Inr names"
    by (simp add: label_names_def)
  have "\<exists>n \<in> set names. dget selected k = PStr n" if "k \<in> set WORKLOAD_LABELS" "dhas selected k" for k
    using map_result_in [OF found, of k] that by (auto dest: checked_name_eq)
  moreover have "\<exists>v. checked_name v = Inr n" if "n \<in> set names" for n
    using map_result_from [OF found that] by blast
  moreover have "dhas selected ''namespace'' \<longrightarrow> (\<exists>n \<in> set namespaces. dget selected ''namespace'' = PStr n)"
    using spaces by (auto simp: label_namespaces_def rbind_eq_Inr dest!: checked_name_eq)
  ultimately show ?thesis using last by blast
qed

lemma item_labels_eq: "item_labels item = Inr labels \<Longrightarrow> labels = as_dict (dget (as_dict item) ''labels'')"
  by (auto simp: item_labels_def split: pyval.splits)

text \<open>
  When an alert binds a workload, every label of the alert that names a deployment, service or app
  names that workload, every namespace label names its namespace, every alert name is the supported
  one, and each single alert is covered by such a label.
\<close>

theorem bound_workload_is_named_by_every_alert:
  assumes "alert_workload fmt env alert = Inr (ns, name)"
  shows "\<exists>a common items. alert = PDict a \<and> dget_or a ''commonLabels'' (PDict []) = PDict common \<and>
    dget a ''alerts'' = PList items \<and> items \<noteq> [] \<and>
    (\<forall>labels \<in> set (common # map (\<lambda>item. as_dict (dget (as_dict item) ''labels'')) items).
       (\<forall>k \<in> set WORKLOAD_LABELS. dhas labels k \<longrightarrow> dget labels k = PStr name) \<and>
       (dhas labels ''namespace'' \<longrightarrow> dget labels ''namespace'' = PStr ns) \<and>
       (dhas labels ''alertname'' \<longrightarrow> dget labels ''alertname'' = PStr OPERATIONAL_AVAILABILITY_ALERT)) \<and>
    (\<forall>item \<in> set items. names_workload common (as_dict (dget (as_dict item) ''labels'')))"
proof -
  from assms obtain a common item items selections found where
    alert: "alert = PDict a" "dget_or a ''commonLabels'' (PDict []) = PDict common"
      "dget a ''alerts'' = PList (item # items)"
    and selections: "map_result item_labels (item # items) = Inr selections"
    and supported: "supported_alert common selections = Inr True"
    and found: "map_result (label_step common) ((True, common) # map (Pair False) selections) = Inr found"
    and one: "length (first_occurrences (concat (map fst found))) = Suc 0"
      "length (first_occurrences (concat (map snd found))) = Suc 0"
    and target: "workload_target fmt env [(''deployment'', PStr (hd (concat (map fst found)))),
                    (''namespace'', PStr (hd (concat (map snd found))))] = Inr (ns, name)"
    by (auto simp: alert_workload_def rbind_eq_Inr Let_def simp del: map_result.simps
        split: pyval.splits list.splits prod.splits)
  define labelled where "labelled = common # selections"
  have steps: "\<exists>names namespaces. (names, namespaces) \<in> set found \<and>
      label_step common (first, labels) = Inr (names, namespaces)"
    if "(first, labels) \<in> set ((True, common) # map (Pair False) selections)" for first labels
    using map_result_in [OF found that] by auto
  have entry: "\<exists>first. (first, labels) \<in> set ((True, common) # map (Pair False) selections)"
    if "labels \<in> set labelled" for labels using that by (auto simp: labelled_def)
  have named: "\<exists>v. checked_name v = Inr n" if "n \<in> set (concat (map fst found))" for n
    using that map_result_from [OF found] label_step_names by fastforce
  have "concat (map fst found) \<noteq> []" using one(1) by (cases "concat (map fst found)") auto
  then obtain v where "checked_name v = Inr (hd (concat (map fst found)))"
    using named [of "hd (concat (map fst found))"] by (meson list.set_sel(1))
  from workload_target_of_names [OF target this]
  have heads: "ns = hd (concat (map snd found))" "name = hd (concat (map fst found))" by simp_all
  have labels: "(\<forall>k \<in> set WORKLOAD_LABELS. dhas l k \<longrightarrow> dget l k = PStr name) \<and>
      (dhas l ''namespace'' \<longrightarrow> dget l ''namespace'' = PStr ns)" if "l \<in> set labelled" for l
  proof -
    from entry [OF that] steps obtain first names namespaces where member: "(names, namespaces) \<in> set found"
      and step: "label_step common (first, l) = Inr (names, namespaces)" by blast
    have "n = name" if "n \<in> set names" for n
      using one_element [OF one(1), of n] that member heads(2) by force
    moreover have "n = ns" if "n \<in> set namespaces" for n
      using one_element [OF one(2), of n] that member heads(1) by force
    ultimately show ?thesis using label_step_names [OF step] by metis
  qed
  have covered: "names_workload common l" if "l \<in> set selections" for l
    using steps [of False l] that label_step_names by fastforce
  have alertnames: "dget l ''alertname'' = PStr OPERATIONAL_AVAILABILITY_ALERT"
    if "l \<in> set labelled" "dhas l ''alertname''" for l
    using supported that by (auto simp: supported_alert_def labelled_def Let_def image_subset_iff split: if_splits)
  have eq: "selections = map (\<lambda>it. as_dict (dget (as_dict it) ''labels'')) (item # items)"
    using selections item_labels_eq by (rule map_result_eq_map)
  have all: "\<forall>l \<in> set labelled. (\<forall>k \<in> set WORKLOAD_LABELS. dhas l k \<longrightarrow> dget l k = PStr name) \<and>
      (dhas l ''namespace'' \<longrightarrow> dget l ''namespace'' = PStr ns) \<and>
      (dhas l ''alertname'' \<longrightarrow> dget l ''alertname'' = PStr OPERATIONAL_AVAILABILITY_ALERT)"
    using labels alertnames by blast
  have each: "\<forall>it \<in> set (item # items). names_workload common (as_dict (dget (as_dict it) ''labels''))"
    using covered unfolding eq by simp
  have "item # items \<noteq> []" by simp
  with alert all each show ?thesis unfolding labelled_def eq by blast
qed

section \<open>Witnesses\<close>

definition sample_env :: action_env where
  "sample_env = \<lparr>ae_pinned_context = None, ae_context = ''kind'', ae_in_cluster = False,
     ae_workload_namespace = ''default'', ae_argocd_namespace = ''argocd'', ae_argocd_app = ''atlasops-boutique''\<rparr>"

definition sample_client :: kube_client where
  "sample_client = \<lparr>kc_open = (\<lambda>_. None), kc_host = (\<lambda>_. ''https://k:6443/''),
     kc_request = (\<lambda>_ _ _ _. Inr (PDict [(''kind'', PStr ''Deployment''), (''apiVersion'', PStr ''apps/v1''),
       (''metadata'', PDict [(''name'', PStr ''frontend''), (''namespace'', PStr ''default''),
                             (''uid'', PStr ''u''), (''resourceVersion'', PStr ''7'')])]))\<rparr>"

definition sample_operational_alert :: pyval where
  "sample_operational_alert =
     PDict [(''commonLabels'', PDict [(''alertname'', PStr OPERATIONAL_AVAILABILITY_ALERT),
                                      (''namespace'', PStr ''default'')]),
            (''alerts'', PList [PDict [(''labels'', PDict [(''deployment'', PStr ''frontend'')])]])]"

definition sample_scale :: "action_exn + prepared_action" where
  "sample_scale = prepare_action (\<lambda>_. '''') (\<lambda>_. True) sample_client sample_env ''kubectl_scale''
     [(''deployment'', PStr ''frontend''), (''replicas'', PInt 3)] sample_operational_alert"

definition sample_prepared :: prepared_action where
  "sample_prepared =
     \<lparr>pa_tool = ''kubectl_scale'',
      pa_arguments = PDict [(''deployment'', PStr ''frontend''), (''replicas'', PInt 3)],
      pa_target = \<lparr>ri_server = ''https://k:6443'', ri_context = ''kind'', ri_api_version = ''apps/v1'',
                   ri_kind = ''Deployment'', ri_namespace = ''default'', ri_name = ''frontend'', ri_uid = ''u'',
                   ri_resource_version = ''7''\<rparr>,
      pa_patch = PList [test_op ''/metadata/uid'' ''u'', test_op ''/metadata/resourceVersion'' ''7'',
                        PDict [(''op'', PStr ''replace''), (''path'', PStr ''/spec/replicas''), (''value'', PInt 3)]],
      pa_verification_target = None\<rparr>"

lemma sample_alert_workload:
  "alert_workload (\<lambda>_. '''') sample_env sample_operational_alert = Inr (''default'', ''frontend'')"
  by code_simp

lemma sample_scale_prepared: "sample_scale = Inr sample_prepared"
  by code_simp

lemma prepared_change_is_pinned_and_scoped_witness:
  "pinned_patch (pa_target sample_prepared) ''PATCH'' (pa_patch sample_prepared) \<and>
   ri_name (bound_workload sample_prepared) = ''frontend''"
proof -
  have "execution_method sample_prepared = ''PATCH''" by code_simp
  moreover have "ri_name (bound_workload sample_prepared) = ''frontend''" by code_simp
  ultimately show ?thesis
    using prepared_change_is_pinned_and_scoped [OF sample_scale_prepared [unfolded sample_scale_def]] by simp
qed

lemma execution_is_the_prepared_request_witness:
  "\<exists>sent result. execute_prepared_action (\<lambda>_. '''') (\<lambda>_. '''') (\<lambda>_. ''d'') sample_client sample_prepared =
      (sent, result) \<and>
    sent = [(''PATCH'', ''/apis/apps/v1/namespaces/default/deployments/frontend'', pa_patch sample_prepared)] \<and>
    strip_slashes (kc_host sample_client (execution_context sample_prepared)) = ''https://k:6443''"
proof -
  obtain result where run: "execute_prepared_action (\<lambda>_. '''') (\<lambda>_. '''') (\<lambda>_. ''d'') sample_client sample_prepared =
      ([(''PATCH'', ''/apis/apps/v1/namespaces/default/deployments/frontend'', pa_patch sample_prepared)], result)"
  proof -
    have "fst (execute_prepared_action (\<lambda>_. '''') (\<lambda>_. '''') (\<lambda>_. ''d'') sample_client sample_prepared) =
      [(''PATCH'', ''/apis/apps/v1/namespaces/default/deployments/frontend'', pa_patch sample_prepared)]"
      by code_simp
    then show ?thesis by (metis prod.collapse that)
  qed
  have "ri_server (pa_target sample_prepared) = ''https://k:6443''" by code_simp
  with run execution_is_the_prepared_request [OF run] show ?thesis by auto
qed

lemma bound_workload_is_named_by_every_alert_witness:
  "\<exists>common. dget_or (as_dict sample_operational_alert) ''commonLabels'' (PDict []) = PDict common \<and>
     dget common ''alertname'' = PStr OPERATIONAL_AVAILABILITY_ALERT"
  using bound_workload_is_named_by_every_alert [OF sample_alert_workload]
  by (auto simp: sample_operational_alert_def)

lemma newest_first:
  assumes "sort_key (\<lambda>c. - fst c) candidates = best # others"
    and "others = [] \<or> fst (hd others) \<noteq> (fst best :: int)"
  shows "best \<in> set candidates \<and> (\<forall>c \<in> set others. fst c < fst best) \<and> mset candidates = add_mset best (mset others)"
proof -
  have ms: "mset candidates = add_mset best (mset others)" by (metis assms(1) mset.simps(2) mset_sort)
  then have "best \<in> set candidates" by (metis set_mset_mset union_single_eq_member)
  moreover have "sorted (map (\<lambda>c. - fst c) (best # others))" by (metis assms(1) sorted_sort_key)
  with assms(2) have "\<forall>c \<in> set others. fst c < fst best" by (cases others) force+
  ultimately show ?thesis using ms by blast
qed

text \<open>The replica set that a rollback may restore, seen from the outside.\<close>

definition prior_replicaset :: "pyval \<Rightarrow> pyval \<Rightarrow> int \<Rightarrow> pyval \<Rightarrow> bool" where
  "prior_replicaset deployment item revision template \<longleftrightarrow>
     (\<exists>current m owners d. current_revision deployment = Inr current \<and> 0 < revision \<and> revision < current \<and>
        py_item item ''metadata'' = Inr (PDict m) \<and>
        py_iter (py_or (dget m ''ownerReferences'') (PList [])) = Inr owners \<and> PDict d \<in> set owners \<and>
        py_eq (dget d ''uid'') (dget (as_dict (dget (as_dict deployment) ''metadata'')) ''uid'') \<and>
        dget d ''controller'' = PBool True \<and>
        rbind (py_item item ''spec'') (\<lambda>spec. py_item spec ''template'') = Inr template)"

lemma py_item_dget: "py_item v k = Inr w \<Longrightarrow> w = dget (as_dict v) k"
  by (cases v) (auto simp: dget_def dget_or_def split: option.splits)

lemma owned_by_controller:
  "owned_by uid owners = Inr True \<Longrightarrow>
   \<exists>d. PDict d \<in> set owners \<and> py_eq (dget d ''uid'') uid \<and> dget d ''controller'' = PBool True"
proof (induction owners)
  case (Cons owner owners)
  then show ?case by (cases owner) (auto split: if_splits)
qed simp

lemma need_dict_Inr: "need_dict v = Inr d \<longleftrightarrow> v = PDict d"
  by (cases v) auto

lemma candidate_of_item:
  assumes "replicaset_candidate uid current item = Inr found" and "(revision, template) \<in> set found"
    and "current_revision deployment = Inr current"
    and "uid = dget (as_dict (dget (as_dict deployment) ''metadata'')) ''uid''"
  shows "prior_replicaset deployment item revision template"
  using assms
  by (auto simp: replicaset_candidate_def prior_replicaset_def rbind_eq_Inr need_dict_Inr
      dest!: owned_by_controller split: if_splits)

lemma candidates_are_prior:
  assumes "replicaset_history deployment replicasets = Inr candidates" and "(revision, template) \<in> set candidates"
  shows "\<exists>item. prior_replicaset deployment item revision template"
proof -
  from assms(1) obtain current uid items found where "current_revision deployment = Inr current"
    and "uid = dget (as_dict (dget (as_dict deployment) ''metadata'')) ''uid''"
    and found: "map_result (replicaset_candidate uid current) items = Inr found" and "candidates = concat found"
    by (auto simp: replicaset_history_def rbind_eq_Inr dest!: py_item_dget)
  moreover from this(4) assms(2) obtain part where "part \<in> set found" "(revision, template) \<in> set part" by auto
  moreover from map_result_from [OF found this(1)] obtain item where
    "replicaset_candidate uid current item = Inr part" by blast
  ultimately show ?thesis by (blast intro: candidate_of_item)
qed

text \<open>
  A rollback restores the template of the newest earlier revision: it comes from a replica set that
  the deployment controls, its revision is positive and below the current one, and every other
  candidate is strictly older.
\<close>

theorem rollback_restores_the_newest_prior_revision:
  assumes "rollback_template kc ctx deployment namespace = Inr template"
  shows "\<exists>replicasets candidates revision chosen others item.
    kc_request kc ctx ''GET'' (''/apis/apps/v1/namespaces/'' @ quote {CHR ''/''} namespace @ ''/replicasets'') None
      = Inr replicasets \<and>
    replicaset_history deployment replicasets = Inr candidates \<and>
    mset candidates = add_mset (revision, chosen) (mset others) \<and> (\<forall>c \<in> set others. fst c < revision) \<and>
    prior_replicaset deployment item revision chosen \<and>
    rbind (json_round_trip chosen) without_hash_label = Inr template"
proof -
  from assms obtain replicasets where
    read: "kc_request kc ctx ''GET'' (''/apis/apps/v1/namespaces/'' @ quote {CHR ''/''} namespace @ ''/replicasets'') None
      = Inr replicasets" by (auto simp: rollback_template_def rbind_eq_Inr)
  with assms obtain candidates best others where
    history: "replicaset_history deployment replicasets = Inr candidates"
    and sorted: "sort_key (\<lambda>c. - fst c) candidates = best # others"
    and newest: "others = [] \<or> fst (hd others) \<noteq> fst best"
    and result: "rbind (json_round_trip (snd best)) without_hash_label = Inr template"
    by (auto simp: rollback_template_def lift_client_def rbind_eq_Inr split: sum.split_asm list.split_asm if_split_asm)
  obtain revision chosen where best: "best = (revision, chosen)" by (cases best)
  note facts = newest_first [OF sorted newest]
  with history best obtain item where "prior_replicaset deployment item revision chosen"
    using candidates_are_prior by blast
  with facts read history best result show ?thesis by fastforce
qed

definition sample_replicaset :: "string \<Rightarrow> string \<Rightarrow> pyval" where
  "sample_replicaset revision tag =
     PDict [(''metadata'', PDict [(''uid'', PStr ''rs''), (''annotations'', PDict [(REVISION_KEY, PStr revision)]),
              (''ownerReferences'', PList [PDict [(''uid'', PStr ''u''), (''controller'', PBool True)]])]),
            (''spec'', PDict [(''template'', PDict [(''image'', PStr tag)])])]"

definition sample_rollback_client :: kube_client where
  "sample_rollback_client = \<lparr>kc_open = (\<lambda>_. None), kc_host = (\<lambda>_. ''https://k:6443''),
     kc_request = (\<lambda>_ _ _ _. Inr (PDict [(''items'', PList
       [sample_replicaset ''1'' ''a'', sample_replicaset ''3'' ''c'', sample_replicaset ''2'' ''b''])]))\<rparr>"

definition sample_rolled_deployment :: pyval where
  "sample_rolled_deployment =
     PDict [(''metadata'', PDict [(''uid'', PStr ''u''), (''annotations'', PDict [(REVISION_KEY, PStr ''3'')])])]"

lemma rollback_restores_the_newest_prior_revision_witness:
  "\<exists>item revision chosen. prior_replicaset sample_rolled_deployment item revision chosen \<and>
     rbind (json_round_trip chosen) without_hash_label = Inr (PDict [(''image'', PStr ''b'')])"
proof -
  have "rollback_template sample_rollback_client None sample_rolled_deployment ''default'' =
      Inr (PDict [(''image'', PStr ''b'')])" by code_simp
  from rollback_restores_the_newest_prior_revision [OF this] show ?thesis by blast
qed

end
