(* ===== verification/PolicyAction.thy ===== *)
theory PolicyAction
  imports ToolPolicy
begin

text \<open>
  Reading a policy action from a completion (\<open>training/grpo_environment.py\<close>), the parameter schemas of
  the tools (\<open>agents/coordinator.py\<close>) and their validation (\<open>training/sft_candidate.py\<close>).  \<open>decode\<close> is
  the JSON decoder on text: \<open>None\<close> when the text is not one JSON document, otherwise the value with the
  key-value pairs of every object in order, duplicates included, and \<open>NaN\<close> or infinite constants as the
  floats they denote.
\<close>

section \<open>Actions\<close>

fun unique_json_objects :: "pyval \<Rightarrow> bool" where
  "unique_json_objects (PDict d) \<longleftrightarrow> distinct (map fst d) \<and> list_all (\<lambda>p. unique_json_objects (snd p)) d"
| "unique_json_objects (PList xs) \<longleftrightarrow> list_all unique_json_objects xs"
| "unique_json_objects _ \<longleftrightarrow> True"

record policy_action =
  po_tool :: string
  po_arguments :: pydict
  po_claimed :: bool

definition parse_policy_action :: "(string \<Rightarrow> pyval option) \<Rightarrow> string \<Rightarrow> py_exn + policy_action" where
  "parse_policy_action decode text =
     (case decode text of
        None \<Rightarrow> Inl ValueError
      | Some payload \<Rightarrow>
          if \<not> unique_json_objects payload \<or> \<not> json_finite payload then Inl ValueError
          else case payload of
            PDict d \<Rightarrow>
              (if dhas d ''actions'' then Inl ValueError
               else if \<not> is_str (dget d ''tool'') \<or> dget d ''tool'' = PStr '''' then Inl ValueError
               else if \<not> is_dict (dget d ''arguments'') then Inl TypeError
               else if \<not> dhas d ''agent_claimed_resolved'' then Inl ValueError
               else case dget d ''agent_claimed_resolved'' of
                 PBool claimed \<Rightarrow>
                   Inr \<lparr>po_tool = (case dget d ''tool'' of PStr t \<Rightarrow> t | _ \<Rightarrow> ''''),
                        po_arguments = as_dict (dget d ''arguments''), po_claimed = claimed\<rparr>
               | _ \<Rightarrow> Inl TypeError)
          | _ \<Rightarrow> Inl TypeError)"

section \<open>Schemas\<close>

definition of_type :: "string \<Rightarrow> pyval" where
  "of_type t = PDict [(''type'', PStr t)]"

definition choice :: "string list \<Rightarrow> pyval" where
  "choice vs = PDict [(''type'', PStr ''string''), (''enum'', PList (map PStr vs))]"

definition object_schema :: "(string \<times> pyval) list \<Rightarrow> string list \<Rightarrow> pydict" where
  "object_schema properties required =
     [(''type'', PStr ''object''), (''properties'', PDict properties)] @
     (if required = [] then [] else [(''required'', PList (map PStr required))]) @
     [(''additionalProperties'', PBool False)]"

text \<open>The descriptions and defaults of the schemas are shown to a model and never read; they are left out.\<close>

definition TOOL_PARAMETER_SCHEMAS :: "(string \<times> pydict) list" where
  "TOOL_PARAMETER_SCHEMAS =
     [(''kubectl_get'', object_schema [(''resource'', of_type ''string''), (''namespace'', of_type ''string''),
         (''output'', of_type ''string'')] [''resource'']),
      (''kubectl_describe'', object_schema [(''resource'', of_type ''string''), (''name'', of_type ''string''),
         (''namespace'', of_type ''string'')] [''resource'', ''name'']),
      (''kubectl_logs'', object_schema [(''pod'', of_type ''string''), (''namespace'', of_type ''string''),
         (''tail'', of_type ''integer''), (''container'', of_type ''string'')] [''pod'']),
      (''kubectl_top_pods'', object_schema [(''namespace'', of_type ''string'')] []),
      (''kubectl_rollout'', object_schema [(''action'', choice [''undo'', ''status'', ''history'']),
         (''resource'', of_type ''string''), (''namespace'', of_type ''string'')] [''action'', ''resource'']),
      (''kubectl_scale'', object_schema [(''deployment'', of_type ''string''), (''replicas'', of_type ''integer''),
         (''namespace'', of_type ''string'')] [''deployment'', ''replicas'']),
      (''promql_query'', object_schema [(''query'', of_type ''string'')] [''query'']),
      (''promql_query_range'', object_schema [(''query'', of_type ''string''), (''start'', of_type ''number''),
         (''end'', of_type ''number''), (''step'', of_type ''string'')] [''query'']),
      (''jaeger_search'', object_schema [(''service'', of_type ''string''), (''lookback'', of_type ''string''),
         (''limit'', of_type ''integer''), (''min_duration'', of_type ''string'')] [''service'']),
      (''jaeger_get_trace'', object_schema [(''trace_id'', of_type ''string'')] [''trace_id'']),
      (''argocd_list_apps'', object_schema [] []),
      (''argocd_app_history'', object_schema [(''app'', of_type ''string'')] [''app'']),
      (''chaos_list_experiments'', object_schema [] []),
      (''argocd_rollback'', object_schema [(''app'', of_type ''string''), (''revision'', of_type ''string'')]
         [''app'', ''revision'']),
      (''chaos_stop_experiment'', object_schema
         [(''kind'', choice [''PodChaos'', ''StressChaos'', ''NetworkChaos'', ''DNSChaos'', ''IOChaos'', ''TimeChaos'']),
          (''name'', of_type ''string''), (''namespace'', choice [''chaos-mesh''])] [''kind'', ''name'']),
      (''alertmanager_list_alerts'', object_schema [(''active_only'', of_type ''boolean'')] []),
      (''alertmanager_silence'', object_schema [(''matchers'', of_type ''array''),
         (''duration_minutes'', of_type ''integer''), (''comment'', of_type ''string'')] [''matchers'']),
      (''slack_post_update'', object_schema [(''channel'', of_type ''string''), (''severity'', of_type ''string''),
         (''title'', of_type ''string''), (''summary'', of_type ''string''), (''action_items'', of_type ''array'')]
         [''channel'', ''severity'', ''title'', ''summary'']),
      (''postmortem_draft'', object_schema [(''incident'', of_type ''object''), (''output_path'', of_type ''string'')]
         [''incident''])]"

definition tool_schema :: "string \<Rightarrow> pydict" where
  "tool_schema tool = (case map_of TOOL_PARAMETER_SCHEMAS tool of None \<Rightarrow> [] | Some s \<Rightarrow> s)"

section \<open>Validation\<close>

definition has_type :: "string \<Rightarrow> pyval \<Rightarrow> bool" where
  "has_type kind v \<longleftrightarrow>
     (case v of
        PDict _ \<Rightarrow> kind = ''object''
      | PList _ \<Rightarrow> kind = ''array''
      | PStr _ \<Rightarrow> kind = ''string''
      | PInt _ \<Rightarrow> kind = ''integer'' \<or> kind = ''number''
      | PFloat _ \<Rightarrow> kind = ''number''
      | PBool _ \<Rightarrow> kind = ''boolean''
      | PNone \<Rightarrow> False)"

definition enum_allows :: "pydict \<Rightarrow> pyval \<Rightarrow> bool" where
  "enum_allows schema v \<longleftrightarrow> dhas schema ''enum'' \<longrightarrow> list_ex (\<lambda>w. py_eq v w) (as_list (dget schema ''enum''))"

definition schema_properties :: "pydict \<Rightarrow> pydict" where
  "schema_properties schema = as_dict (dget schema ''properties'')"

definition keys_allowed :: "pydict \<Rightarrow> pydict \<Rightarrow> bool" where
  "keys_allowed schema d \<longleftrightarrow>
     list_all (\<lambda>r. case r of PStr k \<Rightarrow> dhas d k | _ \<Rightarrow> False) (as_list (dget schema ''required'')) \<and>
     (dget schema ''additionalProperties'' = PBool False \<longrightarrow> set (map fst d) \<subseteq> set (map fst (schema_properties schema)))"

definition schema_kind :: "pydict \<Rightarrow> string" where
  "schema_kind schema = (case dget schema ''type'' of PStr k \<Rightarrow> k | _ \<Rightarrow> '''')"

text \<open>\<open>_validate_schema\<close>: \<open>True\<close> when it returns, \<open>False\<close> when it raises its \<open>ValueError\<close>.\<close>

function validate_schema :: "pyval \<Rightarrow> pydict \<Rightarrow> bool" where
  "validate_schema (PDict d) schema \<longleftrightarrow>
     has_type (schema_kind schema) (PDict d) \<and> enum_allows schema (PDict d) \<and> keys_allowed schema d \<and>
     list_all (\<lambda>p. case map_of (schema_properties schema) (fst p) of
       None \<Rightarrow> True | Some sub \<Rightarrow> validate_schema (snd p) (as_dict sub)) d"
| "validate_schema (PList xs) schema \<longleftrightarrow>
     has_type (schema_kind schema) (PList xs) \<and> enum_allows schema (PList xs) \<and>
     (dhas schema ''items'' \<longrightarrow> list_all (\<lambda>x. validate_schema x (as_dict (dget schema ''items''))) xs)"
| "validate_schema PNone schema \<longleftrightarrow> has_type (schema_kind schema) PNone \<and> enum_allows schema PNone"
| "validate_schema (PBool b) schema \<longleftrightarrow> has_type (schema_kind schema) (PBool b) \<and> enum_allows schema (PBool b)"
| "validate_schema (PInt i) schema \<longleftrightarrow> has_type (schema_kind schema) (PInt i) \<and> enum_allows schema (PInt i)"
| "validate_schema (PFloat x) schema \<longleftrightarrow> has_type (schema_kind schema) (PFloat x) \<and> enum_allows schema (PFloat x)"
| "validate_schema (PStr s) schema \<longleftrightarrow> has_type (schema_kind schema) (PStr s) \<and> enum_allows schema (PStr s)"
  by pat_completeness auto

termination validate_schema
  by (relation "measure (size \<circ> fst)") (auto simp: size_snd_pydict size_elem_pylist)

section \<open>Theorems\<close>

lemma schemas_are_of_the_exposed_tools: "set (map fst TOOL_PARAMETER_SCHEMAS) = AGENT_EXPOSED_TOOLS"
  by code_simp

lemma validated_entry:
  assumes "validate_schema (PDict args) schema" and "map_of args k = Some v"
    and "dget schema ''additionalProperties'' = PBool False"
  shows "\<exists>sub. map_of (schema_properties schema) k = Some sub \<and> validate_schema v (as_dict sub)"
proof -
  from assms(2) have "(k, v) \<in> set args" by (rule map_of_SomeD)
  moreover from this assms(1,3) have "k \<in> set (map fst (schema_properties schema))"
    by (force simp: keys_allowed_def)
  then obtain sub where "map_of (schema_properties schema) k = Some sub"
    by (metis (no_types, lifting) in_set_conv_nth list.set_map map_of_eq_None_iff not_Some_eq)
  ultimately show ?thesis using assms(1) by (auto simp: list_all_iff dest!: bspec)
qed

lemma validated_integer:
  "validate_schema v (as_dict (of_type ''integer'')) \<Longrightarrow> \<exists>i. v = PInt i"
  by (cases v) (auto simp: of_type_def has_type_def schema_kind_def)

lemma validated_integer_argument:
  assumes "validate_schema (PDict args) schema" and "dget schema ''additionalProperties'' = PBool False"
    and "map_of (schema_properties schema) k = Some (of_type ''integer'')"
  shows "\<exists>i. py_int (dget_or args k (PInt n)) = Inr i"
proof (cases "map_of args k")
  case None
  then show ?thesis by (simp add: dget_or_def)
next
  case (Some v)
  from validated_entry [OF assms(1) Some assms(2)] assms(3) have "validate_schema v (as_dict (of_type ''integer''))"
    by auto
  from validated_integer [OF this] Some show ?thesis by (auto simp: dget_or_def)
qed

lemma integer_parameters:
  "dget (tool_schema ''kubectl_scale'') ''additionalProperties'' = PBool False"
  "map_of (schema_properties (tool_schema ''kubectl_scale'')) ''replicas'' = Some (of_type ''integer'')"
  "dget (tool_schema ''alertmanager_silence'') ''additionalProperties'' = PBool False"
  "map_of (schema_properties (tool_schema ''alertmanager_silence'')) ''duration_minutes'' = Some (of_type ''integer'')"
  by code_simp+

text \<open>
  C33. Arguments that pass the schema of their tool are safe for the tool policy: the tool is one that is
  exposed to agents, and the policy check returns a verdict instead of raising, as long as the triage
  severity can be read.
\<close>

theorem validated_call_never_raises:
  assumes "validate_schema (PDict args) (tool_schema tool)" and "extract_severity fmt user_input = Inr s"
  shows "tool \<in> AGENT_EXPOSED_TOOLS \<and>
    (\<exists>denied. check_tool_policy fmt operational ns role tool args user_input = Inr denied)"
proof
  have "tool_schema tool \<noteq> []"
    using assms(1) by (auto simp: has_type_def schema_kind_def)
  then show "tool \<in> AGENT_EXPOSED_TOOLS"
    unfolding schemas_are_of_the_exposed_tools [symmetric] tool_schema_def
    by (auto split: option.splits dest!: map_of_SomeD intro: rev_image_eqI)
  have silence: "\<exists>r. silence_guard args = Inr r" if "tool = ''alertmanager_silence''"
    using validated_integer_argument [OF assms(1), of "''duration_minutes''" 30] integer_parameters that
    by (auto simp: silence_guard_def)
  have scale: "\<exists>r. scale_guard args = Inr r" if "tool = ''kubectl_scale''"
    using validated_integer_argument [OF assms(1), of "''replicas''" 0] integer_parameters that
    by (auto simp: scale_guard_def)
  have "\<exists>r. chaos_guard fmt args = Inr r" by (auto simp: chaos_guard_def)
  with silence scale show "\<exists>denied. check_tool_policy fmt operational ns role tool args user_input = Inr denied"
    by (cases "tool = ''alertmanager_silence''"; cases "tool = ''kubectl_scale''")
       (auto simp: check_tool_policy_def remediation_guard_def assms(2))
qed

lemma validated_call_never_raises_witness:
  "\<exists>denied. check_tool_policy (\<lambda>_. '''') False ''default'' ''remediation'' ''kubectl_scale''
     [(''deployment'', PStr ''frontend''), (''replicas'', PInt 30)] (PDict []) = Inr denied"
proof -
  have "validate_schema (PDict [(''deployment'', PStr ''frontend''), (''replicas'', PInt 30)])
      (tool_schema ''kubectl_scale'')" by code_simp
  moreover have "extract_severity (\<lambda>_. '''') (PDict []) = Inr ''UNKNOWN''" by code_simp
  ultimately show ?thesis using validated_call_never_raises by blast
qed

end
