(* ===== verification/Grounding.thy ===== *)
theory Grounding
  imports Json
begin

text \<open>
  \<open>agents/grounding.py\<close>: the citations of an agent's final document are checked against the executions
  recorded in its trajectory, and the findings are scored, never rewritten.  \<open>fmt\<close> is the text of floats
  and containers, \<open>pf\<close> is \<open>float\<close> on text, \<open>exn_text\<close> the text of an exception.
\<close>

section \<open>Executions\<close>

definition REGISTERED_TOOLS :: "string set" where
  "REGISTERED_TOOLS =
     {''kubectl_get'', ''kubectl_describe'', ''kubectl_logs'', ''kubectl_top_pods'', ''kubectl_top_nodes'',
      ''kubectl_rollout'', ''kubectl_scale'', ''kubectl_exec'', ''promql_query'', ''promql_query_range'',
      ''jaeger_search'', ''jaeger_get_trace'', ''argocd_list_apps'', ''argocd_app_history'',
      ''argocd_rollback'', ''argocd_app_get'', ''gcloud_logs_read'', ''cloud_monitoring_query'',
      ''alertmanager_silence'', ''alertmanager_list_alerts'', ''chaos_list_experiments'',
      ''chaos_stop_experiment'', ''slack_post_update'', ''postmortem_draft''}"

definition BLOCKED_EXECUTION_MARKERS :: "string list" where
  "BLOCKED_EXECUTION_MARKERS =
     [''invalid_arguments'', ''blocked_by_policy'', ''blocked_by_circuit_breaker'', ''dedup_blocked'',
      ''cap_blocked'', ''blocked_by_action_observation'', ''blocked_by_terminal_error'',
      ''blocked_by_verifier'', ''blocked_by_evidence'']"

definition CITATION_IDENTIFIER_KEYS :: "string list" where
  "CITATION_IDENTIFIER_KEYS =
     [''app'', ''query'', ''resource'', ''namespace'', ''name'', ''pod'', ''service'', ''trace_id'']"

definition PROMQL_TOOLS :: "string set" where
  "PROMQL_TOOLS = {''promql_query'', ''promql_query_range''}"

definition PROMQL_ERROR_STATUS_BY_CLASS :: "string \<Rightarrow> string option" where
  "PROMQL_ERROR_STATUS_BY_CLASS =
     [''promql_query_error'' \<mapsto> ''query_error'', ''promql_query_range_error'' \<mapsto> ''query_error'',
      ''promql_transport_error'' \<mapsto> ''transport_error'']"

text \<open>The registered names among the recorded calls of a step.\<close>

definition called_tools :: "(pyval \<Rightarrow> string) \<Rightarrow> pydict \<Rightarrow> py_exn + string list" where
  "called_tools fmt entry =
     rbind (py_iter (dget entry ''executed_tool_calls'')) (\<lambda>names.
       Inr (filter (\<lambda>n. n \<in> REGISTERED_TOOLS) (map (py_str fmt) names)))"

definition is_completed_execution :: "(pyval \<Rightarrow> string) \<Rightarrow> pydict \<Rightarrow> py_exn + bool" where
  "is_completed_execution fmt entry =
     (if truthy (dget entry ''executed_tool_calls'')
      then rbind (called_tools fmt entry) (\<lambda>names. Inr (names \<noteq> []))
      else if dget entry ''execution_state'' = PStr ''unknown_tool'' then Inr False
      else
        let registered = py_str fmt (dget entry ''tool'') \<in> REGISTERED_TOOLS in
        if dget entry ''execution_state'' = PStr ''executed'' then Inr registered
        else Inr (registered \<and> dhas entry ''output'' \<and>
                  \<not> list_ex (\<lambda>m. truthy (dget entry m)) BLOCKED_EXECUTION_MARKERS))"

definition tools_of_entry :: "(pyval \<Rightarrow> string) \<Rightarrow> pyval \<Rightarrow> py_exn + string list" where
  "tools_of_entry fmt v =
     (case v of
        PDict entry \<Rightarrow>
          rbind (is_completed_execution fmt entry) (\<lambda>completed.
            if \<not> completed then Inr []
            else if truthy (dget entry ''executed_tool_calls'') then called_tools fmt entry
            else Inr [py_str fmt (dget entry ''tool'')])
      | _ \<Rightarrow> Inr [])"

definition executed_tools :: "(pyval \<Rightarrow> string) \<Rightarrow> pyval \<Rightarrow> py_exn + string list" where
  "executed_tools fmt trajectory =
     rbind (map_result (tools_of_entry fmt) (as_list trajectory)) (\<lambda>names. Inr (concat names))"

section \<open>Citations\<close>

record citation =
  ci_path :: string
  ci_tool :: "string option"
  ci_finding :: pyval
  ci_item :: pyval

definition citation_of :: "(pyval \<Rightarrow> string) \<Rightarrow> string \<Rightarrow> nat \<times> pyval \<Rightarrow> citation" where
  "citation_of fmt path entry =
     (case entry of (i, item) \<Rightarrow>
       \<lparr>ci_path = path @ ''.evidence['' @ int_str (int i) @ '']'',
        ci_tool = (if truthy (dget (as_dict item) ''tool'') then Some (py_str fmt (dget (as_dict item) ''tool''))
                   else None),
        ci_finding = (if is_dict item then dget (as_dict item) ''finding'' else PStr ''''),
        ci_item = item\<rparr>)"

function iter_evidence_citations :: "(pyval \<Rightarrow> string) \<Rightarrow> pyval \<Rightarrow> string \<Rightarrow> citation list" where
  "iter_evidence_citations fmt (PDict d) path =
     map (citation_of fmt path) (List.enumerate 0 (as_list (dget d ''evidence''))) @
     concat (map (\<lambda>p. iter_evidence_citations fmt (snd p) (path @ ''.'' @ fst p)) d)"
| "iter_evidence_citations fmt (PList xs) path =
     concat (map (\<lambda>p. iter_evidence_citations fmt (snd p) (path @ ''['' @ int_str (int (fst p)) @ '']''))
                 (List.enumerate 0 xs))"
| "iter_evidence_citations fmt PNone path = []"
| "iter_evidence_citations fmt (PBool b) path = []"
| "iter_evidence_citations fmt (PInt i) path = []"
| "iter_evidence_citations fmt (PFloat x) path = []"
| "iter_evidence_citations fmt (PStr s) path = []"
  by pat_completeness auto

lemma enumerated_element: "(i, x) \<in> set (List.enumerate n xs) \<Longrightarrow> x \<in> set xs"
  by (auto simp: in_set_enumerate_eq)

termination iter_evidence_citations
  by (relation "measure (\<lambda>(_, v, _). size v)")
     (auto simp: size_snd_pydict size_elem_pylist dest!: enumerated_element)

definition cited_identifiers :: "pydict \<Rightarrow> string list" where
  "cited_identifiers citation = filter (\<lambda>k. dget citation k \<noteq> PNone) CITATION_IDENTIFIER_KEYS"

definition citation_matches_observation :: "(pyval \<Rightarrow> string) \<Rightarrow> pydict \<Rightarrow> pydict \<Rightarrow> bool" where
  "citation_matches_observation fmt citation entry =
     (case dget entry ''args'' of
        PDict args \<Rightarrow>
          list_all (\<lambda>k. py_str fmt (dget args k) = py_str fmt (dget citation k)) (cited_identifiers citation)
      | _ \<Rightarrow> False)"

section \<open>PromQL observations\<close>

definition finite_value :: "(string \<Rightarrow> pyfloat option) \<Rightarrow> pyval \<Rightarrow> bool" where
  "finite_value pf v =
     (case (case v of PStr s \<Rightarrow> pf s | _ \<Rightarrow> num_float v) of
        Some x \<Rightarrow> is_finite_float x | None \<Rightarrow> False)"

definition valid_promql_sample :: "(string \<Rightarrow> pyfloat option) \<Rightarrow> pyval \<Rightarrow> bool" where
  "valid_promql_sample pf sample =
     (case sample of
        PList [t, v] \<Rightarrow> \<not> is_bool t \<and> \<not> is_bool v \<and> finite_value pf t \<and> finite_value pf v
      | _ \<Rightarrow> False)"

definition vector_series :: "(string \<Rightarrow> pyfloat option) \<Rightarrow> pyval \<Rightarrow> bool" where
  "vector_series pf series \<longleftrightarrow>
     is_dict series \<and> is_dict (dget (as_dict series) ''metric'') \<and>
     valid_promql_sample pf (dget (as_dict series) ''value'')"

definition matrix_series :: "(string \<Rightarrow> pyfloat option) \<Rightarrow> pyval \<Rightarrow> bool" where
  "matrix_series pf series \<longleftrightarrow>
     is_dict series \<and> is_dict (dget (as_dict series) ''metric'') \<and>
     (case dget (as_dict series) ''values'' of
        PList samples \<Rightarrow> samples \<noteq> [] \<and> list_all (valid_promql_sample pf) samples
      | _ \<Rightarrow> False)"

definition has_promql_samples :: "(string \<Rightarrow> pyfloat option) \<Rightarrow> string \<Rightarrow> pydict \<Rightarrow> bool" where
  "has_promql_samples pf tool output_doc =
     (if dget output_doc ''success'' \<noteq> PBool True \<or> dget output_doc ''evidence_status'' \<noteq> PStr ''series_present'' \<or>
         dget output_doc ''has_data'' \<noteq> PBool True \<or> dget output_doc ''series_present'' \<noteq> PBool True \<or>
         dget output_doc ''no_series'' \<noteq> PBool False then False
      else case dget output_doc ''result'' of
        PList (first # rest) \<Rightarrow>
          (if tool = ''promql_query'' then
             (if dget output_doc ''resultType'' = PStr ''scalar'' then valid_promql_sample pf (PList (first # rest))
              else if dget output_doc ''resultType'' \<noteq> PStr ''vector'' then False
              else list_all (vector_series pf) (first # rest))
           else list_all (matrix_series pf) (first # rest))
      | _ \<Rightarrow> False)"

definition promql_error_status :: "string \<Rightarrow> pydict \<Rightarrow> string" where
  "promql_error_status tool output_doc =
     (case (case dget output_doc ''error_class'' of
              PStr c \<Rightarrow> if c \<in> {tool @ ''_error'', ''promql_transport_error''}
                        then PROMQL_ERROR_STATUS_BY_CLASS c else None
            | _ \<Rightarrow> None) of
        Some status \<Rightarrow>
          (if dget output_doc ''evidence_status'' = PStr status \<and> dget output_doc ''has_data'' = PBool False \<and>
              dget output_doc ''series_present'' = PBool False \<and> dget output_doc ''no_series'' = PBool False
           then status else ''invalid_or_unavailable'')
      | None \<Rightarrow> ''invalid_or_unavailable'')"

definition promql_observation_status :: "(string \<Rightarrow> pyfloat option) \<Rightarrow> string \<Rightarrow> pyval \<Rightarrow> string" where
  "promql_observation_status pf tool v =
     (case v of
        PDict output_doc \<Rightarrow>
          (if dget output_doc ''success'' = PBool False then promql_error_status tool output_doc
           else if dget output_doc ''success'' \<noteq> PBool True then ''invalid_or_unavailable''
           else if dget output_doc ''evidence_status'' = PStr ''no_series'' \<and> dget output_doc ''result'' = PList [] \<and>
                   dget output_doc ''has_data'' = PBool False \<and> dget output_doc ''series_present'' = PBool False \<and>
                   dget output_doc ''no_series'' = PBool True then ''no_series''
           else if has_promql_samples pf tool output_doc then ''series_present''
           else ''invalid_or_unavailable'')
      | _ \<Rightarrow> ''invalid_or_unavailable'')"

definition blank :: "pyval \<Rightarrow> bool" where
  "blank v \<longleftrightarrow> (case v of PStr s \<Rightarrow> py_strip s = [] | _ \<Rightarrow> True)"

definition matching_entries ::
  "(pyval \<Rightarrow> string) \<Rightarrow> string \<Rightarrow> pydict \<Rightarrow> pydict list \<Rightarrow> pydict list" where
  "matching_entries fmt tool citation entries =
     filter (\<lambda>e. py_str fmt (dget e ''tool'') = tool \<and> citation_matches_observation fmt citation e) entries"

definition promql_citation_status ::
  "(pyval \<Rightarrow> string) \<Rightarrow> (string \<Rightarrow> pyfloat option) \<Rightarrow> string \<Rightarrow> pydict \<Rightarrow> pydict list \<Rightarrow> string \<times> nat" where
  "promql_citation_status fmt pf tool citation entries =
     (if blank (dget citation ''finding'') then (''finding_missing'', 0)
      else if blank (dget citation ''query'') then (''query_not_cited'', 0)
      else
        case first_occurrences (map (\<lambda>e. promql_observation_status pf tool (dget e ''output''))
               (matching_entries fmt tool citation entries)) of
          [] \<Rightarrow> (''no_matching_execution'', 0)
        | [status] \<Rightarrow> if status = ''series_present'' then (''series_present'', 1) else (status, 0)
        | _ \<Rightarrow> (''mixed_observations'', 0))"

section \<open>The report\<close>

definition MAX_FINDING_LEN :: nat where "MAX_FINDING_LEN = 200"

definition completed_with_args :: "(pyval \<Rightarrow> string) \<Rightarrow> pyval \<Rightarrow> py_exn + pydict list" where
  "completed_with_args fmt v =
     (case v of
        PDict entry \<Rightarrow>
          rbind (is_completed_execution fmt entry) (\<lambda>completed.
            Inr (if completed \<and> is_dict (dget entry ''args'') then [entry] else []))
      | _ \<Rightarrow> Inr [])"

definition violates :: "(pyval \<Rightarrow> string) \<Rightarrow> string list \<Rightarrow> pydict list \<Rightarrow> citation \<Rightarrow> bool" where
  "violates fmt executed entries c =
     (case ci_tool c of
        None \<Rightarrow> True
      | Some tool \<Rightarrow>
          tool \<notin> set executed \<or>
          (cited_identifiers (as_dict (ci_item c)) \<noteq> [] \<and>
           matching_entries fmt tool (as_dict (ci_item c)) entries = []))"

definition violation_of :: "(pyval \<Rightarrow> string) \<Rightarrow> string list \<Rightarrow> citation \<Rightarrow> pydict" where
  "violation_of fmt executed c =
     [(''path'', PStr (ci_path c)),
      (''claimed_tool'', case ci_tool c of None \<Rightarrow> PNone | Some t \<Rightarrow> PStr t),
      (''finding'', PStr (if truthy (ci_finding c) then take MAX_FINDING_LEN (py_str fmt (ci_finding c)) else '''')),
      (''reason'', PStr (case ci_tool c of
          None \<Rightarrow> ''evidence item does not identify a tool observation''
        | Some t \<Rightarrow>
            if t \<in> set executed then ''cited observation parameters do not match an actual execution''
            else ''cited observation has no actual execution record in this agent'' @ [CHR 0x27] @ ''s trajectory''))]"

text \<open>The PromQL citations with their status and whether samples were shown.\<close>

definition promql_statuses ::
  "(pyval \<Rightarrow> string) \<Rightarrow> (string \<Rightarrow> pyfloat option) \<Rightarrow> pydict list \<Rightarrow> citation list \<Rightarrow> (string \<times> string \<times> nat) list" where
  "promql_statuses fmt pf entries citations =
     concat (map (\<lambda>c. case ci_tool c of
         Some tool \<Rightarrow>
           (if tool \<in> PROMQL_TOOLS
            then [(ci_path c, promql_citation_status fmt pf tool (as_dict (ci_item c)) entries)] else [])
       | None \<Rightarrow> []) citations)"

definition sorted_set :: "string list \<Rightarrow> pyval" where
  "sorted_set names = PList (map PStr (sort (first_occurrences names)))"

definition report_of ::
  "(pyval \<Rightarrow> string) \<Rightarrow> (string \<Rightarrow> pyfloat option) \<Rightarrow> string list \<Rightarrow> pydict list \<Rightarrow> citation list \<Rightarrow> pydict" where
  "report_of fmt pf executed entries citations =
     (let violations = filter (violates fmt executed entries) citations;
          statuses = promql_statuses fmt pf entries citations
      in [(''grounded'', PBool (violations = [])), (''citation_count'', PInt (int (length citations))),
          (''cited_tools'', sorted_set (concat (map (\<lambda>c. case ci_tool c of None \<Rightarrow> [] | Some t \<Rightarrow> [t]) citations))),
          (''executed_tools'', sorted_set executed),
          (''promql_citations_with_samples'', PInt (int (sum_list (map (\<lambda>s. snd (snd s)) statuses)))),
          (''promql_citation_statuses'',
           PList (map (\<lambda>s. PDict [(''path'', PStr (fst s)), (''status'', PStr (fst (snd s)))]) statuses)),
          (''violations'', PList (map (\<lambda>c. PDict (violation_of fmt executed c)) violations))])"

definition validate_evidence_grounding ::
  "(pyval \<Rightarrow> string) \<Rightarrow> (string \<Rightarrow> pyfloat option) \<Rightarrow> pyval \<Rightarrow> py_exn + pydict" where
  "validate_evidence_grounding fmt pf agent_doc =
     rbind (need_dict (py_or agent_doc (PDict []))) (\<lambda>doc.
     let trajectory = py_or (dget doc ''trajectory'') (PList []);
         citations = iter_evidence_citations fmt (py_or (dget doc ''final'') (PDict [])) ''final''
     in rbind (executed_tools fmt trajectory) (\<lambda>executed.
        rbind (map_result (completed_with_args fmt) (as_list trajectory)) (\<lambda>entries.
          Inr (report_of fmt pf executed (concat entries) citations))))"

definition build_grounding_reports ::
  "(pyval \<Rightarrow> string) \<Rightarrow> (string \<Rightarrow> pyfloat option) \<Rightarrow> (py_exn \<Rightarrow> string) \<Rightarrow> pydict \<Rightarrow> pydict" where
  "build_grounding_reports fmt pf exn_text agents =
     map (\<lambda>p. (fst p, PDict (case validate_evidence_grounding fmt pf (snd p) of
         Inr report \<Rightarrow> report
       | Inl e \<Rightarrow> [(''grounded'', PNone), (''error'', PStr (''grounding validation failed: '' @ exn_text e))]))) agents"

section \<open>Theorems\<close>

text \<open>A value inside a document, at any depth.\<close>

inductive subvalue :: "pyval \<Rightarrow> pyval \<Rightarrow> bool" where
  whole: "subvalue v v"
| in_dict: "(k, w) \<in> set d \<Longrightarrow> subvalue v w \<Longrightarrow> subvalue v (PDict d)"
| in_list: "w \<in> set xs \<Longrightarrow> subvalue v w \<Longrightarrow> subvalue v (PList xs)"

inductive_simps subvalue_simps:
  "subvalue v (PDict d)" "subvalue v (PList xs)" "subvalue v PNone" "subvalue v (PBool b)"
  "subvalue v (PInt i)" "subvalue v (PFloat x)" "subvalue v (PStr s)"

definition evidence_items :: "pyval \<Rightarrow> pyval set" where
  "evidence_items document =
     {item. \<exists>node items. subvalue (PDict node) document \<and> dget node ''evidence'' = PList items \<and> item \<in> set items}"

lemma evidence_items_simps [simp]:
  "evidence_items (PDict d) =
     set (as_list (dget d ''evidence'')) \<union> (\<Union>p \<in> set d. evidence_items (snd p))"
  "evidence_items (PList xs) = (\<Union>v \<in> set xs. evidence_items v)"
  "evidence_items PNone = {}" "evidence_items (PBool b) = {}" "evidence_items (PInt i) = {}"
  "evidence_items (PFloat x) = {}" "evidence_items (PStr s) = {}"
proof -
  have mem: "item \<in> set (as_list v) \<longleftrightarrow> (\<exists>items. v = PList items \<and> item \<in> set items)" for item v
    by (cases v) auto
  have sub: "subvalue (PDict node) (PDict d) \<longleftrightarrow> node = d \<or> (\<exists>p \<in> set d. subvalue (PDict node) (snd p))" for node
    by (force simp: subvalue_simps)
  show "evidence_items (PDict d) =
     set (as_list (dget d ''evidence'')) \<union> (\<Union>p \<in> set d. evidence_items (snd p))"
    by (auto simp: evidence_items_def sub mem)
qed (auto simp: evidence_items_def subvalue_simps)

lemma snd_enumerate [simp]: "snd ` set (List.enumerate n xs) = set xs"
  by (metis list.set_map map_snd_enumerate)

lemma enumerate_union: "(\<Union>p \<in> set (List.enumerate n xs). f (snd p)) = (\<Union>x \<in> set xs. f x)"
  by (metis image_image snd_enumerate)

lemma ci_item_citation_of [simp]: "ci_item (citation_of fmt path p) = snd p"
  by (cases p) (simp add: citation_of_def)

lemma citations_cover_evidence: "ci_item ` set (iter_evidence_citations fmt document path) = evidence_items document"
proof (induction fmt document path rule: iter_evidence_citations.induct)
  case (1 fmt d path)
  have "ci_item ` set (map (citation_of fmt path) (List.enumerate 0 (as_list (dget d ''evidence''))))
      = set (as_list (dget d ''evidence''))"
    by (simp add: image_image)
  with 1 show ?case by (simp add: image_Un image_UN)
next
  case (2 fmt xs path)
  then show ?case by (simp add: image_UN enumerate_union [where f = evidence_items])
qed simp_all

definition named_tool :: "(pyval \<Rightarrow> string) \<Rightarrow> pyval \<Rightarrow> string option" where
  "named_tool fmt item =
     (if truthy (dget (as_dict item) ''tool'') then Some (py_str fmt (dget (as_dict item) ''tool'')) else None)"

lemma citation_tool: "c \<in> set (iter_evidence_citations fmt document path) \<Longrightarrow> ci_tool c = named_tool fmt (ci_item c)"
  by (induction fmt document path rule: iter_evidence_citations.induct)
     (auto simp: citation_of_def named_tool_def)

text \<open>An evidence item that names an execution of the trajectory, and one that fits its identifiers.\<close>

definition substantiated :: "(pyval \<Rightarrow> string) \<Rightarrow> pyval list \<Rightarrow> pyval \<Rightarrow> bool" where
  "substantiated fmt trajectory item \<longleftrightarrow>
     (\<exists>c. item = PDict c \<and> truthy (dget c ''tool'') \<and>
        (\<exists>step \<in> set trajectory. \<exists>names. tools_of_entry fmt step = Inr names \<and>
           py_str fmt (dget c ''tool'') \<in> set names) \<and>
        (cited_identifiers c \<noteq> [] \<longrightarrow>
           (\<exists>e. PDict e \<in> set trajectory \<and> is_completed_execution fmt e = Inr True \<and>
              py_str fmt (dget e ''tool'') = py_str fmt (dget c ''tool'') \<and>
              citation_matches_observation fmt c e)))"

lemma executed_tools_eq:
  assumes "executed_tools fmt trajectory = Inr executed"
  shows "tool \<in> set executed \<longleftrightarrow>
    (\<exists>step \<in> set (as_list trajectory). \<exists>names. tools_of_entry fmt step = Inr names \<and> tool \<in> set names)"
proof -
  from assms obtain found where found: "map_result (tools_of_entry fmt) (as_list trajectory) = Inr found"
    and executed: "executed = concat found" by (auto simp: executed_tools_def rbind_eq_Inr)
  show ?thesis
    using map_result_in [OF found] map_result_from [OF found] unfolding executed by fastforce
qed

lemma completed_entries_eq:
  assumes "map_result (completed_with_args fmt) trajectory = Inr found"
  shows "e \<in> set (concat found) \<longleftrightarrow>
    PDict e \<in> set trajectory \<and> is_completed_execution fmt e = Inr True \<and> is_dict (dget e ''args'')"
proof
  assume "e \<in> set (concat found)"
  then obtain part where "part \<in> set found" "e \<in> set part" by auto
  with map_result_from [OF assms] obtain v where "v \<in> set trajectory" "completed_with_args fmt v = Inr part" by blast
  with \<open>e \<in> set part\<close>
  show "PDict e \<in> set trajectory \<and> is_completed_execution fmt e = Inr True \<and> is_dict (dget e ''args'')"
    by (cases v) (auto simp: completed_with_args_def rbind_eq_Inr split: if_splits)
next
  assume e: "PDict e \<in> set trajectory \<and> is_completed_execution fmt e = Inr True \<and> is_dict (dget e ''args'')"
  with map_result_in [OF assms] obtain part where "part \<in> set found"
    "completed_with_args fmt (PDict e) = Inr part" by blast
  with e show "e \<in> set (concat found)" by (auto simp: completed_with_args_def intro!: bexI [of _ part])
qed

lemma matches_needs_args: "citation_matches_observation fmt c e \<Longrightarrow> is_dict (dget e ''args'')"
  by (auto simp: citation_matches_observation_def split: pyval.splits)

lemma as_list_or_empty [simp]: "as_list (py_or v (PList [])) = as_list v"
  by (cases v) (auto simp: py_or_def)

lemma executed_tools_or_empty [simp]:
  "executed_tools fmt (py_or v (PList [])) = executed_tools fmt v"
  by (simp add: executed_tools_def)

lemma or_empty_dict [simp]: "py_or (PDict d) (PDict []) = PDict d"
  by (simp add: py_or_def)

lemma violates_iff:
  assumes "executed_tools fmt trajectory = Inr executed"
    and "map_result (completed_with_args fmt) (as_list trajectory) = Inr found"
    and "ci_tool c = named_tool fmt (ci_item c)"
  shows "violates fmt executed (concat found) c \<longleftrightarrow> \<not> substantiated fmt (as_list trajectory) (ci_item c)"
proof (cases "ci_item c")
  case (PDict d)
  have "matching_entries fmt tool d (concat found) \<noteq> [] \<longleftrightarrow>
      (\<exists>e. PDict e \<in> set (as_list trajectory) \<and> is_completed_execution fmt e = Inr True \<and>
         py_str fmt (dget e ''tool'') = tool \<and> citation_matches_observation fmt d e)" for tool
    unfolding matching_entries_def filter_empty_conv
    using completed_entries_eq [OF assms(2)] by (blast dest: matches_needs_args)
  with PDict executed_tools_eq [OF assms(1)] show ?thesis
    by (auto simp: violates_def assms(3) named_tool_def substantiated_def)
qed (auto simp: violates_def assms(3) named_tool_def substantiated_def)

text \<open>
  C39. The report calls a document grounded exactly when every item of every \<open>evidence\<close> list, at any
  depth of the final output, names a tool that was executed in the trajectory and, when it gives
  identifiers, fits a completed execution of that tool.
\<close>

theorem grounded_iff_every_citation_substantiated:
  assumes "validate_evidence_grounding fmt pf (PDict doc) = Inr report"
  shows "dget report ''grounded'' = PBool True \<longleftrightarrow>
    (\<forall>node items item. subvalue (PDict node) (py_or (dget doc ''final'') (PDict [])) \<longrightarrow>
       dget node ''evidence'' = PList items \<longrightarrow> item \<in> set items \<longrightarrow>
       substantiated fmt (as_list (dget doc ''trajectory'')) item)"
proof -
  define document where "document = py_or (dget doc ''final'') (PDict [])"
  define citations where "citations = iter_evidence_citations fmt document ''final''"
  from assms obtain executed found where executed: "executed_tools fmt (dget doc ''trajectory'') = Inr executed"
    and found: "map_result (completed_with_args fmt) (as_list (dget doc ''trajectory'')) = Inr found"
    and report: "report = report_of fmt pf executed (concat found) citations"
    by (auto simp: validate_evidence_grounding_def rbind_eq_Inr Let_def citations_def document_def)
  have "dget report ''grounded'' = PBool True \<longleftrightarrow> filter (violates fmt executed (concat found)) citations = []"
    by (simp add: report report_of_def Let_def)
  also have "\<dots> \<longleftrightarrow> (\<forall>c \<in> set citations. substantiated fmt (as_list (dget doc ''trajectory'')) (ci_item c))"
    using violates_iff [OF executed found] citation_tool by (auto simp: filter_empty_conv citations_def)
  also have "\<dots> \<longleftrightarrow> (\<forall>item \<in> evidence_items document. substantiated fmt (as_list (dget doc ''trajectory'')) item)"
    by (simp add: citations_cover_evidence [of fmt document "''final''", symmetric] citations_def)
  finally show ?thesis by (auto simp: evidence_items_def document_def)
qed

definition sample_citation :: pyval where
  "sample_citation = PDict [(''tool'', PStr ''kubectl_get''), (''name'', PStr ''frontend''), (''finding'', PStr ''down'')]"

definition sample_agent_doc :: pydict where
  "sample_agent_doc =
     [(''trajectory'', PList [PDict [(''tool'', PStr ''kubectl_get''), (''args'', PDict [(''name'', PStr ''frontend'')]),
                                    (''output'', PDict [])]]),
      (''final'', PDict [(''causes'', PList [PDict [(''evidence'', PList [sample_citation])]])])]"

lemma grounded_iff_every_citation_substantiated_witness:
  "\<exists>report. validate_evidence_grounding (\<lambda>_. '''') (\<lambda>_. None) (PDict sample_agent_doc) = Inr report \<and>
     substantiated (\<lambda>_. '''') (as_list (dget sample_agent_doc ''trajectory'')) sample_citation"
proof -
  obtain report where report: "validate_evidence_grounding (\<lambda>_. '''') (\<lambda>_. None) (PDict sample_agent_doc) = Inr report"
    and grounded: "dget report ''grounded'' = PBool True"
  proof -
    have "(case validate_evidence_grounding (\<lambda>_. '''') (\<lambda>_. None) (PDict sample_agent_doc) of
        Inr report \<Rightarrow> dget report ''grounded'' = PBool True | Inl _ \<Rightarrow> False)" by code_simp
    then show ?thesis using that by (auto split: sum.splits)
  qed
  have "sample_citation \<in> evidence_items (py_or (dget sample_agent_doc ''final'') (PDict []))"
    by (simp add: sample_agent_doc_def py_or_def)
  with grounded grounded_iff_every_citation_substantiated [OF report]
  have "substantiated (\<lambda>_. '''') (as_list (dget sample_agent_doc ''trajectory'')) sample_citation"
    unfolding evidence_items_def by blast
  with report show ?thesis by blast
qed

end
