(* ===== verification/AgentLoop.thy ===== *)
theory AgentLoop
  imports ModelReply StepReward Preconditions Approval CircuitBreaker AuditLog ActionExecution
    PolicyAction Grounding
begin

text \<open>
  \<open>agents/coordinator.py\<close>, the tool-calling loop of one agent (\<open>call_agent\<close>): one call of a tool as a
  model requests it, from its arguments to the message that reports its outcome.

  A run is a record \<open>job\<close>: the settings the process reads (environment variables, model name), the
  parameters of the text functions, the role and the input of the agent, and the answers of everything
  outside the process.  An answer may depend on the whole trace of effects so far, so the model covers
  every behaviour of providers, tools, observers and operators; an operator answers through the shared
  approval gate.  The state \<open>agent\<close> holds the local
  variables of \<open>call_agent\<close>, the shared breaker and approval gate, and the trace.  Wherever the code
  awaits, other tasks may use the breaker and the gate: their calls are \<open>jb_breaker_events\<close> and
  \<open>jb_gate_events\<close>.  Text sent to the user interface (\<open>thought_emit\<close>) and log lines are left out.
\<close>

section \<open>State\<close>

text \<open>An exception as the code reads it: its type, its text and its attribute \<open>failure_category\<close>.\<close>

record raised =
  ra_type :: string
  ra_text :: string
  ra_category :: pyval

datatype 'a answer = Answer 'a | Failure raised | Cancellation

datatype effect =
    Completion pydict
  | CalledTool string pydict
  | Prepared string pydict
  | Executed prepared_action
  | PermitChecked "nat option" string bool
  | Observed pydict
  | Noted string string pydict
  | Notified string
  | Audited audit_args

datatype agent_exn =
    PyError py_exn
  | AgentCancelled
  | CompletionFailed string
  | Propagated raised
  | BreakerTripped tripped_reason
  | MutationUncertain

record agent =
  ag_trace :: "effect list"
  ag_breaker :: breaker
  ag_gate :: gate
  ag_messages :: "pyval list"
  ag_trajectory :: "pydict list"
  ag_observations :: "pydict list"
  ag_seen :: "string \<Rightarrow> nat"
  ag_counts :: "string \<Rightarrow> nat"
  ag_mutated :: bool
  ag_executed :: "pydict list"
  ag_terminal :: "((string \<times> string) \<times> string) list"
  ag_mutation_in_response :: bool
  ag_resolved :: bool
  ag_retry_given :: bool
  ag_turn_names :: "string list"
  ag_turn_ref :: "nat option"
  ag_last :: "(pydict \<times> pydict) option"
  ag_tracker :: tracker
  ag_approval :: pydict
  ag_approval_blocked :: bool

record job =
  jb_operational :: bool
  jb_workload_ns :: string
  jb_argocd_app :: string
  jb_model :: string
  jb_backend :: string
  jb_journaled :: bool
  jb_fmt :: "pyval \<Rightarrow> string"
  jb_ff :: "rat \<Rightarrow> string"
  jb_repr :: "string \<Rightarrow> string"
  jb_indented :: "pyval \<Rightarrow> string"
  jb_loads :: "string \<Rightarrow> pyval option"
  jb_scrub :: "string \<Rightarrow> string"
  jb_sha :: "string \<Rightarrow> string"
  jb_role :: string
  jb_input :: pydict
  jb_control :: pyval
  jb_incident :: string
  jb_prompt :: string
  jb_now :: "effect list \<Rightarrow> time"
  jb_breaker_events :: "effect list \<Rightarrow> cb_event list"
  jb_gate_events :: "effect list \<Rightarrow> gate_event list"
  jb_post :: "effect list \<Rightarrow> pydict \<Rightarrow> pyval answer"
  jb_provider :: "(effect list \<Rightarrow> pydict \<Rightarrow> pyval answer) option"
  jb_tool :: "effect list \<Rightarrow> string \<Rightarrow> pydict \<Rightarrow> raised + pydict"
  jb_prepare :: "effect list \<Rightarrow> string \<Rightarrow> pydict \<Rightarrow> pyval \<Rightarrow> prepared_action answer"
  jb_execute :: "effect list \<Rightarrow> prepared_action \<Rightarrow> pydict answer"
  jb_observer :: "(effect list \<Rightarrow> pydict \<Rightarrow> pyval answer) option"
  jb_exact_approval :: bool
  jb_severity :: string
  jb_approval :: pydict
  jb_scope :: "pydict option"
  jb_note :: "effect list \<Rightarrow> raised option"
  jb_token :: "effect list \<Rightarrow> string"
  jb_wake :: "effect list \<Rightarrow> wake"

text \<open>An operation changes the state and then returns, or raises.\<close>

type_synonym ('s, 'a) st = "'s \<Rightarrow> (agent_exn + 'a) \<times> 's"
type_synonym 'a op = "(agent, 'a) st"

definition obind :: "('s, 'a) st \<Rightarrow> ('a \<Rightarrow> ('s, 'b) st) \<Rightarrow> ('s, 'b) st" where
  "obind m f s = (case m s of (Inl e, s') \<Rightarrow> (Inl e, s') | (Inr a, s') \<Rightarrow> f a s')"

definition oret :: "'a \<Rightarrow> ('s, 'a) st" where "oret a s = (Inr a, s)"

definition oraise :: "agent_exn \<Rightarrow> ('s, 'a) st" where "oraise e s = (Inl e, s)"

definition oget :: "('s \<Rightarrow> 'a) \<Rightarrow> ('s, 'a) st" where "oget f s = (Inr (f s), s)"

definition omap :: "('s \<Rightarrow> 's) \<Rightarrow> ('s, unit) st" where "omap f s = (Inr (), f s)"

definition olift :: "py_exn + 'a \<Rightarrow> ('s, 'a) st" where
  "olift r = (case r of Inl e \<Rightarrow> oraise (PyError e) | Inr a \<Rightarrow> oret a)"

definition emit :: "effect \<Rightarrow> agent \<Rightarrow> agent" where
  "emit e s = s\<lparr>ag_trace := ag_trace s @ [e]\<rparr>"

text \<open>Other tasks run while this one awaits.\<close>

definition await_others :: "job \<Rightarrow> agent \<Rightarrow> agent" where
  "await_others jb s =
     s\<lparr>ag_breaker := run cb_step (ag_breaker s) (jb_breaker_events jb (ag_trace s)),
       ag_gate := run (gate_step (jb_ff jb) (jb_sha jb)) (ag_gate s) (jb_gate_events jb (ag_trace s))\<rparr>"

section \<open>Records, messages and observations\<close>

definition runtime_context :: "job \<Rightarrow> agent \<Rightarrow> pydict" where
  "runtime_context jb s =
     AList.update ''_runtime_control'' (jb_control jb)
       (AList.update ''observations'' (PList (map PDict (ag_observations s))) (jb_input jb))"

definition audit_args_of ::
  "job \<Rightarrow> string \<Rightarrow> string option \<Rightarrow> pydict option \<Rightarrow> string \<Rightarrow> string \<Rightarrow> string \<Rightarrow> audit_args" where
  "audit_args_of jb action_type tool args summary approved_by policy_check =
     \<lparr>aa_incident_id = jb_incident jb, aa_agent_role = jb_role jb, aa_action_type = action_type,
      aa_tool_name = tool, aa_tool_args = args, aa_result_summary = summary, aa_approved_by = approved_by,
      aa_policy_check = policy_check\<rparr>"

definition audit_result :: "job \<Rightarrow> string \<Rightarrow> pydict option \<Rightarrow> string \<Rightarrow> string \<Rightarrow> agent \<Rightarrow> agent" where
  "audit_result jb tool args summary policy_check =
     emit (Audited (audit_args_of jb ''tool_result'' (Some tool) args summary '''' policy_check))"

definition add_entry :: "pydict \<Rightarrow> agent \<Rightarrow> agent" where
  "add_entry entry s = s\<lparr>ag_trajectory := ag_trajectory s @ [entry]\<rparr>"

definition add_observation :: "pydict \<Rightarrow> agent \<Rightarrow> agent" where
  "add_observation obs s = s\<lparr>ag_observations := ag_observations s @ [obs]\<rparr>"

definition add_message :: "pyval \<Rightarrow> agent \<Rightarrow> agent" where
  "add_message m s = s\<lparr>ag_messages := ag_messages s @ [m]\<rparr>"

text \<open>The record of the current remediation turn is an element of the trajectory that is updated in place.\<close>

definition update_turn :: "(pydict \<Rightarrow> pydict) \<Rightarrow> agent \<Rightarrow> agent" where
  "update_turn f s =
     (case ag_turn_ref s of
        None \<Rightarrow> s
      | Some i \<Rightarrow> s\<lparr>ag_trajectory := (ag_trajectory s)[i := f (ag_trajectory s ! i)]\<rparr>)"

definition note_outcome :: "string \<Rightarrow> pydict \<Rightarrow> agent \<Rightarrow> agent" where
  "note_outcome state outcome =
     update_turn (\<lambda>d. AList.update ''tool_outcomes'' (PList (as_list (dget d ''tool_outcomes'') @ [PDict outcome]))
       (AList.update ''validation_state'' (PStr state) d))"

definition outcome_of :: "pyval \<Rightarrow> string \<Rightarrow> string \<Rightarrow> string option \<Rightarrow> pydict" where
  "outcome_of tc name validation execution =
     [(''id'', dget (as_dict tc) ''id''), (''name'', PStr name), (''validation'', PStr validation)] @
     (case execution of None \<Rightarrow> [] | Some e \<Rightarrow> [(''execution'', PStr e)]) @ [(''executed'', PBool False)]"

definition tool_entry :: "job \<Rightarrow> nat \<Rightarrow> string \<Rightarrow> pydict \<Rightarrow> pydict \<Rightarrow> string \<Rightarrow> pydict" where
  "tool_entry jb turn name args output marker =
     [(''role'', PStr (jb_role jb)), (''turn'', PInt (int turn)), (''tool'', PStr name), (''args'', PDict args),
      (''output'', PDict output), (marker, PBool True)]"

text \<open>\<open>messages.append({"role": "tool", "tool_call_id": tc["id"], "content": ...})\<close>.\<close>

definition reply_message :: "pyval \<Rightarrow> string \<Rightarrow> unit op" where
  "reply_message tc content =
     obind (olift (py_key tc ''id'')) (\<lambda>call_id.
       omap (add_message (PDict [(''role'', PStr ''tool''), (''tool_call_id'', call_id), (''content'', PStr content)])))"

definition safe_content :: "job \<Rightarrow> pydict \<Rightarrow> string" where
  "safe_content jb output = plain_text (jb_ff jb) (PDict (model_safe_tool_output (jb_scrub jb) (PDict output)))"

definition record_blocked_tool ::
  "job \<Rightarrow> nat \<Rightarrow> pyval \<Rightarrow> string \<Rightarrow> pydict \<Rightarrow> pydict \<Rightarrow> string \<Rightarrow> string \<Rightarrow> unit op" where
  "record_blocked_tool jb turn tc name args output marker policy_check =
     (let error = py_or (dget output ''error'') (PStr marker) in
      obind (omap (note_outcome marker (outcome_of tc name ''blocked'' (Some ''blocked'')))) (\<lambda>_.
      obind (omap (audit_result jb name (Some args) (take 300 (py_str (jb_fmt jb) error)) policy_check)) (\<lambda>_.
      obind (omap (add_entry (tool_entry jb turn name args output marker))) (\<lambda>_.
      obind (omap (add_observation [(''tool'', PStr name), (''args'', PDict args), (''output'', PDict output),
                                    (marker, PBool True)])) (\<lambda>_.
        reply_message tc (safe_content jb output))))))"

section \<open>Texts of refusals\<close>

definition precondition_text :: "job \<Rightarrow> precondition_error \<Rightarrow> string" where
  "precondition_text jb e =
     (case e of
        NoDeploymentHistory app \<Rightarrow>
          ''evidence_precondition: deployment rollback requires positive, '' @
          ''non-empty deployment history evidence for app '' @ jb_repr jb app
      | UnknownRevision app \<Rightarrow>
          ''evidence_precondition: rollback revision is not present in '' @
          ''observed history for app '' @ jb_repr jb app
      | NoChaosObservation \<Rightarrow>
          ''evidence_precondition: chaos_stop_experiment requires a matching '' @
          ''active Chaos resource observation'')"

definition denial_text :: "job \<Rightarrow> denial \<Rightarrow> string" where
  "denial_text jb d =
     (let names = (\<lambda>S. jb_fmt jb (PList (map PStr (sorted_list_of_set S)))) in
      case d of
        ToolNotAllowed tool role \<Rightarrow> ''tool `'' @ tool @ ''` not allowed for role `'' @ role @ ''`''
      | MutationOutsideRemediation tool \<Rightarrow>
          ''cluster-mutating tool `'' @ tool @ ''` blocked outside remediation role''
      | NamespaceNotAllowed \<Rightarrow> ''Operational Kubernetes reads require an allowed explicit namespace''
      | SilenceTooLong \<Rightarrow> ''silence duration cannot exceed 30 minutes''
      | ReplicasOutOfRange \<Rightarrow> ''replicas must stay within 0..20''
      | RollbackNeedsSeverity \<Rightarrow> ''rollback requires confirmed incident severity P0/P1/P2''
      | ChaosKindNotAllowed kind \<Rightarrow>
          ''chaos kind '' @ [char_of (39::nat)] @ py_str (jb_fmt jb) kind @ [char_of (39::nat)] @
          '' not allowed; must be one of '' @ names ALLOWED_CHAOS_KINDS
      | ChaosNamespaceUnauthorized namespace \<Rightarrow>
          ''chaos namespace '' @ [char_of (39::nat)] @ py_str (jb_fmt jb) namespace @ [char_of (39::nat)] @
          '' unauthorized; allowed='' @ names ALLOWED_CHAOS_NAMESPACES)"

text \<open>
  The text of \<open>CircuitBreakerTripped\<close>.  The long dashes of this and of later messages are hyphens here.
\<close>

definition tripped_text :: "breaker \<Rightarrow> string \<Rightarrow> tripped_reason \<Rightarrow> string" where
  "tripped_text b incident reason =
     (case reason of
        BreakerOpen \<Rightarrow> ''Circuit breaker is OPEN - all tool calls blocked''
      | ConcurrentLimit \<Rightarrow> ''Concurrent incident limit reached''
      | ToolCallLimit \<Rightarrow>
          ''Tool call limit ('' @ int_str (max_tool_calls_per_incident b) @ '') exceeded for '' @ incident
      | HourlyLimit \<Rightarrow> ''Hourly cluster-mutating action limit reached'')"

section \<open>Guards of one call\<close>

definition rejected_output :: "string \<Rightarrow> string \<Rightarrow> pydict" where
  "rejected_output error error_class =
     [(''success'', PBool False), (''error'', PStr error), (''error_class'', PStr error_class)]"

text \<open>\<open>role == "remediation" and _is_mutating_action(...)\<close>.\<close>

definition guarded_mutation :: "job \<Rightarrow> string \<Rightarrow> pydict \<Rightarrow> bool" where
  "guarded_mutation jb name args \<longleftrightarrow> jb_role jb = ''remediation'' \<and> is_mutating_action (jb_fmt jb) name args"

text \<open>What an earlier call of the same run forbids: the output, the marker and the policy label.\<close>

definition response_guard :: "job \<Rightarrow> string \<Rightarrow> pydict \<Rightarrow> agent \<Rightarrow> (pydict \<times> string \<times> string) option" where
  "response_guard jb name args s =
     (if \<not> guarded_mutation jb name args then None
      else if ag_resolved s then
        Some (rejected_output ''blocked_by_verifier: environment is already resolved'' ''safety_block'',
              ''blocked_by_verifier'', ''verifier_resolved'')
      else if ag_mutation_in_response s then
        Some (rejected_output (''blocked_by_action_observation: one mutating action '' @
                               ''must be observed before another action is selected'') ''safety_block'',
              ''blocked_by_action_observation'', ''one_mutation_per_model_response'')
      else case map_of (ag_terminal s) (action_identity (jb_fmt jb) name args) of
        Some reason \<Rightarrow>
          (if reason = [] then None
           else Some (rejected_output (''blocked_by_terminal_error: action class is terminal after '' @ reason)
                        ''terminal_action_blocked'',
                      ''blocked_by_terminal_error'', ''terminal_action_class''))
      | None \<Rightarrow> None)"

definition mark_terminal :: "job \<Rightarrow> string \<Rightarrow> pydict \<Rightarrow> string \<Rightarrow> agent \<Rightarrow> agent" where
  "mark_terminal jb name args reason s =
     (if guarded_mutation jb name args
      then s\<lparr>ag_terminal := AList.update (action_identity (jb_fmt jb) name args) reason (ag_terminal s)\<rparr> else s)"

definition blocked_by_policy :: "job \<Rightarrow> nat \<Rightarrow> pyval \<Rightarrow> string \<Rightarrow> pydict \<Rightarrow> string \<Rightarrow> unit op" where
  "blocked_by_policy jb turn tc name args error =
     (let output = [(''success'', PBool False), (''error'', PStr error)] in
      obind (omap (mark_terminal jb name args ''safety_block'')) (\<lambda>_.
      obind (omap (note_outcome ''blocked_by_policy'' (outcome_of tc name ''blocked'' None))) (\<lambda>_.
      obind (omap (audit_result jb name (Some args) error ''blocked_by_policy'')) (\<lambda>_.
      obind (omap (add_entry (tool_entry jb turn name args output ''blocked_by_policy''))) (\<lambda>_.
        reply_message tc (safe_content jb output))))))"

definition invalid_arguments :: "job \<Rightarrow> nat \<Rightarrow> pyval \<Rightarrow> string \<Rightarrow> pyval \<Rightarrow> string \<Rightarrow> unit op" where
  "invalid_arguments jb turn tc name raw error =
     (let output = [(''success'', PBool False), (''error'', PStr error)] in
      obind (omap (note_outcome ''invalid_arguments'' (outcome_of tc name ''failed'' None))) (\<lambda>_.
      obind (omap (audit_result jb name None error ''invalid_tool_arguments'')) (\<lambda>_.
      obind (omap (add_entry [(''role'', PStr (jb_role jb)), (''turn'', PInt (int turn)), (''tool'', PStr name),
                              (''raw_arguments'', raw), (''output'', PDict output),
                              (''invalid_arguments'', PBool True)])) (\<lambda>_.
      obind (omap (add_observation [(''tool'', PStr name), (''args'', PDict []), (''output'', PDict output),
                                    (''invalid_arguments'', PBool True)])) (\<lambda>_.
        reply_message tc (safe_content jb output))))))"

definition blocked_by_breaker :: "job \<Rightarrow> nat \<Rightarrow> pyval \<Rightarrow> string \<Rightarrow> pydict \<Rightarrow> string \<Rightarrow> unit op" where
  "blocked_by_breaker jb turn tc name args error =
     (let output = [(''success'', PBool False), (''error'', PStr error),
                    (''blocked_by_circuit_breaker'', PBool True)] in
      obind (omap (note_outcome ''blocked_by_circuit_breaker''
                     (outcome_of tc name ''allowed'' (Some ''blocked'')))) (\<lambda>_.
      obind (omap (audit_result jb name (Some args) error ''blocked_by_circuit_breaker'')) (\<lambda>_.
      obind (omap (add_entry (tool_entry jb turn name args output ''blocked_by_circuit_breaker''))) (\<lambda>_.
        reply_message tc (safe_content jb output)))))"

text \<open>A call that the duplicate guard or the per-tool cap stops.\<close>

definition stopped_call :: "job \<Rightarrow> nat \<Rightarrow> pyval \<Rightarrow> string \<Rightarrow> pydict \<Rightarrow> pydict \<Rightarrow> string \<Rightarrow> unit op" where
  "stopped_call jb turn tc name args output marker =
     obind (omap (note_outcome marker (outcome_of tc name ''allowed'' (Some marker)))) (\<lambda>_.
     obind (reply_message tc (safe_content jb output)) (\<lambda>_.
       omap (add_entry (tool_entry jb turn name args output marker))))"

definition check_breaker :: "job \<Rightarrow> string \<Rightarrow> pydict \<Rightarrow> tripped_reason option op" where
  "check_breaker jb name args s =
     (case check_before_tool_call (jb_now jb (ag_trace s)) (jb_incident jb)
             (is_mutating_action (jb_fmt jb) name args) (ag_breaker s) of
        (r, b) \<Rightarrow> (Inr r, s\<lparr>ag_breaker := b\<rparr>))"

definition call_key :: "job \<Rightarrow> string \<Rightarrow> pydict \<Rightarrow> string" where
  "call_key jb name args = name @ '':'' @ sorted_text (jb_ff jb) args"

definition MAX_IDENTICAL_CALLS :: nat where "MAX_IDENTICAL_CALLS = 3"

definition tool_cap :: "string \<Rightarrow> nat" where
  "tool_cap name =
     (if name = ''promql_query'' then 6 else if name = ''promql_query_range'' then 4
      else if name = ''kubectl_get'' then 5 else if name = ''kubectl_logs'' then 4 else 8)"

definition count_seen :: "job \<Rightarrow> string \<Rightarrow> pydict \<Rightarrow> agent \<Rightarrow> agent" where
  "count_seen jb name args s =
     s\<lparr>ag_seen := (ag_seen s)(call_key jb name args := ag_seen s (call_key jb name args) + 1)\<rparr>"

definition count_tool :: "string \<Rightarrow> agent \<Rightarrow> agent" where
  "count_tool name s = s\<lparr>ag_counts := (ag_counts s)(name := ag_counts s name + 1)\<rparr>"

definition duplicate_output :: "string \<Rightarrow> pydict" where
  "duplicate_output name =
     [(''error'', PStr (''Duplicate call blocked - '' @ name @ '' already called with these exact args. '' @
        ''Try different parameters or produce your conclusion.''))]"

definition cap_output :: "string \<Rightarrow> nat \<Rightarrow> pydict" where
  "cap_output name n =
     [(''error'', PStr (''Tool cap reached - '' @ name @ '' called '' @ int_str (int n) @
        '' times this run (limit '' @ int_str (int (tool_cap name)) @
        ''). You have enough data; produce your conclusion now.''))]"

section \<open>Awaiting answers\<close>

text \<open>An effect, its answer, and whatever other tasks did meanwhile.\<close>

definition ask :: "job \<Rightarrow> effect \<Rightarrow> (effect list \<Rightarrow> 'a) \<Rightarrow> 'a op" where
  "ask jb e f = obind (omap (emit e)) (\<lambda>_ s. (Inr (f (ag_trace s)), await_others jb s))"

definition progress_note :: "job \<Rightarrow> string \<Rightarrow> string \<Rightarrow> pydict \<Rightarrow> unit op" where
  "progress_note jb phase event patch =
     obind (omap (emit (Noted phase event patch))) (\<lambda>_.
     obind (oget (\<lambda>s. jb_note jb (ag_trace s))) (\<lambda>failure.
       case failure of None \<Rightarrow> oret () | Some x \<Rightarrow> oraise (Propagated x)))"

definition agent_result :: "job \<Rightarrow> pydict \<Rightarrow> agent \<Rightarrow> pydict" where
  "agent_result jb final s =
     [(''role'', PStr (jb_role jb)), (''trajectory'', PList (map PDict (ag_trajectory s))),
      (''final'', PDict final)]"

definition summarised_result :: "job \<Rightarrow> pydict \<Rightarrow> agent \<Rightarrow> pydict" where
  "summarised_result jb final s =
     agent_result jb final s @ [(''step_reward_summary'', PDict (tracker_summary (ag_tracker s)))]"

definition executed_list :: "agent \<Rightarrow> pyval" where
  "executed_list s = PList (map PDict (ag_executed s))"

section \<open>Approval of a mutation\<close>

text \<open>A call of the shared approval gate.\<close>

definition gate_call :: "job \<Rightarrow> gate_event \<Rightarrow> unit op" where
  "gate_call jb e = omap (\<lambda>s. s\<lparr>ag_gate := gate_step (jb_ff jb) (jb_sha jb) (ag_gate s) e\<rparr>)"

definition decision_dict :: "decision_result \<Rightarrow> pydict" where
  "decision_dict d =
     [(''status'', PStr (dr_status d)), (''incident_id'', PStr (dr_incident_id d))] @
     (if dr_status d = ''missing'' then []
      else [(''approved_by'', PStr (dr_approved_by d)), (''reason'', PStr (dr_reason d))])"

definition audit_action ::
  "job \<Rightarrow> string \<Rightarrow> pydict \<Rightarrow> string \<Rightarrow> string \<Rightarrow> string \<Rightarrow> agent \<Rightarrow> agent" where
  "audit_action jb action_type action summary approved_by policy_check =
     emit (Audited \<lparr>aa_incident_id = jb_incident jb, aa_agent_role = ''remediation'',
       aa_action_type = action_type, aa_tool_name = Some (text_of (dget action ''tool'')),
       aa_tool_args = Some (as_dict (dget action ''arguments'')), aa_result_summary = summary,
       aa_approved_by = approved_by, aa_policy_check = policy_check\<rparr>)"

text \<open>
  The wait for the decision.  A wake-up that finds no decision is none: the wait goes on to its
  deadline.
\<close>

definition wait_for_action_decision :: "job \<Rightarrow> nat \<Rightarrow> string \<Rightarrow> (decision_result \<times> nat option) op" where
  "wait_for_action_decision jb ref tok s =
     (let now = jb_now jb (ag_trace s) in
      case begin_action_wait now (jb_incident jb) tok (ag_gate s) of
        (Answered d, _) \<Rightarrow> (Inr (d, None), s)
      | (Suspended _, g) \<Rightarrow>
          let s1 = await_others jb (s\<lparr>ag_gate := gate_step (jb_ff jb) (jb_sha jb) (ag_gate s)
                                        (BeginActionWait now (jb_incident jb) tok)\<rparr>);
              t = jb_now jb (ag_trace s1); pid = jb_token jb (ag_trace s1);
              wk = (if jb_wake jb (ag_trace s1) = Woken \<and> rq_decision (requests (ag_gate s1) ref) = ''pending''
                    then DeadlinePassed else jb_wake jb (ag_trace s1));
              s2 = s1\<lparr>ag_gate := gate_step (jb_ff jb) (jb_sha jb) (ag_gate s1) (FinishActionWait t pid wk ref)\<rparr>
          in case fst (finish_action_wait t pid wk ref (ag_gate s1)) of
               Returned r \<Rightarrow> (Inr r, s2)
             | _ \<Rightarrow> (Inl AgentCancelled, s2))"

definition request_selected_action :: "job \<Rightarrow> string \<Rightarrow> pydict \<Rightarrow> (pydict \<times> nat option) op" where
  "request_selected_action jb severity action =
     obind (oget (\<lambda>s. (jb_now jb (ag_trace s), jb_token jb (ag_trace s)))) (\<lambda>(now, tok).
     obind (oget (\<lambda>s. request_action (jb_ff jb) (jb_sha jb) now tok (jb_incident jb) severity action None (ag_gate s))) (\<lambda>requested.
     obind (olift requested) (\<lambda>(ref, g).
     obind (gate_call jb (RequestAction now tok (jb_incident jb) severity action None)) (\<lambda>_.
     let summary = (case rq_action_summary (requests g ref) of None \<Rightarrow> '''' | Some t \<Rightarrow> t) in
     obind (omap (audit_action jb ''approval_requested'' action summary '''' ''requires_approval'')) (\<lambda>_.
     obind (wait_for_action_decision jb ref tok) (\<lambda>(d, permit).
     obind (omap (audit_action jb ''approval_decision'' action (dr_status d) (dr_approved_by d)
             (if permit \<noteq> None then ''approval_granted'' else ''approval_denied''))) (\<lambda>_.
       oret (decision_dict d, permit))))))))"

text \<open>
  The approver that \<open>handle_incident\<close> installs: it asks for the exact action, tells the operators, waits,
  and keeps the incident's approval record, which is part of the state here.
\<close>

definition note_approval :: "pydict \<Rightarrow> agent \<Rightarrow> agent" where
  "note_approval patch s = s\<lparr>ag_approval := dict_merge (ag_approval s) patch\<rparr>"

definition block_approval :: "string \<Rightarrow> agent \<Rightarrow> agent" where
  "block_approval decision s =
     (note_approval [(''decision'', PStr decision)] s)\<lparr>ag_approval_blocked := True\<rparr>"

definition progress_if :: "job \<Rightarrow> string \<Rightarrow> string \<Rightarrow> (agent \<Rightarrow> pydict) \<Rightarrow> unit op" where
  "progress_if jb phase event patch =
     (if jb_journaled jb then obind (oget patch) (progress_note jb phase event) else oret ())"

definition request_patch :: "approval_request \<Rightarrow> pydict" where
  "request_patch r =
     [(''action_digest'', case rq_action_digest r of None \<Rightarrow> PNone | Some d \<Rightarrow> PStr d),
      (''action_summary'', case rq_action_summary r of None \<Rightarrow> PNone | Some t \<Rightarrow> PStr t)]"

definition decided_approval ::
  "job \<Rightarrow> pydict \<Rightarrow> approval_request \<Rightarrow> decision_result \<times> nat option \<Rightarrow> nat option op" where
  "decided_approval jb action req answered =
     (let (d, permit) = answered in
      obind (omap (note_approval ((''decision'', PStr (dr_status d)) # request_patch req @
        (if dr_status d = ''missing'' \<or> dr_approved_by d = [] then []
         else [(''approved_by'', PStr (dr_approved_by d))])))) (\<lambda>_.
      obind (progress_if jb ''approval'' ''approval_decided'' (\<lambda>s. [(''approval'', PDict (ag_approval s))])) (\<lambda>_.
      obind (omap (audit_action jb ''approval_decision'' action (dr_status d) (dr_approved_by d)
              (if dr_status d = ''approved'' \<and> permit \<noteq> None then ''approval_granted'' else ''approval_denied''))) (\<lambda>_.
        if dr_status d \<noteq> ''approved'' \<or> permit = None
        then obind (omap (\<lambda>s. s\<lparr>ag_approval_blocked := True\<rparr>)) (\<lambda>_. oret None)
        else oret permit))))"

definition request_exact_action :: "job \<Rightarrow> pydict \<Rightarrow> (nat \<times> string \<times> approval_request) option op" where
  "request_exact_action jb action =
     obind (oget (\<lambda>s. (jb_now jb (ag_trace s), jb_token jb (ag_trace s)))) (\<lambda>(now, tok).
     obind (oget (\<lambda>s. request_action (jb_ff jb) (jb_sha jb) now tok (jb_incident jb) (jb_severity jb) action
                        (jb_scope jb) (ag_gate s))) (\<lambda>requested.
     case requested of
       Inl _ \<Rightarrow> obind (omap (block_approval ''request_failed'')) (\<lambda>_. oret None)
     | Inr (ref, g) \<Rightarrow>
         obind (gate_call jb (RequestAction now tok (jb_incident jb) (jb_severity jb) action (jb_scope jb))) (\<lambda>_.
         obind (omap (note_approval (request_patch (requests g ref) @
           [(''action'', dget (to_dict (requests g ref)) ''action''),
            (''expires_at'', dget (to_dict (requests g ref)) ''expires_at'')]))) (\<lambda>_.
           oret (Some (ref, tok, requests g ref))))))"

definition request_summary :: "approval_request \<Rightarrow> string" where
  "request_summary req =
     (case rq_action_summary req of
        None \<Rightarrow> ''Exact policy action approval''
      | Some t \<Rightarrow> if t = [] then ''Exact policy action approval'' else t)"

definition approve_exact_action :: "job \<Rightarrow> pydict \<Rightarrow> pyval \<Rightarrow> nat option op" where
  "approve_exact_action jb action asker =
     (if asker \<noteq> PStr (jb_incident jb)
      then obind (omap (block_approval ''incident_mismatch'')) (\<lambda>_. oret None)
      else
        obind (request_exact_action jb action) (\<lambda>requested.
        case requested of
          None \<Rightarrow> oret None
        | Some (ref, tok, req) \<Rightarrow>
            obind (progress_if jb ''approval'' ''approval_requested'' (\<lambda>s. [(''approval'', PDict (ag_approval s))])) (\<lambda>_.
            obind (omap (audit_action jb ''approval_requested'' action (request_summary req) '''' ''requires_approval'')) (\<lambda>_.
            obind (omap (emit (Notified ''slack_post_update''))) (\<lambda>_.
            obind (wait_for_action_decision jb ref tok) (decided_approval jb action req))))))"

text \<open>The answer of whoever decides, with the permit, and what is kept of it as the action's approval.\<close>

definition approver_answer :: "job \<Rightarrow> agent \<Rightarrow> pydict" where
  "approver_answer jb s =
     (let record = ag_approval s in
      AList.update ''approved_by'' (dget_or record ''approved_by'' (PStr ''''))
        (AList.update ''status''
          (PStr (py_str (jb_fmt jb) (py_or (dget record ''decision'') (PStr ''missing'')))) record))"

definition approval_answer :: "job \<Rightarrow> string \<Rightarrow> pydict \<Rightarrow> (pydict \<times> nat option \<times> pydict option) op" where
  "approval_answer jb severity action =
     (if jb_exact_approval jb then
        obind (approve_exact_action jb action (PStr (jb_incident jb))) (\<lambda>permit.
        obind (oget (approver_answer jb)) (\<lambda>res. oret (res, permit, Some res)))
      else if severity = ''UNKNOWN'' then oret ([(''status'', PStr ''missing'')], None, None)
      else obind (request_selected_action jb severity action) (\<lambda>(res, permit). oret (res, permit, Some res)))"

definition consume_permit :: "job \<Rightarrow> nat option \<Rightarrow> pydict \<Rightarrow> bool op" where
  "consume_permit jb permit action =
     obind (olift (action_digest (jb_ff jb) (jb_sha jb) action)) (\<lambda>digest.
     obind (oget (\<lambda>s. jb_now jb (ag_trace s))) (\<lambda>now.
     obind (oget (\<lambda>s. fst (consume_action_permit now now permit (jb_incident jb) digest (ag_gate s)))) (\<lambda>checked.
     obind (gate_call jb (Consume now now permit (jb_incident jb) digest)) (\<lambda>_.
     obind (olift checked) (\<lambda>accepted.
     obind (omap (emit (PermitChecked permit digest accepted))) (\<lambda>_. oret accepted))))))"

text \<open>A permit that is not accepted: an approval without a valid permit counts as none.\<close>

definition deny ::
  "job \<Rightarrow> string \<Rightarrow> pydict \<Rightarrow> pydict \<Rightarrow> pydict option \<Rightarrow> (pydict option \<times> pydict option) op" where
  "deny jb name args answered approval =
     (let decision = (if answered = [] then [(''status'', PStr ''missing'')] else answered) in
      if dget decision ''status'' = PStr ''approved'' then
        obind (omap (emit (Audited \<lparr>aa_incident_id = jb_incident jb, aa_agent_role = ''remediation'',
           aa_action_type = ''action_permit_denied'', aa_tool_name = Some name, aa_tool_args = Some args,
           aa_result_summary = ''permit_invalid'',
           aa_approved_by = py_str (jb_fmt jb) (dget_or decision ''approved_by'' (PStr '''')),
           aa_policy_check = ''approval_denied''\<rparr>))) (\<lambda>_.
          oret (Some (AList.update ''status'' (PStr ''permit_invalid'') decision), approval))
      else oret (Some decision, approval))"

text \<open>No decision means that the action may run.\<close>

definition decide ::
  "job \<Rightarrow> string \<Rightarrow> pydict \<Rightarrow> string \<Rightarrow> string \<Rightarrow> pydict \<Rightarrow> (pydict option \<times> pydict option) op" where
  "decide jb name args mode severity action =
     (if mode = ''manual'' then oret (Some [(''status'', PStr ''manual_required'')], None)
      else if mode = ''approve'' then
        obind (approval_answer jb severity action) (\<lambda>(answered, permit, approval).
        obind (consume_permit jb permit action) (\<lambda>accepted.
          if accepted then oret (None, approval) else deny jb name args answered approval))
      else oret (None, None))"

section \<open>Authorising a mutation\<close>

text \<open>Either the result that ends the run, or the action to approve with its preparation.\<close>

definition prepare_mutation ::
  "job \<Rightarrow> nat \<Rightarrow> pyval \<Rightarrow> string \<Rightarrow> pydict \<Rightarrow> (pydict + pydict \<times> prepared_action option) op" where
  "prepare_mutation jb turn tc name args =
     (if \<not> jb_operational jb
      then oret (Inr ([(''tool'', PStr name), (''arguments'', PDict args)], None))
      else if \<not> jb_journaled jb then oraise (PyError RuntimeError)
      else
        obind (ask jb (Prepared name args) (\<lambda>t. jb_prepare jb t name args (dget (jb_input jb) ''alert''))) (\<lambda>a.
          case a of
            Cancellation \<Rightarrow> oraise AgentCancelled
          | Failure x \<Rightarrow>
              obind (record_blocked_tool jb turn tc name args
                [(''success'', PBool False),
                 (''error'', PStr (''Action preparation failed ('' @ ra_type x @ '')''))]
                ''blocked_by_target'' ''action_preparation_failed'') (\<lambda>_.
              obind (oget (\<lambda>s. agent_result jb
                [(''status'', PStr ''action_preparation_failed''), (''outcome'', PStr ''escalated''),
                 (''executed_actions'', executed_list s)] s)) (\<lambda>result. oret (Inl result)))
          | Answer p \<Rightarrow>
              obind (progress_note jb ''approval'' ''action_prepared''
                [(''prepared_action'', PDict (approval_action p))]) (\<lambda>_.
                oret (Inr (approval_action p, Some p)))))"

datatype authorization = Proceed "prepared_action option" "pydict option" | Refuse pydict

definition refuse :: "job \<Rightarrow> nat \<Rightarrow> pyval \<Rightarrow> string \<Rightarrow> pydict \<Rightarrow> string \<Rightarrow> pydict \<Rightarrow> authorization op" where
  "refuse jb turn tc name args mode decision =
     (let status = py_str (jb_fmt jb) (py_or (dget decision ''status'') (PStr ''missing'')) in
      obind (record_blocked_tool jb turn tc name args
        [(''success'', PBool False), (''error'', PStr (''approval_'' @ status))]
        ''blocked_by_approval'' ''approval_denied'') (\<lambda>_.
      obind (oget (\<lambda>s. summarised_result jb
        [(''incident_id'', PStr (jb_incident jb)), (''mode'', PStr mode),
         (''status'', PStr (''approval_'' @ status)), (''outcome'', PStr ''escalated''),
         (''approval'', PDict decision), (''executed_actions'', executed_list s),
         (''actions_taken'', executed_list s)] s)) (\<lambda>result. oret (Refuse result))))"

definition action_mode :: "job \<Rightarrow> string \<Rightarrow> string" where
  "action_mode jb severity =
     (let mode = approval_mode_for_severity severity in
      if jb_operational jb \<and> mode \<noteq> ''manual'' then ''approve'' else mode)"

definition authorize :: "job \<Rightarrow> nat \<Rightarrow> pyval \<Rightarrow> string \<Rightarrow> pydict \<Rightarrow> authorization op" where
  "authorize jb turn tc name args =
     (if \<not> guarded_mutation jb name args then oret (Proceed None None)
      else
        obind (oget (\<lambda>s. extract_severity (jb_fmt jb) (PDict (runtime_context jb s)))) (\<lambda>found.
        obind (olift found) (\<lambda>severity.
        obind (prepare_mutation jb turn tc name args) (\<lambda>prepared.
          case prepared of
            Inl result \<Rightarrow> oret (Refuse result)
          | Inr (action, p) \<Rightarrow>
              obind (decide jb name args (action_mode jb severity) severity action) (\<lambda>(decision, approval).
                case decision of
                  None \<Rightarrow> oret (Proceed p approval)
                | Some d \<Rightarrow> refuse jb turn tc name args (action_mode jb severity) d)))))"

section \<open>Running the tool\<close>

text \<open>The handler of the \<open>try\<close> block: an operational run lets the exception out.\<close>

definition tool_failure :: "job \<Rightarrow> agent_exn \<Rightarrow> string \<Rightarrow> pydict op" where
  "tool_failure jb e text =
     (if jb_operational jb then oraise e
      else oret [(''error'', PStr (''Tool execution failed: '' @ text))])"

definition run_prepared :: "job \<Rightarrow> prepared_action \<Rightarrow> pydict option \<Rightarrow> pydict op" where
  "run_prepared jb p approval =
     obind (oget (\<lambda>s. require_closed (ag_breaker s))) (\<lambda>tripped.
     case tripped of
       Some reason \<Rightarrow> oraise (BreakerTripped reason)
     | None \<Rightarrow>
         obind (progress_note jb ''applying'' ''mutation_started''
           [(''prepared_action'', PDict (approval_action p)),
            (''approval'', case approval of None \<Rightarrow> PNone | Some d \<Rightarrow> PDict d)]) (\<lambda>_.
         obind (ask jb (Executed p) (\<lambda>t. jb_execute jb t p)) (\<lambda>a.
           case a of
             Cancellation \<Rightarrow> oraise AgentCancelled
           | Failure x \<Rightarrow> oraise (Propagated x)
           | Answer output \<Rightarrow>
               if dget output ''error_class'' = PStr ''mutation_uncertain''
               then obind (progress_note jb ''applying'' ''mutation_uncertain'' [(''action_result'', PDict output)])
                      (\<lambda>_. oraise MutationUncertain)
               else obind (progress_note jb ''verification'' ''mutation_returned'' [(''action_result'', PDict output)])
                      (\<lambda>_. oret output))))"

text \<open>A prepared action exists in operational runs only, so its exceptions always leave the run.\<close>

definition run_tool :: "job \<Rightarrow> string \<Rightarrow> pydict \<Rightarrow> prepared_action option \<Rightarrow> pydict option \<Rightarrow> pydict op" where
  "run_tool jb name args prepared approval =
     (if name \<notin> REGISTERED_TOOLS then oret [(''error'', PStr (''Unknown tool: '' @ name))]
      else case prepared of
        Some p \<Rightarrow> run_prepared jb p approval
      | None \<Rightarrow>
          obind (omap (emit (CalledTool name args))) (\<lambda>_.
          obind (oget (\<lambda>s. jb_tool jb (ag_trace s) name args)) (\<lambda>r.
            case r of
              Inr output \<Rightarrow> oret output
            | Inl x \<Rightarrow> tool_failure jb (Propagated x) (ra_text x))))"

section \<open>Observing a mutation\<close>

definition observation_error :: "string \<Rightarrow> pydict" where
  "observation_error text =
     [(''env_resolved'', PBool False), (''verification_status'', PStr ''observation_error''),
      (''error'', PStr text)]"

definition observed_resolved :: "pydict \<Rightarrow> bool" where
  "observed_resolved obs \<longleftrightarrow>
     dget obs ''env_resolved'' = PBool True \<and> dget obs ''verification_status'' = PStr ''passed''"

definition observed_failed :: "pydict \<Rightarrow> bool" where
  "observed_failed obs \<longleftrightarrow>
     dget obs ''env_resolved'' = PBool False \<and> dget obs ''verification_status'' = PStr ''failed''"

text \<open>
  The observer that \<open>handle_incident\<close> installs verifies the environment and notes the result in the
  journal; a failure of the note is a failure of the observation.
\<close>

definition observed_by_verifier :: "pyval \<Rightarrow> pyval" where
  "observed_by_verifier v =
     (case v of
        PDict d \<Rightarrow> PDict ((''observation_type'', PStr ''authoritative_environment_verifier'') # d)
      | _ \<Rightarrow> v)"

definition observe_after_mutation ::
  "job \<Rightarrow> (effect list \<Rightarrow> pydict \<Rightarrow> pyval answer) \<Rightarrow> pydict \<Rightarrow> pyval answer op" where
  "observe_after_mutation jb observer action =
     obind (ask jb (Observed action) (\<lambda>t. observer t action)) (\<lambda>a.
       case a of
         Answer v \<Rightarrow>
           (if jb_journaled jb then
              obind (omap (emit (Noted ''verification'' ''post_action_observed'' [(''verification'', v)]))) (\<lambda>_.
              oget (\<lambda>s. case jb_note jb (ag_trace s) of
                          None \<Rightarrow> Answer (observed_by_verifier v) | Some x \<Rightarrow> Failure x))
            else oret (Answer (observed_by_verifier v)))
       | _ \<Rightarrow> oret a)"

text \<open>The observation of an executed mutation, and whether it leaves the outcome unknown.\<close>

definition observe_mutation :: "job \<Rightarrow> pydict \<Rightarrow> (pydict \<times> bool) op" where
  "observe_mutation jb action_record =
     obind (omap (\<lambda>s. s\<lparr>ag_mutation_in_response := True\<rparr>)) (\<lambda>_.
     case jb_observer jb of
       None \<Rightarrow> oret (observation_error ''Mutation observer is not installed'', True)
     | Some observer \<Rightarrow>
         let action = AList.update ''incident_id'' (PStr (jb_incident jb)) action_record in
         obind (observe_after_mutation jb observer action) (\<lambda>a.
         obind (case a of
                  Cancellation \<Rightarrow> oraise AgentCancelled
                | Failure x \<Rightarrow> oret (observation_error (ra_type x @ '': '' @ ra_text x))
                | Answer (PDict d) \<Rightarrow> oret d
                | Answer _ \<Rightarrow>
                    oret (observation_error ''ValueError: Mutation observer must return a verification object''))
           (\<lambda>obs.
         obind (omap (\<lambda>s. s\<lparr>ag_resolved := observed_resolved obs\<rparr>)) (\<lambda>_.
           oret (obs, \<not> (observed_resolved obs \<or> observed_failed obs))))))"

section \<open>Recording an executed call\<close>

definition succeeded :: "pydict \<Rightarrow> bool" where
  "succeeded output \<longleftrightarrow> truthy (dget_or output ''success'' (PBool False))"

definition known_outcome :: "pyval \<Rightarrow> string \<Rightarrow> pydict \<Rightarrow> pydict" where
  "known_outcome tc name output =
     [(''id'', dget (as_dict tc) ''id''), (''name'', PStr name), (''validation'', PStr ''allowed''),
      (''execution'', PStr (if name \<in> REGISTERED_TOOLS then ''completed'' else ''not_executed'')),
      (''success'', PBool (succeeded output)), (''executed'', PBool (name \<in> REGISTERED_TOOLS))]"

definition note_execution :: "job \<Rightarrow> pyval \<Rightarrow> string \<Rightarrow> pydict \<Rightarrow> pydict \<Rightarrow> agent \<Rightarrow> agent" where
  "note_execution jb tc name args output s =
     (let s1 = (if is_mutating_action (jb_fmt jb) name args \<and> succeeded output
                then s\<lparr>ag_mutated := True\<rparr> else s);
          s2 = (if name \<in> REGISTERED_TOOLS then s1\<lparr>ag_turn_names := ag_turn_names s1 @ [name]\<rparr> else s1);
          s3 = update_turn (\<lambda>d.
                 AList.update ''execution_state''
                   (PStr (if name \<in> REGISTERED_TOOLS then ''executed'' else ''unknown_tool''))
                 (AList.update ''executed_tool_calls'' (PList (map PStr (ag_turn_names s2))) d)) s2
      in note_outcome ''validated'' (known_outcome tc name output) s3)"

definition action_record ::
  "string \<Rightarrow> pydict \<Rightarrow> pydict \<Rightarrow> prepared_action option \<Rightarrow> pydict option \<Rightarrow> agent \<Rightarrow> pydict" where
  "action_record name args output prepared approval s =
     [(''step'', PInt (int (length (ag_executed s)) + 1)), (''tool'', PStr name), (''args'', PDict args),
      (''output'', PDict output), (''success'', PBool (succeeded output))] @
     (case prepared of
        None \<Rightarrow> []
      | Some p \<Rightarrow> [(''prepared_action'', PDict (approval_action p)),
                   (''approval'', case approval of None \<Rightarrow> PNone | Some d \<Rightarrow> PDict d)])"

definition with_observation :: "pydict option \<Rightarrow> pydict \<Rightarrow> pydict" where
  "with_observation obs d =
     (case obs of None \<Rightarrow> d | Some v \<Rightarrow> d @ [(''verifier_observation'', PDict v)])"

definition note_terminal :: "job \<Rightarrow> string \<Rightarrow> pydict \<Rightarrow> pydict \<Rightarrow> agent \<Rightarrow> agent" where
  "note_terminal jb name args output s =
     (case terminal_error_class (jb_fmt jb) output of
        None \<Rightarrow> s | Some reason \<Rightarrow> mark_terminal jb name args reason s)"

definition TOOL_OUTPUT_MAX_CHARS :: nat where "TOOL_OUTPUT_MAX_CHARS = 2000"

definition tool_message :: "job \<Rightarrow> pydict \<Rightarrow> pydict option \<Rightarrow> string" where
  "tool_message jb output obs =
     (let safe = model_safe_tool_output (jb_scrub jb) (PDict output);
          shown = (case obs of
                     None \<Rightarrow> safe
                   | Some v \<Rightarrow> AList.update ''verifier_observation'' (strip_model_forbidden_context (PDict v)) safe)
      in take TOOL_OUTPUT_MAX_CHARS (plain_text (jb_ff jb) (PDict shown)))"

definition track :: "string \<Rightarrow> pydict \<Rightarrow> pydict \<Rightarrow> rat op" where
  "track name args output s =
     (case record_call name args output (ag_tracker s) of (r, k) \<Rightarrow> (Inr r, s\<lparr>ag_tracker := k\<rparr>))"

definition conclude_observed :: "job \<Rightarrow> nat \<Rightarrow> string \<Rightarrow> pydict \<Rightarrow> pydict option \<Rightarrow> bool \<Rightarrow> pydict op" where
  "conclude_observed jb turn name args obs unknown =
     (let outcome = (if unknown then ''escalated'' else ''resolved'');
          reason = (if unknown then ''post_mutation_observation_unknown'' else ''authoritative_verifier_resolved'')
      in obind (omap (add_entry [(''role'', PStr (jb_role jb)), (''turn'', PInt (int turn)),
                                 (''controller_conclusion'', PBool True), (''reason'', PStr reason)])) (\<lambda>_.
         oget (\<lambda>s. summarised_result jb
           ([(''incident_id'', PStr (jb_incident jb)), (''outcome'', PStr outcome), (''status'', PStr outcome),
             (''proposed_actions'', PList [PDict [(''tool'', PStr name), (''args'', PDict args)]]),
             (''executed_actions'', executed_list s), (''actions_taken'', executed_list s),
             (''verification'', case obs of None \<Rightarrow> PNone | Some v \<Rightarrow> PDict v)] @
            (if unknown
             then [(''terminal_block'', PDict [(''reason'', PStr ''post_mutation_observation_unknown'')])]
             else [(''verified_by'', PStr ''environment_verifier'')])) s)))"

text \<open>Everything after the tool returned; a result ends the run.\<close>

definition finish_call ::
  "job \<Rightarrow> nat \<Rightarrow> pyval \<Rightarrow> string \<Rightarrow> pydict \<Rightarrow> prepared_action option \<Rightarrow> pydict option \<Rightarrow> pydict \<Rightarrow>
   pydict option op" where
  "finish_call jb turn tc name args prepared approval output =
     obind (omap (note_execution jb tc name args output)) (\<lambda>_.
     obind (oget (action_record name args output prepared approval)) (\<lambda>act.
     obind (omap (note_terminal jb name args output)) (\<lambda>_.
     obind (if guarded_mutation jb name args \<and> name \<in> REGISTERED_TOOLS
            then obind (observe_mutation jb act) (\<lambda>(obs, unknown). oret (Some obs, unknown))
            else oret (None, False)) (\<lambda>(obs, unknown).
     obind (omap (\<lambda>s. s\<lparr>ag_executed := ag_executed s @ [with_observation obs act]\<rparr>)) (\<lambda>_.
     obind (omap (add_observation (with_observation obs
             [(''tool'', PStr name), (''args'', PDict args), (''output'', PDict output)]))) (\<lambda>_.
     obind (track name args output) (\<lambda>reward.
     obind (omap (emit (Audited (audit_args_of jb ''tool_result'' (Some name) (Some args)
             (take 300 (py_str (jb_fmt jb) (PDict output)))
             (case approval of None \<Rightarrow> '''' | Some d \<Rightarrow> py_str (jb_fmt jb) (dget_or d ''approved_by'' (PStr '''')))
             (if prepared \<noteq> None then ''approved_exact_action'' else ''allowed''))))) (\<lambda>_.
     obind (omap (add_entry (with_observation obs
             [(''role'', PStr (jb_role jb)), (''turn'', PInt (int turn)), (''tool'', PStr name),
              (''args'', PDict args), (''output'', PDict output), (''step_reward'', PFloat (FFin reward))]))) (\<lambda>_.
     obind (reply_message tc (tool_message jb output obs)) (\<lambda>_.
     obind (oget ag_resolved) (\<lambda>resolved.
       if resolved \<or> unknown
       then obind (conclude_observed jb turn name args obs unknown) (\<lambda>result. oret (Some result))
       else oret None)))))))))))"

section \<open>One call\<close>

text \<open>A result ends the run; nothing lets the loop go on to the next call.\<close>

definition execute_call :: "job \<Rightarrow> nat \<Rightarrow> pyval \<Rightarrow> string \<Rightarrow> pydict \<Rightarrow> pydict option op" where
  "execute_call jb turn tc name args =
     obind (authorize jb turn tc name args) (\<lambda>a.
       case a of
         Refuse result \<Rightarrow> oret (Some result)
       | Proceed prepared approval \<Rightarrow>
           obind (run_tool jb name args prepared approval) (\<lambda>output.
             finish_call jb turn tc name args prepared approval output))"

definition counted_call :: "job \<Rightarrow> nat \<Rightarrow> pyval \<Rightarrow> string \<Rightarrow> pydict \<Rightarrow> pydict option op" where
  "counted_call jb turn tc name args =
     obind (omap (count_seen jb name args)) (\<lambda>_.
     obind (oget (\<lambda>s. ag_seen s (call_key jb name args))) (\<lambda>seen.
       if seen > MAX_IDENTICAL_CALLS
       then obind (stopped_call jb turn tc name args (duplicate_output name) ''dedup_blocked'') (\<lambda>_. oret None)
       else
         obind (omap (count_tool name)) (\<lambda>_.
         obind (oget (\<lambda>s. ag_counts s name)) (\<lambda>n.
           if n > tool_cap name
           then obind (stopped_call jb turn tc name args (cap_output name n) ''cap_blocked'') (\<lambda>_. oret None)
           else execute_call jb turn tc name args))))"

definition allowed_call :: "job \<Rightarrow> nat \<Rightarrow> pyval \<Rightarrow> string \<Rightarrow> pydict \<Rightarrow> pydict option op" where
  "allowed_call jb turn tc name args =
     obind (omap (emit (Audited (audit_args_of jb ''tool_call'' (Some name) (Some args) '''' '''' ''allowed'')))) (\<lambda>_.
     obind (check_breaker jb name args) (\<lambda>tripped.
       case tripped of
         Some reason \<Rightarrow>
           obind (oget (\<lambda>s. tripped_text (ag_breaker s) (jb_incident jb) reason)) (\<lambda>error.
           obind (blocked_by_breaker jb turn tc name args error) (\<lambda>_. oret None))
       | None \<Rightarrow> counted_call jb turn tc name args))"

definition policed_call :: "job \<Rightarrow> nat \<Rightarrow> pyval \<Rightarrow> string \<Rightarrow> pydict \<Rightarrow> pydict option op" where
  "policed_call jb turn tc name args =
     obind (oget (\<lambda>s. check_tool_policy (jb_fmt jb) (jb_operational jb) (jb_workload_ns jb) (jb_role jb)
                        name args (PDict (runtime_context jb s)))) (\<lambda>r.
     obind (olift r) (\<lambda>denied.
     case denied of
       Some d \<Rightarrow> obind (blocked_by_policy jb turn tc name args (denial_text jb d)) (\<lambda>_. oret None)
     | None \<Rightarrow> allowed_call jb turn tc name args))"

definition unproven_call :: "job \<Rightarrow> nat \<Rightarrow> pyval \<Rightarrow> string \<Rightarrow> pydict \<Rightarrow> precondition_error \<Rightarrow> pydict option op" where
  "unproven_call jb turn tc name args e =
     obind (omap (mark_terminal jb name args ''evidence_precondition'')) (\<lambda>_.
     obind (record_blocked_tool jb turn tc name args
       (rejected_output (precondition_text jb e) ''evidence_precondition'')
       ''blocked_by_evidence'' ''evidence_precondition'') (\<lambda>_. oret None))"

definition checked_call :: "job \<Rightarrow> nat \<Rightarrow> pyval \<Rightarrow> string \<Rightarrow> pydict \<Rightarrow> pydict option op" where
  "checked_call jb turn tc name args =
     obind (oget (response_guard jb name args)) (\<lambda>blocked.
     case blocked of
       Some (output, marker, policy_check) \<Rightarrow>
         obind (record_blocked_tool jb turn tc name args output marker policy_check) (\<lambda>_. oret None)
     | None \<Rightarrow>
         obind (oget (\<lambda>s. check_remediation_action_preconditions (jb_fmt jb) name args (runtime_context jb s))) (\<lambda>r.
         obind (olift r) (\<lambda>problem.
         case problem of
           Some e \<Rightarrow> unproven_call jb turn tc name args e
         | None \<Rightarrow> policed_call jb turn tc name args)))"

text \<open>\<open>fn_args.setdefault("namespace", ...)\<close> for operational reads.\<close>

definition default_namespace :: "job \<Rightarrow> string \<Rightarrow> pydict \<Rightarrow> pydict" where
  "default_namespace jb name args =
     (if jb_operational jb \<and> name \<in> OPERATIONAL_KUBECTL_READ_TOOLS \<and> \<not> dhas args ''namespace''
      then args @ [(''namespace'', PStr (jb_workload_ns jb))] else args)"

text \<open>A name that is no text is shown as its text; one that cannot be looked up in a set raises.\<close>

definition process_call :: "job \<Rightarrow> nat \<Rightarrow> pyval \<Rightarrow> pydict option op" where
  "process_call jb turn tc =
     obind (olift (py_key tc ''function'')) (\<lambda>f.
     obind (olift (py_key f ''name'')) (\<lambda>named.
     let name = py_str (jb_fmt jb) named; raw = dget (as_dict f) ''arguments'' in
     case parse_tool_arguments (jb_fmt jb) (jb_repr jb) (jb_loads jb) name raw of
       Inl error \<Rightarrow> obind (invalid_arguments jb turn tc name raw error) (\<lambda>_. oret None)
     | Inr args \<Rightarrow>
         if \<not> hashable named then oraise (PyError TypeError)
         else checked_call jb turn tc name (default_namespace jb name args)))"

fun process_calls :: "job \<Rightarrow> nat \<Rightarrow> pyval list \<Rightarrow> pydict option op" where
  "process_calls jb turn [] = oret None"
| "process_calls jb turn (tc # tcs) =
     obind (process_call jb turn tc) (\<lambda>ended.
       case ended of Some result \<Rightarrow> oret (Some result) | None \<Rightarrow> process_calls jb turn tcs)"

end
