(* ===== verification/AgentRun.thy ===== *)
theory AgentRun
  imports AgentLoop
begin

text \<open>
  \<open>agents/coordinator.py\<close>, the turns of one agent (\<open>call_agent\<close>): the completion request with its
  recorded exchange, the retry granted to a remediation that called no tool, the conclusion, the forced
  conclusion, and the end of a run that used up its turns.  The client of a native completion, its
  retries (\<open>agents/_http_retry.py\<close>), status check and decoding are the answer \<open>jb_post\<close>.
\<close>

section \<open>The request\<close>

definition TOOL_DESCRIPTIONS :: "string \<Rightarrow> string option" where
  "TOOL_DESCRIPTIONS =
     [''kubectl_get'' \<mapsto>
        ''Get a Kubernetes built-in or custom resource type. '' @
        ''Use customresourcedefinitions to discover installed custom resource types.'',
      ''kubectl_rollout'' \<mapsto>
        ''Manage the rollout of a deployment, statefulset, or daemonset (undo, status, history). '' @
        ''Accepts qualified resource names (deployment/name, statefulset/name, daemonset/name) '' @
        ''or bare deployment names (e.g. '' @ [char_of (39::nat)] @ ''paymentservice'' @ [char_of (39::nat)] @ '').'',
      ''chaos_list_experiments'' \<mapsto>
        ''Read-only inventory of active supported Chaos Mesh experiment resources. '' @
        ''Returns observed kind, name, namespace, and status; never mutates the cluster.'',
      ''argocd_rollback'' \<mapsto>
        ''Roll back an Argo CD application only to a non-negative numeric revision '' @
        ''present in observed application history; guessed symbolic revisions are invalid.'']"

definition described_tool :: "string \<Rightarrow> pyval" where
  "described_tool name =
     PDict [(''type'', PStr ''function''),
       (''function'', PDict
         [(''name'', PStr name),
          (''description'', PStr (case TOOL_DESCRIPTIONS name of
             None \<Rightarrow> ''Real SRE tool: '' @ name | Some t \<Rightarrow> t)),
          (''parameters'', PDict (tool_schema name))])]"

definition tool_schemas_for_role :: "job \<Rightarrow> pyval list" where
  "tool_schemas_for_role jb =
     map described_tool (sorted_list_of_set (effective_role_tools (jb_role jb) (jb_operational jb)))"

definition request_payload :: "job \<Rightarrow> agent \<Rightarrow> pydict" where
  "request_payload jb s =
     (let tools = tool_schemas_for_role jb;
          required = jb_role jb = ''remediation'' \<and> ag_retry_given s \<and> \<not> ag_mutated s
      in [(''model'', PStr (jb_model jb)), (''messages'', PList (ag_messages s)),
          (''temperature'', PFloat (FFin (1 / 5)))] @
         (if tools = [] then []
          else [(''tools'', PList tools),
                (''tool_choice'', PStr (if required then ''required'' else ''auto''))]))"

section \<open>Completions\<close>

definition is_identifier :: "string \<Rightarrow> bool" where
  "is_identifier s \<longleftrightarrow>
     s \<noteq> [] \<and> list_all (\<lambda>c. ascii_alnum c \<or> c = CHR ''_'') s \<and> digit_value (hd s) = None"

definition safe_failure_category :: "raised \<Rightarrow> string" where
  "safe_failure_category x =
     (case ra_category x of PStr c \<Rightarrow> if is_identifier c then c else ra_type x | _ \<Rightarrow> ra_type x)"

definition journal_completion_failure :: "job \<Rightarrow> string \<Rightarrow> string \<Rightarrow> agent \<Rightarrow> agent" where
  "journal_completion_failure jb provider_kind category =
     emit (Audited (audit_args_of jb ''inference_provider_failure'' None None
       (provider_kind @ ''_completion_provider_failure:'' @ category) '''' ''provider_error''))"

text \<open>The exchange is the last entry of the trajectory while its completion is under way.\<close>

definition update_exchange :: "pydict \<Rightarrow> agent \<Rightarrow> agent" where
  "update_exchange patch s =
     s\<lparr>ag_trajectory := butlast (ag_trajectory s) @ [dict_merge (last (ag_trajectory s)) patch]\<rparr>"

definition failed_exchange :: "string \<Rightarrow> string \<Rightarrow> pydict" where
  "failed_exchange status category = [(''status'', PStr status), (''error_category'', PStr category)]"

definition explicit_exchange :: "job \<Rightarrow> nat \<Rightarrow> pydict \<Rightarrow> pydict" where
  "explicit_exchange jb turn payload =
     [(''role'', PStr (jb_role jb)), (''turn'', PInt (int turn)), (''kind'', PStr ''inference_exchange''),
      (''request'', PDict payload), (''response'', PNone), (''status'', PStr ''pending''),
      (''result_classification'', PStr ''NON_EMPIRICAL''), (''certification_status'', PStr ''NOT_CERTIFIED'')]"

definition request_explicit_completion ::
  "job \<Rightarrow> (effect list \<Rightarrow> pydict \<Rightarrow> pyval answer) \<Rightarrow> nat \<Rightarrow> pydict \<Rightarrow> pyval op" where
  "request_explicit_completion jb provider turn payload =
     obind (omap (add_entry (explicit_exchange jb turn payload))) (\<lambda>_.
     obind (ask jb (Completion payload) (\<lambda>t. provider t payload)) (\<lambda>a.
       case a of
         Cancellation \<Rightarrow>
           obind (omap (update_exchange (failed_exchange ''cancelled'' ''CancelledError''))) (\<lambda>_.
           obind (omap (journal_completion_failure jb ''explicit'' ''CancelledError'')) (\<lambda>_.
             oraise AgentCancelled))
       | Failure x \<Rightarrow>
           obind (omap (update_exchange (failed_exchange ''failed'' (safe_failure_category x)))) (\<lambda>_.
           obind (omap (journal_completion_failure jb ''explicit'' (safe_failure_category x))) (\<lambda>_.
             oraise (CompletionFailed (safe_failure_category x))))
       | Answer response \<Rightarrow>
           obind (omap (update_exchange [(''response'', response)])) (\<lambda>_.
           if \<not> explicit_completion_response_is_valid response
           then obind (omap (update_exchange (failed_exchange ''malformed'' ''malformed_response''))) (\<lambda>_.
                obind (omap (journal_completion_failure jb ''explicit'' ''malformed_response'')) (\<lambda>_.
                  oraise (CompletionFailed ''malformed_response'')))
           else obind (omap (update_exchange [(''status'', PStr ''completed'')])) (\<lambda>_. oret response))))"

definition native_exchange :: "job \<Rightarrow> nat \<Rightarrow> pydict \<Rightarrow> pydict" where
  "native_exchange jb turn payload =
     [(''role'', PStr (jb_role jb)), (''turn'', PInt (int turn)), (''kind'', PStr ''inference_exchange''),
      (''request'', PDict payload), (''response'', PNone), (''requested_model'', dget payload ''model''),
      (''served_model'', PNone), (''provider_injected'', PBool False), (''backend'', PStr (jb_backend jb)),
      (''status'', PStr ''pending''), (''result_classification'', PStr ''OPERATIONAL_UNCERTIFIED''),
      (''certification_status'', PStr ''NOT_CERTIFIED'')]"

text \<open>Why a native response is not accepted.\<close>

definition native_problem :: "pydict \<Rightarrow> pyval \<Rightarrow> string option" where
  "native_problem payload response =
     (let served = dget (as_dict response) ''model'' in
      if \<not> explicit_completion_response_is_valid response then Some ''malformed_response''
      else if \<not> is_str served \<or> py_strip (text_of served) = [] then Some ''model_identity_missing''
      else if served \<noteq> dget payload ''model'' then Some ''model_identity_mismatch'' else None)"

definition native_failure :: "job \<Rightarrow> string \<Rightarrow> pyval op" where
  "native_failure jb category =
     obind (omap (update_exchange (failed_exchange ''failed'' category))) (\<lambda>_.
     obind (omap (journal_completion_failure jb ''http'' category)) (\<lambda>_.
       oraise (CompletionFailed category)))"

definition request_native_completion :: "job \<Rightarrow> nat \<Rightarrow> pydict \<Rightarrow> pyval op" where
  "request_native_completion jb turn payload =
     (if \<not> jb_operational jb then
        obind (ask jb (Completion payload) (\<lambda>t. jb_post jb t payload)) (\<lambda>a.
          case a of
            Cancellation \<Rightarrow> oraise AgentCancelled
          | Failure x \<Rightarrow> oraise (Propagated x)
          | Answer response \<Rightarrow> oret response)
      else
        obind (omap (add_entry (native_exchange jb turn payload))) (\<lambda>_.
        obind (ask jb (Completion payload) (\<lambda>t. jb_post jb t payload)) (\<lambda>a.
          case a of
            Cancellation \<Rightarrow>
              obind (omap (update_exchange (failed_exchange ''cancelled'' ''CancelledError''))) (\<lambda>_.
              obind (omap (journal_completion_failure jb ''http'' ''CancelledError'')) (\<lambda>_.
                oraise AgentCancelled))
          | Failure x \<Rightarrow> native_failure jb (safe_failure_category x)
          | Answer response \<Rightarrow>
              obind (omap (update_exchange [(''response'', response),
                                            (''served_model'', dget (as_dict response) ''model'')])) (\<lambda>_.
              case native_problem payload response of
                Some category \<Rightarrow> native_failure jb category
              | None \<Rightarrow> obind (omap (update_exchange [(''status'', PStr ''completed'')])) (\<lambda>_. oret response)))))"

definition request_completion :: "job \<Rightarrow> nat \<Rightarrow> pydict \<Rightarrow> pyval op" where
  "request_completion jb turn payload =
     (case jb_provider jb of
        None \<Rightarrow> request_native_completion jb turn payload
      | Some provider \<Rightarrow> request_explicit_completion jb provider turn payload)"

section \<open>The forced conclusion\<close>

definition CONCLUSION_PROMPTS :: "string \<Rightarrow> string option" where
  "CONCLUSION_PROMPTS =
     [''triage'' \<mapsto>
        ''Based on the tool results above, output ONLY a JSON object with keys: incident_id, severity, title, '' @
        ''blast_radius, affected_services. No prose.'',
      ''diagnosis'' \<mapsto>
        ''Based only on the tool results above, output ONLY one JSON object matching the '' @
        ''canonical Diagnosis schema, with exactly these top-level keys: incident_id, '' @
        ''root_cause, category, confidence, evidence, blast_radius_update, next_agent, '' @
        ''recommended_fix. root_cause must be non-empty text supported by actual tool '' @
        ''outputs; category must be deploy, resource, network, dependency, config, '' @
        ''external, or unknown; confidence must be a finite number from 0 to 1; evidence '' @
        ''must contain only actual tool observations, with the exact executed query when '' @
        ''applicable, or be empty when there is no supporting tool output. Every causal '' @
        ''claim must cite a tool result. blast_radius_update must describe only observed '' @
        ''scope or state that it is not established. If the observations do not establish '' @
        ''a cause, use category unknown, confidence 0, and state that the cause is unknown. '' @
        ''A successful no_series result is absence of metric evidence, not positive proof '' @
        ''of CPU, latency, or recovery. Set next_agent to remediation; recommended_fix '' @
        ''must be an evidence-supported list and may be empty. Do not include outcome or '' @
        ''training-label metadata. No prose outside the JSON.'',
      ''remediation'' \<mapsto>
        ''Based on the actions taken above, output ONLY a JSON object with keys: '' @
        ''outcome (resolved/unresolved/escalated), proposed_actions (list of intended tools), '' @
        ''executed_actions (only tools that actually returned a runtime result), verified_by. '' @
        ''Never claim resolved unless a mutating tool returned success. No prose.'',
      ''comms'' \<mapsto>
        ''Based on the incident above, output ONLY a JSON object with keys: incident_id, slack_posted, '' @
        ''postmortem_path, summary. No prose.'']"

definition conclusion_prompt :: "job \<Rightarrow> string" where
  "conclusion_prompt jb =
     (if jb_operational jb \<and> jb_role jb = ''comms''
      then ''Output ONLY a JSON object with incident_id and summary. This is inference, not a delivery receipt.''
      else case CONCLUSION_PROMPTS (jb_role jb) of
        Some t \<Rightarrow> t | None \<Rightarrow> ''Summarise your findings as a JSON object.'')"

definition message_role :: "pyval \<Rightarrow> pyval" where
  "message_role m = dget (as_dict m) ''role''"

text \<open>The first system message, the last eight other messages, and the prompt.\<close>

definition forced_messages :: "job \<Rightarrow> pyval list \<Rightarrow> pyval list" where
  "forced_messages jb messages =
     (let others = filter (\<lambda>m. message_role m \<noteq> PStr ''system'') messages in
      take 1 (filter (\<lambda>m. message_role m = PStr ''system'') messages) @
      drop (length others - 8) others @
      [PDict [(''role'', PStr ''user''), (''content'', PStr (conclusion_prompt jb))]])"

definition forced_payload :: "job \<Rightarrow> agent \<Rightarrow> pydict" where
  "forced_payload jb s =
     [(''model'', PStr (jb_model jb)), (''messages'', PList (forced_messages jb (ag_messages s))),
      (''temperature'', PFloat (FFin 0))]"

definition ocatch :: "'a op \<Rightarrow> (agent_exn \<Rightarrow> 'a op) \<Rightarrow> 'a op" where
  "ocatch m handler s = (case m s of (Inl e, s') \<Rightarrow> handler e s' | (Inr a, s') \<Rightarrow> (Inr a, s'))"

fun py_exn_name :: "py_exn \<Rightarrow> string" where
  "py_exn_name TypeError = ''TypeError''"
| "py_exn_name ValueError = ''ValueError''"
| "py_exn_name KeyError = ''KeyError''"
| "py_exn_name AttributeError = ''AttributeError''"
| "py_exn_name IndexError = ''IndexError''"
| "py_exn_name OverflowError = ''OverflowError''"
| "py_exn_name RuntimeError = ''RuntimeError''"

definition forced_failure :: "string \<Rightarrow> pydict \<times> pydict" where
  "forced_failure category =
     ([(''error'', PStr (''forced_conclusion failed: '' @ category))], [(''error'', PStr category)])"

text \<open>The parsed conclusion and the telemetry of the extra completion.\<close>

definition forced_answer :: "job \<Rightarrow> nat \<Rightarrow> (pydict \<times> pydict) op" where
  "forced_answer jb turn =
     obind (oget (forced_payload jb)) (\<lambda>payload.
     obind (request_completion jb turn payload) (\<lambda>response.
     obind (olift (py_key response ''choices'')) (\<lambda>choices.
     obind (olift (py_first choices)) (\<lambda>first.
     obind (olift (need_dict first)) (\<lambda>chosen.
     obind (olift (need_dict (py_or (dget chosen ''message'') (PDict [])))) (\<lambda>message.
     let content = text_of (dget_or message ''content'' (PStr '''')) in
     obind (olift (try_parse_json (jb_loads jb) content)) (\<lambda>parsed.
       oret (if dhas parsed ''raw'' then [(''summary'', PStr (take 300 content))] else parsed,
             [(''choice'', PDict chosen), (''message'', PDict message),
              (''requested_model'', dget payload ''model''),
              (''served_model'', dget (as_dict response) ''model'')]))))))))"

definition forced_handler :: "job \<Rightarrow> agent_exn \<Rightarrow> (pydict \<times> pydict) op" where
  "forced_handler jb e =
     (case e of
        CompletionFailed category \<Rightarrow>
          (if jb_provider jb \<noteq> None then oraise e
           else
             let text = PStr (''http_completion_provider_failure:'' @ category) in
             obind (oget (\<lambda>s. dget (last (ag_trajectory s)) ''served_model'')) (\<lambda>served.
               oret ([(''error'', text), (''failure_category'', PStr category)],
                     [(''error'', text), (''requested_model'', PStr (jb_model jb)), (''served_model'', served)])))
      | PyError x \<Rightarrow> oret (forced_failure (py_exn_name x))
      | Propagated x \<Rightarrow> oret (forced_failure (safe_failure_category x))
      | _ \<Rightarrow> oraise e)"

definition force_json_conclusion :: "job \<Rightarrow> nat \<Rightarrow> (pydict \<times> pydict) op" where
  "force_json_conclusion jb turn = ocatch (forced_answer jb turn) (forced_handler jb)"

text \<open>An operational run ends with the failure; a remediation keeps a record of the extra turn.\<close>

definition forced_turn_record :: "job \<Rightarrow> nat \<Rightarrow> pydict \<Rightarrow> py_exn + pydict" where
  "forced_turn_record jb turn telemetry =
     rbind (model_turn_record (jb_role jb) turn (as_dict (dget telemetry ''choice''))
              (as_dict (py_or (dget telemetry ''message'') (PDict [(''content'', PStr '''')]))) 0 [] PNone True)
       (\<lambda>d. let d1 = AList.update ''turn_kind'' (PStr ''forced_conclusion'') d in
         Inr (if truthy (dget telemetry ''error'')
              then AList.update ''finish_reason'' (PStr ''forced_conclusion_error'')
                     (AList.update ''validation_state'' (PStr ''forced_conclusion_error'') d1)
              else AList.update ''validation_state'' (PStr ''final_conclusion'') d1))"

definition forced_conclusion :: "job \<Rightarrow> nat \<Rightarrow> pydict op" where
  "forced_conclusion jb turn =
     obind (force_json_conclusion jb turn) (\<lambda>(parsed, telemetry).
       if jb_operational jb \<and> truthy (dget parsed ''failure_category'')
       then oraise (CompletionFailed (py_str (jb_fmt jb) (dget parsed ''failure_category'')))
       else if jb_role jb = ''remediation''
       then obind (olift (forced_turn_record jb turn telemetry)) (\<lambda>d.
              obind (omap (add_entry d)) (\<lambda>_. oret parsed))
       else oret parsed)"

section \<open>Conclusions\<close>

definition demote :: "string \<Rightarrow> pydict \<Rightarrow> pydict" where
  "demote key final =
     (if dget final key = PStr ''resolved'' then AList.update key (PStr ''unresolved'') final else final)"

text \<open>A remediation's conclusion lists what really ran, and resolves nothing unless a mutation succeeded.\<close>

definition proven_conclusion :: "job \<Rightarrow> pydict \<Rightarrow> agent \<Rightarrow> pydict" where
  "proven_conclusion jb parsed s =
     (if jb_role jb \<noteq> ''remediation'' then parsed
      else
        let proposed = py_or (py_or (dget parsed ''proposed_actions'') (dget parsed ''actions_taken'')) (PList []);
            listed = (if is_list proposed then proposed else PList [proposed]);
            final = AList.update ''actions_taken'' (executed_list s)
                      (AList.update ''executed_actions'' (executed_list s)
                        (AList.update ''proposed_actions'' listed parsed))
        in if ag_mutated s then final else demote ''status'' (demote ''outcome'' final))"

definition required_keys :: "job \<Rightarrow> string set" where
  "required_keys jb =
     (if jb_role jb = ''triage'' then {''severity''}
      else if jb_role jb = ''diagnosis'' then {''root_cause''}
      else if jb_role jb = ''remediation'' then {''outcome''}
      else if jb_role jb = ''comms'' then (if jb_operational jb then {''summary''} else {''slack_posted''})
      else {})"

definition needs_forced_turn :: "job \<Rightarrow> pydict \<Rightarrow> bool" where
  "needs_forced_turn jb parsed \<longleftrightarrow>
     dhas parsed ''raw'' \<or> (required_keys jb \<noteq> {} \<and> required_keys jb \<inter> set (map fst parsed) = {})"

definition conclude_run :: "job \<Rightarrow> nat \<Rightarrow> pydict \<Rightarrow> pydict option op" where
  "conclude_run jb turn msg =
     obind (olift (py_key (PDict msg) ''content'')) (\<lambda>content.
     let conclusion = text_of content in
     obind (olift (try_parse_json (jb_loads jb) conclusion)) (\<lambda>parsed.
     obind (if needs_forced_turn jb parsed then forced_conclusion jb turn else oret parsed) (\<lambda>parsed.
     obind (oget (proven_conclusion jb parsed)) (\<lambda>final.
     obind (omap (update_turn (\<lambda>d. AList.update ''validation_state'' (PStr ''final_conclusion'')
             (AList.update ''conclusion_present'' (PBool True) d)))) (\<lambda>_.
     obind (omap (add_entry [(''role'', PStr (jb_role jb)), (''turn'', PInt (int turn)),
                             (''content'', PStr conclusion)])) (\<lambda>_.
     obind (oget (summarised_result jb final)) (\<lambda>result. oret (Some result))))))))"

section \<open>Turns\<close>

definition RETRY_REASON_NO_TOOL_CALL :: string where
  "RETRY_REASON_NO_TOOL_CALL = ''remediation_no_tool_call_retry''"

definition RETRY_PROMPT :: string where
  "RETRY_PROMPT =
     ''You have proposed a remediation but no remediation tool has actually executed. '' @
     ''If you intend to perform the action, invoke the provided function/tool now. '' @
     ''Do not report success until a real tool result is returned. If no safe action '' @
     ''can be executed, conclude unresolved/escalated.''"

text \<open>The first reply of a remediation without a tool call is answered with one retry.\<close>

definition may_retry :: "job \<Rightarrow> agent \<Rightarrow> bool" where
  "may_retry jb s \<longleftrightarrow>
     jb_role jb = ''remediation'' \<and> \<not> ag_mutated s \<and> \<not> ag_retry_given s \<and> ag_terminal s = []"

definition grant_retry :: "job \<Rightarrow> nat \<Rightarrow> unit op" where
  "grant_retry jb turn =
     obind (omap (\<lambda>s. s\<lparr>ag_retry_given := True\<rparr>)) (\<lambda>_.
     obind (omap (update_turn (\<lambda>d. AList.update ''validation_state'' (PStr ''no_tool_calls'')
             (AList.update ''retry'' (PDict [(''triggered'', PBool True),
                                            (''reason'', PStr RETRY_REASON_NO_TOOL_CALL)]) d)))) (\<lambda>_.
     obind (omap (emit (Audited (audit_args_of jb ''remediation_retry'' None None
             (''turn '' @ int_str (int turn) @ '': no executable tool call; retry '' @ RETRY_REASON_NO_TOOL_CALL)
             '''' '''')))) (\<lambda>_.
       omap (add_message (PDict [(''role'', PStr ''user''), (''content'', PStr RETRY_PROMPT)])))))"

fun py_len :: "pyval \<Rightarrow> py_exn + nat" where
  "py_len (PList xs) = Inr (length xs)"
| "py_len (PDict d) = Inr (length d)"
| "py_len (PStr s) = Inr (length s)"
| "py_len _ = Inl TypeError"

text \<open>The reply is appended first; its tool calls are then replaced by the normalised ones in place.\<close>

definition read_reply :: "job \<Rightarrow> nat \<Rightarrow> pyval \<Rightarrow> (pydict \<times> pyval) op" where
  "read_reply jb turn response =
     obind (olift (py_key response ''choices'')) (\<lambda>choices.
     obind (olift (py_first choices)) (\<lambda>chosen.
     obind (olift (py_key chosen ''message'')) (\<lambda>reply.
     obind (omap (add_message reply)) (\<lambda>_.
     obind (olift (need_dict reply)) (\<lambda>raw.
     obind (olift (normalize_assistant_tool_calls (jb_fmt jb) (jb_ff jb) (jb_loads jb) raw)) (\<lambda>calls.
     let msg = AList.update ''tool_calls'' calls raw in
     obind (omap (\<lambda>s. s\<lparr>ag_messages := butlast (ag_messages s) @ [PDict msg]\<rparr>)) (\<lambda>_.
     obind (olift (py_len (py_or calls (PList [])))) (\<lambda>parsed_count.
     obind (omap (\<lambda>s. s\<lparr>ag_last := Some (as_dict chosen, raw)\<rparr>)) (\<lambda>_.
     if jb_role jb = ''remediation'' then
       obind (olift (model_turn_record (jb_role jb) turn (as_dict chosen) raw parsed_count [] PNone False)) (\<lambda>d.
       obind (omap (\<lambda>s. s\<lparr>ag_turn_ref := Some (length (ag_trajectory s)),
                          ag_trajectory := ag_trajectory s @ [d]\<rparr>)) (\<lambda>_. oret (msg, calls)))
     else oret (msg, calls))))))))))"

definition agent_turn :: "job \<Rightarrow> nat \<Rightarrow> pydict option op" where
  "agent_turn jb turn =
     obind (omap (\<lambda>s. s\<lparr>ag_turn_names := [], ag_mutation_in_response := False\<rparr>)) (\<lambda>_.
     obind (oget (request_payload jb)) (\<lambda>payload.
     obind (request_completion jb turn payload) (\<lambda>response.
     obind (read_reply jb turn response) (\<lambda>(msg, calls).
       if \<not> truthy calls then
         obind (oget (may_retry jb)) (\<lambda>retry.
           if retry then obind (grant_retry jb turn) (\<lambda>_. oret None) else conclude_run jb turn msg)
       else obind (olift (py_iter calls)) (process_calls jb turn)))))"

fun agent_turns :: "job \<Rightarrow> nat list \<Rightarrow> pydict option op" where
  "agent_turns jb [] = oret None"
| "agent_turns jb (turn # turns) =
     obind (agent_turn jb turn) (\<lambda>ended.
       case ended of Some result \<Rightarrow> oret (Some result) | None \<Rightarrow> agent_turns jb turns)"

section \<open>The run\<close>

definition TERMINATION_MAX_TURNS :: string where "TERMINATION_MAX_TURNS = ''max_turns_exhausted''"

definition note_exhausted :: "job \<Rightarrow> nat \<Rightarrow> unit op" where
  "note_exhausted jb max_turns =
     obind (oget (\<lambda>s. (ag_turn_ref s, ag_last s))) (\<lambda>(turn_ref, last_reply).
       if jb_role jb = ''remediation'' \<and> turn_ref \<noteq> None then
         omap (update_turn (\<lambda>d.
           let d1 = AList.update ''termination_reason'' (PStr TERMINATION_MAX_TURNS) d in
           if truthy (dget d1 ''tool_outcomes'') then d1
           else AList.update ''validation_state'' (PStr ''no_tool_calls'') d1))
       else case last_reply of
         None \<Rightarrow> oret ()
       | Some (chosen, raw) \<Rightarrow>
           obind (olift (normalize_assistant_tool_calls (jb_fmt jb) (jb_ff jb) (jb_loads jb) raw)) (\<lambda>calls.
           obind (olift (py_len calls)) (\<lambda>parsed_count.
           obind (olift (model_turn_record (jb_role jb) (max_turns - 1) chosen raw parsed_count []
                   (PStr TERMINATION_MAX_TURNS) False)) (\<lambda>d. omap (add_entry d)))))"

definition exhausted_run :: "job \<Rightarrow> nat \<Rightarrow> pydict op" where
  "exhausted_run jb max_turns =
     obind (note_exhausted jb max_turns) (\<lambda>_.
     obind (forced_conclusion jb max_turns) (\<lambda>forced.
     obind (oget (proven_conclusion jb forced)) (\<lambda>final. oget (summarised_result jb final))))"

definition system_prompt :: "job \<Rightarrow> string" where
  "system_prompt jb =
     (if \<not> jb_operational jb then jb_prompt jb
      else
        (if jb_role jb = ''comms''
         then ''You are the Comms Agent. Review the attributed incident and verifier evidence. '' @
              ''Return only JSON with incident_id and summary for internal review. '' @
              ''You cannot publish messages or postmortems. The coordinator publishes from '' @
              ''verified facts and records actual delivery separately.''
         else jb_prompt jb) @
        CHR 0x0A # ''Operational Kubernetes reads are namespace scoped. The workload namespace is '' @
        jb_workload_ns jb @ ''. Cluster-wide reads and unrelated namespaces are not permitted.'' @
        (if jb_role jb \<in> {''diagnosis'', ''remediation''}
         then CHR 0x0A # ''Argo-managed workloads require recovery through the owned Application '' @
              jb_argocd_app jb @ ''. Diagnosis must obtain a valid revision through argocd_app_history. '' @
              ''Remediation must use the observed numeric history ID from diagnosis '' @
              ''with argocd_rollback. '' @
              ''Direct Deployment mutation is not permitted for Argo-managed workloads. '' @
              ''The prepared Application action and affected workload require exact approval.''
         else ''''))"

text \<open>The local variables at the start of a run; the breaker and the gate are shared.\<close>

definition start_agent :: "job \<Rightarrow> breaker \<Rightarrow> gate \<Rightarrow> agent" where
  "start_agent jb b g =
     \<lparr>ag_trace = [], ag_breaker = b, ag_gate = g,
      ag_messages = [PDict [(''role'', PStr ''system''), (''content'', PStr (system_prompt jb))],
                     PDict [(''role'', PStr ''user''), (''content'', PStr (jb_indented jb (PDict (jb_input jb))))]],
      ag_trajectory = [], ag_observations = [], ag_seen = (\<lambda>_. 0), ag_counts = (\<lambda>_. 0), ag_mutated = False,
      ag_executed = [], ag_terminal = [], ag_mutation_in_response = False, ag_resolved = False,
      ag_retry_given = False, ag_turn_names = [], ag_turn_ref = None, ag_last = None, ag_tracker = new_tracker,
      ag_approval = jb_approval jb, ag_approval_blocked = False\<rparr>"

definition call_agent :: "job \<Rightarrow> nat \<Rightarrow> pydict op" where
  "call_agent jb max_turns =
     (if jb_operational jb \<and> jb_provider jb \<noteq> None then oraise (PyError ValueError)
      else obind (agent_turns jb [0..<max_turns]) (\<lambda>ended.
        case ended of Some result \<Rightarrow> oret result | None \<Rightarrow> exhausted_run jb max_turns))"

end
