(* ===== verification/HttpRetry.thy ===== *)
theory HttpRetry
  imports PyValue "HOL-Library.Word"
begin

text \<open>
  \<open>agents/_http_retry.py\<close>: POST with retries.  What the network does is an argument: \<open>env a\<close> is the
  outcome of attempt \<open>a\<close>.  A run is the list of its effects (requests, observer calls, sleeps) and its
  result.  \<open>pf\<close> is \<open>float\<close> of a header text, \<open>sha\<close> is SHA-256; the observer only records.
\<close>

section \<open>Data\<close>

type_synonym byte = "8 word"

text \<open>The \<open>httpx\<close> exceptions the code tells apart, and its own.\<close>

datatype http_exn =
    BodyTooLarge int nat string
  | ConnectError
  | ConnectTimeout
  | ReadTimeout
  | WriteTimeout
  | PoolTimeout
  | OtherTimeout
  | OtherTransport
  | OtherHttp
  | NotAvailable
  | Exhausted nat

text \<open>How the stream of body chunks ends.\<close>

datatype body_end = BodyComplete | BodyRaises http_exn | BodyCancelled

record reply =
  rp_status :: int
  rp_retry_after :: "string option"
  rp_headers :: "(string \<times> string) list"
  rp_chunks :: "byte list list"
  rp_end :: body_end

datatype attempt_outcome = Refused http_exn | RequestCancelled | Replied reply

record response =
  rs_status :: int
  rs_headers :: "(string \<times> string) list"
  rs_content :: "byte list"

datatype disposition = Retry | Return | Raise

record attempt_metadata =
  am_attempt_index :: nat
  am_response_status :: "int option"
  am_transport_category :: "string option"
  am_response_received :: bool
  am_disposition :: disposition

datatype effect = Request nat | Observed attempt_metadata | Sleep pyfloat

datatype post_result = Returned response | RaisedHttp http_exn | RaisedCancelled | RaisedValueError

record retry_config =
  max_attempts :: nat
  base_backoff :: rat
  max_response_bytes :: "int option"

section \<open>Reading a bounded body\<close>

datatype body_result = Body "byte list" | BodyFails http_exn | BodyInterrupted

text \<open>\<open>body\<close> is what was read so far; the digest covers the same bytes.\<close>

fun read_limited ::
  "(byte list \<Rightarrow> string) \<Rightarrow> int \<Rightarrow> nat \<Rightarrow> byte list \<Rightarrow> byte list list \<Rightarrow> body_end \<Rightarrow> body_result" where
  "read_limited sha status limit body [] e =
     (case e of BodyComplete \<Rightarrow> Body body | BodyRaises x \<Rightarrow> BodyFails x | BodyCancelled \<Rightarrow> BodyInterrupted)"
| "read_limited sha status limit body (chunk # chunks) e =
     (let remaining = limit - length body in
      if length chunk > remaining
      then BodyFails (BodyTooLarge status limit (sha (body @ take remaining chunk)))
      else read_limited sha status limit (body @ chunk) chunks e)"

definition kept_headers :: "(string \<times> string) list \<Rightarrow> (string \<times> string) list" where
  "kept_headers hs = filter (\<lambda>(name, _). py_lower name \<noteq> ''transfer-encoding'') hs"

section \<open>Delays and categories\<close>

text \<open>Python's \<open>max\<close> and \<open>min\<close> of two floats keep the first unless the second compares better.\<close>

fun float_less :: "pyfloat \<Rightarrow> pyfloat \<Rightarrow> bool" where
  "float_less (FFin x) (FFin y) = (x < y)"
| "float_less FNan _ = False"
| "float_less _ FNan = False"
| "float_less FNegInf y = (y \<noteq> FNegInf)"
| "float_less x FInf = (x \<noteq> FInf)"
| "float_less _ _ = False"

definition py_max :: "pyfloat \<Rightarrow> pyfloat \<Rightarrow> pyfloat" where
  "py_max a b = (if float_less a b then b else a)"

definition py_min :: "pyfloat \<Rightarrow> pyfloat \<Rightarrow> pyfloat" where
  "py_min a b = (if float_less b a then b else a)"

definition retry_delay ::
  "(string \<Rightarrow> pyfloat option) \<Rightarrow> retry_config \<Rightarrow> nat \<Rightarrow> reply \<Rightarrow> pyfloat option" where
  "retry_delay pf cfg attempt r =
     (let linear = FFin (base_backoff cfg * of_nat (attempt + 1)) in
      if rp_status r = 429 then
        (let wait = (case rp_retry_after r of
                       None \<Rightarrow> linear
                     | Some ra \<Rightarrow> (case pf ra of None \<Rightarrow> linear | Some x \<Rightarrow> x))
         in Some (py_min (py_max wait (FFin (1 / 2))) (FFin 60)))
      else if 500 \<le> rp_status r \<and> rp_status r < 600 \<and> attempt + 1 < max_attempts cfg then Some linear
      else None)"

fun transport_category :: "http_exn \<Rightarrow> string" where
  "transport_category (BodyTooLarge _ _ _) = ''response_body_too_large''"
| "transport_category ConnectError = ''connect_error''"
| "transport_category ConnectTimeout = ''connect_timeout''"
| "transport_category ReadTimeout = ''read_timeout''"
| "transport_category WriteTimeout = ''write_timeout''"
| "transport_category PoolTimeout = ''pool_timeout''"
| "transport_category OtherTimeout = ''timeout''"
| "transport_category OtherTransport = ''transport_error''"
| "transport_category _ = ''http_error''"

text \<open>The exceptions that are retried.\<close>

fun transient :: "http_exn \<Rightarrow> bool" where
  "transient ConnectError = True"
| "transient ReadTimeout = True"
| "transient ConnectTimeout = True"
| "transient _ = False"

definition observe_attempt ::
  "nat \<Rightarrow> int option \<Rightarrow> string option \<Rightarrow> bool \<Rightarrow> disposition \<Rightarrow> effect" where
  "observe_attempt attempt status category received disp =
     Observed \<lparr>am_attempt_index = attempt + 1, am_response_status = status,
               am_transport_category = category, am_response_received = received,
               am_disposition = disp\<rparr>"

section \<open>One attempt\<close>

text \<open>
  What the \<open>try\<close> block of an attempt leaves: an exception (with the status and whether a response was
  received when it was raised), a delay, or a response.
\<close>

datatype tried =
    TryCancelled "int option" bool
  | TryHttp http_exn "int option" bool
  | TryRetry pyfloat int
  | TryDone response int

definition try_plain :: "(string \<Rightarrow> pyfloat option) \<Rightarrow> retry_config \<Rightarrow> nat \<Rightarrow> attempt_outcome \<Rightarrow> tried" where
  "try_plain pf cfg attempt out =
     (case out of
        Refused e \<Rightarrow> TryHttp e None False
      | RequestCancelled \<Rightarrow> TryCancelled None False
      | Replied r \<Rightarrow>
          (case retry_delay pf cfg attempt r of
             Some d \<Rightarrow> TryRetry d (rp_status r)
           | None \<Rightarrow> TryDone \<lparr>rs_status = rp_status r, rs_headers = rp_headers r,
                              rs_content = concat (rp_chunks r)\<rparr> (rp_status r)))"

definition try_streamed ::
  "(string \<Rightarrow> pyfloat option) \<Rightarrow> (byte list \<Rightarrow> string) \<Rightarrow> retry_config \<Rightarrow> nat \<Rightarrow> nat \<Rightarrow> attempt_outcome \<Rightarrow>
   tried" where
  "try_streamed pf sha cfg limit attempt out =
     (case out of
        Refused e \<Rightarrow> TryHttp e None False
      | RequestCancelled \<Rightarrow> TryCancelled None False
      | Replied r \<Rightarrow>
          (case retry_delay pf cfg attempt r of
             Some d \<Rightarrow> TryRetry d (rp_status r)
           | None \<Rightarrow>
               (case read_limited sha (rp_status r) limit [] (rp_chunks r) (rp_end r) of
                  BodyFails e \<Rightarrow> TryHttp e (Some (rp_status r)) True
                | BodyInterrupted \<Rightarrow> TryCancelled (Some (rp_status r)) True
                | Body b \<Rightarrow> TryDone \<lparr>rs_status = rp_status r, rs_headers = kept_headers (rp_headers r),
                                     rs_content = b\<rparr> (rp_status r))))"

definition try_attempt ::
  "(string \<Rightarrow> pyfloat option) \<Rightarrow> (byte list \<Rightarrow> string) \<Rightarrow> retry_config \<Rightarrow> nat \<Rightarrow> attempt_outcome \<Rightarrow> tried" where
  "try_attempt pf sha cfg attempt out =
     (case max_response_bytes cfg of
        None \<Rightarrow> try_plain pf cfg attempt out
      | Some limit \<Rightarrow> try_streamed pf sha cfg (nat limit) attempt out)"

section \<open>The loop\<close>

fun post_loop ::
  "(string \<Rightarrow> pyfloat option) \<Rightarrow> (byte list \<Rightarrow> string) \<Rightarrow> retry_config \<Rightarrow> (nat \<Rightarrow> attempt_outcome) \<Rightarrow>
   nat \<Rightarrow> nat \<Rightarrow> http_exn option \<Rightarrow> effect list \<times> post_result" where
  "post_loop pf sha cfg env attempt 0 last_exc =
     ([], RaisedHttp (case last_exc of Some e \<Rightarrow> e | None \<Rightarrow> Exhausted (max_attempts cfg)))"
| "post_loop pf sha cfg env attempt (Suc n) last_exc =
     (let more = (attempt + 1 < max_attempts cfg);
          disp = (if more then Retry else Raise)
      in case try_attempt pf sha cfg attempt (env attempt) of
           TryCancelled status received \<Rightarrow>
             ([Request attempt, observe_attempt attempt status (Some ''cancelled'') received Raise],
              RaisedCancelled)
         | TryHttp e status received \<Rightarrow>
             (if transient e then
                (if more then
                   (case post_loop pf sha cfg env (attempt + 1) n (Some e) of
                      (fx, r) \<Rightarrow>
                        ([Request attempt,
                          observe_attempt attempt status (Some (transport_category e)) received disp,
                          Sleep (FFin (base_backoff cfg * of_nat (attempt + 1)))] @ fx, r))
                 else
                   ([Request attempt,
                     observe_attempt attempt status (Some (transport_category e)) received disp],
                    RaisedHttp e))
              else
                ([Request attempt,
                  observe_attempt attempt status (Some (transport_category e)) received Raise],
                 RaisedHttp e))
         | TryRetry d status \<Rightarrow>
             (case post_loop pf sha cfg env (attempt + 1) n last_exc of
                (fx, r) \<Rightarrow>
                  ([Request attempt, observe_attempt attempt (Some status) None True disp, Sleep d] @ fx, r))
         | TryDone resp status \<Rightarrow>
             ([Request attempt, observe_attempt attempt (Some status) None True Return], Returned resp))"

definition post_with_retry ::
  "(string \<Rightarrow> pyfloat option) \<Rightarrow> (byte list \<Rightarrow> string) \<Rightarrow> retry_config \<Rightarrow> (nat \<Rightarrow> attempt_outcome) \<Rightarrow>
   effect list \<times> post_result" where
  "post_with_retry pf sha cfg env =
     (if (case max_response_bytes cfg of Some limit \<Rightarrow> limit < 0 | None \<Rightarrow> False)
      then ([], RaisedValueError)
      else post_loop pf sha cfg env 0 (max_attempts cfg) None)"

section \<open>Bounded bodies\<close>

text \<open>Reading chunk by chunk is the same as looking at the whole body.\<close>

lemma read_limited_spec:
  "length body \<le> limit \<Longrightarrow>
   read_limited sha status limit body chunks e =
     (if length (body @ concat chunks) \<le> limit
      then (case e of BodyComplete \<Rightarrow> Body (body @ concat chunks) | BodyRaises x \<Rightarrow> BodyFails x
            | BodyCancelled \<Rightarrow> BodyInterrupted)
      else BodyFails (BodyTooLarge status limit (sha (take limit (body @ concat chunks)))))"
proof (induction chunks arbitrary: body)
  case Nil
  then show ?case by (simp split: body_end.split)
next
  case (Cons c cs)
  show ?case
  proof (cases "length c > limit - length body")
    case True
    with Cons.prems have "\<not> length (body @ concat (c # cs)) \<le> limit"
      and "take limit (body @ concat (c # cs)) = body @ take (limit - length body) c" by simp_all
    with True show ?thesis by (simp only: read_limited.simps Let_def if_True if_False)
  next
    case False
    with Cons.prems have "length (body @ c) \<le> limit" by simp
    from Cons.IH [OF this] False show ?thesis
      by (simp only: read_limited.simps Let_def if_False concat.simps append_assoc)
  qed
qed

section \<open>Delays\<close>

lemma retry_delay_cases:
  assumes "retry_delay pf cfg attempt r = Some d"
  shows "rp_status r = 429 \<and>
      (\<exists>w. d = py_min (py_max w (FFin (1 / 2))) (FFin 60) \<and>
           (w = FFin (base_backoff cfg * of_nat (attempt + 1)) \<or>
            (\<exists>ra. rp_retry_after r = Some ra \<and> pf ra = Some w))) \<or>
    500 \<le> rp_status r \<and> rp_status r < 600 \<and> attempt + 1 < max_attempts cfg \<and>
      d = FFin (base_backoff cfg * of_nat (attempt + 1))"
  using assms
  by (auto simp: retry_delay_def Let_def split: if_splits option.splits)

lemma clamp_bounds:
  "w \<noteq> FNan \<Longrightarrow> \<exists>x. py_min (py_max w (FFin (1 / 2))) (FFin 60) = FFin x \<and> 1 / 2 \<le> x \<and> x \<le> 60"
  by (rule exI [of _ "case w of FFin v \<Rightarrow> min (max v (1 / 2)) 60 | FInf \<Rightarrow> 60 | _ \<Rightarrow> 1 / 2"], cases w)
    (auto simp: py_max_def py_min_def)

lemma retry_delay_bounds:
  assumes "retry_delay pf cfg attempt r = Some d" and "\<And>s. pf s \<noteq> Some FNan"
  shows "\<exists>x. d = FFin x \<and> (1 / 2 \<le> x \<and> x \<le> 60 \<or> x = base_backoff cfg * of_nat (attempt + 1))"
  using retry_delay_cases [OF assms(1)]
proof
  assume "rp_status r = 429 \<and> (\<exists>w. d = py_min (py_max w (FFin (1 / 2))) (FFin 60) \<and>
    (w = FFin (base_backoff cfg * of_nat (attempt + 1)) \<or>
     (\<exists>ra. rp_retry_after r = Some ra \<and> pf ra = Some w)))"
  then obtain w where d: "d = py_min (py_max w (FFin (1 / 2))) (FFin 60)" and "w \<noteq> FNan"
    using assms(2) by auto
  from clamp_bounds [OF this(2)] d show ?thesis by auto
qed auto

section \<open>The effects of a run\<close>

definition requests_of :: "effect list \<Rightarrow> nat list" where
  "requests_of fx = concat (map (\<lambda>f. case f of Request a \<Rightarrow> [a] | _ \<Rightarrow> []) fx)"

definition observations :: "effect list \<Rightarrow> attempt_metadata list" where
  "observations fx = concat (map (\<lambda>f. case f of Observed m \<Rightarrow> [m] | _ \<Rightarrow> []) fx)"

definition sleeps :: "effect list \<Rightarrow> pyfloat list" where
  "sleeps fx = concat (map (\<lambda>f. case f of Sleep d \<Rightarrow> [d] | _ \<Rightarrow> []) fx)"

lemma effects_simps [simp]:
  "requests_of [] = []" "requests_of (Request a # fx) = a # requests_of fx"
  "requests_of (Observed m # fx) = requests_of fx" "requests_of (Sleep d # fx) = requests_of fx"
  "observations [] = []" "observations (Request a # fx) = observations fx"
  "observations (Observed m # fx) = m # observations fx" "observations (Sleep d # fx) = observations fx"
  "sleeps [] = []" "sleeps (Request a # fx) = sleeps fx" "sleeps (Observed m # fx) = sleeps fx"
  "sleeps (Sleep d # fx) = d # sleeps fx"
  by (simp_all add: requests_of_def observations_def sleeps_def)

lemma observe_simps [simp]:
  "requests_of (observe_attempt a s c v disp # fx) = requests_of fx"
  "sleeps (observe_attempt a s c v disp # fx) = sleeps fx"
  "map am_attempt_index (observations (observe_attempt a s c v disp # fx)) =
     Suc a # map am_attempt_index (observations fx)"
  "map am_disposition (observations (observe_attempt a s c v disp # fx)) =
     disp # map am_disposition (observations fx)"
  by (simp_all add: observe_attempt_def)

definition final_disposition :: "post_result \<Rightarrow> disposition" where
  "final_disposition r = (case r of Returned _ \<Rightarrow> Return | _ \<Rightarrow> Raise)"

text \<open>The attempts of a run from \<open>attempt\<close> on, with \<open>n\<close> left.\<close>

lemma post_loop_attempts:
  assumes "post_loop pf sha cfg env attempt n last_exc = (fx, r)" and "attempt + n = max_attempts cfg"
  shows "\<exists>k \<le> n. requests_of fx = [attempt..<attempt + k] \<and>
     map am_attempt_index (observations fx) = map Suc [attempt..<attempt + k] \<and>
     (n > 0 \<longrightarrow> k > 0 \<and>
        map am_disposition (observations fx) = replicate (k - 1) Retry @ [final_disposition r]) \<and>
     (n = 0 \<longrightarrow> final_disposition r = Raise)"
  using assms
proof (induction n arbitrary: attempt last_exc fx r)
  case 0
  then show ?case by (auto simp: final_disposition_def)
next
  case (Suc n)
  let ?outcome = "try_attempt pf sha cfg attempt (env attempt)"
  have stop: ?case if "requests_of fx = [attempt]"
    "map am_attempt_index (observations fx) = [Suc attempt]"
    "map am_disposition (observations fx) = [final_disposition r]"
    using that by (intro exI [of _ 1]) simp
  have go: ?case if rec: "post_loop pf sha cfg env (attempt + 1) n last' = (fx', r)"
    and fx: "requests_of fx = attempt # requests_of fx'"
    "map am_attempt_index (observations fx) = Suc attempt # map am_attempt_index (observations fx')"
    "map am_disposition (observations fx) =
       (if attempt + 1 < max_attempts cfg then Retry else Raise) # map am_disposition (observations fx')"
    for fx' last'
  proof -
    from Suc.IH [OF rec] Suc.prems(2) obtain k where k: "k \<le> n" "requests_of fx' = [attempt + 1..<attempt + 1 + k]"
      "map am_attempt_index (observations fx') = map Suc [attempt + 1..<attempt + 1 + k]"
      "n > 0 \<longrightarrow> k > 0 \<and>
         map am_disposition (observations fx') = replicate (k - 1) Retry @ [final_disposition r]"
      "n = 0 \<longrightarrow> final_disposition r = Raise" by auto
    have upt: "[attempt..<attempt + Suc k] = attempt # [attempt + 1..<attempt + 1 + k]"
      by (simp add: upt_rec)
    have "map am_disposition (observations fx) = replicate k Retry @ [final_disposition r]"
    proof (cases "n = 0")
      case True
      with k have "k = 0" "final_disposition r = Raise" "observations fx' = []" by auto
      with True fx(3) Suc.prems(2) show ?thesis by simp
    next
      case False
      with k(4) fx(3) Suc.prems(2) show ?thesis by (cases k) auto
    qed
    with k(1-3) fx(1,2) show ?thesis by (intro exI [of _ "Suc k"]) (simp only: upt list.map, simp)
  qed
  show ?case
  proof (cases ?outcome)
    case (TryCancelled status received)
    with Suc.prems(1) show ?thesis by (intro stop) (auto simp: Let_def final_disposition_def)
  next
    case (TryHttp e status received)
    show ?thesis
    proof (cases "transient e \<and> attempt + 1 < max_attempts cfg")
      case True
      obtain fx' r' where "post_loop pf sha cfg env (attempt + 1) n (Some e) = (fx', r')" by fastforce
      with True TryHttp Suc.prems(1) show ?thesis by (intro go) (auto simp: Let_def)
    next
      case False
      with TryHttp Suc.prems(1) show ?thesis
        by (intro stop) (auto simp: Let_def final_disposition_def split: if_splits)
    qed
  next
    case (TryRetry d status)
    obtain fx' r' where "post_loop pf sha cfg env (attempt + 1) n last_exc = (fx', r')" by fastforce
    with TryRetry Suc.prems(1) show ?thesis by (intro go) (auto simp: Let_def)
  next
    case (TryDone resp status)
    with Suc.prems(1) show ?thesis by (intro stop) (auto simp: Let_def final_disposition_def)
  qed
qed

text \<open>Where a returned response comes from, and what is slept.\<close>

lemma try_attempt_done:
  assumes "try_attempt pf sha cfg attempt (env attempt) = TryDone resp status"
  shows "\<exists>rp. env attempt = Replied rp \<and> rs_status resp = rp_status rp \<and>
     rs_content resp = concat (rp_chunks rp) \<and> rp_status rp \<noteq> 429 \<and>
     (500 \<le> rp_status rp \<and> rp_status rp < 600 \<longrightarrow> attempt + 1 \<ge> max_attempts cfg) \<and>
     (\<forall>limit. max_response_bytes cfg = Some limit \<longrightarrow> length (rs_content resp) \<le> nat limit)"
proof -
  have delay: "rp_status rp \<noteq> 429 \<and>
      (500 \<le> rp_status rp \<and> rp_status rp < 600 \<longrightarrow> attempt + 1 \<ge> max_attempts cfg)"
    if "retry_delay pf cfg attempt rp = None" for rp
    using that by (auto simp: retry_delay_def Let_def split: if_splits)
  show ?thesis
  proof (cases "env attempt")
    case (Replied rp)
    show ?thesis
    proof (cases "max_response_bytes cfg")
      case None
      with assms Replied delay [of rp] show ?thesis
        by (auto simp: try_attempt_def try_plain_def split: option.splits)
    next
      case (Some limit)
      with assms Replied delay [of rp] show ?thesis
        by (auto simp: try_attempt_def try_streamed_def read_limited_spec
            split: option.splits body_result.splits if_splits body_end.splits)
    qed
  qed (use assms in \<open>auto simp: try_attempt_def try_plain_def try_streamed_def split: option.splits\<close>)
qed

lemma try_attempt_retry:
  assumes "try_attempt pf sha cfg attempt (env attempt) = TryRetry d status"
  shows "\<exists>rp. env attempt = Replied rp \<and> retry_delay pf cfg attempt rp = Some d"
  using assms
  by (auto simp: try_attempt_def try_plain_def try_streamed_def
      split: option.splits attempt_outcome.splits body_result.splits)

lemma post_loop_returned:
  assumes "post_loop pf sha cfg env attempt n last_exc = (fx, Returned resp)"
  shows "\<exists>a rp. requests_of fx \<noteq> [] \<and> a = last (requests_of fx) \<and> env a = Replied rp \<and>
     rs_status resp = rp_status rp \<and> rs_content resp = concat (rp_chunks rp) \<and> rp_status rp \<noteq> 429 \<and>
     (500 \<le> rp_status rp \<and> rp_status rp < 600 \<longrightarrow> a + 1 \<ge> max_attempts cfg) \<and>
     (\<forall>limit. max_response_bytes cfg = Some limit \<longrightarrow> length (rs_content resp) \<le> nat limit)"
  using assms
proof (induction n arbitrary: attempt last_exc fx)
  case 0
  then show ?case by simp
next
  case (Suc n)
  show ?case
  proof (cases "try_attempt pf sha cfg attempt (env attempt)")
    case (TryCancelled status received)
    with Suc.prems show ?thesis by (simp add: Let_def)
  next
    case (TryHttp e status received)
    with Suc.prems obtain fx' where "post_loop pf sha cfg env (attempt + 1) n (Some e) = (fx', Returned resp)"
      and "requests_of fx = attempt # requests_of fx'"
      by (auto simp: Let_def split: if_splits prod.splits)
    with Suc.IH [of "attempt + 1" "Some e" fx'] show ?thesis by simp
  next
    case (TryRetry d status)
    with Suc.prems obtain fx' where "post_loop pf sha cfg env (attempt + 1) n last_exc = (fx', Returned resp)"
      and "requests_of fx = attempt # requests_of fx'"
      by (auto simp: Let_def split: prod.splits)
    with Suc.IH [of "attempt + 1" last_exc fx'] show ?thesis by simp
  next
    case (TryDone resp' status)
    with Suc.prems have "resp' = resp" and "requests_of fx = [attempt]" by (auto simp: Let_def)
    with try_attempt_done [of pf sha cfg attempt env] TryDone show ?thesis by auto
  qed
qed

lemma post_loop_sleeps:
  assumes "post_loop pf sha cfg env attempt n last_exc = (fx, r)" and "\<And>s. pf s \<noteq> Some FNan"
    and "attempt + n = max_attempts cfg" and "d \<in> set (sleeps fx)"
  shows "\<exists>x. d = FFin x \<and> (1 / 2 \<le> x \<and> x \<le> 60 \<or>
           (\<exists>k. 0 < k \<and> k \<le> max_attempts cfg \<and> x = base_backoff cfg * of_nat k))"
  using assms(1,3,4)
proof (induction n arbitrary: attempt last_exc fx)
  case 0
  then show ?case by simp
next
  case (Suc n)
  have linear: ?case if "d = FFin (base_backoff cfg * of_nat (attempt + 1))"
    using that Suc.prems(2) by (intro exI [of _ "base_backoff cfg * of_nat (attempt + 1)"]) force
  have later: ?case if "post_loop pf sha cfg env (attempt + 1) n l = (fx', r)" "d \<in> set (sleeps fx')" for l fx'
    using Suc.IH [OF that(1) _ that(2)] Suc.prems(2) by simp
  show ?case
  proof (cases "try_attempt pf sha cfg attempt (env attempt)")
    case (TryHttp e status received)
    obtain fx' r' where rec: "post_loop pf sha cfg env (attempt + 1) n (Some e) = (fx', r')" by fastforce
    with TryHttp Suc.prems(1,3) have "r' = r" and
      "d = FFin (base_backoff cfg * of_nat (attempt + 1)) \<or> d \<in> set (sleeps fx')"
      by (auto simp: Let_def split: if_splits)
    with rec linear later show ?thesis by blast
  next
    case (TryRetry d' status)
    obtain fx' r' where rec: "post_loop pf sha cfg env (attempt + 1) n last_exc = (fx', r')" by fastforce
    with TryRetry Suc.prems(1,3) have r: "r' = r" and which: "d = d' \<or> d \<in> set (sleeps fx')"
      by (auto simp: Let_def)
    from which show ?thesis
    proof
      assume "d = d'"
      with try_attempt_retry [of pf sha cfg attempt env, OF TryRetry]
      obtain rp where "retry_delay pf cfg attempt rp = Some d" by blast
      from retry_delay_bounds [OF this assms(2)] linear show ?thesis by blast
    qed (use rec r later in blast)
  qed (use Suc.prems in \<open>auto simp: Let_def\<close>)
qed

section \<open>Properties\<close>

text \<open>
  A call makes its attempts one after the other, at most \<open>max_attempts\<close> of them, and reports each
  of them exactly once to the observer; every report but the last says \<open>retry\<close>, and the last one says
  whether the call returns or raises.
\<close>

theorem attempts_bounded_and_observed:
  assumes "post_with_retry pf sha cfg env = (fx, r)" and "r \<noteq> RaisedValueError"
    and "0 < max_attempts cfg"
  shows "\<exists>k. 0 < k \<and> k \<le> max_attempts cfg \<and> requests_of fx = [0..<k] \<and>
     map am_attempt_index (observations fx) = [1..<k + 1] \<and>
     map am_disposition (observations fx) = replicate (k - 1) Retry @ [final_disposition r]"
proof -
  from assms(1,2) have "post_loop pf sha cfg env 0 (max_attempts cfg) None = (fx, r)"
    by (auto simp: post_with_retry_def split: if_splits)
  from post_loop_attempts [OF this] assms(3) obtain k where "k \<le> max_attempts cfg" "0 < k"
    "requests_of fx = [0..<0 + k]" "map am_attempt_index (observations fx) = map Suc [0..<0 + k]"
    "map am_disposition (observations fx) = replicate (k - 1) Retry @ [final_disposition r]"
    by auto
  then show ?thesis by (intro exI [of _ k]) (simp add: map_Suc_upt)
qed

text \<open>
  A returned response is the reply to the last request made, it is never a 429, it is a 5xx only
  when no attempt is left, and under a byte limit its body is complete and within the limit; a body
  over the limit raises, with the digest of exactly the first bytes up to the limit.
\<close>

theorem returned_response_is_final_reply:
  assumes "post_with_retry pf sha cfg env = (fx, Returned resp)"
  shows "\<exists>rp. env (last (requests_of fx)) = Replied rp \<and> rs_status resp = rp_status rp \<and>
     rs_content resp = concat (rp_chunks rp) \<and> rs_status resp \<noteq> 429 \<and>
     (500 \<le> rs_status resp \<and> rs_status resp < 600 \<longrightarrow> last (requests_of fx) + 1 \<ge> max_attempts cfg) \<and>
     (\<forall>limit. max_response_bytes cfg = Some limit \<longrightarrow>
        length (rs_content resp) \<le> nat limit \<and>
        (\<forall>chunks e. length (concat chunks) > nat limit \<longrightarrow>
           read_limited sha (rs_status resp) (nat limit) [] chunks e =
             BodyFails (BodyTooLarge (rs_status resp) (nat limit) (sha (take (nat limit) (concat chunks))))))"
proof -
  from assms have "post_loop pf sha cfg env 0 (max_attempts cfg) None = (fx, Returned resp)"
    by (auto simp: post_with_retry_def split: if_splits)
  from post_loop_returned [OF this] obtain rp where rp: "env (last (requests_of fx)) = Replied rp"
    "rs_status resp = rp_status rp" "rs_content resp = concat (rp_chunks rp)" "rp_status rp \<noteq> 429"
    "500 \<le> rp_status rp \<and> rp_status rp < 600 \<longrightarrow> last (requests_of fx) + 1 \<ge> max_attempts cfg"
    "\<forall>limit. max_response_bytes cfg = Some limit \<longrightarrow> length (rs_content resp) \<le> nat limit" by blast
  have "read_limited sha (rs_status resp) l [] chunks e =
      BodyFails (BodyTooLarge (rs_status resp) l (sha (take l (concat chunks))))"
    if "length (concat chunks) > l" for l chunks e
    using that read_limited_spec [of "[]" l sha "rs_status resp" chunks e] by simp
  with rp show ?thesis by (intro exI [of _ rp]) simp
qed

text \<open>
  Every pause between attempts is a number of seconds between 0.5 and 60, or a multiple of
  the base backoff by at most the number of attempts, as long as no \<open>Retry-After\<close> text parses as NaN.
\<close>

theorem pauses_bounded:
  assumes "post_with_retry pf sha cfg env = (fx, r)" and "\<And>s. pf s \<noteq> Some FNan"
  shows "\<forall>d \<in> set (sleeps fx). \<exists>x. d = FFin x \<and> (1 / 2 \<le> x \<and> x \<le> 60 \<or>
           (\<exists>k. 0 < k \<and> k \<le> max_attempts cfg \<and> x = base_backoff cfg * of_nat k))"
proof
  fix d assume d: "d \<in> set (sleeps fx)"
  with assms(1) have "post_loop pf sha cfg env 0 (max_attempts cfg) None = (fx, r)"
    by (auto simp: post_with_retry_def split: if_splits)
  from post_loop_sleeps [OF this assms(2) _ d] show "\<exists>x. d = FFin x \<and> (1 / 2 \<le> x \<and> x \<le> 60 \<or>
      (\<exists>k. 0 < k \<and> k \<le> max_attempts cfg \<and> x = base_backoff cfg * of_nat k))" by simp
qed

section \<open>Witnesses and observed corner cases\<close>

definition two_attempts :: retry_config where
  "two_attempts = \<lparr>max_attempts = 2, base_backoff = 3 / 2, max_response_bytes = Some 4\<rparr>"

definition plain_reply :: "int \<Rightarrow> string option \<Rightarrow> reply" where
  "plain_reply status ra =
     \<lparr>rp_status = status, rp_retry_after = ra, rp_headers = [], rp_chunks = [[1, 2], [3]], rp_end = BodyComplete\<rparr>"

definition busy_then_ok :: "nat \<Rightarrow> attempt_outcome" where
  "busy_then_ok a = Replied (plain_reply (if a = 0 then 503 else 200) None)"

lemma busy_then_ok_run:
  "post_with_retry (\<lambda>_. None) (\<lambda>_. '''') two_attempts busy_then_ok =
     ([Request 0, observe_attempt 0 (Some 503) None True Retry, Sleep (FFin (3 / 2)), Request 1,
       observe_attempt 1 (Some 200) None True Return],
      Returned \<lparr>rs_status = 200, rs_headers = [], rs_content = [1, 2, 3]\<rparr>)"
  by (simp add: post_with_retry_def two_attempts_def busy_then_ok_def plain_reply_def numeral_2_eq_2
      try_attempt_def try_streamed_def retry_delay_def kept_headers_def Let_def)

theorem attempts_bounded_and_observed_witness:
  "\<exists>k. k \<le> 2 \<and> [0, 1] = [0..<k]"
  using attempts_bounded_and_observed [OF busy_then_ok_run]
  by (simp add: two_attempts_def) blast

theorem returned_response_is_final_reply_witness:
  "\<exists>rp. busy_then_ok 1 = Replied rp \<and> rp_status rp = 200"
  using returned_response_is_final_reply [OF busy_then_ok_run] by auto

theorem pauses_bounded_witness:
  "\<exists>x. FFin (3 / 2) = FFin x \<and> (1 / 2 \<le> x \<and> x \<le> 60 \<or> (\<exists>k. 0 < k \<and> k \<le> 2 \<and> x = 3 / 2 * of_nat k))"
proof -
  have "FFin (3 / 2) \<in> set (sleeps [Request 0, observe_attempt 0 (Some 503) None True Retry,
      Sleep (FFin (3 / 2)), Request 1, observe_attempt 1 (Some 200) None True Return])"
    by (simp add: observe_attempt_def)
  from bspec [OF pauses_bounded [OF busy_then_ok_run] this] show ?thesis
    by (simp add: two_attempts_def)
qed

text \<open>
  A connection that times out and is then answered with 429 on the last attempt: the call still
  sleeps, and raises the earlier timeout although the last attempt was answered.  A \<open>Retry-After\<close>
  text that parses as NaN passes the clamp unchanged.
\<close>

theorem last_429_sleeps_and_raises_earlier_timeout:
  "post_with_retry (\<lambda>_. None) (\<lambda>_. '''') two_attempts
     (\<lambda>a. if a = 0 then Refused ConnectTimeout else Replied (plain_reply 429 None)) =
     ([Request 0, observe_attempt 0 None (Some ''connect_timeout'') False Retry, Sleep (FFin (3 / 2)),
       Request 1, observe_attempt 1 (Some 429) None True Raise, Sleep (FFin 3)],
      RaisedHttp ConnectTimeout) \<and>
   retry_delay (\<lambda>_. Some FNan) two_attempts 0 (plain_reply 429 (Some ''nan'')) = Some FNan"
  by (simp add: post_with_retry_def two_attempts_def plain_reply_def numeral_2_eq_2 try_attempt_def
      try_streamed_def retry_delay_def py_max_def py_min_def Let_def)

end
