(* ===== verification/Publication.thy ===== *)
theory Publication
  imports Evidence HttpRetry Json
begin

text \<open>
  \<open>agents/tools/comms.py\<close>: what is told about an incident.  A Discord webhook is retried; an update is
  logged and delivered to the configured webhooks; and the publication of an operational incident is
  derived from verified facts, never from a model's text.  What a webhook answers is an argument; the log
  file is the list of its lines.  Long dashes and bullets are hyphens here.
\<close>

section \<open>The Discord webhook\<close>

datatype webhook_reply = HookStatus int "string option" | HookError string

text \<open>A result, or the \<open>ValueError\<close> of sleeping for a time that is not a number; with the pauses made.\<close>

definition hook_pause :: "(string \<Rightarrow> pyfloat option) \<Rightarrow> string option \<Rightarrow> pyfloat" where
  "hook_pause pf retry_after =
     (let wait = (case retry_after of None \<Rightarrow> FFin 2 | Some s \<Rightarrow> (case pf s of None \<Rightarrow> FFin 2 | Some x \<Rightarrow> x))
      in py_min (py_max wait (FFin (1 / 2))) (FFin 60))"

definition HOOK_ATTEMPTS :: nat where "HOOK_ATTEMPTS = 8"

fun discord_attempts ::
  "(string \<Rightarrow> pyfloat option) \<Rightarrow> (nat \<Rightarrow> webhook_reply) \<Rightarrow> nat list \<Rightarrow> string option \<Rightarrow>
   (py_exn + bool \<times> string option) \<times> pyfloat list" where
  "discord_attempts pf hook [] last_err = (Inr (False, last_err), [])"
| "discord_attempts pf hook (attempt # attempts) last_err =
     (case hook attempt of
        HookStatus status retry_after \<Rightarrow>
          if status = 429 then
            let wait = hook_pause pf retry_after in
            if wait = FNan then (Inl ValueError, [wait])
            else case discord_attempts pf hook attempts last_err of (r, ws) \<Rightarrow> (r, wait # ws)
          else if 500 \<le> status \<and> status < 600 \<and> attempt + 1 < HOOK_ATTEMPTS then
            case discord_attempts pf hook attempts last_err of (r, ws) \<Rightarrow> (r, FFin (1 + of_nat attempt / 2) # ws)
          else if 400 \<le> status \<and> status < 600 then
            if attempt + 1 < HOOK_ATTEMPTS then
              case discord_attempts pf hook attempts (Some ''HTTPError'') of
                (r, ws) \<Rightarrow> (r, FFin (1 + of_nat attempt * (3 / 4)) # ws)
            else discord_attempts pf hook attempts (Some ''HTTPError'')
          else (Inr (True, None), [])
      | HookError name \<Rightarrow>
          if attempt + 1 < HOOK_ATTEMPTS then
            case discord_attempts pf hook attempts (Some name) of
              (r, ws) \<Rightarrow> (r, FFin (1 + of_nat attempt * (3 / 4)) # ws)
          else discord_attempts pf hook attempts (Some name))"

definition discord_webhook_post_with_retry ::
  "(string \<Rightarrow> pyfloat option) \<Rightarrow> (nat \<Rightarrow> webhook_reply) \<Rightarrow> (py_exn + bool \<times> string option) \<times> pyfloat list" where
  "discord_webhook_post_with_retry pf hook = discord_attempts pf hook [0..<HOOK_ATTEMPTS] None"

section \<open>Updates\<close>

definition severity_color :: "string \<Rightarrow> string" where
  "severity_color severity =
     (if severity = ''P0'' then ''ff0000'' else if severity = ''P1'' then ''ff8800''
      else if severity = ''P2'' then ''ffcc00'' else ''888888'')"

definition build_slack_payload :: "int \<Rightarrow> string \<Rightarrow> string \<Rightarrow> string \<Rightarrow> string \<Rightarrow> string list \<Rightarrow> pydict" where
  "build_slack_payload ts channel severity title summary action_items =
     [(''channel'', PStr channel), (''username'', PStr ''atlasops-bot''),
      (''icon_emoji'', PStr (if severity = ''P0'' \<or> severity = ''P1'' then '':rotating_light:'' else '':warning:'')),
      (''attachments'', PList [PDict
        [(''color'', PStr (CHR ''#'' # severity_color severity)),
         (''title'', PStr (''['' @ severity @ ''] '' @ title)), (''text'', PStr summary),
         (''fields'', PList (if action_items = [] then []
            else [PDict [(''title'', PStr ''Action Items''),
                         (''value'', PStr (join [CHR 0x0A] (map (\<lambda>a. ''- '' @ a) action_items)))]])),
         (''ts'', PInt ts)]])]"

text \<open>
  The webhooks that are configured, with their answers: Slack answers once, Discord may be retried.  The
  title and text of the Discord embed are those of the payload, cut to Discord's limits.
\<close>

record webhooks =
  wh_slack :: "webhook_reply option"
  wh_discord :: "(nat \<Rightarrow> webhook_reply) option"

definition slack_error :: "webhook_reply \<Rightarrow> string option" where
  "slack_error r =
     (case r of
        HookError name \<Rightarrow> Some name
      | HookStatus status _ \<Rightarrow> if 400 \<le> status \<and> status < 600 then Some ''HTTPError'' else None)"

definition slack_delivery :: "webhook_reply option \<Rightarrow> string list \<times> string list" where
  "slack_delivery hook =
     (case hook of
        None \<Rightarrow> ([], [])
      | Some r \<Rightarrow> (case slack_error r of None \<Rightarrow> ([''slack''], []) | Some e \<Rightarrow> ([], [''slack: '' @ e])))"

definition discord_delivery ::
  "(string \<Rightarrow> pyfloat option) \<Rightarrow> (nat \<Rightarrow> webhook_reply) option \<Rightarrow> py_exn + string list \<times> string list" where
  "discord_delivery pf hook =
     (case hook of
        None \<Rightarrow> Inr ([], [])
      | Some h \<Rightarrow>
          rbind (fst (discord_webhook_post_with_retry pf h)) (\<lambda>(ok, _).
            Inr (if ok then ([''discord''], []) else ([], [''discord: RequestException'']))))"

definition update_result :: "string list \<Rightarrow> string list \<Rightarrow> pydict" where
  "update_result modes errors =
     [(''success'', PBool True), (''mode'', PStr (join ''+'' modes))] @
     (if errors = [] then [] else [(''errors'', PList (map PStr errors))])"

text \<open>The line is in the log whatever the webhooks answer.\<close>

definition slack_post_update ::
  "(string \<Rightarrow> string) \<Rightarrow> (string \<Rightarrow> pyfloat option) \<Rightarrow> webhooks \<Rightarrow> int \<Rightarrow> string \<Rightarrow> string \<Rightarrow> string \<Rightarrow> string \<Rightarrow>
   string list \<Rightarrow> pyval list \<Rightarrow> (py_exn + pydict) \<times> pyval list" where
  "slack_post_update scrub pf hooks ts channel severity title summary action_items feed =
     (let line = redact_persisted_evidence scrub
                   (PDict (build_slack_payload ts channel severity title summary action_items));
          slack = slack_delivery (wh_slack hooks)
      in (rbind (discord_delivery pf (wh_discord hooks)) (\<lambda>discord.
            Inr (update_result ([''logged_locally''] @ fst slack @ fst discord) (snd slack @ snd discord))),
          feed @ [line]))"

section \<open>The publication of an operational incident\<close>

record comms_facts =
  cf_incident :: string
  cf_severity :: string
  cf_verification :: pydict
  cf_resolved :: bool
  cf_approval :: pyval
  cf_blocked :: "string option"
  cf_executed :: "pyval list"
  cf_settling :: pydict

definition approval_words :: "(pyval \<Rightarrow> string) \<Rightarrow> comms_facts \<Rightarrow> string" where
  "approval_words fmt f = py_str fmt (py_or (cf_approval f) (PStr ''missing''))"

definition verified_recovery :: "comms_facts \<Rightarrow> bool" where
  "verified_recovery f \<longleftrightarrow>
     cf_resolved f \<and> dget (cf_verification f) ''verification_status'' = PStr ''passed'' \<and>
     dget (cf_verification f) ''env_resolved'' = PBool True \<and> cf_approval f = PStr ''approved''"

definition publication_status :: "(pyval \<Rightarrow> string) \<Rightarrow> comms_facts \<Rightarrow> string \<times> string" where
  "publication_status fmt f =
     (let verification_status = dget (cf_verification f) ''verification_status'' in
      case cf_blocked f of
        Some status \<Rightarrow>
          (status,
           if status = ''action_preparation_failed'' then
             ''Remediation blocked / escalated: the selected action could not be '' @
             ''prepared or validated. No recovery is claimed.''
           else if starts_with ''approval_'' status then
             ''Remediation blocked / not executed. Approval outcome: '' @ approval_words fmt f @
             ''. Human review required.''
           else ''Remediation was blocked by safety validation. No recovery is claimed.'')
      | None \<Rightarrow>
          if verified_recovery f
          then (''verified_resolved'', ''Environment recovery passed the independent checks.'')
          else if verification_status \<in> {PStr ''failed'', PStr ''inconclusive'', PStr ''error''}
          then (''verification_'' @ text_of verification_status,
                ''Environment verification is '' @ text_of verification_status @ ''. No recovery is claimed.'')
          else (''verification_unconfirmed'',
                ''An approved, verified recovery was not established. No recovery is claimed.''))"

definition untimed :: "string \<Rightarrow> pyval" where
  "untimed event = PDict [(''time'', PStr ''Not measured''), (''event'', PStr event)]"

definition operational_publication :: "(pyval \<Rightarrow> string) \<Rightarrow> comms_facts \<Rightarrow> pydict" where
  "operational_publication fmt f =
     (let (status, summary) = publication_status fmt f in
      [(''incident_id'', PStr (cf_incident f)), (''title'', PStr (cf_incident f)),
       (''severity'', PStr (cf_severity f)), (''status'', PStr status), (''summary'', PStr summary),
       (''resolution'', PStr summary), (''duration'', PStr ''Not measured''),
       (''impact'', PStr ''Not quantified''), (''authors'', PStr ''AtlasOps operational runtime''),
       (''root_cause'', PStr ''See the attributed diagnosis in the preserved incident evidence.''),
       (''detection'', PStr ''Authenticated operational alert admission.''),
       (''timeline'', PList
         [untimed (''Approval outcome: '' @ approval_words fmt f),
          untimed (''Recorded action results: '' @ int_str (int (length (cf_executed f)))),
          untimed (''Verification status: '' @
            py_str fmt (py_or (dget (cf_verification f) ''verification_status'') (PStr ''not recorded'')))]),
       (''went_well'', PList [PStr ''The incident outcome is recorded with its verifier evidence.'']),
       (''went_wrong'', PList [PStr (if status \<noteq> ''verified_resolved'' then summary
                                   else ''No failed verifier outcome recorded.'')]),
       (''action_items'', PList [PDict
         [(''action'', PStr ''Review the preserved incident and verification evidence.''),
          (''owner'', PStr ''Operator''), (''priority'', PStr (cf_severity f)), (''due'', PStr ''Not assigned'')]]),
       (''verification'', PDict (cf_verification f)), (''settling'', PDict (cf_settling f)),
       (''env_resolved'', dget (cf_verification f) ''env_resolved''),
       (''resolved'', PBool (status = ''verified_resolved''))])"

text \<open>The two calls that publish, with their arguments.\<close>

definition publication_calls :: "comms_facts \<Rightarrow> pydict \<Rightarrow> (string \<times> pydict) list" where
  "publication_calls f document =
     [(''slack_post_update'',
       [(''channel'', PStr ''#incident-response''), (''severity'', PStr (cf_severity f)),
        (''title'', PStr (text_of (dget document ''status'') @ '': '' @ cf_incident f)),
        (''summary'', dget document ''summary''), (''action_items'', PList [])]),
      (''postmortem_draft'', [(''incident'', PDict document)])]"

text \<open>A tool's exception, named, and a result that is no object count as failures.\<close>

definition publication_output :: "(string \<Rightarrow> string) \<Rightarrow> string + pyval \<Rightarrow> pydict" where
  "publication_output scrub answered =
     as_dict (redact_persisted_evidence scrub (PDict
       (case answered of
          Inl name \<Rightarrow> [(''success'', PBool False), (''error'', PStr name)]
        | Inr (PDict d) \<Rightarrow> d
        | Inr _ \<Rightarrow> [(''success'', PBool False), (''error'', PStr ''invalid_tool_result'')])))"

text \<open>\<open>mode.split("+")\<close>.\<close>

fun split_plus :: "string \<Rightarrow> string \<Rightarrow> string list" where
  "split_plus acc [] = [acc]"
| "split_plus acc (c # cs) = (if c = CHR ''+'' then acc # split_plus [] cs else split_plus (acc @ [c]) cs)"

definition delivered_to :: "(pyval \<Rightarrow> string) \<Rightarrow> pydict \<Rightarrow> string \<Rightarrow> bool" where
  "delivered_to fmt notification provider \<longleftrightarrow>
     (let modes = split_plus [] (py_str fmt (py_or (dget notification ''mode'') (PStr '''')));
          errors = as_list (py_or (dget notification ''errors'') (PList []))
      in provider \<in> set modes \<and>
         \<not> list_ex (\<lambda>e. starts_with (provider @ '':'') (py_str fmt e)) errors)"

definition publication_step :: "string \<times> pydict \<Rightarrow> pydict \<Rightarrow> pydict" where
  "publication_step call output =
     [(''role'', PStr ''comms''), (''tool'', PStr (fst call)), (''args'', PDict (snd call)),
      (''output'', PDict output), (''publication_source'', PStr ''coordinator_verifier_facts'')]"

definition publication_record ::
  "(pyval \<Rightarrow> string) \<Rightarrow> bool \<Rightarrow> bool \<Rightarrow> comms_facts \<Rightarrow> pydict \<Rightarrow> pydict list \<Rightarrow> pydict \<Rightarrow> pydict \<Rightarrow> pydict" where
  "publication_record fmt slack_on discord_on f document trajectory notification postmortem =
     (let slack = delivered_to fmt notification ''slack''; discord = delivered_to fmt notification ''discord'';
          written = (dget postmortem ''success'' = PBool True);
          path = (if written then py_or (dget postmortem ''postmortem_path'') (dget postmortem ''path'') else PNone);
          modes = split_plus [] (py_str fmt (py_or (dget notification ''mode'') (PStr '''')))
      in [(''role'', PStr ''comms''), (''trajectory'', PList (map PDict trajectory)),
          (''final'', PDict
            [(''incident_id'', PStr (cf_incident f)), (''status'', dget document ''status''),
             (''summary'', dget document ''summary''), (''summary_for_dashboard'', dget document ''summary''),
             (''slack_posted'', PBool slack), (''postmortem_path'', path)]),
          (''delivery'', PDict
            [(''local_feed_written'', PBool (dget notification ''success'' = PBool True \<and> ''logged_locally'' \<in> set modes)),
             (''postmortem_written'', PBool written),
             (''slack'', PDict [(''configured'', PBool slack_on), (''delivered'', PBool slack)]),
             (''discord'', PDict [(''configured'', PBool discord_on), (''delivered'', PBool discord)]),
             (''errors'', py_or (dget notification ''errors'') (PList []))])])"

end
