(* ===== verification/Verifier.thy ===== *)
theory Verifier
  imports KubeItems
begin

text \<open>
  \<open>agents/verifier.py\<close>, the objective verification of benchmark scenarios: the catalogue of scenario
  specifications, the synthesis of a specification from an alert, the checks of workloads, legacy
  deployments, alerts, metrics and chaos resources, and the verdict composed from them.  The cluster is
  three functions: a Kubernetes query (resource and namespace), the active alerts, and a PromQL query;
  an exception they raise leaves \<open>verify\<close> as in the code.  \<open>pf\<close> is \<open>float\<close> on text.
\<close>

record telemetry =
  tl_kubectl :: "string \<Rightarrow> string \<Rightarrow> py_exn + pyval"
  tl_alerts :: "py_exn + pyval"
  tl_promql :: "string \<Rightarrow> py_exn + pyval"

section \<open>Specifications\<close>

definition frozen_spec :: "string list \<Rightarrow> string list \<Rightarrow> string \<Rightarrow> vspec" where
  "frozen_spec services legacy scenario =
     \<lparr>vs_id = scenario, vs_workloads = map (\<lambda>s. make_workload s ''default'') services, vs_alerts = [],
      vs_metrics = [], vs_chaos_cleared = True, vs_no_legacy = legacy\<rparr>"

definition single_fault_specs :: "(string \<times> string list) list" where
  "single_fault_specs =
     [(''single_fault/sf-001'', [''cartservice'']),
      (''single_fault/sf-002'', [''paymentservice'']),
      (''single_fault/sf-003'', [''checkoutservice'']),
      (''single_fault/sf-004'', [''frontend'']),
      (''single_fault/sf-005'', [''redis-cart'', ''cartservice'']),
      (''single_fault/sf-006'', [''checkoutservice'']),
      (''single_fault/sf-007'', [''emailservice'']),
      (''single_fault/sf-008'', [''paymentservice''])]"

definition cascade_specs :: "(string \<times> string list) list" where
  "cascade_specs =
     [(''cascade/cs-001'', [''currencyservice'']),
      (''cascade/cs-002'', [''redis-cart'']),
      (''cascade/cs-003'', [''recommendationservice'']),
      (''cascade/cs-004'', [''emailservice'']),
      (''cascade/cs-005'', [''cartservice''])]"

definition multi_fault_specs :: "(string \<times> string list) list" where
  "multi_fault_specs =
     [(''multi_fault/mf-001'', [''frontend'', ''checkoutservice'']),
      (''multi_fault/mf-002'', [''redis-cart'', ''cartservice'', ''recommendationservice'']),
      (''multi_fault/mf-003'', [''currencyservice'']),
      (''multi_fault/mf-004'', [''paymentservice'', ''cartservice'']),
      (''multi_fault/mf-005'', [''emailservice'', ''checkoutservice''])]"

definition named_replay_specs :: "(string \<times> string list) list" where
  "named_replay_specs =
     [(''named_replays/hist-aws-s3-2017'', [''productcatalogservice'']),
      (''named_replays/hist-azure-dns-2019'', [''checkoutservice'', ''cartservice'', ''currencyservice'']),
      (''named_replays/hist-cloudflare-2019'', [''frontend'']),
      (''named_replays/hist-datadog-2023'',
         [''frontend'', ''cartservice'', ''checkoutservice'', ''productcatalogservice'']),
      (''named_replays/hist-discord-2022'', [''redis-cart'', ''cartservice'']),
      (''named_replays/hist-facebook-bgp-2021'', [''frontend'']),
      (''named_replays/hist-fastly-2021'', [''frontend'']),
      (''named_replays/hist-github-2018'', [''redis-cart'']),
      (''named_replays/hist-knight-capital-2012'', [''checkoutservice'']),
      (''named_replays/hist-slack-2022'', [''frontend'', ''checkoutservice''])]"

definition scenario_spec :: "string \<Rightarrow> vspec option" where
  "scenario_spec scenario =
     map_option (\<lambda>services. frozen_spec services
         (if scenario = ''named_replays/hist-knight-capital-2012'' then [''checkoutservice-legacy''] else [])
         scenario)
       (map_of (single_fault_specs @ cascade_specs @ multi_fault_specs @ named_replay_specs) scenario)"

definition FROZEN_TIER_PREFIXES :: "string list" where
  "FROZEN_TIER_PREFIXES = [''single_fault/'', ''cascade/'', ''multi_fault/'', ''named_replays/'']"

definition normalized_id :: "string \<Rightarrow> string" where
  "normalized_id s = py_strip (map (\<lambda>c. if c = char_of (92::nat) then CHR ''/'' else c) s)"

text \<open>\<open>str(labels.get(k1) or labels.get(k2) or ... or dflt).strip()\<close>.\<close>

definition label_text :: "(pyval \<Rightarrow> string) \<Rightarrow> pydict \<Rightarrow> string list \<Rightarrow> string \<Rightarrow> string" where
  "label_text fmt labels keys dflt =
     py_strip (py_str fmt (foldr (\<lambda>k v. py_or (dget labels k) v) keys (PStr dflt)))"

type_synonym synthesis = "workload list \<times> string list"

definition synthesize_item ::
  "(pyval \<Rightarrow> string) \<Rightarrow> string \<Rightarrow> synthesis \<Rightarrow> pyval \<Rightarrow> py_exn + synthesis" where
  "synthesize_item fmt ns acc item =
     (case (acc, item) of
        ((workloads, alerts), PDict d) \<Rightarrow>
          rbind (need_dict (py_or (dget_or d ''labels'' (PDict [])) (PDict []))) (\<lambda>labels.
            let s = label_text fmt labels [''service'', ''deployment'', ''app''] '''';
                an = label_text fmt labels [''alertname''] ''''
            in Inr (if s \<noteq> [] \<and> \<not> list_ex (\<lambda>w. wl_name w = s) workloads
                    then workloads @ [make_workload s (label_text fmt labels [''namespace''] ns)] else workloads,
                    if an \<noteq> [] \<and> an \<notin> set alerts then alerts @ [an] else alerts))
      | _ \<Rightarrow> Inr acc)"

fun synthesize_items ::
  "(pyval \<Rightarrow> string) \<Rightarrow> string \<Rightarrow> synthesis \<Rightarrow> pyval list \<Rightarrow> py_exn + synthesis" where
  "synthesize_items fmt ns acc [] = Inr acc"
| "synthesize_items fmt ns acc (item # items) =
     rbind (synthesize_item fmt ns acc item) (\<lambda>acc'. synthesize_items fmt ns acc' items)"

definition synthesize :: "(pyval \<Rightarrow> string) \<Rightarrow> pydict option \<Rightarrow> py_exn + synthesis" where
  "synthesize fmt alert =
     (case alert of
        None \<Rightarrow> Inr ([], [])
      | Some [] \<Rightarrow> Inr ([], [])
      | Some a \<Rightarrow>
          rbind (need_dict (py_or (dget_or a ''commonLabels'' (PDict [])) (PDict []))) (\<lambda>common.
            let s = label_text fmt common [''service'', ''deployment'', ''app''] '''';
                ns = label_text fmt common [''namespace''] ''default'';
                an = label_text fmt common [''alertname''] ''''
            in rbind (py_iter (dget_or a ''alerts'' (PList []))) (\<lambda>items.
                 synthesize_items fmt ns
                   (if s \<noteq> [] then [make_workload s ns] else [], if an \<noteq> [] then [an] else []) items)))"

datatype spec_error = UnknownFrozen string | Unresolved string | SpecExn py_exn

definition resolve_spec :: "(pyval \<Rightarrow> string) \<Rightarrow> string \<Rightarrow> pydict option \<Rightarrow> spec_error + vspec" where
  "resolve_spec fmt scenario_id alert =
     (let sid = normalized_id scenario_id in
      case scenario_spec sid of
        Some spec \<Rightarrow> Inr spec
      | None \<Rightarrow>
          if list_ex (starts_with sid) FROZEN_TIER_PREFIXES then Inl (UnknownFrozen sid)
          else case synthesize fmt alert of
            Inl e \<Rightarrow> Inl (SpecExn e)
          | Inr (workloads, alerts) \<Rightarrow>
              if workloads = [] then Inl (Unresolved sid)
              else Inr \<lparr>vs_id = sid, vs_workloads = workloads, vs_alerts = alerts, vs_metrics = [],
                        vs_chaos_cleared = True, vs_no_legacy = []\<rparr>)"

section \<open>Workloads\<close>

definition query_error :: "vfmt \<Rightarrow> pyval \<Rightarrow> string list \<Rightarrow> string \<Rightarrow> string" where
  "query_error vf response keys dflt =
     (case response of
        PDict d \<Rightarrow> py_str (vf_str vf) (foldr (\<lambda>k v. py_or (dget d k) v) keys (PStr dflt))
      | _ \<Rightarrow> dflt)"

definition deployment_kind :: "string \<Rightarrow> bool" where
  "deployment_kind kind \<longleftrightarrow> kind \<in> {''deployment'', ''deployments''}"

definition query_kind :: "string \<Rightarrow> string" where
  "query_kind kind =
     (if deployment_kind kind then ''deployment'' else if kind \<in> {''pod'', ''pods''} then ''pods'' else kind)"

text \<open>\<open>int(...)\<close> under \<open>except (TypeError, ValueError)\<close>: \<open>None\<close> when caught.\<close>

definition caught_int :: "pyval \<Rightarrow> py_exn + int option" where
  "caught_int v =
     (case py_int v of
        Inr i \<Rightarrow> Inr (Some i)
      | Inl TypeError \<Rightarrow> Inr None
      | Inl ValueError \<Rightarrow> Inr None
      | Inl e \<Rightarrow> Inl e)"

definition replica_counts :: "pydict \<Rightarrow> pydict \<Rightarrow> py_exn + (int \<times> int \<times> int) option" where
  "replica_counts status spec =
     rbind (caught_int (py_or (dget_or status ''replicas'' (PInt 0)) (dget_or spec ''replicas'' (PInt 1))))
       (\<lambda>desired. case desired of None \<Rightarrow> Inr None | Some d \<Rightarrow>
     rbind (caught_int (dget_or status ''readyReplicas'' (PInt 0)))
       (\<lambda>ready. case ready of None \<Rightarrow> Inr None | Some r \<Rightarrow>
     rbind (caught_int (dget_or status ''availableReplicas'' (PInt 0)))
       (\<lambda>available. case available of None \<Rightarrow> Inr None | Some a \<Rightarrow> Inr (Some (d, r, a)))))"

definition enough_ready :: "workload \<Rightarrow> int \<Rightarrow> int \<Rightarrow> bool" where
  "enough_ready wl desired ready \<longleftrightarrow>
     ready \<ge> wl_min_ready wl \<and> (desired = 0 \<or> of_int ready / of_int desired \<ge> wl_min_fraction wl)"

definition replica_observed :: "int \<Rightarrow> int \<Rightarrow> pyval" where
  "replica_observed ready desired =
     PDict [(''ready_replicas'', PInt ready), (''desired_replicas'', PInt desired)]"

definition deployment_check :: "workload \<Rightarrow> string \<Rightarrow> string \<Rightarrow> pydict \<Rightarrow> pydict \<Rightarrow> py_exn + check" where
  "deployment_check wl name target status spec =
     rbind (replica_counts status spec) (\<lambda>counts.
       case counts of
         None \<Rightarrow> Inr (failing name target ''Workload replica counts were malformed'')
       | Some (desired, ready, available) \<Rightarrow>
           Inr (if enough_ready wl desired ready
                then mk_check name target True
                  (''Ready replicas: '' @ int_str ready @ ''/'' @ int_str desired @ '' (available: '' @
                   int_str available @ '')'') (replica_observed ready desired)
                else mk_check name target False
                  (''Insufficient ready replicas: '' @ int_str ready @ ''/'' @ int_str desired @
                   '' (min required: '' @ int_str (wl_min_ready wl) @ '')'') (replica_observed ready desired)))"

fun all_ready :: "pyval list \<Rightarrow> py_exn + bool" where
  "all_ready [] = Inr True"
| "all_ready (c # cs) =
     rbind (need_dict c) (\<lambda>d. if truthy (dget_or d ''ready'' (PBool False)) then all_ready cs else Inr False)"

definition pod_check :: "vfmt \<Rightarrow> string \<Rightarrow> string \<Rightarrow> pydict \<Rightarrow> py_exn + check" where
  "pod_check vf name target status =
     (let phase = py_str (vf_str vf) (dget_or status ''phase'' (PStr ''''));
          containers = dget_or status ''containerStatuses'' (PList [])
      in rbind (if truthy containers then rbind (py_iter containers) all_ready else Inr False) (\<lambda>ready.
           let observed = PDict [(''phase'', PStr phase), (''containers_ready'', PBool ready)] in
           Inr (if phase = ''Running'' \<and> ready
                then mk_check name target True ''Pod phase Running with all containers ready'' observed
                else mk_check name target False
                  (''Pod not ready (phase: '' @ phase @ '', containers_ready: '' @
                   py_str (vf_str vf) (PBool ready) @ '')'') observed)))"

definition named_item :: "string \<Rightarrow> pydict list \<Rightarrow> pydict option" where
  "named_item name items = find (\<lambda>item. item_name item = PStr name) items"

definition verify_workload ::
  "(string \<Rightarrow> pyval option) \<Rightarrow> vfmt \<Rightarrow> telemetry \<Rightarrow> workload \<Rightarrow> py_exn + check" where
  "verify_workload loads vf tel wl =
     (let kind = py_lower (wl_kind wl);
          name = ''workload_'' @ wl_name wl @ ''_ready'';
          target = wl_namespace wl @ ''/'' @ wl_name wl
      in rbind (tl_kubectl tel (query_kind kind) (wl_namespace wl)) (\<lambda>res.
         if \<not> succeeded res
         then Inr (failing name target (''Failed to query workload from cluster: '' @
                query_error vf res [''error'', ''stderr''] ''kubectl_query_failed''))
         else case parse_kubernetes_items loads None None None res of
           Inl err \<Rightarrow> Inr (failing name target
             (''Could not parse workload status JSON from cluster: '' @ err))
         | Inr items \<Rightarrow>
             (case named_item (wl_name wl) items of
                None \<Rightarrow> Inr (failing name target
                  (''Workload '' @ wl_name wl @ '' not found in namespace '' @ wl_namespace wl))
              | Some item \<Rightarrow>
                  (case (dget_or item ''status'' (PDict []), dget_or item ''spec'' (PDict [])) of
                     (PDict status, PDict spec) \<Rightarrow>
                       if deployment_kind kind then deployment_check wl name target status spec
                       else pod_check vf name target status
                   | _ \<Rightarrow> Inr (failing name target ''Workload status or spec JSON was malformed'')))))"

section \<open>Legacy deployments, alerts, metrics\<close>

definition legacy_status_check :: "string \<Rightarrow> string \<Rightarrow> string \<Rightarrow> pyval \<Rightarrow> py_exn + check" where
  "legacy_status_check legacy name target status =
     (case status of
        PDict st \<Rightarrow>
          rbind (caught_int (dget_or st ''readyReplicas'' (PInt 0))) (\<lambda>ready.
            Inr (case ready of
                   None \<Rightarrow> failing name target ''Legacy deployment ready replica count was malformed''
                 | Some r \<Rightarrow>
                     if r = 0 then mk_check name target True
                       (''Legacy deployment '' @ legacy @ '' scaled to 0 ready replicas'') PNone
                     else mk_check name target False
                       (''Legacy deployment '' @ legacy @ '' still active with '' @ int_str r @
                        '' ready replicas'') (PDict [(''ready_replicas'', PInt r)])))
      | _ \<Rightarrow> Inr (failing name target ''Legacy deployment status JSON was malformed''))"

definition verify_no_legacy_deployment ::
  "(string \<Rightarrow> pyval option) \<Rightarrow> vfmt \<Rightarrow> telemetry \<Rightarrow> string \<Rightarrow> string \<Rightarrow> py_exn + check" where
  "verify_no_legacy_deployment loads vf tel legacy ns =
     (let name = ''legacy_deployment_'' @ legacy @ ''_removed''; target = ns @ ''/'' @ legacy in
      rbind (tl_kubectl tel ''deployment'' ns) (\<lambda>res.
        if \<not> succeeded res
        then Inr (failing name target (''Failed to query deployments from cluster: '' @
               query_error vf res [''error'', ''stderr''] ''kubectl_query_failed''))
        else case parse_kubernetes_items loads None None None res of
          Inl err \<Rightarrow> Inr (failing name target (''Could not establish legacy deployment absence: '' @ err))
        | Inr items \<Rightarrow>
            (case named_item legacy items of
               None \<Rightarrow> Inr (mk_check name target True
                 (''Legacy deployment '' @ legacy @ '' not present in cluster'') PNone)
             | Some item \<Rightarrow> legacy_status_check legacy name target (dget item ''status''))))"

definition firing_status :: "pyval \<Rightarrow> bool" where
  "firing_status v \<longleftrightarrow> v = PNone \<or> v = PStr ''active'' \<or> v = PStr ''firing''"

definition verify_alerts :: "vfmt \<Rightarrow> telemetry \<Rightarrow> string list \<Rightarrow> py_exn + check" where
  "verify_alerts vf tel must_clear =
     (let name = ''alerts_cleared''; target = ''alertmanager'' in
      if must_clear = [] then Inr (mk_check name target True ''No specific alerts required to clear'' PNone)
      else
        rbind (tl_alerts tel) (\<lambda>response.
        rbind (need_dict response) (\<lambda>res.
          if \<not> truthy (dget_or res ''success'' (PBool False))
          then Inr (failing name target (''Failed to query Alertmanager: '' @
                 py_str (vf_str vf) (py_or (dget res ''error'') (PStr ''alertmanager_query_failed''))))
          else
            rbind (py_iter (dget_or res ''alerts'' (PList []))) (\<lambda>values.
            rbind (map_result need_dict values) (\<lambda>alerts.
              let active = map (\<lambda>a. py_strip (py_str (vf_str vf) (py_or (dget a ''alertname'') (PStr ''''))))
                             (filter (\<lambda>a. firing_status (dget a ''status'')) alerts);
                  conflicts = filter (\<lambda>n. n \<in> set active) must_clear;
                  total = PInt (int (length alerts))
              in Inr (if conflicts \<noteq> []
                      then mk_check name target False
                        (''Alerts still actively firing: '' @ join '', '' conflicts)
                        (PDict [(''firing_alerts'', PList (map PStr conflicts)), (''total_active'', total)])
                      else mk_check name target True
                        (''All '' @ int_str (int (length must_clear)) @ '' target alert(s) cleared'')
                        (PDict [(''cleared_alerts'', PList (map PStr must_clear)), (''total_active'', total)])))))))"

definition compare :: "string \<Rightarrow> (rat \<Rightarrow> rat \<Rightarrow> bool) option" where
  "compare operator =
     map_of [(''<'', (<)), (''<='', (\<le>)), (''>'', (>)), (''>='', (\<ge>)), (''=='', (=)), (''!='', (\<noteq>))]
       operator"

text \<open>\<open>float(v)\<close> of a value that is not a boolean.\<close>

definition sample_float :: "(string \<Rightarrow> pyfloat option) \<Rightarrow> pyval \<Rightarrow> pyfloat option" where
  "sample_float pf v = (case v of PBool _ \<Rightarrow> None | PStr s \<Rightarrow> pf s | _ \<Rightarrow> num_float v)"

text \<open>The raw sample of the first result.\<close>

definition first_sample :: "pyval \<Rightarrow> string + pyval" where
  "first_sample result =
     (case result of
        PList (first # rest) \<Rightarrow>
          (case first of
             PDict d \<Rightarrow>
               (case dget d ''value'' of
                  PList [_, raw] \<Rightarrow> Inr raw
                | _ \<Rightarrow> Inl ''PromQL returned a malformed sample value'')
           | PInt i \<Rightarrow> Inr (PInt i)
           | PFloat x \<Rightarrow> Inr (PFloat x)
           | _ \<Rightarrow> Inl ''PromQL returned a malformed sample'')
      | _ \<Rightarrow> Inl ''PromQL returned no scalar samples'')"

definition metric_value :: "(string \<Rightarrow> pyfloat option) \<Rightarrow> pyval \<Rightarrow> string + rat" where
  "metric_value pf raw =
     (case sample_float pf raw of
        None \<Rightarrow> Inl ''PromQL sample value was not numeric''
      | Some (FFin x) \<Rightarrow> Inr x
      | Some _ \<Rightarrow> Inl ''PromQL sample value was nonfinite'')"

definition verify_metric ::
  "(string \<Rightarrow> pyfloat option) \<Rightarrow> vfmt \<Rightarrow> telemetry \<Rightarrow> metric \<Rightarrow> py_exn + (check \<times> rat option)" where
  "verify_metric pf vf tel m =
     (let name = ''metric_'' @ take 30 (mp_query m); target = ''prometheus'';
          threshold = vf_str vf (PFloat (FFin (mp_threshold m)))
      in case compare (mp_operator m) of
        None \<Rightarrow> Inr (failing name target (''Unknown operator: '' @ mp_operator m), None)
      | Some cmp \<Rightarrow>
          rbind (tl_promql tel (mp_query m)) (\<lambda>res.
            if \<not> succeeded res
            then Inr (failing name target (''PromQL query failed: '' @
                   query_error vf res [''error''] ''promql_query_failed''), None)
            else case rbind (first_sample (dget (as_dict res) ''result'')) (metric_value pf) of
              Inl why \<Rightarrow> Inr (failing name target why, None)
            | Inr val \<Rightarrow>
                let desc = (if mp_description m \<noteq> [] then mp_description m
                            else mp_query m @ '' '' @ mp_operator m @ '' '' @ threshold);
                    seen = vf_fixed4 vf val
                in Inr (mk_check name target (cmp val (mp_threshold m))
                     (if cmp val (mp_threshold m)
                      then ''Passed: observed '' @ seen @ '' '' @ mp_operator m @ '' '' @ threshold @ '' ('' @ desc @ '')''
                      else ''Threshold breached: observed '' @ seen @ '' not '' @ mp_operator m @ '' '' @ threshold
                           @ '' ('' @ desc @ '')'')
                     (PFloat (FFin val)), Some val)))"

section \<open>Chaos clearance\<close>

definition chaos_query :: string where
  "chaos_query = ''podchaos,networkchaos,stresschaos,dnschaos,iochaos,timechaos''"

definition known_chaos_kind :: "vfmt \<Rightarrow> pydict \<Rightarrow> bool" where
  "known_chaos_kind vf item \<longleftrightarrow>
     py_lower (py_str (vf_str vf) (dget_or item ''kind'' (PStr ''''))) \<in>
       {''podchaos'', ''networkchaos'', ''stresschaos'', ''dnschaos'', ''iochaos'', ''timechaos''}"

definition chaos_label :: "vfmt \<Rightarrow> pydict \<Rightarrow> string" where
  "chaos_label vf item =
     py_str (vf_str vf) (dget_or item ''kind'' (PStr ''Chaos'')) @ ''/'' @
     py_str (vf_str vf) (dget_or (as_dict (dget item ''metadata'')) ''name'' (PStr ''unknown''))"

definition of_scenario :: "vfmt \<Rightarrow> string \<Rightarrow> pydict \<Rightarrow> bool" where
  "of_scenario vf short item \<longleftrightarrow>
     (case dget (as_dict (dget item ''metadata'')) ''labels'' of
        PDict labels \<Rightarrow> dget labels ''scenario'' = PStr short | _ \<Rightarrow> False) \<or>
     starts_with (py_str (vf_str vf) (dget_or (as_dict (dget item ''metadata'')) ''name'' (PStr ''''))) short"

definition verify_chaos_clearance ::
  "(string \<Rightarrow> pyval option) \<Rightarrow> vfmt \<Rightarrow> telemetry \<Rightarrow> string \<Rightarrow> py_exn + check" where
  "verify_chaos_clearance loads vf tel scenario =
     (let name = ''chaos_mesh_cleared''; target = ''chaos-mesh'' in
      rbind (tl_kubectl tel chaos_query ''-A'') (\<lambda>res.
        if \<not> succeeded res
        then Inr (failing name target (''Failed to query Chaos Mesh resources: '' @
               query_error vf res [''error'', ''stderr''] ''chaos_query_failed''))
        else case parse_kubernetes_items loads None None None res of
          Inl err \<Rightarrow> Inr (failing name target (''Could not establish Chaos Mesh resource absence: '' @ err))
        | Inr items \<Rightarrow>
            if list_ex (\<lambda>item. \<not> known_chaos_kind vf item) items
            then Inr (failing name target ''Chaos Mesh resource list contained an unknown or missing kind'')
            else if items = []
            then Inr (mk_check name target True ''Zero active Chaos Mesh experiment resources present in cluster'' PNone)
            else
              let matching = map (chaos_label vf) (filter (of_scenario vf (after_last CHR ''/'' scenario)) items);
                  active = map (chaos_label vf) items
              in Inr (mk_check name target False
                   (if matching \<noteq> [] then ''Active scenario chaos experiments remain: '' @ join '', '' matching
                    else ''Active chaos experiment resources remain in cluster: '' @ join '', '' (take 5 active))
                   (PDict [(''active_chaos_count'', PInt (int (length items))),
                           (''scenario_matching_count'', PInt (int (length matching))),
                           (''active_experiments'', PList (map PStr active)),
                           (''matching_experiments'', PList (map PStr matching))]))))"

section \<open>The verdict\<close>

text \<open>A check and the line of evidence it leaves.\<close>

definition evidence_line :: "string \<Rightarrow> string \<Rightarrow> check \<Rightarrow> string" where
  "evidence_line passed_text failed_text c =
     (if ck_passed c then passed_text @ '': '' @ ck_details c
      else ''FAILED '' @ failed_text @ '': '' @ ck_details c)"

definition workload_step ::
  "(string \<Rightarrow> pyval option) \<Rightarrow> vfmt \<Rightarrow> telemetry \<Rightarrow> workload \<Rightarrow> py_exn + (check \<times> string)" where
  "workload_step loads vf tel wl =
     rbind (verify_workload loads vf tel wl) (\<lambda>c.
       let place = wl_namespace wl @ ''/'' @ wl_name wl in
       Inr (c, evidence_line (''Workload '' @ place @ '' ('' @ wl_kind wl @ '')'') (''Workload '' @ place) c))"

definition legacy_step ::
  "(string \<Rightarrow> pyval option) \<Rightarrow> vfmt \<Rightarrow> telemetry \<Rightarrow> string \<Rightarrow> py_exn + (check \<times> string)" where
  "legacy_step loads vf tel legacy =
     rbind (verify_no_legacy_deployment loads vf tel legacy ''default'') (\<lambda>c.
       Inr (c, evidence_line (''Legacy deployment '' @ legacy @ '' removed'')
                 (''Legacy deployment '' @ legacy) c))"

definition alerts_step :: "vfmt \<Rightarrow> telemetry \<Rightarrow> string list \<Rightarrow> py_exn + (check \<times> string) list" where
  "alerts_step vf tel must_clear =
     (if must_clear = [] then Inr []
      else rbind (verify_alerts vf tel must_clear) (\<lambda>c.
        Inr [(c, evidence_line ''Alerts cleared'' ''Alerts'' c)]))"

definition metric_step ::
  "(string \<Rightarrow> pyfloat option) \<Rightarrow> vfmt \<Rightarrow> telemetry \<Rightarrow> metric \<Rightarrow>
   py_exn + ((check \<times> string) \<times> (string \<times> rat) option)" where
  "metric_step pf vf tel m =
     rbind (verify_metric pf vf tel m) (\<lambda>(c, val).
       let label = ''Metric ['' @ mp_query m @ '']'' in
       Inr ((c, evidence_line label label c), map_option (Pair (mp_query m)) val))"

definition chaos_step ::
  "(string \<Rightarrow> pyval option) \<Rightarrow> vfmt \<Rightarrow> telemetry \<Rightarrow> vspec \<Rightarrow> py_exn + (check \<times> string) list" where
  "chaos_step loads vf tel spec =
     (if \<not> vs_chaos_cleared spec then Inr []
      else rbind (verify_chaos_clearance loads vf tel (vs_id spec)) (\<lambda>c.
        Inr [(c, evidence_line ''Chaos clearance'' ''Chaos clearance'' c)]))"

definition unreachable_text :: "string \<Rightarrow> bool" where
  "unreachable_text details \<longleftrightarrow>
     list_ex (contains (py_lower details))
       [''error'', ''unreachable'', ''down'', ''refused'', ''timeout'', ''failed to query'']"

definition failed_names :: "check list \<Rightarrow> string list" where
  "failed_names checks = map ck_name (filter (\<lambda>c. \<not> ck_passed c \<and> ck_required c) checks)"

definition all_checks_passed :: "check list \<Rightarrow> bool" where
  "all_checks_passed checks \<longleftrightarrow> failed_names checks = [] \<and> checks \<noteq> []"

definition all_unreachable :: "check list \<Rightarrow> bool" where
  "all_unreachable checks \<longleftrightarrow>
     checks \<noteq> [] \<and> list_all (\<lambda>c. \<not> ck_passed c \<and> unreachable_text (ck_details c)) checks"

definition verdict_of ::
  "string \<Rightarrow> bool \<Rightarrow> (check \<times> string) list \<Rightarrow> pydict \<Rightarrow> verdict" where
  "verdict_of sid claimed results metrics =
     (let checks = map fst results;
          resolved = all_checks_passed checks;
          unreachable = (\<not> resolved \<and> all_unreachable checks)
      in \<lparr>vd_id = sid, vd_claimed = claimed, vd_resolved = resolved,
          vd_status = (if resolved then ''passed'' else if unreachable then ''inconclusive'' else ''failed''),
          vd_checks = checks, vd_failed = failed_names checks, vd_metrics = metrics,
          vd_evidence = map snd results,
          vd_false_resolution = (claimed \<and> \<not> resolved), vd_false_negative = (\<not> claimed \<and> resolved),
          vd_error = (if unreachable then Some ''environment_telemetry_unreachable'' else None)\<rparr>)"

text \<open>An error verdict, for a specification that cannot be resolved.\<close>

definition error_verdict :: "string \<Rightarrow> bool \<Rightarrow> check \<Rightarrow> string list \<Rightarrow> string \<Rightarrow> verdict" where
  "error_verdict sid claimed c evidence err =
     \<lparr>vd_id = sid, vd_claimed = claimed, vd_resolved = False, vd_status = ''error'', vd_checks = [c],
      vd_failed = [ck_name c], vd_metrics = [], vd_evidence = evidence,
      vd_false_resolution = claimed, vd_false_negative = False, vd_error = Some err\<rparr>"

text \<open>The checks in the order of the code; the first exception leaves.\<close>

definition run_checks ::
  "(string \<Rightarrow> pyval option) \<Rightarrow> (string \<Rightarrow> pyfloat option) \<Rightarrow> vfmt \<Rightarrow> telemetry \<Rightarrow> vspec \<Rightarrow>
   py_exn + ((check \<times> string) list \<times> (string \<times> rat) list)" where
  "run_checks loads pf vf tel spec =
     rbind (map_result (workload_step loads vf tel) (vs_workloads spec)) (\<lambda>workloads.
     rbind (map_result (legacy_step loads vf tel) (vs_no_legacy spec)) (\<lambda>legacy.
     rbind (alerts_step vf tel (vs_alerts spec)) (\<lambda>alerts.
     rbind (map_result (metric_step pf vf tel) (vs_metrics spec)) (\<lambda>metrics.
     rbind (chaos_step loads vf tel spec) (\<lambda>chaos.
       Inr (workloads @ legacy @ alerts @ map fst metrics @ chaos,
            concat (map (\<lambda>m. case snd m of None \<Rightarrow> [] | Some x \<Rightarrow> [x]) metrics)))))))"

definition verify_scenario ::
  "(string \<Rightarrow> pyval option) \<Rightarrow> (string \<Rightarrow> pyfloat option) \<Rightarrow> vfmt \<Rightarrow> telemetry \<Rightarrow> string \<Rightarrow> bool \<Rightarrow>
   pydict option \<Rightarrow> py_exn + verdict" where
  "verify_scenario loads pf vf tel scenario_id claimed alert =
     (case resolve_spec (vf_str vf) scenario_id alert of
        Inl (UnknownFrozen sid) \<Rightarrow>
          Inr (error_verdict scenario_id claimed
            (failing ''scenario_spec_resolution'' scenario_id
               (vf_repr vf (''Unknown frozen scenario ID in catalog: '' @ sid)))
            [] (''unknown_frozen_scenario_spec: '' @ scenario_id))
      | Inl (Unresolved sid) \<Rightarrow>
          Inr (error_verdict scenario_id claimed
            (failing ''dynamic_scenario_target_resolution'' scenario_id
               (''dynamic_scenario_target_unresolved: unable to synthesize target workload from alert context for scenario ''
                @ CHR 0x27 # sid @ [CHR 0x27]))
            [] ''dynamic_scenario_target_unresolved'')
      | Inl (SpecExn e) \<Rightarrow> Inl e
      | Inr spec \<Rightarrow>
          rbind (run_checks loads pf vf tel spec) (\<lambda>(results, metrics).
            Inr (verdict_of (vs_id spec) claimed results
                   (fold (\<lambda>(q, x) d. AList.update q (PFloat (FFin x)) d) metrics []))))"

section \<open>What a passed check shows\<close>

text \<open>The cluster answered, and the answer lists the workload with enough ready replicas (containers).\<close>

definition workload_shown_ready ::
  "(string \<Rightarrow> pyval option) \<Rightarrow> vfmt \<Rightarrow> telemetry \<Rightarrow> workload \<Rightarrow> bool" where
  "workload_shown_ready loads vf tel wl \<longleftrightarrow>
     (\<exists>res items item status spec.
        tl_kubectl tel (query_kind (py_lower (wl_kind wl))) (wl_namespace wl) = Inr res \<and>
        parse_kubernetes_items loads None None None res = Inr items \<and>
        named_item (wl_name wl) items = Some item \<and>
        dget_or item ''status'' (PDict []) = PDict status \<and> dget_or item ''spec'' (PDict []) = PDict spec \<and>
        (if deployment_kind (py_lower (wl_kind wl))
         then \<exists>desired ready available. replica_counts status spec = Inr (Some (desired, ready, available)) \<and>
                enough_ready wl desired ready
         else py_str (vf_str vf) (dget_or status ''phase'' (PStr '''')) = ''Running'' \<and>
              rbind (py_iter (dget_or status ''containerStatuses'' (PList []))) all_ready = Inr True))"

definition legacy_shown_gone ::
  "(string \<Rightarrow> pyval option) \<Rightarrow> telemetry \<Rightarrow> string \<Rightarrow> bool" where
  "legacy_shown_gone loads tel legacy \<longleftrightarrow>
     (\<exists>res items. tl_kubectl tel ''deployment'' ''default'' = Inr res \<and>
        parse_kubernetes_items loads None None None res = Inr items \<and>
        (case named_item legacy items of
           None \<Rightarrow> True
         | Some item \<Rightarrow> \<exists>st. dget item ''status'' = PDict st \<and>
             caught_int (dget_or st ''readyReplicas'' (PInt 0)) = Inr (Some 0)))"

definition chaos_shown_clear :: "(string \<Rightarrow> pyval option) \<Rightarrow> telemetry \<Rightarrow> bool" where
  "chaos_shown_clear loads tel \<longleftrightarrow>
     (\<exists>res. tl_kubectl tel chaos_query ''-A'' = Inr res \<and>
        parse_kubernetes_items loads None None None res = Inr [])"

lemma deployment_check_passed:
  assumes "deployment_check wl name target status spec = Inr c"
  shows "ck_required c"
    and "ck_passed c \<Longrightarrow> \<exists>d r a. replica_counts status spec = Inr (Some (d, r, a)) \<and> enough_ready wl d r"
proof -
  from assms obtain counts where counts: "replica_counts status spec = Inr counts"
    by (auto simp: deployment_check_def rbind_eq_Inr)
  with assms show "ck_required c"
    and "ck_passed c \<Longrightarrow> \<exists>d r a. replica_counts status spec = Inr (Some (d, r, a)) \<and> enough_ready wl d r"
    by (cases counts; auto simp: deployment_check_def split: if_splits)+
qed

lemma pod_check_passed:
  assumes "pod_check vf name target status = Inr c"
  shows "ck_required c"
    and "ck_passed c \<Longrightarrow> py_str (vf_str vf) (dget_or status ''phase'' (PStr '''')) = ''Running'' \<and>
           rbind (py_iter (dget_or status ''containerStatuses'' (PList []))) all_ready = Inr True"
  using assms by (auto simp: pod_check_def rbind_eq_Inr Let_def split: if_splits)

lemma verify_workload_passed:
  assumes "verify_workload loads vf tel wl = Inr c"
  shows "ck_required c \<and> (ck_passed c \<longrightarrow> workload_shown_ready loads vf tel wl)"
proof -
  let ?kind = "py_lower (wl_kind wl)"
  from assms obtain res where res: "tl_kubectl tel (query_kind ?kind) (wl_namespace wl) = Inr res"
    by (auto simp: verify_workload_def Let_def rbind_eq_Inr)
  show ?thesis
  proof (cases "parse_kubernetes_items loads None None None res")
    case (Inl err)
    with assms res show ?thesis
      by (auto simp: verify_workload_def Let_def split: if_splits)
  next
    case (Inr items)
    then have ok: "succeeded res" by (rule parse_ok)
    show ?thesis
    proof (cases "named_item (wl_name wl) items")
      case None
      with assms res Inr ok show ?thesis by (auto simp: verify_workload_def Let_def)
    next
      case (Some item)
      show ?thesis
      proof (cases "\<exists>status spec. dget_or item ''status'' (PDict []) = PDict status \<and>
          dget_or item ''spec'' (PDict []) = PDict spec")
        case True
        then obtain status spec where item: "dget_or item ''status'' (PDict []) = PDict status"
          "dget_or item ''spec'' (PDict []) = PDict spec" by blast
        show ?thesis
        proof (cases "deployment_kind ?kind")
          case True
          with assms res Inr ok Some item have "deployment_check wl (''workload_'' @ wl_name wl @ ''_ready'')
              (wl_namespace wl @ ''/'' @ wl_name wl) status spec = Inr c"
            by (simp add: verify_workload_def Let_def)
          from deployment_check_passed [OF this] True res Inr Some item show ?thesis
            unfolding workload_shown_ready_def by auto
        next
          case False
          with assms res Inr ok Some item have "pod_check vf (''workload_'' @ wl_name wl @ ''_ready'')
              (wl_namespace wl @ ''/'' @ wl_name wl) status = Inr c"
            by (simp add: verify_workload_def Let_def)
          from pod_check_passed [OF this] False res Inr Some item show ?thesis
            unfolding workload_shown_ready_def by auto
        qed
      next
        case False
        with assms res Inr ok Some show ?thesis
          by (auto simp: verify_workload_def Let_def split: pyval.splits)
      qed
    qed
  qed
qed

lemma verify_legacy_passed:
  assumes "verify_no_legacy_deployment loads vf tel legacy ''default'' = Inr c"
  shows "ck_required c \<and> (ck_passed c \<longrightarrow> legacy_shown_gone loads tel legacy)"
proof -
  have status: "ck_required c \<and> (ck_passed c \<longrightarrow> (\<exists>st. v = PDict st \<and>
      caught_int (dget_or st ''readyReplicas'' (PInt 0)) = Inr (Some 0)))"
    if "legacy_status_check legacy name target v = Inr c" for name target v
    using that by (cases v) (auto simp: legacy_status_check_def rbind_eq_Inr split: option.splits if_splits)
  from assms obtain res where res: "tl_kubectl tel ''deployment'' ''default'' = Inr res"
    by (auto simp: verify_no_legacy_deployment_def Let_def rbind_eq_Inr)
  show ?thesis
  proof (cases "parse_kubernetes_items loads None None None res")
    case (Inl err)
    with assms res show ?thesis
      by (auto simp: verify_no_legacy_deployment_def Let_def split: if_splits)
  next
    case (Inr items)
    then have ok: "succeeded res" by (rule parse_ok)
    show ?thesis
    proof (cases "named_item legacy items")
      case None
      with assms res Inr ok show ?thesis
        by (auto simp: verify_no_legacy_deployment_def legacy_shown_gone_def Let_def)
    next
      case (Some item)
      with assms res Inr ok have "legacy_status_check legacy (''legacy_deployment_'' @ legacy @ ''_removed'')
          (''default/'' @ legacy) (dget item ''status'') = Inr c"
        by (simp add: verify_no_legacy_deployment_def Let_def)
      from status [OF this] res Inr Some show ?thesis by (auto simp: legacy_shown_gone_def)
    qed
  qed
qed

lemma verify_chaos_passed:
  assumes "verify_chaos_clearance loads vf tel scenario = Inr c"
  shows "ck_required c \<and> (ck_passed c \<longrightarrow> chaos_shown_clear loads tel)"
  using assms
  by (auto simp: verify_chaos_clearance_def chaos_shown_clear_def rbind_eq_Inr Let_def
      split: if_splits sum.splits)

lemma all_checks_passed_in:
  "all_checks_passed checks \<Longrightarrow> c \<in> set checks \<Longrightarrow> ck_required c \<Longrightarrow> ck_passed c"
  by (auto simp: all_checks_passed_def failed_names_def filter_empty_conv)

lemma run_checks_members:
  assumes "run_checks loads pf vf tel spec = Inr (results, metrics)"
  shows "wl \<in> set (vs_workloads spec) \<Longrightarrow> \<exists>c. c \<in> fst ` set results \<and> verify_workload loads vf tel wl = Inr c"
    and "legacy \<in> set (vs_no_legacy spec) \<Longrightarrow>
         \<exists>c. c \<in> fst ` set results \<and> verify_no_legacy_deployment loads vf tel legacy ''default'' = Inr c"
    and "vs_chaos_cleared spec \<Longrightarrow>
         \<exists>c. c \<in> fst ` set results \<and> verify_chaos_clearance loads vf tel (vs_id spec) = Inr c"
proof -
  from assms obtain ws ls mid ch where steps:
      "map_result (workload_step loads vf tel) (vs_workloads spec) = Inr ws"
      "map_result (legacy_step loads vf tel) (vs_no_legacy spec) = Inr ls"
      "chaos_step loads vf tel spec = Inr ch"
      and results: "results = ws @ ls @ mid @ ch"
    by (auto simp: run_checks_def rbind_eq_Inr)
  show "\<exists>c. c \<in> fst ` set results \<and> verify_workload loads vf tel wl = Inr c" if "wl \<in> set (vs_workloads spec)"
    using map_result_in [OF steps(1) that] by (force simp: results workload_step_def rbind_eq_Inr Let_def)
  show "\<exists>c. c \<in> fst ` set results \<and> verify_no_legacy_deployment loads vf tel legacy ''default'' = Inr c"
    if "legacy \<in> set (vs_no_legacy spec)"
    using map_result_in [OF steps(2) that] by (force simp: results legacy_step_def rbind_eq_Inr)
  show "\<exists>c. c \<in> fst ` set results \<and> verify_chaos_clearance loads vf tel (vs_id spec) = Inr c"
    if "vs_chaos_cleared spec"
    using steps(3) that by (force simp: results chaos_step_def rbind_eq_Inr)
qed

lemma scenario_spec_chaos: "scenario_spec sid = Some spec \<Longrightarrow> vs_chaos_cleared spec \<and> vs_id spec = sid"
  by (auto simp: scenario_spec_def frozen_spec_def)

lemma resolved_spec_chaos: "resolve_spec fmt sid alert = Inr spec \<Longrightarrow> vs_chaos_cleared spec"
  by (auto simp: resolve_spec_def Let_def dest: scenario_spec_chaos
      split: option.splits if_splits sum.splits prod.splits)

lemma verify_scenario_resolved:
  assumes "verify_scenario loads pf vf tel sid claimed alert = Inr v" and "vd_resolved v"
  obtains spec results metrics where "resolve_spec (vf_str vf) sid alert = Inr spec"
    and "run_checks loads pf vf tel spec = Inr (results, metrics)"
    and "all_checks_passed (map fst results)"
proof (cases "resolve_spec (vf_str vf) sid alert")
  case (Inl e)
  with assms show thesis by (cases e) (auto simp: verify_scenario_def error_verdict_def)
next
  case (Inr spec)
  with assms obtain results metrics where "run_checks loads pf vf tel spec = Inr (results, metrics)"
    and v: "v = verdict_of (vs_id spec) claimed results
          (fold (\<lambda>(q, x) d. AList.update q (PFloat (FFin x)) d) metrics [])"
    by (auto simp: verify_scenario_def rbind_eq_Inr)
  with Inr assms(2) that show thesis by (auto simp: verdict_of_def Let_def)
qed

section \<open>Properties\<close>

text \<open>
  C21. A verdict \<open>resolved\<close> rests on what the cluster showed: the specification was found, every one of its
  workloads was listed with enough ready replicas, every legacy deployment it forbids was absent or
  scaled to zero, and the chaos listing succeeded and was empty.  The agent's claim plays no part.
\<close>

theorem resolved_means_observed_recovery:
  assumes "verify_scenario loads pf vf tel sid claimed alert = Inr v" and "vd_resolved v"
  shows "\<exists>spec. resolve_spec (vf_str vf) sid alert = Inr spec \<and>
    (\<forall>wl \<in> set (vs_workloads spec). workload_shown_ready loads vf tel wl) \<and>
    (\<forall>legacy \<in> set (vs_no_legacy spec). legacy_shown_gone loads tel legacy) \<and>
    chaos_shown_clear loads tel"
proof -
  from assms obtain spec results metrics where spec: "resolve_spec (vf_str vf) sid alert = Inr spec"
    and ran: "run_checks loads pf vf tel spec = Inr (results, metrics)"
    and passed: "all_checks_passed (map fst results)"
    by (rule verify_scenario_resolved)
  have "workload_shown_ready loads vf tel wl" if wl: "wl \<in> set (vs_workloads spec)" for wl
    using run_checks_members(1) [OF ran wl] all_checks_passed_in [OF passed] verify_workload_passed
    by (metis set_map)
  moreover have "legacy_shown_gone loads tel legacy" if leg: "legacy \<in> set (vs_no_legacy spec)" for legacy
    using run_checks_members(2) [OF ran leg] all_checks_passed_in [OF passed] verify_legacy_passed
    by (metis set_map)
  moreover have "chaos_shown_clear loads tel"
    using run_checks_members(3) [OF ran resolved_spec_chaos [OF spec]] all_checks_passed_in [OF passed]
      verify_chaos_passed by (metis set_map)
  ultimately show ?thesis using spec by blast
qed

text \<open>
  The verdict is coherent and independent of the claim: \<open>passed\<close> and \<open>env_resolved\<close> coincide, the two
  disagreement flags compare the claim with it, and an opposite claim leaves everything else the same.
\<close>

theorem verdict_ignores_the_claim:
  assumes "verify_scenario loads pf vf tel sid claimed alert = Inr v"
  shows "(vd_resolved v \<longleftrightarrow> vd_status v = ''passed'') \<and>
    (vd_false_resolution v \<longleftrightarrow> claimed \<and> \<not> vd_resolved v) \<and>
    (vd_false_negative v \<longleftrightarrow> \<not> claimed \<and> vd_resolved v) \<and>
    (vd_status v = ''inconclusive'' \<longleftrightarrow> vd_error v = Some ''environment_telemetry_unreachable'') \<and>
    verify_scenario loads pf vf tel sid (\<not> claimed) alert =
      Inr (v\<lparr>vd_claimed := \<not> claimed, vd_false_resolution := \<not> claimed \<and> \<not> vd_resolved v,
             vd_false_negative := claimed \<and> vd_resolved v\<rparr>)"
proof (cases "resolve_spec (vf_str vf) sid alert")
  case (Inl e)
  with assms show ?thesis by (cases e) (auto simp: verify_scenario_def error_verdict_def)
next
  case (Inr spec)
  with assms obtain results metrics where "run_checks loads pf vf tel spec = Inr (results, metrics)"
    and "v = verdict_of (vs_id spec) claimed results
          (fold (\<lambda>(q, x) d. AList.update q (PFloat (FFin x)) d) metrics [])"
    by (auto simp: verify_scenario_def rbind_eq_Inr)
  with Inr show ?thesis by (auto simp: verify_scenario_def verdict_of_def Let_def)
qed

text \<open>
  Frozen scenarios are never guessed: an identifier under a frozen tier resolves to its catalogue entry
  whatever the alert says, with workloads that exist in the application and chaos clearance required, or
  it is an error.
\<close>

theorem frozen_specs_never_synthesized:
  assumes "list_ex (starts_with (normalized_id sid)) FROZEN_TIER_PREFIXES"
  shows "case resolve_spec fmt sid alert of
      Inr spec \<Rightarrow> scenario_spec (normalized_id sid) = Some spec \<and> vs_id spec = normalized_id sid \<and>
        vs_workloads spec \<noteq> [] \<and> wl_name ` set (vs_workloads spec) \<subseteq> ONLINE_BOUTIQUE_SERVICES \<and>
        vs_chaos_cleared spec
    | Inl e \<Rightarrow> e = UnknownFrozen (normalized_id sid)"
proof (cases "scenario_spec (normalized_id sid)")
  case None
  with assms show ?thesis by (simp add: resolve_spec_def)
next
  case (Some spec)
  then obtain services legacy where services:
      "(normalized_id sid, services) \<in>
         set (single_fault_specs @ cascade_specs @ multi_fault_specs @ named_replay_specs)"
      and spec: "spec = frozen_spec services legacy (normalized_id sid)"
    by (auto simp: scenario_spec_def dest!: map_of_SomeD)
  have "\<forall>(s, services) \<in> set (single_fault_specs @ cascade_specs @ multi_fault_specs @ named_replay_specs).
      services \<noteq> [] \<and> set services \<subseteq> ONLINE_BOUTIQUE_SERVICES"
    by (simp add: single_fault_specs_def cascade_specs_def multi_fault_specs_def named_replay_specs_def
        ONLINE_BOUTIQUE_SERVICES_def)
  with services have "services \<noteq> []" "set services \<subseteq> ONLINE_BOUTIQUE_SERVICES" by fastforce+
  with Some spec show ?thesis
    by (auto simp: resolve_spec_def frozen_spec_def make_workload_def)
qed

theorem frozen_specs_never_synthesized_witness:
  "resolve_spec (\<lambda>_. '''') ''single_fault/sf-999''
     (Some [(''commonLabels'', PDict [(''service'', PStr ''frontend'')])])
   = Inl (UnknownFrozen ''single_fault/sf-999'')"
proof -
  have ident: "normalized_id ''single_fault/sf-999'' = ''single_fault/sf-999''" by code_simp
  have frozen: "list_ex (starts_with (normalized_id ''single_fault/sf-999'')) FROZEN_TIER_PREFIXES" by code_simp
  have none: "scenario_spec ''single_fault/sf-999'' = None" by code_simp
  show ?thesis
    using frozen_specs_never_synthesized [OF frozen, of "\<lambda>_. ''''"
        "Some [(''commonLabels'', PDict [(''service'', PStr ''frontend'')])]"] none
    by (simp add: ident split: sum.splits)
qed

section \<open>Witnesses\<close>

text \<open>A cluster in which one service is ready and no chaos is left.\<close>

definition sample_listing :: "pydict list \<Rightarrow> pyval" where
  "sample_listing items =
     PDict [(''success'', PBool True), (''parsed'', PDict [(''items'', PList (map PDict items))])]"

definition sample_cluster :: telemetry where
  "sample_cluster =
     \<lparr>tl_kubectl = (\<lambda>resource ns. Inr (sample_listing
        (if resource = ''deployment'' then
          [[(''metadata'', PDict [(''name'', PStr ''cartservice'')]),
            (''status'', PDict [(''replicas'', PInt 1), (''readyReplicas'', PInt 1)])]]
         else []))),
      tl_alerts = Inr (PDict []), tl_promql = (\<lambda>_. Inr (PDict []))\<rparr>"

definition sample_texts :: vfmt where
  "sample_texts = \<lparr>vf_str = (\<lambda>_. ''''), vf_general = (\<lambda>_. ''''), vf_fixed3 = (\<lambda>_. ''''),
     vf_fixed4 = (\<lambda>_. ''''), vf_repr = (\<lambda>s. s), vf_exn = (\<lambda>_. ''''), vf_exn_type = (\<lambda>_. '''')\<rparr>"

lemma sample_verdict: "\<exists>v. verify_scenario (\<lambda>_. None) (\<lambda>_. None) sample_texts sample_cluster
    ''single_fault/sf-001'' True None = Inr v \<and> vd_resolved v"
proof -
  have "case verify_scenario (\<lambda>_. None) (\<lambda>_. None) sample_texts sample_cluster ''single_fault/sf-001'' True None
      of Inr v \<Rightarrow> vd_resolved v | Inl _ \<Rightarrow> False"
    by code_simp
  then show ?thesis by (auto split: sum.splits)
qed

theorem resolved_means_observed_recovery_witness:
  "workload_shown_ready (\<lambda>_. None) sample_texts sample_cluster (make_workload ''cartservice'' ''default'') \<and>
   chaos_shown_clear (\<lambda>_. None) sample_cluster"
proof -
  obtain v where "verify_scenario (\<lambda>_. None) (\<lambda>_. None) sample_texts sample_cluster
    ''single_fault/sf-001'' True None = Inr v" "vd_resolved v" using sample_verdict by blast
  from resolved_means_observed_recovery [OF this] obtain spec where
    "resolve_spec (vf_str sample_texts) ''single_fault/sf-001'' None = Inr spec"
    "\<forall>wl \<in> set (vs_workloads spec). workload_shown_ready (\<lambda>_. None) sample_texts sample_cluster wl"
    "chaos_shown_clear (\<lambda>_. None) sample_cluster" by blast
  moreover have "normalized_id ''single_fault/sf-001'' = ''single_fault/sf-001''" by code_simp
  then have "resolve_spec (vf_str sample_texts) ''single_fault/sf-001'' None
      = Inr (frozen_spec [''cartservice''] [] ''single_fault/sf-001'')"
    by (simp add: resolve_spec_def scenario_spec_def single_fault_specs_def)
  ultimately show ?thesis by (auto simp: frozen_spec_def)
qed

theorem verdict_ignores_the_claim_witness:
  "\<exists>v. verify_scenario (\<lambda>_. None) (\<lambda>_. None) sample_texts sample_cluster ''single_fault/sf-001'' True None
         = Inr v \<and> vd_status v = ''passed'' \<and> \<not> vd_false_resolution v"
proof -
  obtain v where v: "verify_scenario (\<lambda>_. None) (\<lambda>_. None) sample_texts sample_cluster
    ''single_fault/sf-001'' True None = Inr v" "vd_resolved v" using sample_verdict by blast
  from verdict_ignores_the_claim [OF v(1)] v show ?thesis by auto
qed

end
