(* ===== verification/Settling.thy ===== *)
theory Settling
  imports Verifier
begin

text \<open>
  \<open>agents/coordinator.py\<close>, \<open>settle_environment\<close>: the environment is verified again and again until it
  is resolved or the time is up.  Successive readings of the monotonic clock are \<open>clock 0\<close>, \<open>clock 1\<close>,
  and so on, and the verifier's answers are \<open>probe 0\<close>, \<open>probe 1\<close>.  A clock that stands still keeps the
  loop running, so the loop is a partial function; the property says when it returns.
\<close>

section \<open>The loop\<close>

definition SETTLE_TIMEOUT :: time where "SETTLE_TIMEOUT = 30"
definition SETTLE_POLL_INTERVAL :: time where "SETTLE_POLL_INTERVAL = 2"

definition settle_deadline :: "(nat \<Rightarrow> time) \<Rightarrow> time" where
  "settle_deadline clock = clock 0 + SETTLE_TIMEOUT"

text \<open>The clock is read before a poll, after it, and once more at the end.\<close>

definition before_poll :: "nat \<Rightarrow> nat" where "before_poll k = 2 * k + 1"
definition after_poll :: "nat \<Rightarrow> nat" where "after_poll k = 2 * k + 2"

definition settle_observation :: "(nat \<Rightarrow> time) \<Rightarrow> (nat \<Rightarrow> string) \<Rightarrow> nat \<Rightarrow> verdict \<Rightarrow> pydict" where
  "settle_observation clock stamp k v =
     [(''timestamp'', PStr (stamp (k + 1))),
      (''elapsed_seconds'', PFloat (FFin (clock (after_poll k) - clock 0))),
      (''env_resolved'', PBool (vd_resolved v)), (''verification_status'', PStr (vd_status v)),
      (''failed_checks'', PList (map PStr (vd_failed v)))]"

text \<open>Whether it settled, what was observed, and the number of the last clock reading.\<close>

partial_function (option) settle_polls ::
  "(nat \<Rightarrow> time) \<Rightarrow> (nat \<Rightarrow> string) \<Rightarrow> (nat \<Rightarrow> py_exn + verdict) \<Rightarrow> nat \<Rightarrow> pydict list \<Rightarrow>
   (py_exn + bool \<times> pydict list \<times> nat) option" where
  "settle_polls clock stamp probe k seen =
     (if \<not> clock (before_poll k) < settle_deadline clock then Some (Inr (False, seen, before_poll k + 1))
      else case probe k of
        Inl e \<Rightarrow> Some (Inl e)
      | Inr v \<Rightarrow>
          let t = clock (after_poll k); seen' = seen @ [settle_observation clock stamp k v] in
          if vd_resolved v \<and> t \<le> settle_deadline clock then Some (Inr (True, seen', after_poll k + 1))
          else if t \<ge> settle_deadline clock then Some (Inr (False, seen', after_poll k + 1))
          else settle_polls clock stamp probe (k + 1) seen')"

definition settle_report ::
  "(nat \<Rightarrow> time) \<Rightarrow> (nat \<Rightarrow> string) \<Rightarrow> bool \<Rightarrow> pydict list \<Rightarrow> nat \<Rightarrow> pydict" where
  "settle_report clock stamp settled seen last_reading =
     (let duration = clock last_reading - clock 0;
          done_in_time = settled \<and> \<not> duration > SETTLE_TIMEOUT
      in [(''started_at'', PStr (stamp 0)), (''completed_at'', PStr (stamp (length seen + 1))),
          (''duration_seconds'', PFloat (FFin duration)), (''timeout_seconds'', PInt 30),
          (''poll_interval_seconds'', PInt 2), (''settled'', PBool done_in_time),
          (''timed_out'', PBool (\<not> done_in_time \<and> duration \<ge> SETTLE_TIMEOUT)),
          (''observations'', PList (map PDict seen))])"

definition settle_environment ::
  "(nat \<Rightarrow> time) \<Rightarrow> (nat \<Rightarrow> string) \<Rightarrow> (nat \<Rightarrow> py_exn + verdict) \<Rightarrow> (py_exn + pydict) option" where
  "settle_environment clock stamp probe =
     map_option (\<lambda>r. rbind r (\<lambda>(settled, seen, last_reading).
       Inr (settle_report clock stamp settled seen last_reading)))
       (settle_polls clock stamp probe 0 [])"

section \<open>The loop returns\<close>

text \<open>The clock never goes back, and a sleep lasts at least as long as it was asked to.\<close>

definition sleeps_fully :: "(nat \<Rightarrow> time) \<Rightarrow> bool" where
  "sleeps_fully clock \<longleftrightarrow>
     (\<forall>i. clock i \<le> clock (i + 1)) \<and>
     (\<forall>k. clock (before_poll (k + 1)) \<ge>
        clock (after_poll k) + min SETTLE_POLL_INTERVAL (settle_deadline clock - clock (after_poll k)))"

lemma poll_advances:
  assumes "sleeps_fully clock"
  shows "clock (before_poll k) \<ge> min (clock 0 + 2 * of_nat k) (settle_deadline clock)"
proof (induction k)
  case 0
  have "clock 0 \<le> clock (0 + 1)" using assms unfolding sleeps_fully_def by blast
  then show ?case by (simp add: before_poll_def min_le_iff_disj)
next
  case (Suc k)
  have "clock (before_poll k) \<le> clock (before_poll k + 1)" using assms unfolding sleeps_fully_def by blast
  then have "clock (before_poll k) \<le> clock (after_poll k)" by (simp add: before_poll_def after_poll_def)
  moreover have "clock (before_poll (k + 1)) \<ge>
      clock (after_poll k) + min SETTLE_POLL_INTERVAL (settle_deadline clock - clock (after_poll k))"
    using assms unfolding sleeps_fully_def by blast
  ultimately show ?case using Suc by (auto simp: SETTLE_POLL_INTERVAL_def min_def split: if_splits)
qed

text \<open>From poll \<open>k\<close> on at most \<open>15 - k\<close> polls follow.\<close>

lemma polls_return:
  assumes "sleeps_fully clock" and "k \<le> 15" and "length seen = k"
  shows "\<exists>r. settle_polls clock stamp probe k seen = Some r \<and>
    (\<forall>settled seen' i. r = Inr (settled, seen', i) \<longrightarrow>
       length seen' \<le> 15 \<and> (settled \<longrightarrow> seen' \<noteq> [] \<and> dget (last seen') ''env_resolved'' = PBool True))"
  using assms(2,3)
proof (induction "15 - k" arbitrary: k seen)
  case 0
  then have "clock (before_poll k) \<ge> settle_deadline clock"
    using poll_advances[OF assms(1), of k] by (auto simp: settle_deadline_def SETTLE_TIMEOUT_def)
  with 0 show ?case by (simp add: settle_polls.simps[of clock stamp probe 15])
next
  case (Suc n)
  show ?case
  proof (cases "probe k")
    case (Inl e)
    with Suc.prems show ?thesis by (simp add: settle_polls.simps[of clock stamp probe k])
  next
    case (Inr v)
    from Suc.hyps(2) Suc.prems have "k + 1 \<le> 15" "length (seen @ [settle_observation clock stamp k v]) = k + 1"
      and "n = 15 - (k + 1)" by simp_all
    from Suc.hyps(1)[OF this(3) this(1) this(2)] Suc.prems \<open>k + 1 \<le> 15\<close> Inr show ?thesis
      by (auto simp: settle_polls.simps[of clock stamp probe k] Let_def settle_observation_def dget_or_def)
  qed
qed

text \<open>
  C35. When sleeps last as long as asked and the clock never goes back, settling returns, whatever the
  verifier answers, after at most 15 verifications; and a report that says settled ends with an
  observation that the environment was resolved.
\<close>

theorem settling_returns:
  assumes "sleeps_fully clock"
  shows "\<exists>r. settle_environment clock stamp probe = Some r \<and>
    (\<forall>report. r = Inr report \<longrightarrow>
       length (as_list (dget report ''observations'')) \<le> 15 \<and>
       (dget report ''settled'' = PBool True \<longrightarrow>
          dget (as_dict (last (as_list (dget report ''observations'')))) ''env_resolved'' = PBool True))"
proof -
  from polls_return[OF assms, of 0 "[]" stamp probe] obtain r where
    r: "settle_polls clock stamp probe 0 [] = Some r"
      "\<forall>settled seen' i. r = Inr (settled, seen', i) \<longrightarrow>
         length seen' \<le> 15 \<and> (settled \<longrightarrow> seen' \<noteq> [] \<and> dget (last seen') ''env_resolved'' = PBool True)" by auto
  have last: "seen \<noteq> [] \<Longrightarrow> as_dict (last (map PDict seen)) = last seen" for seen by (simp add: last_map)
  show ?thesis
  proof (cases r)
    case (Inr q)
    obtain settled seen i where q: "q = (settled, seen, i)" by (cases q) auto
    with r Inr q last show ?thesis
      by (auto simp: settle_environment_def settle_report_def Let_def dget_or_def)
  qed (use r in \<open>simp add: settle_environment_def\<close>)
qed

theorem settling_returns_witness:
  "\<exists>r. settle_environment (\<lambda>i. 2 * of_nat i) (\<lambda>_. ''now'') (\<lambda>_. Inl ValueError) = Some r"
proof -
  have "sleeps_fully (\<lambda>i. 2 * of_nat i)"
    by (auto simp: sleeps_fully_def before_poll_def after_poll_def SETTLE_POLL_INTERVAL_def)
  from settling_returns[OF this, of "\<lambda>_. ''now''" "\<lambda>_. Inl ValueError"] show ?thesis by blast
qed

end
