(* ===== verification/OperationalVerifier.thy ===== *)
theory OperationalVerifier
  imports Verifier
begin

text \<open>
  \<open>agents/verifier.py\<close>, the verification of operational incidents: the target named by the alert and by
  the prepared action, the current state of its Deployment, the fresh replica metrics, the cleared
  alert, and the verdict.  The cluster is the record \<open>op_cluster\<close>; clock readings are arguments; an
  exception of a query is caught, as in the code.
\<close>

record op_target =
  ot_deployment :: string
  ot_namespace :: string
  ot_uid :: "string option"
  ot_server :: "string option"
  ot_context :: "string option"
  ot_api_version :: "string option"
  ot_kind :: "string option"
  ot_resource_version :: "string option"

record op_cluster =
  oc_bound :: "op_target \<Rightarrow> py_exn + pyval"
  oc_kubectl :: "string \<Rightarrow> string \<Rightarrow> py_exn + pyval"
  oc_promql :: "string \<Rightarrow> time \<Rightarrow> py_exn + pyval"
  oc_alerts :: "py_exn + pyval"

definition alert_target :: "string \<Rightarrow> string \<Rightarrow> op_target" where
  "alert_target deployment ns =
     \<lparr>ot_deployment = deployment, ot_namespace = ns, ot_uid = None, ot_server = None, ot_context = None,
      ot_api_version = None, ot_kind = None, ot_resource_version = None\<rparr>"

definition target_text :: "op_target \<Rightarrow> string" where
  "target_text target = ot_namespace target @ ''/'' @ ot_deployment target"

section \<open>The target\<close>

definition namespace_char :: "char \<Rightarrow> bool" where
  "namespace_char c \<longleftrightarrow> (let n = (of_char c :: nat) in (48 \<le> n \<and> n \<le> 57) \<or> (97 \<le> n \<and> n \<le> 122))"

definition valid_namespace :: "string \<Rightarrow> bool" where
  "valid_namespace s \<longleftrightarrow>
     s \<noteq> [] \<and> length s \<le> 63 \<and> namespace_char (hd s) \<and> namespace_char (last s) \<and>
     list_all (\<lambda>c. namespace_char c \<or> c = CHR ''-'') s"

text \<open>The value of \<open>ATLASOPS_WORKLOAD_NAMESPACE\<close>, when it is set.\<close>

definition configured_operational_namespace :: "string option \<Rightarrow> string + string" where
  "configured_operational_namespace env =
     (let ns = (case env of None \<Rightarrow> ''default'' | Some s \<Rightarrow> s) in
      if valid_namespace ns then Inr ns
      else Inl ''ATLASOPS_WORKLOAD_NAMESPACE is missing or not a valid Kubernetes namespace'')"

definition has_operational_availability_alert :: "pydict option \<Rightarrow> bool" where
  "has_operational_availability_alert alert =
     (case alert of
        None \<Rightarrow> False
      | Some a \<Rightarrow>
          dget (as_dict (dget a ''commonLabels'')) ''alertname'' = PStr OPERATIONAL_AVAILABILITY_ALERT \<or>
          list_ex (\<lambda>item. dget (as_dict (dget (as_dict item) ''labels'')) ''alertname''
                     = PStr OPERATIONAL_AVAILABILITY_ALERT) (as_list (dget a ''alerts'')))"

definition read_label :: "pydict \<Rightarrow> string \<Rightarrow> string + string option" where
  "read_label labels name =
     (if \<not> dhas labels name then Inr None
      else case clean_text (dget labels name) of
        None \<Rightarrow> Inl (name @ '' label is malformed'')
      | Some s \<Rightarrow> Inr (Some s))"

fun individual_labels :: "nat \<Rightarrow> pyval list \<Rightarrow> string + pydict list" where
  "individual_labels n [] = Inr []"
| "individual_labels n (item # items) =
     (case dget (as_dict item) ''labels'' of
        PDict labels \<Rightarrow>
          if labels = [] then Inl (''alerts['' @ int_str (int n) @ ''].labels must not be empty'')
          else rbind (individual_labels (n + 1) items) (\<lambda>rest. Inr (labels # rest))
      | _ \<Rightarrow> Inl (''alerts['' @ int_str (int n) @ ''].labels must be an object''))"

definition OPERATIONAL_TARGET_LABELS :: "string list" where
  "OPERATIONAL_TARGET_LABELS = [''deployment'', ''service'', ''app'']"

text \<open>The deployment labels of one label set, each a known service.\<close>

fun source_targets :: "pydict \<Rightarrow> string list \<Rightarrow> string + string list" where
  "source_targets labels [] = Inr []"
| "source_targets labels (key # keys) =
     rbind (read_label labels key) (\<lambda>value.
       case value of
         None \<Rightarrow> source_targets labels keys
       | Some s \<Rightarrow>
           if s \<notin> ONLINE_BOUTIQUE_SERVICES
           then Inl (''unknown Online Boutique deployment label: '' @ s)
           else rbind (source_targets labels keys) (\<lambda>rest. Inr (s # rest)))"

text \<open>The deployment and the namespace that one label set names.\<close>

definition label_target :: "pydict \<Rightarrow> string + (string option \<times> string option)" where
  "label_target labels =
     rbind (source_targets labels OPERATIONAL_TARGET_LABELS) (\<lambda>found.
       if list_ex (\<lambda>s. s \<noteq> hd found) found then Inl ''deployment, service, and app labels conflict''
       else rbind (read_label labels ''namespace'') (\<lambda>ns.
         Inr (if found = [] then None else Some (hd found), ns)))"

definition explicit_names :: "string option list \<Rightarrow> string list" where
  "explicit_names xs = first_occurrences (concat (map (\<lambda>x. case x of None \<Rightarrow> [] | Some s \<Rightarrow> [s]) xs))"

definition alertnames_ok :: "pydict \<Rightarrow> pydict list \<Rightarrow> string + unit" where
  "alertnames_ok common individual =
     (let sets = filter (\<lambda>l. dhas l ''alertname'') (common # individual) in
      if list_ex (\<lambda>l. clean_text (dget l ''alertname'') = None) sets
      then Inl ''alertname label is malformed''
      else if sets = [] \<or> list_ex (\<lambda>l. dget l ''alertname'' \<noteq> PStr OPERATIONAL_AVAILABILITY_ALERT) sets
        \<or> (\<not> dhas common ''alertname'' \<and> list_ex (\<lambda>l. \<not> dhas l ''alertname'') individual)
      then Inl ''alertname labels do not identify one operational availability alert''
      else Inr ())"

definition agreed_target ::
  "string \<Rightarrow> string option list \<Rightarrow> string option list \<Rightarrow> string + op_target" where
  "agreed_target workload_ns targets namespaces =
     (case explicit_names targets of
        [deployment] \<Rightarrow>
          if hd targets = None \<and> list_ex (\<lambda>x. x = None) (tl targets)
          then Inl ''each individual alert must resolve to the deployment target''
          else (case explicit_names namespaces of
            [ns] \<Rightarrow>
              if ns \<noteq> workload_ns
              then Inl (''operational availability alert namespace must match the configured workload namespace ''
                        @ workload_ns @ '', got '' @ ns)
              else if hd namespaces = None \<and> list_ex (\<lambda>x. x = None) (tl namespaces)
              then Inl ''each individual alert must resolve to the configured workload namespace''
              else Inr (alert_target deployment ns)
          | _ \<Rightarrow> Inl ''namespace is missing or ambiguous'')
      | _ \<Rightarrow> Inl ''deployment target is missing or ambiguous'')"

definition resolve_operational_target :: "pydict \<Rightarrow> string \<Rightarrow> string + op_target" where
  "resolve_operational_target alert workload_ns =
     (case (dget_or alert ''commonLabels'' (PDict []), dget_or alert ''alerts'' (PList [])) of
        (PDict common, PList items) \<Rightarrow>
          if items = [] then Inl ''alerts must contain at least one alert''
          else
            rbind (individual_labels 0 items) (\<lambda>individual.
            rbind (alertnames_ok common individual) (\<lambda>_.
            rbind (map_result label_target (common # individual)) (\<lambda>found.
              agreed_target workload_ns (map fst found) (map snd found))))
      | (PDict common, _) \<Rightarrow> Inl ''alerts must be a list''
      | _ \<Rightarrow> Inl ''commonLabels must be an object'')"

text \<open>The action of the incident: given, or the last executed action that was prepared.\<close>

definition context_action :: "pydict \<Rightarrow> pyval" where
  "context_action ctx =
     (if dget ctx ''action'' \<noteq> PNone then dget ctx ''action''
      else case dget (as_dict (dget (as_dict (dget ctx ''remediation'')) ''final'')) ''executed_actions'' of
        PList actions \<Rightarrow>
          (case find (\<lambda>a. is_dict a \<and> dhas (as_dict a) ''prepared_action'') (rev actions) of
             None \<Rightarrow> PNone | Some a \<Rightarrow> a)
      | _ \<Rightarrow> PNone)"

definition REQUIRED_TARGET_FIELDS :: "string list" where
  "REQUIRED_TARGET_FIELDS =
     [''server'', ''context'', ''api_version'', ''kind'', ''namespace'', ''name'', ''uid'', ''resource_version'']"

fun required_fields :: "pydict \<Rightarrow> string list \<Rightarrow> string + (string \<times> string) list" where
  "required_fields selected [] = Inr []"
| "required_fields selected (key # keys) =
     (case clean_text (dget selected key) of
        None \<Rightarrow> Inl (''prepared action target '' @ key @ '' is missing or malformed'')
      | Some s \<Rightarrow> rbind (required_fields selected keys) (\<lambda>rest. Inr ((key, s) # rest)))"

definition field_of :: "(string \<times> string) list \<Rightarrow> string \<Rightarrow> string" where
  "field_of values key = (case map_of values key of None \<Rightarrow> '''' | Some s \<Rightarrow> s)"

fun same_cluster :: "pydict \<Rightarrow> (string \<times> string) list \<Rightarrow> string list \<Rightarrow> string + unit" where
  "same_cluster mutation values [] = Inr ()"
| "same_cluster mutation values (key # keys) =
     (case clean_text (dget mutation key) of
        None \<Rightarrow> Inl (''prepared action mutation target '' @ key @ '' is missing or malformed'')
      | Some s \<Rightarrow>
          if s \<noteq> field_of values key
          then Inl (''prepared verification target does not match the mutation target '' @ key)
          else same_cluster mutation values keys)"

definition bound_target_of :: "string \<Rightarrow> (string \<times> string) list \<Rightarrow> string + op_target" where
  "bound_target_of workload_ns values =
     (if field_of values ''api_version'' \<noteq> ''apps/v1'' \<or> field_of values ''kind'' \<noteq> ''Deployment''
      then Inl ''prepared verification target is not an apps/v1 Deployment''
      else if field_of values ''namespace'' \<noteq> workload_ns
      then Inl ''prepared verification target namespace does not match the workload namespace''
      else if field_of values ''name'' \<notin> ONLINE_BOUTIQUE_SERVICES
      then Inl ''prepared verification target is not an Online Boutique Deployment''
      else Inr \<lparr>ot_deployment = field_of values ''name'', ot_namespace = field_of values ''namespace'',
                ot_uid = Some (field_of values ''uid''), ot_server = Some (field_of values ''server''),
                ot_context = Some (field_of values ''context''),
                ot_api_version = Some (field_of values ''api_version''),
                ot_kind = Some (field_of values ''kind''),
                ot_resource_version = Some (field_of values ''resource_version'')\<rparr>)"

definition prepared_target :: "string \<Rightarrow> pydict \<Rightarrow> string + op_target" where
  "prepared_target workload_ns prepared =
     (let bound = dhas prepared ''verification_target''; mutation = dget prepared ''target'';
          selected = (if bound then dget prepared ''verification_target'' else mutation)
      in if bound \<and> \<not> is_dict mutation then Inl ''prepared action mutation target is missing or malformed''
         else if \<not> is_dict selected then Inl ''prepared action has no verification Deployment target''
         else rbind (required_fields (as_dict selected) REQUIRED_TARGET_FIELDS) (\<lambda>values.
              rbind (if bound then same_cluster (as_dict mutation) values [''server'', ''context''] else Inr ()) (\<lambda>_.
                bound_target_of workload_ns values)))"

definition resolve_operational_context_target :: "pydict \<Rightarrow> string \<Rightarrow> string + op_target" where
  "resolve_operational_context_target ctx workload_ns =
     (case context_action ctx of
        PDict action \<Rightarrow>
          (case dget action ''prepared_action'' of
             PDict prepared \<Rightarrow>
               if dget action ''tool'' \<noteq> dget prepared ''tool'' \<or> dget action ''args'' \<noteq> dget prepared ''arguments''
               then Inl ''operational action conflicts with its prepared action''
               else prepared_target workload_ns prepared
           | _ \<Rightarrow> Inl ''operational action has no prepared action'')
      | _ \<Rightarrow> Inl ''operational context must include the executed prepared action'')"

section \<open>The Deployment\<close>

type_synonym deployment_outcome = "check \<times> int option \<times> bool option"

definition unsettled :: "string \<Rightarrow> op_target \<Rightarrow> string \<Rightarrow> check" where
  "unsettled name target details = failing name (target_text target) details"

fun count_field :: "pyval \<Rightarrow> int option" where
  "count_field (PInt i) = (if 0 \<le> i then Some i else None)"
| "count_field _ = None"

definition opt_text :: "string option \<Rightarrow> pyval" where
  "opt_text s = (case s of None \<Rightarrow> PNone | Some t \<Rightarrow> PStr t)"

definition deployment_name :: string where
  "deployment_name = ''operational_deployment_current''"

text \<open>The generation, observed generation, desired, ready and available counts.\<close>

definition deployment_numbers :: "pydict \<Rightarrow> pydict \<Rightarrow> pydict \<Rightarrow> (int \<times> int \<times> int \<times> int \<times> int) option" where
  "deployment_numbers metadata spec status =
     (case (count_field (dget metadata ''generation''), count_field (dget status ''observedGeneration''),
            count_field (dget spec ''replicas''), count_field (dget status ''readyReplicas''),
            count_field (dget status ''availableReplicas'')) of
        (Some g, Some og, Some d, Some r, Some a) \<Rightarrow> Some (g, og, d, r, a)
      | _ \<Rightarrow> None)"

definition deployment_observed ::
  "op_target \<Rightarrow> pydict \<Rightarrow> pydict \<Rightarrow> string \<Rightarrow> string \<Rightarrow> int \<times> int \<times> int \<times> int \<times> int \<Rightarrow> pyval" where
  "deployment_observed target deployment metadata uid rv n =
     (case n of (g, og, d, r, a) \<Rightarrow> PDict
       [(''api_version'', dget deployment ''apiVersion''), (''kind'', dget deployment ''kind''),
        (''name'', dget metadata ''name''), (''namespace'', dget metadata ''namespace''),
        (''uid'', PStr uid), (''resource_version'', PStr rv),
        (''prepared_target_uid'', opt_text (ot_uid target)),
        (''prepared_target_resource_version'', opt_text (ot_resource_version target)),
        (''generation'', PInt g), (''observed_generation'', PInt og), (''desired_replicas'', PInt d),
        (''ready_replicas'', PInt r), (''available_replicas'', PInt a)])"

definition replicas_outcome ::
  "op_target \<Rightarrow> pyval \<Rightarrow> int \<times> int \<times> int \<times> int \<times> int \<Rightarrow> deployment_outcome" where
  "replicas_outcome target observed n =
     (case n of (g, og, d, r, a) \<Rightarrow>
       if og < g
       then (mk_check deployment_name (target_text target) False
               (''Deployment status is stale: observedGeneration '' @ int_str og @ '' is below generation '' @ int_str g)
               (PDict [(''generation'', PInt g), (''observed_generation'', PInt og)]), Some d, None)
       else if d = 0
       then (mk_check deployment_name (target_text target) False
               ''Deployment desired replicas must be greater than zero'' observed, Some d, Some False)
       else if r < d \<or> a < d
       then (mk_check deployment_name (target_text target) False
               (''Deployment is not fully ready: ready '' @ int_str r @ ''/'' @ int_str d @ '', available '' @
                int_str a @ ''/'' @ int_str d) observed, Some d, Some False)
       else (mk_check deployment_name (target_text target) True
               (''Current Deployment generation '' @ int_str og @ '' has '' @ int_str r @ ''/'' @ int_str d @
                '' ready and '' @ int_str a @ ''/'' @ int_str d @ '' available replicas'') observed,
             Some d, Some True))"

definition exact_deployment :: "op_target \<Rightarrow> pydict \<Rightarrow> deployment_outcome" where
  "exact_deployment target deployment =
     (case (dget deployment ''metadata'', dget deployment ''spec'', dget deployment ''status'') of
        (PDict metadata, PDict spec, PDict status) \<Rightarrow>
          if dget deployment ''kind'' \<noteq> PStr ''Deployment''
          then (unsettled deployment_name target ''Exact target object was not a complete Deployment status'', None, None)
          else (case (clean_text (dget metadata ''uid''), clean_text (dget metadata ''resourceVersion'')) of
            (Some uid, Some rv) \<Rightarrow>
              if ot_uid target \<noteq> None \<and> ot_uid target \<noteq> Some uid
              then (mk_check deployment_name (target_text target) False
                      ''Current Deployment UID does not match the prepared action target''
                      (PDict [(''prepared_target_uid'', opt_text (ot_uid target)),
                              (''prepared_target_resource_version'', opt_text (ot_resource_version target)),
                              (''current_deployment_uid'', PStr uid), (''current_resource_version'', PStr rv)]),
                    count_field (dget spec ''replicas''), None)
              else (case deployment_numbers metadata spec status of
                 None \<Rightarrow> (unsettled deployment_name target
                            ''Deployment generation or replica counts were missing or malformed'', None, None)
               | Some n \<Rightarrow> replicas_outcome target (deployment_observed target deployment metadata uid rv n) n)
          | _ \<Rightarrow> (unsettled deployment_name target
                    ''Current Deployment UID or resourceVersion was missing or malformed'', None, None))
      | _ \<Rightarrow> (unsettled deployment_name target ''Exact target object was not a complete Deployment status'', None, None))"

text \<open>The first item without a clean namespace.\<close>

fun unplaced :: "nat \<Rightarrow> pydict list \<Rightarrow> nat option" where
  "unplaced n [] = None"
| "unplaced n (item # items) =
     (if clean_text (dget (as_dict (dget item ''metadata'')) ''namespace'') = None then Some n
      else unplaced (n + 1) items)"

definition is_target_item :: "op_target \<Rightarrow> pydict \<Rightarrow> bool" where
  "is_target_item target item \<longleftrightarrow>
     item_name item = PStr (ot_deployment target) \<and>
     dget (as_dict (dget item ''metadata'')) ''namespace'' = PStr (ot_namespace target)"

definition listed_deployment :: "op_target \<Rightarrow> pydict list \<Rightarrow> deployment_outcome" where
  "listed_deployment target items =
     (case unplaced 0 items of
        Some n \<Rightarrow> (unsettled deployment_name target
          (''Deployment response item '' @ int_str (int n) @ '' did not identify its namespace''), None, None)
      | None \<Rightarrow>
          (case filter (is_target_item target) items of
             [] \<Rightarrow> (unsettled deployment_name target (''Deployment '' @ target_text target @ '' was not present''),
                     None, Some False)
           | [deployment] \<Rightarrow> exact_deployment target deployment
           | _ \<Rightarrow> (unsettled deployment_name target
                     ''Deployment response contained multiple exact target objects'', None, None)))"

definition query_deployment :: "op_cluster \<Rightarrow> op_target \<Rightarrow> py_exn + pyval" where
  "query_deployment oc target =
     (if ot_uid target \<noteq> None then oc_bound oc target
      else oc_kubectl oc (''deployment/'' @ ot_deployment target) (ot_namespace target))"

definition verify_operational_deployment ::
  "(string \<Rightarrow> pyval option) \<Rightarrow> vfmt \<Rightarrow> op_cluster \<Rightarrow> op_target \<Rightarrow> deployment_outcome" where
  "verify_operational_deployment loads vf oc target =
     (case query_deployment oc target of
        Inl e \<Rightarrow> (unsettled deployment_name target
          (''Failed to query current Deployment status ('' @ vf_exn_type vf e @ '')''), None, None)
      | Inr response \<Rightarrow>
          if \<not> succeeded response
          then (unsettled deployment_name target (''Failed to query current Deployment status: '' @
                  query_error vf response [''error'', ''stderr''] ''kubectl_query_failed''), None, None)
          else (case parse_kubernetes_items loads (Some ''apps/v1'') (Some ''DeploymentList'')
                       (Some ''Deployment'') response of
             Inl err \<Rightarrow> (unsettled deployment_name target
               (''Could not establish current Deployment status: '' @ err), None, None)
           | Inr items \<Rightarrow> listed_deployment target items))"

section \<open>Replica metrics\<close>

definition MAX_SAMPLE_AGE :: rat where "MAX_SAMPLE_AGE = 60"

definition quoted :: "string \<Rightarrow> string" where
  "quoted s = CHR 0x22 # s @ [CHR 0x22]"

definition metric_selector :: "string \<Rightarrow> op_target \<Rightarrow> string" where
  "metric_selector metric target =
     metric @ ''{namespace='' @ quoted (ot_namespace target) @ '',deployment='' @
     quoted (ot_deployment target) @ ''}''"

definition age_expression :: "string \<Rightarrow> op_target \<Rightarrow> string" where
  "age_expression metric target = ''time() - timestamp('' @ metric_selector metric target @ '')''"

definition fresh_series :: "string \<Rightarrow> string \<Rightarrow> string" where
  "fresh_series series age =
     ''max by (namespace, deployment) ('' @ series @ '' and ('' @ age @ '' >= 0) and ('' @ age @ '' <= 60))''"

definition operational_metric_query :: "string \<Rightarrow> op_target \<Rightarrow> string" where
  "operational_metric_query metric target =
     fresh_series (metric_selector metric target) (age_expression metric target)"

definition operational_sample_age_query :: "string \<Rightarrow> op_target \<Rightarrow> string" where
  "operational_sample_age_query metric target =
     fresh_series (age_expression metric target) (age_expression metric target)"

text \<open>\<open>float(v)\<close> of a sample entry: text is parsed, booleans were refused before.\<close>

definition finite_sample :: "(string \<Rightarrow> pyfloat option) \<Rightarrow> string \<Rightarrow> pyval \<Rightarrow> pyval \<Rightarrow> string + (rat \<times> rat)" where
  "finite_sample pf query_name ts v =
     (case (sample_float pf ts, sample_float pf v) of
        (Some (FFin t), Some (FFin x)) \<Rightarrow> Inr (t, x)
      | (Some _, Some _) \<Rightarrow> Inl (''Prometheus '' @ query_name @ '' sample was nonfinite'')
      | _ \<Rightarrow> Inl (''Prometheus '' @ query_name @ '' sample was not numeric''))"

definition series_sample ::
  "(string \<Rightarrow> pyfloat option) \<Rightarrow> op_target \<Rightarrow> string \<Rightarrow> pyval \<Rightarrow> string + (rat \<times> rat)" where
  "series_sample pf target query_name series =
     (case dget (as_dict series) ''metric'' of
        PDict labels \<Rightarrow>
          if fst ` set labels \<noteq> {''namespace'', ''deployment''}
             \<or> dget labels ''namespace'' \<noteq> PStr (ot_namespace target)
             \<or> dget labels ''deployment'' \<noteq> PStr (ot_deployment target)
          then Inl (''Prometheus '' @ query_name @ '' series did not match the exact deployment labels'')
          else (case dget (as_dict series) ''value'' of
            PList [ts, v] \<Rightarrow>
              if is_bool ts \<or> is_bool v then Inl (''Prometheus '' @ query_name @ '' sample was malformed'')
              else finite_sample pf query_name ts v
          | _ \<Rightarrow> Inl (''Prometheus '' @ query_name @ '' sample was malformed''))
      | _ \<Rightarrow> Inl (''Prometheus '' @ query_name @ '' series did not match the exact deployment labels''))"

definition read_series_sample ::
  "(string \<Rightarrow> pyfloat option) \<Rightarrow> vfmt \<Rightarrow> op_target \<Rightarrow> string \<Rightarrow> pyval \<Rightarrow> string + (rat \<times> rat)" where
  "read_series_sample pf vf target query_name response =
     (if \<not> succeeded response
      then Inl (''Prometheus '' @ query_name @ '' query failed: '' @
                query_error vf response [''error''] ''promql_query_failed'')
      else if dget (as_dict response) ''resultType'' \<noteq> PStr ''vector''
      then Inl (''Prometheus '' @ query_name @ '' query returned a non-vector response'')
      else case dget (as_dict response) ''result'' of
        PList [series] \<Rightarrow> series_sample pf target query_name series
      | _ \<Rightarrow> Inl (''Prometheus '' @ query_name @ '' query did not return exactly one target series''))"

definition is_integral :: "rat \<Rightarrow> bool" where
  "is_integral x \<longleftrightarrow> of_int (floor x) = x"

text \<open>The checks on the value, its evaluation time, the source age and the observation time.\<close>

definition sample_problem :: "rat \<Rightarrow> rat \<Rightarrow> rat \<Rightarrow> rat \<Rightarrow> time \<Rightarrow> string option" where
  "sample_problem evaluated value age_evaluated age observed =
     (if \<bar>evaluated - age_evaluated\<bar> > 1 / 1000
      then Some ''Prometheus value and source-age queries used different evaluation times''
      else if value < 0 \<or> \<not> is_integral value
      then Some ''Prometheus series value was not a non-negative integer replica count''
      else if age < 0 \<or> age > MAX_SAMPLE_AGE
      then Some ''Prometheus source sample age was outside the permitted window''
      else
        let response_age = observed - age_evaluated; age_now = age + response_age in
        if response_age < 0 \<or> response_age > MAX_SAMPLE_AGE \<or> age_now < 0 \<or> age_now > MAX_SAMPLE_AGE
        then Some ''Prometheus observation or source sample was stale or from the future''
        else None)"

definition metric_check ::
  "vfmt \<Rightarrow> string \<Rightarrow> op_target \<Rightarrow> rat \<times> rat \<Rightarrow> rat \<times> rat \<Rightarrow> time \<Rightarrow> string + check" where
  "metric_check vf metric target value_sample age_sample observed =
     (case (value_sample, age_sample) of ((evaluated, value), (age_evaluated, age)) \<Rightarrow>
       (case sample_problem evaluated value age_evaluated age observed of
          Some why \<Rightarrow> Inl why
        | None \<Rightarrow>
            let age_now = age + (observed - age_evaluated) in
            Inr (mk_check (''operational_metric_'' @ metric @ ''_fresh'') (target_text target) True
              (''One replica-count series had source age '' @ vf_fixed3 vf age_now @
               ''s at observation; maximum 60s'')
              (PDict [(''value'', PFloat (FFin value)), (''evaluation_timestamp'', PFloat (FFin evaluated)),
                (''source_sample_timestamp'', PFloat (FFin (age_evaluated - age))),
                (''source_sample_age_at_evaluation_seconds'', PFloat (FFin age)),
                (''source_sample_age_at_observation_seconds'', PFloat (FFin age_now)),
                (''observed_at'', PFloat (FFin observed)), (''max_sample_age_seconds'', PInt 60),
                (''query'', PStr (operational_metric_query metric target)),
                (''sample_age_query'', PStr (operational_sample_age_query metric target))]))))"

text \<open>Both queries run before either answer is read; \<open>asked\<close> and \<open>observed\<close> are the clock readings.\<close>

definition operational_samples ::
  "(string \<Rightarrow> pyfloat option) \<Rightarrow> vfmt \<Rightarrow> op_cluster \<Rightarrow> string \<Rightarrow> op_target \<Rightarrow> time \<Rightarrow>
   string + ((rat \<times> rat) \<times> (rat \<times> rat))" where
  "operational_samples pf vf oc metric target asked =
     (case oc_promql oc (operational_metric_query metric target) asked of
        Inl e \<Rightarrow> Inl (''Prometheus query failed: '' @ vf_exn vf e)
      | Inr response \<Rightarrow>
          (case oc_promql oc (operational_sample_age_query metric target) asked of
             Inl e \<Rightarrow> Inl (''Prometheus query failed: '' @ vf_exn vf e)
           | Inr age_response \<Rightarrow>
               rbind (read_series_sample pf vf target ''replica-count'' response) (\<lambda>value_sample.
               rbind (read_series_sample pf vf target ''source-age'' age_response) (\<lambda>age_sample.
                 Inr (value_sample, age_sample)))))"

definition verify_operational_metric ::
  "(string \<Rightarrow> pyfloat option) \<Rightarrow> vfmt \<Rightarrow> op_cluster \<Rightarrow> string \<Rightarrow> op_target \<Rightarrow> time \<Rightarrow> time \<Rightarrow>
   check \<times> rat option" where
  "verify_operational_metric pf vf oc metric target asked observed =
     (case rbind (operational_samples pf vf oc metric target asked) (\<lambda>(value_sample, age_sample).
             rbind (metric_check vf metric target value_sample age_sample observed) (\<lambda>c.
               Inr (c, snd value_sample))) of
        Inl why \<Rightarrow>
          (mk_check (''operational_metric_'' @ metric @ ''_fresh'') (target_text target) False why
             (PDict [(''query'', PStr (operational_metric_query metric target)),
                     (''sample_age_query'', PStr (operational_sample_age_query metric target))]), None)
      | Inr (c, value) \<Rightarrow> (c, Some value))"

section \<open>The alert\<close>

datatype alert_scope = Elsewhere | Unscoped | OtherTarget string | Matching string

definition alert_scope_of :: "op_target \<Rightarrow> pyval \<Rightarrow> alert_scope" where
  "alert_scope_of target alert =
     (case clean_text (dget (as_dict alert) ''alertname'') of
        None \<Rightarrow> Unscoped
      | Some name \<Rightarrow>
          if name \<noteq> OPERATIONAL_AVAILABILITY_ALERT then Elsewhere
          else (case (clean_text (dget (as_dict alert) ''namespace''),
                      clean_text (dget (as_dict alert) ''deployment'')) of
            (Some ns, Some deployment) \<Rightarrow>
              if ns \<noteq> ot_namespace target \<or> deployment \<notin> ONLINE_BOUTIQUE_SERVICES then Unscoped
              else if deployment = ot_deployment target then Matching deployment
              else OtherTarget (ns @ ''/'' @ deployment)
          | _ \<Rightarrow> Unscoped))"

fun scan_alerts :: "op_target \<Rightarrow> bool \<Rightarrow> string list \<Rightarrow> pyval list \<Rightarrow> (bool \<times> string list) option" where
  "scan_alerts target unknown others [] = Some (unknown, others)"
| "scan_alerts target unknown others (alert # alerts) =
     (case alert_scope_of target alert of
        Elsewhere \<Rightarrow> scan_alerts target unknown others alerts
      | Unscoped \<Rightarrow> scan_alerts target True others alerts
      | OtherTarget t \<Rightarrow> scan_alerts target unknown (others @ [t]) alerts
      | Matching _ \<Rightarrow> None)"

definition alert_name_check :: string where "alert_name_check = ''operational_alert_cleared''"

definition scanned_alerts :: "op_target \<Rightarrow> pyval list \<Rightarrow> check \<times> bool option" where
  "scanned_alerts target alerts =
     (case scan_alerts target False [] alerts of
        None \<Rightarrow>
          (mk_check alert_name_check (target_text target) False
             ''Matching operational availability alert is still present in the active Alertmanager response''
             (PDict [(''alertname'', PStr OPERATIONAL_AVAILABILITY_ALERT),
                     (''namespace'', PStr (ot_namespace target)),
                     (''deployment'', PStr (ot_deployment target))]), Some False)
      | Some (True, _) \<Rightarrow>
          (unsettled alert_name_check target
             ''Alertmanager returned an alert that could not be scoped to a deployment'', None)
      | Some (False, others) \<Rightarrow>
          (mk_check alert_name_check (target_text target) True
             ''No matching operational availability alert is active for the target''
             (PDict [(''cleared_alertname'', PStr OPERATIONAL_AVAILABILITY_ALERT),
                     (''ignored_other_targets'', PList (map PStr others))]), Some True))"

definition verify_operational_alert_cleared :: "vfmt \<Rightarrow> op_cluster \<Rightarrow> op_target \<Rightarrow> check \<times> bool option" where
  "verify_operational_alert_cleared vf oc target =
     (case oc_alerts oc of
        Inl e \<Rightarrow> (unsettled alert_name_check target (''Failed to query Alertmanager: '' @ vf_exn vf e), None)
      | Inr response \<Rightarrow>
          if \<not> succeeded response
          then (unsettled alert_name_check target (''Failed to query Alertmanager: '' @
                  query_error vf response [''error''] ''alertmanager_query_failed''), None)
          else (case dget (as_dict response) ''alerts'' of
             PList alerts \<Rightarrow> scanned_alerts target alerts
           | _ \<Rightarrow> (unsettled alert_name_check target
                     ''Alertmanager did not return a valid active alert list'', None)))"

section \<open>The verdict\<close>

definition op_mode :: "pydict option \<Rightarrow> bool" where
  "op_mode ctx \<longleftrightarrow> (case ctx of Some c \<Rightarrow> dget c ''operational_mode'' = PBool True | None \<Rightarrow> False)"

text \<open>The target: from the alert's labels, and in operational mode the prepared action's as well.\<close>

definition operational_target :: "string option \<Rightarrow> pydict option \<Rightarrow> pydict option \<Rightarrow> string + op_target" where
  "operational_target env alert ctx =
     rbind (configured_operational_namespace env) (\<lambda>workload_ns.
     rbind (resolve_operational_target (case alert of None \<Rightarrow> [] | Some a \<Rightarrow> a) workload_ns) (\<lambda>target.
       if \<not> op_mode ctx then Inr target
       else rbind (resolve_operational_context_target (case ctx of None \<Rightarrow> [] | Some c \<Rightarrow> c) workload_ns) (\<lambda>bound.
         if ot_namespace bound \<noteq> ot_namespace target \<or> ot_deployment bound \<noteq> ot_deployment target
         then Inl ''selected action target conflicts with alert labels'' else Inr bound)))"

definition metric_state ::
  "vfmt \<Rightarrow> rat option \<Rightarrow> rat option \<Rightarrow> int option \<Rightarrow> bool option \<times> string" where
  "metric_state vf desired available api_desired =
     (case (desired, available, api_desired) of
        (Some d, Some a, Some n) \<Rightarrow>
          if d \<noteq> of_int n
          then (None, ''Prometheus desired replicas '' @ vf_general vf d @
                  '' do not match the current Deployment spec '' @ int_str n)
          else if d \<le> 0
          then (Some False, ''Prometheus desired replicas must be greater than zero, got '' @ vf_general vf d)
          else if a < d
          then (Some False, ''Prometheus available replicas '' @ vf_general vf a @
                  '' are below desired replicas '' @ vf_general vf d)
          else (Some True, ''Prometheus reports '' @ vf_general vf a @ '' available of '' @
                  vf_general vf d @ '' desired replicas'')
      | _ \<Rightarrow> (None, ''Fresh desired and availability samples were not both established''))"

definition opt_float :: "rat option \<Rightarrow> pyval" where
  "opt_float x = (case x of None \<Rightarrow> PNone | Some r \<Rightarrow> PFloat (FFin r))"

definition opt_int :: "int option \<Rightarrow> pyval" where
  "opt_int x = (case x of None \<Rightarrow> PNone | Some i \<Rightarrow> PInt i)"

definition states_status :: "bool option list \<Rightarrow> string" where
  "states_status states =
     (if list_all (\<lambda>s. s = Some True) states then ''passed''
      else if list_ex (\<lambda>s. s = Some False) states then ''failed''
      else ''inconclusive'')"

definition operational_verdict :: "bool \<Rightarrow> check list \<Rightarrow> bool option list \<Rightarrow> pydict \<Rightarrow> verdict" where
  "operational_verdict claimed checks states metrics =
     (let status = states_status states; resolved = (status = ''passed'') in
      \<lparr>vd_id = '''', vd_claimed = claimed, vd_resolved = resolved, vd_status = status, vd_checks = checks,
       vd_failed = failed_names checks, vd_metrics = metrics,
       vd_evidence = map (\<lambda>c. (if ck_passed c then ''Operational check'' else ''FAILED operational check'')
                             @ '' '' @ ck_name c @ '': '' @ ck_details c) checks,
       vd_false_resolution = (claimed \<and> \<not> resolved), vd_false_negative = (\<not> claimed \<and> resolved),
       vd_error = (if status = ''inconclusive'' then Some ''operational_telemetry_inconclusive'' else None)\<rparr>)"

definition verify_operational_target ::
  "(string \<Rightarrow> pyval option) \<Rightarrow> (string \<Rightarrow> pyfloat option) \<Rightarrow> vfmt \<Rightarrow> op_cluster \<Rightarrow> (nat \<Rightarrow> time) \<Rightarrow>
   bool \<Rightarrow> op_target \<Rightarrow> verdict" where
  "verify_operational_target loads pf vf oc clock claimed target =
     (case verify_operational_deployment loads vf oc target of (current_check, api_desired, deployment_state) \<Rightarrow>
      case verify_operational_metric pf vf oc ''kube_deployment_spec_replicas'' target (clock 0) (clock 1) of
        (desired_check, desired) \<Rightarrow>
      case verify_operational_metric pf vf oc ''kube_deployment_status_replicas_available'' target (clock 2) (clock 3) of
        (available_check, available) \<Rightarrow>
      case metric_state vf desired available api_desired of (m_state, m_details) \<Rightarrow>
      case verify_operational_alert_cleared vf oc target of (alert_check, alert_state) \<Rightarrow>
        let metrics_check = mk_check ''operational_kube_state_metrics_recovered'' (target_text target)
              (m_state = Some True) m_details
              (PDict [(''deployment_spec_replicas'', opt_float desired),
                      (''deployment_status_replicas_available'', opt_float available),
                      (''api_spec_replicas'', opt_int api_desired)]);
            metrics = (case desired of None \<Rightarrow> [] | Some d \<Rightarrow> [(''kube_deployment_spec_replicas'', PFloat (FFin d))]) @
              (case available of None \<Rightarrow> []
               | Some a \<Rightarrow> [(''kube_deployment_status_replicas_available'', PFloat (FFin a))])
        in operational_verdict claimed
             [current_check, desired_check, available_check, metrics_check, alert_check]
             [deployment_state, m_state, alert_state] metrics)"

definition verify_operational_availability ::
  "(string \<Rightarrow> pyval option) \<Rightarrow> (string \<Rightarrow> pyfloat option) \<Rightarrow> vfmt \<Rightarrow> op_cluster \<Rightarrow> (nat \<Rightarrow> time) \<Rightarrow>
   string option \<Rightarrow> pydict option \<Rightarrow> bool \<Rightarrow> pydict option \<Rightarrow> verdict" where
  "verify_operational_availability loads pf vf oc clock env alert claimed ctx =
     (case operational_target env alert ctx of
        Inl why \<Rightarrow>
          error_verdict '''' claimed (failing ''operational_target_resolution'' ''alert'' why)
            [''FAILED Operational target: '' @ why] ''operational_target_unresolved''
      | Inr target \<Rightarrow> verify_operational_target loads pf vf oc clock claimed target)"

text \<open>\<open>EnvironmentVerifier.verify\<close>.\<close>

definition verify ::
  "(string \<Rightarrow> pyval option) \<Rightarrow> (string \<Rightarrow> pyfloat option) \<Rightarrow> vfmt \<Rightarrow> telemetry \<Rightarrow> op_cluster \<Rightarrow>
   (nat \<Rightarrow> time) \<Rightarrow> string option \<Rightarrow> string \<Rightarrow> bool \<Rightarrow> pydict option \<Rightarrow> pydict option \<Rightarrow> py_exn + verdict" where
  "verify loads pf vf tel oc clock env scenario_id claimed alert ctx =
     (if py_strip scenario_id = [] \<and> has_operational_availability_alert alert
      then Inr (verify_operational_availability loads pf vf oc clock env alert claimed ctx)
      else if py_strip scenario_id = [] \<and> op_mode ctx
      then (let details = ''No supported operational verification policy matched the alert'' in
            Inr (error_verdict '''' claimed (failing ''operational_policy_resolution'' ''alert'' details)
                   [''FAILED Operational policy: '' @ details] ''unknown_operational_policy''))
      else verify_scenario loads pf vf tel scenario_id claimed alert)"

section \<open>What a recovered incident showed\<close>

text \<open>One exact Deployment, of the prepared uid, observed at its current generation, fully ready.\<close>

definition deployment_shown_ready ::
  "(string \<Rightarrow> pyval option) \<Rightarrow> op_cluster \<Rightarrow> op_target \<Rightarrow> int \<Rightarrow> bool" where
  "deployment_shown_ready loads oc target desired \<longleftrightarrow>
     (\<exists>response items deployment metadata spec status g og r a.
        query_deployment oc target = Inr response \<and>
        parse_kubernetes_items loads (Some ''apps/v1'') (Some ''DeploymentList'') (Some ''Deployment'') response
          = Inr items \<and>
        filter (is_target_item target) items = [deployment] \<and>
        dget deployment ''metadata'' = PDict metadata \<and> dget deployment ''spec'' = PDict spec \<and>
        dget deployment ''status'' = PDict status \<and>
        (\<forall>uid. ot_uid target = Some uid \<longrightarrow> dget metadata ''uid'' = PStr uid) \<and>
        deployment_numbers metadata spec status = Some (g, og, desired, r, a) \<and>
        g \<le> og \<and> 0 < desired \<and> desired \<le> r \<and> desired \<le> a)"

text \<open>A sample of the metric whose source is at most a minute old when it is used.\<close>

definition sample_shown_fresh ::
  "(string \<Rightarrow> pyfloat option) \<Rightarrow> vfmt \<Rightarrow> op_cluster \<Rightarrow> string \<Rightarrow> op_target \<Rightarrow> time \<Rightarrow> time \<Rightarrow> rat \<Rightarrow> bool" where
  "sample_shown_fresh pf vf oc metric target asked observed x \<longleftrightarrow>
     (\<exists>evaluated age_evaluated age.
        operational_samples pf vf oc metric target asked = Inr ((evaluated, x), (age_evaluated, age)) \<and>
        0 \<le> observed - (age_evaluated - age) \<and> observed - (age_evaluated - age) \<le> MAX_SAMPLE_AGE \<and>
        0 \<le> x \<and> is_integral x)"

text \<open>Every active alert is about something else, or about another known target.\<close>

definition alerts_shown_clear :: "op_cluster \<Rightarrow> op_target \<Rightarrow> bool" where
  "alerts_shown_clear oc target \<longleftrightarrow>
     (\<exists>response alerts. oc_alerts oc = Inr response \<and> succeeded response \<and>
        dget (as_dict response) ''alerts'' = PList alerts \<and>
        (\<forall>alert \<in> set alerts. alert_scope_of target alert = Elsewhere \<or>
           (\<exists>t. alert_scope_of target alert = OtherTarget t)))"

lemma count_field_nonneg: "count_field v = Some i \<Longrightarrow> 0 \<le> i"
  by (cases v) (auto split: if_splits)

lemma deployment_numbers_nonneg:
  "deployment_numbers metadata spec status = Some (g, og, d, r, a) \<Longrightarrow> 0 \<le> d"
  by (auto simp: deployment_numbers_def split: option.splits dest: count_field_nonneg)

lemma replicas_outcome_True:
  "replicas_outcome target observed (g, og, d, r, a) = (c, n, Some True) \<Longrightarrow> 0 \<le> d \<Longrightarrow>
   n = Some d \<and> g \<le> og \<and> 0 < d \<and> d \<le> r \<and> d \<le> a"
  by (auto simp: replicas_outcome_def split: if_splits)

lemma exact_deployment_True:
  assumes "exact_deployment target deployment = (c, n, Some True)"
  obtains metadata spec status g og d r a where "dget deployment ''metadata'' = PDict metadata"
    and "dget deployment ''spec'' = PDict spec" and "dget deployment ''status'' = PDict status"
    and "\<forall>uid. ot_uid target = Some uid \<longrightarrow> dget metadata ''uid'' = PStr uid"
    and "deployment_numbers metadata spec status = Some (g, og, d, r, a)"
    and "n = Some d" and "g \<le> og" and "0 < d" and "d \<le> r" and "d \<le> a"
proof -
  from assms obtain metadata spec status where parts: "dget deployment ''metadata'' = PDict metadata"
    "dget deployment ''spec'' = PDict spec" "dget deployment ''status'' = PDict status"
    by (auto simp: exact_deployment_def split: pyval.splits)
  with assms obtain uid rv where texts: "clean_text (dget metadata ''uid'') = Some uid"
      "clean_text (dget metadata ''resourceVersion'') = Some rv"
    by (auto simp: exact_deployment_def split: if_splits option.splits)
  with assms parts obtain numbers where uid: "ot_uid target = None \<or> ot_uid target = Some uid"
      and numbers: "deployment_numbers metadata spec status = Some numbers"
      and outcome: "replicas_outcome target (deployment_observed target deployment metadata uid rv numbers) numbers
        = (c, n, Some True)"
    by (auto simp: exact_deployment_def split: if_splits option.splits)
  obtain g og d r a where n5: "numbers = (g, og, d, r, a)" by (cases numbers)
  from outcome numbers have "n = Some d \<and> g \<le> og \<and> 0 < d \<and> d \<le> r \<and> d \<le> a"
    unfolding n5 by (intro replicas_outcome_True deployment_numbers_nonneg)
  with that parts uid texts(1) numbers n5 show thesis by (auto simp: clean_text_Some)
qed

lemma listed_deployment_True:
  assumes "listed_deployment target items = (c, n, Some True)"
  obtains deployment where "filter (is_target_item target) items = [deployment]"
    and "exact_deployment target deployment = (c, n, Some True)"
  using assms by (auto simp: listed_deployment_def split: option.splits list.splits)

lemma verify_operational_deployment_True:
  assumes "verify_operational_deployment loads vf oc target = (c, n, Some True)"
  shows "\<exists>d. n = Some d \<and> deployment_shown_ready loads oc target d"
proof -
  from assms obtain response items where seen: "query_deployment oc target = Inr response"
      "parse_kubernetes_items loads (Some ''apps/v1'') (Some ''DeploymentList'') (Some ''Deployment'') response
        = Inr items" and "listed_deployment target items = (c, n, Some True)"
    by (auto simp: verify_operational_deployment_def split: sum.splits if_splits)
  from this(3) obtain deployment where one: "filter (is_target_item target) items = [deployment]"
    and "exact_deployment target deployment = (c, n, Some True)" by (rule listed_deployment_True)
  from this(2) show ?thesis
    by (rule exact_deployment_True) (use seen one in \<open>auto simp: deployment_shown_ready_def\<close>)
qed

lemma sample_problem_None:
  assumes "sample_problem evaluated x age_evaluated age observed = None"
  shows "0 \<le> observed - (age_evaluated - age)" and "observed - (age_evaluated - age) \<le> MAX_SAMPLE_AGE"
    and "0 \<le> x" and "is_integral x"
  using assms by (auto simp: sample_problem_def Let_def split: if_splits)

lemma verify_operational_metric_Some:
  assumes "verify_operational_metric pf vf oc metric target asked observed = (c, Some x)"
  shows "sample_shown_fresh pf vf oc metric target asked observed x"
proof -
  from assms obtain evaluated y age_evaluated age where
      samples: "operational_samples pf vf oc metric target asked = Inr ((evaluated, y), (age_evaluated, age))"
      and "metric_check vf metric target (evaluated, y) (age_evaluated, age) observed = Inr c" and "y = x"
    by (auto simp: verify_operational_metric_def rbind_eq_Inr split: sum.splits)
  then have "sample_problem evaluated x age_evaluated age observed = None"
    by (auto simp: metric_check_def Let_def split: option.splits)
  with sample_problem_None [OF this] samples \<open>y = x\<close> show ?thesis
    by (auto simp: sample_shown_fresh_def)
qed

lemma scan_alerts_clear:
  "scan_alerts target unknown others alerts = Some (False, found) \<Longrightarrow>
   \<not> unknown \<and> (\<forall>alert \<in> set alerts. alert_scope_of target alert = Elsewhere \<or>
     (\<exists>t. alert_scope_of target alert = OtherTarget t))"
  by (induction alerts arbitrary: unknown others) (auto split: alert_scope.splits)

lemma verify_operational_alert_True:
  assumes "verify_operational_alert_cleared vf oc target = (c, Some True)"
  shows "alerts_shown_clear oc target"
proof -
  from assms obtain response alerts where "oc_alerts oc = Inr response" "succeeded response"
      "dget (as_dict response) ''alerts'' = PList alerts" and scanned: "scanned_alerts target alerts = (c, Some True)"
    by (auto simp: verify_operational_alert_cleared_def split: sum.splits if_splits pyval.splits)
  moreover from scanned obtain found where "scan_alerts target False [] alerts = Some (False, found)"
    by (auto simp: scanned_alerts_def split: option.splits prod.splits bool.splits)
  ultimately show ?thesis by (auto simp: alerts_shown_clear_def dest: scan_alerts_clear)
qed

lemma metric_state_True:
  "metric_state vf desired available api = (Some True, details) \<Longrightarrow>
   \<exists>d a n. desired = Some d \<and> available = Some a \<and> api = Some n \<and> d = of_int n \<and> 0 < d \<and> d \<le> a"
  by (auto simp: metric_state_def split: option.splits if_splits)

section \<open>The target that is verified\<close>

lemma agreed_target_ok:
  assumes "agreed_target workload_ns targets namespaces = Inr target"
  shows "ot_namespace target = workload_ns \<and> ot_uid target = None \<and> Some (ot_deployment target) \<in> set targets"
proof -
  from assms obtain deployment where "explicit_names targets = [deployment]"
    by (auto simp: agreed_target_def split: list.splits)
  moreover from this have "deployment \<in> set (explicit_names targets)" by simp
  then have "Some deployment \<in> set targets"
    by (auto simp: explicit_names_def split: option.splits)
  ultimately show ?thesis using assms
    by (auto simp: agreed_target_def alert_target_def split: list.splits if_splits)
qed

lemma source_targets_known: "source_targets labels keys = Inr found \<Longrightarrow> set found \<subseteq> ONLINE_BOUTIQUE_SERVICES"
proof (induction keys arbitrary: found)
  case Nil
  then show ?case by simp
next
  case (Cons key keys)
  then obtain label where "read_label labels key = Inr label" by (auto simp: rbind_eq_Inr)
  with Cons show ?case by (cases label) (auto simp: rbind_eq_Inr split: if_splits)
qed

lemma label_target_known:
  "label_target labels = Inr (Some s, ns) \<Longrightarrow> s \<in> ONLINE_BOUTIQUE_SERVICES"
  by (auto simp: label_target_def rbind_eq_Inr split: if_splits dest!: source_targets_known)

lemma resolve_operational_target_ok:
  assumes "resolve_operational_target alert workload_ns = Inr target"
  shows "ot_namespace target = workload_ns \<and> ot_uid target = None \<and> ot_deployment target \<in> ONLINE_BOUTIQUE_SERVICES"
proof -
  from assms obtain labels found where found: "map_result label_target labels = Inr found"
      and agreed: "agreed_target workload_ns (map fst found) (map snd found) = Inr target"
    by (auto simp: resolve_operational_target_def rbind_eq_Inr simp del: map_result.simps
        split: pyval.splits if_splits)
  from agreed_target_ok [OF agreed] have ok: "ot_namespace target = workload_ns" "ot_uid target = None"
    and "Some (ot_deployment target) \<in> set (map fst found)" by simp_all
  then obtain ns where "(Some (ot_deployment target), ns) \<in> set found" by auto
  with map_result_from [OF found] obtain l where "label_target l = Inr (Some (ot_deployment target), ns)"
    by blast
  with ok label_target_known show ?thesis by blast
qed

section \<open>Properties\<close>

text \<open>
  C14. An operational verdict \<open>resolved\<close> rests on fresh evidence about one Deployment: it is listed exactly
  once, with the uid the action was prepared for, observed at its current generation and fully ready;
  both replica metrics have samples at most a minute old, the desired count equals the Deployment's and
  enough replicas are available; and no active alert is about the target or cannot be placed.
\<close>

theorem operational_resolved_is_fresh_recovery:
  assumes "vd_resolved (verify_operational_availability loads pf vf oc clock env alert claimed ctx)"
  shows "\<exists>target desired available. operational_target env alert ctx = Inr target \<and>
    deployment_shown_ready loads oc target desired \<and>
    sample_shown_fresh pf vf oc ''kube_deployment_spec_replicas'' target (clock 0) (clock 1) (of_int desired) \<and>
    sample_shown_fresh pf vf oc ''kube_deployment_status_replicas_available'' target (clock 2) (clock 3) available \<and>
    of_int desired \<le> available \<and> alerts_shown_clear oc target"
proof -
  from assms obtain target where target: "operational_target env alert ctx = Inr target"
      and resolved: "vd_resolved (verify_operational_target loads pf vf oc clock claimed target)"
    by (auto simp: verify_operational_availability_def error_verdict_def split: sum.splits)
  obtain dc n ds where d: "verify_operational_deployment loads vf oc target = (dc, n, ds)" by (metis prod.exhaust)
  obtain c1 x1 where m1: "verify_operational_metric pf vf oc ''kube_deployment_spec_replicas'' target (clock 0) (clock 1)
      = (c1, x1)" by fastforce
  obtain c2 x2 where m2: "verify_operational_metric pf vf oc ''kube_deployment_status_replicas_available'' target
      (clock 2) (clock 3) = (c2, x2)" by fastforce
  obtain ms md where m: "metric_state vf x1 x2 n = (ms, md)" by fastforce
  obtain ac as where a: "verify_operational_alert_cleared vf oc target = (ac, as)" by fastforce
  from resolved d m1 m2 m a have states: "ds = Some True" "ms = Some True" "as = Some True"
    by (auto simp: verify_operational_target_def operational_verdict_def states_status_def Let_def split: if_splits)
  from verify_operational_deployment_True d states(1) obtain desired where
      desired: "n = Some desired" "deployment_shown_ready loads oc target desired" by blast
  with metric_state_True [of vf x1 x2 n md] m states(2) obtain av where
      xs: "x1 = Some (of_int desired)" "x2 = Some av" "of_int desired \<le> av" by auto
  show ?thesis
    using target desired(2) xs verify_operational_metric_Some m1 m2 verify_operational_alert_True a states(3)
    by blast
qed

text \<open>
  What is verified is what was acted on: a resolved target is a known service in the configured
  namespace, and in operational mode it is the Deployment, with its uid, that the executed action was
  prepared for, which must also be the one the alert's labels name.
\<close>

theorem operational_target_is_the_prepared_one:
  assumes "operational_target env alert ctx = Inr target"
  shows "configured_operational_namespace env = Inr (ot_namespace target) \<and>
    ot_deployment target \<in> ONLINE_BOUTIQUE_SERVICES \<and>
    (\<exists>labelled. resolve_operational_target (case alert of None \<Rightarrow> [] | Some a \<Rightarrow> a) (ot_namespace target)
       = Inr labelled \<and> ot_deployment labelled = ot_deployment target) \<and>
    (if op_mode ctx
     then resolve_operational_context_target (case ctx of None \<Rightarrow> [] | Some c \<Rightarrow> c) (ot_namespace target) = Inr target
     else ot_uid target = None)"
proof -
  from assms obtain ns labelled where ns: "configured_operational_namespace env = Inr ns"
      and labelled: "resolve_operational_target (case alert of None \<Rightarrow> [] | Some a \<Rightarrow> a) ns = Inr labelled"
    by (auto simp: operational_target_def rbind_eq_Inr)
  note ok = resolve_operational_target_ok [OF labelled]
  show ?thesis
  proof (cases "op_mode ctx")
    case False
    with assms ns labelled have "target = labelled" by (simp add: operational_target_def)
    with ns labelled ok False show ?thesis by auto
  next
    case True
    with assms ns labelled have
      "resolve_operational_context_target (case ctx of None \<Rightarrow> [] | Some c \<Rightarrow> c) ns = Inr target"
      "ot_namespace target = ot_namespace labelled" "ot_deployment target = ot_deployment labelled"
      by (auto simp: operational_target_def rbind_eq_Inr split: if_splits)
    with ns labelled ok True show ?thesis by auto
  qed
qed

section \<open>Witnesses\<close>

text \<open>An incident on the cart service, prepared for the Deployment with uid \<open>u1\<close> and recovered.\<close>

definition sample_alert :: pydict where
  "sample_alert =
     [(''commonLabels'', PDict [(''alertname'', PStr OPERATIONAL_AVAILABILITY_ALERT),
         (''deployment'', PStr ''cartservice''), (''namespace'', PStr ''default'')]),
      (''alerts'', PList [PDict [(''labels'', PDict [(''severity'', PStr ''critical'')])]])]"

definition sample_context :: pydict where
  "sample_context =
     [(''operational_mode'', PBool True),
      (''action'', PDict [(''tool'', PStr ''kubectl_scale''), (''args'', PDict []),
         (''prepared_action'', PDict [(''tool'', PStr ''kubectl_scale''), (''arguments'', PDict []),
            (''target'', PDict [(''server'', PStr ''s''), (''context'', PStr ''c''), (''api_version'', PStr ''apps/v1''),
               (''kind'', PStr ''Deployment''), (''namespace'', PStr ''default''), (''name'', PStr ''cartservice''),
               (''uid'', PStr ''u1''), (''resource_version'', PStr ''7'')])])])]"

definition sample_deployment :: pydict where
  "sample_deployment =
     [(''apiVersion'', PStr ''apps/v1''), (''kind'', PStr ''Deployment''),
      (''metadata'', PDict [(''name'', PStr ''cartservice''), (''namespace'', PStr ''default''),
         (''uid'', PStr ''u1''), (''resourceVersion'', PStr ''8''), (''generation'', PInt 3)]),
      (''spec'', PDict [(''replicas'', PInt 2)]),
      (''status'', PDict [(''observedGeneration'', PInt 3), (''readyReplicas'', PInt 2), (''availableReplicas'', PInt 2)])]"

definition sample_series :: "pyval \<Rightarrow> pyval" where
  "sample_series x =
     PDict [(''success'', PBool True), (''resultType'', PStr ''vector''), (''result'', PList [PDict
       [(''metric'', PDict [(''namespace'', PStr ''default''), (''deployment'', PStr ''cartservice'')]),
        (''value'', PList [PInt 100, x])]])]"

definition sample_op_cluster :: op_cluster where
  "sample_op_cluster =
     \<lparr>oc_bound = (\<lambda>_. Inr (PDict [(''success'', PBool True), (''parsed'', PDict sample_deployment)])),
      oc_kubectl = (\<lambda>_ _. Inl RuntimeError),
      oc_promql = (\<lambda>query _. Inr (sample_series (PInt (if starts_with query ''max by (namespace, deployment) (time()''
                                                       then 5 else 2)))),
      oc_alerts = Inr (PDict [(''success'', PBool True), (''alerts'', PList [])])\<rparr>"

lemma sample_op_target: "operational_target None (Some sample_alert) (Some sample_context) =
  Inr \<lparr>ot_deployment = ''cartservice'', ot_namespace = ''default'', ot_uid = Some ''u1'', ot_server = Some ''s'',
      ot_context = Some ''c'', ot_api_version = Some ''apps/v1'', ot_kind = Some ''Deployment'',
      ot_resource_version = Some ''7''\<rparr>"
  by code_simp

theorem operational_resolved_is_fresh_recovery_witness:
  "\<exists>target desired. operational_target None (Some sample_alert) (Some sample_context) = Inr target \<and>
     ot_uid target = Some ''u1'' \<and> deployment_shown_ready (\<lambda>_. None) sample_op_cluster target desired"
proof -
  have "vd_resolved (verify_operational_availability (\<lambda>_. None) (\<lambda>_. None) sample_texts sample_op_cluster
      (\<lambda>_. 110) None (Some sample_alert) True (Some sample_context))"
    by code_simp
  from operational_resolved_is_fresh_recovery [OF this] show ?thesis
    by (auto simp: sample_op_target)
qed

theorem operational_target_is_the_prepared_one_witness:
  "resolve_operational_context_target sample_context ''default'' =
   Inr \<lparr>ot_deployment = ''cartservice'', ot_namespace = ''default'', ot_uid = Some ''u1'', ot_server = Some ''s'',
      ot_context = Some ''c'', ot_api_version = Some ''apps/v1'', ot_kind = Some ''Deployment'',
      ot_resource_version = Some ''7''\<rparr>"
proof -
  have "op_mode (Some sample_context)" by code_simp
  with operational_target_is_the_prepared_one [OF sample_op_target] show ?thesis by simp
qed

end
