(* ===== verification/Incident.thy ===== *)
theory Incident
  imports AgentRun Publication Settling OperationalVerifier
begin

text \<open>
  \<open>agents/coordinator.py\<close>, \<open>handle_incident\<close> with the agent backend: triage, diagnosis, remediation,
  verification and communication of one incident, the record that is stored, and what is reported to the
  circuit breaker and the journal, whether the chain returns or raises.

  The state \<open>incident\<close> holds the trace of effects, the shared breaker and gate, the files of stored
  incidents and the local variables that the handlers of exceptions read.  A record \<open>handling\<close> has the
  arguments, the settings and the answers of everything outside; an answer may depend on the trace so
  far.  The runs of the agents are those of \<open>AgentRun\<close>, in the worlds \<open>hd_job\<close>.  The journal is the list
  of transitions that are noted, with its answers.  Left out: interface events, log lines, metrics, the
  policy backend, the judge, the qualification run of Stage A and the ping at the end.
\<close>

section \<open>State\<close>

type_synonym agent_effect = AgentLoop.effect

datatype incident_effect =
    RoleRun string "agent_effect list"
  | JournalNote string string string pydict
  | Logged audit_args
  | Verified verdict
  | Told string pydict
  | Stored string
  | Opened
  | Released bool string

record incident =
  ic_trace :: "incident_effect list"
  ic_breaker :: breaker
  ic_gate :: gate
  ic_files :: "(string \<times> pydict) list"
  ic_locals :: pydict

text \<open>One reading of the world by the verifier: telemetry, cluster, clock readings and the time stamp.\<close>

type_synonym probe = "telemetry \<times> op_cluster \<times> (nat \<Rightarrow> time) \<times> time"

record handling =
  hd_operational :: bool
  hd_fmt :: "pyval \<Rightarrow> string"
  hd_ff :: "rat \<Rightarrow> string"
  hd_vf :: vfmt
  hd_loads :: "string \<Rightarrow> pyval option"
  hd_pf :: "string \<Rightarrow> pyfloat option"
  hd_sha :: "string \<Rightarrow> string"
  hd_scrub :: "string \<Rightarrow> string"
  hd_exn_text :: "py_exn \<Rightarrow> string"
  hd_namespace :: "string option"
  hd_slack_on :: bool
  hd_discord_on :: bool
  hd_notifies :: bool
  hd_given_incident :: pyval
  hd_given_execution :: pyval
  hd_incident :: string
  hd_execution :: string
  hd_alert :: pydict
  hd_scenario :: pyval
  hd_given_anchors :: "pydict option"
  hd_operator_scope :: "pydict option"
  hd_provider :: "(string \<Rightarrow> incident_effect list \<Rightarrow> agent_effect list \<Rightarrow> pydict \<Rightarrow> pyval answer) option"
  hd_job :: "string \<Rightarrow> incident_effect list \<Rightarrow> job"
  hd_breaker_events :: "incident_effect list \<Rightarrow> cb_event list"
  hd_gate_events :: "incident_effect list \<Rightarrow> gate_event list"
  hd_cancelled :: "incident_effect list \<Rightarrow> bool"
  hd_existing :: "(string \<times> string \<times> string) option"
  hd_begin :: "raised option"
  hd_note :: "incident_effect list \<Rightarrow> raised option"
  hd_previous :: "incident_effect list \<Rightarrow> raised + string \<times> string"
  hd_tracing :: "pyval option"
  hd_recommender :: "(pydict \<Rightarrow> pydict list option) option"
  hd_probe :: "incident_effect list \<Rightarrow> agent_effect list \<Rightarrow> nat \<Rightarrow> probe option"
  hd_settle_probe :: "incident_effect list \<Rightarrow> nat \<Rightarrow> probe"
  hd_clock :: "incident_effect list \<Rightarrow> nat \<Rightarrow> time"
  hd_stamp :: "incident_effect list \<Rightarrow> nat \<Rightarrow> string"
  hd_tell :: "incident_effect list \<Rightarrow> string \<Rightarrow> pydict \<Rightarrow> string + pyval"
  hd_disk :: "incident_effect list \<Rightarrow> raised option"

type_synonym 'a iop = "(incident, 'a) st"

definition iemit :: "incident_effect \<Rightarrow> incident \<Rightarrow> incident" where
  "iemit e s = s\<lparr>ic_trace := ic_trace s @ [e]\<rparr>"

definition set_local :: "string \<Rightarrow> pyval \<Rightarrow> incident \<Rightarrow> incident" where
  "set_local k v s = s\<lparr>ic_locals := AList.update k v (ic_locals s)\<rparr>"

text \<open>An await: other tasks use the breaker and the gate, and this one may be cancelled.\<close>

definition await_rest :: "handling \<Rightarrow> unit iop" where
  "await_rest h s =
     (let s' = s\<lparr>ic_breaker := run cb_step (ic_breaker s) (hd_breaker_events h (ic_trace s)),
                 ic_gate := run (gate_step (hd_ff h) (hd_sha h)) (ic_gate s) (hd_gate_events h (ic_trace s))\<rparr>
      in (if hd_cancelled h (ic_trace s) then Inl AgentCancelled else Inr (), s'))"

definition raising :: "raised option \<Rightarrow> unit iop" where
  "raising r = (case r of None \<Rightarrow> oret () | Some x \<Rightarrow> oraise (Propagated x))"

definition plain_error :: "string \<Rightarrow> raised" where
  "plain_error name = \<lparr>ra_type = name, ra_text = '''', ra_category = PNone\<rparr>"

text \<open>A transition of the journal; only an operational run has one.\<close>

definition journal_phase :: "handling \<Rightarrow> string \<Rightarrow> string \<Rightarrow> string \<Rightarrow> pydict \<Rightarrow> unit iop" where
  "journal_phase h phase state event patch =
     (if \<not> hd_operational h then oret ()
      else obind (omap (iemit (JournalNote phase state event patch))) (\<lambda>_.
           obind (oget (\<lambda>s. hd_note h (ic_trace s))) raising))"

definition inote :: "handling \<Rightarrow> string \<Rightarrow> string \<Rightarrow> pydict \<Rightarrow> unit iop" where
  "inote h phase event patch = journal_phase h phase ''running'' event patch"

definition ilog :: "handling \<Rightarrow> string \<Rightarrow> string \<Rightarrow> string \<Rightarrow> string \<Rightarrow> unit iop" where
  "ilog h role action summary policy =
     omap (iemit (Logged \<lparr>aa_incident_id = hd_incident h, aa_agent_role = role, aa_action_type = action,
       aa_tool_name = None, aa_tool_args = None, aa_result_summary = summary, aa_approved_by = '''',
       aa_policy_check = policy\<rparr>))"

section \<open>Arguments and admission\<close>

definition scenario_text :: "handling \<Rightarrow> string" where
  "scenario_text h =
     py_str (hd_fmt h) (py_or (py_or (hd_scenario h) (dget (hd_alert h) ''scenario_id'')) (PStr ''''))"

text \<open>The identities: given ones are validated, missing ones are the generated ones.\<close>

definition checked_incident :: "handling \<Rightarrow> py_exn + handling" where
  "checked_incident h =
     rbind (if hd_given_incident h = PNone then Inr (hd_incident h) else validate_incident_id (hd_given_incident h)) (\<lambda>i.
       if hd_operational h \<and>
          (hd_provider h \<noteq> None \<or> truthy (hd_scenario h) \<or> truthy (dget (hd_alert h) ''scenario_id''))
       then Inl ValueError else Inr (h\<lparr>hd_incident := i\<rparr>))"

definition checked_execution :: "handling \<Rightarrow> py_exn + handling" where
  "checked_execution h =
     (if hd_given_execution h = PNone then Inr h
      else if valid_execution_id (hd_given_execution h)
      then Inr (h\<lparr>hd_execution := text_of (hd_given_execution h)\<rparr>) else Inl ValueError)"

definition canonical_path :: "handling \<Rightarrow> string" where
  "canonical_path h = hd_incident h @ ''.json''"

definition is_stored :: "string \<Rightarrow> incident \<Rightarrow> bool" where
  "is_stored path s \<longleftrightarrow> path \<in> fst ` set (ic_files s)"

text \<open>An operational execution is new to the journal, or queued for this very incident.\<close>

definition admit_execution :: "handling \<Rightarrow> unit iop" where
  "admit_execution h =
     (if \<not> hd_operational h then oret ()
      else case hd_existing h of
        None \<Rightarrow>
          (case hd_begin h of
             Some x \<Rightarrow> oraise (Propagated x)
           | None \<Rightarrow> omap (iemit (JournalNote ''queued'' ''running'' ''admitted'' [])))
      | Some (incident, phase, state) \<Rightarrow>
          if incident \<noteq> hd_incident h \<or> phase \<noteq> ''queued'' \<or> state \<noteq> ''running''
          then oraise (PyError RuntimeError) else oret ())"

text \<open>The name of the alert is read as text; a name that is no text has no prefix to record.\<close>

definition alert_label :: "handling \<Rightarrow> py_exn + string" where
  "alert_label h =
     rbind (need_dict (dget_or (hd_alert h) ''commonLabels'' (PDict []))) (\<lambda>labels.
     case dget_or labels ''alertname'' (PStr ''unknown-alert'') of PStr s \<Rightarrow> Inr s | _ \<Rightarrow> Inl TypeError)"

definition breaker_start :: "tripped_reason option iop" where
  "breaker_start s =
     (case start_incident (ic_breaker s) of
        (None, b) \<Rightarrow> (Inr None, iemit Opened (s\<lparr>ic_breaker := b\<rparr>))
      | (Some reason, b) \<Rightarrow> (Inr (Some reason), s\<lparr>ic_breaker := b\<rparr>))"

definition open_incident :: "handling \<Rightarrow> unit iop" where
  "open_incident h =
     obind (admit_execution h) (\<lambda>_.
     obind (olift (alert_label h)) (\<lambda>name.
     obind (ilog h ''coordinator'' ''incident_start'' name ''allowed'') (\<lambda>_.
     obind breaker_start (\<lambda>r.
     case r of
       None \<Rightarrow> oret ()
     | Some reason \<Rightarrow>
         obind (journal_phase h ''finished'' ''failed'' ''admission_blocked'' []) (\<lambda>_.
           oraise (BreakerTripped reason))))))"

section \<open>Runs of the agents\<close>

definition verdict_dict :: "time \<Rightarrow> verdict \<Rightarrow> pydict" where
  "verdict_dict stamp v =
     [(''scenario_id'', PStr (vd_id v)), (''agent_claimed_resolved'', PBool (vd_claimed v)),
      (''env_resolved'', PBool (vd_resolved v)), (''verification_status'', PStr (vd_status v)),
      (''is_false_resolution'', PBool (vd_false_resolution v)),
      (''is_false_negative'', PBool (vd_false_negative v)),
      (''failed_checks'', PList (map PStr (vd_failed v))),
      (''checks'', PList (map (\<lambda>c. PDict
         [(''name'', PStr (ck_name c)), (''target'', PStr (ck_target c)), (''passed'', PBool (ck_passed c)),
          (''required'', PBool (ck_required c)), (''details'', PStr (ck_details c)),
          (''observed'', ck_observed c)]) (vd_checks v))),
      (''observed_metrics'', PDict (vd_metrics v)), (''evidence'', PList (map PStr (vd_evidence v))),
      (''verification_timestamp'', PFloat (FFin stamp)), (''error'', opt_text (vd_error v))]"

definition probed :: "handling \<Rightarrow> probe \<Rightarrow> bool \<Rightarrow> pydict \<Rightarrow> py_exn + verdict" where
  "probed h p claimed ctx =
     (case p of (tel, oc, clock, stamp) \<Rightarrow>
        verify (hd_loads h) (hd_pf h) (hd_vf h) tel oc clock (hd_namespace h) (scenario_text h) claimed
          (Some (hd_alert h)) (Some ctx))"

text \<open>What the observer of a mutation answers; no probe is a cancelled one.\<close>

definition observer_context :: "handling \<Rightarrow> pydict \<Rightarrow> pydict \<Rightarrow> pydict \<Rightarrow> pydict" where
  "observer_context h anchors consistency action =
     [(''incident_id'', PStr (hd_incident h)), (''incident_anchors'', PDict anchors),
      (''target_consistency'', PDict consistency), (''action'', PDict action),
      (''operational_mode'', PBool (hd_operational h))]"

definition environment_observer ::
  "handling \<Rightarrow> pydict \<Rightarrow> pydict \<Rightarrow> incident_effect list \<Rightarrow> agent_effect list \<Rightarrow> pydict \<Rightarrow> pyval answer" where
  "environment_observer h anchors consistency it t action =
     (case hd_probe h it t 0 of
        None \<Rightarrow> Cancellation
      | Some p \<Rightarrow>
          (case probed h p False (observer_context h anchors consistency action) of
             Inl e \<Rightarrow> Failure (plain_error (py_exn_name e))
           | Inr v \<Rightarrow> Answer (PDict (verdict_dict (snd (snd (snd p))) v))))"

text \<open>The world of one agent: what \<open>handle_incident\<close> installs and hands over is set here.\<close>

record approver =
  ap_exact :: bool
  ap_severity :: string
  ap_record :: pydict

definition agent_job ::
  "handling \<Rightarrow> string \<Rightarrow> pydict \<Rightarrow> pyval \<Rightarrow>
   (incident_effect list \<Rightarrow> agent_effect list \<Rightarrow> pydict \<Rightarrow> pyval answer) option \<Rightarrow> approver \<Rightarrow>
   incident_effect list \<Rightarrow> job" where
  "agent_job h role input control observer ap it =
     (hd_job h role it)\<lparr>jb_operational := hd_operational h, jb_journaled := hd_operational h,
        jb_fmt := hd_fmt h, jb_ff := hd_ff h, jb_sha := hd_sha h, jb_scrub := hd_scrub h, jb_loads := hd_loads h,
        jb_role := role, jb_input := as_dict (strip_model_forbidden_context (PDict input)), jb_control := control,
        jb_incident := hd_incident h, jb_observer := map_option (\<lambda>f. f it) observer,
        jb_exact_approval := ap_exact ap, jb_severity := ap_severity ap, jb_approval := ap_record ap,
        jb_scope := hd_operator_scope h, jb_provider := map_option (\<lambda>f. f role it) (hd_provider h)\<rparr>"

text \<open>The trajectory that an exception carries: of a failed completion, or of a cancelled one.\<close>

definition completion_died :: "agent_effect list \<Rightarrow> bool" where
  "completion_died t \<longleftrightarrow>
     (case rev t of Audited a # _ \<Rightarrow> aa_action_type a = ''inference_provider_failure'' | _ \<Rightarrow> False)"

definition carried_trajectory :: "agent_exn \<Rightarrow> agent \<Rightarrow> pydict list" where
  "carried_trajectory e a =
     (case e of
        CompletionFailed _ \<Rightarrow> ag_trajectory a
      | AgentCancelled \<Rightarrow> if completion_died (ag_trace a) then ag_trajectory a else []
      | _ \<Rightarrow> [])"

definition after_agent :: "string \<Rightarrow> agent \<Rightarrow> incident \<Rightarrow> incident" where
  "after_agent role a s =
     iemit (RoleRun role (ag_trace a)) (s\<lparr>ic_breaker := ag_breaker a, ic_gate := ag_gate a\<rparr>)"

text \<open>The result, with the approval record that the approver left and whether it blocked.\<close>

definition run_agent :: "string \<Rightarrow> bool \<Rightarrow> (incident_effect list \<Rightarrow> job) \<Rightarrow> (pydict \<times> pydict \<times> bool) iop" where
  "run_agent role exact jb s =
     (case call_agent (jb (ic_trace s)) 10 (start_agent (jb (ic_trace s)) (ic_breaker s) (ic_gate s)) of
        (r, a) \<Rightarrow>
          let s1 = after_agent role a s;
              s2 = (if exact then set_local ''approval'' (PDict (ag_approval a)) s1 else s1)
          in case r of
               Inl e \<Rightarrow>
                 (Inl e, set_local ''failed_role_trajectory'' (PList (map PDict (carried_trajectory e a))) s2)
             | Inr result \<Rightarrow> (Inr (result, ag_approval a, ag_approval_blocked a), s2))"

definition final_of :: "pydict \<Rightarrow> pydict" where
  "final_of result = as_dict (dget result ''final'')"

definition role_summary :: "pydict \<Rightarrow> pydict" where
  "role_summary final =
     map (\<lambda>k. (k, dget final k)) (filter (dhas final) [''severity'', ''category'', ''confidence'', ''status''])"

definition call_role ::
  "handling \<Rightarrow> string \<Rightarrow> bool \<Rightarrow> (incident_effect list \<Rightarrow> job) \<Rightarrow> (pydict \<times> pydict \<times> bool) iop" where
  "call_role h role exact jb =
     obind (omap (set_local ''current_phase'' (PStr role))) (\<lambda>_.
     obind (inote h role ''role_started'' []) (\<lambda>_.
     obind (run_agent role exact jb) (\<lambda>(result, approval, denied).
     let summary = PDict (role_summary (final_of result)) in
     obind (if json_finite summary then oret () else oraise (PyError ValueError)) (\<lambda>_.
     obind (ilog h role ''role_completed'' (plain_text (hd_ff h) summary) ''allowed'') (\<lambda>_.
     obind (inote h role ''role_completed'' [(role, PDict result)]) (\<lambda>_.
     obind (omap (set_local role (PDict result))) (\<lambda>_.
       oret (result, approval, denied))))))))"

definition no_approver :: approver where
  "no_approver = \<lparr>ap_exact = False, ap_severity = '''', ap_record = []\<rparr>"

definition call_role_agent :: "handling \<Rightarrow> string \<Rightarrow> pydict \<Rightarrow> pydict iop" where
  "call_role_agent h role input =
     obind (call_role h role False (agent_job h role input (PDict []) None no_approver))
       (\<lambda>(result, _). oret result)"

section \<open>Triage and diagnosis\<close>

text \<open>What is known when a remediation is chosen.\<close>

record assessment =
  as_anchors :: pydict
  as_alert :: pydict
  as_triage :: pydict
  as_diagnosis :: pydict
  as_triage_obs :: "pydict list"
  as_diagnosis_obs :: "pydict list"
  as_consistency :: pydict
  as_environment :: pydict
  as_severity :: string
  as_mode :: string
  as_approval :: pydict
  as_recommended :: pydict

definition obs_list :: "pydict list \<Rightarrow> pyval" where "obs_list obs = PList (map PDict obs)"

definition incident_anchors :: "handling \<Rightarrow> pydict" where
  "incident_anchors h =
     (case hd_given_anchors h of
        Some a \<Rightarrow> a
      | None \<Rightarrow> build_incident_anchors (hd_fmt h) (Some (hd_alert h)) 0)"

definition triage_input :: "handling \<Rightarrow> pydict" where
  "triage_input h =
     [(''incident_id'', PStr (hd_incident h)), (''alert'', PDict (model_visible_alert (Some (hd_alert h)))),
      (''incident_anchors'', PDict (incident_anchors h))]"

definition diagnosis_input ::
  "handling \<Rightarrow> pydict \<Rightarrow> pydict list \<Rightarrow> pydict \<Rightarrow> pydict \<Rightarrow> pydict" where
  "diagnosis_input h triage obs consistency environment =
     triage_input h @
     [(''triage'', PDict (final_of triage)), (''triage_observations'', obs_list obs),
      (''target_consistency'', PDict consistency), (''environment_observation'', PDict environment)]"

definition approval_policy :: "handling \<Rightarrow> string \<Rightarrow> string" where
  "approval_policy h severity =
     (let mode = approval_mode_for_severity severity in
      if hd_operational h \<and> mode \<noteq> ''manual'' then ''approve'' else mode)"

definition policy_record :: "handling \<Rightarrow> string \<Rightarrow> string \<Rightarrow> pydict" where
  "policy_record h severity triage_severity =
     [(''mode'', PStr (approval_policy h severity)), (''severity'', PStr severity),
      (''triage_severity'', PStr triage_severity)]"

text \<open>The recommender is optional, and its failures never stop the incident.\<close>

definition recommender_query :: "pydict \<Rightarrow> pydict \<Rightarrow> pydict \<Rightarrow> pydict" where
  "recommender_query labels triage diagnosis =
     [(''alertname'', dget_or labels ''alertname'' (PStr '''')),
      (''affected_services'', dget_or (final_of triage) ''affected_services'' (PList [])),
      (''symptoms_text'', dget_or (final_of diagnosis) ''root_cause'' (PStr ''''))]"

definition recommendation :: "handling \<Rightarrow> pydict \<Rightarrow> pydict \<Rightarrow> pydict" where
  "recommendation h triage diagnosis =
     (let (status, runbooks) =
        (case hd_recommender h of
           None \<Rightarrow> (''disabled'', [])
         | Some recommend \<Rightarrow>
             (case need_dict (dget_or (hd_alert h) ''commonLabels'' (PDict [])) of
                Inl _ \<Rightarrow> (''unavailable'', [])
              | Inr labels \<Rightarrow>
                  (case recommend (recommender_query labels triage diagnosis) of
                     None \<Rightarrow> (''unavailable'', [])
                   | Some found \<Rightarrow> (''executed'', found))))
      in [(''status'', PStr status), (''recommended_runbooks'', obs_list runbooks)])"

definition triage_stage :: "handling \<Rightarrow> (pydict \<times> pydict list \<times> pydict \<times> pydict) iop" where
  "triage_stage h =
     obind (call_role_agent h ''triage'' (triage_input h)) (\<lambda>triage.
     obind (olift (extract_tool_observations (Some triage))) (\<lambda>obs.
     obind (olift (validate_target_consistency (hd_ff h) (hd_fmt h) (incident_anchors h)
                     (Some (final_of triage)) obs)) (\<lambda>consistency.
     obind (olift (chaos_observation (hd_fmt h) obs)) (\<lambda>environment.
       oret (triage, obs, consistency, environment)))))"

definition assess_incident :: "handling \<Rightarrow> assessment iop" where
  "assess_incident h =
     obind (triage_stage h) (\<lambda>(triage, obs, consistency, environment).
     obind (call_role_agent h ''diagnosis'' (diagnosis_input h triage obs consistency environment)) (\<lambda>diagnosis.
     obind (olift (extract_tool_observations (Some diagnosis))) (\<lambda>diagnosis_obs.
     obind (olift (chaos_observation (hd_fmt h) (obs @ diagnosis_obs))) (\<lambda>environment'.
     obind (olift (extract_severity (hd_fmt h) (PDict [(''triage'', PDict (final_of triage))]))) (\<lambda>triage_severity.
     obind (olift (severity_for_approval (hd_fmt h) (PDict (final_of triage))
                     (model_visible_alert (Some (hd_alert h))))) (\<lambda>severity.
     let approval = policy_record h severity triage_severity in
     obind (omap (set_local ''approval'' (PDict approval))) (\<lambda>_.
     obind (ilog h ''coordinator'' ''approval_policy'' (default_text (hd_ff h) (PDict approval))
             (approval_policy h severity)) (\<lambda>_.
     obind (inote h ''remediation'' ''approval_policy'' [(''approval'', PDict approval)]) (\<lambda>_.
       oret \<lparr>as_anchors = incident_anchors h, as_alert = model_visible_alert (Some (hd_alert h)),
             as_triage = triage, as_diagnosis = diagnosis, as_triage_obs = obs,
             as_diagnosis_obs = diagnosis_obs, as_consistency = consistency, as_environment = environment',
             as_severity = severity, as_mode = approval_policy h severity, as_approval = approval,
             as_recommended = recommendation h triage diagnosis\<rparr>)))))))))"

section \<open>Remediation\<close>

definition effective_triage :: "assessment \<Rightarrow> pydict" where
  "effective_triage a = AList.update ''severity'' (PStr (as_severity a)) (final_of (as_triage a))"

text \<open>The key \<open>_runtime_control\<close> is taken out by \<open>call_agent\<close>, see \<open>agent_job\<close>.\<close>

definition remediation_input :: "handling \<Rightarrow> assessment \<Rightarrow> pydict" where
  "remediation_input h a =
     [(''incident_id'', PStr (hd_incident h)), (''alert'', PDict (as_alert a)),
      (''incident_anchors'', PDict (as_anchors a)), (''triage'', PDict (effective_triage a)),
      (''triage_observations'', obs_list (as_triage_obs a)), (''target_consistency'', PDict (as_consistency a)),
      (''diagnosis'', PDict (final_of (as_diagnosis a))),
      (''diagnosis_observations'', obs_list (as_diagnosis_obs a)),
      (''environment_observation'', PDict (as_environment a)),
      (''recommended_runbooks'', dget (as_recommended a) ''recommended_runbooks''),
      (''approval_mode'', PStr (as_mode a))]"

definition remediation_control :: pyval where
  "remediation_control = PDict [(''enforce_action_preconditions'', PBool True)]"

definition remediation_job :: "handling \<Rightarrow> assessment \<Rightarrow> incident_effect list \<Rightarrow> job" where
  "remediation_job h a =
     agent_job h ''remediation'' (remediation_input h a) remediation_control
       (Some (environment_observer h (as_anchors a) (as_consistency a)))
       \<lparr>ap_exact = (as_mode a = ''approve''), ap_severity = as_severity a, ap_record = as_approval a\<rparr>"

text \<open>What a remediation leaves: its result, the approval record, and whether it is blocked.\<close>

record remedy =
  rm_result :: pydict
  rm_approval :: pydict
  rm_denied :: bool
  rm_blocked :: bool

definition run_remediation :: "handling \<Rightarrow> assessment \<Rightarrow> remedy iop" where
  "run_remediation h a =
     (let unapplied = (\<lambda>result blocked.
            obind (omap (set_local ''remediation'' (PDict result))) (\<lambda>_.
              oret \<lparr>rm_result = result, rm_approval = as_approval a, rm_denied = False, rm_blocked = blocked\<rparr>))
      in obind (omap (set_local ''current_phase'' (PStr ''remediation''))) (\<lambda>_.
         if truthy (dget (as_consistency a) ''requires_review'')
         then unapplied (target_mismatch_remediation_record (hd_incident h) (as_consistency a)) True
         else if as_mode a = ''manual''
         then unapplied (manual_remediation_record (hd_fmt h) (hd_incident h) (effective_triage a)
                           (final_of (as_diagnosis a))) False
         else obind (call_role h ''remediation'' (as_mode a = ''approve'') (remediation_job h a))
                (\<lambda>(result, approval, denied).
                  oret \<lparr>rm_result = result, rm_approval = approval, rm_denied = denied, rm_blocked = False\<rparr>)))"

text \<open>The decision that the remediation reports; only a hashable value can be looked up in a set.\<close>

definition reported_decision :: "pydict \<Rightarrow> py_exn + pyval" where
  "reported_decision final =
     rbind (need_dict (py_or (dget final ''approval'') (PDict []))) (\<lambda>d. Inr (dget d ''status''))"

definition decision_blocks :: "pyval \<Rightarrow> py_exn + bool" where
  "decision_blocks decision =
     (if is_list decision \<or> is_dict decision then Inl TypeError
      else Inr (decision \<noteq> PNone \<and> decision \<noteq> PStr ''approved''))"

definition deny_remedy :: "pyval \<Rightarrow> remedy \<Rightarrow> remedy" where
  "deny_remedy decision r =
     r\<lparr>rm_approval := AList.update ''decision'' decision (rm_approval r), rm_denied := True\<rparr>"

definition require_approved :: "remedy \<Rightarrow> remedy" where
  "require_approved r =
     (if dget (rm_approval r) ''decision'' = PStr ''approved'' then r
      else if dhas (rm_approval r) ''decision'' then r\<lparr>rm_denied := True\<rparr>
      else deny_remedy (PStr ''no_action_selected'') r)"

definition settle_decision :: "assessment \<Rightarrow> remedy \<Rightarrow> py_exn + remedy" where
  "settle_decision a r =
     rbind (reported_decision (final_of (rm_result r))) (\<lambda>decision.
     if as_mode a \<noteq> ''approve'' then Inr r
     else rbind (decision_blocks decision) (\<lambda>blocks.
       Inr (require_approved (if blocks then deny_remedy decision r else r))))"

definition settle_preparation :: "handling \<Rightarrow> remedy \<Rightarrow> remedy" where
  "settle_preparation h r =
     (if hd_operational h \<and> dget (final_of (rm_result r)) ''status'' = PStr ''action_preparation_failed''
      then r\<lparr>rm_blocked := True\<rparr> else r)"

text \<open>The remediation with the environment that its observations show.\<close>

definition remediate :: "handling \<Rightarrow> assessment \<Rightarrow> (remedy \<times> pydict) iop" where
  "remediate h a =
     obind (run_remediation h a) (\<lambda>r.
     obind (olift (extract_tool_observations (Some (rm_result r)))) (\<lambda>obs.
     obind (olift (chaos_observation (hd_fmt h) (as_triage_obs a @ as_diagnosis_obs a @ obs))) (\<lambda>environment.
     obind (olift (settle_decision a r)) (\<lambda>r1.
     obind (omap (set_local ''approval'' (PDict (rm_approval r1)))) (\<lambda>_.
       oret (settle_preparation h r1, environment))))))"

definition stopped :: "remedy \<Rightarrow> bool" where
  "stopped r \<longleftrightarrow> rm_denied r \<or> rm_blocked r"

definition claims_resolved :: "remedy \<Rightarrow> bool" where
  "claims_resolved r \<longleftrightarrow>
     dget (final_of (rm_result r)) ''outcome'' = PStr ''resolved'' \<or>
     dget (final_of (rm_result r)) ''status'' = PStr ''resolved''"

section \<open>Verification\<close>

definition incident_context :: "handling \<Rightarrow> assessment \<Rightarrow> remedy \<Rightarrow> pydict \<Rightarrow> pydict" where
  "incident_context h a r environment =
     [(''incident_id'', PStr (hd_incident h)), (''alert'', PDict (hd_alert h)),
      (''incident_anchors'', PDict (as_anchors a)), (''target_consistency'', PDict (as_consistency a)),
      (''environment_observation'', PDict environment), (''triage'', PDict (as_triage a)),
      (''diagnosis'', PDict (as_diagnosis a)), (''remediation'', PDict (rm_result r)),
      (''operational_mode'', PBool (hd_operational h))]"

definition verify_incident :: "handling \<Rightarrow> bool \<Rightarrow> pydict \<Rightarrow> (verdict \<times> pydict) iop" where
  "verify_incident h claimed ctx =
     obind (await_rest h) (\<lambda>_.
     obind (oget (\<lambda>s. hd_probe h (ic_trace s) [] 0)) (\<lambda>p.
     case p of
       None \<Rightarrow> oraise AgentCancelled
     | Some w \<Rightarrow>
         obind (olift (probed h w claimed ctx)) (\<lambda>v.
         obind (omap (iemit (Verified v))) (\<lambda>_. oret (v, verdict_dict (snd (snd (snd w))) v)))))"

text \<open>
  Settling awaits many times and changes nothing, so its cancellation is that of its first await; a loop
  that never ends is ended by a cancellation only.
\<close>

definition settle_probe :: "handling \<Rightarrow> bool \<Rightarrow> pydict \<Rightarrow> incident_effect list \<Rightarrow> nat \<Rightarrow> py_exn + verdict" where
  "settle_probe h claimed ctx it k = probed h (hd_settle_probe h it k) claimed ctx"

definition settle_incident :: "handling \<Rightarrow> bool \<Rightarrow> pydict \<Rightarrow> pydict iop" where
  "settle_incident h claimed ctx =
     obind (await_rest h) (\<lambda>_.
     obind (oget (\<lambda>s. settle_environment (hd_clock h (ic_trace s)) (hd_stamp h (ic_trace s))
                        (settle_probe h claimed ctx (ic_trace s)))) (\<lambda>ended.
     case ended of None \<Rightarrow> oraise AgentCancelled | Some report \<Rightarrow> olift report))"

definition skipped_settling :: pydict where
  "skipped_settling =
     [(''settled'', PBool False), (''observations'', PList []),
      (''skipped_reason'', PStr ''no_authorized_remediation'')]"

record outcome =
  oc_remedy :: remedy
  oc_environment :: pydict
  oc_claimed :: bool
  oc_settling :: pydict
  oc_verdict :: verdict
  oc_verification :: pydict

definition passed_verdict :: "pydict \<Rightarrow> bool" where
  "passed_verdict d \<longleftrightarrow>
     dget d ''verification_status'' = PStr ''passed'' \<and> dget d ''env_resolved'' = PBool True"

definition operational_resolved :: "handling \<Rightarrow> outcome \<Rightarrow> bool" where
  "operational_resolved h o' \<longleftrightarrow>
     vd_resolved (oc_verdict o') \<and> \<not> stopped (oc_remedy o') \<and>
     (hd_operational h \<longrightarrow> passed_verdict (oc_verification o'))"

definition verify_remedy :: "handling \<Rightarrow> assessment \<Rightarrow> remedy \<Rightarrow> pydict \<Rightarrow> outcome iop" where
  "verify_remedy h a r environment =
     (let claimed = claims_resolved r; ctx = incident_context h a r environment in
     obind (omap (set_local ''scenario_id'' (PStr (scenario_text h)) \<circ>
                  set_local ''agent_claimed_resolved'' (PBool claimed))) (\<lambda>_.
     obind (inote h ''verification'' ''verification_started'' [(''remediation'', PDict (rm_result r))]) (\<lambda>_.
     obind (if stopped r \<or> as_mode a = ''manual'' then oret skipped_settling
            else settle_incident h claimed ctx) (\<lambda>settling.
     obind (omap (set_local ''settling'' (PDict settling))) (\<lambda>_.
     obind (verify_incident h claimed ctx) (\<lambda>(v, d).
     obind (omap (set_local ''env_resolved'' (PBool (vd_resolved v)))) (\<lambda>_.
     obind (omap (set_local ''verification'' (PDict d))) (\<lambda>_.
     obind (inote h ''verification'' ''verification_completed'' [(''verification'', PDict d)]) (\<lambda>_.
       oret \<lparr>oc_remedy = r, oc_environment = environment, oc_claimed = claimed, oc_settling = settling,
             oc_verdict = v, oc_verification = d\<rparr>)))))))))"

definition verification_stage :: "handling \<Rightarrow> assessment \<Rightarrow> outcome iop" where
  "verification_stage h a = obind (remediate h a) (\<lambda>(r, environment). verify_remedy h a r environment)"

section \<open>Communication\<close>

definition blocked_outcome :: "handling \<Rightarrow> remedy \<Rightarrow> string \<times> string" where
  "blocked_outcome h r =
     (if dget (final_of (rm_result r)) ''status'' = PStr ''action_preparation_failed'' then
        (''action_preparation_failed'',
         ''Remediation blocked / escalated: the selected action could not be '' @
         ''prepared or validated. No recovery is claimed.'')
      else if rm_denied r then
        (let status = py_str (hd_fmt h) (py_or (dget (rm_approval r) ''decision'') (PStr ''missing'')) in
         (''approval_'' @ status,
          ''Remediation blocked / not executed - approval outcome: '' @ status @ ''. Human review required.''))
      else
        (''target_mismatch'',
         ''Remediation blocked / escalated - the model target contradicted '' @
         ''the primary alert target without supporting observations.''))"

definition blocked_comms :: "handling \<Rightarrow> remedy \<Rightarrow> pydict" where
  "blocked_comms h r =
     [(''role'', PStr ''comms''), (''trajectory'', PList []),
      (''final'', PDict [(''status'', PStr (fst (blocked_outcome h r))),
                         (''summary'', PStr (snd (blocked_outcome h r)))])]"

definition comms_input :: "handling \<Rightarrow> assessment \<Rightarrow> outcome \<Rightarrow> pydict" where
  "comms_input h a o' =
     [(''incident_id'', PStr (hd_incident h)), (''triage'', PDict (final_of (as_triage a))),
      (''diagnosis'', PDict (final_of (as_diagnosis a))),
      (''remediation'', PDict (final_of (rm_result (oc_remedy o')))),
      (''verification'', PDict (oc_verification o')), (''settling'', PDict (oc_settling o')),
      (''env_resolved'', PBool (vd_resolved (oc_verdict o'))),
      (''agent_claimed_resolved'', PBool (oc_claimed o'))]"

definition told_comms :: "handling \<Rightarrow> assessment \<Rightarrow> outcome \<Rightarrow> pydict iop" where
  "told_comms h a o' =
     (if stopped (oc_remedy o')
      then obind (omap (set_local ''comms'' (PDict (blocked_comms h (oc_remedy o'))))) (\<lambda>_.
             oret (blocked_comms h (oc_remedy o')))
      else call_role_agent h ''comms'' (comms_input h a o'))"

text \<open>The facts that an operational publication is made of, and its two calls, each audited and noted.\<close>

definition publication_facts :: "handling \<Rightarrow> assessment \<Rightarrow> outcome \<Rightarrow> py_exn + comms_facts" where
  "publication_facts h a o' =
     (let r = oc_remedy o' in
      rbind (py_iter (py_or (dget (final_of (rm_result r)) ''executed_actions'') (PList []))) (\<lambda>executed.
        Inr \<lparr>cf_incident = hd_incident h, cf_severity = as_severity a, cf_verification = oc_verification o',
             cf_resolved = operational_resolved h o', cf_approval = dget (rm_approval r) ''decision'',
             cf_blocked = (if stopped r then Some (fst (blocked_outcome h r)) else None),
             cf_executed = executed, cf_settling = oc_settling o'\<rparr>))"

definition publication_document :: "handling \<Rightarrow> comms_facts \<Rightarrow> pydict" where
  "publication_document h f =
     as_dict (redact_persisted_evidence (hd_scrub h) (PDict (operational_publication (hd_fmt h) f)))"

definition publish_call ::
  "handling \<Rightarrow> pydict list \<Rightarrow> string \<times> pydict \<Rightarrow> (pydict \<times> pydict list) iop" where
  "publish_call h trajectory call =
     obind (omap (iemit (Told (fst call) (snd call)))) (\<lambda>_.
     obind (oget (\<lambda>s. publication_output (hd_scrub h) (hd_tell h (ic_trace s) (fst call) (snd call)))) (\<lambda>out.
     obind (omap (iemit (Logged \<lparr>aa_incident_id = hd_incident h, aa_agent_role = ''comms'',
              aa_action_type = ''tool_result'', aa_tool_name = Some (fst call), aa_tool_args = Some (snd call),
              aa_result_summary = default_text (hd_ff h) (PDict out), aa_approved_by = '''',
              aa_policy_check = ''verifier_bound_publication''\<rparr>))) (\<lambda>_.
     let trajectory' = trajectory @ [publication_step call out] in
     obind (inote h ''comms'' ''publication_tool_completed''
             [(''comms'', PDict [(''trajectory'', PList (map PDict trajectory'))])]) (\<lambda>_.
       oret (out, trajectory')))))"

definition publish_operational_outcome :: "handling \<Rightarrow> comms_facts \<Rightarrow> pydict iop" where
  "publish_operational_outcome h f =
     (let document = publication_document h f; calls = publication_calls f document in
      obind (publish_call h [] (calls ! 0)) (\<lambda>(notification, t1).
      obind (publish_call h t1 (calls ! 1)) (\<lambda>(postmortem, t2).
        oret (publication_record (hd_fmt h) (hd_slack_on h) (hd_discord_on h) f document t2 notification postmortem))))"

definition publish_incident :: "handling \<Rightarrow> assessment \<Rightarrow> outcome \<Rightarrow> pydict \<Rightarrow> pydict iop" where
  "publish_incident h a o' inference =
     obind (olift (publication_facts h a o')) (\<lambda>facts.
     obind (await_rest h) (\<lambda>_.
     obind (publish_operational_outcome h facts) (\<lambda>comms.
     let told = comms @ [(''inference'', if stopped (oc_remedy o') then PNone else PDict inference)] in
     obind (omap (set_local ''comms'' (PDict told))) (\<lambda>_. oret told))))"

text \<open>Outside operational mode a notice is sent unless an agent already delivered one.\<close>

definition step_delivered :: "(pyval \<Rightarrow> string) \<Rightarrow> pyval \<Rightarrow> py_exn + bool" where
  "step_delivered fmt step =
     (case step of
        PDict d \<Rightarrow>
          if dget d ''tool'' \<noteq> PStr ''slack_post_update'' then Inr False
          else rbind (need_dict (py_or (dget d ''output'') (PDict []))) (\<lambda>out.
            let mode = py_str fmt (dget_or out ''mode'' (PStr '''')) in
            Inr (\<not> truthy (dget out ''errors'') \<and> (contains mode ''discord'' \<or> contains mode ''slack'')))
      | _ \<Rightarrow> Inr False)"

fun any_delivered :: "(pyval \<Rightarrow> string) \<Rightarrow> pyval list \<Rightarrow> py_exn + bool" where
  "any_delivered fmt [] = Inr False"
| "any_delivered fmt (step # steps) =
     rbind (step_delivered fmt step) (\<lambda>yes. if yes then Inr True else any_delivered fmt steps)"

definition comms_trajectory_delivered_externally :: "(pyval \<Rightarrow> string) \<Rightarrow> pydict \<Rightarrow> py_exn + bool" where
  "comms_trajectory_delivered_externally fmt comms =
     rbind (py_iter (py_or (dget_or comms ''trajectory'' (PList [])) (PList []))) (any_delivered fmt)"

definition notice_severity :: "string \<Rightarrow> string" where
  "notice_severity severity = (if severity \<in> {''P0'', ''P1'', ''P2'', ''P3''} then severity else ''P1'')"

definition notice_summary :: "handling \<Rightarrow> outcome \<Rightarrow> pydict \<Rightarrow> string" where
  "notice_summary h o' comms =
     (let final = as_dict (dget comms ''final'');
          said = py_or (py_or (py_or (dget final ''summary_for_dashboard'') (dget final ''summary''))
                   (dget final ''postmortem_path''))
                 (PStr (if vd_resolved (oc_verdict o') then ''Incident resolved and verified.''
                        else ''Remediation attempted - incident remains unverified / unresolved.''))
      in case said of PStr s \<Rightarrow> s | v \<Rightarrow> plain_text (hd_ff h) v)"

definition notice_status :: "outcome \<Rightarrow> string" where
  "notice_status o' =
     (if stopped (oc_remedy o') then ''Blocked''
      else if vd_resolved (oc_verdict o') then ''Resolved'' else ''Unresolved'')"

definition closure_notice :: "handling \<Rightarrow> assessment \<Rightarrow> outcome \<Rightarrow> pydict \<Rightarrow> pydict" where
  "closure_notice h a o' comms =
     (let severity = notice_severity (as_severity a);
          title = py_str (hd_fmt h) (py_or (dget (final_of (as_triage a)) ''title'') (PStr (hd_incident h)))
      in [(''channel'', PStr ''#incident-response''), (''severity'', PStr severity),
          (''title'', PStr (take 220 (''['' @ severity @ ''] '' @ notice_status o' @ '': '' @ title))),
          (''summary'', PStr (take 3500 (notice_summary h o' comms))),
          (''action_items'', PList [PStr ''AtlasOps - full tool trace in live UI''])])"

definition with_notice :: "pydict \<Rightarrow> string + pyval \<Rightarrow> pydict" where
  "with_notice comms answered =
     (case answered of
        Inr (PDict out) \<Rightarrow>
          AList.update ''trajectory'' (PList (as_list (dget comms ''trajectory'') @
            [PDict [(''role'', PStr ''comms''), (''tool'', PStr ''slack_post_update''), (''output'', PDict out),
                    (''note'', PStr ''coordinator_closure_notify'')]])) comms
      | _ \<Rightarrow> comms)"

definition notify_closure :: "handling \<Rightarrow> assessment \<Rightarrow> outcome \<Rightarrow> pydict \<Rightarrow> pydict iop" where
  "notify_closure h a o' comms =
     (if \<not> hd_notifies h then oret comms
      else
        obind (olift (comms_trajectory_delivered_externally (hd_fmt h) comms)) (\<lambda>done_already.
        if done_already then oret comms
        else
          let notice = closure_notice h a o' comms in
          obind (omap (iemit (Told ''slack_post_update'' notice))) (\<lambda>_.
          obind (oget (\<lambda>s. with_notice comms (hd_tell h (ic_trace s) ''slack_post_update'' notice))) (\<lambda>told.
          obind (omap (set_local ''comms'' (PDict told))) (\<lambda>_. oret told)))))"

definition comms_stage :: "handling \<Rightarrow> assessment \<Rightarrow> outcome \<Rightarrow> pydict iop" where
  "comms_stage h a o' =
     obind (told_comms h a o') (\<lambda>comms.
       if hd_operational h then publish_incident h a o' comms else notify_closure h a o' comms)"

section \<open>The stored record\<close>

definition full_record :: "handling \<Rightarrow> assessment \<Rightarrow> outcome \<Rightarrow> pydict \<Rightarrow> pydict" where
  "full_record h a o' comms =
     (let r = oc_remedy o' in
      [(''incident_id'', PStr (hd_incident h)), (''execution_id'', PStr (hd_execution h)),
       (''alert'', PDict (hd_alert h)), (''scenario_id'', PStr (scenario_text h)),
       (''incident_anchors'', PDict (as_anchors a)), (''target_consistency'', PDict (as_consistency a)),
       (''environment_observation'', PDict (oc_environment o')), (''approval'', PDict (rm_approval r)),
       (''triage'', PDict (as_triage a)), (''diagnosis'', PDict (as_diagnosis a)),
       (''recommender'', PDict (as_recommended a)), (''remediation'', PDict (rm_result r)),
       (''verification'', PDict (oc_verification o')), (''settling'', PDict (oc_settling o')),
       (''agent_claimed_resolved'', PBool (oc_claimed o')),
       (''env_resolved'', PBool (vd_resolved (oc_verdict o'))),
       (''resolved'', PBool (operational_resolved h o')), (''comms'', PDict comms),
       (''grounding_validation'', PDict (build_grounding_reports (hd_fmt h) (hd_pf h) (hd_exn_text h)
          [(''triage'', PDict (as_triage a)), (''diagnosis'', PDict (as_diagnosis a)),
           (''remediation'', PDict (rm_result r))]))] @
      (if hd_provider h = None then []
       else [(''execution_mode'', PStr ''NON_EMPIRICAL''), (''evidence_class'', PStr ''NON_EMPIRICAL''),
             (''certification_status'', PStr ''NOT_CERTIFIED''), (''provider_injected'', PBool True)]))"

definition redacted :: "handling \<Rightarrow> pydict \<Rightarrow> pydict" where
  "redacted h d = as_dict (redact_persisted_evidence (hd_scrub h) (PDict d))"

text \<open>A file is created, never overwritten.\<close>

definition create_file :: "handling \<Rightarrow> string \<Rightarrow> pydict \<Rightarrow> unit iop" where
  "create_file h path content =
     obind (oget (\<lambda>s. hd_disk h (ic_trace s))) (\<lambda>failure.
     obind (raising failure) (\<lambda>_.
     obind (oget (is_stored path)) (\<lambda>taken.
       if taken then oraise (Propagated (plain_error ''FileExistsError''))
       else omap (\<lambda>s. iemit (Stored path) (s\<lparr>ic_files := ic_files s @ [(path, content)]\<rparr>)))))"

definition persist_incident_record :: "handling \<Rightarrow> pydict \<Rightarrow> unit iop" where
  "persist_incident_record h record' =
     obind (olift (validate_incident_id (dget record' ''incident_id''))) (\<lambda>i.
     obind (olift (validate_execution_id (dget record' ''execution_id''))) (\<lambda>x.
     obind (oget (is_stored (i @ ''.json''))) (\<lambda>taken.
       create_file h (if taken then i @ ''.execution-'' @ x @ ''.json'' else i @ ''.json'') (redacted h record'))))"

section \<open>The chain\<close>

text \<open>How the outcome is reported to the circuit breaker.\<close>

definition finish_reason :: "handling \<Rightarrow> outcome \<Rightarrow> string" where
  "finish_reason h o' =
     (let final = final_of (rm_result (oc_remedy o'));
          status = py_str (hd_fmt h) (dget_or final ''status'' (PStr ''''));
          mode = py_str (hd_fmt h) (dget_or final ''mode'' (PStr ''''))
      in if status = ''approval_rejected'' then ''approval_rejected''
         else if status = ''approval_timeout'' then ''approval_timeout''
         else if status = ''target_mismatch'' then ''escalation''
         else if mode = ''manual'' then ''manual_runbook''
         else if vd_status (oc_verdict o') = ''inconclusive'' then ''verification_inconclusive''
         else if \<not> operational_resolved h o' then ''unresolved'' else '''')"

text \<open>The record, whether the incident is resolved, and the reason for the breaker.\<close>

definition incident_chain :: "handling \<Rightarrow> (pydict \<times> bool \<times> string) iop" where
  "incident_chain h =
     obind (case hd_tracing h of None \<Rightarrow> oret ()
            | Some tracing \<Rightarrow> inote h ''queued'' ''trace_bound'' [(''tracing'', tracing)]) (\<lambda>_.
     obind (assess_incident h) (\<lambda>a.
     obind (verification_stage h a) (\<lambda>o'.
     obind (comms_stage h a o') (\<lambda>comms.
     let stored = redacted h (full_record h a o' comms); resolved = operational_resolved h o' in
     obind (persist_incident_record h stored) (\<lambda>_.
     obind (journal_phase h ''finished'' ''completed'' ''incident_completed'' stored) (\<lambda>_.
     obind (ilog h ''coordinator'' ''incident_end'' (if resolved then ''resolved'' else ''not_resolved'') ''allowed'') (\<lambda>_.
       oret (stored, resolved, finish_reason h o'))))))))"

section \<open>Exceptions\<close>

definition exn_type :: "agent_exn \<Rightarrow> string" where
  "exn_type e =
     (case e of
        PyError x \<Rightarrow> py_exn_name x
      | AgentCancelled \<Rightarrow> ''CancelledError''
      | CompletionFailed _ \<Rightarrow> ''CompletionProviderError''
      | Propagated x \<Rightarrow> ra_type x
      | BreakerTripped _ \<Rightarrow> ''CircuitBreakerTripped''
      | MutationUncertain \<Rightarrow> ''RuntimeError'')"

definition failure_category :: "agent_exn \<Rightarrow> string" where
  "failure_category e =
     (case e of
        CompletionFailed c \<Rightarrow> if is_identifier c then c else exn_type e
      | Propagated x \<Rightarrow> safe_failure_category x
      | _ \<Rightarrow> exn_type e)"

text \<open>The partial episode of a failed run; a response that has no JSON text is left out of it.\<close>

definition encodable_entry :: "pyval \<Rightarrow> pyval" where
  "encodable_entry entry =
     (case entry of
        PDict d \<Rightarrow>
          if dget d ''kind'' = PStr ''inference_exchange'' \<and> \<not> json_finite (dget d ''response'')
          then PDict (AList.update ''response_omitted_unencodable'' (PBool True)
                       (AList.update ''response'' PNone d))
          else entry
      | _ \<Rightarrow> entry)"

definition AGENT_ROLES :: "string list" where
  "AGENT_ROLES = [''triage'', ''diagnosis'', ''remediation'', ''comms'']"

definition partial_record :: "handling \<Rightarrow> agent_exn \<Rightarrow> pydict \<Rightarrow> pydict" where
  "partial_record h e vars =
     (let phase = dget vars ''current_phase'';
          evidence_class = PStr (if hd_provider h \<noteq> None then ''NON_EMPIRICAL'' else ''OPERATIONAL_UNCERTIFIED'')
      in [(''incident_id'', PStr (hd_incident h)), (''execution_id'', PStr (hd_execution h)),
          (''alert'', PDict (hd_alert h)),
          (''scenario_id'', if dhas vars ''scenario_id'' then dget vars ''scenario_id''
             else if hd_scenario h \<noteq> PNone then hd_scenario h else dget (hd_alert h) ''scenario_id'')] @
         map (\<lambda>k. (k, dget vars k))
           (AGENT_ROLES @ [''approval'', ''settling'', ''verification'', ''agent_claimed_resolved'', ''env_resolved'']) @
         [(''resolved'', PBool False),
          (''completed_roles'', PList (map PStr (filter (\<lambda>k. dget vars k \<noteq> PNone) AGENT_ROLES))),
          (''failure'', PDict [(''phase'', phase), (''exception_type'', PStr (exn_type e)),
                               (''category'', PStr (failure_category e))]),
          (''episode_status'', PStr ''failed''), (''execution_mode'', evidence_class),
          (''evidence_class'', evidence_class), (''certification_status'', PStr ''NOT_CERTIFIED''),
          (''provider_injected'', PBool (hd_provider h \<noteq> None))] @
         (if truthy phase
          then [(''failed_role_trajectory'',
                 PList (map encodable_entry (as_list (dget vars ''failed_role_trajectory''))))] else []))"

definition partial_path :: "handling \<Rightarrow> string" where
  "partial_path h = hd_incident h @ ''.partial-'' @ hd_execution h @ ''.json''"

definition capture_partial :: "handling \<Rightarrow> agent_exn \<Rightarrow> incident \<Rightarrow> incident" where
  "capture_partial h e s =
     snd (create_file h (partial_path h) (redacted h (partial_record h e (ic_locals s))) s)"

definition final_state :: "string \<Rightarrow> string \<Rightarrow> string" where
  "final_state phase otherwise = (if phase = ''applying'' then ''uncertain'' else otherwise)"

definition previous_phase :: "handling \<Rightarrow> (string \<times> string) iop" where
  "previous_phase h =
     obind (oget (\<lambda>s. hd_previous h (ic_trace s))) (\<lambda>r.
     case r of Inl x \<Rightarrow> oraise (Propagated x) | Inr p \<Rightarrow> oret p)"

definition recover :: "handling \<Rightarrow> agent_exn \<Rightarrow> unit iop" where
  "recover h e =
     obind (omap (capture_partial h e)) (\<lambda>_.
     if \<not> hd_operational h then oret ()
     else
       obind (previous_phase h) (\<lambda>(phase, state).
       if e = AgentCancelled
       then journal_phase h ''finished'' (final_state phase ''cancelled'') ''execution_cancelled''
              [(''resolved'', PBool False), (''replay_allowed'', PBool False)]
       else if state = ''running''
       then journal_phase h ''finished'' (final_state phase ''failed'') ''execution_failed''
              [(''resolved'', PBool False), (''failure_category'', PStr (failure_category e))]
       else oret ()))"

text \<open>The \<open>finally\<close> block.\<close>

definition release :: "handling \<Rightarrow> bool \<Rightarrow> string \<Rightarrow> incident \<Rightarrow> incident" where
  "release h resolved reason s =
     iemit (Released resolved reason)
       (s\<lparr>ic_breaker := finish_incident (hd_incident h) resolved reason (ic_breaker s)\<rparr>)"

definition guarded_chain :: "handling \<Rightarrow> pydict iop" where
  "guarded_chain h s =
     (case incident_chain h s of
        (Inr (stored, resolved, reason), s') \<Rightarrow> (Inr stored, release h resolved reason s')
      | (Inl e, s') \<Rightarrow>
          (case recover h e s' of
             (Inl e', s'') \<Rightarrow> (Inl e', release h False '''' s'')
           | (Inr _, s'') \<Rightarrow>
               (Inl e, release h False (if e = AgentCancelled then '''' else ''system_error'') s'')))"

definition handle_incident :: "handling \<Rightarrow> pydict iop" where
  "handle_incident h =
     obind (olift (checked_incident h)) (\<lambda>h1.
     obind (oget (\<lambda>s. hd_provider h1 \<noteq> None \<and> is_stored (canonical_path h1) s)) (\<lambda>taken.
     if taken then oraise (Propagated (plain_error ''FileExistsError''))
     else
       obind (olift (checked_execution h1)) (\<lambda>h2.
       obind (open_incident h2) (\<lambda>_. guarded_chain h2))))"

definition start_handling :: "breaker \<Rightarrow> gate \<Rightarrow> (string \<times> pydict) list \<Rightarrow> incident" where
  "start_handling b g files = \<lparr>ic_trace = [], ic_breaker = b, ic_gate = g, ic_files = files, ic_locals = []\<rparr>"

end
