(* ===== verification/AgentSafety.thy ===== *)
theory AgentSafety
  imports AgentRun
begin

text \<open>
  What every run of an agent keeps, whatever the model replies and whatever providers, tools,
  observers and approvers answer.  Operations are triples over the state; a locale states what a
  predicate must survive to hold through everything but the two effects that touch a cluster, and its
  extension what it must survive there.
\<close>

section \<open>Triples\<close>

text \<open>From \<open>P\<close>, a returned value satisfies \<open>Q\<close> with its state, an exception leaves a state in \<open>E\<close>.\<close>

definition hoare :: "('s \<Rightarrow> bool) \<Rightarrow> ('s, 'a) st \<Rightarrow> ('a \<Rightarrow> 's \<Rightarrow> bool) \<Rightarrow> ('s \<Rightarrow> bool) \<Rightarrow> bool" where
  "hoare P m Q E \<longleftrightarrow> (\<forall>s. P s \<longrightarrow> (case m s of (Inr a, s') \<Rightarrow> Q a s' | (Inl _, s') \<Rightarrow> E s'))"

abbreviation keeps :: "('s \<Rightarrow> bool) \<Rightarrow> ('s, 'a) st \<Rightarrow> bool" where
  "keeps K m \<equiv> hoare K m (\<lambda>_. K) K"

lemma hoareI: "(\<And>s. P s \<Longrightarrow> (case m s of (Inr a, s') \<Rightarrow> Q a s' | (Inl _, s') \<Rightarrow> E s')) \<Longrightarrow> hoare P m Q E"
  by (simp add: hoare_def)

lemma hoareD_Inr: "hoare P m Q E \<Longrightarrow> P s \<Longrightarrow> m s = (Inr a, s') \<Longrightarrow> Q a s'"
  and hoareD_Inl: "hoare P m Q E \<Longrightarrow> P s \<Longrightarrow> m s = (Inl e, s') \<Longrightarrow> E s'"
  by (force simp: hoare_def)+

lemma hoare_bind:
  assumes "hoare P m R E" and "\<And>a. hoare (R a) (f a) Q E"
  shows "hoare P (obind m f) Q E"
proof (rule hoareI)
  fix s assume "P s"
  obtain r s' where m: "m s = (r, s')" by force
  show "case obind m f s of (Inl e, s') \<Rightarrow> E s' | (Inr a, s') \<Rightarrow> Q a s'"
  proof (cases r)
    case (Inl e)
    with assms(1) \<open>P s\<close> m show ?thesis by (simp add: obind_def hoareD_Inl)
  next
    case (Inr a)
    with assms(1) \<open>P s\<close> m have "R a s'" by (simp add: hoareD_Inr)
    with assms(2)[of a] show ?thesis by (simp add: obind_def m Inr hoare_def)
  qed
qed

lemma hoare_conseq:
  assumes "hoare P' m Q' E'" and "\<And>s. P s \<Longrightarrow> P' s" and "\<And>a s. Q' a s \<Longrightarrow> Q a s" and "\<And>s. E' s \<Longrightarrow> E s"
  shows "hoare P m Q E"
proof (rule hoareI)
  fix s assume "P s"
  then have "P' s" by (rule assms(2))
  obtain r s' where "m s = (r, s')" by force
  then show "case m s of (Inl e, s') \<Rightarrow> E s' | (Inr a, s') \<Rightarrow> Q a s'"
    using hoareD_Inr[OF assms(1) \<open>P' s\<close>] hoareD_Inl[OF assms(1) \<open>P' s\<close>] assms(3,4) by (cases r) auto
qed

lemma hoare_ret: "hoare P (oret a) Q E \<longleftrightarrow> (\<forall>s. P s \<longrightarrow> Q a s)"
  and hoare_raise: "hoare P (oraise e) Q E \<longleftrightarrow> (\<forall>s. P s \<longrightarrow> E s)"
  and hoare_get: "hoare P (oget f) Q E \<longleftrightarrow> (\<forall>s. P s \<longrightarrow> Q (f s) s)"
  and hoare_map: "hoare P (omap g) Q' E \<longleftrightarrow> (\<forall>s. P s \<longrightarrow> Q' () (g s))"
  by (simp_all add: hoare_def oret_def oraise_def oget_def omap_def)

text \<open>A condition that does not mention the state is a hypothesis.\<close>

lemma hoare_pure: "hoare (\<lambda>s. P s \<and> c) m Q E \<longleftrightarrow> (c \<longrightarrow> hoare P m Q E)"
  by (auto simp: hoare_def)

lemma hoare_lift: "(\<And>a s. P s \<Longrightarrow> r = Inr a \<Longrightarrow> Q a s) \<Longrightarrow> (\<And>s. P s \<Longrightarrow> E s) \<Longrightarrow> hoare P (olift r) Q E"
  by (auto simp: olift_def hoare_ret hoare_raise split: sum.splits)

lemma keeps_simps [simp]:
  "keeps K (oret a)" "keeps K (oraise e)" "keeps K (oget f)" "keeps K (olift r)"
  by (auto simp: hoare_ret hoare_raise hoare_get hoare_lift)

lemma keeps_bind: "keeps K m \<Longrightarrow> (\<And>a. keeps K (f a)) \<Longrightarrow> keeps K (obind m f)"
  by (rule hoare_bind)

lemma keeps_if: "keeps K m \<Longrightarrow> keeps K n \<Longrightarrow> keeps K (if b then m else n)"
  by simp

lemma keeps_map: "(\<And>s. K s \<Longrightarrow> K (f s)) \<Longrightarrow> keeps K (omap f)"
  by (simp add: hoare_map)

section \<open>Quiet changes\<close>

text \<open>Effects that touch no cluster and spend no permit.\<close>

fun quiet_effect :: "effect \<Rightarrow> bool" where
  "quiet_effect (CalledTool _ _) = False"
| "quiet_effect (Executed _) = False"
| "quiet_effect (PermitChecked _ _ _) = False"
| "quiet_effect _ = True"

text \<open>States that differ in records, messages and the breaker only.\<close>

definition same_core :: "agent \<Rightarrow> agent \<Rightarrow> bool" where
  "same_core s s' \<longleftrightarrow>
     ag_trace s' = ag_trace s \<and> ag_gate s' = ag_gate s \<and> ag_seen s' = ag_seen s \<and>
     ag_counts s' = ag_counts s \<and> ag_mutation_in_response s' = ag_mutation_in_response s \<and>
     ag_mutated s' = ag_mutated s \<and> ag_resolved s' = ag_resolved s"

lemma same_core_updates [simp]:
  "same_core s (s\<lparr>ag_breaker := b\<rparr>)" "same_core s (s\<lparr>ag_turn_names := ns\<rparr>)"
  "same_core s (s\<lparr>ag_executed := x\<rparr>)" "same_core s (s\<lparr>ag_tracker := k\<rparr>)"
  "same_core s (s\<lparr>ag_retry_given := y\<rparr>)" "same_core s (s\<lparr>ag_last := l\<rparr>)"
  "same_core s (s\<lparr>ag_messages := ms\<rparr>)" "same_core s (s\<lparr>ag_turn_ref := q, ag_trajectory := t\<rparr>)"
  "same_core s (s\<lparr>ag_trajectory := t\<rparr>)" "same_core s (s\<lparr>ag_approval := a\<rparr>)"
  "same_core s (s\<lparr>ag_approval_blocked := u\<rparr>)"
  by (simp_all add: same_core_def)

lemma same_core_ops [simp]:
  "same_core s (add_entry d s)" "same_core s (add_observation d s)" "same_core s (add_message m s)"
  "same_core s (update_turn f s)" "same_core s (note_outcome st oc s)"
  "same_core s (mark_terminal jb name args reason s)" "same_core s (note_terminal jb name args out s)"
  "same_core s (update_exchange p s)" "same_core s (note_approval patch s)" "same_core s (block_approval verdict s)"
  by (simp_all add: same_core_def add_entry_def add_observation_def add_message_def update_turn_def
      note_outcome_def mark_terminal_def note_terminal_def update_exchange_def note_approval_def block_approval_def Let_def
      split: option.splits)

lemma consume_permit_eq:
  "consume_permit jb permit action s =
     (case action_digest (jb_ff jb) (jb_sha jb) action of
        Inl e \<Rightarrow> (Inl (PyError e), s)
      | Inr d \<Rightarrow>
          let now = jb_now jb (ag_trace s);
              s1 = s\<lparr>ag_gate := gate_step (jb_ff jb) (jb_sha jb) (ag_gate s) (Consume now now permit (jb_incident jb) d)\<rparr>
          in case fst (consume_action_permit now now permit (jb_incident jb) d (ag_gate s)) of
               Inl e \<Rightarrow> (Inl (PyError e), s1)
             | Inr ok \<Rightarrow> (Inr ok, emit (PermitChecked permit d ok) s1))"
  by (simp add: consume_permit_def obind_def olift_def oget_def gate_call_def omap_def oret_def oraise_def Let_def
      del: gate_step.simps split: sum.split)

locale loop_invariant =
  fixes jb :: job and K :: "agent \<Rightarrow> bool"
  assumes quiet: "K s \<Longrightarrow> quiet_effect e \<Longrightarrow> K (emit e s)"
    and core: "K s \<Longrightarrow> same_core s s' \<Longrightarrow> K s'"
    and others: "K s \<Longrightarrow> K (await_others jb s)"
    and gated: "K s \<Longrightarrow> K (s\<lparr>ag_gate := gate_step (jb_ff jb) (jb_sha jb) (ag_gate s) call\<rparr>)"
    and checked: "K s \<Longrightarrow> fst (consume_action_permit t t p (jb_incident jb) d g) = Inr ok \<Longrightarrow>
      ag_gate s = gate_step (jb_ff jb) (jb_sha jb) g (Consume t t p (jb_incident jb) d) \<Longrightarrow>
      K (s\<lparr>ag_gate := g\<rparr>) \<Longrightarrow> K (emit (PermitChecked p d ok) s)"
begin

lemma keeps_core: "(\<And>s. same_core s (f s)) \<Longrightarrow> keeps K (omap f)"
  by (rule keeps_map) (blast intro: core)

lemma keeps_emit: "quiet_effect e \<Longrightarrow> keeps K (omap (emit e))"
  by (rule keeps_map) (rule quiet)

lemma keeps_audit_result: "keeps K (omap (audit_result jb' name args text mark))"
  unfolding audit_result_def by (rule keeps_emit) simp

lemma keeps_ask: "quiet_effect e \<Longrightarrow> keeps K (ask jb e f)"
  unfolding ask_def by (rule keeps_bind[OF keeps_emit]) (auto simp: hoare_def others)

lemma keeps_reply: "keeps K (reply_message tc text)"
  unfolding reply_message_def by (intro keeps_bind keeps_core) simp_all

lemma keeps_note: "keeps K (progress_note jb' phase event patch)"
  unfolding progress_note_def by (intro keeps_bind keeps_emit) (auto split: option.split)

lemma keeps_observer: "keeps K (observe_after_mutation jb observer action)"
  unfolding observe_after_mutation_def
  by (auto intro!: keeps_bind keeps_ask keeps_emit split: answer.split)

lemma keeps_record_blocked: "keeps K (record_blocked_tool jb' turn tc name args out mark pol)"
  unfolding record_blocked_tool_def Let_def
  by (intro keeps_bind keeps_core keeps_audit_result keeps_reply) simp_all

lemma keeps_blocked:
  "keeps K (blocked_by_policy jb' turn tc name args error)"
  "keeps K (invalid_arguments jb' turn tc name raw error)"
  "keeps K (blocked_by_breaker jb' turn tc name args error)"
  "keeps K (stopped_call jb' turn tc name args out mark)"
  unfolding blocked_by_policy_def invalid_arguments_def blocked_by_breaker_def stopped_call_def Let_def
  by (intro keeps_bind keeps_core keeps_audit_result keeps_reply; simp)+

lemma keeps_breaker: "keeps K (check_breaker jb' name args)"
  by (auto simp: hoare_def check_breaker_def split: prod.split intro: core)

lemma keeps_gate_call: "keeps K (gate_call jb e)"
  unfolding gate_call_def by (rule keeps_map) (rule gated)

lemma keeps_wait: "keeps K (wait_for_action_decision jb ref tok)"
proof (rule hoareI)
  fix s assume "K s"
  define now where "now = jb_now jb (ag_trace s)"
  define s1 where "s1 = await_others jb (s\<lparr>ag_gate := gate_step (jb_ff jb) (jb_sha jb) (ag_gate s)
      (BeginActionWait now (jb_incident jb) tok)\<rparr>)"
  have "K s1" unfolding s1_def by (intro others gated \<open>K s\<close>)
  then have "K (s1\<lparr>ag_gate := gate_step (jb_ff jb) (jb_sha jb) (ag_gate s1) e\<rparr>)" for e by (rule gated)
  then show "case wait_for_action_decision jb ref tok s of (Inl e, s') \<Rightarrow> K s' | (Inr a, s') \<Rightarrow> K s'"
    using \<open>K s\<close> unfolding wait_for_action_decision_def Let_def now_def[symmetric] s1_def[symmetric]
    by (auto simp del: gate_step.simps split: prod.split begin_result.split finished.split)
qed

lemma keeps_audit_action: "keeps K (omap (audit_action jb' kind action summary who mark))"
  unfolding audit_action_def by (rule keeps_emit) simp

lemma keeps_request: "keeps K (request_selected_action jb severity action)"
  unfolding request_selected_action_def Let_def
  by (auto intro!: keeps_bind keeps_gate_call keeps_audit_action keeps_wait split: prod.split)

lemma keeps_progress: "keeps K (progress_if jb' phase event patch)"
  unfolding progress_if_def by (intro keeps_if keeps_bind keeps_note) simp_all

lemma keeps_request_exact: "keeps K (request_exact_action jb action)"
  unfolding request_exact_action_def
  by (auto intro!: keeps_bind keeps_core keeps_gate_call split: prod.split sum.split)

lemma keeps_decided: "keeps K (decided_approval jb' action req answered)"
  unfolding decided_approval_def Let_def
  by (auto intro!: keeps_bind keeps_core keeps_progress keeps_audit_action split: prod.split)

lemma keeps_approve: "keeps K (approve_exact_action jb action asker)"
  unfolding approve_exact_action_def
  by (auto intro!: keeps_bind keeps_core keeps_request_exact keeps_progress keeps_audit_action keeps_emit
      keeps_wait keeps_decided split: option.split prod.split)

lemma keeps_approval_answer: "keeps K (approval_answer jb severity action)"
  unfolding approval_answer_def
  by (auto intro!: keeps_bind keeps_request keeps_approve split: prod.split)

lemma keeps_prepare: "keeps K (prepare_mutation jb turn tc name args)"
  unfolding prepare_mutation_def
  by (auto intro!: keeps_bind keeps_ask keeps_note keeps_record_blocked split: answer.split)

lemma keeps_refuse: "keeps K (refuse jb turn tc name args mode decision)"
  unfolding refuse_def Let_def by (intro keeps_bind keeps_record_blocked) simp_all

lemma keeps_consume: "keeps K (consume_permit jb permit action)"
proof (rule hoareI)
  fix s assume K: "K s"
  then have g: "K (s\<lparr>ag_gate := gate_step (jb_ff jb) (jb_sha jb) (ag_gate s) call\<rparr>)" for call by (rule gated)
  show "case consume_permit jb permit action s of (Inl e, s') \<Rightarrow> K s' | (Inr ok, s') \<Rightarrow> K s'"
    unfolding consume_permit_eq Let_def
    by (auto simp del: gate_step.simps simp: K g intro!: checked[where g = "ag_gate s", OF g] split: sum.split)
qed

end

section \<open>What an authorised call may rely on\<close>

text \<open>The last effect is the acceptance of a permit for exactly this action.\<close>

definition permit_tail :: "job \<Rightarrow> effect list \<Rightarrow> pydict \<Rightarrow> bool" where
  "permit_tail jb t action \<longleftrightarrow>
     (case rev t of
        PermitChecked _ d True # _ \<Rightarrow> action_digest (jb_ff jb) (jb_sha jb) action = Inr d
      | _ \<Rightarrow> False)"

text \<open>The severity of the run needs no approval.\<close>

definition runs_automatically :: "job \<Rightarrow> bool" where
  "runs_automatically jb \<longleftrightarrow>
     (case extract_severity (jb_fmt jb) (PDict (jb_input jb)) of
        Inr severity \<Rightarrow> approval_mode_for_severity severity = ''auto'' | Inl _ \<Rightarrow> False)"

definition plain_action :: "string \<Rightarrow> pydict \<Rightarrow> pydict" where
  "plain_action name args = [(''tool'', PStr name), (''arguments'', PDict args)]"

definition entitled :: "job \<Rightarrow> string \<Rightarrow> pydict \<Rightarrow> prepared_action option \<Rightarrow> effect list \<Rightarrow> bool" where
  "entitled jb name args p t \<longleftrightarrow>
     (case p of
        Some a \<Rightarrow> guarded_mutation jb name args \<and> permit_tail jb t (approval_action a)
      | None \<Rightarrow> guarded_mutation jb name args \<longrightarrow>
          \<not> jb_operational jb \<and> (runs_automatically jb \<or> permit_tail jb t (plain_action name args)))"

lemma severity_of_context:
  "extract_severity fmt (PDict (runtime_context jb s)) = extract_severity fmt (PDict (jb_input jb))"
  by (simp add: extract_severity_def runtime_context_def dget_or_def update_conv)

lemma auto_or_asked:
  "approval_mode_for_severity sev = ''auto'' \<or> approval_mode_for_severity sev = ''manual'' \<or>
   approval_mode_for_severity sev = ''approve''"
  by (auto simp: approval_mode_for_severity_def APPROVAL_POLICY_def)

text \<open>The action that is approved is the one that will run.\<close>

definition matches_call :: "job \<Rightarrow> string \<Rightarrow> pydict \<Rightarrow> pydict \<Rightarrow> prepared_action option \<Rightarrow> bool" where
  "matches_call jb name args action p \<longleftrightarrow>
     (case p of None \<Rightarrow> \<not> jb_operational jb \<and> action = plain_action name args
              | Some a \<Rightarrow> jb_operational jb \<and> action = approval_action a)"

context loop_invariant begin

lemma consume_tail:
  "hoare K (consume_permit jb permit action) (\<lambda>ok s. K s \<and> (ok \<longrightarrow> permit_tail jb (ag_trace s) action)) K"
proof (rule hoareI)
  fix s assume "K s"
  then have "case consume_permit jb permit action s of (Inl e, s') \<Rightarrow> K s' | (Inr ok, s') \<Rightarrow> K s'"
    using keeps_consume by (simp add: hoare_def)
  then show "case consume_permit jb permit action s of (Inl e, s') \<Rightarrow> K s'
      | (Inr ok, s') \<Rightarrow> K s' \<and> (ok \<longrightarrow> permit_tail jb (ag_trace s') action)"
    unfolding consume_permit_eq Let_def
    by (auto simp del: gate_step.simps simp: permit_tail_def emit_def split: sum.splits)
qed

lemma deny_decides: "hoare K (deny jb name args answered approval) (\<lambda>r s. K s \<and> fst r \<noteq> None) K"
  unfolding deny_def Let_def by (auto simp: hoare_ret intro!: hoare_bind[OF keeps_emit])

lemma decide_tail:
  "hoare K (decide jb name args mode severity action)
     (\<lambda>r s. K s \<and> (fst r = None \<longrightarrow>
        (mode \<noteq> ''manual'' \<and> mode \<noteq> ''approve'') \<or> permit_tail jb (ag_trace s) action)) K"
proof -
  have asked: "hoare K (obind (consume_permit jb permit action) (\<lambda>accepted.
      if accepted then oret (None, approval) else deny jb name args answered approval))
      (\<lambda>r s. K s \<and> (fst r = None \<longrightarrow> permit_tail jb (ag_trace s) action)) K"
    for permit answered approval
  proof (rule hoare_bind[OF consume_tail])
    show "hoare (\<lambda>s. K s \<and> (accepted \<longrightarrow> permit_tail jb (ag_trace s) action))
        (if accepted then oret (None, approval) else deny jb name args answered approval)
        (\<lambda>r s. K s \<and> (fst r = None \<longrightarrow> permit_tail jb (ag_trace s) action)) K" for accepted
      by (cases accepted) (auto simp: hoare_ret intro: hoare_conseq[OF deny_decides])
  qed
  show ?thesis
    unfolding decide_def
    by (auto simp: hoare_ret intro!: hoare_bind[OF keeps_approval_answer] asked split: prod.split)
qed

lemma prepare_matches:
  "hoare K (prepare_mutation jb turn tc name args)
     (\<lambda>r s. K s \<and> (\<forall>action p. r = Inr (action, p) \<longrightarrow> matches_call jb name args action p)) K"
proof -
  have failed: "hoare K (obind (record_blocked_tool jb turn tc name args out mark pol) (\<lambda>_.
      obind (oget f) (\<lambda>result. oret (Inl result))))
     (\<lambda>r s. K s \<and> (\<forall>action p. r = Inr (action, p) \<longrightarrow> matches_call jb name args action p)) K"
    for out mark pol and f :: "agent \<Rightarrow> pydict"
    by (rule hoare_bind[OF keeps_record_blocked], rule hoare_bind[where R = "\<lambda>_. K"])
      (simp_all add: hoare_ret)
  have ready: "hoare K (obind (progress_note jb phase event patch) (\<lambda>_. oret (Inr (approval_action p, Some p))))
     (\<lambda>r s. K s \<and> (\<forall>action q. r = Inr (action, q) \<longrightarrow> matches_call jb name args action q)) K"
    if "jb_operational jb" for phase event patch p
    by (rule hoare_bind[OF keeps_note]) (simp add: hoare_ret matches_call_def that)
  show ?thesis
    unfolding prepare_mutation_def plain_action_def[symmetric]
    by (auto simp: hoare_ret hoare_raise matches_call_def[of _ _ _ _ None]
        intro!: hoare_bind[OF keeps_ask] failed ready split: answer.split)
qed

lemma refuse_refuses:
  "hoare K (refuse jb turn tc name args mode d) (\<lambda>a s. K s \<and> (\<exists>result. a = Refuse result)) K"
  unfolding refuse_def Let_def
  by (rule hoare_bind[OF keeps_record_blocked], rule hoare_bind[where R = "\<lambda>_. K"]) (simp_all add: hoare_ret)

lemma authorize_entitles:
  "hoare K (authorize jb turn tc name args)
     (\<lambda>a s. K s \<and> (case a of Proceed p _ \<Rightarrow> entitled jb name args p (ag_trace s) | Refuse _ \<Rightarrow> True)) K"
  (is "hoare K _ ?Q K")
proof (cases "guarded_mutation jb name args")
  case False
  then show ?thesis by (simp add: authorize_def hoare_ret entitled_def)
next
  case guarded: True
  have proceed: "hoare (\<lambda>s. K s \<and> (action_mode jb severity \<noteq> ''manual'' \<and> action_mode jb severity \<noteq> ''approve'' \<or>
        permit_tail jb (ag_trace s) action)) (oret (Proceed p approval)) ?Q K"
    if "extract_severity (jb_fmt jb) (PDict (jb_input jb)) = Inr severity" and "matches_call jb name args action p"
    for severity action p approval
    using that guarded auto_or_asked[of severity]
    by (auto simp: hoare_ret entitled_def runs_automatically_def action_mode_def matches_call_def
        split: option.splits if_splits)
  have refused: "hoare K (refuse jb turn tc name args mode d) ?Q K" for mode d
    by (rule hoare_conseq[OF refuse_refuses]) auto
  have decided: "hoare K (obind (decide jb name args (action_mode jb severity) severity action) (\<lambda>(decision, approval).
      case decision of None \<Rightarrow> oret (Proceed p approval)
        | Some d \<Rightarrow> refuse jb turn tc name args (action_mode jb severity) d)) ?Q K"
    if "extract_severity (jb_fmt jb) (PDict (jb_input jb)) = Inr severity" and "matches_call jb name args action p"
    for severity action p
    by (rule hoare_bind[OF decide_tail])
      (auto split: option.split intro: proceed[OF that] refused)
  have prepared: "hoare K (obind (prepare_mutation jb turn tc name args) (\<lambda>prepared.
          case prepared of
            Inl result \<Rightarrow> oret (Refuse result)
          | Inr (action, p) \<Rightarrow>
              obind (decide jb name args (action_mode jb severity) severity action) (\<lambda>(decision, approval).
                case decision of
                  None \<Rightarrow> oret (Proceed p approval)
                | Some d \<Rightarrow> refuse jb turn tc name args (action_mode jb severity) d))) ?Q K"
    if "extract_severity (jb_fmt jb) (PDict (jb_input jb)) = Inr severity" for severity
    by (rule hoare_bind[OF prepare_matches])
      (auto simp: hoare_ret hoare_pure split: sum.split intro: decided[OF that])
  show ?thesis
    unfolding authorize_def severity_of_context
    using guarded
    by (simp, intro hoare_bind[where R = "\<lambda>r s. K s \<and> r = extract_severity (jb_fmt jb) (PDict (jb_input jb))"]
        hoare_bind[where R = "\<lambda>sev s. K s \<and> extract_severity (jb_fmt jb) (PDict (jb_input jb)) = Inr sev"])
      (auto simp: hoare_get hoare_pure intro: hoare_lift prepared)
qed
end

end
