(* ===== verification/AgentCalls.thy ===== *)
theory AgentCalls
  imports AgentSafety
begin

text \<open>
  The run of an agent as a whole: completions, conclusions and every step of a tool call keep a
  predicate that its locale's laws describe.  A predicate that satisfies them holds at the end of every
  run, whether it returns or raises.
\<close>

section \<open>Answers, completions and conclusions\<close>

lemma hoareD: "hoare P m Q E \<Longrightarrow> P s \<Longrightarrow> (case m s of (Inr a, s') \<Rightarrow> Q a s' | (Inl _, s') \<Rightarrow> E s')"
  by (simp add: hoare_def)

lemma hoare_catch:
  assumes "hoare P m Q E'" and "\<And>e. hoare E' (h e) Q E"
  shows "hoare P (ocatch m h) Q E"
proof (rule hoareI)
  fix s assume "P s"
  obtain r s' where m: "m s = (r, s')" by force
  show "case ocatch m h s of (Inl e, s') \<Rightarrow> E s' | (Inr a, s') \<Rightarrow> Q a s'"
  proof (cases r)
    case (Inl e)
    with assms(1) \<open>P s\<close> m have "E' s'" by (simp add: hoareD_Inl)
    with assms(2)[of e] show ?thesis by (simp add: ocatch_def m Inl hoare_def)
  next
    case (Inr a)
    with assms(1) \<open>P s\<close> m show ?thesis by (simp add: ocatch_def hoareD_Inr)
  qed
qed

lemma check_breaker_core: "same_core s (snd (check_breaker jb name args s))"
  by (simp add: check_breaker_def split: prod.split)

context loop_invariant begin

lemma keeps_failures:
  "keeps K (native_failure jb' category)"
  "keeps K (omap (journal_completion_failure jb' kind category))"
  unfolding native_failure_def journal_completion_failure_def
  by (intro keeps_bind keeps_core keeps_emit; simp)+

text \<open>A completion restores the invariant when its effect does.\<close>

lemma completion_restores:
  assumes opened: "\<And>s p. P s \<Longrightarrow> K (emit (Completion p) s)" and core: "\<And>s s'. P s \<Longrightarrow> same_core s s' \<Longrightarrow> P s'"
  shows "hoare P (request_completion jb turn payload) (\<lambda>_. K) K"
proof -
  have asked: "hoare P (ask jb (Completion p) f) (\<lambda>_. K) K" for p and f :: "effect list \<Rightarrow> pyval answer"
    unfolding ask_def
    by (rule hoare_bind[where R = "\<lambda>_. K"]) (auto simp: hoare_map opened, auto simp: hoare_def others)
  have entered: "hoare P (omap (add_entry d)) (\<lambda>_. P) K" for d
    by (auto simp: hoare_map intro: core[OF _ same_core_ops(1)])
  have native: "hoare P (request_native_completion jb turn payload) (\<lambda>_. K) K"
    unfolding request_native_completion_def
    by (auto intro!: hoare_bind[OF asked] hoare_bind[OF entered] keeps_bind keeps_core keeps_failures
        simp: hoare_ret hoare_raise split: answer.split option.split)
  have explicit: "hoare P (request_explicit_completion jb provider turn payload) (\<lambda>_. K) K" for provider
    unfolding request_explicit_completion_def
    by (rule hoare_bind[OF entered], rule hoare_bind[OF asked])
      (auto intro!: keeps_bind keeps_core keeps_failures split: answer.split)
  show ?thesis
    unfolding request_completion_def by (auto intro: native explicit split: option.split)
qed

lemma keeps_completion: "keeps K (request_completion jb turn payload)"
  by (rule completion_restores) (auto intro: quiet core)

lemma keeps_forced: "keeps K (forced_conclusion jb turn)"
proof -
  have "keeps K (forced_answer jb turn)"
    unfolding forced_answer_def Let_def by (intro keeps_bind keeps_completion) simp_all
  moreover have "keeps K (forced_handler jb e)" for e
    unfolding forced_handler_def Let_def by (auto intro!: keeps_bind split: agent_exn.split)
  ultimately have "keeps K (force_json_conclusion jb turn)"
    unfolding force_json_conclusion_def by (rule hoare_catch)
  then show ?thesis
    unfolding forced_conclusion_def
    by (auto intro!: keeps_bind keeps_core split: prod.split)
qed

lemma keeps_conclude: "keeps K (conclude_run jb turn msg)"
  unfolding conclude_run_def Let_def
  by (intro keeps_bind keeps_if keeps_forced keeps_core; simp)

lemma keeps_retry: "keeps K (grant_retry jb turn)"
  unfolding grant_retry_def by (intro keeps_bind keeps_core keeps_emit; simp)

lemma keeps_read: "keeps K (read_reply jb turn response)"
  unfolding read_reply_def Let_def
  by (intro keeps_bind keeps_core keeps_if; simp)

lemma keeps_exhausted: "keeps K (exhausted_run jb n)"
  unfolding exhausted_run_def note_exhausted_def Let_def
  by (auto intro!: keeps_bind keeps_forced keeps_core split: prod.split option.split)

lemma keeps_track: "keeps K (track name args out)"
  by (auto simp: hoare_def track_def split: prod.split intro: core)

lemma keeps_conclude_observed: "keeps K (conclude_observed jb' turn name args obs unknown)"
  unfolding conclude_observed_def Let_def by (intro keeps_bind keeps_core; simp)

end

text \<open>Once a call was observed the mark of the response stays.\<close>

lemma marked_invariant: "loop_invariant jb K \<Longrightarrow> loop_invariant jb (\<lambda>s. K s \<and> ag_mutation_in_response s)"
  unfolding loop_invariant_def
  by (auto simp: same_core_def emit_def await_others_def)

section \<open>Through the calls that touch a cluster\<close>

text \<open>
  \<open>R\<close> holds of a call that was admitted and counted, \<open>M\<close> once its tool was called, and \<open>E\<close> of every
  state, the ones an exception leaves included.
\<close>

definition admissible :: "job \<Rightarrow> string \<Rightarrow> pydict \<Rightarrow> agent \<Rightarrow> bool" where
  "admissible jb name args s \<longleftrightarrow>
     name \<in> effective_role_tools (jb_role jb) (jb_operational jb) \<and>
     (guarded_mutation jb name args \<longrightarrow> \<not> ag_mutation_in_response s)"

definition within_caps :: "job \<Rightarrow> string \<Rightarrow> pydict \<Rightarrow> agent \<Rightarrow> bool" where
  "within_caps jb name args s \<longleftrightarrow>
     ag_seen s (call_key jb name args) \<le> MAX_IDENTICAL_CALLS \<and> ag_counts s name \<le> tool_cap name"

locale call_invariant = loop_invariant +
  fixes R M :: "string \<Rightarrow> pydict \<Rightarrow> agent \<Rightarrow> bool" and E :: "agent \<Rightarrow> bool"
  assumes ready: "loop_invariant jb (R name args)"
    and after: "loop_invariant jb (M name args)"
    and failing: "K s \<Longrightarrow> E s" "M name args s \<Longrightarrow> E s" "R name args s \<Longrightarrow> K s"
    and opened: "K s \<Longrightarrow>
      K (emit (Completion p) (s\<lparr>ag_turn_names := [], ag_mutation_in_response := False\<rparr>))"
    and counted: "K s \<Longrightarrow> K (count_seen jb name args s)" "K s \<Longrightarrow> K (count_tool name s)"
    and admitted: "K s \<Longrightarrow> admissible jb name args s \<Longrightarrow>
      within_caps jb name args (count_tool name (count_seen jb name args s)) \<Longrightarrow>
      R name args (count_tool name (count_seen jb name args s))"
    and called: "R name args s \<Longrightarrow> name \<in> REGISTERED_TOOLS \<Longrightarrow> entitled jb name args None (ag_trace s) \<Longrightarrow>
      M name args (emit (CalledTool name args) s)"
    and executed: "R name args s \<Longrightarrow> guarded_mutation jb name args \<Longrightarrow>
      ag_trace s = t @ [Noted ''applying'' ''mutation_started'' d] \<Longrightarrow> permit_tail jb t (approval_action x) \<Longrightarrow>
      M name args (emit (Executed x) s)"
    and noted: "M name args s \<Longrightarrow> M name args (note_execution jb tc name args out s)"
    and observed: "M name args s \<Longrightarrow> guarded_mutation jb name args \<Longrightarrow> K (s\<lparr>ag_mutation_in_response := True\<rparr>)"
    and resolved: "K s \<Longrightarrow> ag_mutation_in_response s \<Longrightarrow> K (s\<lparr>ag_resolved := r\<rparr>)"
    and settled: "M name args s \<Longrightarrow> \<not> guarded_mutation jb name args \<Longrightarrow> K s"
begin

lemmas ready_keeps = loop_invariant.keeps_note[OF ready] loop_invariant.authorize_entitles[OF ready]
lemmas after_keeps = loop_invariant.keeps_note[OF after] loop_invariant.others[OF after]
  loop_invariant.core[OF after]

abbreviation runs :: "(agent \<Rightarrow> bool) \<Rightarrow> 'a op \<Rightarrow> ('a \<Rightarrow> agent \<Rightarrow> bool) \<Rightarrow> bool" where
  "runs P m Q \<equiv> hoare P m Q E"

lemma runs_weaken: "runs K m (\<lambda>_. K) \<Longrightarrow> (\<And>s. P s \<Longrightarrow> K s) \<Longrightarrow> runs P m (\<lambda>_. K)"
  by (erule hoare_conseq)

lemma runs_keeps: "keeps K m \<Longrightarrow> runs K m (\<lambda>_. K)"
  by (erule hoare_conseq) (auto intro: failing)

lemma runs_ready: "hoare (R name args) m Q (R name args) \<Longrightarrow> runs (R name args) m Q"
  by (erule hoare_conseq) (auto intro: failing)

lemma runs_after: "hoare (M name args) m Q (M name args) \<Longrightarrow> runs (M name args) m Q"
  by (erule hoare_conseq) (auto intro: failing)

lemma runs_prepared:
  "runs (\<lambda>s. R name args s \<and> guarded_mutation jb name args \<and> permit_tail jb (ag_trace s) (approval_action p))
     (run_prepared jb p approval) (\<lambda>_. M name args)"
proof -
  let ?P = "\<lambda>s. R name args s \<and> guarded_mutation jb name args \<and> permit_tail jb (ag_trace s) (approval_action p)"
  let ?N = "\<lambda>s. R name args s \<and> guarded_mutation jb name args \<and>
    (\<exists>t d. ag_trace s = t @ [Noted ''applying'' ''mutation_started'' d] \<and> permit_tail jb t (approval_action p))"
  have noting: "runs ?P (progress_note jb ''applying'' ''mutation_started'' d) (\<lambda>_. ?N)" for d
  proof (rule hoareI)
    fix s assume P: "?P s"
    then have R: "R name args (emit (Noted ''applying'' ''mutation_started'' d) s)"
      by (auto intro: loop_invariant.quiet[OF ready])
    moreover from R have "E (emit (Noted ''applying'' ''mutation_started'' d) s)" by (auto intro: failing)
    ultimately show "case progress_note jb ''applying'' ''mutation_started'' d s of
        (Inl e, s') \<Rightarrow> E s' | (Inr a, s') \<Rightarrow> ?N s'"
      using P by (auto simp: progress_note_def obind_def omap_def oget_def oret_def oraise_def emit_def split: option.split)
  qed
  have asking: "runs ?N (ask jb (Executed p) f) (\<lambda>_. M name args)" for f :: "effect list \<Rightarrow> pydict answer"
    unfolding ask_def
    by (rule hoare_bind[where R = "\<lambda>_. M name args"])
      (auto simp: hoare_map intro: executed, auto simp: hoare_def after_keeps)
  have returned: "runs (M name args) (progress_note jb phase event d) (\<lambda>_. M name args)" for phase event d
    by (rule runs_after) (rule after_keeps)
  show ?thesis
    unfolding run_prepared_def
    by (rule hoare_bind[where R = "\<lambda>_. ?P"])
      (auto simp: hoare_get hoare_raise hoare_ret failing
        intro!: hoare_bind[OF noting] hoare_bind[OF asking] hoare_bind[OF returned] split: option.split answer.split)
qed

lemma runs_tool:
  "runs (\<lambda>s. R name args s \<and> name \<in> REGISTERED_TOOLS \<and> entitled jb name args p (ag_trace s))
     (run_tool jb name args p approval) (\<lambda>_. M name args)"
proof (cases p)
  case None
  let ?P = "\<lambda>s. R name args s \<and> name \<in> REGISTERED_TOOLS \<and> entitled jb name args None (ag_trace s)"
  have calling: "runs ?P (omap (emit (CalledTool name args))) (\<lambda>_. M name args)"
    by (auto simp: hoare_map intro: called)
  have answering: "runs (M name args) (obind (oget (\<lambda>s. jb_tool jb (ag_trace s) name args)) (\<lambda>r. case r of
      Inr output \<Rightarrow> oret output | Inl x \<Rightarrow> tool_failure jb (Propagated x) (ra_text x))) (\<lambda>_. M name args)"
    by (rule hoare_bind[where R = "\<lambda>_. M name args"])
      (auto simp: hoare_get hoare_ret tool_failure_def hoare_raise failing split: sum.split)
  show ?thesis
    unfolding run_tool_def None
    using hoare_bind[OF calling answering] by (cases "name \<in> REGISTERED_TOOLS") (simp_all, simp add: hoare_def)
next
  case (Some x)
  show ?thesis
    by (cases "name \<in> REGISTERED_TOOLS")
      (simp_all add: run_tool_def Some entitled_def hoare_conseq[OF runs_prepared[of name args x]], simp add: hoare_def)
qed


lemma runs_observe:
  "runs (\<lambda>s. M name args s \<and> guarded_mutation jb name args) (observe_mutation jb act) (\<lambda>_. K)"
proof -
  have marked: "loop_invariant jb (\<lambda>s. K s \<and> ag_mutation_in_response s)" by (rule marked_invariant) unfold_locales
  have marking: "runs (\<lambda>s. M name args s \<and> guarded_mutation jb name args)
      (omap (\<lambda>s. s\<lparr>ag_mutation_in_response := True\<rparr>)) (\<lambda>_ s. K s \<and> ag_mutation_in_response s)"
    by (auto simp: hoare_map intro: observed)
  have asking: "runs (\<lambda>s. K s \<and> ag_mutation_in_response s) (observe_after_mutation jb observer a)
      (\<lambda>_ s. K s \<and> ag_mutation_in_response s)" for observer a
    by (rule hoare_conseq[OF loop_invariant.keeps_observer[OF marked]]) (auto intro: failing)
  have deciding: "runs (\<lambda>s. K s \<and> ag_mutation_in_response s)
      (obind (case a of
                Cancellation \<Rightarrow> oraise AgentCancelled
              | Failure x \<Rightarrow> oret (observation_error (ra_type x @ '': '' @ ra_text x))
              | Answer (PDict d) \<Rightarrow> oret d
              | Answer _ \<Rightarrow>
                  oret (observation_error ''ValueError: Mutation observer must return a verification object''))
         (\<lambda>obs. obind (omap (\<lambda>s. s\<lparr>ag_resolved := observed_resolved obs\<rparr>)) (\<lambda>_.
           oret (obs, \<not> (observed_resolved obs \<or> observed_failed obs))))) (\<lambda>_. K)" for a
    by (rule hoare_bind[where R = "\<lambda>_ s. K s \<and> ag_mutation_in_response s"])
      (auto simp: hoare_ret hoare_raise hoare_map failing resolved intro!: hoare_bind[where R = "\<lambda>_. K"]
        split: answer.split pyval.split)
  show ?thesis
    unfolding observe_mutation_def Let_def
    by (rule hoare_bind[OF marking], cases "jb_observer jb")
      (simp_all only: option.case hoare_ret, simp, rule hoare_bind[OF asking], rule deciding)
qed

lemma runs_finish:
  "runs (\<lambda>s. M name args s \<and> name \<in> REGISTERED_TOOLS) (finish_call jb turn tc name args p approval out) (\<lambda>_. K)"
proof (cases "name \<in> REGISTERED_TOOLS")
  case True
  have noting: "runs (M name args) (omap (note_execution jb tc name args out)) (\<lambda>_. M name args)"
    by (auto simp: hoare_map intro: noted)
  have ending: "runs (M name args) (omap (note_terminal jb name args out)) (\<lambda>_. M name args)"
    by (auto simp: hoare_map intro: after_keeps)
  have observing: "runs (M name args)
      (if guarded_mutation jb name args \<and> name \<in> REGISTERED_TOOLS
       then obind (observe_mutation jb act) (\<lambda>(obs, unknown). oret (Some obs, unknown))
       else oret (None, False)) (\<lambda>_. K)" for act
  proof (cases "guarded_mutation jb name args")
    case guarded: True
    have "runs (M name args) (observe_mutation jb act) (\<lambda>_. K)"
      by (rule hoare_conseq[OF runs_observe]) (use guarded in auto)
    with guarded True show ?thesis by (auto intro!: hoare_bind simp: hoare_ret split: prod.split)
  next
    case False
    then show ?thesis by (auto simp: hoare_ret intro: settled)
  qed
  have recording: "runs K (obind (omap (\<lambda>s. s\<lparr>ag_executed := ag_executed s @ [x]\<rparr>)) (\<lambda>_.
     obind (omap (add_observation ob)) (\<lambda>_.
     obind (track name args out) (\<lambda>reward.
     obind (omap (emit (Audited au))) (\<lambda>_.
     obind (omap (add_entry (en reward))) (\<lambda>_.
     obind (reply_message tc msg) (\<lambda>_.
     obind (oget ag_resolved) (\<lambda>resolved.
       if resolved \<or> unknown
       then obind (conclude_observed jb turn name args obs unknown) (\<lambda>result. oret (Some result))
       else oret None)))))))) (\<lambda>_. K)" for x ob au en msg unknown obs
    by (rule runs_keeps)
      (intro keeps_bind keeps_core keeps_emit keeps_track keeps_reply keeps_conclude_observed keeps_if; simp)
  have "runs (M name args) (finish_call jb turn tc name args p approval out) (\<lambda>_. K)"
    unfolding finish_call_def
    by (rule hoare_bind[OF noting], rule hoare_bind[where R = "\<lambda>_. M name args"], simp add: hoare_get,
        rule hoare_bind[OF ending], rule hoare_bind[OF observing])
      (auto split: prod.split intro: recording)
  with True show ?thesis by simp
qed (simp add: hoare_def)

lemma effective_tools_registered: "name \<in> effective_role_tools role operational \<Longrightarrow> name \<in> REGISTERED_TOOLS"
  by (auto dest!: effective_tools_allowed role_tools_cases
      simp: REGISTERED_TOOLS_def triage_tools_def diagnosis_tools_def remediation_tools_def comms_tools_def)

lemma runs_execute:
  "runs (\<lambda>s. R name args s \<and> name \<in> REGISTERED_TOOLS) (execute_call jb turn tc name args) (\<lambda>_. K)"
proof (cases "name \<in> REGISTERED_TOOLS")
  case True
  then have finishing: "runs (M name args) (finish_call jb turn tc name args p approval out) (\<lambda>_. K)"
    for p approval out
    using runs_finish[of name args] by simp
  have authorizing: "runs (\<lambda>s. R name args s \<and> name \<in> REGISTERED_TOOLS) (authorize jb turn tc name args)
      (\<lambda>a s. R name args s \<and>
        (case a of Proceed p _ \<Rightarrow> entitled jb name args p (ag_trace s) | Refuse _ \<Rightarrow> True))"
    by (rule hoare_conseq[OF ready_keeps(2)]) (auto intro: failing)
  have running: "runs (\<lambda>s. R name args s \<and> entitled jb name args p (ag_trace s))
      (obind (run_tool jb name args p approval) (finish_call jb turn tc name args p approval)) (\<lambda>_. K)" for p approval
    by (rule hoare_bind[where R = "\<lambda>_. M name args"])
      (auto simp: True intro: hoare_conseq[OF runs_tool] finishing)
  show ?thesis
    unfolding execute_call_def
    by (rule hoare_bind[OF authorizing]) (auto simp: hoare_ret intro: running failing split: authorization.split)
qed (simp add: hoare_def)


text \<open>Between the guards of a call and its counters nothing runs that could mark the response.\<close>

lemma admissible_emit: "admissible jb' name args (emit e s) = admissible jb' name args s"
  by (simp add: admissible_def emit_def)

lemma runs_counted:
  "runs (\<lambda>s. K s \<and> admissible jb name args s) (counted_call jb turn tc name args) (\<lambda>_. K)"
proof -
  let ?A = "\<lambda>s. K s \<and> admissible jb name args s"
  have stopping: "runs (\<lambda>s. K s) (obind (stopped_call jb turn tc name args out mark) (\<lambda>_. oret None)) (\<lambda>_. K)" for out mark
    by (intro runs_keeps keeps_bind keeps_blocked) simp
  show ?thesis
  proof (rule hoareI)
    fix s assume A: "?A s"
    define s1 where "s1 = count_seen jb name args s"
    define s2 where "s2 = count_tool name s1"
    have K: "K s1" "K s2" using A by (auto simp: s1_def s2_def counted)
    note defs = s1_def[symmetric] s2_def[symmetric]
    have R: "R name args s2 \<and> name \<in> REGISTERED_TOOLS" if "within_caps jb name args s2"
      using admitted[of s name args, unfolded defs] A that effective_tools_registered
      by (auto simp: admissible_def)
    have seen: "ag_seen s2 = ag_seen s1" by (simp add: s2_def count_tool_def)
    show "case counted_call jb turn tc name args s of (Inl e, s') \<Rightarrow> E s' | (Inr a, s') \<Rightarrow> K s'"
    proof (cases "within_caps jb name args s2")
      case True
      then have "counted_call jb turn tc name args s = execute_call jb turn tc name args s2"
        by (auto simp: counted_call_def obind_def omap_def oget_def defs within_caps_def seen)
      with runs_execute[of name args turn tc] R True show ?thesis by (simp add: hoare_def)
    next
      case False
      then have "(\<exists>out mark. counted_call jb turn tc name args s =
            obind (stopped_call jb turn tc name args out mark) (\<lambda>_. oret None) s1) \<or>
          (\<exists>out mark. counted_call jb turn tc name args s =
            obind (stopped_call jb turn tc name args out mark) (\<lambda>_. oret None) s2)"
        by (auto simp: counted_call_def obind_def[of "omap _"] obind_def[of "oget _"] omap_def oget_def defs
            within_caps_def seen)
      with hoareD[OF stopping K(1)] hoareD[OF stopping K(2)] show ?thesis by (elim disjE exE) simp_all
    qed
  qed
qed

lemma runs_allowed:
  "runs (\<lambda>s. K s \<and> admissible jb name args s) (allowed_call jb turn tc name args) (\<lambda>_. K)"
proof -
  let ?A = "\<lambda>s. K s \<and> admissible jb name args s"
  have auditing: "runs ?A (omap (emit (Audited au))) (\<lambda>_. ?A)" for au
    by (auto simp: hoare_map quiet admissible_emit)
  have limiting: "runs ?A (check_breaker jb name args) (\<lambda>_. ?A)"
    by (auto simp: hoare_def check_breaker_def admissible_def split: prod.split intro: core)
  have tripping: "runs K (obind (oget f) (\<lambda>error.
      obind (blocked_by_breaker jb turn tc name args error) (\<lambda>_. oret None))) (\<lambda>_. K)" for f
    by (intro runs_keeps keeps_bind keeps_blocked) simp_all
  show ?thesis
    unfolding allowed_call_def
    by (rule hoare_bind[OF auditing], rule hoare_bind[OF limiting])
      (auto split: option.split intro: runs_counted hoare_conseq[OF tripping])
qed

lemma runs_checked: "runs K (checked_call jb turn tc name args) (\<lambda>_. K)"
proof -
  have blocking: "runs P (obind (record_blocked_tool jb turn tc name args out mark pol) (\<lambda>_. oret None)) (\<lambda>_. K)"
    if "\<And>s. P s \<Longrightarrow> K s" for P out mark pol
    by (rule hoare_conseq[where P' = K, OF runs_keeps]) (auto intro!: keeps_bind keeps_record_blocked that)
  have marking: "keeps K (omap (mark_terminal jb name args reason))" for reason by (rule keeps_core) simp
  let ?G = "\<lambda>s. K s \<and> (guarded_mutation jb name args \<longrightarrow> \<not> ag_mutation_in_response s)"
  have reading: "runs ?G (obind (oget f) (\<lambda>r. obind (olift r) g)) (\<lambda>_. K)"
    if "\<And>a. runs (\<lambda>s. ?G s \<and> f s = Inr a) (g a) (\<lambda>_. K)"
    for f and g :: "'c \<Rightarrow> pydict option op"
  proof (rule hoareI)
    fix s assume G: "?G s"
    show "case obind (oget f) (\<lambda>r. obind (olift r) g) s of (Inl e, s') \<Rightarrow> E s' | (Inr a, s') \<Rightarrow> K s'"
    proof (cases "f s")
      case (Inl e)
      with G show ?thesis by (simp add: obind_def oget_def olift_def oraise_def failing)
    next
      case (Inr a)
      with hoareD[OF that, of s a] G show ?thesis by (simp add: obind_def oget_def olift_def oret_def)
    qed
  qed
  have policed: "runs ?G (policed_call jb turn tc name args) (\<lambda>_. K)"
    unfolding policed_call_def
  proof (rule reading)
    fix denied
    have "runs K (obind (blocked_by_policy jb turn tc name args error) (\<lambda>_. oret None)) (\<lambda>_. K)" for error
      by (intro runs_keeps keeps_bind keeps_blocked) simp
    then show "runs (\<lambda>s. ?G s \<and> check_tool_policy (jb_fmt jb) (jb_operational jb) (jb_workload_ns jb) (jb_role jb)
          name args (PDict (runtime_context jb s)) = Inr denied) (case denied of
        Some d \<Rightarrow> obind (blocked_by_policy jb turn tc name args (denial_text jb d)) (\<lambda>_. oret None)
      | None \<Rightarrow> allowed_call jb turn tc name args) (\<lambda>_. K)"
      by (cases denied)
        (simp, rule hoare_conseq[OF runs_allowed], auto simp: admissible_def dest: policy_passes_tool intro: runs_weaken)
  qed
  have unproven: "runs K (unproven_call jb turn tc name args e) (\<lambda>_. K)" for e
    unfolding unproven_call_def by (intro runs_keeps keeps_bind keeps_record_blocked marking) simp
  have evidenced: "runs ?G (obind (oget (\<lambda>s. check_remediation_action_preconditions (jb_fmt jb) name args
      (runtime_context jb s))) (\<lambda>r. obind (olift r) (\<lambda>problem. case problem of
          Some e \<Rightarrow> unproven_call jb turn tc name args e
        | None \<Rightarrow> policed_call jb turn tc name args))) (\<lambda>_. K)"
    by (rule reading) (auto split: option.split intro: runs_weaken[OF unproven] hoare_conseq[OF policed])
  have guarding: "runs K (oget (response_guard jb name args)) (\<lambda>b s. K s \<and> (b = None \<longrightarrow> ?G s))"
    by (auto simp: hoare_get response_guard_def split: if_splits)
  show ?thesis
    unfolding checked_call_def
    by (rule hoare_bind[OF guarding])
      (auto split: option.split intro: blocking hoare_conseq[OF evidenced])
qed


lemma runs_process: "runs K (process_call jb turn tc) (\<lambda>_. K)"
proof -
  have lifting: "runs K (olift r) (\<lambda>_. K)" for r :: "py_exn + pyval" by (rule runs_keeps) simp
  have rejecting: "runs K (obind (invalid_arguments jb turn tc name raw error) (\<lambda>_. oret None)) (\<lambda>_. K)" for name raw error
    by (intro runs_keeps keeps_bind keeps_blocked) simp
  show ?thesis
    unfolding process_call_def Let_def
    by (rule hoare_bind[OF lifting], rule hoare_bind[OF lifting])
      (auto simp: hoare_raise failing intro: rejecting runs_checked split: sum.split)
qed

lemma runs_calls: "runs K (process_calls jb turn tcs) (\<lambda>_. K)"
  by (induction tcs) (auto simp: hoare_ret intro!: hoare_bind[OF runs_process] split: option.split)

lemma runs_turn: "runs K (agent_turn jb turn) (\<lambda>_. K)"
proof -
  let ?P = "\<lambda>s. \<exists>s0. K s0 \<and> same_core (s0\<lparr>ag_turn_names := [], ag_mutation_in_response := False\<rparr>) s"
  have starting: "runs K (omap (\<lambda>s. s\<lparr>ag_turn_names := [], ag_mutation_in_response := False\<rparr>)) (\<lambda>_. ?P)"
    by (auto simp: hoare_map same_core_def)
  have asking: "runs ?P (request_completion jb turn payload) (\<lambda>_. K)" for payload
  proof (rule hoare_conseq[OF completion_restores])
    show "K (emit (Completion p) s)" if P: "?P s" for s p
    proof -
      from P obtain s0 where s0: "K s0" "same_core (s0\<lparr>ag_turn_names := [], ag_mutation_in_response := False\<rparr>) s"
        by blast
      from s0(2) have "same_core (emit (Completion p) (s0\<lparr>ag_turn_names := [], ag_mutation_in_response := False\<rparr>))
          (emit (Completion p) s)"
        by (simp add: same_core_def emit_def)
      with opened[OF s0(1)] show ?thesis by (rule core)
    qed
    show "?P s'" if "?P s" and "same_core s s'" for s s'
      using that by (auto simp: same_core_def)
  qed (auto intro: failing)
  have calling: "runs K (obind (olift (py_iter calls)) (process_calls jb turn)) (\<lambda>_. K)" for calls
    by (rule hoare_bind[OF runs_keeps runs_calls]) simp
  have concluding: "runs K (obind (oget (may_retry jb)) (\<lambda>retry.
      if retry then obind (grant_retry jb turn) (\<lambda>_. oret None) else conclude_run jb turn msg)) (\<lambda>_. K)" for msg
    by (intro runs_keeps keeps_bind keeps_if keeps_retry keeps_conclude) simp_all
  show ?thesis
    unfolding agent_turn_def
    by (rule hoare_bind[OF starting], rule hoare_bind[where R = "\<lambda>_. ?P"], simp add: hoare_get,
        rule hoare_bind[OF asking], rule hoare_bind[OF runs_keeps[OF keeps_read]])
      (auto split: prod.split intro: calling concluding)
qed

lemma runs_turns: "runs K (agent_turns jb turns) (\<lambda>_. K)"
  by (induction turns) (auto simp: hoare_ret intro!: hoare_bind[OF runs_turn] split: option.split)

text \<open>Whatever the world answers, every run of the agent ends in a state that satisfies \<open>E\<close>.\<close>

theorem run_safe: "K s \<Longrightarrow> E (snd (call_agent jb n s))"
proof -
  have ending: "runs K (exhausted_run jb n) (\<lambda>_. K)" by (intro runs_keeps keeps_exhausted)
  have "runs K (call_agent jb n) (\<lambda>_. K)"
    unfolding call_agent_def
    by (auto simp: hoare_raise hoare_ret failing ending intro!: hoare_bind[OF runs_turns] split: option.split)
  moreover assume "K s"
  ultimately have "case call_agent jb n s of (Inl e, s') \<Rightarrow> E s' | (Inr a, s') \<Rightarrow> K s'" by (rule hoareD)
  then show "E (snd (call_agent jb n s))" by (auto intro: failing split: prod.splits sum.splits)
qed

end
end
