(* ===== verification/AgentGuarantees.thy ===== *)
theory AgentGuarantees
  imports AgentCalls
begin

text \<open>
  What an operator may rely on when an agent runs, as interpretations of the run's locale: every call
  that touches a cluster is entitled, every accepted permit stands for an approved request, calls stay
  within their caps, a reply leads to at most one mutation, and a remediation that says resolved acted.
  The last section states the properties.
\<close>

section \<open>Every call that touches a cluster is entitled\<close>

text \<open>An effect after the trace \<open>t\<close>: a tool of the role, authorised; or a prepared action, announced and permitted.\<close>

definition effect_ok :: "job \<Rightarrow> effect list \<Rightarrow> effect \<Rightarrow> bool" where
  "effect_ok jb t e =
     (case e of
        CalledTool name args \<Rightarrow>
          name \<in> effective_role_tools (jb_role jb) (jb_operational jb) \<and> entitled jb name args None t
      | Executed p \<Rightarrow>
          jb_role jb = ''remediation'' \<and>
          (case rev t of
             Noted phase event _ # r \<Rightarrow>
               phase = ''applying'' \<and> event = ''mutation_started'' \<and> permit_tail jb (rev r) (approval_action p)
           | _ \<Rightarrow> False)
      | _ \<Rightarrow> True)"

definition trace_ok :: "job \<Rightarrow> effect list \<Rightarrow> bool" where
  "trace_ok jb t = list_all (\<lambda>i. effect_ok jb (take i t) (t ! i)) [0..<length t]"

lemma trace_ok_snoc [simp]: "trace_ok jb (t @ [e]) \<longleftrightarrow> trace_ok jb t \<and> effect_ok jb t e"
proof -
  have "list_all (\<lambda>i. effect_ok jb (take i (t @ [e])) ((t @ [e]) ! i)) [0..<length t] = trace_ok jb t"
    unfolding trace_ok_def by (rule list_all_cong) (auto simp: nth_append)
  then show ?thesis by (simp add: trace_ok_def)
qed

lemma trace_ok_Nil [simp]: "trace_ok jb []"
  by (simp add: trace_ok_def)

lemma quiet_effect_ok: "quiet_effect e \<Longrightarrow> effect_ok jb t e" "effect_ok jb t (PermitChecked p d ok)"
  by (cases e) (auto simp: effect_ok_def)

text \<open>What the shared state does not touch.\<close>

lemma frame_trace [simp]:
  "ag_trace (emit e s) = ag_trace s @ [e]" "ag_gate (emit e s) = ag_gate s" "ag_seen (emit e s) = ag_seen s"
  "ag_counts (emit e s) = ag_counts s" "ag_mutation_in_response (emit e s) = ag_mutation_in_response s"
  "ag_mutated (emit e s) = ag_mutated s" "ag_resolved (emit e s) = ag_resolved s"
  by (simp_all add: emit_def)

lemma frame_others [simp]:
  "ag_trace (await_others jb s) = ag_trace s" "ag_seen (await_others jb s) = ag_seen s"
  "ag_counts (await_others jb s) = ag_counts s"
  "ag_mutation_in_response (await_others jb s) = ag_mutation_in_response s"
  "ag_mutated (await_others jb s) = ag_mutated s" "ag_resolved (await_others jb s) = ag_resolved s"
  by (simp_all add: await_others_def)

lemma frame_counters [simp]:
  "ag_trace (count_seen jb name args s) = ag_trace s" "ag_trace (count_tool name s) = ag_trace s"
  "ag_gate (count_seen jb name args s) = ag_gate s" "ag_gate (count_tool name s) = ag_gate s"
  "ag_mutation_in_response (count_seen jb name args s) = ag_mutation_in_response s"
  "ag_mutation_in_response (count_tool name s) = ag_mutation_in_response s"
  "ag_mutated (count_seen jb name args s) = ag_mutated s" "ag_mutated (count_tool name s) = ag_mutated s"
  "ag_resolved (count_seen jb name args s) = ag_resolved s" "ag_resolved (count_tool name s) = ag_resolved s"
  "ag_counts (count_seen jb name args s) = ag_counts s" "ag_seen (count_tool name s) = ag_seen s"
  by (simp_all add: count_seen_def count_tool_def)

lemma frame_turn [simp]:
  "ag_trace (update_turn f s) = ag_trace s" "ag_gate (update_turn f s) = ag_gate s"
  "ag_seen (update_turn f s) = ag_seen s" "ag_counts (update_turn f s) = ag_counts s"
  "ag_mutation_in_response (update_turn f s) = ag_mutation_in_response s"
  "ag_resolved (update_turn f s) = ag_resolved s" "ag_mutated (update_turn f s) = ag_mutated s"
  by (simp_all add: update_turn_def split: option.split)

lemma frame_execution [simp]:
  "ag_trace (note_execution jb tc name args out s) = ag_trace s"
  "ag_gate (note_execution jb tc name args out s) = ag_gate s"
  "ag_seen (note_execution jb tc name args out s) = ag_seen s"
  "ag_counts (note_execution jb tc name args out s) = ag_counts s"
  "ag_mutation_in_response (note_execution jb tc name args out s) = ag_mutation_in_response s"
  "ag_resolved (note_execution jb tc name args out s) = ag_resolved s"
  by (simp_all add: note_execution_def note_outcome_def Let_def)

lemma note_execution_mutates:
  "ag_mutated (note_execution jb tc name args out s) =
     (ag_mutated s \<or> is_mutating_action (jb_fmt jb) name args \<and> succeeded out)"
  by (auto simp: note_execution_def note_outcome_def Let_def)

lemma start_trace [simp]:
  "ag_trace (start_agent jb b g) = []" "ag_gate (start_agent jb b g) = g"
  "ag_mutation_in_response (start_agent jb b g) = False" "ag_mutated (start_agent jb b g) = False"
  "ag_resolved (start_agent jb b g) = False" "ag_counts (start_agent jb b g) = (\<lambda>_. 0)"
  "ag_seen (start_agent jb b g) = (\<lambda>_. 0)"
  by (simp_all add: start_agent_def)

definition authorised :: "job \<Rightarrow> agent \<Rightarrow> bool" where
  "authorised jb s = trace_ok jb (ag_trace s)"

interpretation authorised: call_invariant jb "authorised jb"
  "\<lambda>name args s. authorised jb s \<and> name \<in> effective_role_tools (jb_role jb) (jb_operational jb)"
  "\<lambda>name args. authorised jb" "authorised jb" for jb
proof unfold_locales
  show "authorised jb (emit (CalledTool name args) s)"
    if "authorised jb s \<and> name \<in> effective_role_tools (jb_role jb) (jb_operational jb)"
      and "entitled jb name args None (ag_trace s)" for name args s
    using that by (simp add: authorised_def effect_ok_def)
  show "authorised jb (emit (Executed x) s)"
    if "authorised jb s \<and> name \<in> effective_role_tools (jb_role jb) (jb_operational jb)"
      and "guarded_mutation jb name args"
      and "ag_trace s = t @ [Noted ''applying'' ''mutation_started'' d]" and "permit_tail jb t (approval_action x)"
    for name args s t d x
  proof -
    from that have "effect_ok jb (ag_trace s) (Executed x)" by (simp add: effect_ok_def guarded_mutation_def)
    with that(1) show ?thesis by (simp add: authorised_def)
  qed
qed (auto simp: authorised_def same_core_def quiet_effect_ok admissible_def)


section \<open>Every accepted permit was approved\<close>

definition approved_for :: "gate \<Rightarrow> string \<Rightarrow> string \<Rightarrow> bool" where
  "approved_for g incident digest \<longleftrightarrow>
     list_ex (\<lambda>q. rq_decision (requests g q) = ''approved'' \<and> rq_incident_id (requests g q) = incident \<and>
       rq_action_digest (requests g q) = Some digest \<and> py_strip (rq_approved_by (requests g q)) \<noteq> [])
     [0..<next_request g]"

lemma approved_for_extends: "gate_extends g g' \<Longrightarrow> approved_for g i d \<Longrightarrow> approved_for g' i d"
  by (force simp: approved_for_def list_ex_iff gate_extends_def request_extends_def)

lemma backed_approved:
  "permit_backed g pm \<Longrightarrow> pm_incident_id pm = i \<Longrightarrow> pm_action_digest pm = Some d \<Longrightarrow> approved_for g i d"
  by (force simp: permit_backed_def approved_for_def list_ex_iff)

definition backed :: "job \<Rightarrow> agent \<Rightarrow> bool" where
  "backed jb s \<longleftrightarrow> gate_inv (ag_gate s) \<and>
     (\<forall>p d. PermitChecked p d True \<in> set (ag_trace s) \<longrightarrow> approved_for (ag_gate s) (jb_incident jb) d)"

lemma backed_gate:
  assumes "backed jb s" and "gate_inv (ag_gate s) \<Longrightarrow> gate_inv g" and "gate_inv (ag_gate s) \<Longrightarrow> gate_extends (ag_gate s) g"
    and "ag_gate s' = g" and "ag_trace s' = ag_trace s"
  shows "backed jb s'"
  using assms approved_for_extends unfolding backed_def by metis

interpretation backed_loop: loop_invariant jb "backed jb" for jb
proof unfold_locales
  show "backed jb (await_others jb s)" if "backed jb s" for s
    by (rule backed_gate[OF that]) (auto simp: await_others_def approval.inv_run approval_log.extends_run)
  show "backed jb (s\<lparr>ag_gate := gate_step (jb_ff jb) (jb_sha jb) (ag_gate s) call\<rparr>)" if "backed jb s" for s call
    by (rule backed_gate[OF that]) (auto simp: gate_inv_step gate_step_extends simp del: gate_step.simps)
  show "backed jb (emit (PermitChecked p d ok) s)"
    if "backed jb s" and ok: "fst (consume_action_permit t t p (jb_incident jb) d g) = Inr ok"
      and gate: "ag_gate s = gate_step (jb_ff jb) (jb_sha jb) g (Consume t t p (jb_incident jb) d)"
      and "backed jb (s\<lparr>ag_gate := g\<rparr>)" for s t p d g ok
  proof -
    have "approved_for (ag_gate s) (jb_incident jb) d" if ok
    proof -
      from ok that obtain i where p: "p = Some i" by (cases p) (auto simp: consume_action_permit_def)
      from ok that p have "fst (consume_action_permit t t (Some i) (jb_incident jb) d g) = Inr True" by simp
      note result = consume_result[OF this]
      from \<open>backed jb (s\<lparr>ag_gate := g\<rparr>)\<close> have "gate_inv g" by (simp add: backed_def)
      with result(1) have "permit_backed g (permits g i)" by (simp add: gate_inv_def)
      with result have "approved_for g (jb_incident jb) d" by (auto intro: backed_approved)
      then show ?thesis unfolding gate by (rule approved_for_extends[OF gate_step_extends])
    qed
    with \<open>backed jb s\<close> show ?thesis by (auto simp: backed_def)
  qed
qed (auto simp: backed_def same_core_def)

interpretation backed: call_invariant jb "backed jb" "\<lambda>_ _. backed jb" "\<lambda>_ _. backed jb" "backed jb" for jb
  by (intro call_invariant.intro call_invariant_axioms.intro backed_loop.loop_invariant_axioms) (auto simp: backed_def)

section \<open>Caps\<close>

definition calls_of :: "string \<Rightarrow> effect list \<Rightarrow> nat" where
  "calls_of name t = length (filter (\<lambda>e. case e of CalledTool n _ \<Rightarrow> n = name | _ \<Rightarrow> False) t)"

definition identical_calls :: "job \<Rightarrow> string \<Rightarrow> effect list \<Rightarrow> nat" where
  "identical_calls jb key t =
     length (filter (\<lambda>e. case e of CalledTool n a \<Rightarrow> call_key jb n a = key | _ \<Rightarrow> False) t)"

lemma calls_snoc [simp]:
  "calls_of name (t @ [e]) = calls_of name t + (case e of CalledTool n _ \<Rightarrow> of_bool (n = name) | _ \<Rightarrow> 0)"
  "identical_calls jb key (t @ [e]) =
     identical_calls jb key t + (case e of CalledTool n a \<Rightarrow> of_bool (call_key jb n a = key) | _ \<Rightarrow> 0)"
  "calls_of name [] = 0" "identical_calls jb key [] = 0"
  by (simp_all add: calls_of_def identical_calls_def split: effect.split)

definition capped :: "job \<Rightarrow> agent \<Rightarrow> bool" where
  "capped jb s \<longleftrightarrow>
     (\<forall>name. calls_of name (ag_trace s) \<le> min (ag_counts s name) (tool_cap name)) \<and>
     (\<forall>key. identical_calls jb key (ag_trace s) \<le> min (ag_seen s key) MAX_IDENTICAL_CALLS)"

definition call_pending :: "job \<Rightarrow> string \<Rightarrow> pydict \<Rightarrow> agent \<Rightarrow> bool" where
  "call_pending jb name args s \<longleftrightarrow> capped jb s \<and> within_caps jb name args s \<and>
     calls_of name (ag_trace s) < ag_counts s name \<and>
     identical_calls jb (call_key jb name args) (ag_trace s) < ag_seen s (call_key jb name args)"

lemma quiet_counts:
  "quiet_effect e \<Longrightarrow> (case e of CalledTool n _ \<Rightarrow> of_bool (n = name) | _ \<Rightarrow> 0) = (0 :: nat)"
  "quiet_effect e \<Longrightarrow> (case e of CalledTool n a \<Rightarrow> of_bool (call_key jb n a = key) | _ \<Rightarrow> 0) = (0 :: nat)"
  by (cases e; simp)+

interpretation capped_loop: loop_invariant jb "capped jb" for jb
  by unfold_locales (auto simp: capped_def same_core_def quiet_counts simp del: gate_step.simps)

interpretation pending_loop: loop_invariant jb "call_pending jb name args" for jb name args
  by unfold_locales (auto simp: call_pending_def capped_def within_caps_def same_core_def quiet_counts simp del: gate_step.simps)

lemma counting_caps: "capped jb s \<Longrightarrow> capped jb (count_seen jb name args s)" "capped jb s \<Longrightarrow> capped jb (count_tool name s)"
  by (auto simp: capped_def count_seen_def count_tool_def le_SucI)

interpretation capped: call_invariant jb "capped jb" "call_pending jb" "\<lambda>_ _. capped jb" "capped jb" for jb
proof (intro call_invariant.intro call_invariant_axioms.intro capped_loop.loop_invariant_axioms
    pending_loop.loop_invariant_axioms)
  show "call_pending jb name args (count_tool name (count_seen jb name args s))"
    if "capped jb s" and "within_caps jb name args (count_tool name (count_seen jb name args s))" for name args s
    using that counting_caps[of jb s]
    by (auto simp: call_pending_def counting_caps capped_def count_seen_def count_tool_def less_Suc_eq_le)
  show "capped jb (emit (CalledTool name args) s)" if "call_pending jb name args s" for name args s
  proof -
    from that have "calls_of n (ag_trace s) + of_bool (name = n) \<le> min (ag_counts s n) (tool_cap n)" for n
      by (cases "name = n") (auto simp: call_pending_def capped_def within_caps_def)
    moreover from that have "identical_calls jb k (ag_trace s) + of_bool (call_key jb name args = k)
        \<le> min (ag_seen s k) MAX_IDENTICAL_CALLS" for k
      by (cases "call_key jb name args = k") (auto simp: call_pending_def capped_def within_caps_def)
    ultimately show ?thesis by (simp add: capped_def)
  qed
  show "capped jb (emit (Executed x) s)" if "call_pending jb name args s" for name args s x
    using that by (simp add: call_pending_def capped_def)
qed (auto simp: call_pending_def counting_caps, auto simp: capped_def)


section \<open>One mutation for each reply\<close>

definition mutating_effect :: "job \<Rightarrow> effect \<Rightarrow> bool" where
  "mutating_effect jb e =
     (case e of CalledTool name args \<Rightarrow> guarded_mutation jb name args | Executed _ \<Rightarrow> True | _ \<Rightarrow> False)"

text \<open>The effects since the last completion.\<close>

definition since_reply :: "effect list \<Rightarrow> effect list" where
  "since_reply t = takeWhile (\<lambda>e. case e of Completion _ \<Rightarrow> False | _ \<Rightarrow> True) (rev t)"

definition mutations :: "job \<Rightarrow> effect list \<Rightarrow> nat" where
  "mutations jb t = length (filter (mutating_effect jb) (since_reply t))"

definition single_mutations :: "job \<Rightarrow> effect list \<Rightarrow> bool" where
  "single_mutations jb t \<longleftrightarrow> list_all (\<lambda>i. mutations jb (take i t) \<le> 1) [0..<Suc (length t)]"

lemma mutations_snoc [simp]:
  "mutations jb (t @ [e]) =
     (case e of Completion _ \<Rightarrow> 0 | _ \<Rightarrow> mutations jb t + of_bool (mutating_effect jb e))" "mutations jb [] = 0"
  by (auto simp: mutations_def since_reply_def mutating_effect_def split: effect.split)

lemma single_mutations_snoc [simp]:
  "single_mutations jb (t @ [e]) \<longleftrightarrow> single_mutations jb t \<and> mutations jb (t @ [e]) \<le> 1" "single_mutations jb []"
proof -
  have "list_all (\<lambda>i. mutations jb (take i (t @ [e])) \<le> 1) [0..<Suc (length t)] = single_mutations jb t"
    unfolding single_mutations_def by (rule list_all_cong) (auto simp: take_append)
  moreover have "[0..<Suc (length (t @ [e]))] = [0..<Suc (length t)] @ [Suc (length t)]" by simp
  ultimately show "single_mutations jb (t @ [e]) \<longleftrightarrow> single_mutations jb t \<and> mutations jb (t @ [e]) \<le> 1"
    by (simp only: single_mutations_def list_all_append) (simp del: mutations_snoc)
  show "single_mutations jb []" by (simp add: single_mutations_def)
qed

lemma quiet_mutations: "quiet_effect e \<Longrightarrow> \<not> mutating_effect jb e" "\<not> mutating_effect jb (PermitChecked p d ok)"
  "mutations jb (t @ [PermitChecked p d ok]) = mutations jb t"
  "quiet_effect e \<Longrightarrow> mutations jb (t @ [e]) \<le> mutations jb t"
  by (cases e; simp add: mutating_effect_def)+

lemma single_mutations_last: "single_mutations jb t \<Longrightarrow> mutations jb t \<le> 1"
  by (simp add: single_mutations_def)

definition single :: "job \<Rightarrow> agent \<Rightarrow> bool" where
  "single jb s \<longleftrightarrow> single_mutations jb (ag_trace s) \<and>
     (\<not> ag_mutation_in_response s \<longrightarrow> mutations jb (ag_trace s) = 0)"

definition single_ready :: "job \<Rightarrow> string \<Rightarrow> pydict \<Rightarrow> agent \<Rightarrow> bool" where
  "single_ready jb name args s \<longleftrightarrow> single jb s \<and> (guarded_mutation jb name args \<longrightarrow> mutations jb (ag_trace s) = 0)"

definition single_called :: "job \<Rightarrow> string \<Rightarrow> pydict \<Rightarrow> agent \<Rightarrow> bool" where
  "single_called jb name args s \<longleftrightarrow> single_mutations jb (ag_trace s) \<and>
     (\<not> guarded_mutation jb name args \<longrightarrow> single jb s)"

lemma single_quiet:
  "single_mutations jb t \<Longrightarrow> quiet_effect e \<Longrightarrow> mutations jb (t @ [e]) \<le> 1"
  "mutations jb t = 0 \<Longrightarrow> quiet_effect e \<Longrightarrow> mutations jb (t @ [e]) = 0"
  "single_mutations jb t \<Longrightarrow> mutations jb (t @ [PermitChecked p d ok]) \<le> 1"
  using quiet_mutations(4)[of e jb t] single_mutations_last[of jb t] by (auto simp: quiet_mutations(2))

lemmas single_simps = single_def single_quiet[unfolded One_nat_def] quiet_mutations
  single_mutations_last[unfolded One_nat_def]

interpretation single_loop: loop_invariant jb "single jb" for jb
  by unfold_locales
    (auto simp: single_simps same_core_def simp del: mutations_snoc)

interpretation single_ready_loop: loop_invariant jb "single_ready jb name args" for jb name args
  by unfold_locales
    (auto simp: single_ready_def single_simps same_core_def
      simp del: mutations_snoc)

interpretation single_called_loop: loop_invariant jb "single_called jb name args" for jb name args
  by unfold_locales
    (auto simp: single_called_def single_simps same_core_def
      simp del: mutations_snoc)

interpretation single: call_invariant jb "single jb" "single_ready jb" "single_called jb"
  "\<lambda>s. single_mutations jb (ag_trace s)" for jb
proof (intro call_invariant.intro call_invariant_axioms.intro single_loop.loop_invariant_axioms
    single_ready_loop.loop_invariant_axioms single_called_loop.loop_invariant_axioms)
  show "single_called jb name args (emit (CalledTool name args) s)" if "single_ready jb name args s" for name args s
    using that single_mutations_last[of jb "ag_trace s"]
    by (auto simp: single_ready_def single_called_def single_def mutating_effect_def)
  show "single_called jb name args (emit (Executed x) s)"
    if "single_ready jb name args s" and "guarded_mutation jb name args" for name args s x
    using that by (auto simp: single_ready_def single_called_def single_def mutating_effect_def)
qed (auto simp: single_def single_ready_def single_called_def admissible_def)

section \<open>A resolved remediation acted\<close>

definition touched :: "job \<Rightarrow> effect list \<Rightarrow> bool" where
  "touched jb t \<longleftrightarrow>
     list_ex (\<lambda>e. case e of CalledTool name args \<Rightarrow> is_mutating_action (jb_fmt jb) name args
                          | Executed _ \<Rightarrow> True | _ \<Rightarrow> False) t"

lemma touched_snoc [simp]:
  "touched jb (t @ [e]) \<longleftrightarrow> touched jb t \<or>
     (case e of CalledTool name args \<Rightarrow> is_mutating_action (jb_fmt jb) name args | Executed _ \<Rightarrow> True | _ \<Rightarrow> False)"
  by (simp add: touched_def)

definition acted :: "job \<Rightarrow> agent \<Rightarrow> bool" where
  "acted jb s \<longleftrightarrow>
     (ag_mutated s \<or> ag_resolved s \<or> ag_mutation_in_response s \<longrightarrow> touched jb (ag_trace s))"

definition acted_called :: "job \<Rightarrow> string \<Rightarrow> pydict \<Rightarrow> agent \<Rightarrow> bool" where
  "acted_called jb name args s \<longleftrightarrow>
     acted jb s \<and> (is_mutating_action (jb_fmt jb) name args \<longrightarrow> touched jb (ag_trace s))"

interpretation acted_loop: loop_invariant jb "acted jb" for jb
  by unfold_locales (auto simp: acted_def same_core_def simp del: gate_step.simps)

interpretation acted_called_loop: loop_invariant jb "acted_called jb name args" for jb name args
  by unfold_locales (auto simp: acted_called_def acted_def same_core_def simp del: gate_step.simps)

interpretation acted: call_invariant jb "acted jb" "\<lambda>_ _. acted jb" "acted_called jb" "acted jb" for jb
proof (intro call_invariant.intro call_invariant_axioms.intro acted_loop.loop_invariant_axioms
    acted_called_loop.loop_invariant_axioms)
  show "acted_called jb name args (note_execution jb tc name args out s)" if "acted_called jb name args s"
    for name args s tc out
    using that by (auto simp: acted_called_def acted_def note_execution_mutates)
  show "acted_called jb name args (emit (Executed x) s)" for name args s x
    by (simp add: acted_called_def acted_def)
  show "acted jb (s\<lparr>ag_mutation_in_response := True\<rparr>)"
    if "acted_called jb name args s" and "guarded_mutation jb name args" for name args s
    using that by (auto simp: acted_called_def acted_def guarded_mutation_def)
qed (auto simp: acted_called_def acted_def)


text \<open>A result may say resolved only after a successful mutation or a verified one.\<close>

definition says_resolved :: "pydict \<Rightarrow> bool" where
  "says_resolved final \<longleftrightarrow> dget final ''outcome'' = PStr ''resolved'' \<or> dget final ''status'' = PStr ''resolved''"

definition honest :: "job \<Rightarrow> pydict option \<Rightarrow> agent \<Rightarrow> bool" where
  "honest jb r s \<longleftrightarrow>
     (case r of None \<Rightarrow> True
              | Some result \<Rightarrow>
                  jb_role jb = ''remediation'' \<and> says_resolved (as_dict (dget result ''final'')) \<longrightarrow>
                  ag_mutated s \<or> ag_resolved s)"

abbreviation yields :: "'a op \<Rightarrow> ('a \<Rightarrow> agent \<Rightarrow> bool) \<Rightarrow> bool" where
  "yields m Q \<equiv> hoare (\<lambda>_. True) m Q (\<lambda>_. True)"

lemma yields_bind: "(\<And>a. yields (f a) Q) \<Longrightarrow> yields (obind m f) Q"
  by (rule hoare_bind[where R = "\<lambda>_ _. True"]) (auto simp: hoare_def split: prod.splits sum.splits)

lemma yields_then: "yields m R \<Longrightarrow> (\<And>a. hoare (R a) (f a) Q (\<lambda>_. True)) \<Longrightarrow> yields (obind m f) Q"
  by (rule hoare_bind)

lemma honest_None [simp]: "honest jb None s"
  by (simp add: honest_def)

lemma honest_result [simp]:
  "honest jb (Some (summarised_result jb final s')) s \<longleftrightarrow>
     (jb_role jb = ''remediation'' \<and> says_resolved final \<longrightarrow> ag_mutated s \<or> ag_resolved s)"
  "honest jb (Some (agent_result jb final s')) s \<longleftrightarrow>
     (jb_role jb = ''remediation'' \<and> says_resolved final \<longrightarrow> ag_mutated s \<or> ag_resolved s)"
  by (simp_all add: honest_def summarised_result_def agent_result_def dget_or_def)

lemma proven_conclusion_honest:
  "jb_role jb = ''remediation'' \<Longrightarrow> says_resolved (proven_conclusion jb parsed s) \<Longrightarrow> ag_mutated s"
  by (auto simp: proven_conclusion_def says_resolved_def demote_def Let_def dget_or_def update_conv split: if_splits)


text \<open>A conclusion is computed from the state and nothing is executed afterwards.\<close>

definition concludes :: "job \<Rightarrow> pydict \<Rightarrow> agent \<Rightarrow> bool" where
  "concludes jb final s \<longleftrightarrow> (jb_role jb = ''remediation'' \<and> says_resolved final \<longrightarrow> ag_mutated s)"

lemma concludes_proven [simp]: "concludes jb (proven_conclusion jb parsed s) s"
  by (auto simp: concludes_def dest: proven_conclusion_honest)

lemma concludes_frame [simp]:
  "concludes jb final (update_turn f s) = concludes jb final s"
  "concludes jb final (add_entry d s) = concludes jb final s"
  by (simp_all add: concludes_def add_entry_def)

lemma concluding_honest:
  "hoare (concludes jb final) (obind (oget (summarised_result jb final)) (\<lambda>result. oret (Some result)))
     (honest jb) (\<lambda>_. True)"
  by (auto simp: hoare_def obind_def oget_def oret_def concludes_def)

lemma yields_conclude: "yields (conclude_run jb turn msg) (honest jb)"
proof -
  have recording: "hoare (concludes jb final) (omap f) (\<lambda>_. concludes jb final) (\<lambda>_. True)"
    if "\<And>s. concludes jb final (f s) = concludes jb final s" for final f
    using that by (simp add: hoare_map)
  show ?thesis
    unfolding conclude_run_def Let_def
    by (rule yields_bind, rule yields_bind, rule yields_bind, rule hoare_bind[where R = "concludes jb"], simp add: hoare_get,
        rule hoare_bind[OF recording], simp, rule hoare_bind[OF recording], simp, rule concluding_honest)
qed

lemma yields_refuse: "yields (refuse jb turn tc name args mode decision) (\<lambda>a s. \<forall>r. a = Refuse r \<longrightarrow> honest jb (Some r) s)"
  unfolding refuse_def Let_def
  by (rule yields_bind) (auto simp: hoare_def obind_def oget_def oret_def says_resolved_def dget_or_def)

lemma yields_prepare: "yields (prepare_mutation jb turn tc name args) (\<lambda>r s. \<forall>x. r = Inl x \<longrightarrow> honest jb (Some x) s)"
proof -
  have failed: "yields (obind m (\<lambda>_. obind (oget (\<lambda>s. agent_result jb
        [(''status'', PStr ''action_preparation_failed''), (''outcome'', PStr ''escalated''),
         (''executed_actions'', executed_list s)] s)) (\<lambda>result. oret (Inl result))))
      (\<lambda>r s. \<forall>x. r = Inl x \<longrightarrow> honest jb (Some x) s)" for m :: "unit op"
    by (rule yields_bind) (simp add: hoare_def obind_def oget_def oret_def says_resolved_def dget_or_def)
  show ?thesis
    unfolding prepare_mutation_def
    by (auto simp: hoare_ret hoare_raise intro!: yields_bind[where m = "ask _ _ _"] failed
        yields_bind[where m = "progress_note _ _ _ _"] split: answer.split)
qed


lemma yields_authorize: "yields (authorize jb turn tc name args) (\<lambda>a s. \<forall>r. a = Refuse r \<longrightarrow> honest jb (Some r) s)"
proof -
  have refusing: "hoare P (refuse jb turn tc name args mode d) (\<lambda>a s. \<forall>r. a = Refuse r \<longrightarrow> honest jb (Some r) s)
      (\<lambda>_. True)" for P mode d
    by (rule hoare_conseq[OF yields_refuse]) simp_all
  have deciding: "yields (obind (decide jb name args mode severity action) (\<lambda>(decision, approval).
      case decision of None \<Rightarrow> oret (Proceed p approval) | Some d \<Rightarrow> refuse jb turn tc name args mode d))
      (\<lambda>a s. \<forall>r. a = Refuse r \<longrightarrow> honest jb (Some r) s)" for mode severity action p
    by (rule yields_bind) (auto simp: hoare_ret split: option.split prod.split intro: refusing)
  have preparing: "yields (obind (prepare_mutation jb turn tc name args) (\<lambda>prepared. case prepared of
            Inl result \<Rightarrow> oret (Refuse result)
          | Inr (action, p) \<Rightarrow>
              obind (decide jb name args (action_mode jb severity) severity action) (\<lambda>(decision, approval).
                case decision of
                  None \<Rightarrow> oret (Proceed p approval)
                | Some d \<Rightarrow> refuse jb turn tc name args (action_mode jb severity) d)))
      (\<lambda>a s. \<forall>r. a = Refuse r \<longrightarrow> honest jb (Some r) s)" for severity
    by (rule yields_then[OF yields_prepare])
      (auto simp: hoare_ret split: sum.split intro: hoare_conseq[OF deciding])
  show ?thesis
    unfolding authorize_def by (auto simp: hoare_ret intro!: yields_bind preparing)
qed

lemma yields_finish: "yields (finish_call jb turn tc name args p approval out) (honest jb)"
proof -
  have observed: "hoare (\<lambda>s. unknown \<or> ag_resolved s) (obind (conclude_observed jb turn name args obs unknown)
      (\<lambda>result. oret (Some result))) (honest jb) (\<lambda>_. True)" for unknown obs
    by (auto simp: hoare_def conclude_observed_def obind_def omap_def oget_def oret_def Let_def says_resolved_def
        dget_or_def add_entry_def)
  have last: "yields (obind (oget ag_resolved) (\<lambda>resolved. if resolved \<or> unknown
       then obind (conclude_observed jb turn name args obs unknown) (\<lambda>result. oret (Some result))
       else oret None)) (honest jb)" for unknown obs
    by (rule yields_then[where R = "\<lambda>r s. r = ag_resolved s"])
      (auto simp: hoare_get hoare_ret intro: hoare_conseq[OF observed])
  show ?thesis
    unfolding finish_call_def by (auto intro!: yields_bind last split: prod.split)
qed

lemma yields_execute: "yields (execute_call jb turn tc name args) (honest jb)"
proof -
  have "hoare P (obind (run_tool jb name args p approval) (finish_call jb turn tc name args p approval)) (honest jb)
      (\<lambda>_. True)" for P p approval
    by (rule hoare_conseq[OF yields_bind[OF yields_finish]]) simp_all
  then show ?thesis
    unfolding execute_call_def
    by (intro yields_then[OF yields_authorize]) (auto simp: hoare_ret split: authorization.split)
qed

lemma yields_process: "yields (process_call jb turn tc) (honest jb)"
proof -
  have counted: "yields (counted_call jb turn tc name args) (honest jb)" for name args
    unfolding counted_call_def by (auto simp: hoare_ret intro!: yields_bind yields_execute)
  have allowed: "yields (allowed_call jb turn tc name args) (honest jb)" for name args
    unfolding allowed_call_def by (auto simp: hoare_ret intro!: yields_bind counted split: option.split)
  have policed: "yields (policed_call jb turn tc name args) (honest jb)" for name args
    unfolding policed_call_def by (auto simp: hoare_ret intro!: yields_bind allowed split: option.split)
  have unproven: "yields (unproven_call jb turn tc name args e) (honest jb)" for name args e
    unfolding unproven_call_def by (auto simp: hoare_ret intro!: yields_bind)
  have checked: "yields (checked_call jb turn tc name args) (honest jb)" for name args
    unfolding checked_call_def by (auto simp: hoare_ret intro!: yields_bind policed unproven split: option.split)
  show ?thesis
    unfolding process_call_def Let_def
    by (auto simp: hoare_ret hoare_raise intro!: yields_bind checked split: sum.split)
qed

lemma yields_calls: "yields (process_calls jb turn tcs) (honest jb)"
proof (induction tcs)
  case (Cons tc tcs)
  then show ?case
    by (auto simp: hoare_ret intro!: yields_then[OF yields_process] intro: hoare_conseq split: option.split)
qed (simp add: hoare_ret)

lemma yields_turn: "yields (agent_turn jb turn) (honest jb)"
  unfolding agent_turn_def
  by (auto simp: hoare_ret intro!: yields_bind yields_conclude yields_calls split: prod.split)

lemma yields_turns: "yields (agent_turns jb turns) (honest jb)"
proof (induction turns)
  case (Cons turn turns)
  then show ?case
    by (auto simp: hoare_ret intro!: yields_then[OF yields_turn] intro: hoare_conseq split: option.split)
qed (simp add: hoare_ret)

lemma run_honest: "yields (call_agent jb n) (\<lambda>r. honest jb (Some r))"
proof -
  have "yields (exhausted_run jb n) (\<lambda>r. honest jb (Some r))"
    unfolding exhausted_run_def
    by (rule yields_bind, rule yields_bind, rule hoare_bind[where R = "concludes jb"])
      (auto simp: hoare_get concludes_def dest: proven_conclusion_honest)
  then show ?thesis
    unfolding call_agent_def
    by (auto simp: hoare_ret hoare_raise intro!: yields_then[OF yields_turns] intro: hoare_conseq split: option.split)
qed

section \<open>Properties\<close>

definition run_trace :: "job \<Rightarrow> nat \<Rightarrow> breaker \<Rightarrow> gate \<Rightarrow> effect list" where
  "run_trace jb n b g = ag_trace (snd (call_agent jb n (start_agent jb b g)))"

text \<open>
  C1. Whatever the model replies and whatever the tools, approvers and observers answer, every tool an
  agent calls is one of its role; a mutating tool that is called directly is called outside operational
  mode and either needs no approval or directly follows an accepted permit for exactly this call; and a
  prepared action is executed by a remediation only, right after its announcement, which follows an
  accepted permit for exactly this action.
\<close>

theorem every_call_entitled: "trace_ok jb (run_trace jb n b g)"
  using authorised.run_safe[of jb "start_agent jb b g" n] by (simp add: authorised_def run_trace_def)

lemma executed_permitted:
  assumes "trace_ok jb t" and "Executed p \<in> set t"
  shows "\<exists>permit d. action_digest (jb_ff jb) (jb_sha jb) (approval_action p) = Inr d \<and> PermitChecked permit d True \<in> set t"
proof -
  from assms(2) obtain xs ys where t: "t = xs @ Executed p # ys" by (meson split_list)
  have ok: "effect_ok jb (take i t) (t ! i)" if "i < length t" for i
    using assms(1) that unfolding trace_ok_def list_all_iff by (metis atLeastLessThan_iff set_upt zero_le)
  have "effect_ok jb xs (Executed p)" using ok[of "length xs"] by (simp add: t)
  then obtain a b c r where xs: "rev xs = Noted a b c # r" and tail: "permit_tail jb (rev r) (approval_action p)"
    by (auto simp: effect_ok_def split: list.splits effect.splits)
  from tail obtain permit d r' where "r = PermitChecked permit d True # r'"
    and d: "action_digest (jb_ff jb) (jb_sha jb) (approval_action p) = Inr d"
    by (auto simp: permit_tail_def split: list.splits effect.splits bool.splits)
  then have "PermitChecked permit d True \<in> set (rev xs)" by (simp add: xs)
  then have "PermitChecked permit d True \<in> set t" by (simp add: t)
  with d show ?thesis by blast
qed

definition executed_approved :: "job \<Rightarrow> gate \<Rightarrow> effect \<Rightarrow> bool" where
  "executed_approved jb g e =
     (case e of
        Executed p \<Rightarrow>
          (case action_digest (jb_ff jb) (jb_sha jb) (approval_action p) of
             Inr d \<Rightarrow> approved_for g (jb_incident jb) d | Inl _ \<Rightarrow> False)
      | _ \<Rightarrow> True)"

text \<open>
  C2. Every prepared action an agent executes was approved: at the end of the run the shared gate, which
  other tasks may use at every await, holds a request of the same incident, with the digest of exactly
  this action, that an identified operator approved.
\<close>

theorem executed_actions_were_approved:
  "let s = snd (call_agent jb n (start_agent jb b (run (gate_step (jb_ff jb) (jb_sha jb)) (new_gate timeout) calls)))
   in list_all (executed_approved jb (ag_gate s)) (ag_trace s)"
proof -
  let ?g = "run (gate_step (jb_ff jb) (jb_sha jb)) (new_gate timeout) calls"
  let ?s = "snd (call_agent jb n (start_agent jb b ?g))"
  have "backed jb (start_agent jb b ?g)" by (simp add: backed_def approval.inv_run)
  then have backed: "backed jb ?s" by (rule backed.run_safe)
  have ok: "trace_ok jb (ag_trace ?s)"
    using authorised.run_safe[of jb "start_agent jb b ?g" n] by (simp add: authorised_def)
  have "executed_approved jb (ag_gate ?s) e" if "e \<in> set (ag_trace ?s)" for e
    using that executed_permitted[OF ok] backed
    by (auto simp: executed_approved_def backed_def split: effect.split) fastforce
  then show ?thesis by (auto simp: Let_def list_all_iff)
qed

text \<open>
  C36. In one run a tool is called at most as often as its cap allows, and never more than three times
  with the same arguments.
\<close>

theorem tool_calls_capped:
  "calls_of name (run_trace jb n b g) \<le> tool_cap name \<and>
   identical_calls jb key (run_trace jb n b g) \<le> MAX_IDENTICAL_CALLS"
proof -
  have "capped jb (start_agent jb b g)" by (simp add: capped_def)
  then have "capped jb (snd (call_agent jb n (start_agent jb b g)))" by (rule capped.run_safe)
  then show ?thesis by (simp add: capped_def run_trace_def)
qed

text \<open>
  C10. A reply of the model leads to at most one mutation, even if it asks for several calls: the outcome
  of a mutation is observed before the model may select another.
\<close>

theorem one_mutation_per_reply: "single_mutations jb (run_trace jb n b g)"
proof -
  have "single jb (start_agent jb b g)" by (simp add: single_def)
  then show ?thesis unfolding run_trace_def by (rule single.run_safe)
qed

definition claim_backed :: "job \<Rightarrow> pydict \<Rightarrow> effect list \<Rightarrow> bool" where
  "claim_backed jb result t =
     (if jb_role jb = ''remediation'' \<and> says_resolved (as_dict (dget result ''final'')) then touched jb t else True)"

text \<open>
  C11. A remediation never reports a resolved incident, as outcome or as status, unless a mutating tool
  was really called or a prepared action really executed in this run.
\<close>

theorem resolved_remediation_acted:
  "case call_agent jb n (start_agent jb b g) of
     (Inr result, s) \<Rightarrow> claim_backed jb result (ag_trace s) | (Inl _, _) \<Rightarrow> True"
proof -
  let ?r = "call_agent jb n (start_agent jb b g)"
  have "acted jb (start_agent jb b g)" by (simp add: acted_def)
  then have acted: "acted jb (snd ?r)" by (rule acted.run_safe)
  show ?thesis
    using hoareD[OF run_honest[of jb n], where s = "start_agent jb b g"] acted
    by (auto simp: claim_backed_def honest_def acted_def split: prod.splits sum.splits)
qed

end
