(* ===== verification/IncidentSteps.thy ===== *)
theory IncidentSteps
  imports Incident AgentGuarantees
begin

text \<open>
  The chain of an incident step by step.  A locale states what a family of predicates must survive to
  hold through it, whatever models, tools, operators, the cluster, the disk and other tasks answer; the
  index of the family counts the roles that may have run.  The one log entry that decides, the answer of
  the approval policy, is an effect of its own: a second locale, for predicates that survive it too,
  takes the chain from its beginning to its end.
\<close>

section \<open>Through the chain of an incident\<close>

text \<open>The answer of the approval policy in the log, and the effects that come about at any time.\<close>

definition logs_policy :: "incident_effect \<Rightarrow> bool" where
  "logs_policy e = (case e of Logged a \<Rightarrow> aa_action_type a = ''approval_policy'' | _ \<Rightarrow> False)"

lemma logs_policyE: "logs_policy e \<Longrightarrow> (\<And>a. e = Logged a \<Longrightarrow> P) \<Longrightarrow> P"
  by (cases e) (auto simp: logs_policy_def)

fun plain_effect :: "incident_effect \<Rightarrow> bool" where
  "plain_effect (RoleRun _ _) = False"
| "plain_effect Opened = False"
| "plain_effect (Released _ _) = False"
| "plain_effect (Stored _) = False"
| "plain_effect (Logged a) = (\<not> logs_policy (Logged a))"
| "plain_effect _ = True"

definition agent_after ::
  "handling \<Rightarrow> string \<Rightarrow> pydict \<Rightarrow> pyval \<Rightarrow>
   (incident_effect list \<Rightarrow> agent_effect list \<Rightarrow> pydict \<Rightarrow> pyval answer) option \<Rightarrow> approver \<Rightarrow> incident \<Rightarrow> agent" where
  "agent_after h role input control observer ap s =
     (let jb = agent_job h role input control observer ap (ic_trace s)
      in snd (call_agent jb 10 (start_agent jb (ic_breaker s) (ic_gate s))))"

locale stage_invariant =
  fixes h :: handling and last_role :: nat and K :: "nat \<Rightarrow> incident \<Rightarrow> bool"
  assumes later: "K n s \<Longrightarrow> K (Suc n) s"
    and effect: "K n s \<Longrightarrow> plain_effect e \<Longrightarrow> K n (iemit e s)"
    and var: "K n s \<Longrightarrow> K n (set_local k v s)"
    and others: "K n s \<Longrightarrow> K n (snd (await_rest h s))"
    and agent: "K n s \<Longrightarrow> n < last_role \<Longrightarrow>
      K (Suc n) (after_agent (AGENT_ROLES ! n) (agent_after h (AGENT_ROLES ! n) i c ob ap s) s)"
    and stored: "K n s \<Longrightarrow> \<not> is_stored p s \<Longrightarrow>
      K n (iemit (Stored p) (s\<lparr>ic_files := ic_files s @ [(p, d)]\<rparr>))"
begin

abbreviation steps :: "nat \<Rightarrow> nat \<Rightarrow> 'a iop \<Rightarrow> bool" where
  "steps n m op \<equiv> hoare (K n) op (\<lambda>_. K m) (K last_role)"

lemma K_mono: "n \<le> m \<Longrightarrow> K n s \<Longrightarrow> K m s"
  by (induction m) (auto simp: le_Suc_eq intro: later)

lemma steps_bind: "steps n m op \<Longrightarrow> (\<And>a. steps m k (f a)) \<Longrightarrow> steps n k (obind op f)"
  by (rule hoare_bind)

lemma steps_simps:
  "n \<le> m \<Longrightarrow> steps n m (oret a)" "n \<le> last_role \<Longrightarrow> steps n m (oraise e)" "n \<le> last_role \<Longrightarrow> steps n n (oget f)"
  "n \<le> last_role \<Longrightarrow> steps n n (olift r)" "n \<le> last_role \<Longrightarrow> steps n n (raising x)"
  by (auto simp: hoare_ret hoare_raise hoare_get raising_def intro: K_mono hoare_lift split: option.split)

lemma steps_effect: "plain_effect e \<Longrightarrow> n \<le> last_role \<Longrightarrow> steps n n (omap (iemit e))"
  by (simp add: hoare_map effect)

lemma steps_var: "n \<le> last_role \<Longrightarrow> steps n n (omap (set_local k v))"
  by (simp add: hoare_map var)

lemma steps_await: "n \<le> last_role \<Longrightarrow> steps n n (await_rest h)"
proof (rule hoareI)
  fix s assume "K n s" and "n \<le> last_role"
  then have "K n (snd (await_rest h s))" by (simp add: others)
  with \<open>n \<le> last_role\<close> show "case await_rest h s of (Inl _, s') \<Rightarrow> K last_role s' | (Inr _, s') \<Rightarrow> K n s'"
    by (auto split: prod.split sum.split intro: K_mono)
qed

lemma steps_if: "steps n m a \<Longrightarrow> steps n m b \<Longrightarrow> steps n m (if c then a else b)"
  by simp

lemma steps_journal: "n \<le> last_role \<Longrightarrow> steps n n (journal_phase h phase state event patch)"
  unfolding journal_phase_def
  by (intro steps_if steps_simps steps_bind[OF steps_effect] steps_bind[OF steps_simps(3)]) simp_all

lemma steps_note: "n \<le> last_role \<Longrightarrow> steps n n (inote h phase event patch)"
  unfolding inote_def by (rule steps_journal)

lemma steps_log: "n \<le> last_role \<Longrightarrow> action \<noteq> ''approval_policy'' \<Longrightarrow> steps n n (ilog h' role action summary policy)"
  unfolding ilog_def by (rule steps_effect) (simp_all add: logs_policy_def)

lemma steps_agent:
  assumes "n < last_role" and "role = AGENT_ROLES ! n"
  shows "steps n (Suc n) (run_agent role exact (agent_job h role i c ob ap))"
proof (rule hoareI)
  fix s assume "K n s"
  let ?a = "agent_after h role i c ob ap s"
  from \<open>K n s\<close> assms have K: "K (Suc n) (after_agent role ?a s)" by (simp add: agent)
  with \<open>n < last_role\<close> have "K last_role (after_agent role ?a s)" by (auto intro: K_mono[of "Suc n" last_role])
  with K show "case run_agent role exact (agent_job h role i c ob ap) s of
      (Inl _, s') \<Rightarrow> K last_role s' | (Inr _, s') \<Rightarrow> K (Suc n) s'"
    by (auto simp: run_agent_def agent_after_def Let_def var split: prod.split sum.split)
qed

lemma steps_role:
  assumes "n < last_role" and "role = AGENT_ROLES ! n"
  shows "steps n (Suc n) (call_role h role exact (agent_job h role i c ob ap))"
  unfolding call_role_def Let_def
  using assms
  by (auto intro!: steps_bind[OF steps_var] steps_bind[OF steps_note] steps_bind[OF steps_agent]
      steps_bind[OF steps_log] steps_simps steps_bind[where m = "Suc n" and op = "if _ then _ else _"]
      split: prod.split)

lemma steps_role_agent:
  "n < last_role \<Longrightarrow> role = AGENT_ROLES ! n \<Longrightarrow> steps n (Suc n) (call_role_agent h role input)"
  unfolding call_role_agent_def
  by (rule steps_bind[OF steps_role]) (auto simp: steps_simps split: prod.split)

lemma role_steps:
  "0 < last_role \<Longrightarrow> steps 0 1 (call_role_agent h ''triage'' i)"
  "1 < last_role \<Longrightarrow> steps 1 2 (call_role_agent h ''diagnosis'' i)"
  "3 < last_role \<Longrightarrow> steps 3 4 (call_role_agent h ''comms'' i)"
  "2 < last_role \<Longrightarrow> steps 2 3 (call_role h ''remediation'' exact (remediation_job h a))"
proof -
  show "steps 0 1 (call_role_agent h ''triage'' i)" if "0 < last_role"
    using steps_role_agent[of 0 "''triage''"] that by (simp add: AGENT_ROLES_def)
  show "steps 1 2 (call_role_agent h ''diagnosis'' i)" if "1 < last_role"
    using steps_role_agent[of 1 "''diagnosis''"] that by (simp add: AGENT_ROLES_def numeral_2_eq_2)
  show "steps 3 4 (call_role_agent h ''comms'' i)" if "3 < last_role"
    using steps_role_agent[of 3 "''comms''"] that by (simp add: AGENT_ROLES_def)
  show "steps 2 3 (call_role h ''remediation'' exact (remediation_job h a))" if "2 < last_role"
    using steps_role[of 2 "''remediation''"] that unfolding remediation_job_def by (simp add: AGENT_ROLES_def)
qed

lemma steps_triage: "1 \<le> last_role \<Longrightarrow> steps 0 1 (triage_stage h)"
  unfolding triage_stage_def
  by (intro steps_bind[OF role_steps(1)] steps_bind[OF steps_simps(4)] steps_simps; simp)

lemma steps_remediation:
  assumes "3 \<le> last_role"
  shows "steps 2 3 (run_remediation h a)"
proof -
  have unapplied: "steps 2 3 (obind (omap (set_local k v)) (\<lambda>_. oret r))" for k v r
    using assms by (intro steps_bind[OF steps_var] steps_simps) simp_all
  have applied: "steps 2 3 (obind (call_role h ''remediation'' exact (remediation_job h a)) (\<lambda>(r, approval, denied). oret (f r approval denied)))"
    for exact f
    using assms by (intro steps_bind[OF role_steps(4)]) (simp_all add: steps_simps split: prod.split)
  show ?thesis
    unfolding run_remediation_def Let_def
    using assms by (intro steps_bind[OF steps_var]) (simp_all add: unapplied applied)
qed

lemma steps_remediate: "3 \<le> last_role \<Longrightarrow> steps 2 3 (remediate h a)"
  unfolding remediate_def
  by (intro steps_bind[OF steps_remediation] steps_bind[OF steps_simps(4)] steps_bind[OF steps_var] steps_simps; simp)

lemma steps_verify: "n \<le> last_role \<Longrightarrow> steps n n (verify_incident h claimed ctx)"
  unfolding verify_incident_def
  by (rule steps_bind[OF steps_await], assumption, rule steps_bind[OF steps_simps(3)])
    (auto intro!: steps_bind[OF steps_simps(4)] steps_bind[OF steps_effect] steps_simps split: option.split)

lemma steps_settle: "n \<le> last_role \<Longrightarrow> steps n n (settle_incident h claimed ctx)"
  unfolding settle_incident_def
  by (rule steps_bind[OF steps_await], assumption, rule steps_bind[OF steps_simps(3)])
    (auto intro!: steps_simps split: option.split)

lemma steps_remedy:
  assumes "3 \<le> last_role"
  shows "steps 3 3 (verify_remedy h a r environment)"
proof -
  have vars: "steps 3 3 (omap (set_local k v \<circ> set_local k' v'))" for k v k' v'
    by (simp add: hoare_map var)
  have settling: "steps 3 3 (if c then oret skipped_settling else settle_incident h claimed ctx)" for c claimed ctx
    using assms by (simp add: steps_simps steps_settle)
  have verified: "steps 3 3 (obind (verify_incident h claimed ctx) (\<lambda>(v, d). f v d))" if "\<And>v d. steps 3 3 (f v d)"
    for claimed ctx and f :: "verdict \<Rightarrow> pydict \<Rightarrow> outcome iop"
    using assms by (intro steps_bind[OF steps_verify]) (simp_all add: that split: prod.split)
  show ?thesis
    unfolding verify_remedy_def Let_def
    using assms by (intro steps_bind[OF vars] steps_bind[OF steps_note] steps_bind[OF settling] steps_bind[OF steps_var]
        verified steps_simps; simp)
qed

lemma steps_verification: "3 \<le> last_role \<Longrightarrow> steps 2 3 (verification_stage h a)"
  unfolding verification_stage_def
  by (intro steps_bind[OF steps_remediate]) (simp_all add: steps_remedy split: prod.split)

lemma steps_create: "n \<le> last_role \<Longrightarrow> steps n n (create_file h p d)"
proof (rule hoareI)
  fix s assume "K n s" and "n \<le> last_role"
  then have "K last_role s" by (auto intro: K_mono)
  then show "case create_file h p d s of (Inl _, s') \<Rightarrow> K last_role s' | (Inr _, s') \<Rightarrow> K n s'"
    using stored[OF \<open>K n s\<close>]
    by (simp add: create_file_def obind_def oget_def raising_def oret_def oraise_def omap_def split: option.split)
qed

lemma steps_publish_call: "n \<le> last_role \<Longrightarrow> steps n n (publish_call h t call)"
  unfolding publish_call_def Let_def
  by (intro steps_bind[OF steps_effect] steps_bind[OF steps_simps(3)] steps_bind[OF steps_note] steps_simps;
      simp add: logs_policy_def)

lemma steps_publish: "n \<le> last_role \<Longrightarrow> steps n n (publish_incident h a oc inference)"
proof -
  assume n: "n \<le> last_role"
  have call: "steps n n (obind (publish_call h t call) (\<lambda>(out, t'). f out t'))" if "\<And>out t'. steps n n (f out t')"
    for t call and f :: "pydict \<Rightarrow> pydict list \<Rightarrow> pydict iop"
    by (rule steps_bind[OF steps_publish_call[OF n]]) (simp add: that split: prod.split)
  have "steps n n (publish_operational_outcome h f)" for f
    unfolding publish_operational_outcome_def Let_def by (intro call steps_simps) simp
  then show ?thesis
    unfolding publish_incident_def Let_def
    using n by (intro steps_bind[OF steps_simps(4)] steps_bind[OF steps_await] steps_bind[OF steps_var] steps_simps)
      (auto intro!: steps_bind steps_var steps_simps)
qed

lemma steps_notify: "n \<le> last_role \<Longrightarrow> steps n n (notify_closure h a oc comms)"
  unfolding notify_closure_def Let_def
  by (intro steps_if steps_bind[OF steps_simps(4)] steps_bind[OF steps_effect] steps_bind[OF steps_simps(3)]
      steps_bind[OF steps_var] steps_simps; simp)

lemma steps_comms:
  assumes "4 \<le> last_role"
  shows "steps 3 4 (comms_stage h a oc)"
proof -
  have "steps 3 4 (told_comms h a oc)"
    unfolding told_comms_def
    using assms by (intro steps_if role_steps steps_bind[OF steps_var] steps_simps) simp_all
  then show ?thesis
    unfolding comms_stage_def
    by (rule steps_bind) (use assms in \<open>intro steps_if steps_publish steps_notify; simp\<close>)
qed

lemma steps_persist: "n \<le> last_role \<Longrightarrow> steps n n (persist_incident_record h d)"
  unfolding persist_incident_record_def
  by (intro steps_bind[OF steps_simps(4)] steps_bind[OF steps_simps(3)] steps_create; simp)

lemma steps_recover: "steps last_role last_role (recover h e)"
proof -
  have "steps last_role last_role (omap (capture_partial h e))"
  proof -
    have "K last_role (capture_partial h e s)" if "K last_role s" for s
      using hoareD[OF steps_create[of last_role "partial_path h" "redacted h (partial_record h e (ic_locals s))"] that]
      by (auto simp: capture_partial_def split: prod.splits sum.splits)
    then show ?thesis by (simp add: hoare_map)
  qed
  moreover have "steps last_role last_role (previous_phase h)"
    unfolding previous_phase_def
    by (intro steps_bind[OF steps_simps(3)]) (auto intro: steps_simps split: sum.split)
  ultimately show ?thesis
    unfolding recover_def
    by (auto intro!: steps_bind steps_simps steps_journal split: prod.split)
qed

end

locale incident_invariant = stage_invariant +
  assumes policy: "K 2 s \<Longrightarrow> logs_policy e \<Longrightarrow> K 2 (iemit e s)"
begin

lemma steps_assess:
  assumes "2 \<le> last_role"
  shows "steps 0 2 (assess_incident h)"
proof -
  have rest: "steps 1 2 (obind (call_role_agent h ''diagnosis'' i) f)" if "\<And>x. steps 2 2 (f x)" for i and f :: "pydict \<Rightarrow> assessment iop"
    using assms that by (intro steps_bind[OF role_steps(2)]) simp_all
  have log: "steps 2 2 (ilog h ''coordinator'' ''approval_policy'' summary mode)" for summary mode
    using assms unfolding ilog_def by (simp add: hoare_map logs_policy_def policy)
  show ?thesis
    unfolding assess_incident_def Let_def
    by (rule steps_bind[OF steps_triage], use assms in simp, simp only: split_paired_all prod.case, rule rest)
      (use assms in \<open>intro steps_bind[OF steps_simps(4)] steps_bind[OF steps_var] steps_bind[OF log]
        steps_bind[OF steps_note] steps_simps; simp\<close>)
qed

lemma steps_chain:
  assumes "4 \<le> last_role"
  shows "steps 0 4 (incident_chain h)"
proof -
  have start: "steps 0 0 (case hd_tracing h of None \<Rightarrow> oret ()
      | Some tracing \<Rightarrow> inote h ''queued'' ''trace_bound'' [(''tracing'', tracing)])"
    using assms by (auto simp: steps_simps steps_note split: option.split)
  show ?thesis
    unfolding incident_chain_def Let_def
    using assms by (intro steps_bind[OF start] steps_bind[OF steps_assess] steps_bind[OF steps_verification]
        steps_bind[OF steps_comms] steps_bind[OF steps_persist] steps_bind[OF steps_journal] steps_bind[OF steps_log]
        steps_simps; simp)
qed

text \<open>Whatever ends the chain, the slot is released once, from a state of the last index.\<close>

lemma guarded_ends:
  assumes "K 0 s" and "4 = last_role"
  shows "\<exists>s' resolved reason. K last_role s' \<and> snd (guarded_chain h s) = release h resolved reason s'"
proof -
  obtain r s1 where chain: "incident_chain h s = (r, s1)" by force
  with hoareD[OF steps_chain assms(1)] assms(2) have "K last_role s1" by (auto split: sum.splits)
  then have recovered: "K last_role (snd (recover h e s1))" for e
    using hoareD[OF steps_recover, of s1 e] by (auto split: prod.splits sum.splits)
  show ?thesis
  proof (cases r)
    case (Inl e)
    obtain r' s2 where "recover h e s1 = (r', s2)" by force
    with chain Inl have "snd (guarded_chain h s) =
        release h False (case r' of Inl _ \<Rightarrow> '''' | Inr _ \<Rightarrow> if e = AgentCancelled then '''' else ''system_error'') s2"
      by (cases r') (simp_all add: guarded_chain_def)
    moreover from \<open>recover h e s1 = (r', s2)\<close> recovered[of e] have "K last_role s2" by simp
    ultimately show ?thesis by blast
  next
    case (Inr p)
    obtain rec resolved reason where "p = (rec, resolved, reason)" by (cases p)
    with chain Inr have "snd (guarded_chain h s) = release h resolved reason s1" by (simp add: guarded_chain_def)
    with \<open>K last_role s1\<close> show ?thesis by blast
  qed
qed

end

section \<open>Opening an incident\<close>

text \<open>Nothing but plain effects happened since \<open>s\<close>.\<close>

definition quietly :: "incident \<Rightarrow> incident \<Rightarrow> bool" where
  "quietly s s' \<longleftrightarrow> ic_gate s' = ic_gate s \<and> ic_files s' = ic_files s \<and>
     (\<exists>es. ic_trace s' = ic_trace s @ es \<and> list_all plain_effect es)"

lemma quietly_refl: "quietly s s"
  by (simp add: quietly_def)

lemma quietly_emit: "quietly s s' \<Longrightarrow> plain_effect e \<Longrightarrow> quietly s (iemit e s')"
  by (auto simp: quietly_def iemit_def)

lemma quietly_journal: "keeps (quietly s) (journal_phase h phase state event patch)"
  unfolding journal_phase_def
  by (auto intro!: keeps_bind keeps_map quietly_emit simp: raising_def split: option.split)

lemma quietly_open:
  "hoare (quietly s) (open_incident h) (\<lambda>_ s'. \<exists>s1 b. quietly s s1 \<and> s' = iemit Opened (s1\<lparr>ic_breaker := b\<rparr>)) (quietly s)"
proof -
  have admit: "keeps (quietly s) (admit_execution h)"
    unfolding admit_execution_def by (auto intro!: keeps_map quietly_emit split: option.split)
  have logging: "keeps (quietly s) (ilog h role ''incident_start'' summary policy)" for role summary policy
    unfolding ilog_def by (rule keeps_map) (simp add: quietly_emit logs_policy_def)
  have started: "hoare (quietly s) breaker_start (\<lambda>r s'. if r = None
      then \<exists>s1 b. quietly s s1 \<and> s' = iemit Opened (s1\<lparr>ic_breaker := b\<rparr>) else quietly s s') (quietly s)"
    by (auto simp: hoare_def breaker_start_def quietly_def split: prod.split option.split)
  have refused: "hoare (quietly s) (obind (journal_phase h ''finished'' ''failed'' ''admission_blocked'' []) (\<lambda>_. oraise e)) Q
      (quietly s)" for e Q
    by (rule hoare_bind[OF quietly_journal]) (simp add: hoare_raise)
  show ?thesis
    unfolding open_incident_def
    by (rule hoare_bind[OF admit], rule hoare_bind[where R = "\<lambda>_. quietly s"], simp,
        rule hoare_bind[OF logging], rule hoare_bind[OF started])
      (auto simp: hoare_ret refused split: option.split)
qed

text \<open>The handling with its identities, as far as they are accepted.\<close>

definition settled :: "handling \<Rightarrow> handling" where
  "settled h =
     (case checked_incident h of
        Inl _ \<Rightarrow> h
      | Inr h1 \<Rightarrow> (case checked_execution h1 of Inl _ \<Rightarrow> h1 | Inr h2 \<Rightarrow> h2))"

lemma settled_same: "\<exists>i x. settled h = h\<lparr>hd_incident := i, hd_execution := x\<rparr>"
proof -
  have one: "h1 = h\<lparr>hd_incident := hd_incident h1\<rparr>" if "checked_incident h = Inr h1" for h1
    using that by (auto simp: checked_incident_def rbind_eq_Inr split: if_splits)
  have two: "h2 = h1\<lparr>hd_execution := hd_execution h2\<rparr>" if "checked_execution h1 = Inr h2" for h1 h2
    using that by (auto simp: checked_execution_def split: if_splits)
  have both: "h1\<lparr>hd_execution := x\<rparr> = h\<lparr>hd_incident := hd_incident h1, hd_execution := x\<rparr>"
    if "checked_incident h = Inr h1" for h1 x
    by (subst one[OF that]) (simp only: handling.update_convs)
  show ?thesis
  proof (cases "checked_incident h")
    case (Inl e)
    then have "settled h = h\<lparr>hd_incident := hd_incident h, hd_execution := hd_execution h\<rparr>"
      by (simp add: settled_def)
    then show ?thesis by blast
  next
    case h1: (Inr h1)
    have "settled h = h1\<lparr>hd_execution := hd_execution (settled h)\<rparr>"
    proof (cases "checked_execution h1")
      case (Inl e)
      with h1 have "settled h = h1" by (simp add: settled_def)
      then show ?thesis by simp
    next
      case (Inr h2)
      with h1 have "settled h = h2" by (simp add: settled_def)
      then show ?thesis using two[OF Inr] by (simp only:)
    qed
    also note both[OF h1]
    finally show ?thesis by blast
  qed
qed

lemma settled_simps [simp]:
  "hd_operational (settled h) = hd_operational h" "hd_fmt (settled h) = hd_fmt h" "hd_ff (settled h) = hd_ff h"
  "hd_sha (settled h) = hd_sha h" "hd_scrub (settled h) = hd_scrub h"
  using settled_same[of h] by auto

text \<open>Either nothing happened but plain effects, or the chain ran from an opened state.\<close>

lemma handle_ends:
  assumes "\<And>s1 b. quietly s s1 \<Longrightarrow> P (guarded_chain (settled h) (iemit Opened (s1\<lparr>ic_breaker := b\<rparr>)))"
    and "\<And>e s1. quietly s s1 \<Longrightarrow> P (Inl e, s1)"
  shows "P (handle_incident h s)"
proof (cases "checked_incident h")
  case (Inl e)
  with assms(2)[OF quietly_refl] show ?thesis by (auto simp: handle_incident_def obind_def olift_def oraise_def)
next
  case h1: (Inr h1)
  show ?thesis
  proof (cases "hd_provider h1 \<noteq> None \<and> is_stored (canonical_path h1) s \<or> \<not> is_ok (checked_execution h1)")
    case True
    with h1 assms(2)[OF quietly_refl] show ?thesis
      by (auto simp: handle_incident_def obind_def olift_def oraise_def oret_def oget_def is_ok_def split: sum.splits)
  next
    case False
    then obtain h2 where h2: "checked_execution h1 = Inr h2" by (auto simp: is_ok_def split: sum.splits)
    obtain r s1 where opened: "open_incident h2 s = (r, s1)" by force
    note ends = hoareD[OF quietly_open[of s h2] quietly_refl, unfolded opened]
    from h1 h2 have "settled h = h2" by (simp add: settled_def)
    from False h1 h2 opened
    have run: "handle_incident h s = (case r of Inl e \<Rightarrow> (Inl e, s1) | Inr _ \<Rightarrow> guarded_chain h2 s1)"
      by (auto simp: handle_incident_def obind_def olift_def oret_def oget_def split: sum.split)
    with ends assms[unfolded \<open>settled h = h2\<close>] show ?thesis by (cases r) auto
  qed
qed

end
