(* ===== verification/IncidentGuarantees.thy ===== *)
theory IncidentGuarantees
  imports IncidentSteps
begin

text \<open>
  What holds of every handled incident, as interpretations of the chain's locale: its slot is given back
  once, its changes of the cluster are authorised, its files are kept, its agents run in order; and what
  a resolution rests on.
\<close>

section \<open>The slot of an incident\<close>

definition opens :: "incident_effect list \<Rightarrow> nat" where
  "opens t = length (filter (\<lambda>e. e = Opened) t)"

definition releases :: "incident_effect list \<Rightarrow> nat" where
  "releases t = length (filter (\<lambda>e. case e of Released _ _ \<Rightarrow> True | _ \<Rightarrow> False) t)"

lemma opens_snoc [simp]:
  "opens (t @ [e]) = opens t + of_bool (e = Opened)" "opens [] = 0"
  "releases (t @ [e]) = releases t + (case e of Released _ _ \<Rightarrow> 1 | _ \<Rightarrow> 0)" "releases [] = 0"
  by (simp_all add: opens_def releases_def split: incident_effect.split)

lemma frame_incident [simp]:
  "ic_trace (iemit e s) = ic_trace s @ [e]" "ic_gate (iemit e s) = ic_gate s" "ic_files (iemit e s) = ic_files s"
  "ic_trace (set_local k v s) = ic_trace s" "ic_gate (set_local k v s) = ic_gate s" "ic_files (set_local k v s) = ic_files s"
  "ic_trace (snd (await_rest h s)) = ic_trace s" "ic_files (snd (await_rest h s)) = ic_files s"
  "ic_trace (after_agent role a s) = ic_trace s @ [RoleRun role (ag_trace a)]"
  "ic_gate (after_agent role a s) = ag_gate a" "ic_files (after_agent role a s) = ic_files s"
  "ic_trace (release h r w s) = ic_trace s @ [Released r w]" "ic_gate (release h r w s) = ic_gate s"
  "ic_files (release h r w s) = ic_files s"
  by (simp_all add: iemit_def set_local_def await_rest_def Let_def after_agent_def release_def)

definition slot_taken :: "incident \<Rightarrow> bool" where
  "slot_taken s \<longleftrightarrow> opens (ic_trace s) = 1 \<and> releases (ic_trace s) = 0"

lemma plain_counts: "plain_effect e \<Longrightarrow> e \<noteq> Opened" "plain_effect e \<Longrightarrow> (case e of Released _ _ \<Rightarrow> 1 | _ \<Rightarrow> 0) = (0 :: nat)"
  by (cases e; simp)+

lemma quietly_counts: "quietly s s' \<Longrightarrow> opens (ic_trace s') = opens (ic_trace s) \<and> releases (ic_trace s') = releases (ic_trace s)"
proof -
  have "opens (t @ es) = opens t \<and> releases (t @ es) = releases t" if "list_all plain_effect es" for t es
    using that by (induction es arbitrary: t) (auto simp: opens_def releases_def plain_counts split: incident_effect.splits)
  then show "quietly s s' \<Longrightarrow> ?thesis" by (auto simp: quietly_def)
qed

interpretation slot: incident_invariant h 4 "\<lambda>_. slot_taken" for h
  by unfold_locales (auto simp: slot_taken_def plain_counts elim: logs_policyE)

section \<open>Every change of the cluster\<close>

definition cluster_effect_ok :: "handling \<Rightarrow> gate \<Rightarrow> string \<Rightarrow> agent_effect \<Rightarrow> bool" where
  "cluster_effect_ok h g role e =
     (case e of
        CalledTool name args \<Rightarrow>
          name \<in> effective_role_tools role (hd_operational h) \<and>
          (if is_mutating_action (hd_fmt h) name args then role = ''remediation'' \<and> \<not> hd_operational h else True)
      | Executed p \<Rightarrow>
          role = ''remediation'' \<and>
          (case action_digest (hd_ff h) (hd_sha h) (approval_action p) of
             Inr d \<Rightarrow> approved_for g (hd_incident h) d | Inl _ \<Rightarrow> False)
      | _ \<Rightarrow> True)"

definition incident_effect_ok :: "handling \<Rightarrow> gate \<Rightarrow> incident_effect \<Rightarrow> bool" where
  "incident_effect_ok h g e =
     (case e of RoleRun role t \<Rightarrow> list_all (cluster_effect_ok h g role) t | _ \<Rightarrow> True)"

lemma mutating_tool_role:
  assumes "name \<in> effective_role_tools role operational" and "is_mutating_action fmt name args"
  shows "role = ''remediation''"
proof -
  from assms(1) obtain ts where ts: "ROLE_ALLOWED_TOOLS role = Some ts" "name \<in> ts" using effective_tools_allowed by blast
  from assms(2) have "name \<in> CLUSTER_MUTATING_TOOLS" by (auto simp: is_mutating_action_def split: if_splits)
  with role_tools_cases[OF ts(1)] ts(2) show ?thesis by (auto simp: tool_sets)
qed

lemma agent_job_simps [simp]:
  "jb_ff (agent_job h role i c ob ap it) = hd_ff h" "jb_sha (agent_job h role i c ob ap it) = hd_sha h"
  "jb_fmt (agent_job h role i c ob ap it) = hd_fmt h" "jb_role (agent_job h role i c ob ap it) = role"
  "jb_incident (agent_job h role i c ob ap it) = hd_incident h"
  "jb_operational (agent_job h role i c ob ap it) = hd_operational h"
  by (simp_all add: agent_job_def)

lemma trace_ok_member:
  assumes "trace_ok jb t" and "e \<in> set t"
  shows "\<exists>xs. effect_ok jb xs e"
proof -
  from assms(2) obtain i where "i < length t" "t ! i = e" by (auto simp: in_set_conv_nth)
  with assms(1) show ?thesis unfolding trace_ok_def list_all_iff by force
qed

text \<open>What one agent did, seen from the gate it leaves.\<close>

lemma agent_effects_ok:
  assumes "gate_inv (ic_gate s)" and after: "a = agent_after h role i c ob ap s"
  shows "gate_inv (ag_gate a) \<and> list_all (cluster_effect_ok h (ag_gate a) role) (ag_trace a)"
proof -
  let ?jb = "agent_job h role i c ob ap (ic_trace s)"
  have a: "a = snd (call_agent ?jb 10 (start_agent ?jb (ic_breaker s) (ic_gate s)))"
    by (simp add: after agent_after_def Let_def)
  have backed: "backed ?jb a" unfolding a by (rule backed.run_safe) (simp add: backed_def assms(1))
  have ok: "trace_ok ?jb (ag_trace a)"
    unfolding a using authorised.run_safe[of ?jb "start_agent ?jb (ic_breaker s) (ic_gate s)" 10] by (simp add: authorised_def)
  have called: "name \<in> effective_role_tools role (hd_operational h) \<and>
      (is_mutating_action (hd_fmt h) name args \<longrightarrow> \<not> hd_operational h)" if mem: "CalledTool name args \<in> set (ag_trace a)" for name args
  proof -
    from trace_ok_member[OF ok mem] obtain t where
      "name \<in> effective_role_tools role (hd_operational h)" "entitled ?jb name args None t"
      by (auto simp: effect_ok_def)
    then show ?thesis using mutating_tool_role by (auto simp: entitled_def guarded_mutation_def)
  qed
  have executed: "role = ''remediation''" if mem: "Executed p \<in> set (ag_trace a)" for p
    using trace_ok_member[OF ok mem] by (auto simp: effect_ok_def)
  have "cluster_effect_ok h (ag_gate a) role e" if mem: "e \<in> set (ag_trace a)" for e
    using mem called mutating_tool_role executed executed_permitted[OF ok] backed
    by (auto simp: cluster_effect_ok_def backed_def split: AgentLoop.effect.split) fastforce+
  with backed show ?thesis by (simp add: backed_def list_all_iff)
qed

text \<open>An agent's gate has all decisions of the gate it started from.\<close>

definition grown :: "gate \<Rightarrow> agent \<Rightarrow> bool" where
  "grown g s \<longleftrightarrow> gate_inv (ag_gate s) \<and> gate_extends g (ag_gate s)"

lemma grown_later:
  assumes "grown g s" and "gate_inv (ag_gate s) \<Longrightarrow> gate_inv g'" and "gate_inv (ag_gate s) \<Longrightarrow> gate_extends (ag_gate s) g'"
    and "ag_gate s' = g'"
  shows "grown g s'"
  using assms gate_extends_trans unfolding grown_def by metis

interpretation grown_loop: loop_invariant jb "grown g" for jb g
proof unfold_locales
  show "grown g (await_others jb s)" if "grown g s" for s
    by (rule grown_later[OF that]) (auto simp: await_others_def approval.inv_run approval_log.extends_run)
  show "grown g (s\<lparr>ag_gate := gate_step (jb_ff jb) (jb_sha jb) (ag_gate s) call\<rparr>)" if "grown g s" for s call
    by (rule grown_later[OF that]) (auto simp: gate_inv_step gate_step_extends simp del: gate_step.simps)
qed (auto simp: grown_def same_core_def)

interpretation grown: call_invariant jb "grown g" "\<lambda>_ _. grown g" "\<lambda>_ _. grown g" "grown g" for jb g
  by (intro call_invariant.intro call_invariant_axioms.intro grown_loop.loop_invariant_axioms) (auto simp: grown_def)

definition changes_approved :: "handling \<Rightarrow> incident \<Rightarrow> bool" where
  "changes_approved h s \<longleftrightarrow> gate_inv (ic_gate s) \<and> list_all (incident_effect_ok h (ic_gate s)) (ic_trace s)"

lemma incident_effect_mono:
  "gate_extends g g' \<Longrightarrow> incident_effect_ok h g e \<Longrightarrow> incident_effect_ok h g' e"
  by (auto simp: incident_effect_ok_def cluster_effect_ok_def list_all_iff approved_for_extends
      split: incident_effect.splits AgentLoop.effect.splits sum.splits; fastforce simp: approved_for_extends)

lemma changes_approved_later:
  assumes "changes_approved h s" and "gate_inv (ic_gate s')" and "gate_extends (ic_gate s) (ic_gate s')"
    and "ic_trace s' = ic_trace s @ es" and "list_all (incident_effect_ok h (ic_gate s')) es"
  shows "changes_approved h s'"
  using assms incident_effect_mono unfolding changes_approved_def by (auto simp: list_all_iff)

interpretation changes: incident_invariant h 4 "\<lambda>_. changes_approved h" for h
proof unfold_locales
  show "changes_approved h (iemit e s)" if "changes_approved h s" and "plain_effect e" for s e
    using that by (cases e) (auto simp: changes_approved_def incident_effect_ok_def)
  show "changes_approved h (snd (await_rest h s))" if "changes_approved h s" for s
    by (rule changes_approved_later[OF that, of _ "[]"])
      (use that in \<open>auto simp: await_rest_def Let_def changes_approved_def approval.inv_run approval_log.extends_run\<close>)
  show "changes_approved h (after_agent (AGENT_ROLES ! n) (agent_after h (AGENT_ROLES ! n) i c ob ap s) s)"
    if "changes_approved h s" for n i c ob ap s
  proof -
    let ?a = "agent_after h (AGENT_ROLES ! n) i c ob ap s" and ?jb = "agent_job h (AGENT_ROLES ! n) i c ob ap (ic_trace s)"
    from that have inv: "gate_inv (ic_gate s)" by (simp add: changes_approved_def)
    have "grown (ic_gate s) (start_agent ?jb (ic_breaker s) (ic_gate s))" by (simp add: grown_def inv gate_extends_refl)
    then have "grown (ic_gate s) ?a" unfolding agent_after_def Let_def by (rule grown.run_safe)
    with agent_effects_ok[OF inv refl, of h "AGENT_ROLES ! n" i c ob ap] show ?thesis
      by (intro changes_approved_later[OF that]) (auto simp: grown_def incident_effect_ok_def)
  qed
qed (auto simp: changes_approved_def incident_effect_ok_def elim: logs_policyE)

section \<open>Files\<close>

definition files_kept :: "(string \<times> pydict) list \<Rightarrow> incident \<Rightarrow> bool" where
  "files_kept files s \<longleftrightarrow>
     (\<exists>new. ic_files s = files @ new \<and> distinct (map fst new) \<and> fst ` set new \<inter> fst ` set files = {})"

interpretation files: incident_invariant h 4 "\<lambda>_. files_kept files" for h files
proof unfold_locales
  show "files_kept files (iemit (Stored p) (s\<lparr>ic_files := ic_files s @ [(p, d)]\<rparr>))"
    if kept: "files_kept files s" and "\<not> is_stored p s" for p d s
  proof -
    from kept obtain new where new: "ic_files s = files @ new" "distinct (map fst new)" "fst ` set new \<inter> fst ` set files = {}"
      by (auto simp: files_kept_def)
    with that(2) show ?thesis
      unfolding files_kept_def by (intro exI[of _ "new @ [(p, d)]"]) (auto simp: is_stored_def)
  qed
qed (auto simp: files_kept_def)

section \<open>The order of the roles\<close>

definition roles_run :: "incident_effect list \<Rightarrow> string list" where
  "roles_run t = concat (map (\<lambda>e. case e of RoleRun role _ \<Rightarrow> [role] | _ \<Rightarrow> []) t)"

lemma roles_run_snoc [simp]:
  "roles_run (t @ [e]) = roles_run t @ (case e of RoleRun role _ \<Rightarrow> [role] | _ \<Rightarrow> [])" "roles_run [] = []"
  by (simp_all add: roles_run_def)

definition in_order :: "nat \<Rightarrow> incident \<Rightarrow> bool" where
  "in_order n s \<longleftrightarrow> subseq (roles_run (ic_trace s)) (take n AGENT_ROLES)"

lemma plain_roles: "plain_effect e \<Longrightarrow> (case e of RoleRun role _ \<Rightarrow> [role] | _ \<Rightarrow> []) = []"
  by (cases e) simp_all

interpretation order: incident_invariant h 4 in_order for h
proof unfold_locales
  show "in_order (Suc n) s" if "in_order n s" for n s
  proof -
    have "take (Suc n) AGENT_ROLES = take n AGENT_ROLES @ take 1 (drop n AGENT_ROLES)"
      using take_add[of n 1 AGENT_ROLES] by simp
    with that show ?thesis unfolding in_order_def by (metis list_emb_prefix)
  qed
  show "in_order (Suc n) (after_agent (AGENT_ROLES ! n) (agent_after h (AGENT_ROLES ! n) i c ob ap s) s)"
    if "in_order n s" and "n < 4" for n i c ob ap s
  proof -
    from that(2) have "take (Suc n) AGENT_ROLES = take n AGENT_ROLES @ [AGENT_ROLES ! n]"
      by (intro take_Suc_conv_app_nth) (simp add: AGENT_ROLES_def)
    with that(1) show ?thesis by (simp add: in_order_def list_emb_append_mono)
  qed
qed (auto simp: in_order_def plain_roles elim: logs_policyE)

section \<open>Properties\<close>

definition handled :: "handling \<Rightarrow> breaker \<Rightarrow> gate \<Rightarrow> (string \<times> pydict) list \<Rightarrow> incident" where
  "handled h b g files = snd (handle_incident h (start_handling b g files))"

lemma handled_ends:
  assumes "\<And>s1 b'. quietly (start_handling b g files) s1 \<Longrightarrow>
      P (snd (guarded_chain (settled h) (iemit Opened (s1\<lparr>ic_breaker := b'\<rparr>))))"
    and "\<And>s1. quietly (start_handling b g files) s1 \<Longrightarrow> P s1"
  shows "P (handled h b g files)"
  unfolding handled_def by (rule handle_ends) (simp_all add: assms)

lemma quietly_start:
  "quietly (start_handling b g files) s \<Longrightarrow>
     ic_gate s = g \<and> ic_files s = files \<and> list_all plain_effect (ic_trace s) \<and>
     opens (ic_trace s) = 0 \<and> releases (ic_trace s) = 0 \<and> roles_run (ic_trace s) = []"
proof -
  assume q: "quietly (start_handling b g files) s"
  then have plain: "list_all plain_effect (ic_trace s)" by (auto simp: quietly_def start_handling_def)
  moreover have "roles_run t = []" if "list_all plain_effect t" for t
    using that by (induction t) (auto simp: roles_run_def plain_roles)
  ultimately show ?thesis
    using q quietly_counts[OF q] by (auto simp: quietly_def start_handling_def)
qed

text \<open>
  C20. An incident that the circuit breaker admitted gives its slot back exactly once, as the last thing it
  does, whether the chain returns, raises, or is cancelled; an incident that was not admitted gives
  nothing back.
\<close>

theorem slot_released_once:
  "let t = ic_trace (handled h b g files) in
   opens t = releases t \<and> releases t \<le> 1 \<and>
   (case rev t of Released _ _ # _ \<Rightarrow> releases t = 1 | _ \<Rightarrow> opens t = 0)"
proof (rule handled_ends)
  fix s1 b' assume "quietly (start_handling b g files) s1"
  from quietly_start[OF this] have "slot_taken (iemit Opened (s1\<lparr>ic_breaker := b'\<rparr>))" by (simp add: slot_taken_def)
  from slot.guarded_ends[OF this refl, of "settled h"]
  obtain s' resolved reason where "slot_taken s'"
    and "snd (guarded_chain (settled h) (iemit Opened (s1\<lparr>ic_breaker := b'\<rparr>))) = release (settled h) resolved reason s'" by blast
  then show "let t = ic_trace (snd (guarded_chain (settled h) (iemit Opened (s1\<lparr>ic_breaker := b'\<rparr>)))) in
      opens t = releases t \<and> releases t \<le> 1 \<and> (case rev t of Released _ _ # _ \<Rightarrow> releases t = 1 | _ \<Rightarrow> opens t = 0)"
    by (simp add: slot_taken_def Let_def)
next
  fix s1 assume "quietly (start_handling b g files) s1"
  from quietly_start[OF this] show "let t = ic_trace s1 in
      opens t = releases t \<and> releases t \<le> 1 \<and> (case rev t of Released _ _ # _ \<Rightarrow> releases t = 1 | _ \<Rightarrow> opens t = 0)"
    by (auto simp: Let_def list_all_iff split: list.split incident_effect.split)
qed

text \<open>
  C9. Every change that handling an incident makes to the cluster is authorised: all agents call tools of
  their role only; a mutating tool is called by the remediation agent only, and never directly in
  operational mode; and every prepared action that is executed has, in the approval gate at the end, a
  request of this incident for exactly this action, approved by an identified operator.
\<close>

theorem incident_changes_approved:
  "let s = handled h b (run (gate_step (hd_ff h) (hd_sha h)) (new_gate timeout) calls) files
   in list_all (incident_effect_ok (settled h) (ic_gate s)) (ic_trace s)"
proof -
  let ?g = "run (gate_step (hd_ff h) (hd_sha h)) (new_gate timeout) calls"
  have "changes_approved (settled h) (handled h b ?g files)"
  proof (rule handled_ends)
    have plain: "changes_approved (settled h) s1" if "quietly (start_handling b ?g files) s1" for s1
    proof -
      have "incident_effect_ok (settled h) g e" if "plain_effect e" for g e
        using that by (cases e) (simp_all add: incident_effect_ok_def)
      with quietly_start[OF that] show ?thesis
        by (auto simp: changes_approved_def approval.inv_run list_all_iff)
    qed
    show "changes_approved (settled h) s1" if "quietly (start_handling b ?g files) s1" for s1
      by (rule plain[OF that])
    show "changes_approved (settled h) (snd (guarded_chain (settled h) (iemit Opened (s1\<lparr>ic_breaker := b'\<rparr>))))"
      if "quietly (start_handling b ?g files) s1" for s1 b'
    proof -
      from plain[OF that] have "changes_approved (settled h) (iemit Opened (s1\<lparr>ic_breaker := b'\<rparr>))"
        by (simp add: changes_approved_def incident_effect_ok_def)
      from changes.guarded_ends[OF this refl] obtain s' resolved reason where "changes_approved (settled h) s'"
        and "snd (guarded_chain (settled h) (iemit Opened (s1\<lparr>ic_breaker := b'\<rparr>))) = release (settled h) resolved reason s'" by blast
      then show ?thesis by (simp add: changes_approved_def incident_effect_ok_def)
    qed
  qed
  then show ?thesis by (simp add: changes_approved_def Let_def)
qed

text \<open>
  No stored incident is ever overwritten or removed: the files that were there stay as they were, and
  what is added has new and distinct names.
\<close>

theorem stored_incidents_survive: "files_kept files (handled h b g files)"
proof (rule handled_ends)
  have start: "files_kept files s" if "ic_files s = files" for s
    using that unfolding files_kept_def by (intro exI[of _ "[]"]) simp
  show "files_kept files s1" if "quietly (start_handling b g files) s1" for s1
    using quietly_start[OF that] start by simp
  show "files_kept files (snd (guarded_chain (settled h) (iemit Opened (s1\<lparr>ic_breaker := b'\<rparr>))))"
    if "quietly (start_handling b g files) s1" for s1 b'
  proof -
    have "files_kept files (iemit Opened (s1\<lparr>ic_breaker := b'\<rparr>))"
      using quietly_start[OF that] by (intro start) simp
    from files.guarded_ends[OF this refl, of "settled h"] show ?thesis by (auto simp: files_kept_def)
  qed
qed

text \<open>
  The agents of an incident run in the order triage, diagnosis, remediation, communication, each at
  most once, whatever fails.
\<close>

theorem agents_run_in_order: "subseq (roles_run (ic_trace (handled h b g files))) AGENT_ROLES"
proof (rule handled_ends)
  show "subseq (roles_run (ic_trace s1)) AGENT_ROLES" if "quietly (start_handling b g files) s1" for s1
    using quietly_start[OF that] by simp
  show "subseq (roles_run (ic_trace (snd (guarded_chain (settled h) (iemit Opened (s1\<lparr>ic_breaker := b'\<rparr>)))))) AGENT_ROLES"
    if "quietly (start_handling b g files) s1" for s1 b'
  proof -
    have "in_order 0 (iemit Opened (s1\<lparr>ic_breaker := b'\<rparr>))" using quietly_start[OF that] by (simp add: in_order_def)
    from order.guarded_ends[OF this refl, of "settled h"] show ?thesis by (auto simp: in_order_def AGENT_ROLES_def)
  qed
qed

section \<open>What was recorded stays\<close>

definition seen :: "(incident_effect \<Rightarrow> bool) \<Rightarrow> incident \<Rightarrow> bool" where
  "seen Q s = list_ex Q (ic_trace s)"

interpretation seen: incident_invariant h 4 "\<lambda>_. seen Q" for h Q
  by unfold_locales (auto simp: seen_def)

definition ran_remediation :: "incident_effect \<Rightarrow> bool" where
  "ran_remediation e = (case e of RoleRun role _ \<Rightarrow> role = ''remediation'' | _ \<Rightarrow> False)"

text \<open>What happened since the remediation agent ran, if it did, the latest first.\<close>

definition since_remediation :: "incident_effect list \<Rightarrow> incident_effect list" where
  "since_remediation t = takeWhile (\<lambda>e. \<not> ran_remediation e) (rev t)"

definition fresh :: "(incident_effect \<Rightarrow> bool) \<Rightarrow> incident \<Rightarrow> bool" where
  "fresh Q s = list_ex Q (since_remediation (ic_trace s))"

lemma since_snoc [simp]:
  "since_remediation (t @ [e]) = (if ran_remediation e then [] else e # since_remediation t)"
  by (simp add: since_remediation_def)

lemma plain_not_remediation: "plain_effect e \<Longrightarrow> \<not> ran_remediation e"
  by (cases e) (simp_all add: ran_remediation_def)

lemma policy_not_remediation: "logs_policy e \<Longrightarrow> \<not> ran_remediation e"
  by (cases e) (simp_all add: ran_remediation_def logs_policy_def)

lemma remediation_role [simp]: "ran_remediation (RoleRun role t) \<longleftrightarrow> role = ''remediation''"
  "\<not> ran_remediation (Stored p)" "\<not> ran_remediation Opened" "\<not> ran_remediation (Released resolved reason)"
  by (simp_all add: ran_remediation_def)

lemma other_roles:
  "n < 2 \<Longrightarrow> AGENT_ROLES ! n \<noteq> ''remediation''" "3 \<le> n \<Longrightarrow> n < 4 \<Longrightarrow> AGENT_ROLES ! n \<noteq> ''remediation''"
  by (auto simp: AGENT_ROLES_def less_Suc_eq numeral_eq_Suc)

definition policy_entry :: "string \<Rightarrow> incident_effect \<Rightarrow> bool" where
  "policy_entry mode e =
     (case e of
        Logged a \<Rightarrow> aa_action_type a = ''approval_policy'' \<and> aa_policy_check a = mode
      | _ \<Rightarrow> False)"

definition good_verdict :: "handling \<Rightarrow> incident_effect \<Rightarrow> bool" where
  "good_verdict h e =
     (case e of
        Verified v \<Rightarrow> vd_resolved v \<and> (if hd_operational h then vd_status v = ''passed'' else True)
      | _ \<Rightarrow> False)"

text \<open>What each stage hands on.\<close>

definition assessed :: "handling \<Rightarrow> assessment \<Rightarrow> incident \<Rightarrow> bool" where
  "assessed h a s \<longleftrightarrow>
     approval_policy h (as_severity a) = as_mode a \<and> dget (as_approval a) ''decision'' = PNone \<and>
     seen (policy_entry (as_mode a)) s"

lemma assessed_logged: "assessed h a s \<Longrightarrow> seen (policy_entry (as_mode a)) s"
  unfolding assessed_def by blast

definition remedied :: "handling \<Rightarrow> assessment \<Rightarrow> remedy \<Rightarrow> incident \<Rightarrow> bool" where
  "remedied h a r s \<longleftrightarrow> seen (policy_entry (as_mode a)) s \<and>
     (if truthy (dget (as_consistency a) ''requires_review'')
      then rm_result r = target_mismatch_remediation_record (hd_incident h) (as_consistency a) \<and> rm_blocked r
      else if as_mode a = ''manual''
      then rm_result r = manual_remediation_record (hd_fmt h) (hd_incident h) (effective_triage a) (final_of (as_diagnosis a)) \<and>
           dget (rm_approval r) ''decision'' = PNone
      else seen ran_remediation s)"

definition verified :: "handling \<Rightarrow> assessment \<Rightarrow> outcome \<Rightarrow> incident \<Rightarrow> bool" where
  "verified h a oc s \<longleftrightarrow> remedied h a (oc_remedy oc) s \<and> fresh ((=) (Verified (oc_verdict oc))) s \<and>
     (\<exists>stamp. oc_verification oc = verdict_dict stamp (oc_verdict oc))"

lemma always: "hoare P m (\<lambda>_ _. True) (\<lambda>_. True)"
  by (simp add: hoare_def split: prod.split sum.split)

lemma skip: "(\<And>a. hoare (\<lambda>_. True) (f a) Q (\<lambda>_. True)) \<Longrightarrow> hoare P (obind m f) Q (\<lambda>_. True)"
  by (rule hoare_bind[OF always])

text \<open>A triple whose failures do not matter.\<close>

lemma weaken: "hoare P m Q E \<Longrightarrow> hoare P m Q (\<lambda>_. True)"
  by (erule hoare_conseq) simp_all

lemma hoare_both:
  "hoare P m Q (\<lambda>_. True) \<Longrightarrow> hoare P m R (\<lambda>_. True) \<Longrightarrow> hoare P m (\<lambda>a s. Q a s \<and> R a s) (\<lambda>_. True)"
  by (force simp: hoare_def split: prod.splits sum.splits)

lemma seen_ops:
  "action \<noteq> ''approval_policy'' \<Longrightarrow> hoare (seen Q) (ilog h role action summary policy) (\<lambda>_. seen Q) (\<lambda>_. True)"
  "hoare (seen Q) (inote h phase event patch) (\<lambda>_. seen Q) (\<lambda>_. True)"
  "hoare (seen Q) (omap (set_local k v)) (\<lambda>_. seen Q) (\<lambda>_. True)"
  "hoare (seen Q) (olift r) (\<lambda>_. seen Q) (\<lambda>_. True)"
  "hoare (seen Q) (if c then oret () else oraise e) (\<lambda>_. seen Q) (\<lambda>_. True)"
proof -
  show "hoare (seen Q) (ilog h role action summary policy) (\<lambda>_. seen Q) (\<lambda>_. True)" if "action \<noteq> ''approval_policy''"
    by (rule weaken, rule seen.steps_log[of 0]) (simp_all add: that)
qed (rule weaken, rule seen.steps_note[of 0], simp, simp add: hoare_map seen_def,
      auto simp: hoare_lift hoare_ret hoare_raise)

lemma assess_yields: "hoare (\<lambda>_. True) (assess_incident h) (assessed h) (\<lambda>_. True)"
proof -
  have logged: "hoare P (ilog h role ''approval_policy'' summary mode) (\<lambda>_. seen (policy_entry mode)) (\<lambda>_. True)" for P role summary mode
    by (auto simp: ilog_def hoare_map seen_def policy_entry_def)
  have noted: "hoare (seen Q) (obind (inote h phase event patch) (\<lambda>_. oret a)) (assessed h) (\<lambda>_. True)"
    if "\<And>s. seen Q s \<Longrightarrow> assessed h a s" for Q phase event patch a
    by (rule hoare_bind[OF seen_ops(2)]) (simp add: hoare_ret that)
  show ?thesis
    unfolding assess_incident_def Let_def
    by (rule skip, simp only: split_paired_all prod.case, rule skip, rule skip, rule skip, rule skip, rule skip, rule skip,
        rule hoare_bind[OF logged], rule noted) (simp add: assessed_def policy_record_def)
qed

lemma remediation_runs:
  "hoare P (call_role h ''remediation'' exact jb) (\<lambda>_. seen ran_remediation) (\<lambda>_. True)"
proof -
  have agent: "hoare P (run_agent ''remediation'' exact jb) (\<lambda>_. seen ran_remediation) (\<lambda>_. True)" for P
    by (auto simp: hoare_def run_agent_def seen_def ran_remediation_def Let_def split: prod.splits sum.splits)
  show ?thesis
    unfolding call_role_def Let_def
    by (rule skip, rule skip, rule hoare_bind[OF agent], simp only: split_paired_all prod.case)
      (rule hoare_bind[OF seen_ops(5)], rule hoare_bind[OF seen_ops(1)], simp, rule hoare_bind[OF seen_ops(2)],
        rule hoare_bind[OF seen_ops(3)], simp add: hoare_ret)
qed

lemma remediation_yields: "hoare (assessed h a) (run_remediation h a) (remedied h a) (\<lambda>_. True)"
proof -
  have unapplied: "hoare (assessed h a) (obind (omap (set_local k v)) (\<lambda>_. oret r)) (remedied h a) (\<lambda>_. True)"
    if "\<And>s. assessed h a s \<Longrightarrow> remedied h a r s" for k v r
    using that by (auto simp: hoare_def obind_def omap_def oret_def assessed_def remedied_def seen_def split: if_splits)
  have kept: "hoare (seen Q) (call_role h ''remediation'' exact (remediation_job h a)) (\<lambda>_. seen Q) (\<lambda>_. True)" for Q exact
    using weaken[OF seen.role_steps(4)] by simp
  have applied: "hoare (assessed h a) (obind (call_role h ''remediation'' exact (remediation_job h a))
      (\<lambda>(result, approval, denied). oret (f result approval denied))) (remedied h a) (\<lambda>_. True)"
    if "\<not> truthy (dget (as_consistency a) ''requires_review'')" and "as_mode a \<noteq> ''manual''" for exact f
  proof (rule hoare_bind)
    show "hoare (assessed h a) (call_role h ''remediation'' exact (remediation_job h a))
        (\<lambda>_ s. seen (policy_entry (as_mode a)) s \<and> seen ran_remediation s) (\<lambda>_. True)"
      by (rule hoare_both[OF hoare_conseq[OF kept] remediation_runs]) (erule assessed_logged | simp)+
  qed (use that in \<open>auto simp: hoare_ret remedied_def split: prod.split\<close>)
  have entered: "hoare (assessed h a) (omap (set_local k v)) (\<lambda>_. assessed h a) (\<lambda>_. True)" for k v
    by (simp add: hoare_map assessed_def seen_def)
  show ?thesis
    unfolding run_remediation_def Let_def
    by (rule hoare_bind[OF entered])
      (auto intro!: unapplied applied simp: assessed_def remedied_def)
qed

lemma require_approved_simps [simp]:
  "rm_result (require_approved r) = rm_result r" "rm_blocked (require_approved r) = rm_blocked r"
  "\<not> rm_denied (require_approved r) \<Longrightarrow> dget (rm_approval (require_approved r)) ''decision'' = PStr ''approved''"
  "rm_result (deny_remedy decision r) = rm_result r" "rm_blocked (deny_remedy decision r) = rm_blocked r"
  by (auto simp: require_approved_def deny_remedy_def split: if_splits)

lemma settled_remedy:
  assumes "settle_decision a r = Inr r'"
  shows "rm_result r' = rm_result r" and "rm_blocked r' = rm_blocked r"
    and "as_mode a \<noteq> ''approve'' \<Longrightarrow> r' = r"
    and "as_mode a = ''approve'' \<Longrightarrow> \<not> rm_denied r' \<Longrightarrow> dget (rm_approval r') ''decision'' = PStr ''approved''"
  using assms by (auto simp: settle_decision_def rbind_eq_Inr split: if_splits)

lemma remediate_yields:
  "hoare (assessed h a) (remediate h a) (\<lambda>(r, environment). remedied h a r) (\<lambda>_. True)"
proof -
  have final: "hoare (remedied h a r) (obind (omap (set_local k v)) (\<lambda>_. oret (settle_preparation h r', environment)))
      (\<lambda>(r, environment). remedied h a r) (\<lambda>_. True)" if "settle_decision a r = Inr r'" for r r' k v environment
    using settled_remedy[OF that]
    by (auto simp: hoare_def obind_def omap_def oret_def remedied_def seen_def settle_preparation_def split: if_splits)
  have decided: "hoare (remedied h a r) (obind (olift (settle_decision a r)) (\<lambda>r1.
      obind (omap (set_local ''approval'' (PDict (rm_approval r1)))) (\<lambda>_. oret (settle_preparation h r1, environment))))
      (\<lambda>(r, environment). remedied h a r) (\<lambda>_. True)" for r environment
    by (cases "settle_decision a r") (simp_all add: olift_def hoare_raise hoare_bind[OF always] hoare_def obind_def oraise_def,
      use final in \<open>simp add: hoare_def obind_def oret_def\<close>)
  have looked: "hoare (remedied h a r) (olift x) (\<lambda>_. remedied h a r) (\<lambda>_. True)" for r and x :: "py_exn + 'b"
    by (auto intro: hoare_lift)
  show ?thesis
    unfolding remediate_def
    by (rule hoare_bind[OF remediation_yields], rule hoare_bind[OF looked], rule hoare_bind[OF looked], rule decided)
qed

interpretation remedied_inv: stage_invariant h 4 "\<lambda>_. remedied h' a r" for h h' a r
  by unfold_locales (auto simp: remedied_def seen_def)

interpretation verified_inv: stage_invariant h 4 "\<lambda>n s. 3 \<le> n \<and> verified h' a oc s" for h h' a oc
  by unfold_locales (auto simp: verified_def remedied_def seen_def fresh_def plain_not_remediation other_roles)

text \<open>A verdict and its text come from a verification that was recorded.\<close>

definition witnessed :: "verdict \<times> pydict \<Rightarrow> incident \<Rightarrow> bool" where
  "witnessed x s \<longleftrightarrow> fresh ((=) (Verified (fst x))) s \<and> (\<exists>stamp. snd x = verdict_dict stamp (fst x))"

interpretation witnessed_inv: stage_invariant h 4 "\<lambda>n s. 3 \<le> n \<and> remedied h' a r s \<and> witnessed x s" for h h' a r x
  by unfold_locales (auto simp: remedied_def witnessed_def seen_def fresh_def plain_not_remediation other_roles)

lemma verify_yields: "hoare (\<lambda>_. True) (verify_incident h claimed ctx) witnessed (\<lambda>_. True)"
proof -
  have "hoare P (obind (omap (iemit (Verified v))) (\<lambda>_. oret (v, verdict_dict stamp v))) witnessed (\<lambda>_. True)" for P v stamp
    by (auto simp: hoare_def obind_def omap_def oret_def fresh_def witnessed_def plain_not_remediation)
  then show ?thesis
    unfolding verify_incident_def
    by (intro skip, case_tac aa) (simp_all add: hoare_raise skip)
qed

lemma remedy_yields: "hoare (remedied h a r) (verify_remedy h a r environment) (verified h a) (\<lambda>_. True)"
proof -
  have settling: "hoare (remedied h a r) (if c then oret skipped_settling else settle_incident h claimed ctx)
      (\<lambda>_. remedied h a r) (\<lambda>_. True)" for c claimed ctx
    using weaken[OF remedied_inv.steps_settle[of 3]] by (simp add: hoare_ret)
  have setting: "hoare (remedied h a r) (omap f) (\<lambda>_. remedied h a r) (\<lambda>_. True)" if "\<And>s. ic_trace (f s) = ic_trace s" for f
    using that by (simp add: hoare_map remedied_def seen_def)
  have noted: "hoare (remedied h a r) (inote h phase event patch) (\<lambda>_. remedied h a r) (\<lambda>_. True)" for phase event patch
    by (rule weaken, rule remedied_inv.steps_note[of 3]) simp
  have checked: "hoare (remedied h a r) (verify_incident h claimed ctx) (\<lambda>x s. remedied h a r s \<and> witnessed x s) (\<lambda>_. True)"
    for claimed ctx
    by (rule hoare_both, rule weaken, rule remedied_inv.steps_verify[of 3], simp, rule hoare_conseq[OF verify_yields]) simp_all
  have kept: "hoare (\<lambda>s. remedied h a r s \<and> witnessed x s) (omap (set_local k w)) (\<lambda>_ s. remedied h a r s \<and> witnessed x s) (\<lambda>_. True)"
    "hoare (\<lambda>s. remedied h a r s \<and> witnessed x s) (inote h phase event patch) (\<lambda>_ s. remedied h a r s \<and> witnessed x s) (\<lambda>_. True)"
    for x k w phase event patch
    using weaken[OF witnessed_inv.steps_var[of 3]] weaken[OF witnessed_inv.steps_note[of 3]] by simp_all
  show ?thesis
    unfolding verify_remedy_def Let_def
    by (rule hoare_bind[OF setting], simp, rule hoare_bind[OF noted], rule hoare_bind[OF settling], rule hoare_bind[OF setting], simp,
        rule hoare_bind[OF checked], simp only: split_paired_all prod.case,
        rule hoare_bind[OF kept(1)], rule hoare_bind[OF kept(1)], rule hoare_bind[OF kept(2)])
      (auto simp: hoare_ret verified_def witnessed_def)
qed

lemma verification_yields: "hoare (assessed h a) (verification_stage h a) (verified h a) (\<lambda>_. True)"
  unfolding verification_stage_def
  by (rule hoare_bind[OF remediate_yields]) (simp add: remedy_yields split: prod.split)

text \<open>The result of the chain rests on an assessment and an outcome of its own.\<close>

definition concluded :: "handling \<Rightarrow> bool \<Rightarrow> string \<Rightarrow> incident \<Rightarrow> bool" where
  "concluded h resolved reason s \<longleftrightarrow>
     (\<exists>a oc. verified h a oc s \<and> resolved = operational_resolved h oc \<and> reason = finish_reason h oc)"

lemma chain_yields:
  "hoare (\<lambda>_. True) (incident_chain h) (\<lambda>(stored, resolved, reason). concluded h resolved reason) (\<lambda>_. True)"
proof -
  have kept: "hoare (verified h a oc) (comms_stage h a' oc') (\<lambda>_. verified h a oc) (\<lambda>_. True)"
    "hoare (verified h a oc) (persist_incident_record h d) (\<lambda>_. verified h a oc) (\<lambda>_. True)"
    "hoare (verified h a oc) (journal_phase h phase state event patch) (\<lambda>_. verified h a oc) (\<lambda>_. True)"
    "hoare (verified h a oc) (ilog h role ''incident_end'' summary policy) (\<lambda>_. verified h a oc) (\<lambda>_. True)"
    for a oc a' oc' d phase state event patch role summary policy
    using weaken[OF verified_inv.steps_comms] weaken[OF verified_inv.steps_persist[of 4]]
      weaken[OF verified_inv.steps_journal[of 4]] weaken[OF verified_inv.steps_log[of 4 "''incident_end''"]] by simp_all
  show ?thesis
    unfolding incident_chain_def Let_def
    by (rule skip, rule hoare_bind[OF assess_yields], rule hoare_bind[OF verification_yields], rule hoare_bind[OF kept(1)],
        rule hoare_bind[OF kept(2)], rule hoare_bind[OF kept(3)], rule hoare_bind[OF kept(4)])
      (auto simp: hoare_ret concluded_def)
qed

lemma concluded_resolved:
  assumes "concluded h True reason s"
  shows "fresh (good_verdict h) s \<and> (seen (policy_entry ''manual'') s \<or> seen ran_remediation s)"
proof -
  from assms obtain a oc where ver: "verified h a oc s" and res: "operational_resolved h oc" by (auto simp: concluded_def)
  from ver obtain stamp where rem: "remedied h a (oc_remedy oc) s"
    and v: "Verified (oc_verdict oc) \<in> set (since_remediation (ic_trace s))"
    and d: "oc_verification oc = verdict_dict stamp (oc_verdict oc)"
    by (auto simp: verified_def fresh_def list_ex_iff)
  from res d have "good_verdict h (Verified (oc_verdict oc))"
    by (auto simp: good_verdict_def operational_resolved_def passed_verdict_def verdict_dict_def)
  with v have "fresh (good_verdict h) s" by (auto simp: fresh_def list_ex_iff)
  moreover from rem res have "seen (policy_entry ''manual'') s \<or> seen ran_remediation s"
    by (auto simp: remedied_def operational_resolved_def stopped_def split: if_splits)
  ultimately show ?thesis by simp
qed

lemma concluded_designed:
  assumes "concluded h resolved reason s" and "\<not> seen ran_remediation s"
  shows "reason \<in> DESIGNED_OUTCOMES"
proof -
  from assms obtain a oc where rem: "remedied h a (oc_remedy oc) s" and reason: "reason = finish_reason h oc"
    by (auto simp: concluded_def verified_def)
  with assms(2) have "final_of (rm_result (oc_remedy oc)) = final_of (target_mismatch_remediation_record (hd_incident h) (as_consistency a)) \<or>
      final_of (rm_result (oc_remedy oc)) =
        final_of (manual_remediation_record (hd_fmt h) (hd_incident h) (effective_triage a) (final_of (as_diagnosis a)))"
    by (auto simp: remedied_def split: if_splits)
  then show ?thesis
    by (auto simp: reason finish_reason_def final_of_def target_mismatch_remediation_record_def
        manual_remediation_record_def DESIGNED_OUTCOMES_def dget_or_def)
qed

lemma guarded_result:
  assumes "slot_taken s"
  shows "case guarded_chain h s of
    (Inr _, s') \<Rightarrow> \<exists>s1 resolved reason. slot_taken s1 \<and> concluded h resolved reason s1 \<and> s' = release h resolved reason s1
  | (Inl _, s') \<Rightarrow> \<exists>s1 reason. slot_taken s1 \<and> s' = release h False reason s1"
proof -
  obtain r s1 where chain: "incident_chain h s = (r, s1)" by force
  have "hoare slot_taken (incident_chain h) (\<lambda>_. slot_taken) slot_taken" by (rule slot.steps_chain) simp
  from hoareD[OF this assms] chain have "slot_taken s1" by (cases r) auto
  have recovered: "slot_taken (snd (recover h e s1))" for e
  proof -
    have "hoare slot_taken (recover h e) (\<lambda>_. slot_taken) slot_taken" by (rule slot.steps_recover)
    from hoareD[OF this \<open>slot_taken s1\<close>] show ?thesis by (auto split: prod.splits sum.splits)
  qed
  show ?thesis
  proof (cases r)
    case (Inl e)
    obtain r' s2 where rec: "recover h e s1 = (r', s2)" by force
    with recovered[of e] have "slot_taken s2" by simp
    with chain Inl rec show ?thesis by (cases r') (auto simp: guarded_chain_def)
  next
    case (Inr p)
    obtain stored resolved reason where p: "p = (stored, resolved, reason)" by (cases p)
    with hoareD[OF chain_yields[of h], of s] chain Inr have "concluded h resolved reason s1" by simp
    with \<open>slot_taken s1\<close> chain Inr p show ?thesis by (auto simp: guarded_chain_def)
  qed
qed

lemma slot_unreleased: "slot_taken s \<Longrightarrow> Released resolved reason \<notin> set (ic_trace s)"
  by (auto simp: slot_taken_def releases_def filter_empty_conv)

definition resolution_backed :: "handling \<Rightarrow> incident_effect list \<Rightarrow> bool" where
  "resolution_backed h t =
     list_all (\<lambda>e. case e of
         Released resolved _ \<Rightarrow>
           (if resolved
            then list_ex (good_verdict h) (since_remediation t) \<and>
                 (list_ex (policy_entry ''manual'') t \<or> list_ex ran_remediation t)
            else True)
       | _ \<Rightarrow> True) t"

definition designed_releases :: "incident_effect list \<Rightarrow> bool" where
  "designed_releases t =
     (if list_ex ran_remediation t then True
      else list_all (\<lambda>e. case e of Released _ reason \<Rightarrow> reason \<in> DESIGNED_OUTCOMES | _ \<Rightarrow> True) t)"

lemma plain_not_released: "list_all plain_effect t \<Longrightarrow> Released resolved reason \<notin> set t"
  by (auto simp: list_all_iff)

text \<open>
  C12. An incident counts as resolved only if the verifier, which reads the cluster and not the agents'
  words, found the environment recovered, in operational mode with every check passed, and did so after
  the remediation agent ran; unless the approval policy left the incident to people, the agent did run.
\<close>

theorem resolved_incidents_verified: "resolution_backed h (ic_trace (handled h b g files))"
proof (rule handled_ends)
  show "resolution_backed h (ic_trace s1)" if "quietly (start_handling b g files) s1" for s1
    using quietly_start[OF that] by (auto simp: resolution_backed_def list_all_iff dest: plain_not_released split: incident_effect.split)
  show "resolution_backed h (ic_trace (snd (guarded_chain (settled h) (iemit Opened (s1\<lparr>ic_breaker := b'\<rparr>)))))"
    if "quietly (start_handling b g files) s1" for s1 b'
  proof -
    let ?s = "iemit Opened (s1\<lparr>ic_breaker := b'\<rparr>)"
    have "slot_taken ?s" using quietly_start[OF that] by (simp add: slot_taken_def)
    note ended = guarded_result[OF this, of "settled h"]
    obtain r s' where g: "guarded_chain (settled h) ?s = (r, s')" by force
    with ended have "\<exists>s2 resolved reason. slot_taken s2 \<and> s' = release (settled h) resolved reason s2 \<and>
        (concluded (settled h) resolved reason s2 \<or> \<not> resolved)" by (cases r) (simp_all, blast+)
    then obtain s2 resolved reason where s2: "slot_taken s2" "s' = release (settled h) resolved reason s2"
      and sound: "concluded (settled h) resolved reason s2 \<or> \<not> resolved" by blast
    have "list_ex (good_verdict h) (since_remediation (ic_trace s2)) \<and>
        (list_ex (policy_entry ''manual'') (ic_trace s2) \<or> list_ex ran_remediation (ic_trace s2))" if resolved
      using concluded_resolved[of "settled h" reason s2] sound that
      by (simp add: seen_def fresh_def good_verdict_def[abs_def])
    with slot_unreleased[OF s2(1)] show ?thesis
      by (auto simp: g s2(2) resolution_backed_def list_all_iff split: incident_effect.split)
  qed
qed

text \<open>
  When the handling of an incident returns without having run the remediation agent, which is what a
  target mismatch and manual handling lead to, it is reported to the circuit breaker with a designed
  outcome, which never counts towards tripping it.
\<close>

theorem unapplied_incidents_are_designed:
  "case handle_incident h (start_handling b g files) of (Inr _, s) \<Rightarrow> designed_releases (ic_trace s) | (Inl _, _) \<Rightarrow> True"
proof (rule handle_ends)
  show "case (Inl e, s1) of (Inr _, s) \<Rightarrow> designed_releases (ic_trace s) | (Inl _, _) \<Rightarrow> True" for e s1
    by simp
  show "case guarded_chain (settled h) (iemit Opened (s1\<lparr>ic_breaker := b'\<rparr>)) of
      (Inr _, s) \<Rightarrow> designed_releases (ic_trace s) | (Inl _, _) \<Rightarrow> True"
    if "quietly (start_handling b g files) s1" for s1 b'
  proof -
    have "slot_taken (iemit Opened (s1\<lparr>ic_breaker := b'\<rparr>))" using quietly_start[OF that] by (simp add: slot_taken_def)
    from guarded_result[OF this, of "settled h"] show ?thesis
      using concluded_designed slot_unreleased
      by (fastforce simp: designed_releases_def list_all_iff seen_def ran_remediation_def split: prod.splits sum.splits incident_effect.splits)
  qed
qed

section \<open>Policy before remediation\<close>

definition unremedied :: "incident \<Rightarrow> bool" where
  "unremedied s \<longleftrightarrow> \<not> seen ran_remediation s"

text \<open>The answers of the approval policy in the log.\<close>

definition policies :: "incident_effect list \<Rightarrow> string list" where
  "policies t = concat (map (\<lambda>e. case e of
     Logged a \<Rightarrow> if aa_action_type a = ''approval_policy'' then [aa_policy_check a] else [] | _ \<Rightarrow> []) t)"

lemma policies_snoc [simp]:
  "policies (t @ [e]) = policies t @ (case e of
     Logged a \<Rightarrow> if aa_action_type a = ''approval_policy'' then [aa_policy_check a] else [] | _ \<Rightarrow> [])"
  "policies [] = []"
  by (simp_all add: policies_def)

lemma plain_policies: "plain_effect e \<Longrightarrow> policies (t @ [e]) = policies t"
  by (cases e) (simp_all add: logs_policy_def)

text \<open>Before the policy is asked; and once it has answered, once and for all.\<close>

definition unasked :: "incident \<Rightarrow> bool" where
  "unasked s \<longleftrightarrow> unremedied s \<and> policies (ic_trace s) = []"

definition asked :: "string \<Rightarrow> incident \<Rightarrow> bool" where
  "asked m s \<longleftrightarrow> policies (ic_trace s) = [m] \<and>
     (\<forall>i < length (ic_trace s). ran_remediation (ic_trace s ! i) \<longrightarrow> policies (take i (ic_trace s)) = [m])"

lemma asked_snoc:
  assumes "asked m s" and "ic_trace s' = ic_trace s @ [e]" and "policies (ic_trace s') = policies (ic_trace s)"
  shows "asked m s'"
  using assms by (auto simp: asked_def nth_append less_Suc_eq)

lemma asked_same: "ic_trace s' = ic_trace s \<Longrightarrow> asked m s' = asked m s"
  by (simp add: asked_def)

interpretation asked: stage_invariant h 4 "\<lambda>_. asked m" for h m
  by unfold_locales
    (auto intro: asked_snoc asked_same [THEN iffD2] simp: plain_policies [simplified])

text \<open>Before the remediation stage, and after a stage that skipped it.\<close>

interpretation before: stage_invariant h 2 "\<lambda>n s. n \<le> 2 \<longrightarrow> unasked s" for h
  by unfold_locales
    (auto simp: unasked_def unremedied_def seen_def plain_not_remediation other_roles plain_policies [simplified])

interpretation answered: stage_invariant h 2 "\<lambda>n s. n \<le> 2 \<longrightarrow> unremedied s \<and> asked m s" for h m
  by unfold_locales
    (auto simp: unremedied_def seen_def plain_not_remediation other_roles plain_policies [simplified]
      intro: asked_snoc asked_same [THEN iffD2])

interpretation skipped: stage_invariant h 4 "\<lambda>n s. 3 \<le> n \<and> unremedied s" for h
  by unfold_locales (auto simp: unremedied_def seen_def plain_not_remediation other_roles)

definition permitted :: "handling \<Rightarrow> incident \<Rightarrow> bool" where
  "permitted h s \<longleftrightarrow> unremedied s \<or> asked ''approve'' s \<or> (\<not> hd_operational h \<and> asked ''auto'' s)"

interpretation permitted: stage_invariant h 4 "\<lambda>n s. 3 \<le> n \<and> permitted h' s" for h h'
  by unfold_locales
    (auto simp: permitted_def unremedied_def seen_def plain_not_remediation other_roles plain_policies [simplified]
      intro: asked_snoc asked_same [THEN iffD2])

lemma policy_allows: "approval_policy h severity = m \<Longrightarrow> m = ''manual'' \<or> m = ''approve'' \<or> m = ''auto'' \<and> \<not> hd_operational h"
  using auto_or_asked[of severity] by (auto simp: approval_policy_def Let_def split: if_splits)

lemma assessed_permits:
  assumes "assessed h a s" and "asked (as_mode a) s'" and "as_mode a \<noteq> ''manual''"
  shows "permitted h s'"
proof -
  have "approval_policy h (as_severity a) = as_mode a" using assms(1) unfolding assessed_def by blast
  from policy_allows[OF this] assms(2,3) show ?thesis by (auto simp: permitted_def)
qed

lemma assess_asked:
  "hoare unasked (assess_incident h) (\<lambda>a s. unremedied s \<and> asked (as_mode a) s) unremedied"
proof -
  let ?B = "\<lambda>m. hoare unasked m (\<lambda>_. unasked) unremedied"
  let ?A = "\<lambda>mode s. unremedied s \<and> asked mode s"
  have weak: "hoare P m Q unasked \<Longrightarrow> hoare P m Q unremedied" for P :: "incident \<Rightarrow> bool" and m :: "'x iop" and Q
    by (erule hoare_conseq) (simp_all add: unasked_def)
  have triage: "?B (triage_stage h)" using weak[OF before.steps_triage[of h, simplified]] by simp
  have diagnosis: "?B (call_role_agent h ''diagnosis'' i)" for i
    using weak[OF before.role_steps(2)[of h i, simplified]] by simp
  have lifted: "?B (olift x)" for x :: "py_exn + 'b"
    by (auto intro: hoare_lift simp: unasked_def)
  have set: "?B (omap (set_local k v))" for k v
    by (simp add: hoare_map unasked_def unremedied_def seen_def)
  have log: "hoare unasked (ilog h role ''approval_policy'' summary mode) (\<lambda>_. ?A mode) unremedied" for role summary mode
    by (auto simp: ilog_def hoare_map unasked_def asked_def unremedied_def seen_def list_ex_length nth_append
        ran_remediation_def less_Suc_eq)
  have noted: "hoare (?A mode) (inote h phase event patch) (\<lambda>_. ?A mode) unremedied" for mode phase event patch
    by (rule hoare_conseq[OF answered.steps_note[where n = 0 and m = mode]]) simp_all
  show ?thesis
    unfolding assess_incident_def Let_def
    by (rule hoare_bind[OF triage], simp only: split_paired_all prod.case, rule hoare_bind[OF diagnosis],
        rule hoare_bind[OF lifted], rule hoare_bind[OF lifted], rule hoare_bind[OF lifted], rule hoare_bind[OF lifted],
        rule hoare_bind[OF set], rule hoare_bind[OF log], rule hoare_bind[OF noted]) (simp add: hoare_ret)
qed

lemma assess_permitted:
  "hoare unasked (assess_incident h) (\<lambda>a s. unremedied s \<and> asked (as_mode a) s \<and> assessed h a s) (permitted h)"
proof (rule hoareI)
  fix s assume "unasked s"
  from hoareD[OF assess_asked[of h] this] hoareD[OF assess_yields[of h], of s]
  show "case assess_incident h s of (Inr a, s') \<Rightarrow> unremedied s' \<and> asked (as_mode a) s' \<and> assessed h a s'
    | (Inl _, s') \<Rightarrow> permitted h s'"
    by (auto simp: permitted_def split: prod.splits sum.splits)
qed

lemma manual_unremedied:
  assumes manual: "as_mode a = ''manual''"
  shows "hoare unremedied (verification_stage h a) (\<lambda>_. unremedied) unremedied"
proof -
  have unapplied: "hoare unremedied (run_remediation h a) (\<lambda>_. unremedied) unremedied"
    using manual by (simp add: hoare_def run_remediation_def Let_def obind_def omap_def oret_def unremedied_def seen_def)
  have looked: "hoare unremedied (olift x) (\<lambda>_. unremedied) unremedied" for x :: "py_exn + 'b"
    by simp
  have stored: "hoare unremedied (omap (set_local k v)) (\<lambda>_. unremedied) unremedied" for k v
    by (simp add: hoare_map unremedied_def seen_def)
  have returned: "hoare unremedied (oret x) (\<lambda>_. unremedied) unremedied" for x :: 'b
    by simp
  have remedied: "hoare unremedied (remediate h a) (\<lambda>_. unremedied) unremedied"
    unfolding remediate_def
    by (rule keeps_bind[OF unapplied], rule keeps_bind[OF looked], rule keeps_bind[OF looked], rule keeps_bind[OF looked],
        rule keeps_bind[OF stored], rule returned)
  have "hoare unremedied (verify_remedy h a r environment) (\<lambda>_. unremedied) unremedied" for r environment
    using skipped.steps_remedy[of h a r environment] by simp
  then show ?thesis
    unfolding verification_stage_def by (intro keeps_bind[OF remedied]) (simp split: prod.split)
qed

lemma stage_permitted:
  "hoare (\<lambda>s. unremedied s \<and> asked (as_mode a) s \<and> assessed h a s) (verification_stage h a) (\<lambda>_. permitted h) (permitted h)"
proof (rule hoareI)
  fix s assume s: "unremedied s \<and> asked (as_mode a) s \<and> assessed h a s"
  show "case verification_stage h a s of (Inr _, s') \<Rightarrow> permitted h s' | (Inl _, s') \<Rightarrow> permitted h s'"
  proof (cases "as_mode a = ''manual''")
    case True
    from hoareD[OF manual_unremedied[OF True], of s h] s show ?thesis
      by (auto simp: permitted_def split: prod.splits sum.splits)
  next
    case False
    let ?Q = "asked (as_mode a)"
    have "hoare ?Q (verification_stage h a) (\<lambda>_. ?Q) ?Q" using asked.steps_verification by simp
    from hoareD[OF this, of s] s
    have "case verification_stage h a s of (Inr _, s') \<Rightarrow> ?Q s' | (Inl _, s') \<Rightarrow> ?Q s'" by simp
    with s False show ?thesis by (auto intro: assessed_permits split: prod.splits sum.splits)
  qed
qed

lemma chain_permitted: "hoare unasked (incident_chain h) (\<lambda>_. permitted h) (permitted h)"
proof -
  have tracing: "hoare unasked (case hd_tracing h of None \<Rightarrow> oret ()
      | Some tracing \<Rightarrow> inote h ''queued'' ''trace_bound'' [(''tracing'', tracing)]) (\<lambda>_. unasked) (permitted h)"
  proof -
    have "hoare unasked (inote h phase event patch) (\<lambda>_. unasked) (permitted h)" for phase event patch
      by (rule hoare_conseq[OF before.steps_note[of 0 h phase event patch]]) (simp_all add: permitted_def unasked_def)
    then show ?thesis by (simp add: hoare_ret split: option.split)
  qed
  have later: "hoare (permitted h) (comms_stage h a oc) (\<lambda>_. permitted h) (permitted h)"
    "hoare (permitted h) (persist_incident_record h d) (\<lambda>_. permitted h) (permitted h)"
    "hoare (permitted h) (journal_phase h phase state event patch) (\<lambda>_. permitted h) (permitted h)"
    "hoare (permitted h) (ilog h role ''incident_end'' summary policy) (\<lambda>_. permitted h) (permitted h)"
    for a oc d phase state event patch role summary policy
    using permitted.steps_comms[of h h a oc] permitted.steps_persist[of 4 h h d]
      permitted.steps_journal[of 4 h h phase state event patch]
      permitted.steps_log[of 4 "''incident_end''" h h role summary policy] by simp_all
  show ?thesis
    unfolding incident_chain_def Let_def
    by (rule hoare_bind[OF tracing], rule hoare_bind[OF assess_permitted], rule hoare_bind[OF stage_permitted],
        rule hoare_bind[OF later(1)], rule hoare_bind[OF later(2)], rule hoare_bind[OF later(3)], rule hoare_bind[OF later(4)])
      (simp add: hoare_ret)
qed

text \<open>
  The policy was asked once, before every run of the remediation agent, and its answer allows one.
\<close>

definition policy_first :: "handling \<Rightarrow> incident_effect list \<Rightarrow> bool" where
  "policy_first h t =
     list_all (\<lambda>i.
       if ran_remediation (t ! i)
       then policies (take i t) = policies t \<and>
            (policies t = [''approve''] \<or> (policies t = [''auto''] \<and> \<not> hd_operational h))
       else True) [0..<length t]"

lemma permitted_first: "permitted h s \<Longrightarrow> policy_first h (ic_trace s)"
  by (auto simp: permitted_def unremedied_def seen_def policy_first_def list_all_iff list_ex_iff asked_def)

lemma guarded_permitted:
  assumes "unasked s"
  shows "permitted h (snd (guarded_chain h s))"
proof -
  obtain r s1 where chain: "incident_chain h s = (r, s1)" by force
  from hoareD[OF chain_permitted assms, of h] chain have s1: "permitted h s1" by (cases r) auto
  have "hoare (permitted h) (recover h e) (\<lambda>_. permitted h) (permitted h)" for e
    using permitted.steps_recover[of h h e] by simp
  from hoareD[OF this s1] have rec: "permitted h (snd (recover h e s1))" for e
    by (simp add: case_prod_beta split: sum.splits)
  have released: "permitted h s \<Longrightarrow> permitted h (release h resolved reason s)" for resolved reason s
    by (auto simp: permitted_def unremedied_def seen_def intro: asked_snoc)
  show ?thesis
    using chain s1 rec by (auto simp: guarded_chain_def split: sum.splits prod.splits intro!: released) (metis snd_conv)+
qed

text \<open>
  C32. The remediation agent runs only after the approval policy has been asked and has answered, once and
  for all, that an operator must approve or, outside operational mode only, that it may act alone; so it
  never runs when the policy leaves the incident to people.
\<close>

theorem policy_precedes_remediation: "policy_first h (ic_trace (handled h b g files))"
proof (rule handled_ends)
  show "policy_first h (ic_trace s1)" if "quietly (start_handling b g files) s1" for s1
    using quietly_start[OF that] plain_not_remediation
    by (auto simp: policy_first_def list_all_iff)
  show "policy_first h (ic_trace (snd (guarded_chain (settled h) (iemit Opened (s1\<lparr>ic_breaker := b'\<rparr>)))))"
    if "quietly (start_handling b g files) s1" for s1 b'
  proof -
    have "policies t = []" if "list_all plain_effect t" for t
      using that by (induction t rule: rev_induct) (simp_all add: plain_policies [simplified])
    then have "unasked (iemit Opened (s1\<lparr>ic_breaker := b'\<rparr>))"
      using quietly_start[OF that] plain_not_remediation
      by (auto simp: unasked_def unremedied_def seen_def list_all_iff list_ex_iff)
    from permitted_first[OF guarded_permitted[OF this, of "settled h"]] show ?thesis
      by (simp add: policy_first_def cong: if_cong)
  qed
qed

end
