(* ===== verification/PolicyEnvironment.thy ===== *)
theory PolicyEnvironment
  imports AgentGuarantees
begin

text \<open>
  \<open>training/grpo_environment.py\<close>, \<open>DirectPolicyEnvironment\<close>: one completion of a trained policy is one
  action, which is validated, approved, executed in a named Kubernetes context, and judged by the
  verifier once the environment has settled.

  The state is the trace of what was done and the shared approval gate.  A record \<open>policy_world\<close> holds the
  settings and the answers of everything outside: an answer may depend on the whole trace so far, and
  \<open>pw_events\<close> are the calls that other tasks, the approval provider among them, make on the gate
  meanwhile.  The environment reads \<open>stage_a.current_run()\<close>, whose checks of an action are answers too.
\<close>

section \<open>Results of calls\<close>

definition named_error :: "string \<Rightarrow> string \<Rightarrow> raised" where
  "named_error ty message = \<lparr>ra_type = ty, ra_text = message, ra_category = PNone\<rparr>"

text \<open>An exception as \<open>except Exception as exc\<close> sees it.\<close>

fun raised_of :: "agent_exn \<Rightarrow> raised" where
  "raised_of (PyError e) = named_error (py_exn_name e) ''''"
| "raised_of AgentCancelled = named_error ''CancelledError'' ''''"
| "raised_of (CompletionFailed c) = named_error ''CompletionRequestError'' c"
| "raised_of (Propagated x) = x"
| "raised_of (BreakerTripped _) = named_error ''CircuitBreakerTripped'' ''''"
| "raised_of MutationUncertain = named_error ''MutationOutcomeUncertain'' ''''"

definition answered :: "'a answer \<Rightarrow> ('s, 'a) st" where
  "answered a = (case a of Answer v \<Rightarrow> oret v | Failure x \<Rightarrow> oraise (Propagated x) | Cancellation \<Rightarrow> oraise AgentCancelled)"

text \<open>\<open>try ... except Exception\<close>; a cancellation is no \<open>Exception\<close>.\<close>

definition attempt :: "('s, 'a) st \<Rightarrow> ('s, raised + 'a) st" where
  "attempt m s =
     (case m s of
        (Inr a, s') \<Rightarrow> (Inr (Inr a), s')
      | (Inl e, s') \<Rightarrow> if e = AgentCancelled then (Inl e, s') else (Inr (Inl (raised_of e)), s'))"

definition oraised :: "raised + 'a \<Rightarrow> ('s, 'a) st" where
  "oraised r = (case r of Inl x \<Rightarrow> oraise (Propagated x) | Inr a \<Rightarrow> oret a)"

section \<open>Names and context of the cluster\<close>

definition UNTRUSTED_AUTHORIZATION_KEYS :: "string set" where
  "UNTRUSTED_AUTHORIZATION_KEYS = {''approval'', ''_runtime_control''}"

definition TERMINAL_BLOCK_CATEGORIES :: "string set" where
  "TERMINAL_BLOCK_CATEGORIES =
     {''already_resolved'', ''approval_required'', ''invalid_action'', ''missing_evidence'', ''policy_block'',
      ''tool_unavailable''}"

function strip_untrusted_approval_context :: "pyval \<Rightarrow> pyval" where
  "strip_untrusted_approval_context (PDict d) =
     PDict (map (\<lambda>p. (fst p, strip_untrusted_approval_context (snd p)))
       (filter (\<lambda>p. normalise_context_key (fst p) \<notin> UNTRUSTED_AUTHORIZATION_KEYS) d))"
| "strip_untrusted_approval_context (PList xs) = PList (map strip_untrusted_approval_context xs)"
| "strip_untrusted_approval_context PNone = PNone"
| "strip_untrusted_approval_context (PBool b) = PBool b"
| "strip_untrusted_approval_context (PInt i) = PInt i"
| "strip_untrusted_approval_context (PFloat x) = PFloat x"
| "strip_untrusted_approval_context (PStr s) = PStr s"
  by pat_completeness auto

termination strip_untrusted_approval_context
  by (relation "measure size") (auto simp: size_snd_pydict size_elem_pylist)

definition control_char :: "char \<Rightarrow> bool" where
  "control_char c \<longleftrightarrow> (let n = (of_char c :: nat) in n < 32 \<or> n = 127)"

definition require_live_kube_context :: "bool \<Rightarrow> pyval \<Rightarrow> string \<Rightarrow> raised + string" where
  "require_live_kube_context execute_actions selected opt_in_flag =
     (if \<not> execute_actions then
        Inl (named_error ''PermissionError''
          (''G9 live environment calls require the explicit '' @ opt_in_flag @ '' opt-in''))
      else case selected of
        PStr given \<Rightarrow>
          (let context = py_strip given in
           if context = [] then
             Inl (named_error ''ValueError'' ''G9 live environment calls require a named --kube-context'')
           else if list_ex control_char context then
             Inl (named_error ''ValueError'' ''--kube-context must not contain control characters'')
           else Inr context)
      | _ \<Rightarrow> Inl (named_error ''ValueError'' ''G9 live environment calls require a named --kube-context''))"

section \<open>State and world\<close>

text \<open>
  \<open>Stepped\<close> marks the call of \<open>step\<close>, \<open>Observed\<close> and \<open>Judged\<close> what a reading and the verifier returned;
  the others are calls that leave the process, each with the Kubernetes context it runs in.
\<close>

datatype policy_effect =
    Generated pydict
  | PermitAsked pydict
  | Stepped pydict string
  | PermitUsed "nat option" string string bool
  | ReadLive string string pydict
  | LiveObserved string pydict
  | Invoked string string pydict
  | SettleAsked
  | VerifierAsked string pydict
  | Judged time pydict
  | Slept time
  | ClockRead

record direct =
  de_trace :: "policy_effect list"
  de_gate :: gate

datatype stage_answer = StagePermits | StageRefuses string | StageFails raised
datatype provider_answer = NoPermit | IssuedPermit nat | NotAPermit

record policy_world =
  pw_fmt :: "pyval \<Rightarrow> string"
  pw_ff :: "rat \<Rightarrow> string"
  pw_sha :: "string \<Rightarrow> string"
  pw_decode :: "string \<Rightarrow> pyval option"
  pw_decode_error :: "string \<Rightarrow> string"
  pw_scenario :: string
  pw_registry :: "string \<Rightarrow> bool"
  pw_check :: "string \<Rightarrow> pydict \<Rightarrow> pydict \<Rightarrow> py_exn + string option"
  pw_live :: bool
  pw_context :: pyval
  pw_gated :: bool
  pw_builtin_settle :: bool
  pw_tool :: "policy_effect list \<Rightarrow> string \<Rightarrow> pydict \<Rightarrow> pyval answer"
  pw_settle :: "policy_effect list \<Rightarrow> pyval answer"
  pw_verifier :: "policy_effect list \<Rightarrow> pydict \<Rightarrow> pyval answer"
  pw_stage_a :: "(policy_effect list \<Rightarrow> pydict \<Rightarrow> pydict \<Rightarrow> stage_answer) option"
  pw_sleep :: "policy_effect list \<Rightarrow> time \<Rightarrow> unit answer"
  pw_clock :: "policy_effect list \<Rightarrow> time"
  pw_wall :: "policy_effect list \<Rightarrow> time"
  pw_stamp :: "policy_effect list \<Rightarrow> string"
  pw_events :: "policy_effect list \<Rightarrow> gate_event list"
  pw_generate :: "policy_effect list \<Rightarrow> pydict \<Rightarrow> int \<Rightarrow> pyval \<Rightarrow> pyval answer"
  pw_approver :: "(policy_effect list \<Rightarrow> pydict \<Rightarrow> pydict \<Rightarrow> provider_answer answer) option"

type_synonym 'a dop = "(direct, 'a) st"

definition demit :: "policy_effect \<Rightarrow> direct \<Rightarrow> direct" where
  "demit e s = s\<lparr>de_trace := de_trace s @ [e]\<rparr>"

text \<open>A call that leaves the process, and what other tasks did at the gate meanwhile.\<close>

definition dask :: "policy_world \<Rightarrow> policy_effect \<Rightarrow> (policy_effect list \<Rightarrow> 'a) \<Rightarrow> 'a dop" where
  "dask w e f =
     obind (omap (demit e)) (\<lambda>_ s.
       (Inr (f (de_trace s)),
        s\<lparr>de_gate := run (gate_step (pw_ff w) (pw_sha w)) (de_gate s) (pw_events w (de_trace s))\<rparr>))"

definition read_clock :: "(policy_effect list \<Rightarrow> time) \<Rightarrow> time dop" where
  "read_clock clock = obind (omap (demit ClockRead)) (\<lambda>_. oget (\<lambda>s. clock (de_trace s)))"

definition LIVE_FLAG :: string where "LIVE_FLAG = ''--execute-live-chaos''"

definition live_context :: "policy_world \<Rightarrow> raised + string" where
  "live_context w = require_live_kube_context (pw_live w) (pw_context w) LIVE_FLAG"

text \<open>The constructor refuses a world that is neither inert nor live.\<close>

definition open_environment :: "policy_world \<Rightarrow> raised + unit" where
  "open_environment w =
     (if pw_live w \<or> pw_context w \<noteq> PNone then rbind (live_context w) (\<lambda>_. Inr ()) else Inr ())"

text \<open>\<open>invoke_tool\<close>: a synchronous call in the named context.\<close>

definition invoke_tool :: "policy_world \<Rightarrow> (string \<Rightarrow> policy_effect) \<Rightarrow> (policy_effect list \<Rightarrow> pyval answer) \<Rightarrow> pyval dop" where
  "invoke_tool w effect_in f =
     obind (oraised (live_context w)) (\<lambda>context.
     obind (dask w (effect_in context) f) answered)"

section \<open>Actions and their approval\<close>

definition action_dict :: "policy_action \<Rightarrow> pydict" where
  "action_dict p =
     [(''tool'', PStr (po_tool p)), (''arguments'', PDict (po_arguments p)),
      (''agent_claimed_resolved'', PBool (po_claimed p))]"

text \<open>The text of the exception of \<open>parse_policy_action\<close>; a decoder's own text is a parameter.\<close>

definition policy_action_complaint ::
  "(string \<Rightarrow> pyval option) \<Rightarrow> (string \<Rightarrow> string) \<Rightarrow> string \<Rightarrow> string" where
  "policy_action_complaint decode decode_error completion =
     (case decode completion of
        None \<Rightarrow> decode_error completion
      | Some payload \<Rightarrow>
          if \<not> unique_json_objects payload \<or> \<not> json_finite payload then decode_error completion
          else case payload of
            PDict d \<Rightarrow>
              (if dhas d ''actions'' then ''Policy completion must not contain multiple actions''
               else if \<not> is_str (dget d ''tool'') \<or> dget d ''tool'' = PStr '''' then ''Policy action requires a tool name''
               else if \<not> is_dict (dget d ''arguments'') then ''Policy action arguments must be a JSON object''
               else if \<not> dhas d ''agent_claimed_resolved'' then ''Policy action requires agent_claimed_resolved''
               else ''Policy action agent_claimed_resolved must be a JSON boolean'')
          | _ \<Rightarrow> ''Policy completion must be a JSON object'')"

definition state_approval_mode :: "(pyval \<Rightarrow> string) \<Rightarrow> pydict \<Rightarrow> py_exn + string" where
  "state_approval_mode fmt state =
     rbind (need_dict (py_or (dget state ''triage'') (PDict []))) (\<lambda>triage.
       Inr (approval_mode_for_severity (py_str fmt (dget_or triage ''severity'' (PStr '''')))))"

definition policy_action_requires_operator_approval ::
  "(pyval \<Rightarrow> string) \<Rightarrow> policy_action \<Rightarrow> pydict \<Rightarrow> py_exn + bool" where
  "policy_action_requires_operator_approval fmt p state =
     (if po_tool p \<notin> CLUSTER_MUTATING_TOOLS then Inr False
      else rbind (state_approval_mode fmt state) (\<lambda>mode. Inr (mode = ''approve'')))"

definition use_permit :: "policy_world \<Rightarrow> nat option \<Rightarrow> string \<Rightarrow> string \<Rightarrow> bool dop" where
  "use_permit w permit incident digest =
     obind (read_clock (pw_wall w)) (\<lambda>t1.
     obind (read_clock (pw_wall w)) (\<lambda>t2.
     obind (oget (\<lambda>s. fst (consume_action_permit t1 t2 permit incident digest (de_gate s)))) (\<lambda>checked.
     obind (omap (\<lambda>s. s\<lparr>de_gate := gate_step (pw_ff w) (pw_sha w) (de_gate s) (Consume t1 t2 permit incident digest)\<rparr>)) (\<lambda>_.
     obind (olift checked) (\<lambda>accepted.
     obind (omap (demit (PermitUsed permit incident digest accepted))) (\<lambda>_. oret accepted))))))"

definition approval_allows_mutation :: "policy_world \<Rightarrow> pydict \<Rightarrow> policy_action \<Rightarrow> nat option \<Rightarrow> bool dop" where
  "approval_allows_mutation w state p permit =
     obind (olift (state_approval_mode (pw_fmt w) state)) (\<lambda>mode.
       if mode = ''manual'' then oret False
       else if mode = ''auto'' then oret True
       else if \<not> pw_gated w then oret False
       else case dget state ''incident_id'' of
         PStr incident \<Rightarrow>
           (if incident = [] then oret False
            else case action_digest (pw_ff w) (pw_sha w) (action_dict p) of
              Inr digest \<Rightarrow> use_permit w permit incident digest
            | Inl e \<Rightarrow> if e = TypeError \<or> e = ValueError then oret False else oraise (PyError e))
       | _ \<Rightarrow> oret False)"

section \<open>Live evidence\<close>

definition rollback_has_evidence :: "(pyval \<Rightarrow> string) \<Rightarrow> pydict \<Rightarrow> pydict \<Rightarrow> bool" where
  "rollback_has_evidence fmt args seen \<longleftrightarrow>
     dget seen ''success'' = PBool True \<and>
     (dget seen ''observation_status'' = PNone \<or> dget seen ''observation_status'' = PStr ''observed'') \<and>
     truthy (dget args ''app'') \<and> truthy (dget args ''revision'') \<and>
     (case py_or (dget seen ''history'') (PList []) of
        PList items \<Rightarrow>
          list_ex (\<lambda>item. case item of
            PDict d \<Rightarrow>
              list_ex (\<lambda>v. v \<noteq> PNone \<and> py_str fmt v = py_str fmt (dget args ''revision'')) [dget d ''id'', dget d ''revision'']
          | _ \<Rightarrow> False) items
      | _ \<Rightarrow> False)"

definition chaos_identity :: "(pyval \<Rightarrow> string) \<Rightarrow> string \<Rightarrow> pydict \<Rightarrow> string \<times> string \<times> string" where
  "chaos_identity fmt fallback d =
     (py_lower (py_str fmt (py_or (dget d ''kind'') (PStr ''''))),
      py_str fmt (py_or (dget d ''name'') (PStr '''')),
      py_lower (py_str fmt (py_or (dget d ''namespace'') (PStr fallback))))"

definition chaos_has_evidence :: "(pyval \<Rightarrow> string) \<Rightarrow> pydict \<Rightarrow> pydict \<Rightarrow> bool" where
  "chaos_has_evidence fmt args seen \<longleftrightarrow>
     dget seen ''success'' = PBool True \<and> dget seen ''observation_status'' = PStr ''observed'' \<and>
     (case dget seen ''active_experiments'' of
        PList items \<Rightarrow>
          list_ex (\<lambda>item. case item of
            PDict d \<Rightarrow> chaos_identity fmt '''' d = chaos_identity fmt ''chaos-mesh'' args
          | _ \<Rightarrow> False) items
      | _ \<Rightarrow> False)"

definition evidence_reader :: "string \<Rightarrow> string" where
  "evidence_reader tool = (if tool = ''argocd_rollback'' then ''argocd_app_history'' else ''chaos_list_experiments'')"

definition needs_live_evidence :: "string \<Rightarrow> bool" where
  "needs_live_evidence tool \<longleftrightarrow> tool = ''argocd_rollback'' \<or> tool = ''chaos_stop_experiment''"

definition has_evidence :: "(pyval \<Rightarrow> string) \<Rightarrow> policy_action \<Rightarrow> pydict \<Rightarrow> bool" where
  "has_evidence fmt p seen =
     (if po_tool p = ''argocd_rollback'' then rollback_has_evidence fmt (po_arguments p) seen
      else chaos_has_evidence fmt (po_arguments p) seen)"

definition pre_action_observation :: "string \<Rightarrow> pydict \<Rightarrow> pydict" where
  "pre_action_observation tool seen =
     [(''tool'', PStr (evidence_reader tool)), (''success'', PBool (dget seen ''success'' = PBool True)),
      (''observation_status'', dget seen ''observation_status''),
      (''history'', if tool = ''argocd_rollback'' then dget seen ''history'' else PNone),
      (''active_experiments'', if tool = ''chaos_stop_experiment'' then dget seen ''active_experiments'' else PNone)]"

text \<open>What was observed, or the reason for blocking with what was observed.\<close>

definition weigh_evidence ::
  "policy_world \<Rightarrow> policy_action \<Rightarrow> raised + pyval \<Rightarrow> ((string \<times> pydict option) + pydict option) dop" where
  "weigh_evidence w p answer =
     (let tool = po_tool p; reader = evidence_reader tool in
      case answer of
        Inl x \<Rightarrow> oret (Inl (reader @ '' observation failed: '' @ ra_type x, None))
      | Inr (PDict seen) \<Rightarrow>
          obind (omap (demit (LiveObserved reader seen))) (\<lambda>_.
            oret (if has_evidence (pw_fmt w) p seen then Inr (Some (pre_action_observation tool seen))
                  else Inl (tool @ '' target was not confirmed by the live observation'',
                            Some (pre_action_observation tool seen))))
      | Inr _ \<Rightarrow> oret (Inl (reader @ '' observation was not an object'', None)))"

definition live_evidence ::
  "policy_world \<Rightarrow> policy_action \<Rightarrow> ((string \<times> pydict option) + pydict option) dop" where
  "live_evidence w p =
     (let tool = po_tool p; reader = evidence_reader tool;
          args = (if tool = ''argocd_rollback'' then [(''app'', dget (po_arguments p) ''app'')] else [])
      in if \<not> needs_live_evidence tool then oret (Inr None)
         else if \<not> pw_registry w reader then
           oret (Inl (tool @ '' requires a live '' @ reader @ '' observation'', None))
         else
           obind (attempt (invoke_tool w (\<lambda>context. ReadLive context reader args) (\<lambda>t. pw_tool w t reader args)))
             (weigh_evidence w p))"

section \<open>Settling after an action\<close>

definition POST_ACTION_SETTLE_TIMEOUT_SECONDS :: time where "POST_ACTION_SETTLE_TIMEOUT_SECONDS = 30"
definition POST_ACTION_SETTLE_POLL_INTERVAL_SECONDS :: time where "POST_ACTION_SETTLE_POLL_INTERVAL_SECONDS = 1"
definition POST_ACTION_SETTLE_STABLE_OBSERVATIONS :: nat where "POST_ACTION_SETTLE_STABLE_OBSERVATIONS = 2"

definition max_observations :: nat where
  "max_observations =
     nat (ceiling (POST_ACTION_SETTLE_TIMEOUT_SECONDS / POST_ACTION_SETTLE_POLL_INTERVAL_SECONDS) + 1)"

text \<open>\<open>_verification_record\<close>: a result object is the dictionary its \<open>to_dict\<close> gives.\<close>

definition verification_record :: "pyval \<Rightarrow> py_exn + pydict" where
  "verification_record v = (case v of PDict d \<Rightarrow> Inr d | _ \<Rightarrow> Inl TypeError)"

definition well_formed_check :: "pyval \<Rightarrow> bool" where
  "well_formed_check c \<longleftrightarrow>
     (case c of
        PDict d \<Rightarrow> is_bool (dget d ''passed'') \<and> is_bool (dget_or d ''required'' (PBool True))
      | _ \<Rightarrow> False)"

definition check_required :: "pydict \<Rightarrow> bool" where
  "check_required d \<longleftrightarrow> dget_or d ''required'' (PBool True) = PBool True"

definition failed_required :: "pyval list \<Rightarrow> bool" where
  "failed_required checks \<longleftrightarrow>
     list_ex (\<lambda>c. check_required (as_dict c) \<and> dget (as_dict c) ''passed'' = PBool False) checks"

definition signature_check :: "pyval \<Rightarrow> pydict" where
  "signature_check c =
     (let d = as_dict c in
      [(''name'', dget d ''name''), (''target'', dget d ''target''), (''required'', PBool (check_required d)),
       (''passed'', dget d ''passed'')])"

definition objective_check :: "pyval \<Rightarrow> pydict" where
  "objective_check c = signature_check c @ [(''observed'', dget (as_dict c) ''observed'')]"

definition settle_snapshot :: "pydict \<Rightarrow> pydict" where
  "settle_snapshot v =
     [(''verification_status'', dget v ''verification_status''), (''env_resolved'', dget v ''env_resolved''),
      (''failed_checks'', dget_or v ''failed_checks'' (PList [])),
      (''checks'', PList (map (PDict \<circ> signature_check) (as_list (dget v ''checks''))))]"

definition conclusive :: "pydict \<Rightarrow> bool" where
  "conclusive v \<longleftrightarrow>
     (dget v ''verification_status'' = PStr ''passed'' \<and> dget v ''env_resolved'' = PBool True \<or>
      dget v ''verification_status'' = PStr ''failed'' \<and> dget v ''env_resolved'' = PBool False) \<and>
     (case dget v ''checks'' of
        PList checks \<Rightarrow> checks \<noteq> [] \<and> list_all well_formed_check checks \<and>
          (failed_required checks \<longleftrightarrow> dget v ''verification_status'' = PStr ''failed'')
      | _ \<Rightarrow> False)"

text \<open>The signature by which observations are compared, and the observation that is kept.\<close>

definition settle_observation_of :: "(rat \<Rightarrow> string) \<Rightarrow> pydict \<Rightarrow> py_exn + string \<times> pydict" where
  "settle_observation_of ff v =
     (if \<not> hashable (dget v ''verification_status'') then Inl TypeError
      else if \<not> conclusive v then Inl ValueError
      else if \<not> is_dict (dget_or v ''observed_metrics'' (PDict [])) then Inl ValueError
      else rbind (json_dumps ff (PDict (settle_snapshot v))) (\<lambda>signature.
        Inr (signature,
             AList.update ''checks'' (PList (map (PDict \<circ> objective_check) (as_list (dget v ''checks'')))) (settle_snapshot v) @
             [(''observed_metrics'', dget_or v ''observed_metrics'' (PDict []))])))"

record settling =
  se_observations :: "pydict list"
  se_signature :: "string option"
  se_stable :: nat
  se_last :: "pydict option"
  se_status :: "string option"

definition start_settling :: settling where
  "start_settling =
     \<lparr>se_observations = [], se_signature = None, se_stable = 0, se_last = None, se_status = None\<rparr>"

definition add_reading :: "pydict \<Rightarrow> settling \<Rightarrow> settling" where
  "add_reading d se = se\<lparr>se_observations := se_observations se @ [d]\<rparr>"

definition seconds_since :: "time \<Rightarrow> time \<Rightarrow> pyval" where
  "seconds_since started t = PFloat (FFin (round6 (t - started)))"

datatype round_end = Stops string string settling | Stable settling | Continues settling

text \<open>What one reading of the verifier leads to.\<close>

definition settle_round ::
  "(rat \<Rightarrow> string) \<Rightarrow> time \<Rightarrow> time \<Rightarrow> time \<Rightarrow> pydict \<Rightarrow> settling \<Rightarrow> py_exn + round_end" where
  "settle_round ff started now finished v se =
     (let status = dget v ''verification_status'';
          se1 = se\<lparr>se_last := Some v, se_status := (case status of PStr t \<Rightarrow> Some t | _ \<Rightarrow> None)\<rparr>;
          shown = (case status of PStr t \<Rightarrow> PStr t | _ \<Rightarrow> PNone)
      in if finished \<ge> started + POST_ACTION_SETTLE_TIMEOUT_SECONDS then
           Inr (Stops ''timeout'' ''post_action_settle_timeout''
             (add_reading [(''elapsed_s'', seconds_since started finished), (''verification_status'', shown),
                           (''timed_out'', PBool True)] se1))
         else if status = PStr ''error'' then
           Inr (Stops ''error'' ''post_action_verifier_error''
             (add_reading [(''elapsed_s'', seconds_since started now), (''verification_status'', PStr ''error''),
                           (''env_resolved'', dget v ''env_resolved''), (''error'', dget v ''error'')] se1))
         else if \<not> hashable status then Inl TypeError
         else if status = PStr ''inconclusive'' then
           Inr (Continues (add_reading
             [(''elapsed_s'', seconds_since started now), (''verification_status'', status),
              (''env_resolved'', dget v ''env_resolved''), (''error'', dget v ''error''),
              (''failed_checks'', dget_or v ''failed_checks'' (PList []))]
             (se1\<lparr>se_stable := 0, se_signature := None\<rparr>)))
         else if status \<noteq> PStr ''passed'' \<and> status \<noteq> PStr ''failed'' then
           Inr (Stops ''error'' ''post_action_verifier_status_missing_or_invalid'' se1)
         else case settle_observation_of ff v of
           Inl e \<Rightarrow>
             Inr (Stops ''error'' ''post_action_objective_observation_invalid''
               (add_reading [(''elapsed_s'', seconds_since started now), (''verification_status'', status),
                             (''env_resolved'', dget v ''env_resolved''),
                             (''error'', PStr (''malformed_objective_observation:'' @ py_exn_name e))] se1))
         | Inr (signature, objective) \<Rightarrow>
             let stable = (if se_signature se = Some signature then se_stable se + 1 else 1);
                 se2 = add_reading ((''elapsed_s'', seconds_since started now) # objective)
                         (se1\<lparr>se_stable := stable, se_signature := Some signature\<rparr>)
             in Inr (if stable \<ge> POST_ACTION_SETTLE_STABLE_OBSERVATIONS then Stable se2 else Continues se2))"

definition settle_report_of :: "string \<Rightarrow> bool \<Rightarrow> time \<Rightarrow> time \<Rightarrow> settling \<Rightarrow> pydict" where
  "settle_report_of status done started t se =
     [(''status'', PStr status), (''settled'', PBool done), (''stable'', PBool done),
      (''timeout_seconds'', PFloat (FFin POST_ACTION_SETTLE_TIMEOUT_SECONDS)),
      (''poll_interval_seconds'', PFloat (FFin POST_ACTION_SETTLE_POLL_INTERVAL_SECONDS)),
      (''required_stable_observations'', PInt (int POST_ACTION_SETTLE_STABLE_OBSERVATIONS)),
      (''stable_observations'', PInt (int (se_stable se))),
      (''observation_count'', PInt (int (length (se_observations se)))),
      (''elapsed_s'', seconds_since started t)]"

definition dict_or_none :: "pydict option \<Rightarrow> pyval" where
  "dict_or_none d = (case d of None \<Rightarrow> PNone | Some v \<Rightarrow> PDict v)"

definition settle_failure :: "policy_world \<Rightarrow> time \<Rightarrow> string \<Rightarrow> string \<Rightarrow> settling \<Rightarrow> pydict dop" where
  "settle_failure w started status reason se =
     obind (read_clock (pw_clock w)) (\<lambda>t.
       oret (settle_report_of status False started t se @
         [(''last_verification_status'', case se_status se of None \<Rightarrow> PNone | Some u \<Rightarrow> PStr u),
          (''last_verification'', dict_or_none (se_last se)),
          (''observations'', PList (map PDict (se_observations se))), (''failure'', PStr reason)]))"

definition settle_success :: "policy_world \<Rightarrow> time \<Rightarrow> settling \<Rightarrow> pydict dop" where
  "settle_success w started se =
     obind (read_clock (pw_clock w)) (\<lambda>t.
       oret (settle_report_of ''settled'' True started t se @
         [(''verification_status'', case se_status se of None \<Rightarrow> PNone | Some u \<Rightarrow> PStr u),
          (''observations'', PList (map PDict (se_observations se))), (''verification'', dict_or_none (se_last se))]))"

text \<open>What the verifier is asked about an executed action.\<close>

definition verifier_request :: "policy_world \<Rightarrow> policy_action \<Rightarrow> pydict \<Rightarrow> pydict \<Rightarrow> pydict" where
  "verifier_request w p state context =
     [(''scenario_id'', PStr (pw_scenario w)), (''agent_claimed_resolved'', PBool (po_claimed p)),
      (''alert'', dget state ''alert''), (''incident_context'', PDict context)]"

definition action_context :: "policy_action \<Rightarrow> pydict \<Rightarrow> pydict option \<Rightarrow> pyval \<Rightarrow> pydict" where
  "action_context p state seen tool_result =
     dict_merge state
       [(''policy_action'', PDict (action_dict p)), (''pre_action_observation'', dict_or_none seen),
        (''tool_result'', tool_result)]"

definition ask_verifier :: "policy_world \<Rightarrow> pydict \<Rightarrow> pydict dop" where
  "ask_verifier w question =
     obind (invoke_tool w (\<lambda>context. VerifierAsked context question) (\<lambda>t. pw_verifier w t question)) (\<lambda>v.
       olift (verification_record v))"

text \<open>A round ends the loop or, after a pause, goes on with the rounds that are left.\<close>

definition pause_settling :: "policy_world \<Rightarrow> time \<Rightarrow> (settling \<Rightarrow> pydict dop) \<Rightarrow> settling \<Rightarrow> pydict dop" where
  "pause_settling w started rest se =
     obind (read_clock (pw_clock w)) (\<lambda>t.
     let remaining = started + POST_ACTION_SETTLE_TIMEOUT_SECONDS - t;
         pause = min POST_ACTION_SETTLE_POLL_INTERVAL_SECONDS remaining in
     if remaining \<le> 0 then settle_failure w started ''timeout'' ''post_action_settle_timeout'' se
     else if length (se_observations se) \<ge> max_observations
     then settle_failure w started ''timeout'' ''post_action_settle_observation_limit'' se
     else
       obind (attempt (obind (dask w (Slept pause) (\<lambda>t. pw_sleep w t pause)) answered)) (\<lambda>slept.
       case slept of
         Inl x \<Rightarrow> settle_failure w started ''error'' (''post_action_settle_wait_error:'' @ ra_type x) se
       | Inr _ \<Rightarrow> rest se))"

definition end_round :: "policy_world \<Rightarrow> time \<Rightarrow> (settling \<Rightarrow> pydict dop) \<Rightarrow> round_end \<Rightarrow> pydict dop" where
  "end_round w started rest ended =
     (case ended of
        Stops status reason se \<Rightarrow> settle_failure w started status reason se
      | Stable se \<Rightarrow> settle_success w started se
      | Continues se \<Rightarrow> pause_settling w started rest se)"

definition settle_question :: "policy_world \<Rightarrow> policy_action \<Rightarrow> pydict \<Rightarrow> pydict \<Rightarrow> settling \<Rightarrow> pydict" where
  "settle_question w p state context se =
     verifier_request w p state
       (AList.update ''settle_observation'' (PInt (int (length (se_observations se)) + 1)) context)"

definition judge_reading ::
  "policy_world \<Rightarrow> time \<Rightarrow> (settling \<Rightarrow> pydict dop) \<Rightarrow> time \<Rightarrow> settling \<Rightarrow> pydict \<Rightarrow> pydict dop" where
  "judge_reading w started rest now se v =
     obind (read_clock (pw_clock w)) (\<lambda>finished.
     obind (omap (demit (Judged finished v))) (\<lambda>_.
     obind (olift (settle_round (pw_ff w) started now finished v se)) (end_round w started rest)))"

fun settle_rounds ::
  "policy_world \<Rightarrow> policy_action \<Rightarrow> pydict \<Rightarrow> pydict \<Rightarrow> time \<Rightarrow> nat \<Rightarrow> settling \<Rightarrow> pydict dop" where
  "settle_rounds w p state context started 0 se =
     settle_failure w started ''timeout'' ''post_action_settle_observation_limit'' se"
| "settle_rounds w p state context started (Suc n) se =
     obind (read_clock (pw_clock w)) (\<lambda>now.
     if se_observations se \<noteq> [] \<and> now \<ge> started + POST_ACTION_SETTLE_TIMEOUT_SECONDS
     then settle_failure w started ''timeout'' ''post_action_settle_timeout'' se
     else
       obind (attempt (ask_verifier w (settle_question w p state context se))) (\<lambda>r.
       case r of
         Inl x \<Rightarrow> settle_failure w started ''error'' (''post_action_verifier_error:'' @ ra_type x) se
       | Inr v \<Rightarrow> judge_reading w started (settle_rounds w p state context started n) now se v))"

definition settle_after_action ::
  "policy_world \<Rightarrow> policy_action \<Rightarrow> pydict \<Rightarrow> pydict option \<Rightarrow> pyval \<Rightarrow> pydict dop" where
  "settle_after_action w p state seen tool_result =
     obind (read_clock (pw_clock w)) (\<lambda>started.
       settle_rounds w p state (action_context p state seen tool_result) started max_observations start_settling)"

section \<open>One step\<close>

definition executed_action :: "policy_action \<Rightarrow> pyval \<Rightarrow> pyval" where
  "executed_action p tool_result =
     PDict [(''tool'', PStr (po_tool p)), (''arguments'', PDict (po_arguments p)), (''result'', tool_result)]"

definition blocked_step ::
  "string \<Rightarrow> string \<Rightarrow> string \<Rightarrow> policy_action option \<Rightarrow> pydict option \<Rightarrow> pydict" where
  "blocked_step category reason completion action seen =
     [(''status'', PStr ''blocked''), (''scorable'', PBool True), (''policy_completion'', PStr completion),
      (''policy_action'', dict_or_none (map_option action_dict action)),
      (''pre_action_observation'', dict_or_none seen), (''executed_actions'', PList []),
      (''verification'', PNone), (''env_resolved'', PBool False), (''resolved'', PBool False),
      (''agent_claimed_resolved'', PBool (case action of None \<Rightarrow> False | Some p \<Rightarrow> po_claimed p)),
      (''outcome'', PStr ''blocked''),
      (''terminal_block'', PDict [(''category'', PStr category), (''reason'', PStr reason)])]"

definition unscorable_step ::
  "string \<Rightarrow> policy_action \<Rightarrow> pydict option \<Rightarrow> pyval \<Rightarrow> pydict \<Rightarrow> pydict" where
  "unscorable_step completion p seen tool_result settled =
     [(''status'', PStr ''unscorable''), (''scorable'', PBool False), (''policy_completion'', PStr completion),
      (''policy_action'', PDict (action_dict p)), (''pre_action_observation'', dict_or_none seen),
      (''executed_actions'', PList [executed_action p tool_result]),
      (''verification'', py_or (dget settled ''verification'') (dget settled ''last_verification'')),
      (''settling'', PDict settled), (''env_resolved'', PBool False), (''resolved'', PBool False),
      (''agent_claimed_resolved'', PBool (po_claimed p)), (''outcome'', PStr ''unscorable''),
      (''terminal_block'', PNone),
      (''failure'', dget_or settled ''failure'' (PStr ''post_action_settle_unscorable''))]"

definition scored_step ::
  "string \<Rightarrow> policy_action \<Rightarrow> pydict option \<Rightarrow> pyval \<Rightarrow> pyval \<Rightarrow> pydict \<Rightarrow> pydict" where
  "scored_step completion p seen tool_result settled verification =
     (let resolved = (dget verification ''env_resolved'' = PBool True)
      in [(''status'', PStr ''ok''), (''scorable'', PBool True), (''policy_completion'', PStr completion),
          (''policy_action'', PDict (action_dict p)), (''pre_action_observation'', dict_or_none seen),
          (''executed_actions'', PList [executed_action p tool_result]), (''verification'', PDict verification),
          (''settling'', settled), (''env_resolved'', PBool resolved), (''resolved'', PBool resolved),
          (''agent_claimed_resolved'', PBool (po_claimed p)),
          (''outcome'', PStr (if resolved then ''resolved'' else ''unresolved'')), (''terminal_block'', PNone)])"

definition invalid_checks :: "pydict \<Rightarrow> bool" where
  "invalid_checks v \<longleftrightarrow> dhas v ''checks'' \<and>
     (case dget v ''checks'' of
        PList checks \<Rightarrow> checks = [] \<or> \<not> list_all well_formed_check checks
      | _ \<Rightarrow> True)"

definition unscorable_settling :: "pydict \<Rightarrow> pydict" where
  "unscorable_settling v =
     [(''status'', PStr ''unscorable''), (''settled'', PBool False), (''stable'', PBool False),
      (''stable_observations'', PInt 0), (''observation_count'', PInt 1),
      (''verification_status'', dget v ''verification_status''), (''last_verification'', PDict v),
      (''observations'', PList []),
      (''failure'', PStr (if invalid_checks v then ''post_action_objective_observation_invalid''
                          else ''post_action_verification_nonconclusive''))]"

text \<open>A verification that does not decide; only a hashable status can be looked up.\<close>

definition nonconclusive :: "pydict \<Rightarrow> py_exn + bool" where
  "nonconclusive v =
     (if invalid_checks v then Inr True
      else if \<not> hashable (dget v ''verification_status'') then Inl TypeError
      else Inr (dget v ''verification_status'' = PStr ''inconclusive'' \<or> dget v ''verification_status'' = PStr ''error''))"

definition score_settled :: "policy_world \<Rightarrow> string \<Rightarrow> policy_action \<Rightarrow> pydict \<Rightarrow> pydict option \<Rightarrow> pyval \<Rightarrow> pydict dop" where
  "score_settled w completion p state seen tool_result =
     obind (settle_after_action w p state seen tool_result) (\<lambda>settled.
       oret (if dget settled ''status'' \<noteq> PStr ''settled'' \<or> dget settled ''stable'' \<noteq> PBool True
             then unscorable_step completion p seen tool_result settled
             else scored_step completion p seen tool_result (PDict settled) (as_dict (dget settled ''verification''))))"

definition score_verified :: "policy_world \<Rightarrow> string \<Rightarrow> policy_action \<Rightarrow> pydict \<Rightarrow> pydict option \<Rightarrow> pyval \<Rightarrow> pydict dop" where
  "score_verified w completion p state seen tool_result =
     obind (obind (dask w SettleAsked (pw_settle w)) answered) (\<lambda>settled.
     obind (ask_verifier w (verifier_request w p state (action_context p state seen tool_result))) (\<lambda>v.
     obind (read_clock (pw_clock w)) (\<lambda>finished.
     obind (omap (demit (Judged finished v))) (\<lambda>_.
     obind (olift (nonconclusive v)) (\<lambda>undecided.
       oret (if undecided then unscorable_step completion p seen tool_result (unscorable_settling v)
             else scored_step completion p seen tool_result settled v))))))"

definition stage_refusal :: "policy_world \<Rightarrow> policy_action \<Rightarrow> pydict option \<Rightarrow> string option dop" where
  "stage_refusal w p seen =
     (case pw_stage_a w of
        None \<Rightarrow> oret None
      | Some check \<Rightarrow>
          obind (oget (\<lambda>s. check (de_trace s) (action_dict p) (case seen of None \<Rightarrow> [] | Some d \<Rightarrow> d))) (\<lambda>a.
          case a of
            StagePermits \<Rightarrow> oret None
          | StageRefuses reason \<Rightarrow> oret (Some reason)
          | StageFails x \<Rightarrow> oraise (Propagated x)))"

definition act :: "policy_world \<Rightarrow> string \<Rightarrow> policy_action \<Rightarrow> pydict \<Rightarrow> pydict option \<Rightarrow> pydict dop" where
  "act w completion p state seen =
     obind (stage_refusal w p seen) (\<lambda>refusal.
     case refusal of
       Some reason \<Rightarrow> oret (blocked_step ''stage_a_causal_boundary'' reason completion (Some p) seen)
     | None \<Rightarrow>
         obind (invoke_tool w (\<lambda>context. Invoked context (po_tool p) (po_arguments p))
                  (\<lambda>t. pw_tool w t (po_tool p) (po_arguments p))) (\<lambda>tool_result.
           if pw_builtin_settle w then score_settled w completion p state seen tool_result
           else score_verified w completion p state seen tool_result))"

definition confirm_and_act :: "policy_world \<Rightarrow> string \<Rightarrow> policy_action \<Rightarrow> pydict \<Rightarrow> pydict dop" where
  "confirm_and_act w completion p state =
     obind (live_evidence w p) (\<lambda>evidence.
     case evidence of
       Inl (reason, seen) \<Rightarrow> oret (blocked_step ''missing_evidence'' reason completion (Some p) seen)
     | Inr seen \<Rightarrow> act w completion p state seen)"

definition apply_action :: "policy_world \<Rightarrow> string \<Rightarrow> policy_action \<Rightarrow> pydict \<Rightarrow> nat option \<Rightarrow> pydict dop" where
  "apply_action w completion p state permit =
     (if dget state ''env_resolved'' = PBool True then
        oret (blocked_step ''already_resolved'' ''Environment was already verified resolved'' completion (Some p) None)
      else if \<not> pw_registry w (po_tool p) then
        oret (blocked_step ''tool_unavailable'' (''Unknown tool: '' @ po_tool p) completion None None)
      else
        obind (if po_tool p \<in> CLUSTER_MUTATING_TOOLS then approval_allows_mutation w state p permit else oret True) (\<lambda>allowed.
        if \<not> allowed then
          oret (blocked_step ''approval_required'' ''Mutation requires the severity-specific approval decision''
                  completion (Some p) None)
        else
          obind (olift (pw_check w (po_tool p) (po_arguments p) state)) (\<lambda>problem.
          case problem of
            Some (c # reason) \<Rightarrow> oret (blocked_step ''policy_block'' (c # reason) completion (Some p) None)
          | _ \<Rightarrow> confirm_and_act w completion p state)))"

definition policy_step :: "policy_world \<Rightarrow> string \<Rightarrow> pydict \<Rightarrow> nat option \<Rightarrow> pydict dop" where
  "policy_step w completion state permit =
     obind (omap (demit (Stepped state completion))) (\<lambda>_.
     obind (oraised (live_context w)) (\<lambda>_.
     case parse_policy_action (pw_decode w) completion of
       Inl _ \<Rightarrow>
         oret (blocked_step ''invalid_action'' (policy_action_complaint (pw_decode w) (pw_decode_error w) completion)
                 completion None None)
     | Inr p \<Rightarrow> apply_action w completion p state permit))"

section \<open>A remediation by the policy\<close>

text \<open>\<open>agents/policy_remediation.py\<close>, \<open>run_policy_remediation\<close>: what its loop accumulates.\<close>

record policy_progress =
  pp_state :: pydict
  pp_steps :: "pydict list"
  pp_trajectory :: "pyval list"
  pp_executed :: "pyval list"

definition strip_state :: "pydict \<Rightarrow> pydict" where
  "strip_state d = as_dict (strip_model_forbidden_context (PDict d))"

definition generate_completion :: "policy_world \<Rightarrow> pydict \<Rightarrow> int \<Rightarrow> pyval \<Rightarrow> string dop" where
  "generate_completion w state seed config =
     obind (obind (dask w (Generated state) (\<lambda>t. pw_generate w t state seed config)) answered) (\<lambda>raw.
       case raw of PStr completion \<Rightarrow> oret completion | _ \<Rightarrow> oraise (PyError TypeError))"

definition ask_provider ::
  "policy_world \<Rightarrow> (policy_effect list \<Rightarrow> pydict \<Rightarrow> pydict \<Rightarrow> provider_answer answer) \<Rightarrow> pydict \<Rightarrow> policy_action \<Rightarrow> nat option dop" where
  "ask_provider w provider state p =
     obind (obind (dask w (PermitAsked (action_dict p)) (\<lambda>t. provider t (action_dict p) state)) answered) (\<lambda>a.
       case a of
         NoPermit \<Rightarrow> oret None | IssuedPermit permit \<Rightarrow> oret (Some permit) | NotAPermit \<Rightarrow> oraise (PyError TypeError))"

definition obtain_permit :: "policy_world \<Rightarrow> pydict \<Rightarrow> string \<Rightarrow> nat option dop" where
  "obtain_permit w state completion =
     (case (parse_policy_action (pw_decode w) completion, pw_approver w) of
        (Inr p, Some provider) \<Rightarrow>
          obind (olift (policy_action_requires_operator_approval (pw_fmt w) p state)) (\<lambda>needed.
            if needed then ask_provider w provider state p else oret None)
      | _ \<Rightarrow> oret None)"

definition trajectory_entries :: "pydict \<Rightarrow> pyval list" where
  "trajectory_entries result =
     map (\<lambda>a. PDict [(''role'', PStr ''remediation''), (''tool'', dget (as_dict a) ''tool''),
                     (''arguments'', dget (as_dict a) ''arguments''), (''output'', dget (as_dict a) ''result''),
                     (''verifier_observation'', dget result ''verification'')])
       (as_list (dget result ''executed_actions''))"

definition resolved_in :: "pydict \<Rightarrow> bool" where
  "resolved_in result \<longleftrightarrow> dget result ''env_resolved'' = PBool True"

definition next_policy_state :: "pydict \<Rightarrow> pydict \<Rightarrow> pydict" where
  "next_policy_state state result =
     strip_state (dict_merge state
       [(''previous_policy_action'', dget result ''policy_action''),
        (''previous_tool_result'',
           case as_list (dget result ''executed_actions'') of [] \<Rightarrow> PNone | a # _ \<Rightarrow> dget (as_dict a) ''result''),
        (''verification'', dget result ''verification''), (''env_resolved'', PBool (resolved_in result))])"

definition step_record :: "nat \<Rightarrow> string \<Rightarrow> string \<Rightarrow> pydict \<Rightarrow> string \<Rightarrow> pydict \<Rightarrow> pydict" where
  "step_record index started completed state completion result =
     [(''index'', PInt (int index)), (''started_at'', PStr started), (''completed_at'', PStr completed),
      (''state'', PDict state), (''environment_status'', dget result ''status''),
      (''pre_action_observation'', dget result ''pre_action_observation''),
      (''raw_policy_output'', PStr completion), (''parsed_action'', dget result ''policy_action''),
      (''executed_actions'', PList (as_list (dget result ''executed_actions''))),
      (''verification'', dget result ''verification''), (''settling'', dget result ''settling''),
      (''env_resolved'', PBool (resolved_in result)), (''terminal_block'', dget result ''terminal_block''),
      (''next_state'', PDict (next_policy_state state result))]"

definition add_step :: "pydict \<Rightarrow> pydict \<Rightarrow> pydict \<Rightarrow> policy_progress \<Rightarrow> policy_progress" where
  "add_step state result entry pp =
     pp\<lparr>pp_state := next_policy_state state result, pp_steps := pp_steps pp @ [entry],
        pp_trajectory := pp_trajectory pp @ trajectory_entries result,
        pp_executed := pp_executed pp @ as_list (dget result ''executed_actions'')\<rparr>"

text \<open>The loop, with the number of iterations that are left and the index of the next one.\<close>

fun policy_rounds ::
  "policy_world \<Rightarrow> int \<Rightarrow> pyval \<Rightarrow> nat \<Rightarrow> nat \<Rightarrow> policy_progress \<Rightarrow> policy_progress dop" where
  "policy_rounds w seed config 0 index pp = oret pp"
| "policy_rounds w seed config (Suc n) index pp =
     (let state = pp_state pp in
      if dget state ''env_resolved'' = PBool True then oret pp
      else
        obind (oget (\<lambda>s. pw_stamp w (de_trace s))) (\<lambda>started.
        obind (generate_completion w state (seed + int index) config) (\<lambda>completion.
        obind (obtain_permit w state completion) (\<lambda>permit.
        obind (policy_step w completion state permit) (\<lambda>result.
        obind (oget (\<lambda>s. pw_stamp w (de_trace s))) (\<lambda>completed.
        let pp' = add_step state result (step_record index started completed state completion result) pp in
        if dget result ''status'' \<noteq> PStr ''ok'' \<or> dget (pp_state pp') ''env_resolved'' = PBool True
        then oret pp' else policy_rounds w seed config n (Suc index) pp'))))))"

definition last_step :: "policy_progress \<Rightarrow> pydict" where
  "last_step pp = (if pp_steps pp = [] then [] else last (pp_steps pp))"

definition policy_status :: "policy_progress \<Rightarrow> string" where
  "policy_status pp =
     (if truthy (dget (last_step pp) ''terminal_block'') then ''blocked''
      else if truthy (dget (last_step pp) ''env_resolved'') then ''resolved'' else ''unresolved'')"

definition policy_result :: "string \<Rightarrow> int \<Rightarrow> pyval \<Rightarrow> pydict \<Rightarrow> policy_progress \<Rightarrow> pydict" where
  "policy_result origin seed config state pp =
     [(''role'', PStr ''remediation''), (''trajectory'', PList (pp_trajectory pp)),
      (''policy_steps'', PList (map PDict (pp_steps pp))),
      (''final'', PDict
        [(''incident_id'', dget state ''incident_id''), (''status'', PStr (policy_status pp)),
         (''outcome'', PStr (policy_status pp)), (''executed_actions'', PList (pp_executed pp)),
         (''verification'', dget (last_step pp) ''verification''),
         (''env_resolved'', PBool (truthy (dget (last_step pp) ''env_resolved''))),
         (''terminal_block'', dget (last_step pp) ''terminal_block''), (''policy_backend'', PStr origin),
         (''evidence_class'', PStr (if origin = ''checkpoint'' then ''runtime_execution_unclassified'' else ''NON_EMPIRICAL'')),
         (''generation_seed'', PInt seed), (''generation_config'', config)])]"

definition run_policy_remediation ::
  "policy_world \<Rightarrow> pydict \<Rightarrow> int \<Rightarrow> pyval \<Rightarrow> int \<Rightarrow> string \<Rightarrow> pydict dop" where
  "run_policy_remediation w state seed config max_actions origin =
     (if max_actions < 1 then oraise (PyError ValueError)
      else
        obind (policy_rounds w seed config (nat max_actions) 0
          \<lparr>pp_state = strip_state state, pp_steps = [], pp_trajectory = [], pp_executed = []\<rparr>) (\<lambda>pp.
          oret (policy_result origin seed config state pp)))"

end
