(* ===== verification/VerifierChecks.thy ===== *)
theory VerifierChecks
  imports PyValue
begin

text \<open>
  What the checks of a verification say, independently of the code that reads them: used to state what
  the scorers of \<open>training/grpo_environment.py\<close> and \<open>training/grpo_reward.py\<close> rest on.  A check is decided
  when it is an object that says whether it passed and, if it has the flag at all, whether it is
  required; only a flag that is false makes a check optional.
\<close>

definition decided_check :: "pyval \<Rightarrow> bool" where
  "decided_check c \<longleftrightarrow>
     (case c of
        PDict d \<Rightarrow> is_bool (dget d ''passed'') \<and> (dhas d ''required'' \<longrightarrow> is_bool (dget d ''required''))
      | _ \<Rightarrow> False)"

definition required_check :: "pyval \<Rightarrow> bool" where
  "required_check c \<longleftrightarrow> (case c of PDict d \<Rightarrow> dget d ''required'' \<noteq> PBool False | _ \<Rightarrow> False)"

definition passed_check :: "pyval \<Rightarrow> bool" where
  "passed_check c \<longleftrightarrow> (case c of PDict d \<Rightarrow> dget d ''passed'' = PBool True | _ \<Rightarrow> False)"

text \<open>A verdict agrees with its checks: it passes when every required one passed, and fails otherwise.\<close>

definition verdict_agrees :: "pydict \<Rightarrow> pyval list \<Rightarrow> bool" where
  "verdict_agrees v checks \<longleftrightarrow>
     (if \<forall>c \<in> set checks. required_check c \<longrightarrow> passed_check c
      then dget v ''verification_status'' = PStr ''passed'' \<and> dget v ''env_resolved'' = PBool True
      else dget v ''verification_status'' = PStr ''failed'' \<and> dget v ''env_resolved'' = PBool False)"

lemma decided_cases:
  assumes "decided_check c"
  obtains d passed required where "c = PDict d" "dget d ''passed'' = PBool passed"
    "dget_or d ''required'' (PBool True) = PBool required"
    "passed_check c \<longleftrightarrow> passed" "required_check c \<longleftrightarrow> required"
  using assms
  by (cases c)
    (auto simp: decided_check_def required_check_def passed_check_def dhas_def dget_def dget_or_def
      elim!: is_bool.elims split: option.splits)

lemma decided_iff:
  "decided_check c \<longleftrightarrow>
     (\<exists>d. c = PDict d \<and> is_bool (dget d ''passed'') \<and> is_bool (dget_or d ''required'' (PBool True)))"
  by (cases c) (auto simp: decided_check_def dhas_def dget_def dget_or_def split: option.splits)

end
