(* ===== verification/PolicyGuarantees.thy ===== *)
theory PolicyGuarantees
  imports PolicyEnvironment VerifierChecks
begin

text \<open>
  What holds of every remediation by the policy: each call of a tool is the action of the completion at
  hand, registered, allowed and, when it mutates, approved; permits are spent once; the number of
  actions is bounded; and a score rests on a verification that was stable.
\<close>

section \<open>Operations step by step\<close>

fun quiet :: "policy_effect \<Rightarrow> bool" where
  "quiet (Stepped _ _) = False"
| "quiet (Invoked _ _ _) = False"
| "quiet (PermitUsed _ _ _ _) = False"
| "quiet _ = True"

lemma demit_simps [simp]:
  "de_trace (demit e s) = de_trace s @ [e]" "de_gate (demit e s) = de_gate s"
  by (simp_all add: demit_def)

lemma hoare_attempt:
  assumes "hoare P m Q E" and "\<And>s. E s \<Longrightarrow> F s"
  shows "hoare P (attempt m) (\<lambda>r s. case r of Inl _ \<Rightarrow> E s | Inr a \<Rightarrow> Q a s) F"
proof (rule hoareI)
  fix s assume "P s"
  with hoareD[OF assms(1) this] show "case attempt m s of (Inl _, s') \<Rightarrow> F s'
      | (Inr r, s') \<Rightarrow> (case r of Inl _ \<Rightarrow> E s' | Inr a \<Rightarrow> Q a s')"
    by (auto simp: attempt_def assms(2) split: prod.splits sum.splits)
qed

text \<open>
  What a predicate must survive to hold through every operation but the call of a tool and the use of a
  permit.
\<close>

locale policy_invariant =
  fixes w :: policy_world and K :: "direct \<Rightarrow> bool"
  assumes effect: "K s \<Longrightarrow> quiet e \<Longrightarrow> K (demit e s)"
    and others: "K s \<Longrightarrow> K (s\<lparr>de_gate := run (gate_step (pw_ff w) (pw_sha w)) (de_gate s) es\<rparr>)"
begin

lemma keeps_ask: "quiet e \<Longrightarrow> keeps K (dask w e f)"
  using others[OF effect[of _ e]] by (simp add: dask_def hoare_def obind_def omap_def)

lemma keeps_answered: "keeps K (answered a)"
  by (simp add: answered_def split: answer.split)

lemma keeps_raised: "keeps K (oraised r)"
  by (simp add: oraised_def split: sum.split)

lemma keeps_attempt: "keeps K m \<Longrightarrow> keeps K (attempt m)"
  by (rule hoareI, drule hoareD, assumption) (auto simp: attempt_def split: prod.splits sum.splits)

lemma keeps_clock: "keeps K (read_clock c)"
  unfolding read_clock_def by (rule keeps_bind) (simp_all add: keeps_map effect)

lemma keeps_emit: "quiet e \<Longrightarrow> keeps K (omap (demit e))"
  by (rule keeps_map) (rule effect)

lemma keeps_invoke: "(\<And>c. quiet (e c)) \<Longrightarrow> keeps K (invoke_tool w e f)"
  unfolding invoke_tool_def by (intro keeps_bind keeps_raised keeps_ask keeps_answered)

lemma keeps_verifier: "keeps K (ask_verifier w question)"
  unfolding ask_verifier_def by (intro keeps_bind keeps_invoke) simp_all

lemma keeps_failure: "keeps K (settle_failure w started status reason se)"
  unfolding settle_failure_def by (intro keeps_bind keeps_clock) simp

lemma keeps_success: "keeps K (settle_success w started se)"
  unfolding settle_success_def by (intro keeps_bind keeps_clock) simp

lemma keeps_slept: "keeps K (attempt (obind (dask w (Slept pause) f) answered))"
  by (intro keeps_attempt keeps_bind keeps_ask keeps_answered) simp

lemma keeps_pause: "(\<And>se. keeps K (rest se)) \<Longrightarrow> keeps K (pause_settling w started rest se)"
  unfolding pause_settling_def Let_def
  by (intro keeps_bind keeps_clock keeps_if keeps_failure keeps_slept) (simp add: keeps_failure split: sum.split)

lemma keeps_end: "(\<And>se. keeps K (rest se)) \<Longrightarrow> keeps K (end_round w started rest ended)"
  by (simp add: end_round_def keeps_failure keeps_success keeps_pause split: round_end.split)

lemma keeps_judge: "(\<And>se. keeps K (rest se)) \<Longrightarrow> keeps K (judge_reading w started rest now se v)"
  unfolding judge_reading_def by (intro keeps_bind keeps_clock keeps_emit keeps_end) simp_all

lemma keeps_rounds: "keeps K (settle_rounds w p state context started n se)"
proof (induction n arbitrary: se)
  case (Suc n)
  show ?case
    unfolding settle_rounds.simps
    by (intro keeps_bind keeps_clock keeps_if keeps_failure keeps_attempt keeps_verifier)
      (simp add: keeps_failure keeps_judge Suc.IH split: sum.split)
qed (simp add: keeps_failure)

lemma keeps_settle: "keeps K (settle_after_action w p state seen r)"
  unfolding settle_after_action_def by (intro keeps_bind keeps_clock keeps_rounds)

lemma keeps_score: "keeps K (score_settled w c p state seen r)" "keeps K (score_verified w c p state seen r)"
  unfolding score_settled_def score_verified_def
  by (intro keeps_bind keeps_settle keeps_ask keeps_answered keeps_verifier keeps_clock keeps_emit, simp_all)+

lemma keeps_stage: "keeps K (stage_refusal w p seen)"
  unfolding stage_refusal_def
  by (auto intro!: keeps_bind split: option.split stage_answer.split)

lemma keeps_evidence: "keeps K (live_evidence w p)"
  unfolding live_evidence_def weigh_evidence_def Let_def
  by (auto intro!: keeps_bind keeps_attempt keeps_invoke keeps_emit split: sum.split pyval.split)

lemma keeps_generate: "keeps K (generate_completion w state seed config)"
  unfolding generate_completion_def
  by (intro keeps_bind keeps_ask keeps_answered) (simp_all split: pyval.split)

lemma keeps_permit: "keeps K (obtain_permit w state completion)"
  unfolding obtain_permit_def ask_provider_def
  by (auto intro!: keeps_bind keeps_ask keeps_answered split: sum.split option.split provider_answer.split)


lemma keeps_act_rest:
  assumes "\<And>ctx. keeps K (dask w (Invoked ctx (po_tool p) (po_arguments p)) (\<lambda>t. pw_tool w t (po_tool p) (po_arguments p)))"
  shows "keeps K (act w c p state seen)"
  unfolding act_def invoke_tool_def
  by (auto intro!: keeps_bind[OF keeps_stage] keeps_bind[OF keeps_bind[OF keeps_raised keeps_bind[OF assms keeps_answered]]]
      keeps_score split: option.split)

lemma keeps_policy_rounds:
  assumes "\<And>c state permit. keeps K (policy_step w c state permit)"
  shows "keeps K (policy_rounds w seed config n index pp)"
proof (induction n arbitrary: index pp)
  case (Suc n)
  show ?case
    unfolding policy_rounds.simps Let_def
    by (auto intro!: keeps_bind[OF keeps_generate] keeps_bind[OF keeps_permit] keeps_bind[OF assms]
        keeps_bind[of _ "oget _"] Suc.IH)
qed simp

lemma keeps_run:
  assumes "\<And>c state permit. keeps K (policy_step w c state permit)"
  shows "keeps K (run_policy_remediation w state seed config n origin)"
  unfolding run_policy_remediation_def
  by (auto intro!: keeps_bind[OF keeps_policy_rounds[OF assms]])

end

text \<open>A predicate that also survives the use of a permit, and one that survives every step.\<close>

locale approving_invariant = policy_invariant +
  assumes uses: "keeps K (use_permit w permit i d)"
begin

lemma keeps_allows: "keeps K (approval_allows_mutation w state p permit)"
  unfolding approval_allows_mutation_def
  by (rule keeps_bind) (auto intro: uses split: pyval.split sum.split)

end

locale step_invariant = approving_invariant +
  assumes stepped: "K s \<Longrightarrow> K (demit (Stepped state c) s)"
    and invoked: "K s \<Longrightarrow> K (demit (Invoked ctx tool args) s)"
begin

lemma keeps_step: "keeps K (policy_step w c state permit)"
proof -
  have "keeps K (dask w (Invoked ctx tool args) f)" for ctx tool args and f :: "policy_effect list \<Rightarrow> pyval answer"
    using others[OF invoked[of _ ctx tool args]] by (simp add: dask_def hoare_def obind_def omap_def)
  then have acted: "keeps K (act w c p state seen)" for p seen by (rule keeps_act_rest)
  have confirmed: "keeps K (confirm_and_act w c p state)" for p
    unfolding confirm_and_act_def
    by (auto intro!: keeps_bind[OF keeps_evidence] acted split: sum.split prod.split)
  have applied: "keeps K (apply_action w c p state permit)" for p
    unfolding apply_action_def
    by (auto intro!: keeps_bind keeps_allows confirmed split: option.split list.split)
  show ?thesis
    unfolding policy_step_def
    by (auto intro!: keeps_bind[OF keeps_map] keeps_bind[OF keeps_raised] stepped applied split: sum.split)
qed

lemma run_inv: "K s \<Longrightarrow> K (snd (run_policy_remediation w state seed config n origin s))"
  using hoareD[OF keeps_run[OF keeps_step], of s state seed config n origin]
  by (auto split: prod.splits sum.splits)

end

section \<open>Every call of a tool is justified\<close>

text \<open>The current call of \<open>step\<close>: its state, its completion, and what happened since.\<close>

fun after_effect ::
  "(pydict \<times> string \<times> policy_effect list) option \<Rightarrow> policy_effect \<Rightarrow> (pydict \<times> string \<times> policy_effect list) option" where
  "after_effect now (Stepped st c) = Some (st, c, [])"
| "after_effect now e = map_option (\<lambda>(st, c, es). (st, c, es @ [e])) now"

definition current_step :: "policy_effect list \<Rightarrow> (pydict \<times> string \<times> policy_effect list) option" where
  "current_step t = foldl after_effect None t"

lemma current_step_snoc [simp]: "current_step (t @ [e]) = after_effect (current_step t) e"
  by (simp add: current_step_def)

definition is_invoked :: "policy_effect \<Rightarrow> bool" where
  "is_invoked e = (case e of Invoked _ _ _ \<Rightarrow> True | _ \<Rightarrow> False)"

definition permit_for :: "policy_world \<Rightarrow> pydict \<Rightarrow> policy_action \<Rightarrow> policy_effect \<Rightarrow> bool" where
  "permit_for w st p e =
     (case e of
        PermitUsed permit incident digest accepted \<Rightarrow>
          accepted \<and> dget st ''incident_id'' = PStr incident \<and>
          action_digest (pw_ff w) (pw_sha w) (action_dict p) = Inr digest
      | _ \<Rightarrow> False)"

definition confirmation :: "policy_world \<Rightarrow> policy_action \<Rightarrow> policy_effect \<Rightarrow> bool" where
  "confirmation w p e =
     (case e of
        LiveObserved reader seen \<Rightarrow> reader = evidence_reader (po_tool p) \<and> has_evidence (pw_fmt w) p seen
      | _ \<Rightarrow> False)"

text \<open>What must have happened since the step began, for the action to run.\<close>

definition required_evidence :: "policy_world \<Rightarrow> pydict \<Rightarrow> policy_action \<Rightarrow> (policy_effect \<Rightarrow> bool) list" where
  "required_evidence w st p =
     (if po_tool p \<in> CLUSTER_MUTATING_TOOLS \<and> state_approval_mode (pw_fmt w) st \<noteq> Inr ''auto''
      then [permit_for w st p] else []) @
     (if po_tool p \<in> {''argocd_rollback'', ''chaos_stop_experiment''} then [confirmation w p] else [])"

lemma required_evidence_alt:
  "required_evidence w st p =
     (if po_tool p \<in> CLUSTER_MUTATING_TOOLS \<and> state_approval_mode (pw_fmt w) st \<noteq> Inr ''auto''
      then [permit_for w st p] else []) @
     (if needs_live_evidence (po_tool p) then [confirmation w p] else [])"
  by (simp add: required_evidence_def needs_live_evidence_def)

definition allowed_action :: "policy_world \<Rightarrow> pydict \<Rightarrow> policy_action \<Rightarrow> bool" where
  "allowed_action w st p \<longleftrightarrow>
     pw_registry w (po_tool p) \<and> dget st ''env_resolved'' \<noteq> PBool True \<and>
     pw_check w (po_tool p) (po_arguments p) st \<in> {Inr None, Inr (Some [])} \<and>
     (if po_tool p \<in> CLUSTER_MUTATING_TOOLS then state_approval_mode (pw_fmt w) st \<in> {Inr ''auto'', Inr ''approve''} else True)"

definition justified :: "policy_world \<Rightarrow> policy_effect list \<Rightarrow> string \<Rightarrow> string \<Rightarrow> pydict \<Rightarrow> bool" where
  "justified w t ctx tool args \<longleftrightarrow>
     live_context w = Inr ctx \<and>
     (case current_step t of
        None \<Rightarrow> False
      | Some (st, c, es) \<Rightarrow>
          \<not> list_ex is_invoked es \<and>
          (case parse_policy_action (pw_decode w) c of
             Inl _ \<Rightarrow> False
           | Inr p \<Rightarrow>
               tool = po_tool p \<and> args = po_arguments p \<and> allowed_action w st p \<and>
               list_all (\<lambda>Q. list_ex Q es) (required_evidence w st p)))"

definition acts_justified :: "policy_world \<Rightarrow> policy_effect list \<Rightarrow> bool" where
  "acts_justified w t =
     list_all (\<lambda>i. case t ! i of Invoked ctx tool args \<Rightarrow> justified w (take i t) ctx tool args | _ \<Rightarrow> True)
       [0..<length t]"

lemma acts_justified_snoc [simp]:
  "acts_justified w [] "
  "acts_justified w (t @ [e]) \<longleftrightarrow>
     acts_justified w t \<and> (case e of Invoked ctx tool args \<Rightarrow> justified w t ctx tool args | _ \<Rightarrow> True)"
  by (auto simp: acts_justified_def list_all_iff nth_append split: policy_effect.splits)

abbreviation acts :: "policy_world \<Rightarrow> direct \<Rightarrow> bool" where
  "acts w s \<equiv> acts_justified w (de_trace s)"

text \<open>Inside the step of a completion, before its call, with the evidence gathered so far.\<close>

definition during :: "policy_world \<Rightarrow> pydict \<Rightarrow> string \<Rightarrow> (policy_effect \<Rightarrow> bool) list \<Rightarrow> direct \<Rightarrow> bool" where
  "during w st c Qs s \<longleftrightarrow> acts w s \<and>
     (case current_step (de_trace s) of
        None \<Rightarrow> False
      | Some (st', c', es) \<Rightarrow> st' = st \<and> c' = c \<and> \<not> list_ex is_invoked es \<and> list_all (\<lambda>Q. list_ex Q es) Qs)"

lemma during_acts: "during w st c Qs s \<Longrightarrow> acts w s"
  by (simp add: during_def)

lemma during_emit:
  assumes "during w st c Qs s" and "\<not> is_invoked e" and "\<And>st' c'. e \<noteq> Stepped st' c'"
  shows "during w st c Qs (demit e s)" and "Q e \<Longrightarrow> during w st c (Q # Qs) (demit e s)"
  using assms by (cases e; force simp: during_def is_invoked_def list_all_iff split: option.splits)+

lemma during_gate [simp]: "during w st c Qs (s\<lparr>de_gate := g\<rparr>) = during w st c Qs s"
  by (simp add: during_def)

interpretation during: policy_invariant w "during w st c Qs" for w st c Qs
proof unfold_locales
  show "during w st c Qs (demit e s)" if "during w st c Qs s" "quiet e" for s e
    using that by (intro during_emit) (auto simp: is_invoked_def split: policy_effect.split)
qed simp

interpretation acted: policy_invariant w "acts w" for w
  by unfold_locales (auto split: policy_effect.split)

lemma permit_emit: "during w st c Qs s \<Longrightarrow> during w st c Qs (demit (PermitUsed permit i d ok) s)"
  by (rule during_emit) (simp_all add: is_invoked_def)

lemma use_permit_during:
  "hoare (during w st c Qs) (use_permit w permit i d)
     (\<lambda>ok s. if ok \<and> dget st ''incident_id'' = PStr i \<and> action_digest (pw_ff w) (pw_sha w) (action_dict p) = Inr d
             then during w st c (permit_for w st p # Qs) s else during w st c Qs s) (acts w)"
proof -
  have clocked: "hoare (during w st c Qs) (read_clock (pw_wall w)) (\<lambda>_. during w st c Qs) (acts w)"
    by (rule hoare_conseq[OF during.keeps_clock], assumption, assumption, erule during_acts)
  show ?thesis
    unfolding use_permit_def
    by (rule hoare_bind[OF clocked], rule hoare_bind[OF clocked])
      (auto simp: hoare_def obind_def oget_def omap_def olift_def oraise_def oret_def during_acts permit_emit
        permit_for_def is_invoked_def intro!: during_emit(2) split: sum.split)
qed

interpretation acting: approving_invariant w "acts w" for w
proof (intro approving_invariant.intro approving_invariant_axioms.intro acted.policy_invariant_axioms)
  show "keeps (acts w) (use_permit w permit i d)" for permit i d
    unfolding use_permit_def
    by (intro keeps_bind acted.keeps_clock keeps_map) simp_all
qed

lemma obind_known [simp]: "obind (oret a) f = f a" "obind (oraise e) f = oraise e"
  by (simp_all add: fun_eq_iff obind_def oret_def oraise_def)

lemma olift_simps [simp]: "olift (Inr a) = oret a" "olift (Inl e) = oraise (PyError e)"
  "oraised (Inr a) = oret a" "oraised (Inl x) = oraise (Propagated x)"
  by (simp_all add: olift_def oraised_def)

lemma allows_during:
  "hoare (during w st c []) (approval_allows_mutation w st p permit)
     (\<lambda>ok s. if ok then state_approval_mode (pw_fmt w) st = Inr ''auto'' \<and> during w st c [] s \<or>
                        state_approval_mode (pw_fmt w) st = Inr ''approve'' \<and> during w st c [permit_for w st p] s
             else during w st c [] s) (acts w)"
proof (cases "state_approval_mode (pw_fmt w) st")
  case (Inl e)
  then show ?thesis by (auto simp: approval_allows_mutation_def hoare_raise dest: during_acts)
next
  case (Inr mode)
  have returns: "hoare (during w st c []) (oret False)
     (\<lambda>ok s. if ok then mode = ''auto'' \<and> during w st c [] s \<or> mode = ''approve'' \<and> during w st c [permit_for w st p] s
             else during w st c [] s) (acts w)" by (simp add: hoare_ret)
  have "mode = ''approve''" if "mode \<noteq> ''manual''" "mode \<noteq> ''auto''"
    using Inr that auto_or_asked unfolding state_approval_mode_def by (auto simp: rbind_eq_Inr)
  moreover have "hoare (during w st c []) (use_permit w permit i d)
      (\<lambda>ok s. (ok \<longrightarrow> during w st c [permit_for w st p] s) \<and> (\<not> ok \<longrightarrow> during w st c [] s)) (acts w)"
    if "mode = ''approve''" "dget st ''incident_id'' = PStr i" "action_digest (pw_ff w) (pw_sha w) (action_dict p) = Inr d" for i d
    by (rule hoare_conseq[OF use_permit_during[where p = p]]) (use that in auto)
  ultimately show ?thesis
    using Inr returns
    by (auto simp: approval_allows_mutation_def hoare_ret hoare_raise dest: during_acts split: pyval.split sum.split)
qed

lemma evidence_during:
  "hoare (during w st c Qs) (live_evidence w p)
     (\<lambda>r. case r of
        Inl _ \<Rightarrow> acts w
      | Inr _ \<Rightarrow> during w st c ((if needs_live_evidence (po_tool p) then [confirmation w p] else []) @ Qs)) (acts w)"
proof -
  have looked: "hoare (during w st c Qs) (attempt (invoke_tool w (\<lambda>ctx. ReadLive ctx reader args) f))
      (\<lambda>_. during w st c Qs) (acts w)" for reader args f
    by (rule hoare_conseq[OF during.keeps_attempt[OF during.keeps_invoke]], simp, assumption, assumption, erule during_acts)
  have weighed: "hoare (during w st c Qs) (weigh_evidence w p r)
      (\<lambda>r. case r of Inl _ \<Rightarrow> acts w | Inr _ \<Rightarrow> during w st c (confirmation w p # Qs)) (acts w)" for r
  proof (cases r)
    case (Inr v)
    then show ?thesis
      using during_emit(2)[of w st c Qs _ "LiveObserved (evidence_reader (po_tool p)) (as_dict v)" "confirmation w p"]
      by (cases v)
        (auto simp: weigh_evidence_def Let_def hoare_def obind_def omap_def oret_def confirmation_def is_invoked_def dest: during_acts)
  qed (auto simp: weigh_evidence_def Let_def hoare_ret dest: during_acts)
  show ?thesis
    unfolding live_evidence_def Let_def
    by (auto intro!: hoare_bind[OF looked] weighed simp: hoare_ret dest: during_acts)
qed

lemma act_acts:
  assumes "parse_policy_action (pw_decode w) c = Inr p" and "allowed_action w st p"
  shows "hoare (during w st c (required_evidence w st p)) (act w c p st seen) (\<lambda>_. acts w) (acts w)"
proof -
  let ?D = "during w st c (required_evidence w st p)"
  have staged: "hoare ?D (stage_refusal w p seen) (\<lambda>_. ?D) (acts w)"
    by (rule hoare_conseq[OF during.keeps_stage], assumption, assumption, erule during_acts)
  have just: "justified w (de_trace s) ctx (po_tool p) (po_arguments p)" if "?D s" "live_context w = Inr ctx" for s ctx
    using that assms by (auto simp: justified_def during_def split: option.splits)
  have asked: "hoare ?D (dask w (Invoked ctx (po_tool p) (po_arguments p)) f) (\<lambda>_. acts w) (acts w)"
    if "live_context w = Inr ctx" for ctx and f :: "policy_effect list \<Rightarrow> pyval answer"
    using just[OF _ that] by (auto simp: dask_def hoare_def obind_def omap_def dest: during_acts)
  have called: "hoare ?D (invoke_tool w (\<lambda>ctx. Invoked ctx (po_tool p) (po_arguments p)) f) (\<lambda>_. acts w) (acts w)" for f
    unfolding invoke_tool_def
    by (cases "live_context w")
      (auto simp: hoare_raise dest: during_acts intro!: hoare_bind[OF asked] acted.keeps_answered)
  show ?thesis
    unfolding act_def
    by (rule hoare_bind[OF staged])
      (auto intro!: hoare_bind[OF called] acted.keeps_score simp: hoare_ret dest: during_acts split: option.split)
qed
lemma confirmed_acts:
  assumes "parse_policy_action (pw_decode w) c = Inr p" and "allowed_action w st p"
    and "Rs @ (if needs_live_evidence (po_tool p) then [confirmation w p] else []) = required_evidence w st p"
  shows "hoare (during w st c Rs) (confirm_and_act w c p st) (\<lambda>_. acts w) (acts w)"
proof -
  have "during w st c ((if needs_live_evidence (po_tool p) then [confirmation w p] else []) @ Rs) s
      \<longleftrightarrow> during w st c (required_evidence w st p) s" for s
    unfolding assms(3)[symmetric] by (auto simp: during_def split: option.split)
  then have "hoare (during w st c ((if needs_live_evidence (po_tool p) then [confirmation w p] else []) @ Rs))
      (act w c p st seen) (\<lambda>_. acts w) (acts w)" for seen
    using act_acts[OF assms(1,2), of seen] by (simp add: hoare_def)
  then show ?thesis
    unfolding confirm_and_act_def
    by (intro hoare_bind[OF evidence_during]) (auto simp: hoare_ret simp del: append.simps if_split split: sum.split prod.split)
qed

lemma applied_acts:
  assumes parsed: "parse_policy_action (pw_decode w) c = Inr p"
  shows "hoare (during w st c []) (apply_action w c p st permit) (\<lambda>_. acts w) (acts w)"
proof (cases "dget st ''env_resolved'' = PBool True \<or> \<not> pw_registry w (po_tool p)")
  case True
  then show ?thesis by (auto simp: apply_action_def hoare_ret dest: during_acts)
next
  case available: False
  let ?check = "\<lambda>allowed. if \<not> allowed
      then oret (blocked_step ''approval_required'' ''Mutation requires the severity-specific approval decision'' c (Some p) None)
      else obind (olift (pw_check w (po_tool p) (po_arguments p) st)) (\<lambda>problem.
        case problem of
          Some (x # reason) \<Rightarrow> oret (blocked_step ''policy_block'' (x # reason) c (Some p) None)
        | _ \<Rightarrow> confirm_and_act w c p st)"
  have checked: "hoare (during w st c Rs) (?check True) (\<lambda>_. acts w) (acts w)"
    if mode: "if po_tool p \<in> CLUSTER_MUTATING_TOOLS then state_approval_mode (pw_fmt w) st \<in> {Inr ''auto'', Inr ''approve''} else True"
      and "Rs @ (if needs_live_evidence (po_tool p) then [confirmation w p] else []) = required_evidence w st p" for Rs
  proof (cases "pw_check w (po_tool p) (po_arguments p) st \<in> {Inr None, Inr (Some [])}")
    case True
    with available mode have "allowed_action w st p" by (simp add: allowed_action_def)
    from confirmed_acts[OF parsed this that(2)] True show ?thesis by auto
  next
    case False
    then consider e where "pw_check w (po_tool p) (po_arguments p) st = Inl e"
      | x reason where "pw_check w (po_tool p) (po_arguments p) st = Inr (Some (x # reason))"
      by (cases "pw_check w (po_tool p) (po_arguments p) st") (auto, metis neq_Nil_conv not_None_eq)
    then show ?thesis by cases (auto simp: hoare_ret hoare_raise dest: during_acts)
  qed
  have refused: "hoare (during w st c Rs) (?check False) (\<lambda>_. acts w) (acts w)" for Rs
    by (auto simp: hoare_ret dest: during_acts)
  show ?thesis
  proof (cases "po_tool p \<in> CLUSTER_MUTATING_TOOLS")
    case False
    with checked[of "[]"] available show ?thesis by (simp add: apply_action_def required_evidence_alt)
  next
    case mutating: True
    have "hoare (\<lambda>s. if ok then state_approval_mode (pw_fmt w) st = Inr ''auto'' \<and> during w st c [] s \<or>
                        state_approval_mode (pw_fmt w) st = Inr ''approve'' \<and> during w st c [permit_for w st p] s
             else during w st c [] s) (?check ok) (\<lambda>_. acts w) (acts w)" for ok
    proof (cases ok)
      case True
      have "hoare (during w st c []) (?check True) (\<lambda>_. acts w) (acts w)" if "state_approval_mode (pw_fmt w) st = Inr ''auto''"
        using checked[of "[]"] that mutating by (simp add: required_evidence_alt)
      moreover have "hoare (during w st c [permit_for w st p]) (?check True) (\<lambda>_. acts w) (acts w)"
        if "state_approval_mode (pw_fmt w) st = Inr ''approve''"
        using checked[of "[permit_for w st p]"] that mutating by (simp add: required_evidence_alt)
      ultimately show ?thesis using True unfolding hoare_def by auto
    next
      case False
      then show ?thesis using refused[of "[]"] by simp
    qed
    from hoare_bind[OF allows_during this] mutating available show ?thesis
      by (simp add: apply_action_def)
  qed
qed

lemma step_acts: "keeps (acts w) (policy_step w c st permit)"
proof -
  have stepped: "hoare (acts w) (omap (demit (Stepped st c))) (\<lambda>_. during w st c []) (acts w)"
    by (simp add: hoare_map during_def)
  have contextual: "hoare (during w st c []) (oraised r) (\<lambda>_. during w st c []) (acts w)" for r :: "raised + string"
    by (cases r) (auto simp: hoare_ret hoare_raise dest: during_acts)
  show ?thesis
    unfolding policy_step_def
    by (rule hoare_bind[OF stepped], rule hoare_bind[OF contextual])
      (auto intro: applied_acts simp: hoare_ret dest: during_acts split: sum.split)
qed

definition start_direct :: "gate \<Rightarrow> direct" where
  "start_direct g = \<lparr>de_trace = [], de_gate = g\<rparr>"

text \<open>
  C5. Whatever the trained policy, the tools, the verifier and the operators answer, every tool that a policy
  remediation calls is the action of the completion at hand: the only call of its step, in the Kubernetes
  context that was opted into, of a registered tool that the tool policy passes; a mutation only when the
  severity allows acting alone or the gate has accepted a permit for exactly this action and incident;
  and a rollback or the end of a chaos experiment only after a live observation has confirmed its target.
\<close>

theorem policy_actions_justified:
  "acts_justified w (de_trace (snd (run_policy_remediation w state seed config n origin (start_direct g))))"
proof -
  have "acts w (start_direct g)" by (simp add: start_direct_def)
  from hoareD[OF acted.keeps_run[OF step_acts] this, of state seed config n origin] show ?thesis
    by (auto split: prod.splits sum.splits)
qed
section \<open>Permits\<close>

definition accepted_permits :: "policy_effect list \<Rightarrow> nat list" where
  "accepted_permits t =
     concat (map (\<lambda>e. case e of PermitUsed (Some p) _ _ True \<Rightarrow> [p] | _ \<Rightarrow> []) t)"

definition use_approved :: "gate \<Rightarrow> policy_effect \<Rightarrow> bool" where
  "use_approved g e = (case e of PermitUsed _ incident digest True \<Rightarrow> approved_for g incident digest | _ \<Rightarrow> True)"

definition permits_honoured :: "direct \<Rightarrow> bool" where
  "permits_honoured s \<longleftrightarrow> gate_inv (de_gate s) \<and> list_all (use_approved (de_gate s)) (de_trace s) \<and>
     distinct (accepted_permits (de_trace s)) \<and> list_all (permit_spent (de_gate s)) (accepted_permits (de_trace s))"

lemma accepted_snoc [simp]:
  "accepted_permits [] = []"
  "accepted_permits (t @ [e]) =
     accepted_permits t @ (case e of PermitUsed (Some p) _ _ True \<Rightarrow> [p] | _ \<Rightarrow> [])"
  by (simp_all add: accepted_permits_def)

lemma approved_use_extends: "gate_extends g g' \<Longrightarrow> list_all (use_approved g) t \<Longrightarrow> list_all (use_approved g') t"
  by (induction t) (auto simp: use_approved_def dest: approved_for_extends split: policy_effect.splits bool.splits)

lemma honoured_later:
  assumes "permits_honoured s"
  shows "permits_honoured (s\<lparr>de_gate := run (gate_step ff sha) (de_gate s) es\<rparr>)"
proof -
  let ?g = "run (gate_step ff sha) (de_gate s) es"
  from assms have inv: "gate_inv (de_gate s)" by (simp add: permits_honoured_def)
  have "permit_spent ?g p" if "permit_spent (de_gate s) p" for p
    using that by (induction es arbitrary: s rule: rev_induct) (simp_all add: run_append permit_spent_step del: gate_step.simps)
  moreover have "list_all (use_approved ?g) (de_trace s)"
    using assms by (intro approved_use_extends[OF approval_log.extends_run[OF inv]]) (simp add: permits_honoured_def)
  ultimately show ?thesis using assms by (simp add: permits_honoured_def approval.inv_run list_all_iff)
qed

lemma honoured_use:
  assumes "permits_honoured s" and ok: "fst (consume_action_permit t1 t2 permit i d (de_gate s)) = Inr ok"
  shows "permits_honoured (demit (PermitUsed permit i d ok)
    (s\<lparr>de_gate := gate_step ff sha (de_gate s) (Consume t1 t2 permit i d)\<rparr>))"
proof (cases ok)
  case False
  with honoured_later[OF assms(1), of ff sha "[Consume t1 t2 permit i d]"] show ?thesis
    by (auto simp: permits_honoured_def use_approved_def split: option.split)
next
  case True
  let ?g = "gate_step ff sha (de_gate s) (Consume t1 t2 permit i d)"
  from ok True obtain p where p: "permit = Some p" by (cases permit) (auto simp: consume_action_permit_def)
  with ok True have result: "fst (consume_action_permit t1 t2 (Some p) i d (de_gate s)) = Inr True" by simp
  note found = consume_result[OF this]
  from assms(1) have inv: "gate_inv (de_gate s)" by (simp add: permits_honoured_def)
  with found(1) have "permit_backed (de_gate s) (permits (de_gate s) p)" by (simp add: gate_inv_def)
  with found have "approved_for (de_gate s) i d" by (auto intro: backed_approved)
  then have "approved_for ?g i d" by (rule approved_for_extends[OF gate_step_extends])
  moreover have "\<not> permit_spent (de_gate s) p" using found(1) by (simp add: permit_spent_def)
  moreover have "permit_spent ?g p" using inv result p by (intro consuming_spends) simp_all
  ultimately show ?thesis
    using honoured_later[OF assms(1), of ff sha "[Consume t1 t2 permit i d]"] assms(1) p True
    by (auto simp: permits_honoured_def use_approved_def list_all_iff simp del: gate_step.simps)
qed

lemma honoured_plain: "permits_honoured s \<Longrightarrow> (\<And>p i d. e \<noteq> PermitUsed p i d True) \<Longrightarrow> permits_honoured (demit e s)"
  by (cases e) (auto simp: permits_honoured_def use_approved_def split: option.split bool.split)

interpretation honoured: policy_invariant w permits_honoured for w
proof unfold_locales
  show "permits_honoured (demit e s)" if "permits_honoured s" "quiet e" for s e
    using that by (intro honoured_plain) auto
qed (rule honoured_later)

interpretation honoured_steps: step_invariant w permits_honoured for w
proof unfold_locales
  show "keeps permits_honoured (use_permit w permit i d)" for permit i d
  proof -
    have "hoare permits_honoured (\<lambda>s. obind (oget (\<lambda>s. fst (consume_action_permit t1 t2 permit i d (de_gate s)))) (\<lambda>checked.
        obind (omap (\<lambda>s. s\<lparr>de_gate := gate_step (pw_ff w) (pw_sha w) (de_gate s) (Consume t1 t2 permit i d)\<rparr>)) (\<lambda>_.
        obind (olift checked) (\<lambda>accepted. obind (omap (demit (PermitUsed permit i d accepted))) (\<lambda>_. oret accepted)))) s)
      (\<lambda>_. permits_honoured) permits_honoured" for t1 t2
    proof (rule hoareI)
      fix s assume s: "permits_honoured s"
      let ?r = "fst (consume_action_permit t1 t2 permit i d (de_gate s))"
      have stepped: "permits_honoured (s\<lparr>de_gate := gate_step (pw_ff w) (pw_sha w) (de_gate s) (Consume t1 t2 permit i d)\<rparr>)"
        using honoured_later[OF s, of "pw_ff w" "pw_sha w" "[Consume t1 t2 permit i d]"] by (simp del: gate_step.simps)
      show "case obind (oget (\<lambda>s. fst (consume_action_permit t1 t2 permit i d (de_gate s)))) (\<lambda>checked.
        obind (omap (\<lambda>s. s\<lparr>de_gate := gate_step (pw_ff w) (pw_sha w) (de_gate s) (Consume t1 t2 permit i d)\<rparr>)) (\<lambda>_.
        obind (olift checked) (\<lambda>accepted. obind (omap (demit (PermitUsed permit i d accepted))) (\<lambda>_. oret accepted)))) s of
          (Inr _, s') \<Rightarrow> permits_honoured s' | (Inl _, s') \<Rightarrow> permits_honoured s'"
        using stepped honoured_use[OF s, of t1 t2 permit i d _ "pw_ff w" "pw_sha w"]
        by (cases ?r) (auto simp: obind_def oget_def omap_def olift_def oraise_def oret_def simp del: gate_step.simps)
    qed
    then show ?thesis
      unfolding use_permit_def by (intro keeps_bind[OF honoured.keeps_clock]) simp
  qed
qed (auto intro: honoured_plain)

text \<open>
  Every permit that a policy remediation gets accepted stands for a request of that incident and of exactly
  that action which an identified operator approved, and no permit is accepted twice, whatever policies,
  operators and other users of the gate do, starting from the gate of any history of calls.
\<close>

theorem policy_permits_spent_once:
  "let s = snd (run_policy_remediation w state seed config n origin (start_direct (run (gate_step ff sha) (new_gate timeout) es)))
   in list_all (use_approved (de_gate s)) (de_trace s) \<and> distinct (accepted_permits (de_trace s))"
proof -
  have "permits_honoured (start_direct (run (gate_step ff sha) (new_gate timeout) es))"
    by (simp add: start_direct_def permits_honoured_def approval.inv_run)
  from honoured_steps.run_inv[OF this] show ?thesis by (simp add: permits_honoured_def Let_def)
qed
section \<open>What is executed is what is reported\<close>

definition invoked_calls :: "policy_effect list \<Rightarrow> (string \<times> pydict) list" where
  "invoked_calls t = concat (map (\<lambda>e. case e of Invoked _ tool args \<Rightarrow> [(tool, args)] | _ \<Rightarrow> []) t)"

definition reported_calls :: "pyval list \<Rightarrow> (string \<times> pydict) list" where
  "reported_calls xs = map (\<lambda>a. (text_of (dget (as_dict a) ''tool''), as_dict (dget (as_dict a) ''arguments''))) xs"

lemma invoked_snoc [simp]:
  "invoked_calls [] = []"
  "invoked_calls (t @ [e]) = invoked_calls t @ (case e of Invoked _ tool args \<Rightarrow> [(tool, args)] | _ \<Rightarrow> [])"
  by (simp_all add: invoked_calls_def)

lemma reported_simps [simp]:
  "reported_calls [] = []" "reported_calls (xs @ ys) = reported_calls xs @ reported_calls ys"
  "reported_calls [executed_action p r] = [(po_tool p, po_arguments p)]"
  by (simp_all add: reported_calls_def executed_action_def)

abbreviation invoked_is :: "(string \<times> pydict) list \<Rightarrow> direct \<Rightarrow> bool" where
  "invoked_is xs s \<equiv> invoked_calls (de_trace s) = xs"

interpretation invoked: policy_invariant w "invoked_is xs" for w xs
  by unfold_locales (auto split: policy_effect.split)

interpretation invoked: approving_invariant w "invoked_is xs" for w xs
proof unfold_locales
  show "keeps (invoked_is xs) (use_permit w permit i d)" for permit i d
    unfolding use_permit_def by (intro keeps_bind invoked.keeps_clock keeps_map) simp_all
qed

text \<open>At most one more call than before.\<close>

definition one_more :: "(string \<times> pydict) list \<Rightarrow> direct \<Rightarrow> bool" where
  "one_more xs s \<longleftrightarrow> (\<exists>ys. invoked_calls (de_trace s) = xs @ ys \<and> length ys \<le> 1)"

definition reports :: "(string \<times> pydict) list \<Rightarrow> pydict \<Rightarrow> direct \<Rightarrow> bool" where
  "reports xs r s \<longleftrightarrow> one_more xs s \<and>
     invoked_calls (de_trace s) = xs @ reported_calls (as_list (dget r ''executed_actions''))"

lemma reports_one: "reports xs r s \<Longrightarrow> one_more xs s"
  by (simp add: reports_def)

lemma none_more: "invoked_is xs s \<Longrightarrow> one_more xs s"
  by (auto simp: one_more_def)

lemma blocked_reports [simp]: "invoked_is xs s \<Longrightarrow> reports xs (blocked_step category reason c p seen) s"
  by (auto simp: reports_def one_more_def blocked_step_def)

lemma executed_reports:
  "invoked_is (xs @ [(po_tool p, po_arguments p)]) s \<Longrightarrow> reports xs (unscorable_step c p seen r settled) s"
  "invoked_is (xs @ [(po_tool p, po_arguments p)]) s \<Longrightarrow> reports xs (scored_step c p seen r settling v) s"
  by (simp_all add: reports_def one_more_def unscorable_step_def scored_step_def Let_def)

lemma act_reports: "hoare (invoked_is xs) (act w c p st seen) (reports xs) (one_more xs)"
proof -
  let ?ys = "xs @ [(po_tool p, po_arguments p)]"
  have more: "invoked_is ?ys s \<Longrightarrow> one_more xs s" for s by (simp add: one_more_def)
  have asked: "hoare (invoked_is xs) (dask w (Invoked ctx (po_tool p) (po_arguments p)) f) (\<lambda>_. invoked_is ?ys) (one_more xs)"
    for ctx and f :: "policy_effect list \<Rightarrow> pyval answer"
    by (auto simp: dask_def hoare_def obind_def omap_def)
  have kept: "hoare (invoked_is ?ys) m (\<lambda>_. invoked_is ?ys) (one_more xs)" if "keeps (invoked_is ?ys) m" for m :: "'b dop"
    by (rule hoare_conseq[OF that]) (simp_all add: more)
  have called: "hoare (invoked_is xs) (invoke_tool w (\<lambda>ctx. Invoked ctx (po_tool p) (po_arguments p)) f) (\<lambda>_. invoked_is ?ys) (one_more xs)" for f
    unfolding invoke_tool_def
    by (cases "live_context w")
      (auto simp: hoare_raise none_more intro!: hoare_bind[OF asked] kept invoked.keeps_answered)
  have settled: "hoare (invoked_is ?ys) (score_settled w c p st seen r) (reports xs) (one_more xs)" for r
    unfolding score_settled_def
    by (rule hoare_bind[OF kept[OF invoked.keeps_settle]]) (auto simp: hoare_ret intro: executed_reports)
  have verified: "hoare (invoked_is ?ys) (score_verified w c p st seen r) (reports xs) (one_more xs)" for r
    unfolding score_verified_def
    by (rule hoare_bind[OF kept], intro keeps_bind invoked.keeps_ask invoked.keeps_answered, simp,
        rule hoare_bind[OF kept[OF invoked.keeps_verifier]], rule hoare_bind[OF kept[OF invoked.keeps_clock]],
        rule hoare_bind[OF kept[OF invoked.keeps_emit]], simp, rule hoare_bind[OF kept], simp)
      (auto simp: hoare_ret intro: executed_reports)
  have staged: "hoare (invoked_is xs) (stage_refusal w p seen) (\<lambda>_. invoked_is xs) (one_more xs)"
    by (rule hoare_conseq[OF invoked.keeps_stage], assumption, assumption, erule none_more)
  show ?thesis
    unfolding act_def
    by (rule hoare_bind[OF staged])
      (auto intro!: hoare_bind[OF called] settled verified simp: hoare_ret split: option.split)
qed

lemma step_reports: "hoare (invoked_is xs) (policy_step w c st permit) (reports xs) (one_more xs)"
proof -
  have kept: "hoare (invoked_is xs) m (\<lambda>_. invoked_is xs) (one_more xs)" if "keeps (invoked_is xs) m" for m :: "'b dop"
    by (rule hoare_conseq[OF that]) (simp_all add: none_more)
  have confirmed: "hoare (invoked_is xs) (confirm_and_act w c p st) (reports xs) (one_more xs)" for p
    unfolding confirm_and_act_def
    by (rule hoare_bind[OF kept[OF invoked.keeps_evidence]]) (auto simp: hoare_ret intro: act_reports split: sum.split)
  have applied: "hoare (invoked_is xs) (apply_action w c p st permit) (reports xs) (one_more xs)" for p
    unfolding apply_action_def
    by (auto intro!: hoare_bind[OF kept] invoked.keeps_allows confirmed simp: hoare_ret split: option.split list.split)
  show ?thesis
    unfolding policy_step_def
    by (rule hoare_bind[OF kept[OF keeps_map]], simp, rule hoare_bind[OF kept[OF invoked.keeps_raised]])
      (auto intro: applied simp: hoare_ret split: sum.split)
qed

text \<open>The loop: every round adds what its step reports, and no round follows one that was blocked.\<close>

definition told :: "policy_progress \<Rightarrow> direct \<Rightarrow> bool" where
  "told pp s \<longleftrightarrow> invoked_calls (de_trace s) = reported_calls (pp_executed pp)"

definition at_most :: "nat \<Rightarrow> direct \<Rightarrow> bool" where
  "at_most n s \<longleftrightarrow> length (invoked_calls (de_trace s)) \<le> n"

lemma rounds_report:
  "hoare (\<lambda>s. told pp s \<and> at_most k s) (policy_rounds w seed config n i pp)
     (\<lambda>pp' s. told pp' s \<and> at_most (k + n) s) (at_most (k + n))"
proof (induction n arbitrary: i k pp)
  case 0
  show ?case by (simp add: hoare_ret)
next
  case (Suc n)
  let ?xs = "reported_calls (pp_executed pp)"
  let ?P = "\<lambda>s. told pp s \<and> at_most k s"
  have kept: "hoare ?P m (\<lambda>_. ?P) (at_most (k + Suc n))" if "keeps (invoked_is ?xs) m" for m :: "'b dop"
  proof (rule hoareI)
    fix s assume "?P s"
    with hoareD[OF that, of s] show "case m s of (Inr _, s') \<Rightarrow> ?P s' | (Inl _, s') \<Rightarrow> at_most (k + Suc n) s'"
      by (auto simp: told_def at_most_def split: prod.splits sum.splits)
  qed
  have stepped: "hoare ?P (policy_step w c st permit)
      (\<lambda>r s. told (add_step st r e pp) s \<and> at_most (Suc k) s) (at_most (k + Suc n))" for c st permit e
  proof (rule hoareI)
    fix s assume "?P s"
    then have "invoked_is ?xs s" and "length ?xs \<le> k" by (auto simp: told_def at_most_def)
    with hoareD[OF step_reports this(1), of w c st permit]
    show "case policy_step w c st permit s of
        (Inr r, s') \<Rightarrow> told (add_step st r e pp) s' \<and> at_most (Suc k) s' | (Inl _, s') \<Rightarrow> at_most (k + Suc n) s'"
      by (auto simp: reports_def one_more_def told_def at_most_def add_step_def split: prod.splits sum.splits)
  qed
  have stopped: "hoare (\<lambda>s. told pp' s \<and> at_most (Suc k) s) (oret pp') (\<lambda>pp' s. told pp' s \<and> at_most (k + Suc n) s) (at_most (k + Suc n))"
    for pp' by (auto simp: hoare_ret at_most_def)
  have entry: "told (add_step st r e pp) s = told (add_step st r e' pp) s" for st r e e' s
    by (simp add: told_def add_step_def)
  have stamped: "hoare (\<lambda>s. told (add_step st r e pp) s \<and> at_most (Suc k) s) (oget g)
      (\<lambda>x s. told (add_step st r (e' x) pp) s \<and> at_most (Suc k) s) (at_most (k + Suc n))" for st r e e' g
    unfolding hoare_get using entry by blast
  have continued: "hoare (\<lambda>s. told pp' s \<and> at_most (Suc k) s) (if c then oret pp' else policy_rounds w seed config n (Suc i) pp')
      (\<lambda>pp' s. told pp' s \<and> at_most (k + Suc n) s) (at_most (k + Suc n))" for c pp'
    using stopped[of pp'] Suc.IH[of pp' "Suc k" "Suc i"] by simp
  show ?case
  proof (cases "dget (pp_state pp) ''env_resolved'' = PBool True")
    case True
    then show ?thesis by (auto simp: hoare_ret at_most_def)
  next
    case False
    show ?thesis
      by (simp only: policy_rounds.simps False if_False Let_def)
        (rule hoare_bind[OF kept], simp, rule hoare_bind[OF kept[OF invoked.keeps_generate]],
          rule hoare_bind[OF kept[OF invoked.keeps_permit]], rule hoare_bind[OF stepped], rule hoare_bind[OF stamped],
          rule continued)
  qed
qed

text \<open>
  A policy remediation calls at most as many tools as it may take actions, and what it reports as
  executed is exactly what it called, in order; when it raises, the bound still holds.
\<close>

theorem policy_reports_what_it_did:
  "case run_policy_remediation w state seed config n origin (start_direct g) of
     (Inr result, s) \<Rightarrow>
       reported_calls (as_list (dget (as_dict (dget result ''final'')) ''executed_actions'')) = invoked_calls (de_trace s) \<and>
       length (invoked_calls (de_trace s)) \<le> nat n
   | (Inl _, s) \<Rightarrow> length (invoked_calls (de_trace s)) \<le> nat n"
proof (cases "n < 1")
  case False
  let ?pp = "\<lparr>pp_state = strip_state state, pp_steps = [], pp_trajectory = [], pp_executed = []\<rparr>"
  have "told ?pp (start_direct g) \<and> at_most 0 (start_direct g)" by (simp add: told_def at_most_def start_direct_def)
  from hoareD[OF rounds_report[where w = w and seed = seed and config = config and n = "nat n" and i = 0] this] show ?thesis
    using False
    by (auto simp: run_policy_remediation_def obind_def oret_def policy_result_def told_def at_most_def
        split: prod.splits sum.splits)
qed (simp add: run_policy_remediation_def oraise_def start_direct_def)
section \<open>Scores rest on stable verifications\<close>

definition readings :: "policy_effect list \<Rightarrow> pydict list" where
  "readings t = concat (map (\<lambda>e. case e of Judged _ v \<Rightarrow> [v] | _ \<Rightarrow> []) t)"

lemma readings_append [simp]:
  "readings [] = []" "readings (e # t) = (case e of Judged _ v \<Rightarrow> [v] | _ \<Rightarrow> []) @ readings t"
  "readings (t @ u) = readings t @ readings u"
  by (simp_all add: readings_def)

definition signature_of :: "(rat \<Rightarrow> string) \<Rightarrow> pydict \<Rightarrow> string option" where
  "signature_of ff v = (case settle_observation_of ff v of Inl _ \<Rightarrow> None | Inr (signature, _) \<Rightarrow> Some signature)"


text \<open>The last two readings are conclusive and agree.\<close>

definition agreed :: "(rat \<Rightarrow> string) \<Rightarrow> pydict list \<Rightarrow> bool" where
  "agreed ff vs \<longleftrightarrow> length vs \<ge> 2 \<and> signature_of ff (last vs) \<noteq> None \<and>
     signature_of ff (last (butlast vs)) = signature_of ff (last vs)"













text \<open>What a score rests on.  A reading that decides has checks, all decided, and a verdict that agrees with them.\<close>

definition objective :: "pydict \<Rightarrow> bool" where
  "objective v \<longleftrightarrow>
     (\<exists>checks. dget v ''checks'' = PList checks \<and> checks \<noteq> [] \<and> (\<forall>c \<in> set checks. decided_check c) \<and>
        verdict_agrees v checks)"

text \<open>What the path with a settle callback asks of its one reading.\<close>

definition acceptable :: "pydict \<Rightarrow> bool" where
  "acceptable v \<longleftrightarrow>
     dget v ''verification_status'' \<noteq> PStr ''inconclusive'' \<and> dget v ''verification_status'' \<noteq> PStr ''error'' \<and>
     (dhas v ''checks'' \<longrightarrow>
        (\<exists>checks. dget v ''checks'' = PList checks \<and> checks \<noteq> [] \<and> (\<forall>c \<in> set checks. decided_check c)))"

definition backed :: "policy_world \<Rightarrow> pydict list \<Rightarrow> bool" where
  "backed w vs \<longleftrightarrow>
     vs \<noteq> [] \<and>
     (if pw_builtin_settle w
      then agreed (pw_ff w) vs \<and> length vs \<le> max_observations \<and> objective (last vs)
      else length vs = 1 \<and> acceptable (last vs))"

definition stable_score :: "policy_world \<Rightarrow> pydict list \<Rightarrow> pydict \<Rightarrow> direct \<Rightarrow> bool" where
  "stable_score w before r s \<longleftrightarrow>
     dget r ''resolved'' = dget r ''env_resolved'' \<and>
     (if dget r ''status'' = PStr ''ok'' then
        \<exists>base vs. prefix before base \<and> readings (de_trace s) = base @ vs \<and> backed w vs \<and>
          dget r ''verification'' = PDict (last vs) \<and>
          dget r ''env_resolved'' = PBool (dget (last vs) ''env_resolved'' = PBool True)
      else dget r ''env_resolved'' = PBool False \<and>
        (if dget r ''scorable'' = PBool True
         then dget r ''status'' = PStr ''blocked'' \<and> dget r ''executed_actions'' = PList [] \<and>
           dget r ''verification'' = PNone
         else dget r ''status'' = PStr ''unscorable''))"





lemma blocked_stable [simp]: "stable_score w vs (blocked_step category reason c p seen) s"
  by (simp add: stable_score_def blocked_step_def)

lemma unscorable_stable [simp]: "stable_score w vs (unscorable_step c p seen r d) s"
  by (simp add: stable_score_def unscorable_step_def)







lemma thirty_one_readings: "max_observations = 31"
  by (simp add: max_observations_def POST_ACTION_SETTLE_TIMEOUT_SECONDS_def POST_ACTION_SETTLE_POLL_INTERVAL_SECONDS_def)

end
