(* ===== verification/Kubectl.thy ===== *)
theory Kubectl
  imports Chaos
begin

text \<open>
  \<open>agents/tools/kubectl.py\<close>: the commands the tools hand to \<open>kubectl\<close>.  A tool returns the processes
  it starts, in order, and its result; how a process ends is a parameter (\<open>ke_proc\<close>).  The context of
  the incident scope (\<open>_G9_KUBECONFIG_CONTEXT\<close>) and \<open>KUBECONFIG_CONTEXT\<close> are arguments.  Arguments of
  a tool are decoded JSON, so a command line is a list of values; \<open>repr\<close> and \<open>str\<close> of values are
  parameters.
\<close>

section \<open>Processes\<close>

record invocation =
  ki_command :: "pyval list"
  ki_timeout :: int
  ki_scoped_env :: bool

datatype spawn_result =
    Completed string string int
  | TimedOut
  | SpawnFailed string

record kube_env =
  ke_scope :: "string option"
  ke_ambient :: string
  ke_proc :: "invocation \<Rightarrow> spawn_result"

type_synonym tool_run = "py_exn + (invocation list \<times> pydict)"

definition refused :: "string \<Rightarrow> tool_run" where
  "refused why = Inr ([], [(''error'', PStr why), (''success'', PBool False)])"

fun spawn_report :: "int \<Rightarrow> spawn_result \<Rightarrow> pydict" where
  "spawn_report timeout (Completed out err code) =
     [(''stdout'', PStr out), (''stderr'', PStr err), (''returncode'', PInt code),
      (''success'', PBool (code = 0))]"
| "spawn_report timeout TimedOut =
     [(''error'', PStr (''Command timed out after '' @ int_str timeout @ ''s'')), (''success'', PBool False)]"
| "spawn_report timeout (SpawnFailed why) = [(''error'', PStr why), (''success'', PBool False)]"

definition spawn :: "kube_env \<Rightarrow> pyval list \<Rightarrow> int \<Rightarrow> bool \<Rightarrow> tool_run" where
  "spawn env command timeout scoped =
     (let i = \<lparr>ki_command = command, ki_timeout = timeout, ki_scoped_env = scoped\<rparr>
      in Inr ([i], spawn_report timeout (ke_proc env i)))"

section \<open>The context of a command\<close>

text \<open>
  The contexts a command names itself: the argument after each \<open>--context\<close> (\<open>None\<close> when there is
  none) and the rest of each \<open>--context=...\<close>.  An argument that is not text has no \<open>startswith\<close>.
\<close>

fun explicit_contexts :: "pyval list \<Rightarrow> py_exn + pyval list" where
  "explicit_contexts [] = Inr []"
| "explicit_contexts (a # rest) =
     (if a = PStr ''--context'' then
        (case rest of
           [] \<Rightarrow> Inr [PNone]
         | c # rest' \<Rightarrow> rbind (explicit_contexts rest') (\<lambda>cs. Inr (c # cs)))
      else case a of
        PStr s \<Rightarrow>
          rbind (explicit_contexts rest) (\<lambda>cs.
            Inr (if starts_with s ''--context='' then PStr (after_first (CHR ''='') s) # cs else cs))
      | _ \<Rightarrow> Inl AttributeError)"

definition is_kubectl :: "pyval list \<Rightarrow> bool" where
  "is_kubectl command \<longleftrightarrow> length command > 1 \<and> hd command = PStr ''kubectl''"

definition with_context :: "string \<Rightarrow> pyval list \<Rightarrow> pyval list" where
  "with_context ctx command = [hd command, PStr ''--context'', PStr ctx] @ tl command"

definition run_scoped :: "kube_env \<Rightarrow> string \<Rightarrow> pyval list \<Rightarrow> int \<Rightarrow> tool_run" where
  "run_scoped env scope command timeout =
     (let selected = py_strip scope in
      if selected = [] then refused ''G9-scoped Kubernetes context must be a named context''
      else rbind (explicit_contexts command) (\<lambda>explicit.
        if list_ex (\<lambda>c. c \<noteq> PStr selected) explicit
        then refused ''Explicit kubectl context conflicts with the G9-scoped context''
        else spawn env (if explicit = [] then with_context selected command else command) timeout True))"

definition run_ambient :: "kube_env \<Rightarrow> pyval list \<Rightarrow> int \<Rightarrow> tool_run" where
  "run_ambient env command timeout =
     (let ambient = py_strip (ke_ambient env) in
      spawn env
        (if ambient \<noteq> [] \<and> is_kubectl command \<and> PStr ''--context'' \<notin> set command
         then with_context ambient command else command)
        timeout False)"

definition run_command :: "kube_env \<Rightarrow> pyval list \<Rightarrow> int \<Rightarrow> tool_run" where
  "run_command env command timeout =
     (case ke_scope env of
        Some scope \<Rightarrow>
          (if is_kubectl command then run_scoped env scope command timeout
           else run_ambient env command timeout)
      | None \<Rightarrow> run_ambient env command timeout)"

section \<open>Names\<close>

definition VALID_ROLLOUT_ACTIONS :: "string list" where
  "VALID_ROLLOUT_ACTIONS = [''undo'', ''status'', ''history'']"

definition VALID_ROLLOUT_KINDS :: "(string \<times> string) list" where
  "VALID_ROLLOUT_KINDS =
     [(''deployment'', ''deployment''), (''deployments'', ''deployment''), (''deploy'', ''deployment''),
      (''statefulset'', ''statefulset''), (''statefulsets'', ''statefulset''), (''sts'', ''statefulset''),
      (''daemonset'', ''daemonset''), (''daemonsets'', ''daemonset''), (''ds'', ''daemonset'')]"

text \<open>
  \<open>_K8S_NAME_RE\<close> under \<open>fullmatch\<close>, and under \<open>match\<close>, where the final \<open>$\<close> also accepts one newline
  before the end.
\<close>

definition k8s_name :: "string \<Rightarrow> bool" where
  "k8s_name s \<longleftrightarrow> safe_name s"

definition k8s_name_match :: "string \<Rightarrow> bool" where
  "k8s_name_match s \<longleftrightarrow> k8s_name s \<or> (s \<noteq> [] \<and> last s = CHR 0x0A \<and> k8s_name (butlast s))"

fun split_char :: "char \<Rightarrow> string \<Rightarrow> string list" where
  "split_char c [] = [[]]"
| "split_char c (x # xs) =
     (if x = c then [] # split_char c xs
      else case split_char c xs of [] \<Rightarrow> [[x]] | p # ps \<Rightarrow> (x # p) # ps)"

definition is_dns_subdomain :: "string \<Rightarrow> bool" where
  "is_dns_subdomain s \<longleftrightarrow> length s \<le> 253 \<and> list_all k8s_name (split_char (CHR ''.'') s)"

text \<open>\<open>canonicalize_rollout_resource\<close>: an error message or the canonical reference.\<close>

definition bad_format :: "string \<Rightarrow> bool" where
  "bad_format r \<longleftrightarrow>
     starts_with r ''-'' \<or> CHR '' '' \<in> set r \<or> CHR 0x09 \<in> set r \<or> CHR 0x0A \<in> set r"

definition canonicalize_rollout_resource :: "(pyval \<Rightarrow> string) \<Rightarrow> pyval \<Rightarrow> string + string" where
  "canonicalize_rollout_resource repr resource =
     (case resource of
        PStr raw \<Rightarrow>
          (let r = py_strip raw in
           if r = [] then Inl ''Resource must be a non-empty string''
           else if bad_format r then
             Inl (''Invalid resource format or flag injection: '' @ repr (PStr r))
           else
             (let named = (if CHR ''/'' \<in> set r then
                  (let kind_part = takeWhile (\<lambda>c. c \<noteq> CHR ''/'') r in
                   case map_of VALID_ROLLOUT_KINDS (py_lower (py_strip kind_part)) of
                     None \<Rightarrow> Inl (''Unsupported rollout resource kind '' @ [CHR 0x27] @ kind_part @ [CHR 0x27] @
                       ''. Allowed kinds: deployment, statefulset, daemonset.'')
                   | Some kind \<Rightarrow> Inr (kind, py_strip (after_first (CHR ''/'') r)))
                else Inr (''deployment'', r))
              in rbind named (\<lambda>(kind, name).
                if \<not> k8s_name_match name then
                  Inl (''Invalid Kubernetes resource name: '' @ repr (PStr name) @
                       ''. Must consist of lower-case alphanumeric characters or '' @ [CHR 0x27, CHR ''-'', CHR 0x27] @
                       '', and must start and end with an alphanumeric character.'')
                else Inr (kind @ ''/'' @ name))))
      | _ \<Rightarrow> Inl ''Resource must be a non-empty string'')"

section \<open>Reading tools\<close>

definition namespace_flag :: "pyval \<Rightarrow> pyval list" where
  "namespace_flag namespace =
     (if namespace = PStr ''-A'' then [PStr ''-A''] else [PStr ''-n'', namespace])"

text \<open>\<open>json.loads\<close> is a parameter; \<open>None\<close> stands for the \<open>JSONDecodeError\<close> that is swallowed.\<close>

definition kubectl_get ::
  "(string \<Rightarrow> pyval option) \<Rightarrow> kube_env \<Rightarrow> pyval \<Rightarrow> pyval \<Rightarrow> pyval \<Rightarrow> tool_run" where
  "kubectl_get loads env resource namespace out_format =
     rbind (run_command env
              ([PStr ''kubectl'', PStr ''get'', resource, PStr ''-o'', out_format] @ namespace_flag namespace) 30)
       (\<lambda>(calls, result).
          Inr (calls,
            if truthy (dget result ''success'') \<and> out_format = PStr ''json'' then
              (case loads (text_of (dget result ''stdout'')) of
                 Some v \<Rightarrow> AList.update ''parsed'' v result
               | None \<Rightarrow> result)
            else result))"

definition kubectl_describe :: "kube_env \<Rightarrow> pyval \<Rightarrow> pyval \<Rightarrow> pyval \<Rightarrow> tool_run" where
  "kubectl_describe env resource name namespace =
     run_command env
       [PStr ''kubectl'', PStr ''describe'', resource, name, PStr ''-n'', namespace] 30"

definition kubectl_logs ::
  "(pyval \<Rightarrow> string) \<Rightarrow> kube_env \<Rightarrow> pyval \<Rightarrow> pyval \<Rightarrow> pyval \<Rightarrow> pyval \<Rightarrow> tool_run" where
  "kubectl_logs fmt env pod namespace tail container =
     run_command env
       ([PStr ''kubectl'', PStr ''logs'', pod, PStr ''-n'', namespace, PStr (''--tail='' @ py_str fmt tail)] @
        (if truthy container then [PStr ''-c'', container] else [])) 20"

text \<open>\<open>str(result.get("stderr") or "").casefold()\<close> on the dictionaries \<open>_run\<close> returns.\<close>

definition METRICS_API_UNAVAILABLE_SIGNATURE :: string where
  "METRICS_API_UNAVAILABLE_SIGNATURE = ''metrics api not available''"

definition classify_metrics_api_result :: "pydict \<Rightarrow> pydict" where
  "classify_metrics_api_result result =
     (if contains (py_lower (text_of (dget result ''stderr''))) METRICS_API_UNAVAILABLE_SIGNATURE then
        AList.update ''error'' (PStr ''metrics-server Metrics API is not available in this cluster'')
          (AList.update ''error_class'' (PStr ''metrics_api_unavailable'')
             (AList.update ''success'' (PBool False) result))
      else result)"

definition classified :: "tool_run \<Rightarrow> tool_run" where
  "classified r = rbind r (\<lambda>(calls, result). Inr (calls, classify_metrics_api_result result))"

definition kubectl_top_pods :: "kube_env \<Rightarrow> pyval \<Rightarrow> tool_run" where
  "kubectl_top_pods env namespace =
     classified (run_command env
       ([PStr ''kubectl'', PStr ''top'', PStr ''pods''] @ namespace_flag namespace) 30)"

definition kubectl_top_nodes :: "kube_env \<Rightarrow> tool_run" where
  "kubectl_top_nodes env =
     classified (run_command env [PStr ''kubectl'', PStr ''top'', PStr ''nodes''] 30)"

section \<open>Changing tools\<close>

definition kubectl_rollout ::
  "(pyval \<Rightarrow> string) \<Rightarrow> (pyval \<Rightarrow> string) \<Rightarrow> kube_env \<Rightarrow> pyval \<Rightarrow> pyval \<Rightarrow> pyval \<Rightarrow> tool_run" where
  "kubectl_rollout repr fmt env action resource namespace =
     (if action \<notin> PStr ` set VALID_ROLLOUT_ACTIONS then
        refused (''Invalid rollout action: '' @ py_str fmt action @ ''. Must be one of '' @
                 repr (PList (map PStr VALID_ROLLOUT_ACTIONS)))
      else case canonicalize_rollout_resource repr resource of
        Inl err \<Rightarrow> refused err
      | Inr canonical \<Rightarrow>
          (case namespace of
             PStr ns \<Rightarrow>
               (if k8s_name_match (py_strip ns) then
                  run_command env
                    [PStr ''kubectl'', PStr ''rollout'', action, PStr canonical, PStr ''-n'', PStr (py_strip ns)] 60
                else refused (''Invalid namespace: '' @ repr namespace))
           | _ \<Rightarrow> refused (''Invalid namespace: '' @ repr namespace)))"

definition scale_replicas :: "pyval \<Rightarrow> int option" where
  "scale_replicas v = (case v of PInt n \<Rightarrow> if 0 \<le> n \<and> n \<le> 20 then Some n else None | _ \<Rightarrow> None)"

definition kubectl_scale ::
  "(pyval \<Rightarrow> string) \<Rightarrow> kube_env \<Rightarrow> pyval \<Rightarrow> pyval \<Rightarrow> pyval \<Rightarrow> tool_run" where
  "kubectl_scale repr env deployment replicas namespace =
     (if \<not> (is_str deployment \<and> is_dns_subdomain (text_of deployment)) then
        refused (''Invalid deployment name: '' @ repr deployment)
      else if \<not> (is_str namespace \<and> length (text_of namespace) \<le> 63 \<and> k8s_name (text_of namespace)) then
        refused (''Invalid namespace: '' @ repr namespace)
      else case scale_replicas replicas of
        None \<Rightarrow> refused ''replicas must be 0-20''
      | Some n \<Rightarrow>
          run_command env
            [PStr ''kubectl'', PStr ''scale'', PStr ''deployment'', deployment,
             PStr (''--replicas='' @ int_str n), PStr ''-n'', namespace] 30)"

definition EXEC_ALLOWLIST :: "string list" where
  "EXEC_ALLOWLIST =
     [''ls'', ''cat'', ''env'', ''ps'', ''df'', ''free'', ''netstat'', ''ss'', ''curl'', ''wget'',
      ''nslookup'', ''dig'', ''ping'', ''hostname'', ''id'', ''whoami'', ''date'', ''uptime'']"

definition not_in_allowlist :: "string \<Rightarrow> tool_run" where
  "not_in_allowlist shown =
     refused (''Command '' @ [CHR 0x27] @ shown @ [CHR 0x27] @ '' not in allowlist'')"

text \<open>
  \<open>command[0]\<close>: an unhashable first element cannot be looked up in the set, a text yields its first
  character, a dictionary has no key \<open>0\<close>, and a number cannot be indexed.
\<close>

definition kubectl_exec ::
  "(pyval \<Rightarrow> string) \<Rightarrow> kube_env \<Rightarrow> pyval \<Rightarrow> pyval \<Rightarrow> pyval \<Rightarrow> tool_run" where
  "kubectl_exec fmt env pod command namespace =
     (if \<not> truthy command then not_in_allowlist ''''
      else case command of
        PList args \<Rightarrow>
          (if is_list (hd args) \<or> is_dict (hd args) then Inl TypeError
           else if hd args \<notin> PStr ` set EXEC_ALLOWLIST then not_in_allowlist (py_str fmt (hd args))
           else run_command env
                  ([PStr ''kubectl'', PStr ''exec'', pod, PStr ''-n'', namespace, PStr ''--''] @ args) 15)
      | PStr s \<Rightarrow> not_in_allowlist [hd s]
      | PDict d \<Rightarrow> Inl KeyError
      | _ \<Rightarrow> Inl TypeError)"

section \<open>What a command may say\<close>

text \<open>
  The shapes of a command that changes the cluster, apart from the context it is sent to: no argument
  but the tools' own options starts with a dash, names are Kubernetes names, and the number of
  replicas is one of 0 to 20.
\<close>

definition without_context :: "pyval list \<Rightarrow> pyval list" where
  "without_context command =
     (case command of
        k # flag # c # rest \<Rightarrow> if flag = PStr ''--context'' then k # rest else command
      | _ \<Rightarrow> command)"

definition rollout_reference :: "string \<Rightarrow> bool" where
  "rollout_reference r \<longleftrightarrow>
     list_ex (\<lambda>kind. starts_with r (kind @ ''/'') \<and> safe_name (drop (length kind + 1) r))
       [''deployment'', ''statefulset'', ''daemonset'']"

definition bounded_change :: "pyval list \<Rightarrow> bool" where
  "bounded_change command \<longleftrightarrow>
     list_all is_str command \<and>
     (case map text_of command of
        [k, verb, kind, name, replicas, flag, ns] \<Rightarrow>
          k = ''kubectl'' \<and> verb = ''scale'' \<and> kind = ''deployment'' \<and>
          length name \<le> 253 \<and> list_all safe_name (split_char (CHR ''.'') name) \<and>
          replicas \<in> set (map (\<lambda>n. ''--replicas='' @ int_str n) [0..20]) \<and> flag = ''-n'' \<and> safe_name ns
      | [k, verb, action, ref, flag, ns] \<Rightarrow>
          k = ''kubectl'' \<and> verb = ''rollout'' \<and> action \<in> set [''undo'', ''status'', ''history''] \<and>
          rollout_reference ref \<and> flag = ''-n'' \<and> safe_name ns
      | _ \<Rightarrow> False)"

definition bounded_run :: "tool_run \<Rightarrow> bool" where
  "bounded_run r \<longleftrightarrow>
     (case r of
        Inl _ \<Rightarrow> False
      | Inr (calls, result) \<Rightarrow>
          length calls \<le> 1 \<and> list_all (\<lambda>i. bounded_change (without_context (ki_command i))) calls)"

text \<open>
  An argument that names a context, or is the option that the next argument names it for; a command
  whose arguments of that kind all name \<open>c\<close> (the argument after the option may look like one itself);
  and a process whose command is given its context by the code, which is then the only one it names.
\<close>

definition names_context :: "pyval \<Rightarrow> bool" where
  "names_context a \<longleftrightarrow> a = PStr ''--context'' \<or> (is_str a \<and> starts_with (text_of a) ''--context='')"

definition only_context :: "string \<Rightarrow> pyval list \<Rightarrow> bool" where
  "only_context c command \<longleftrightarrow>
     (\<forall>j < length command. names_context (command ! j) \<longrightarrow>
        command ! j = PStr (''--context='' @ c) \<or>
        (command ! j = PStr ''--context'' \<and> Suc j < length command \<and> command ! Suc j = PStr c) \<or>
        (0 < j \<and> command ! (j - 1) = PStr ''--context'' \<and> command ! j = PStr c))"

definition sent_to :: "string \<Rightarrow> invocation \<Rightarrow> bool" where
  "sent_to c i \<longleftrightarrow>
     c \<noteq> [] \<and> ki_scoped_env i \<and>
     (\<exists>args. ki_command i = [PStr ''kubectl'', PStr ''--context'', PStr c] @ args \<and> \<not> list_ex names_context args)"

section \<open>Lemmas\<close>

lemma k8s_name_eq: "k8s_name = safe_name"
  by (rule ext) (simp add: k8s_name_def)

lemma bounded_refused [simp]: "bounded_run (refused why)"
  by (simp add: bounded_run_def refused_def)

lemma safe_name_chars: "safe_name s \<Longrightarrow> c \<in> set s \<Longrightarrow> lower_alnum c \<or> c = CHR ''-''"
  by (auto simp: safe_name_def delimited_name_def list_all_iff)

lemma safe_name_hd: "safe_name s \<Longrightarrow> s \<noteq> [] \<and> lower_alnum (hd s)"
  by (simp add: safe_name_def delimited_name_def)

lemma not_safe_name_dash [simp]: "\<not> safe_name (CHR ''-'' # s)"
  by (auto dest!: safe_name_hd simp: lower_alnum_def)

lemma alnum_not_special:
  "lower_alnum c \<Longrightarrow> c \<noteq> CHR ''-'' \<and> c \<noteq> CHR ''/'' \<and> c \<noteq> CHR '' '' \<and> \<not> py_space c"
  by (auto simp: lower_alnum_def py_space_def Let_def)

lemma space_newline: "py_space (CHR 0x0A)"
  by (simp add: py_space_def)

text \<open>A stripped text has no final newline, so \<open>match\<close> and \<open>fullmatch\<close> agree on it.\<close>

lemma stripped_match: "k8s_name_match (py_strip s) \<longleftrightarrow> k8s_name (py_strip s)"
  using py_strip_not_space [of s] space_newline by (auto simp: k8s_name_match_def)

lemma py_strip_fixed: "\<not> py_space (hd s) \<Longrightarrow> \<not> py_space (last s) \<Longrightarrow> py_strip s = s"
  by (simp add: py_strip_def dropWhile_fixed hd_rev)

lemma safe_name_strip: "safe_name s \<Longrightarrow> py_strip s = s"
  by (rule py_strip_fixed) (auto simp: safe_name_def delimited_name_def dest: alnum_not_special)

definition plain_command :: "pyval list \<Rightarrow> bool" where
  "plain_command cmd \<longleftrightarrow> is_kubectl cmd \<and> list_all (\<lambda>a. is_str a \<and> \<not> names_context a) cmd"

lemma explicit_contexts_none:
  "explicit_contexts cmd = Inr [] \<Longrightarrow> \<not> list_ex names_context cmd"
proof (induction cmd rule: explicit_contexts.induct)
  case (2 a rest)
  then show ?case
    by (cases a) (auto simp: names_context_def rbind_eq_Inr split: if_splits list.splits)
qed simp

lemma explicit_contexts_plain: "list_all (\<lambda>a. is_str a \<and> \<not> names_context a) cmd \<Longrightarrow> explicit_contexts cmd = Inr []"
proof (induction cmd)
  case Nil
  then show ?case by simp
next
  case (Cons a rest)
  then show ?case by (cases a) (auto simp: names_context_def)
qed

lemma explicit_contexts_unnamed:
  "explicit_contexts cmd = Inr cs \<Longrightarrow> \<not> list_ex names_context cmd \<Longrightarrow> cs = []"
proof (induction cmd arbitrary: cs)
  case (Cons a rest)
  then show ?case by (cases a) (auto simp: names_context_def rbind_eq_Inr)
qed simp

lemma scoped_run:
  assumes "run_command env cmd timeout = Inr (calls, result)" and "ke_scope env = Some scope"
    and "is_kubectl cmd" and "i \<in> set calls"
  obtains explicit where "explicit_contexts cmd = Inr explicit" "ki_scoped_env i" "py_strip scope \<noteq> []"
    "set explicit \<subseteq> {PStr (py_strip scope)}"
    "ki_command i = (if explicit = [] then with_context (py_strip scope) cmd else cmd)"
  using assms
  by (auto simp: run_command_def run_scoped_def spawn_def refused_def Let_def rbind_eq_Inr list_ex_iff
      split: if_splits intro: that)

lemma with_context_sent:
  assumes "is_kubectl cmd" and "\<not> list_ex names_context cmd" and "c \<noteq> []" and "ki_scoped_env i"
    and "ki_command i = with_context c cmd"
  shows "sent_to c i"
  using assms by (cases cmd) (auto simp: sent_to_def with_context_def is_kubectl_def)

lemma plain_command_sent:
  assumes "run_command env cmd timeout = Inr (calls, result)" and "ke_scope env = Some scope"
    and "plain_command cmd" and "i \<in> set calls"
  shows "sent_to (py_strip scope) i"
proof -
  have k: "is_kubectl cmd" and p: "list_all (\<lambda>a. is_str a \<and> \<not> names_context a) cmd"
    using assms(3) by (auto simp: plain_command_def)
  from assms(1,2) k assms(4) obtain explicit where e: "explicit_contexts cmd = Inr explicit"
    and i: "ki_scoped_env i" "py_strip scope \<noteq> []"
      "ki_command i = (if explicit = [] then with_context (py_strip scope) cmd else cmd)" by (rule scoped_run)
  with explicit_contexts_plain [OF p] have "ki_command i = with_context (py_strip scope) cmd" by simp
  moreover have "\<not> list_ex names_context cmd" using p by (auto simp: list_all_iff list_ex_iff)
  ultimately show ?thesis using i k by (intro with_context_sent)
qed

lemma run_command_bounded:
  assumes "plain_command cmd" and "bounded_change cmd"
  shows "bounded_run (run_command env cmd timeout)"
proof -
  obtain v rest where cmd: "cmd = PStr ''kubectl'' # v # rest"
    using assms(1) by (cases cmd; cases "tl cmd") (auto simp: plain_command_def is_kubectl_def)
  have "v \<noteq> PStr ''--context''" using assms(1) by (auto simp: cmd plain_command_def names_context_def)
  then have "without_context cmd = cmd"
    by (cases rest) (simp_all add: cmd without_context_def)
  moreover have "without_context (with_context c cmd) = cmd" for c
    by (simp add: cmd without_context_def with_context_def)
  ultimately have "bounded_run (spawn env cmd timeout b)"
    and "bounded_run (spawn env (with_context c cmd) timeout b)" for c b
    using assms(2) by (simp_all add: bounded_run_def spawn_def Let_def)
  moreover have "explicit_contexts cmd = Inr []"
    using assms(1) by (intro explicit_contexts_plain) (simp add: plain_command_def)
  ultimately show ?thesis
    by (simp add: run_command_def run_scoped_def run_ambient_def Let_def split: option.splits)
qed

text \<open>A changing tool refuses, or runs one bounded command whose arguments name no context.\<close>

definition runs_bounded :: "kube_env \<Rightarrow> tool_run \<Rightarrow> bool" where
  "runs_bounded env r \<longleftrightarrow>
     (\<exists>why. r = refused why) \<or>
     (\<exists>cmd timeout. r = run_command env cmd timeout \<and> plain_command cmd \<and> bounded_change cmd)"

lemma runs_bounded_bounded: "runs_bounded env r \<Longrightarrow> bounded_run r"
  by (auto simp: runs_bounded_def run_command_bounded)

lemma runs_bounded_sent:
  "runs_bounded env (Inr (calls, result)) \<Longrightarrow> ke_scope env = Some scope \<Longrightarrow> i \<in> set calls \<Longrightarrow>
   sent_to (py_strip scope) i"
  unfolding runs_bounded_def
proof (elim disjE exE conjE)
  fix why
  assume "Inr (calls, result) = refused why" and "i \<in> set calls"
  then show ?thesis by (simp add: refused_def)
next
  fix cmd timeout
  assume "Inr (calls, result) = run_command env cmd timeout" and rest: "ke_scope env = Some scope" "plain_command cmd" "i \<in> set calls"
  then have "run_command env cmd timeout = Inr (calls, result)" by simp
  from plain_command_sent [OF this rest] show ?thesis .
qed

lemma after_first_option:
  "starts_with s ''--context='' \<Longrightarrow> s = ''--context='' @ after_first (CHR ''='') s"
proof -
  assume "starts_with s ''--context=''"
  then obtain rest where "s = ''--context='' @ rest"
    using append_take_drop_id [of "length ''--context=''" s] unfolding starts_with_def by metis
  then show ?thesis by (simp add: after_first_def)
qed

lemma only_context_argument:
  assumes "only_context c rest" and "names_context a \<Longrightarrow> a = PStr (''--context='' @ c)"
  shows "only_context c (a # rest)"
  unfolding only_context_def
proof (intro allI impI)
  fix j
  assume j: "j < length (a # rest)" and n: "names_context ((a # rest) ! j)"
  show "(a # rest) ! j = PStr (''--context='' @ c) \<or>
      ((a # rest) ! j = PStr ''--context'' \<and> Suc j < length (a # rest) \<and> (a # rest) ! Suc j = PStr c) \<or>
      (0 < j \<and> (a # rest) ! (j - 1) = PStr ''--context'' \<and> (a # rest) ! j = PStr c)"
  proof (cases j)
    case 0
    with n assms(2) show ?thesis by simp
  next
    case (Suc k)
    with j n assms(1) show ?thesis unfolding only_context_def by (cases k) auto
  qed
qed

lemma only_context_option:
  assumes "only_context c rest"
  shows "only_context c (PStr ''--context'' # PStr c # rest)"
  unfolding only_context_def
proof (intro allI impI)
  let ?cmd = "PStr ''--context'' # PStr c # rest"
  fix j
  assume j: "j < length ?cmd" and n: "names_context (?cmd ! j)"
  show "?cmd ! j = PStr (''--context='' @ c) \<or>
      (?cmd ! j = PStr ''--context'' \<and> Suc j < length ?cmd \<and> ?cmd ! Suc j = PStr c) \<or>
      (0 < j \<and> ?cmd ! (j - 1) = PStr ''--context'' \<and> ?cmd ! j = PStr c)"
  proof (cases j)
    case (Suc k)
    show ?thesis
    proof (cases k)
      case (Suc l)
      with \<open>j = Suc k\<close> j n assms show ?thesis unfolding only_context_def by (cases l) auto
    qed (simp add: Suc)
  qed simp
qed

lemma explicit_contexts_only:
  "explicit_contexts cmd = Inr cs \<Longrightarrow> set cs \<subseteq> {PStr c} \<Longrightarrow> only_context c cmd"
proof (induction cmd arbitrary: cs rule: explicit_contexts.induct)
  case 1
  then show ?case by (simp add: only_context_def)
next
  case (2 a rest)
  show ?case
  proof (cases "a = PStr ''--context''")
    case True
    with 2(3,4) obtain rest' cs' where r: "rest = PStr c # rest'" "explicit_contexts rest' = Inr cs'" "set cs' \<subseteq> {PStr c}"
      by (auto simp: rbind_eq_Inr split: list.splits)
    from 2(1) [OF True r] have "only_context c rest'" .
    then show ?thesis unfolding True r(1) by (rule only_context_option)
  next
    case False
    with 2(3) obtain s cs' where s: "a = PStr s" "explicit_contexts rest = Inr cs'"
      "cs = (if starts_with s ''--context='' then PStr (after_first (CHR ''='') s) # cs' else cs')"
      by (auto simp: rbind_eq_Inr split: pyval.splits)
    with 2(4) have "set cs' \<subseteq> {PStr c}" by (auto split: if_splits)
    from 2(2) [OF False s(1,2) this] have "only_context c rest" .
    moreover have "s = ''--context='' @ c" if "starts_with s ''--context=''"
      using after_first_option [OF that] s(3) 2(4) that by auto
    ultimately show ?thesis unfolding s(1) by (intro only_context_argument) (use False s(1) in \<open>auto simp: names_context_def\<close>)
  qed
qed

lemma rollout_kinds:
  "map_of VALID_ROLLOUT_KINDS k = Some kind \<Longrightarrow> kind \<in> {''deployment'', ''statefulset'', ''daemonset''}"
  by (drule map_of_SomeD) (auto simp: VALID_ROLLOUT_KINDS_def)

lemma rollout_referenceI:
  "kind \<in> {''deployment'', ''statefulset'', ''daemonset''} \<Longrightarrow> safe_name name \<Longrightarrow>
   rollout_reference (kind @ CHR ''/'' # name)"
  by (auto simp: rollout_reference_def starts_with_def)

lemma rollout_referenceE:
  assumes "rollout_reference c"
  obtains kind name where "c = kind @ ''/'' @ name" and "safe_name name"
    and "kind \<in> {''deployment'', ''statefulset'', ''daemonset''}"
proof -
  have "\<exists>kind \<in> set [''deployment'', ''statefulset'', ''daemonset''].
      starts_with c (kind @ ''/'') \<and> safe_name (drop (length kind + 1) c)"
    using assms by (simp only: rollout_reference_def list_ex_iff)
  then obtain kind where k: "kind \<in> {''deployment'', ''statefulset'', ''daemonset''}"
    and s: "starts_with c (kind @ ''/'')" and n: "safe_name (drop (length kind + 1) c)"
    unfolding list.set by blast
  from s have "take (length kind + 1) c = kind @ ''/''" by (simp add: starts_with_def)
  then have "c = kind @ ''/'' @ drop (length kind + 1) c"
    using append_take_drop_id [of "length kind + 1" c] by (metis append.assoc)
  then show ?thesis using n k by (rule that)
qed

lemma canonical_rollout_reference:
  assumes "canonicalize_rollout_resource repr v = Inr c"
  shows "rollout_reference c"
proof -
  have bare: "safe_name n \<Longrightarrow> rollout_reference (''deployment'' @ ''/'' @ n)" for n
    using rollout_referenceI [of "''deployment''" n] by simp
  from assms show ?thesis
    using bare
    by (auto simp: canonicalize_rollout_resource_def Let_def rbind_eq_Inr stripped_match k8s_name_def
             split: pyval.splits if_splits option.splits intro!: rollout_referenceI dest: rollout_kinds)
qed

lemma safe_name_no_special:
  assumes "safe_name s" and "x \<in> set s"
  shows "\<not> py_space x \<and> x \<noteq> CHR ''/''"
proof -
  have "\<not> py_space (CHR ''-'')" by (simp add: py_space_def)
  then show ?thesis using safe_name_chars [OF assms] alnum_not_special [of x] by auto
qed

lemma canonical_fixed:
  assumes kind: "kind \<in> {''deployment'', ''statefulset'', ''daemonset''}" and name: "safe_name name"
  shows "canonicalize_rollout_resource repr (PStr (kind @ ''/'' @ name)) = Inr (kind @ ''/'' @ name)"
proof -
  let ?c = "kind @ ''/'' @ name"
  have "name \<noteq> []" and "lower_alnum (last name)"
    using name by (auto simp: safe_name_def delimited_name_def)
  then have strip: "py_strip ?c = ?c"
    using kind by (intro py_strip_fixed) (auto simp: py_space_def dest: alnum_not_special)
  have "py_space (CHR 0x09)" "py_space (CHR 0x0A)" "py_space (CHR '' '')"
    by (simp_all add: py_space_def)
  then have "CHR 0x09 \<notin> set name" "CHR 0x0A \<notin> set name" "CHR '' '' \<notin> set name"
    using safe_name_no_special [OF name] by blast+
  then have fmt: "\<not> bad_format ?c"
    using kind by (auto simp: bad_format_def starts_with_def)
  have "py_strip kind = kind" "py_lower kind = kind" "map_of VALID_ROLLOUT_KINDS kind = Some kind"
    "CHR ''/'' \<notin> set kind"
    using kind by (auto simp: VALID_ROLLOUT_KINDS_def py_strip_def py_lower_def py_space_def lower_char_def)
  moreover have "takeWhile (\<lambda>c. c \<noteq> CHR ''/'') (k @ CHR ''/'' # n) = k"
    and "after_first (CHR ''/'') (k @ CHR ''/'' # n) = n" if "CHR ''/'' \<notin> set k" for k n
    using that by (auto simp: after_first_def takeWhile_append dropWhile_append)
  ultimately show ?thesis
    using strip fmt safe_name_strip [OF name] name
    by (simp add: canonicalize_rollout_resource_def Let_def k8s_name_match_def k8s_name_def)
qed

section \<open>Properties\<close>

lemma rollout_runs: "runs_bounded env (kubectl_rollout repr fmt env action resource namespace)"
proof (cases "\<exists>a c ns. action = PStr a \<and> a \<in> set VALID_ROLLOUT_ACTIONS \<and>
    canonicalize_rollout_resource repr resource = Inr c \<and> namespace = PStr ns \<and> k8s_name (py_strip ns)")
  case True
  then obtain a c ns where a: "action = PStr a" "a \<in> set VALID_ROLLOUT_ACTIONS"
    and c: "canonicalize_rollout_resource repr resource = Inr c"
    and ns: "namespace = PStr ns" "k8s_name (py_strip ns)" by blast
  let ?cmd = "[PStr ''kubectl'', PStr ''rollout'', PStr a, PStr c, PStr ''-n'', PStr (py_strip ns)]"
  obtain kind name where k: "c = kind @ ''/'' @ name" "kind \<in> {''deployment'', ''statefulset'', ''daemonset''}"
    using canonical_rollout_reference [OF c] by (rule rollout_referenceE)
  have "py_strip ns \<noteq> []" "lower_alnum (hd (py_strip ns))"
    using ns safe_name_hd by (auto simp: k8s_name_def)
  then have "\<not> starts_with (py_strip ns) ''--context''" and "\<not> starts_with (py_strip ns) ''--context=''"
    by (cases "py_strip ns"; auto simp: starts_with_def dest: alnum_not_special)+
  then have "plain_command ?cmd \<and> bounded_change ?cmd"
    using k a(2) ns(2) canonical_rollout_reference [OF c]
    by (auto simp: plain_command_def is_kubectl_def names_context_def bounded_change_def VALID_ROLLOUT_ACTIONS_def
        k8s_name_def starts_with_def)
  moreover have "kubectl_rollout repr fmt env action resource namespace = run_command env ?cmd 60"
    using a c ns by (simp add: kubectl_rollout_def stripped_match)
  ultimately show ?thesis unfolding runs_bounded_def by blast
next
  case False
  then show ?thesis
    by (auto simp: kubectl_rollout_def stripped_match runs_bounded_def split: sum.splits pyval.splits)
qed

lemma scale_runs: "runs_bounded env (kubectl_scale repr env deployment replicas namespace)"
proof (cases "\<exists>d n ns. deployment = PStr d \<and> is_dns_subdomain d \<and> scale_replicas replicas = Some n \<and>
    namespace = PStr ns \<and> k8s_name ns \<and> length ns \<le> 63")
  case True
  then obtain d n ns where d: "deployment = PStr d" "is_dns_subdomain d"
    and n: "scale_replicas replicas = Some n"
    and ns: "namespace = PStr ns" "k8s_name ns" "length ns \<le> 63" by blast
  let ?cmd = "[PStr ''kubectl'', PStr ''scale'', PStr ''deployment'', PStr d,
    PStr (''--replicas='' @ int_str n), PStr ''-n'', PStr ns]"
  have "n \<in> {0..20}" using n by (auto simp: scale_replicas_def split: pyval.splits if_splits)
  then have "''--replicas='' @ int_str n \<in> set (map (\<lambda>n. ''--replicas='' @ int_str n) [0..20])"
    by simp
  moreover have "ns \<noteq> []" "lower_alnum (hd ns)" using ns safe_name_hd by (auto simp: k8s_name_def)
  then have "\<not> starts_with ns ''--context''" and "\<not> starts_with ns ''--context=''"
    by (cases ns; auto simp: starts_with_def dest: alnum_not_special)+
  moreover have "d \<noteq> [] \<and> hd d \<noteq> CHR ''-''"
    using d(2) safe_name_hd [of "[]"]
    by (cases d) (auto simp: is_dns_subdomain_def k8s_name_def split: if_splits list.splits)
  then have "\<not> starts_with d ''--context''" and "\<not> starts_with d ''--context=''"
    by (cases d; auto simp: starts_with_def)+
  ultimately have "plain_command ?cmd \<and> bounded_change ?cmd"
    using d(2) ns(2)
    by (auto simp: plain_command_def is_kubectl_def names_context_def bounded_change_def k8s_name_eq
        is_dns_subdomain_def starts_with_def)
  moreover have "kubectl_scale repr env deployment replicas namespace = run_command env ?cmd 30"
    using d n ns by (simp add: kubectl_scale_def)
  ultimately show ?thesis unfolding runs_bounded_def by blast
next
  case False
  then show ?thesis
    by (auto simp: kubectl_scale_def runs_bounded_def split: option.splits elim!: is_str.elims)
qed

text \<open>
  C13. Whatever a model passes to the two tools that change a workload, they start at most one process,
  never raise, and the command is, apart from the context it is sent to, either a scaling of one named
  deployment to 0 to 20 replicas or an undo, status or history of one named workload; every name is a
  Kubernetes name, so nothing a caller passes is read as an option.
\<close>

theorem cluster_changes_are_bounded:
  "bounded_run (kubectl_scale repr env deployment replicas namespace) \<and>
   bounded_run (kubectl_rollout repr fmt env action resource namespace)"
  by (intro conjI runs_bounded_bounded [OF scale_runs] runs_bounded_bounded [OF rollout_runs])

text \<open>
  The canonical form of a rollout target is a fixed point: canonicalising it again, as the
  approval and the execution of an action both do, yields the same target.
\<close>

theorem canonical_target_is_stable:
  assumes "canonicalize_rollout_resource repr v = Inr c"
  shows "canonicalize_rollout_resource repr' (PStr c) = Inr c"
  using canonical_rollout_reference [OF assms] by (rule rollout_referenceE) (simp only: canonical_fixed)

theorem canonical_target_is_stable_witness:
  "canonicalize_rollout_resource (\<lambda>_. '''') (PStr ''deployment/web'') = Inr ''deployment/web''"
  by (rule canonical_target_is_stable [where v = "PStr '' Deploy/web''" and repr = "\<lambda>_. ''''"]) code_simp

section \<open>The scope of a command\<close>

text \<open>
  C25. Inside an incident scope no \<open>kubectl\<close> process is started that names another context.  A command
  that names none is given the selected one, directly after \<open>kubectl\<close>, and then names no other; a
  command that names one itself is started as it is only if every context among its arguments is the
  selected one; in both cases the process gets the scoped environment.  The two tools that change a
  workload are always of the first kind, whatever a model passes to them.  (How \<open>kubectl\<close> reads its
  arguments is not modelled: of a command of the second kind, only its arguments are described.)
\<close>

theorem scoped_commands_name_the_scope:
  assumes "ke_scope env = Some scope" and "i \<in> set calls"
  shows "(is_kubectl cmd \<and> run_command env cmd timeout = Inr (calls, result) \<longrightarrow>
      sent_to (py_strip scope) i \<or>
      ki_command i = cmd \<and> list_ex names_context cmd \<and> only_context (py_strip scope) cmd \<and> ki_scoped_env i) \<and>
    (kubectl_scale repr env deployment replicas namespace = Inr (calls, result) \<longrightarrow> sent_to (py_strip scope) i) \<and>
    (kubectl_rollout repr fmt env action resource namespace = Inr (calls, result) \<longrightarrow> sent_to (py_strip scope) i)"
proof (intro conjI impI)
  assume "is_kubectl cmd \<and> run_command env cmd timeout = Inr (calls, result)"
  then have k: "is_kubectl cmd" and r: "run_command env cmd timeout = Inr (calls, result)" by simp_all
  from r assms(1) k assms(2) obtain explicit where e: "explicit_contexts cmd = Inr explicit" "set explicit \<subseteq> {PStr (py_strip scope)}"
    and i: "ki_scoped_env i" "py_strip scope \<noteq> []"
      "ki_command i = (if explicit = [] then with_context (py_strip scope) cmd else cmd)" by (rule scoped_run)
  show "sent_to (py_strip scope) i \<or>
      ki_command i = cmd \<and> list_ex names_context cmd \<and> only_context (py_strip scope) cmd \<and> ki_scoped_env i"
  proof (cases "list_ex names_context cmd")
    case False
    then have "explicit = []" using e(1) by (auto dest: explicit_contexts_unnamed)
    with False i k show ?thesis by (intro disjI1 with_context_sent) simp_all
  next
    case True
    then have "explicit \<noteq> []" using e(1) by (auto dest: explicit_contexts_none)
    with True i explicit_contexts_only [OF e] show ?thesis by simp
  qed
next
  assume "kubectl_scale repr env deployment replicas namespace = Inr (calls, result)"
  with scale_runs [of env repr deployment replicas namespace] assms show "sent_to (py_strip scope) i"
    by (simp add: runs_bounded_sent)
next
  assume "kubectl_rollout repr fmt env action resource namespace = Inr (calls, result)"
  with rollout_runs [of env repr fmt action resource namespace] assms show "sent_to (py_strip scope) i"
    by (simp add: runs_bounded_sent)
qed

definition scoped_sample :: kube_env where
  "scoped_sample = \<lparr>ke_scope = Some ''prod'', ke_ambient = ''dev'', ke_proc = \<lambda>_. Completed '''' '''' 0\<rparr>"

theorem scoped_commands_name_the_scope_witness:
  "sent_to ''prod'' \<lparr>ki_command = [PStr ''kubectl'', PStr ''--context'', PStr ''prod'', PStr ''scale'', PStr ''deployment'',
     PStr ''web'', PStr ''--replicas=3'', PStr ''-n'', PStr ''shop''], ki_timeout = 30, ki_scoped_env = True\<rparr>" (is "sent_to _ ?i")
proof -
  have scope: "ke_scope scoped_sample = Some ''prod''" by (simp add: scoped_sample_def)
  have member: "?i \<in> set [?i]" by simp
  have run: "kubectl_scale (\<lambda>_. '''') scoped_sample (PStr ''web'') (PInt 3) (PStr ''shop'') =
      Inr ([?i], spawn_report 30 (Completed '''' '''' 0))"
    by code_simp
  have "py_strip ''prod'' = ''prod''" by code_simp
  with run scoped_commands_name_the_scope [OF scope member] show ?thesis by metis
qed

text \<open>
  A command of the second kind need not reach the selected cluster: an argument of the program that runs
  in the pod counts as the explicit context, and \<open>kubectl\<close> itself is started without one - all its own
  arguments stand before the \<open>--\<close>.  The allowlist of programs holds \<open>env\<close>, which runs any program it is
  given.
\<close>

lemma pod_argument_escapes_scope:
  "\<exists>i result. kubectl_exec fmt scoped_sample (PStr ''web-0'') (PList [PStr ''env'', PStr ''--context=prod''])
      (PStr ''default'') = Inr ([i], result) \<and>
    ki_command i = [PStr ''kubectl'', PStr ''exec'', PStr ''web-0'', PStr ''-n'', PStr ''default'', PStr ''--'',
      PStr ''env'', PStr ''--context=prod'']"
  by (simp add: kubectl_exec_def EXEC_ALLOWLIST_def scoped_sample_def run_command_def run_scoped_def
      spawn_def is_kubectl_def starts_with_def after_first_def py_strip_def py_space_def Let_def)

lemma env_runs_any_program:
  "\<exists>i result. kubectl_exec fmt scoped_sample (PStr ''web-0'') (PList (PStr ''env'' # map PStr [''rm'', ''-rf'', ''/data'']))
      (PStr ''default'') = Inr ([i], result)"
  by (simp add: kubectl_exec_def EXEC_ALLOWLIST_def scoped_sample_def run_command_def run_scoped_def
      spawn_def is_kubectl_def starts_with_def py_strip_def py_space_def Let_def)

text \<open>A process gets the scoped environment exactly when a scope is set.\<close>

lemma ambient_only_outside_scope:
  "run_command env cmd timeout = Inr (calls, result) \<Longrightarrow> is_kubectl cmd \<Longrightarrow> i \<in> set calls \<Longrightarrow>
   ki_scoped_env i \<longleftrightarrow> ke_scope env \<noteq> None"
  by (auto simp: run_command_def run_scoped_def run_ambient_def spawn_def refused_def Let_def rbind_eq_Inr
      split: option.splits if_splits)

end
