(* ===== verification/Designer.thy ===== *)
theory Designer
  imports Chaos ModelReply
begin

text \<open>
  \<open>agents/adversarial_designer.py\<close>: turning a model's proposal of a chaos scenario into bounded Chaos
  Mesh documents, and saving the proposal.  The model is a parameter that answers a prompt; \<open>loads\<close> is
  \<open>json.loads\<close> with \<open>NaN\<close> and infinities refused, \<open>dump_yaml\<close> and \<open>dump_json\<close> are the library's
  writers, \<open>sha\<close> the digest and \<open>repr\<close> Python's rendering of lists.  Every refusal is a \<open>ValueError\<close>
  whose message is the error value.
\<close>

section \<open>The vocabulary of proposals\<close>

text \<open>The actions of each kind, in alphabetical order (the code keeps sets and sorts them when shown).\<close>

definition ALLOWED_ACTIONS :: "(string \<times> string list) list" where
  "ALLOWED_ACTIONS =
     [(''PodChaos'', [''container-kill'', ''pod-failure'', ''pod-kill'']),
      (''NetworkChaos'', [''corrupt'', ''delay'', ''duplicate'', ''loss'', ''partition'']),
      (''StressChaos'', [''cpu'', ''memory'']),
      (''DNSChaos'', [''error'', ''random'']),
      (''IOChaos'', [''fault'', ''latency'']),
      (''TimeChaos'', [''offset''])]"

definition AVAILABLE_PRIMITIVES :: "string list" where
  "AVAILABLE_PRIMITIVES =
     concat (map (\<lambda>(kind, actions). map (\<lambda>action. kind @ ''('' @ action @ '')'') actions) ALLOWED_ACTIONS)"

definition SERVICES :: "string list" where
  "SERVICES =
     [''frontend'', ''cartservice'', ''checkoutservice'', ''paymentservice'', ''currencyservice'',
      ''shippingservice'', ''emailservice'', ''recommendationservice'', ''productcatalogservice'',
      ''adservice'', ''redis-cart'']"

text \<open>
  The patterns of the parameters: up to \<open>k\<close> decimal digits without a leading zero before a unit, and
  the number they denote.
\<close>

definition quantity :: "nat \<Rightarrow> string \<Rightarrow> string \<Rightarrow> nat option" where
  "quantity k unit s =
     (let d = take (length s - length unit) s in
      if d @ unit = s \<and> d \<noteq> [] \<and> length d \<le> k \<and> list_all (\<lambda>c. digit_value c \<noteq> None) d \<and> hd d \<noteq> CHR ''0''
      then read_nat d else None)"

definition within_quantity :: "nat \<Rightarrow> string \<Rightarrow> nat \<Rightarrow> string \<Rightarrow> bool" where
  "within_quantity k unit most s = (case quantity k unit s of Some n \<Rightarrow> n \<le> most | None \<Rightarrow> False)"

text \<open>\<open>SECONDS_OFFSET\<close> with its bound of 600 seconds, \<open>DURATION\<close> (1 to 15 minutes), and \<open>SCENARIO_ID\<close>.\<close>

definition bounded_offset :: "string \<Rightarrow> bool" where
  "bounded_offset s \<longleftrightarrow>
     s \<noteq> [] \<and> hd s \<in> {CHR ''+'', CHR ''-''} \<and> within_quantity 3 ''s'' 600 (tl s)"

definition valid_duration :: "string \<Rightarrow> bool" where
  "valid_duration s \<longleftrightarrow> within_quantity 2 ''m'' 15 s"

definition valid_scenario_id :: "string \<Rightarrow> bool" where
  "valid_scenario_id s \<longleftrightarrow> starts_with s ''adv-'' \<and> length (drop 4 s) \<le> 45 \<and> safe_name (drop 4 s)"

section \<open>Fields\<close>

definition invalid :: "string \<Rightarrow> string + 'a" where
  "invalid label = Inl (''Invalid adversarial '' @ label)"

definition printable_char :: "char \<Rightarrow> bool" where
  "printable_char c \<longleftrightarrow> (let n = (of_char c :: nat) in 32 \<le> n \<and> n \<le> 126)"

definition proposal_text :: "nat \<Rightarrow> string \<Rightarrow> pyval \<Rightarrow> string + pyval" where
  "proposal_text limit label v =
     (case v of
        PStr s \<Rightarrow>
          (if py_strip s = [] \<or> length s > limit \<or> \<not> list_all printable_char s then invalid label
           else Inr (PStr (py_strip s)))
      | _ \<Rightarrow> invalid label)"

definition bounded_integer :: "string \<Rightarrow> int \<Rightarrow> int \<Rightarrow> pyval \<Rightarrow> string + int" where
  "bounded_integer label minimum maximum v =
     (case v of
        PInt n \<Rightarrow> if minimum \<le> n \<and> n \<le> maximum then Inr n else invalid label
      | _ \<Rightarrow> invalid label)"

definition milliseconds :: "string \<Rightarrow> pyval \<Rightarrow> string + pyval" where
  "milliseconds label v =
     (if is_str v \<and> within_quantity 4 ''ms'' 5000 (text_of v) then Inr v else invalid label)"

definition percent :: "string \<Rightarrow> pyval \<Rightarrow> string + pyval" where
  "percent label v =
     (let decimal = (is_str v \<and> text_of v \<noteq> [] \<and> list_all (\<lambda>c. digit_value c \<noteq> None) (text_of v)) in
      if decimal \<and> length (text_of v) > 3 then invalid label
      else rbind (bounded_integer label 1 100
                    (if decimal then PInt (int (the (read_nat (text_of v)))) else v))
             (\<lambda>n. Inr (PStr (int_str n))))"

section \<open>Faults\<close>

definition allowed_params :: "string \<Rightarrow> string \<Rightarrow> string set" where
  "allowed_params kind action =
     (if kind = ''PodChaos'' \<and> action = ''container-kill'' then {''container_name''}
      else if kind = ''NetworkChaos'' \<and> action = ''delay'' then {''latency''}
      else if kind = ''NetworkChaos'' \<and> action \<in> {''loss'', ''corrupt'', ''duplicate''} then {action}
      else if kind = ''NetworkChaos'' \<and> action = ''partition'' then {''peer_service''}
      else if kind = ''StressChaos'' \<and> action = ''cpu'' then {''workers'', ''load''}
      else if kind = ''StressChaos'' \<and> action = ''memory'' then {''workers'', ''size''}
      else if kind = ''IOChaos'' \<and> action = ''fault'' then {''percent''}
      else if kind = ''IOChaos'' \<and> action = ''latency'' then {''percent'', ''delay''}
      else if kind = ''TimeChaos'' \<and> action = ''offset'' then {''offset''}
      else {}) \<union> {''duration''}"

text \<open>The parameters of each kind besides the duration, in the order the code stores them.\<close>

definition network_params :: "string \<Rightarrow> string \<Rightarrow> pydict \<Rightarrow> string + pydict" where
  "network_params action service params =
     (if action = ''delay'' then
        rbind (milliseconds ''latency'' (dget_or params ''latency'' (PStr ''1000ms''))) (\<lambda>v.
          Inr [(''latency'', v)])
      else if action \<in> {''loss'', ''corrupt'', ''duplicate''} then
        rbind (percent action (dget_or params action (PInt 30))) (\<lambda>v. Inr [(action, v)])
      else if action = ''partition'' then
        (let peer = dget params ''peer_service'' in
         if peer \<notin> PStr ` set SERVICES \<or> peer = PStr service then invalid ''peer service''
         else Inr [(''peer_service'', peer)])
      else Inr [])"

definition stress_params :: "string \<Rightarrow> pydict \<Rightarrow> string + pydict" where
  "stress_params action params =
     rbind (bounded_integer ''workers'' 1 4 (dget_or params ''workers'' (PInt 2))) (\<lambda>workers.
       if action = ''cpu'' then
         rbind (bounded_integer ''load'' 1 100 (dget_or params ''load'' (PInt 80))) (\<lambda>load.
           Inr [(''workers'', PInt workers), (''load'', PInt load)])
       else
         (let size_value = dget_or params ''size'' (PStr ''256MB'') in
          if is_str size_value \<and> within_quantity 3 ''MB'' 512 (text_of size_value)
          then Inr [(''workers'', PInt workers), (''size'', size_value)]
          else invalid ''memory size''))"

definition io_params :: "string \<Rightarrow> pydict \<Rightarrow> string + pydict" where
  "io_params action params =
     rbind (bounded_integer ''IO percent'' 1 100 (dget_or params ''percent'' (PInt 100))) (\<lambda>n.
       if action = ''latency'' then
         rbind (milliseconds ''IO delay'' (dget_or params ''delay'' (PStr ''100ms''))) (\<lambda>v.
           Inr [(''percent'', PInt n), (''delay'', v)])
       else Inr [(''percent'', PInt n)])"

definition kind_params :: "string \<Rightarrow> string \<Rightarrow> string \<Rightarrow> pydict \<Rightarrow> string + pydict" where
  "kind_params kind action service params =
     (if kind = ''PodChaos'' \<and> action = ''container-kill'' then
        (let container = dget_or params ''container_name'' (PStr service) in
         if container \<noteq> PStr service then invalid ''container name''
         else Inr [(''container_name'', container)])
      else if kind = ''NetworkChaos'' then network_params action service params
      else if kind = ''StressChaos'' then stress_params action params
      else if kind = ''IOChaos'' then io_params action params
      else if kind = ''TimeChaos'' then
        (let v = dget_or params ''offset'' (PStr ''+300s'') in
         if is_str v \<and> bounded_offset (text_of v) then Inr [(''offset'', v)]
         else invalid ''time offset'')
      else Inr [])"

definition same_keys :: "pydict \<Rightarrow> string list \<Rightarrow> bool" where
  "same_keys d ks \<longleftrightarrow> set (map fst d) = set ks"

definition known_action :: "pyval \<Rightarrow> pyval \<Rightarrow> bool" where
  "known_action kind action \<longleftrightarrow>
     is_str kind \<and> is_str action \<and>
     (case map_of ALLOWED_ACTIONS (text_of kind) of
        None \<Rightarrow> False
      | Some actions \<Rightarrow> text_of action \<in> set actions)"

definition validate_fault :: "pyval \<Rightarrow> string + pyval" where
  "validate_fault fault =
     (case fault of
        PDict f \<Rightarrow>
          (let kind = dget f ''kind''; action = dget f ''action''; service = dget f ''target_service'';
               params = dget f ''params'' in
           if \<not> same_keys f [''kind'', ''action'', ''target_service'', ''params''] then invalid ''fault fields''
           else if \<not> known_action kind action then invalid ''fault action''
           else if service \<notin> PStr ` set SERVICES then invalid ''target service''
           else if \<not> is_dict params \<or>
                   \<not> set (map fst (as_dict params)) \<subseteq> allowed_params (text_of kind) (text_of action)
           then invalid ''fault params''
           else
             (let duration = dget_or (as_dict params) ''duration'' (PStr ''10m'') in
              if \<not> (is_str duration \<and> valid_duration (text_of duration)) then invalid ''duration''
              else rbind (kind_params (text_of kind) (text_of action) (text_of service) (as_dict params))
                (\<lambda>rest.
                  Inr (PDict [(''kind'', kind), (''action'', action), (''target_service'', service),
                              (''params'', PDict ((''duration'', duration) # rest))]))))
      | _ \<Rightarrow> invalid ''fault fields'')"

section \<open>Proposals\<close>

definition SPEC_FIELDS :: "string list" where
  "SPEC_FIELDS =
     [''scenario_id'', ''title'', ''difficulty'', ''root_cause_chain'', ''red_herrings'',
      ''weakness_targeted'', ''faults'']"

definition list_between :: "nat \<Rightarrow> nat \<Rightarrow> pyval \<Rightarrow> bool" where
  "list_between least most v \<longleftrightarrow> is_list v \<and> least \<le> length (as_list v) \<and> length (as_list v) \<le> most"

definition validate_spec :: "pyval \<Rightarrow> string + pydict" where
  "validate_spec v =
     (case v of
        PDict d \<Rightarrow>
          (let scenario = dget d ''scenario_id''; difficulty = dget d ''difficulty'';
               chain = dget d ''root_cause_chain''; decoys = dget d ''red_herrings'';
               faults = dget d ''faults'' in
           if \<not> same_keys d SPEC_FIELDS then invalid ''judge response fields''
           else if \<not> (is_str scenario \<and> valid_scenario_id (text_of scenario)) then invalid ''scenario ID''
           else if difficulty \<notin> PStr ` {''hard'', ''expert'', ''extreme''} then invalid ''difficulty''
           else if \<not> list_between 2 8 chain then invalid ''root cause chain''
           else if \<not> list_between 1 4 decoys then invalid ''red herrings''
           else if \<not> list_between 2 4 faults then invalid ''fault count''
           else
             rbind (proposal_text 160 ''title'' (dget d ''title'')) (\<lambda>title.
             rbind (map_result (proposal_text 240 ''root cause'') (as_list chain)) (\<lambda>causes.
             rbind (map_result (proposal_text 240 ''red herring'') (as_list decoys)) (\<lambda>herrings.
             rbind (proposal_text 160 ''weakness'' (dget d ''weakness_targeted'')) (\<lambda>weakness.
             rbind (map_result validate_fault (as_list faults)) (\<lambda>normal.
               Inr [(''scenario_id'', scenario), (''title'', title), (''difficulty'', difficulty),
                    (''root_cause_chain'', PList causes), (''red_herrings'', PList herrings),
                    (''weakness_targeted'', weakness), (''faults'', PList normal)]))))))
      | _ \<Rightarrow> invalid ''judge response fields'')"

section \<open>Documents\<close>

text \<open>\<open>_fault_to_document\<close>; a parameter it reads and does not find is a \<open>KeyError\<close>.\<close>

definition one_of_service :: "pyval \<Rightarrow> pyval" where
  "one_of_service service =
     PDict [(''namespaces'', PList [PStr ''default'']), (''labelSelectors'', PDict [(''app'', service)])]"

definition network_spec :: "string \<Rightarrow> pyval \<Rightarrow> py_exn + pydict" where
  "network_spec action params =
     (if action = ''delay'' then
        rbind (py_key params ''latency'') (\<lambda>v.
          Inr [(''delay'', PDict [(''latency'', v), (''correlation'', PStr ''25'')])])
      else if action \<in> {''loss'', ''corrupt'', ''duplicate''} then
        rbind (py_key params action) (\<lambda>v.
          Inr [(action, PDict [(action, v), (''correlation'', PStr ''25'')])])
      else
        rbind (py_key params ''peer_service'') (\<lambda>peer.
          Inr [(''direction'', PStr ''both''),
               (''target'', PDict [(''mode'', PStr ''one''), (''selector'', one_of_service peer)])]))"

definition stress_spec :: "string \<Rightarrow> pyval \<Rightarrow> py_exn + pydict" where
  "stress_spec action params =
     (let field = (if action = ''cpu'' then ''load'' else ''size'') in
      rbind (py_key params ''workers'') (\<lambda>workers.
      rbind (py_key params field) (\<lambda>v.
        Inr [(''stressors'', PDict [(action, PDict [(''workers'', workers), (field, v)])])])))"

definition io_spec :: "string \<Rightarrow> pyval \<Rightarrow> py_exn + pydict" where
  "io_spec action params =
     rbind (py_key params ''percent'') (\<lambda>n.
     rbind (if action = ''fault'' then Inr [(''errno'', PInt 28)]
            else rbind (py_key params ''delay'') (\<lambda>v. Inr [(''delay'', v)])) (\<lambda>rest.
       Inr ([(''action'', PStr action), (''volumePath'', PStr ''/var/log''),
             (''path'', PStr ''/var/log/**''), (''percent'', n)] @ rest)))"

definition kind_spec :: "string \<Rightarrow> string \<Rightarrow> string \<Rightarrow> pyval \<Rightarrow> py_exn + pydict" where
  "kind_spec kind action service params =
     (if kind = ''PodChaos'' then
        rbind (if action = ''container-kill''
               then rbind (py_key params ''container_name'') (\<lambda>c. Inr [(''containerNames'', PList [c])])
               else Inr []) (\<lambda>rest. Inr ((''action'', PStr action) # rest))
      else if kind = ''NetworkChaos'' then
        rbind (network_spec action params) (\<lambda>rest. Inr ((''action'', PStr action) # rest))
      else if kind = ''StressChaos'' then stress_spec action params
      else if kind = ''DNSChaos'' then
        Inr [(''action'', PStr action),
             (''patterns'', PList [PStr (service @ ''.default.svc.cluster.local.'')])]
      else if kind = ''IOChaos'' then io_spec action params
      else if kind = ''TimeChaos'' then rbind (py_key params ''offset'') (\<lambda>v. Inr [(''timeOffset'', v)])
      else Inr [])"

definition fault_to_document :: "pyval \<Rightarrow> string \<Rightarrow> nat \<Rightarrow> py_exn + pyval" where
  "fault_to_document fault scenario_id index =
     rbind (py_key fault ''kind'') (\<lambda>kind.
     rbind (py_key fault ''action'') (\<lambda>action.
     rbind (py_key fault ''target_service'') (\<lambda>service.
     rbind (py_key fault ''params'') (\<lambda>params.
     rbind (py_key params ''duration'') (\<lambda>duration.
     rbind (kind_spec (text_of kind) (text_of action) (text_of service) params) (\<lambda>rest.
       Inr (PDict
         [(''apiVersion'', PStr ''chaos-mesh.org/v1alpha1''),
          (''kind'', kind),
          (''metadata'', PDict
            [(''name'', PStr (scenario_id @ ''-fault-'' @ int_str (int index))),
             (''namespace'', PStr ''chaos-mesh''),
             (''labels'', PDict
               [(''scenario'', PStr scenario_id), (''tier'', PStr ''adversarial''),
                (''generated'', PStr ''true'')])]),
          (''spec'', PDict
            ([(''mode'', PStr ''one''), (''selector'', one_of_service service), (''duration'', duration)]
             @ rest))])))))))"

fun fault_documents :: "string \<Rightarrow> nat \<Rightarrow> pyval list \<Rightarrow> py_exn + pyval list" where
  "fault_documents scenario_id index [] = Inr []"
| "fault_documents scenario_id index (fault # faults) =
     rbind (fault_to_document fault scenario_id index) (\<lambda>doc.
     rbind (fault_documents scenario_id (Suc index) faults) (\<lambda>docs. Inr (doc # docs)))"

section \<open>What the agent fails at\<close>

text \<open>
  The history has been checked before: its episodes are dictionaries with a boolean \<open>resolved\<close>, text
  \<open>tier\<close> and \<open>scenario_id\<close>, and scores that are finite numbers.
\<close>

definition score_below :: "pydict \<Rightarrow> string \<Rightarrow> bool" where
  "score_below judge k =
     (case finite_number (dget_or judge k (PInt 1)) of Some r \<Rightarrow> r < 2 / 5 | None \<Rightarrow> False)"

definition episode_weaknesses :: "pydict \<Rightarrow> string list" where
  "episode_weaknesses e =
     (let tier = text_of (dget_or e ''tier'' (PStr ''unknown''));
          scenario = py_lower (text_of (dget_or e ''scenario_id'' (PStr '''')));
          judge = as_dict (dget_or e ''judge'' (PDict [])) in
      if truthy (dget e ''resolved'') then []
      else
        (if score_below judge ''reasoning'' then [''poor evidence-gathering''] else []) @
        (if score_below judge ''efficiency'' then [''unsafe remediation shortcuts''] else []) @
        (if contains scenario ''dns'' then [''DNS failure diagnosis''] else []) @
        (if contains tier ''cascade'' then [''cascade root cause tracing''] else []) @
        (if contains scenario ''network'' then [''network partition handling''] else []) @
        (if contains scenario ''time'' then [''clock skew detection''] else []))"

definition count_up :: "(string \<times> nat) list \<Rightarrow> string \<Rightarrow> (string \<times> nat) list" where
  "count_up counts w = AList.update w ((case map_of counts w of None \<Rightarrow> 0 | Some n \<Rightarrow> n) + 1) counts"

text \<open>A stable sort by descending count; the first three.\<close>

definition extract_weaknesses :: "pydict list \<Rightarrow> string list" where
  "extract_weaknesses history =
     (let counts = foldl count_up [] (concat (map episode_weaknesses history)) in
      take 3 (map fst (sort_key (\<lambda>p. - int (snd p)) counts)))"

definition unit_score :: "pyval \<Rightarrow> bool" where
  "unit_score v \<longleftrightarrow> (case finite_number v of Some r \<Rightarrow> 0 \<le> r \<and> r \<le> 1 | None \<Rightarrow> False)"

definition lower_letter :: "char \<Rightarrow> bool" where
  "lower_letter c \<longleftrightarrow> (let n = (of_char c :: nat) in 97 \<le> n \<and> n \<le> 122)"

definition text_within :: "(char \<Rightarrow> bool) \<Rightarrow> nat \<Rightarrow> pyval \<Rightarrow> bool" where
  "text_within ok most v \<longleftrightarrow>
     is_str v \<and> text_of v \<noteq> [] \<and> length (text_of v) \<le> most \<and> list_all ok (text_of v)"

definition check_episode :: "pyval \<Rightarrow> string + pydict" where
  "check_episode v =
     (case v of
        PDict e \<Rightarrow>
          (let judge = dget_or e ''judge'' (PDict []) in
           if \<not> is_bool (dget e ''resolved'') then invalid ''failure history resolution''
           else if \<not> text_within (\<lambda>c. lower_letter c \<or> c = CHR ''_'') 40 (dget_or e ''tier'' (PStr ''unknown''))
           then invalid ''failure history tier''
           else if \<not> is_dict judge \<or>
                   list_ex (\<lambda>k. \<not> unit_score (dget_or (as_dict judge) k (PInt 1))) [''reasoning'', ''efficiency'']
           then invalid ''failure history judge''
           else if \<not> text_within (\<lambda>c. lower_alnum c \<or> c \<in> set ''_/-'') 80
                       (dget_or e ''scenario_id'' (PStr ''''))
           then invalid ''failure history scenario ID''
           else Inr e)
      | _ \<Rightarrow> invalid ''failure history'')"

definition check_history :: "pyval \<Rightarrow> string + pydict list" where
  "check_history history =
     (if \<not> is_list history \<or> length (as_list history) > 100
      then Inl ''Adversarial failure history must be a bounded list''
      else map_result check_episode (as_list history))"

section \<open>Asking the model\<close>

datatype design_exn = Refusal string | HttpFailure string | FileExists | OsFailure | Unexpected py_exn

datatype http_reply = HttpFails string | HttpBody "string list"

text \<open>The body is read in chunks and refused as soon as it would exceed 256 KiB.\<close>

fun read_body :: "string \<Rightarrow> string list \<Rightarrow> string + string" where
  "read_body body [] = Inr body"
| "read_body body (chunk # chunks) =
     (if length body + length chunk > 262144
      then Inl ''Adversarial judge HTTP response exceeds 256 KiB''
      else read_body (body @ chunk) chunks)"

definition reply_content :: "pyval \<Rightarrow> py_exn + pyval" where
  "reply_content v =
     rbind (py_key v ''choices'') (\<lambda>choices.
     rbind (py_first choices) (\<lambda>choice.
     rbind (py_key choice ''message'') (\<lambda>message. py_key message ''content'')))"

definition call_judge :: "(string \<Rightarrow> pyval option) \<Rightarrow> http_reply \<Rightarrow> design_exn + string" where
  "call_judge loads reply =
     (case reply of
        HttpFails why \<Rightarrow> Inl (HttpFailure why)
      | HttpBody chunks \<Rightarrow>
          (case read_body [] chunks of
             Inl why \<Rightarrow> Inl (Refusal why)
           | Inr body \<Rightarrow>
               (case loads body of
                  None \<Rightarrow> Inl (Refusal ''Invalid adversarial judge HTTP response'')
                | Some v \<Rightarrow>
                    (case reply_content v of
                       Inl _ \<Rightarrow> Inl (Refusal ''Invalid adversarial judge HTTP response'')
                     | Inr (PStr content) \<Rightarrow> Inr content
                     | Inr _ \<Rightarrow> Inl (Refusal ''Invalid adversarial judge HTTP content'')))))"

section \<open>The output directory\<close>

text \<open>
  What the code asks of the path it is given: whether it is absolute and a directory, for each
  component whether it is a link, a reparse point or a junction, and its resolved parts.
\<close>

record output_path =
  op_absolute :: bool
  op_directory :: bool
  op_components :: "(bool \<times> bool \<times> bool) list"
  op_resolved :: "string list"

definition validate_output_dir :: "string list \<Rightarrow> output_path \<Rightarrow> string + string list" where
  "validate_output_dir repo_root p =
     (if \<not> op_absolute p \<or> \<not> op_directory p
      then Inl ''Adversarial output must be an existing absolute directory''
      else if list_ex (\<lambda>(link, reparse, junction). link \<or> reparse \<or> junction) (op_components p)
      then Inl ''Adversarial output cannot traverse a link or junction''
      else if prefix repo_root (op_resolved p) then Inl ''Adversarial output must be outside the checkout''
      else Inr (op_resolved p))"

type_synonym directory = "(string \<times> string) list"

text \<open>
  What the operating system makes of one operation: it works, it is refused, or - for a file being
  written - it fails after part of the content, so that a partial file is there.
\<close>

datatype os_outcome = Works | Refused | Partly string

definition open_new ::
  "string \<Rightarrow> string \<Rightarrow> os_outcome \<Rightarrow> directory \<Rightarrow> design_exn option \<times> directory" where
  "open_new name content os dir =
     (if map_of dir name \<noteq> None then (Some FileExists, dir)
      else case os of
        Works \<Rightarrow> (None, dir @ [(name, content)])
      | Refused \<Rightarrow> (Some OsFailure, dir)
      | Partly part \<Rightarrow> (Some OsFailure, dir @ [(name, part)]))"

definition link_file ::
  "string \<Rightarrow> string \<Rightarrow> os_outcome \<Rightarrow> directory \<Rightarrow> design_exn option \<times> directory" where
  "link_file source target os dir =
     (if os \<noteq> Works then (Some OsFailure, dir)
      else case map_of dir source of
        None \<Rightarrow> (Some OsFailure, dir)
      | Some content \<Rightarrow>
          (if map_of dir target \<noteq> None then (Some FileExists, dir) else (None, dir @ [(target, content)])))"

text \<open>\<open>unlink(missing_ok=True)\<close>.\<close>

definition unlink_file :: "string \<Rightarrow> os_outcome \<Rightarrow> directory \<Rightarrow> design_exn option \<times> directory" where
  "unlink_file name os dir =
     (if os \<noteq> Works then (Some OsFailure, dir) else (None, AList.delete name dir))"

text \<open>
  Statements one after another until one raises; the \<open>i\<close>th operation of a save meets \<open>os i\<close>.
\<close>

fun attempt :: "(nat \<Rightarrow> os_outcome) \<Rightarrow> nat \<Rightarrow> (os_outcome \<Rightarrow> directory \<Rightarrow> design_exn option \<times> directory) list \<Rightarrow>
    directory \<Rightarrow> design_exn option \<times> directory" where
  "attempt os i [] dir = (None, dir)"
| "attempt os i (s # ss) dir =
     (case s (os i) dir of
        (Some e, dir') \<Rightarrow> (Some e, dir')
      | (None, dir') \<Rightarrow> attempt os (Suc i) ss dir')"

definition temp_name :: "string \<Rightarrow> string \<Rightarrow> string \<Rightarrow> string" where
  "temp_name scenario_id unique ext = ''.'' @ scenario_id @ ''.'' @ unique @ ''.'' @ ext @ ''.tmp''"

text \<open>
  The four steps of saving, and the \<open>finally\<close> block that unlinks the two temporary files: an error
  of an unlink stops the block and replaces the outcome of the body.
\<close>

definition save_proposal ::
  "(nat \<Rightarrow> os_outcome) \<Rightarrow> string \<Rightarrow> string \<Rightarrow> string \<Rightarrow> string \<Rightarrow> directory \<Rightarrow> design_exn option \<times> directory" where
  "save_proposal os scenario_id unique manifest metadata dir =
     (let tm = temp_name scenario_id unique ''yaml''; tj = temp_name scenario_id unique ''json'';
          (e, dir') = attempt os 0
            [open_new tm manifest, open_new tj metadata,
             link_file tj (scenario_id @ ''.json''), link_file tm (scenario_id @ ''.yaml'')] dir
      in case attempt os 4 [unlink_file tm, unlink_file tj] dir' of
           (Some e', dir'') \<Rightarrow> (Some e', dir'')
         | (None, dir'') \<Rightarrow> (e, dir''))"

section \<open>Designing a scenario\<close>

record designer =
  dz_root :: "string list"
  dz_loads :: "string \<Rightarrow> pyval option"
  dz_yaml :: "pyval list \<Rightarrow> string"
  dz_json :: "pyval \<Rightarrow> string"
  dz_sha :: "string \<Rightarrow> string"
  dz_repr :: "pyval \<Rightarrow> string"
  dz_model :: string

text \<open>What differs from one call to the next: the model's answer, the clock, the suffix, the operating system.\<close>

record design_call =
  dc_reply :: "string \<Rightarrow> http_reply"
  dc_now :: string
  dc_suffix :: string
  dc_os :: "nat \<Rightarrow> os_outcome"

definition design_prompt :: "designer \<Rightarrow> pydict list \<Rightarrow> string list \<Rightarrow> string" where
  "design_prompt z history weaknesses =
     (let names = (\<lambda>xs. dz_repr z (PList (map PStr xs)));
          failed = map (\<lambda>e. text_of (dget_or e ''scenario_id'' (PStr '''')))
                     (filter (\<lambda>e. \<not> truthy (dget e ''resolved'')) history);
          n = length history in
      join [CHR 0x0A]
        [''Agent failure history summary:'',
         ''- Failed scenarios: '' @ names failed,
         ''- Top weaknesses identified: '' @ names weaknesses,
         ''- Total episodes analysed: '' @ int_str (int n),
         '''',
         ''Available fault primitives: '' @ names AVAILABLE_PRIMITIVES,
         ''Available target services: '' @ names SERVICES,
         '''',
         ''Design a NEW adversarial chaos scenario that specifically targets: '' @
           (case weaknesses of [] \<Rightarrow> ''general multi-fault handling'' | w # _ \<Rightarrow> w),
         '''',
         ''Make it '' @ (if n > 20 then ''extreme'' else if n > 10 then ''expert'' else ''hard'') @
           '' difficulty.''])"

definition proposal_metadata ::
  "designer \<Rightarrow> design_call \<Rightarrow> pydict \<Rightarrow> string list \<Rightarrow> string \<Rightarrow> string \<Rightarrow> string \<Rightarrow> pydict" where
  "proposal_metadata z c spec weaknesses raw prompt manifest =
     spec @
     [(''generated_at'', PStr (dc_now c)),
      (''weaknesses_targeted'', PList (map PStr weaknesses)),
      (''judge_model_requested'', PStr (dz_model z)),
      (''model_identity_status'', PStr ''unverified_alias''),
      (''judge_response_sha256'', PStr (dz_sha z raw)),
      (''prompt_sha256'', PStr (dz_sha z prompt)),
      (''manifest_sha256'', PStr (dz_sha z manifest)),
      (''evidence_classification'', PStr ''GENERATED_UNAPPROVED''),
      (''empirical_claim_allowed'', PBool False),
      (''execution_authorized'', PBool False)]"

definition read_proposal :: "designer \<Rightarrow> string \<Rightarrow> string + pydict" where
  "read_proposal z raw =
     (if length raw > 65536 then Inl ''Invalid adversarial judge response size''
      else case dz_loads z raw of
        None \<Rightarrow> Inl ''Invalid adversarial judge response''
      | Some v \<Rightarrow> validate_spec v)"

definition refusing :: "string + 'a \<Rightarrow> design_exn + 'a" where
  "refusing r = (case r of Inl why \<Rightarrow> Inl (Refusal why) | Inr a \<Rightarrow> Inr a)"

definition unexpected :: "py_exn + 'a \<Rightarrow> design_exn + 'a" where
  "unexpected r = (case r of Inl e \<Rightarrow> Inl (Unexpected e) | Inr a \<Rightarrow> Inr a)"

definition fault_to_yaml :: "(pyval \<Rightarrow> string) \<Rightarrow> pyval \<Rightarrow> pyval \<Rightarrow> pyval \<Rightarrow> design_exn + string" where
  "fault_to_yaml dump fault scenario_id index =
     (if \<not> (is_str scenario_id \<and> valid_scenario_id (text_of scenario_id)) then
        Inl (Refusal ''Invalid adversarial scenario ID'')
      else
        rbind (refusing (rbind (bounded_integer ''fault index'' 0 3 index) (\<lambda>i.
                 rbind (validate_fault fault) (\<lambda>f. Inr (i, f))))) (\<lambda>(i, f).
        rbind (unexpected (fault_to_document f (text_of scenario_id) (nat i))) (\<lambda>doc. Inr (dump doc))))"

text \<open>Everything before the directory is touched: the scenario's name, its manifest and its metadata.\<close>

definition compose_proposal ::
  "designer \<Rightarrow> design_call \<Rightarrow> pyval \<Rightarrow> design_exn + (string \<times> pyval list \<times> pydict)" where
  "compose_proposal z c history =
     rbind (refusing (check_history history)) (\<lambda>episodes.
       let weaknesses = extract_weaknesses episodes; prompt = design_prompt z episodes weaknesses in
       rbind (call_judge (dz_loads z) (dc_reply c prompt)) (\<lambda>raw.
       rbind (refusing (read_proposal z raw)) (\<lambda>spec.
       let scenario_id = text_of (dget spec ''scenario_id'') in
       rbind (unexpected (fault_documents scenario_id 0 (as_list (dget spec ''faults'')))) (\<lambda>docs.
         Inr (scenario_id, docs,
              proposal_metadata z c spec weaknesses raw prompt (dz_yaml z docs))))))"

definition design_result :: "string list \<Rightarrow> string \<Rightarrow> pydict \<Rightarrow> pydict" where
  "design_result destination scenario_id metadata =
     [(''scenario_id'', PStr scenario_id),
      (''manifest_path'', PStr (join ''/'' (destination @ [scenario_id @ ''.yaml'']))),
      (''metadata_path'', PStr (join ''/'' (destination @ [scenario_id @ ''.json'']))),
      (''spec'', PDict metadata)]"

definition design_scenario ::
  "designer \<Rightarrow> design_call \<Rightarrow> pyval \<Rightarrow> output_path \<Rightarrow> directory \<Rightarrow> (design_exn + pydict) \<times> directory" where
  "design_scenario z c history p dir =
     (case refusing (validate_output_dir (dz_root z) p) of
        Inl e \<Rightarrow> (Inl e, dir)
      | Inr destination \<Rightarrow>
          (case compose_proposal z c history of
             Inl e \<Rightarrow> (Inl e, dir)
           | Inr (scenario_id, docs, metadata) \<Rightarrow>
               (if map_of dir (scenario_id @ ''.yaml'') \<noteq> None \<or> map_of dir (scenario_id @ ''.json'') \<noteq> None
                then (Inl FileExists, dir)
                else
                  (let (e, dir') = save_proposal (dc_os c) scenario_id (dc_suffix c) (dz_yaml z docs)
                                     (dz_json z (PDict metadata)) dir
                   in case e of
                        Some e \<Rightarrow> (Inl e, dir')
                      | None \<Rightarrow> (Inr (design_result destination scenario_id metadata), dir')))))"

fun design_many ::
  "designer \<Rightarrow> design_call list \<Rightarrow> pyval \<Rightarrow> output_path \<Rightarrow> directory \<Rightarrow>
   (design_exn + pydict list) \<times> directory" where
  "design_many z [] history p dir = (Inr [], dir)"
| "design_many z (c # cs) history p dir =
     (case design_scenario z c history p dir of
        (Inl e, dir') \<Rightarrow> (Inl e, dir')
      | (Inr result, dir') \<Rightarrow>
          (case design_many z cs history p dir' of
             (Inl e, dir'') \<Rightarrow> (Inl e, dir'')
           | (Inr results, dir'') \<Rightarrow> (Inr (result # results), dir'')))"

text \<open>\<open>calls i\<close> is what the \<open>i\<close>th scenario of the batch meets.\<close>

definition design_batch ::
  "designer \<Rightarrow> (nat \<Rightarrow> design_call) \<Rightarrow> pyval \<Rightarrow> pyval \<Rightarrow> output_path \<Rightarrow> directory \<Rightarrow>
   (design_exn + pydict list) \<times> directory" where
  "design_batch z calls history batch p dir =
     (case batch of
        PInt n \<Rightarrow>
          (if 1 \<le> n \<and> n \<le> 10 then
             (case refusing (validate_output_dir (dz_root z) p) of
                Inl e \<Rightarrow> (Inl e, dir)
              | Inr _ \<Rightarrow> design_many z (map calls [0..<nat n]) history p dir)
           else (Inl (Refusal ''Adversarial batch count must be from 1 to 10''), dir))
      | _ \<Rightarrow> (Inl (Refusal ''Adversarial batch count must be from 1 to 10''), dir))"

section \<open>A validated proposal is in normal form\<close>

lemma map_result_fixed:
  "(\<And>x y. f x = Inr y \<Longrightarrow> f y = Inr y) \<Longrightarrow> map_result f xs = Inr ys \<Longrightarrow> map_result f ys = Inr ys"
  by (induction xs arbitrary: ys) (auto simp: rbind_eq_Inr)

lemma set_py_strip: "set (py_strip s) \<subseteq> set s"
  unfolding py_strip_def by (metis set_dropWhileD set_rev subsetI)

lemma length_py_strip: "length (py_strip s) \<le> length s"
  unfolding py_strip_def by (metis length_dropWhile_le length_rev order_trans)

lemma proposal_text_fixed: "proposal_text limit label v = Inr w \<Longrightarrow> proposal_text limit label w = Inr w"
proof (cases v)
  case (PStr s)
  assume "proposal_text limit label v = Inr w"
  with PStr have "w = PStr (py_strip s)" "py_strip s \<noteq> []" "length s \<le> limit" "list_all printable_char s"
    by (auto simp: proposal_text_def invalid_def split: if_splits)
  with set_py_strip [of s] length_py_strip [of s] show ?thesis
    by (auto simp: proposal_text_def list_all_iff)
qed (auto simp: proposal_text_def invalid_def)

lemma bounded_integer_iff:
  "bounded_integer label lo hi v = Inr n \<longleftrightarrow> v = PInt n \<and> lo \<le> n \<and> n \<le> hi"
  by (auto simp: bounded_integer_def invalid_def split: pyval.splits if_splits)

lemma milliseconds_iff:
  "milliseconds label v = Inr w \<longleftrightarrow> w = v \<and> is_str v \<and> within_quantity 4 ''ms'' 5000 (text_of v)"
  by (auto simp: milliseconds_def invalid_def split: if_splits)

text \<open>Decimal text reads back as the number it was written from.\<close>

lemma digit_value_of_digit: "k < 10 \<Longrightarrow> digit_value (char_of (48 + k)) = Some k" for k :: nat
  by (simp add: digit_value_def Let_def)

lemma nat_digits_are_digits: "list_all (\<lambda>c. digit_value c \<noteq> None) (nat_digits n) \<and> nat_digits n \<noteq> []"
proof (induction n rule: nat_digits.induct)
  case (1 n)
  then show ?case
    by (subst (1 2) nat_digits.simps) (auto simp: digit_value_of_digit)
qed

lemma read_digits_snoc:
  "list_all (\<lambda>c. digit_value c \<noteq> None) s \<Longrightarrow> digit_value c = Some d \<Longrightarrow>
   read_digits acc (s @ [c]) = map_option (\<lambda>m. 10 * m + d) (read_digits acc s)"
  by (induction s arbitrary: acc) auto

lemma read_digits_nat_digits: "read_digits 0 (nat_digits n) = Some n"
proof (induction n rule: nat_digits.induct)
  case (1 n)
  then show ?case
    using nat_digits_are_digits [of "n div 10"]
    by (subst nat_digits.simps) (auto simp: digit_value_of_digit read_digits_snoc)
qed

lemma read_nat_digits: "read_nat (nat_digits n) = Some n"
  using nat_digits_are_digits [of n] read_digits_nat_digits [of n]
  by (auto simp: read_nat_def split: list.splits)

lemma length_nat_digits: "n < 1000 \<Longrightarrow> length (nat_digits n) \<le> 3"
proof -
  assume "n < 1000"
  then have "n div 10 div 10 < 10" by simp
  then have "length (nat_digits (n div 10 div 10)) = 1" by (subst nat_digits.simps) simp
  then have "length (nat_digits (n div 10)) \<le> 2" by (subst nat_digits.simps) auto
  then show ?thesis by (subst nat_digits.simps) auto
qed

lemma percent_fixed: "percent label v = Inr w \<Longrightarrow> percent label w = Inr w"
proof -
  assume "percent label v = Inr w"
  then obtain n where n: "w = PStr (int_str n)" "1 \<le> n" "n \<le> 100"
    by (auto simp: percent_def Let_def rbind_eq_Inr bounded_integer_iff invalid_def split: if_splits)
  then have w: "w = PStr (nat_digits (nat n))" by (simp add: int_str_def)
  have len: "length (nat_digits (nat n)) \<le> 3" using n by (intro length_nat_digits) simp
  have "percent label (PStr s) = rbind (bounded_integer label 1 100 (PInt (int m))) (\<lambda>n. Inr (PStr (int_str n)))"
    if "s \<noteq> []" "list_all (\<lambda>c. digit_value c \<noteq> None) s" "length s \<le> 3" "read_nat s = Some m" for s m
    using that by (simp add: percent_def)
  from this [OF _ _ len read_nat_digits] nat_digits_are_digits [of "nat n"]
  have "percent label w = rbind (bounded_integer label 1 100 (PInt n)) (\<lambda>n. Inr (PStr (int_str n)))"
    using n(2) w by simp
  then show ?thesis using n by (simp add: bounded_integer_def)
qed

lemma is_str_text: "is_str v \<longleftrightarrow> v = PStr (text_of v)"
  by (cases v) auto

lemma network_params_fixed:
  assumes "network_params action service params = Inr rest"
  shows "network_params action service ((''duration'', v) # rest) = Inr rest"
proof -
  consider "action = ''delay''" | "action \<in> {''loss'', ''corrupt'', ''duplicate''}" | "action = ''partition''"
    | "action \<notin> {''delay'', ''loss'', ''corrupt'', ''duplicate'', ''partition''}" by blast
  then show ?thesis
  proof cases
    case 1
    with assms show ?thesis by (auto simp: network_params_def rbind_eq_Inr milliseconds_iff)
  next
    case 2
    then have n: "action \<noteq> ''delay''" "action \<noteq> ''duration''" by auto
    with 2 assms obtain w where "percent action (dget_or params action (PInt 30)) = Inr w" "rest = [(action, w)]"
      by (simp only: network_params_def rbind_eq_Inr if_True if_False sum.inject) blast
    moreover from this(1) have "percent action w = Inr w" by (rule percent_fixed)
    ultimately show ?thesis using 2 n
      by (simp only: network_params_def if_True if_False dget_or_simps not_sym [OF n(2)] simp_thms rbind_simps)
  next
    case 3
    then have a: "network_params action service ps =
        (if dget ps ''peer_service'' \<notin> PStr ` set SERVICES \<or> dget ps ''peer_service'' = PStr service
         then invalid ''peer service'' else Inr [(''peer_service'', dget ps ''peer_service'')])" for ps
      by (simp add: network_params_def)
    with assms show ?thesis by (simp only: a invalid_def split: if_split_asm) auto
  next
    case 4
    with assms show ?thesis by (simp add: network_params_def)
  qed
qed

lemma stress_params_fixed:
  "stress_params action params = Inr rest \<Longrightarrow> stress_params action ((''duration'', v) # rest) = Inr rest"
  by (cases "action = ''cpu''")
    (auto simp: stress_params_def rbind_eq_Inr bounded_integer_iff invalid_def Let_def split: if_split_asm)

lemma io_params_fixed:
  "io_params action params = Inr rest \<Longrightarrow> io_params action ((''duration'', v) # rest) = Inr rest"
  by (auto simp: io_params_def rbind_eq_Inr bounded_integer_iff milliseconds_iff split: if_splits)

lemma kind_params_fixed:
  "kind_params kind action service params = Inr rest \<Longrightarrow>
   kind_params kind action service ((''duration'', v) # rest) = Inr rest"
  by (auto simp: kind_params_def invalid_def Let_def split: if_splits
      dest: network_params_fixed stress_params_fixed io_params_fixed)

lemma known_actionE:
  assumes "known_action kind action"
  obtains k a actions where "kind = PStr k" "action = PStr a" "(k, actions) \<in> set ALLOWED_ACTIONS" "a \<in> set actions"
  using assms by (auto simp: known_action_def is_str_text split: option.splits dest: map_of_SomeD)

lemma network_params_keys:
  "network_params a s p = Inr rest \<Longrightarrow> set (map fst rest) \<subseteq>
     (if a = ''delay'' then {''latency''} else if a \<in> {''loss'', ''corrupt'', ''duplicate''} then {a}
      else if a = ''partition'' then {''peer_service''} else {})"
proof -
  assume r: "network_params a s p = Inr rest"
  show ?thesis
  proof (cases "a = ''delay''")
    case True
    with r show ?thesis by (auto simp: network_params_def rbind_eq_Inr)
  next
    case d: False
    show ?thesis
    proof (cases "a \<in> {''loss'', ''corrupt'', ''duplicate''}")
      case True
      with r d show ?thesis
        by (simp only: network_params_def if_True if_False rbind_eq_Inr) auto
    next
      case False
      with r d show ?thesis
        by (simp only: network_params_def if_True if_False Let_def invalid_def split: if_split_asm) auto
    qed
  qed
qed

lemma stress_params_keys:
  "stress_params a p = Inr rest \<Longrightarrow>
   set (map fst rest) \<subseteq> (if a = ''cpu'' then {''workers'', ''load''} else {''workers'', ''size''})"
  by (auto simp: stress_params_def Let_def invalid_def rbind_eq_Inr split: if_splits)

lemma io_params_keys:
  "io_params a p = Inr rest \<Longrightarrow>
   set (map fst rest) \<subseteq> (if a = ''latency'' then {''percent'', ''delay''} else {''percent''})"
  by (auto simp: io_params_def rbind_eq_Inr split: if_splits)

definition param_keys :: "string \<Rightarrow> string \<Rightarrow> string set" where
  "param_keys k a =
     (if k = ''PodChaos'' \<and> a = ''container-kill'' then {''container_name''}
      else if k = ''NetworkChaos'' then
        (if a = ''delay'' then {''latency''} else if a \<in> {''loss'', ''corrupt'', ''duplicate''} then {a}
         else if a = ''partition'' then {''peer_service''} else {})
      else if k = ''StressChaos'' then
        (if a = ''cpu'' then {''workers'', ''load''} else {''workers'', ''size''})
      else if k = ''IOChaos'' then (if a = ''latency'' then {''percent'', ''delay''} else {''percent''})
      else if k = ''TimeChaos'' then {''offset''} else {})"

lemma kind_params_keys: "kind_params k a s p = Inr rest \<Longrightarrow> set (map fst rest) \<subseteq> param_keys k a"
  using network_params_keys [of a s p rest] stress_params_keys [of a p rest] io_params_keys [of a p rest]
  unfolding param_keys_def kind_params_def Let_def invalid_def
  by (simp only: split: if_split_asm) auto

lemma listed_actions:
  "list_all (\<lambda>(k, actions). list_all (\<lambda>a. known_action (PStr k) (PStr a) \<and>
     (\<forall>x \<in> param_keys k a. x \<in> allowed_params k a)) actions) ALLOWED_ACTIONS"
  by code_simp

lemma kind_params_allowed:
  assumes "kind_params k a service params = Inr rest" and "(k, actions) \<in> set ALLOWED_ACTIONS" and "a \<in> set actions"
  shows "set (map fst rest) \<subseteq> allowed_params k a"
proof -
  have "\<forall>x \<in> param_keys k a. x \<in> allowed_params k a"
    using listed_actions assms(2,3) unfolding list_all_iff by blast
  with kind_params_keys [OF assms(1)] show ?thesis by blast
qed

text \<open>What validation guarantees of a fault, over its text fields.\<close>

lemma validate_faultE:
  assumes "validate_fault v = Inr w"
  obtains k a actions s params d rest where
    "w = PDict [(''kind'', PStr k), (''action'', PStr a), (''target_service'', PStr s),
                (''params'', PDict ((''duration'', PStr d) # rest))]"
    and "(k, actions) \<in> set ALLOWED_ACTIONS" and "a \<in> set actions" and "s \<in> set SERVICES"
    and "valid_duration d" and "kind_params k a s params = Inr rest"
proof -
  from assms obtain kind action service duration params rest where
    w: "w = PDict [(''kind'', kind), (''action'', action), (''target_service'', service),
                (''params'', PDict ((''duration'', duration) # rest))]"
    and ka: "known_action kind action" and s: "service \<in> PStr ` set SERVICES"
    and d: "is_str duration" "valid_duration (text_of duration)"
    and r: "kind_params (text_of kind) (text_of action) (text_of service) params = Inr rest"
    by (auto simp: validate_fault_def rbind_eq_Inr Let_def invalid_def split: pyval.splits if_splits)
  from ka obtain k a actions where "kind = PStr k" "action = PStr a"
    "(k, actions) \<in> set ALLOWED_ACTIONS" "a \<in> set actions" by (rule known_actionE)
  moreover obtain t where "service = PStr t" "t \<in> set SERVICES" using s by blast
  ultimately show ?thesis
    using w d r is_str_text [of duration] by (intro that) auto
qed

lemma known_action_listed:
  "(k, actions) \<in> set ALLOWED_ACTIONS \<Longrightarrow> a \<in> set actions \<Longrightarrow> known_action (PStr k) (PStr a)"
  using listed_actions unfolding list_all_iff by blast

lemma validate_fault_fixed: "validate_fault v = Inr w \<Longrightarrow> validate_fault w = Inr w"
  by (elim validate_faultE)
    (use kind_params_fixed kind_params_allowed known_action_listed in
      \<open>auto simp: validate_fault_def same_keys_def allowed_params_def\<close>)

lemma validate_specE:
  assumes "validate_spec v = Inr spec"
  obtains scenario title difficulty causes herrings weakness faults chain decoys drafts where
    "spec = [(''scenario_id'', PStr scenario), (''title'', title), (''difficulty'', difficulty),
             (''root_cause_chain'', PList causes), (''red_herrings'', PList herrings),
             (''weakness_targeted'', weakness), (''faults'', PList faults)]"
    and "valid_scenario_id scenario" and "difficulty \<in> PStr ` {''hard'', ''expert'', ''extreme''}"
    and "2 \<le> length causes" "length causes \<le> 8" and "1 \<le> length herrings" "length herrings \<le> 4"
    and "2 \<le> length faults" "length faults \<le> 4"
    and "\<exists>t. proposal_text 160 ''title'' t = Inr title"
    and "map_result (proposal_text 240 ''root cause'') chain = Inr causes"
    and "map_result (proposal_text 240 ''red herring'') decoys = Inr herrings"
    and "\<exists>t. proposal_text 160 ''weakness'' t = Inr weakness"
    and "map_result validate_fault drafts = Inr faults"
proof -
  from assms obtain d where d: "v = PDict d" by (cases v) (auto simp: validate_spec_def invalid_def)
  let ?chain = "as_list (dget d ''root_cause_chain'')" and ?decoys = "as_list (dget d ''red_herrings'')"
    and ?drafts = "as_list (dget d ''faults'')"
  from assms obtain title causes herrings weakness faults where r:
      "is_str (dget d ''scenario_id'')" "valid_scenario_id (text_of (dget d ''scenario_id''))"
      "dget d ''difficulty'' \<in> PStr ` {''hard'', ''expert'', ''extreme''}"
      "2 \<le> length ?chain" "length ?chain \<le> 8" "1 \<le> length ?decoys" "length ?decoys \<le> 4"
      "2 \<le> length ?drafts" "length ?drafts \<le> 4"
      "proposal_text 160 ''title'' (dget d ''title'') = Inr title"
      "map_result (proposal_text 240 ''root cause'') ?chain = Inr causes"
      "map_result (proposal_text 240 ''red herring'') ?decoys = Inr herrings"
      "proposal_text 160 ''weakness'' (dget d ''weakness_targeted'') = Inr weakness"
      "map_result validate_fault ?drafts = Inr faults"
    and spec: "spec = [(''scenario_id'', dget d ''scenario_id''), (''title'', title), (''difficulty'', dget d ''difficulty''),
             (''root_cause_chain'', PList causes), (''red_herrings'', PList herrings),
             (''weakness_targeted'', weakness), (''faults'', PList faults)]"
    unfolding d validate_spec_def Let_def list_between_def invalid_def pyval.case
    by (simp only: split: if_split_asm) (auto simp only: rbind_eq_Inr sum.inject sum.distinct)
  have "length causes = length ?chain" "length herrings = length ?decoys" "length faults = length ?drafts"
    using r by (auto dest: map_result_length)
  moreover have "dget d ''scenario_id'' = PStr (text_of (dget d ''scenario_id''))"
    using r(1) by (simp only: is_str_text [symmetric])
  ultimately show ?thesis
    using r spec by (intro that [of "text_of (dget d ''scenario_id'')"]) (simp_all, blast+)
qed

lemma validate_spec_fixed: "validate_spec v = Inr spec \<Longrightarrow> validate_spec (PDict spec) = Inr spec"
proof (elim validate_specE exE)
  fix scenario title difficulty causes herrings weakness faults chain decoys drafts t t'
  assume spec: "spec = [(''scenario_id'', PStr scenario), (''title'', title), (''difficulty'', difficulty),
             (''root_cause_chain'', PList causes), (''red_herrings'', PList herrings),
             (''weakness_targeted'', weakness), (''faults'', PList faults)]"
    and bounds: "valid_scenario_id scenario" "difficulty \<in> PStr ` {''hard'', ''expert'', ''extreme''}"
      "2 \<le> length causes" "length causes \<le> 8" "1 \<le> length herrings" "length herrings \<le> 4"
      "2 \<le> length faults" "length faults \<le> 4"
    and t: "proposal_text 160 ''title'' t = Inr title"
      "map_result (proposal_text 240 ''root cause'') chain = Inr causes"
      "map_result (proposal_text 240 ''red herring'') decoys = Inr herrings"
      "proposal_text 160 ''weakness'' t' = Inr weakness"
      "map_result validate_fault drafts = Inr faults"
  have "proposal_text 160 ''title'' title = Inr title"
    "map_result (proposal_text 240 ''root cause'') causes = Inr causes"
    "map_result (proposal_text 240 ''red herring'') herrings = Inr herrings"
    "proposal_text 160 ''weakness'' weakness = Inr weakness"
    "map_result validate_fault faults = Inr faults"
    using t by (blast intro: proposal_text_fixed validate_fault_fixed map_result_fixed)+
  then show ?thesis
    using bounds by (simp add: validate_spec_def spec same_keys_def SPEC_FIELDS_def list_between_def)
qed

section \<open>Validated faults have documents\<close>

text \<open>
  What a document of a proposal may be, said without the code: a Chaos Mesh resource in \<open>chaos-mesh\<close>
  of one of the six kinds, whose specification has the fields of its kind and no other, each once, and
  acts on one pod of one of the listed services in \<open>default\<close>, for 1 to 15 minutes.  A second target,
  which a partition has, is one pod of another listed service in \<open>default\<close>, and a DNS fault is
  confined to the name of the service itself.
\<close>

definition selects :: "string \<Rightarrow> pyval \<Rightarrow> bool" where
  "selects service selector \<longleftrightarrow>
     selector = PDict [(''namespaces'', PList [PStr ''default'']), (''labelSelectors'', PDict [(''app'', PStr service)])]"

definition effect_fields :: "string \<Rightarrow> string set" where
  "effect_fields kind =
     (if kind = ''PodChaos'' then {''action'', ''containerNames''}
      else if kind = ''NetworkChaos''
      then {''action'', ''delay'', ''loss'', ''corrupt'', ''duplicate'', ''direction'', ''target''}
      else if kind = ''StressChaos'' then {''stressors''}
      else if kind = ''DNSChaos'' then {''action'', ''patterns''}
      else if kind = ''IOChaos'' then {''action'', ''volumePath'', ''path'', ''percent'', ''errno'', ''delay''}
      else if kind = ''TimeChaos'' then {''timeOffset''}
      else {})"

definition bounded_peer :: "string \<Rightarrow> pydict \<Rightarrow> bool" where
  "bounded_peer service effect \<longleftrightarrow>
     dget effect ''target'' = PNone \<or>
     (\<exists>peer \<in> set SERVICES. peer \<noteq> service \<and>
        (\<exists>selector. dget effect ''target'' = PDict [(''mode'', PStr ''one''), (''selector'', selector)] \<and>
           selects peer selector))"

definition bounded_spec :: "string \<Rightarrow> pydict \<Rightarrow> bool" where
  "bounded_spec kind spec \<longleftrightarrow>
     distinct (map fst spec) \<and>
     set (map fst spec) \<subseteq> {''mode'', ''selector'', ''duration''} \<union> effect_fields kind \<and>
     dget spec ''mode'' = PStr ''one'' \<and>
     is_str (dget spec ''duration'') \<and> within_quantity 2 ''m'' 15 (text_of (dget spec ''duration'')) \<and>
     (\<exists>service \<in> set SERVICES. selects service (dget spec ''selector'') \<and> bounded_peer service spec \<and>
        (kind = ''DNSChaos'' \<longrightarrow>
           dget spec ''patterns'' = PList [PStr (service @ ''.default.svc.cluster.local.'')]))"

definition bounded_document :: "string \<Rightarrow> pyval \<Rightarrow> bool" where
  "bounded_document scenario_id doc \<longleftrightarrow>
     (let d = as_dict doc; metadata = as_dict (dget d ''metadata'') in
      dget d ''apiVersion'' = PStr ''chaos-mesh.org/v1alpha1'' \<and>
      dget d ''kind'' \<in> PStr ` {''PodChaos'', ''NetworkChaos'', ''StressChaos'', ''DNSChaos'', ''IOChaos'', ''TimeChaos''} \<and>
      dget metadata ''namespace'' = PStr ''chaos-mesh'' \<and>
      starts_with (text_of (dget metadata ''name'')) (scenario_id @ ''-fault-'') \<and>
      bounded_spec (text_of (dget d ''kind'')) (as_dict (dget d ''spec'')))"

lemma network_spec_total:
  assumes "network_params a s p = Inr rest" and "a \<in> {''corrupt'', ''delay'', ''duplicate'', ''loss'', ''partition''}"
  shows "\<exists>out. network_spec a (PDict ((''duration'', d) # rest)) = Inr out"
  using assms(2,1)
  by (elim insertE emptyE; hypsubst)
    (simp_all add: network_params_def network_spec_def rbind_eq_Inr milliseconds_iff Let_def invalid_def split: if_splits,
     auto)

lemma stress_spec_total:
  "stress_params a p = Inr rest \<Longrightarrow> \<exists>out. stress_spec a (PDict ((''duration'', d) # rest)) = Inr out"
  by (auto simp: stress_params_def stress_spec_def rbind_eq_Inr Let_def invalid_def split: if_splits)

lemma io_spec_total:
  "io_params a p = Inr rest \<Longrightarrow> a \<in> {''fault'', ''latency''} \<Longrightarrow>
   \<exists>out. io_spec a (PDict ((''duration'', d) # rest)) = Inr out"
proof -
  assume r: "io_params a p = Inr rest" and a: "a \<in> {''fault'', ''latency''}"
  show ?thesis
  proof (cases "a = ''latency''")
    case True
    with r show ?thesis by (auto simp: io_params_def io_spec_def rbind_eq_Inr)
  next
    case False
    with a have "a = ''fault''" by simp
    with r show ?thesis by (auto simp: io_params_def io_spec_def rbind_eq_Inr)
  qed
qed

lemma listed_kinds:
  "\<forall>p \<in> set ALLOWED_ACTIONS.
     fst p \<in> {''PodChaos'', ''NetworkChaos'', ''StressChaos'', ''DNSChaos'', ''IOChaos'', ''TimeChaos''}"
  by (simp add: ALLOWED_ACTIONS_def)

lemma listed_network:
  "\<forall>p \<in> set ALLOWED_ACTIONS. fst p = ''NetworkChaos'' \<longrightarrow>
     set (snd p) \<subseteq> {''corrupt'', ''delay'', ''duplicate'', ''loss'', ''partition''}"
  by (simp add: ALLOWED_ACTIONS_def)

lemma listed_io:
  "\<forall>p \<in> set ALLOWED_ACTIONS. fst p = ''IOChaos'' \<longrightarrow> set (snd p) \<subseteq> {''fault'', ''latency''}"
  by (simp add: ALLOWED_ACTIONS_def)

lemma kind_spec_total:
  assumes "kind_params k a s p = Inr rest" and "(k, actions) \<in> set ALLOWED_ACTIONS" and "a \<in> set actions"
  shows "\<exists>out. kind_spec k a s (PDict ((''duration'', d) # rest)) = Inr out"
proof -
  have k: "k \<in> {''PodChaos'', ''NetworkChaos'', ''StressChaos'', ''DNSChaos'', ''IOChaos'', ''TimeChaos''}"
    using bspec [OF listed_kinds assms(2)] by (simp only: fst_conv)
  have n: "k = ''NetworkChaos'' \<Longrightarrow> a \<in> {''corrupt'', ''delay'', ''duplicate'', ''loss'', ''partition''}"
    using bspec [OF listed_network assms(2)] assms(3) by (simp only: fst_conv snd_conv simp_thms subset_iff)
  have i: "k = ''IOChaos'' \<Longrightarrow> a \<in> {''fault'', ''latency''}"
    using bspec [OF listed_io assms(2)] assms(3) by (simp only: fst_conv snd_conv simp_thms subset_iff)
  consider "k = ''PodChaos''" | "k = ''NetworkChaos''" | "k = ''StressChaos''" | "k = ''DNSChaos''"
    | "k = ''IOChaos''" | "k = ''TimeChaos''"
    using k unfolding insert_iff empty_iff by iprover
  then show ?thesis
  proof cases
    case 1
    with assms(1) show ?thesis
      by (auto simp: kind_params_def kind_spec_def Let_def invalid_def split: if_splits)
  next
    case 2
    with assms(1) have "network_params a s p = Inr rest" by (simp add: kind_params_def)
    from network_spec_total [OF this n [OF 2]] obtain out
      where "network_spec a (PDict ((''duration'', d) # rest)) = Inr out" by blast
    with 2 show ?thesis by (simp add: kind_spec_def)
  next
    case 3
    with assms(1) have "stress_params a p = Inr rest" by (simp add: kind_params_def)
    from stress_spec_total [OF this] 3 show ?thesis by (auto simp: kind_spec_def)
  next
    case 4
    then show ?thesis by (simp add: kind_spec_def)
  next
    case 5
    with assms(1) have "io_params a p = Inr rest" by (simp add: kind_params_def)
    from io_spec_total [OF this i [OF 5]] 5 show ?thesis by (auto simp: kind_spec_def)
  next
    case 6
    with assms(1) show ?thesis
      by (auto simp: kind_params_def kind_spec_def Let_def invalid_def split: if_splits)
  qed
qed

lemma network_effect:
  assumes "network_params a s p = Inr rest" and "network_spec a (PDict ((''duration'', d) # rest)) = Inr out"
    and "a \<in> {''corrupt'', ''delay'', ''duplicate'', ''loss'', ''partition''}"
  shows "distinct (map fst out) \<and>
    set (map fst out) \<subseteq> {''delay'', ''loss'', ''corrupt'', ''duplicate'', ''direction'', ''target''} \<and>
    bounded_peer s out"
proof (cases "a = ''partition''")
  case True
  with assms(1) obtain peer where peer: "peer \<in> set SERVICES" "peer \<noteq> s" "rest = [(''peer_service'', PStr peer)]"
    by (simp add: network_params_def Let_def invalid_def split: if_splits) blast
  from assms(2) have "out = [(''direction'', PStr ''both''),
            (''target'', PDict [(''mode'', PStr ''one''), (''selector'', one_of_service (PStr peer))])]"
    by (simp add: True peer(3) network_spec_def)
  with peer show ?thesis by (auto simp: bounded_peer_def selects_def one_of_service_def)
next
  case False
  with assms(3) have a: "a \<in> {''delay'', ''loss'', ''corrupt'', ''duplicate''}"
    unfolding insert_iff empty_iff by iprover
  then obtain v where "out = [(a, v)]"
    using assms(2) by (elim insertE emptyE; hypsubst) (auto simp: network_spec_def rbind_eq_Inr)
  with a show ?thesis by (elim insertE emptyE; hypsubst) (simp_all add: bounded_peer_def)
qed

text \<open>The effect of every kind: its own fields, each once, and no second target but that of a partition.\<close>

definition bounded_effect :: "string \<Rightarrow> string \<Rightarrow> pydict \<Rightarrow> bool" where
  "bounded_effect kind service out \<longleftrightarrow>
     distinct (map fst out) \<and> set (map fst out) \<subseteq> effect_fields kind \<and> bounded_peer service out \<and>
     (kind = ''DNSChaos'' \<longrightarrow>
        dget out ''patterns'' = PList [PStr (service @ ''.default.svc.cluster.local.'')])"

lemma pod_effect: "kind_spec ''PodChaos'' a s v = Inr out \<Longrightarrow> bounded_effect ''PodChaos'' s out"
  by (cases "a = ''container-kill''")
    (auto simp: kind_spec_def bounded_effect_def effect_fields_def bounded_peer_def rbind_eq_Inr)

lemma stress_effect: "kind_spec ''StressChaos'' a s v = Inr out \<Longrightarrow> bounded_effect ''StressChaos'' s out"
  by (auto simp: kind_spec_def stress_spec_def bounded_effect_def effect_fields_def bounded_peer_def rbind_eq_Inr Let_def)

lemma dns_effect: "kind_spec ''DNSChaos'' a s v = Inr out \<Longrightarrow> bounded_effect ''DNSChaos'' s out"
  by (auto simp: kind_spec_def bounded_effect_def effect_fields_def bounded_peer_def)

lemma io_effect: "kind_spec ''IOChaos'' a s v = Inr out \<Longrightarrow> bounded_effect ''IOChaos'' s out"
  by (cases "a = ''fault''")
    (auto simp: kind_spec_def io_spec_def bounded_effect_def effect_fields_def bounded_peer_def rbind_eq_Inr)

lemma time_effect: "kind_spec ''TimeChaos'' a s v = Inr out \<Longrightarrow> bounded_effect ''TimeChaos'' s out"
  by (auto simp: kind_spec_def bounded_effect_def effect_fields_def bounded_peer_def rbind_eq_Inr)

lemma kind_effect:
  assumes r: "kind_params k a s p = Inr rest" and ka: "(k, actions) \<in> set ALLOWED_ACTIONS" "a \<in> set actions"
    and out: "kind_spec k a s (PDict ((''duration'', d) # rest)) = Inr out"
  shows "bounded_effect k s out"
proof (cases "k = ''NetworkChaos''")
  case True
  have n: "a \<in> {''corrupt'', ''delay'', ''duplicate'', ''loss'', ''partition''}"
    using bspec [OF listed_network ka(1)] ka(2) True by (simp only: fst_conv snd_conv simp_thms subset_iff)
  from r out True obtain out' where "network_params a s p = Inr rest"
    and o': "network_spec a (PDict ((''duration'', d) # rest)) = Inr out'" "out = (''action'', PStr a) # out'"
    by (auto simp: kind_params_def kind_spec_def rbind_eq_Inr)
  from network_effect [OF this(1,2) n] show ?thesis
    unfolding True o'(2) by (auto simp: bounded_effect_def effect_fields_def bounded_peer_def)
next
  case False
  moreover have "k \<in> {''PodChaos'', ''NetworkChaos'', ''StressChaos'', ''DNSChaos'', ''IOChaos'', ''TimeChaos''}"
    using bspec [OF listed_kinds ka(1)] by (simp only: fst_conv)
  ultimately consider "k = ''PodChaos''" | "k = ''StressChaos''" | "k = ''DNSChaos''" | "k = ''IOChaos''" | "k = ''TimeChaos''"
    unfolding insert_iff empty_iff by iprover
  then show ?thesis
    using out by cases (simp_all only: pod_effect stress_effect dns_effect io_effect time_effect)
qed

lemma effect_fields_apart: "{''mode'', ''selector'', ''duration''} \<inter> effect_fields kind = {}"
  by (simp add: effect_fields_def)

lemma dget_apart:
  "k \<notin> {''mode'', ''selector'', ''duration''} \<Longrightarrow>
   dget ([(''mode'', a), (''selector'', b), (''duration'', c)] @ out) k = dget out k"
  by auto

lemma bounded_spec_of_effect:
  assumes "bounded_effect kind service out" and "service \<in> set SERVICES" and "valid_duration d"
  shows "bounded_spec kind
    ([(''mode'', PStr ''one''), (''selector'', one_of_service (PStr service)), (''duration'', PStr d)] @ out)"
    (is "bounded_spec kind ?spec")
proof -
  have "distinct (map fst ?spec)" "set (map fst ?spec) \<subseteq> {''mode'', ''selector'', ''duration''} \<union> effect_fields kind"
    using assms(1) effect_fields_apart [of kind] unfolding bounded_effect_def by auto
  moreover have "bounded_peer service ?spec"
    using assms(1) unfolding bounded_effect_def bounded_peer_def by (subst (1 2) dget_apart) simp_all
  moreover have "kind = ''DNSChaos'' \<longrightarrow> dget ?spec ''patterns'' = PList [PStr (service @ ''.default.svc.cluster.local.'')]"
    using assms(1) unfolding bounded_effect_def by (subst dget_apart) simp_all
  moreover have "selects service (dget ?spec ''selector'')" by (simp add: selects_def one_of_service_def)
  ultimately show ?thesis
    using assms(2,3) unfolding bounded_spec_def valid_duration_def
    by (intro conjI bexI [of _ service]) simp_all
qed

definition document :: "string \<Rightarrow> string \<Rightarrow> string \<Rightarrow> string \<Rightarrow> nat \<Rightarrow> pydict \<Rightarrow> pyval" where
  "document k s d scenario_id i out =
     PDict
       [(''apiVersion'', PStr ''chaos-mesh.org/v1alpha1''), (''kind'', PStr k),
        (''metadata'', PDict
          [(''name'', PStr (scenario_id @ ''-fault-'' @ int_str (int i))), (''namespace'', PStr ''chaos-mesh''),
           (''labels'', PDict
             [(''scenario'', PStr scenario_id), (''tier'', PStr ''adversarial''), (''generated'', PStr ''true'')])]),
        (''spec'', PDict
          ([(''mode'', PStr ''one''), (''selector'', one_of_service (PStr s)), (''duration'', PStr d)] @ out))]"

lemma document_of_valid_fault:
  assumes "validate_fault v = Inr fault"
  shows "\<exists>doc. fault_to_document fault scenario_id i = Inr doc \<and> bounded_document scenario_id doc"
  using assms
proof (rule validate_faultE)
  fix k a actions s params d rest
  assume f: "fault = PDict [(''kind'', PStr k), (''action'', PStr a), (''target_service'', PStr s),
                (''params'', PDict ((''duration'', PStr d) # rest))]"
    and ka: "(k, actions) \<in> set ALLOWED_ACTIONS" "a \<in> set actions" and s: "s \<in> set SERVICES"
    and d: "valid_duration d" and r: "kind_params k a s params = Inr rest"
  obtain out where out: "kind_spec k a s (PDict ((''duration'', PStr d) # rest)) = Inr out"
    using kind_spec_total [OF r ka] by blast
  then have "fault_to_document fault scenario_id i = Inr (document k s d scenario_id i out)" (is "_ = Inr ?doc")
    by (simp add: f fault_to_document_def document_def)
  moreover have "k \<in> {''PodChaos'', ''NetworkChaos'', ''StressChaos'', ''DNSChaos'', ''IOChaos'', ''TimeChaos''}"
    using bspec [OF listed_kinds ka(1)] by (simp only: fst_conv)
  then have "bounded_document scenario_id ?doc"
    using bounded_spec_of_effect [OF kind_effect [OF r ka out] s d]
    unfolding bounded_document_def document_def by (simp add: starts_with_def)
  ultimately show ?thesis by blast
qed

lemma documents_of_valid_faults:
  assumes "map_result validate_fault drafts = Inr faults"
  shows "\<exists>docs. fault_documents scenario_id i faults = Inr docs \<and> length docs = length faults \<and>
    list_all (bounded_document scenario_id) docs"
  using assms
proof (induction drafts arbitrary: faults i)
  case Nil
  then show ?case by simp
next
  case (Cons v drafts)
  then obtain fault rest where f: "faults = fault # rest" "validate_fault v = Inr fault"
    "map_result validate_fault drafts = Inr rest" by (auto simp: rbind_eq_Inr)
  from Cons.IH [OF f(3), of "Suc i"] document_of_valid_fault [OF f(2), of scenario_id i] f(1)
  show ?case by auto
qed

section \<open>Saving\<close>

lemma names_differ:
  "starts_with s ''adv-'' \<Longrightarrow> temp_name i u e \<noteq> s @ ext"
  by (cases s) (auto simp: temp_name_def starts_with_def)

lemma yaml_not_json: "x @ ''.yaml'' \<noteq> y @ ''.json''"
  by (simp add: append_eq_append_conv)

lemma temp_names_differ: "temp_name s u ''yaml'' \<noteq> temp_name s u ''json''"
  by (simp add: temp_name_def)

lemma temp_is_no_manifest: "temp_name i u e \<noteq> s @ ''.yaml''"
proof
  assume "temp_name i u e = s @ ''.yaml''"
  then have "last (temp_name i u e) = last (s @ ''.yaml'')" by simp
  then show False by (simp add: temp_name_def)
qed

text \<open>
  The body of a save: apart from the two temporary files, the directory is as before, or has the
  metadata besides, or has the metadata and the manifest, the last exactly when nothing was raised.
\<close>

definition saved_map :: "string \<Rightarrow> string \<Rightarrow> string \<Rightarrow> nat \<Rightarrow> (string \<rightharpoonup> string) \<Rightarrow> (string \<rightharpoonup> string)" where
  "saved_map scenario manifest metadata stage m =
     (if stage = 0 then m
      else if stage = 1 then m(scenario @ ''.json'' \<mapsto> metadata)
      else m(scenario @ ''.json'' \<mapsto> metadata, scenario @ ''.yaml'' \<mapsto> manifest))"

lemma open_new_cases:
  "map_of dir x = None \<Longrightarrow> open_new x content os dir = (e, d) \<Longrightarrow>
   (e = None \<and> d = dir @ [(x, content)]) \<or> (e \<noteq> None \<and> (\<forall>y. y \<noteq> x \<longrightarrow> map_of d y = map_of dir y))"
  by (auto simp: open_new_def map_add_def split: os_outcome.splits option.splits)

lemma link_file_cases:
  "map_of dir x = Some content \<Longrightarrow> map_of dir y = None \<Longrightarrow> link_file x y os dir = (e, d) \<Longrightarrow>
   (e = None \<and> d = dir @ [(y, content)]) \<or> (e \<noteq> None \<and> d = dir)"
  by (auto simp: link_file_def split: if_splits)

lemma unlink_file_cases:
  "unlink_file x os dir = (e, d) \<Longrightarrow>
   (e = None \<and> os = Works \<and> map_of d = (map_of dir)(x := None)) \<or> (e \<noteq> None \<and> os \<noteq> Works \<and> d = dir)"
  by (auto simp: unlink_file_def split: if_splits)

lemma attempt_two:
  "attempt os i [f, g] dir = (e, d) \<Longrightarrow>
   (\<exists>e1 d1. f (os i) dir = (e1, d1) \<and> (case e1 of Some _ \<Rightarrow> e = e1 \<and> d = d1 | None \<Rightarrow> g (os (Suc i)) d1 = (e, d)))"
  by (auto split: prod.splits option.splits)

lemma attempt_append:
  "attempt os i (fs @ gs) dir =
     (case attempt os i fs dir of
        (Some e, d) \<Rightarrow> (Some e, d)
      | (None, d) \<Rightarrow> attempt os (i + length fs) gs d)"
  by (induction fs arbitrary: i dir) (auto split: prod.splits option.splits)

lemma temps_written:
  assumes "map_of dir tm = None" "map_of dir tj = None" "tm \<noteq> tj"
    and "attempt os 0 [open_new tm manifest, open_new tj metadata] dir = (e, d)"
  shows "(e = None \<and> d = dir @ [(tm, manifest), (tj, metadata)]) \<or>
    (e \<noteq> None \<and> (\<forall>y. y \<notin> {tm, tj} \<longrightarrow> map_of d y = map_of dir y))"
proof -
  from attempt_two [OF assms(4)] obtain e1 d1 where o: "open_new tm manifest (os 0) dir = (e1, d1)"
    and n: "case e1 of Some _ \<Rightarrow> e = e1 \<and> d = d1 | None \<Rightarrow> open_new tj metadata (os (Suc 0)) d1 = (e, d)" by blast
  show ?thesis
  proof (cases e1)
    case (Some x)
    with n open_new_cases [OF assms(1) o] show ?thesis by auto
  next
    case None
    with open_new_cases [OF assms(1) o] have d1: "d1 = dir @ [(tm, manifest)]" by simp
    with assms(2,3) have "map_of d1 tj = None" by (simp add: map_add_def)
    from open_new_cases [OF this, of metadata "os (Suc 0)" e d] n None
    have "(e = None \<and> d = d1 @ [(tj, metadata)]) \<or> (e \<noteq> None \<and> (\<forall>y. y \<noteq> tj \<longrightarrow> map_of d y = map_of d1 y))" by simp
    moreover have "\<And>y. y \<noteq> tm \<Longrightarrow> map_of d1 y = map_of dir y"
      by (simp add: d1 map_add_def split: option.splits)
    ultimately show ?thesis by (elim disjE conjE) (simp_all add: d1)
  qed
qed

lemma names_linked:
  assumes "map_of dir tm = Some manifest" "map_of dir tj = Some metadata"
    and "map_of dir J = None" "map_of dir Y = None" "distinct [tm, tj, J, Y]"
    and "attempt os i [link_file tj J, link_file tm Y] dir = (e, d)"
  shows "(e = None \<and> d = dir @ [(J, metadata), (Y, manifest)]) \<or> (e \<noteq> None \<and> d = dir @ [(J, metadata)]) \<or>
    (e \<noteq> None \<and> d = dir)"
proof -
  from attempt_two [OF assms(6)] obtain e1 d1 where o: "link_file tj J (os i) dir = (e1, d1)"
    and n: "case e1 of Some _ \<Rightarrow> e = e1 \<and> d = d1 | None \<Rightarrow> link_file tm Y (os (Suc i)) d1 = (e, d)" by blast
  show ?thesis
  proof (cases e1)
    case (Some x)
    with n link_file_cases [OF assms(2,3) o] show ?thesis by auto
  next
    case None
    with link_file_cases [OF assms(2,3) o] have d1: "d1 = dir @ [(J, metadata)]" by simp
    with assms(1,4,5) have "map_of d1 tm = Some manifest" "map_of d1 Y = None" by (auto simp: map_add_def)
    from link_file_cases [OF this] n None show ?thesis by (auto simp: d1)
  qed
qed

lemma body_saves:
  assumes "map_of dir tm = None" "map_of dir tj = None"
    and "map_of dir (s @ ''.json'') = None" "map_of dir (s @ ''.yaml'') = None"
    and "distinct [tm, tj, s @ ''.json'', s @ ''.yaml'']"
    and "attempt os 0 [open_new tm manifest, open_new tj metadata, link_file tj (s @ ''.json''), link_file tm (s @ ''.yaml'')] dir = (e, d)"
  shows "\<exists>stage \<le> 2. (e = None) = (stage = 2) \<and>
    (\<forall>y. y \<notin> {tm, tj} \<longrightarrow> map_of d y = saved_map s manifest metadata stage (map_of dir) y)"
proof -
  obtain e1 d1 where o: "attempt os 0 [open_new tm manifest, open_new tj metadata] dir = (e1, d1)" by fastforce
  with assms(6) have n: "case e1 of Some _ \<Rightarrow> e = e1 \<and> d = d1
      | None \<Rightarrow> attempt os (Suc (Suc 0)) [link_file tj (s @ ''.json''), link_file tm (s @ ''.yaml'')] d1 = (e, d)"
    using attempt_append [of os 0 "[open_new tm manifest, open_new tj metadata]"
        "[link_file tj (s @ ''.json''), link_file tm (s @ ''.yaml'')]" dir]
    by (auto simp del: attempt.simps split: option.splits)
  note w = temps_written [OF assms(1,2) _ o]
  show ?thesis
  proof (cases e1)
    case (Some x)
    with n w assms(5) show ?thesis by (intro exI [of _ 0]) (auto simp: saved_map_def)
  next
    case None
    with w assms(5) have d1: "d1 = dir @ [(tm, manifest), (tj, metadata)]" by auto
    have "map_of d1 tm = Some manifest" "map_of d1 tj = Some metadata"
      "map_of d1 (s @ ''.json'') = None" "map_of d1 (s @ ''.yaml'') = None"
      using assms(1-5) by (auto simp: d1 map_add_def)
    moreover have "attempt os (Suc (Suc 0)) [link_file tj (s @ ''.json''), link_file tm (s @ ''.yaml'')] d1 = (e, d)"
      using n None by (simp del: attempt.simps)
    ultimately consider "e = None" "d = d1 @ [(s @ ''.json'', metadata), (s @ ''.yaml'', manifest)]"
      | "e \<noteq> None" "d = d1 @ [(s @ ''.json'', metadata)]" | "e \<noteq> None" "d = d1"
      using names_linked [OF _ _ _ _ assms(5)] by blast
    then show ?thesis
    proof cases
      case 1
      with assms(3-5) show ?thesis by (intro exI [of _ 2]) (auto simp: d1 saved_map_def map_add_def split: option.splits)
    next
      case 2
      with assms(3-5) show ?thesis by (intro exI [of _ 1]) (auto simp: d1 saved_map_def map_add_def split: option.splits)
    next
      case 3
      then show ?thesis by (intro exI [of _ 0]) (auto simp: d1 saved_map_def map_add_def split: option.splits)
    qed
  qed
qed

lemma save_outcome:
  assumes "save_proposal os s u manifest metadata dir = (e, dir')" and "starts_with s ''adv-''"
    and "map_of dir (temp_name s u ''yaml'') = None" "map_of dir (temp_name s u ''json'') = None"
    and "map_of dir (s @ ''.json'') = None" "map_of dir (s @ ''.yaml'') = None"
  shows "\<exists>stage \<le> 2.
    (\<forall>y. y \<notin> {temp_name s u ''yaml'', temp_name s u ''json''} \<longrightarrow>
       map_of dir' y = saved_map s manifest metadata stage (map_of dir) y) \<and>
    (if os 4 = Works \<and> os 5 = Works
     then (e = None) = (stage = 2) \<and> map_of dir' (temp_name s u ''yaml'') = None \<and> map_of dir' (temp_name s u ''json'') = None
     else e \<noteq> None)"
proof -
  let ?tm = "temp_name s u ''yaml''" and ?tj = "temp_name s u ''json''"
  obtain e0 d where body: "attempt os 0 [open_new ?tm manifest, open_new ?tj metadata,
      link_file ?tj (s @ ''.json''), link_file ?tm (s @ ''.yaml'')] dir = (e0, d)" by fastforce
  obtain e2 d2 where fin: "attempt os 4 [unlink_file ?tm, unlink_file ?tj] d = (e2, d2)" by fastforce
  have out: "e = (case e2 of Some x \<Rightarrow> Some x | None \<Rightarrow> e0)" "dir' = d2"
    using assms(1) by (auto simp: save_proposal_def Let_def body fin simp del: attempt.simps split: option.splits)
  have "distinct [?tm, ?tj, s @ ''.json'', s @ ''.yaml'']"
    using names_differ [OF assms(2)] yaml_not_json [of s s] temp_names_differ [of s u] by auto
  from body_saves [OF assms(3-6) this body] obtain stage where stage: "stage \<le> 2" "(e0 = None) = (stage = 2)"
    "\<forall>y. y \<notin> {?tm, ?tj} \<longrightarrow> map_of d y = saved_map s manifest metadata stage (map_of dir) y" by blast
  have five: "Suc 4 = 5" by simp
  from attempt_two [OF fin] obtain e1 d1 where o: "unlink_file ?tm (os 4) d = (e1, d1)"
    and n: "case e1 of Some _ \<Rightarrow> e2 = e1 \<and> d2 = d1 | None \<Rightarrow> unlink_file ?tj (os 5) d1 = (e2, d2)"
    unfolding five by blast
  have "(\<forall>y. y \<notin> {?tm, ?tj} \<longrightarrow> map_of d2 y = map_of d y) \<and>
      (if os 4 = Works \<and> os 5 = Works
       then e2 = None \<and> map_of d2 ?tm = None \<and> map_of d2 ?tj = None else e2 \<noteq> None)"
    using unlink_file_cases [OF o] n unlink_file_cases [of ?tj "os 5" d1 e2 d2] by (auto split: option.splits)
  then show ?thesis
    using stage out by (intro exI [of _ stage]) (auto split: option.splits if_splits)
qed

lemma refusing_Inr [simp]: "refusing r = Inr a \<longleftrightarrow> r = Inr a"
  by (cases r) (auto simp: refusing_def)

lemma refusing_ok [simp]: "refusing (Inr a) = Inr a"
  by (simp add: refusing_def)

lemma unexpected_ok [simp]: "unexpected (Inr a) = Inr a"
  by (simp add: unexpected_def)

lemma unexpected_Inr [simp]: "unexpected r = Inr a \<longleftrightarrow> r = Inr a"
  by (cases r) (auto simp: unexpected_def)

lemma composed_id:
  assumes "compose_proposal z c history = Inr (s, docs, metadata)"
  shows "valid_scenario_id s \<and> 2 \<le> length docs \<and> length docs \<le> 4 \<and> list_all (bounded_document s) docs \<and>
    dget metadata ''execution_authorized'' = PBool False \<and> dget metadata ''scenario_id'' = PStr s"
proof -
  from assms obtain raw spec episodes where spec: "read_proposal z raw = Inr spec"
    and s: "s = text_of (dget spec ''scenario_id'')"
    and docs: "fault_documents s 0 (as_list (dget spec ''faults'')) = Inr docs"
    and m: "metadata = proposal_metadata z c spec (extract_weaknesses episodes) raw
        (design_prompt z episodes (extract_weaknesses episodes)) (dz_yaml z docs)"
    by (auto simp: compose_proposal_def rbind_eq_Inr Let_def)
  from spec obtain v where "validate_spec v = Inr spec"
    by (auto simp: read_proposal_def split: if_splits option.splits)
  then show ?thesis
  proof (elim validate_specE exE)
    fix scenario title difficulty causes herrings weakness faults chain decoys drafts t t'
    assume sp: "spec = [(''scenario_id'', PStr scenario), (''title'', title), (''difficulty'', difficulty),
             (''root_cause_chain'', PList causes), (''red_herrings'', PList herrings),
             (''weakness_targeted'', weakness), (''faults'', PList faults)]"
      and v: "valid_scenario_id scenario" and l: "2 \<le> length faults" "length faults \<le> 4"
      and f: "map_result validate_fault drafts = Inr faults"
    have "s = scenario" "as_list (dget spec ''faults'') = faults" by (simp_all add: s sp)
    with documents_of_valid_faults [OF f, of scenario 0] docs v l show ?thesis
      by (simp add: m proposal_metadata_def sp)
  qed
qed

lemma design_outcome:
  assumes "design_scenario z c history p dir = (r, dir')"
  shows "(\<exists>e. r = Inl e \<and> dir' = dir) \<or>
    (\<exists>s docs metadata e place. compose_proposal z c history = Inr (s, docs, metadata) \<and>
       map_of dir (s @ ''.json'') = None \<and> map_of dir (s @ ''.yaml'') = None \<and> \<not> prefix (dz_root z) place \<and>
       save_proposal (dc_os c) s (dc_suffix c) (dz_yaml z docs) (dz_json z (PDict metadata)) dir = (e, dir') \<and>
       r = (case e of Some x \<Rightarrow> Inl x | None \<Rightarrow> Inr (design_result place s metadata)))"
proof (cases "\<exists>e. r = Inl e \<and> dir' = dir")
  case False
  with assms obtain place s docs metadata e where
    place: "validate_output_dir (dz_root z) p = Inr place"
    and rest: "compose_proposal z c history = Inr (s, docs, metadata)"
      "map_of dir (s @ ''.yaml'') = None" "map_of dir (s @ ''.json'') = None"
      "save_proposal (dc_os c) s (dc_suffix c) (dz_yaml z docs) (dz_json z (PDict metadata)) dir = (e, dir')"
      "r = (case e of Some e \<Rightarrow> Inl e | None \<Rightarrow> Inr (design_result place s metadata))"
    by (fastforce simp: design_scenario_def refusing_def split: sum.splits if_splits prod.splits option.splits)
  have "\<not> prefix (dz_root z) place"
    using place by (auto simp: validate_output_dir_def split: if_splits)
  with rest show ?thesis by blast
qed simp

text \<open>What a call leaves: nothing changed, or a proposal saved up to a stage.\<close>

definition left_behind ::
  "designer \<Rightarrow> design_call \<Rightarrow> string \<Rightarrow> pyval list \<Rightarrow> pydict \<Rightarrow> nat \<Rightarrow> directory \<Rightarrow> directory \<Rightarrow> bool" where
  "left_behind z c s docs metadata stage dir dir' \<longleftrightarrow>
     map_of dir (s @ ''.json'') = None \<and> map_of dir (s @ ''.yaml'') = None \<and> starts_with s ''adv-'' \<and>
     (\<forall>y. y \<notin> {temp_name s (dc_suffix c) ''yaml'', temp_name s (dc_suffix c) ''json''} \<longrightarrow>
        map_of dir' y = saved_map s (dz_yaml z docs) (dz_json z (PDict metadata)) stage (map_of dir) y)"

lemma design_cases:
  assumes "design_scenario z c history p dir = (r, dir')"
    and "\<And>i ext. map_of dir (temp_name i (dc_suffix c) ext) = None"
  obtains e where "r = Inl e" "dir' = dir"
  | s docs metadata stage where "compose_proposal z c history = Inr (s, docs, metadata)"
      "left_behind z c s docs metadata stage dir dir'"
      "if dc_os c 4 = Works \<and> dc_os c 5 = Works
       then is_ok r = (stage = 2) \<and> map_of dir' (temp_name s (dc_suffix c) ''yaml'') = None \<and>
            map_of dir' (temp_name s (dc_suffix c) ''json'') = None
       else \<not> is_ok r"
      "stage \<le> 2"
      "is_ok r \<longrightarrow> (\<exists>place. r = Inr (design_result place s metadata) \<and> \<not> prefix (dz_root z) place)"
  using design_outcome [OF assms(1)]
proof (elim disjE exE conjE)
  fix e
  assume "r = Inl e" "dir' = dir"
  then show ?thesis by (rule that(1))
next
  fix s docs metadata e place
  assume c: "compose_proposal z c history = Inr (s, docs, metadata)"
    and free: "map_of dir (s @ ''.json'') = None" "map_of dir (s @ ''.yaml'') = None"
    and p: "\<not> prefix (dz_root z) place"
    and saved: "save_proposal (dc_os c) s (dc_suffix c) (dz_yaml z docs) (dz_json z (PDict metadata)) dir = (e, dir')"
    and r: "r = (case e of Some x \<Rightarrow> Inl x | None \<Rightarrow> Inr (design_result place s metadata))"
  have s: "starts_with s ''adv-''" using composed_id [OF c] by (simp add: valid_scenario_id_def)
  have ok: "is_ok r = (e = None)" by (simp add: r split: option.splits)
  from save_outcome [OF saved s assms(2) assms(2) free] obtain stage where "stage \<le> 2"
    "left_behind z c s docs metadata stage dir dir'"
    "if dc_os c 4 = Works \<and> dc_os c 5 = Works
     then is_ok r = (stage = 2) \<and> map_of dir' (temp_name s (dc_suffix c) ''yaml'') = None \<and>
          map_of dir' (temp_name s (dc_suffix c) ''json'') = None
     else \<not> is_ok r"
    unfolding left_behind_def ok using free s by blast
  with c p show ?thesis by (intro that(2)) (auto simp: r split: option.splits)
qed

lemma whole_proposal:
  assumes "left_behind z c s docs metadata 2 dir dir'"
  shows "map_of dir' (s @ ''.yaml'') = Some (dz_yaml z docs)" "map_of dir' (s @ ''.json'') = Some (dz_json z (PDict metadata))"
proof -
  have a: "starts_with s ''adv-''" and m: "\<And>y. y \<notin> {temp_name s (dc_suffix c) ''yaml'', temp_name s (dc_suffix c) ''json''} \<Longrightarrow>
        map_of dir' y = saved_map s (dz_yaml z docs) (dz_json z (PDict metadata)) 2 (map_of dir) y"
    using assms unfolding left_behind_def by auto
  have "s @ ext \<notin> {temp_name s (dc_suffix c) ''yaml'', temp_name s (dc_suffix c) ''json''}" for ext
    using names_differ [OF a] by (simp add: not_sym)
  note at_name = m [OF this]
  show "map_of dir' (s @ ''.yaml'') = Some (dz_yaml z docs)" "map_of dir' (s @ ''.json'') = Some (dz_json z (PDict metadata))"
    using yaml_not_json [of s s] by (simp_all add: at_name saved_map_def)
qed

lemma left_behind_facts:
  assumes "left_behind z c s docs metadata stage dir dir'" and "stage \<le> 2"
  shows "map_of dir name = Some content \<Longrightarrow> (\<And>i ext. map_of dir (temp_name i (dc_suffix c) ext) = None) \<Longrightarrow>
      map_of dir' name = Some content"
    and "name \<notin> {s @ ''.yaml'', s @ ''.json'', temp_name s (dc_suffix c) ''yaml'', temp_name s (dc_suffix c) ''json''} \<Longrightarrow>
      map_of dir' name = map_of dir name"
    and "map_of dir' (s @ ''.yaml'') \<noteq> None \<longleftrightarrow> stage = 2"
    and "map_of dir (s @ ''.yaml'') = None"
    and "temp_name i u ext \<notin> {temp_name s (dc_suffix c) ''yaml'', temp_name s (dc_suffix c) ''json''} \<Longrightarrow>
      map_of dir' (temp_name i u ext) = map_of dir (temp_name i u ext)"
proof -
  have a: "starts_with s ''adv-''" and free: "map_of dir (s @ ''.json'') = None" "map_of dir (s @ ''.yaml'') = None"
    and m: "\<And>y. y \<notin> {temp_name s (dc_suffix c) ''yaml'', temp_name s (dc_suffix c) ''json''} \<Longrightarrow>
        map_of dir' y = saved_map s (dz_yaml z docs) (dz_json z (PDict metadata)) stage (map_of dir) y"
    using assms(1) unfolding left_behind_def by auto
  show "map_of dir' name = Some content" if "map_of dir name = Some content"
    "\<And>i ext. map_of dir (temp_name i (dc_suffix c) ext) = None"
  proof -
    have "name \<notin> {temp_name s (dc_suffix c) ''yaml'', temp_name s (dc_suffix c) ''json''}" using that by auto
    from m [OF this] that(1) free show ?thesis by (auto simp: saved_map_def)
  qed
  show "map_of dir' name = map_of dir name"
    if "name \<notin> {s @ ''.yaml'', s @ ''.json'', temp_name s (dc_suffix c) ''yaml'', temp_name s (dc_suffix c) ''json''}"
    using that m [of name] by (simp add: saved_map_def)
  have "s @ ''.yaml'' \<notin> {temp_name s (dc_suffix c) ''yaml'', temp_name s (dc_suffix c) ''json''}"
    using names_differ [OF a] by (simp add: not_sym)
  from m [OF this] free yaml_not_json [of s s] assms(2)
  show "map_of dir' (s @ ''.yaml'') \<noteq> None \<longleftrightarrow> stage = 2"
    by (auto simp: saved_map_def split: if_splits)
  show "map_of dir (s @ ''.yaml'') = None" by (rule free(2))
  show "map_of dir' (temp_name i u ext) = map_of dir (temp_name i u ext)"
    if "temp_name i u ext \<notin> {temp_name s (dc_suffix c) ''yaml'', temp_name s (dc_suffix c) ''json''}"
    using m [OF that] names_differ [OF a, of i u ext] by (auto simp: saved_map_def)
qed

text \<open>
  What may have changed in the directory when a proposal was to be saved: only the names of the proposal
  and of its temporary files; a manifest there is whole and has its own metadata beside it; it is there
  if the call succeeded, and not there if the call failed with both temporary files unlinked.
\<close>

definition safely_saved ::
  "designer \<Rightarrow> design_call \<Rightarrow> string \<Rightarrow> pyval list \<Rightarrow> pydict \<Rightarrow> design_exn + pydict \<Rightarrow> directory \<Rightarrow> directory \<Rightarrow> bool" where
  "safely_saved z c s docs metadata r dir dir' \<longleftrightarrow>
     (\<forall>name. name \<notin> {s @ ''.yaml'', s @ ''.json'', temp_name s (dc_suffix c) ''yaml'', temp_name s (dc_suffix c) ''json''} \<longrightarrow>
        map_of dir' name = map_of dir name) \<and>
     (map_of dir' (s @ ''.yaml'') \<noteq> None \<longrightarrow>
        map_of dir' (s @ ''.yaml'') = Some (dz_yaml z docs) \<and>
        map_of dir' (s @ ''.json'') = Some (dz_json z (PDict metadata))) \<and>
     (is_ok r \<longrightarrow> map_of dir' (s @ ''.yaml'') \<noteq> None) \<and>
     (\<not> is_ok r \<and> dc_os c 4 = Works \<and> dc_os c 5 = Works \<longrightarrow> map_of dir' (s @ ''.yaml'') = None)"

lemma left_behind_safe:
  assumes l: "left_behind z c s docs metadata stage dir dir'"
    and r: "if dc_os c 4 = Works \<and> dc_os c 5 = Works
       then is_ok r = (stage = 2) \<and> map_of dir' (temp_name s (dc_suffix c) ''yaml'') = None \<and>
            map_of dir' (temp_name s (dc_suffix c) ''json'') = None
       else \<not> is_ok r"
    and st: "stage \<le> 2"
  shows "safely_saved z c s docs metadata r dir dir'"
proof -
  note facts = left_behind_facts [OF l st]
  have two: "left_behind z c s docs metadata 2 dir dir'" if "map_of dir' (s @ ''.yaml'') \<noteq> None"
    using iffD1 [OF facts(3) that] l by hypsubst
  show ?thesis
    unfolding safely_saved_def
  proof (intro conjI allI impI)
    show "map_of dir' name = map_of dir name"
      if "name \<notin> {s @ ''.yaml'', s @ ''.json'', temp_name s (dc_suffix c) ''yaml'', temp_name s (dc_suffix c) ''json''}"
      for name using that by (rule facts(2))
    show "map_of dir' (s @ ''.yaml'') = Some (dz_yaml z docs)" "map_of dir' (s @ ''.json'') = Some (dz_json z (PDict metadata))"
      if "map_of dir' (s @ ''.yaml'') \<noteq> None"
      by (rule whole_proposal [OF two [OF that]])+
    show "map_of dir' (s @ ''.yaml'') \<noteq> None" if "is_ok r"
      using that r facts(3) by (simp split: if_splits)
    show "map_of dir' (s @ ''.yaml'') = None" if "\<not> is_ok r \<and> dc_os c 4 = Works \<and> dc_os c 5 = Works"
      using that r facts(3) by (simp split: if_splits)
  qed
qed

section \<open>Properties\<close>

text \<open>
  Validating a proposal is idempotent: what validation returns is a proposal that validates to
  itself, so a stored specification can be checked again and no check is lost or added on the way.
\<close>

theorem validated_proposal_is_normal:
  assumes "validate_spec v = Inr spec"
  shows "validate_spec (PDict spec) = Inr spec"
  using assms by (rule validate_spec_fixed)

definition sample_fault :: pyval where
  "sample_fault =
     PDict [(''kind'', PStr ''NetworkChaos''), (''action'', PStr ''loss''),
            (''target_service'', PStr ''adservice''), (''params'', PDict [(''loss'', PStr ''040'')])]"

definition sample_proposal :: pyval where
  "sample_proposal =
     PDict [(''title'', PStr '' two faults''), (''scenario_id'', PStr ''adv-x''), (''difficulty'', PStr ''hard''),
            (''root_cause_chain'', PList [PStr ''a'', PStr ''b'']), (''red_herrings'', PList [PStr ''c'']),
            (''weakness_targeted'', PStr ''w''), (''faults'', PList [sample_fault, sample_fault])]"

definition sample_normal :: pydict where
  "sample_normal =
     (let fault = PDict [(''kind'', PStr ''NetworkChaos''), (''action'', PStr ''loss''),
            (''target_service'', PStr ''adservice''),
            (''params'', PDict [(''duration'', PStr ''10m''), (''loss'', PStr ''40'')])] in
      [(''scenario_id'', PStr ''adv-x''), (''title'', PStr ''two faults''), (''difficulty'', PStr ''hard''),
       (''root_cause_chain'', PList [PStr ''a'', PStr ''b'']), (''red_herrings'', PList [PStr ''c'']),
       (''weakness_targeted'', PStr ''w''), (''faults'', PList [fault, fault])])"

lemma sample_validates: "validate_spec sample_proposal = Inr sample_normal"
  by code_simp

theorem validated_proposal_is_normal_witness:
  "validate_spec (PDict sample_normal) = Inr sample_normal"
  using validated_proposal_is_normal [OF sample_validates] .


text \<open>
  C29. Saving never disturbs what the directory holds, whatever fails on the way, the unlinking of the
  temporary files included: existing files keep their content; nothing appears but the manifest and the
  metadata of the proposal that was composed and its two temporary files; a manifest appears only whole
  and with its own metadata; and a scenario that is reported as saved has both and has left no
  temporary file.  A call that fails leaves no temporary file and no manifest either, unless it is an
  unlink that failed.
\<close>

theorem saving_is_safe:
  assumes "design_scenario z c history p dir = (r, dir')"
    and "\<And>i ext. map_of dir (temp_name i (dc_suffix c) ext) = None"
  shows "(\<forall>name content. map_of dir name = Some content \<longrightarrow> map_of dir' name = Some content) \<and>
    (dir' \<noteq> dir \<longrightarrow>
       (\<exists>s docs metadata. compose_proposal z c history = Inr (s, docs, metadata) \<and>
          safely_saved z c s docs metadata r dir dir')) \<and>
    (is_ok r \<longrightarrow> dir' \<noteq> dir) \<and>
    (is_ok r \<or> dc_os c 4 = Works \<and> dc_os c 5 = Works \<longrightarrow>
       (\<forall>i ext. map_of dir' (temp_name i (dc_suffix c) ext) = None))"
  using assms
proof (cases rule: design_cases)
  case (1 e)
  with assms(2) show ?thesis by simp
next
  case (2 s docs metadata stage)
  note facts = left_behind_facts [OF 2(2,4)]
  have ok: "is_ok r \<Longrightarrow> stage = 2" using 2(3) by (simp split: if_splits)
  have "map_of dir' (temp_name i (dc_suffix c) ext) = None" if "is_ok r \<or> dc_os c 4 = Works \<and> dc_os c 5 = Works" for i ext
    using that 2(3) facts(5) [of i "dc_suffix c" ext] assms(2)
    by (cases "temp_name i (dc_suffix c) ext \<in> {temp_name s (dc_suffix c) ''yaml'', temp_name s (dc_suffix c) ''json''}")
      (auto split: if_splits)
  moreover have "dir' \<noteq> dir" if "is_ok r" using ok [OF that] facts(3,4) by metis
  moreover have "safely_saved z c s docs metadata r dir dir'" by (rule left_behind_safe [OF 2(2-4)])
  ultimately show ?thesis
    using facts(1) [OF _ assms(2)] 2(1) by (intro conjI allI impI exI) simp_all
qed

definition sample_designer :: designer where
  "sample_designer =
     \<lparr>dz_root = [''repo''],
      dz_loads = (\<lambda>t. if t = ''reply'' then
          Some (PDict [(''choices'', PList [PDict [(''message'', PDict [(''content'', PStr ''proposal'')])]])])
        else Some sample_proposal),
      dz_yaml = (\<lambda>_. ''yaml''), dz_json = (\<lambda>_. ''json''), dz_sha = (\<lambda>_. ''sha''), dz_repr = (\<lambda>_. ''''),
      dz_model = ''m''\<rparr>"

definition sample_call :: design_call where
  "sample_call = \<lparr>dc_reply = \<lambda>_. HttpBody [''rep'', ''ly''], dc_now = ''now'', dc_suffix = ''u'', dc_os = (\<lambda>_. Works)\<rparr>"

definition sample_output :: output_path where
  "sample_output = \<lparr>op_absolute = True, op_directory = True, op_components = [(False, False, False)], op_resolved = [''out'']\<rparr>"

lemma sample_designed:
  "\<exists>result. design_scenario sample_designer sample_call (PList []) sample_output [] =
     (Inr result, [(''adv-x.json'', ''json''), (''adv-x.yaml'', ''yaml'')])"
proof -
  have c: "call_judge (dz_loads sample_designer) (dc_reply sample_call prompt) = Inr ''proposal''" for prompt
    by (simp add: sample_designer_def sample_call_def call_judge_def reply_content_def)
  have r: "read_proposal sample_designer ''proposal'' = Inr sample_normal"
    using sample_validates by (simp add: read_proposal_def sample_designer_def)
  have s: "text_of (dget sample_normal ''scenario_id'') = ''adv-x''"
    by (simp add: sample_normal_def Let_def)
  have f: "\<exists>docs. fault_documents ''adv-x'' 0 (as_list (dget sample_normal ''faults'')) = Inr docs"
    by (simp add: sample_normal_def Let_def fault_to_document_def kind_spec_def network_spec_def)
  obtain docs metadata where "compose_proposal sample_designer sample_call (PList []) = Inr (''adv-x'', docs, metadata)"
    using f by (auto simp: compose_proposal_def check_history_def c r s Let_def)
  moreover have "validate_output_dir [''repo''] sample_output = Inr [''out'']"
    by (simp add: validate_output_dir_def sample_output_def)
  ultimately show ?thesis
    by (simp add: design_scenario_def refusing_def sample_designer_def sample_call_def save_proposal_def
        open_new_def link_file_def unlink_file_def temp_name_def)
qed


theorem saving_is_safe_witness:
  "\<exists>s. map_of [(''adv-x.json'', ''json''), (''adv-x.yaml'', ''yaml'')] (s @ ''.yaml'') \<noteq> None"
proof -
  obtain result where "design_scenario sample_designer sample_call (PList []) sample_output [] =
     (Inr result, [(''adv-x.json'', ''json''), (''adv-x.yaml'', ''yaml'')])" using sample_designed by blast
  from saving_is_safe [OF this] show ?thesis by auto
qed

end
