(* ===== verification/ArgoTools.thy ===== *)
theory ArgoTools
  imports Chaos ModelReply
begin

text \<open>
  \<open>agents/tools/argocd.py\<close>: the Argo CD client behind the application tools.  The session token is
  cached with the identity it was issued to; the cache and the requests made so far are the state of
  the client.  What a server answers to a request is a parameter that may depend on everything
  requested before.  The environment, the URL parser and the digest are parameters too.
\<close>

section \<open>Requests and their outcomes\<close>

type_synonym identity = "string \<times> string \<times> string"

text \<open>
  The outcome of a request: a time-out, a refused connection, another transport failure, or a response
  with its status and decoded body (\<open>None\<close> when the body is not JSON).
\<close>

datatype http_outcome = TimesOut | ConnectionFails | TransportFails | Answered int "pyval option"

datatype argo_request =
    Login identity bool
  | Call string string string pyval "pyval option" bool

record argo_client =
  ac_token :: pyval
  ac_identity :: "identity option"
  ac_log :: "(argo_request \<times> http_outcome) list"

text \<open>What \<open>urlsplit\<close> finds: the scheme, whether there is a host, a user and a password.\<close>

record url_parts =
  up_scheme :: string
  up_host :: bool
  up_user :: bool
  up_password :: bool

record argo_world =
  aw_env :: "string \<Rightarrow> string option"
  aw_split :: "string \<Rightarrow> url_parts option"
  aw_sha :: "string \<Rightarrow> string"
  aw_answer :: "(argo_request \<times> http_outcome) list \<Rightarrow> argo_request \<Rightarrow> http_outcome"

datatype argo_exn =
    ConfigurationError string
  | AuthenticationError
  | StatusError int
  | TimeoutError
  | ConnectionError
  | OtherError

definition send :: "argo_world \<Rightarrow> argo_request \<Rightarrow> argo_client \<Rightarrow> http_outcome \<times> argo_client" where
  "send w q c =
     (let out_come = aw_answer w (ac_log c) q
      in (out_come, c\<lparr>ac_log := ac_log c @ [(q, out_come)]\<rparr>))"

section \<open>Configuration\<close>

record argo_config =
  cf_base_url :: string
  cf_username :: string
  cf_password :: string
  cf_verify_tls :: bool

definition missing_variable :: "string \<Rightarrow> argo_exn + 'a" where
  "missing_variable name =
     Inl (ConfigurationError (''argocd_configuration_error: missing required environment variable '' @ name))"

definition getenv :: "argo_world \<Rightarrow> string \<Rightarrow> string \<Rightarrow> string" where
  "getenv w name dflt = (case aw_env w name of None \<Rightarrow> dflt | Some v \<Rightarrow> v)"

definition valid_url :: "argo_world \<Rightarrow> string \<Rightarrow> bool" where
  "valid_url w url \<longleftrightarrow>
     (case aw_split w url of
        None \<Rightarrow> False
      | Some u \<Rightarrow> py_lower (up_scheme u) \<in> {''http'', ''https''} \<and> up_host u \<and> \<not> up_user u \<and> \<not> up_password u)"

definition rstrip_slash :: "string \<Rightarrow> string" where
  "rstrip_slash s = rev (dropWhile (\<lambda>c. c = CHR ''/'') (rev s))"

definition get_argocd_config :: "argo_world \<Rightarrow> argo_exn + argo_config" where
  "get_argocd_config w =
     (let base_url = py_strip (getenv w ''ARGOCD_URL'' '''');
          username = py_strip (getenv w ''ARGOCD_USER'' '''');
          password = getenv w ''ARGOCD_PASS'' '''';
          verify = py_lower (py_strip (getenv w ''ARGOCD_VERIFY_TLS'' ''true'')) in
      if base_url = [] then missing_variable ''ARGOCD_URL''
      else if \<not> valid_url w base_url then
        Inl (ConfigurationError ''argocd_configuration_error: ARGOCD_URL must use http or https with a host'')
      else if username = [] then missing_variable ''ARGOCD_USER''
      else if py_strip password = [] then missing_variable ''ARGOCD_PASS''
      else if verify \<notin> {''1'', ''true'', ''yes'', ''on'', ''0'', ''false'', ''no'', ''off''} then
        Inl (ConfigurationError ''argocd_configuration_error: ARGOCD_VERIFY_TLS must be true or false'')
      else Inr \<lparr>cf_base_url = rstrip_slash base_url, cf_username = username, cf_password = password,
                cf_verify_tls = verify \<in> {''1'', ''true'', ''yes'', ''on''}\<rparr>)"

section \<open>The session token\<close>

definition identity_of :: "argo_world \<Rightarrow> argo_config \<Rightarrow> identity" where
  "identity_of w cf = (cf_base_url cf, cf_username cf, aw_sha w (cf_password cf))"

text \<open>\<open>raise_for_status\<close> raises for 400 to 599; \<open>response.json()["token"]\<close> may raise as well.\<close>

definition issued_token :: "http_outcome \<Rightarrow> argo_exn + pyval" where
  "issued_token out_come =
     (case out_come of
        TimesOut \<Rightarrow> Inl TimeoutError
      | ConnectionFails \<Rightarrow> Inl ConnectionError
      | TransportFails \<Rightarrow> Inl AuthenticationError
      | Answered status body \<Rightarrow>
          (if 400 \<le> status \<and> status < 600 then Inl AuthenticationError
           else case body of
             None \<Rightarrow> Inl AuthenticationError
           | Some v \<Rightarrow> (case py_key v ''token'' of Inl _ \<Rightarrow> Inl AuthenticationError | Inr t \<Rightarrow> Inr t)))"

definition get_token :: "argo_world \<Rightarrow> argo_config \<Rightarrow> argo_client \<Rightarrow> (argo_exn + pyval) \<times> argo_client" where
  "get_token w cf c =
     (let me = identity_of w cf in
      if truthy (ac_token c) \<and> ac_identity c = Some me then (Inr (ac_token c), c)
      else
        (let (out_come, c1) = send w (Login me (cf_verify_tls cf)) c in
         case issued_token out_come of
           Inl e \<Rightarrow> (Inl e, c1)
         | Inr t \<Rightarrow> (Inr t, c1\<lparr>ac_token := t, ac_identity := Some me\<rparr>)))"

section \<open>One API call\<close>

definition response_data :: "http_outcome \<Rightarrow> argo_exn + pyval" where
  "response_data out_come =
     (case out_come of
        TimesOut \<Rightarrow> Inl TimeoutError
      | ConnectionFails \<Rightarrow> Inl ConnectionError
      | TransportFails \<Rightarrow> Inl OtherError
      | Answered status body \<Rightarrow>
          (if 400 \<le> status \<and> status < 600 then Inl (StatusError status)
           else case body of None \<Rightarrow> Inl OtherError | Some v \<Rightarrow> Inr v))"

definition unauthorized :: "http_outcome \<Rightarrow> bool" where
  "unauthorized out_come \<longleftrightarrow> (case out_come of Answered status _ \<Rightarrow> status = 401 | _ \<Rightarrow> False)"

text \<open>A 401 empties the cache, and the request is made once more with a new token.\<close>

definition call_api ::
  "argo_world \<Rightarrow> string \<Rightarrow> string \<Rightarrow> pyval option \<Rightarrow> argo_client \<Rightarrow> (argo_exn + pyval) \<times> argo_client" where
  "call_api w meth path body c =
     (case get_argocd_config w of
        Inl e \<Rightarrow> (Inl e, c)
      | Inr cf \<Rightarrow>
          (let req = (\<lambda>t. Call (cf_base_url cf) meth path t body (cf_verify_tls cf)) in
           case get_token w cf c of
             (Inl e, c1) \<Rightarrow> (Inl e, c1)
           | (Inr t, c1) \<Rightarrow>
               (case send w (req t) c1 of
                  (out_come, c2) \<Rightarrow>
                    (if unauthorized out_come then
                       (case get_token w cf (c2\<lparr>ac_token := PNone, ac_identity := None\<rparr>) of
                          (Inl e, c3) \<Rightarrow> (Inl e, c3)
                        | (Inr t', c3) \<Rightarrow>
                            (case send w (req t') c3 of (out_come', c4) \<Rightarrow> (response_data out_come', c4)))
                     else (response_data out_come, c2)))))"

definition ARGOCD_STATUS_ERROR_CLASSES :: "int \<Rightarrow> string option" where
  "ARGOCD_STATUS_ERROR_CLASSES =
     [400 \<mapsto> ''invalid_request'', 401 \<mapsto> ''authentication_failed'', 403 \<mapsto> ''authorization_failed'',
      404 \<mapsto> ''not_found'', 409 \<mapsto> ''conflict'', 422 \<mapsto> ''unprocessable'']"

definition failure :: "string \<Rightarrow> string \<Rightarrow> pydict" where
  "failure why error_class =
     [(''success'', PBool False), (''error'', PStr why), (''error_class'', PStr error_class)]"

fun classify_failure :: "argo_exn \<Rightarrow> pydict" where
  "classify_failure (ConfigurationError why) = failure why ''configuration_error''"
| "classify_failure AuthenticationError =
     failure ''argocd_authentication_error: authentication request failed'' ''authentication_failed''"
| "classify_failure TimeoutError = failure ''argocd_error: request timeout'' ''timeout''"
| "classify_failure ConnectionError = failure ''argocd_error: connection failed'' ''connection_failed''"
| "classify_failure (StatusError status) =
     (let error_class = (case ARGOCD_STATUS_ERROR_CLASSES status of
            Some k \<Rightarrow> k | None \<Rightarrow> ''http_'' @ int_str status @ ''_error'') in
      failure (''argocd_'' @ error_class @ '' (HTTP '' @ int_str status @ '')'') error_class
      @ [(''status_code'', PInt status)])"
| "classify_failure OtherError = failure ''argocd_request_error: request failed'' ''request_failed''"

definition argo_api ::
  "argo_world \<Rightarrow> string \<Rightarrow> string \<Rightarrow> pyval option \<Rightarrow> argo_client \<Rightarrow> pydict \<times> argo_client" where
  "argo_api w meth path body c =
     (case call_api w meth path body c of
        (Inl e, c') \<Rightarrow> (classify_failure e, c')
      | (Inr v, c') \<Rightarrow> ([(''success'', PBool True), (''data'', v)], c'))"

section \<open>The tools\<close>

text \<open>\<open>_valid_app_name\<close>: the pattern allows dots between alphanumeric ends.\<close>

fun split_labels :: "string \<Rightarrow> string list" where
  "split_labels [] = [[]]"
| "split_labels (x # xs) =
     (if x = CHR ''.'' then [] # split_labels xs
      else case split_labels xs of [] \<Rightarrow> [[x]] | p # ps \<Rightarrow> (x # p) # ps)"

definition valid_app_name :: "pyval \<Rightarrow> bool" where
  "valid_app_name v \<longleftrightarrow>
     (case v of
        PStr app \<Rightarrow>
          length app \<le> 253 \<and> list_all (\<lambda>l. 0 < length l \<and> length l \<le> 63) (split_labels app) \<and>
          delimited_name {CHR ''-'', CHR ''.''} app \<and> \<not> contains app ''..''
      | _ \<Rightarrow> False)"

definition invalid_app_result :: pydict where
  "invalid_app_result =
     failure ''argocd_invalid_app: application name must be a DNS name'' ''invalid_action_arguments''"

text \<open>\<open>d.get(k, {})\<close> of something that must be a dictionary.\<close>

definition get_dict :: "pyval \<Rightarrow> string \<Rightarrow> py_exn + pyval" where
  "get_dict v k = rbind (need_dict v) (\<lambda>d. Inr (dget_or d k (PDict [])))"

definition get_or :: "pyval \<Rightarrow> string \<Rightarrow> pyval \<Rightarrow> py_exn + pyval" where
  "get_or v k dflt = rbind (need_dict v) (\<lambda>d. Inr (dget_or d k dflt))"

definition last_element :: "pyval \<Rightarrow> py_exn + pyval" where
  "last_element v =
     (case v of
        PList xs \<Rightarrow> (if xs = [] then Inl IndexError else Inr (last xs))
      | PStr s \<Rightarrow> (if s = [] then Inl IndexError else Inr (PStr [last s]))
      | PDict _ \<Rightarrow> Inl KeyError
      | _ \<Rightarrow> Inl TypeError)"

definition app_row :: "pyval \<Rightarrow> py_exn + pyval" where
  "app_row app =
     rbind (py_key app ''metadata'') (\<lambda>metadata.
     rbind (py_key metadata ''name'') (\<lambda>name.
     rbind (get_dict app ''status'') (\<lambda>status.
     rbind (get_dict status ''health'') (\<lambda>health.
     rbind (get_or health ''status'' (PStr ''Unknown'')) (\<lambda>health_status.
     rbind (get_dict status ''sync'') (\<lambda>sync.
     rbind (get_or sync ''status'' (PStr ''Unknown'')) (\<lambda>sync_status.
     rbind (get_or status ''history'' PNone) (\<lambda>history.
     rbind (last_element (py_or history (PList [PDict []]))) (\<lambda>newest.
     rbind (get_or newest ''id'' PNone) (\<lambda>revision.
       Inr (PDict [(''name'', name), (''health'', health_status), (''sync'', sync_status),
                   (''revision'', revision)])))))))))))"

definition py_len :: "pyval \<Rightarrow> py_exn + int" where
  "py_len v =
     (case v of
        PList xs \<Rightarrow> Inr (int (length xs))
      | PStr s \<Rightarrow> Inr (int (length s))
      | PDict d \<Rightarrow> Inr (int (length d))
      | _ \<Rightarrow> Inl TypeError)"

definition argocd_list_apps :: "argo_world \<Rightarrow> argo_client \<Rightarrow> (py_exn + pydict) \<times> argo_client" where
  "argocd_list_apps w c =
     (let (result, c') = argo_api w ''GET'' ''/applications'' None c in
      (if truthy (dget result ''success'') then
         rbind (need_dict (dget result ''data'')) (\<lambda>d.
         let items = py_or (dget d ''items'') (PList []) in
         rbind (py_iter items) (\<lambda>xs.
         rbind (map_result app_row xs) (\<lambda>apps.
         rbind (py_len items) (\<lambda>n.
           Inr (result @ [(''apps'', PList apps), (''count'', PInt n)])))))
       else Inr result, c'))"

text \<open>\<open>history[-10:]\<close> and the rows shown of it.\<close>

definition newest_ten :: "pyval \<Rightarrow> py_exn + pyval list" where
  "newest_ten v =
     (case v of
        PList xs \<Rightarrow> Inr (drop (length xs - 10) xs)
      | PStr s \<Rightarrow> Inr (map (\<lambda>c. PStr [c]) (drop (length s - 10) s))
      | _ \<Rightarrow> Inl TypeError)"

definition history_row :: "pyval \<Rightarrow> py_exn + pyval" where
  "history_row v =
     rbind (need_dict v) (\<lambda>d.
       Inr (PDict [(''id'', dget d ''id''), (''revision'', dget d ''revision''),
                   (''deployedAt'', dget d ''deployedAt'')]))"

definition argocd_app_history :: "argo_world \<Rightarrow> pyval \<Rightarrow> argo_client \<Rightarrow> (py_exn + pydict) \<times> argo_client" where
  "argocd_app_history w app c =
     (if \<not> valid_app_name app then (Inr invalid_app_result, c)
      else
        (let (result, c') = argo_api w ''GET'' (''/applications/'' @ text_of app) None c in
         (if truthy (dget result ''success'') then
            rbind (get_dict (dget result ''data'') ''status'') (\<lambda>status.
            rbind (get_or status ''history'' PNone) (\<lambda>history.
            rbind (newest_ten (py_or history (PList []))) (\<lambda>items.
            rbind (map_result history_row items) (\<lambda>rows.
              Inr (result @ [(''history'', PList rows)])))))
          else Inr result, c')))"

definition revision_id :: "(pyval \<Rightarrow> string) \<Rightarrow> pyval \<Rightarrow> nat option" where
  "revision_id fmt revision =
     (let s = py_strip (py_str fmt revision) in
      if s \<noteq> [] \<and> list_all (\<lambda>c. digit_value c \<noteq> None) s then read_nat s else None)"

definition argocd_rollback ::
  "(pyval \<Rightarrow> string) \<Rightarrow> argo_world \<Rightarrow> pyval \<Rightarrow> pyval \<Rightarrow> argo_client \<Rightarrow> pydict \<times> argo_client" where
  "argocd_rollback fmt w app revision c =
     (if \<not> valid_app_name app then (invalid_app_result, c)
      else case revision_id fmt revision of
        None \<Rightarrow>
          (failure ''argocd_invalid_revision: revision must be a non-negative integer'' ''invalid_revision'', c)
      | Some n \<Rightarrow>
          (let (result, c') = argo_api w ''POST'' (''/applications/'' @ text_of app @ ''/rollback'')
                 (Some (PDict [(''id'', PInt (int n))])) c in
           (if truthy (dget result ''success'') then
              result @ [(''message'', PStr (''Rollback of '' @ text_of app @ '' to revision '' @
                py_str fmt revision @ '' initiated.''))]
            else result, c')))"

definition argocd_app_get :: "argo_world \<Rightarrow> pyval \<Rightarrow> argo_client \<Rightarrow> pydict \<times> argo_client" where
  "argocd_app_get w app c =
     (if \<not> valid_app_name app then (invalid_app_result, c)
      else argo_api w ''GET'' (''/applications/'' @ text_of app) None c)"

section \<open>Histories of tool calls\<close>

text \<open>Between two calls the environment, and with it the server and the credentials, may change.\<close>

datatype argo_tool = ListApps | AppHistory pyval | Rollback pyval pyval | AppGet pyval

fun argo_step :: "(pyval \<Rightarrow> string) \<Rightarrow> argo_client \<Rightarrow> argo_world \<times> argo_tool \<Rightarrow> argo_client" where
  "argo_step fmt c (w, ListApps) = snd (argocd_list_apps w c)"
| "argo_step fmt c (w, AppHistory app) = snd (argocd_app_history w app c)"
| "argo_step fmt c (w, Rollback app revision) = snd (argocd_rollback fmt w app revision c)"
| "argo_step fmt c (w, AppGet app) = snd (argocd_app_get w app c)"

definition argo_start :: argo_client where
  "argo_start = \<lparr>ac_token = PNone, ac_identity = None, ac_log = []\<rparr>"

text \<open>Whether a server issued a token, according to the log; \<open>base\<close> is its address.\<close>

definition issued_by :: "(argo_request \<times> http_outcome) list \<Rightarrow> identity \<Rightarrow> pyval \<Rightarrow> bool" where
  "issued_by past me t \<longleftrightarrow>
     list_ex (\<lambda>(q, out_come).
       (case q of Login who _ \<Rightarrow> who = me \<and> issued_token out_come = Inr t | _ \<Rightarrow> False)) past"

definition issued_at :: "(argo_request \<times> http_outcome) list \<Rightarrow> string \<Rightarrow> pyval \<Rightarrow> bool" where
  "issued_at past base t \<longleftrightarrow>
     list_ex (\<lambda>(q, out_come).
       (case q of Login who _ \<Rightarrow> fst who = base \<and> issued_token out_come = Inr t | _ \<Rightarrow> False)) past"

fun tokens_bound :: "(argo_request \<times> http_outcome) list \<Rightarrow> (argo_request \<times> http_outcome) list \<Rightarrow> bool" where
  "tokens_bound past [] = True"
| "tokens_bound past ((q, out_come) # rest) =
     ((case q of Login _ _ \<Rightarrow> True | Call base _ _ t _ _ \<Rightarrow> issued_at past base t) \<and>
      tokens_bound (past @ [(q, out_come)]) rest)"

text \<open>
  The requests the tools may make: reading the applications or one of them, or rolling one back to a
  numbered revision; the name in the path is made of lower-case letters, digits, dashes and single
  dots.
\<close>

definition app_text :: "string \<Rightarrow> bool" where
  "app_text n \<longleftrightarrow>
     n \<noteq> [] \<and> length n \<le> 253 \<and> list_all (\<lambda>c. lower_alnum c \<or> c = CHR ''-'' \<or> c = CHR ''.'') n \<and>
     \<not> contains n ''..''"

definition read_path :: "string \<Rightarrow> bool" where
  "read_path p \<longleftrightarrow> p = ''/applications'' \<or> (starts_with p ''/applications/'' \<and> app_text (drop 14 p))"

definition rollback_path :: "string \<Rightarrow> bool" where
  "rollback_path p \<longleftrightarrow>
     length p \<ge> 23 \<and> p = ''/applications/'' @ take (length p - 23) (drop 14 p) @ ''/rollback'' \<and>
     app_text (take (length p - 23) (drop 14 p))"

definition rollback_body :: "pyval option \<Rightarrow> bool" where
  "rollback_body b \<longleftrightarrow> (case b of Some (PDict [(k, PInt n)]) \<Rightarrow> k = ''id'' \<and> 0 \<le> n | _ \<Rightarrow> False)"

fun permitted_request :: "argo_request \<Rightarrow> bool" where
  "permitted_request (Login _ _) = True"
| "permitted_request (Call base meth path t body _) =
     ((meth = ''GET'' \<and> read_path path \<and> body = None) \<or>
      (meth = ''POST'' \<and> rollback_path path \<and> rollback_body body))"

section \<open>Invariants of the client\<close>

definition cache_backed :: "argo_client \<Rightarrow> bool" where
  "cache_backed c \<longleftrightarrow>
     (case ac_identity c of
        None \<Rightarrow> True
      | Some me \<Rightarrow> truthy (ac_token c) \<longrightarrow> issued_by (ac_log c) me (ac_token c))"

definition client_inv :: "argo_client \<Rightarrow> bool" where
  "client_inv c \<longleftrightarrow> cache_backed c \<and> tokens_bound [] (ac_log c) \<and> list_all (permitted_request \<circ> fst) (ac_log c)"

lemma tokens_bound_append:
  "tokens_bound past (xs @ ys) \<longleftrightarrow> tokens_bound past xs \<and> tokens_bound (past @ xs) ys"
proof (induction xs arbitrary: past)
  case Nil
  then show ?case by simp
next
  case (Cons x xs)
  then show ?case by (cases x) simp
qed

lemma issued_by_append: "issued_by past me t \<Longrightarrow> issued_by (past @ later) me t"
  by (auto simp: issued_by_def)

lemma issued_by_at: "issued_by past me t \<Longrightarrow> issued_at past (fst me) t"
proof -
  assume "issued_by past me t"
  then obtain q r where "(q, r) \<in> set past"
    and l: "case q of Login who _ \<Rightarrow> who = me \<and> issued_token r = Inr t | _ \<Rightarrow> False"
    unfolding issued_by_def list_ex_iff by blast
  moreover from l have "case q of Login who _ \<Rightarrow> fst who = fst me \<and> issued_token r = Inr t | _ \<Rightarrow> False"
    by (cases q) simp_all
  ultimately show ?thesis unfolding issued_at_def list_ex_iff by blast
qed

lemma inv_send:
  assumes "client_inv c" and "send w q c = (out_come, c')" and "permitted_request q"
    and "case q of Login _ _ \<Rightarrow> True | Call base _ _ t _ _ \<Rightarrow> issued_at (ac_log c) base t"
  shows "client_inv c' \<and> ac_log c' = ac_log c @ [(q, out_come)] \<and>
    ac_token c' = ac_token c \<and> ac_identity c' = ac_identity c"
proof -
  have c': "c' = c\<lparr>ac_log := ac_log c @ [(q, out_come)]\<rparr>"
    using assms(2) by (auto simp: send_def Let_def)
  have "tokens_bound [] (ac_log c @ [(q, out_come)])"
    using assms(1,4) by (simp add: client_inv_def tokens_bound_append)
  moreover have "cache_backed c'"
    using assms(1) by (auto simp: c' client_inv_def cache_backed_def issued_by_append split: option.splits)
  ultimately show ?thesis
    using assms(1,3) by (simp add: c' client_inv_def)
qed

lemma get_token_inv:
  assumes "client_inv c" and "get_token w cf c = (r, c')"
  shows "client_inv c' \<and> (\<forall>t. r = Inr t \<longrightarrow> issued_at (ac_log c') (cf_base_url cf) t) \<and>
    (\<exists>l. ac_log c' = ac_log c @ l \<and> length l \<le> 1)"
proof (cases "truthy (ac_token c) \<and> ac_identity c = Some (identity_of w cf)")
  case True
  then have "issued_by (ac_log c) (identity_of w cf) (ac_token c)"
    using assms(1) by (simp add: client_inv_def cache_backed_def)
  from issued_by_at [OF this] True assms show ?thesis
    by (auto simp: get_token_def identity_of_def)
next
  case False
  let ?me = "identity_of w cf"
  obtain out_come c1 where s: "send w (Login ?me (cf_verify_tls cf)) c = (out_come, c1)" by fastforce
  then have c1: "client_inv c1" "ac_log c1 = ac_log c @ [(Login ?me (cf_verify_tls cf), out_come)]"
    using inv_send [OF assms(1) s] by simp_all
  show ?thesis
  proof (cases "issued_token out_come")
    case (Inl e)
    with False assms(2) s c1 show ?thesis by (auto simp: get_token_def Let_def)
  next
    case (Inr t)
    then have i: "issued_by (ac_log c1) ?me t" using c1(2) by (simp add: issued_by_def)
    from Inr False assms(2) s have r: "r = Inr t" "c' = c1\<lparr>ac_token := t, ac_identity := Some ?me\<rparr>"
      by (auto simp: get_token_def Let_def)
    have "client_inv c'"
      using c1(1) i by (simp add: r client_inv_def cache_backed_def)
    then show ?thesis
      using issued_by_at [OF i] c1(2) by (simp add: r identity_of_def)
  qed
qed

lemma inv_forget: "client_inv c \<Longrightarrow> client_inv (c\<lparr>ac_token := PNone, ac_identity := None\<rparr>)"
  by (simp add: client_inv_def cache_backed_def)

definition grows :: "nat \<Rightarrow> argo_client \<Rightarrow> argo_client \<Rightarrow> bool" where
  "grows n c c' \<longleftrightarrow> take (length (ac_log c)) (ac_log c') = ac_log c \<and> length (ac_log c') \<le> length (ac_log c) + n"

lemma growsI: "ac_log c' = ac_log c @ l \<Longrightarrow> length l \<le> n \<Longrightarrow> grows n c c'"
  by (simp add: grows_def)

lemma grows_refl [simp]: "grows n c c"
  by (simp add: grows_def)

lemma call_api_inv:
  assumes "client_inv c"
    and ok: "\<And>base t v. permitted_request (Call base meth path t body v)"
  shows "client_inv (snd (call_api w meth path body c)) \<and> grows 4 c (snd (call_api w meth path body c))"
proof (cases "get_argocd_config w")
  case (Inl e)
  with assms(1) show ?thesis by (simp add: call_api_def)
next
  case (Inr cf)
  let ?req = "\<lambda>t. Call (cf_base_url cf) meth path t body (cf_verify_tls cf)"
  obtain r1 c1 where g1: "get_token w cf c = (r1, c1)" by fastforce
  from get_token_inv [OF assms(1) g1] obtain l1 where c1: "client_inv c1"
    "\<And>t. r1 = Inr t \<Longrightarrow> issued_at (ac_log c1) (cf_base_url cf) t" "ac_log c1 = ac_log c @ l1" "length l1 \<le> 1" by blast
  show ?thesis
  proof (cases r1)
    case (Inl e)
    with Inr g1 c1 show ?thesis by (auto simp: call_api_def intro: growsI)
  next
    case t: (Inr t)
    obtain o2 c2 where s2: "send w (?req t) c1 = (o2, c2)" by fastforce
    have c2: "client_inv c2" "ac_log c2 = ac_log c1 @ [(?req t, o2)]"
      using inv_send [OF c1(1) s2 ok] c1(2) [OF t] by simp_all
    let ?c2 = "c2\<lparr>ac_token := PNone, ac_identity := None\<rparr>"
    obtain r3 c3 where g3: "get_token w cf ?c2 = (r3, c3)" by fastforce
    have "ac_log ?c2 = ac_log c2" by simp
    with get_token_inv [OF inv_forget [OF c2(1)] g3] obtain l3 where c3: "client_inv c3"
      "\<And>t. r3 = Inr t \<Longrightarrow> issued_at (ac_log c3) (cf_base_url cf) t" "ac_log c3 = ac_log c2 @ l3" "length l3 \<le> 1"
      by metis
    show ?thesis
    proof (cases "unauthorized o2")
      case False
      with Inr g1 t s2 have "snd (call_api w meth path body c) = c2" by (simp add: call_api_def)
      then show ?thesis using c1 c2 by (auto intro: growsI)
    next
      case u: True
      show ?thesis
      proof (cases r3)
        case (Inl e)
        with Inr g1 t s2 u g3 have "snd (call_api w meth path body c) = c3" by (simp add: call_api_def)
        then show ?thesis using c1 c2 c3 by (auto intro: growsI)
      next
        case t': (Inr t')
        obtain o4 c4 where s4: "send w (?req t') c3 = (o4, c4)" by fastforce
        have c4: "client_inv c4" "ac_log c4 = ac_log c3 @ [(?req t', o4)]"
          using inv_send [OF c3(1) s4 ok] c3(2) [OF t'] by simp_all
        from Inr g1 t s2 u g3 t' s4 have "snd (call_api w meth path body c) = c4" by (simp add: call_api_def)
        then show ?thesis using c1 c2 c3 c4 by (auto intro: growsI)
      qed
    qed
  qed
qed

lemma argo_api_state: "snd (argo_api w meth path body c) = snd (call_api w meth path body c)"
  by (auto simp: argo_api_def split: prod.splits sum.splits)

lemma valid_app_text: "valid_app_name (PStr n) \<Longrightarrow> app_text n"
  by (auto simp: valid_app_name_def app_text_def delimited_name_def list_all_iff)

lemma valid_app_is_text: "valid_app_name v \<Longrightarrow> v = PStr (text_of v)"
  by (cases v) (auto simp: valid_app_name_def)

lemma argo_step_inv:
  assumes "client_inv c"
  shows "client_inv (argo_step fmt c e) \<and> grows 4 c (argo_step fmt c e)"
proof -
  obtain w tool where e: "e = (w, tool)" by fastforce
  have list_ok: "permitted_request (Call base ''GET'' ''/applications'' t None v)" for base t v
    by (simp add: read_path_def)
  have get_ok: "permitted_request (Call base ''GET'' (''/applications/'' @ text_of app) t None v)"
    if "valid_app_name app" for app base t v
    using valid_app_text valid_app_is_text [OF that] that by (auto simp: read_path_def starts_with_def)
  have post_ok: "permitted_request (Call base ''POST'' (''/applications/'' @ text_of app @ ''/rollback'') t
      (Some (PDict [(''id'', PInt (int n))])) v)" if "valid_app_name app" for app base t v n
    using valid_app_text valid_app_is_text [OF that] that by (auto simp: rollback_path_def rollback_body_def)
  show ?thesis
  proof (cases tool)
    case ListApps
    with call_api_inv [OF assms list_ok, of w] show ?thesis
      by (cases "argo_api w ''GET'' ''/applications'' None c")
        (simp add: e argocd_list_apps_def argo_api_state [symmetric])
  next
    case (AppHistory app)
    with call_api_inv [OF assms get_ok, of app w] assms show ?thesis
      by (cases "argo_api w ''GET'' (''/applications/'' @ text_of app) None c")
        (simp add: e argocd_app_history_def argo_api_state [symmetric])
  next
    case (Rollback app revision)
    show ?thesis
    proof (cases "valid_app_name app \<and> revision_id fmt revision \<noteq> None")
      case True
      then obtain n where "valid_app_name app" "revision_id fmt revision = Some n" by auto
      with call_api_inv [OF assms post_ok [of app _ _ n], of w] Rollback show ?thesis
        by (cases "argo_api w ''POST'' (''/applications/'' @ text_of app @ ''/rollback'')
            (Some (PDict [(''id'', PInt (int n))])) c")
          (simp add: e argocd_rollback_def argo_api_state [symmetric])
    next
      case False
      with Rollback assms show ?thesis by (auto simp: e argocd_rollback_def)
    qed
  next
    case (AppGet app)
    with call_api_inv [OF assms get_ok, of app w] assms show ?thesis
      by (simp add: e argocd_app_get_def argo_api_state [symmetric])
  qed
qed

interpretation argo: machine "argo_step fmt" client_inv for fmt
  by unfold_locales (simp add: argo_step_inv)

lemma client_inv_start: "client_inv argo_start"
  by (simp add: argo_start_def client_inv_def cache_backed_def)

text \<open>
  C22. After any sequence of Argo CD tool calls, under any change of the environment between them, every
  request to the API carries a token that the same server issued earlier at a login; a token never
  goes to another server.
\<close>

theorem tokens_stay_with_their_server:
  "tokens_bound [] (ac_log (run (argo_step fmt) argo_start calls))"
  using argo.inv_run [OF client_inv_start] by (simp add: client_inv_def)

text \<open>
  Whatever a model passes, the Argo CD tools only read the applications or post a rollback of one
  validly named application to a numbered revision, and one tool call makes at most four requests,
  the logins included.
\<close>

theorem argo_requests_are_bounded:
  "list_all (permitted_request \<circ> fst) (ac_log (run (argo_step fmt) argo_start calls)) \<and>
   grows 4 (run (argo_step fmt) argo_start calls) (argo_step fmt (run (argo_step fmt) argo_start calls) call)"
  using argo_step_inv [OF argo.inv_run [OF client_inv_start]] argo.inv_run [OF client_inv_start, of fmt calls]
  by (simp add: client_inv_def)

end
