(* ===== verification/RewardContract.thy ===== *)
theory RewardContract
  imports StepReward Json
begin

text \<open>
  \<open>config/runtime.py\<close>, \<open>evaluate_reward_contract\<close>: the reward of a whole episode used by training,
  evaluation and benchmarks.  \<open>math.exp\<close> is a parameter that yields \<open>None\<close> where it raises
  \<open>OverflowError\<close>; \<open>pf\<close> is \<open>float\<close> of text, \<open>ff\<close> the text of a float and \<open>fmt\<close> the text of a value.
  Finite floats are the rationals they denote; infinities and \<open>NaN\<close> follow Python's comparisons.
\<close>

section \<open>Floats\<close>

definition py_float :: "(string \<Rightarrow> pyfloat option) \<Rightarrow> pyval \<Rightarrow> py_exn + pyfloat" where
  "py_float pf v =
     (case num_float v of
        Some x \<Rightarrow> Inr x
      | None \<Rightarrow>
          (case v of
             PStr s \<Rightarrow> (case pf s of Some x \<Rightarrow> Inr x | None \<Rightarrow> Inl ValueError)
           | _ \<Rightarrow> Inl TypeError))"

fun float_add :: "pyfloat \<Rightarrow> pyfloat \<Rightarrow> pyfloat" where
  "float_add (FFin a) (FFin b) = FFin (a + b)"
| "float_add FNan _ = FNan"
| "float_add _ FNan = FNan"
| "float_add FInf FNegInf = FNan"
| "float_add FNegInf FInf = FNan"
| "float_add FInf _ = FInf"
| "float_add _ FInf = FInf"
| "float_add FNegInf _ = FNegInf"
| "float_add _ FNegInf = FNegInf"

fun float_map :: "(rat \<Rightarrow> rat) \<Rightarrow> pyfloat \<Rightarrow> pyfloat" where
  "float_map f (FFin a) = FFin (f a)"
| "float_map f x = x"

fun float_less :: "pyfloat \<Rightarrow> rat \<Rightarrow> bool" where
  "float_less (FFin a) b = (a < b)"
| "float_less FNegInf b = True"
| "float_less _ b = False"

fun float_at_least :: "pyfloat \<Rightarrow> rat \<Rightarrow> bool" where
  "float_at_least (FFin a) b = (b \<le> a)"
| "float_at_least FInf b = True"
| "float_at_least _ b = False"

text \<open>\<open>max(0.0, min(1.0, v))\<close>: \<open>min\<close> keeps \<open>1.0\<close> unless \<open>v < 1.0\<close>, which a \<open>NaN\<close> is not.\<close>

fun clamp01 :: "pyfloat \<Rightarrow> rat" where
  "clamp01 (FFin a) = max 0 (min 1 a)"
| "clamp01 FNegInf = 0"
| "clamp01 _ = 1"

section \<open>The speed of an episode\<close>

definition SPEED_MIDPOINTS :: "(string \<times> rat) list" where
  "SPEED_MIDPOINTS =
     [(''warmup'', 90), (''single_fault'', 150), (''cascade'', 240), (''multi_fault'', 300),
      (''named_replays'', 300), (''adversarial'', 360)]"

definition speed_midpoint :: "string \<Rightarrow> rat" where
  "speed_midpoint tier = (case map_of SPEED_MIDPOINTS tier of Some m \<Rightarrow> m | None \<Rightarrow> 240)"

text \<open>The exponential of an infinity or a \<open>NaN\<close> does not overflow.\<close>

fun bounded_speed_score :: "(rat \<Rightarrow> rat option) \<Rightarrow> pyfloat \<Rightarrow> string \<Rightarrow> py_exn + rat" where
  "bounded_speed_score expf (FFin s) tier =
     (case expf ((s - speed_midpoint tier) / 40) of
        None \<Rightarrow> Inl OverflowError
      | Some e \<Rightarrow> Inr (max 0 (min 1 (1 / (1 + e)))))"
| "bounded_speed_score expf FInf tier = Inr 0"
| "bounded_speed_score expf FNegInf tier = Inr 1"
| "bounded_speed_score expf FNan tier = Inr 1"

section \<open>Reading an episode\<close>

record episode_facts =
  ef_tier :: string
  ef_resolved :: bool
  ef_claimed :: bool
  ef_partial :: bool
  ef_turns :: int
  ef_speed :: rat
  ef_reasoning :: pyfloat
  ef_correctness :: pyfloat
  ef_efficiency :: pyfloat
  ef_red_herring :: pyfloat
  ef_postmortem :: bool
  ef_silence :: bool

definition read_episode ::
  "(pyval \<Rightarrow> string) \<Rightarrow> (rat \<Rightarrow> string) \<Rightarrow> (string \<Rightarrow> pyfloat option) \<Rightarrow> (rat \<Rightarrow> rat option) \<Rightarrow> pydict \<Rightarrow>
   py_exn + episode_facts" where
  "read_episode fmt ff pf expf e =
     (let tier = py_str fmt (dget_or e ''tier'' (PStr ''unknown''));
          outcome = py_str fmt (dget_or e ''outcome'' (PStr ''unknown'')) in
      rbind (py_int (dget_or e ''total_turns'' (PInt 0))) (\<lambda>turns.
      rbind (py_float pf (dget_or e ''time_to_resolve_s'' (PInt 9999))) (\<lambda>ttr.
      rbind (need_dict (py_or (dget_or e ''judge'' (PDict [])) (PDict []))) (\<lambda>judge.
      rbind (py_float pf (dget_or judge ''reasoning'' (PInt 0))) (\<lambda>reasoning.
      rbind (py_float pf (dget_or judge ''correctness'' (PInt 0))) (\<lambda>correctness.
      rbind (py_float pf (dget_or judge ''efficiency'' (PInt 0))) (\<lambda>efficiency.
      rbind (py_float pf (dget_or judge ''red_herring_handling'' (PFloat (FFin (1 / 2))))) (\<lambda>red_herring.
      rbind (bounded_speed_score expf ttr tier) (\<lambda>speed.
        Inr \<lparr>ef_tier = tier,
             ef_resolved = (dget e ''env_resolved'' = PBool True),
             ef_claimed = truthy (dget_or e ''agent_claimed_resolved''
               (PBool (dget e ''outcome'' = PStr ''resolved''))),
             ef_partial = (outcome = ''partial''),
             ef_turns = turns, ef_speed = speed, ef_reasoning = reasoning,
             ef_correctness = correctness, ef_efficiency = efficiency, ef_red_herring = red_herring,
             ef_postmortem = truthy (dget e ''postmortem_path''),
             ef_silence = contains (py_lower (plain_text ff (PDict e))) ''silence''\<rparr>)))))))))"

section \<open>The score\<close>

definition resolve_score :: "episode_facts \<Rightarrow> rat" where
  "resolve_score g = (if ef_resolved g then 1 else if ef_partial g then 1 / 2 else 0)"

definition evidence_score :: "episode_facts \<Rightarrow> rat" where
  "evidence_score g = clamp01 (float_map (\<lambda>x. x / 2) (float_add (ef_reasoning g) (ef_correctness g)))"

definition comms_score :: "episode_facts \<Rightarrow> rat" where
  "comms_score g = (if ef_postmortem g then 1 else 3 / 10)"

definition red_herring_bonus :: "episode_facts \<Rightarrow> rat" where
  "red_herring_bonus g =
     (if ef_tier g \<in> {''multi_fault'', ''named_replays'', ''adversarial''} \<and>
         float_at_least (ef_red_herring g) (4 / 5) then 15 / 100 else 0)"

definition base_penalties :: "episode_facts \<Rightarrow> (string \<times> rat) list" where
  "base_penalties g =
     [(''command_spam'', if ef_turns g > 40 then 1 / 10 else 0),
      (''false_resolution'', if ef_claimed g \<and> \<not> ef_resolved g then 1 / 4 else 0),
      (''unsafe_shortcut'', if float_less (ef_efficiency g) (3 / 10) then 1 / 5 else 0),
      (''hallucinated_evidence'',
        if float_less (ef_reasoning g) (1 / 4) \<and> float_less (ef_correctness g) (1 / 2) then 1 / 5 else 0),
      (''over_silence'', if ef_silence g \<and> \<not> ef_resolved g then 1 / 10 else 0),
      (''phase_skip'', if ef_turns g < 4 \<and> \<not> ef_resolved g then 1 / 5 else 0),
      (''lazy_investigation'',
        if ef_resolved g \<and> ef_turns g < 5 \<and> ef_tier g \<notin> {''warmup'', ''single_fault''} then 15 / 100 else 0)]"

definition penalties :: "episode_facts \<Rightarrow> (string \<times> rat) list" where
  "penalties g =
     (if ef_tier g \<in> {''adversarial'', ''named_replays''}
      then map (\<lambda>(k, v). (k, v * (5 / 4))) (base_penalties g) else base_penalties g)"

record reward_weights =
  wt_resolve :: rat
  wt_speed :: rat
  wt_evidence :: rat
  wt_safety :: rat
  wt_comms :: rat

definition BASE_REWARD_WEIGHTS :: reward_weights where
  "BASE_REWARD_WEIGHTS =
     \<lparr>wt_resolve = 35 / 100, wt_speed = 15 / 100, wt_evidence = 1 / 5, wt_safety = 1 / 5, wt_comms = 1 / 10\<rparr>"

definition tier_weights :: "string \<Rightarrow> reward_weights" where
  "tier_weights tier =
     (if tier = ''single_fault'' then BASE_REWARD_WEIGHTS\<lparr>wt_evidence := 1 / 4, wt_speed := 1 / 10\<rparr>
      else if tier = ''cascade'' then
        BASE_REWARD_WEIGHTS\<lparr>wt_resolve := 3 / 10, wt_evidence := 1 / 4, wt_speed := 1 / 10\<rparr>
      else if tier = ''multi_fault'' then
        BASE_REWARD_WEIGHTS\<lparr>wt_safety := 1 / 4, wt_evidence := 1 / 4, wt_speed := 1 / 10\<rparr>
      else if tier \<in> {''adversarial'', ''named_replays''} then
        BASE_REWARD_WEIGHTS\<lparr>wt_safety := 1 / 4, wt_evidence := 1 / 4, wt_speed := 1 / 20\<rparr>
      else BASE_REWARD_WEIGHTS)"

definition weighted_score :: "episode_facts \<Rightarrow> rat" where
  "weighted_score g =
     (let w = tier_weights (ef_tier g) in
      wt_resolve w * resolve_score g + wt_speed w * ef_speed g + wt_evidence w * evidence_score g
      + wt_safety w * clamp01 (ef_efficiency g) + wt_comms w * comms_score g + red_herring_bonus g)"

definition penalty_total :: "episode_facts \<Rightarrow> rat" where
  "penalty_total g = sum_list (map snd (penalties g))"

definition total_score :: "episode_facts \<Rightarrow> rat" where
  "total_score g = max 0 (min 1 (weighted_score g - penalty_total g))"

definition rounded :: "rat \<Rightarrow> pyval" where
  "rounded x = PFloat (FFin (round4 x))"

definition reward_report :: "episode_facts \<Rightarrow> pydict" where
  "reward_report g =
     [(''components'', PDict
        [(''resolve'', rounded (resolve_score g)), (''speed'', rounded (ef_speed g)),
         (''evidence'', rounded (evidence_score g)), (''safety'', rounded (clamp01 (ef_efficiency g))),
         (''comms'', rounded (comms_score g)), (''red_herring_bonus'', rounded (red_herring_bonus g))]),
      (''penalties'', PDict (map (\<lambda>(k, v). (k, rounded v)) (penalties g))),
      (''penalty_total'', rounded (penalty_total g)),
      (''total'', rounded (total_score g))]"

definition evaluate_reward_contract ::
  "(pyval \<Rightarrow> string) \<Rightarrow> (rat \<Rightarrow> string) \<Rightarrow> (string \<Rightarrow> pyfloat option) \<Rightarrow> (rat \<Rightarrow> rat option) \<Rightarrow> pydict \<Rightarrow>
   py_exn + pydict" where
  "evaluate_reward_contract fmt ff pf expf e =
     rbind (read_episode fmt ff pf expf e) (\<lambda>g. Inr (reward_report g))"

section \<open>Bounds\<close>

text \<open>A value of a report that is a float between two bounds.\<close>

definition float_within :: "rat \<Rightarrow> rat \<Rightarrow> pyval \<Rightarrow> bool" where
  "float_within lo hi v \<longleftrightarrow> (case v of PFloat (FFin r) \<Rightarrow> lo \<le> r \<and> r \<le> hi | _ \<Rightarrow> False)"

lemma round4_mono: "x \<le> y \<Longrightarrow> round4 x \<le> round4 y"
  unfolding round4_def by (simp add: divide_right_mono round_half_even_mono)

lemma round4_ten_thousandth: "round4 (of_int n / 10000) = of_int n / 10000"
  by (simp add: round4_def)

lemma rounded_within:
  assumes "of_int lo / 10000 \<le> x" and "x \<le> of_int hi / 10000"
  shows "float_within (of_int lo / 10000) (of_int hi / 10000) (rounded x)"
  using round4_mono [OF assms(1)] round4_mono [OF assms(2)]
  by (simp add: float_within_def rounded_def round4_ten_thousandth)

lemma rounded_unit: "0 \<le> x \<Longrightarrow> x \<le> 1 \<Longrightarrow> float_within 0 1 (rounded x)"
  using rounded_within [of 0 x 10000] by simp

lemma clamp01_unit: "0 \<le> clamp01 x \<and> clamp01 x \<le> 1"
  by (cases x) auto

lemma speed_unit: "bounded_speed_score expf s tier = Inr v \<Longrightarrow> 0 \<le> v \<and> v \<le> 1"
  by (cases s) (auto split: option.splits)

lemma read_speed_unit: "read_episode fmt ff pf expf e = Inr g \<Longrightarrow> 0 \<le> ef_speed g \<and> ef_speed g \<le> 1"
  by (auto simp: read_episode_def rbind_eq_Inr Let_def dest: speed_unit)

text \<open>
  Every episode that is scored at all gets a total, and components of resolution, speed, evidence,
  safety and communication, between 0 and 1, whatever the judge and the agent reported.
\<close>

theorem reward_components_are_bounded:
  assumes "evaluate_reward_contract fmt ff pf expf e = Inr report"
  shows "float_within 0 1 (dget report ''total'') \<and>
    list_all (\<lambda>k. float_within 0 1 (dget (as_dict (dget report ''components'')) k))
      [''resolve'', ''speed'', ''evidence'', ''safety'', ''comms'']"
proof -
  from assms obtain g where g: "read_episode fmt ff pf expf e = Inr g" "report = reward_report g"
    by (auto simp: evaluate_reward_contract_def rbind_eq_Inr)
  then show ?thesis
    using read_speed_unit [OF g(1)] clamp01_unit
    by (auto simp: reward_report_def evidence_score_def resolve_score_def comms_score_def total_score_def
        intro!: rounded_unit)
qed

lemma sample_reward:
  "\<exists>report. evaluate_reward_contract (\<lambda>_. '''') (\<lambda>_. '''') (\<lambda>_. None) (\<lambda>_. Some 1) [] = Inr report"
  by (simp add: evaluate_reward_contract_def read_episode_def py_float_def py_or_def)

theorem reward_components_are_bounded_witness:
  "\<exists>report. float_within 0 1 (dget report ''total'')"
  using sample_reward reward_components_are_bounded by blast

section \<open>What pays\<close>

lemma penalties_nonneg: "0 \<le> penalty_total g"
  unfolding penalty_total_def
  by (rule sum_list_nonneg_rat) (auto simp: penalties_def base_penalties_def split: if_splits)

definition unresolved_view :: "episode_facts \<Rightarrow> episode_facts" where
  "unresolved_view g = g\<lparr>ef_resolved := False\<rparr>"

lemma weights_nonneg:
  "3 / 10 \<le> wt_resolve (tier_weights tier)"
  by (simp add: tier_weights_def BASE_REWARD_WEIGHTS_def)

lemma penalty_sum:
  "penalty_total g =
     (if ef_tier g \<in> {''adversarial'', ''named_replays''} then 5 / 4 else 1) * sum_list (map snd (base_penalties g))"
  by (simp add: penalty_total_def penalties_def base_penalties_def algebra_simps)

lemma base_penalties_drop:
  "ef_resolved g \<Longrightarrow> 5 \<le> ef_turns g \<Longrightarrow>
   sum_list (map snd (base_penalties g)) \<le> sum_list (map snd (base_penalties (unresolved_view g)))"
  by (simp add: base_penalties_def unresolved_view_def)

text \<open>
  Only the environment's word pays: an episode of at least five turns scores at least as much when
  the environment confirms the resolution as the same episode without that confirmation, whatever the
  agent claims; and claiming a resolution the environment does not confirm never raises the score.
\<close>

theorem confirmed_resolution_pays:
  assumes r: "ef_resolved g" "5 \<le> ef_turns g"
  shows "total_score (unresolved_view g) \<le> total_score g \<and>
    total_score (h\<lparr>ef_claimed := True\<rparr>) \<le> total_score (h\<lparr>ef_claimed := False\<rparr>)"
proof (rule conjI)
  have "weighted_score (unresolved_view g) \<le> weighted_score g"
    using weights_nonneg [of "ef_tier g"] r
    by (auto simp: weighted_score_def unresolved_view_def resolve_score_def evidence_score_def comms_score_def
        red_herring_bonus_def Let_def)
  moreover have "penalty_total g \<le> penalty_total (unresolved_view g)"
    using base_penalties_drop [OF r] by (simp add: penalty_sum) (simp add: unresolved_view_def)
  ultimately show "total_score (unresolved_view g) \<le> total_score g" by (simp add: total_score_def)
  have "weighted_score (h\<lparr>ef_claimed := True\<rparr>) = weighted_score (h\<lparr>ef_claimed := False\<rparr>)"
    by (simp add: weighted_score_def resolve_score_def evidence_score_def comms_score_def red_herring_bonus_def Let_def)
  moreover have "penalty_total (h\<lparr>ef_claimed := False\<rparr>) \<le> penalty_total (h\<lparr>ef_claimed := True\<rparr>)"
    by (simp add: penalty_sum base_penalties_def)
  ultimately show "total_score (h\<lparr>ef_claimed := True\<rparr>) \<le> total_score (h\<lparr>ef_claimed := False\<rparr>)"
    by (simp add: total_score_def)
qed

definition sample_facts :: episode_facts where
  "sample_facts =
     \<lparr>ef_tier = ''named_replays'', ef_resolved = True, ef_claimed = False, ef_partial = True, ef_turns = 9,
      ef_speed = 1, ef_reasoning = FFin 1, ef_correctness = FFin 1, ef_efficiency = FFin 1,
      ef_red_herring = FFin 0, ef_postmortem = True, ef_silence = False\<rparr>"

theorem confirmed_resolution_pays_witness:
  "total_score (unresolved_view sample_facts) \<le> total_score sample_facts"
  using confirmed_resolution_pays [of sample_facts] by (simp add: sample_facts_def)

text \<open>
  A resolution in four turns on a named replay is worth less than the same episode left partial: the
  penalty for a quick resolution exceeds what resolving adds.
\<close>

lemma quick_resolution_scores_less_than_partial:
  "\<exists>g. ef_resolved g \<and> ef_turns g = 4 \<and> total_score g < total_score (unresolved_view g)"
proof -
  let ?g = "\<lparr>ef_tier = ''named_replays'', ef_resolved = True, ef_claimed = False, ef_partial = True, ef_turns = 4,
    ef_speed = 1, ef_reasoning = FFin 1, ef_correctness = FFin 1, ef_efficiency = FFin 1,
    ef_red_herring = FFin 0, ef_postmortem = True, ef_silence = False\<rparr>"
  have "total_score ?g < total_score (unresolved_view ?g)"
    by (simp add: total_score_def weighted_score_def penalty_sum base_penalties_def unresolved_view_def
        resolve_score_def evidence_score_def comms_score_def red_herring_bonus_def tier_weights_def
        BASE_REWARD_WEIGHTS_def)
  then show ?thesis by (intro exI [of _ ?g]) simp
qed

text \<open>
  \<open>math.exp\<close> raises beyond about 709.78, so an incident of eight hours has no reward at all: the call
  raises instead of scoring its speed 0.
\<close>

lemma long_incident_raises:
  assumes "\<And>x. x > 710 \<Longrightarrow> expf x = None"
    and "dget e ''time_to_resolve_s'' = PInt 28800" and "dget e ''total_turns'' = PInt n"
    and "dget e ''judge'' = PDict []" and "dget e ''tier'' = PStr ''cascade''"
  shows "evaluate_reward_contract fmt ff pf expf e = Inl OverflowError"
proof -
  have get: "dget_or e k d = v" if "dget e k = v" "v \<noteq> PNone" for k d v
    using that by (auto simp: dget_def dget_or_def split: option.splits)
  have "expf ((28800 - 240) / 40) = None" by (rule assms(1)) simp
  then show ?thesis
    by (simp add: evaluate_reward_contract_def read_episode_def get [OF assms(2)] get [OF assms(3)]
        get [OF assms(4)] get [OF assms(5)] py_or_def py_float_def speed_midpoint_def SPEED_MIDPOINTS_def)
qed

end
