(* ===== verification/Curriculum.thy ===== *)
theory Curriculum
  imports PyValue "HOL-Library.Multiset" "HOL-Library.List_Lexorder" "HOL-Library.Product_Lexorder"
begin

text \<open>
  \<open>config/runtime.py\<close>, the scenario catalogue and \<open>CurriculumManager\<close>: which training scenario comes
  next.  The manager's dictionaries are association lists.  The draw of \<open>random.choices\<close> is a
  parameter: the index it returns.  Floats are the rationals they denote.
\<close>

section \<open>The catalogue\<close>

text \<open>\<open>f"{i:03d}"\<close> for the one-digit numbers of the catalogue.\<close>

definition numbered :: "string \<Rightarrow> nat \<Rightarrow> string list" where
  "numbered stem n = map (\<lambda>i. stem @ ''-00'' @ nat_digits i) [1..<n + 1]"

definition FROZEN_SCENARIOS_BY_TIER :: "(string \<times> string list) list" where
  "FROZEN_SCENARIOS_BY_TIER =
     [(''single_fault'', numbered ''single_fault/sf'' 8),
      (''cascade'', numbered ''cascade/cs'' 5),
      (''multi_fault'', numbered ''multi_fault/mf'' 5),
      (''named_replays'', map (\<lambda>s. ''named_replays/hist-'' @ s)
        [''cloudflare-2019'', ''aws-s3-2017'', ''github-2018'', ''datadog-2023'', ''discord-2022'',
         ''fastly-2021'', ''facebook-bgp-2021'', ''slack-2022'', ''azure-dns-2019'', ''knight-capital-2012''])]"

definition FROZEN_SCENARIOS :: "string list" where
  "FROZEN_SCENARIOS = concat (map snd FROZEN_SCENARIOS_BY_TIER)"

definition before_slash :: "string \<Rightarrow> string" where
  "before_slash s = takeWhile (\<lambda>c. c \<noteq> CHR ''/'') s"

section \<open>The manager\<close>

record manager =
  cm_history :: "(string \<times> (int \<times> rat) list) list"
  cm_graduated :: "(string \<times> nat) list"
  cm_next_resurface :: "(string \<times> int) list"
  cm_recent :: "string list"
  cm_episode_count :: int

definition new_manager :: manager where
  "new_manager =
     \<lparr>cm_history = [], cm_graduated = [], cm_next_resurface = [], cm_recent = [], cm_episode_count = 0\<rparr>"

definition SPACED_REP_INTERVALS :: "int list" where
  "SPACED_REP_INTERVALS = [3, 6, 12, 24, 48]"

definition MASTERY_THRESHOLD :: rat where "MASTERY_THRESHOLD = 7 / 10"
definition MASTERY_WINDOW :: nat where "MASTERY_WINDOW = 10"
definition MASTERY_DECAY :: rat where "MASTERY_DECAY = 85 / 100"
definition MIN_ATTEMPTS_FOR_MASTERY :: nat where "MIN_ATTEMPTS_FOR_MASTERY = 3"

definition attempts :: "manager \<Rightarrow> string \<Rightarrow> (int \<times> rat) list" where
  "attempts m s = (case map_of (cm_history m) s of None \<Rightarrow> [] | Some h \<Rightarrow> h)"

definition last_n :: "nat \<Rightarrow> 'a list \<Rightarrow> 'a list" where
  "last_n n xs = drop (length xs - n) xs"

text \<open>
  The weighted mean of the last ten rewards; the newest has weight 1, each older one the decay times
  its successor's.
\<close>

fun weighted_sums :: "rat list \<Rightarrow> rat \<times> rat" where
  "weighted_sums [] = (0, 0)"
| "weighted_sums (r # rs) =
     (let w = MASTERY_DECAY ^ length rs; (s, t) = weighted_sums rs in (w * r + s, w + t))"

definition success_rate :: "manager \<Rightarrow> string \<Rightarrow> rat" where
  "success_rate m s =
     (let (total, weight) = weighted_sums (map snd (last_n MASTERY_WINDOW (attempts m s))) in
      if weight \<noteq> 0 then total / weight else 0)"

definition is_mastered :: "manager \<Rightarrow> string \<Rightarrow> bool" where
  "is_mastered m s \<longleftrightarrow>
     MIN_ATTEMPTS_FOR_MASTERY \<le> length (attempts m s) \<and> MASTERY_THRESHOLD \<le> success_rate m s"

definition note_attempt :: "string \<Rightarrow> rat \<Rightarrow> manager \<Rightarrow> manager" where
  "note_attempt s reward m =
     m\<lparr>cm_history := AList.update s (attempts m s @ [(cm_episode_count m, reward)]) (cm_history m),
       cm_recent := last_n 2 (cm_recent m @ [s])\<rparr>"

definition update_graduation :: "string \<Rightarrow> bool \<Rightarrow> manager \<Rightarrow> manager" where
  "update_graduation s resolved m =
     (case map_of (cm_graduated m) s of
        Some i \<Rightarrow>
          m\<lparr>cm_graduated := AList.update s
              (if resolved then min (i + 1) (length SPACED_REP_INTERVALS - 1) else 0) (cm_graduated m)\<rparr>
      | None \<Rightarrow>
          (if is_mastered m s then m\<lparr>cm_graduated := AList.update s 0 (cm_graduated m)\<rparr> else m))"

definition schedule_resurface :: "string \<Rightarrow> manager \<Rightarrow> manager" where
  "schedule_resurface s m =
     (case map_of (cm_graduated m) s of
        None \<Rightarrow> m
      | Some i \<Rightarrow>
          m\<lparr>cm_next_resurface :=
              AList.update s (cm_episode_count m + SPACED_REP_INTERVALS ! i) (cm_next_resurface m)\<rparr>)"

definition record_episode :: "string \<Rightarrow> bool \<Rightarrow> rat \<Rightarrow> manager \<Rightarrow> manager" where
  "record_episode s resolved reward m =
     (let m1 = schedule_resurface s (update_graduation s resolved (note_attempt s reward m))
      in m1\<lparr>cm_episode_count := cm_episode_count m1 + 1\<rparr>)"

definition is_due :: "manager \<Rightarrow> string \<Rightarrow> bool" where
  "is_due m s \<longleftrightarrow>
     (case map_of (cm_next_resurface m) s of None \<Rightarrow> False | Some ep \<Rightarrow> ep \<le> cm_episode_count m)"

definition priority_score :: "manager \<Rightarrow> string \<Rightarrow> rat" where
  "priority_score m s =
     (if attempts m s = [] then 100 else 0) + 50 * (1 - success_rate m s)
     + (if is_due m s then 30 else 0) - (if s \<in> set (cm_recent m) then 20 else 0)"

text \<open>
  The three best candidates, best first; ties are broken by name and tier, as tuples compare.  \<open>draw\<close>
  is the index \<open>random.choices\<close> picks for the given weights, one of those with a positive weight.
\<close>

definition ranked :: "manager \<Rightarrow> (string \<times> string) list \<Rightarrow> (rat \<times> string \<times> string) list" where
  "ranked m pool = rev (sort (map (\<lambda>(s, tier). (priority_score m s, s, tier)) pool))"

definition effective_pool :: "(string \<times> string) list \<Rightarrow> (string \<times> string) list" where
  "effective_pool pool =
     (if pool = [] then map (\<lambda>s. (s, before_slash s)) FROZEN_SCENARIOS else pool)"

definition top_candidates :: "manager \<Rightarrow> (string \<times> string) list \<Rightarrow> (rat \<times> string \<times> string) list" where
  "top_candidates m pool = take 3 (ranked m (effective_pool pool))"

definition choice_weights :: "(rat \<times> string \<times> string) list \<Rightarrow> rat list" where
  "choice_weights best =
     (let weights = map (\<lambda>(score, _). max score (1 / 100)) best
      in map (\<lambda>w. w / sum_list weights) weights)"

definition next_scenario ::
  "(rat list \<Rightarrow> nat) \<Rightarrow> manager \<Rightarrow> (string \<times> string) list \<Rightarrow> string \<times> string" where
  "next_scenario draw m pool =
     (let best = top_candidates m pool in snd (best ! draw (choice_weights best)))"

definition curriculum_stats :: "manager \<Rightarrow> pydict" where
  "curriculum_stats m =
     [(''total_episodes'', PInt (cm_episode_count m)),
      (''scenarios_tried'', PInt (int (length (cm_history m)))),
      (''graduated'', PInt (int (length (cm_graduated m)))),
      (''due_for_resurface'', PInt (int (length (filter (\<lambda>(s, ep). ep \<le> cm_episode_count m) (cm_next_resurface m)))))]"

section \<open>Invariants\<close>

text \<open>A recorded episode: the scenario, whether it was resolved, and its reward.\<close>

fun curriculum_step :: "manager \<Rightarrow> string \<times> bool \<times> rat \<Rightarrow> manager" where
  "curriculum_step m (s, resolved, reward) = record_episode s resolved reward m"

text \<open>
  What holds of the manager after every history: a scenario is scheduled exactly when it is graduated,
  at one of the five intervals after its own last episode; at some point its attempts were enough to
  master it; nothing is scheduled more than 48 episodes ahead; and the stored attempts add up to the
  episode count.
\<close>

definition mastered_by :: "(int \<times> rat) list \<Rightarrow> bool" where
  "mastered_by h \<longleftrightarrow>
     3 \<le> length h \<and> (case weighted_sums (map snd (last_n 10 h)) of (earned, weight) \<Rightarrow> 7 / 10 \<le> earned / weight)"

definition scheduled_well :: "manager \<Rightarrow> string \<Rightarrow> bool" where
  "scheduled_well m s \<longleftrightarrow>
     (case (map_of (cm_graduated m) s, map_of (cm_next_resurface m) s) of
        (None, None) \<Rightarrow> True
      | (Some i, Some ep) \<Rightarrow>
          i < 5 \<and> (\<exists>h. prefix h (attempts m s) \<and> mastered_by h) \<and> ep \<le> cm_episode_count m + 47 \<and>
          ep = fst (last (attempts m s)) + SPACED_REP_INTERVALS ! i
      | _ \<Rightarrow> False)"

definition manager_ok :: "manager \<Rightarrow> bool" where
  "manager_ok m \<longleftrightarrow>
     (\<forall>s. scheduled_well m s) \<and> keys_distinct (cm_history m) \<and>
     cm_episode_count m = int (sum_list (map (length \<circ> snd) (cm_history m)))"

lemma is_mastered_iff: "is_mastered m s \<longleftrightarrow> mastered_by (attempts m s)"
  by (simp add: is_mastered_def mastered_by_def success_rate_def MIN_ATTEMPTS_FOR_MASTERY_def MASTERY_THRESHOLD_def
      MASTERY_WINDOW_def split: prod.splits)

lemma attempts_note: "attempts (note_attempt s reward m) s' =
    (if s' = s then attempts m s @ [(cm_episode_count m, reward)] else attempts m s')"
  by (simp add: note_attempt_def attempts_def)

lemma update_fields [simp]:
  "cm_history (update_graduation s resolved m) = cm_history m"
  "cm_next_resurface (update_graduation s resolved m) = cm_next_resurface m"
  "cm_recent (update_graduation s resolved m) = cm_recent m"
  "cm_episode_count (update_graduation s resolved m) = cm_episode_count m"
  by (auto simp: update_graduation_def split: option.splits)

lemma schedule_fields [simp]:
  "cm_history (schedule_resurface s m) = cm_history m"
  "cm_graduated (schedule_resurface s m) = cm_graduated m"
  "cm_recent (schedule_resurface s m) = cm_recent m"
  "cm_episode_count (schedule_resurface s m) = cm_episode_count m"
  by (auto simp: schedule_resurface_def split: option.splits)

lemma attempts_same_history: "cm_history m = cm_history m' \<Longrightarrow> attempts m s = attempts m' s"
  by (simp add: attempts_def)

lemma record_attempts: "attempts (record_episode s resolved reward m) s' =
    (if s' = s then attempts m s @ [(cm_episode_count m, reward)] else attempts m s')"
  using attempts_note [of s reward m s']
  by (simp add: record_episode_def Let_def attempts_def)

lemma sum_lengths_update:
  assumes "keys_distinct d"
  shows "sum_list (map (length \<circ> snd) (AList.update k v d)) + (case map_of d k of None \<Rightarrow> 0 | Some h \<Rightarrow> length h) =
    sum_list (map (length \<circ> snd) d) + length v"
  using assms
proof (induction d)
  case Nil
  then show ?case by simp
next
  case (Cons p d)
  obtain k' h where p: "p = (k', h)" by fastforce
  show ?case
  proof (cases "k' = k")
    case True
    then show ?thesis by (simp add: p)
  next
    case False
    moreover have "keys_distinct d" using Cons.prems by (simp add: keys_distinct_def)
    ultimately show ?thesis using Cons.IH by (simp add: p)
  qed
qed

lemma count_kept:
  assumes "manager_ok m"
  shows "cm_episode_count (record_episode s resolved reward m) =
    int (sum_list (map (length \<circ> snd) (cm_history (record_episode s resolved reward m))))"
  using assms sum_lengths_update [of "cm_history m" s "attempts m s @ [(cm_episode_count m, reward)]"]
  by (auto simp: manager_ok_def record_episode_def Let_def note_attempt_def attempts_def split: option.splits)

lemma interval_bounds: "i < 5 \<Longrightarrow> 3 \<le> SPACED_REP_INTERVALS ! i \<and> SPACED_REP_INTERVALS ! i \<le> 48"
  by (auto simp: SPACED_REP_INTERVALS_def nth_Cons less_Suc_eq numeral_eq_Suc split: nat.splits)

lemma other_scheduled:
  assumes "s' \<noteq> s" and "scheduled_well m s'"
  shows "scheduled_well (record_episode s resolved reward m) s'"
proof -
  have "map_of (cm_graduated (record_episode s resolved reward m)) s' = map_of (cm_graduated m) s'"
    and "map_of (cm_next_resurface (record_episode s resolved reward m)) s' = map_of (cm_next_resurface m) s'"
    using assms(1)
    by (auto simp: record_episode_def Let_def schedule_resurface_def update_graduation_def note_attempt_def
        split: option.splits)
  moreover have "cm_episode_count (record_episode s resolved reward m) = cm_episode_count m + 1"
    by (simp add: record_episode_def Let_def note_attempt_def)
  ultimately show ?thesis
    using assms by (auto simp: scheduled_well_def record_attempts split: option.splits)
qed

lemma own_scheduled:
  assumes "scheduled_well m s"
  shows "scheduled_well (record_episode s resolved reward m) s"
proof -
  let ?m1 = "note_attempt s reward m"
  let ?g = "map_of (cm_graduated (update_graduation s resolved ?m1)) s"
  have same: "map_of (cm_graduated ?m1) s = map_of (cm_graduated m) s"
    "cm_next_resurface ?m1 = cm_next_resurface m" "cm_episode_count ?m1 = cm_episode_count m"
    by (simp_all add: note_attempt_def)
  have att: "attempts (record_episode s resolved reward m) s = attempts m s @ [(cm_episode_count m, reward)]"
    by (simp add: record_attempts)
  have grad: "cm_graduated (record_episode s resolved reward m) = cm_graduated (update_graduation s resolved ?m1)"
    and count: "cm_episode_count (record_episode s resolved reward m) = cm_episode_count m + 1"
    by (simp_all add: record_episode_def Let_def same)
  have resurface: "map_of (cm_next_resurface (record_episode s resolved reward m)) s =
      (case ?g of None \<Rightarrow> map_of (cm_next_resurface m) s
       | Some i \<Rightarrow> Some (cm_episode_count m + SPACED_REP_INTERVALS ! i))"
    by (auto simp: record_episode_def Let_def schedule_resurface_def same split: option.splits)
  show ?thesis
  proof (cases ?g)
    case None
    then have "map_of (cm_graduated m) s = None"
      using same(1) by (auto simp: update_graduation_def split: option.splits if_splits)
    with None assms show ?thesis by (simp add: scheduled_well_def grad resurface split: option.splits)
  next
    case (Some i)
    have i: "i < 5 \<and> (\<exists>h. prefix h (attempts m s @ [(cm_episode_count m, reward)]) \<and> mastered_by h)"
    proof (cases "map_of (cm_graduated m) s")
      case None
      with Some same(1) have "i = 0" "is_mastered ?m1 s"
        by (auto simp: update_graduation_def split: if_splits)
      then show ?thesis by (auto simp: is_mastered_iff attempts_note)
    next
      case (Some j)
      with \<open>?g = Some i\<close> same(1) have "i < 5"
        by (auto simp: update_graduation_def SPACED_REP_INTERVALS_def)
      then show ?thesis using assms Some by (auto simp: scheduled_well_def split: option.splits)
    qed
    then show ?thesis
      using Some interval_bounds [of i] by (simp add: scheduled_well_def grad resurface att count)
  qed
qed

lemma record_keeps: "manager_ok m \<Longrightarrow> manager_ok (record_episode s resolved reward m)"
proof -
  assume ok: "manager_ok m"
  then have "scheduled_well (record_episode s resolved reward m) s'" for s'
    using own_scheduled other_scheduled by (cases "s' = s") (auto simp: manager_ok_def)
  moreover have "keys_distinct (cm_history (record_episode s resolved reward m))"
    using ok by (simp add: record_episode_def Let_def note_attempt_def manager_ok_def)
  ultimately show ?thesis
    using count_kept [OF ok] by (simp add: manager_ok_def)
qed

interpretation curriculum: machine curriculum_step manager_ok
  by unfold_locales (auto simp: record_keeps)

lemma new_manager_ok: "manager_ok new_manager"
  by (simp add: manager_ok_def new_manager_def scheduled_well_def)

text \<open>
  The attempts at a scenario that a history of episodes contains: the number and the reward of each of
  its episodes, in order.
\<close>

definition episodes_of :: "string \<Rightarrow> (string \<times> bool \<times> rat) list \<Rightarrow> (int \<times> rat) list" where
  "episodes_of s episodes =
     map (\<lambda>(i, e). (int i, snd (snd e))) (filter (\<lambda>(i, e). fst e = s) (enumerate 0 episodes))"

lemma episodes_of_snoc:
  "episodes_of s (es @ [e]) = episodes_of s es @ (if fst e = s then [(int (length es), snd (snd e))] else [])"
  by (simp add: episodes_of_def enumerate_append_eq)

lemma last_n_snoc: "0 < n \<Longrightarrow> last_n n (last_n n xs @ [x]) = last_n n (xs @ [x])"
  by (cases "n \<le> length xs") (simp_all add: last_n_def Suc_diff_le)

lemma run_recorded:
  "cm_episode_count (run curriculum_step new_manager es) = int (length es) \<and>
   (\<forall>s. attempts (run curriculum_step new_manager es) s = episodes_of s es) \<and>
   cm_recent (run curriculum_step new_manager es) = last_n 2 (map fst es)"
proof (induction es rule: rev_induct)
  case Nil
  then show ?case by (simp add: new_manager_def attempts_def episodes_of_def last_n_def)
next
  case (snoc e es)
  obtain s resolved reward where e: "e = (s, resolved, reward)" by (cases e)
  let ?m = "run curriculum_step new_manager es"
  have "cm_episode_count (record_episode s resolved reward ?m) = cm_episode_count ?m + 1"
    and "cm_recent (record_episode s resolved reward ?m) = last_n 2 (cm_recent ?m @ [s])"
    by (simp_all add: record_episode_def Let_def note_attempt_def)
  with snoc show ?case by (simp add: run_append e record_attempts episodes_of_snoc last_n_snoc)
qed

text \<open>
  C37. After any history of recorded episodes the manager is consistent with it: its episode count is the
  number of episodes, the attempts at each scenario are exactly its episodes, in order and with their
  rewards, and the recent scenarios are those of the last two; a scenario is scheduled exactly when it is
  graduated, at its interval after its own last episode and at most 48 episodes ahead, and graduation
  took at least three attempts of which the last ten reached the mastery threshold.
\<close>

theorem curriculum_is_consistent:
  "let m = run curriculum_step new_manager episodes in
     manager_ok m \<and> cm_episode_count m = int (length episodes) \<and>
     (\<forall>s. attempts m s = episodes_of s episodes) \<and> cm_recent m = last_n 2 (map fst episodes)"
  using curriculum.inv_run [OF new_manager_ok] run_recorded by (simp add: Let_def)

section \<open>Untried scenarios come first\<close>

lemma weighted_sums_bounds:
  "(\<And>r. r \<in> set rs \<Longrightarrow> 0 \<le> r \<and> r \<le> 1) \<Longrightarrow> 0 \<le> fst (weighted_sums rs) \<and> fst (weighted_sums rs) \<le> snd (weighted_sums rs)"
proof (induction rs)
  case Nil
  then show ?case by simp
next
  case (Cons r rs)
  then have "0 \<le> fst (weighted_sums rs) \<and> fst (weighted_sums rs) \<le> snd (weighted_sums rs)" "0 \<le> r" "r \<le> 1"
    by auto
  moreover have "0 \<le> MASTERY_DECAY ^ length rs" by (simp add: MASTERY_DECAY_def)
  moreover have "0 \<le> MASTERY_DECAY ^ length rs * r" using \<open>0 \<le> r\<close> by (simp add: MASTERY_DECAY_def)
  ultimately show ?case
    using mult_left_le [of r "MASTERY_DECAY ^ length rs"]
    by (cases "weighted_sums rs") (simp add: Let_def)
qed

lemma success_rate_unit:
  assumes "\<And>r. r \<in> snd ` set (attempts m s) \<Longrightarrow> 0 \<le> r \<and> r \<le> 1"
  shows "0 \<le> success_rate m s \<and> success_rate m s \<le> 1"
proof -
  let ?rs = "map snd (last_n MASTERY_WINDOW (attempts m s))"
  have "0 \<le> fst (weighted_sums ?rs) \<and> fst (weighted_sums ?rs) \<le> snd (weighted_sums ?rs)"
    using assms by (intro weighted_sums_bounds) (auto simp: last_n_def dest: in_set_dropD)
  then show ?thesis
    by (auto simp: success_rate_def divide_le_eq_1 split: prod.splits)
qed

lemma run_attempts:
  "set (attempts (run curriculum_step m es) s) \<subseteq> set (attempts m s) \<union> {(i, r) | i r. r \<in> (snd \<circ> snd) ` set es} \<and>
   (attempts (run curriculum_step m es) s = [] \<longleftrightarrow> attempts m s = [] \<and> s \<notin> fst ` set es)"
proof (induction es arbitrary: m)
  case Nil
  then show ?case by simp
next
  case (Cons e es)
  obtain s' resolved reward where e: "e = (s', resolved, reward)" by (cases e)
  from Cons [of "curriculum_step m e"] show ?case
    by (auto simp: e record_attempts split: if_splits)
qed

lemma tried_score:
  assumes "\<And>r. r \<in> snd ` set (attempts m s) \<Longrightarrow> 0 \<le> r \<and> r \<le> 1" and "attempts m s \<noteq> []"
  shows "priority_score m s \<le> 80"
proof -
  have "0 \<le> success_rate m s" using success_rate_unit [of m s] assms(1) by blast
  then show ?thesis using assms(2) by (simp add: priority_score_def)
qed

lemma untried_score: "attempts m s = [] \<Longrightarrow> 130 \<le> priority_score m s"
  by (simp add: priority_score_def success_rate_def last_n_def)

text \<open>
  In a descending list, elements that are above all others are in front: as many as there are, they
  fill the first places.
\<close>

lemma above_all_in_front:
  fixes ys :: "'a :: linorder list"
  assumes "sorted_wrt (\<lambda>x y. y \<le> x) ys" and "\<And>x y. x \<in> set ys \<Longrightarrow> y \<in> set ys \<Longrightarrow> P x \<Longrightarrow> \<not> P y \<Longrightarrow> y < x"
    and "k \<le> length (filter P ys)" and "j < k"
  shows "j < length ys \<and> P (ys ! j)"
proof -
  have j: "j < length ys" using assms(3,4) length_filter_le [of P ys] by linarith
  have "P (ys ! j)"
  proof (rule ccontr)
    assume n: "\<not> P (ys ! j)"
    have "{i. i < length ys \<and> P (ys ! i)} \<subseteq> {..<j}"
    proof
      fix i
      assume i: "i \<in> {i. i < length ys \<and> P (ys ! i)}"
      then have "ys ! j < ys ! i" using assms(2) n j by simp
      then have "\<not> j < i" using sorted_wrt_nth_less [OF assms(1), of j i] i by auto
      moreover have "i \<noteq> j" using i n by auto
      ultimately show "i \<in> {..<j}" by simp
    qed
    then have "card {i. i < length ys \<and> P (ys ! i)} \<le> j" using card_mono [of "{..<j}"] by simp
    then show False using assms(3,4) by (simp add: length_filter_conv_card)
  qed
  with j show ?thesis by simp
qed

lemma ranked_descending: "sorted_wrt (\<lambda>x y. y \<le> x) (ranked m pool)"
  by (simp add: ranked_def sorted_wrt_rev)

lemma length_filter_ranked:
  "length (filter P (ranked m pool)) = length (filter (\<lambda>(s, tier). P (priority_score m s, s, tier)) pool)"
proof -
  let ?zs = "map (\<lambda>(s, tier). (priority_score m s, s, tier)) pool"
  have "mset (filter P (sort ?zs)) = mset (filter P ?zs)" by (simp only: mset_filter mset_sort)
  then have "length (filter P (sort ?zs)) = length (filter P ?zs)" by (rule mset_eq_length)
  moreover have "length (filter P (rev (sort ?zs))) = length (filter P (sort ?zs))"
    by (simp only: rev_filter [symmetric] length_rev)
  moreover have "length (filter P ?zs) = length (filter (\<lambda>(s, tier). P (priority_score m s, s, tier)) pool)"
    by (induction pool) auto
  ultimately show ?thesis by (simp only: ranked_def)
qed

text \<open>
  Novel scenarios are explored first: while the pool holds at least three scenarios that were never
  recorded, and rewards lie between 0 and 1, the next scenario is one of those, whatever the draw.
\<close>

theorem untried_scenarios_come_first:
  assumes draw: "\<And>w. w \<noteq> [] \<Longrightarrow> draw w < length w"
    and rewards: "list_all (\<lambda>(s, resolved, reward). 0 \<le> reward \<and> reward \<le> 1) episodes"
    and untried: "3 \<le> length (filter (\<lambda>(s, tier). s \<notin> set (map fst episodes)) pool)"
  shows "fst (next_scenario draw (run curriculum_step new_manager episodes) pool) \<notin> set (map fst episodes)"
proof -
  let ?m = "run curriculum_step new_manager episodes"
  let ?P = "\<lambda>p :: rat \<times> string \<times> string. fst (snd p) \<notin> set (map fst episodes)"
  let ?ys = "ranked ?m pool"
  have start: "attempts new_manager s = []" for s by (simp add: attempts_def new_manager_def)
  have none: "attempts ?m s = [] \<longleftrightarrow> s \<notin> set (map fst episodes)" for s
    using run_attempts [of new_manager episodes s] by (simp add: start)
  have unit: "0 \<le> r \<and> r \<le> 1" if "r \<in> snd ` set (attempts ?m s)" for r s
    using that run_attempts [of new_manager episodes s] rewards
    by (auto simp: start list_all_iff) fastforce+
  have score: "fst p = priority_score ?m (fst (snd p))" if "p \<in> set ?ys" for p
    using that by (auto simp: ranked_def)
  have above: "y < x" if "x \<in> set ?ys" "y \<in> set ?ys" "?P x" "\<not> ?P y" for x y
  proof -
    have "130 \<le> fst x" using that score untried_score none by simp
    moreover have "fst y \<le> 80" using that score tried_score [OF unit] none by simp
    ultimately show ?thesis by (cases x; cases y) (simp add: less_prod_def)
  qed
  have many: "3 \<le> length (filter ?P ?ys)"
    using untried by (simp add: length_filter_ranked case_prod_unfold)
  have front: "i < length ?ys \<and> ?P (?ys ! i)" if "i < 3" for i
    using above_all_in_front [OF ranked_descending above many that] .
  have pool: "effective_pool pool = pool" using untried by (auto simp: effective_pool_def)
  let ?best = "top_candidates ?m pool"
  have best: "?best = take 3 ?ys" by (simp add: top_candidates_def pool)
  have len: "length ?best = 3" using front [of 2] by (simp add: best)
  moreover have "length (choice_weights ?best) = length ?best" by (simp add: choice_weights_def Let_def)
  ultimately have i: "draw (choice_weights ?best) < 3"
    using draw [of "choice_weights ?best"] by (metis length_0_conv zero_neq_numeral)
  then show ?thesis
    using front [OF i] by (simp add: next_scenario_def Let_def best)
qed

theorem untried_scenarios_come_first_witness:
  "fst (next_scenario (\<lambda>_. 0) (run curriculum_step new_manager [(''a'', True, 1)])
     [(''a'', ''t''), (''b'', ''t''), (''c'', ''t''), (''d'', ''t'')]) \<notin> set (map fst [(''a'', True, 1 :: rat)])"
  by (rule untried_scenarios_come_first) simp_all

end
