(* ===== verification/History.thy ===== *)
theory History
  imports Evidence "HOL-Library.List_Lexorder"
begin

text \<open>
  \<open>agents/incident_history.py\<close>: listing and reading the stored records of incidents.  The file system
  is a record: the names in the directory and what each name leads to.  \<open>loads\<close> is \<open>json.loads\<close> of
  the decoded bytes with duplicate keys and non-finite numbers refused; \<open>scrub\<close> replaces secrets and
  then absolute paths in a text.  A value the projection leaves out is \<open>None\<close>.
\<close>

section \<open>Files\<close>

datatype hist_exn = RecordNotFound | HistoryUnavailable | BadPagination

text \<open>
  A name leads to nothing, to something that cannot be resolved, to something outside the directory or
  not a regular file, to a file that disappears or fails while it is read, or to its content.
\<close>

datatype stored = Absent | Unresolvable | Irregular | Vanishing | Unreadable | Contents string

datatype store_root =
    RootMissing
  | RootBroken
  | RootDirectory "string list" "string \<Rightarrow> stored" bool

definition MAX_RECORD_BYTES :: nat where "MAX_RECORD_BYTES = 1048576"
definition MAX_HISTORY_LIMIT :: int where "MAX_HISTORY_LIMIT = 100"
definition MAX_HISTORY_OFFSET :: int where "MAX_HISTORY_OFFSET = 10000"
definition MAX_DIRECTORY_ENTRIES :: nat where "MAX_DIRECTORY_ENTRIES = 20000"
definition MAX_HISTORY_RECORDS :: nat where "MAX_HISTORY_RECORDS = 10000"
definition MAX_TEXT_CHARS :: nat where "MAX_TEXT_CHARS = 2000"
definition MAX_LIST_ITEMS :: nat where "MAX_LIST_ITEMS = 100"
definition MAX_OBJECT_FIELDS :: nat where "MAX_OBJECT_FIELDS = 100"

record hist_identity =
  hi_type :: string
  hi_incident :: string
  hi_execution :: "string option"

record candidate =
  cd_filename :: string
  cd_identities :: "hist_identity list"
  cd_partial :: bool

definition canonical :: "string \<Rightarrow> hist_identity" where
  "canonical i = \<lparr>hi_type = ''canonical'', hi_incident = i, hi_execution = None\<rparr>"

definition execution_of :: "string \<Rightarrow> string \<Rightarrow> string \<Rightarrow> hist_identity" where
  "execution_of kind i e = \<lparr>hi_type = kind, hi_incident = i, hi_execution = Some e\<rparr>"

definition ends_with :: "string \<Rightarrow> string \<Rightarrow> bool" where
  "ends_with s t \<longleftrightarrow> length t \<le> length s \<and> drop (length s - length t) s = t"

definition without_json :: "string \<Rightarrow> string" where
  "without_json s = take (length s - 5) s"

text \<open>
  \<open>(.+)MARK([0-9a-f]{32})\.json\<close> over the whole name, for the marks \<open>.execution-\<close> and \<open>.partial-\<close>: the
  part behind the mark has a fixed length, so the match is unique; the dot matches no newline.
\<close>

definition marked_file :: "string \<Rightarrow> string \<Rightarrow> (string \<times> string) option" where
  "marked_file mark s =
     (let n = length s - (length mark + 37); i = take n s; e = take 32 (drop (n + length mark) s) in
      if length mark + 37 < length s \<and> s = i @ mark @ e @ ''.json'' \<and> list_all lower_hex e \<and> CHR 0x0A \<notin> set i
      then Some (i, e) else None)"

definition if_valid :: "string \<Rightarrow> string \<Rightarrow> string \<Rightarrow> hist_identity list" where
  "if_valid kind i e =
     (if valid_incident_id (PStr i) \<and> valid_execution_id (PStr e) then [execution_of kind i e] else [])"

definition candidate_for_filename :: "string \<Rightarrow> candidate option" where
  "candidate_for_filename s =
     (if \<not> ends_with s ''.json'' then None
      else
        (let c = without_json s; named = (if valid_incident_id (PStr c) then [canonical c] else []) in
         case marked_file ''.partial-'' s of
           Some (i, e) \<Rightarrow>
             (if named = [] then None
              else Some \<lparr>cd_filename = s, cd_identities = named @ if_valid ''partial'' i e, cd_partial = True\<rparr>)
         | None \<Rightarrow>
             (let ids = (case marked_file ''.execution-'' s of
                  Some (i, e) \<Rightarrow> if_valid ''execution'' i e | None \<Rightarrow> []) @ named
              in if ids = [] then None
                 else Some \<lparr>cd_filename = s, cd_identities = ids, cd_partial = False\<rparr>)))"

text \<open>\<open>_safe_file\<close>: a name that is a path is as good as absent.\<close>

definition safe_file :: "(string \<Rightarrow> stored) \<Rightarrow> string \<Rightarrow> hist_exn + stored option" where
  "safe_file store s =
     (if CHR ''/'' \<in> set s \<or> CHR 0x5C \<in> set s \<or> s = ''.'' then Inr None
      else case store s of
        Absent \<Rightarrow> Inr None
      | Unresolvable \<Rightarrow> Inl HistoryUnavailable
      | Irregular \<Rightarrow> Inr None
      | f \<Rightarrow> Inr (Some f))"

definition read_json :: "(string \<Rightarrow> pyval option) \<Rightarrow> stored \<Rightarrow> bool \<Rightarrow> hist_exn + pydict" where
  "read_json loads f may_lack_execution =
     (case f of
        Contents raw \<Rightarrow>
          (if length raw > MAX_RECORD_BYTES then Inl HistoryUnavailable
           else case loads raw of
             Some (PDict d) \<Rightarrow>
               (if \<not> valid_incident_id (dget d ''incident_id'') then Inl HistoryUnavailable
                else if dhas d ''execution_id'' then
                  (if valid_execution_id (dget d ''execution_id'') then Inr d else Inl HistoryUnavailable)
                else if may_lack_execution then Inr d else Inl HistoryUnavailable)
           | _ \<Rightarrow> Inl HistoryUnavailable)
      | Vanishing \<Rightarrow> Inl RecordNotFound
      | _ \<Rightarrow> Inl HistoryUnavailable)"

definition identity_matches :: "pydict \<Rightarrow> hist_identity \<Rightarrow> bool" where
  "identity_matches d ident \<longleftrightarrow>
     dget d ''incident_id'' = PStr (hi_incident ident) \<and>
     (case hi_execution ident of None \<Rightarrow> True | Some e \<Rightarrow> dget d ''execution_id'' = PStr e)"

definition load_candidate ::
  "(string \<Rightarrow> pyval option) \<Rightarrow> (string \<Rightarrow> stored) \<Rightarrow> candidate \<Rightarrow> hist_exn + (hist_identity \<times> pydict)" where
  "load_candidate loads store c =
     rbind (safe_file store (cd_filename c)) (\<lambda>found.
       case found of
         None \<Rightarrow> Inl RecordNotFound
       | Some f \<Rightarrow>
           rbind (read_json loads f (list_ex (\<lambda>i. hi_type i = ''canonical'') (cd_identities c))) (\<lambda>d.
             case filter (identity_matches d) (cd_identities c) of
               [ident] \<Rightarrow> Inr (ident, d)
             | _ \<Rightarrow> Inl HistoryUnavailable))"

section \<open>What is shown of a record\<close>

definition shortened :: "nat \<Rightarrow> string \<Rightarrow> string" where
  "shortened maximum s = (if length s > maximum then take (maximum - 11) s @ ''[truncated]'' else s)"

definition safe_text :: "(string \<Rightarrow> string) \<Rightarrow> nat \<Rightarrow> string \<Rightarrow> string" where
  "safe_text scrub maximum s = shortened maximum (scrub s)"

definition short_integer :: "int \<Rightarrow> bool" where
  "short_integer i \<longleftrightarrow> length (int_str \<bar>i\<bar>) \<le> 100"

text \<open>Present values of a list of optional ones, and entries added to a dictionary one by one.\<close>

definition kept :: "'a option list \<Rightarrow> 'a list" where
  "kept xs = map the (filter (\<lambda>x. x \<noteq> None) xs)"

definition collect :: "(string \<times> pyval) list \<Rightarrow> pydict" where
  "collect entries = foldl (\<lambda>d (k, v). AList.update k v d) [] entries"

function safe_value :: "(string \<Rightarrow> string) \<Rightarrow> nat \<Rightarrow> pyval \<Rightarrow> pyval option" where
  "safe_value scrub depth v =
     (if depth > 4 then None
      else case v of
        PInt i \<Rightarrow> if short_integer i then Some v else None
      | PFloat x \<Rightarrow> if is_finite_float x then Some v else None
      | PStr s \<Rightarrow> Some (PStr (safe_text scrub MAX_TEXT_CHARS s))
      | PList xs \<Rightarrow> Some (PList (kept (map (safe_value scrub (depth + 1)) (take MAX_LIST_ITEMS xs))))
      | PDict d \<Rightarrow>
          Some (PDict (collect (kept (map (\<lambda>p.
            if secret_key (fst p) then None
            else map_option (\<lambda>w. (safe_text scrub MAX_TEXT_CHARS (fst p), w))
                   (safe_value scrub (depth + 1) (snd p))) (take MAX_OBJECT_FIELDS d)))))
      | _ \<Rightarrow> Some v)"
  by pat_completeness auto

termination safe_value
  by (relation "measure (\<lambda>(_, depth, _). 5 - depth)") auto

declare safe_value.simps [simp del]

text \<open>\<open>_project_fields\<close>: \<open>None\<close> when the source is no dictionary.\<close>

type_synonym projector = "pyval \<Rightarrow> pyval option"

definition project_fields ::
  "(string \<Rightarrow> string) \<Rightarrow> (string \<times> projector) list \<Rightarrow> string list \<Rightarrow> pyval \<Rightarrow> pydict option" where
  "project_fields scrub special names source =
     (case source of
        PDict d \<Rightarrow>
          Some (kept (map (\<lambda>name.
            case map_of d name of
              None \<Rightarrow> None
            | Some v \<Rightarrow>
                map_option (\<lambda>w. (name, w))
                  ((case map_of special name of Some p \<Rightarrow> p | None \<Rightarrow> safe_value scrub 0) v)) names))
      | _ \<Rightarrow> None)"

definition dict_or_none :: "pydict option \<Rightarrow> pyval" where
  "dict_or_none d = (case d of None \<Rightarrow> PNone | Some d \<Rightarrow> PDict d)"

definition project_blast_radius :: "(string \<Rightarrow> string) \<Rightarrow> projector" where
  "project_blast_radius scrub v =
     Some (PDict (case project_fields scrub []
       [''services'', ''namespaces'', ''user_impact_pct'', ''revenue_path_affected''] v of
         None \<Rightarrow> [] | Some d \<Rightarrow> d))"

definition tool_name_char :: "char \<Rightarrow> bool" where
  "tool_name_char c \<longleftrightarrow> ascii_alnum c \<or> c \<in> set ''_.-''"

definition project_evidence_sources :: projector where
  "project_evidence_sources v =
     (case v of
        PList xs \<Rightarrow>
          Some (PList (kept (map (\<lambda>item.
            case item of
              PDict d \<Rightarrow>
                (let tool = dget d ''tool'' in
                 if is_str tool \<and> text_of tool \<noteq> [] \<and> length (text_of tool) \<le> 80 \<and>
                    list_all tool_name_char (text_of tool)
                 then Some (PDict [(''tool'', tool)]) else None)
            | _ \<Rightarrow> None) (take MAX_LIST_ITEMS xs))))
      | _ \<Rightarrow> None)"

definition project_items :: "(string \<Rightarrow> string) \<Rightarrow> string list \<Rightarrow> projector" where
  "project_items scrub names v =
     (case v of
        PList xs \<Rightarrow>
          Some (PList (kept (map (\<lambda>item.
            case project_fields scrub [] names item of
              Some (p # ps) \<Rightarrow> Some (PDict (p # ps))
            | _ \<Rightarrow> None) (take MAX_LIST_ITEMS xs))))
      | _ \<Rightarrow> None)"

definition project_actions :: "(string \<Rightarrow> string) \<Rightarrow> projector" where
  "project_actions scrub = project_items scrub [''step'', ''tool'', ''args'', ''result'', ''status'']"

definition project_checks :: "(string \<Rightarrow> string) \<Rightarrow> projector" where
  "project_checks scrub = project_items scrub [''name'', ''target'', ''passed'', ''required'']"

fun path_parts :: "string \<Rightarrow> string list" where
  "path_parts [] = [[]]"
| "path_parts (x # xs) =
     (if x = CHR ''/'' then [] # path_parts xs
      else case path_parts xs of [] \<Rightarrow> [[x]] | p # ps \<Rightarrow> (x # p) # ps)"

definition project_postmortem_path :: projector where
  "project_postmortem_path v =
     (case v of
        PStr s \<Rightarrow>
          (let rest = drop 17 s in
           if \<not> starts_with s ''docs/postmortems/'' \<or> CHR 0x5C \<in> set s \<or> CHR '':'' \<in> set s \<or>
              list_ex (\<lambda>p. p \<in> {'''', ''.'', ''..''}) (path_parts s) \<or>
              \<not> (1 \<le> length rest \<and> length rest \<le> 240 \<and>
                 list_all (\<lambda>c. ascii_alnum c \<or> c \<in> set ''._/-'') rest)
           then None else Some v)
      | _ \<Rightarrow> None)"

definition project_observed_metrics :: "(string \<Rightarrow> string) \<Rightarrow> projector" where
  "project_observed_metrics scrub v =
     (case v of
        PDict d \<Rightarrow>
          Some (PDict (collect (kept (map (\<lambda>p.
            if secret_key (fst p) then None
            else case snd p of
              PInt i \<Rightarrow> if short_integer i then Some (safe_text scrub 256 (fst p), snd p) else None
            | PFloat x \<Rightarrow> if is_finite_float x then Some (safe_text scrub 256 (fst p), snd p) else None
            | _ \<Rightarrow> None) (take MAX_OBJECT_FIELDS d)))))
      | _ \<Rightarrow> None)"

definition role_projectors :: "(string \<Rightarrow> string) \<Rightarrow> string \<Rightarrow> (string \<times> projector) list" where
  "role_projectors scrub role =
     (if role = ''triage'' then [(''blast_radius'', project_blast_radius scrub)]
      else if role = ''diagnosis'' then [(''evidence'', project_evidence_sources)]
      else if role = ''remediation'' then
        [(''proposed_actions'', project_actions scrub), (''executed_actions'', project_actions scrub)]
      else if role = ''comms'' then [(''postmortem_path'', project_postmortem_path)]
      else [])"

definition project_role :: "(string \<Rightarrow> string) \<Rightarrow> string \<Rightarrow> string list \<Rightarrow> pydict \<Rightarrow> pydict option" where
  "project_role scrub role names d =
     (case dget d role of
        PDict section \<Rightarrow>
          (if is_dict (dget section ''final'')
           then project_fields scrub (role_projectors scrub role) names (dget section ''final'') else None)
      | _ \<Rightarrow> None)"

definition project_verification :: "(string \<Rightarrow> string) \<Rightarrow> pyval \<Rightarrow> pydict option" where
  "project_verification scrub v =
     project_fields scrub
       [(''checks'', project_checks scrub), (''observed_metrics'', project_observed_metrics scrub)]
       [''scenario_id'', ''agent_claimed_resolved'', ''env_resolved'', ''verification_status'',
        ''is_false_resolution'', ''is_false_negative'', ''failed_checks'', ''checks'',
        ''observed_metrics'', ''verification_timestamp''] v"

definition optional_fields :: "(string \<Rightarrow> string) \<Rightarrow> pydict \<Rightarrow> pydict" where
  "optional_fields scrub d =
     kept (map (\<lambda>name. case map_of d name of
         None \<Rightarrow> None | Some v \<Rightarrow> map_option (\<lambda>w. (name, w)) (safe_value scrub 0 v))
       [''scenario_id'', ''episode_status'', ''execution_mode'', ''evidence_class'', ''certification_status'']) @
     kept (map (\<lambda>name. case map_of d name of
         Some v \<Rightarrow> if v = PNone \<or> is_bool v then Some (name, v) else None | None \<Rightarrow> None)
       [''agent_claimed_resolved'', ''env_resolved'', ''resolved''])"

definition project_record :: "(string \<Rightarrow> string) \<Rightarrow> pydict \<Rightarrow> string \<Rightarrow> pydict" where
  "project_record scrub d kind =
     [(''incident_id'', dget d ''incident_id''),
      (''execution_id'', dget d ''execution_id''),
      (''record_type'', PStr kind),
      (''triage'', dict_or_none (project_role scrub ''triage''
        [''severity'', ''title'', ''blast_radius'', ''affected_services'', ''correlated_alerts'', ''handoff_notes''] d)),
      (''diagnosis'', dict_or_none (project_role scrub ''diagnosis''
        [''root_cause'', ''category'', ''confidence'', ''blast_radius_update'', ''recommended_fix'', ''evidence''] d)),
      (''remediation'', dict_or_none (project_role scrub ''remediation''
        [''mode'', ''status'', ''outcome'', ''proposed_actions'', ''executed_actions'', ''verified_by'', ''summary'',
         ''time_to_resolve_seconds'', ''runbook''] d)),
      (''approval'', dict_or_none (project_fields scrub []
        [''mode'', ''severity'', ''triage_severity'', ''decision'', ''action_digest'', ''action_summary'',
         ''approved_by'', ''reason''] (dget d ''approval''))),
      (''verification'', dict_or_none (project_verification scrub (dget d ''verification''))),
      (''comms'', dict_or_none (project_role scrub ''comms''
        [''status'', ''slack_posted'', ''postmortem_path'', ''summary'', ''summary_for_dashboard'', ''lessons_learned''] d))]
     @ optional_fields scrub d"

definition field_of :: "pydict option \<Rightarrow> string \<Rightarrow> pyval" where
  "field_of d k = dget (case d of None \<Rightarrow> [] | Some d \<Rightarrow> d) k"

definition bool_or_none :: "pyval \<Rightarrow> pyval" where
  "bool_or_none v = (if is_bool v then v else PNone)"

definition project_summary :: "(string \<Rightarrow> string) \<Rightarrow> pydict \<Rightarrow> string \<Rightarrow> pydict" where
  "project_summary scrub d kind =
     (let triage = project_role scrub ''triage'' [''severity'', ''title''] d;
          remediation = project_role scrub ''remediation'' [''status'', ''outcome''] d;
          comms = project_role scrub ''comms'' [''summary'', ''summary_for_dashboard''] d;
          verification = project_verification scrub (dget d ''verification'') in
      [(''incident_id'', dget d ''incident_id''), (''execution_id'', dget d ''execution_id''),
       (''record_type'', PStr kind),
       (''severity'', field_of triage ''severity''), (''title'', field_of triage ''title''),
       (''status'', py_or (field_of remediation ''outcome'') (field_of remediation ''status'')),
       (''resolved'', bool_or_none (dget d ''resolved'')),
       (''env_resolved'', bool_or_none (dget d ''env_resolved'')),
       (''verification_status'', field_of verification ''verification_status''),
       (''summary'', py_or (field_of comms ''summary'') (field_of comms ''summary_for_dashboard''))] @
      (case map_of d ''scenario_id'' of
         None \<Rightarrow> []
       | Some v \<Rightarrow> (case safe_value scrub 0 v of None \<Rightarrow> [] | Some w \<Rightarrow> [(''scenario_id'', w)])))"

section \<open>Listing\<close>

text \<open>
  Whether a name of the directory is listed: a partial snapshot only when its content says it is a
  canonical record of that name.
\<close>

definition listed_candidate ::
  "(string \<Rightarrow> pyval option) \<Rightarrow> (string \<Rightarrow> stored) \<Rightarrow> string \<Rightarrow> hist_exn + candidate option" where
  "listed_candidate loads store s =
     (case candidate_for_filename s of
        None \<Rightarrow> Inr None
      | Some c \<Rightarrow>
          rbind (safe_file store s) (\<lambda>found.
            if found = None then Inr None
            else if cd_partial c then
              (case load_candidate loads store c of
                 Inl e \<Rightarrow> Inr None
               | Inr (ident, _) \<Rightarrow> Inr (if hi_type ident = ''canonical'' then Some c else None))
            else Inr (Some c)))"

fun scan_directory ::
  "(string \<Rightarrow> pyval option) \<Rightarrow> (string \<Rightarrow> stored) \<Rightarrow> nat \<Rightarrow> candidate list \<Rightarrow> string list \<Rightarrow>
   hist_exn + candidate list" where
  "scan_directory loads store scanned found [] = Inr found"
| "scan_directory loads store scanned found (s # names) =
     (if scanned + 1 > MAX_DIRECTORY_ENTRIES then Inl HistoryUnavailable
      else rbind (listed_candidate loads store s) (\<lambda>c.
        case c of
          None \<Rightarrow> scan_directory loads store (scanned + 1) found names
        | Some c \<Rightarrow>
            (if length found + 1 > MAX_HISTORY_RECORDS then Inl HistoryUnavailable
             else scan_directory loads store (scanned + 1) (found @ [c]) names)))"

text \<open>A record that vanished since the scan makes the page unavailable.\<close>

definition summarize ::
  "(string \<Rightarrow> string) \<Rightarrow> (string \<Rightarrow> pyval option) \<Rightarrow> (string \<Rightarrow> stored) \<Rightarrow> candidate \<Rightarrow> hist_exn + pyval" where
  "summarize scrub loads store c =
     (case load_candidate loads store c of
        Inl _ \<Rightarrow> Inl HistoryUnavailable
      | Inr (ident, d) \<Rightarrow> Inr (PDict (project_summary scrub d (hi_type ident))))"

definition history_page :: "pyval list \<Rightarrow> int \<Rightarrow> int \<Rightarrow> int \<Rightarrow> pydict" where
  "history_page items n limit offset =
     [(''items'', PList items), (''total'', PInt n), (''limit'', PInt limit), (''offset'', PInt offset)]"

definition page_bounds :: "pyval \<Rightarrow> pyval \<Rightarrow> (int \<times> int) option" where
  "page_bounds limit offset =
     (case (limit, offset) of
        (PInt l, PInt k) \<Rightarrow>
          (if 1 \<le> l \<and> l \<le> MAX_HISTORY_LIMIT \<and> 0 \<le> k \<and> k \<le> MAX_HISTORY_OFFSET then Some (l, k) else None)
      | _ \<Rightarrow> None)"

definition list_incident_history ::
  "(string \<Rightarrow> string) \<Rightarrow> (string \<Rightarrow> pyval option) \<Rightarrow> store_root \<Rightarrow> pyval \<Rightarrow> pyval \<Rightarrow> hist_exn + pydict" where
  "list_incident_history scrub loads root_dir limit offset =
     (case page_bounds limit offset of
        None \<Rightarrow> Inl BadPagination
      | Some (l, k) \<Rightarrow>
          (case root_dir of
             RootMissing \<Rightarrow> Inr (history_page [] 0 l k)
           | RootBroken \<Rightarrow> Inl HistoryUnavailable
           | RootDirectory names store scan_fails \<Rightarrow>
               (if scan_fails then Inl HistoryUnavailable
                else rbind (scan_directory loads store 0 [] names) (\<lambda>found.
                  let ordered = sort_key (\<lambda>c. py_lower (cd_filename c)) found in
                  rbind (map_result (summarize scrub loads store) (take (nat l) (drop (nat k) ordered)))
                    (\<lambda>items. Inr (history_page items (int (length found)) l k))))))"

definition read_incident_history ::
  "(string \<Rightarrow> string) \<Rightarrow> (string \<Rightarrow> pyval option) \<Rightarrow> store_root \<Rightarrow> pyval \<Rightarrow> pyval \<Rightarrow> hist_exn + pydict" where
  "read_incident_history scrub loads root_dir incident execution =
     (if \<not> valid_incident_id incident then Inl RecordNotFound
      else if execution \<noteq> PNone \<and> \<not> valid_execution_id execution then Inl RecordNotFound
      else
        (let i = text_of incident; e = text_of execution;
             ident = (if execution = PNone then canonical i else execution_of ''execution'' i e);
             s = (if execution = PNone then i @ ''.json'' else i @ ''.execution-'' @ e @ ''.json'') in
         case root_dir of
           RootMissing \<Rightarrow> Inl RecordNotFound
         | RootBroken \<Rightarrow> Inl HistoryUnavailable
         | RootDirectory names store _ \<Rightarrow>
             rbind (load_candidate loads store \<lparr>cd_filename = s, cd_identities = [ident], cd_partial = False\<rparr>)
               (\<lambda>(_, d). Inr (project_record scrub d (hi_type ident)))))"

section \<open>Bounds of what is shown\<close>

lemma within_bounds_mono:
  "within_bounds items chars n v \<Longrightarrow> n \<le> m \<Longrightarrow> within_bounds items chars m v"
proof (induction items chars n v arbitrary: m rule: within_bounds.induct)
  case (1 items chars n d)
  then show ?case by (fastforce simp: list_all_iff)
next
  case (2 items chars n xs)
  then show ?case by (fastforce simp: list_all_iff)
qed simp_all

lemma length_shortened: "11 \<le> maximum \<Longrightarrow> length (shortened maximum s) \<le> maximum"
  by (simp add: shortened_def) presburger

lemma kept_set: "set (kept xs) = {x. Some x \<in> set xs}"
  by (force simp: kept_def image_iff)

lemma length_kept: "length (kept xs) \<le> length xs"
  by (simp add: kept_def)

lemma collect_entries:
  "(k, v) \<in> set (collect es) \<Longrightarrow> v \<in> snd ` set es"
  "length (collect es) \<le> length es"
proof -
  have "snd ` set (foldl (\<lambda>d (k, v). AList.update k v d) d es) \<subseteq> snd ` set d \<union> snd ` set es \<and>
    length (foldl (\<lambda>d (k, v). AList.update k v d) d es) \<le> length d + length es" for d :: pydict
  proof (induction es arbitrary: d)
    case Nil
    then show ?case by simp
  next
    case (Cons e es)
    obtain k v where e: "e = (k, v)" by fastforce
    have "snd ` set (AList.update k v d) \<subseteq> snd ` set d \<union> {v}"
      by (induction d) auto
    moreover have "length (AList.update k v d) \<le> Suc (length d)" by (induction d) auto
    ultimately have "snd ` set (foldl (\<lambda>d (k, v). AList.update k v d) (AList.update k v d) es) \<subseteq>
        (snd ` set d \<union> {v}) \<union> snd ` set es \<and>
      length (foldl (\<lambda>d (k, v). AList.update k v d) (AList.update k v d) es) \<le> Suc (length d) + length es"
      using Cons.IH [of "AList.update k v d"] by (meson Un_mono add_le_mono1 order.trans order_refl)
    then show ?case by (simp add: e)
  qed
  from this [of "[]"] show "(k, v) \<in> set (collect es) \<Longrightarrow> v \<in> snd ` set es" "length (collect es) \<le> length es"
    by (force simp: collect_def)+
qed

lemma kept_list_bounded:
  assumes "0 < n" and "\<And>x y. x \<in> set (take MAX_LIST_ITEMS xs) \<Longrightarrow> f x = Some y \<Longrightarrow> within_bounds 100 chars (n - 1) y"
  shows "within_bounds 100 chars n (PList (kept (map f (take MAX_LIST_ITEMS xs))))"
proof -
  have "length (kept (map f (take MAX_LIST_ITEMS xs))) \<le> 100"
    using length_kept [of "map f (take MAX_LIST_ITEMS xs)"] by (simp add: MAX_LIST_ITEMS_def)
  moreover have "within_bounds 100 chars (n - 1) y" if "y \<in> set (kept (map f (take MAX_LIST_ITEMS xs)))" for y
  proof -
    from that have "Some y \<in> f ` set (take MAX_LIST_ITEMS xs)" by (simp add: kept_set)
    then obtain x where "Some y = f x" "x \<in> set (take MAX_LIST_ITEMS xs)" by (rule imageE)
    then show ?thesis using assms(2) [of x y] by simp
  qed
  ultimately show ?thesis using assms(1) by (simp add: list_all_iff)
qed

lemma kept_dict_bounded:
  assumes "0 < n" and "\<And>p k y. p \<in> set (take MAX_OBJECT_FIELDS es) \<Longrightarrow> f p = Some (k, y) \<Longrightarrow> within_bounds 100 chars (n - 1) y"
  shows "within_bounds 100 chars n (PDict (collect (kept (map f (take MAX_OBJECT_FIELDS es)))))"
proof -
  let ?ys = "kept (map f (take MAX_OBJECT_FIELDS es))"
  have "length (collect ?ys) \<le> 100"
    using collect_entries(2) [of ?ys] length_kept [of "map f (take MAX_OBJECT_FIELDS es)"]
    by (simp add: MAX_OBJECT_FIELDS_def)
  moreover have "within_bounds 100 chars (n - 1) (snd e)" if "e \<in> set (collect ?ys)" for e
  proof -
    have "snd e \<in> snd ` set ?ys" using collect_entries(1) [of "fst e" "snd e" ?ys] that by simp
    then obtain k where "(k, snd e) \<in> set ?ys" by auto
    then have "Some (k, snd e) \<in> f ` set (take MAX_OBJECT_FIELDS es)" by (simp add: kept_set)
    then obtain p where "Some (k, snd e) = f p" "p \<in> set (take MAX_OBJECT_FIELDS es)" by (rule imageE)
    then show ?thesis using assms(2) [of p k "snd e"] by simp
  qed
  ultimately show ?thesis using assms(1) by (simp add: list_all_iff)
qed

lemma safe_text_length: "11 \<le> maximum \<Longrightarrow> length (safe_text scrub maximum s) \<le> maximum"
  by (simp add: safe_text_def length_shortened)

lemma safe_value_bounded:
  "safe_value scrub depth v = Some w \<Longrightarrow> within_bounds 100 2000 (5 - depth) w"
proof (induction scrub depth v arbitrary: w rule: safe_value.induct)
  case (1 scrub depth v)
  from "1.prems" have d: "\<not> depth > 4" by (subst (asm) safe_value.simps) (auto split: if_splits)
  show ?case
  proof (cases v)
    case (PList xs)
    have "within_bounds 100 2000 (5 - depth) (PList (kept (map (safe_value scrub (depth + 1)) (take MAX_LIST_ITEMS xs))))"
      by (rule kept_list_bounded) (use "1.IH"(1) [OF d PList] d in auto)
    moreover have "w = PList (kept (map (safe_value scrub (depth + 1)) (take MAX_LIST_ITEMS xs)))"
      using "1.prems" d PList by (subst (asm) safe_value.simps) simp
    ultimately show ?thesis by (simp only:)
  next
    case (PDict es)
    have "within_bounds 100 2000 (5 - depth) (PDict (collect (kept (map (\<lambda>p. if secret_key (fst p) then None
            else map_option (\<lambda>w. (safe_text scrub MAX_TEXT_CHARS (fst p), w)) (safe_value scrub (depth + 1) (snd p)))
          (take MAX_OBJECT_FIELDS es)))))"
      by (rule kept_dict_bounded) (use "1.IH"(2) [OF d PDict] d in \<open>auto split: if_splits\<close>)
    moreover have "w = PDict (collect (kept (map (\<lambda>p. if secret_key (fst p) then None
            else map_option (\<lambda>w. (safe_text scrub MAX_TEXT_CHARS (fst p), w)) (safe_value scrub (depth + 1) (snd p)))
          (take MAX_OBJECT_FIELDS es))))"
      using "1.prems" d PDict by (subst (asm) safe_value.simps) simp
    ultimately show ?thesis by (simp only:)
  qed (use "1.prems" d in \<open>(subst (asm) safe_value.simps, auto simp: safe_text_length MAX_TEXT_CHARS_def split: if_splits)+\<close>)
qed

text \<open>A projector whose results stay within the bounds at depth 7.\<close>

definition bounded_projector :: "projector \<Rightarrow> bool" where
  "bounded_projector p \<longleftrightarrow> (\<forall>v w. p v = Some w \<longrightarrow> within_bounds 100 2000 7 w)"

lemma safe_value_projector: "bounded_projector (safe_value scrub 0)"
  unfolding bounded_projector_def using safe_value_bounded [of scrub 0] within_bounds_mono by fastforce

lemma project_fields_bounded:
  assumes "project_fields scrub special names v = Some d" and "length names \<le> 100"
    and "\<And>name w x. name \<in> set names \<Longrightarrow>
      (case map_of special name of Some p \<Rightarrow> p | None \<Rightarrow> safe_value scrub 0) x = Some w \<Longrightarrow> within_bounds 100 2000 n w"
  shows "within_bounds 100 2000 (Suc n) (PDict d)"
proof -
  from assms(1) obtain src where "v = PDict src" by (cases v) (auto simp: project_fields_def)
  let ?f = "\<lambda>name. case map_of src name of None \<Rightarrow> None
      | Some v \<Rightarrow> map_option (\<lambda>w. (name, w)) ((case map_of special name of Some p \<Rightarrow> p | None \<Rightarrow> safe_value scrub 0) v)"
  have d: "d = kept (map ?f names)" using assms(1) \<open>v = PDict src\<close> by (simp add: project_fields_def)
  have "length d \<le> 100" using length_kept [of "map ?f names"] assms(2) by (simp add: d)
  moreover have "within_bounds 100 2000 n (snd e)" if "e \<in> set d" for e
  proof -
    from that obtain name where "name \<in> set names" "?f name = Some e"
      unfolding d kept_set by auto
    then show ?thesis using assms(3) by (fastforce split: option.splits)
  qed
  ultimately show ?thesis by (simp add: list_all_iff)
qed

lemma plain_fields_bounded:
  "project_fields scrub [] names v = Some d \<Longrightarrow> length names \<le> 100 \<Longrightarrow> within_bounds 100 2000 6 (PDict d)"
  using project_fields_bounded [of scrub "[]" names v d 5] safe_value_bounded [of scrub 0] by simp

lemma project_items_bounded:
  assumes "length names \<le> 100"
  shows "bounded_projector (project_items scrub names)"
  unfolding bounded_projector_def
proof (intro allI impI)
  fix v w
  assume "project_items scrub names v = Some w"
  then obtain xs where w: "w = PList (kept (map (\<lambda>item. case project_fields scrub [] names item of
      Some (p # ps) \<Rightarrow> Some (PDict (p # ps)) | _ \<Rightarrow> None) (take MAX_LIST_ITEMS xs)))"
    by (cases v) (auto simp: project_items_def)
  show "within_bounds 100 2000 7 w"
    unfolding w
    by (rule kept_list_bounded)
      (use plain_fields_bounded assms in \<open>auto simp del: within_bounds.simps split: option.splits list.splits\<close>)
qed

lemma blast_radius_bounded: "bounded_projector (project_blast_radius scrub)"
proof -
  have "within_bounds 100 2000 7 (PDict (case project_fields scrub []
       [''services'', ''namespaces'', ''user_impact_pct'', ''revenue_path_affected''] v of
         None \<Rightarrow> [] | Some d \<Rightarrow> d))" for v
  proof (cases "project_fields scrub [] [''services'', ''namespaces'', ''user_impact_pct'', ''revenue_path_affected''] v")
    case None
    then show ?thesis by simp
  next
    case (Some d)
    from plain_fields_bounded [OF this] have "within_bounds 100 2000 7 (PDict d)"
      by (rule within_bounds_mono) simp_all
    with Some show ?thesis by (simp only: option.case)
  qed
  then show ?thesis by (simp only: bounded_projector_def project_blast_radius_def option.inject) blast
qed

lemma evidence_sources_bounded: "bounded_projector project_evidence_sources"
  unfolding bounded_projector_def
proof (intro allI impI)
  fix v w
  assume e: "project_evidence_sources v = Some w"
  have "is_str t \<Longrightarrow> length (text_of t) \<le> 80 \<Longrightarrow> within_bounds 100 2000 6 (PDict [(''tool'', t)])" for t
    by (cases t) simp_all
  then show "within_bounds 100 2000 7 w"
    using e by (cases v)
      (auto simp del: within_bounds.simps simp: project_evidence_sources_def Let_def
        intro!: kept_list_bounded split: pyval.splits if_splits)
qed

lemma postmortem_path_bounded: "bounded_projector project_postmortem_path"
  by (auto simp: bounded_projector_def project_postmortem_path_def Let_def split: pyval.splits if_splits)

lemma observed_metrics_bounded: "bounded_projector (project_observed_metrics scrub)"
  unfolding bounded_projector_def
proof (intro allI impI)
  fix v w
  assume "project_observed_metrics scrub v = Some w"
  then show "within_bounds 100 2000 7 w"
    by (cases v)
      (auto simp: project_observed_metrics_def simp del: within_bounds.simps(1,2)
        intro!: kept_dict_bounded split: if_splits pyval.splits)
qed

lemma role_projectors_bounded:
  "map_of (role_projectors scrub role) name = Some p \<Longrightarrow> bounded_projector p"
  by (auto simp: role_projectors_def project_actions_def blast_radius_bounded evidence_sources_bounded
      postmortem_path_bounded intro: project_items_bounded split: if_splits)

lemma special_fields_bounded:
  assumes "project_fields scrub special names v = Some d" and "length names \<le> 100"
    and "\<And>name p. map_of special name = Some p \<Longrightarrow> bounded_projector p"
  shows "within_bounds 100 2000 8 (PDict d)"
proof -
  have "within_bounds 100 2000 7 w"
    if "(case map_of special name of Some p \<Rightarrow> p | None \<Rightarrow> safe_value scrub 0) x = Some w" for name x w
    using that assms(3) safe_value_projector [of scrub] by (auto simp: bounded_projector_def split: option.splits)
  from project_fields_bounded [OF assms(1,2) this] have "within_bounds 100 2000 (Suc 7) (PDict d)" .
  then show ?thesis by (simp only: eval_nat_numeral BitM.simps)
qed

lemma project_role_bounded:
  "length names \<le> 100 \<Longrightarrow> within_bounds 100 2000 8 (dict_or_none (project_role scrub role names d))"
  unfolding project_role_def dict_or_none_def
  by (auto simp del: within_bounds.simps(1) split: pyval.splits option.splits
      intro: special_fields_bounded role_projectors_bounded)

lemma verification_bounded: "within_bounds 100 2000 8 (dict_or_none (project_verification scrub v))"
proof (cases "project_verification scrub v")
  case None
  then show ?thesis by (simp add: dict_or_none_def)
next
  case (Some d)
  have "bounded_projector p" if "map_of [(''checks'', project_checks scrub),
      (''observed_metrics'', project_observed_metrics scrub)] name = Some p" for name p
    using that by (auto simp: project_checks_def observed_metrics_bounded intro: project_items_bounded split: if_splits)
  from special_fields_bounded [OF Some [unfolded project_verification_def] _ this] Some
  show ?thesis by (simp add: dict_or_none_def del: within_bounds.simps(1))
qed

lemma approval_bounded:
  "length names \<le> 100 \<Longrightarrow> within_bounds 100 2000 8 (dict_or_none (project_fields scrub [] names v))"
  unfolding dict_or_none_def
  by (auto simp del: within_bounds.simps(1) split: option.splits intro: special_fields_bounded)

lemma optional_fields_bounded:
  "length (optional_fields scrub d) \<le> 8 \<and> list_all (\<lambda>p. within_bounds 100 2000 8 (snd p)) (optional_fields scrub d)"
proof -
  let ?f = "\<lambda>name. case map_of d name of
         None \<Rightarrow> None | Some v \<Rightarrow> map_option (\<lambda>w. (name, w)) (safe_value scrub 0 v)"
  let ?g = "\<lambda>name. case map_of d name of
         Some v \<Rightarrow> if v = PNone \<or> is_bool v then Some (name, v) else None | None \<Rightarrow> None"
  have f: "within_bounds 100 2000 8 (snd p)" if "?f name = Some p" for name p
    using that within_bounds_mono [OF safe_value_bounded [of scrub 0], of _ _ 8] by (auto split: option.splits)
  have g: "within_bounds 100 2000 8 (snd p)" if "?g name = Some p" for name p
    using that by (auto split: option.splits if_splits elim: is_bool.elims)
  have each: "list_all (\<lambda>p. within_bounds 100 2000 8 (snd p)) (kept (map h xs))"
    if "\<And>name p. h name = Some p \<Longrightarrow> within_bounds 100 2000 8 (snd p)" for h :: "string \<Rightarrow> (string \<times> pyval) option" and xs
    unfolding list_all_iff
  proof
    fix p
    assume "p \<in> set (kept (map h xs))"
    then have "Some p \<in> h ` set xs" by (simp add: kept_set)
    then obtain name where "Some p = h name" by (rule imageE)
    then show "within_bounds 100 2000 8 (snd p)" using that [of name p] by simp
  qed
  have "list_all (\<lambda>p. within_bounds 100 2000 8 (snd p)) (optional_fields scrub d)"
    unfolding optional_fields_def list_all_append using each [OF f] each [OF g] by (rule conjI)
  moreover have "length (kept (map ?f xs) @ kept (map ?g ys)) \<le> length xs + length ys" for xs ys
    using length_kept [of "map ?f xs"] length_kept [of "map ?g ys"] by simp
  from this [of "[''scenario_id'', ''episode_status'', ''execution_mode'', ''evidence_class'', ''certification_status'']"
      "[''agent_claimed_resolved'', ''env_resolved'', ''resolved'']"]
  have "length (optional_fields scrub d) \<le> 8" unfolding optional_fields_def by simp
  ultimately show ?thesis by (intro conjI)
qed

lemma record_bounded:
  assumes "valid_incident_id (dget d ''incident_id'')"
    and "dget d ''execution_id'' = PNone \<or> valid_execution_id (dget d ''execution_id'')" and "length kind \<le> 2000"
  shows "within_bounds 100 2000 9 (PDict (project_record scrub d kind))"
proof -
  have "within_bounds 100 2000 8 (dget d ''incident_id'')" "within_bounds 100 2000 8 (dget d ''execution_id'')"
    using assms(1,2) by (auto simp: valid_incident_id_def valid_execution_id_def split: pyval.splits)
  then show ?thesis
    using optional_fields_bounded [of scrub d] assms(3) project_role_bounded verification_bounded approval_bounded
    unfolding project_record_def
    by (simp add: list_all_iff del: list.set(2)) (simp add: project_role_bounded verification_bounded approval_bounded)
qed

section \<open>Identities\<close>

lemma ends_with_json: "ends_with s ''.json'' \<Longrightarrow> s = without_json s @ ''.json''"
  using append_take_drop_id [of "length s - 5" s]
  by (simp add: ends_with_def without_json_def eval_nat_numeral)

lemma marked_file_eq: "marked_file mark s = Some (i, e) \<Longrightarrow> s = i @ mark @ e @ ''.json''"
  by (auto simp: marked_file_def Let_def split: if_splits)

text \<open>What the name of a file says about the record in it.\<close>

lemma candidate_identity:
  assumes "candidate_for_filename s = Some c" and "ident \<in> set (cd_identities c)"
  shows "cd_filename c = s \<and>
    ((ident = canonical (hi_incident ident) \<and> valid_incident_id (PStr (hi_incident ident)) \<and>
      s = hi_incident ident @ ''.json'') \<or>
     (\<exists>e. ident = execution_of ''execution'' (hi_incident ident) e \<and> \<not> cd_partial c \<and>
       valid_incident_id (PStr (hi_incident ident)) \<and> valid_execution_id (PStr e) \<and>
       s = hi_incident ident @ ''.execution-'' @ e @ ''.json'') \<or>
     (hi_type ident = ''partial'' \<and> cd_partial c))"
proof -
  have s: "s = without_json s @ ''.json''"
    using assms(1) ends_with_json by (simp add: candidate_for_filename_def split: if_splits)
  show ?thesis
  proof (cases "marked_file ''.partial-'' s")
    case (Some ie)
    then show ?thesis
      using assms s by (cases ie)
        (auto simp: candidate_for_filename_def Let_def if_valid_def canonical_def execution_of_def split: if_splits)
  next
    case None
    show ?thesis
    proof (cases "marked_file ''.execution-'' s")
      case e: (Some ie)
      then show ?thesis
        using assms None s marked_file_eq [of "''.execution-''" s]
        by (cases ie)
          (auto simp: candidate_for_filename_def Let_def if_valid_def canonical_def execution_of_def split: if_splits)
    next
      case e: None
      then show ?thesis
        using assms None s
        by (auto simp: candidate_for_filename_def Let_def canonical_def split: if_splits)
    qed
  qed
qed

lemma load_candidateE:
  assumes "load_candidate loads store c = Inr (ident, d)"
  obtains f where "safe_file store (cd_filename c) = Inr (Some f)"
    and "read_json loads f (list_ex (\<lambda>i. hi_type i = ''canonical'') (cd_identities c)) = Inr d"
    and "ident \<in> set (cd_identities c)" and "identity_matches d ident"
proof -
  from assms obtain found where found: "safe_file store (cd_filename c) = Inr found"
    and rest: "(case found of None \<Rightarrow> Inl RecordNotFound
       | Some f \<Rightarrow>
           rbind (read_json loads f (list_ex (\<lambda>i. hi_type i = ''canonical'') (cd_identities c))) (\<lambda>d.
             case filter (identity_matches d) (cd_identities c) of
               [ident] \<Rightarrow> Inr (ident, d)
             | _ \<Rightarrow> Inl HistoryUnavailable)) = Inr (ident, d)"
    unfolding load_candidate_def rbind_eq_Inr by blast
  from found rest obtain f d' where f: "safe_file store (cd_filename c) = Inr (Some f)"
      "read_json loads f (list_ex (\<lambda>i. hi_type i = ''canonical'') (cd_identities c)) = Inr d'"
    and m': "(case filter (identity_matches d') (cd_identities c) of
        [i] \<Rightarrow> Inr (i, d') | _ \<Rightarrow> Inl HistoryUnavailable) = Inr (ident, d)"
    by (cases found) (auto simp only: option.case rbind_eq_Inr sum.distinct)
  from m' have m: "filter (identity_matches d) (cd_identities c) = [ident]" and d: "d' = d"
    by (cases "filter (identity_matches d') (cd_identities c)" rule: list.exhaust;
        auto split: list.splits)+
  note f = f [unfolded d]
  from m have "ident \<in> set (filter (identity_matches d) (cd_identities c))" by simp
  with f that show ?thesis by simp
qed

lemma read_json_ids:
  assumes "read_json loads f b = Inr d"
  shows "valid_incident_id (dget d ''incident_id'')"
    and "dget d ''execution_id'' = PNone \<or> valid_execution_id (dget d ''execution_id'')"
    and "read_json loads f True = Inr d"
    and "dget d ''execution_id'' \<noteq> PNone \<Longrightarrow> read_json loads f False = Inr d"
  using assms
  by (auto simp: read_json_def dhas_def dget_def dget_or_def split: stored.splits option.splits pyval.splits if_splits)

text \<open>
  C24. Reading is exact and bounded: a record that is read is the one that was asked for, with the
  requested incident and, when a snapshot was asked for, the requested execution; what is shown of it
  has texts of at most 2000 characters, collections of at most 100 entries and at most nine levels.
\<close>

theorem read_record_is_requested_and_bounded:
  assumes "read_incident_history scrub loads root_dir incident execution = Inr r"
  shows "within_bounds 100 2000 9 (PDict r) \<and> dget r ''incident_id'' = incident \<and>
    (if execution = PNone then dget r ''record_type'' = PStr ''canonical''
     else dget r ''execution_id'' = execution)"
proof -
  let ?ident = "if execution = PNone then canonical (text_of incident)
      else execution_of ''execution'' (text_of incident) (text_of execution)"
  have v: "valid_incident_id incident" "execution = PNone \<or> valid_execution_id execution"
    using assms by (auto simp: read_incident_history_def split: if_splits)
  then have t: "incident = PStr (text_of incident)" "execution = PNone \<or> execution = PStr (text_of execution)"
    by (cases incident; cases execution; auto simp: valid_incident_id_def valid_execution_id_def)+
  from assms v obtain names store fails s d ident where
    l: "load_candidate loads store \<lparr>cd_filename = s, cd_identities = [?ident], cd_partial = False\<rparr> = Inr (ident, d)"
    and r: "r = project_record scrub d (hi_type ?ident)"
    unfolding read_incident_history_def Let_def
    by (cases root_dir) (auto simp: rbind_eq_Inr split: if_splits)
  from l obtain f b where "ident = ?ident" "identity_matches d ?ident" "read_json loads f b = Inr d"
    by (rule load_candidateE) (auto split: if_splits)
  then show ?thesis
    using t read_json_ids(1,2) [of loads f b d] record_bounded [of d "hi_type ?ident" scrub]
    by (auto simp: r project_record_def identity_matches_def canonical_def execution_of_def
        simp del: within_bounds.simps(1) split: if_splits)
qed

definition sample_store :: store_root where
  "sample_store = RootDirectory [''inc-1.json''] (\<lambda>s. if s = ''inc-1.json'' then Contents ''x'' else Absent) False"

definition sample_loads :: "string \<Rightarrow> pyval option" where
  "sample_loads = (\<lambda>_. Some (PDict [(''incident_id'', PStr ''inc-1'')]))"

lemma sample_read:
  "\<exists>r. read_incident_history id sample_loads sample_store (PStr ''inc-1'') PNone = Inr r"
proof -
  have "valid_incident_id (PStr ''inc-1'')" by code_simp
  then show ?thesis
    by (simp add: read_incident_history_def sample_store_def sample_loads_def load_candidate_def safe_file_def
        read_json_def identity_matches_def canonical_def MAX_RECORD_BYTES_def)
qed

theorem read_record_is_requested_and_bounded_witness:
  "\<exists>r. dget r ''incident_id'' = PStr ''inc-1'' \<and> dget r ''record_type'' = PStr ''canonical''"
proof -
  obtain r where r: "read_incident_history id sample_loads sample_store (PStr ''inc-1'') PNone = Inr r"
    using sample_read by blast
  from read_record_is_requested_and_bounded [OF r] show ?thesis by auto
qed

section \<open>Listing and reading agree\<close>

lemma scan_step:
  assumes "scan_directory loads store n found (s # names) = Inr found'"
  obtains "listed_candidate loads store s = Inr None" and "scan_directory loads store (n + 1) found names = Inr found'"
  | c where "listed_candidate loads store s = Inr (Some c)" and "length (found @ [c]) \<le> MAX_HISTORY_RECORDS"
      and "scan_directory loads store (n + 1) (found @ [c]) names = Inr found'"
proof (cases "listed_candidate loads store s")
  case (Inl e)
  with assms show ?thesis by (simp split: if_splits)
next
  case (Inr o')
  with assms that show ?thesis by (cases o') (simp_all split: if_splits)
qed

lemma scan_found:
  "scan_directory loads store n found names = Inr found' \<Longrightarrow> c \<in> set found' \<Longrightarrow>
   c \<in> set found \<or> (\<exists>s. listed_candidate loads store s = Inr (Some c))"
proof (induction names arbitrary: n found)
  case Nil
  then show ?case by simp
next
  case (Cons s names)
  from Cons.prems(1) show ?case
  proof (cases rule: scan_step)
    case 1
    from Cons.IH [OF 1(2) Cons.prems(2)] show ?thesis .
  next
    case (2 c')
    from Cons.IH [OF 2(3) Cons.prems(2)] 2(1) show ?thesis by auto
  qed
qed

lemma scan_at_most:
  "scan_directory loads store n found names = Inr found' \<Longrightarrow> length found \<le> MAX_HISTORY_RECORDS \<Longrightarrow>
   length found' \<le> MAX_HISTORY_RECORDS"
proof (induction names arbitrary: n found)
  case Nil
  then show ?case by simp
next
  case (Cons s names)
  from Cons.prems(1) show ?case
    by (cases rule: scan_step) (use Cons.IH Cons.prems(2) in blast)+
qed

lemma listed_candidateE:
  assumes "listed_candidate loads store s = Inr (Some c)"
  shows "candidate_for_filename s = Some c" and "cd_partial c \<Longrightarrow>
    \<exists>ident d. load_candidate loads store c = Inr (ident, d) \<and> hi_type ident = ''canonical''"
  using assms
  by (auto simp: listed_candidate_def rbind_eq_Inr split: option.splits if_splits sum.splits)

text \<open>A listed candidate that loads is read by its own identity.\<close>

lemma listed_is_readable:
  assumes l: "listed_candidate loads store s = Inr (Some c)" and d: "load_candidate loads store c = Inr (ident, d)"
  shows "is_ok (read_incident_history scrub loads (RootDirectory names store fails) (dget d ''incident_id'')
    (if hi_type ident = ''canonical'' then PNone else dget d ''execution_id''))"
proof -
  note c = listed_candidateE [OF l]
  from d obtain f where f: "safe_file store (cd_filename c) = Inr (Some f)"
    "read_json loads f (list_ex (\<lambda>i. hi_type i = ''canonical'') (cd_identities c)) = Inr d"
    and i: "ident \<in> set (cd_identities c)" "identity_matches d ident"
    by (rule load_candidateE)
  have not_partial: "\<not> (hi_type ident = ''partial'' \<and> cd_partial c)"
  proof
    assume p: "hi_type ident = ''partial'' \<and> cd_partial c"
    from c(2) p d show False by auto
  qed
  have readable: "load_candidate loads store
      \<lparr>cd_filename = cd_filename c, cd_identities = [ident], cd_partial = False\<rparr> = Inr (ident, d)"
    if "read_json loads f (hi_type ident = ''canonical'') = Inr d"
    using f(1) i(2) that by (simp add: load_candidate_def)
  from candidate_identity [OF c(1) i(1)] not_partial show ?thesis
  proof (elim disjE exE conjE)
    assume n: "cd_filename c = s" and id: "ident = canonical (hi_incident ident)"
      and v: "valid_incident_id (PStr (hi_incident ident))" and s: "s = hi_incident ident @ ''.json''"
    have k: "hi_type ident = ''canonical''" by (subst id) (simp add: canonical_def)
    have "dget d ''incident_id'' = PStr (hi_incident ident)" using i(2) by (simp add: identity_matches_def)
    then show ?thesis
      using readable [unfolded k n s] read_json_ids(3) [OF f(2)] v id k
      by (simp add: read_incident_history_def)
  next
    fix e
    assume n: "cd_filename c = s" and id: "ident = execution_of ''execution'' (hi_incident ident) e"
      and v: "valid_incident_id (PStr (hi_incident ident))" "valid_execution_id (PStr e)"
      and s: "s = hi_incident ident @ ''.execution-'' @ e @ ''.json''"
    have k: "hi_type ident = ''execution''" "hi_execution ident = Some e"
      by (subst id, simp add: execution_of_def)+
    have ids: "dget d ''incident_id'' = PStr (hi_incident ident)" "dget d ''execution_id'' = PStr e"
      using i(2) k by (simp_all add: identity_matches_def)
    then have "read_json loads f False = Inr d" using read_json_ids(4) [OF f(2)] by simp
    then show ?thesis
      using readable [unfolded n s] v id k ids by (simp add: read_incident_history_def)
  qed simp_all
qed

lemma summary_fields:
  "dget (project_summary scrub d kind) ''incident_id'' = dget d ''incident_id''"
  "dget (project_summary scrub d kind) ''execution_id'' = dget d ''execution_id''"
  "dget (project_summary scrub d kind) ''record_type'' = PStr kind"
  by (simp_all add: project_summary_def Let_def)

text \<open>How a row of a page is asked for: a canonical record by its incident alone.\<close>

definition row_request :: "pyval \<Rightarrow> pyval \<times> pyval" where
  "row_request item =
     (let d = as_dict item in
      (dget d ''incident_id'', if dget d ''record_type'' = PStr ''canonical'' then PNone else dget d ''execution_id''))"

text \<open>
  C31. Listing and reading agree: a page holds at most as many rows as were asked for, out of at most
  10000 records, and every row of it can be read back by the identity the row shows.
\<close>

theorem listed_records_can_be_read:
  assumes "list_incident_history scrub loads (RootDirectory names store fails) (PInt l) (PInt k) = Inr page"
  shows "list_all (\<lambda>item. is_ok (read_incident_history scrub' loads (RootDirectory names store fails)
      (fst (row_request item)) (snd (row_request item)))) (as_list (dget page ''items'')) \<and>
    int (length (as_list (dget page ''items''))) \<le> l \<and> dget page ''total'' \<in> PInt ` {0..10000}"
proof -
  from assms obtain found items where l: "1 \<le> l"
    and scan: "scan_directory loads store 0 [] names = Inr found"
    and m: "map_result (summarize scrub loads store)
      (take (nat l) (drop (nat k) (sort_key (\<lambda>c. py_lower (cd_filename c)) found))) = Inr items"
    and page: "page = history_page items (int (length found)) l k"
    by (auto simp: list_incident_history_def page_bounds_def rbind_eq_Inr Let_def split: if_splits option.splits)
  have "is_ok (read_incident_history scrub' loads (RootDirectory names store fails)
      (fst (row_request item)) (snd (row_request item)))" if item: "item \<in> set items" for item
  proof -
    from map_result_from [OF m item] obtain c where c: "c \<in> set found" "summarize scrub loads store c = Inr item"
      by (metis in_set_takeD in_set_dropD set_sort)
    then obtain ident d where d: "load_candidate loads store c = Inr (ident, d)"
      and i: "item = PDict (project_summary scrub d (hi_type ident))"
      by (auto simp: summarize_def split: sum.splits)
    obtain s where "listed_candidate loads store s = Inr (Some c)" using scan_found [OF scan c(1)] by auto
    from listed_is_readable [OF this d, of scrub' names fails] show ?thesis
      by (cases "hi_type ident = ''canonical''") (simp_all add: i row_request_def summary_fields)
  qed
  moreover have "length items \<le> nat l" using map_result_length [OF m] by simp
  moreover have "length found \<le> 10000" using scan_at_most [OF scan] by (simp add: MAX_HISTORY_RECORDS_def)
  ultimately show ?thesis using l by (auto simp: page history_page_def list_all_iff)
qed

lemma sample_listed:
  "\<exists>page. list_incident_history id sample_loads sample_store (PInt 5) (PInt 0) = Inr page \<and>
     length (as_list (dget page ''items'')) = 1"
proof -
  have v: "valid_incident_id (PStr ''inc-1'')" by code_simp
  have c: "candidate_for_filename ''inc-1.json'' =
      Some \<lparr>cd_filename = ''inc-1.json'', cd_identities = [canonical ''inc-1''], cd_partial = False\<rparr>"
    by code_simp
  then show ?thesis
    using v
    by (simp add: list_incident_history_def sample_store_def page_bounds_def MAX_HISTORY_LIMIT_def MAX_HISTORY_OFFSET_def
        MAX_DIRECTORY_ENTRIES_def MAX_HISTORY_RECORDS_def listed_candidate_def safe_file_def summarize_def
        load_candidate_def read_json_def sample_loads_def MAX_RECORD_BYTES_def identity_matches_def canonical_def
        history_page_def)
qed

theorem listed_records_can_be_read_witness:
  "\<exists>item. is_ok (read_incident_history id sample_loads sample_store (fst (row_request item)) (snd (row_request item)))"
proof -
  obtain page where p: "list_incident_history id sample_loads sample_store (PInt 5) (PInt 0) = Inr page"
    and n: "length (as_list (dget page ''items'')) = 1" using sample_listed by blast
  from n obtain item where item: "item \<in> set (as_list (dget page ''items''))"
    by (cases "as_list (dget page ''items'')") auto
  from listed_records_can_be_read [OF p [unfolded sample_store_def], of id] item show ?thesis
    unfolding list_all_iff sample_store_def by blast
qed

end
