(* ===== verification/Reward.thy ===== *)
theory Reward
  imports VerifierChecks
begin

text \<open>
  \<open>training/grpo_reward.py\<close>: the reward of one executed policy action, computed from the verifier's
  checks alone, the group-normalised advantages derived from rewards, and the tests that a group of
  samples carries a learning signal.  Floats are the rationals they denote; \<open>rt\<close> is \<open>math.sqrt\<close>.
\<close>

section \<open>Scoring a step\<close>

abbreviation pfloat :: "rat \<Rightarrow> pyval" where
  "pfloat r \<equiv> PFloat (FFin r)"

fun py_unhashable :: "pyval \<Rightarrow> bool" where
  "py_unhashable (PList _) = True"
| "py_unhashable (PDict _) = True"
| "py_unhashable _ = False"

text \<open>The passed flag of a required check; nothing for one that is not required.\<close>

definition required_flag :: "pyval \<Rightarrow> py_exn + bool list" where
  "required_flag check =
     (case check of
        PDict c \<Rightarrow>
          (case (dget c ''passed'', dget_or c ''required'' (PBool True)) of
             (PBool passed, PBool required) \<Rightarrow> Inr (if required then [passed] else [])
           | _ \<Rightarrow> Inl ValueError)
      | _ \<Rightarrow> Inl ValueError)"

definition step_rewards :: "bool \<Rightarrow> bool \<Rightarrow> bool list \<Rightarrow> pydict" where
  "step_rewards resolved claimed required =
     (let passed = length (filter id required);
          coverage = of_nat passed / of_nat (length required) :: rat;
          resolution_reward = (if resolved then 3 / 4 else 0);
          check_reward = coverage / 4;
          penalty = (if claimed \<and> \<not> resolved then - 1 / 4 else 0)
      in [(''r_verified_resolution'', pfloat (round6 resolution_reward)),
          (''r_required_check_coverage'', pfloat (round6 check_reward)),
          (''penalty_false_resolution'', pfloat penalty),
          (''required_checks'', PInt (int (length required))),
          (''passed_required_checks'', PInt (int passed)),
          (''required_check_coverage'', pfloat (round6 coverage)),
          (''total'', pfloat (round6 (resolution_reward + check_reward + penalty)))])"

definition score_direct_action_step :: "pydict \<Rightarrow> bool \<Rightarrow> py_exn + pydict" where
  "score_direct_action_step verification claimed =
     (let status = dget verification ''verification_status'' in
      if py_unhashable status then Inl TypeError
      else if status \<notin> {PStr ''passed'', PStr ''failed''} then Inl ValueError
      else case dget verification ''env_resolved'' of
        PBool resolved \<Rightarrow>
          (if (status = PStr ''passed'') \<noteq> resolved then Inl ValueError
           else case dget verification ''checks'' of
             PList checks \<Rightarrow>
               rbind (map_result required_flag checks) (\<lambda>flags.
                 let required = concat flags in
                 if required = [] then Inl ValueError
                 else if (length (filter id required) = length required) \<noteq> resolved then Inl ValueError
                 else Inr (step_rewards resolved claimed required))
           | _ \<Rightarrow> Inl ValueError)
      | _ \<Rightarrow> Inl ValueError)"

definition aggregate_direct_action_steps :: "pydict list \<Rightarrow> py_exn + pydict" where
  "aggregate_direct_action_steps steps =
     (if steps = [] then Inl ValueError
      else rbind (map_result (\<lambda>s. case finite_number (dget s ''total'') of
             None \<Rightarrow> Inl ValueError | Some x \<Rightarrow> Inr x) steps) (\<lambda>totals.
        Inr [(''aggregation'', PStr ''mean''), (''step_count'', PInt (int (length totals))),
             (''step_totals'', PList (map pfloat totals)),
             (''total'', pfloat (round6 (sum_list totals / of_nat (length totals))))]))"

section \<open>Advantages\<close>

definition TRL_ADVANTAGE_EPSILON :: rat where "TRL_ADVANTAGE_EPSILON = 1 / 10000"

definition finite_values :: "pyval list \<Rightarrow> py_exn + rat list" where
  "finite_values vs =
     map_result (\<lambda>v. case finite_number v of None \<Rightarrow> Inl ValueError | Some x \<Rightarrow> Inr x) vs"

definition mean :: "rat list \<Rightarrow> rat" where
  "mean vs = sum_list vs / of_nat (length vs)"

definition sample_deviation :: "(rat \<Rightarrow> rat) \<Rightarrow> rat list \<Rightarrow> rat" where
  "sample_deviation rt vs = rt (sum_list (map (\<lambda>v. (v - mean vs)\<^sup>2) vs) / of_nat (length vs - 1))"

definition group_advantages :: "(rat \<Rightarrow> rat) \<Rightarrow> rat list \<Rightarrow> rat list" where
  "group_advantages rt vs =
     map (\<lambda>v. (v - mean vs) / (sample_deviation rt vs + TRL_ADVANTAGE_EPSILON)) vs"

definition normalize_group_advantages :: "(rat \<Rightarrow> rat) \<Rightarrow> pyval \<Rightarrow> py_exn + rat list" where
  "normalize_group_advantages rt rewards =
     (case rewards of
        PList vs \<Rightarrow>
          (if length vs < 2 then Inl ValueError
           else rbind (finite_values vs) (\<lambda>xs. Inr (group_advantages rt xs)))
      | _ \<Rightarrow> Inl TypeError)"

text \<open>\<open>math.isclose(a, b, rel_tol=1e-5, abs_tol=1e-6)\<close>.\<close>

definition is_close :: "rat \<Rightarrow> rat \<Rightarrow> bool" where
  "is_close a b \<longleftrightarrow> \<bar>a - b\<bar> \<le> max (max \<bar>a\<bar> \<bar>b\<bar> / 100000) (1 / 1000000)"

definition has_reward_driven_advantages :: "(rat \<Rightarrow> rat) \<Rightarrow> pyval \<Rightarrow> pyval \<Rightarrow> py_exn + bool" where
  "has_reward_driven_advantages rt rewards advantages =
     (case (rewards, advantages) of
        (PList rs, PList as) \<Rightarrow>
          (if length rs < 2 \<or> as = [] then Inl ValueError
           else if length rs \<noteq> length as then Inl ValueError
           else
             rbind (finite_values rs) (\<lambda>reward_values.
             rbind (finite_values as) (\<lambda>advantage_values.
               if \<not> list_all (\<lambda>(x, y). is_close x y)
                      (zip advantage_values (group_advantages rt reward_values))
               then Inl ValueError
               else
                 let varied = list_ex (\<lambda>v. v \<noteq> hd reward_values) reward_values;
                     nonzero = list_ex (\<lambda>v. v \<noteq> 0) advantage_values
                 in if nonzero \<and> \<not> varied then Inl ValueError else Inr (varied \<and> nonzero))))
      | _ \<Rightarrow> Inl TypeError)"

section \<open>Environmental signal\<close>

definition ENVIRONMENTAL_REWARD_COMPONENTS :: "string list" where
  "ENVIRONMENTAL_REWARD_COMPONENTS = [''r_verified_resolution'', ''r_required_check_coverage'']"

definition environmental_sample :: "pyval \<times> pyval \<Rightarrow> py_exn + (rat list \<times> bool)" where
  "environmental_sample entry =
     (case entry of
        (components, PBool admissible) \<Rightarrow>
          (case components of
             PDict c \<Rightarrow>
               (if set (map fst c) \<noteq> set ENVIRONMENTAL_REWARD_COMPONENTS then Inl ValueError
                else rbind (finite_values (map (dget c) ENVIRONMENTAL_REWARD_COMPONENTS)) (\<lambda>values.
                  Inr (values, admissible)))
           | _ \<Rightarrow> Inl ValueError)
      | _ \<Rightarrow> Inl ValueError)"

fun some_pair_differs :: "'a list \<Rightarrow> bool" where
  "some_pair_differs [] = False"
| "some_pair_differs (x # xs) = (list_ex (\<lambda>y. y \<noteq> x) xs \<or> some_pair_differs xs)"

definition has_environmental_reward_signal ::
  "(rat \<Rightarrow> rat) \<Rightarrow> pyval \<Rightarrow> pyval \<Rightarrow> pyval \<Rightarrow> py_exn + bool" where
  "has_environmental_reward_signal rt components admissible advantages =
     (case (components, admissible) of
        (PList cs, PList as) \<Rightarrow>
          (if length cs < 2 \<or> length cs \<noteq> length as then Inl ValueError
           else
             rbind (map_result environmental_sample (zip cs as)) (\<lambda>samples.
               let admitted = map fst (filter snd samples) in
               rbind (has_reward_driven_advantages rt
                        (PList (map (\<lambda>s. pfloat (sum_list (fst s))) samples)) advantages) (\<lambda>signal.
                 Inr (length admitted \<ge> 2 \<and> some_pair_differs admitted \<and> signal))))
      | _ \<Rightarrow> Inl TypeError)"

section \<open>Theorems\<close>

lemma round6_quarters:
  "round6 0 = 0" "round6 1 = 1" "round6 (1 / 4) = 1 / 4" "round6 (3 / 4) = 3 / 4" "round6 (- (1 / 4)) = - (1 / 4)"
  by (simp_all add: round6_def round_half_even_def Let_def)

text \<open>What the scorer computes of a verification that it accepts.\<close>

definition conclusive :: "pydict \<Rightarrow> bool list \<Rightarrow> bool \<Rightarrow> bool" where
  "conclusive verification required resolved \<longleftrightarrow>
     dget verification ''verification_status'' = PStr (if resolved then ''passed'' else ''failed'') \<and>
     dget verification ''env_resolved'' = PBool resolved \<and>
     (\<exists>checks flags. dget verification ''checks'' = PList checks \<and>
        map_result required_flag checks = Inr flags \<and> required = concat flags) \<and>
     required \<noteq> [] \<and> resolved = list_all id required"

lemma all_pass_count: "length (filter id bs) = length bs \<longleftrightarrow> list_all id bs"
  by (simp add: length_filter_eq_all list_all_iff)

lemma score_iff_conclusive:
  "score_direct_action_step verification claimed = Inr d \<longleftrightarrow>
   (\<exists>required resolved. conclusive verification required resolved \<and>
      d = step_rewards resolved claimed required)"
  by (cases "dget verification ''env_resolved''"; cases "dget verification ''checks''")
     (auto simp: score_direct_action_step_def conclusive_def Let_def rbind_eq_Inr all_pass_count
       split: if_splits)

lemma score_errors: "score_direct_action_step verification claimed = Inl e \<Longrightarrow> e \<in> {TypeError, ValueError}"
proof -
  have "map_result required_flag cs = Inl e \<Longrightarrow> e = ValueError" for cs
    by (induction cs) (auto simp: rbind_eq_Inl required_flag_def split: pyval.splits prod.splits)
  then show "score_direct_action_step verification claimed = Inl e \<Longrightarrow> e \<in> {TypeError, ValueError}"
    by (auto simp: score_direct_action_step_def Let_def rbind_eq_Inl split: pyval.splits if_splits)
qed

text \<open>
  A verification that decides, said without the scorer: its checks are all decided, at least one is
  required, and the verdict agrees with the required ones.
\<close>

definition decisive :: "pydict \<Rightarrow> pyval list \<Rightarrow> bool" where
  "decisive v checks \<longleftrightarrow>
     dget v ''checks'' = PList checks \<and> (\<forall>c \<in> set checks. decided_check c) \<and>
     (\<exists>c \<in> set checks. required_check c) \<and> verdict_agrees v checks"

lemma required_flag_decided:
  "required_flag c = Inr flag \<longleftrightarrow> decided_check c \<and> flag = (if required_check c then [passed_check c] else [])"
proof (cases "decided_check c")
  case True
  then show ?thesis by (rule decided_cases) (use True in \<open>auto simp: required_flag_def\<close>)
next
  case False
  then show ?thesis
    unfolding decided_iff by (auto simp: required_flag_def elim!: is_bool.elims split: pyval.splits)
qed

lemma required_flags_decided:
  "map_result required_flag checks = Inr flags \<longleftrightarrow>
   (\<forall>c \<in> set checks. decided_check c) \<and> flags = map (\<lambda>c. if required_check c then [passed_check c] else []) checks"
  by (induction checks arbitrary: flags) (auto simp: rbind_eq_Inr required_flag_decided)

lemma concat_flags: "concat (map (\<lambda>c. if p c then [f c] else []) xs) = map f (filter p xs)"
  by (induction xs) auto

lemma conclusive_decisive:
  "conclusive v required resolved \<longleftrightarrow>
   (\<exists>checks. decisive v checks \<and> required = map passed_check (filter required_check checks) \<and>
      resolved = (\<forall>c \<in> set checks. required_check c \<longrightarrow> passed_check c))"
  by (auto simp: conclusive_def decisive_def verdict_agrees_def required_flags_decided concat_flags list_all_iff
      filter_empty_conv split: if_splits)

lemma required_counts:
  "dget (step_rewards resolved claimed (map passed_check (filter required_check checks))) ''required_checks'' =
     PInt (int (length (filter required_check checks)))"
  "dget (step_rewards resolved claimed (map passed_check (filter required_check checks))) ''passed_required_checks'' =
     PInt (int (length (filter (\<lambda>c. required_check c \<and> passed_check c) checks)))"
proof -
  have "length (filter id (map f xs)) = length (filter f xs)" for f :: "pyval \<Rightarrow> bool" and xs
    by (induction xs) auto
  then show "dget (step_rewards resolved claimed (map passed_check (filter required_check checks))) ''passed_required_checks'' =
     PInt (int (length (filter (\<lambda>c. required_check c \<and> passed_check c) checks)))"
    by (simp add: step_rewards_def Let_def conj_commute)
qed (simp add: step_rewards_def Let_def)

text \<open>
  C34. A step is scored exactly when its verification decides: every check is an object that says
  whether it passed and whether it is required (a check without the flag is), at least one is required,
  and status and resolution both say passed when every required check passed and failed otherwise.  The
  score counts the required checks and those of them that passed.  Everything else raises a
  \<open>TypeError\<close> or a \<open>ValueError\<close>.
\<close>

theorem scored_iff_decisive:
  "case score_direct_action_step verification claimed of
     Inr d \<Rightarrow> \<exists>checks. decisive verification checks \<and>
       dget d ''required_checks'' = PInt (int (length (filter required_check checks))) \<and>
       dget d ''passed_required_checks'' = PInt (int (length (filter (\<lambda>c. required_check c \<and> passed_check c) checks)))
   | Inl e \<Rightarrow> e \<in> {TypeError, ValueError} \<and> (\<nexists>checks. decisive verification checks)"
proof (cases "score_direct_action_step verification claimed")
  case (Inl e)
  then have "\<not> conclusive verification required resolved" for required resolved
    using score_iff_conclusive [of verification claimed] by (metis sum.distinct(1))
  then have "\<not> decisive verification checks" for checks
    unfolding conclusive_decisive by blast
  then show ?thesis using score_errors [OF Inl] Inl by simp
next
  case (Inr d)
  then show ?thesis
    using score_iff_conclusive [of verification claimed d] required_counts by (auto simp: conclusive_decisive)
qed

definition total_of :: "pydict \<Rightarrow> rat" where
  "total_of d = (case dget d ''total'' of PFloat (FFin r) \<Rightarrow> r | _ \<Rightarrow> 0)"

lemma total_step_rewards:
  "total_of (step_rewards resolved claimed required) =
     round6 ((if resolved then 3 / 4 else 0) +
       (of_nat (length (filter id required)) / of_nat (length required)) / 4 +
       (if claimed \<and> \<not> resolved then - 1 / 4 else 0))"
  by (simp add: total_of_def step_rewards_def Let_def)

lemma step_total_bounds:
  assumes "score_direct_action_step verification claimed = Inr d"
  shows "if dget verification ''env_resolved'' = PBool True then total_of d = 1
         else - 1 / 4 \<le> total_of d \<and> total_of d \<le> (if claimed then 0 else 1 / 4)"
proof -
  from assms obtain required resolved where c: "conclusive verification required resolved"
    and d: "d = step_rewards resolved claimed required" by (auto simp: score_iff_conclusive)
  let ?cov = "of_nat (length (filter id required)) / of_nat (length required) :: rat"
  from c have ne: "required \<noteq> []" and resolved: "dget verification ''env_resolved'' = PBool resolved"
    by (auto simp: conclusive_def)
  have cov: "0 \<le> ?cov" "?cov \<le> 1"
    using ne length_filter_le [of id required] by (simp_all add: divide_le_eq_1)
  show ?thesis
  proof (cases resolved)
    case True
    then have "length (filter id required) = length required"
      unfolding all_pass_count using c by (simp add: conclusive_def)
    then have "?cov = of_nat (length required) / of_nat (length required)" by (simp only:)
    also have "\<dots> = 1" using ne by simp
    finally have one: "?cov = 1" .
    show ?thesis using True resolved unfolding d total_step_rewards one by (simp add: round6_quarters)
  next
    case False
    then have total: "total_of d = round6 (?cov / 4 + (if claimed then - 1 / 4 else 0))"
      by (simp add: d total_step_rewards)
    define x where "x = ?cov"
    have "round6 (- (1 / 4)) \<le> total_of d" "total_of d \<le> round6 (if claimed then 0 else 1 / 4)"
      unfolding total x_def [symmetric] using cov unfolding x_def [symmetric]
      by (auto intro!: round6_mono)
    with False resolved show ?thesis by (simp add: round6_quarters split: if_splits)
  qed
qed


text \<open>
  A resolved step earns exactly 1; an unresolved one earns at most 1/4 and never less than -1/4, and
  a false claim of resolution never earns anything.
\<close>

theorem resolved_step_outranks_unresolved:
  assumes "score_direct_action_step verification claimed = Inr d"
  shows "if dget verification ''env_resolved'' = PBool True then total_of d = 1
         else - 1 / 4 \<le> total_of d \<and> total_of d \<le> (if claimed then 0 else 1 / 4)"
  using assms by (rule step_total_bounds)

lemma sum_deviations: "xs \<noteq> [] \<Longrightarrow> sum_list (map (\<lambda>v. v - mean xs) xs) = 0"
proof -
  assume "xs \<noteq> []"
  have "sum_list (map (\<lambda>v. v - c) xs) = sum_list xs - of_nat (length xs) * c" for c :: rat
    by (induction xs) (auto simp: algebra_simps)
  with \<open>xs \<noteq> []\<close> show ?thesis by (simp add: mean_def)
qed

lemma sum_list_divide: "sum_list (map (\<lambda>v. f v / c) xs) = sum_list (map f xs) / (c :: rat)"
  by (induction xs) (auto simp: add_divide_distrib)

text \<open>
  The advantages of a group sum to zero and keep the order of the rewards, as long as the square
  root of a sum of squares is not negative.
\<close>

theorem advantages_centred_and_monotone:
  assumes "normalize_group_advantages rt (PList rewards) = Inr advantages"
    and "\<And>x. 0 \<le> x \<Longrightarrow> 0 \<le> rt x"
  shows "length advantages = length rewards \<and> sum_list advantages = 0 \<and>
    (\<forall>i < length rewards. \<forall>j < length rewards. \<forall>x y.
       finite_number (rewards ! i) = Some x \<longrightarrow> finite_number (rewards ! j) = Some y \<longrightarrow>
       (advantages ! i \<le> advantages ! j \<longleftrightarrow> x \<le> y))"
proof -
  from assms(1) obtain xs where xs: "finite_values rewards = Inr xs" and len: "2 \<le> length rewards"
    and adv: "advantages = group_advantages rt xs"
    by (auto simp: normalize_group_advantages_def rbind_eq_Inr split: if_splits)
  have same: "length xs = length rewards" using xs map_result_length by (auto simp: finite_values_def)
  have value_at: "finite_number (rewards ! i) = Some (xs ! i)" if "i < length rewards" for i
    using xs that unfolding finite_values_def
  proof (induction rewards arbitrary: xs i)
    case (Cons r rs)
    then show ?case by (cases i) (auto simp: rbind_eq_Inr split: option.splits)
  qed simp
  let ?c = "sample_deviation rt xs + TRL_ADVANTAGE_EPSILON"
  have "0 \<le> sample_deviation rt xs"
    unfolding sample_deviation_def by (intro assms(2) divide_nonneg_nonneg sum_list_nonneg_rat) auto
  then have pos: "0 < ?c" by (simp add: TRL_ADVANTAGE_EPSILON_def)
  have "xs \<noteq> []" using len same by auto
  then have "sum_list advantages = 0"
    by (simp add: adv group_advantages_def sum_list_divide sum_deviations)
  moreover have "length advantages = length rewards" by (simp add: adv group_advantages_def same)
  moreover have "advantages ! i \<le> advantages ! j \<longleftrightarrow> xs ! i \<le> xs ! j"
    if "i < length rewards" "j < length rewards" for i j
    using that pos by (simp add: adv group_advantages_def same divide_le_cancel)
  ultimately show ?thesis using value_at by auto
qed

text \<open>
  A group whose rewards are all equal is never reported to have reward-driven advantages.
\<close>

theorem equal_rewards_give_no_signal:
  assumes "finite_values rewards = Inr xs" and "\<forall>x \<in> set xs. x = c"
  shows "has_reward_driven_advantages rt (PList rewards) (PList advantages) \<noteq> Inr True"
proof -
  have "\<not> list_ex (\<lambda>v. v \<noteq> hd xs) xs"
    using assms(2) by (cases xs) (auto simp: list_ex_iff)
  then show ?thesis
    using assms(1) by (auto simp: has_reward_driven_advantages_def rbind_eq_Inr Let_def split: if_splits)
qed

section \<open>Witnesses\<close>

definition sample_verification :: "bool \<Rightarrow> pydict" where
  "sample_verification ok =
     [(''verification_status'', PStr (if ok then ''passed'' else ''failed'')), (''env_resolved'', PBool ok),
      (''checks'', PList [PDict [(''passed'', PBool True)], PDict [(''passed'', PBool ok), (''required'', PBool True)]])]"

lemma resolved_step_outranks_unresolved_witness:
  "\<exists>d. score_direct_action_step (sample_verification False) True = Inr d \<and> total_of d \<le> 0 \<and> - 1 / 4 \<le> total_of d"
proof -
  have run: "score_direct_action_step (sample_verification False) True = Inr (step_rewards False True [True, False])"
    by code_simp
  from resolved_step_outranks_unresolved [OF run] run show ?thesis
    by (auto simp: sample_verification_def)
qed

lemma advantages_centred_and_monotone_witness:
  "\<exists>advantages. normalize_group_advantages (\<lambda>_. 1) (PList [PInt 0, PInt 1]) = Inr advantages \<and>
     sum_list advantages = 0 \<and> length advantages = 2"
proof -
  have run: "normalize_group_advantages (\<lambda>_. 1) (PList [PInt 0, PInt 1]) = Inr (group_advantages (\<lambda>_. 1) [0, 1])"
    by (simp add: normalize_group_advantages_def finite_values_def)
  from advantages_centred_and_monotone [OF run] show ?thesis using run by simp
qed

lemma equal_rewards_give_no_signal_witness:
  "has_reward_driven_advantages (\<lambda>x. x) (PList [PInt 1, PInt 1]) (PList [PInt 0, PInt 0]) \<noteq> Inr True"
proof -
  have "finite_values [PInt 1, PInt 1] = Inr [1, 1]" by (simp add: finite_values_def)
  from equal_rewards_give_no_signal [OF this, of 1] show ?thesis by simp
qed

end
