(* ===== verification/RightSizing.thy ===== *)
theory RightSizing
  imports PolicyAction Reward
begin

text \<open>
  \<open>training/rightsizing_env.py\<close>: the capacity environment.  A state has a replica count, a demand and a
  per-replica capacity; the only resolving action is the smallest sufficient replica count.  Capacities
  are positive in every state the module generates (a zero capacity would raise on the first division).
  \<open>decode\<close> is the JSON decoder of \<open>PolicyAction\<close>; \<open>fmt\<close>, \<open>operational\<close> and \<open>ns\<close> are the parameters of
  the tool policy.
\<close>

section \<open>States\<close>

record capacity_state =
  cs_replicas :: int
  cs_demand :: int
  cs_capacity :: int

definition EXPERIMENT :: string where "EXPERIMENT = ''rightsizing-grpo-cpu-v1''"

definition MAX_REPLICAS :: int where "MAX_REPLICAS = 20"

definition needed :: "capacity_state \<Rightarrow> int" where
  "needed s = \<lceil>of_int (cs_demand s) / (of_int (cs_capacity s) :: rat)\<rceil>"

definition observation :: "capacity_state \<Rightarrow> pydict" where
  "observation s =
     [(''incident_id'', PStr (EXPERIMENT @ ''-r'' @ int_str (cs_replicas s) @ ''-d'' @ int_str (cs_demand s) @
                              ''-c'' @ int_str (cs_capacity s))),
      (''alert'', PDict [(''labels'', PDict [(''alertname'', PStr ''PodCPUSaturation''), (''namespace'', PStr ''default'')]),
                         (''status'', PStr ''firing'')]),
      (''triage'', PDict [(''severity'', PStr ''P2'')]),
      (''observations'', PDict [(''deployment'', PStr ''paymentservice''), (''namespace'', PStr ''default''),
                                (''ready_replicas'', PInt (cs_replicas s)), (''demand_units'', PInt (cs_demand s)),
                                (''capacity_units_per_replica'', PInt (cs_capacity s))])]"

text \<open>The states of one capacity, in the order of the nested loops.\<close>

definition capacity_states :: "int \<Rightarrow> int \<Rightarrow> capacity_state list" where
  "capacity_states max_needed capacity =
     concat (map (\<lambda>n. concat (map (\<lambda>demand. map (\<lambda>replicas.
        \<lparr>cs_replicas = replicas, cs_demand = demand, cs_capacity = capacity\<rparr>) [1..n - 1])
        [(n - 1) * capacity + 1..n * capacity])) [2..min max_needed MAX_REPLICAS])"

definition all_states :: "int \<Rightarrow> int \<Rightarrow> capacity_state list" where
  "all_states max_needed max_capacity = concat (map (capacity_states max_needed) [1..max_capacity])"

definition EASY_DIVISORS :: "int set" where "EASY_DIVISORS = {1, 2, 5, 10}"

definition is_hard :: "capacity_state \<Rightarrow> bool" where
  "is_hard s \<longleftrightarrow> cs_demand s mod cs_capacity s \<noteq> 0 \<and> cs_capacity s \<notin> EASY_DIVISORS"

definition all_states_v2 :: "int \<Rightarrow> int list \<Rightarrow> bool \<Rightarrow> capacity_state list" where
  "all_states_v2 max_needed capacities hard_only =
     filter (\<lambda>s. \<not> hard_only \<or> is_hard s) (concat (map (capacity_states max_needed) capacities))"

section \<open>Completions\<close>

text \<open>\<open>str.splitlines()\<close>: a line ends at a line feed, vertical tab, form feed, carriage return (with an
  optional line feed) or one of the separators 28 to 30.\<close>

definition line_end :: "char \<Rightarrow> bool" where
  "line_end c \<longleftrightarrow> (let n = (of_char c :: nat) in (10 \<le> n \<and> n \<le> 13) \<or> (28 \<le> n \<and> n \<le> 30))"

fun split_lines :: "string \<Rightarrow> string \<Rightarrow> string list" where
  "split_lines line [] = (if line = [] then [] else [rev line])"
| "split_lines line (c # s) =
     (if c = CHR 0x0D \<and> (case s of [] \<Rightarrow> False | d # _ \<Rightarrow> d = CHR 0x0A)
      then split_lines line s
      else if line_end c then rev line # split_lines [] s
      else split_lines (c # line) s)"

text \<open>The pieces of the arithmetic-line pattern; each consumes a prefix.\<close>

definition is_digit :: "char \<Rightarrow> bool" where
  "is_digit c \<longleftrightarrow> digit_value c \<noteq> None"

definition skip_space :: "string \<Rightarrow> string" where
  "skip_space s = dropWhile py_space s"

definition skip_digits :: "string \<Rightarrow> string option" where
  "skip_digits s = (if s = [] \<or> \<not> is_digit (hd s) then None else Some (dropWhile is_digit s))"

definition skip_text :: "string \<Rightarrow> string \<Rightarrow> string option" where
  "skip_text p s = (if starts_with s p then Some (drop (length p) s) else None)"

definition skip_fraction :: "string \<Rightarrow> string" where
  "skip_fraction s =
     (case skip_text ''.'' s of
        None \<Rightarrow> s
      | Some t \<Rightarrow> (case skip_digits t of None \<Rightarrow> s | Some u \<Rightarrow> u))"

definition arithmetic_line :: "string \<Rightarrow> bool" where
  "arithmetic_line s =
     (case Option.bind (skip_digits (skip_space s)) (\<lambda>s1.
           Option.bind (skip_text ''/'' (skip_space s1)) (\<lambda>s2.
           Option.bind (skip_digits (skip_space s2)) (\<lambda>s3.
           Option.bind (skip_text ''='' (skip_space s3)) (\<lambda>s4.
           Option.bind (skip_digits (skip_space s4)) (\<lambda>s5.
           Option.bind (skip_text '','' (skip_space (skip_fraction s5))) (\<lambda>s6.
           Option.bind (skip_text ''rounded up'' (skip_space s6)) (\<lambda>s7.
           Option.bind (skip_text ''='' (skip_space s7)) (\<lambda>s8.
             skip_digits (skip_space s8))))))))) of
        None \<Rightarrow> False
      | Some rest \<Rightarrow> skip_space rest = [])"

definition MAX_REASONED_LINES :: nat where "MAX_REASONED_LINES = 4"

definition final_action :: "string \<Rightarrow> string \<Rightarrow> string" where
  "final_action completion action_format =
     (if action_format = ''direct'' then completion
      else
        let found = filter (\<lambda>l. py_strip l \<noteq> []) (split_lines [] (py_strip completion)) in
        if action_format = ''reasoned_strict'' then
          (if length found = 2 \<and> arithmetic_line (found ! 0) then found ! 1 else '''')
        else if 0 < length found \<and> length found \<le> MAX_REASONED_LINES then last found else '''')"

section \<open>Verifying and scoring\<close>

definition capacity_check :: "string \<Rightarrow> bool \<Rightarrow> pyval \<Rightarrow> pyval" where
  "capacity_check name passed observed =
     PDict [(''name'', PStr name), (''required'', PBool True), (''passed'', PBool passed), (''observed'', observed)]"

definition env_resolved :: "capacity_state \<Rightarrow> int \<Rightarrow> bool" where
  "env_resolved s replicas \<longleftrightarrow>
     replicas * cs_capacity s \<ge> cs_demand s \<and> replicas > 0 \<and> replicas \<le> needed s"

definition verify_capacity :: "capacity_state \<Rightarrow> int \<Rightarrow> pydict" where
  "verify_capacity s replicas =
     [(''verification_status'', PStr (if env_resolved s replicas then ''passed'' else ''failed'')),
      (''env_resolved'', PBool (env_resolved s replicas)),
      (''checks'', PList
         [capacity_check ''capacity_covers_demand'' (replicas * cs_capacity s \<ge> cs_demand s)
            (PDict [(''capacity'', PInt (replicas * cs_capacity s)), (''demand'', PInt (cs_demand s))]),
          capacity_check ''ready_capacity_positive'' (replicas > 0) (PInt replicas),
          capacity_check ''right_sized'' (replicas \<le> needed s)
            (PDict [(''replicas'', PInt replicas), (''needed'', PInt (needed s))])])]"

definition graded_reward :: "capacity_state \<Rightarrow> int \<Rightarrow> rat" where
  "graded_reward s replicas =
     (if env_resolved s replicas then 1
      else if replicas * cs_capacity s \<ge> cs_demand s
      then round6 (1 / 2 * of_int (needed s) / of_int replicas)
      else round6 (1 / 4 * of_int (max replicas 0) / of_int (needed s)))"

record score_result =
  sr_reward :: rat
  sr_repository_reward :: rat
  sr_admissible :: bool
  sr_resolved :: bool
  sr_category :: "string option"
  sr_replicas :: "int option"
  sr_needed :: int

definition policy_keys :: "string set" where
  "policy_keys = {''tool'', ''arguments'', ''agent_claimed_resolved''}"

text \<open>The parsed action, when the completion is one and has no extra fields.\<close>

definition admitted_action :: "(string \<Rightarrow> pyval option) \<Rightarrow> string \<Rightarrow> policy_action option" where
  "admitted_action decode completion =
     (case parse_policy_action decode completion of
        Inr a \<Rightarrow>
          (if set (map fst (as_dict (case decode completion of Some v \<Rightarrow> v | None \<Rightarrow> PNone))) = policy_keys
           then Some a else None)
      | Inl _ \<Rightarrow> None)"

text \<open>
  The category of an action that is not scored.  \<open>ValueError\<close> and \<open>TypeError\<close> of the policy check are
  caught; any other exception leaves the function.
\<close>

definition action_category ::
  "(pyval \<Rightarrow> string) \<Rightarrow> bool \<Rightarrow> string \<Rightarrow> capacity_state \<Rightarrow> policy_action \<Rightarrow> py_exn + string option" where
  "action_category fmt operational ns s a =
     (let tool = po_tool a; arguments = po_arguments a in
      if \<not> validate_schema (PDict arguments) (tool_schema tool) then Inr (Some ''invalid_action'')
      else case check_tool_policy fmt operational ns ''remediation'' tool arguments (PDict (observation s)) of
        Inl e \<Rightarrow> if e = ValueError \<or> e = TypeError then Inr (Some ''invalid_action'') else Inl e
      | Inr (Some _) \<Rightarrow> Inr (Some ''policy_block'')
      | Inr None \<Rightarrow>
          if tool \<noteq> ''kubectl_scale'' \<and> tool \<noteq> ''kubectl_get'' then Inr (Some ''tool_unavailable'')
          else if dget_or arguments ''namespace'' (PStr ''default'') \<noteq> PStr ''default'' \<or>
                  (tool = ''kubectl_scale'' \<and> dget arguments ''deployment'' \<noteq> PStr ''paymentservice'')
          then Inr (Some ''target_mismatch'') else Inr None)"

definition inadmissible :: "capacity_state \<Rightarrow> string \<Rightarrow> score_result" where
  "inadmissible s category =
     \<lparr>sr_reward = - 1, sr_repository_reward = - 1, sr_admissible = False, sr_resolved = False,
      sr_category = Some category, sr_replicas = None, sr_needed = needed s\<rparr>"

definition chosen_replicas :: "capacity_state \<Rightarrow> policy_action \<Rightarrow> int" where
  "chosen_replicas s a =
     (if po_tool a = ''kubectl_scale''
      then (case dget (po_arguments a) ''replicas'' of PInt n \<Rightarrow> n | _ \<Rightarrow> 0) else cs_replicas s)"

definition scored :: "capacity_state \<Rightarrow> int \<Rightarrow> bool \<Rightarrow> py_exn + score_result" where
  "scored s replicas graded =
     rbind (score_direct_action_step (verify_capacity s replicas) False) (\<lambda>decomposition.
       let total = total_of decomposition in
       Inr \<lparr>sr_reward = (if graded then graded_reward s replicas else total), sr_repository_reward = total,
            sr_admissible = True, sr_resolved = env_resolved s replicas, sr_category = None,
            sr_replicas = Some replicas, sr_needed = needed s\<rparr>)"

definition score ::
  "(pyval \<Rightarrow> string) \<Rightarrow> bool \<Rightarrow> string \<Rightarrow> (string \<Rightarrow> pyval option) \<Rightarrow> capacity_state \<Rightarrow> string \<Rightarrow> string \<Rightarrow>
   py_exn + score_result" where
  "score fmt operational ns decode s completion reward_mode =
     (if reward_mode \<noteq> ''repository'' \<and> reward_mode \<noteq> ''graded'' then Inl ValueError
      else case admitted_action decode completion of
        None \<Rightarrow> Inr (inadmissible s ''invalid_action'')
      | Some a \<Rightarrow>
          rbind (action_category fmt operational ns s a) (\<lambda>category.
            case category of
              Some c \<Rightarrow> Inr (inadmissible s c)
            | None \<Rightarrow> scored s (chosen_replicas s a) (reward_mode = ''graded'')))"

definition expert_action :: "capacity_state \<Rightarrow> pydict" where
  "expert_action s =
     [(''tool'', PStr ''kubectl_scale''),
      (''arguments'', PDict [(''deployment'', PStr ''paymentservice''), (''namespace'', PStr ''default''),
                             (''replicas'', PInt (needed s))]),
      (''agent_claimed_resolved'', PBool False)]"

text \<open>\<open>ratio_text\<close> is the rendering of the quotient with two decimals.\<close>

definition expert_completion :: "(rat \<Rightarrow> string) \<Rightarrow> (rat \<Rightarrow> string) \<Rightarrow> capacity_state \<Rightarrow> string \<Rightarrow> string" where
  "expert_completion ff ratio_text s action_format =
     (let action = plain_text ff (PDict (expert_action s)) in
      if action_format = ''direct'' then action
      else int_str (cs_demand s) @ '' / '' @ int_str (cs_capacity s) @ '' = '' @
           ratio_text (of_int (cs_demand s) / of_int (cs_capacity s)) @ '', rounded up = '' @
           int_str (needed s) @ [CHR 0x0A] @ action)"

section \<open>Theorems\<close>

lemma needed_le_iff:
  "0 < cs_capacity s \<Longrightarrow> needed s \<le> r \<longleftrightarrow> cs_demand s \<le> r * cs_capacity s"
proof -
  assume "0 < cs_capacity s"
  then have "of_int (cs_demand s) / (of_int (cs_capacity s) :: rat) \<le> of_int r \<longleftrightarrow>
      (of_int (cs_demand s) :: rat) \<le> of_int r * of_int (cs_capacity s)"
    by (simp add: pos_divide_le_eq)
  then show ?thesis
    unfolding needed_def ceiling_le_iff by (metis of_int_le_iff of_int_mult)
qed

lemma needed_pos: "0 < cs_capacity s \<Longrightarrow> 0 < cs_demand s \<Longrightarrow> 0 < needed s"
  using needed_le_iff [of s 0] by simp

lemma right_sized_iff:
  assumes "0 < cs_capacity s" and "0 < cs_demand s"
  shows "(env_resolved s r \<longleftrightarrow> r = needed s) \<and> (cs_demand s \<le> r * cs_capacity s \<longleftrightarrow> needed s \<le> r)"
  unfolding env_resolved_def needed_le_iff [OF assms(1), symmetric] using needed_pos [OF assms] by auto

text \<open>
  With positive demand and capacity, the environment is resolved by the needed replica count and by
  no other, and that count is the least one whose capacity covers the demand.
\<close>

theorem resolved_iff_right_sized:
  assumes "0 < cs_capacity s" and "0 < cs_demand s"
  shows "(env_resolved s r \<longleftrightarrow> r = needed s) \<and> (cs_demand s \<le> r * cs_capacity s \<longleftrightarrow> needed s \<le> r)"
  using assms by (rule right_sized_iff)

lemma needed_eq_iff:
  assumes "0 < cs_capacity s"
  shows "needed s = n \<longleftrightarrow> (n - 1) * cs_capacity s < cs_demand s \<and> cs_demand s \<le> n * cs_capacity s"
  using needed_le_iff [OF assms, of n] needed_le_iff [OF assms, of "n - 1"] by linarith

lemma capacity_states_iff:
  assumes "0 < capacity"
  shows "s \<in> set (capacity_states max_needed capacity) \<longleftrightarrow>
    cs_capacity s = capacity \<and> 2 \<le> needed s \<and> needed s \<le> min max_needed MAX_REPLICAS \<and>
    1 \<le> cs_replicas s \<and> cs_replicas s < needed s"
proof -
  have "s \<in> set (capacity_states max_needed capacity) \<longleftrightarrow>
      cs_capacity s = capacity \<and> (\<exists>n. 2 \<le> n \<and> n \<le> min max_needed MAX_REPLICAS \<and>
        (n - 1) * capacity < cs_demand s \<and> cs_demand s \<le> n * capacity \<and>
        1 \<le> cs_replicas s \<and> cs_replicas s < n)"
  proof -
    have "s \<in> set (capacity_states max_needed capacity) \<longleftrightarrow>
        (\<exists>n \<in> {2..min max_needed MAX_REPLICAS}. \<exists>demand \<in> {(n - 1) * capacity + 1..n * capacity}.
         \<exists>replicas \<in> {1..n - 1}. s = \<lparr>cs_replicas = replicas, cs_demand = demand, cs_capacity = capacity\<rparr>)"
      by (simp add: capacity_states_def image_iff)
    then show ?thesis by (cases s) (force simp: Bex_def)
  qed
  also have "\<dots> \<longleftrightarrow> cs_capacity s = capacity \<and> (\<exists>n. 2 \<le> n \<and> n \<le> min max_needed MAX_REPLICAS \<and>
        needed s = n \<and> 1 \<le> cs_replicas s \<and> cs_replicas s < n)"
    using needed_eq_iff [of s] assms by blast
  finally show ?thesis by blast
qed

lemma all_states_iff:
  "s \<in> set (all_states max_needed max_capacity) \<longleftrightarrow>
     1 \<le> cs_capacity s \<and> cs_capacity s \<le> max_capacity \<and>
     2 \<le> needed s \<and> needed s \<le> max_needed \<and> needed s \<le> 20 \<and>
     1 \<le> cs_replicas s \<and> cs_replicas s < needed s"
proof -
  have "s \<in> set (all_states max_needed max_capacity) \<longleftrightarrow>
      (\<exists>capacity. 1 \<le> capacity \<and> capacity \<le> max_capacity \<and> s \<in> set (capacity_states max_needed capacity))"
    by (auto simp: all_states_def)
  also have "\<dots> \<longleftrightarrow> (\<exists>capacity. 1 \<le> capacity \<and> capacity \<le> max_capacity \<and> cs_capacity s = capacity \<and>
      2 \<le> needed s \<and> needed s \<le> min max_needed MAX_REPLICAS \<and> 1 \<le> cs_replicas s \<and> cs_replicas s < needed s)"
    using capacity_states_iff by (metis zero_less_one_class.zero_less_one order_less_le_trans)
  finally show ?thesis by (auto simp: MAX_REPLICAS_def)
qed

text \<open>
  The generated states are exactly the saturated ones: the capacity is in range, at least two
  replicas are needed and no more than the bound and the tool policy allow, and fewer are running.
\<close>

theorem all_states_are_the_saturated_ones:
  "s \<in> set (all_states max_needed max_capacity) \<longleftrightarrow>
     1 \<le> cs_capacity s \<and> cs_capacity s \<le> max_capacity \<and>
     2 \<le> needed s \<and> needed s \<le> max_needed \<and> needed s \<le> 20 \<and>
     1 \<le> cs_replicas s \<and> cs_replicas s < needed s"
  by (rule all_states_iff)

lemma verified_conclusive:
  "conclusive (verify_capacity s r)
     [r * cs_capacity s \<ge> cs_demand s, r > 0, r \<le> needed s] (env_resolved s r)"
  by (auto simp: conclusive_def verify_capacity_def required_flag_def capacity_check_def env_resolved_def)

lemma scored_ok: "\<exists>r. scored s n graded = Inr r"
proof -
  from verified_conclusive obtain d where "score_direct_action_step (verify_capacity s n) False = Inr d"
    using score_iff_conclusive by blast
  then show ?thesis by (simp add: scored_def Let_def)
qed

lemma one_extra:
  assumes "0 < cs_capacity s" and "0 < cs_demand s"
  shows "graded_reward s (needed s + 1) = round6 (of_int (needed s) / (2 * (of_int (needed s) + 1)))"
proof -
  have "\<not> env_resolved s (needed s + 1)" using right_sized_iff [OF assms] by simp
  moreover have "cs_demand s \<le> (needed s + 1) * cs_capacity s"
    using needed_le_iff [OF assms(1), of "needed s + 1"] by simp
  ultimately show ?thesis by (simp add: graded_reward_def algebra_simps)
qed

lemma uncovered:
  assumes "0 < cs_capacity s" and "0 < cs_demand s" and "r < needed s"
  shows "graded_reward s r = round6 (of_int (max r 0) / (4 * of_int (needed s)))"
proof -
  have "\<not> env_resolved s r" using right_sized_iff [OF assms(1,2)] assms(3) by simp
  moreover have "\<not> cs_demand s \<le> r * cs_capacity s"
    using needed_le_iff [OF assms(1), of r] assms(3) by simp
  ultimately show ?thesis by (simp add: graded_reward_def)
qed

lemma round6_third: "round6 (1 / 3) > 1 / 4"
  by (simp add: round6_def round_half_even_def Let_def)

text \<open>
  The graded reward ranks the right count first, one replica too many second, and any count that
  leaves demand uncovered below that.  This is the order of neighbours only: a count far above the need
  covers the demand and still earns less than one replica too few.
\<close>

theorem one_too_many_beats_too_few:
  assumes "0 < cs_capacity s" and "0 < cs_demand s" and "r < needed s"
  shows "graded_reward s (needed s) = 1 \<and> graded_reward s (needed s + 1) < 1 \<and>
    graded_reward s r < graded_reward s (needed s + 1) \<and>
    graded_reward \<lparr>cs_replicas = 1, cs_demand = 2, cs_capacity = 1\<rparr> 20 <
      graded_reward \<lparr>cs_replicas = 1, cs_demand = 2, cs_capacity = 1\<rparr> 1"
proof -
  define n :: rat where "n = of_int (needed s)"
  have n: "1 \<le> n" using needed_pos [OF assms(1,2)] unfolding n_def by linarith
  have extra: "graded_reward s (needed s + 1) = round6 (n / (2 * (n + 1)))"
    using one_extra [OF assms(1,2)] by (simp add: n_def)
  have "n / (2 * (n + 1)) \<le> 1 / 2" using n by (simp add: divide_le_eq)
  then have "graded_reward s (needed s + 1) \<le> round6 (1 / 2)" unfolding extra by (rule round6_mono)
  moreover have "round6 (1 / 2) = 1 / 2" by (simp add: round6_def round_half_even_def Let_def)
  ultimately have upper: "graded_reward s (needed s + 1) < 1" by linarith
  have less: "graded_reward s r < graded_reward s (needed s + 1)"
  proof (cases "needed s = 1")
    case True
    with uncovered [OF assms] assms(3) have "graded_reward s r = 0"
      by (simp add: round6_quarters max_def)
    moreover have "graded_reward s (needed s + 1) = 1 / 4"
    proof -
      have "n = 1" using True by (simp add: n_def)
      then show ?thesis unfolding extra using round6_quarters(3) by simp
    qed
    ultimately show ?thesis by simp
  next
    case False
    with needed_pos [OF assms(1,2)] have "2 \<le> n" unfolding n_def by linarith
    then have "1 / 3 \<le> n / (2 * (n + 1))" by (simp add: le_divide_eq)
    then have "round6 (1 / 3) \<le> graded_reward s (needed s + 1)" unfolding extra by (rule round6_mono)
    moreover have "of_int (max r 0) / (4 * n) \<le> 1 / 4"
      using assms(3) n needed_pos [OF assms(1,2)] unfolding n_def by (simp add: divide_le_eq)
    then have "graded_reward s r \<le> round6 (1 / 4)"
      using uncovered [OF assms] unfolding n_def by (metis round6_mono)
    ultimately show ?thesis using round6_third round6_quarters by linarith
  qed
  have "graded_reward s (needed s) = 1"
    using right_sized_iff [OF assms(1,2)] by (simp add: graded_reward_def)
  moreover have "graded_reward \<lparr>cs_replicas = 1, cs_demand = 2, cs_capacity = 1\<rparr> 20 <
      graded_reward \<lparr>cs_replicas = 1, cs_demand = 2, cs_capacity = 1\<rparr> 1" by code_simp
  ultimately show ?thesis using upper less by blast
qed

lemma one_too_many_beats_too_few_witness:
  "graded_reward \<lparr>cs_replicas = 1, cs_demand = 7, cs_capacity = 2\<rparr> 3 <
   graded_reward \<lparr>cs_replicas = 1, cs_demand = 7, cs_capacity = 2\<rparr> 5"
proof -
  have "needed \<lparr>cs_replicas = 1, cs_demand = 7, cs_capacity = 2\<rparr> = 4" by code_simp
  then show ?thesis
    using one_too_many_beats_too_few [of "\<lparr>cs_replicas = 1, cs_demand = 7, cs_capacity = 2\<rparr>" 3] by simp
qed

lemma resolved_iff_right_sized_witness:
  "env_resolved \<lparr>cs_replicas = 1, cs_demand = 7, cs_capacity = 2\<rparr> 4"
proof -
  have "needed \<lparr>cs_replicas = 1, cs_demand = 7, cs_capacity = 2\<rparr> = 4" by code_simp
  then show ?thesis
    using resolved_iff_right_sized [of "\<lparr>cs_replicas = 1, cs_demand = 7, cs_capacity = 2\<rparr>" 4] by simp
qed

lemma scored_result:
  assumes "scored s n graded = Inr r"
  shows "sr_admissible r \<and> sr_category r = None \<and> sr_resolved r = env_resolved s n \<and> sr_replicas r = Some n \<and>
    sr_reward r = (if graded then graded_reward s n else sr_repository_reward r) \<and>
    (if env_resolved s n then sr_repository_reward r = 1
     else 0 \<le> sr_repository_reward r \<and> sr_repository_reward r \<le> 1 / 4)"
proof -
  from assms obtain d where d: "score_direct_action_step (verify_capacity s n) False = Inr d"
    and r: "sr_repository_reward r = total_of d" "sr_admissible r" "sr_category r = None"
      "sr_resolved r = env_resolved s n" "sr_replicas r = Some n"
      "sr_reward r = (if graded then graded_reward s n else total_of d)"
    by (auto simp: scored_def rbind_eq_Inr Let_def)
  have resolved: "dget (verify_capacity s n) ''env_resolved'' = PBool (env_resolved s n)"
    by (simp add: verify_capacity_def)
  have "0 \<le> total_of d" if "\<not> env_resolved s n"
  proof -
    from d that score_iff_conclusive [of "verify_capacity s n" False d] resolved obtain required where
      "d = step_rewards False False required" by (auto simp: conclusive_def)
    moreover have "round6 0 \<le> round6 (of_nat (length (filter id required)) / of_nat (length required) / 4)"
      by (intro round6_mono) simp
    ultimately show ?thesis by (simp add: total_step_rewards round6_quarters)
  qed
  then show ?thesis using step_total_bounds [OF d] r resolved by (auto split: if_splits)
qed

lemma plain_action_decoded:
  assumes "decode text = Some (PDict (expert_action s))"
  shows "admitted_action decode text =
    Some \<lparr>po_tool = ''kubectl_scale'',
          po_arguments = [(''deployment'', PStr ''paymentservice''), (''namespace'', PStr ''default''),
                          (''replicas'', PInt (needed s))], po_claimed = False\<rparr>"
  by (auto simp: admitted_action_def parse_policy_action_def assms expert_action_def policy_keys_def)

lemma expert_category:
  assumes "0 \<le> n" and "n \<le> 20"
  shows "action_category fmt False ns s
     \<lparr>po_tool = ''kubectl_scale'',
      po_arguments = [(''deployment'', PStr ''paymentservice''), (''namespace'', PStr ''default''),
                      (''replicas'', PInt n)], po_claimed = False\<rparr> = Inr None"
proof -
  have schema: "validate_schema (PDict [(''deployment'', PStr ''paymentservice''), (''namespace'', PStr ''default''),
      (''replicas'', PInt n)]) (tool_schema ''kubectl_scale'')"
    by (simp add: tool_schema_def TOOL_PARAMETER_SCHEMAS_def object_schema_def of_type_def has_type_def
        schema_kind_def enum_allows_def keys_allowed_def schema_properties_def)
  have "''kubectl_scale'' \<in> effective_role_tools ''remediation'' False"
    by code_simp
  moreover have "\<exists>sev. extract_severity fmt (PDict (observation s)) = Inr sev"
    by (simp add: extract_severity_def observation_def Let_def)
  ultimately have "check_tool_policy fmt False ns ''remediation'' ''kubectl_scale''
      [(''deployment'', PStr ''paymentservice''), (''namespace'', PStr ''default''), (''replicas'', PInt n)]
      (PDict (observation s)) = Inr None"
    using assms by (auto simp: check_tool_policy_def remediation_guard_def scale_guard_def)
  with schema show ?thesis by (simp add: action_category_def)
qed

text \<open>
  The expert demonstration of every generated state is admitted, resolves the environment and earns
  the full reward in both reward modes, given only that the JSON decoder reads back the action it was
  written from.
\<close>

theorem expert_demonstration_scores_full:
  assumes "s \<in> set (all_states max_needed max_capacity)"
    and "decode (expert_completion ff ratio_text s ''direct'') = Some (PDict (expert_action s))"
    and "mode = ''repository'' \<or> mode = ''graded''"
  shows "\<exists>r. score fmt False ns decode s (final_action (expert_completion ff ratio_text s ''direct'') ''direct'') mode
      = Inr r \<and> sr_admissible r \<and> sr_resolved r \<and> sr_reward r = 1 \<and> sr_replicas r = Some (needed s)"
proof -
  from assms(1) have cap: "0 < cs_capacity s" and n: "2 \<le> needed s" "needed s \<le> 20"
    by (auto simp: all_states_iff)
  have resolved: "env_resolved s (needed s)"
    using needed_le_iff [OF cap, of "needed s"] n by (simp add: env_resolved_def)
  from n have category: "action_category fmt False ns s
     \<lparr>po_tool = ''kubectl_scale'',
      po_arguments = [(''deployment'', PStr ''paymentservice''), (''namespace'', PStr ''default''),
                      (''replicas'', PInt (needed s))], po_claimed = False\<rparr> = Inr None"
    by (intro expert_category) simp_all
  obtain r where r: "scored s (needed s) (mode = ''graded'') = Inr r" using scored_ok by blast
  note admitted = plain_action_decoded [of decode "expert_completion ff ratio_text s ''direct''" s, OF assms(2)]
  have "score fmt False ns decode s (final_action (expert_completion ff ratio_text s ''direct'') ''direct'') mode = Inr r"
    using assms(3) r by (auto simp: score_def final_action_def admitted category chosen_replicas_def)
  with scored_result [OF r] resolved show ?thesis by (auto simp: graded_reward_def)
qed

definition sample_state :: capacity_state where
  "sample_state = \<lparr>cs_replicas = 1, cs_demand = 7, cs_capacity = 2\<rparr>"

lemma expert_demonstration_scores_full_witness:
  "\<exists>r. score (\<lambda>_. '''') False ''default'' (\<lambda>_. Some (PDict (expert_action sample_state))) sample_state
      (final_action (expert_completion (\<lambda>_. '''') (\<lambda>_. '''') sample_state ''direct'') ''direct'') ''graded'' = Inr r \<and>
     sr_reward r = 1 \<and> sr_replicas r = Some 4"
proof -
  have need: "needed sample_state = 4" by code_simp
  then have "sample_state \<in> set (all_states 12 5)" by (simp add: all_states_iff sample_state_def)
  from expert_demonstration_scores_full [OF this, of "\<lambda>_. Some (PDict (expert_action sample_state))"] need
  show ?thesis by fastforce
qed

text \<open>
  Scores separate the outcomes: an action that is not admitted always gets -1 and a category; an
  admitted one gets at least 0, the repository reward 1 exactly when it resolves the environment, and
  never more than 1/4 otherwise.
\<close>

theorem score_separates_outcomes:
  assumes "score fmt operational ns decode s completion mode = Inr r"
  shows "if sr_admissible r
    then sr_category r = None \<and> (\<exists>n. sr_replicas r = Some n \<and> sr_resolved r = env_resolved s n) \<and>
         (if sr_resolved r then sr_repository_reward r = 1
          else 0 \<le> sr_repository_reward r \<and> sr_repository_reward r \<le> 1 / 4) \<and>
         (mode = ''repository'' \<longrightarrow> sr_reward r = sr_repository_reward r)
    else sr_reward r = - 1 \<and> sr_repository_reward r = - 1 \<and> sr_category r \<noteq> None \<and> sr_replicas r = None"
proof -
  from assms consider c where "r = inadmissible s c"
    | a where "scored s (chosen_replicas s a) (mode = ''graded'') = Inr r"
    by (auto simp: score_def rbind_eq_Inr split: option.splits if_splits)
  then show ?thesis
  proof cases
    case 1
    then show ?thesis by (simp add: inadmissible_def)
  next
    case 2
    from scored_result [OF 2] show ?thesis by auto
  qed
qed

lemma score_separates_outcomes_witness:
  "\<exists>r. score (\<lambda>_. '''') False ''default'' (\<lambda>_. None) sample_state ''scale it'' ''repository'' = Inr r \<and>
     \<not> sr_admissible r \<and> sr_reward r = - 1"
proof -
  have run: "score (\<lambda>_. '''') False ''default'' (\<lambda>_. None) sample_state ''scale it'' ''repository'' =
      Inr (inadmissible sample_state ''invalid_action'')"
    by (simp add: score_def admitted_action_def parse_policy_action_def)
  then show ?thesis
    using score_separates_outcomes [OF run] by (simp add: inadmissible_def)
qed

end
