(* ===== verification/Admission.thy ===== *)
theory Admission
  imports PyValue
begin

text \<open>
  \<open>agents/incident_admission.py\<close>: durable admission of alert occurrences.  The SQLite table is a map
  from the primary key to its row; the three SQL statements are functions on it.  An operation is
  one \<open>BEGIN IMMEDIATE\<close> transaction: when its body raises, or the database itself fails (\<open>fault\<close>), the
  table is what it was.  Tokens (UUIDs) are arguments.
\<close>

section \<open>The table\<close>

datatype row_state = Queued | Attempted

record admission_row =
  row_incident :: string
  row_state :: row_state
  row_token :: string

type_synonym table = "string \<Rightarrow> admission_row option"

datatype admission_error = Disappeared | NotQueued | DatabaseFault

text \<open>\<open>INSERT ... ON CONFLICT DO NOTHING\<close>, with the row count.\<close>

definition insert_row :: "string \<Rightarrow> admission_row \<Rightarrow> table \<Rightarrow> nat \<times> table" where
  "insert_row key row db = (case db key of None \<Rightarrow> (1, db(key \<mapsto> row)) | Some _ \<Rightarrow> (0, db))"

text \<open>\<open>UPDATE ... SET state = 'attempted' WHERE\<close> key, token and \<open>state = 'queued'\<close>.\<close>

definition update_row :: "string \<Rightarrow> string \<Rightarrow> table \<Rightarrow> nat \<times> table" where
  "update_row key tok db =
     (case db key of
        None \<Rightarrow> (0, db)
      | Some row \<Rightarrow>
          if row_token row = tok \<and> row_state row = Queued
          then (1, db(key \<mapsto> row\<lparr>row_state := Attempted\<rparr>)) else (0, db))"

definition delete_queued :: "string \<Rightarrow> table \<Rightarrow> table" where
  "delete_queued tok db = (\<lambda>key. case db key of
     None \<Rightarrow> None
   | Some row \<Rightarrow> if row_token row = tok \<and> row_state row = Queued then None else Some row)"

text \<open>\<open>_transaction\<close>: commit the body's table, or roll back and re-raise.\<close>

definition transaction ::
  "bool \<Rightarrow> (table \<Rightarrow> admission_error + ('a \<times> table)) \<Rightarrow> table \<Rightarrow> (admission_error + 'a) \<times> table" where
  "transaction fault body db =
     (if fault then (Inl DatabaseFault, db)
      else case body db of Inl e \<Rightarrow> (Inl e, db) | Inr (a, db') \<Rightarrow> (Inr a, db'))"

section \<open>Operations\<close>

record admission_result =
  ar_token :: "string option"
  ar_admitted :: "string list"
  ar_duplicates :: "(string \<times> string) list"

text \<open>The constructor rejects paths that are not durable.\<close>

definition store_path :: "string \<Rightarrow> py_exn + string" where
  "store_path path = (if path = [] \<or> path = '':memory:'' then Inl ValueError else Inr path)"

fun admit_loop ::
  "string \<Rightarrow> string \<Rightarrow> string list \<Rightarrow> table \<Rightarrow>
   admission_error + ((string list \<times> (string \<times> string) list) \<times> table)" where
  "admit_loop incident tok [] db = Inr (([], []), db)"
| "admit_loop incident tok (key # keys) db =
     (case insert_row key \<lparr>row_incident = incident, row_state = Queued, row_token = tok\<rparr> db of
        (n, db1) \<Rightarrow>
          if n = 1 then
            rbind (admit_loop incident tok keys db1)
              (\<lambda>((admitted, dups), db2). Inr ((key # admitted, dups), db2))
          else
            case db1 key of
              None \<Rightarrow> Inl Disappeared
            | Some row \<Rightarrow>
                rbind (admit_loop incident tok keys db1)
                  (\<lambda>((admitted, dups), db2). Inr ((admitted, (key, row_incident row) # dups), db2)))"

definition admit ::
  "bool \<Rightarrow> string \<Rightarrow> string \<Rightarrow> string list \<Rightarrow> table \<Rightarrow> (admission_error + admission_result) \<times> table" where
  "admit fault tok incident occurrence_keys db =
     (let keys = first_occurrences occurrence_keys in
      if keys = [] then (Inr \<lparr>ar_token = None, ar_admitted = [], ar_duplicates = []\<rparr>, db)
      else transaction fault
        (\<lambda>d. rbind (admit_loop incident tok keys d) (\<lambda>((admitted, dups), d').
           Inr (\<lparr>ar_token = (if admitted = [] then None else Some tok),
                 ar_admitted = admitted, ar_duplicates = dups\<rparr>, d'))) db)"

fun mark_loop :: "string \<Rightarrow> string list \<Rightarrow> table \<Rightarrow> nat \<times> table" where
  "mark_loop tok [] db = (0, db)"
| "mark_loop tok (key # keys) db =
     (case update_row key tok db of
        (n, db1) \<Rightarrow> (case mark_loop tok keys db1 of (m, db2) \<Rightarrow> (n + m, db2)))"

definition mark_attempted ::
  "bool \<Rightarrow> string \<Rightarrow> string list \<Rightarrow> table \<Rightarrow> (admission_error + unit) \<times> table" where
  "mark_attempted fault tok occurrence_keys db =
     (let keys = first_occurrences occurrence_keys in
      if keys = [] then (Inr (), db)
      else transaction fault
        (\<lambda>d. case mark_loop tok keys d of
           (updated, d') \<Rightarrow> if updated \<noteq> length keys then Inl NotQueued else Inr ((), d')) db)"

definition rollback_queued :: "bool \<Rightarrow> string \<Rightarrow> table \<Rightarrow> (admission_error + unit) \<times> table" where
  "rollback_queued fault tok db =
     (if tok = [] then (Inr (), db)
      else transaction fault (\<lambda>d. Inr ((), delete_queued tok d)) db)"

section \<open>What the loops do\<close>

lemma insert_row_simps:
  "db key = None \<Longrightarrow> insert_row key row db = (1, db(key \<mapsto> row))"
  "db key = Some r \<Longrightarrow> insert_row key row db = (0, db)"
  by (simp_all add: insert_row_def)

text \<open>The reference of the insertion loop: absent keys are admitted, the others are duplicates.\<close>

lemma admit_loop_spec:
  "distinct keys \<Longrightarrow>
   admit_loop incident tok keys db =
     Inr ((filter (\<lambda>k. db k = None) keys,
           map (\<lambda>k. (k, row_incident (the (db k)))) (filter (\<lambda>k. db k \<noteq> None) keys)),
          \<lambda>k. if k \<in> set keys \<and> db k = None
              then Some \<lparr>row_incident = incident, row_state = Queued, row_token = tok\<rparr> else db k)"
proof (induction keys arbitrary: db)
  case Nil
  then show ?case by (simp add: fun_eq_iff)
next
  case (Cons key keys)
  then have notin: "key \<notin> set keys" and dist: "distinct keys" by simp_all
  let ?row = "\<lparr>row_incident = incident, row_state = Queued, row_token = tok\<rparr>"
  show ?case
  proof (cases "db key")
    case None
    have "filter (\<lambda>k. (db(key \<mapsto> ?row)) k = None) keys = filter (\<lambda>k. db k = None) keys"
      "filter (\<lambda>k. (db(key \<mapsto> ?row)) k \<noteq> None) keys = filter (\<lambda>k. db k \<noteq> None) keys"
      using notin by (auto intro!: filter_cong)
    moreover have "map (\<lambda>k. (k, row_incident (the ((db(key \<mapsto> ?row)) k)))) (filter (\<lambda>k. db k \<noteq> None) keys)
        = map (\<lambda>k. (k, row_incident (the (db k)))) (filter (\<lambda>k. db k \<noteq> None) keys)"
      using notin by auto
    ultimately show ?thesis using None notin
      by (simp only: admit_loop.simps insert_row_simps(1) [of db key, OF None] Cons.IH [OF dist])
        (auto simp: fun_eq_iff)
  next
    case (Some row)
    then show ?thesis
      by (simp add: insert_row_simps(2) [of db key, OF Some] Cons.IH [OF dist])
        (auto simp: fun_eq_iff)
  qed
qed

text \<open>The reference of the update loop: it counts the keys that hold a queued row of the token.\<close>

definition queued_with :: "string \<Rightarrow> table \<Rightarrow> string \<Rightarrow> bool" where
  "queued_with tok db k =
     (case db k of None \<Rightarrow> False | Some row \<Rightarrow> row_token row = tok \<and> row_state row = Queued)"

lemma mark_loop_spec:
  "distinct keys \<Longrightarrow>
   mark_loop tok keys db =
     (length (filter (queued_with tok db) keys),
      \<lambda>k. if k \<in> set keys \<and> queued_with tok db k
          then map_option (\<lambda>row. row\<lparr>row_state := Attempted\<rparr>) (db k) else db k)"
proof (induction keys arbitrary: db)
  case Nil
  then show ?case by (simp add: fun_eq_iff)
next
  case (Cons key keys)
  then have notin: "key \<notin> set keys" and dist: "distinct keys" by simp_all
  show ?case
  proof (cases "queued_with tok db key")
    case True
    then obtain row where row: "db key = Some row" "row_token row = tok" "row_state row = Queued"
      by (auto simp: queued_with_def split: option.splits)
    let ?db = "db(key \<mapsto> row\<lparr>row_state := Attempted\<rparr>)"
    have "filter (queued_with tok ?db) keys = filter (queued_with tok db) keys"
      using notin by (intro filter_cong) (auto simp: queued_with_def)
    moreover have "update_row key tok db = (1, ?db)" using row by (simp add: update_row_def)
    moreover have "queued_with tok ?db k \<longleftrightarrow> k \<noteq> key \<and> queued_with tok db k" for k
      by (simp add: queued_with_def)
    ultimately show ?thesis using True row notin
      by (auto simp: Cons.IH [OF dist] fun_eq_iff)
  next
    case False
    then have "update_row key tok db = (0, db)"
      by (auto simp: update_row_def queued_with_def split: option.split)
    with False show ?thesis by (auto simp: Cons.IH [OF dist] fun_eq_iff)
  qed
qed

text \<open>Each operation in one equation.\<close>

lemma admit_result:
  "admit False tok incident ks db =
     (let keys = first_occurrences ks; new = filter (\<lambda>k. db k = None) keys in
      (Inr \<lparr>ar_token = (if new = [] then None else Some tok), ar_admitted = new,
            ar_duplicates = map (\<lambda>k. (k, row_incident (the (db k)))) (filter (\<lambda>k. db k \<noteq> None) keys)\<rparr>,
       \<lambda>k. if k \<in> set keys \<and> db k = None
           then Some \<lparr>row_incident = incident, row_state = Queued, row_token = tok\<rparr> else db k))"
proof (cases "first_occurrences ks = []")
  case True
  then show ?thesis by (simp add: admit_def Let_def fun_eq_iff)
next
  case False
  then show ?thesis
    by (simp add: admit_def transaction_def admit_loop_spec Let_def)
qed

lemma mark_attempted_result:
  "mark_attempted False tok ks db =
     (if \<forall>k \<in> set ks. queued_with tok db k
      then (Inr (), \<lambda>k. if k \<in> set ks
                        then map_option (\<lambda>row. row\<lparr>row_state := Attempted\<rparr>) (db k) else db k)
      else (Inl NotQueued, db))"
proof (cases "first_occurrences ks = []")
  case True
  then have "ks = []" by simp
  then show ?thesis by (simp add: mark_attempted_def fun_eq_iff)
next
  case False
  then show ?thesis
    by (auto simp: mark_attempted_def transaction_def mark_loop_spec Let_def length_filter_eq_all
        fun_eq_iff)
qed

lemma fault_keeps_table:
  "snd (admit True tok incident ks db) = db"
  "snd (mark_attempted True tok ks db) = db"
  "snd (rollback_queued True tok db) = db"
  by (simp_all add: admit_def mark_attempted_def rollback_queued_def transaction_def Let_def)

section \<open>The contract of a store\<close>

text \<open>
  What the dispatcher relies on: an occurrence is attempted by a successful \<open>mark_attempted\<close> call
  only, at which point it was not attempted before, and it stays attempted whatever is called; an
  admitted occurrence was not yet attempted.  The client's conclusion, that no sequence of calls
  attempts an occurrence twice, is proved from the contract alone.
\<close>

datatype store_call =
    CallAdmit bool string string "string list"
  | CallMark bool string "string list"
  | CallRollback bool string

fun store_step ::
  "(bool \<Rightarrow> string \<Rightarrow> string \<Rightarrow> string list \<Rightarrow> 'db \<Rightarrow> ('err + admission_result) \<times> 'db) \<Rightarrow>
   (bool \<Rightarrow> string \<Rightarrow> string list \<Rightarrow> 'db \<Rightarrow> ('err + unit) \<times> 'db) \<Rightarrow>
   (bool \<Rightarrow> string \<Rightarrow> 'db \<Rightarrow> ('err + unit) \<times> 'db) \<Rightarrow> 'db \<Rightarrow> store_call \<Rightarrow> 'db" where
  "store_step ad mk rb db (CallAdmit fault tok incident ks) = snd (ad fault tok incident ks db)"
| "store_step ad mk rb db (CallMark fault tok ks) = snd (mk fault tok ks db)"
| "store_step ad mk rb db (CallRollback fault tok) = snd (rb fault tok db)"

fun marks :: "(bool \<Rightarrow> string \<Rightarrow> string list \<Rightarrow> 'db \<Rightarrow> ('err + unit) \<times> 'db) \<Rightarrow>
   'db \<Rightarrow> store_call \<Rightarrow> string \<Rightarrow> bool" where
  "marks mk db (CallMark fault tok ks) k \<longleftrightarrow> k \<in> set ks \<and> is_ok (fst (mk fault tok ks db))"
| "marks mk db _ k \<longleftrightarrow> False"

locale occurrence_store =
  fixes ad :: "bool \<Rightarrow> string \<Rightarrow> string \<Rightarrow> string list \<Rightarrow> 'db \<Rightarrow> ('err + admission_result) \<times> 'db"
    and mk :: "bool \<Rightarrow> string \<Rightarrow> string list \<Rightarrow> 'db \<Rightarrow> ('err + unit) \<times> 'db"
    and rb :: "bool \<Rightarrow> string \<Rightarrow> 'db \<Rightarrow> ('err + unit) \<times> 'db"
    and attempted :: "'db \<Rightarrow> string \<Rightarrow> bool"
  assumes mark_fresh: "is_ok (fst (mk fault tok ks db)) \<Longrightarrow> k \<in> set ks \<Longrightarrow> \<not> attempted db k"
    and mark_marks:
      "is_ok (fst (mk fault tok ks db)) \<Longrightarrow> k \<in> set ks \<Longrightarrow> attempted (snd (mk fault tok ks db)) k"
    and mark_keeps: "attempted db k \<Longrightarrow> attempted (snd (mk fault tok ks db)) k"
    and admit_keeps: "attempted (snd (ad fault tok incident ks db)) k \<longleftrightarrow> attempted db k"
    and rollback_keeps: "attempted (snd (rb fault tok db)) k \<longleftrightarrow> attempted db k"
    and admit_fresh:
      "fst (ad fault tok incident ks db) = Inr r \<Longrightarrow> k \<in> set (ar_admitted r) \<Longrightarrow> \<not> attempted db k"
begin

lemma attempted_step: "attempted db k \<Longrightarrow> attempted (store_step ad mk rb db c) k"
  by (cases c) (simp_all add: mark_keeps admit_keeps rollback_keeps)

lemma marks_attempts:
  "marks mk db c k \<Longrightarrow> \<not> attempted db k \<and> attempted (store_step ad mk rb db c) k"
  by (cases c) (auto dest: mark_fresh mark_marks)

end

sublocale occurrence_store \<subseteq> calls: at_most_once "store_step ad mk rb" "\<lambda>_. True" "marks mk" attempted
  by unfold_locales (auto intro: attempted_step dest: marks_attempts)

definition attempted_row :: "table \<Rightarrow> string \<Rightarrow> bool" where
  "attempted_row db k = (case db k of None \<Rightarrow> False | Some row \<Rightarrow> row_state row = Attempted)"

lemma mark_attempted_ok:
  assumes "is_ok (fst (mark_attempted fault tok ks db))" and "ks \<noteq> []"
  shows "\<not> fault" and "\<forall>k \<in> set ks. queued_with tok db k"
    and "snd (mark_attempted fault tok ks db) =
      (\<lambda>k. if k \<in> set ks then map_option (\<lambda>row. row\<lparr>row_state := Attempted\<rparr>) (db k) else db k)"
proof -
  show nf: "\<not> fault"
    using assms by (cases fault) (auto simp: mark_attempted_def transaction_def Let_def)
  then show "\<forall>k \<in> set ks. queued_with tok db k"
    using assms(1) by (auto simp: mark_attempted_result split: if_splits)
  then show "snd (mark_attempted fault tok ks db) =
      (\<lambda>k. if k \<in> set ks then map_option (\<lambda>row. row\<lparr>row_state := Attempted\<rparr>) (db k) else db k)"
    using nf by (simp add: mark_attempted_result)
qed

lemma rollback_result:
  "snd (rollback_queued fault tok db) = (if tok = [] \<or> fault then db else delete_queued tok db)"
  by (simp add: rollback_queued_def transaction_def)

interpretation admission: occurrence_store admit mark_attempted rollback_queued attempted_row
proof unfold_locales
  fix fault tok incident ks and db :: table and k r
  show "\<not> attempted_row db k" if "is_ok (fst (mark_attempted fault tok ks db))" "k \<in> set ks"
    using mark_attempted_ok(2) [OF that(1)] that(2)
    by (force simp: queued_with_def attempted_row_def split: option.splits)
  show "attempted_row (snd (mark_attempted fault tok ks db)) k"
    if "is_ok (fst (mark_attempted fault tok ks db))" "k \<in> set ks"
  proof -
    from that have ne: "ks \<noteq> []" by auto
    from mark_attempted_ok(2) [OF that(1) ne] that(2) obtain row where "db k = Some row"
      by (force simp: queued_with_def split: option.splits)
    with that(2) show ?thesis by (simp add: mark_attempted_ok(3) [OF that(1) ne] attempted_row_def)
  qed
  show "attempted_row (snd (mark_attempted fault tok ks db)) k" if "attempted_row db k"
    using that
    by (cases fault) (auto simp: fault_keeps_table mark_attempted_result attempted_row_def
        split: option.splits)
  show "attempted_row (snd (admit fault tok incident ks db)) k \<longleftrightarrow> attempted_row db k"
    by (cases fault) (auto simp: fault_keeps_table admit_result Let_def attempted_row_def
        split: option.splits)
  show "attempted_row (snd (rollback_queued fault tok db)) k \<longleftrightarrow> attempted_row db k"
    by (auto simp: rollback_result delete_queued_def attempted_row_def split: option.splits)
  show "\<not> attempted_row db k" if "fst (admit fault tok incident ks db) = Inr r"
    "k \<in> set (ar_admitted r)"
  proof (cases fault)
    case True
    with that show ?thesis by (auto simp: admit_def transaction_def Let_def split: if_splits)
  next
    case False
    with that show ?thesis by (auto simp: admit_result Let_def attempted_row_def)
  qed
qed

section \<open>Properties\<close>

text \<open>
  Admission is all or nothing and first come first served: a batch's keys are admitted, in batch
  order and once each, exactly when no row exists for them; the others are reported with the incident
  that owns them; existing rows are untouched, and a database fault changes nothing.  The internal
  \<open>occurrence admission disappeared\<close> error is never raised.
\<close>

theorem admit_partitions_the_batch:
  "\<exists>r db'. admit False tok incident ks db = (Inr r, db') \<and>
     ar_admitted r = filter (\<lambda>k. db k = None) (first_occurrences ks) \<and>
     map fst (ar_duplicates r) = filter (\<lambda>k. db k \<noteq> None) (first_occurrences ks) \<and>
     list_all (\<lambda>(k, owner). map_option row_incident (db k) = Some owner) (ar_duplicates r) \<and>
     (ar_token r = None \<longleftrightarrow> ar_admitted r = []) \<and>
     (\<forall>k. db' k = (if k \<in> set (ar_admitted r)
        then Some \<lparr>row_incident = incident, row_state = Queued, row_token = tok\<rparr> else db k)) \<and>
     admit True tok incident ks db = (if ks = [] then Inr r else Inl DatabaseFault, db)"
proof -
  obtain r db' where a: "admit False tok incident ks db = (Inr r, db')"
    by (simp add: admit_result Let_def)
  then have r: "ar_admitted r = filter (\<lambda>k. db k = None) (first_occurrences ks)"
      "ar_duplicates r = map (\<lambda>k. (k, row_incident (the (db k))))
         (filter (\<lambda>k. db k \<noteq> None) (first_occurrences ks))"
      "ar_token r = (if ar_admitted r = [] then None else Some tok)"
    and db': "db' = (\<lambda>k. if k \<in> set ks \<and> db k = None
      then Some \<lparr>row_incident = incident, row_state = Queued, row_token = tok\<rparr> else db k)"
    by (auto simp: admit_result Let_def)
  have "map fst (ar_duplicates r) = filter (\<lambda>k. db k \<noteq> None) (first_occurrences ks)"
    by (simp add: r comp_def)
  moreover have "list_all (\<lambda>(k, owner). map_option row_incident (db k) = Some owner) (ar_duplicates r)"
    by (auto simp: r list_all_iff)
  moreover have "admit True tok incident ks db = (if ks = [] then Inr r else Inl DatabaseFault, db)"
    using a by (auto simp: admit_def transaction_def Let_def)
  moreover have "\<forall>k. db' k = (if k \<in> set (ar_admitted r)
      then Some \<lparr>row_incident = incident, row_state = Queued, row_token = tok\<rparr> else db k)"
    by (simp add: r db')
  ultimately show ?thesis using a r(1,3) by (intro exI [of _ r] exI [of _ db'] conjI) auto
qed

text \<open>
  C7. No sequence of admissions, attempts and rollbacks, with or without database faults, in one
  process or across restarts, attempts an occurrence twice.
\<close>

theorem occurrence_attempted_at_most_once:
  "firings (store_step admit mark_attempted rollback_queued) (marks mark_attempted) db calls k \<le> 1"
  by (rule admission.calls.firings_le_1) simp

text \<open>
  Rolling back an admission leaves attempted occurrences and other admissions alone and makes its
  still queued occurrences admissible again; marking attempted succeeds only for the token's own
  queued rows and otherwise changes nothing.
\<close>

theorem rollback_frees_only_queued_rows:
  assumes "tok \<noteq> []"
  shows "(\<forall>k. snd (rollback_queued False tok db) k = (if queued_with tok db k then None else db k)) \<and>
    (mark_attempted False tok ks db = (Inl NotQueued, db) \<or>
     (\<forall>k \<in> set ks. queued_with tok db k) \<and>
     (\<forall>k. \<not> queued_with tok (snd (mark_attempted False tok ks db)) k \<longleftrightarrow>
          k \<in> set ks \<or> \<not> queued_with tok db k))"
  using assms
  by (auto simp: rollback_result delete_queued_def queued_with_def mark_attempted_result
      split: option.splits if_splits)

theorem rollback_frees_only_queued_rows_witness:
  "snd (rollback_queued False ''t''
     [''k'' \<mapsto> \<lparr>row_incident = ''i'', row_state = Queued, row_token = ''t''\<rparr>]) ''k'' = None"
  using rollback_frees_only_queued_rows
    [of "''t''" "[''k'' \<mapsto> \<lparr>row_incident = ''i'', row_state = Queued, row_token = ''t''\<rparr>]" "[]"]
  by (simp add: queued_with_def)

end
