(* ===== verification/AdmissionSpec.thy ===== *)
theory AdmissionSpec
  imports Admission
begin

text \<open>
  What \<open>agents/incident_admission.py\<close> promises, without its table and its transactions: a ledger that
  knows which occurrence waits under which token, which occurrences are finished, and which incident
  owns an occurrence.  A call is accepted or rejected; the step relation says when, and what it does.
  The operations of the store implement it: every call of the store is a step of the ledger.
\<close>

section \<open>The ledger\<close>

record ledger =
  waiting :: "string \<Rightarrow> string option"
  finished :: "string set"
  owner :: "string \<Rightarrow> string option"

definition known :: "ledger \<Rightarrow> string \<Rightarrow> bool" where
  "known L k \<longleftrightarrow> waiting L k \<noteq> None \<or> k \<in> finished L"

text \<open>A call that has something to do reaches the database, and fails with it.\<close>

fun database_fails :: "store_call \<Rightarrow> bool" where
  "database_fails (CallAdmit fault tok incident ks) \<longleftrightarrow> fault \<and> ks \<noteq> []"
| "database_fails (CallMark fault tok ks) \<longleftrightarrow> fault \<and> ks \<noteq> []"
| "database_fails (CallRollback fault tok) \<longleftrightarrow> fault \<and> tok \<noteq> []"

inductive ledger_step :: "ledger \<Rightarrow> store_call \<Rightarrow> bool \<Rightarrow> ledger \<Rightarrow> bool" where
  failed: "database_fails c \<Longrightarrow> ledger_step L c False L"
| admitted: "\<not> database_fails (CallAdmit fault tok incident ks) \<Longrightarrow>
    ledger_step L (CallAdmit fault tok incident ks) True
      (L\<lparr>waiting := (\<lambda>k. if k \<in> set ks \<and> \<not> known L k then Some tok else waiting L k),
         owner := (\<lambda>k. if k \<in> set ks \<and> \<not> known L k then Some incident else owner L k)\<rparr>)"
| marked: "\<not> database_fails (CallMark fault tok ks) \<Longrightarrow> \<forall>k \<in> set ks. waiting L k = Some tok \<Longrightarrow>
    ledger_step L (CallMark fault tok ks) True
      (L\<lparr>waiting := (\<lambda>k. if k \<in> set ks then None else waiting L k), finished := finished L \<union> set ks\<rparr>)"
| not_waiting: "\<not> database_fails (CallMark fault tok ks) \<Longrightarrow> k \<in> set ks \<Longrightarrow> waiting L k \<noteq> Some tok \<Longrightarrow>
    ledger_step L (CallMark fault tok ks) False L"
| rolled_back: "\<not> database_fails (CallRollback fault tok) \<Longrightarrow> tok \<noteq> [] \<Longrightarrow>
    ledger_step L (CallRollback fault tok) True
      (L\<lparr>waiting := (\<lambda>k. if waiting L k = Some tok then None else waiting L k),
         owner := (\<lambda>k. if waiting L k = Some tok then None else owner L k)\<rparr>)"
| nothing_to_roll_back: "ledger_step L (CallRollback fault []) True L"

inductive_cases ledger_markE: "ledger_step L (CallMark fault tok ks) True L'"

text \<open>On the ledger the at-most-once argument is immediate.\<close>

lemma finished_grows: "ledger_step L c ok L' \<Longrightarrow> finished L \<subseteq> finished L'"
  by (induction rule: ledger_step.induct) auto

lemma marked_was_waiting:
  assumes "ledger_step L (CallMark fault tok ks) True L'" and "k \<in> set ks"
  shows "waiting L k = Some tok \<and> k \<in> finished L' \<and> waiting L' k = None"
  using assms by (auto elim: ledger_markE)

section \<open>The store implements it\<close>

definition ledger_of :: "table \<Rightarrow> ledger" where
  "ledger_of db =
     \<lparr>waiting = (\<lambda>k. case db k of
        None \<Rightarrow> None | Some row \<Rightarrow> if row_state row = Queued then Some (row_token row) else None),
      finished = {k. attempted_row db k}, owner = (\<lambda>k. map_option row_incident (db k))\<rparr>"

fun accepted :: "store_call \<Rightarrow> table \<Rightarrow> bool" where
  "accepted (CallAdmit fault tok incident ks) db = is_ok (fst (admit fault tok incident ks db))"
| "accepted (CallMark fault tok ks) db = is_ok (fst (mark_attempted fault tok ks db))"
| "accepted (CallRollback fault tok) db = is_ok (fst (rollback_queued fault tok db))"

lemma known_ledger_of [simp]: "known (ledger_of db) k \<longleftrightarrow> db k \<noteq> None"
  by (auto simp: known_def ledger_of_def attempted_row_def split: option.splits row_state.splits)
     (metis row_state.exhaust)

lemma waiting_ledger_of: "waiting (ledger_of db) k = Some tok \<longleftrightarrow> queued_with tok db k"
  by (auto simp: ledger_of_def queued_with_def split: option.splits)

lemma fault_rejects:
  assumes "database_fails c"
  shows "\<not> accepted c db \<and> store_step admit mark_attempted rollback_queued db c = db"
  using assms
  by (cases c)
     (auto simp: admit_def mark_attempted_def rollback_queued_def transaction_def Let_def)

lemma admit_no_fault:
  "\<not> database_fails (CallAdmit fault tok incident ks) \<Longrightarrow>
   admit fault tok incident ks db = admit False tok incident ks db"
  by (cases fault) (auto simp: admit_def Let_def)

lemma mark_no_fault:
  "\<not> database_fails (CallMark fault tok ks) \<Longrightarrow> mark_attempted fault tok ks db = mark_attempted False tok ks db"
  by (cases fault) (auto simp: mark_attempted_def Let_def)

lemma ledger_after_admit:
  "ledger_of (snd (admit False tok incident ks db)) =
     (ledger_of db)\<lparr>waiting := (\<lambda>k. if k \<in> set ks \<and> \<not> known (ledger_of db) k then Some tok else waiting (ledger_of db) k),
        owner := (\<lambda>k. if k \<in> set ks \<and> \<not> known (ledger_of db) k then Some incident else owner (ledger_of db) k)\<rparr>"
  unfolding known_ledger_of
  by (auto simp: ledger_of_def admit_result Let_def attempted_row_def fun_eq_iff split: option.splits)

lemma ledger_after_mark:
  assumes "\<forall>k \<in> set ks. queued_with tok db k"
  shows "ledger_of (snd (mark_attempted False tok ks db)) =
    (ledger_of db)\<lparr>waiting := (\<lambda>k. if k \<in> set ks then None else waiting (ledger_of db) k),
                   finished := finished (ledger_of db) \<union> set ks\<rparr>"
  using assms
  by (auto simp: ledger_of_def mark_attempted_result attempted_row_def queued_with_def fun_eq_iff
      split: option.splits)

lemma ledger_after_rollback:
  assumes "tok \<noteq> []"
  shows "ledger_of (snd (rollback_queued False tok db)) =
    (ledger_of db)\<lparr>waiting := (\<lambda>k. if waiting (ledger_of db) k = Some tok then None else waiting (ledger_of db) k),
                   owner := (\<lambda>k. if waiting (ledger_of db) k = Some tok then None else owner (ledger_of db) k)\<rparr>"
  using assms
  by (auto simp: ledger_of_def rollback_result delete_queued_def attempted_row_def fun_eq_iff split: option.splits)

text \<open>
  C16. The store refines the ledger: whatever the table and whatever the call, the acceptance of the
  call and the table it leaves are a step of the ledger, so a call is rejected only when the database
  fails or an occurrence to be marked does not wait under the token, and a rejected call changes
  nothing.
\<close>

theorem store_refines_ledger:
  "ledger_step (ledger_of db) c (accepted c db)
     (ledger_of (store_step admit mark_attempted rollback_queued db c))"
proof (cases "database_fails c")
  case True
  with fault_rejects [OF True, of db] show ?thesis by (simp add: ledger_step.failed)
next
  case False
  show ?thesis
  proof (cases c)
    case (CallAdmit fault tok incident ks)
    with False have run: "store_step admit mark_attempted rollback_queued db c = snd (admit False tok incident ks db)"
      "accepted c db = True"
      using admit_no_fault [of fault tok incident ks db] CallAdmit by (auto simp: admit_result Let_def)
    show ?thesis
      unfolding run ledger_after_admit unfolding CallAdmit
      by (rule ledger_step.admitted [OF False [unfolded CallAdmit]])
  next
    case (CallMark fault tok ks)
    with False have run: "store_step admit mark_attempted rollback_queued db c = snd (mark_attempted False tok ks db)"
      "accepted c db \<longleftrightarrow> is_ok (fst (mark_attempted False tok ks db))"
      using mark_no_fault [of fault tok ks db] CallMark by auto
    show ?thesis
    proof (cases "\<forall>k \<in> set ks. queued_with tok db k")
      case True
      then have "accepted c db" by (simp add: run mark_attempted_result)
      with True False show ?thesis
        unfolding run(1) ledger_after_mark [OF True] unfolding CallMark
        by (auto intro!: ledger_step.marked simp: waiting_ledger_of)
    next
      case not_all: False
      then obtain k where "k \<in> set ks" "\<not> queued_with tok db k" by blast
      moreover from not_all have "\<not> accepted c db" "snd (mark_attempted False tok ks db) = db"
        by (auto simp: run mark_attempted_result)
      ultimately show ?thesis
        using False unfolding run(1) unfolding CallMark
        by (auto intro: ledger_step.not_waiting simp: waiting_ledger_of)
    qed
  next
    case (CallRollback fault tok)
    then show ?thesis
    proof (cases "tok = []")
      case True
      with CallRollback show ?thesis by (simp add: rollback_queued_def ledger_step.nothing_to_roll_back)
    next
      case tok: False
      with False CallRollback have "\<not> fault" by simp
      with tok have "accepted c db"
        by (simp add: CallRollback rollback_queued_def transaction_def)
      with tok False \<open>\<not> fault\<close> show ?thesis
        unfolding CallRollback by (simp add: ledger_after_rollback ledger_step.rolled_back)
    qed
  qed
qed

end
