(* ===== verification/Correlator.thy ===== *)
theory Correlator
  imports Json
begin

text \<open>
  \<open>agents/correlator.py\<close>: grouping of alert envelopes into incidents and the occurrence references
  that make deliveries of the same alert recognisable.  The state is the insertion-ordered
  dictionary of incidents.  An operation takes the clock reading and the six random characters of a
  possible new incident id; \<open>ff\<close>, \<open>fmt\<close> and \<open>sha\<close> are the text of floats, the text of containers and
  SHA-256.  \<open>ingest\<close> changes the state before it may raise, so it returns the state next to the
  result.
\<close>

section \<open>Data\<close>

record incident =
  inc_id :: string
  created_at :: time
  inc_namespace :: string
  services :: "string set"
  alert_names :: "string set"
  alerts :: "pydict list"
  observed_keys :: "string set"
  active_processing :: bool
  last_alert_at :: time

record occurrence_ref =
  occurrence_key :: string
  alert_index :: "nat option"

record candidate_batch =
  cb_incident_id :: string
  is_new_incident :: bool
  original_payload :: pydict
  occurrence_refs :: "occurrence_ref list"

type_synonym correlator = "(string \<times> incident) list"

definition incident_to_dict :: "incident \<Rightarrow> pydict" where
  "incident_to_dict inc =
     [(''incident_id'', PStr (inc_id inc)), (''created_at'', PFloat (FFin (created_at inc))),
      (''namespace'', PStr (inc_namespace inc)),
      (''services'', PList (map PStr (sorted_list_of_set (services inc)))),
      (''alert_names'', PList (map PStr (sorted_list_of_set (alert_names inc)))),
      (''alert_count'', PInt (int (length (alerts inc)))),
      (''active_processing'', PBool (active_processing inc)),
      (''last_alert_at'', PFloat (FFin (last_alert_at inc)))]"

definition CORRELATION_WINDOW_S :: time where
  "CORRELATION_WINDOW_S = 300"

section \<open>Occurrence keys\<close>

definition payload_key :: "(rat \<Rightarrow> string) \<Rightarrow> (string \<Rightarrow> string) \<Rightarrow> pyval \<Rightarrow> string" where
  "payload_key ff sha v = ''payload:'' @ sha (canonical_text ff v)"

text \<open>The identity of an alert: its fingerprint, else its labels, else its stable fields.\<close>

definition nonempty_dict :: "pyval \<Rightarrow> bool" where
  "nonempty_dict v \<longleftrightarrow> is_dict v \<and> truthy v"

definition alert_identity :: "pydict \<Rightarrow> pydict \<Rightarrow> pydict" where
  "alert_identity item envelope =
     (let labels = (if nonempty_dict (dget item ''labels'') then dget item ''labels''
                    else dget envelope ''commonLabels'');
          fallback = (if nonempty_dict labels then [(''labels'', labels)]
                      else [(''payload'',
                             PDict (filter (\<lambda>(k, _). k \<notin> {''annotations'', ''endsAt''}) item))])
      in case dget item ''fingerprint'' of
           PStr s \<Rightarrow> if py_strip s \<noteq> [] then [(''fingerprint'', PStr (py_strip s))] else fallback
         | _ \<Rightarrow> fallback)"

definition alert_occurrence_key ::
  "(rat \<Rightarrow> string) \<Rightarrow> (pyval \<Rightarrow> string) \<Rightarrow> (string \<Rightarrow> string) \<Rightarrow> pydict \<Rightarrow> pydict \<Rightarrow> string" where
  "alert_occurrence_key ff fmt sha item envelope =
     (let own = dget item ''status'';
          status = (if own = PNone \<or> (case own of PStr s \<Rightarrow> py_strip s = [] | _ \<Rightarrow> False)
                    then dget envelope ''status'' else own);
          starts_at = (if dget item ''startsAt'' = PNone then dget envelope ''startsAt''
                       else dget item ''startsAt'')
      in ''occurrence:'' @ payload_key ff sha (PDict
           [(''identity'', PDict (alert_identity item envelope)),
            (''status'', PStr (py_lower (py_strip (py_str fmt (py_or status (PStr '''')))))),
            (''startsAt'', starts_at)]))"

text \<open>The loop over the alerts of an envelope: items that are not objects are skipped.\<close>

fun occurrence_loop :: "(pydict \<Rightarrow> string) \<Rightarrow> nat \<Rightarrow> pyval list \<Rightarrow> string list \<Rightarrow> occurrence_ref list" where
  "occurrence_loop key i [] seen = []"
| "occurrence_loop key i (PDict item # items) seen =
     (if key item \<in> set seen then occurrence_loop key (Suc i) items seen
      else \<lparr>occurrence_key = key item, alert_index = Some i\<rparr>
           # occurrence_loop key (Suc i) items (key item # seen))"
| "occurrence_loop key i (_ # items) seen = occurrence_loop key (Suc i) items seen"

definition payload_occurrence_refs ::
  "(rat \<Rightarrow> string) \<Rightarrow> (pyval \<Rightarrow> string) \<Rightarrow> (string \<Rightarrow> string) \<Rightarrow> pydict \<Rightarrow> occurrence_ref list" where
  "payload_occurrence_refs ff fmt sha payload =
     (let key = (\<lambda>item. alert_occurrence_key ff fmt sha item payload);
          refs = (case dget payload ''alerts'' of
                    PList items \<Rightarrow> occurrence_loop key 0 items [] | _ \<Rightarrow> [])
      in if refs \<noteq> [] then refs
         else [\<lparr>occurrence_key = key payload, alert_index = None\<rparr>])"

section \<open>Labels of an envelope\<close>

definition str_label :: "(pyval \<Rightarrow> string) \<Rightarrow> pydict \<Rightarrow> string \<Rightarrow> string" where
  "str_label fmt labels k = py_strip (py_str fmt (dget_or labels k (PStr '''')))"

definition common_labels :: "pydict \<Rightarrow> py_exn + pydict" where
  "common_labels alert = need_dict (dget_or alert ''commonLabels'' (PDict []))"

text \<open>The label \<open>k\<close> of each alert that is an object; labels that are not objects raise.\<close>

fun alert_labels :: "(pyval \<Rightarrow> string) \<Rightarrow> string \<Rightarrow> pyval list \<Rightarrow> py_exn + string list" where
  "alert_labels fmt k [] = Inr []"
| "alert_labels fmt k (PDict a # rest) =
     rbind (need_dict (dget_or a ''labels'' (PDict []))) (\<lambda>labels.
     rbind (alert_labels fmt k rest) (\<lambda>xs. Inr (str_label fmt labels k # xs)))"
| "alert_labels fmt k (_ # rest) = alert_labels fmt k rest"

definition extract_namespace :: "(pyval \<Rightarrow> string) \<Rightarrow> pydict \<Rightarrow> py_exn + string" where
  "extract_namespace fmt alert =
     rbind (common_labels alert) (\<lambda>labels. Inr (str_label fmt labels ''namespace''))"

definition extract_services :: "(pyval \<Rightarrow> string) \<Rightarrow> pydict \<Rightarrow> py_exn + string set" where
  "extract_services fmt alert =
     rbind (common_labels alert) (\<lambda>labels.
     rbind (py_iter (dget_or alert ''alerts'' (PList []))) (\<lambda>items.
     rbind (alert_labels fmt ''service'' items) (\<lambda>xs.
       Inr (set (filter (\<lambda>s. s \<noteq> [])
         ([str_label fmt labels ''service'', str_label fmt labels ''app'',
           str_label fmt labels ''deployment''] @ xs))))))"

definition extract_alert_names :: "(pyval \<Rightarrow> string) \<Rightarrow> pydict \<Rightarrow> py_exn + string set" where
  "extract_alert_names fmt alert =
     rbind (common_labels alert) (\<lambda>labels.
     rbind (py_iter (dget_or alert ''alerts'' (PList []))) (\<lambda>items.
     rbind (alert_labels fmt ''alertname'' items) (\<lambda>xs.
       Inr (set (filter (\<lambda>s. s \<noteq> []) (str_label fmt labels ''alertname'' # xs))))))"

section \<open>Operations\<close>

definition should_correlate ::
  "time \<Rightarrow> string \<Rightarrow> string set \<Rightarrow> string set \<Rightarrow> incident \<Rightarrow> bool" where
  "should_correlate now ns svcs names inc =
     (if now - created_at inc > CORRELATION_WINDOW_S then False
      else if ns \<noteq> [] \<and> inc_namespace inc \<noteq> [] \<and> ns \<noteq> inc_namespace inc then False
      else if svcs \<noteq> {} \<and> services inc \<noteq> {} \<and> svcs \<inter> services inc = {} then False
      else if names \<noteq> {} \<and> alert_names inc \<noteq> {} \<and> names \<inter> alert_names inc \<noteq> {} then True
      else svcs \<noteq> {} \<and> services inc \<noteq> {})"

definition stale :: "time \<Rightarrow> incident \<Rightarrow> bool" where
  "stale now inc \<longleftrightarrow> now - last_alert_at inc > CORRELATION_WINDOW_S \<and> \<not> active_processing inc"

definition expire_old :: "time \<Rightarrow> correlator \<Rightarrow> correlator" where
  "expire_old now c = filter (\<lambda>(_, inc). \<not> stale now inc) c"

definition new_incident_id :: "time \<Rightarrow> string \<Rightarrow> string" where
  "new_incident_id now uid = ''inc-'' @ int_str (floor now) @ ''-'' @ uid"

definition new_incident ::
  "time \<Rightarrow> string \<Rightarrow> string \<Rightarrow> string set \<Rightarrow> string set \<Rightarrow> pydict \<Rightarrow> string set \<Rightarrow> incident" where
  "new_incident now uid ns svcs names payload keys =
     \<lparr>inc_id = new_incident_id now uid, created_at = now, inc_namespace = ns, services = svcs,
      alert_names = names, alerts = [payload], observed_keys = keys, active_processing = False,
      last_alert_at = now\<rparr>"

definition add_incident ::
  "incident \<Rightarrow> pydict \<Rightarrow> occurrence_ref list \<Rightarrow> correlator \<Rightarrow> candidate_batch \<times> correlator" where
  "add_incident inc payload refs c =
     (\<lparr>cb_incident_id = inc_id inc, is_new_incident = True, original_payload = payload,
       occurrence_refs = refs\<rparr>, AList.update (inc_id inc) inc c)"

text \<open>What joining an existing incident does to it.\<close>

definition join_incident ::
  "time \<Rightarrow> string set \<Rightarrow> string set \<Rightarrow> pydict \<Rightarrow> string set \<Rightarrow> incident \<Rightarrow> incident" where
  "join_incident now svcs names payload keys inc =
     (let i1 = inc\<lparr>last_alert_at := now\<rparr>;
          i2 = (if keys - observed_keys inc \<noteq> {}
                then i1\<lparr>alerts := alerts i1 @ [payload], alert_names := alert_names i1 \<union> names,
                        services := services i1 \<union> svcs\<rparr>
                else i1)
      in i2\<lparr>observed_keys := observed_keys i2 \<union> keys\<rparr>)"

text \<open>An injected alert (\<open>correlation_id\<close> starts with \<open>inj-\<close>) never joins an incident.\<close>

definition injected :: "(pyval \<Rightarrow> string) \<Rightarrow> pydict \<Rightarrow> bool" where
  "injected fmt alert \<longleftrightarrow>
     starts_with (py_strip (py_str fmt (py_or (dget alert ''correlation_id'') (PStr '''')))) ''inj-''"

definition ingest ::
  "(rat \<Rightarrow> string) \<Rightarrow> (pyval \<Rightarrow> string) \<Rightarrow> (string \<Rightarrow> string) \<Rightarrow> time \<Rightarrow> string \<Rightarrow> pydict \<Rightarrow>
   correlator \<Rightarrow> (py_exn + candidate_batch) \<times> correlator" where
  "ingest ff fmt sha now uid alert c0 =
     (let c = expire_old now c0;
          refs = payload_occurrence_refs ff fmt sha alert;
          keys = set (map occurrence_key refs)
      in case rbind (extract_namespace fmt alert) (\<lambda>ns.
              rbind (extract_services fmt alert) (\<lambda>svcs.
              rbind (extract_alert_names fmt alert) (\<lambda>names. Inr (ns, svcs, names)))) of
           Inl e \<Rightarrow> (Inl e, c)
         | Inr (ns, svcs, names) \<Rightarrow>
             if injected fmt alert then
               (case add_incident (new_incident now uid ns svcs names alert keys) alert refs c of
                  (b, c') \<Rightarrow> (Inr b, c'))
             else
               case find (\<lambda>(_, inc). should_correlate now ns svcs names inc) c of
                 Some (k, inc) \<Rightarrow>
                   (Inr \<lparr>cb_incident_id = inc_id inc, is_new_incident = False,
                         original_payload = alert, occurrence_refs = refs\<rparr>,
                    AList.update k (join_incident now svcs names alert keys inc) c)
               | None \<Rightarrow>
                   (case add_incident (new_incident now uid ns svcs names alert keys) alert refs c of
                      (b, c') \<Rightarrow> (Inr b, c')))"

definition mark_processing :: "string \<Rightarrow> bool \<Rightarrow> correlator \<Rightarrow> correlator" where
  "mark_processing i active c =
     (case map_of c i of
        None \<Rightarrow> c | Some inc \<Rightarrow> AList.update i (inc\<lparr>active_processing := active\<rparr>) c)"

definition get_active :: "time \<Rightarrow> correlator \<Rightarrow> pydict list \<times> correlator" where
  "get_active now c0 = (let c = expire_old now c0 in (map (\<lambda>(_, inc). incident_to_dict inc) c, c))"

definition correlator_reset :: "correlator \<Rightarrow> correlator" where
  "correlator_reset c = []"

section \<open>Occurrence references\<close>

lemma occurrence_loop_key_iff:
  "k \<in> set (map occurrence_key (occurrence_loop key i items seen)) \<longleftrightarrow>
   k \<notin> set seen \<and> (\<exists>d. PDict d \<in> set items \<and> key d = k)"
proof (induction key i items seen rule: occurrence_loop.induct)
  case (2 key i item items seen)
  show ?case
  proof (cases "key item \<in> set seen")
    case True
    with 2(1) show ?thesis by (simp only: occurrence_loop.simps if_True) auto
  next
    case False
    with 2(2) show ?thesis by (simp only: occurrence_loop.simps if_False list.map set_simps insert_iff) auto
  qed
qed simp_all

lemma occurrence_loop_distinct: "distinct (map occurrence_key (occurrence_loop key i items seen))"
proof (induction key i items seen rule: occurrence_loop.induct)
  case (2 key i item items seen)
  have "key item \<notin> set (map occurrence_key (occurrence_loop key (Suc i) items (key item # seen)))"
    by (subst occurrence_loop_key_iff) simp
  with 2 show ?case by simp
qed simp_all

lemma refs_cover:
  assumes "dget payload ''alerts'' = PList items" and "PDict d \<in> set items"
  shows "alert_occurrence_key ff fmt sha d payload
    \<in> set (map occurrence_key (payload_occurrence_refs ff fmt sha payload))"
proof -
  let ?key = "\<lambda>d. alert_occurrence_key ff fmt sha d payload"
  have covered: "?key d \<in> set (map occurrence_key (occurrence_loop ?key 0 items []))"
    by (subst occurrence_loop_key_iff) (use assms(2) in auto)
  then have "occurrence_loop ?key 0 items [] \<noteq> []" by auto
  with covered assms(1) show ?thesis by (simp add: payload_occurrence_refs_def Let_def)
qed

lemma occurrence_loop_index:
  "r \<in> set (occurrence_loop key i items seen) \<Longrightarrow>
   \<exists>n d. alert_index r = Some n \<and> i \<le> n \<and> n - i < length items \<and> items ! (n - i) = PDict d \<and>
         occurrence_key r = key d"
proof (induction key i items seen rule: occurrence_loop.induct)
  case (2 key i item items seen)
  have shift: ?case if "\<exists>n d. alert_index r = Some n \<and> Suc i \<le> n \<and> n - Suc i < length items \<and>
      items ! (n - Suc i) = PDict d \<and> occurrence_key r = key d"
  proof -
    from that obtain n d where n: "alert_index r = Some n" "Suc i \<le> n" "n - Suc i < length items"
      "items ! (n - Suc i) = PDict d" "occurrence_key r = key d" by blast
    then have "n - i = Suc (n - Suc i)" by simp
    with n show ?thesis by (intro exI [of _ n] exI [of _ d]) simp
  qed
  show ?case
  proof (cases "key item \<in> set seen")
    case True
    with 2 show ?thesis using shift by simp
  next
    case False
    with 2(3) consider "r = \<lparr>occurrence_key = key item, alert_index = Some i\<rparr>"
      | "r \<in> set (occurrence_loop key (Suc i) items (key item # seen))" by auto
    then show ?thesis using shift 2(2) [OF False] by cases auto
  qed
qed (force simp: nth_Cons' Suc_diff_le less_Suc_eq_0_disj dest: Suc_le_lessD)+

section \<open>Histories of calls\<close>

datatype correlator_event =
    Ingest time string pydict
  | MarkProcessing string bool
  | GetActive time
  | ResetAll

fun correlator_step ::
  "(rat \<Rightarrow> string) \<Rightarrow> (pyval \<Rightarrow> string) \<Rightarrow> (string \<Rightarrow> string) \<Rightarrow> correlator \<Rightarrow> correlator_event \<Rightarrow>
   correlator" where
  "correlator_step ff fmt sha c (Ingest now uid alert) = snd (ingest ff fmt sha now uid alert c)"
| "correlator_step ff fmt sha c (MarkProcessing i active) = mark_processing i active c"
| "correlator_step ff fmt sha c (GetActive now) = snd (get_active now c)"
| "correlator_step ff fmt sha c ResetAll = correlator_reset c"

definition correlator_inv :: "correlator \<Rightarrow> bool" where
  "correlator_inv c \<longleftrightarrow>
     keys_distinct c \<and> (\<forall>k inc. map_of c k = Some inc \<longrightarrow> inc_id inc = k \<and> alerts inc \<noteq> [])"

lemma correlator_inv_Nil [simp]: "correlator_inv []"
  by (simp add: correlator_inv_def)

lemma map_of_expire:
  "keys_distinct c \<Longrightarrow> map_of (expire_old now c) k =
     (case map_of c k of None \<Rightarrow> None | Some inc \<Rightarrow> if stale now inc then None else Some inc)"
proof (induction c)
  case Nil
  then show ?case by (simp add: expire_old_def)
next
  case (Cons p c)
  obtain k' inc where p: "p = (k', inc)" by (cases p)
  from Cons.prems have "keys_distinct c" and new: "k' \<notin> fst ` set c"
    by (simp_all add: keys_distinct_def p)
  with Cons.IH have "map_of (expire_old now c) k =
     (case map_of c k of None \<Rightarrow> None | Some inc \<Rightarrow> if stale now inc then None else Some inc)" by blast
  moreover have "map_of c k' = None" using new by (simp add: map_of_eq_None_iff)
  ultimately show ?case by (auto simp: p expire_old_def)
qed

lemma keys_distinct_expire [simp]: "keys_distinct c \<Longrightarrow> keys_distinct (expire_old now c)"
  by (simp add: expire_old_def)

lemma correlator_inv_expire: "correlator_inv c \<Longrightarrow> correlator_inv (expire_old now c)"
  by (auto simp: correlator_inv_def map_of_expire split: option.splits if_splits)

lemma correlator_inv_update:
  "correlator_inv c \<Longrightarrow> inc_id inc = k \<Longrightarrow> alerts inc \<noteq> [] \<Longrightarrow> correlator_inv (AList.update k inc c)"
  by (auto simp: correlator_inv_def)

lemma join_incident_fields [simp]:
  "inc_id (join_incident now svcs names payload keys inc) = inc_id inc"
  "created_at (join_incident now svcs names payload keys inc) = created_at inc"
  "inc_namespace (join_incident now svcs names payload keys inc) = inc_namespace inc"
  "active_processing (join_incident now svcs names payload keys inc) = active_processing inc"
  "last_alert_at (join_incident now svcs names payload keys inc) = now"
  "observed_keys (join_incident now svcs names payload keys inc) = observed_keys inc \<union> keys"
  "alerts (join_incident now svcs names payload keys inc) =
     (if keys \<subseteq> observed_keys inc then alerts inc else alerts inc @ [payload])"
  by (auto simp: join_incident_def Let_def)

text \<open>
  The outcomes of \<open>ingest\<close> after expiry: an exception that adds nothing, a new incident, or a join.
\<close>

lemma ingest_cases:
  fixes c :: correlator
  assumes "ingest ff fmt sha now uid alert c0 = (r, c')" and "c = expire_old now c0"
  obtains (raised) e where "r = Inl e" and "c' = c"
  | (created) ns svcs names b where "r = Inr b" and "is_new_incident b"
      and "cb_incident_id b = new_incident_id now uid" and "original_payload b = alert"
      and "occurrence_refs b = payload_occurrence_refs ff fmt sha alert"
      and "extract_namespace fmt alert = Inr ns" and "extract_services fmt alert = Inr svcs"
      and "extract_alert_names fmt alert = Inr names"
      and "injected fmt alert \<or> (\<forall>(k, inc) \<in> set c. \<not> should_correlate now ns svcs names inc)"
      and "c' = AList.update (new_incident_id now uid)
            (new_incident now uid ns svcs names alert
              (set (map occurrence_key (payload_occurrence_refs ff fmt sha alert)))) c"
  | (joined) ns svcs names b k inc where "r = Inr b" and "\<not> is_new_incident b"
      and "cb_incident_id b = inc_id inc" and "original_payload b = alert"
      and "occurrence_refs b = payload_occurrence_refs ff fmt sha alert"
      and "extract_namespace fmt alert = Inr ns" and "extract_services fmt alert = Inr svcs"
      and "extract_alert_names fmt alert = Inr names"
      and "\<not> injected fmt alert"
      and "find (\<lambda>(_, inc). should_correlate now ns svcs names inc) c = Some (k, inc)"
      and "c' = AList.update k (join_incident now svcs names alert
              (set (map occurrence_key (payload_occurrence_refs ff fmt sha alert))) inc) c"
proof (cases "rbind (extract_namespace fmt alert) (\<lambda>ns. rbind (extract_services fmt alert)
         (\<lambda>svcs. rbind (extract_alert_names fmt alert) (\<lambda>names. Inr (ns, svcs, names))))")
  case (Inl e)
  with assms have "r = Inl e" and "c' = c" by (simp_all add: ingest_def Let_def)
  then show thesis by (rule raised)
next
  case (Inr t)
  then obtain ns svcs names where ex: "extract_namespace fmt alert = Inr ns"
    "extract_services fmt alert = Inr svcs" "extract_alert_names fmt alert = Inr names"
    by (auto simp: rbind_eq_Inr)
  note ingest_eq = assms(1) [unfolded ingest_def Let_def ex rbind_simps sum.case prod.case,
      folded assms(2)]
  show thesis
  proof (cases "injected fmt alert")
    case True
    with ingest_eq show thesis by (intro created) (auto simp: ex add_incident_def new_incident_def)
  next
    case False
    show thesis
    proof (cases "find (\<lambda>(_, inc). should_correlate now ns svcs names inc) c")
      case None
      then have "\<forall>(k, inc) \<in> set c. \<not> should_correlate now ns svcs names inc"
        by (auto simp: find_None_iff)
      with ingest_eq False None show thesis
        by (intro created) (auto simp: ex add_incident_def new_incident_def)
    next
      case (Some p)
      obtain k inc where "p = (k, inc)" by (cases p)
      with ingest_eq False Some show thesis by (intro joined) (auto simp: ex)
    qed
  qed
qed

lemma found_incident:
  assumes "find (\<lambda>(_, inc). should_correlate now ns svcs names inc) c = Some (k, inc)"
  shows "(k, inc) \<in> set c" and "should_correlate now ns svcs names inc"
  using assms by (auto simp: find_Some_iff) (metis nth_mem)

lemma correlator_inv_ingest:
  assumes inv: "correlator_inv c" shows "correlator_inv (snd (ingest ff fmt sha now uid alert c))"
proof -
  obtain r c' where res: "ingest ff fmt sha now uid alert c = (r, c')" by fastforce
  have live: "correlator_inv (expire_old now c)" using inv by (rule correlator_inv_expire)
  from res refl show ?thesis
  proof (cases rule: ingest_cases)
    case raised
    with res live show ?thesis by simp
  next
    case created
    with res live show ?thesis by (simp add: correlator_inv_update new_incident_def)
  next
    case (joined ns svcs names b k inc)
    from found_incident(1) [OF joined(10)] live have "inc_id inc = k \<and> alerts inc \<noteq> []"
      by (simp add: correlator_inv_def map_of_in_set)
    with res live joined(11) show ?thesis by (simp add: correlator_inv_update)
  qed
qed

lemma correlator_inv_step:
  assumes inv: "correlator_inv c" shows "correlator_inv (correlator_step ff fmt sha c e)"
proof (cases e)
  case (MarkProcessing i active)
  have "correlator_inv (AList.update i (inc\<lparr>active_processing := active\<rparr>) c)"
    if "map_of c i = Some inc" for inc
    using inv that by (intro correlator_inv_update) (auto simp: correlator_inv_def)
  with inv MarkProcessing show ?thesis by (simp add: mark_processing_def split: option.split)
qed (use inv in \<open>simp_all add: correlator_inv_ingest get_active_def Let_def correlator_inv_expire
      correlator_reset_def\<close>)

text \<open>
  An incident marked as processing is released only by unmarking it, by \<open>reset\<close>, or by a new incident
  that draws its id.
\<close>

definition is_processing :: "string \<Rightarrow> correlator \<Rightarrow> bool" where
  "is_processing i c = (case map_of c i of None \<Rightarrow> False | Some inc \<Rightarrow> active_processing inc)"

fun releases_incident :: "string \<Rightarrow> correlator_event \<Rightarrow> bool" where
  "releases_incident i (Ingest now uid alert) = (new_incident_id now uid = i)"
| "releases_incident i (MarkProcessing j active) = (j = i \<and> \<not> active)"
| "releases_incident i (GetActive now) = False"
| "releases_incident i ResetAll = True"

lemma processing_expire:
  "correlator_inv c \<Longrightarrow> is_processing i c \<Longrightarrow> is_processing i (expire_old now c)"
  by (auto simp: is_processing_def correlator_inv_def map_of_expire stale_def split: option.splits)

lemma processing_step:
  assumes inv: "correlator_inv c" and busy: "is_processing i c" and keep: "\<not> releases_incident i e"
  shows "is_processing i (correlator_step ff fmt sha c e)"
proof (cases e)
  case (Ingest now uid alert)
  obtain r c' where res: "ingest ff fmt sha now uid alert c = (r, c')" by fastforce
  have live: "is_processing i (expire_old now c)" and linv: "correlator_inv (expire_old now c)"
    using inv busy by (auto intro: processing_expire correlator_inv_expire)
  have new: "new_incident_id now uid \<noteq> i" using keep Ingest by simp
  from res refl have "is_processing i c'"
  proof (cases rule: ingest_cases)
    case raised
    with live show ?thesis by simp
  next
    case created
    with live new show ?thesis by (simp add: is_processing_def)
  next
    case (joined ns svcs names b k inc)
    from found_incident(1) [OF joined(10)] linv have "map_of (expire_old now c) k = Some inc"
      by (simp add: correlator_inv_def map_of_in_set)
    with live joined(11) show ?thesis by (auto simp: is_processing_def)
  qed
  with Ingest res show ?thesis by simp
next
  case (MarkProcessing j active)
  with busy keep show ?thesis
    by (auto simp: mark_processing_def is_processing_def split: option.splits)
qed (use assms in \<open>simp_all add: get_active_def Let_def processing_expire\<close>)

interpretation correlation: latched_machine "correlator_step ff fmt sha" correlator_inv
    "is_processing i" "releases_incident i"
  for ff :: "rat \<Rightarrow> string" and fmt :: "pyval \<Rightarrow> string" and sha :: "string \<Rightarrow> string" and i :: string
  by unfold_locales (auto intro: correlator_inv_step processing_step)

section \<open>Repeated deliveries\<close>

text \<open>The first match is found again after a filter that keeps it and an update that keeps the rest.\<close>

lemma find_split: "find P xs = Some x \<longleftrightarrow> (\<exists>ys zs. xs = ys @ x # zs \<and> P x \<and> (\<forall>y \<in> set ys. \<not> P y))"
proof (induction xs)
  case Nil
  then show ?case by simp
next
  case (Cons a xs)
  show ?case
  proof (cases "P a")
    case True
    have "(\<exists>ys zs. a # xs = ys @ x # zs \<and> P x \<and> (\<forall>y \<in> set ys. \<not> P y)) \<longleftrightarrow> a = x"
    proof
      assume "\<exists>ys zs. a # xs = ys @ x # zs \<and> P x \<and> (\<forall>y \<in> set ys. \<not> P y)"
      then obtain ys zs where split: "a # xs = ys @ x # zs" "\<forall>y \<in> set ys. \<not> P y" by blast
      with True show "a = x" by (cases ys) auto
    qed (use True in \<open>auto intro: exI [of _ "[]"]\<close>)
    with True show ?thesis by simp
  next
    case False
    have "(\<exists>ys zs. a # xs = ys @ x # zs \<and> P x \<and> (\<forall>y \<in> set ys. \<not> P y)) \<longleftrightarrow>
          (\<exists>ys zs. xs = ys @ x # zs \<and> P x \<and> (\<forall>y \<in> set ys. \<not> P y))"
    proof
      assume "\<exists>ys zs. a # xs = ys @ x # zs \<and> P x \<and> (\<forall>y \<in> set ys. \<not> P y)"
      then obtain ys zs where split: "a # xs = ys @ x # zs" "P x" "\<forall>y \<in> set ys. \<not> P y" by blast
      with False show "\<exists>ys zs. xs = ys @ x # zs \<and> P x \<and> (\<forall>y \<in> set ys. \<not> P y)"
        by (cases ys) auto
    next
      assume "\<exists>ys zs. xs = ys @ x # zs \<and> P x \<and> (\<forall>y \<in> set ys. \<not> P y)"
      then obtain ys zs where "xs = ys @ x # zs" "P x" "\<forall>y \<in> set ys. \<not> P y" by blast
      with False show "\<exists>ys zs. a # xs = ys @ x # zs \<and> P x \<and> (\<forall>y \<in> set ys. \<not> P y)"
        by (intro exI [of _ "a # ys"] exI [of _ zs]) simp
    qed
    with False Cons.IH show ?thesis by simp
  qed
qed

lemma find_filter: "find P xs = Some x \<Longrightarrow> Q x \<Longrightarrow> find P (filter Q xs) = Some x"
  by (induction xs) (auto split: if_splits)

lemma find_update:
  assumes "\<And>k' v'. (k', v') \<in> set c \<Longrightarrow> k' \<noteq> k \<Longrightarrow> P (k', v') \<Longrightarrow>
      \<exists>ys zs. c = ys @ zs \<and> (k', v') \<in> set zs \<and> k \<in> fst ` set ys"
    and "P (k, v)" and "keys_distinct c"
  shows "find P (AList.update k v c) = Some (k, v)"
  using assms(1,3)
proof (induction c)
  case Nil
  with assms(2) show ?case by simp
next
  case (Cons p c)
  obtain k' v' where p: "p = (k', v')" by (cases p)
  show ?case
  proof (cases "k' = k")
    case True
    with assms(2) show ?thesis by (simp add: p)
  next
    case False
    have head: "\<not> P (k', v')"
    proof
      assume "P (k', v')"
      with Cons.prems(1) [of k' v'] False obtain ys zs
        where split: "p # c = ys @ zs" "(k', v') \<in> set zs" "k \<in> fst ` set ys" by (auto simp: p)
      show False
      proof (cases ys)
        case Nil
        with split show False by simp
      next
        case (Cons q ys')
        with split have "(k', v') \<in> set c" by auto
        with Cons.prems(2) show False by (force simp: p keys_distinct_def)
      qed
    qed
    have rest: "\<exists>ys zs. c = ys @ zs \<and> (k1, v1) \<in> set zs \<and> k \<in> fst ` set ys"
      if "(k1, v1) \<in> set c" "k1 \<noteq> k" "P (k1, v1)" for k1 v1
    proof -
      from Cons.prems(1) [of k1 v1] that obtain ys zs
        where split: "p # c = ys @ zs" "(k1, v1) \<in> set zs" "k \<in> fst ` set ys" by auto
      with False obtain ys' where "ys = p # ys'" by (cases ys) auto
      with split False show ?thesis by (intro exI [of _ ys'] exI [of _ zs]) (auto simp: p)
    qed
    from Cons.prems(2) have "keys_distinct c" by (simp add: keys_distinct_def)
    with Cons.IH rest have "find P (AList.update k v c) = Some (k, v)" by blast
    with False head show ?thesis by (simp add: p)
  qed
qed

lemma should_correlate_earlier:
  "should_correlate now2 ns svcs names inc \<Longrightarrow> now \<le> now2 \<Longrightarrow> should_correlate now ns svcs names inc"
  by (auto simp: should_correlate_def CORRELATION_WINDOW_S_def split: if_splits)

lemma correlates_after_join:
  assumes "should_correlate now ns svcs names inc" and "now2 - created_at inc \<le> 300"
  shows "should_correlate now2 ns svcs names (join_incident now svcs names payload keys inc)"
  using assms
  by (auto simp: should_correlate_def CORRELATION_WINDOW_S_def join_incident_def Let_def
      split: if_splits)

lemma correlates_after_creation:
  assumes "svcs \<noteq> {} \<or> names \<noteq> {}" and "now2 - now \<le> 300"
  shows "should_correlate now2 ns svcs names (new_incident now uid ns svcs names payload keys)"
  using assms by (auto simp: should_correlate_def CORRELATION_WINDOW_S_def new_incident_def)

section \<open>Properties\<close>

text \<open>
  The occurrence references of an envelope are never empty, have distinct keys, point at alert
  objects of the envelope with exactly that key, and cover every alert object; the envelope itself is
  referenced only when it has no alert object.
\<close>

theorem occurrence_refs_cover_alerts:
  "let refs = payload_occurrence_refs ff fmt sha payload;
       key = (\<lambda>d. alert_occurrence_key ff fmt sha d payload);
       items = as_list (dget payload ''alerts'')
   in refs \<noteq> [] \<and> distinct (map occurrence_key refs) \<and>
      (\<forall>d. PDict d \<in> set items \<longrightarrow> key d \<in> set (map occurrence_key refs)) \<and>
      (\<forall>r \<in> set refs.
         case alert_index r of
           Some n \<Rightarrow> n < length items \<and> (\<exists>d. items ! n = PDict d \<and> occurrence_key r = key d)
         | None \<Rightarrow> list_all (\<lambda>v. \<not> is_dict v) items \<and> refs = [r] \<and> occurrence_key r = key payload)"
proof -
  let ?key = "\<lambda>d. alert_occurrence_key ff fmt sha d payload"
  let ?items = "as_list (dget payload ''alerts'')"
  let ?loop = "occurrence_loop ?key 0 ?items []"
  have refs: "payload_occurrence_refs ff fmt sha payload =
      (if ?loop \<noteq> [] then ?loop else [\<lparr>occurrence_key = ?key payload, alert_index = None\<rparr>])"
    by (cases "dget payload ''alerts''") (simp_all add: payload_occurrence_refs_def Let_def)
  have covers: "?key d \<in> set (map occurrence_key ?loop)" if "PDict d \<in> set ?items" for d
    by (subst occurrence_loop_key_iff) (use that in auto)
  have none: "list_all (\<lambda>v. \<not> is_dict v) ?items" if "?loop = []"
    unfolding list_all_iff
  proof
    fix v assume "v \<in> set ?items"
    with covers that show "\<not> is_dict v" by (cases v) (auto simp: that)
  qed
  have index: "\<exists>n d. alert_index r = Some n \<and> n < length ?items \<and> ?items ! n = PDict d \<and>
      occurrence_key r = ?key d" if "r \<in> set ?loop" for r
    using occurrence_loop_index [OF that] by simp
  show ?thesis
  proof (cases "?loop = []")
    case True
    with none covers show ?thesis by (auto simp: refs Let_def)
  next
    case False
    then have "payload_occurrence_refs ff fmt sha payload = ?loop" by (simp only: refs if_True simp_thms)
    then show ?thesis using False covers index occurrence_loop_distinct [of ?key 0 ?items "[]"]
      unfolding Let_def by (fastforce split: option.split)
  qed
qed

theorem occurrence_refs_cover_alerts_witness:
  "alert_occurrence_key (\<lambda>_. '''') (\<lambda>_. '''') (\<lambda>s. s) [(''status'', PStr ''firing'')]
     [(''alerts'', PList [PNone, PDict [(''status'', PStr ''firing'')]])]
   \<in> set (map occurrence_key (payload_occurrence_refs (\<lambda>_. '''') (\<lambda>_. '''') (\<lambda>s. s)
       [(''alerts'', PList [PNone, PDict [(''status'', PStr ''firing'')]])]))"
  using occurrence_refs_cover_alerts [of "\<lambda>_. ''''" "\<lambda>_. ''''" "\<lambda>s. s"
      "[(''alerts'', PList [PNone, PDict [(''status'', PStr ''firing'')]])]"]
  by (simp add: Let_def del: set_map)

text \<open>
  An envelope joins an existing incident only if it is not injected, the incident is at most 300
  seconds old, is not stale, agrees on the namespace when both name one, and shares a service (when
  both name services) or an alert name; otherwise it opens a new incident that holds just this
  envelope.  An envelope whose labels cannot be read changes nothing but expiry.
\<close>

theorem ingest_joins_only_related_incident:
  assumes "correlator_inv c" and "ingest ff fmt sha now uid alert c = (r, c')"
  shows "(case r of
     Inl _ \<Rightarrow> c' = expire_old now c
   | Inr b \<Rightarrow>
       if is_new_incident b then
         cb_incident_id b = new_incident_id now uid \<and>
         (\<exists>inc. map_of c' (cb_incident_id b) = Some inc \<and> alerts inc = [alert] \<and> created_at inc = now)
       else \<not> injected fmt alert \<and>
         (\<exists>inc svcs names. map_of c (cb_incident_id b) = Some inc \<and> \<not> stale now inc \<and>
            now - created_at inc \<le> 300 \<and>
            extract_services fmt alert = Inr svcs \<and> extract_alert_names fmt alert = Inr names \<and>
            (\<forall>ns. extract_namespace fmt alert = Inr ns \<longrightarrow>
               ns = [] \<or> inc_namespace inc = [] \<or> ns = inc_namespace inc) \<and>
            (svcs \<inter> services inc \<noteq> {} \<or> names \<inter> alert_names inc \<noteq> {})))"
  using assms(2) refl
proof (cases rule: ingest_cases)
  case raised
  then show ?thesis by simp
next
  case created
  then show ?thesis by (simp add: new_incident_def)
next
  case (joined ns svcs names b k inc)
  note found = found_incident [OF joined(10)]
  have "correlator_inv (expire_old now c)" using assms(1) by (rule correlator_inv_expire)
  with found(1) have "map_of (expire_old now c) k = Some inc" and "inc_id inc = k"
    by (simp_all add: correlator_inv_def map_of_in_set)
  with assms(1) have "map_of c (inc_id inc) = Some inc" and "\<not> stale now inc"
    by (auto simp: correlator_inv_def map_of_expire split: option.splits if_splits)
  with joined found(2) show ?thesis
    by (auto simp: should_correlate_def CORRELATION_WINDOW_S_def split: if_splits)
qed

text \<open>
  An incident that is being processed stays known to the correlator, however old it is, whatever
  envelopes arrive and however often the active incidents are listed, until it is unmarked or
  everything is reset (or a new incident draws the same id).
\<close>

theorem processing_incident_never_expires:
  assumes "correlator_inv c" and "is_processing i c"
    and "list_all (\<lambda>e. \<not> releases_incident i e) es"
  shows "is_processing i (run (correlator_step ff fmt sha) c es)"
  using assms by (rule correlation.latch_run)

theorem processing_incident_never_expires_witness:
  "is_processing ''i'' (run (correlator_step (\<lambda>_. '''') (\<lambda>_. '''') (\<lambda>s. s))
     [(''i'', new_incident 0 '''' '''' {} {} [] {} \<lparr>inc_id := ''i'', active_processing := True\<rparr>)]
     [GetActive 5000, MarkProcessing ''j'' False])"
  by (rule processing_incident_never_expires)
    (simp_all add: correlator_inv_def keys_distinct_def new_incident_def is_processing_def)

theorem ingest_joins_only_related_incident_witness:
  "fst (ingest (\<lambda>_. '''') (\<lambda>_. '''') (\<lambda>s. s) 0 ''a'' [(''commonLabels'', PNone)] []) = Inl AttributeError \<and>
   snd (ingest (\<lambda>_. '''') (\<lambda>_. '''') (\<lambda>s. s) 0 ''a'' [(''commonLabels'', PNone)] []) = expire_old 0 []"
proof -
  have raised: "fst (ingest (\<lambda>_. '''') (\<lambda>_. '''') (\<lambda>s. s) 0 ''a'' [(''commonLabels'', PNone)] [])
      = Inl AttributeError" by code_simp
  from ingest_joins_only_related_incident [OF correlator_inv_Nil prod.collapse [symmetric],
      of "\<lambda>_. ''''" "\<lambda>_. ''''" "\<lambda>s. s" 0 "''a''" "[(''commonLabels'', PNone)]"] raised
  show ?thesis by simp
qed

lemma find_again:
  assumes "keys_distinct c" and "now \<le> now2"
    and "find (\<lambda>(_, inc). should_correlate now ns svcs names inc) c = None \<or>
         (\<exists>old. find (\<lambda>(_, inc). should_correlate now ns svcs names inc) c = Some (k, old))"
    and "should_correlate now2 ns svcs names inc'" and "\<not> stale now2 inc'"
  shows "find (\<lambda>(_, inc). should_correlate now2 ns svcs names inc) (expire_old now2 (AList.update k inc' c))
         = Some (k, inc')"
proof -
  have later: "\<exists>ys zs. c = ys @ zs \<and> (k', v') \<in> set zs \<and> k \<in> fst ` set ys"
    if mem: "(k', v') \<in> set c" and other: "k' \<noteq> k" and "should_correlate now2 ns svcs names v'" for k' v'
  proof -
    from that(3) assms(2) have matches: "should_correlate now ns svcs names v'"
      by (rule should_correlate_earlier)
    with mem assms(3) obtain old
      where "find (\<lambda>(_, inc). should_correlate now ns svcs names inc) c = Some (k, old)"
      by (auto simp: find_None_iff)
    then obtain ys zs where c: "c = ys @ (k, old) # zs"
      and "\<forall>y \<in> set ys. \<not> (case y of (_, inc) \<Rightarrow> should_correlate now ns svcs names inc)"
      by (auto simp: find_split)
    with mem other matches have "(k', v') \<in> set zs" by auto
    with c show ?thesis by (intro exI [of _ "ys @ [(k, old)]"] exI [of _ zs]) simp
  qed
  have "find (\<lambda>(_, inc). should_correlate now2 ns svcs names inc) (AList.update k inc' c) = Some (k, inc')"
    by (rule find_update) (use later assms in auto)
  then show ?thesis unfolding expire_old_def by (rule find_filter) (use assms(5) in simp)
qed

lemma ingest_joins:
  assumes "extract_namespace fmt alert = Inr ns" and "extract_services fmt alert = Inr svcs"
    and "extract_alert_names fmt alert = Inr names" and "\<not> injected fmt alert"
    and "find (\<lambda>(_, inc). should_correlate now ns svcs names inc) (expire_old now c) = Some (k, inc)"
  shows "ingest ff fmt sha now uid alert c =
    (Inr \<lparr>cb_incident_id = inc_id inc, is_new_incident = False, original_payload = alert,
          occurrence_refs = payload_occurrence_refs ff fmt sha alert\<rparr>,
     AList.update k (join_incident now svcs names alert
       (set (map occurrence_key (payload_occurrence_refs ff fmt sha alert))) inc) (expire_old now c))"
  using assms by (simp add: ingest_def Let_def)

text \<open>
  A second delivery of an envelope that names a service or an alert, not earlier than the first
  and while the incident is at most 300 seconds old, goes to the same incident and is recorded there
  as nothing new: the incident's list of alerts does not grow.
\<close>

theorem repeated_alert_is_deduplicated:
  assumes "correlator_inv c" and "ingest ff fmt sha now uid alert c = (Inr b, c')"
    and "\<not> injected fmt alert" and "extract_services fmt alert = Inr svcs"
    and "extract_alert_names fmt alert = Inr names" and "svcs \<noteq> {} \<or> names \<noteq> {}"
    and "map_of c' (cb_incident_id b) = Some inc" and "created_at inc \<le> now" and "now \<le> now2"
    and "now2 - created_at inc \<le> 300"
  shows "\<exists>b2 c2 inc2. ingest ff fmt sha now2 uid2 alert c' = (Inr b2, c2) \<and>
     \<not> is_new_incident b2 \<and> cb_incident_id b2 = cb_incident_id b \<and>
     occurrence_refs b2 = occurrence_refs b \<and>
     map_of c2 (cb_incident_id b) = Some inc2 \<and> alerts inc2 = alerts inc"
proof -
  let ?keys = "set (map occurrence_key (payload_occurrence_refs ff fmt sha alert))"
  let ?c = "expire_old now c"
  have live: "correlator_inv ?c" using assms(1) by (rule correlator_inv_expire)
  then have kd: "keys_distinct ?c" by (simp add: correlator_inv_def)
  have "\<exists>k ns inc'. extract_namespace fmt alert = Inr ns \<and> c' = AList.update k inc' ?c \<and>
      inc_id inc' = k \<and> cb_incident_id b = k \<and> ?keys \<subseteq> observed_keys inc' \<and>
      occurrence_refs b = payload_occurrence_refs ff fmt sha alert \<and>
      find (\<lambda>(_, i). should_correlate now2 ns svcs names i) (expire_old now2 c') = Some (k, inc')"
    using assms(2) refl
  proof (cases rule: ingest_cases)
    case (created ns svcs' names' b')
    let ?k = "new_incident_id now uid" and ?inc = "new_incident now uid ns svcs names alert ?keys"
    from created assms have eqs: "svcs' = svcs" "names' = names" "b' = b" by simp_all
    with created assms have "inc = ?inc" by simp
    then have recent: "now2 - now \<le> 300" using assms(10) by (simp add: new_incident_def)
    have fresh: "\<not> stale now2 ?inc"
      using recent by (simp add: stale_def new_incident_def CORRELATION_WINDOW_S_def)
    have "find (\<lambda>(_, i). should_correlate now ns svcs names i) ?c = None"
      using created(9) assms(3) eqs by (auto simp: find_None_iff)
    then have "find (\<lambda>(_, i). should_correlate now2 ns svcs names i) (expire_old now2 (AList.update ?k ?inc ?c))
        = Some (?k, ?inc)"
      by (intro find_again [OF kd assms(9) disjI1 correlates_after_creation [OF assms(6) recent] fresh])
    with created eqs show ?thesis
      by (intro exI [of _ ?k] exI [of _ ns] exI [of _ ?inc]) (simp add: new_incident_def)
  next
    case (joined ns svcs' names' b' k old)
    let ?inc = "join_incident now svcs names alert ?keys old"
    from joined assms have eqs: "svcs' = svcs" "names' = names" "b' = b" by simp_all
    from found_incident [OF joined(10)] live eqs have id: "inc_id old = k"
      and matches: "should_correlate now ns svcs names old"
      by (simp_all add: correlator_inv_def map_of_in_set)
    with joined assms(7) eqs have inc: "inc = ?inc" by simp
    then have age: "now2 - created_at old \<le> 300" "created_at old \<le> now" using assms(8,10) by simp_all
    then have "find (\<lambda>(_, i). should_correlate now2 ns svcs names i) (expire_old now2 (AList.update k ?inc ?c))
        = Some (k, ?inc)"
      using kd assms(9) joined(10) eqs correlates_after_join [OF matches age(1)]
      by (intro find_again) (auto simp: stale_def CORRELATION_WINDOW_S_def)
    with joined eqs id show ?thesis
      by (intro exI [of _ k] exI [of _ ns] exI [of _ ?inc]) simp
  qed simp
  then obtain k ns inc' where first: "extract_namespace fmt alert = Inr ns"
      "c' = AList.update k inc' ?c" "inc_id inc' = k" "cb_incident_id b = k" "?keys \<subseteq> observed_keys inc'"
      "occurrence_refs b = payload_occurrence_refs ff fmt sha alert"
    and again: "find (\<lambda>(_, i). should_correlate now2 ns svcs names i) (expire_old now2 c') = Some (k, inc')"
    by blast
  from first(2,4) assms(7) have "inc = inc'" by simp
  with first show ?thesis
    by (subst ingest_joins [OF first(1) assms(4,5,3) again]) auto
qed

theorem repeated_alert_is_deduplicated_witness:
  "\<exists>b2 c2 inc2. ingest (\<lambda>_. '''') (\<lambda>_. '''') (\<lambda>s. '''') 10 ''b'' [(''commonLabels'', PDict [(''app'', PStr ''web'')])]
       (snd (ingest (\<lambda>_. '''') (\<lambda>_. '''') (\<lambda>s. '''') 0 ''a'' [(''commonLabels'', PDict [(''app'', PStr ''web'')])] []))
     = (Inr b2, c2) \<and> \<not> is_new_incident b2 \<and> map_of c2 ''inc-0-a'' = Some inc2 \<and> length (alerts inc2) = 1"
proof -
  let ?alert = "[(''commonLabels'', PDict [(''app'', PStr ''web'')])]"
  let ?out = "ingest (\<lambda>_. '''') (\<lambda>_. '''') (\<lambda>s. '''') 0 ''a'' ?alert []"
  have labels: "extract_namespace (\<lambda>_. '''') ?alert = Inr ''''" "\<not> injected (\<lambda>_. '''') ?alert"
    "extract_services (\<lambda>_. '''') ?alert = Inr {''web''}" "extract_alert_names (\<lambda>_. '''') ?alert = Inr {}"
    by code_simp+
  have id: "new_incident_id 0 ''a'' = ''inc-0-a''" by code_simp
  have out: "?out = (Inr \<lparr>cb_incident_id = ''inc-0-a'', is_new_incident = True, original_payload = ?alert,
      occurrence_refs = payload_occurrence_refs (\<lambda>_. '''') (\<lambda>_. '''') (\<lambda>s. '''') ?alert\<rparr>,
      [(''inc-0-a'', new_incident 0 ''a'' '''' {''web''} {} ?alert
        (set (map occurrence_key (payload_occurrence_refs (\<lambda>_. '''') (\<lambda>_. '''') (\<lambda>s. '''') ?alert))))])"
    by (simp add: ingest_def Let_def labels expire_old_def add_incident_def id new_incident_def
        del: set_map)
  have "\<exists>b2 c2 inc2. ingest (\<lambda>_. '''') (\<lambda>_. '''') (\<lambda>s. '''') 10 ''b'' ?alert (snd ?out) = (Inr b2, c2) \<and>
     \<not> is_new_incident b2 \<and> cb_incident_id b2 = ''inc-0-a'' \<and>
     map_of c2 ''inc-0-a'' = Some inc2 \<and> alerts inc2 = [?alert]"
    using repeated_alert_is_deduplicated [OF correlator_inv_Nil out labels(2-4), of _ 10 "''b''"]
    by (simp add: out new_incident_def del: set_map) blast
  then obtain b2 c2 inc2
    where "ingest (\<lambda>_. '''') (\<lambda>_. '''') (\<lambda>s. '''') 10 ''b'' ?alert (snd ?out) = (Inr b2, c2)"
      "\<not> is_new_incident b2" "map_of c2 ''inc-0-a'' = Some inc2" "alerts inc2 = [?alert]" by blast
  then show ?thesis by (intro exI [of _ b2] exI [of _ c2] exI [of _ inc2]) simp
qed

end
