(* ===== verification/Dispatch.thy ===== *)
theory Dispatch
  imports Admission Correlator
begin

text \<open>
  \<open>agents/incident_dispatch.py\<close>: alert occurrences are admitted durably, queued per incident and handed
  to the incident handler by one worker task per queue.

  Queues, worker tasks and futures are compared with \<open>is\<close>, so they live in stores and are named by
  numbers.  A worker runs without interruption between two points where it is suspended: before its
  first step and inside the handler it awaits.  One event of the machine is one such stretch, so calls
  of \<open>submit\<close>, cancellations and done-callbacks interleave exactly at these points.  What the outside
  world decides is an argument of the event: UUIDs, database faults, the outcome of the handler and of
  task creation.  The call \<open>get_execution_journal().begin\<close> appears as its outcome \<open>se_journal_ok\<close>.
\<close>

section \<open>State\<close>

datatype dispatch_exn =
    StoreExn admission_error
  | PreparationExn
  | HandlerExn
  | TaskCreationExn
  | RegistrationExn

datatype completion = CPending | CResult pyval | CError dispatch_exn | CCancelled

record dispatch_item =
  di_incident :: string
  di_token :: string
  di_keys :: "string list"
  di_payload :: pydict
  di_anchors :: "pydict option"
  di_execution :: "string option"
  di_completion :: nat

record inc_queue =
  iq_pending :: "dispatch_item list"
  iq_deferred :: "dispatch_item list"
  iq_worker :: "nat option"

datatype worker_status = WNew | WAwaiting dispatch_item | WDone

text \<open>The task's done-callback: registration failed, still to run, or run.\<close>

datatype callback = Unregistered | Outstanding | Ran

record worker =
  wk_incident :: string
  wk_queue :: nat
  wk_status :: worker_status
  wk_cancelling :: bool
  wk_callback :: callback

record dispatcher =
  db :: table
  queues :: "string \<Rightarrow> nat option"
  qstore :: "nat \<Rightarrow> inc_queue"
  next_queue :: nat
  workers :: "nat \<Rightarrow> worker"
  next_worker :: nat
  completions :: "nat \<Rightarrow> completion"
  next_completion :: nat
  processing :: "string \<Rightarrow> bool"

definition empty_queue :: inc_queue where
  "empty_queue = \<lparr>iq_pending = [], iq_deferred = [], iq_worker = None\<rparr>"

text \<open>A dispatcher on a database that may hold rows of earlier processes.\<close>

definition new_dispatcher :: "table \<Rightarrow> dispatcher" where
  "new_dispatcher t =
     \<lparr>db = t, queues = Map.empty, qstore = (\<lambda>_. empty_queue), next_queue = 0,
      workers = (\<lambda>_. \<lparr>wk_incident = '''', wk_queue = 0, wk_status = WDone, wk_cancelling = False,
                       wk_callback = Ran\<rparr>),
      next_worker = 0, completions = (\<lambda>_. CCancelled), next_completion = 0, processing = (\<lambda>_. False)\<rparr>"

abbreviation set_queue :: "nat \<Rightarrow> inc_queue \<Rightarrow> dispatcher \<Rightarrow> dispatcher" where
  "set_queue q iq d \<equiv> d\<lparr>qstore := (qstore d)(q := iq)\<rparr>"

abbreviation set_worker :: "nat \<Rightarrow> worker \<Rightarrow> dispatcher \<Rightarrow> dispatcher" where
  "set_worker w wk d \<equiv> d\<lparr>workers := (workers d)(w := wk)\<rparr>"

text \<open>\<open>if not future.done(): ...\<close>\<close>

definition settle :: "nat \<Rightarrow> completion \<Rightarrow> dispatcher \<Rightarrow> dispatcher" where
  "settle f v d =
     (if completions d f = CPending then d\<lparr>completions := (completions d)(f := v)\<rparr> else d)"

definition settle_all :: "completion \<Rightarrow> dispatch_item list \<Rightarrow> dispatcher \<Rightarrow> dispatcher" where
  "settle_all v items d = fold (\<lambda>it. settle (di_completion it) v) items d"

definition release_incident :: "string \<Rightarrow> dispatcher \<Rightarrow> dispatcher" where
  "release_incident i d = d\<lparr>queues := (queues d)(i := None), processing := (processing d)(i := False)\<rparr>"

section \<open>Starting and finishing workers\<close>

text \<open>
  \<open>_start_worker\<close>: the task is created, recorded in the queue, and its done-callback registered.
  Creating it or registering the callback may fail.
\<close>

datatype start_outcome = StartOk | CreateFails | RegisterFails

definition start_worker :: "start_outcome \<Rightarrow> string \<Rightarrow> nat \<Rightarrow> dispatcher \<Rightarrow> dispatch_exn option \<times> dispatcher" where
  "start_worker st i q d =
     (if st = CreateFails then (Some TaskCreationExn, d)
      else
        let w = next_worker d;
            wk = \<lparr>wk_incident = i, wk_queue = q, wk_status = WNew, wk_cancelling = False,
                  wk_callback = (if st = StartOk then Outstanding else Unregistered)\<rparr>;
            d1 = set_worker w wk d\<lparr>next_worker := Suc w\<rparr>
        in (if st = StartOk then None else Some RegistrationExn,
            set_queue q ((qstore d1 q)\<lparr>iq_worker := Some w\<rparr>) d1))"

text \<open>The outcomes the environment chooses while a worker finishes.\<close>

record finish_env =
  fe_start :: start_outcome
  fe_rollback_fault :: "string \<Rightarrow> bool"

definition rollback_items :: "(string \<Rightarrow> bool) \<Rightarrow> dispatch_item list \<Rightarrow> dispatcher \<Rightarrow> dispatcher" where
  "rollback_items fault items d =
     fold (\<lambda>it d. d\<lparr>db := snd (rollback_queued (fault (di_token it)) (di_token it) (db d))\<rparr>) items d"

definition restart_deferred :: "finish_env \<Rightarrow> string \<Rightarrow> nat \<Rightarrow> dispatcher \<Rightarrow> dispatcher" where
  "restart_deferred env i q d0 =
     (let iq = qstore d0 q;
          d = set_queue q (iq\<lparr>iq_pending := iq_pending iq @ iq_deferred iq, iq_deferred := []\<rparr>) d0
      in case start_worker (fe_start env) i q d of
           (None, d1) \<Rightarrow> d1
         | (Some e, d1) \<Rightarrow>
             let failed = iq_pending (qstore d1 q);
                 d2 = release_incident i (set_queue q ((qstore d1 q)\<lparr>iq_pending := []\<rparr>) d1);
                 d3 = (if e = TaskCreationExn then rollback_items (fe_rollback_fault env) failed d2 else d2)
             in settle_all (CError e) failed d3)"

definition finish_worker :: "finish_env \<Rightarrow> nat \<Rightarrow> dispatcher \<Rightarrow> dispatcher" where
  "finish_worker env w d =
     (let wk = workers d w; i = wk_incident wk; q = wk_queue wk; iq = qstore d q in
      if iq_worker iq \<noteq> Some w then d
      else if iq_deferred iq \<noteq> [] \<and> wk_status wk \<noteq> WDone then d
      else
        let d1 = settle_all CCancelled (iq_pending iq) d;
            d2 = set_queue q (iq\<lparr>iq_pending := [], iq_worker := None\<rparr>) d1
        in if queues d2 i \<noteq> Some q then d2
           else if iq_deferred iq \<noteq> [] then restart_deferred env i q d2
           else release_incident i d2)"

section \<open>The worker\<close>

text \<open>
  The loop of \<open>_drain\<close> up to the next handler invocation.  An occurrence that cannot be marked
  attempted is answered with the error and skipped; nothing else runs in between, so the test that
  the queue is still the incident's queue is made once per stretch.
\<close>

fun drain_items ::
  "(string \<Rightarrow> bool) \<Rightarrow> dispatch_item list \<Rightarrow> dispatcher \<Rightarrow>
   (dispatch_item \<times> dispatch_item list) option \<times> dispatcher" where
  "drain_items fault [] d = (None, d)"
| "drain_items fault (it # rest) d =
     (case mark_attempted (fault (di_token it)) (di_token it) (di_keys it) (db d) of
        (Inl e, t) \<Rightarrow> drain_items fault rest (settle (di_completion it) (CError (StoreExn e)) (d\<lparr>db := t\<rparr>))
      | (Inr _, t) \<Rightarrow> (Some (it, rest), d\<lparr>db := t\<rparr>))"

definition end_worker :: "finish_env \<Rightarrow> nat \<Rightarrow> dispatcher \<Rightarrow> dispatcher" where
  "end_worker env w d =
     (let d1 = finish_worker env w d in set_worker w ((workers d1 w)\<lparr>wk_status := WDone\<rparr>) d1)"

text \<open>The item whose handler is invoked, if any, and the new state.\<close>

definition drain ::
  "finish_env \<Rightarrow> (string \<Rightarrow> bool) \<Rightarrow> nat \<Rightarrow> dispatcher \<Rightarrow> dispatch_item option \<times> dispatcher" where
  "drain env fault w d =
     (let wk = workers d w; q = wk_queue wk in
      if queues d (wk_incident wk) \<noteq> Some q then (None, end_worker env w d)
      else
        case drain_items fault (iq_pending (qstore d q)) d of
          (Some (it, rest), d1) \<Rightarrow>
            (Some it, set_worker w (wk\<lparr>wk_status := WAwaiting it\<rparr>)
                        (set_queue q ((qstore d1 q)\<lparr>iq_pending := rest\<rparr>) d1))
        | (None, d1) \<Rightarrow>
            (None, end_worker env w (set_queue q ((qstore d1 q)\<lparr>iq_pending := []\<rparr>) d1)))"

datatype handler_outcome = Completed pyval | Failed | Interrupted

definition worker_resume ::
  "finish_env \<Rightarrow> (string \<Rightarrow> bool) \<Rightarrow> nat \<Rightarrow> handler_outcome \<Rightarrow> dispatcher \<Rightarrow>
   dispatch_item option \<times> dispatcher" where
  "worker_resume env fault w outcome d =
     (case wk_status (workers d w) of
        WNew \<Rightarrow>
          (if wk_cancelling (workers d w)
           then (None, set_worker w ((workers d w)\<lparr>wk_status := WDone\<rparr>) d)
           else drain env fault w d)
      | WAwaiting it \<Rightarrow>
          (case outcome of
             Completed v \<Rightarrow> drain env fault w (settle (di_completion it) (CResult v) d)
           | Failed \<Rightarrow> drain env fault w (settle (di_completion it) (CError HandlerExn) d)
           | Interrupted \<Rightarrow> (None, end_worker env w (settle (di_completion it) CCancelled d)))
      | WDone \<Rightarrow> (None, d))"

definition worker_cancel :: "nat \<Rightarrow> dispatcher \<Rightarrow> dispatcher" where
  "worker_cancel w d =
     (if wk_status (workers d w) = WDone then d
      else set_worker w ((workers d w)\<lparr>wk_cancelling := True\<rparr>) d)"

definition done_callback :: "finish_env \<Rightarrow> nat \<Rightarrow> dispatcher \<Rightarrow> dispatcher" where
  "done_callback env w d =
     (if wk_status (workers d w) = WDone \<and> wk_callback (workers d w) = Outstanding
      then finish_worker env w (set_worker w ((workers d w)\<lparr>wk_callback := Ran\<rparr>) d)
      else d)"

section \<open>Submitting a batch\<close>

text \<open>\<open>_filtered_payload\<close>: only the alerts of newly admitted occurrences remain.\<close>

definition admitted_indices :: "candidate_batch \<Rightarrow> string list \<Rightarrow> nat list" where
  "admitted_indices batch admitted =
     sorted_list_of_set (set (List.map_filter
       (\<lambda>r. if occurrence_key r \<in> set admitted then alert_index r else None) (occurrence_refs batch)))"

definition filtered_payload :: "candidate_batch \<Rightarrow> string list \<Rightarrow> pydict" where
  "filtered_payload batch admitted =
     (let payload = original_payload batch in
      case dget payload ''alerts'' of
        PList items \<Rightarrow>
          (let indices = admitted_indices batch admitted in
           if indices = [] then payload
           else AList.update ''alerts''
                  (PList (map (\<lambda>n. items ! n) (filter (\<lambda>n. n < length items) indices))) payload)
      | _ \<Rightarrow> payload)"

record submit_env =
  se_token :: string
  se_admit_fault :: bool
  se_rollback_fault :: bool
  se_operational :: bool
  se_execution :: string
  se_journal_ok :: bool
  se_start :: start_outcome

datatype dispatch_state = Started | QueuedBehind | Duplicate

record submission =
  ds_state :: dispatch_state
  ds_incident :: "string option"
  ds_completion :: "nat option"

text \<open>
  What is computed from the batch before the item is queued: the anchors of the first admitted alert,
  the filtered payload, and the execution id of an operational run.
\<close>

definition prepare ::
  "submit_env \<Rightarrow> (pydict \<Rightarrow> nat \<Rightarrow> py_exn + pydict) option \<Rightarrow> candidate_batch \<Rightarrow> string list \<Rightarrow>
   dispatch_exn + (pydict \<times> pydict option \<times> string option)" where
  "prepare env anchor_builder batch admitted =
     (case find (\<lambda>r. occurrence_key r \<in> set admitted) (occurrence_refs batch) of
        None \<Rightarrow> Inl PreparationExn
      | Some ref \<Rightarrow>
          (case (case anchor_builder of
                   None \<Rightarrow> Inr None
                 | Some f \<Rightarrow> map_sum id Some
                     (f (original_payload batch) (case alert_index ref of None \<Rightarrow> 0 | Some n \<Rightarrow> n))) of
             Inl _ \<Rightarrow> Inl PreparationExn
           | Inr anchors \<Rightarrow>
               if se_operational env then
                 (if se_journal_ok env
                  then Inr (filtered_payload batch admitted, anchors, Some (se_execution env))
                  else Inl PreparationExn)
               else Inr (filtered_payload batch admitted, anchors, None)))"

definition owner_of_duplicates :: "(string \<times> string) list \<Rightarrow> string option" where
  "owner_of_duplicates dups =
     (case first_occurrences (map snd dups) of [owner] \<Rightarrow> Some owner | _ \<Rightarrow> None)"

text \<open>Putting the prepared item on its incident's queue.\<close>

definition enqueue ::
  "submit_env \<Rightarrow> dispatch_item \<Rightarrow> dispatcher \<Rightarrow> (dispatch_exn + submission) \<times> dispatcher" where
  "enqueue env it d0 =
     (let i = di_incident it; f = di_completion it;
          (q, d) = (case queues d0 i of
                      Some q \<Rightarrow> (q, d0)
                    | None \<Rightarrow> (next_queue d0,
                        set_queue (next_queue d0) empty_queue
                          (d0\<lparr>queues := (queues d0)(i \<mapsto> next_queue d0), next_queue := Suc (next_queue d0)\<rparr>)));
          iq = qstore d q
      in case iq_worker iq of
           Some w \<Rightarrow>
             (Inr \<lparr>ds_state = QueuedBehind, ds_incident = Some i, ds_completion = Some f\<rparr>,
              if wk_status (workers d w) = WDone \<or> wk_cancelling (workers d w)
              then set_queue q (iq\<lparr>iq_deferred := iq_deferred iq @ [it]\<rparr>) d
              else set_queue q (iq\<lparr>iq_pending := iq_pending iq @ [it]\<rparr>) d)
         | None \<Rightarrow>
             let d1 = set_queue q (iq\<lparr>iq_pending := iq_pending iq @ [it]\<rparr>) d;
                 d2 = d1\<lparr>processing := (processing d1)(i := True)\<rparr>
             in case start_worker (se_start env) i q d2 of
                  (None, d3) \<Rightarrow>
                    (Inr \<lparr>ds_state = Started, ds_incident = Some i, ds_completion = Some f\<rparr>, d3)
                | (Some TaskCreationExn, d3) \<Rightarrow>
                    let d4 = release_incident i
                               (set_queue q ((qstore d3 q)\<lparr>iq_pending := butlast (iq_pending (qstore d3 q))\<rparr>) d3);
                        d5 = settle f CCancelled d4
                    in (case rollback_queued (se_rollback_fault env) (di_token it) (db d5) of
                          (Inl e, t) \<Rightarrow> (Inl (StoreExn e), d5\<lparr>db := t\<rparr>)
                        | (Inr _, t) \<Rightarrow> (Inl TaskCreationExn, d5\<lparr>db := t\<rparr>))
                | (Some e, d3) \<Rightarrow> (Inl e, d3))"

definition submit ::
  "submit_env \<Rightarrow> (pydict \<Rightarrow> nat \<Rightarrow> py_exn + pydict) option \<Rightarrow> candidate_batch \<Rightarrow> dispatcher \<Rightarrow>
   (dispatch_exn + submission) \<times> dispatcher" where
  "submit env anchor_builder batch d0 =
     (let keys = first_occurrences (map occurrence_key (occurrence_refs batch)) in
      if keys = [] then (Inr \<lparr>ds_state = Duplicate, ds_incident = None, ds_completion = None\<rparr>, d0)
      else
        let f = next_completion d0;
            d1 = d0\<lparr>completions := (completions d0)(f := CPending), next_completion := Suc f\<rparr>
        in case admit (se_admit_fault env) (se_token env) (cb_incident_id batch) keys (db d1) of
             (Inl e, t) \<Rightarrow> (Inl (StoreExn e), settle f CCancelled (d1\<lparr>db := t\<rparr>))
           | (Inr r, t) \<Rightarrow>
               let d2 = d1\<lparr>db := t\<rparr> in
               if ar_admitted r = [] then
                 (Inr \<lparr>ds_state = Duplicate, ds_incident = owner_of_duplicates (ar_duplicates r),
                       ds_completion = None\<rparr>, d2)
               else
                 case prepare env anchor_builder batch (ar_admitted r) of
                   Inl e \<Rightarrow>
                     (let d3 = settle f CCancelled d2 in
                      case rollback_queued (se_rollback_fault env) (se_token env) (db d3) of
                        (Inl e', t') \<Rightarrow> (Inl (StoreExn e'), d3\<lparr>db := t'\<rparr>)
                      | (Inr _, t') \<Rightarrow> (Inl e, d3\<lparr>db := t'\<rparr>))
                 | Inr (payload, anchors, execution) \<Rightarrow>
                     enqueue env
                       \<lparr>di_incident = cb_incident_id batch, di_token = se_token env,
                        di_keys = ar_admitted r, di_payload = payload, di_anchors = anchors,
                        di_execution = execution, di_completion = f\<rparr> d2)"

section \<open>Histories\<close>

datatype dispatch_event =
    Submit submit_env "(pydict \<Rightarrow> nat \<Rightarrow> py_exn + pydict) option" candidate_batch
  | Resume finish_env "string \<Rightarrow> bool" nat handler_outcome
  | CancelWorker nat
  | DoneCallback finish_env nat

fun dispatch_step :: "dispatcher \<Rightarrow> dispatch_event \<Rightarrow> dispatcher" where
  "dispatch_step d (Submit env ab batch) = snd (submit env ab batch d)"
| "dispatch_step d (Resume env fault w outcome) = snd (worker_resume env fault w outcome d)"
| "dispatch_step d (CancelWorker w) = worker_cancel w d"
| "dispatch_step d (DoneCallback env w) = done_callback env w d"

text \<open>The handler invocation an event makes.\<close>

fun invocation :: "dispatcher \<Rightarrow> dispatch_event \<Rightarrow> dispatch_item option" where
  "invocation d (Resume env fault w outcome) = fst (worker_resume env fault w outcome d)"
| "invocation d _ = None"

section \<open>Frame\<close>

lemma settle_frame [simp]:
  "db (settle f v d) = db d" "queues (settle f v d) = queues d" "qstore (settle f v d) = qstore d"
  "next_queue (settle f v d) = next_queue d" "workers (settle f v d) = workers d"
  "next_worker (settle f v d) = next_worker d" "processing (settle f v d) = processing d"
  "next_completion (settle f v d) = next_completion d"
  by (simp_all add: settle_def)

lemma settle_completions:
  "completions (settle f v d) g = (if g = f \<and> completions d f = CPending then v else completions d g)"
  by (simp add: settle_def)

lemma settle_all_simps [simp]:
  "settle_all v [] d = d"
  "settle_all v (it # items) d = settle_all v items (settle (di_completion it) v d)"
  by (simp_all add: settle_all_def)

lemma settle_all_frame [simp]:
  "db (settle_all v items d) = db d" "queues (settle_all v items d) = queues d"
  "qstore (settle_all v items d) = qstore d" "next_queue (settle_all v items d) = next_queue d"
  "workers (settle_all v items d) = workers d" "next_worker (settle_all v items d) = next_worker d"
  "processing (settle_all v items d) = processing d"
  "next_completion (settle_all v items d) = next_completion d"
  by (induction items arbitrary: d) simp_all

lemma settle_all_completions:
  "v \<noteq> CPending \<Longrightarrow>
   completions (settle_all v items d) f =
     (if f \<in> di_completion ` set items \<and> completions d f = CPending then v else completions d f)"
  by (induction items arbitrary: d) (auto simp: settle_completions)

lemma rollback_items_frame [simp]:
  "queues (rollback_items fault items d) = queues d" "qstore (rollback_items fault items d) = qstore d"
  "next_queue (rollback_items fault items d) = next_queue d"
  "workers (rollback_items fault items d) = workers d"
  "next_worker (rollback_items fault items d) = next_worker d"
  "completions (rollback_items fault items d) = completions d"
  "next_completion (rollback_items fault items d) = next_completion d"
  unfolding rollback_items_def by (induction items arbitrary: d) simp_all

lemma release_frame [simp]:
  "db (release_incident i d) = db d" "queues (release_incident i d) = (queues d)(i := None)"
  "qstore (release_incident i d) = qstore d" "next_queue (release_incident i d) = next_queue d"
  "workers (release_incident i d) = workers d" "next_worker (release_incident i d) = next_worker d"
  "completions (release_incident i d) = completions d"
  "next_completion (release_incident i d) = next_completion d"
  by (simp_all add: release_incident_def)

text \<open>A worker that has just been started.\<close>

definition started_worker :: "start_outcome \<Rightarrow> string \<Rightarrow> nat \<Rightarrow> worker" where
  "started_worker st i q =
     \<lparr>wk_incident = i, wk_queue = q, wk_status = WNew, wk_cancelling = False,
      wk_callback = (if st = StartOk then Outstanding else Unregistered)\<rparr>"

lemma start_worker_eq:
  "start_worker st i q d =
     (if st = CreateFails then (Some TaskCreationExn, d)
      else (if st = StartOk then None else Some RegistrationExn,
            d\<lparr>workers := (workers d)(next_worker d := started_worker st i q),
              next_worker := Suc (next_worker d),
              qstore := (qstore d)(q := (qstore d q)\<lparr>iq_worker := Some (next_worker d)\<rparr>)\<rparr>))"
  by (simp add: start_worker_def started_worker_def Let_def)

section \<open>What finishing a worker does\<close>

lemma restart_deferred_eq:
  fixes d :: dispatcher and q :: nat and env :: finish_env and i :: string
  defines "items \<equiv> iq_pending (qstore d q) @ iq_deferred (qstore d q)"
  defines "r \<equiv> restart_deferred env i q d"
  shows "completions r = (if fe_start env = StartOk then completions d
            else completions (settle_all (CError (if fe_start env = CreateFails then TaskCreationExn
                                                   else RegistrationExn)) items d))"
    and "queues r = (if fe_start env = StartOk then queues d else (queues d)(i := None))"
    and "qstore r = (qstore d)(q := \<lparr>iq_pending = (if fe_start env = StartOk then items else []),
            iq_deferred = [],
            iq_worker = (if fe_start env = CreateFails then iq_worker (qstore d q)
                         else Some (next_worker d))\<rparr>)"
    and "workers r = (if fe_start env = CreateFails then workers d
            else (workers d)(next_worker d := started_worker (fe_start env) i q))"
    and "next_worker r = (if fe_start env = CreateFails then next_worker d else Suc (next_worker d))"
    and "next_queue r = next_queue d" and "next_completion r = next_completion d"
  unfolding r_def items_def
  by (cases "fe_start env"; cases "qstore d q";
      simp add: restart_deferred_def start_worker_eq Let_def fun_eq_iff settle_all_completions)+

definition qworker :: "dispatcher \<Rightarrow> nat \<Rightarrow> nat option" where
  "qworker d q = iq_worker (qstore d q)"

text \<open>
  The four ways a worker finishes: nothing happens; the queue is no longer the incident's; a new
  worker takes over the deferred items; or the incident is released with every item answered.
\<close>

lemma finish_worker_cases:
  fixes d :: dispatcher and w :: nat
  defines "i \<equiv> wk_incident (workers d w)" and "q \<equiv> wk_queue (workers d w)"
  obtains
    (unchanged) "finish_worker env w d = d"
      and "qworker d q \<noteq> Some w \<or> (iq_deferred (qstore d q) \<noteq> [] \<and> wk_status (workers d w) \<noteq> WDone)"
  | (detached) "qworker d q = Some w" and "queues d i \<noteq> Some q"
      and "finish_worker env w d = settle_all CCancelled (iq_pending (qstore d q)) d
             \<lparr>qstore := (qstore d)(q := (qstore d q)\<lparr>iq_pending := [], iq_worker := None\<rparr>)\<rparr>"
  | (restarted) "qworker d q = Some w" and "queues d i = Some q" and "fe_start env = StartOk"
      and "queues (finish_worker env w d) = queues d"
      and "qstore (finish_worker env w d) = (qstore d)(q :=
             \<lparr>iq_pending = iq_deferred (qstore d q), iq_deferred = [], iq_worker = Some (next_worker d)\<rparr>)"
      and "workers (finish_worker env w d) =
             (workers d)(next_worker d := started_worker StartOk i q)"
      and "next_worker (finish_worker env w d) = Suc (next_worker d)"
      and "next_queue (finish_worker env w d) = next_queue d"
      and "next_completion (finish_worker env w d) = next_completion d"
      and "completions (finish_worker env w d) =
             completions (settle_all CCancelled (iq_pending (qstore d q)) d)"
  | (released) b where "qworker d q = Some w" and "queues d i = Some q"
      and "queues (finish_worker env w d) = (queues d)(i := None)"
      and "qstore (finish_worker env w d) = (qstore d)(q :=
             \<lparr>iq_pending = [], iq_deferred = [], iq_worker = (if b then Some (next_worker d) else None)\<rparr>)"
      and "workers (finish_worker env w d) =
             (if b then (workers d)(next_worker d := started_worker RegisterFails i q) else workers d)"
      and "next_worker (finish_worker env w d) = (if b then Suc (next_worker d) else next_worker d)"
      and "next_queue (finish_worker env w d) = next_queue d"
      and "next_completion (finish_worker env w d) = next_completion d"
      and "\<forall>f. completions (finish_worker env w d) f = CPending \<longrightarrow> completions d f = CPending \<and>
             f \<notin> di_completion ` set (iq_pending (qstore d q) @ iq_deferred (qstore d q))"
proof (cases "qworker d q \<noteq> Some w \<or> (iq_deferred (qstore d q) \<noteq> [] \<and> wk_status (workers d w) \<noteq> WDone)")
  case True
  then show thesis
    by (intro unchanged) (auto simp: finish_worker_def Let_def qworker_def q_def)
next
  case False
  then have go: "qworker d q = Some w" and
    stay: "\<not> (iq_deferred (qstore d q) \<noteq> [] \<and> wk_status (workers d w) \<noteq> WDone)" by simp_all
  show thesis
  proof (cases "queues d i = Some q")
    case False
    with go stay show thesis
      by (intro detached) (auto simp: finish_worker_def Let_def qworker_def q_def i_def)
  next
    case True
    show thesis
    proof (cases "iq_deferred (qstore d q) = []")
      case empty: True
      with go stay True show thesis
        by (intro released [of False])
          (auto simp: finish_worker_def Let_def qworker_def q_def i_def settle_all_completions)
    next
      case ne: False
      let ?d = "settle_all CCancelled (iq_pending (qstore d q)) d
         \<lparr>qstore := (qstore d)(q := (qstore d q)\<lparr>iq_pending := [], iq_worker := None\<rparr>)\<rparr>"
      have fin: "finish_worker env w d = restart_deferred env i q ?d"
        using go stay True ne by (simp add: finish_worker_def Let_def qworker_def q_def i_def)
      show thesis
      proof (cases "fe_start env = StartOk")
        case ok: True
        with go True show thesis
          by (intro restarted) (simp_all add: fin restart_deferred_eq)
      next
        case False
        with go True show thesis
          by (intro released [of "fe_start env = RegisterFails"]; cases "fe_start env")
            (auto simp: fin restart_deferred_eq settle_all_completions)
      qed
    qed
  qed
qed

section \<open>Invariant\<close>

text \<open>
  Every queue of an incident has a worker of its own whose done-callback has not run, a worker that
  is not done is the worker of its queue, and one that awaits a handler works on its incident's queue.
\<close>

definition queue_shape :: "dispatcher \<Rightarrow> bool" where
  "queue_shape d \<longleftrightarrow>
     (\<forall>i q. queues d i = Some q \<longrightarrow>
        q < next_queue d \<and> (\<exists>w. qworker d q = Some w \<and> wk_incident (workers d w) = i)) \<and>
     (\<forall>q w. qworker d q = Some w \<longrightarrow>
        w < next_worker d \<and> wk_queue (workers d w) = q \<and> q < next_queue d) \<and>
     (\<forall>w. wk_callback (workers d w) = Ran \<longrightarrow> wk_status (workers d w) = WDone)"

definition awaits_ok :: "dispatcher \<Rightarrow> nat \<Rightarrow> bool" where
  "awaits_ok d w \<longleftrightarrow>
     (wk_status (workers d w) \<noteq> WDone \<longrightarrow>
        w < next_worker d \<and> qworker d (wk_queue (workers d w)) = Some w) \<and>
     (\<forall>it. wk_status (workers d w) = WAwaiting it \<longrightarrow>
        queues d (wk_incident (workers d w)) = Some (wk_queue (workers d w)))"

definition callback_ok :: "dispatcher \<Rightarrow> nat \<Rightarrow> bool" where
  "callback_ok d w \<longleftrightarrow>
     (\<forall>i q. queues d i = Some q \<longrightarrow> qworker d q = Some w \<longrightarrow> wk_callback (workers d w) \<noteq> Ran)"

definition disp_inv :: "dispatcher \<Rightarrow> bool" where
  "disp_inv d \<longleftrightarrow> queue_shape d \<and> (\<forall>w. awaits_ok d w) \<and> (\<forall>w. callback_ok d w)"

definition disp_inv_but :: "nat \<Rightarrow> dispatcher \<Rightarrow> bool" where
  "disp_inv_but w0 d \<longleftrightarrow>
     queue_shape d \<and> (\<forall>w. w \<noteq> w0 \<longrightarrow> awaits_ok d w) \<and> (\<forall>w. w \<noteq> w0 \<longrightarrow> callback_ok d w)"

lemmas disp_inv_defs = disp_inv_def disp_inv_but_def queue_shape_def awaits_ok_def callback_ok_def

lemma disp_inv_new [simp]: "disp_inv (new_dispatcher t)"
  by (simp add: disp_inv_defs new_dispatcher_def qworker_def empty_queue_def)

lemma queue_shapeD:
  assumes "queue_shape d"
  shows "queues d i = Some q \<Longrightarrow> q < next_queue d"
    and "queues d i = Some q \<Longrightarrow> \<exists>w. qworker d q = Some w \<and> wk_incident (workers d w) = i"
    and "qworker d q = Some w \<Longrightarrow> w < next_worker d"
    and "qworker d q = Some w \<Longrightarrow> wk_queue (workers d w) = q"
    and "wk_callback (workers d w) = Ran \<Longrightarrow> wk_status (workers d w) = WDone"
    and "qworker d q = Some w \<Longrightarrow> q < next_queue d"
  using assms unfolding queue_shape_def by blast+

lemma queue_owner_unique:
  "queue_shape d \<Longrightarrow> queues d i = Some q \<Longrightarrow> qworker d q = Some w \<Longrightarrow> wk_incident (workers d w) = i"
  using queue_shapeD(2) by fastforce

text \<open>Only these five fields matter to the invariant.\<close>

lemma same_core:
  assumes "queues d' = queues d" and "\<And>q. qworker d' q = qworker d q" and "next_queue d' = next_queue d"
    and "workers d' = workers d" and "next_worker d' = next_worker d"
  shows "queue_shape d' = queue_shape d" and "awaits_ok d' w = awaits_ok d w"
    and "callback_ok d' w = callback_ok d w" and "disp_inv d' = disp_inv d"
    and "disp_inv_but w d' = disp_inv_but w d"
  using assms by (simp_all add: disp_inv_defs)

lemma qworker_update [simp]:
  "qworker (d\<lparr>qstore := (qstore d0)(q := iq)\<rparr>) q' = (if q' = q then iq_worker iq else iq_worker (qstore d0 q'))"
  by (simp add: qworker_def)

text \<open>
  The worker \<open>w\<close> leaves its queue: nobody or a fresh worker takes its place, and the incident is
  released unless a fresh worker is there (or the queue was not the incident's any more).
\<close>

lemma leave_queue_inv:
  assumes inv: "disp_inv_but w d" and mine: "qworker d q = Some w"
    and i: "i = wk_incident (workers d w)"
    and qw: "\<And>p. qworker d' p = (if p = q then (if b then Some (next_worker d) else None) else qworker d p)"
    and qs: "queues d' = (if rel then (queues d)(i := None) else queues d)"
    and cover: "rel \<or> queues d i \<noteq> Some q \<or> b"
    and ws: "workers d' = (if b then (workers d)(next_worker d := started_worker st i q) else workers d)"
    and nw: "next_worker d' = (if b then Suc (next_worker d) else next_worker d)"
    and nq: "next_queue d' = next_queue d"
    and rel_attached: "rel \<Longrightarrow> queues d i = Some q"
  shows "disp_inv_but w d' \<and> callback_ok d' w"
proof -
  have shape: "queue_shape d" using inv by (simp add: disp_inv_but_def)
  note D = queue_shapeD [OF shape] and owner = queue_owner_unique [OF shape]
  have old: "workers d' v = workers d v" if "v < next_worker d" for v using that by (simp add: ws)
  have sub: "queues d j = Some p" if "queues d' j = Some p" for j p
    using that by (auto simp: qs split: if_splits)
  have bq: b if "queues d' j = Some q" for j
  proof -
    from that have "queues d j = Some q" by (rule sub)
    with owner mine i have "j = i" by blast
    with that have "\<not> rel" and "queues d i = Some q" by (auto simp: qs split: if_splits)
    with cover show b by simp
  qed
  have owned: "p < next_queue d' \<and> (\<exists>v. qworker d' p = Some v \<and> wk_incident (workers d' v) = j)"
    if "queues d' j = Some p" for j p
  proof (cases "p = q")
    case True
    with that bq have b by blast
    moreover have "j = i" using sub [OF that] True owner mine i by blast
    ultimately show ?thesis using D(1) [OF sub [OF that]] True
      by (auto simp: qw nq ws started_worker_def)
  next
    case False
    from D(2) [OF sub [OF that]] obtain v where "qworker d p = Some v" "wk_incident (workers d v) = j" by blast
    moreover from this D(3) have "workers d' v = workers d v" by (blast intro: old)
    ultimately show ?thesis using False D(1) [OF sub [OF that]] by (auto simp: qw nq)
  qed
  have placed: "v < next_worker d' \<and> wk_queue (workers d' v) = p \<and> p < next_queue d'"
    if "qworker d' p = Some v" for p v
  proof (cases "p = q")
    case True
    with that D(6) [OF mine] show ?thesis
      by (auto simp: qw nw nq ws started_worker_def split: if_splits)
  next
    case False
    with that have "qworker d p = Some v" by (simp add: qw)
    with D(3,4,6) have "v < next_worker d" "wk_queue (workers d v) = p" "p < next_queue d" by blast+
    then show ?thesis by (auto simp: nw nq old)
  qed
  have ran: "wk_callback (workers d' v) = Ran \<Longrightarrow> wk_status (workers d' v) = WDone" for v
    using D(5) [of v] by (auto simp: ws started_worker_def split: if_splits)
  have awaits: "awaits_ok d' v" if other: "v \<noteq> w" for v
  proof (cases "b \<and> v = next_worker d")
    case True
    then show ?thesis by (simp add: awaits_ok_def ws nw qw started_worker_def)
  next
    case False
    then have same: "workers d' v = workers d v" by (auto simp: ws)
    from inv other have old_ok: "awaits_ok d v" by (simp add: disp_inv_but_def)
    have neq: "wk_queue (workers d v) \<noteq> q" if "wk_status (workers d v) \<noteq> WDone"
      using old_ok that other mine by (auto simp: awaits_ok_def)
    have "wk_incident (workers d v) \<noteq> i \<or> \<not> rel" if "wk_status (workers d v) = WAwaiting it" for it
      using old_ok that neq rel_attached by (auto simp: awaits_ok_def)
    then show ?thesis using old_ok neq by (auto simp: awaits_ok_def same qw qs nw)
  qed
  have callbacks: "callback_ok d' v" for v
    unfolding callback_ok_def
  proof (intro allI impI)
    fix j p assume *: "queues d' j = Some p" "qworker d' p = Some v"
    show "wk_callback (workers d' v) \<noteq> Ran"
    proof (cases "p = q")
      case True
      with * bq show ?thesis by (auto simp: qw ws started_worker_def)
    next
      case False
      with * have at: "qworker d p = Some v" by (simp add: qw)
      then have "v < next_worker d" "v \<noteq> w" using D(3) D(4) [OF mine] D(4) [OF at] False by auto
      with inv sub [OF *(1)] at show ?thesis
        by (auto simp: old disp_inv_but_def callback_ok_def)
    qed
  qed
  show ?thesis using owned placed ran awaits callbacks
    by (simp add: disp_inv_but_def queue_shape_def)
qed

lemma finish_worker_inv:
  assumes inv: "disp_inv_but w d"
  shows "disp_inv_but w (finish_worker env w d) \<and> callback_ok (finish_worker env w d) w"
proof (cases rule: finish_worker_cases [of env w d])
  case unchanged
  have shape: "queue_shape d" using inv by (simp add: disp_inv_but_def)
  note D = queue_shapeD [OF shape]
  have "callback_ok d w" unfolding callback_ok_def
  proof (intro allI impI)
    fix i q assume q: "queues d i = Some q" "qworker d q = Some w"
    then have "q = wk_queue (workers d w)" using D(4) by blast
    with unchanged q(2) have "wk_status (workers d w) \<noteq> WDone" by blast
    then show "wk_callback (workers d w) \<noteq> Ran" using D(5) by blast
  qed
  with inv unchanged show ?thesis by simp
next
  case detached
  show ?thesis
    by (rule leave_queue_inv [OF inv detached(1) refl, where b = False and rel = False])
      (use detached in \<open>simp_all add: qworker_def\<close>)
next
  case restarted
  show ?thesis
    by (rule leave_queue_inv [OF inv restarted(1) refl, where b = True and rel = False])
      (use restarted in \<open>simp_all add: qworker_def\<close>)
next
  case (released b)
  show ?thesis
    by (rule leave_queue_inv [OF inv released(1) refl, where b = b and rel = True])
      (use released in \<open>simp_all add: qworker_def\<close>)
qed

text \<open>The worker's coroutine returns.\<close>

lemma end_worker_inv:
  assumes "disp_inv_but w d" shows "disp_inv (end_worker env w d)"
proof -
  let ?d = "finish_worker env w d"
  from finish_worker_inv [OF assms] have inv: "disp_inv_but w ?d" and cb: "callback_ok ?d w" by blast+
  have qw: "qworker (end_worker env w d) q = qworker ?d q" for q
    by (simp add: end_worker_def Let_def qworker_def)
  have core: "queues (end_worker env w d) = queues ?d" "next_queue (end_worker env w d) = next_queue ?d"
    "next_worker (end_worker env w d) = next_worker ?d"
    "\<And>v. wk_incident (workers (end_worker env w d) v) = wk_incident (workers ?d v)"
    "\<And>v. wk_queue (workers (end_worker env w d) v) = wk_queue (workers ?d v)"
    "\<And>v. wk_callback (workers (end_worker env w d) v) = wk_callback (workers ?d v)"
    "\<And>v. wk_status (workers (end_worker env w d) v) = (if v = w then WDone else wk_status (workers ?d v))"
    by (simp_all add: end_worker_def Let_def)
  have "queue_shape (end_worker env w d)"
    using inv unfolding disp_inv_but_def queue_shape_def qw core by auto
  moreover have "awaits_ok (end_worker env w d) v" for v
    using inv unfolding disp_inv_but_def awaits_ok_def qw core by auto
  moreover have "callback_ok (end_worker env w d) v" for v
    using inv cb unfolding disp_inv_but_def callback_ok_def qw core by metis
  ultimately show ?thesis by (simp add: disp_inv_def)
qed

lemma disp_inv_but_intro: "disp_inv d \<Longrightarrow> disp_inv_but w d"
  by (simp add: disp_inv_def disp_inv_but_def)

lemma drain_items_frame:
  assumes "drain_items fault items d = (r, d')"
  shows "queues d' = queues d" "qstore d' = qstore d" "workers d' = workers d"
    "next_queue d' = next_queue d" "next_worker d' = next_worker d" "next_completion d' = next_completion d"
  using assms
  by (induction fault items d rule: drain_items.induct) (auto split: prod.splits sum.splits)

lemma drain_inv:
  assumes inv: "disp_inv d" and alive: "wk_status (workers d w) \<noteq> WDone"
  shows "disp_inv (snd (drain env fault w d))"
proof (cases "queues d (wk_incident (workers d w)) = Some (wk_queue (workers d w))")
  case False
  then show ?thesis using end_worker_inv [OF disp_inv_but_intro [OF inv]] by (simp add: drain_def Let_def)
next
  case True
  let ?q = "wk_queue (workers d w)" and ?i = "wk_incident (workers d w)"
  obtain r d1 where items: "drain_items fault (iq_pending (qstore d ?q)) d = (r, d1)" by fastforce
  note frame = drain_items_frame [OF items]
  show ?thesis
  proof (cases r)
    case None
    have "disp_inv (set_queue ?q ((qstore d1 ?q)\<lparr>iq_pending := []\<rparr>) d1)"
      by (subst same_core(4) [of _ d]) (use inv in \<open>auto simp: frame qworker_def\<close>)
    with None True items show ?thesis
      using end_worker_inv [OF disp_inv_but_intro] by (simp add: drain_def Let_def)
  next
    case (Some p)
    obtain it rest where p: "p = (it, rest)" by (cases p)
    let ?d = "snd (drain env fault w d)"
    have d': "?d = set_worker w ((workers d w)\<lparr>wk_status := WAwaiting it\<rparr>)
        (set_queue ?q ((qstore d1 ?q)\<lparr>iq_pending := rest\<rparr>) d1)"
      using Some True items by (simp add: drain_def Let_def p)
    have qw: "qworker ?d q = qworker d q" for q by (simp add: d' qworker_def frame)
    have core: "queues ?d = queues d" "next_queue ?d = next_queue d" "next_worker ?d = next_worker d"
      "\<And>v. wk_incident (workers ?d v) = wk_incident (workers d v)"
      "\<And>v. wk_queue (workers ?d v) = wk_queue (workers d v)"
      "\<And>v. wk_callback (workers ?d v) = wk_callback (workers d v)"
      "\<And>v. wk_status (workers ?d v) = (if v = w then WAwaiting it else wk_status (workers d v))"
      by (simp_all add: d' frame)
    from inv have shape: "queue_shape d" by (simp add: disp_inv_def)
    have "queue_shape ?d"
      using shape alive queue_shapeD(5) [OF shape, of w] unfolding queue_shape_def qw core by auto
    moreover have "awaits_ok ?d u" for u
      using inv alive True unfolding disp_inv_def awaits_ok_def qw core by (cases "u = w") auto
    moreover have "callback_ok ?d u" for u
      using inv unfolding disp_inv_def callback_ok_def qw core by auto
    ultimately show ?thesis by (simp add: disp_inv_def)
  qed
qed

lemma disp_inv_settle [simp]: "disp_inv (settle f v d) = disp_inv d"
  by (rule same_core) (simp_all add: qworker_def)

lemma disp_inv_but_settle [simp]: "disp_inv_but w (settle f v d) = disp_inv_but w d"
  by (rule same_core) (simp_all add: qworker_def)

lemma disp_inv_db [simp]: "disp_inv (d\<lparr>db := t\<rparr>) = disp_inv d"
  by (rule same_core) (simp_all add: qworker_def)

text \<open>Changing a worker's status to done, or its cancellation flag, or an outstanding callback.\<close>

lemma worker_change:
  assumes "\<And>q. qworker d' q = qworker d q" and "queues d' = queues d" and "next_queue d' = next_queue d"
    and "next_worker d' = next_worker d"
    and "\<And>v. wk_incident (workers d' v) = wk_incident (workers d v)"
    and "\<And>v. wk_queue (workers d' v) = wk_queue (workers d v)"
    and "\<And>v. wk_callback (workers d' v) = Ran \<Longrightarrow> wk_status (workers d' v) = WDone"
  shows "queue_shape d \<Longrightarrow> queue_shape d'"
    and "wk_status (workers d' v) \<in> {wk_status (workers d v), WDone} \<Longrightarrow> awaits_ok d v \<Longrightarrow> awaits_ok d' v"
    and "wk_callback (workers d' v) = wk_callback (workers d v) \<Longrightarrow> callback_ok d v \<Longrightarrow> callback_ok d' v"
  using assms(7) unfolding queue_shape_def awaits_ok_def callback_ok_def assms(1-6)
  by (simp, auto simp del: not_ex) (metis worker_status.distinct(5))+

lemma worker_done_inv:
  assumes inv: "disp_inv d" and cb: "wk_callback (workers d w) \<noteq> Ran"
  shows "disp_inv (set_worker w ((workers d w)\<lparr>wk_status := WDone\<rparr>) d)" (is "disp_inv ?d")
proof -
  have ran: "wk_callback (workers ?d v) = Ran \<Longrightarrow> wk_status (workers ?d v) = WDone" for v
    using inv queue_shapeD(5) [of d v] by (auto simp: disp_inv_def split: if_splits)
  show ?thesis unfolding disp_inv_def
    by (intro conjI allI; rule worker_change [of ?d d])
      (use inv ran in \<open>auto simp: disp_inv_def qworker_def\<close>)
qed

lemma worker_cancel_inv: "disp_inv d \<Longrightarrow> disp_inv (worker_cancel w d)"
proof -
  assume inv: "disp_inv d"
  let ?d = "set_worker w ((workers d w)\<lparr>wk_cancelling := True\<rparr>) d"
  have ran: "wk_callback (workers ?d v) = Ran \<Longrightarrow> wk_status (workers ?d v) = WDone" for v
    using inv queue_shapeD(5) [of d v] by (auto simp: disp_inv_def split: if_splits)
  have "disp_inv ?d" unfolding disp_inv_def
    by (intro conjI allI; rule worker_change [of ?d d])
      (use inv ran in \<open>auto simp: disp_inv_def qworker_def\<close>)
  with inv show ?thesis by (simp add: worker_cancel_def)
qed

lemma worker_resume_inv:
  assumes inv: "disp_inv d" shows "disp_inv (snd (worker_resume env fault w outcome d))"
proof (cases "wk_status (workers d w)")
  case WNew
  then have "wk_callback (workers d w) \<noteq> Ran"
    using inv queue_shapeD(5) [of d w] by (auto simp: disp_inv_def)
  with inv WNew show ?thesis
    by (simp add: worker_resume_def drain_inv worker_done_inv)
next
  case (WAwaiting it)
  with inv show ?thesis
    by (cases outcome) (simp_all add: worker_resume_def drain_inv end_worker_inv disp_inv_but_intro)
next
  case WDone
  with inv show ?thesis by (simp add: worker_resume_def)
qed

lemma done_callback_inv:
  assumes inv: "disp_inv d" shows "disp_inv (done_callback env w d)"
proof (cases "wk_status (workers d w) = WDone \<and> wk_callback (workers d w) = Outstanding")
  case True
  let ?d = "set_worker w ((workers d w)\<lparr>wk_callback := Ran\<rparr>) d"
  have ran: "wk_callback (workers ?d v) = Ran \<Longrightarrow> wk_status (workers ?d v) = WDone" for v
    using inv True queue_shapeD(5) [of d v] by (auto simp: disp_inv_def split: if_splits)
  have but: "disp_inv_but w ?d" unfolding disp_inv_but_def
    by (intro conjI allI impI; rule worker_change [of ?d d])
      (use inv ran in \<open>auto simp: disp_inv_def qworker_def\<close>)
  from finish_worker_inv [OF but, of env]
  have but': "disp_inv_but w (finish_worker env w ?d)" and cb: "callback_ok (finish_worker env w ?d) w"
    by blast+
  have "wk_status (workers (finish_worker env w ?d) w) = WDone"
  proof (cases rule: finish_worker_cases [of env w ?d])
    case restarted
    have "w < next_worker d"
      using restarted(1) but queue_shapeD(3) [of ?d] by (simp add: disp_inv_but_def)
    with restarted(6) True show ?thesis by simp
  next
    case (released b)
    have "w < next_worker d"
      using released(1) but queue_shapeD(3) [of ?d] by (simp add: disp_inv_but_def)
    with released(5) True show ?thesis by simp
  qed (simp_all add: True)
  then have "awaits_ok (finish_worker env w ?d) w" by (simp add: awaits_ok_def)
  with but' cb have "disp_inv (finish_worker env w ?d)" unfolding disp_inv_def disp_inv_but_def by metis
  with True show ?thesis by (simp add: done_callback_def)
qed (use inv in \<open>auto simp: done_callback_def\<close>)

section \<open>Submission keeps the invariant\<close>

lemma queue_gains_item_inv:
  "disp_inv d \<Longrightarrow> iq_worker iq = qworker d q \<Longrightarrow> disp_inv (set_queue q iq d)"
  by (subst same_core(4) [of _ d]) (auto simp: qworker_def)

text \<open>A fresh queue with a fresh worker.\<close>

lemma open_queue_inv:
  assumes inv: "disp_inv d" and none: "queues d i = None"
    and qw: "\<And>q. qworker d' q = (if q = next_queue d then Some (next_worker d) else qworker d q)"
    and core: "queues d' = (queues d)(i \<mapsto> next_queue d)" "next_queue d' = Suc (next_queue d)"
      "workers d' = (workers d)(next_worker d := started_worker st i (next_queue d))"
      "next_worker d' = Suc (next_worker d)"
  shows "disp_inv d'"
proof -
  from inv have shape: "queue_shape d" by (simp add: disp_inv_def)
  note D = queue_shapeD [OF shape]
  have fresh: "queues d j \<noteq> Some (next_queue d)" for j using D(1) by blast
  have old: "workers d' v = workers d v" if "qworker d q = Some v" for q v
    using D(3) [OF that] by (simp add: core)
  have "queue_shape d'" unfolding queue_shape_def
  proof (intro conjI allI impI)
    fix j q assume j: "queues d' j = Some q"
    show "q < next_queue d'" using j D(1) [of j q] by (auto simp: core split: if_splits)
    show "\<exists>w. qworker d' q = Some w \<and> wk_incident (workers d' w) = j"
    proof (cases "j = i")
      case True
      with j show ?thesis by (auto simp: core qw started_worker_def)
    next
      case False
      with j have "queues d j = Some q" by (simp add: core)
      with D(2) obtain w where "qworker d q = Some w" "wk_incident (workers d w) = j" by blast
      with fresh \<open>queues d j = Some q\<close> show ?thesis by (auto simp: qw old)
    qed
  next
    fix q w assume "qworker d' q = Some w"
    then show "w < next_worker d'" and "wk_queue (workers d' w) = q" and "q < next_queue d'"
      using D(3,4,6) [of q w] by (auto simp: qw core started_worker_def split: if_splits)
  next
    fix w assume "wk_callback (workers d' w) = Ran"
    then show "wk_status (workers d' w) = WDone"
      using D(5) [of w] by (auto simp: core started_worker_def split: if_splits)
  qed
  moreover have "awaits_ok d' w" for w
  proof (cases "w = next_worker d")
    case False
    from inv have ok: "awaits_ok d w" by (simp add: disp_inv_def)
    have "wk_queue (workers d w) \<noteq> next_queue d" if "wk_status (workers d w) \<noteq> WDone"
      using ok that D(6) [of "wk_queue (workers d w)" w] by (auto simp: awaits_ok_def)
    moreover have "wk_incident (workers d w) \<noteq> i" if "wk_status (workers d w) = WAwaiting it" for it
      using ok that none by (auto simp: awaits_ok_def)
    ultimately show ?thesis using ok False by (auto simp: awaits_ok_def qw core)
  qed (simp add: awaits_ok_def qw core started_worker_def)
  moreover have "callback_ok d' w" for w
    using inv old fresh unfolding disp_inv_def callback_ok_def
    by (auto simp: qw core started_worker_def split: if_splits)
  ultimately show ?thesis by (simp add: disp_inv_def)
qed

lemma more_queues_inv:
  assumes "disp_inv d" and "queues d' = queues d" and "\<And>q. qworker d' q = qworker d q"
    and "next_queue d \<le> next_queue d'" and "workers d' = workers d" and "next_worker d' = next_worker d"
  shows "disp_inv d'"
  using assms by (fastforce simp: disp_inv_defs)

text \<open>What putting an item on its queue does: one of four outcomes.\<close>

lemma enqueue_cases:
  fixes d :: dispatcher and it :: dispatch_item
  defines "i \<equiv> di_incident it" and "f \<equiv> di_completion it"
  assumes inv: "disp_inv d"
  obtains
    (appended) q w iq where "queues d i = Some q" and "qworker d q = Some w"
      and "iq_worker iq = Some w"
      and "iq = (qstore d q)\<lparr>iq_pending := iq_pending (qstore d q) @ [it]\<rparr> \<or>
           iq = (qstore d q)\<lparr>iq_deferred := iq_deferred (qstore d q) @ [it]\<rparr>"
      and "enqueue env it d =
        (Inr \<lparr>ds_state = QueuedBehind, ds_incident = Some i, ds_completion = Some f\<rparr>, set_queue q iq d)"
  | (opened) "queues d i = None" and "se_start env \<noteq> CreateFails"
      and "fst (enqueue env it d) = (if se_start env = StartOk
             then Inr \<lparr>ds_state = Started, ds_incident = Some i, ds_completion = Some f\<rparr>
             else Inl RegistrationExn)"
      and "queues (snd (enqueue env it d)) = (queues d)(i \<mapsto> next_queue d)"
      and "next_queue (snd (enqueue env it d)) = Suc (next_queue d)"
      and "qstore (snd (enqueue env it d)) = (qstore d)(next_queue d :=
             \<lparr>iq_pending = [it], iq_deferred = [], iq_worker = Some (next_worker d)\<rparr>)"
      and "workers (snd (enqueue env it d)) =
             (workers d)(next_worker d := started_worker (se_start env) i (next_queue d))"
      and "next_worker (snd (enqueue env it d)) = Suc (next_worker d)"
      and "completions (snd (enqueue env it d)) = completions d" and "db (snd (enqueue env it d)) = db d"
      and "next_completion (snd (enqueue env it d)) = next_completion d"
  | (failed) "queues d i = None" and "se_start env = CreateFails"
      and "\<exists>e. fst (enqueue env it d) = Inl e"
      and "queues (snd (enqueue env it d)) = queues d"
      and "next_queue (snd (enqueue env it d)) = Suc (next_queue d)"
      and "qstore (snd (enqueue env it d)) = (qstore d)(next_queue d := empty_queue)"
      and "workers (snd (enqueue env it d)) = workers d"
      and "next_worker (snd (enqueue env it d)) = next_worker d"
      and "completions (snd (enqueue env it d)) = completions (settle f CCancelled d)"
      and "db (snd (enqueue env it d)) =
             snd (rollback_queued (se_rollback_fault env) (di_token it) (db d))"
      and "next_completion (snd (enqueue env it d)) = next_completion d"
proof (cases "queues d i")
  case (Some q)
  from inv have shape: "queue_shape d" by (simp add: disp_inv_def)
  from queue_shapeD(2) [OF shape Some] obtain w where w: "qworker d q = Some w" by blast
  let ?leaves = "wk_status (workers d w) = WDone \<or> wk_cancelling (workers d w)"
  let ?iq = "if ?leaves then (qstore d q)\<lparr>iq_deferred := iq_deferred (qstore d q) @ [it]\<rparr>
             else (qstore d q)\<lparr>iq_pending := iq_pending (qstore d q) @ [it]\<rparr>"
  show thesis
    by (rule appended [of q w ?iq])
      (use Some w in \<open>auto simp: enqueue_def Let_def qworker_def i_def f_def\<close>)
next
  case None
  show thesis
  proof (cases "se_start env = CreateFails")
    case True
    obtain r t where rb: "rollback_queued (se_rollback_fault env) (di_token it) (db d) = (r, t)"
      by fastforce
    from True None rb show thesis
      by (intro failed; cases r)
        (auto simp: enqueue_def Let_def start_worker_eq i_def f_def empty_queue_def fun_eq_iff
          settle_completions)
  next
    case False
    with None show thesis
      by (intro opened)
        (auto simp: enqueue_def Let_def start_worker_eq i_def f_def empty_queue_def fun_eq_iff)
  qed
qed

lemma enqueue_inv:
  assumes inv: "disp_inv d" shows "disp_inv (snd (enqueue env it d))"
  using inv
proof (cases rule: enqueue_cases [of d it env])
  case (appended q w iq)
  then show ?thesis using inv by (simp add: queue_gains_item_inv)
next
  case opened
  then show ?thesis
    by (intro open_queue_inv [OF inv opened(1)]) (auto simp: qworker_def)
next
  case failed
  have "qworker d (next_queue d) = None"
    using inv queue_shapeD(6) [of d "next_queue d"] by (cases "qworker d (next_queue d)") (auto simp: disp_inv_def)
  then show ?thesis using inv failed
    by (intro more_queues_inv [OF inv]) (auto simp: qworker_def empty_queue_def)
qed

lemma disp_inv_completions [simp]:
  "disp_inv (d\<lparr>completions := c, next_completion := n\<rparr>) = disp_inv d"
  by (rule same_core) (simp_all add: qworker_def)

lemma submit_inv:
  assumes inv: "disp_inv d" shows "disp_inv (snd (submit env ab batch d))"
  using inv
  by (auto simp: submit_def Let_def enqueue_inv split: prod.split sum.split)

lemma disp_inv_step: "disp_inv d \<Longrightarrow> disp_inv (dispatch_step d e)"
  by (cases e) (simp_all add: submit_inv worker_resume_inv worker_cancel_inv done_callback_inv)

section \<open>No accepted completion is orphaned\<close>

definition queue_held :: "dispatcher \<Rightarrow> nat \<Rightarrow> bool" where
  "queue_held d f \<longleftrightarrow>
     (\<exists>i q. queues d i = Some q \<and>
        f \<in> di_completion ` set (iq_pending (qstore d q) @ iq_deferred (qstore d q)))"

definition awaited_but :: "nat option \<Rightarrow> dispatcher \<Rightarrow> nat \<Rightarrow> bool" where
  "awaited_but w0 d f \<longleftrightarrow>
     (\<exists>w it. w0 \<noteq> Some w \<and> wk_status (workers d w) = WAwaiting it \<and> di_completion it = f)"

text \<open>
  A completion is settled, or its item is on its incident's queue or being handled (by a worker other
  than \<open>w0\<close>).
\<close>

definition served_but :: "nat option \<Rightarrow> nat \<Rightarrow> dispatcher \<Rightarrow> bool" where
  "served_but w0 f d \<longleftrightarrow>
     f < next_completion d \<and> (completions d f = CPending \<longrightarrow> queue_held d f \<or> awaited_but w0 d f)"

abbreviation served :: "nat \<Rightarrow> dispatcher \<Rightarrow> bool" where
  "served \<equiv> served_but None"

lemma served_weaken: "served_but (Some w) f d \<Longrightarrow> served f d"
  by (auto simp: served_but_def awaited_but_def)

lemma served_not_awaiting:
  assumes "served f d"
    and "\<And>it. wk_status (workers d w) = WAwaiting it \<Longrightarrow> completions d (di_completion it) \<noteq> CPending"
  shows "served_but (Some w) f d"
proof -
  have "awaited_but (Some w) d f" if "awaited_but None d f" "completions d f = CPending"
  proof -
    from that(1) obtain v it where v: "wk_status (workers d v) = WAwaiting it" "di_completion it = f"
      by (auto simp: awaited_but_def)
    with assms(2) that(2) have "v \<noteq> w" by auto
    with v show ?thesis by (auto simp: awaited_but_def)
  qed
  with assms(1) show ?thesis by (auto simp: served_but_def)
qed

lemma served_settle:
  assumes "served_but w f d" and "v \<noteq> CPending" shows "served_but w f (settle g v d)"
  using assms by (auto simp: served_but_def queue_held_def awaited_but_def settle_completions)

lemma queue_held_kept:
  assumes "queue_held d f" and "queues d' = queues d"
    and "\<And>i q. queues d i = Some q \<Longrightarrow>
          f \<in> di_completion ` set (iq_pending (qstore d q) @ iq_deferred (qstore d q)) \<Longrightarrow>
          f \<in> di_completion ` set (iq_pending (qstore d' q) @ iq_deferred (qstore d' q))"
  shows "queue_held d' f"
  using assms unfolding queue_held_def by metis

lemma awaited_kept:
  assumes "awaited_but (Some w) d f" and inv: "disp_inv_but w d"
    and "\<And>v. v < next_worker d \<Longrightarrow> workers d' v = workers d v"
  shows "awaited_but (Some w) d' f"
proof -
  from assms(1) obtain v it where v: "w \<noteq> v" "wk_status (workers d v) = WAwaiting it" "di_completion it = f"
    by (auto simp: awaited_but_def)
  with inv have "v < next_worker d" by (auto simp: disp_inv_but_def awaits_ok_def)
  with v assms(3) show ?thesis by (auto simp: awaited_but_def)
qed

lemma finish_worker_served:
  assumes inv: "disp_inv_but w d" and served: "served_but (Some w) f d"
  shows "served_but (Some w) f (finish_worker env w d)" (is "served_but _ f ?d")
proof (cases rule: finish_worker_cases [of env w d])
  case unchanged
  with served show ?thesis by simp
next
  case detached
  from inv have shape: "queue_shape d" by (simp add: disp_inv_but_def)
  have none: "queues d j \<noteq> Some (wk_queue (workers d w))" for j
    using queue_owner_unique [OF shape, of j _ w] detached(1,2) by auto
  have "queue_held ?d f" if "queue_held d f"
    using that by (rule queue_held_kept) (use none in \<open>auto simp: detached(3)\<close>)
  moreover have "awaited_but (Some w) ?d f = awaited_but (Some w) d f"
    by (simp add: detached(3) awaited_but_def)
  ultimately show ?thesis using served
    by (auto simp: served_but_def detached(3) settle_all_completions split: if_splits)
next
  case restarted
  let ?q = "wk_queue (workers d w)"
  have "queue_held ?d f" if "queue_held d f" "completions ?d f = CPending"
  proof -
    from that(2) have "f \<notin> di_completion ` set (iq_pending (qstore d ?q))"
      by (auto simp: restarted settle_all_completions split: if_splits)
    then show ?thesis by (intro queue_held_kept [OF that(1)]) (auto simp: restarted)
  qed
  moreover have "awaited_but (Some w) ?d f" if "awaited_but (Some w) d f"
    using that inv by (rule awaited_kept) (simp add: restarted)
  ultimately show ?thesis using served
    by (auto simp: served_but_def restarted settle_all_completions split: if_splits)
next
  case (released b)
  let ?q = "wk_queue (workers d w)" and ?i = "wk_incident (workers d w)"
  from inv have shape: "queue_shape d" by (simp add: disp_inv_but_def)
  have "queue_held ?d f" if "queue_held d f" "completions ?d f = CPending"
  proof -
    from that(1) obtain j p where p: "queues d j = Some p"
      "f \<in> di_completion ` set (iq_pending (qstore d p) @ iq_deferred (qstore d p))"
      by (auto simp: queue_held_def)
    with that(2) released(9) have "p \<noteq> ?q" by blast
    moreover from this p(1) released(2) have "j \<noteq> ?i" by auto
    ultimately show ?thesis using p by (auto simp: queue_held_def released)
  qed
  moreover have "awaited_but (Some w) ?d f" if "awaited_but (Some w) d f"
    using that inv by (rule awaited_kept) (simp add: released)
  ultimately show ?thesis using served released(9)
    by (auto simp: served_but_def released(8))
qed

lemma end_worker_served:
  assumes "disp_inv_but w d" and "served_but (Some w) f d"
  shows "served f (end_worker env w d)"
proof -
  have "served_but (Some w) f (finish_worker env w d)"
    using assms by (rule finish_worker_served)
  then have "served_but (Some w) f (end_worker env w d)"
    by (auto simp: served_but_def end_worker_def Let_def queue_held_def awaited_but_def)
  then show ?thesis by (rule served_weaken)
qed

lemma drain_items_completions:
  assumes "drain_items fault items d = (r, d')" and "completions d' f = CPending"
  shows "completions d f = CPending \<and>
    (f \<in> di_completion ` set items \<longrightarrow>
       (case r of None \<Rightarrow> False | Some (it, rest) \<Rightarrow> f \<in> di_completion ` set (it # rest)))"
  using assms
proof (induction fault items d arbitrary: r rule: drain_items.induct)
  case (2 fault it rest d)
  obtain m t where mark: "mark_attempted (fault (di_token it)) (di_token it) (di_keys it) (db d) = (m, t)"
    by fastforce
  show ?case
  proof (cases m)
    case (Inl e)
    with 2(1) [OF mark [symmetric] Inl] 2(2,3) mark show ?thesis
      by (auto simp: settle_completions split: if_splits option.splits)
  next
    case (Inr u)
    with 2(2,3) mark show ?thesis by auto
  qed
qed simp

lemma drain_served:
  assumes inv: "disp_inv d" and served: "served_but (Some w) f d"
  shows "served f (snd (drain env fault w d))"
proof (cases "queues d (wk_incident (workers d w)) = Some (wk_queue (workers d w))")
  case False
  then show ?thesis using end_worker_served [OF disp_inv_but_intro [OF inv] served]
    by (simp add: drain_def Let_def)
next
  case True
  let ?q = "wk_queue (workers d w)" and ?i = "wk_incident (workers d w)"
  obtain r d1 where items: "drain_items fault (iq_pending (qstore d ?q)) d = (r, d1)" by fastforce
  note frame = drain_items_frame [OF items] and pend = drain_items_completions [OF items]
  show ?thesis
  proof (cases r)
    case None
    let ?d = "set_queue ?q ((qstore d1 ?q)\<lparr>iq_pending := []\<rparr>) d1"
    have "disp_inv ?d"
      by (subst same_core(4) [of _ d]) (use inv in \<open>auto simp: frame qworker_def\<close>)
    moreover have "served_but (Some w) f ?d"
      unfolding served_but_def
    proof (intro conjI impI)
      assume c: "completions ?d f = CPending"
      with pend None have "completions d f = CPending" and notq: "f \<notin> di_completion ` set (iq_pending (qstore d ?q))"
        by auto
      with served have "queue_held d f \<or> awaited_but (Some w) d f" by (simp add: served_but_def)
      moreover have "queue_held ?d f" if "queue_held d f"
        using that by (rule queue_held_kept) (use notq in \<open>auto simp: frame\<close>)
      moreover have "awaited_but (Some w) ?d f = awaited_but (Some w) d f"
        by (simp add: awaited_but_def frame)
      ultimately show "queue_held ?d f \<or> awaited_but (Some w) ?d f" by blast
    qed (use served in \<open>simp add: served_but_def frame\<close>)
    ultimately show ?thesis using None True items
      by (simp add: drain_def Let_def end_worker_served disp_inv_but_intro)
  next
    case (Some p)
    obtain it rest where p: "p = (it, rest)" by (cases p)
    let ?d = "snd (drain env fault w d)"
    have d': "?d = set_worker w ((workers d w)\<lparr>wk_status := WAwaiting it\<rparr>)
        (set_queue ?q ((qstore d1 ?q)\<lparr>iq_pending := rest\<rparr>) d1)"
      using Some True items by (simp add: drain_def Let_def p)
    show ?thesis unfolding served_but_def
    proof (intro conjI impI)
      assume "completions ?d f = CPending"
      then have "completions d1 f = CPending" by (simp add: d')
      with pend Some p have c: "completions d f = CPending"
        and left: "f \<in> di_completion ` set (iq_pending (qstore d ?q)) \<longrightarrow> f \<in> di_completion ` set (it # rest)"
        by auto
      have here: "awaited_but None ?d f" if "f = di_completion it"
        using that by (auto simp: awaited_but_def d' intro!: exI [of _ w])
      from c served have "queue_held d f \<or> awaited_but (Some w) d f" by (simp add: served_but_def)
      then show "queue_held ?d f \<or> awaited_but None ?d f"
      proof
        assume "queue_held d f"
        then obtain j q where q: "queues d j = Some q"
          "f \<in> di_completion ` set (iq_pending (qstore d q) @ iq_deferred (qstore d q))"
          by (auto simp: queue_held_def)
        show ?thesis
        proof (cases "f = di_completion it")
          case False
          have "f \<in> di_completion ` set (iq_pending (qstore ?d q) @ iq_deferred (qstore ?d q))"
            using q(2) left False by (auto simp: d' frame)
          moreover have "queues ?d j = Some q" using q(1) by (simp add: d' frame)
          ultimately show ?thesis unfolding queue_held_def by blast
        qed (use here in blast)
      next
        assume "awaited_but (Some w) d f"
        then have "awaited_but None ?d f" by (auto simp: awaited_but_def d' frame)
        then show ?thesis ..
      qed
    qed (use served in \<open>simp add: served_but_def d' frame\<close>)
  qed
qed

lemma worker_resume_served:
  assumes inv: "disp_inv d" and served: "served f d"
  shows "served f (snd (worker_resume env fault w outcome d))"
proof (cases "wk_status (workers d w)")
  case WNew
  have but: "served_but (Some w) f d"
    by (rule served_not_awaiting [OF served]) (simp add: WNew)
  have "served f (set_worker w ((workers d w)\<lparr>wk_status := WDone\<rparr>) d)"
  proof -
    have "awaited_but None (set_worker w ((workers d w)\<lparr>wk_status := WDone\<rparr>) d) f"
      if "awaited_but (Some w) d f" using that by (auto simp: awaited_but_def)
    with but show ?thesis by (auto simp: served_but_def queue_held_def)
  qed
  with WNew drain_served [OF inv but] show ?thesis by (simp add: worker_resume_def)
next
  case (WAwaiting it)
  have but: "served_but (Some w) f (settle (di_completion it) v d)" if "v \<noteq> CPending" for v
    by (rule served_not_awaiting)
      (use served that WAwaiting in \<open>simp_all add: served_settle settle_completions\<close>)
  show ?thesis
  proof (cases outcome)
    case Interrupted
    with WAwaiting but [of CCancelled] inv show ?thesis
      by (simp add: worker_resume_def end_worker_served disp_inv_but_intro)
  qed (use WAwaiting but inv in \<open>simp_all add: worker_resume_def drain_served\<close>)
next
  case WDone
  with served show ?thesis by (simp add: worker_resume_def)
qed

lemma done_callback_served:
  assumes inv: "disp_inv d" and served: "served f d"
  shows "served f (done_callback env w d)"
proof (cases "wk_status (workers d w) = WDone \<and> wk_callback (workers d w) = Outstanding")
  case True
  let ?d = "set_worker w ((workers d w)\<lparr>wk_callback := Ran\<rparr>) d"
  have ran: "wk_callback (workers ?d v) = Ran \<Longrightarrow> wk_status (workers ?d v) = WDone" for v
    using inv True queue_shapeD(5) [of d v] by (auto simp: disp_inv_def split: if_splits)
  have but: "disp_inv_but w ?d" unfolding disp_inv_but_def
    by (intro conjI allI impI; rule worker_change [of ?d d])
      (use inv ran in \<open>auto simp: disp_inv_def qworker_def\<close>)
  have "served_but (Some w) f d"
    by (rule served_not_awaiting [OF served]) (use True in simp)
  moreover have "awaited_but (Some w) ?d f = awaited_but (Some w) d f" by (auto simp: awaited_but_def)
  ultimately have "served_but (Some w) f ?d" by (simp add: served_but_def queue_held_def)
  with but have "served_but (Some w) f (finish_worker env w ?d)" by (rule finish_worker_served)
  with True show ?thesis by (simp add: done_callback_def served_weaken)
qed (use served in \<open>auto simp: done_callback_def\<close>)

lemma worker_cancel_served: "served f d \<Longrightarrow> served f (worker_cancel w d)"
proof -
  assume served: "served f d"
  let ?d = "set_worker w ((workers d w)\<lparr>wk_cancelling := True\<rparr>) d"
  have "wk_status (workers ?d v) = wk_status (workers d v)" for v by simp
  then have "awaited_but None ?d f = awaited_but None d f" unfolding awaited_but_def by simp
  with served show ?thesis by (simp add: worker_cancel_def served_but_def queue_held_def)
qed

lemma enqueue_served:
  assumes inv: "disp_inv d" and served: "served f d"
  shows "served f (snd (enqueue env it d))"
  using inv
proof (cases rule: enqueue_cases [of d it env])
  case (appended q w iq)
  have "queue_held (set_queue q iq d) f" if "queue_held d f"
    using that by (rule queue_held_kept) (use appended(4) in auto)
  moreover have "awaited_but None (set_queue q iq d) f = awaited_but None d f"
    by (simp add: awaited_but_def)
  ultimately show ?thesis using served by (auto simp: appended(5) served_but_def)
next
  case opened
  let ?d = "snd (enqueue env it d)"
  have q: "q < next_queue d" if "queues d i = Some q" for i q
    using inv that queue_shapeD(1) [of d] by (simp add: disp_inv_def)
  have "queue_held ?d f" if "queue_held d f"
  proof -
    from that obtain j p where p: "queues d j = Some p"
      "f \<in> di_completion ` set (iq_pending (qstore d p) @ iq_deferred (qstore d p))"
      by (auto simp: queue_held_def)
    with q have "p \<noteq> next_queue d" by blast
    moreover from p(1) opened(1) have "j \<noteq> di_incident it" by auto
    ultimately show ?thesis using p by (auto simp: queue_held_def opened intro!: exI [of _ j])
  qed
  moreover have "awaited_but None ?d f" if "awaited_but None d f"
  proof -
    from that obtain v it' where v: "wk_status (workers d v) = WAwaiting it'" "di_completion it' = f"
      by (auto simp: awaited_but_def)
    with inv have "v < next_worker d" by (auto simp: disp_inv_def awaits_ok_def)
    with v show ?thesis by (auto simp: awaited_but_def opened intro!: exI [of _ v])
  qed
  ultimately show ?thesis using served by (auto simp: served_but_def opened)
next
  case failed
  let ?d = "snd (enqueue env it d)"
  have q: "q \<noteq> next_queue d" if "queues d i = Some q" for i q
    using inv that queue_shapeD(1) [of d] by (auto simp: disp_inv_def)
  have "queue_held ?d f" if "queue_held d f"
    using that by (rule queue_held_kept) (use q in \<open>auto simp: failed\<close>)
  moreover have "awaited_but None ?d f = awaited_but None d f" by (simp add: awaited_but_def failed)
  ultimately show ?thesis using served
    by (auto simp: served_but_def failed settle_completions split: if_splits)
qed

lemma served_db [simp]: "served_but w f (d\<lparr>db := t\<rparr>) = served_but w f d"
  by (simp add: served_but_def queue_held_def awaited_but_def)

lemma submit_served:
  assumes inv: "disp_inv d" and served: "served f d"
  shows "served f (snd (submit env ab batch d))"
proof -
  let ?d = "d\<lparr>completions := (completions d)(next_completion d := CPending),
              next_completion := Suc (next_completion d)\<rparr>"
  have "served f ?d" using served by (auto simp: served_but_def queue_held_def awaited_but_def)
  with inv served show ?thesis
    by (auto simp: submit_def Let_def served_settle enqueue_served split: prod.split sum.split)
qed

lemma served_step:
  "disp_inv d \<Longrightarrow> served f d \<Longrightarrow> served f (dispatch_step d e)"
  by (cases e)
    (simp_all add: submit_served worker_resume_served worker_cancel_served done_callback_served)

interpretation dispatching: latched_machine dispatch_step disp_inv "served f" "\<lambda>_. False" for f :: nat
  by unfold_locales (auto intro: disp_inv_step served_step)

text \<open>A submission that returns a completion has put its item on a queue.\<close>

lemma enqueue_accepts:
  assumes inv: "disp_inv d" and "enqueue env it d = (Inr s, d')" and "ds_completion s = Some f"
    and "f < next_completion d" and "di_completion it = f"
  shows "served f d'"
  using inv
proof (cases rule: enqueue_cases [of d it env])
  case (appended q w iq)
  then have "queue_held d' f" using assms(2,5) by (auto simp: queue_held_def intro!: exI [of _ "di_incident it"])
  then show ?thesis using appended assms(2,4) by (auto simp: served_but_def)
next
  case opened
  then have "queue_held d' f" using assms(2,5) by (auto simp: queue_held_def intro!: exI [of _ "di_incident it"])
  then show ?thesis using opened assms(2,4) by (auto simp: served_but_def)
next
  case failed
  then show ?thesis using assms(2) by auto
qed

lemma submit_accepts:
  assumes inv: "disp_inv d" and sub: "submit env ab batch d = (Inr s, d')" and f: "ds_completion s = Some f"
  shows "served f d'"
proof -
  let ?keys = "first_occurrences (map occurrence_key (occurrence_refs batch))"
  let ?d = "d\<lparr>completions := (completions d)(next_completion d := CPending),
              next_completion := Suc (next_completion d)\<rparr>"
  obtain m t where adm: "admit (se_admit_fault env) (se_token env) (cb_incident_id batch) ?keys (db ?d) = (m, t)"
    by fastforce
  have keys: "?keys \<noteq> []" using sub f by (auto simp: submit_def)
  with sub adm obtain r where m: "m = Inr r" by (cases m) (simp_all add: submit_def Let_def)
  with sub adm keys f have ne: "ar_admitted r \<noteq> []" by (auto simp: submit_def Let_def)
  show ?thesis
  proof (cases "prepare env ab batch (ar_admitted r)")
    case (Inl e)
    with sub adm keys m ne show ?thesis
      by (auto simp: submit_def Let_def split: prod.splits sum.splits)
  next
    case (Inr p)
    obtain payload anchors execution where "p = (payload, anchors, execution)" by (cases p)
    with sub adm keys m ne Inr have enq: "enqueue env
        \<lparr>di_incident = cb_incident_id batch, di_token = se_token env, di_keys = ar_admitted r,
         di_payload = payload, di_anchors = anchors, di_execution = execution,
         di_completion = next_completion d\<rparr> (?d\<lparr>db := t\<rparr>) = (Inr s, d')" (is "enqueue env ?it ?d' = _")
      by (simp add: submit_def Let_def)
    have inv': "disp_inv ?d'" using inv by simp
    have "f = next_completion d"
      using inv' enq f by (cases rule: enqueue_cases [of ?d' ?it env]) (auto split: if_splits)
    then show ?thesis using enqueue_accepts [OF inv' enq f] by simp
  qed
qed

section \<open>The database over a step\<close>

lemma drain_items_attempts:
  assumes "drain_items fault items d = (r, d')"
  shows "attempted_row (db d) k \<Longrightarrow> attempted_row (db d') k"
    and "r = Some (it, rest) \<Longrightarrow> k \<in> set (di_keys it) \<Longrightarrow>
         \<not> attempted_row (db d) k \<and> attempted_row (db d') k"
proof -
  have "(attempted_row (db d) k \<longrightarrow> attempted_row (db d') k) \<and>
    (r = Some (it, rest) \<longrightarrow> k \<in> set (di_keys it) \<longrightarrow> \<not> attempted_row (db d) k \<and> attempted_row (db d') k)"
    using assms
  proof (induction fault items d arbitrary: r rule: drain_items.induct)
    case (1 fault d)
    then show ?case by simp
  next
    case (2 fault it' rest' d)
    let ?f = "fault (di_token it')" and ?tok = "di_token it'" and ?ks = "di_keys it'"
    obtain m t where mark: "mark_attempted ?f ?tok ?ks (db d) = (m, t)" by fastforce
    have keeps: "attempted_row (db d) k \<Longrightarrow> attempted_row t k"
      using admission.mark_keeps [of "db d" k ?f ?tok ?ks] mark by simp
    show ?case
    proof (cases m)
      case (Inl e)
      with 2(1) [OF mark [symmetric] Inl] 2(2) mark keeps show ?thesis by auto
    next
      case (Inr u)
      then have "k \<in> set ?ks \<Longrightarrow> \<not> attempted_row (db d) k \<and> attempted_row t k"
        using admission.mark_fresh [of ?f ?tok ?ks "db d" k] admission.mark_marks [of ?f ?tok ?ks "db d" k]
          mark by simp
      with Inr 2(2) mark keeps show ?thesis by auto
    qed
  qed
  then show "attempted_row (db d) k \<Longrightarrow> attempted_row (db d') k"
    and "r = Some (it, rest) \<Longrightarrow> k \<in> set (di_keys it) \<Longrightarrow>
         \<not> attempted_row (db d) k \<and> attempted_row (db d') k" by blast+
qed

lemma rollback_items_attempted [simp]:
  "attempted_row (db (rollback_items fault items d)) k = attempted_row (db d) k"
  unfolding rollback_items_def
  by (induction items arbitrary: d) (simp_all add: admission.rollback_keeps)

lemma restart_deferred_attempted [simp]:
  "attempted_row (db (restart_deferred env i q d)) k = attempted_row (db d) k"
  by (cases "fe_start env") (simp_all add: restart_deferred_def start_worker_eq Let_def)

lemma finish_worker_attempted [simp]:
  "attempted_row (db (finish_worker env w d)) k = attempted_row (db d) k"
  by (simp add: finish_worker_def Let_def)

lemma end_worker_attempted [simp]:
  "attempted_row (db (end_worker env w d)) k = attempted_row (db d) k"
  by (simp add: end_worker_def Let_def)

lemma drain_keeps_attempted:
  "drain env fault w d = (r, d') \<Longrightarrow> attempted_row (db d) k \<Longrightarrow> attempted_row (db d') k"
  by (auto simp: drain_def Let_def drain_items_attempts(1)
      split: if_splits prod.splits option.splits)

lemma drain_invokes_fresh:
  "drain env fault w d = (Some it, d') \<Longrightarrow> k \<in> set (di_keys it) \<Longrightarrow>
   \<not> attempted_row (db d) k \<and> attempted_row (db d') k"
  by (auto simp: drain_def Let_def dest: drain_items_attempts(2) [OF _ refl]
      split: if_splits prod.splits option.splits)

lemma worker_resume_keeps_attempted:
  "worker_resume env fault w outcome d = (r, d') \<Longrightarrow> attempted_row (db d) k \<Longrightarrow> attempted_row (db d') k"
  by (auto simp: worker_resume_def dest: drain_keeps_attempted
      split: worker_status.splits handler_outcome.splits if_splits)

lemma worker_resume_invokes_fresh:
  "worker_resume env fault w outcome d = (Some it, d') \<Longrightarrow> k \<in> set (di_keys it) \<Longrightarrow>
   \<not> attempted_row (db d) k \<and> attempted_row (db d') k"
  by (auto simp: worker_resume_def dest: drain_invokes_fresh
      split: worker_status.splits handler_outcome.splits if_splits)

lemma rollback_queued_attempted:
  "rollback_queued fault tok t = (r, t') \<Longrightarrow> attempted_row t' k = attempted_row t k"
  using admission.rollback_keeps [of fault tok t k] by simp

lemma enqueue_attempted:
  assumes inv: "disp_inv d"
  shows "attempted_row (db (snd (enqueue env it d))) k = attempted_row (db d) k"
  using inv
proof (cases rule: enqueue_cases [of d it env])
  case failed
  then show ?thesis by (simp add: admission.rollback_keeps)
qed simp_all

lemma submit_attempted:
  assumes inv: "disp_inv d"
  shows "attempted_row (db (snd (submit env ab batch d))) k = attempted_row (db d) k"
proof -
  let ?keys = "first_occurrences (map occurrence_key (occurrence_refs batch))"
  let ?d = "d\<lparr>completions := (completions d)(next_completion d := CPending),
              next_completion := Suc (next_completion d)\<rparr>"
  obtain m t where adm: "admit (se_admit_fault env) (se_token env) (cb_incident_id batch) ?keys (db d) = (m, t)"
    by fastforce
  then have t: "attempted_row t k = attempted_row (db d) k"
    using admission.admit_keeps [of "se_admit_fault env" "se_token env" "cb_incident_id batch" ?keys "db d" k]
    by simp
  obtain r' t' where rb: "rollback_queued (se_rollback_fault env) (se_token env) t = (r', t')" by fastforce
  then have t': "attempted_row t' k = attempted_row t k" by (rule rollback_queued_attempted)
  have inv': "disp_inv (?d\<lparr>db := t\<rparr>)" using inv by simp
  show ?thesis
  proof (cases m)
    case (Inl e)
    with adm t show ?thesis by (simp add: submit_def Let_def)
  next
    case (Inr r)
    show ?thesis
    proof (cases "prepare env ab batch (ar_admitted r)")
      case prep: (Inl e)
      with adm Inr t t' rb show ?thesis by (cases r') (simp_all add: submit_def Let_def)
    next
      case prep: (Inr p)
      with adm Inr t enqueue_attempted [OF inv', of env _ k] show ?thesis
        by (cases p) (simp add: submit_def Let_def)
    qed
  qed
qed

text \<open>An event invokes the handler for an occurrence.\<close>

definition handles :: "dispatcher \<Rightarrow> dispatch_event \<Rightarrow> string \<Rightarrow> bool" where
  "handles d e k \<longleftrightarrow> (case invocation d e of None \<Rightarrow> False | Some it \<Rightarrow> k \<in> set (di_keys it))"

lemma handles_attempts:
  assumes "handles d e k"
  shows "\<not> attempted_row (db d) k \<and> attempted_row (db (dispatch_step d e)) k"
proof (cases e)
  case (Resume env fault w outcome)
  with assms obtain it d' where "worker_resume env fault w outcome d = (Some it, d')" "k \<in> set (di_keys it)"
    by (cases "worker_resume env fault w outcome d") (auto simp: handles_def split: option.splits)
  with Resume show ?thesis using worker_resume_invokes_fresh by simp
qed (use assms in \<open>auto simp: handles_def\<close>)

lemma attempted_kept:
  assumes "disp_inv d" and "attempted_row (db d) k"
  shows "attempted_row (db (dispatch_step d e)) k"
proof (cases e)
  case (Submit env ab batch)
  with assms show ?thesis by (simp add: submit_attempted)
next
  case (Resume env fault w outcome)
  with assms show ?thesis
    using worker_resume_keeps_attempted by (cases "worker_resume env fault w outcome d") auto
next
  case (CancelWorker w)
  with assms show ?thesis by (simp add: worker_cancel_def)
next
  case (DoneCallback env w)
  with assms show ?thesis by (simp add: done_callback_def)
qed

interpretation handling: at_most_once dispatch_step disp_inv handles "\<lambda>d. attempted_row (db d)"
  by unfold_locales (auto intro: disp_inv_step attempted_kept dest: handles_attempts)

lemma awaiting_unique:
  assumes "disp_inv d" and "wk_status (workers d v) = WAwaiting it"
    and "wk_status (workers d w) = WAwaiting it'" and "wk_incident (workers d v) = wk_incident (workers d w)"
  shows "v = w"
proof -
  from assms(1) have "awaits_ok d v" "awaits_ok d w" by (simp_all add: disp_inv_def)
  with assms(2-4) show ?thesis by (auto simp: awaits_ok_def)
qed

section \<open>Properties\<close>

text \<open>
  C8. However deliveries, cancellations, handler failures, database faults and task failures
  interleave, and whatever rows earlier processes left in the database, the incident handler is
  invoked at most once for an occurrence, and never for one that was attempted before.
\<close>

theorem occurrence_handled_at_most_once:
  "firings dispatch_step handles (new_dispatcher t) es k \<le> (if attempted_row t k then 0 else 1)"
  using handling.firings_le_1 [of "new_dispatcher t" es k]
    handling.spent_never_fires [of "new_dispatcher t" k es]
  by (simp add: new_dispatcher_def [of t, THEN arg_cong, of db])

text \<open>
  C30. Two handlers of one incident never run at the same time: of an incident, at most one worker is
  inside the handler.
\<close>

theorem handlers_of_incident_serial:
  "\<exists>v. {w. wk_incident (workers (run dispatch_step (new_dispatcher t) es) w) = i \<and>
           (\<exists>it. wk_status (workers (run dispatch_step (new_dispatcher t) es) w) = WAwaiting it)} \<subseteq> {v}"
proof -
  let ?d = "run dispatch_step (new_dispatcher t) es"
  have "disp_inv ?d" by (rule dispatching.inv_run) simp
  from awaiting_unique [OF this] show ?thesis by blast
qed

text \<open>
  A batch of one occurrence, admitted and started at once, then handled.
\<close>

definition sample_batch :: candidate_batch where
  "sample_batch =
     \<lparr>cb_incident_id = ''inc'', is_new_incident = True, original_payload = [],
      occurrence_refs = [\<lparr>occurrence_key = ''occ'', alert_index = None\<rparr>]\<rparr>"

definition sample_env :: submit_env where
  "sample_env =
     \<lparr>se_token = ''tok'', se_admit_fault = False, se_rollback_fault = False, se_operational = False,
      se_execution = '''', se_journal_ok = True, se_start = StartOk\<rparr>"

definition sample_resume :: dispatch_event where
  "sample_resume =
     Resume \<lparr>fe_start = StartOk, fe_rollback_fault = (\<lambda>_. False)\<rparr> (\<lambda>_. False) 0 (Completed PNone)"

section \<open>The payload of a handler\<close>

lemma distinct_map_of_index:
  assumes "distinct (map occurrence_key refs)"
    and "\<forall>r \<in> set refs. \<exists>n d. alert_index r = Some n \<and> n < length items \<and> items ! n = PDict d \<and>
           occurrence_key r = key d"
  shows "\<exists>ds. map (\<lambda>n. items ! n) (filter (\<lambda>n. n < length items)
             (sorted_list_of_set (set (List.map_filter
                (\<lambda>r. if P (occurrence_key r) then alert_index r else None) refs)))) = map PDict ds \<and>
           set (map key ds) = {occurrence_key r | r. r \<in> set refs \<and> P (occurrence_key r)} \<and>
           distinct (map key ds)"
proof -
  let ?N = "set (List.map_filter (\<lambda>r. if P (occurrence_key r) then alert_index r else None) refs)"
  have N: "n \<in> ?N \<longleftrightarrow> (\<exists>r \<in> set refs. P (occurrence_key r) \<and> alert_index r = Some n)" for n
    by (auto simp: List.map_filter_def image_iff split: if_splits)
  define object where "object = (\<lambda>n. as_dict (items ! n))"
  have at: "n < length items \<and> items ! n = PDict (object n)" if "n \<in> ?N" for n
    using that assms(2) unfolding N by (fastforce simp: object_def)
  let ?ns = "sorted_list_of_set ?N"
  have set: "set ?ns = ?N" by simp
  have filt: "filter (\<lambda>n. n < length items) ?ns = ?ns" using at by (simp add: filter_id_conv set)
  have "map (\<lambda>n. items ! n) ?ns = map PDict (map object ?ns)" using at by (simp add: set)
  moreover have keys: "key (object n) = occurrence_key r"
    if "r \<in> set refs" "alert_index r = Some n" for r n
    using that assms(2) by (fastforce simp: object_def)
  have "set (map key (map object ?ns)) = {occurrence_key r | r. r \<in> set refs \<and> P (occurrence_key r)}"
  proof -
    have "(key \<circ> object) ` ?N = {occurrence_key r | r. r \<in> set refs \<and> P (occurrence_key r)}"
    proof (intro set_eqI iffI)
      fix k assume "k \<in> (key \<circ> object) ` ?N"
      then obtain n r where "r \<in> set refs" "P (occurrence_key r)" "alert_index r = Some n" "k = key (object n)"
        using N by auto
      then show "k \<in> {occurrence_key r | r. r \<in> set refs \<and> P (occurrence_key r)}" using keys by auto
    next
      fix k assume "k \<in> {occurrence_key r | r. r \<in> set refs \<and> P (occurrence_key r)}"
      then obtain r where r: "r \<in> set refs" "P (occurrence_key r)" "k = occurrence_key r" by blast
      with assms(2) obtain n where "alert_index r = Some n" by blast
      with r N keys show "k \<in> (key \<circ> object) ` ?N" by (auto simp: image_iff) metis
    qed
    then show ?thesis by (simp add: image_comp)
  qed
  moreover have "inj_on (key \<circ> object) ?N"
  proof (rule inj_onI)
    fix n m assume nm: "n \<in> ?N" "m \<in> ?N" "(key \<circ> object) n = (key \<circ> object) m"
    then obtain r s where "r \<in> set refs" "alert_index r = Some n" "s \<in> set refs" "alert_index s = Some m"
      using N by auto
    with nm(3) keys assms(1) have "r = s" by (auto simp: distinct_map dest: inj_onD)
    with \<open>alert_index r = Some n\<close> \<open>alert_index s = Some m\<close> show "n = m" by simp
  qed
  then have "distinct (map key (map object ?ns))" by (simp add: distinct_map comp_inj_on_iff)
  ultimately show ?thesis by (intro exI [of _ "map object ?ns"]) (simp add: filt)
qed

text \<open>
  When some of an envelope's alerts are new, the handler gets exactly the alerts of the newly
  admitted occurrences, one for each, and the rest of the envelope unchanged.
\<close>

theorem handler_gets_only_admitted_alerts:
  assumes "occurrence_refs batch = payload_occurrence_refs ff fmt sha (original_payload batch)"
    and "dget (original_payload batch) ''alerts'' = PList items" and "PDict a \<in> set items"
    and "admitted \<noteq> []" and "set admitted \<subseteq> set (map occurrence_key (occurrence_refs batch))"
  shows "\<exists>ds. dget (filtered_payload batch admitted) ''alerts'' = PList (map PDict ds) \<and>
      distinct (map (\<lambda>d. alert_occurrence_key ff fmt sha d (original_payload batch)) ds) \<and>
      set (map (\<lambda>d. alert_occurrence_key ff fmt sha d (original_payload batch)) ds) = set admitted \<and>
      (\<forall>k. k \<noteq> ''alerts'' \<longrightarrow>
         dget (filtered_payload batch admitted) k = dget (original_payload batch) k)"
proof -
  let ?payload = "original_payload batch" and ?refs = "occurrence_refs batch"
  let ?key = "\<lambda>d. alert_occurrence_key ff fmt sha d ?payload"
  let ?loop = "occurrence_loop ?key 0 items []"
  have "?key a \<in> set (map occurrence_key ?loop)"
    by (subst occurrence_loop_key_iff) (use assms(3) in auto)
  then have "?loop \<noteq> []" by auto
  then have refs: "?refs = ?loop"
    using assms(1,2) by (simp add: payload_occurrence_refs_def Let_def)
  have index: "\<forall>r \<in> set ?refs. \<exists>n d. alert_index r = Some n \<and> n < length items \<and> items ! n = PDict d \<and>
      occurrence_key r = ?key d"
    unfolding refs using occurrence_loop_index [of _ ?key 0 items "[]"] by fastforce
  have dist: "distinct (map occurrence_key ?refs)" unfolding refs by (rule occurrence_loop_distinct)
  from distinct_map_of_index [OF dist index, of "\<lambda>k. k \<in> set admitted"]
  obtain ds where ds: "map (\<lambda>n. items ! n) (filter (\<lambda>n. n < length items) (admitted_indices batch admitted))
        = map PDict ds"
      "set (map ?key ds) = {occurrence_key r | r. r \<in> set ?refs \<and> occurrence_key r \<in> set admitted}"
      "distinct (map ?key ds)"
    unfolding admitted_indices_def by blast
  from ds(2) assms(5) have all: "set (map ?key ds) = set admitted" by auto
  with assms(4) have "ds \<noteq> []" by auto
  with ds(1) have "admitted_indices batch admitted \<noteq> []" by auto
  then have "filtered_payload batch admitted = AList.update ''alerts'' (PList (map PDict ds)) ?payload"
    using ds(1) assms(2) by (simp add: filtered_payload_def Let_def)
  with ds(3) all show ?thesis by (intro exI [of _ ds]) simp
qed

text \<open>An envelope of two alerts, the first of which was admitted before.\<close>

definition two_alerts :: pydict where
  "two_alerts = [(''alerts'', PList [PDict [(''fingerprint'', PStr ''a'')], PDict [(''fingerprint'', PStr ''b'')]])]"

theorem handler_gets_only_admitted_alerts_witness:
  "\<exists>ds. dget (filtered_payload
       \<lparr>cb_incident_id = ''inc'', is_new_incident = False, original_payload = two_alerts,
        occurrence_refs = payload_occurrence_refs (\<lambda>_. '''') (\<lambda>_. '''') (\<lambda>s. s) two_alerts\<rparr>
       [alert_occurrence_key (\<lambda>_. '''') (\<lambda>_. '''') (\<lambda>s. s) [(''fingerprint'', PStr ''b'')] two_alerts])
     ''alerts'' = PList (map PDict ds) \<and> length ds = 1"
proof -
  let ?refs = "payload_occurrence_refs (\<lambda>_. '''') (\<lambda>_. '''') (\<lambda>s. s) two_alerts"
  let ?batch = "\<lparr>cb_incident_id = ''inc'', is_new_incident = False, original_payload = two_alerts,
        occurrence_refs = ?refs\<rparr>"
  let ?key = "alert_occurrence_key (\<lambda>_. '''') (\<lambda>_. '''') (\<lambda>s. s) [(''fingerprint'', PStr ''b'')] two_alerts"
  have mem: "set [?key] \<subseteq> set (map occurrence_key (occurrence_refs ?batch))"
    using refs_cover [of two_alerts _ "[(''fingerprint'', PStr ''b'')]" "\<lambda>_. ''''" "\<lambda>_. ''''" "\<lambda>s. s"]
    by (simp add: two_alerts_def)
  from handler_gets_only_admitted_alerts [of ?batch "\<lambda>_. ''''" "\<lambda>_. ''''" "\<lambda>s. s"
      "[PDict [(''fingerprint'', PStr ''a'')], PDict [(''fingerprint'', PStr ''b'')]]"
      "[(''fingerprint'', PStr ''b'')]" "[?key]"] mem
  obtain ds where ds: "dget (filtered_payload ?batch [?key]) ''alerts'' = PList (map PDict ds)"
      "distinct (map (\<lambda>d. alert_occurrence_key (\<lambda>_. '''') (\<lambda>_. '''') (\<lambda>s. s) d two_alerts) ds)"
      "set (map (\<lambda>d. alert_occurrence_key (\<lambda>_. '''') (\<lambda>_. '''') (\<lambda>s. s) d two_alerts) ds) = {?key}"
    by (auto simp: two_alerts_def)
  from distinct_card [OF ds(2)] ds(3) have "length ds = 1" by simp
  with ds(1) show ?thesis by blast
qed

end
