(* ===== verification/DispatchLiveness.thy ===== *)
theory DispatchLiveness
  imports Dispatch
begin

text \<open>
  Nothing that \<open>submit\<close> of \<open>agents/incident_dispatch.py\<close> has accepted is lost: as long as the event loop
  registers done-callbacks, every accepted completion can be settled from every state, by letting
  handlers return and done-callbacks run.  A measure of an incident's queue goes down with each such
  event of its worker until the incident is released.
\<close>

section \<open>Registered callbacks\<close>

text \<open>The worker of every incident's queue (but \<open>w0\<close>) has a done-callback that is still to run.\<close>

definition registered_but :: "nat option \<Rightarrow> dispatcher \<Rightarrow> bool" where
  "registered_but w0 d \<longleftrightarrow>
     (\<forall>i q w. queues d i = Some q \<longrightarrow> qworker d q = Some w \<longrightarrow> w0 \<noteq> Some w \<longrightarrow>
        wk_callback (workers d w) = Outstanding)"

abbreviation registered :: "dispatcher \<Rightarrow> bool" where
  "registered \<equiv> registered_but None"

text \<open>The one way to lose a callback: a submission whose worker is created but not registered.\<close>

fun registers :: "dispatch_event \<Rightarrow> bool" where
  "registers (Submit env ab batch) \<longleftrightarrow> se_start env \<noteq> RegisterFails"
| "registers _ \<longleftrightarrow> True"

lemma registered_same:
  assumes "queues d' = queues d" and "\<And>q. qworker d' q = qworker d q"
    and "\<And>w. wk_callback (workers d' w) = wk_callback (workers d w)"
  shows "registered_but w0 d' = registered_but w0 d"
  by (simp add: registered_but_def assms)

lemma registered_weaken: "registered d \<Longrightarrow> registered_but w0 d"
  by (simp add: registered_but_def)

lemma finish_registered:
  assumes shape: "queue_shape d" and reg: "registered_but (Some w) d"
    and mine: "wk_status (workers d w) = WDone \<or> registered d"
  shows "registered (finish_worker env w d)"
proof (cases rule: finish_worker_cases [of env w d])
  case unchanged
  have "registered d"
  proof (cases "registered d")
    case False
    then have "qworker d (wk_queue (workers d w)) \<noteq> Some w" using mine unchanged(2) by blast
    then have "qworker d q \<noteq> Some w" for q using queue_shapeD(4) [OF shape, of q w] by blast
    with reg show ?thesis by (auto simp: registered_but_def)
  qed
  with unchanged(1) show ?thesis by simp
next
  case detached
  have "qworker (finish_worker env w d) p = (if p = wk_queue (workers d w) then None else qworker d p)" for p
    by (simp add: detached(3) qworker_def)
  with reg queue_shapeD(4) [OF shape, of _ w] show ?thesis
    unfolding registered_but_def by (auto simp: detached(3) split: if_splits)
next
  case restarted
  have qw: "qworker (finish_worker env w d) p =
      (if p = wk_queue (workers d w) then Some (next_worker d) else qworker d p)" for p
    by (simp add: restarted qworker_def)
  have "wk_callback (workers (finish_worker env w d) v) = Outstanding"
    if "queues d i = Some p" "qworker (finish_worker env w d) p = Some v" for i p v
  proof (cases "p = wk_queue (workers d w)")
    case True
    with that qw restarted(6) show ?thesis by (simp add: started_worker_def)
  next
    case False
    with that(2) qw have p: "qworker d p = Some v" by simp
    with False queue_shapeD(3,4) [OF shape p] have "v \<noteq> w" "v < next_worker d" by auto
    with reg that(1) p restarted(6) show ?thesis by (auto simp: registered_but_def)
  qed
  with restarted(4) show ?thesis by (simp add: registered_but_def)
next
  case (released b)
  have "wk_callback (workers (finish_worker env w d) v) = Outstanding"
    if q: "queues d i = Some p" "i \<noteq> wk_incident (workers d w)" and v: "qworker (finish_worker env w d) p = Some v" for i p v
  proof -
    have "p \<noteq> wk_queue (workers d w)"
      using queue_owner_unique [OF shape q(1)] released(1) q(2) by auto
    with v have p: "qworker d p = Some v" by (simp add: released qworker_def)
    with \<open>p \<noteq> wk_queue (workers d w)\<close> queue_shapeD(3,4) [OF shape p] have "v \<noteq> w" "v < next_worker d" by auto
    with reg q(1) p released(5) show ?thesis by (auto simp: registered_but_def)
  qed
  then show ?thesis by (auto simp: registered_but_def released(3) split: if_splits)
qed

lemma end_registered:
  assumes "queue_shape d" and "registered d"
  shows "registered (end_worker env w d)"
proof -
  have "registered (finish_worker env w d)"
    using assms by (intro finish_registered) (auto intro: registered_weaken)
  moreover have "registered (end_worker env w d) = registered (finish_worker env w d)"
    by (rule registered_same) (simp_all add: end_worker_def Let_def qworker_def)
  ultimately show ?thesis by simp
qed

lemma settle_registered [simp]: "registered_but w0 (settle f v d) = registered_but w0 d"
  by (rule registered_same) (simp_all add: qworker_def)

lemma drain_registered:
  assumes inv: "disp_inv d" and reg: "registered d"
  shows "registered (snd (drain env fault w d))"
proof (cases "queues d (wk_incident (workers d w)) = Some (wk_queue (workers d w))")
  case False
  with assms show ?thesis by (simp add: drain_def Let_def end_registered disp_inv_def)
next
  case True
  let ?q = "wk_queue (workers d w)"
  obtain r d1 where items: "drain_items fault (iq_pending (qstore d ?q)) d = (r, d1)" by fastforce
  note frame = drain_items_frame [OF items]
  show ?thesis
  proof (cases r)
    case None
    let ?d = "set_queue ?q ((qstore d1 ?q)\<lparr>iq_pending := []\<rparr>) d1"
    have "disp_inv ?d"
      by (subst same_core(4) [of _ d]) (use inv in \<open>auto simp: frame qworker_def\<close>)
    moreover have "registered ?d"
      by (subst registered_same [of _ d]) (use reg in \<open>auto simp: frame qworker_def\<close>)
    ultimately show ?thesis using None True items
      by (simp add: drain_def Let_def end_registered disp_inv_def)
  next
    case (Some p)
    obtain it rest where p: "p = (it, rest)" by (cases p)
    have "snd (drain env fault w d) = set_worker w ((workers d w)\<lparr>wk_status := WAwaiting it\<rparr>)
        (set_queue ?q ((qstore d1 ?q)\<lparr>iq_pending := rest\<rparr>) d1)"
      using Some True items by (simp add: drain_def Let_def p)
    then show ?thesis
      by (simp, subst registered_same [of _ d]) (use reg in \<open>auto simp: frame qworker_def\<close>)
  qed
qed

lemma resume_registered:
  assumes "disp_inv d" and "registered d"
  shows "registered (snd (worker_resume env fault w outcome d))"
proof (cases "wk_status (workers d w)")
  case WNew
  have "registered (set_worker w ((workers d w)\<lparr>wk_status := WDone\<rparr>) d)"
    by (subst registered_same [of _ d]) (use assms in \<open>auto simp: qworker_def\<close>)
  with WNew assms show ?thesis by (simp add: worker_resume_def drain_registered)
next
  case (WAwaiting it)
  have "queue_shape (settle f v d)" for f v using assms disp_inv_settle [of f v d] unfolding disp_inv_def by blast
  with WAwaiting assms show ?thesis
    by (cases outcome) (simp_all add: worker_resume_def drain_registered end_registered)
next
  case WDone
  with assms show ?thesis by (simp add: worker_resume_def)
qed

lemma callback_registered:
  assumes inv: "disp_inv d" and reg: "registered d"
  shows "registered (done_callback env w d)"
proof (cases "wk_status (workers d w) = WDone \<and> wk_callback (workers d w) = Outstanding")
  case True
  let ?d = "set_worker w ((workers d w)\<lparr>wk_callback := Ran\<rparr>) d"
  have ran: "wk_callback (workers ?d v) = Ran \<Longrightarrow> wk_status (workers ?d v) = WDone" for v
    using inv True queue_shapeD(5) [of d v] by (auto simp: disp_inv_def split: if_splits)
  have "queue_shape ?d"
    by (rule worker_change(1) [of ?d d]) (use inv ran in \<open>auto simp: disp_inv_def qworker_def\<close>)
  moreover have "registered_but (Some w) ?d" using reg by (auto simp: registered_but_def qworker_def)
  ultimately have "registered (finish_worker env w ?d)" using True by (intro finish_registered) simp_all
  with True show ?thesis by (simp add: done_callback_def)
qed (use reg in \<open>auto simp: done_callback_def\<close>)

lemma enqueue_registered:
  assumes inv: "disp_inv d" and reg: "registered d" and start: "se_start env \<noteq> RegisterFails"
  shows "registered (snd (enqueue env it d))"
  using inv
proof (cases rule: enqueue_cases [of d it env])
  case (appended q w iq)
  then show ?thesis using reg by (simp, subst registered_same [of _ d]) (auto simp: qworker_def)
next
  case opened
  have shape: "queue_shape d" using inv by (simp add: disp_inv_def)
  have ok: "se_start env = StartOk" using start opened(2) by (cases "se_start env") auto
  have "wk_callback (workers (snd (enqueue env it d)) v) = Outstanding"
    if "queues d j = Some p" "qworker (snd (enqueue env it d)) p = Some v" for j p v
  proof -
    have "p \<noteq> next_queue d" using queue_shapeD(1) [OF shape that(1)] by simp
    with that(2) have "qworker d p = Some v" by (simp add: opened qworker_def)
    with queue_shapeD(3) [OF shape this] reg that(1) show ?thesis by (auto simp: registered_but_def opened)
  qed
  moreover have "wk_callback (workers (snd (enqueue env it d)) v) = Outstanding"
    if "qworker (snd (enqueue env it d)) (next_queue d) = Some v" for v
    using that by (simp add: opened qworker_def started_worker_def ok)
  ultimately show ?thesis by (auto simp: registered_but_def opened(4) split: if_splits)
next
  case failed
  have "qworker (snd (enqueue env it d)) p = Some v \<Longrightarrow> qworker d p = Some v" for p v
    by (simp add: failed qworker_def empty_queue_def split: if_splits)
  with reg show ?thesis by (auto simp: registered_but_def failed)
qed

lemma submit_registered:
  assumes inv: "disp_inv d" and reg: "registered d" and start: "se_start env \<noteq> RegisterFails"
  shows "registered (snd (submit env ab batch d))"
proof -
  let ?d = "d\<lparr>completions := (completions d)(next_completion d := CPending), next_completion := Suc (next_completion d)\<rparr>"
  have same: "registered (?d\<lparr>db := t\<rparr>)" for t
    by (subst registered_same [of _ d]) (use reg in \<open>auto simp: qworker_def\<close>)
  have db: "registered (d'\<lparr>db := t\<rparr>) = registered d'" for d' t by (rule registered_same) (simp_all add: qworker_def)
  have "disp_inv (?d\<lparr>db := t\<rparr>)" for t using inv by simp
  then show ?thesis
    using reg same enqueue_registered [OF _ same start]
    by (auto simp: submit_def Let_def db split: prod.split sum.split)
qed

lemma step_registered: "disp_inv d \<Longrightarrow> registered d \<Longrightarrow> registers e \<Longrightarrow> registered (dispatch_step d e)"
proof (cases e)
  case (CancelWorker w)
  assume reg: "registered d"
  have "registered (worker_cancel w d)"
    unfolding worker_cancel_def by (simp add: reg, intro impI, subst registered_same [of _ d]) (use reg in \<open>auto simp: qworker_def\<close>)
  with CancelWorker show ?thesis by simp
qed (simp_all add: submit_registered resume_registered callback_registered)

interpretation registering: latched_machine dispatch_step disp_inv registered "\<lambda>e. \<not> registers e"
  by unfold_locales (simp_all add: disp_inv_step step_registered)

section \<open>Finitely many queues\<close>

lemma finish_queues: "dom (queues (finish_worker env w d)) \<subseteq> dom (queues d)"
  by (cases rule: finish_worker_cases [of env w d]) (auto split: if_splits)

lemma end_queues: "dom (queues (end_worker env w d)) \<subseteq> dom (queues d)"
  using finish_queues [of env w d] by (simp add: end_worker_def Let_def)

lemma drain_queues: "dom (queues (snd (drain env fault w d))) \<subseteq> dom (queues d)"
proof -
  obtain r d1 where items: "drain_items fault (iq_pending (qstore d (wk_queue (workers d w)))) d = (r, d1)" by fastforce
  show ?thesis
    using end_queues [of env w d] items drain_items_frame(1) [OF items]
      end_queues [of env w "set_queue (wk_queue (workers d w)) ((qstore d1 (wk_queue (workers d w)))\<lparr>iq_pending := []\<rparr>) d1"]
    by (auto simp: drain_def Let_def split: option.splits)
qed

lemma resume_queues: "dom (queues (snd (worker_resume env fault w outcome d))) \<subseteq> dom (queues d)"
proof (cases "wk_status (workers d w)")
  case (WAwaiting it)
  then show ?thesis
    using drain_queues [of env fault w "settle (di_completion it) v d" for v]
      end_queues [of env w "settle (di_completion it) CCancelled d"]
    by (cases outcome) (simp_all add: worker_resume_def)
qed (simp_all add: worker_resume_def drain_queues)

lemma enqueue_queues: "disp_inv d \<Longrightarrow> dom (queues (snd (enqueue env it d))) \<subseteq> insert (di_incident it) (dom (queues d))"
  by (cases rule: enqueue_cases [of d it env]) (auto split: if_splits)

lemma submit_queues:
  assumes inv: "disp_inv d" and fin: "finite (dom (queues d))"
  shows "finite (dom (queues (snd (submit env ab batch d))))"
proof -
  let ?d = "d\<lparr>completions := (completions d)(next_completion d := CPending), next_completion := Suc (next_completion d)\<rparr>"
  have "finite (dom (queues (snd (enqueue env it (?d\<lparr>db := t\<rparr>)))))" for it t
    using enqueue_queues [of "?d\<lparr>db := t\<rparr>" env it] inv fin by (auto intro: finite_subset)
  then show ?thesis
    using fin by (auto simp: submit_def Let_def split: prod.split sum.split)
qed

lemma step_queues: "disp_inv d \<Longrightarrow> finite (dom (queues d)) \<Longrightarrow> finite (dom (queues (dispatch_step d e)))"
proof (cases e)
  case (Submit env ab batch)
  assume "disp_inv d" "finite (dom (queues d))"
  with Submit show ?thesis by (simp add: submit_queues)
next
  case (Resume env fault w outcome)
  assume "finite (dom (queues d))"
  with resume_queues [of env fault w outcome d] Resume show ?thesis by (auto intro: finite_subset)
next
  case (CancelWorker w)
  assume "finite (dom (queues d))"
  with CancelWorker show ?thesis by (simp add: worker_cancel_def)
next
  case (DoneCallback env w)
  assume "finite (dom (queues d))"
  with finish_queues [of env w "set_worker w ((workers d w)\<lparr>wk_callback := Ran\<rparr>) d"] DoneCallback
  show ?thesis by (auto simp: done_callback_def intro: finite_subset)
qed

interpretation queueing: latched_machine dispatch_step disp_inv "\<lambda>d. finite (dom (queues d))" "\<lambda>_. False"
  by unfold_locales (simp_all add: disp_inv_step step_queues)

section \<open>Draining an incident\<close>

text \<open>An event of a cooperating world: a handler returns, or a done-callback runs and can start a worker.\<close>

fun cooperates :: "dispatch_event \<Rightarrow> bool" where
  "cooperates (Resume env fault w outcome) \<longleftrightarrow> outcome = Completed PNone \<and> fe_start env = StartOk"
| "cooperates (DoneCallback env w) \<longleftrightarrow> fe_start env = StartOk"
| "cooperates _ \<longleftrightarrow> False"

definition willing :: finish_env where
  "willing = \<lparr>fe_start = StartOk, fe_rollback_fault = (\<lambda>_. False)\<rparr>"

text \<open>The next event of the worker of a queue, and what is left to do on it.\<close>

definition next_event :: "dispatcher \<Rightarrow> nat \<Rightarrow> dispatch_event" where
  "next_event d w =
     (if wk_status (workers d w) = WDone then DoneCallback willing w
      else Resume willing (\<lambda>_. False) w (Completed PNone))"

definition left_to_do :: "dispatcher \<Rightarrow> nat \<Rightarrow> nat \<times> nat" where
  "left_to_do d q =
     (length (iq_deferred (qstore d q)),
      length (iq_pending (qstore d q)) +
        (if \<exists>w. qworker d q = Some w \<and> wk_status (workers d w) \<noteq> WDone then 1 else 0))"

text \<open>Progress: the incident is released, or its queue is kept with less to do.\<close>

definition advances :: "string \<Rightarrow> nat \<Rightarrow> dispatcher \<Rightarrow> dispatcher \<Rightarrow> bool" where
  "advances i q d d' \<longleftrightarrow>
     queues d' = (queues d)(i := None) \<or>
     (queues d' = queues d \<and> (left_to_do d' q, left_to_do d q) \<in> less_than <*lex*> less_than)"

lemma drain_items_shorter: "drain_items fault items d = (Some (it, rest), d') \<Longrightarrow> length rest < length items"
  by (induction fault items d rule: drain_items.induct) (auto split: prod.splits sum.splits)

lemma end_advances:
  assumes q: "queues d i = Some q" and w: "qworker d q = Some w" "wk_incident (workers d w) = i" "wk_queue (workers d w) = q"
    and alive: "wk_status (workers d w) \<noteq> WDone"
    and d1: "queues d1 = queues d" "qstore d1 = (qstore d)(q := (qstore d q)\<lparr>iq_pending := []\<rparr>)" "workers d1 = workers d"
  shows "advances i q d (end_worker env w d1)"
proof (cases "iq_deferred (qstore d q) = []")
  case True
  with assms have "queues (finish_worker env w d1) = (queues d)(i := None)"
    by (simp add: finish_worker_def Let_def qworker_def)
  then show ?thesis by (simp add: advances_def end_worker_def Let_def)
next
  case False
  with assms have f: "finish_worker env w d1 = d1" by (simp add: finish_worker_def Let_def qworker_def)
  with assms show ?thesis
    by (auto simp: advances_def end_worker_def Let_def left_to_do_def qworker_def)
qed

lemma drain_advances:
  assumes q: "queues d i = Some q" and w: "qworker d q = Some w" "wk_incident (workers d w) = i" "wk_queue (workers d w) = q"
    and alive: "wk_status (workers d w) \<noteq> WDone"
  shows "advances i q d (snd (drain env fault w d))"
proof -
  obtain r d1 where items: "drain_items fault (iq_pending (qstore d q)) d = (r, d1)" by fastforce
  note frame = drain_items_frame [OF items]
  show ?thesis
  proof (cases r)
    case None
    have "snd (drain env fault w d) = end_worker env w (set_queue q ((qstore d1 q)\<lparr>iq_pending := []\<rparr>) d1)"
      using None items assms by (simp add: drain_def Let_def)
    then show ?thesis
      by (simp, intro end_advances [OF assms]) (simp_all add: frame)
  next
    case (Some p)
    obtain it rest where p: "p = (it, rest)" by (cases p)
    have "snd (drain env fault w d) = set_worker w ((workers d w)\<lparr>wk_status := WAwaiting it\<rparr>)
        (set_queue q ((qstore d1 q)\<lparr>iq_pending := rest\<rparr>) d1)"
      using Some items assms by (simp add: drain_def Let_def p)
    moreover have "length rest < length (iq_pending (qstore d q))"
      using drain_items_shorter items Some p by blast
    ultimately show ?thesis
      using assms by (auto simp: advances_def left_to_do_def qworker_def frame)
  qed
qed

lemma callback_advances:
  assumes q: "queues d i = Some q" and w: "qworker d q = Some w" "wk_incident (workers d w) = i" "wk_queue (workers d w) = q"
    and over: "wk_status (workers d w) = WDone" "wk_callback (workers d w) = Outstanding"
    and env: "fe_start env = StartOk"
  shows "advances i q d (done_callback env w d)"
proof -
  let ?d = "set_worker w ((workers d w)\<lparr>wk_callback := Ran\<rparr>) d"
  let ?d2 = "settle_all CCancelled (iq_pending (qstore d q)) ?d
     \<lparr>qstore := (qstore d)(q := (qstore d q)\<lparr>iq_pending := [], iq_worker := None\<rparr>)\<rparr>"
  have f: "done_callback env w d =
      (if iq_deferred (qstore d q) \<noteq> [] then restart_deferred env i q ?d2 else release_incident i ?d2)"
    using assms by (simp add: done_callback_def finish_worker_def Let_def qworker_def)
  show ?thesis
  proof (cases "iq_deferred (qstore d q) = []")
    case True
    then show ?thesis by (simp add: f advances_def)
  next
    case False
    then show ?thesis using env by (simp add: f advances_def restart_deferred_eq left_to_do_def)
  qed
qed

lemma next_event_advances:
  assumes inv: "disp_inv d" and reg: "registered d" and q: "queues d i = Some q" and w: "qworker d q = Some w"
  shows "advances i q d (dispatch_step d (next_event d w))"
proof -
  have shape: "queue_shape d" using inv by (simp add: disp_inv_def)
  have owner: "wk_incident (workers d w) = i" "wk_queue (workers d w) = q"
    using queue_owner_unique [OF shape q w] queue_shapeD(4) [OF shape w] by auto
  have ok: "fe_start willing = StartOk" by (simp add: willing_def)
  have same: "advances i q (settle f v d) = advances i q d" for f v
    by (simp add: advances_def left_to_do_def qworker_def fun_eq_iff)
  show ?thesis
  proof (cases "wk_status (workers d w)")
    case WNew
    have "advances i q d (set_worker w ((workers d w)\<lparr>wk_status := WDone\<rparr>) d)"
      using w WNew by (simp add: advances_def left_to_do_def qworker_def)
    moreover have "advances i q d (snd (drain willing (\<lambda>_. False) w d))"
      by (rule drain_advances [OF q w owner]) (simp add: WNew)
    ultimately show ?thesis by (simp add: next_event_def WNew worker_resume_def)
  next
    case (WAwaiting it)
    have "advances i q (settle (di_completion it) (CResult PNone) d)
        (snd (drain willing (\<lambda>_. False) w (settle (di_completion it) (CResult PNone) d)))"
      by (rule drain_advances) (use q w owner WAwaiting in \<open>simp_all add: qworker_def\<close>)
    then show ?thesis by (simp add: next_event_def WAwaiting worker_resume_def same)
  next
    case WDone
    have "wk_callback (workers d w) = Outstanding" using reg q w by (auto simp: registered_but_def)
    from callback_advances [OF q w owner WDone this ok] show ?thesis by (simp add: next_event_def WDone)
  qed
qed

text \<open>A state of any history in which every callback was registered.\<close>

definition sound :: "dispatcher \<Rightarrow> bool" where
  "sound d \<longleftrightarrow> disp_inv d \<and> registered d \<and> finite (dom (queues d))"

lemma cooperating_registers: "cooperates e \<Longrightarrow> registers e"
  by (cases e) simp_all

lemma sound_step: "sound d \<Longrightarrow> registers e \<Longrightarrow> sound (dispatch_step d e)"
  by (simp add: sound_def disp_inv_step step_registered step_queues)

lemma sound_run: "sound d \<Longrightarrow> list_all registers es \<Longrightarrow> sound (run dispatch_step d es)"
  by (induction es arbitrary: d) (simp_all add: sound_step)

lemma sound_new: "sound (new_dispatcher t)"
  by (simp add: sound_def registered_but_def, simp add: new_dispatcher_def)

lemma next_event_cooperates: "cooperates (next_event d w)"
  by (simp add: next_event_def willing_def)

lemma incident_drains:
  "sound d \<Longrightarrow> queues d i = Some q \<Longrightarrow>
   \<exists>es. list_all cooperates es \<and> queues (run dispatch_step d es) = (queues d)(i := None)"
proof (induction "left_to_do d q" arbitrary: d rule: wf_induct_rule [OF wf_lex_prod [OF wf_less_than wf_less_than]])
  case (1 d)
  from 1(2) have inv: "disp_inv d" "registered d" by (simp_all add: sound_def)
  then have "queue_shape d" by (simp add: disp_inv_def)
  from queue_shapeD(2) [OF this 1(3)] obtain w where w: "qworker d q = Some w" by blast
  let ?e = "next_event d w"
  have co: "cooperates ?e" by (rule next_event_cooperates)
  then have sound: "sound (dispatch_step d ?e)" using 1(2) by (intro sound_step cooperating_registers)
  from next_event_advances [OF inv 1(3) w] consider
    (released) "queues (dispatch_step d ?e) = (queues d)(i := None)"
  | (less) "queues (dispatch_step d ?e) = queues d" "(left_to_do (dispatch_step d ?e) q, left_to_do d q) \<in> less_than <*lex*> less_than"
    by (auto simp: advances_def)
  then show ?case
  proof cases
    case released
    with co show ?thesis by (intro exI [of _ "[?e]"]) simp
  next
    case less
    from 1(1) [OF less(2) sound] less(1) 1(3) obtain es where "list_all cooperates es"
      "queues (run dispatch_step (dispatch_step d ?e) es) = (queues d)(i := None)" by auto
    with co show ?thesis by (intro exI [of _ "?e # es"]) simp
  qed
qed

lemma dispatcher_drains:
  "sound d \<Longrightarrow> \<exists>es. list_all cooperates es \<and> queues (run dispatch_step d es) = Map.empty"
proof (induction "card (dom (queues d))" arbitrary: d)
  case 0
  then have "queues d = Map.empty" by (simp add: sound_def)
  then show ?case by (intro exI [of _ "[]"]) simp
next
  case (Suc n)
  then obtain i q where q: "queues d i = Some q" by (metis card.empty domIff ex_in_conv option.exhaust_sel nat.distinct(1))
  from incident_drains [OF Suc.prems q] obtain es where es: "list_all cooperates es"
    "queues (run dispatch_step d es) = (queues d)(i := None)" by blast
  have "sound (run dispatch_step d es)"
    using Suc.prems es(1) by (intro sound_run) (auto simp: list_all_iff cooperating_registers)
  moreover have "n = card (dom (queues (run dispatch_step d es)))"
    using Suc.hyps(2) Suc.prems q by (simp add: es(2) sound_def card_Diff_singleton domI)
  ultimately obtain fs where "list_all cooperates fs" "queues (run dispatch_step (run dispatch_step d es) fs) = Map.empty"
    using Suc.hyps(1) by blast
  with es(1) show ?case by (intro exI [of _ "es @ fs"]) (simp add: run_append)
qed

lemma served_settles:
  assumes "sound d" and "served f d"
  shows "\<exists>es. list_all cooperates es \<and> completions (run dispatch_step d es) f \<noteq> CPending"
proof -
  from dispatcher_drains [OF assms(1)] obtain es where es: "list_all cooperates es"
    "queues (run dispatch_step d es) = Map.empty" by blast
  let ?d = "run dispatch_step d es"
  have inv: "disp_inv d" using assms(1) by (simp add: sound_def)
  have "served f ?d" by (rule dispatching.latch_run [OF inv assms(2)]) (simp add: list_all_iff)
  moreover have "\<not> queue_held ?d f" by (simp add: queue_held_def es(2))
  moreover have "awaits_ok ?d w" for w using dispatching.inv_run [OF inv] by (simp add: disp_inv_def)
  then have "wk_status (workers ?d w) \<noteq> WAwaiting it" for w it by (auto simp: awaits_ok_def es(2))
  then have "\<not> awaited_but None ?d f" by (auto simp: awaited_but_def)
  ultimately have "completions ?d f \<noteq> CPending" by (simp add: served_but_def)
  with es(1) show ?thesis by blast
qed

section \<open>Properties\<close>

text \<open>
  C38. A completion that \<open>submit\<close> handed out is never orphaned, as long as no submission fails to register
  its worker's done-callback.  After any further history - further submissions, handler outcomes,
  cancellations, callbacks and failing task creations in any order - it is settled, or its item is
  being handled, or it is on its incident's queue, whose worker is live or is done with its callback
  still to run.  And it can always still be settled: handlers that return and callbacks that run, and
  nothing else, lead to a state where it is.
\<close>

theorem accepted_completion_never_orphaned:
  assumes "d = run dispatch_step (new_dispatcher t) es" and "list_all registers es"
    and "submit env ab batch d = (Inr s, d1)" and "ds_completion s = Some f" and "se_start env \<noteq> RegisterFails"
    and "d2 = run dispatch_step d1 fs" and "list_all registers fs"
  shows "(completions d2 f \<noteq> CPending \<or>
      (\<exists>w it. wk_status (workers d2 w) = WAwaiting it \<and> di_completion it = f) \<or>
      (\<exists>i q w. queues d2 i = Some q \<and> iq_worker (qstore d2 q) = Some w \<and>
         f \<in> di_completion ` set (iq_pending (qstore d2 q) @ iq_deferred (qstore d2 q)) \<and>
         wk_incident (workers d2 w) = i \<and>
         (wk_status (workers d2 w) = WDone \<longrightarrow> wk_callback (workers d2 w) = Outstanding))) \<and>
    (\<exists>gs. list_all cooperates gs \<and> completions (run dispatch_step d2 gs) f \<noteq> CPending)"
proof -
  have "sound d" unfolding assms(1) by (rule sound_run [OF sound_new assms(2)])
  then have inv: "disp_inv d" by (simp add: sound_def)
  have d1: "d1 = dispatch_step d (Submit env ab batch)" using assms(3) by simp
  have s1: "sound d1" unfolding d1 using \<open>sound d\<close> assms(5) by (intro sound_step) simp_all
  then have inv1: "disp_inv d1" by (simp add: sound_def)
  have s2: "sound d2" unfolding assms(6) by (rule sound_run [OF s1 assms(7)])
  have served: "served f d2" unfolding assms(6)
    by (rule dispatching.latch_run [OF inv1 submit_accepts [OF inv assms(3,4)]]) (simp add: list_all_iff)
  have "\<exists>i q w. queues d2 i = Some q \<and> iq_worker (qstore d2 q) = Some w \<and>
      f \<in> di_completion ` set (iq_pending (qstore d2 q) @ iq_deferred (qstore d2 q)) \<and>
      wk_incident (workers d2 w) = i \<and> wk_callback (workers d2 w) = Outstanding" if "queue_held d2 f"
  proof -
    from that obtain i q where q: "queues d2 i = Some q"
      "f \<in> di_completion ` set (iq_pending (qstore d2 q) @ iq_deferred (qstore d2 q))"
      by (auto simp: queue_held_def)
    have "queue_shape d2" "registered d2" using s2 by (simp_all add: sound_def disp_inv_def)
    with queue_shapeD(2) [OF _ q(1)] obtain w where "qworker d2 q = Some w" "wk_incident (workers d2 w) = i"
      "wk_callback (workers d2 w) = Outstanding" using q(1) by (auto simp: registered_but_def)
    with q show ?thesis unfolding qworker_def by blast
  qed
  with served have "completions d2 f \<noteq> CPending \<or>
      (\<exists>w it. wk_status (workers d2 w) = WAwaiting it \<and> di_completion it = f) \<or>
      (\<exists>i q w. queues d2 i = Some q \<and> iq_worker (qstore d2 q) = Some w \<and>
         f \<in> di_completion ` set (iq_pending (qstore d2 q) @ iq_deferred (qstore d2 q)) \<and>
         wk_incident (workers d2 w) = i \<and> wk_callback (workers d2 w) = Outstanding)"
    unfolding served_but_def awaited_but_def by blast
  with served_settles [OF s2 served] show ?thesis by blast
qed

text \<open>A batch of one occurrence, admitted and started at once, then handled.\<close>

theorem accepted_completion_never_orphaned_witness:
  "\<exists>s d1. submit sample_env None sample_batch (new_dispatcher Map.empty) = (Inr s, d1) \<and>
     ds_completion s = Some 0 \<and> completions (run dispatch_step d1 [sample_resume]) 0 = CPending \<and>
     (\<exists>gs. list_all cooperates gs \<and>
        completions (run dispatch_step (run dispatch_step d1 [sample_resume]) gs) 0 \<noteq> CPending)"
proof -
  let ?d = "run dispatch_step (new_dispatcher Map.empty) []"
  let ?out = "submit sample_env None sample_batch ?d"
  obtain s d1 where out: "?out = (Inr s, d1)" and f: "ds_completion s = Some 0"
    and pend: "completions (run dispatch_step d1 [sample_resume]) 0 = CPending"
    by (simp add: submit_def Let_def sample_batch_def sample_env_def admit_result new_dispatcher_def
        prepare_def enqueue_def start_worker_eq filtered_payload_def empty_queue_def sample_resume_def
        worker_resume_def started_worker_def drain_def mark_attempted_result queued_with_def)
  have "list_all registers []" "se_start sample_env \<noteq> RegisterFails" "list_all registers [sample_resume]"
    by (simp_all add: sample_env_def sample_resume_def)
  from accepted_completion_never_orphaned [OF refl this(1) out f this(2) refl this(3)] out f pend
  show ?thesis by (intro exI [of _ s] exI [of _ d1]) simp
qed

text \<open>
  Without that condition there are orphans.  When registering fails, \<open>submit\<close> raises but leaves the queue
  and its worker in place; if that worker is cancelled before its first step, nothing finishes the
  queue, and a later submission for the incident is deferred behind it for good.
\<close>

definition unregistered_history :: "dispatch_event list" where
  "unregistered_history =
     [Submit (sample_env\<lparr>se_start := RegisterFails\<rparr>) None sample_batch, CancelWorker 0, sample_resume]"

definition later_batch :: candidate_batch where
  "later_batch = sample_batch\<lparr>occurrence_refs := [\<lparr>occurrence_key = ''later'', alert_index = None\<rparr>]\<rparr>"

lemma unregistered_worker_orphans:
  "\<exists>s d1. submit (sample_env\<lparr>se_token := ''tok2''\<rparr>) None later_batch
       (run dispatch_step (new_dispatcher Map.empty) unregistered_history) = (Inr s, d1) \<and>
     ds_state s = QueuedBehind \<and> ds_completion s = Some 1 \<and> completions d1 1 = CPending \<and>
     wk_status (workers d1 0) = WDone \<and> wk_callback (workers d1 0) = Unregistered \<and>
     queues d1 ''inc'' = Some 0 \<and> iq_worker (qstore d1 0) = Some 0 \<and> next_worker d1 = 1"
  by (simp add: unregistered_history_def later_batch_def submit_def Let_def sample_batch_def sample_env_def
      admit_result new_dispatcher_def prepare_def enqueue_def start_worker_eq filtered_payload_def
      empty_queue_def sample_resume_def worker_resume_def started_worker_def worker_cancel_def queued_with_def)

end
