(* ===== verification/Journal.thy ===== *)
theory Journal
  imports AuditLog
begin

text \<open>
  \<open>agents/execution_journal.py\<close>: the durable journal of executions.  The two SQLite tables are lists of
  rows in insertion order (a row's position is its \<open>sequence\<close>); a stored JSON column is the value it
  decodes to, its text is \<open>canonical_text\<close>.  A transition is one transaction: when it raises, or the
  database fails at commit (\<open>fault\<close>), the tables are unchanged, while an audit entry that was already
  written stays.  The audit log is \<open>None\<close> when no audit secret is configured.
\<close>

section \<open>Tables\<close>

definition TERMINAL_STATES :: "string set" where
  "TERMINAL_STATES = {''completed'', ''failed'', ''cancelled'', ''interrupted'', ''uncertain''}"

definition PHASES :: "string set" where
  "PHASES = {''queued'', ''triage'', ''diagnosis'', ''remediation'', ''approval'', ''applying'',
             ''verification'', ''comms'', ''finished''}"

definition MAX_EVENTS :: nat where "MAX_EVENTS = 10000"

record execution_row =
  ex_id :: string
  ex_incident :: string
  ex_phase :: string
  ex_state :: string
  ex_record :: pydict
  ex_updated :: time

record event_row =
  ev_execution :: string
  ev_payload :: pydict
  ev_prev :: string
  ev_hash :: string

record journal =
  jr_rows :: "execution_row list"
  jr_events :: "event_row list"
  jr_audit :: "audit_log option"

datatype journal_exn =
    PyExn py_exn
  | InvalidIdentity
  | InvalidTransition
  | DuplicateExecution
  | NotAdmitted
  | TerminalExecution
  | IdentityChange
  | AuditNotConfigured
  | CommitFault
  | HistoryAbsent
  | LinkageInvalid
  | ChainInvalid
  | SnapshotDiffers

definition find_row :: "string \<Rightarrow> journal \<Rightarrow> execution_row option" where
  "find_row x j = find (\<lambda>r. ex_id r = x) (jr_rows j)"

definition events_of :: "string \<Rightarrow> journal \<Rightarrow> event_row list" where
  "events_of x j = filter (\<lambda>e. ev_execution e = x) (jr_events j)"

definition update_row :: "execution_row \<Rightarrow> execution_row list \<Rightarrow> execution_row list" where
  "update_row row rows = map (\<lambda>r. if ex_id r = ex_id row then row else r) rows"

section \<open>Transitions\<close>

text \<open>\<open>record.update(patch)\<close>.\<close>

definition merge_patch :: "pydict \<Rightarrow> pydict \<Rightarrow> pydict" where
  "merge_patch patch rec = fold (\<lambda>(k, v) d. AList.update k v d) patch rec"

definition identity_changed :: "pydict \<Rightarrow> pydict \<Rightarrow> bool" where
  "identity_changed patch rec \<longleftrightarrow>
     list_ex (\<lambda>k. dhas patch k \<and> dget patch k \<noteq> dget rec k)
       [''incident_id'', ''execution_id'', ''source_sha'']"

definition event_hash :: "fns \<Rightarrow> string \<Rightarrow> pydict \<Rightarrow> string" where
  "event_hash fns prev payload =
     (case fns of (ff, fmt, sha, hmac) \<Rightarrow> sha (prev @ canonical_text ff (PDict payload)))"

definition progress_summary :: "string \<Rightarrow> string \<Rightarrow> string \<Rightarrow> pydict \<Rightarrow> py_exn + pydict" where
  "progress_summary event phase state rec =
     rbind (need_dict (py_or (dget rec ''approval'') (PDict []))) (\<lambda>approval.
       Inr [(''event'', PStr event), (''phase'', PStr phase), (''state'', PStr state),
            (''severity'', dget approval ''severity''), (''policy'', dget approval ''mode'')])"

record note_args =
  na_phase :: string
  na_event :: string
  na_patch :: pydict
  na_state :: string

text \<open>The record after a transition, the transition itself, and its audit entry.\<close>

definition note_record :: "(string \<Rightarrow> string) \<Rightarrow> note_args \<Rightarrow> execution_row \<Rightarrow> pydict" where
  "note_record scrub n row =
     merge_patch (as_dict (safe_evidence scrub 0 (PDict (na_patch n)))) (ex_record row)"

definition note_transition :: "time \<Rightarrow> string \<Rightarrow> note_args \<Rightarrow> pydict \<Rightarrow> string \<Rightarrow> pydict" where
  "note_transition now x n rec previous =
     [(''execution_id'', PStr x), (''event'', PStr (na_event n)), (''phase'', PStr (na_phase n)),
      (''state'', PStr (na_state n)), (''record'', PDict rec), (''ts'', PFloat (FFin now)),
      (''prev_hash'', PStr previous)]"

definition progress_args ::
  "fns \<Rightarrow> execution_row \<Rightarrow> note_args \<Rightarrow> pydict \<Rightarrow> pydict \<Rightarrow> audit_args" where
  "progress_args fns row n transition summary =
     (case fns of (ff, fmt, sha, hmac) \<Rightarrow>
       \<lparr>aa_incident_id = ex_incident row, aa_agent_role = ''coordinator'',
        aa_action_type = ''execution_progress'', aa_tool_name = None,
        aa_tool_args = Some transition, aa_result_summary = canonical_text ff (PDict summary),
        aa_approved_by = '''', aa_policy_check = na_state n\<rparr>)"

text \<open>The new row and the new event.\<close>

definition note_outcome ::
  "fns \<Rightarrow> time \<Rightarrow> string \<Rightarrow> note_args \<Rightarrow> execution_row \<Rightarrow> pydict \<Rightarrow> string \<Rightarrow> pyval \<Rightarrow>
   execution_row \<times> event_row" where
  "note_outcome fns now x n row rec previous audit_hash =
     (let payload = note_transition now x n rec previous @ [(''audit_entry_hash'', audit_hash)]
      in (row\<lparr>ex_phase := na_phase n, ex_state := na_state n, ex_record := rec, ex_updated := now\<rparr>,
          \<lparr>ev_execution = x, ev_payload = payload, ev_prev = previous,
           ev_hash = event_hash fns previous payload\<rparr>))"

text \<open>The body of \<open>_note\<close>; the audit log is returned whatever happens.\<close>

definition note_body ::
  "fns \<Rightarrow> (string \<Rightarrow> string) \<Rightarrow> time \<Rightarrow> string \<Rightarrow> note_args \<Rightarrow> journal \<Rightarrow>
   (journal_exn + (execution_row \<times> event_row)) \<times> audit_log option" where
  "note_body fns scrub now x n j =
     (case find_row x j of
        None \<Rightarrow> (Inl NotAdmitted, jr_audit j)
      | Some row \<Rightarrow>
          if ex_state row \<in> TERMINAL_STATES then (Inl TerminalExecution, jr_audit j)
          else if identity_changed (na_patch n) (ex_record row) then (Inl IdentityChange, jr_audit j)
          else
            let rec = note_record scrub n row;
                previous = last_seal ev_hash '''' (events_of x j);
                transition = note_transition now x n rec previous
            in if \<not> json_finite (PDict transition) then (Inl (PyExn ValueError), jr_audit j)
               else case progress_summary (na_event n) (na_phase n) (na_state n) rec of
                 Inl e \<Rightarrow> (Inl (PyExn e), jr_audit j)
               | Inr summary \<Rightarrow>
                   (case jr_audit j of
                      None \<Rightarrow> (Inl AuditNotConfigured, None)
                    | Some al \<Rightarrow>
                        (case audit_record fns scrub now (progress_args fns row n transition summary) al of
                           (entry, al') \<Rightarrow>
                             (Inr (note_outcome fns now x n row rec previous (dget entry ''entry_hash'')),
                              Some al'))))"

text \<open>The two statements that end a transition, and its transaction.\<close>

definition apply_note ::
  "bool \<Rightarrow> (journal_exn + (execution_row \<times> event_row)) \<times> audit_log option \<Rightarrow> journal \<Rightarrow>
   journal \<Rightarrow> (journal_exn + unit) \<times> journal" where
  "apply_note fault result before j =
     (case result of
        (Inl e, al) \<Rightarrow> (Inl e, before\<lparr>jr_audit := al\<rparr>)
      | (Inr (row, ev), al) \<Rightarrow>
          if fault then (Inl CommitFault, before\<lparr>jr_audit := al\<rparr>)
          else (Inr (), \<lparr>jr_rows = update_row row (jr_rows j), jr_events = jr_events j @ [ev],
                         jr_audit = al\<rparr>))"

definition journal_note ::
  "fns \<Rightarrow> (string \<Rightarrow> string) \<Rightarrow> bool \<Rightarrow> time \<Rightarrow> string \<Rightarrow> note_args \<Rightarrow> journal \<Rightarrow>
   (journal_exn + unit) \<times> journal" where
  "journal_note fns scrub fault now x n j =
     (if na_phase n \<notin> PHASES \<or> na_state n \<notin> TERMINAL_STATES \<union> {''running''}
      then (Inl InvalidTransition, j)
      else apply_note fault (note_body fns scrub now x n j) j j)"

definition initial_record ::
  "(string \<Rightarrow> string) \<Rightarrow> string \<Rightarrow> string \<Rightarrow> pyval \<Rightarrow> pydict \<Rightarrow> pyval \<Rightarrow> string \<Rightarrow> pydict" where
  "initial_record scrub incident x source_sha alert anchors evidence_class =
     as_dict (safe_evidence scrub 0 (PDict
       [(''incident_id'', PStr incident), (''execution_id'', PStr x), (''source_sha'', source_sha),
        (''alert'', PDict alert), (''incident_anchors'', anchors),
        (''evidence_class'', PStr evidence_class), (''certification_status'', PStr ''NOT_CERTIFIED''),
        (''resolved'', PBool False), (''env_resolved'', PNone)]))"

definition journal_begin ::
  "fns \<Rightarrow> (string \<Rightarrow> string) \<Rightarrow> bool \<Rightarrow> time \<Rightarrow> string \<Rightarrow> string \<Rightarrow> pyval \<Rightarrow> pydict \<Rightarrow> pyval \<Rightarrow> string \<Rightarrow>
   journal \<Rightarrow> (journal_exn + unit) \<times> journal" where
  "journal_begin fns scrub fault now incident x source_sha alert anchors evidence_class j =
     (if \<not> valid_incident_id (PStr incident) \<or> \<not> valid_execution_id (PStr x) then (Inl InvalidIdentity, j)
      else
        let rec = initial_record scrub incident x source_sha alert anchors evidence_class in
        if \<not> json_finite (PDict rec) then (Inl (PyExn ValueError), j)
        else if find_row x j \<noteq> None then (Inl DuplicateExecution, j)
        else
          let row = \<lparr>ex_id = x, ex_incident = incident, ex_phase = ''queued'', ex_state = ''running'',
                     ex_record = rec, ex_updated = now\<rparr>;
              j1 = j\<lparr>jr_rows := jr_rows j @ [row]\<rparr>;
              n = \<lparr>na_phase = ''queued'', na_event = ''admitted'', na_patch = [], na_state = ''running''\<rparr>
          in apply_note fault (note_body fns scrub now x n j1) j j1)"

section \<open>Reading\<close>

record execution_view =
  xv_incident :: string
  xv_execution :: string
  xv_source_sha :: pyval
  xv_phase :: string
  xv_state :: string
  xv_updated :: time
  xv_record :: pydict
  xv_events :: "pydict list"
  xv_last_hash :: string

text \<open>The loop that checks identity, linkage and hashes, and returns the last hash.\<close>

fun check_events :: "fns \<Rightarrow> string \<Rightarrow> string \<Rightarrow> event_row list \<Rightarrow> journal_exn + string" where
  "check_events fns x previous [] = Inr previous"
| "check_events fns x previous (ev # evs) =
     (if dget (ev_payload ev) ''execution_id'' \<noteq> PStr x
         \<or> (dhas (ev_payload ev) ''prev_hash'' \<and> dget (ev_payload ev) ''prev_hash'' \<noteq> PStr previous)
      then Inl LinkageInvalid
      else
        let expected = event_hash fns previous (ev_payload ev) in
        if ev_prev ev \<noteq> previous \<or> ev_hash ev \<noteq> expected then Inl ChainInvalid
        else check_events fns x expected evs)"

definition need_key :: "pydict \<Rightarrow> string \<Rightarrow> journal_exn + pyval" where
  "need_key d k = (case map_of d k of None \<Rightarrow> Inl (PyExn KeyError) | Some v \<Rightarrow> Inr v)"

definition snapshot_differs :: "pydict \<Rightarrow> execution_row \<Rightarrow> journal_exn + bool" where
  "snapshot_differs payload row =
     rbind (need_key payload ''record'') (\<lambda>rec.
     if rec \<noteq> PDict (ex_record row) then Inr True else
     rbind (need_key payload ''phase'') (\<lambda>phase.
     if phase \<noteq> PStr (ex_phase row) then Inr True else
     rbind (need_key payload ''state'') (\<lambda>state.
     if state \<noteq> PStr (ex_state row) then Inr True else
     if \<not> dhas payload ''prev_hash'' then Inr False else
     rbind (need_key payload ''ts'') (\<lambda>ts. Inr (ts \<noteq> PFloat (FFin (ex_updated row)))))))"

definition journal_read :: "fns \<Rightarrow> string \<Rightarrow> journal \<Rightarrow> journal_exn + execution_view" where
  "journal_read fns x j =
     (if \<not> valid_execution_id (PStr x) then Inl (PyExn KeyError)
      else case find_row x j of
        None \<Rightarrow> Inl (PyExn KeyError)
      | Some row \<Rightarrow>
          let events = take (MAX_EVENTS + 1) (events_of x j) in
          if events = [] \<or> length events > MAX_EVENTS then Inl HistoryAbsent
          else
            rbind (check_events fns x '''' events) (\<lambda>last_hash.
            let payload = ev_payload (last events) in
            rbind (snapshot_differs payload row) (\<lambda>differs.
            if differs then Inl SnapshotDiffers
            else Inr \<lparr>xv_incident = ex_incident row, xv_execution = x,
                      xv_source_sha = dget (as_dict (dget payload ''record'')) ''source_sha'',
                      xv_phase = ex_phase row, xv_state = ex_state row, xv_updated = ex_updated row,
                      xv_record = as_dict (dget payload ''record''),
                      xv_events = map ev_payload events, xv_last_hash = last_hash\<rparr>)))"

definition journal_list :: "fns \<Rightarrow> int \<Rightarrow> journal \<Rightarrow> journal_exn + execution_view list" where
  "journal_list fns limit j =
     map_result (\<lambda>row. journal_read fns (ex_id row) j)
       (take (nat (min (max limit 1) 100)) (sort_key (\<lambda>r. - ex_updated r) (jr_rows j)))"

section \<open>Reconciling a restart\<close>

definition restart_note :: "execution_row \<Rightarrow> note_args" where
  "restart_note row =
     \<lparr>na_phase = ''finished'', na_event = ''restart_reconciled'',
      na_patch = [(''resolved'', PBool False), (''replay_allowed'', PBool False),
                  (''interrupted_phase'', PStr (ex_phase row))],
      na_state = (if ex_phase row = ''applying'' then ''uncertain'' else ''interrupted'')\<rparr>"

fun reconcile_rows ::
  "fns \<Rightarrow> (string \<Rightarrow> string) \<Rightarrow> (string \<Rightarrow> bool) \<Rightarrow> time \<Rightarrow> execution_row list \<Rightarrow> journal \<Rightarrow>
   (journal_exn + unit) \<times> journal" where
  "reconcile_rows fns scrub fault now [] j = (Inr (), j)"
| "reconcile_rows fns scrub fault now (row # rows) j =
     (case journal_read fns (ex_id row) j of
        Inl e \<Rightarrow> (Inl e, j)
      | Inr _ \<Rightarrow>
          (case journal_note fns scrub (fault (ex_id row)) now (ex_id row) (restart_note row) j of
             (Inl e, j') \<Rightarrow> (Inl e, j')
           | (Inr _, j') \<Rightarrow> reconcile_rows fns scrub fault now rows j'))"

definition reconcile_restart ::
  "fns \<Rightarrow> (string \<Rightarrow> string) \<Rightarrow> (string \<Rightarrow> bool) \<Rightarrow> time \<Rightarrow> journal \<Rightarrow> (journal_exn + unit) \<times> journal" where
  "reconcile_restart fns scrub fault now j =
     reconcile_rows fns scrub fault now (filter (\<lambda>r. ex_state r = ''running'') (jr_rows j)) j"

section \<open>The chain of an execution\<close>

definition good_event :: "fns \<Rightarrow> string \<Rightarrow> string \<Rightarrow> event_row \<Rightarrow> bool" where
  "good_event fns x prev ev \<longleftrightarrow>
     dget (ev_payload ev) ''execution_id'' = PStr x \<and> dget (ev_payload ev) ''prev_hash'' = PStr prev \<and>
     ev_prev ev = prev \<and> ev_hash ev = event_hash fns prev (ev_payload ev)"

interpretation execution_chain:
  hash_chain "good_event fns x" ev_hash "\<lambda>ev. (ev_prev ev, ev_payload ev)" for fns :: fns and x :: string
  by unfold_locales (auto simp: good_event_def)

lemma check_linked_events:
  "linked (good_event fns x) ev_hash prev evs \<Longrightarrow>
   check_events fns x prev evs = Inr (last_seal ev_hash prev evs)"
  by (induction evs arbitrary: prev) (auto simp: good_event_def Let_def)

text \<open>The row repeats the last event.\<close>

definition row_matches :: "execution_row \<Rightarrow> event_row \<Rightarrow> bool" where
  "row_matches row ev \<longleftrightarrow>
     map_of (ev_payload ev) ''record'' = Some (PDict (ex_record row)) \<and>
     map_of (ev_payload ev) ''phase'' = Some (PStr (ex_phase row)) \<and>
     map_of (ev_payload ev) ''state'' = Some (PStr (ex_state row)) \<and>
     map_of (ev_payload ev) ''ts'' = Some (PFloat (FFin (ex_updated row)))"

definition row_ok :: "fns \<Rightarrow> event_row list \<Rightarrow> execution_row \<Rightarrow> bool" where
  "row_ok fns evs row \<longleftrightarrow>
     evs \<noteq> [] \<and> linked (good_event fns (ex_id row)) ev_hash '''' evs \<and> row_matches row (last evs)"

definition tables_ok :: "journal \<Rightarrow> bool" where
  "tables_ok j \<longleftrightarrow> distinct (map ex_id (jr_rows j)) \<and>
     (\<forall>ev \<in> set (jr_events j). ev_execution ev \<in> ex_id ` set (jr_rows j)) \<and>
     (\<forall>x \<in> ex_id ` set (jr_rows j). valid_execution_id (PStr x))"

definition journal_inv :: "fns \<Rightarrow> journal \<Rightarrow> bool" where
  "journal_inv fns j \<longleftrightarrow>
     tables_ok j \<and> (\<forall>row \<in> set (jr_rows j). row_ok fns (events_of (ex_id row) j) row)"

text \<open>The same, where only the chain of execution \<open>x\<close> has to be intact.\<close>

definition journal_inv_but :: "fns \<Rightarrow> string \<Rightarrow> journal \<Rightarrow> bool" where
  "journal_inv_but fns x j \<longleftrightarrow>
     tables_ok j \<and>
     (\<forall>row \<in> set (jr_rows j). ex_id row \<noteq> x \<longrightarrow> row_ok fns (events_of (ex_id row) j) row) \<and>
     linked (good_event fns x) ev_hash '''' (events_of x j)"

lemma find_row_in:
  "find_row x j = Some row \<Longrightarrow> row \<in> set (jr_rows j) \<and> ex_id row = x"
  by (auto simp: find_row_def find_Some_iff)

lemma find_row_None: "find_row x j = None \<longleftrightarrow> x \<notin> ex_id ` set (jr_rows j)"
  by (auto simp: find_row_def find_None_iff)

lemma find_row_distinct:
  assumes "distinct (map ex_id (jr_rows j))" and "row \<in> set (jr_rows j)"
  shows "find_row (ex_id row) j = Some row"
proof -
  have "find_row (ex_id row) j \<noteq> None" using assms(2) by (auto simp: find_row_None)
  then obtain r where r: "find_row (ex_id row) j = Some r" by blast
  from find_row_in [OF this] assms have "r = row" by (auto simp: distinct_map dest: inj_onD)
  with r show ?thesis by simp
qed

lemma journal_inv_weaken: "journal_inv fns j \<Longrightarrow> find_row x j \<noteq> None \<Longrightarrow> journal_inv_but fns x j"
proof -
  assume inv: "journal_inv fns j" and "find_row x j \<noteq> None"
  then obtain row where "row \<in> set (jr_rows j)" "ex_id row = x" using find_row_in by blast
  with inv show ?thesis by (auto simp: journal_inv_def journal_inv_but_def row_ok_def)
qed

section \<open>A successful transition\<close>

lemma transition_payload:
  "dget (note_transition now x n rec previous @ t) ''execution_id'' = PStr x"
  "dget (note_transition now x n rec previous @ t) ''prev_hash'' = PStr previous"
  "map_of (note_transition now x n rec previous @ t) ''record'' = Some (PDict rec)"
  "map_of (note_transition now x n rec previous @ t) ''phase'' = Some (PStr (na_phase n))"
  "map_of (note_transition now x n rec previous @ t) ''state'' = Some (PStr (na_state n))"
  "map_of (note_transition now x n rec previous @ t) ''ts'' = Some (PFloat (FFin now))"
  by (simp_all add: note_transition_def)

lemma note_outcome_ok:
  assumes "note_outcome fns now x n row rec prev h = (row', ev)"
  shows "row' = row\<lparr>ex_phase := na_phase n, ex_state := na_state n, ex_record := rec, ex_updated := now\<rparr>"
    and "ev_execution ev = x" and "row_matches row' ev" and "good_event fns x prev ev"
proof -
  from assms show row': "row' = row\<lparr>ex_phase := na_phase n, ex_state := na_state n, ex_record := rec, ex_updated := now\<rparr>"
    by (simp add: note_outcome_def Let_def)
  from assms have ev: "ev = \<lparr>ev_execution = x,
      ev_payload = note_transition now x n rec prev @ [(''audit_entry_hash'', h)], ev_prev = prev,
      ev_hash = event_hash fns prev (note_transition now x n rec prev @ [(''audit_entry_hash'', h)])\<rparr>"
    by (simp add: note_outcome_def Let_def)
  show "ev_execution ev = x" "row_matches row' ev" "good_event fns x prev ev"
    by (simp_all add: ev row' row_matches_def good_event_def transition_payload del: map_of_append)
qed

lemma note_body_ok:
  assumes "note_body fns scrub now x n j = (Inr (row', ev), al)"
  obtains row where "find_row x j = Some row" and "ex_state row \<notin> TERMINAL_STATES"
    and "row' = row\<lparr>ex_phase := na_phase n, ex_state := na_state n,
                    ex_record := note_record scrub n row, ex_updated := now\<rparr>"
    and "ev_execution ev = x" and "row_matches row' ev"
    and "good_event fns x (last_seal ev_hash '''' (events_of x j)) ev"
    and "al \<noteq> None"
proof -
  from assms obtain row where row: "find_row x j = Some row"
    by (cases "find_row x j") (simp_all add: note_body_def)
  with assms obtain h where live: "ex_state row \<notin> TERMINAL_STATES"
    and out: "note_outcome fns now x n row (note_record scrub n row)
                (last_seal ev_hash '''' (events_of x j)) h = (row', ev)" and "al \<noteq> None"
    by (auto simp: note_body_def Let_def simp del: json_finite.simps
        split: if_splits sum.splits option.splits prod.splits)
  with row note_outcome_ok [OF out] show thesis by (intro that) simp_all
qed

lemma in_update_row:
  "r \<in> set (update_row row rows) \<longleftrightarrow>
     (r = row \<and> ex_id row \<in> ex_id ` set rows) \<or> (r \<in> set rows \<and> ex_id r \<noteq> ex_id row)"
  unfolding update_row_def set_map image_iff by (auto split: if_splits) metis+

lemma ids_update_row: "map ex_id (update_row row rows) = map ex_id rows"
  by (simp add: update_row_def)

lemma transition_inv:
  assumes inv: "journal_inv_but fns x j" and row: "find_row x j = Some old"
    and new: "ex_id row' = x" "ev_execution ev = x" "row_matches row' ev"
    and good: "good_event fns x (last_seal ev_hash '''' (events_of x j)) ev"
  shows "journal_inv fns \<lparr>jr_rows = update_row row' (jr_rows j), jr_events = jr_events j @ [ev], jr_audit = al\<rparr>"
    (is "journal_inv fns ?j")
proof -
  have x: "x \<in> ex_id ` set (jr_rows j)" using find_row_in [OF row] by auto
  have evs: "events_of y ?j = (if y = x then events_of y j @ [ev] else events_of y j)" for y
    using new(2) by (simp add: events_of_def)
  have "set (map ex_id (jr_rows ?j)) = set (map ex_id (jr_rows j))" by (simp only: ids_update_row journal.simps)
  then have ids: "ex_id ` set (jr_rows ?j) = ex_id ` set (jr_rows j)" by (simp only: set_map)
  have "tables_ok ?j" using inv x new(2) ids ids_update_row [of row' "jr_rows j"]
    by (auto simp: tables_ok_def journal_inv_but_def)
  moreover have "row_ok fns (events_of (ex_id r) ?j) r" if "r \<in> set (jr_rows ?j)" for r
  proof (cases "ex_id r = x")
    case True
    with that new(1) have "r = row'" by (auto simp: in_update_row)
    with inv good new(1,3) show ?thesis
      by (simp add: row_ok_def evs journal_inv_but_def linked_snoc)
  next
    case False
    with that new(1) have "r \<in> set (jr_rows j)" by (auto simp: in_update_row)
    with inv False show ?thesis by (simp add: evs journal_inv_but_def)
  qed
  ultimately show ?thesis by (simp add: journal_inv_def)
qed

lemma journal_inv_audit [simp]: "journal_inv fns (j\<lparr>jr_audit := al\<rparr>) = journal_inv fns j"
  by (simp add: journal_inv_def tables_ok_def events_of_def)

lemma apply_note_inv:
  assumes "journal_inv_but fns x j1" and "journal_inv fns before"
    and "result = note_body fns scrub now x n j1"
  shows "journal_inv fns (snd (apply_note fault result before j1))"
proof (cases result)
  case (Pair r al)
  show ?thesis
  proof (cases r)
    case (Inl e)
    with Pair assms(2) show ?thesis by (simp add: apply_note_def)
  next
    case (Inr p)
    obtain row' ev where p: "p = (row', ev)" by (cases p)
    with Inr Pair assms(3) have "note_body fns scrub now x n j1 = (Inr (row', ev), al)" by simp
    then obtain row where "find_row x j1 = Some row" "ex_id row' = x" "ev_execution ev = x"
      "row_matches row' ev" "good_event fns x (last_seal ev_hash '''' (events_of x j1)) ev"
      by (rule note_body_ok) (use find_row_in in auto)
    with assms(1) have "journal_inv fns
        \<lparr>jr_rows = update_row row' (jr_rows j1), jr_events = jr_events j1 @ [ev], jr_audit = al\<rparr>"
      by (intro transition_inv)
    with Inr Pair p assms(2) show ?thesis by (simp add: apply_note_def)
  qed
qed

lemma journal_note_inv:
  assumes inv: "journal_inv fns j" shows "journal_inv fns (snd (journal_note fns scrub fault now x n j))"
proof (cases "find_row x j")
  case None
  with inv show ?thesis
    by (cases fns) (simp add: journal_note_def note_body_def apply_note_def)
next
  case (Some row)
  then have "journal_inv_but fns x j" using journal_inv_weaken [OF inv] by blast
  with inv show ?thesis by (simp add: journal_note_def apply_note_inv)
qed

lemma journal_begin_inv:
  assumes inv: "journal_inv fns j"
  shows "journal_inv fns (snd (journal_begin fns scrub fault now incident x sha alert anchors ec j))"
proof (cases "find_row x j")
  case None
  have "journal_inv_but fns x (j\<lparr>jr_rows := jr_rows j @ [row]\<rparr>)"
    if "ex_id row = x" and "valid_execution_id (PStr x)" for row
  proof -
    have fresh: "x \<notin> ex_id ` set (jr_rows j)" using None by (simp add: find_row_None)
    with inv have "events_of x j = []"
      by (auto simp: journal_inv_def tables_ok_def events_of_def filter_empty_conv)
    then have "events_of x (j\<lparr>jr_rows := jr_rows j @ [row]\<rparr>) = []" by (simp add: events_of_def)
    with inv fresh that show ?thesis
      by (auto simp: journal_inv_but_def journal_inv_def tables_ok_def events_of_def)
  qed
  with inv show ?thesis
    by (auto simp: journal_begin_def Let_def intro: apply_note_inv [OF _ inv refl])
next
  case (Some row)
  with inv show ?thesis by (simp add: journal_begin_def Let_def)
qed

lemma reconcile_rows_inv:
  "journal_inv fns j \<Longrightarrow> journal_inv fns (snd (reconcile_rows fns scrub fault now rows j))"
proof (induction rows arbitrary: j)
  case Nil
  then show ?case by simp
next
  case (Cons row rows)
  obtain r j' where noted: "journal_note fns scrub (fault (ex_id row)) now (ex_id row) (restart_note row) j = (r, j')"
    by fastforce
  with Cons.prems have "journal_inv fns j'"
    using journal_note_inv [of fns j scrub "fault (ex_id row)" now "ex_id row" "restart_note row"] by simp
  with Cons noted show ?case by (auto split: sum.split)
qed

lemma journal_inv_empty [simp]: "journal_inv fns \<lparr>jr_rows = [], jr_events = [], jr_audit = al\<rparr>"
  by (simp add: journal_inv_def tables_ok_def)

section \<open>Histories\<close>

text \<open>The calls a journal can receive, in any order; \<open>fault\<close> makes a commit fail.\<close>

datatype journal_event =
    Begin bool time string string pyval pydict pyval string
  | Note bool time string note_args
  | Reconcile "string \<Rightarrow> bool" time

fun journal_step :: "fns \<Rightarrow> (string \<Rightarrow> string) \<Rightarrow> journal \<Rightarrow> journal_event \<Rightarrow> journal" where
  "journal_step fns scrub j (Begin fault now incident x sha alert anchors ec) =
     snd (journal_begin fns scrub fault now incident x sha alert anchors ec j)"
| "journal_step fns scrub j (Note fault now x n) = snd (journal_note fns scrub fault now x n j)"
| "journal_step fns scrub j (Reconcile fault now) = snd (reconcile_restart fns scrub fault now j)"

definition empty_journal :: "audit_log option \<Rightarrow> journal" where
  "empty_journal al = \<lparr>jr_rows = [], jr_events = [], jr_audit = al\<rparr>"

text \<open>A transition replaces its row and appends its event, or leaves the tables alone.\<close>

definition same_tables :: "journal \<Rightarrow> journal \<Rightarrow> bool" where
  "same_tables j j' \<longleftrightarrow> jr_rows j' = jr_rows j \<and> jr_events j' = jr_events j"

lemma apply_note_cases:
  assumes "apply_note fault result before j1 = (r, j')"
  obtains (failed) e where "r = Inl e" and "same_tables before j'"
    | (done_) row' ev al where "r = Inr ()" and "result = (Inr (row', ev), al)"
        and "j' = \<lparr>jr_rows = update_row row' (jr_rows j1), jr_events = jr_events j1 @ [ev], jr_audit = al\<rparr>"
  using assms by (auto simp: apply_note_def same_tables_def split: prod.splits sum.splits if_splits)

lemma journal_note_cases:
  assumes "journal_note fns scrub fault now x n j = (r, j')"
  obtains (failed) e where "r = Inl e" and "same_tables j j'"
    | (done_) row row' ev al where "r = Inr ()" and "find_row x j = Some row"
        and "ex_state row \<notin> TERMINAL_STATES"
        and "row' = row\<lparr>ex_phase := na_phase n, ex_state := na_state n,
                        ex_record := note_record scrub n row, ex_updated := now\<rparr>"
        and "ev_execution ev = x"
        and "j' = \<lparr>jr_rows = update_row row' (jr_rows j), jr_events = jr_events j @ [ev], jr_audit = al\<rparr>"
proof (cases "na_phase n \<notin> PHASES \<or> na_state n \<notin> TERMINAL_STATES \<union> {''running''}")
  case True
  with assms show thesis by (intro failed) (auto simp: journal_note_def same_tables_def)
next
  case False
  with assms have "apply_note fault (note_body fns scrub now x n j) j j = (r, j')"
    by (simp add: journal_note_def split: if_splits)
  then show thesis
  proof (cases rule: apply_note_cases)
    case (failed e)
    then show thesis by (rule that(1))
  next
    case (done_ row' ev al)
    from done_(2) obtain row where "find_row x j = Some row" "ex_state row \<notin> TERMINAL_STATES"
      "row' = row\<lparr>ex_phase := na_phase n, ex_state := na_state n,
                  ex_record := note_record scrub n row, ex_updated := now\<rparr>" "ev_execution ev = x"
      by (rule note_body_ok)
    with done_ show thesis by (intro that(2))
  qed
qed

lemma find_row_update:
  "find_row y \<lparr>jr_rows = update_row row (jr_rows j), jr_events = es, jr_audit = al\<rparr> =
     (if y = ex_id row then (if find_row y j = None then None else Some row) else find_row y j)"
proof -
  have "find (\<lambda>r. ex_id r = y) (update_row row rs) =
      (if y = ex_id row then (if find (\<lambda>r. ex_id r = y) rs = None then None else Some row)
       else find (\<lambda>r. ex_id r = y) rs)" for rs
    by (induction rs) (auto simp: update_row_def)
  then show ?thesis by (simp add: find_row_def)
qed

lemma same_tables_simps:
  "same_tables j j' \<Longrightarrow> find_row x j' = find_row x j"
  "same_tables j j' \<Longrightarrow> events_of x j' = events_of x j"
  by (simp_all add: same_tables_def find_row_def events_of_def)

text \<open>What a transition of one execution does to the rows and events of all of them.\<close>

lemma journal_note_others:
  assumes "journal_note fns scrub fault now x n j = (r, j')" and "y \<noteq> x"
  shows "find_row y j' = find_row y j \<and> events_of y j' = events_of y j"
  using assms(1)
proof (cases rule: journal_note_cases)
  case (failed e)
  then show ?thesis by (simp add: same_tables_simps)
next
  case (done_ row row' ev al)
  have "events_of y j' = events_of y j" using done_(5,6) assms(2) by (simp add: events_of_def)
  moreover have "ex_id row' \<noteq> y" using done_(2,4) assms(2) by (auto dest: find_row_in)
  ultimately show ?thesis using done_(6) by (simp add: find_row_update)
qed

lemma journal_note_terminal:
  assumes "journal_note fns scrub fault now x n j = (r, j')"
    and "find_row x j = Some row" and "ex_state row \<in> TERMINAL_STATES"
  shows "same_tables j j'"
  using assms(1) by (cases rule: journal_note_cases) (use assms in auto)

lemma journal_note_done:
  assumes "journal_note fns scrub fault now x n j = (Inr (), j')"
  obtains row where "find_row x j = Some row"
    and "find_row x j' = Some (row\<lparr>ex_phase := na_phase n, ex_state := na_state n,
                                  ex_record := note_record scrub n row, ex_updated := now\<rparr>)"
  using assms
proof (cases rule: journal_note_cases)
  case (done_ row row' ev al)
  have "ex_id row' = x" using done_(2,4) by (auto dest: find_row_in)
  with done_ that show thesis by (simp add: find_row_update)
qed simp

lemma find_append_or:
  "find P (xs @ ys) = (case find P xs of None \<Rightarrow> find P ys | Some y \<Rightarrow> Some y)"
  by (induction xs) auto

lemma journal_begin_effect:
  assumes "journal_begin fns scrub fault now incident x sha alert anchors ec j = (r, j')"
    and "find_row y j = Some row" and "tables_ok j"
  shows "find_row y j' = Some row \<and> events_of y j' = events_of y j"
proof (cases "same_tables j j'")
  case True
  with assms(2) show ?thesis by (simp add: same_tables_simps)
next
  case False
  let ?row = "\<lparr>ex_id = x, ex_incident = incident, ex_phase = ''queued'', ex_state = ''running'',
      ex_record = initial_record scrub incident x sha alert anchors ec, ex_updated = now\<rparr>"
  let ?j1 = "j\<lparr>jr_rows := jr_rows j @ [?row]\<rparr>"
  let ?n = "\<lparr>na_phase = ''queued'', na_event = ''admitted'', na_patch = [], na_state = ''running''\<rparr>"
  from assms(1) False have fresh: "find_row x j = None"
    and "apply_note fault (note_body fns scrub now x ?n ?j1) j ?j1 = (r, j')"
    by (auto simp: journal_begin_def Let_def same_tables_def split: if_splits)
  from this(2) show ?thesis
  proof (cases rule: apply_note_cases)
    case (failed e)
    with False show ?thesis by simp
  next
    case (done_ row' ev al)
    obtain old where old: "find_row x ?j1 = Some old" "ex_id row' = ex_id old" "ev_execution ev = x"
      using done_(2) by (rule note_body_ok) auto
    have "ex_id old = x" using old(1) by (auto dest: find_row_in)
    moreover have "y \<noteq> x" using fresh assms(2) by auto
    moreover have "find_row y ?j1 = Some row"
      using assms(2) by (auto simp: find_row_def find_append_or)
    ultimately show ?thesis using done_(3) old
      by (simp add: find_row_update [of y row' ?j1, simplified]) (simp add: events_of_def)
  qed
qed

lemma reconcile_rows_terminal:
  assumes "reconcile_rows fns scrub fault now rows j = (r, j')"
    and "find_row y j = Some row" and "ex_state row \<in> TERMINAL_STATES"
  shows "find_row y j' = Some row \<and> events_of y j' = events_of y j"
  using assms
proof (induction rows arbitrary: j)
  case Nil
  then show ?case by simp
next
  case (Cons r0 rows)
  obtain r1 j1 where noted:
      "journal_note fns scrub (fault (ex_id r0)) now (ex_id r0) (restart_note r0) j = (r1, j1)"
    by fastforce
  have kept: "find_row y j1 = Some row \<and> events_of y j1 = events_of y j"
  proof (cases "y = ex_id r0")
    case True
    with noted Cons.prems(2,3) have "same_tables j j1" using journal_note_terminal by blast
    with Cons.prems(2) show ?thesis by (simp add: same_tables_simps)
  next
    case False
    with journal_note_others [OF noted False] Cons.prems(2) show ?thesis by simp
  qed
  from Cons.prems(1) noted consider "j' = j" | "j' = j1"
    | "reconcile_rows fns scrub fault now rows j1 = (r, j')"
    by (auto split: sum.splits)
  then show ?case using kept Cons.prems Cons.IH [of j1] by cases auto
qed

definition settled_row :: "execution_row \<Rightarrow> event_row list \<Rightarrow> journal \<Rightarrow> bool" where
  "settled_row row evs j \<longleftrightarrow>
     ex_state row \<in> TERMINAL_STATES \<and> find_row (ex_id row) j = Some row \<and> events_of (ex_id row) j = evs"

interpretation journaling:
  latched_machine "journal_step fns scrub" "journal_inv fns" "settled_row row evs" "\<lambda>_. False"
  for fns :: fns and scrub :: "string \<Rightarrow> string" and row :: execution_row and evs :: "event_row list"
proof unfold_locales
  fix j e
  assume "journal_inv fns j"
  then show "journal_inv fns (journal_step fns scrub j e)"
    by (cases e) (simp_all add: journal_begin_inv journal_note_inv reconcile_restart_def reconcile_rows_inv)
next
  fix j e
  assume inv: "journal_inv fns j" and "settled_row row evs j"
  then have row: "ex_state row \<in> TERMINAL_STATES" "find_row (ex_id row) j = Some row"
    "events_of (ex_id row) j = evs" by (simp_all add: settled_row_def)
  show "settled_row row evs (journal_step fns scrub j e)"
  proof (cases e)
    case (Begin fault now incident x sha alert anchors ec)
    with journal_begin_effect [OF prod.collapse [symmetric] row(2)] inv row show ?thesis
      by (simp add: settled_row_def journal_inv_def)
  next
    case (Note fault now x n)
    show ?thesis
    proof (cases "ex_id row = x")
      case True
      with journal_note_terminal [OF prod.collapse [symmetric], of x j row] row Note
      have "same_tables j (journal_step fns scrub j e)" by simp
      with row show ?thesis by (simp add: settled_row_def same_tables_simps)
    next
      case False
      with journal_note_others [OF prod.collapse [symmetric], of "ex_id row" x] row Note show ?thesis
        by (simp add: settled_row_def)
    qed
  next
    case (Reconcile fault now)
    with reconcile_rows_terminal [OF prod.collapse [symmetric] row(2,1)] row show ?thesis
      by (simp add: settled_row_def reconcile_restart_def)
  qed
qed

section \<open>Reading back\<close>

lemma snapshot_matches: "row_matches row ev \<Longrightarrow> snapshot_differs (ev_payload ev) row = Inr False"
  by (simp add: row_matches_def snapshot_differs_def need_key_def)

lemma journal_read_row:
  assumes inv: "journal_inv fns j" and row: "find_row x j = Some row"
    and size: "length (events_of x j) \<le> MAX_EVENTS"
  obtains v where "journal_read fns x j = Inr v" and "xv_phase v = ex_phase row"
    and "xv_state v = ex_state row" and "xv_record v = ex_record row" and "xv_updated v = ex_updated row"
    and "xv_events v = map ev_payload (events_of x j)"
proof -
  have in_rows: "row \<in> set (jr_rows j)" "ex_id row = x" using find_row_in [OF row] by simp_all
  with inv have ok: "row_ok fns (events_of x j) row" and valid: "valid_execution_id (PStr x)"
    by (auto simp: journal_inv_def tables_ok_def)
  have all: "take (MAX_EVENTS + 1) (events_of x j) = events_of x j" using size by simp
  have checked: "check_events fns x '''' (events_of x j) = Inr (last_seal ev_hash '''' (events_of x j))"
    using ok in_rows(2) by (simp add: row_ok_def check_linked_events)
  have matches: "row_matches row (last (events_of x j))" "events_of x j \<noteq> []"
    using ok by (simp_all add: row_ok_def)
  then have "dget (ev_payload (last (events_of x j))) ''record'' = PDict (ex_record row)"
    by (simp add: row_matches_def dget_def dget_or_def)
  with that show thesis
    using row valid checked snapshot_matches [OF matches(1)] matches(2) size
    by (simp only: journal_read_def all) (simp add: Let_def)
qed

text \<open>Events that \<open>read\<close> accepts: the payload may leave out the previous hash.\<close>

definition accepted_event :: "fns \<Rightarrow> string \<Rightarrow> string \<Rightarrow> event_row \<Rightarrow> bool" where
  "accepted_event fns x prev ev \<longleftrightarrow>
     dget (ev_payload ev) ''execution_id'' = PStr x \<and>
     (dhas (ev_payload ev) ''prev_hash'' \<longrightarrow> dget (ev_payload ev) ''prev_hash'' = PStr prev) \<and>
     ev_prev ev = prev \<and> ev_hash ev = event_hash fns prev (ev_payload ev)"

interpretation read_chain:
  hash_chain "accepted_event fns x" ev_hash "\<lambda>ev. (ev_prev ev, ev_payload ev)"
  for fns :: fns and x :: string
  by unfold_locales (auto simp: accepted_event_def)

lemma check_events_accepts:
  "check_events fns x prev evs = Inr h \<longleftrightarrow>
     linked (accepted_event fns x) ev_hash prev evs \<and> h = last_seal ev_hash prev evs"
  by (induction evs arbitrary: prev) (auto simp: accepted_event_def Let_def)

lemma journal_read_accepted:
  assumes "journal_read fns x j = Inr v"
  shows "linked (accepted_event fns x) ev_hash '''' (events_of x j)"
    and "xv_last_hash v = last_seal ev_hash '''' (events_of x j)"
    and "xv_events v = map ev_payload (events_of x j)"
proof -
  from assms have size: "length (take (MAX_EVENTS + 1) (events_of x j)) \<le> MAX_EVENTS"
    by (auto simp: journal_read_def Let_def split: if_splits option.splits)
  then have all: "take (MAX_EVENTS + 1) (events_of x j) = events_of x j" by simp
  from assms obtain h where "check_events fns x '''' (events_of x j) = Inr h" "xv_last_hash v = h"
    "xv_events v = map ev_payload (events_of x j)"
    unfolding journal_read_def all
    by (auto simp: rbind_eq_Inr Let_def split: if_splits option.splits)
  then show "linked (accepted_event fns x) ev_hash '''' (events_of x j)"
    and "xv_last_hash v = last_seal ev_hash '''' (events_of x j)"
    and "xv_events v = map ev_payload (events_of x j)"
    by (simp_all add: check_events_accepts)
qed

text \<open>Reconciling: every row it was given ends, the others stay.\<close>

lemma reconcile_rows_done:
  assumes "reconcile_rows fns scrub fault now rows j = (Inr (), j')" and "distinct (map ex_id rows)"
  shows "(\<forall>row \<in> set rows. \<exists>row'. find_row (ex_id row) j' = Some row' \<and>
            ex_phase row' = ''finished'' \<and> ex_state row' = na_state (restart_note row)) \<and>
         (\<forall>y. y \<notin> ex_id ` set rows \<longrightarrow> find_row y j' = find_row y j)"
  using assms
proof (induction rows arbitrary: j)
  case Nil
  then show ?case by simp
next
  case (Cons row rows)
  from Cons.prems(1) obtain j1 where
      noted: "journal_note fns scrub (fault (ex_id row)) now (ex_id row) (restart_note row) j = (Inr (), j1)"
      and rest: "reconcile_rows fns scrub fault now rows j1 = (Inr (), j')"
    by (auto split: sum.splits prod.splits)
  from noted obtain row' where row': "find_row (ex_id row) j1 = Some row'"
      "ex_phase row' = ''finished''" "ex_state row' = na_state (restart_note row)"
    by (rule journal_note_done) (auto simp: restart_note_def)
  note others = journal_note_others [OF noted]
  have later: "(\<forall>row \<in> set rows. \<exists>row'. find_row (ex_id row) j' = Some row' \<and>
            ex_phase row' = ''finished'' \<and> ex_state row' = na_state (restart_note row)) \<and>
         (\<forall>y. y \<notin> ex_id ` set rows \<longrightarrow> find_row y j' = find_row y j1)"
    using Cons.IH [OF rest] Cons.prems(2) by simp
  moreover have "find_row (ex_id row) j' = Some row'"
    using later row'(1) Cons.prems(2) by (metis distinct.simps(2) list.simps(9) set_map)
  ultimately show ?case using row' others by auto
qed

text \<open>Transitions that return.\<close>

lemma progress_summary_ok: "dget rec ''approval'' = PNone \<Longrightarrow> is_ok (progress_summary e p s rec)"
  by (simp add: progress_summary_def py_or_def)

lemma note_body_total:
  assumes "find_row x j = Some row" and "ex_state row \<notin> TERMINAL_STATES"
    and "\<not> identity_changed (na_patch n) (ex_record row)"
    and "json_finite (PDict (note_record scrub n row))"
    and "dget (note_record scrub n row) ''approval'' = PNone" and "jr_audit j = Some al"
  shows "\<exists>ev al'. note_body fns scrub now x n j =
    (Inr (row\<lparr>ex_phase := na_phase n, ex_state := na_state n,
              ex_record := note_record scrub n row, ex_updated := now\<rparr>, ev), Some al') \<and>
    ev_execution ev = x"
proof -
  have "json_finite (PDict (note_transition now x n (note_record scrub n row) p))" for p
    using assms(4) by (simp add: note_transition_def)
  moreover obtain summary where
    "progress_summary (na_event n) (na_phase n) (na_state n) (note_record scrub n row) = Inr summary"
    using progress_summary_ok [OF assms(5), of "na_event n" "na_phase n" "na_state n"]
    by (cases "progress_summary (na_event n) (na_phase n) (na_state n) (note_record scrub n row)") simp_all
  ultimately show ?thesis
    using assms(1,2,3,6) by (simp add: note_body_def note_outcome_def Let_def split: prod.split)
qed

lemma journal_note_total:
  assumes "na_phase n \<in> PHASES" and "na_state n \<in> TERMINAL_STATES \<union> {''running''}"
    and "find_row x j = Some row" and "ex_state row \<notin> TERMINAL_STATES"
    and "\<not> identity_changed (na_patch n) (ex_record row)"
    and "json_finite (PDict (note_record scrub n row))"
    and "dget (note_record scrub n row) ''approval'' = PNone" and "jr_audit j = Some al"
  shows "\<exists>j' al' ev. journal_note fns scrub False now x n j = (Inr (), j') \<and> jr_audit j' = Some al' \<and>
    events_of x j' = events_of x j @ [ev]"
  using note_body_total [OF assms(3-8), of fns now] assms(1,2)
  by (auto simp: journal_note_def apply_note_def events_of_def)

lemma merge_nothing [simp]: "na_patch n = [] \<Longrightarrow> note_record scrub n row = ex_record row"
  by (simp add: note_record_def merge_patch_def MAX_EVIDENCE_DEPTH_def)

lemma journal_begin_total:
  assumes "valid_incident_id (PStr incident)" and "valid_execution_id (PStr x)" and "find_row x j = None"
    and rec: "rec = initial_record scrub incident x source_sha alert anchors ec"
    and "json_finite (PDict rec)" and "dget rec ''approval'' = PNone" and "jr_audit j = Some al"
    and "events_of x j = []"
  shows "\<exists>j' al' ev. journal_begin fns scrub False now incident x source_sha alert anchors ec j = (Inr (), j') \<and>
    jr_audit j' = Some al' \<and> events_of x j' = [ev] \<and>
    find_row x j' = Some \<lparr>ex_id = x, ex_incident = incident, ex_phase = ''queued'', ex_state = ''running'',
                          ex_record = rec, ex_updated = now\<rparr>"
proof -
  let ?row = "\<lparr>ex_id = x, ex_incident = incident, ex_phase = ''queued'', ex_state = ''running'',
               ex_record = rec, ex_updated = now\<rparr>"
  let ?j1 = "j\<lparr>jr_rows := jr_rows j @ [?row]\<rparr>"
  let ?n = "\<lparr>na_phase = ''queued'', na_event = ''admitted'', na_patch = [], na_state = ''running''\<rparr>"
  have new: "find_row x ?j1 = Some ?row"
    using assms(3) by (simp add: find_row_def find_append_or)
  obtain ev al' where "note_body fns scrub now x ?n ?j1 = (Inr (?row, ev), Some al')" "ev_execution ev = x"
    using note_body_total [OF new, of ?n scrub al fns now] assms(5-7)
    by (auto simp: TERMINAL_STATES_def identity_changed_def)
  let ?j' = "\<lparr>jr_rows = update_row ?row (jr_rows ?j1), jr_events = jr_events ?j1 @ [ev], jr_audit = Some al'\<rparr>"
  have "journal_begin fns scrub False now incident x source_sha alert anchors ec j
      = apply_note False (note_body fns scrub now x ?n ?j1) j ?j1"
    using assms(1,2,3,5) by (simp add: journal_begin_def Let_def rec)
  also have "\<dots> = (Inr (), ?j')"
    using \<open>note_body fns scrub now x ?n ?j1 = _\<close> by (simp add: apply_note_def)
  finally have "journal_begin fns scrub False now incident x source_sha alert anchors ec j = (Inr (), ?j')" .
  moreover have "events_of x ?j' = [ev]"
    using assms(8) \<open>ev_execution ev = x\<close> by (simp add: events_of_def)
  moreover have "find_row x ?j' = Some ?row" by (subst find_row_update) (simp only: new execution_row.simps if_True option.simps, simp)
  ultimately show ?thesis by force
qed

section \<open>Properties\<close>

text \<open>
  An intact chain of an execution, said over positions: every event belongs to the execution, repeats the
  hash of the event before it (in its row, and in its payload if it has the field there), and has the
  digest of that hash and its own payload.
\<close>

definition chain_intact :: "fns \<Rightarrow> string \<Rightarrow> event_row list \<Rightarrow> bool" where
  "chain_intact fns x evs \<longleftrightarrow>
     (\<forall>k < length evs.
        let e = evs ! k; previous = (if k = 0 then '''' else ev_hash (evs ! (k - 1))) in
        dget (ev_payload e) ''execution_id'' = PStr x \<and> ev_prev e = previous \<and>
        (dhas (ev_payload e) ''prev_hash'' \<longrightarrow> dget (ev_payload e) ''prev_hash'' = PStr previous) \<and>
        (case fns of (ff, fmt, sha, hmac) \<Rightarrow> ev_hash e = sha (previous @ canonical_text ff (PDict (ev_payload e)))))"

lemma linked_nth:
  "linked good seal prev es \<longleftrightarrow> (\<forall>k < length es. good (if k = 0 then prev else seal (es ! (k - 1))) (es ! k))"
proof (induction es arbitrary: prev)
  case (Cons e es)
  have "(if k = 0 then seal e else seal (es ! (k - 1))) = seal ((e # es) ! k)" for k by (cases k) simp_all
  with Cons.IH [of "seal e"] show ?case by (simp add: All_less_Suc2)
qed simp

lemma accepted_chain: "linked (accepted_event fns x) ev_hash '''' evs \<longleftrightarrow> chain_intact fns x evs"
proof -
  have "accepted_event fns x p e \<longleftrightarrow>
      dget (ev_payload e) ''execution_id'' = PStr x \<and> ev_prev e = p \<and>
      (dhas (ev_payload e) ''prev_hash'' \<longrightarrow> dget (ev_payload e) ''prev_hash'' = PStr p) \<and>
      (case fns of (ff, fmt, sha, hmac) \<Rightarrow> ev_hash e = sha (p @ canonical_text ff (PDict (ev_payload e))))" for p e
    by (cases fns) (auto simp: accepted_event_def event_hash_def)
  then show ?thesis by (simp only: linked_nth chain_intact_def Let_def)
qed

text \<open>
  C40. A transition that returns has appended one event to its execution and can be read back, whatever
  calls came before it: \<open>read\<close> returns the phase, the state, the time and the merged record of that
  transition and the payloads of all events of the execution.  The limit is 10000 events: once an
  execution has more, the transition still returns and \<open>read\<close> raises.  And \<open>read\<close> vouches for the chain:
  of any stored journal, whatever was done to its tables, it returns only events whose chain is intact.
\<close>

theorem successful_transition_reads_back:
  assumes "j = run (journal_step fns scrub) (empty_journal al) es"
    and "journal_note fns scrub fault now x n j = (Inr (), j')"
  shows "(\<exists>row ev. find_row x j = Some row \<and> events_of x j' = events_of x j @ [ev] \<and>
      (if length (events_of x j') \<le> 10000
       then \<exists>v. journal_read fns x j' = Inr v \<and> xv_phase v = na_phase n \<and> xv_state v = na_state n \<and>
           xv_updated v = now \<and> xv_record v = note_record scrub n row \<and>
           xv_events v = map ev_payload (events_of x j')
       else journal_read fns x j' = Inl HistoryAbsent)) \<and>
    (\<forall>stored v. journal_read fns x stored = Inr v \<longrightarrow>
       chain_intact fns x (events_of x stored) \<and> xv_events v = map ev_payload (events_of x stored))"
proof -
  have "journal_inv fns j"
    unfolding assms(1) by (intro journaling.inv_run) (simp add: empty_journal_def)
  with assms(2) have inv: "journal_inv fns j'" using journal_note_inv by (metis snd_conv)
  from assms(2) obtain row where row: "find_row x j = Some row" and row': "find_row x j' =
      Some (row\<lparr>ex_phase := na_phase n, ex_state := na_state n,
                ex_record := note_record scrub n row, ex_updated := now\<rparr>)"
    by (rule journal_note_done)
  from assms(2) obtain ev where ev: "events_of x j' = events_of x j @ [ev]"
    by (cases rule: journal_note_cases) (auto simp: events_of_def)
  have "\<exists>v. journal_read fns x j' = Inr v \<and> xv_phase v = na_phase n \<and> xv_state v = na_state n \<and>
      xv_updated v = now \<and> xv_record v = note_record scrub n row \<and> xv_events v = map ev_payload (events_of x j')"
    if "length (events_of x j') \<le> 10000"
    using inv row' by (rule journal_read_row) (use that in \<open>auto simp: MAX_EVENTS_def\<close>)
  moreover have "journal_read fns x j' = Inl HistoryAbsent" if "\<not> length (events_of x j') \<le> 10000"
  proof -
    have "x \<in> ex_id ` set (jr_rows j')" using find_row_in [OF row'] by (metis image_eqI)
    then have "valid_execution_id (PStr x)" using inv by (auto simp: journal_inv_def tables_ok_def)
    with that row' show ?thesis by (simp add: journal_read_def Let_def MAX_EVENTS_def)
  qed
  moreover have "chain_intact fns x (events_of x stored) \<and> xv_events v = map ev_payload (events_of x stored)"
    if "journal_read fns x stored = Inr v" for stored v
    using journal_read_accepted [OF that] by (simp add: accepted_chain)
  ultimately show ?thesis using row ev by (intro conjI exI [of _ row] exI [of _ ev]) simp_all
qed

text \<open>
  A terminal execution is final: its row and its events stay exactly as they are through any later
  history of calls, restarts included.
\<close>

theorem terminal_execution_is_final:
  assumes "j = run (journal_step fns scrub) (empty_journal al) es"
    and "find_row x j = Some row" and "ex_state row \<in> TERMINAL_STATES"
  shows "find_row x (run (journal_step fns scrub) j later) = Some row \<and>
         events_of x (run (journal_step fns scrub) j later) = events_of x j"
proof -
  have "journal_inv fns j"
    unfolding assms(1) by (intro journaling.inv_run) (simp add: empty_journal_def)
  moreover have x: "ex_id row = x" using assms(2) by (auto dest: find_row_in)
  then have "settled_row row (events_of x j) j" using assms(2,3) by (simp add: settled_row_def)
  ultimately have "settled_row row (events_of x j) (run (journal_step fns scrub) j later)"
    by (intro journaling.latch_run) (simp_all add: list_all_iff)
  with x show ?thesis by (simp add: settled_row_def)
qed

text \<open>
  After a restart reconciliation that returns, no execution is running: each execution that was
  running is finished, as \<open>uncertain\<close> when it was applying a change and as \<open>interrupted\<close> otherwise, and
  the other executions are unchanged.
\<close>

theorem reconcile_leaves_nothing_running:
  assumes "j = run (journal_step fns scrub) (empty_journal al) es"
    and "reconcile_restart fns scrub fault now j = (Inr (), j')" and "find_row x j = Some row"
  shows "\<exists>row'. find_row x j' = Some row' \<and> ex_state row' \<noteq> ''running'' \<and>
           (if ex_state row = ''running''
            then ex_phase row' = ''finished'' \<and>
                 ex_state row' = (if ex_phase row = ''applying'' then ''uncertain'' else ''interrupted'')
            else row' = row)"
proof -
  let ?rows = "filter (\<lambda>r. ex_state r = ''running'') (jr_rows j)"
  have "journal_inv fns j"
    unfolding assms(1) by (intro journaling.inv_run) (simp add: empty_journal_def)
  then have ids: "distinct (map ex_id (jr_rows j))" by (simp add: journal_inv_def tables_ok_def)
  note done_ = reconcile_rows_done [OF assms(2) [unfolded reconcile_restart_def] distinct_map_filter [OF ids]]
  have in_rows: "row \<in> set (jr_rows j)" "ex_id row = x" using find_row_in [OF assms(3)] by simp_all
  show ?thesis
  proof (cases "ex_state row = ''running''")
    case True
    with in_rows done_ obtain row' where "find_row x j' = Some row'" "ex_phase row' = ''finished''"
      "ex_state row' = na_state (restart_note row)" by (force simp: image_iff)
    with True show ?thesis by (simp add: restart_note_def)
  next
    case False
    have "x \<notin> ex_id ` set ?rows"
    proof
      assume "x \<in> ex_id ` set ?rows"
      then obtain r where r: "r \<in> set (jr_rows j)" "ex_id r = x" "ex_state r = ''running''" by auto
      with find_row_distinct [OF ids r(1)] assms(3) False show False by simp
    qed
    with done_ assms(3) False show ?thesis by simp
  qed
qed

text \<open>
  The hash shown by \<open>read\<close> binds the history: two journals in which the same execution reads with
  the same last hash show the same events, unless the hash collides on two of their events or some
  event hashes to the empty string.
\<close>

theorem read_hash_binds_events:
  assumes "journal_read fns x j = Inr v" and "journal_read fns x j' = Inr v'"
    and "xv_last_hash v = xv_last_hash v'"
    and "\<forall>e \<in> set (events_of x j). \<forall>e' \<in> set (events_of x j'). ev_hash e = ev_hash e' \<longrightarrow>
           (ev_prev e, ev_payload e) = (ev_prev e', ev_payload e')"
    and "\<forall>e \<in> set (events_of x j) \<union> set (events_of x j'). ev_hash e \<noteq> ''''"
  shows "xv_events v = xv_events v'"
proof -
  have "map (\<lambda>ev. (ev_prev ev, ev_payload ev)) (events_of x j)
      = map (\<lambda>ev. (ev_prev ev, ev_payload ev)) (events_of x j')"
    by (rule read_chain.last_seal_binds [OF journal_read_accepted(1) [OF assms(1)]
          journal_read_accepted(1) [OF assms(2)] _ assms(4,5)])
      (use journal_read_accepted(2) [OF assms(1)] journal_read_accepted(2) [OF assms(2)] assms(3) in simp)
  then have "map snd (map (\<lambda>ev. (ev_prev ev, ev_payload ev)) (events_of x j))
      = map snd (map (\<lambda>ev. (ev_prev ev, ev_payload ev)) (events_of x j'))" by simp
  then show ?thesis
    using journal_read_accepted(3) [OF assms(1)] journal_read_accepted(3) [OF assms(2)]
    by (simp add: comp_def)
qed

section \<open>Witnesses\<close>

text \<open>An execution that is admitted, then applies a change or ends.\<close>

definition sample_id :: string where
  "sample_id = replicate 32 (CHR ''a'')"

definition sample_record :: pydict where
  "sample_record = initial_record (\<lambda>s. s) ''inc'' sample_id PNone [] PNone ''OPERATIONAL_UNCERTIFIED''"

definition sample_fns :: fns where
  "sample_fns = (\<lambda>_. ''0'', \<lambda>_. '''', \<lambda>_. ''h'', \<lambda>_ _. ''m'')"

definition sample_note :: "string \<Rightarrow> string \<Rightarrow> note_args" where
  "sample_note phase state = \<lparr>na_phase = phase, na_event = ''e'', na_patch = [], na_state = state\<rparr>"

definition sample_begin :: journal_event where
  "sample_begin = Begin False 1 ''inc'' sample_id PNone [] PNone ''OPERATIONAL_UNCERTIFIED''"

definition sample_start :: journal where
  "sample_start = empty_journal (Some \<lparr>al_secret = ''k'', al_lines = [], al_last_hash = ''''\<rparr>)"

definition after_begin :: journal where
  "after_begin = run (journal_step sample_fns (\<lambda>s. s)) sample_start [sample_begin]"

definition after_note :: "string \<Rightarrow> string \<Rightarrow> journal" where
  "after_note phase state = run (journal_step sample_fns (\<lambda>s. s)) sample_start
     [sample_begin, Note False 2 sample_id (sample_note phase state)]"

lemma sample_record_eq: "sample_record =
  [(''incident_id'', PStr ''inc''), (''execution_id'', PStr sample_id), (''source_sha'', PNone),
   (''alert'', PDict []), (''incident_anchors'', PNone),
   (''evidence_class'', PStr ''OPERATIONAL_UNCERTIFIED''), (''certification_status'', PStr ''NOT_CERTIFIED''),
   (''resolved'', PBool False), (''env_resolved'', PNone)]"
  by (simp add: sample_record_def initial_record_def evidence_field_is_secret_def secret_key_def
      SECRET_WORDS_def starts_with_def py_lower_def lower_char_def MAX_EVIDENCE_DEPTH_def
      MAX_EVIDENCE_ITEMS_def MAX_EVIDENCE_TEXT_def TOKEN_COUNT_FIELDS_def sample_id_def)

lemma sample_ids: "valid_incident_id (PStr ''inc'')" "valid_execution_id (PStr sample_id)"
  unfolding sample_id_def by code_simp+

lemma sample_admitted: "\<exists>j' al' ev. journal_begin sample_fns (\<lambda>s. s) False 1 ''inc'' sample_id PNone [] PNone
    ''OPERATIONAL_UNCERTIFIED'' sample_start = (Inr (), j') \<and> jr_audit j' = Some al' \<and>
    events_of sample_id j' = [ev] \<and> find_row sample_id j' =
    Some \<lparr>ex_id = sample_id, ex_incident = ''inc'', ex_phase = ''queued'', ex_state = ''running'',
          ex_record = sample_record, ex_updated = 1\<rparr>"
  by (rule journal_begin_total [OF sample_ids _ sample_record_def])
    (simp_all add: sample_record_eq sample_start_def empty_journal_def find_row_def events_of_def)

lemma after_begin_state: "\<exists>al' ev. jr_audit after_begin = Some al' \<and>
    events_of sample_id after_begin = [ev] \<and> find_row sample_id after_begin =
    Some \<lparr>ex_id = sample_id, ex_incident = ''inc'', ex_phase = ''queued'', ex_state = ''running'',
          ex_record = sample_record, ex_updated = 1\<rparr>"
  using sample_admitted by (auto simp: after_begin_def sample_begin_def)

lemma after_note_state:
  assumes "phase \<in> PHASES" and "state \<in> TERMINAL_STATES \<union> {''running''}"
  shows "\<exists>al' ev ev'. journal_note sample_fns (\<lambda>s. s) False 2 sample_id (sample_note phase state) after_begin
           = (Inr (), after_note phase state) \<and> jr_audit (after_note phase state) = Some al' \<and>
         events_of sample_id (after_note phase state) = [ev, ev'] \<and>
         find_row sample_id (after_note phase state) =
         Some \<lparr>ex_id = sample_id, ex_incident = ''inc'', ex_phase = phase, ex_state = state,
               ex_record = sample_record, ex_updated = 2\<rparr>"
proof -
  let ?row = "\<lparr>ex_id = sample_id, ex_incident = ''inc'', ex_phase = ''queued'', ex_state = ''running'',
               ex_record = sample_record, ex_updated = 1\<rparr>"
  obtain al ev where b: "jr_audit after_begin = Some al" "events_of sample_id after_begin = [ev]"
    "find_row sample_id after_begin = Some ?row" using after_begin_state by blast
  have "\<exists>j' al' ev'. journal_note sample_fns (\<lambda>s. s) False 2 sample_id (sample_note phase state) after_begin
      = (Inr (), j') \<and> jr_audit j' = Some al' \<and>
      events_of sample_id j' = events_of sample_id after_begin @ [ev']"
    by (rule journal_note_total [OF _ _ b(3) _ _ _ _ b(1)])
      (use assms in \<open>simp_all add: sample_note_def TERMINAL_STATES_def identity_changed_def sample_record_eq\<close>)
  then obtain j' al' ev' where n: "journal_note sample_fns (\<lambda>s. s) False 2 sample_id (sample_note phase state)
      after_begin = (Inr (), j')" "jr_audit j' = Some al'" "events_of sample_id j' = [ev, ev']"
    using b(2) by auto
  have "j' = after_note phase state"
    using n(1) by (simp add: after_note_def after_begin_def)
  moreover have "find_row sample_id j' = Some \<lparr>ex_id = sample_id, ex_incident = ''inc'', ex_phase = phase,
      ex_state = state, ex_record = sample_record, ex_updated = 2\<rparr>"
    using n(1) by (rule journal_note_done) (use b(3) in \<open>simp add: sample_note_def\<close>)
  ultimately show ?thesis using n by blast
qed

theorem successful_transition_reads_back_witness:
  "\<exists>v. journal_read sample_fns sample_id (after_note ''applying'' ''running'') = Inr v \<and>
     xv_phase v = ''applying'' \<and> xv_state v = ''running'' \<and> xv_record v = sample_record"
proof -
  have "''applying'' \<in> PHASES" "''running'' \<in> TERMINAL_STATES \<union> {''running''}" by (simp_all add: PHASES_def)
  from after_note_state [OF this] obtain ev ev' where
      noted: "journal_note sample_fns (\<lambda>s. s) False 2 sample_id (sample_note ''applying'' ''running'')
        after_begin = (Inr (), after_note ''applying'' ''running'')"
      "events_of sample_id (after_note ''applying'' ''running'') = [ev, ev']" by blast
  have "length (events_of sample_id (after_note ''applying'' ''running'')) \<le> 10000" using noted(2) by simp
  with successful_transition_reads_back
    [OF after_begin_def [unfolded sample_start_def] noted(1)]
  obtain row v where "find_row sample_id after_begin = Some row"
    "journal_read sample_fns sample_id (after_note ''applying'' ''running'') = Inr v"
    "xv_phase v = ''applying''" "xv_state v = ''running''"
    "xv_record v = note_record (\<lambda>s. s) (sample_note ''applying'' ''running'') row"
    by (auto simp: sample_note_def)
  with after_begin_state show ?thesis by (auto simp: sample_note_def)
qed

theorem terminal_execution_is_final_witness:
  "find_row sample_id (run (journal_step sample_fns (\<lambda>s. s)) (after_note ''finished'' ''completed'')
     [Note False 3 sample_id (sample_note ''applying'' ''running'')])
   = Some \<lparr>ex_id = sample_id, ex_incident = ''inc'', ex_phase = ''finished'', ex_state = ''completed'',
           ex_record = sample_record, ex_updated = 2\<rparr>"
proof -
  have "''finished'' \<in> PHASES" "''completed'' \<in> TERMINAL_STATES \<union> {''running''}"
    by (simp_all add: PHASES_def TERMINAL_STATES_def)
  from after_note_state [OF this] have "find_row sample_id (after_note ''finished'' ''completed'') =
      Some \<lparr>ex_id = sample_id, ex_incident = ''inc'', ex_phase = ''finished'', ex_state = ''completed'',
           ex_record = sample_record, ex_updated = 2\<rparr>" by blast
  from terminal_execution_is_final [OF after_note_def [unfolded sample_start_def] this] show ?thesis
    by (rule conjunct1) (simp add: TERMINAL_STATES_def)
qed

lemma sample_reconciled:
  "\<exists>j'. reconcile_restart sample_fns (\<lambda>s. s) (\<lambda>_. False) 3 (after_note ''applying'' ''running'') = (Inr (), j')"
proof -
  let ?j = "after_note ''applying'' ''running''"
  let ?row = "\<lparr>ex_id = sample_id, ex_incident = ''inc'', ex_phase = ''applying'', ex_state = ''running'',
               ex_record = sample_record, ex_updated = 2\<rparr>"
  have "''applying'' \<in> PHASES" "''running'' \<in> TERMINAL_STATES \<union> {''running''}" by (simp_all add: PHASES_def)
  from after_note_state [OF this] obtain al ev ev' where j: "jr_audit ?j = Some al"
    "events_of sample_id ?j = [ev, ev']" "find_row sample_id ?j = Some ?row"
    "journal_note sample_fns (\<lambda>s. s) False 2 sample_id (sample_note ''applying'' ''running'') after_begin
       = (Inr (), ?j)" by blast
  have inv: "journal_inv sample_fns ?j"
    unfolding after_note_def by (intro journaling.inv_run) (simp add: sample_start_def empty_journal_def)
  have read: "\<exists>v. journal_read sample_fns sample_id ?j = Inr v"
    by (rule journal_read_row [OF inv j(3)]) (use j(2) in \<open>auto simp: MAX_EVENTS_def\<close>)
  have rows: "\<exists>r. jr_rows after_begin = [r]" "\<exists>r. jr_rows ?j = [r]"
  proof -
    show one: "\<exists>r. jr_rows after_begin = [r]"
      using sample_admitted
      by (auto simp: after_begin_def sample_begin_def journal_begin_def Let_def apply_note_def
          sample_start_def empty_journal_def update_row_def split: if_splits prod.splits sum.splits)
    from j(4) show "\<exists>r. jr_rows ?j = [r]"
      by (cases rule: journal_note_cases) (use one in \<open>auto simp: update_row_def\<close>)
  qed
  with j(3) have running: "filter (\<lambda>r. ex_state r = ''running'') (jr_rows ?j) = [?row]"
    by (auto simp: find_row_def split: if_splits)
  let ?n = "restart_note ?row"
  have patch: "note_record (\<lambda>s. s) ?n ?row = sample_record @
      [(''replay_allowed'', PBool False), (''interrupted_phase'', PStr ''applying'')]"
    by (simp add: note_record_def merge_patch_def restart_note_def evidence_field_is_secret_def
        secret_key_def SECRET_WORDS_def starts_with_def py_lower_def lower_char_def
        MAX_EVIDENCE_DEPTH_def MAX_EVIDENCE_ITEMS_def MAX_EVIDENCE_TEXT_def TOKEN_COUNT_FIELDS_def
        sample_record_eq)
  have "\<exists>j' al' ev. journal_note sample_fns (\<lambda>s. s) False 3 sample_id ?n ?j = (Inr (), j') \<and>
      jr_audit j' = Some al' \<and> events_of sample_id j' = events_of sample_id ?j @ [ev]"
    by (rule journal_note_total [OF _ _ j(3) _ _ _ _ j(1)])
      (simp_all add: patch, simp_all add: restart_note_def PHASES_def TERMINAL_STATES_def
        identity_changed_def sample_record_eq)
  with read show ?thesis by (auto simp: reconcile_restart_def running)
qed

theorem reconcile_leaves_nothing_running_witness:
  "\<exists>j' row'. reconcile_restart sample_fns (\<lambda>s. s) (\<lambda>_. False) 3 (after_note ''applying'' ''running'')
       = (Inr (), j') \<and>
     find_row sample_id j' = Some row' \<and> ex_phase row' = ''finished'' \<and> ex_state row' = ''uncertain''"
proof -
  have "''applying'' \<in> PHASES" "''running'' \<in> TERMINAL_STATES \<union> {''running''}" by (simp_all add: PHASES_def)
  from after_note_state [OF this] have row: "find_row sample_id (after_note ''applying'' ''running'') =
      Some \<lparr>ex_id = sample_id, ex_incident = ''inc'', ex_phase = ''applying'', ex_state = ''running'',
           ex_record = sample_record, ex_updated = 2\<rparr>" by blast
  obtain j' where "reconcile_restart sample_fns (\<lambda>s. s) (\<lambda>_. False) 3 (after_note ''applying'' ''running'')
      = (Inr (), j')" using sample_reconciled by blast
  with reconcile_leaves_nothing_running [OF after_note_def [unfolded sample_start_def] this row]
  show ?thesis by auto
qed

theorem read_hash_binds_events_witness:
  "\<exists>v. journal_read sample_fns sample_id after_begin = Inr v \<and> xv_events v = xv_events v"
proof -
  obtain row ev where b: "events_of sample_id after_begin = [ev]" "find_row sample_id after_begin = Some row"
    using after_begin_state by blast
  have inv: "journal_inv sample_fns after_begin"
    unfolding after_begin_def by (intro journaling.inv_run) (simp add: sample_start_def empty_journal_def)
  obtain v where v: "journal_read sample_fns sample_id after_begin = Inr v"
    by (rule journal_read_row [OF inv b(2)]) (use b(1) in \<open>auto simp: MAX_EVENTS_def\<close>)
  have "ev_hash ev = ''h''"
    using journal_read_accepted(1) [OF v] b(1) by (simp add: accepted_event_def event_hash_def sample_fns_def)
  with read_hash_binds_events [OF v v] b(1) v show ?thesis by simp
qed

end
