(* ===== verification/Spec2Isabelle.thy ===== *)
theory Spec2Isabelle
  imports IncidentGuarantees PolicyGuarantees Kubectl Designer ArgoTools RewardContract Curriculum History RightSizing ActionExecution AdmissionSpec Grounding DispatchLiveness HttpRetry Journal CircuitBreaker Preconditions OperationalVerifier
begin

text \<open>
  AtlasOps answers alerts of a Kubernetes cluster with a chain of language-model agents (triage,
  diagnosis, remediation, communication).  The models propose; everything that decides whether a
  proposal touches the cluster is ordinary Python, and that Python is what this library models: the
  program under \<open>src/agents/\<close>, with the parts of \<open>src/config/\<close> and \<open>src/training/\<close> that compute
  rewards and choose scenarios.

  The program's path, and the theory of each part:

  \<^item> Alerts arrive as webhook bodies and are grouped into incidents (\<open>correlator.py\<close>, theory
    \<open>Correlator\<close>); each alert gets an occurrence reference.
  \<^item> Occurrences are admitted to a durable table, so that a restart repeats none
    (\<open>incident_admission.py\<close>, theories \<open>Admission\<close> and \<open>AdmissionSpec\<close>), queued per incident and
    handed to one handler at a time (\<open>incident_dispatch.py\<close>, theory \<open>Dispatch\<close>; theory
    \<open>DispatchLiveness\<close> shows that accepted occurrences are never lost).
  \<^item> A handled incident is an execution with a durable journal of phases
    (\<open>execution_journal.py\<close>, theory \<open>Journal\<close>), whose persisted evidence is redacted and bounded
    (\<open>evidence_redaction.py\<close>, theory \<open>Evidence\<close>).
  \<^item> An agent runs in turns (\<open>coordinator.py\<close>, theories \<open>AgentLoop\<close> for one tool call and
    \<open>AgentRun\<close> for the turns).  What its model sees is filtered (theory \<open>ModelContext\<close>), what the
    model answers is parsed (theory \<open>ModelReply\<close>), over HTTP with retries (\<open>_http_retry.py\<close>, theory
    \<open>HttpRetry\<close>).
  \<^item> A tool call passes the evidence preconditions (theory \<open>Preconditions\<close>), the role policy
    (\<open>tool_policy.py\<close>, theory \<open>ToolPolicy\<close>), the circuit breaker (\<open>circuit_breaker.py\<close>, theory
    \<open>CircuitBreaker\<close>) and two repetition guards; a mutation also needs the approval of exactly that
    action (\<open>approval.py\<close>, theory \<open>Approval\<close>).  In operational mode it is first prepared against the
    resource it will change and pinned to it (\<open>action_execution.py\<close>, theory \<open>ActionExecution\<close>).
    The tools behind the calls: kubectl commands in the scope of one cluster (\<open>tools/kubectl.py\<close>,
    theory \<open>Kubectl\<close>), Argo CD with its cached session token (\<open>tools/argocd.py\<close>, theory
    \<open>ArgoTools\<close>), and chaos experiments (\<open>tools/chaos.py\<close>, theory \<open>Chaos\<close>).
  \<^item> Every call is recorded in an append-only hash chain (\<open>audit.py\<close>, theory \<open>AuditLog\<close>).
  \<^item> Whether the incident is over is decided by reading the cluster, not by the model
    (\<open>verifier.py\<close>, theories \<open>KubeItems\<close>, \<open>Verifier\<close> and \<open>OperationalVerifier\<close>), and what the agents
    concluded is checked against what they observed (\<open>grounding.py\<close>, theory \<open>Grounding\<close>).  A
    verifier that is not satisfied at once is asked again until the workload settles (theory
    \<open>Settling\<close>), and the outcome is published to Discord and to the incident feed (\<open>comms.py\<close>,
    theory \<open>Publication\<close>).
  \<^item> \<open>handle_incident\<close> composes all of this for one incident: admission by the breaker and the
    journal, the agents, the approval of the remedy, its verification, the messages, the stored
    record, and the release of the incident's slot on every path (\<open>coordinator.py\<close>, theory
    \<open>Incident\<close>).  The stored records are listed and read by \<open>incident_history.py\<close> (theory
    \<open>History\<close>).
  \<^item> Training uses the reward of an action (\<open>training/grpo_reward.py\<close>, theory \<open>Reward\<close>), the parser
    and validation of policy actions (\<open>training/grpo_environment.py\<close>, theory \<open>PolicyAction\<close>), the
    capacity environment (\<open>training/rightsizing_env.py\<close>, theory \<open>RightSizing\<close>), and the dense reward,
    the reward contract and the curriculum of \<open>config/runtime.py\<close> (theories \<open>StepReward\<close>,
    \<open>RewardContract\<close>, \<open>Curriculum\<close>).  New scenarios proposed by a model are validated and saved by
    \<open>adversarial_designer.py\<close> (theory \<open>Designer\<close>).  A trained policy acts through an environment that
    validates, approves, executes and scores one action at a time, in training and as a remediation
    (\<open>training/grpo_environment.py\<close>, \<open>agents/policy_remediation.py\<close>, theory \<open>PolicyEnvironment\<close>).
\<close>

text \<open>
  How state and operations correspond to the code.

  \<^item> \<open>Prelude\<close>, \<open>PyValue\<close> and \<open>Json\<close> hold what all components share: results \<open>'e + 'a\<close> with \<open>rbind\<close>
    for code that raises, JSON values \<open>pyval\<close> with Python's truth test, equality and conversions,
    dictionaries as association lists in insertion order, and canonical JSON text.
  \<^item> An object with attributes is a record, a method is a function on it that returns the value, or
    the exception, with the new object; a database table is a map or a list of rows, and a
    transaction either commits the new table or returns the old one with the exception.  A fault of
    the database is an argument.
  \<^item> A component that several tasks use is a step function over the calls they make
    (\<open>cb_step\<close>, \<open>gate_step\<close>, \<open>correlator_step\<close>, \<open>dispatch_step\<close>, \<open>store_step\<close>, the journal's step): a
    run is any list of calls, so a theorem about runs holds of every interleaving.
  \<^item> An agent's run is an operation on the record \<open>agent\<close> that returns or raises.  Its effects
    (completions, tool calls, executions, permit checks, observations, notes, audit records) form
    the trace \<open>ag_trace\<close>, and what the outside answers is a function of the trace so far (record
    \<open>job\<close>), so every behaviour of models, tools, observers and approvers is covered.  Wherever the
    code awaits, other tasks may call the shared breaker and gate (\<open>await_others\<close>).
  \<^item> An incident's handling is the same kind of operation on the record \<open>handling\<close>: its trace holds
    the runs of the roles with the traces of their agents, verifications, journal and stream
    entries, files and messages, and \<open>Released\<close> for the slot that \<open>Opened\<close> took.

  What is a parameter, because its code is outside the repository or outside the language: text
  functions (\<open>fmt\<close> for \<open>str\<close> of a nested value, \<open>ff\<close> for the text of a float, \<open>jb_repr\<close>,
  \<open>jb_indented\<close>), hashes (\<open>sha\<close>, \<open>hmac\<close>), \<open>json.loads\<close> (\<open>loads\<close>, \<open>decode\<close>), the regular expressions that scrub
  free text (\<open>scrub\<close>), the float parser (\<open>pf\<close>), the HTTP and Kubernetes clients (records of functions
  whose calls are traced), clocks, generated identifiers and time-outs.

  Conventions: text is ASCII, and the long dashes and warning signs in a few messages of the code are
  hyphens here; floats that are computed with are the rationals they denote; text shown in the user
  interface and log lines are left out.
\<close>

text \<open>
  What the lemmas show, and the interfaces they go through.

  \<^item> \<open>machine\<close>, \<open>latched_machine\<close>, \<open>extending_machine\<close> and \<open>at_most_once\<close> (theory \<open>Prelude\<close>) are the
    contracts of a shared component: an invariant every call keeps, a latch only some calls release,
    an order every call extends, an effect that happens at most once for each key.  The breaker, the
    gate, the correlator, the journal and the dispatcher interpret them; admission does so through
    \<open>occurrence_store\<close>, which \<open>Dispatch\<close> relies on.
  \<^item> \<open>hash_chain\<close> (theory \<open>HashChain\<close>) is the contract of linked entries; the audit log and the two
    chains of the journal interpret it.
  \<^item> \<open>loop_invariant\<close> and its extension \<open>call_invariant\<close> (theories \<open>AgentSafety\<close>, \<open>AgentCalls\<close>) state
    what a predicate must survive to hold at the end of every run of an agent; theory
    \<open>AgentGuarantees\<close> interprets them for authorisation, approval, caps, one mutation for each reply,
    and honest conclusions.
  \<^item> \<open>stage_invariant\<close> and its extension \<open>incident_invariant\<close> (theory \<open>IncidentSteps\<close>) state what a
    predicate must survive to hold after a stage, and at the end of every handled incident,
    exceptions included; theory \<open>IncidentGuarantees\<close> interprets them for the slot, the approval of
    changes, the stored records, the order of the agents, the policy that precedes remediation and the
    verification after it that a resolved incident rests on.
  \<^item> \<open>policy_invariant\<close> and its extensions \<open>approving_invariant\<close> and \<open>step_invariant\<close> (theory
    \<open>PolicyGuarantees\<close>) do the same for a remediation by a policy: every call justified, permits
    spent once, reports true, scores resting on decided readings (theory \<open>VerifierChecks\<close> says what
    a decided check is, independently of the code; the step reward is stated with it too).
  \<^item> The admission table refines a ledger that forgets tokens and transactions (\<open>AdmissionSpec\<close>).
    The grounding report and the right-sizing verdict are proved equivalent to independent
    statements of what they mean.
  \<^item> Other groups: what a parser accepts and when it raises (\<open>PolicyAction\<close>, \<open>ModelReply\<close>), termination
    of its scan, read-back of stored transitions (\<open>Journal\<close>), bounds of quotas, retries, rewards and
    persisted evidence; what a command may change and where (\<open>Kubectl\<close>), that a token only goes to
    the server that issued it (\<open>ArgoTools\<close>), that a saved scenario is bounded and that no
    failure of a save leaves a manifest without its metadata (\<open>Designer\<close>), the consistency of the curriculum under any episodes (\<open>Curriculum\<close>), and
    that every listed record can be read back (\<open>History\<close>).

  Bounds: the runs of an agent are bounded by the code's own \<open>max_turns\<close>, and retries by its own
  \<open>max_attempts\<close>, so no fuel is needed.  Recursion over JSON values is structural; the redaction's depth
  limit is the code's.  That a queue of the dispatcher drains is an induction over a lexicographic
  measure of what is left on it.  The bracket scan of \<open>ModelReply\<close> is a \<open>while_option\<close> whose result is proved to
  exist.

  Not modelled: prompts and model weights; the HTTP routes, event streams and dashboards around the
  components; the telemetry tools (Prometheus, Jaeger, Alertmanager, cloud logs),
  which return what an HTTP service answers; drivers for training,
  benchmarks and releases, which call tensor libraries, clusters and model hubs; and, in
  \<open>handle_incident\<close>, the choice of the trained-policy back end, the live judge, the evidence of Stage A, metrics,
  user interface events and the closing Discord ping, none of which decides what is done to the
  cluster on the agents' path.  A reply whose \<open>content\<close> is
  neither text nor null, which only an unvalidated provider outside operational mode can send, is read
  as empty text.
\<close>

end
